(* ===== verification/Prelude.thy ===== *)
theory Prelude
  imports Main "HOL-Library.Multiset" "HOL-Library.Char_ord" "HOL-Library.List_Lexorder"
    "HOL-Library.Product_Lexorder"
begin

text \<open>
  Shared vocabulary of the development.

  \<^item> \<open>'e + 'a\<close> is Rust's \<open>Result<A, E>\<close>: \<open>Inl\<close> is \<open>Err\<close>, \<open>Inr\<close> is \<open>Ok\<close>; \<open>bnd\<close> is the
    question-mark operator, \<open>ok_or\<close> is \<open>Option::ok_or_else\<close>, \<open>reject_if\<close> an early
    \<open>return Err(..)\<close>, \<open>for_each\<close> and \<open>fold_res\<close> the loops whose body may return early.
  \<^item> \<open>usize\<close> values are natural numbers below \<open>2^64\<close>; the \<open>checked_*\<close> operations are the
    standard library's and fail exactly on overflow or underflow.
  \<^item> a byte is an Isabelle \<open>char\<close> (eight bits), so a \<open>[u8]\<close> slice and the bytes of a
    \<open>str\<close> are both \<open>string\<close>, and slice comparison is the lexicographic list order.
  \<^item> \<open>kernel_error\<close> is \<open>KernelError\<close> without its diagnostic text; its last constructor is not a
    variant of the source but the outcome of an index expression out of range, a panic that
    unwinds to the entry point.
\<close>

named_theorems res_simps \<open>rewriting of monadic results into their successful parts\<close>

type_synonym byte = char
type_synonym bytes = "char list"
type_synonym text_str = string
type_synonym usize = nat

section \<open>Kernel errors\<close>

datatype kernel_error = Malformed | Unsupported | ReferenceFailure | Resource | Cancelled | Panicked

type_synonym 'a kres = "kernel_error + 'a"

section \<open>The result monad\<close>

definition bnd :: "'e + 'a \<Rightarrow> ('a \<Rightarrow> 'e + 'b) \<Rightarrow> 'e + 'b" where
  "bnd m f = (case m of Inl e \<Rightarrow> Inl e | Inr x \<Rightarrow> f x)"

definition ok_or :: "'e \<Rightarrow> 'a option \<Rightarrow> 'e + 'a" where
  "ok_or e x = (case x of None \<Rightarrow> Inl e | Some y \<Rightarrow> Inr y)"

definition reject_if :: "bool \<Rightarrow> 'e \<Rightarrow> 'e + unit" where
  "reject_if b e = (if b then Inl e else Inr ())"

definition map_res :: "('a \<Rightarrow> 'b) \<Rightarrow> 'e + 'a \<Rightarrow> 'e + 'b" where
  "map_res f m = bnd m (\<lambda>x. Inr (f x))"

text \<open>Statements run for their error only: \<open>m?; k\<close> and \<open>m.map(|_| ())\<close>.\<close>

definition seq :: "'e + 'a \<Rightarrow> 'e + 'b \<Rightarrow> 'e + 'b" where
  "seq m k = bnd m (\<lambda>_. k)"

definition discard :: "'e + 'a \<Rightarrow> 'e + unit" where
  "discard m = bnd m (\<lambda>_. Inr ())"

fun for_each :: "('a \<Rightarrow> 'e + unit) \<Rightarrow> 'a list \<Rightarrow> 'e + unit" where
  "for_each f [] = Inr ()"
| "for_each f (x # xs) = bnd (f x) (\<lambda>_. for_each f xs)"

fun fold_res :: "('a \<Rightarrow> 's \<Rightarrow> 'e + 's) \<Rightarrow> 'a list \<Rightarrow> 's \<Rightarrow> 'e + 's" where
  "fold_res f [] s = Inr s"
| "fold_res f (x # xs) s = bnd (f x s) (fold_res f xs)"

fun exists_res :: "('a \<Rightarrow> 'e + bool) \<Rightarrow> 'a list \<Rightarrow> 'e + bool" where
  "exists_res f [] = Inr False"
| "exists_res f (x # xs) = bnd (f x) (\<lambda>b. if b then Inr True else exists_res f xs)"

lemma bnd_Inl [simp]: "bnd (Inl e) f = Inl e"
  by (simp add: bnd_def)

lemma bnd_Inr [simp]: "bnd (Inr x) f = f x"
  by (simp add: bnd_def)

lemma bnd_eq_Inr [res_simps]: "bnd m f = Inr y \<longleftrightarrow> (\<exists>x. m = Inr x \<and> f x = Inr y)"
  by (cases m) auto

lemma bnd_eq_Inl: "bnd m f = Inl e \<longleftrightarrow> m = Inl e \<or> (\<exists>x. m = Inr x \<and> f x = Inl e)"
  by (cases m) auto

lemma bnd_assoc: "bnd (bnd m f) g = bnd m (\<lambda>x. bnd (f x) g)"
  by (cases m) auto

lemma bnd_cong [fundef_cong]:
  "m = m' \<Longrightarrow> (\<And>x. m' = Inr x \<Longrightarrow> f x = f' x) \<Longrightarrow> bnd m f = bnd m' f'"
  by (cases m') auto

lemma ok_or_eq_Inr [res_simps]: "ok_or e x = Inr y \<longleftrightarrow> x = Some y"
  by (cases x) (auto simp: ok_or_def)

lemma ok_or_Some [simp]: "ok_or e (Some y) = Inr y"
  by (simp add: ok_or_def)

lemma ok_or_None [simp]: "ok_or e None = Inl e"
  by (simp add: ok_or_def)

lemma reject_if_eq_Inr [res_simps]: "reject_if b e = Inr u \<longleftrightarrow> \<not> b"
  by (simp add: reject_if_def)

lemma reject_if_simps [simp]: "reject_if False e = Inr ()" "reject_if True e = Inl e"
  by (simp_all add: reject_if_def)

lemma map_res_simps [simp]: "map_res f (Inr x) = Inr (f x)" "map_res f (Inl e) = Inl e"
  by (simp_all add: map_res_def)

lemma map_res_eq_Inr [res_simps]: "map_res f m = Inr y \<longleftrightarrow> (\<exists>x. m = Inr x \<and> y = f x)"
  by (cases m) (auto simp: map_res_def)

lemma seq_eq_Inr [res_simps]: "seq m k = Inr y \<longleftrightarrow> (\<exists>x. m = Inr x) \<and> k = Inr y"
  by (cases m) (auto simp: seq_def)

lemma seq_cong [fundef_cong]:
  "m = m' \<Longrightarrow> (\<And>x. m' = Inr x \<Longrightarrow> k = k') \<Longrightarrow> seq m k = seq m' k'"
  by (cases m') (auto simp: seq_def)

lemma seq_simps [simp]: "seq (Inr x) k = k" "seq (Inl e) k = Inl e"
  by (simp_all add: seq_def)

lemma discard_eq_Inr [res_simps]: "discard m = Inr u \<longleftrightarrow> (\<exists>x. m = Inr x)"
  by (cases m) (auto simp: discard_def)

lemma discard_simps [simp]: "discard (Inr x) = Inr ()" "discard (Inl e) = Inl e"
  by (simp_all add: discard_def)

lemma for_each_eq_Inr [res_simps]: "for_each f xs = Inr u \<longleftrightarrow> (\<forall>x \<in> set xs. f x = Inr ())"
  by (induction xs) (auto simp: bnd_eq_Inr)

lemma fold_res_append: "fold_res f (xs @ ys) s = bnd (fold_res f xs s) (fold_res f ys)"
  by (induction xs arbitrary: s) (auto simp: bnd_assoc intro!: bnd_cong)

lemma fold_res_invariant:
  assumes "fold_res f xs s = Inr t" and "P s"
    and "\<And>x s t. x \<in> set xs \<Longrightarrow> P s \<Longrightarrow> f x s = Inr t \<Longrightarrow> P t"
  shows "P t"
  using assms
proof (induction xs arbitrary: s)
  case Nil
  then show ?case by simp
next
  case (Cons x xs)
  from Cons.prems(1) obtain s' where "f x s = Inr s'" and r: "fold_res f xs s' = Inr t"
    by (auto simp: bnd_eq_Inr)
  with Cons.prems(2,3) have "P s'" by force
  with r show ?case using Cons.IH Cons.prems(3) by (meson list.set_intros(2))
qed

lemma fold_res_trace:
  assumes "fold_res f [a ..< b] s = Inr t" and "a \<le> b"
  shows "\<exists>S. S a = s \<and> S b = t \<and> (\<forall>i \<in> {a ..< b}. f i (S i) = Inr (S (Suc i)))"
  using assms
proof (induction b arbitrary: t)
  case 0
  then show ?case by (intro exI [of _ "\<lambda>_. s"]) simp
next
  case (Suc b)
  show ?case
  proof (cases "a \<le> b")
    case False
    with Suc.prems show ?thesis by (intro exI [of _ "\<lambda>_. s"]) auto
  next
    case True
    with Suc.prems(1) obtain u where u: "fold_res f [a ..< b] s = Inr u" and l: "f b u = Inr t"
      by (auto simp: fold_res_append bnd_eq_Inr)
    from Suc.IH [OF u True] obtain S where S: "S a = s" "S b = u" "\<forall>i \<in> {a ..< b}. f i (S i) = Inr (S (Suc i))" by blast
    have "\<forall>i \<in> {a ..< Suc b}. f i ((S(Suc b := t)) i) = Inr ((S(Suc b := t)) (Suc i))"
      using S l by (auto simp: less_Suc_eq)
    with S True show ?thesis by (intro exI [of _ "S(Suc b := t)"]) auto
  qed
qed

lemma exists_res_True:
  "exists_res f xs = Inr True \<Longrightarrow> \<exists>x \<in> set xs. f x = Inr True"
  by (induction xs) (auto simp: bnd_eq_Inr split: if_splits)

lemma exists_res_False:
  "exists_res f xs = Inr False \<longleftrightarrow> (\<forall>x \<in> set xs. f x = Inr False)"
  by (induction xs) (auto simp: bnd_eq_Inr split: if_splits)

section \<open>Checked \<open>usize\<close> arithmetic\<close>

definition fits :: "nat \<Rightarrow> bool" where
  "fits n \<longleftrightarrow> n < 2 ^ 64"

lemma fits_code [code]: "fits n \<longleftrightarrow> int n < 2 ^ 64"
  using of_nat_less_iff [of n "2 ^ 64", where 'a = int] by (simp add: fits_def)

definition checked_add :: "usize \<Rightarrow> usize \<Rightarrow> usize option" where
  "checked_add a b = (if fits (a + b) then Some (a + b) else None)"

definition checked_mul :: "usize \<Rightarrow> usize \<Rightarrow> usize option" where
  "checked_mul a b = (if fits (a * b) then Some (a * b) else None)"

definition checked_sub :: "usize \<Rightarrow> usize \<Rightarrow> usize option" where
  "checked_sub a b = (if b \<le> a then Some (a - b) else None)"

lemma checked_add_eq_Some [res_simps]:
  "checked_add a b = Some c \<longleftrightarrow> fits (a + b) \<and> c = a + b"
  by (auto simp: checked_add_def)

lemma checked_mul_eq_Some [res_simps]:
  "checked_mul a b = Some c \<longleftrightarrow> fits (a * b) \<and> c = a * b"
  by (auto simp: checked_mul_def)

lemma checked_sub_eq_Some [res_simps]:
  "checked_sub a b = Some c \<longleftrightarrow> b \<le> a \<and> c = a - b"
  by (auto simp: checked_sub_def)

lemma fits_mono: "m \<le> n \<Longrightarrow> fits n \<Longrightarrow> fits m"
  by (simp add: fits_def)

text \<open>\<open>slice.get(start..end)\<close>: the sub-slice, or nothing when the range is not inside.\<close>

definition get_range :: "'a list \<Rightarrow> nat \<Rightarrow> nat \<Rightarrow> 'a list option" where
  "get_range xs start stop =
     (if start \<le> stop \<and> stop \<le> length xs then Some (take (stop - start) (drop start xs)) else None)"

definition get_at :: "'a list \<Rightarrow> nat \<Rightarrow> 'a option" where
  "get_at xs i = (if i < length xs then Some (xs ! i) else None)"

text \<open>\<open>slice[i]\<close> and \<open>slice[i] = v\<close>, which panic out of range.\<close>

definition load :: "'a list \<Rightarrow> nat \<Rightarrow> 'a kres" where
  "load xs i = ok_or Panicked (get_at xs i)"

definition store :: "'a list \<Rightarrow> nat \<Rightarrow> 'a \<Rightarrow> 'a list kres" where
  "store xs i v = (if i < length xs then Inr (xs[i := v]) else Inl Panicked)"

lemma load_eq_Inr [res_simps]: "load xs i = Inr x \<longleftrightarrow> i < length xs \<and> xs ! i = x"
  by (auto simp: load_def get_at_def ok_or_def)

lemma store_eq_Inr [res_simps]: "store xs i v = Inr ys \<longleftrightarrow> i < length xs \<and> ys = xs[i := v]"
  by (auto simp: store_def)

lemma get_at_eq_Some [res_simps]: "get_at xs i = Some x \<longleftrightarrow> i < length xs \<and> xs ! i = x"
  by (auto simp: get_at_def)

lemma get_range_eq_Some [res_simps]:
  "get_range xs a b = Some ys \<longleftrightarrow> a \<le> b \<and> b \<le> length xs \<and> ys = take (b - a) (drop a xs)"
  by (auto simp: get_range_def)

lemma get_range_length: "get_range xs a b = Some ys \<Longrightarrow> length ys = b - a"
  by (auto simp: get_range_def split: if_splits)

section \<open>Generic list facts\<close>

definition swap :: "'a list \<Rightarrow> nat \<Rightarrow> nat \<Rightarrow> 'a list" where
  "swap xs i j = (xs[i := xs ! j])[j := xs ! i]"

lemma length_swap [simp]: "length (swap xs i j) = length xs"
  by (simp add: swap_def)

lemma nth_swap:
  "i < length xs \<Longrightarrow> j < length xs \<Longrightarrow> k < length xs \<Longrightarrow>
   swap xs i j ! k = (if k = j then xs ! i else if k = i then xs ! j else xs ! k)"
  by (auto simp: swap_def nth_list_update)

lemma mset_swap_idx [simp]:
  "i < length xs \<Longrightarrow> j < length xs \<Longrightarrow> mset (swap xs i j) = mset xs"
  unfolding swap_def by (rule mset_swap)

lemma take_swap: "i < n \<Longrightarrow> j < n \<Longrightarrow> take n (swap xs i j) = swap (take n xs) i j"
  by (simp add: swap_def take_update_swap)

lemma drop_swap: "i < n \<Longrightarrow> j < n \<Longrightarrow> drop n (swap xs i j) = drop n xs"
  by (simp add: swap_def)

text \<open>The first occurrence of every element, in order: what a hash set filter keeps.\<close>

fun first_occurrences :: "'a set \<Rightarrow> 'a list \<Rightarrow> 'a list" where
  "first_occurrences seen [] = []"
| "first_occurrences seen (x # xs) =
     (if x \<in> seen then first_occurrences seen xs
      else x # first_occurrences (insert x seen) xs)"

lemma set_first_occurrences: "set (first_occurrences S xs) = set xs - S"
  by (induction xs arbitrary: S) auto

lemma distinct_first_occurrences: "distinct (first_occurrences S xs)"
  by (induction xs arbitrary: S) (auto simp: set_first_occurrences)

lemma first_occurrences_append:
  "first_occurrences S (xs @ ys) =
   first_occurrences S xs @ first_occurrences (S \<union> set xs) ys"
  by (induction xs arbitrary: S) (auto simp: insert_commute insert_absorb)

lemma length_first_occurrences:
  assumes "finite S"
  shows "length (first_occurrences S xs) + card S = card (S \<union> set xs)"
proof -
  have "length (first_occurrences S xs) = card (set xs - S)"
    by (metis distinct_card distinct_first_occurrences set_first_occurrences)
  moreover have "card (S \<union> set xs) = card S + card (set xs - S)"
    by (metis Diff_disjoint List.finite_set Un_Diff_cancel assms card_Un_disjoint finite_Diff)
  ultimately show ?thesis by simp
qed

section \<open>Resumable bounded output\<close>

text \<open>
  Several parts of the kernel hand out a prepared sequence in batches of a size the caller
  picks. \<open>takes n s\<close> is one such call (\<open>None\<close> when it fails) and \<open>drain_with\<close> the sequence
  of calls. The contract of a provider is that a call yields the next \<open>n\<close> pending
  elements; a client then may split its requests as it likes.
\<close>

fun drain_with :: "(nat \<Rightarrow> 's \<Rightarrow> ('a list \<times> 's) option) \<Rightarrow> nat list \<Rightarrow> 's \<Rightarrow> ('a list \<times> 's) option" where
  "drain_with takes [] s = Some ([], s)"
| "drain_with takes (n # ns) s =
     (case takes n s of None \<Rightarrow> None
      | Some (xs, s') \<Rightarrow>
          (case drain_with takes ns s' of None \<Rightarrow> None | Some (ys, t) \<Rightarrow> Some (xs @ ys, t)))"

locale resumable_output =
  fixes takes :: "nat \<Rightarrow> 's \<Rightarrow> ('a list \<times> 's) option"
    and pending :: "'s \<Rightarrow> 'a list"
    and ready :: "'s \<Rightarrow> bool"
  assumes takes_next: "ready s \<Longrightarrow>
    \<exists>s'. takes n s = Some (take n (pending s), s') \<and> ready s' \<and> pending s' = drop n (pending s)"
begin

lemma drain_with_take:
  assumes "ready s"
  shows "\<exists>s'. drain_with takes ns s = Some (take (sum_list ns) (pending s), s') \<and>
    ready s' \<and> pending s' = drop (sum_list ns) (pending s)"
  using assms
proof (induction ns arbitrary: s)
  case Nil
  then show ?case by simp
next
  case (Cons n ns)
  from takes_next [OF Cons.prems] obtain s1 where s1: "takes n s = Some (take n (pending s), s1)"
    and r1: "ready s1" and p1: "pending s1 = drop n (pending s)" by blast
  from Cons.IH [OF r1] obtain s2 where
    "drain_with takes ns s1 = Some (take (sum_list ns) (pending s1), s2)"
    and "ready s2" and "pending s2 = drop (sum_list ns) (pending s1)" by blast
  with s1 p1 show ?case by (simp add: take_add add.commute)
qed

lemma drain_with_all:
  assumes "ready s" and "length (pending s) \<le> sum_list ns"
  shows "\<exists>s'. drain_with takes ns s = Some (pending s, s') \<and> ready s' \<and> pending s' = []"
  using drain_with_take [OF assms(1), of ns] assms(2) by simp

lemma drain_split_irrelevant:
  assumes "ready s" and "sum_list ns = sum_list ms"
  shows "map_option fst (drain_with takes ns s) = map_option fst (drain_with takes ms s)"
proof -
  obtain a b where "drain_with takes ns s = Some (take (sum_list ns) (pending s), a)"
    and "drain_with takes ms s = Some (take (sum_list ms) (pending s), b)"
    using drain_with_take [OF assms(1)] by blast
  with assms(2) show ?thesis by simp
qed

end

end
