(* ===== verification/Edge_Engine.thy ===== *)
theory Edge_Engine
  imports Prelude
begin

text \<open>
  The edge-policy engine of \<open>native/src/lib.rs\<close>: \<open>Edge\<close>, \<open>OutputOrder\<close>,
  \<open>DuplicatePolicy\<close>, \<open>EdgeEngine\<close> and the Python-facing \<open>EdgeBatchProcessor\<close>.

  A method that mutates \<open>self\<close> returns its result paired with the state it leaves, on the
  error paths too. The allocator is the parameter \<open>alloc\<close>: whether a reservation of that
  many elements (or bytes) succeeds. The lemmas show that the engine refines a history
  of accepted edges: encounter output is the history filtered by the duplicate policy,
  canonical output is its sort, and the counters are functions of the history.
\<close>

section \<open>Edges\<close>

datatype edge = Edge (edge_source: text_str) (edge_relation: text_str) (edge_destination: text_str)

definition edge_key :: "edge \<Rightarrow> text_str \<times> text_str \<times> text_str" where
  "edge_key e = (edge_source e, edge_relation e, edge_destination e)"

instantiation edge :: linorder
begin

definition less_eq_edge :: "edge \<Rightarrow> edge \<Rightarrow> bool" where
  "less_eq_edge a b \<longleftrightarrow> edge_key a \<le> edge_key b"

definition less_edge :: "edge \<Rightarrow> edge \<Rightarrow> bool" where
  "less_edge a b \<longleftrightarrow> edge_key a < edge_key b"

instance
proof
  fix a b c :: edge
  show "(a < b) = (a \<le> b \<and> \<not> b \<le> a)"
    unfolding less_edge_def less_eq_edge_def by (rule less_le_not_le)
  show "a \<le> a" by (simp add: less_eq_edge_def)
  show "a \<le> b \<Longrightarrow> b \<le> c \<Longrightarrow> a \<le> c" unfolding less_eq_edge_def by (rule order_trans)
  show "a \<le> b \<Longrightarrow> b \<le> a \<Longrightarrow> a = b"
    unfolding less_eq_edge_def by (drule (1) order_antisym) (auto simp: edge_key_def intro: edge.expand)
  show "a \<le> b \<or> b \<le> a" unfolding less_eq_edge_def by (rule linear)
qed

end

definition edge_from_tuple :: "text_str \<times> text_str \<times> text_str \<Rightarrow> edge" where
  "edge_from_tuple v = Edge (fst v) (fst (snd v)) (snd (snd v))"

definition edge_into_tuple :: "edge \<Rightarrow> text_str \<times> text_str \<times> text_str" where
  "edge_into_tuple e = (edge_source e, edge_relation e, edge_destination e)"

datatype py_error = PyValueError string | PyMemoryError string | PyRuntimeError string

type_synonym 'a py_res = "py_error + 'a"
type_synonym allocator = "nat \<Rightarrow> bool"

definition try_reserve :: "allocator \<Rightarrow> nat \<Rightarrow> string \<Rightarrow> unit py_res" where
  "try_reserve alloc n message = reject_if (\<not> alloc n) (PyMemoryError message)"

definition clone_string :: "allocator \<Rightarrow> text_str \<Rightarrow> text_str py_res" where
  "clone_string alloc s =
     bnd (try_reserve alloc (length s) ''native edge-string allocation failed'') (\<lambda>_. Inr s)"

definition edge_try_clone :: "allocator \<Rightarrow> edge \<Rightarrow> edge py_res" where
  "edge_try_clone alloc e =
     bnd (clone_string alloc (edge_source e)) (\<lambda>s.
     bnd (clone_string alloc (edge_relation e)) (\<lambda>r.
     bnd (clone_string alloc (edge_destination e)) (\<lambda>d. Inr (Edge s r d))))"

section \<open>Policies\<close>

datatype output_order = Canonical | Encounter

definition output_order_parse :: "string \<Rightarrow> output_order py_res" where
  "output_order_parse value =
     (if value = ''canonical'' then Inr Canonical
      else if value = ''encounter'' then Inr Encounter
      else Inl (PyValueError ''order must be canonical or encounter''))"

datatype duplicate_policy = Preserve | Unique

definition duplicate_policy_parse :: "string \<Rightarrow> duplicate_policy py_res" where
  "duplicate_policy_parse value =
     (if value = ''preserve'' then Inr Preserve
      else if value = ''unique'' then Inr Unique
      else Inl (PyValueError ''duplicates must be preserve or unique''))"

section \<open>The engine\<close>

record edge_engine =
  order :: output_order
  duplicates :: duplicate_policy
  seen :: "edge set"
  canonical :: "edge list"
  raw_edges :: usize
  duplicate_edges :: usize
  finished :: bool
  cancelled :: bool
  max_edges :: "usize option"

definition engine_new :: "output_order \<Rightarrow> duplicate_policy \<Rightarrow> usize option \<Rightarrow> edge_engine" where
  "engine_new ord dup limit =
     \<lparr> order = ord, duplicates = dup, seen = {}, canonical = [], raw_edges = 0,
       duplicate_edges = 0, finished = False, cancelled = False, max_edges = limit \<rparr>"

definition ensure_active :: "edge_engine \<Rightarrow> unit py_res" where
  "ensure_active e =
     (if cancelled e then Inl (PyValueError ''native processor was cancelled'')
      else if finished e then Inl (PyValueError ''native processor is already finished'')
      else Inr ())"

fun push_loop :: "allocator \<Rightarrow> edge list \<Rightarrow> edge list \<Rightarrow> edge_engine \<Rightarrow> edge list py_res \<times> edge_engine" where
  "push_loop alloc [] output e = (Inr output, e)"
| "push_loop alloc (x # batch) output e =
     (let e1 = e\<lparr>raw_edges := raw_edges e + 1\<rparr> in
      case edge_try_clone alloc x of
        Inl err \<Rightarrow> (Inl err, e1)
      | Inr c \<Rightarrow>
          (let is_new = (c \<notin> seen e1);
               e2 = e1\<lparr>seen := insert c (seen e1)\<rparr>;
               e3 = (if \<not> is_new then e2\<lparr>duplicate_edges := duplicate_edges e2 + 1\<rparr> else e2)
           in case order e3 of
                Canonical \<Rightarrow>
                  push_loop alloc batch output
                    (if duplicates e3 = Preserve \<or> is_new
                     then e3\<lparr>canonical := canonical e3 @ [x]\<rparr> else e3)
              | Encounter \<Rightarrow>
                  push_loop alloc batch
                    (if duplicates e3 = Preserve \<or> is_new then output @ [x] else output) e3))"

definition push_checks :: "allocator \<Rightarrow> edge list \<Rightarrow> edge_engine \<Rightarrow> unit py_res" where
  "push_checks alloc batch e =
     bnd (ensure_active e) (\<lambda>_.
     bnd (ok_or (PyMemoryError ''native edge counter overflow'')
            (checked_add (raw_edges e) (length batch))) (\<lambda>next_count.
     bnd (reject_if (case max_edges e of None \<Rightarrow> False | Some limit \<Rightarrow> next_count > limit)
            (PyMemoryError ''native edge limit reached before batch allocation'')) (\<lambda>_.
     bnd (try_reserve alloc (length batch) ''native distinct-edge allocation failed'') (\<lambda>_.
     if order e = Canonical
     then try_reserve alloc (length batch) ''native canonical allocation failed''
     else try_reserve alloc (length batch) ''native output allocation failed''))))"

definition push :: "allocator \<Rightarrow> edge list \<Rightarrow> edge_engine \<Rightarrow> edge list py_res \<times> edge_engine" where
  "push alloc batch e =
     (case push_checks alloc batch e of
        Inl err \<Rightarrow> (Inl err, e)
      | Inr _ \<Rightarrow> push_loop alloc batch [] e)"

definition finish :: "edge_engine \<Rightarrow> unit py_res \<times> edge_engine" where
  "finish e =
     (case ensure_active e of
        Inl err \<Rightarrow> (Inl err, e)
      | Inr _ \<Rightarrow>
          (Inr (),
           (if order e = Canonical then e\<lparr>canonical := rev (sort (canonical e))\<rparr> else e)
             \<lparr>finished := True\<rparr>))"

fun pop_loop :: "nat \<Rightarrow> edge list \<Rightarrow> edge_engine \<Rightarrow> edge list \<times> edge_engine" where
  "pop_loop 0 output e = (output, e)"
| "pop_loop (Suc n) output e =
     (if canonical e = [] then pop_loop n output e
      else pop_loop n (output @ [last (canonical e)]) (e\<lparr>canonical := butlast (canonical e)\<rparr>))"

definition drain :: "allocator \<Rightarrow> usize \<Rightarrow> edge_engine \<Rightarrow> edge list py_res \<times> edge_engine" where
  "drain alloc max_items e =
     (if \<not> finished e
      then (Inl (PyValueError ''finish() must be called before canonical output is drained''), e)
      else if cancelled e then (Inl (PyValueError ''native processor was cancelled''), e)
      else
        (let amount = min max_items (length (canonical e)) in
         case try_reserve alloc amount ''native drain allocation failed'' of
           Inl err \<Rightarrow> (Inl err, e)
         | Inr _ \<Rightarrow> (let (output, e') = pop_loop amount [] e in (Inr output, e'))))"

definition cancel :: "edge_engine \<Rightarrow> edge_engine" where
  "cancel e = e\<lparr>cancelled := True, canonical := [], seen := {}\<rparr>"

section \<open>The Python boundary\<close>

text \<open>\<open>catch_unwind\<close>: a panic is the value \<open>None\<close>.\<close>

definition guarded :: "'a py_res option \<Rightarrow> 'a py_res" where
  "guarded operation =
     (case operation of
        Some result \<Rightarrow> result
      | None \<Rightarrow> Inl (PyRuntimeError ''panic contained at the native projector boundary''))"

definition edges_into_tuples :: "allocator \<Rightarrow> edge list \<Rightarrow> (text_str \<times> text_str \<times> text_str) list py_res" where
  "edges_into_tuples alloc edges =
     bnd (try_reserve alloc (length edges) ''native tuple-batch allocation failed'') (\<lambda>_.
     Inr (map edge_into_tuple edges))"

definition processor_new :: "string \<Rightarrow> string \<Rightarrow> usize option \<Rightarrow> edge_engine py_res" where
  "processor_new ord dup limit =
     bnd (output_order_parse ord) (\<lambda>o'.
     bnd (duplicate_policy_parse dup) (\<lambda>d. Inr (engine_new o' d limit)))"

definition push_batch :: "allocator \<Rightarrow> (text_str \<times> text_str \<times> text_str) list \<Rightarrow> edge_engine
    \<Rightarrow> (text_str \<times> text_str \<times> text_str) list py_res \<times> edge_engine" where
  "push_batch alloc batch e =
     (case try_reserve alloc (length batch) ''native input-batch allocation failed'' of
        Inl err \<Rightarrow> (guarded (Some (Inl err)), e)
      | Inr _ \<Rightarrow>
          (let (result, e') = push alloc (map edge_from_tuple batch) e
           in (guarded (Some (bnd result (edges_into_tuples alloc))), e')))"

definition processor_finish :: "edge_engine \<Rightarrow> unit py_res \<times> edge_engine" where
  "processor_finish e = (let (result, e') = finish e in (guarded (Some result), e'))"

definition drain_batch :: "allocator \<Rightarrow> usize \<Rightarrow> edge_engine
    \<Rightarrow> (text_str \<times> text_str \<times> text_str) list py_res \<times> edge_engine" where
  "drain_batch alloc max_items e =
     (if max_items = 0 then (Inl (PyValueError ''max_items must be positive''), e)
      else (let (result, e') = drain alloc max_items e
            in (guarded (Some (bnd result (edges_into_tuples alloc))), e')))"

definition stats :: "edge_engine \<Rightarrow> usize \<times> usize \<times> usize" where
  "stats e = (raw_edges e, card (seen e), duplicate_edges e)"

definition drained :: "edge_engine \<Rightarrow> bool" where
  "drained e \<longleftrightarrow> finished e \<and> canonical e = []"

definition test_injected_panic :: "edge_engine \<Rightarrow> unit py_res" where
  "test_injected_panic e = guarded None"

section \<open>The abstract history\<close>

text \<open>
  The specification state is the list of edges accepted so far. \<open>kept\<close> applies the
  duplicate policy; \<open>represents\<close> says which concrete states stand for a history.
\<close>

definition kept :: "duplicate_policy \<Rightarrow> edge list \<Rightarrow> edge list" where
  "kept dup history = (case dup of Preserve \<Rightarrow> history | Unique \<Rightarrow> first_occurrences {} history)"

definition represents :: "edge_engine \<Rightarrow> edge list \<Rightarrow> bool" where
  "represents e history \<longleftrightarrow>
     \<not> finished e \<and> \<not> cancelled e \<and>
     raw_edges e = length history \<and> seen e = set history \<and>
     duplicate_edges e + card (set history) = length history \<and>
     canonical e = (case order e of Canonical \<Rightarrow> kept (duplicates e) history | Encounter \<Rightarrow> [])"

definition kept_after :: "duplicate_policy \<Rightarrow> edge list \<Rightarrow> edge list \<Rightarrow> edge list" where
  "kept_after dup history batch =
     (case dup of Preserve \<Rightarrow> batch | Unique \<Rightarrow> first_occurrences (set history) batch)"

lemma kept_append: "kept dup (h @ b) = kept dup h @ kept_after dup h b"
  by (cases dup) (simp_all add: kept_def kept_after_def first_occurrences_append)

lemma kept_after_Cons:
  "kept_after dup h (x # b) =
   (if dup = Preserve \<or> x \<notin> set h then [x] else []) @ kept_after dup (h @ [x]) b"
  by (cases dup) (auto simp: kept_after_def insert_absorb)

lemma kept_after_Nil [simp]: "kept_after dup h [] = []"
  by (cases dup) (simp_all add: kept_after_def)

lemma edge_try_clone_Inr: "edge_try_clone alloc x = Inr c \<Longrightarrow> c = x"
  by (cases x) (auto simp: edge_try_clone_def clone_string_def try_reserve_def res_simps)

definition engine_static :: "edge_engine \<Rightarrow> output_order \<times> duplicate_policy \<times> usize option" where
  "engine_static e = (order e, duplicates e, max_edges e)"

lemma push_loop_ok:
  assumes "represents e h" and "push_loop alloc batch out e = (Inr out', e')"
  shows "represents e' (h @ batch) \<and> engine_static e' = engine_static e \<and>
    out' = out @ (case order e of Canonical \<Rightarrow> [] | Encounter \<Rightarrow> kept_after (duplicates e) h batch)"
  using assms
proof (induction batch arbitrary: h out e)
  case Nil
  then show ?case by (auto simp: engine_static_def split: output_order.split)
next
  case (Cons x batch)
  let ?new = "x \<notin> seen e"
  let ?keep = "duplicates e = Preserve \<or> ?new"
  let ?e3 = "e\<lparr>raw_edges := raw_edges e + 1, seen := insert x (seen e),
    duplicate_edges := (if ?new then duplicate_edges e else duplicate_edges e + 1),
    canonical := (case order e of Canonical \<Rightarrow> (if ?keep then canonical e @ [x] else canonical e)
                  | Encounter \<Rightarrow> canonical e)\<rparr>"
  let ?out = "case order e of Canonical \<Rightarrow> out | Encounter \<Rightarrow> (if ?keep then out @ [x] else out)"
  have clone: "edge_try_clone alloc x = Inr x"
    using Cons.prems(2) by (auto simp: Let_def dest: edge_try_clone_Inr split: sum.splits)
  have step: "push_loop alloc batch ?out ?e3 = (Inr out', e')"
    using Cons.prems(2) by (auto simp: clone Let_def split: output_order.splits if_splits)
  have rep: "represents ?e3 (h @ [x])"
    using Cons.prems(1)
    by (auto simp: represents_def kept_append kept_after_Cons insert_absorb card_insert_if
        split: output_order.split)
  have "seen e = set h" using Cons.prems(1) by (simp add: represents_def)
  with Cons.IH [OF rep step] show ?case
    by (auto simp: engine_static_def kept_after_Cons split: output_order.splits)
qed

lemma push_ok:
  assumes "represents e h" and "push alloc batch e = (Inr out, e')"
  shows "represents e' (h @ batch) \<and> engine_static e' = engine_static e \<and>
    out = (case order e of Canonical \<Rightarrow> [] | Encounter \<Rightarrow> kept_after (duplicates e) h batch)"
  using push_loop_ok [OF assms(1), of alloc batch "[]" out e'] assms(2)
  by (auto simp: push_def split: sum.splits)

lemma represents_new: "represents (engine_new ord dup limit) []"
  by (cases ord) (simp_all add: represents_def engine_new_def kept_def split: duplicate_policy.split)

section \<open>Pushing a sequence of batches\<close>

fun push_all :: "allocator \<Rightarrow> edge list list \<Rightarrow> edge_engine \<Rightarrow> edge list py_res \<times> edge_engine" where
  "push_all alloc [] e = (Inr [], e)"
| "push_all alloc (b # bs) e =
     (case push alloc b e of
        (Inl err, e') \<Rightarrow> (Inl err, e')
      | (Inr out, e') \<Rightarrow>
          (case push_all alloc bs e' of
             (Inl err, e'') \<Rightarrow> (Inl err, e'')
           | (Inr outs, e'') \<Rightarrow> (Inr (out @ outs), e'')))"

lemma push_all_ok:
  assumes "represents e h" and "push_all alloc bs e = (Inr out, e')"
  shows "represents e' (h @ concat bs) \<and> engine_static e' = engine_static e \<and>
    out = (case order e of Canonical \<Rightarrow> [] | Encounter \<Rightarrow> kept_after (duplicates e) h (concat bs))"
  using assms
proof (induction bs arbitrary: h e out)
  case Nil
  then show ?case by (auto split: output_order.split)
next
  case (Cons b bs)
  from Cons.prems(2) obtain o1 e1 o2 where p: "push alloc b e = (Inr o1, e1)"
    and q: "push_all alloc bs e1 = (Inr o2, e')" and out: "out = o1 @ o2"
    by (auto split: prod.splits sum.splits)
  from push_ok [OF Cons.prems(1) p] have r: "represents e1 (h @ b)"
    and st: "engine_static e1 = engine_static e" by auto
  have ka: "kept_after d h (b @ c) = kept_after d h b @ kept_after d (h @ b) c" for d c
    by (cases d) (simp_all add: kept_after_def first_occurrences_append)
  from Cons.IH [OF r q] push_ok [OF Cons.prems(1) p] st out show ?case
    by (auto simp: engine_static_def ka split: output_order.splits)
qed

definition always :: allocator where
  "always n \<longleftrightarrow> True"

lemma push_loop_always: "\<exists>out' e'. push_loop always batch out e = (Inr out', e')"
proof (induction batch arbitrary: out e)
  case Nil
  then show ?case by simp
next
  case (Cons x batch)
  have "edge_try_clone always x = Inr x"
    by (cases x) (simp add: edge_try_clone_def clone_string_def try_reserve_def always_def)
  then show ?case using Cons.IH by (auto simp: Let_def split: output_order.split)
qed

lemma push_always:
  assumes "represents e h" and "fits (length h + length batch)"
    and "\<And>l. max_edges e = Some l \<Longrightarrow> length h + length batch \<le> l"
  shows "\<exists>out e'. push always batch e = (Inr out, e')"
proof -
  have "push_checks always batch e = Inr ()"
    using assms by (auto simp: push_checks_def ensure_active_def represents_def checked_add_def
        try_reserve_def always_def reject_if_def split: option.split)
  then show ?thesis using push_loop_always by (simp add: push_def)
qed

lemma push_all_always:
  assumes "represents e h" and "fits (length h + length (concat bs))"
    and "\<And>l. max_edges e = Some l \<Longrightarrow> length h + length (concat bs) \<le> l"
  shows "\<exists>out e'. push_all always bs e = (Inr out, e')"
  using assms
proof (induction bs arbitrary: h e)
  case Nil
  then show ?case by simp
next
  case (Cons b bs)
  have "\<exists>out e'. push always b e = (Inr out, e')"
  proof (rule push_always [OF Cons.prems(1)])
    show "fits (length h + length b)" using Cons.prems(2) by (auto intro: fits_mono [rotated])
    show "length h + length b \<le> l" if "max_edges e = Some l" for l
      using Cons.prems(3) [OF that] by simp
  qed
  then obtain o1 e1 where p: "push always b e = (Inr o1, e1)" by blast
  from push_ok [OF Cons.prems(1) p] have r: "represents e1 (h @ b)"
    and st: "engine_static e1 = engine_static e" by auto
  have "\<exists>out e'. push_all always bs e1 = (Inr out, e')"
    using Cons.prems(2,3) st by (intro Cons.IH [OF r]) (auto simp: engine_static_def add.assoc)
  with p show ?case by auto
qed

section \<open>Draining canonical output\<close>

lemma pop_loop_ok:
  assumes "n \<le> length (canonical e)"
  shows "pop_loop n out e =
    (out @ take n (rev (canonical e)), e\<lparr>canonical := rev (drop n (rev (canonical e)))\<rparr>)"
  using assms
proof (induction n arbitrary: out e)
  case 0
  then show ?case by simp
next
  case (Suc n)
  then obtain zs z where c: "canonical e = zs @ [z]"
    by (metis length_0_conv not_less_zero rev_exhaust zero_less_Suc le_zero_eq)
  have "n \<le> length (canonical (e\<lparr>canonical := zs\<rparr>))" using Suc.prems c by simp
  from Suc.IH [OF this] c show ?case by simp
qed

definition drain_takes :: "nat \<Rightarrow> edge_engine \<Rightarrow> (edge list \<times> edge_engine) option" where
  "drain_takes n e =
     (case drain always n e of (Inr ys, e') \<Rightarrow> Some (ys, e') | (Inl _, _) \<Rightarrow> None)"

definition drain_ready :: "edge_engine \<Rightarrow> bool" where
  "drain_ready e \<longleftrightarrow> finished e \<and> \<not> cancelled e"

interpretation engine_output: resumable_output drain_takes "\<lambda>e. rev (canonical e)" drain_ready
proof unfold_locales
  fix n and e :: edge_engine
  assume "drain_ready e"
  then have "drain_takes n e = Some (take n (rev (canonical e)),
      e\<lparr>canonical := rev (drop n (rev (canonical e)))\<rparr>)"
    by (simp add: drain_takes_def drain_ready_def drain_def always_def try_reserve_def
        pop_loop_ok min_def)
  with \<open>drain_ready e\<close> show "\<exists>s'. drain_takes n e = Some (take n (rev (canonical e)), s') \<and>
      drain_ready s' \<and> rev (canonical s') = drop n (rev (canonical e))"
    by (simp add: drain_ready_def)
qed

lemma sort_first_occurrences:
  "sort (first_occurrences {} xs) = sorted_list_of_set (set (xs :: edge list))"
  by (metis Diff_empty distinct_first_occurrences set_first_occurrences sorted_list_of_set_sort_remdups
      remdups_id_iff_distinct)

section \<open>Properties\<close>

text \<open>
  C31: encounter order. Whatever the batch boundaries, the concatenated outputs of the
  pushes are the input edges in input order, all of them under \<open>Preserve\<close> and first
  occurrences only under \<open>Unique\<close>, and the statistics report raw, distinct and duplicate
  counts of the whole input.
\<close>

theorem encounter_output:
  assumes "push_all alloc bs (engine_new Encounter dup limit) = (Inr out, e')"
  shows "out = kept dup (concat bs) \<and>
    stats e' = (length (concat bs), card (set (concat bs)),
                length (concat bs) - card (set (concat bs)))"
proof -
  note r = push_all_ok [OF represents_new assms]
  have "kept_after dup [] (concat bs) = kept dup (concat bs)"
    by (cases dup) (simp_all add: kept_def kept_after_def)
  with r show ?thesis by (auto simp: stats_def represents_def engine_new_def)
qed

theorem encounter_output_witness:
  "kept Unique [Edge ''a'' ''r'' ''b'', Edge ''a'' ''r'' ''b'', Edge ''a'' ''r'' ''c''] =
     [Edge ''a'' ''r'' ''b'', Edge ''a'' ''r'' ''c''] \<and>
   push_all always [[Edge ''a'' ''r'' ''b'', Edge ''a'' ''r'' ''b''], [Edge ''a'' ''r'' ''c'']]
     (engine_new Encounter Unique None) =
     (Inr (kept Unique [Edge ''a'' ''r'' ''b'', Edge ''a'' ''r'' ''b'', Edge ''a'' ''r'' ''c'']),
      snd (push_all always [[Edge ''a'' ''r'' ''b'', Edge ''a'' ''r'' ''b''], [Edge ''a'' ''r'' ''c'']]
        (engine_new Encounter Unique None)))"
proof -
  let ?bs = "[[Edge ''a'' ''r'' ''b'', Edge ''a'' ''r'' ''b''], [Edge ''a'' ''r'' ''c'']]"
  let ?e = "engine_new Encounter Unique None"
  have "\<exists>out e'. push_all always ?bs ?e = (Inr out, e')"
    by (rule push_all_always [OF represents_new]) (simp_all add: fits_def engine_new_def)
  then obtain out e' where h: "push_all always ?bs ?e = (Inr out, e')" by blast
  from encounter_output [OF h] h show ?thesis by (simp add: kept_def)
qed

text \<open>
  C28: canonical order. The pushes publish nothing; after \<open>finish\<close>, draining with any
  sequence of chunk sizes yields the corresponding prefix of the sorted input (of the
  sorted distinct input under \<open>Unique\<close>), and the processor reports itself drained once
  everything was requested.
\<close>

theorem canonical_output:
  assumes "push_all alloc bs (engine_new Canonical dup limit) = (Inr out, e')"
    and "sorted_edges = (case dup of Preserve \<Rightarrow> sort (concat bs)
                         | Unique \<Rightarrow> sorted_list_of_set (set (concat bs)))"
  shows "out = [] \<and> (\<exists>f g. finish e' = (Inr (), f) \<and>
    drain_with drain_takes ks f = Some (take (sum_list ks) sorted_edges, g) \<and>
    (length sorted_edges \<le> sum_list ks \<longrightarrow> drained g))"
proof -
  from push_all_ok [OF represents_new assms(1)] have rep: "represents e' (concat bs)"
    and st: "engine_static e' = engine_static (engine_new Canonical dup limit)"
    and out: "out = []" by (auto simp: engine_new_def)
  define f where "f = e'\<lparr>canonical := rev (sort (canonical e')), finished := True\<rparr>"
  have fin: "finish e' = (Inr (), f)"
    using rep st by (auto simp: finish_def f_def ensure_active_def represents_def engine_static_def
        engine_new_def)
  have can: "rev (canonical f) = sorted_edges"
    using rep st assms(2) by (auto simp: f_def represents_def engine_static_def engine_new_def
        kept_def sort_first_occurrences split: duplicate_policy.splits)
  have "drain_ready f" using rep by (simp add: f_def drain_ready_def represents_def)
  from engine_output.drain_with_take [OF this, of ks] obtain g where
    g: "drain_with drain_takes ks f = Some (take (sum_list ks) sorted_edges, g)"
      "drain_ready g" "rev (canonical g) = drop (sum_list ks) sorted_edges"
    unfolding can by blast
  then have "length sorted_edges \<le> sum_list ks \<longrightarrow> drained g"
    by (auto simp: drained_def drain_ready_def)
  with out fin g(1) show ?thesis by blast
qed

theorem canonical_output_witness:
  "\<exists>f g. finish (snd (push_all always [[Edge ''b'' ''r'' ''a''], [Edge ''a'' ''r'' ''b'']]
       (engine_new Canonical Preserve None))) = (Inr (), f) \<and>
     drain_with drain_takes [1] f =
       Some (take 1 (sort [Edge ''b'' ''r'' ''a'', Edge ''a'' ''r'' ''b'']), g)"
proof -
  let ?bs = "[[Edge ''b'' ''r'' ''a''], [Edge ''a'' ''r'' ''b'']]"
  let ?e = "engine_new Canonical Preserve None"
  have "\<exists>out e'. push_all always ?bs ?e = (Inr out, e')"
    by (rule push_all_always [OF represents_new]) (simp_all add: fits_def engine_new_def)
  then obtain out e' where h: "push_all always ?bs ?e = (Inr out, e')" by blast
  from canonical_output [OF h refl, of "[1]"] h show ?thesis by auto
qed

text \<open>
  C38: the edge limit. A batch that would take the number of accepted edges over the
  configured limit is refused with a memory error and the engine is left exactly as it
  was, so the caller's earlier edges are neither lost nor counted twice.
\<close>

theorem push_limit_refused:
  assumes "represents e history" and "max_edges e = Some limit"
    and "limit < length history + length batch"
  shows "\<exists>message. push alloc batch e = (Inl (PyMemoryError message), e)"
  using assms
  by (auto simp: push_def push_checks_def ensure_active_def represents_def checked_add_def)

theorem push_limit_refused_witness:
  "represents (engine_new Encounter Preserve (Some 1)) [] \<and>
   (\<exists>message. push always [Edge ''a'' ''r'' ''b'', Edge ''a'' ''r'' ''c'']
      (engine_new Encounter Preserve (Some 1)) =
      (Inl (PyMemoryError message), engine_new Encounter Preserve (Some 1)))"
  using push_limit_refused [OF represents_new [of Encounter Preserve "Some 1"], of 1
      "[Edge ''a'' ''r'' ''b'', Edge ''a'' ''r'' ''c'']" always]
  by (simp add: represents_new) (simp add: engine_new_def)

text \<open>After \<open>cancel\<close> every call is refused; after \<open>finish\<close> only \<open>drain\<close> is still served.\<close>

lemma terminal_refusals:
  "cancelled e \<Longrightarrow> \<exists>m. push alloc b e = (Inl (PyValueError m), e)"
  "cancelled e \<Longrightarrow> \<exists>m. finish e = (Inl (PyValueError m), e)"
  "cancelled e \<Longrightarrow> \<exists>m. drain alloc n e = (Inl (PyValueError m), e)"
  "finish e = (Inr (), f) \<Longrightarrow> \<exists>m. push alloc b f = (Inl (PyValueError m), f)"
  "finish e = (Inr (), f) \<Longrightarrow> \<exists>m. finish f = (Inl (PyValueError m), f)"
  by (auto simp: push_def push_checks_def finish_def drain_def ensure_active_def cancel_def
      split: sum.splits if_splits)

end
