(* ===== verification/Tags.thy ===== *)
theory Tags
  imports Prelude
begin

text \<open>
  The vocabulary of the structural-columns encoding: root kinds, component kinds,
  constructor tags and the tag families of \<open>encoded_direct.rs\<close>. Tags are read from
  hostile buffers, so they are numbers, not a datatype.
\<close>

section \<open>Constants\<close>

definition ROOT_ONTOLOGY_ANNOTATION :: nat where [simp]: "ROOT_ONTOLOGY_ANNOTATION = 1"
definition ROOT_AXIOM :: nat where [simp]: "ROOT_AXIOM = 2"
definition ROOT_EXTENSION :: nat where [simp]: "ROOT_EXTENSION = 3"
definition COMPONENT_NONE :: nat where [simp]: "COMPONENT_NONE = 0"
definition COMPONENT_NODE :: nat where [simp]: "COMPONENT_NODE = 1"
definition COMPONENT_TEXT :: nat where [simp]: "COMPONENT_TEXT = 2"
definition COMPONENT_BYTES :: nat where [simp]: "COMPONENT_BYTES = 3"
definition COMPONENT_INTEGER :: nat where [simp]: "COMPONENT_INTEGER = 4"
definition COMPONENT_ENUM :: nat where [simp]: "COMPONENT_ENUM = 5"
definition COMPONENT_SET :: nat where [simp]: "COMPONENT_SET = 6"
definition COMPONENT_SEQUENCE :: nat where [simp]: "COMPONENT_SEQUENCE = 7"
definition TAG_IRI :: nat where [simp]: "TAG_IRI = 1"
definition TAG_ENTITY :: nat where [simp]: "TAG_ENTITY = 2"
definition TAG_ANONYMOUS_INDIVIDUAL :: nat where [simp]: "TAG_ANONYMOUS_INDIVIDUAL = 3"
definition TAG_LITERAL :: nat where [simp]: "TAG_LITERAL = 4"
definition TAG_ANNOTATION :: nat where [simp]: "TAG_ANNOTATION = 5"
definition TAG_OBJECT_INVERSE_OF :: nat where [simp]: "TAG_OBJECT_INVERSE_OF = 10"
definition TAG_OBJECT_PROPERTY_CHAIN :: nat where [simp]: "TAG_OBJECT_PROPERTY_CHAIN = 11"
definition TAG_FACET_RESTRICTION :: nat where [simp]: "TAG_FACET_RESTRICTION = 20"
definition TAG_DATA_INTERSECTION_OF :: nat where [simp]: "TAG_DATA_INTERSECTION_OF = 21"
definition TAG_DATA_UNION_OF :: nat where [simp]: "TAG_DATA_UNION_OF = 22"
definition TAG_DATA_COMPLEMENT_OF :: nat where [simp]: "TAG_DATA_COMPLEMENT_OF = 23"
definition TAG_DATA_ONE_OF :: nat where [simp]: "TAG_DATA_ONE_OF = 24"
definition TAG_DATATYPE_RESTRICTION :: nat where [simp]: "TAG_DATATYPE_RESTRICTION = 25"
definition TAG_OBJECT_INTERSECTION_OF :: nat where [simp]: "TAG_OBJECT_INTERSECTION_OF = 30"
definition TAG_OBJECT_UNION_OF :: nat where [simp]: "TAG_OBJECT_UNION_OF = 31"
definition TAG_OBJECT_COMPLEMENT_OF :: nat where [simp]: "TAG_OBJECT_COMPLEMENT_OF = 32"
definition TAG_OBJECT_ONE_OF :: nat where [simp]: "TAG_OBJECT_ONE_OF = 33"
definition TAG_OBJECT_SOME_VALUES_FROM :: nat where [simp]: "TAG_OBJECT_SOME_VALUES_FROM = 34"
definition TAG_OBJECT_ALL_VALUES_FROM :: nat where [simp]: "TAG_OBJECT_ALL_VALUES_FROM = 35"
definition TAG_OBJECT_HAS_VALUE :: nat where [simp]: "TAG_OBJECT_HAS_VALUE = 36"
definition TAG_OBJECT_HAS_SELF :: nat where [simp]: "TAG_OBJECT_HAS_SELF = 37"
definition TAG_OBJECT_MIN_CARDINALITY :: nat where [simp]: "TAG_OBJECT_MIN_CARDINALITY = 38"
definition TAG_OBJECT_MAX_CARDINALITY :: nat where [simp]: "TAG_OBJECT_MAX_CARDINALITY = 39"
definition TAG_OBJECT_EXACT_CARDINALITY :: nat where [simp]: "TAG_OBJECT_EXACT_CARDINALITY = 40"
definition TAG_DATA_SOME_VALUES_FROM :: nat where [simp]: "TAG_DATA_SOME_VALUES_FROM = 41"
definition TAG_DATA_ALL_VALUES_FROM :: nat where [simp]: "TAG_DATA_ALL_VALUES_FROM = 42"
definition TAG_DATA_HAS_VALUE :: nat where [simp]: "TAG_DATA_HAS_VALUE = 43"
definition TAG_DATA_MIN_CARDINALITY :: nat where [simp]: "TAG_DATA_MIN_CARDINALITY = 44"
definition TAG_DATA_MAX_CARDINALITY :: nat where [simp]: "TAG_DATA_MAX_CARDINALITY = 45"
definition TAG_DATA_EXACT_CARDINALITY :: nat where [simp]: "TAG_DATA_EXACT_CARDINALITY = 46"
definition TAG_DECLARATION :: nat where [simp]: "TAG_DECLARATION = 60"
definition TAG_SUB_CLASS_OF :: nat where [simp]: "TAG_SUB_CLASS_OF = 61"
definition TAG_EQUIVALENT_CLASSES :: nat where [simp]: "TAG_EQUIVALENT_CLASSES = 62"
definition TAG_DISJOINT_CLASSES :: nat where [simp]: "TAG_DISJOINT_CLASSES = 63"
definition TAG_DISJOINT_UNION :: nat where [simp]: "TAG_DISJOINT_UNION = 64"
definition TAG_SUB_OBJECT_PROPERTY_OF :: nat where [simp]: "TAG_SUB_OBJECT_PROPERTY_OF = 70"
definition TAG_EQUIVALENT_OBJECT_PROPERTIES :: nat where [simp]: "TAG_EQUIVALENT_OBJECT_PROPERTIES = 71"
definition TAG_DISJOINT_OBJECT_PROPERTIES :: nat where [simp]: "TAG_DISJOINT_OBJECT_PROPERTIES = 72"
definition TAG_INVERSE_OBJECT_PROPERTIES :: nat where [simp]: "TAG_INVERSE_OBJECT_PROPERTIES = 73"
definition TAG_OBJECT_PROPERTY_DOMAIN :: nat where [simp]: "TAG_OBJECT_PROPERTY_DOMAIN = 74"
definition TAG_OBJECT_PROPERTY_RANGE :: nat where [simp]: "TAG_OBJECT_PROPERTY_RANGE = 75"
definition TAG_FUNCTIONAL_OBJECT_PROPERTY :: nat where [simp]: "TAG_FUNCTIONAL_OBJECT_PROPERTY = 76"
definition TAG_INVERSE_FUNCTIONAL_OBJECT_PROPERTY :: nat where [simp]: "TAG_INVERSE_FUNCTIONAL_OBJECT_PROPERTY = 77"
definition TAG_REFLEXIVE_OBJECT_PROPERTY :: nat where [simp]: "TAG_REFLEXIVE_OBJECT_PROPERTY = 78"
definition TAG_IRREFLEXIVE_OBJECT_PROPERTY :: nat where [simp]: "TAG_IRREFLEXIVE_OBJECT_PROPERTY = 79"
definition TAG_SYMMETRIC_OBJECT_PROPERTY :: nat where [simp]: "TAG_SYMMETRIC_OBJECT_PROPERTY = 80"
definition TAG_ASYMMETRIC_OBJECT_PROPERTY :: nat where [simp]: "TAG_ASYMMETRIC_OBJECT_PROPERTY = 81"
definition TAG_TRANSITIVE_OBJECT_PROPERTY :: nat where [simp]: "TAG_TRANSITIVE_OBJECT_PROPERTY = 82"
definition TAG_SUB_DATA_PROPERTY_OF :: nat where [simp]: "TAG_SUB_DATA_PROPERTY_OF = 90"
definition TAG_EQUIVALENT_DATA_PROPERTIES :: nat where [simp]: "TAG_EQUIVALENT_DATA_PROPERTIES = 91"
definition TAG_DISJOINT_DATA_PROPERTIES :: nat where [simp]: "TAG_DISJOINT_DATA_PROPERTIES = 92"
definition TAG_DATA_PROPERTY_DOMAIN :: nat where [simp]: "TAG_DATA_PROPERTY_DOMAIN = 93"
definition TAG_DATA_PROPERTY_RANGE :: nat where [simp]: "TAG_DATA_PROPERTY_RANGE = 94"
definition TAG_FUNCTIONAL_DATA_PROPERTY :: nat where [simp]: "TAG_FUNCTIONAL_DATA_PROPERTY = 95"
definition TAG_DATATYPE_DEFINITION :: nat where [simp]: "TAG_DATATYPE_DEFINITION = 100"
definition TAG_HAS_KEY :: nat where [simp]: "TAG_HAS_KEY = 101"
definition TAG_SAME_INDIVIDUAL :: nat where [simp]: "TAG_SAME_INDIVIDUAL = 110"
definition TAG_DIFFERENT_INDIVIDUALS :: nat where [simp]: "TAG_DIFFERENT_INDIVIDUALS = 111"
definition TAG_CLASS_ASSERTION :: nat where [simp]: "TAG_CLASS_ASSERTION = 112"
definition TAG_OBJECT_PROPERTY_ASSERTION :: nat where [simp]: "TAG_OBJECT_PROPERTY_ASSERTION = 113"
definition TAG_NEGATIVE_OBJECT_PROPERTY_ASSERTION :: nat where [simp]: "TAG_NEGATIVE_OBJECT_PROPERTY_ASSERTION = 114"
definition TAG_DATA_PROPERTY_ASSERTION :: nat where [simp]: "TAG_DATA_PROPERTY_ASSERTION = 115"
definition TAG_NEGATIVE_DATA_PROPERTY_ASSERTION :: nat where [simp]: "TAG_NEGATIVE_DATA_PROPERTY_ASSERTION = 116"
definition TAG_ANNOTATION_ASSERTION :: nat where [simp]: "TAG_ANNOTATION_ASSERTION = 120"
definition TAG_SUB_ANNOTATION_PROPERTY_OF :: nat where [simp]: "TAG_SUB_ANNOTATION_PROPERTY_OF = 121"
definition TAG_ANNOTATION_PROPERTY_DOMAIN :: nat where [simp]: "TAG_ANNOTATION_PROPERTY_DOMAIN = 122"
definition TAG_ANNOTATION_PROPERTY_RANGE :: nat where [simp]: "TAG_ANNOTATION_PROPERTY_RANGE = 123"
definition TAG_VARIABLE :: nat where [simp]: "TAG_VARIABLE = 140"
definition TAG_CLASS_ATOM :: nat where [simp]: "TAG_CLASS_ATOM = 141"
definition TAG_DATA_RANGE_ATOM :: nat where [simp]: "TAG_DATA_RANGE_ATOM = 142"
definition TAG_OBJECT_PROPERTY_ATOM :: nat where [simp]: "TAG_OBJECT_PROPERTY_ATOM = 143"
definition TAG_DATA_PROPERTY_ATOM :: nat where [simp]: "TAG_DATA_PROPERTY_ATOM = 144"
definition TAG_BUILT_IN_ATOM :: nat where [simp]: "TAG_BUILT_IN_ATOM = 145"
definition TAG_SAME_INDIVIDUAL_ATOM :: nat where [simp]: "TAG_SAME_INDIVIDUAL_ATOM = 146"
definition TAG_DIFFERENT_INDIVIDUALS_ATOM :: nat where [simp]: "TAG_DIFFERENT_INDIVIDUALS_ATOM = 147"
definition TAG_SWRL_RULE :: nat where [simp]: "TAG_SWRL_RULE = 148"

definition SCHEMA_TAGS :: "nat list" where
  "SCHEMA_TAGS =
     [1, 2, 3, 4, 5, 10, 11, 20, 21, 22, 23, 24, 25, 30, 31, 32, 33, 34, 35, 36, 37, 38,
      39, 40, 41, 42, 43, 44, 45, 46, 60, 61, 62, 63, 64, 70, 71, 72, 73, 74, 75, 76, 77,
      78, 79, 80, 81, 82, 90, 91, 92, 93, 94, 95, 100, 101, 110, 111, 112, 113, 114, 115,
      116, 120, 121, 122, 123, 140, 141, 142, 143, 144, 145, 146, 147, 148]"

definition ENTITY_KINDS :: "bytes list" where
  "ENTITY_KINDS = [''class'', ''datatype'', ''object_property'', ''data_property'', ''annotation_property'', ''named_individual'']"

definition ANNOTATION_PROPERTIES :: "text_str list" where
  "ANNOTATION_PROPERTIES =
     [''http://www.w3.org/2000/01/rdf-schema#label'',
      ''http://www.w3.org/2004/02/skos/core#prefLabel'',
      ''rdfs:label'',
      ''rdfs:comment'',
      ''http://purl.obolibrary.org/obo/IAO_0000111'',
      ''http://purl.obolibrary.org/obo/IAO_0000589'',
      ''http://www.geneontology.org/formats/oboInOwl#hasRelatedSynonym'',
      ''http://www.geneontology.org/formats/oboInOwl#hasExactSynonym'',
      ''http://www.geneontology.org/formats/oboInOWL#hasExactSynonym'',
      ''http://purl.bioontology.org/ontology/SYN#synonym'',
      ''http://scai.fraunhofer.de/CSEO#Synonym'',
      ''http://purl.obolibrary.org/obo/synonym'',
      ''http://ncicb.nci.nih.gov/xml/owl/EVS/Thesaurus.owl#FULL_SYN'',
      ''http://www.ebi.ac.uk/efo/alternative_term'',
      ''http://ncicb.nci.nih.gov/xml/owl/EVS/Thesaurus.owl#Synonym'',
      ''http://bioontology.org/projects/ontologies/fma/fmaOwlDlComponent_2_0#Synonym'',
      ''http://www.geneontology.org/formats/oboInOwl#hasDefinition'',
      ''http://bioontology.org/projects/ontologies/birnlex#preferred_label'',
      ''http://bioontology.org/projects/ontologies/birnlex#synonyms'',
      ''http://www.w3.org/2004/02/skos/core#altLabel'',
      ''https://cfpub.epa.gov/ecotox#latinName'',
      ''https://cfpub.epa.gov/ecotox#commonName'',
      ''https://www.ncbi.nlm.nih.gov/taxonomy#scientific_name'',
      ''https://www.ncbi.nlm.nih.gov/taxonomy#synonym'',
      ''https://www.ncbi.nlm.nih.gov/taxonomy#equivalent_name'',
      ''https://www.ncbi.nlm.nih.gov/taxonomy#genbank_synonym'',
      ''https://www.ncbi.nlm.nih.gov/taxonomy#common_name'',
      ''http://purl.obolibrary.org/obo/IAO_0000118'',
      ''http://www.w3.org/2000/01/rdf-schema#comment'',
      ''http://www.geneontology.org/formats/oboInOwl#hasDbXref'',
      ''http://purl.org/dc/elements/1.1/description'',
      ''http://purl.org/dc/terms/description'',
      ''http://purl.org/dc/elements/1.1/title'',
      ''http://purl.org/dc/terms/title'',
      ''http://purl.obolibrary.org/obo/IAO_0000115'',
      ''http://purl.obolibrary.org/obo/IAO_0000600'',
      ''http://purl.obolibrary.org/obo/IAO_0000602'',
      ''http://purl.obolibrary.org/obo/IAO_0000601'',
      ''http://www.geneontology.org/formats/oboInOwl#hasOBONamespace'']"

definition SUBCLASS_OF :: text_str where
  "SUBCLASS_OF = ''http://subclassof''"

definition SUPERCLASS_OF :: text_str where
  "SUPERCLASS_OF = ''http://superclassof''"

definition RDF_TYPE :: text_str where
  "RDF_TYPE = ''http://type''"

definition RDF_PLAIN_LITERAL :: text_str where
  "RDF_PLAIN_LITERAL = ''http://www.w3.org/1999/02/22-rdf-syntax-ns#PlainLiteral''"

definition XSD_STRING :: text_str where
  "XSD_STRING = ''http://www.w3.org/2001/XMLSchema#string''"

definition XSD_NAMESPACE :: text_str where
  "XSD_NAMESPACE = ''http://www.w3.org/2001/XMLSchema#''"

section \<open>Tag families\<close>

definition is_restriction_tag :: "nat \<Rightarrow> bool" where
  "is_restriction_tag tag \<longleftrightarrow>
     tag \<in> set [TAG_OBJECT_SOME_VALUES_FROM, TAG_OBJECT_ALL_VALUES_FROM, 
       TAG_OBJECT_MIN_CARDINALITY, TAG_OBJECT_MAX_CARDINALITY]"

definition is_nonprojecting_class_tag :: "nat \<Rightarrow> bool" where
  "is_nonprojecting_class_tag tag \<longleftrightarrow>
     tag \<in> set [TAG_OBJECT_COMPLEMENT_OF, TAG_OBJECT_ONE_OF, TAG_OBJECT_HAS_VALUE, 
       TAG_OBJECT_HAS_SELF, TAG_OBJECT_EXACT_CARDINALITY, TAG_DATA_SOME_VALUES_FROM, 
       TAG_DATA_ALL_VALUES_FROM, TAG_DATA_HAS_VALUE, TAG_DATA_MIN_CARDINALITY, 
       TAG_DATA_MAX_CARDINALITY, TAG_DATA_EXACT_CARDINALITY]"

definition is_aggregate_tag :: "nat \<Rightarrow> bool" where
  "is_aggregate_tag tag \<longleftrightarrow>
     tag \<in> set [TAG_OBJECT_INTERSECTION_OF, TAG_OBJECT_UNION_OF]"

definition is_class_expression_tag :: "nat \<Rightarrow> bool" where
  "is_class_expression_tag tag \<longleftrightarrow>
     is_aggregate_tag tag \<or>
     is_restriction_tag tag \<or>
     is_nonprojecting_class_tag tag"

definition is_recursive_class_expression_tag :: "nat \<Rightarrow> bool" where
  "is_recursive_class_expression_tag tag \<longleftrightarrow>
     is_aggregate_tag tag \<or>
     is_restriction_tag tag \<or>
     tag \<in> set [TAG_OBJECT_COMPLEMENT_OF, TAG_OBJECT_EXACT_CARDINALITY]"

definition is_data_class_expression_tag :: "nat \<Rightarrow> bool" where
  "is_data_class_expression_tag tag \<longleftrightarrow>
     tag \<in> set [TAG_DATA_SOME_VALUES_FROM, TAG_DATA_ALL_VALUES_FROM, 
       TAG_DATA_HAS_VALUE, TAG_DATA_MIN_CARDINALITY, TAG_DATA_MAX_CARDINALITY, 
       TAG_DATA_EXACT_CARDINALITY]"

definition is_data_range_tag :: "nat \<Rightarrow> bool" where
  "is_data_range_tag tag \<longleftrightarrow>
     tag \<in> set [TAG_DATA_INTERSECTION_OF, TAG_DATA_UNION_OF, TAG_DATA_COMPLEMENT_OF, 
       TAG_DATA_ONE_OF, TAG_DATATYPE_RESTRICTION]"

definition is_recursive_data_range_tag :: "nat \<Rightarrow> bool" where
  "is_recursive_data_range_tag tag \<longleftrightarrow>
     tag \<in> set [TAG_DATA_INTERSECTION_OF, TAG_DATA_UNION_OF, TAG_DATA_COMPLEMENT_OF]"

definition is_object_property_characteristic :: "nat \<Rightarrow> bool" where
  "is_object_property_characteristic tag \<longleftrightarrow>
     tag \<in> set [TAG_FUNCTIONAL_OBJECT_PROPERTY, TAG_INVERSE_FUNCTIONAL_OBJECT_PROPERTY, 
       TAG_REFLEXIVE_OBJECT_PROPERTY, TAG_IRREFLEXIVE_OBJECT_PROPERTY, 
       TAG_SYMMETRIC_OBJECT_PROPERTY, TAG_ASYMMETRIC_OBJECT_PROPERTY, 
       TAG_TRANSITIVE_OBJECT_PROPERTY]"

definition is_swrl_atom_tag :: "nat \<Rightarrow> bool" where
  "is_swrl_atom_tag tag \<longleftrightarrow>
     tag \<in> set [TAG_CLASS_ATOM, TAG_DATA_RANGE_ATOM, TAG_OBJECT_PROPERTY_ATOM, 
       TAG_DATA_PROPERTY_ATOM, TAG_BUILT_IN_ATOM, TAG_SAME_INDIVIDUAL_ATOM, 
       TAG_DIFFERENT_INDIVIDUALS_ATOM]"

definition in_schema :: "nat \<Rightarrow> bool" where
  "in_schema tag \<longleftrightarrow> tag \<in> set SCHEMA_TAGS"

lemmas tag_family_defs = is_restriction_tag_def is_nonprojecting_class_tag_def is_class_expression_tag_def is_recursive_class_expression_tag_def is_data_class_expression_tag_def is_data_range_tag_def is_recursive_data_range_tag_def is_aggregate_tag_def is_object_property_characteristic_def is_swrl_atom_tag_def

text \<open>
  The families the projection distinguishes are pairwise disjoint, none contains the
  entity tag, and all are schema tags.
\<close>

lemma tag_families_disjoint:
  "\<not> (is_restriction_tag t \<and> is_nonprojecting_class_tag t)"
  "\<not> (is_restriction_tag t \<and> is_aggregate_tag t)"
  "\<not> (is_nonprojecting_class_tag t \<and> is_aggregate_tag t)"
  "\<not> (is_data_range_tag t \<and> is_class_expression_tag t)"
  by (auto simp: tag_family_defs)

lemma entity_in_no_family [simp]:
  "\<not> is_restriction_tag TAG_ENTITY" "\<not> is_nonprojecting_class_tag TAG_ENTITY"
  "\<not> is_aggregate_tag TAG_ENTITY" "\<not> is_class_expression_tag TAG_ENTITY"
  by (simp_all add: tag_family_defs)

lemma families_in_schema:
  "is_class_expression_tag t \<Longrightarrow> in_schema t" "is_data_range_tag t \<Longrightarrow> in_schema t"
  "is_swrl_atom_tag t \<Longrightarrow> in_schema t" "is_object_property_characteristic t \<Longrightarrow> in_schema t"
  by (auto simp: tag_family_defs in_schema_def SCHEMA_TAGS_def)

end
