(* ===== verification/Cancellable.thy ===== *)
theory Cancellable
  imports Prelude
begin

text \<open>
  Cancellation polls and the cancellable in-place algorithms at the end of
  \<open>encoded_direct.rs\<close>: \<open>check_cancel\<close>, \<open>cancellable_sort_unstable_by\<close> (a heap sort) and
  \<open>cancellable_retain\<close>, with the standard library's binary search.

  The shared atomic state is the argument \<open>st\<close>, the value it holds while the operation
  runs. A caller that flips it concurrently can only turn the result into
  \<open>Cancelled\<close> at one of the polls; what is proved for an uncancelled run is the result
  of every run that is not turned.

  The sort is proved to terminate, to permute and to sort for every comparator that
  compares keys (locale \<open>key_comparator\<close>), and to succeed on every slice shorter than
  \<open>2^56\<close>: the work counter cannot overflow because one sift polls at most twice per level
  of a heap of at most 64 levels.
\<close>

section \<open>The compiler's state word\<close>

definition STATE_IDLE :: nat where "STATE_IDLE = 0"
definition STATE_RUNNING :: nat where "STATE_RUNNING = 1"
definition STATE_FINISHED :: nat where "STATE_FINISHED = 2"
definition STATE_CANCELLED :: nat where "STATE_CANCELLED = 3"
definition STATE_FAILED :: nat where "STATE_FAILED = 4"

lemmas state_defs = STATE_IDLE_def STATE_RUNNING_def STATE_FINISHED_def STATE_CANCELLED_def
  STATE_FAILED_def

definition check_cancel :: "nat \<Rightarrow> usize \<Rightarrow> unit kres" where
  "check_cancel st index =
     (if index mod 256 = 0 \<and> st = STATE_CANCELLED then Inl Cancelled else Inr ())"

lemma check_cancel_ok [simp]: "st \<noteq> STATE_CANCELLED \<Longrightarrow> check_cancel st i = Inr ()"
  by (simp add: check_cancel_def)

section \<open>Orderings\<close>

datatype ordering = Less | Equal | Greater

definition cmp :: "'k::linorder \<Rightarrow> 'k \<Rightarrow> ordering" where
  "cmp a b = (if a < b then Less else if a = b then Equal else Greater)"

lemma cmp_Less [simp]: "cmp a b = Less \<longleftrightarrow> a < b"
  by (simp add: cmp_def)

lemma cmp_Equal [simp]: "cmp a b = Equal \<longleftrightarrow> a = b"
  by (auto simp: cmp_def)

lemma cmp_Greater [simp]: "cmp a b = Greater \<longleftrightarrow> b < a"
  by (auto simp: cmp_def)

lemma cmp_eval [simp]:
  "a < b \<Longrightarrow> cmp a b = Less" "cmp a a = Equal" "b < a \<Longrightarrow> cmp a b = Greater"
  by auto

section \<open>The heap sort\<close>

definition poll_work :: "nat \<Rightarrow> usize \<Rightarrow> usize kres" where
  "poll_work st work =
     bnd (ok_or Resource (checked_add work 1)) (\<lambda>work'.
     bnd (check_cancel st work') (\<lambda>_. Inr work'))"

definition left_child :: "usize \<Rightarrow> usize kres" where
  "left_child root = ok_or Resource (Option.bind (checked_mul root 2) (\<lambda>i. checked_add i 1))"

definition pick_child :: "nat \<Rightarrow> ('a \<Rightarrow> 'a \<Rightarrow> ordering) \<Rightarrow> usize \<Rightarrow> 'a list \<Rightarrow> usize \<Rightarrow> usize
    \<Rightarrow> (usize \<times> usize) kres" where
  "pick_child st compare end_ix values left work =
     bnd (ok_or Resource (checked_add left 1)) (\<lambda>right.
     if right < end_ix then
       bnd (poll_work st work) (\<lambda>work'.
       Inr (if compare (values ! left) (values ! right) = Less then right else left, work'))
     else Inr (left, work))"

lemma left_child_Inr: "left_child root = Inr left \<longleftrightarrow> fits (2 * root + 1) \<and> left = 2 * root + 1"
  by (auto simp: left_child_def res_simps bind_eq_Some_conv mult.commute intro: fits_mono [rotated])

lemma pick_child_Inr:
  "pick_child st compare end_ix values left work = Inr (child, work') \<Longrightarrow>
   child = left \<or> (child = Suc left \<and> Suc left < end_ix)"
  by (auto simp: pick_child_def res_simps split: if_splits)

function sift_down :: "nat \<Rightarrow> ('a \<Rightarrow> 'a \<Rightarrow> ordering) \<Rightarrow> usize \<Rightarrow> 'a list \<Rightarrow> usize \<Rightarrow> usize
    \<Rightarrow> ('a list \<times> usize) kres" where
  "sift_down st compare end_ix values root work =
     bnd (left_child root) (\<lambda>left.
     if left \<ge> end_ix then Inr (values, work)
     else
       bnd (pick_child st compare end_ix values left work) (\<lambda>(child, work1).
       bnd (poll_work st work1) (\<lambda>work2.
       if compare (values ! root) (values ! child) \<noteq> Less then Inr (values, work2)
       else sift_down st compare end_ix (swap values root child) child work2)))"
  by pat_completeness auto
termination
  by (relation "measure (\<lambda>(st, compare, end_ix, values, root, work). end_ix - root)")
    (auto simp: left_child_Inr dest!: pick_child_Inr)

declare sift_down.simps [simp del]

fun build_heap :: "nat \<Rightarrow> ('a \<Rightarrow> 'a \<Rightarrow> ordering) \<Rightarrow> nat \<Rightarrow> 'a list \<Rightarrow> usize \<Rightarrow> ('a list \<times> usize) kres" where
  "build_heap st compare 0 values work = Inr (values, work)"
| "build_heap st compare (Suc root) values work =
     bnd (sift_down st compare (length values) values root work) (\<lambda>(values', work').
     build_heap st compare root values' work')"

fun extract_heap :: "nat \<Rightarrow> ('a \<Rightarrow> 'a \<Rightarrow> ordering) \<Rightarrow> nat \<Rightarrow> 'a list \<Rightarrow> usize \<Rightarrow> ('a list \<times> usize) kres" where
  "extract_heap st compare 0 values work = Inr (values, work)"
| "extract_heap st compare (Suc e) values work =
     bnd (sift_down st compare (Suc e) (swap values 0 (Suc e)) 0 work) (\<lambda>(values', work').
     extract_heap st compare e values' work')"

definition cancellable_sort_unstable_by :: "nat \<Rightarrow> ('a \<Rightarrow> 'a \<Rightarrow> ordering) \<Rightarrow> 'a list \<Rightarrow> 'a list kres" where
  "cancellable_sort_unstable_by st compare values =
     bnd (check_cancel st 0) (\<lambda>_.
     if length values < 2 then Inr values
     else
       bnd (build_heap st compare (length values div 2) values 0) (\<lambda>(values1, work1).
       bnd (extract_heap st compare (length values - 1) values1 work1) (\<lambda>(values2, work2).
       bnd (check_cancel st 0) (\<lambda>_. Inr values2))))"

section \<open>Heaps with one exceptional index\<close>

definition child_of :: "nat \<Rightarrow> nat \<Rightarrow> bool" where
  "child_of c i \<longleftrightarrow> c = 2 * i + 1 \<or> c = 2 * i + 2"

definition heap_at :: "('a \<Rightarrow> 'k::linorder) \<Rightarrow> nat \<Rightarrow> nat \<Rightarrow> 'a list \<Rightarrow> bool" where
  "heap_at key lo hi xs \<longleftrightarrow>
     (\<forall>i c. lo \<le> i \<and> child_of c i \<and> c < hi \<longrightarrow> key (xs ! c) \<le> key (xs ! i))"

definition heap_except :: "('a \<Rightarrow> 'k::linorder) \<Rightarrow> nat \<Rightarrow> nat \<Rightarrow> nat \<Rightarrow> 'a list \<Rightarrow> bool" where
  "heap_except key lo hi r xs \<longleftrightarrow>
     (\<forall>i c. lo \<le> i \<and> i \<noteq> r \<and> child_of c i \<and> c < hi \<longrightarrow> key (xs ! c) \<le> key (xs ! i)) \<and>
     (\<forall>p c. lo \<le> p \<and> child_of r p \<and> child_of c r \<and> c < hi \<longrightarrow> key (xs ! c) \<le> key (xs ! p))"

lemma child_of_less: "child_of c i \<Longrightarrow> i < c"
  by (auto simp: child_of_def)

lemma child_of_unique: "child_of c i \<Longrightarrow> child_of c j \<Longrightarrow> i = j"
  by (auto simp: child_of_def; presburger)

lemma heap_except_step:
  assumes h: "heap_except key lo hi r xs" and r: "lo \<le> r" and c: "child_of c r" "c < hi"
    and hi: "hi \<le> length xs" and big: "\<And>d. child_of d r \<Longrightarrow> d < hi \<Longrightarrow> key (xs ! d) \<le> key (xs ! c)"
    and less: "key (xs ! r) < key (xs ! c)"
  shows "heap_except key lo hi c (swap xs r c)"
proof -
  have rc: "r < c" using c(1) by (rule child_of_less)
  have s: "swap xs r c ! k = (if k = c then xs ! r else if k = r then xs ! c else xs ! k)"
    if "k < hi" for k using that rc c(2) hi by (simp add: nth_swap)
  have "key (swap xs r c ! d) \<le> key (swap xs r c ! i)"
    if i: "lo \<le> i" "i \<noteq> c" "child_of d i" "d < hi" for i d
  proof -
    have d: "i < d" using i(3) by (rule child_of_less)
    show ?thesis
    proof (cases "i = r")
      case True
      with i s [of d] s [of r] rc c(2) big [of d] less show ?thesis by auto
    next
      case False
      note h1 = h [unfolded heap_except_def, THEN conjunct1, rule_format, of i d]
      have dc: "d \<noteq> c" using False i(3) c(1) child_of_unique by blast
      show ?thesis
      proof (cases "d = r")
        case True
        have "key (xs ! c) \<le> key (xs ! i)"
          using h [unfolded heap_except_def, THEN conjunct2] i c True by blast
        with True False i d s show ?thesis by simp
      next
        case False
        with h1 dc i d \<open>i \<noteq> r\<close> s show ?thesis by simp
      qed
    qed
  qed
  moreover have "key (swap xs r c ! d) \<le> key (swap xs r c ! p)"
    if p: "lo \<le> p" "child_of c p" "child_of d c" "d < hi" for p d
  proof -
    have "p = r" using p(2) c(1) by (rule child_of_unique)
    moreover have "c < d" using p(3) by (rule child_of_less)
    moreover have "key (xs ! d) \<le> key (xs ! c)"
      using h [unfolded heap_except_def, THEN conjunct1, rule_format, of c d] p r rc by auto
    ultimately show ?thesis using p s [of d] s [of r] rc c(2) by auto
  qed
  ultimately show ?thesis unfolding heap_except_def by blast
qed

lemma heap_except_done:
  assumes "heap_except key lo hi r xs"
    and "\<And>c. child_of c r \<Longrightarrow> c < hi \<Longrightarrow> key (xs ! c) \<le> key (xs ! r)"
  shows "heap_at key lo hi xs"
  using assms unfolding heap_except_def heap_at_def by metis

lemma heap_root_max:
  assumes "heap_at key 0 hi xs" and "i < hi"
  shows "key (xs ! i) \<le> key (xs ! 0)"
  using assms(2)
proof (induction i rule: less_induct)
  case (less i)
  show ?case
  proof (cases "i = 0")
    case True
    then show ?thesis by simp
  next
    case False
    then have c: "child_of i ((i - 1) div 2)" by (auto simp: child_of_def; presburger)
    then have "(i - 1) div 2 < i" by (rule child_of_less)
    with less have "key (xs ! ((i - 1) div 2)) \<le> key (xs ! 0)" by simp
    moreover have "key (xs ! i) \<le> key (xs ! ((i - 1) div 2))"
      using assms(1) c less.prems unfolding heap_at_def by blast
    ultimately show ?thesis by (rule order_trans [rotated])
  qed
qed

section \<open>Correctness for key comparators\<close>

text \<open>What a client of the sort promises: its closure compares keys of a linear order.\<close>

locale key_comparator =
  fixes compare :: "'a \<Rightarrow> 'a \<Rightarrow> ordering"
    and key :: "'a \<Rightarrow> 'k::linorder"
  assumes compare_key: "compare a b = cmp (key a) (key b)"
begin

lemma pick_child_max:
  assumes "pick_child st compare hi xs left work = Inr (child, work')"
    and "left = 2 * r + 1" and "left < hi"
  shows "child_of child r \<and> child < hi \<and> r < child \<and>
    (\<forall>d. child_of d r \<longrightarrow> d < hi \<longrightarrow> key (xs ! d) \<le> key (xs ! child))"
  using assms by (auto simp: pick_child_def child_of_def compare_key res_simps split: if_splits)

lemma sift_down_sound:
  assumes "sift_down st compare hi xs r work = Inr (ys, work')"
    and "heap_except key lo hi r xs" and "lo \<le> r" and "hi \<le> length xs"
  shows "heap_at key lo hi ys \<and> mset (take hi ys) = mset (take hi xs) \<and>
    drop hi ys = drop hi xs \<and> length ys = length xs"
  using assms
proof (induction "hi - r" arbitrary: xs r work rule: less_induct)
  case less
  from less.prems(1) obtain left where left: "left_child r = Inr left" and
    eq: "(if left \<ge> hi then Inr (xs, work)
     else bnd (pick_child st compare hi xs left work) (\<lambda>(child, work1).
       bnd (poll_work st work1) (\<lambda>work2.
       if compare (xs ! r) (xs ! child) \<noteq> Less then Inr (xs, work2)
       else sift_down st compare hi (swap xs r child) child work2))) = Inr (ys, work')"
    by (subst (asm) sift_down.simps) (auto simp: bnd_eq_Inr)
  from left have l: "left = 2 * r + 1" by (simp add: left_child_Inr)
  show ?case
  proof (cases "left \<ge> hi")
    case True
    then have "heap_at key lo hi xs"
      by (intro heap_except_done [OF less.prems(2)]) (auto simp: child_of_def l)
    with True eq show ?thesis by simp
  next
    case False
    with eq obtain child work1 work2 where
      pick: "pick_child st compare hi xs left work = Inr (child, work1)" and
      rest: "(if compare (xs ! r) (xs ! child) \<noteq> Less then Inr (xs, work2)
         else sift_down st compare hi (swap xs r child) child work2) = Inr (ys, work')"
      by (auto simp: bnd_eq_Inr)
    from pick_child_max [OF pick l] False have c: "child_of child r" "child < hi" "r < child"
      and big: "\<And>d. child_of d r \<Longrightarrow> d < hi \<Longrightarrow> key (xs ! d) \<le> key (xs ! child)" by auto
    show ?thesis
    proof (cases "key (xs ! r) < key (xs ! child)")
      case True
      with rest have rec: "sift_down st compare hi (swap xs r child) child work2 = Inr (ys, work')"
        by (simp add: compare_key)
      have he: "heap_except key lo hi child (swap xs r child)"
        using heap_except_step [OF less.prems(2,3) c(1,2) less.prems(4) big True] .
      have sw: "mset (take hi (swap xs r child)) = mset (take hi xs)"
        using c less.prems(4) by (simp add: take_swap)
      have dr: "drop hi (swap xs r child) = drop hi xs"
        using c by (simp add: drop_swap)
      have "hi - child < hi - r" using c by simp
      from less.hyps [OF this rec he] less.prems(3,4) c sw dr show ?thesis by simp
    next
      case False
      with rest have "ys = xs" by (simp add: compare_key not_less le_less)
      moreover have "heap_at key lo hi xs"
        using big False by (intro heap_except_done [OF less.prems(2)]) (meson not_less order_trans)
      ultimately show ?thesis by simp
    qed
  qed
qed

lemma build_heap_sound:
  assumes "build_heap st compare k xs work = Inr (ys, work')"
    and "heap_at key k (length xs) xs"
  shows "heap_at key 0 (length ys) ys \<and> mset ys = mset xs"
  using assms
proof (induction k arbitrary: xs work)
  case 0
  then show ?case by simp
next
  case (Suc k)
  from Suc.prems(1) obtain zs w where sd: "sift_down st compare (length xs) xs k work = Inr (zs, w)"
    and rest: "build_heap st compare k zs w = Inr (ys, work')" by (auto simp: bnd_eq_Inr)
  have "heap_except key k (length xs) k xs"
    using Suc.prems(2) unfolding heap_except_def heap_at_def
    by (metis Suc_leI child_of_less le_neq_implies_less not_le)
  from sift_down_sound [OF sd this] have "heap_at key k (length zs) zs" "mset zs = mset xs"
    by auto
  with Suc.IH [OF rest] show ?case by simp
qed

lemma extract_heap_sound:
  assumes "extract_heap st compare e xs work = Inr (ys, work')" and "e < length xs"
    and "heap_at key 0 (Suc e) xs" and "sorted (map key (drop (Suc e) xs))"
    and "\<forall>x \<in> set (take (Suc e) xs). \<forall>y \<in> set (drop (Suc e) xs). key x \<le> key y"
  shows "mset ys = mset xs \<and> sorted (map key ys)"
  using assms
proof (induction e arbitrary: xs work)
  case 0
  then obtain x where "take (Suc 0) xs = [x]" by (cases xs) auto
  with "0.prems" have "sorted (map key (take (Suc 0) xs @ drop (Suc 0) xs))"
    by (auto simp: sorted_append)
  with 0 show ?case by simp
next
  case (Suc e)
  let ?sw = "swap xs 0 (Suc e)"
  from Suc.prems(1) obtain zs w where sd: "sift_down st compare (Suc e) ?sw 0 work = Inr (zs, w)"
    and rest: "extract_heap st compare e zs w = Inr (ys, work')" by (auto simp: bnd_eq_Inr)
  have sw: "?sw ! k = (if k = Suc e then xs ! 0 else if k = 0 then xs ! Suc e else xs ! k)"
    if "k < length xs" for k using nth_swap [OF less_trans [OF zero_less_Suc Suc.prems(2)] Suc.prems(2) that] .
  have "heap_except key 0 (Suc e) 0 ?sw"
    using Suc.prems(2,3) by (auto simp: heap_except_def heap_at_def child_of_def sw)
  from sift_down_sound [OF sd this] Suc.prems(2)
  have z: "heap_at key 0 (Suc e) zs" "mset (take (Suc e) zs) = mset (take (Suc e) ?sw)"
    "drop (Suc e) zs = drop (Suc e) ?sw" "length zs = length xs" by auto
  have dsw: "drop (Suc e) ?sw = xs ! 0 # drop (Suc (Suc e)) xs"
    using Suc.prems(2) by (subst Cons_nth_drop_Suc [symmetric]) (simp_all add: sw swap_def)
  have tk: "xs ! i \<in> set (take (Suc (Suc e)) xs)" if "i < Suc (Suc e)" for i
    using that Suc.prems(2) by (force simp: in_set_conv_nth)
  have tsw: "insert (xs ! 0) (set (take (Suc e) ?sw)) \<subseteq> set (take (Suc (Suc e)) xs)"
    using Suc.prems(2) tk by (auto simp: in_set_conv_nth [of _ "take (Suc e) _"] sw)
  have root: "key x \<le> key (xs ! 0)" if "x \<in> set (take (Suc (Suc e)) xs)" for x
    using that heap_root_max [OF Suc.prems(3)] by (auto simp: in_set_conv_nth)
  have st: "set (take (Suc e) zs) = set (take (Suc e) ?sw)"
    using z(2) by (metis set_mset_mset)
  have "mset ys = mset zs \<and> sorted (map key ys)"
  proof (rule Suc.IH [OF rest _ z(1)])
    show "e < length zs" using Suc.prems(2) z(4) by simp
    show "sorted (map key (drop (Suc e) zs))"
      using Suc.prems(4,5) tsw by (auto simp: z(3) dsw)
    show "\<forall>x\<in>set (take (Suc e) zs). \<forall>y\<in>set (drop (Suc e) zs). key x \<le> key y"
      using Suc.prems(5) tsw root by (auto simp: z(3) dsw st)
  qed
  moreover have "mset zs = mset ?sw"
    using z(2,3) by (metis append_take_drop_id mset_append)
  moreover have "mset ?sw = mset xs"
    using Suc.prems(2) by (intro mset_swap_idx) (auto intro: less_trans [OF zero_less_Suc])
  ultimately show ?case by simp
qed

theorem sort_sound:
  assumes "cancellable_sort_unstable_by st compare xs = Inr ys"
  shows "mset ys = mset xs \<and> sorted (map key ys)"
proof (cases "length xs < 2")
  case True
  then have "sorted (map key xs)" by (cases xs rule: remdups_adj.cases) auto
  with True assms show ?thesis by (auto simp: cancellable_sort_unstable_by_def bnd_eq_Inr)
next
  case False
  with assms obtain vs w w' where
    b: "build_heap st compare (length xs div 2) xs 0 = Inr (vs, w)" and
    e: "extract_heap st compare (length xs - 1) vs w = Inr (ys, w')"
    by (auto simp: cancellable_sort_unstable_by_def bnd_eq_Inr)
  have "heap_at key (length xs div 2) (length xs) xs"
    by (auto simp: heap_at_def child_of_def)
  from build_heap_sound [OF b this] have vs: "heap_at key 0 (length vs) vs" "mset vs = mset xs" by auto
  then have "length vs = length xs" by (metis mset_eq_length)
  moreover from False have "Suc (length xs - 1) = length xs" by simp
  ultimately show ?thesis using extract_heap_sound [OF e] vs by simp
qed

text \<open>With distinct keys the unstable sort has only one possible result.\<close>

corollary sort_unique:
  assumes "cancellable_sort_unstable_by st compare xs = Inr ys" and "inj_on key (set xs)"
  shows "ys = sort_key key xs"
  using sort_sound [OF assms(1)] assms(2) by (metis sort_key_inj_key_eq)

end

section \<open>The sort succeeds\<close>

lemma poll_work_ok:
  "st \<noteq> STATE_CANCELLED \<Longrightarrow> work + 1 < 2 ^ 64 \<Longrightarrow> poll_work st work = Inr (work + 1)"
  by (simp add: poll_work_def checked_add_def fits_def)

lemma pick_child_ok:
  assumes "st \<noteq> STATE_CANCELLED" and "left + 1 < 2 ^ 64" and "work + 1 < 2 ^ 64"
  shows "\<exists>child work'. pick_child st compare hi xs left work = Inr (child, work') \<and> work' \<le> work + 1"
  using assms poll_work_ok [of st work] by (simp add: pick_child_def checked_add_def fits_def)

lemma sift_down_total:
  assumes "st \<noteq> STATE_CANCELLED" and "hi < (root + 1) * 2 ^ k" and "root < hi" and "hi < 2 ^ 63"
    and "work + 2 * k < 2 ^ 64" and "hi \<le> length xs"
  shows "\<exists>ys work'. sift_down st compare hi xs root work = Inr (ys, work') \<and>
    length ys = length xs \<and> work' \<le> work + 2 * k"
  using assms(2-)
proof (induction k arbitrary: root work xs)
  case 0
  then show ?case by simp
next
  case (Suc k)
  have lc: "left_child root = Inr (2 * root + 1)"
    using Suc.prems by (simp add: left_child_Inr fits_def)
  show ?case
  proof (cases "2 * root + 1 \<ge> hi")
    case True
    with lc show ?thesis by (subst sift_down.simps) simp
  next
    case False
    obtain child w1 where pick: "pick_child st compare hi xs (2 * root + 1) work = Inr (child, w1)"
      and w1: "w1 \<le> work + 1"
      using pick_child_ok [OF assms(1), of "2 * root + 1" work compare hi xs] Suc.prems False by force
    from pick_child_Inr [OF pick] have ch: "child = 2 * root + 1 \<or> child = 2 * root + 2" "child < hi"
      using False by auto
    have poll: "poll_work st w1 = Inr (w1 + 1)"
      using Suc.prems w1 assms(1) by (simp add: poll_work_def checked_add_def fits_def)
    show ?thesis
    proof (cases "compare (xs ! root) (xs ! child) = Less")
      case True
      have "hi < (child + 1) * 2 ^ k"
      proof -
        have "(root + 1) * 2 ^ Suc k \<le> (child + 1) * 2 ^ k"
          using ch(1) by (auto simp: algebra_simps)
        with Suc.prems(1) show ?thesis by linarith
      qed
      from Suc.IH [OF this ch(2) Suc.prems(3), of "w1 + 1" "swap xs root child"] Suc.prems w1
      obtain ys w' where "sift_down st compare hi (swap xs root child) child (w1 + 1) = Inr (ys, w')"
        "length ys = length xs" "w' \<le> work + 2 * Suc k" by force
      then show ?thesis using lc pick poll True False
        by (subst sift_down.simps) simp
    next
      case False
      with \<open>\<not> 2 * root + 1 \<ge> hi\<close> lc pick poll w1 show ?thesis
        by (subst sift_down.simps) simp
    qed
  qed
qed

lemma build_heap_total:
  assumes "st \<noteq> STATE_CANCELLED" and "k \<le> length xs" and "length xs < 2 ^ 56"
    and "work + 128 * k < 2 ^ 64"
  shows "\<exists>ys work'. build_heap st compare k xs work = Inr (ys, work') \<and>
    length ys = length xs \<and> work' \<le> work + 128 * k"
  using assms(2-)
proof (induction k arbitrary: xs work)
  case 0
  then show ?case by simp
next
  case (Suc k)
  have "\<exists>ys work'. sift_down st compare (length xs) xs k work = Inr (ys, work') \<and>
    length ys = length xs \<and> work' \<le> work + 2 * 64"
    using Suc.prems assms(1) by (intro sift_down_total) auto
  then obtain ys w where sd: "sift_down st compare (length xs) xs k work = Inr (ys, w)"
    and ys: "length ys = length xs" "w \<le> work + 128" by auto
  from Suc.IH [of ys w] Suc.prems ys obtain zs w' where
    "build_heap st compare k ys w = Inr (zs, w')" "length zs = length xs" "w' \<le> w + 128 * k" by auto
  with sd ys show ?case by auto
qed

lemma extract_heap_total:
  assumes "st \<noteq> STATE_CANCELLED" and "e < length xs" and "length xs < 2 ^ 56"
    and "work + 128 * e < 2 ^ 64"
  shows "\<exists>ys work'. extract_heap st compare e xs work = Inr (ys, work')"
  using assms(2-)
proof (induction e arbitrary: xs work)
  case 0
  then show ?case by simp
next
  case (Suc e)
  have "\<exists>ys work'. sift_down st compare (Suc e) (swap xs 0 (Suc e)) 0 work = Inr (ys, work') \<and>
    length ys = length (swap xs 0 (Suc e)) \<and> work' \<le> work + 2 * 64"
    using Suc.prems assms(1) by (intro sift_down_total) auto
  then obtain ys w where sd: "sift_down st compare (Suc e) (swap xs 0 (Suc e)) 0 work = Inr (ys, w)"
    and ys: "length ys = length xs" "w \<le> work + 128" by auto
  from Suc.IH [of ys w] Suc.prems ys obtain zs w' where
    "extract_heap st compare e ys w = Inr (zs, w')" by auto
  with sd show ?case by auto
qed

lemma sort_total:
  assumes "st \<noteq> STATE_CANCELLED" and "length xs < 2 ^ 56"
  shows "\<exists>ys. cancellable_sort_unstable_by st compare xs = Inr ys"
proof (cases "length xs < 2")
  case True
  with assms(1) show ?thesis by (simp add: cancellable_sort_unstable_by_def)
next
  case False
  have "\<exists>ys work'. build_heap st compare (length xs div 2) xs 0 = Inr (ys, work') \<and>
    length ys = length xs \<and> work' \<le> 0 + 128 * (length xs div 2)"
    using assms by (intro build_heap_total) auto
  then obtain ys w where b: "build_heap st compare (length xs div 2) xs 0 = Inr (ys, w)"
    and ys: "length ys = length xs" "w \<le> 128 * (length xs div 2)" by auto
  have "128 * (length xs div 2) + 128 * (length xs - 1) < 2 ^ 64" using assms(2) by auto
  then have "\<exists>zs w'. extract_heap st compare (length xs - 1) ys w = Inr (zs, w')"
    using ys assms False by (intro extract_heap_total) auto
  with b False assms(1) show ?thesis by (auto simp: cancellable_sort_unstable_by_def)
qed

lemma sort_cancelled:
  "st = STATE_CANCELLED \<Longrightarrow> cancellable_sort_unstable_by st compare xs = Inl Cancelled"
  by (simp add: cancellable_sort_unstable_by_def check_cancel_def)

section \<open>In-place filtering\<close>

fun retain_loop :: "nat \<Rightarrow> ('a \<Rightarrow> bool) \<Rightarrow> nat \<Rightarrow> usize \<Rightarrow> usize \<Rightarrow> 'a list \<Rightarrow> ('a list \<times> usize) kres" where
  "retain_loop st retain 0 rd wr values = Inr (values, wr)"
| "retain_loop st retain (Suc n) rd wr values =
     bnd (check_cancel st rd) (\<lambda>_.
     if \<not> retain (values ! rd) then retain_loop st retain n (rd + 1) wr values
     else
       (let values' = (if rd \<noteq> wr then swap values rd wr else values) in
        bnd (ok_or Resource (checked_add wr 1)) (\<lambda>wr'.
        retain_loop st retain n (rd + 1) wr' values')))"

definition cancellable_retain :: "nat \<Rightarrow> ('a \<Rightarrow> bool) \<Rightarrow> 'a list \<Rightarrow> 'a list kres" where
  "cancellable_retain st retain values =
     bnd (retain_loop st retain (length values) 0 0 values) (\<lambda>(values', wr).
     bnd (check_cancel st 0) (\<lambda>_. Inr (take wr values')))"

lemma retain_loop_filter:
  assumes "st \<noteq> STATE_CANCELLED" and "fits (length xs)" and "rd + n = length xs" and "wr \<le> rd"
    and "take wr ys = filter retain (take rd xs)" and "drop rd ys = drop rd xs"
    and "length ys = length xs"
  shows "\<exists>zs w. retain_loop st retain n rd wr ys = Inr (zs, w) \<and> take w zs = filter retain xs"
  using assms(3-)
proof (induction n arbitrary: rd wr ys)
  case 0
  then show ?case by simp
next
  case (Suc n)
  let ?x = "xs ! rd"
  let ?ys = "if rd \<noteq> wr then swap ys rd wr else ys"
  have r: "rd < length xs" using Suc.prems by simp
  have yr: "ys ! rd = ?x" using Suc.prems r by (metis Cons_nth_drop_Suc list.inject)
  have tk: "take (Suc rd) xs = take rd xs @ [?x]" using r by (rule take_Suc_conv_app_nth)
  have dr: "drop (Suc rd) ys = drop (Suc rd) xs" using Suc.prems(4)
    by (metis drop_Suc tl_drop)
  show ?case
  proof (cases "retain ?x")
    case False
    then show ?thesis
      using Suc.IH [of "Suc rd" wr ys] Suc.prems tk dr yr assms(1) by simp
  next
    case True
    have "take (Suc wr) ?ys = take wr ys @ [?x]"
    proof -
      have "take (Suc wr) ?ys = take wr ?ys @ [?ys ! wr]"
        using Suc.prems r by (intro take_Suc_conv_app_nth) auto
      moreover have "take wr ?ys = take wr ys" using Suc.prems by (simp add: swap_def)
      moreover have "?ys ! wr = ?x" using Suc.prems r yr by (auto simp: nth_swap)
      ultimately show ?thesis by simp
    qed
    moreover have "drop (Suc rd) ?ys = drop (Suc rd) xs"
      using dr Suc.prems by (auto simp: drop_swap)
    moreover have "fits (Suc wr)" using assms(2) Suc.prems r by (intro fits_mono [OF _ assms(2)]) simp
    ultimately show ?thesis
      using Suc.IH [of "Suc rd" "Suc wr" "?ys"] Suc.prems tk True yr assms(1)
      by (simp add: Let_def checked_add_def)
  qed
qed

section \<open>Binary search\<close>

text \<open>\<open>slice::binary_search_by\<close>: \<open>Inr\<close> is the position of a match, \<open>Inl\<close> the insertion point.\<close>

function binary_search_in :: "('a \<Rightarrow> ordering) \<Rightarrow> 'a list \<Rightarrow> nat \<Rightarrow> nat \<Rightarrow> nat + nat" where
  "binary_search_in f xs lo hi =
     (if lo < hi then
        (let middle = lo + (hi - lo) div 2 in
         case f (xs ! middle) of
           Less \<Rightarrow> binary_search_in f xs (middle + 1) hi
         | Greater \<Rightarrow> binary_search_in f xs lo middle
         | Equal \<Rightarrow> Inr middle)
      else Inl lo)"
  by pat_completeness auto
termination
  by (relation "measure (\<lambda>(f, xs, lo, hi). hi - lo)") auto

declare binary_search_in.simps [simp del]

definition binary_search_by_key :: "('a \<Rightarrow> 'k::linorder) \<Rightarrow> 'k \<Rightarrow> 'a list \<Rightarrow> nat + nat" where
  "binary_search_by_key key target xs =
     binary_search_in (\<lambda>x. cmp (key x) target) xs 0 (length xs)"

lemma binary_search_in_spec:
  assumes "sorted (map key xs)" and "lo \<le> hi" and "hi \<le> length xs"
    and "\<forall>i < lo. key (xs ! i) < t" and "\<forall>i. hi \<le> i \<and> i < length xs \<longrightarrow> t < key (xs ! i)"
  shows "case binary_search_in (\<lambda>x. cmp (key x) t) xs lo hi of
      Inr i \<Rightarrow> i < length xs \<and> key (xs ! i) = t
    | Inl i \<Rightarrow> i \<le> length xs \<and> (\<forall>j < i. key (xs ! j) < t) \<and>
        (\<forall>j. i \<le> j \<and> j < length xs \<longrightarrow> t < key (xs ! j))"
  using assms(2-)
proof (induction "hi - lo" arbitrary: lo hi rule: less_induct)
  case less
  show ?case
  proof (cases "lo < hi")
    case False
    with less.prems show ?thesis by (subst binary_search_in.simps) auto
  next
    case True
    define m where "m = lo + (hi - lo) div 2"
    have m: "lo \<le> m" "m < hi" "m < length xs" using True less.prems by (auto simp: m_def)
    have mono: "key (xs ! i) \<le> key (xs ! j)" if "i \<le> j" "j < length xs" for i j
      using assms(1) that by (auto simp: sorted_iff_nth_mono)
    show ?thesis
    proof (cases "cmp (key (xs ! m)) t")
      case Less
      then have "\<forall>i < Suc m. key (xs ! i) < t"
        using mono m by (metis cmp_Less le_less_trans less_Suc_eq_le)
      with less.hyps [of hi "Suc m"] less.prems m Less True show ?thesis
        by (subst binary_search_in.simps) (simp add: m_def [symmetric])
    next
      case Greater
      then have "\<forall>i. m \<le> i \<and> i < length xs \<longrightarrow> t < key (xs ! i)"
        using mono by (metis cmp_Greater less_le_trans)
      with less.hyps [of m lo] less.prems m Greater True show ?thesis
        by (subst binary_search_in.simps) (simp add: m_def [symmetric])
    next
      case Equal
      with m True show ?thesis
        by (subst binary_search_in.simps) (simp add: m_def [symmetric])
    qed
  qed
qed

lemma binary_search_by_key_spec:
  assumes "sorted (map key xs)"
  shows "case binary_search_by_key key t xs of
      Inr i \<Rightarrow> i < length xs \<and> key (xs ! i) = t
    | Inl i \<Rightarrow> i \<le> length xs \<and> (\<forall>j < i. key (xs ! j) < t) \<and>
        (\<forall>j. i \<le> j \<and> j < length xs \<longrightarrow> t < key (xs ! j))"
  unfolding binary_search_by_key_def
  by (rule binary_search_in_spec [OF assms]) auto

lemma binary_search_by_key_iff:
  assumes "sorted (map key xs)" and "distinct (map key xs)"
  shows "binary_search_by_key key t xs = Inr i \<longleftrightarrow> i < length xs \<and> key (xs ! i) = t"
proof -
  have uniq: "i = j" if "i < length xs" "j < length xs" "key (xs ! i) = key (xs ! j)" for i j
    using assms(2) that nth_eq_iff_index_eq [of "map key xs" i j] by simp
  note spec = binary_search_by_key_spec [OF assms(1), of t]
  show ?thesis
  proof (cases "binary_search_by_key key t xs")
    case (Inl k)
    with spec have below: "\<forall>j < k. key (xs ! j) < t"
      and above: "\<forall>j. k \<le> j \<and> j < length xs \<longrightarrow> t < key (xs ! j)" by auto
    have "key (xs ! j) \<noteq> t" if "j < length xs" for j
      using below above that by (metis less_irrefl not_le)
    with Inl show ?thesis by auto
  next
    case (Inr k)
    with spec have "k < length xs" "key (xs ! k) = t" by auto
    with Inr uniq show ?thesis by auto
  qed
qed

section \<open>Properties\<close>

text \<open>
  C34: the cancellable heap sort. On every slice shorter than \<open>2^56\<close> and for every closure
  that compares keys, an uncancelled call returns (termination, no counter overflow) a
  permutation of its input in non-decreasing key order; a cancelled call reports
  \<open>Cancelled\<close>. When the keys are distinct, as for every sort of the kernel, the result is
  the one sorted permutation, so instability is unobservable.
\<close>

theorem cancellable_sort_correct:
  fixes key :: "'a \<Rightarrow> 'k::linorder"
  assumes "\<forall>a b. compare a b = cmp (key a) (key b)" and "length xs < 2 ^ 56"
  shows "(st \<noteq> STATE_CANCELLED \<longrightarrow>
      (\<exists>ys. cancellable_sort_unstable_by st compare xs = Inr ys \<and> mset ys = mset xs \<and>
        sorted (map key ys) \<and> (inj_on key (set xs) \<longrightarrow> ys = sort_key key xs))) \<and>
    cancellable_sort_unstable_by STATE_CANCELLED compare xs = Inl Cancelled"
proof -
  have kc: "key_comparator compare key" using assms(1) by unfold_locales simp
  show ?thesis
    using sort_total [OF _ assms(2)] key_comparator.sort_sound [OF kc]
      key_comparator.sort_unique [OF kc] sort_cancelled [OF refl] by metis
qed

theorem cancellable_sort_correct_witness:
  "\<exists>ys. cancellable_sort_unstable_by STATE_RUNNING cmp [3, 1, 2 :: nat] = Inr ys \<and>
     mset ys = mset [3, 1, 2] \<and> sorted ys"
  using cancellable_sort_correct [of cmp "\<lambda>x. x" "[3, 1, 2 :: nat]" STATE_RUNNING]
  by (auto simp: state_defs)

text \<open>
  The cancellable in-place filter. An uncancelled call returns exactly the elements
  the predicate accepts, in their original order.
\<close>

theorem cancellable_retain_filter:
  assumes "st \<noteq> STATE_CANCELLED" and "fits (length xs)"
  shows "cancellable_retain st retain xs = Inr (filter retain xs)"
  using retain_loop_filter [OF assms, of 0 "length xs" 0 xs retain] assms(1)
  by (auto simp: cancellable_retain_def)

theorem cancellable_retain_filter_witness:
  "cancellable_retain STATE_RUNNING odd [1, 2, 3 :: nat] = Inr [1, 3]"
  using cancellable_retain_filter [of STATE_RUNNING "[1, 2, 3 :: nat]" odd]
  by (simp add: state_defs fits_def)

end
