(* ===== verification/Text_Rendering.thy ===== *)
theory Text_Rendering
  imports Cancellable Tags "HOL-Library.Word"
begin

unbundle bit_operations_syntax

text \<open>
  The text and hashing helpers of \<open>encoded_direct.rs\<close>: UTF-8 validation and UTF-16 units
  of a \<open>str\<close> (what \<open>std\<close> does), the Java and OWLAPI hash functions on 32-bit words, the
  canonical varint comparison, and the rendering of anonymous identifiers and typed
  annotation literals.
\<close>

section \<open>UTF-8 and UTF-16\<close>

definition is_cont :: "nat \<Rightarrow> bool" where
  "is_cont b \<longleftrightarrow> 0x80 \<le> b \<and> b \<le> 0xBF"

text \<open>The code points of a byte sequence, when it is well-formed UTF-8.\<close>

fun utf8_decode :: "nat list \<Rightarrow> nat list option" where
  "utf8_decode [] = Some []"
| "utf8_decode (a # xs) =
     (if a < 0x80 then map_option ((#) a) (utf8_decode xs)
      else if 0xC2 \<le> a \<and> a \<le> 0xDF then
        (case xs of
           b # ys \<Rightarrow>
             if is_cont b
             then map_option ((#) ((a - 0xC0) * 0x40 + (b - 0x80))) (utf8_decode ys) else None
         | _ \<Rightarrow> None)
      else if 0xE0 \<le> a \<and> a \<le> 0xEF then
        (case xs of
           b # c # ys \<Rightarrow>
             if is_cont b \<and> is_cont c \<and> (a = 0xE0 \<longrightarrow> 0xA0 \<le> b) \<and> (a = 0xED \<longrightarrow> b \<le> 0x9F)
             then map_option ((#) ((a - 0xE0) * 0x1000 + (b - 0x80) * 0x40 + (c - 0x80)))
                    (utf8_decode ys)
             else None
         | _ \<Rightarrow> None)
      else if 0xF0 \<le> a \<and> a \<le> 0xF4 then
        (case xs of
           b # c # d # ys \<Rightarrow>
             if is_cont b \<and> is_cont c \<and> is_cont d \<and> (a = 0xF0 \<longrightarrow> 0x90 \<le> b) \<and>
               (a = 0xF4 \<longrightarrow> b \<le> 0x8F)
             then map_option ((#) ((a - 0xF0) * 0x40000 + (b - 0x80) * 0x1000
                    + (c - 0x80) * 0x40 + (d - 0x80))) (utf8_decode ys)
             else None
         | _ \<Rightarrow> None)
      else None)"

definition byte_values :: "bytes \<Rightarrow> nat list" where
  "byte_values bs = map of_char bs"

definition from_utf8 :: "kernel_error \<Rightarrow> bytes \<Rightarrow> text_str kres" where
  "from_utf8 err payload =
     (case utf8_decode (byte_values payload) of None \<Rightarrow> Inl err | Some _ \<Rightarrow> Inr payload)"

definition chars :: "text_str \<Rightarrow> nat list" where
  "chars s = (case utf8_decode (byte_values s) of None \<Rightarrow> [] | Some cs \<Rightarrow> cs)"

definition utf16_units :: "nat \<Rightarrow> nat list" where
  "utf16_units c =
     (if c < 0x10000 then [c]
      else [0xD800 + (c - 0x10000) div 0x400, 0xDC00 + (c - 0x10000) mod 0x400])"

definition encode_utf16 :: "text_str \<Rightarrow> nat list" where
  "encode_utf16 s = concat (map utf16_units (chars s))"

lemma from_utf8_eq_Inr [res_simps]:
  "from_utf8 e p = Inr s \<longleftrightarrow> s = p \<and> utf8_decode (byte_values p) \<noteq> None"
  by (auto simp: from_utf8_def split: option.splits)

section \<open>Java hashing\<close>

type_synonym i32 = "32 word"

definition hash_step :: "i32 \<Rightarrow> i32 \<Rightarrow> i32" where
  "hash_step result component = result * 31 + component"

definition java_string_hash :: "text_str \<Rightarrow> i32" where
  "java_string_hash value =
     fold (\<lambda>unit result. hash_step result (of_nat unit)) (encode_utf16 value) 0"

text \<open>The delimiters are ASCII, so the last delimiter character is the last such byte.\<close>

definition iri_split_at :: "text_str \<Rightarrow> nat" where
  "iri_split_at value =
     length value - length (takeWhile (\<lambda>c. c \<notin> set ''#/:'') (rev value))"

definition owlapi_iri_hash :: "text_str \<Rightarrow> i32" where
  "owlapi_iri_hash value =
     (let split_at = iri_split_at value
      in java_string_hash (take split_at value) + java_string_hash (drop split_at value))"

definition combine_hash :: "i32 \<Rightarrow> i32 list \<Rightarrow> i32" where
  "combine_hash seed components = fold (\<lambda>component result. hash_step result component) components seed"

text \<open>The spreading step of \<open>java.util.HashMap\<close>, on the unsigned value.\<close>

definition hash_spread :: "i32 \<Rightarrow> i32" where
  "hash_spread h = h XOR drop_bit 16 h"

section \<open>Canonical varints\<close>

fun varint_encode :: "nat \<Rightarrow> nat list" where
  "varint_encode value =
     (if value < 128 then [value]
      else (value mod 128 + 128) # varint_encode (value div 128))"

declare varint_encode.simps [simp del]

definition compare_canonical_varints :: "usize \<Rightarrow> usize \<Rightarrow> ordering" where
  "compare_canonical_varints left right = cmp (varint_encode left) (varint_encode right)"

fun varint_decode :: "nat list \<Rightarrow> nat" where
  "varint_decode [] = 0"
| "varint_decode (b # bs) = (if b < 128 then b else b - 128 + 128 * varint_decode bs)"

section \<open>Rendering\<close>

definition clone_text :: "text_str \<Rightarrow> text_str kres" where
  "clone_text value = Inr value"

definition clone_retained_role_iri :: "text_str \<Rightarrow> usize \<Rightarrow> text_str kres" where
  "clone_retained_role_iri value maximum =
     (if length value > maximum then Inl Resource else clone_text value)"

definition digit_char :: "nat \<Rightarrow> char" where
  "digit_char d = char_of (48 + d)"

fun show_nat :: "nat \<Rightarrow> string" where
  "show_nat n = (if n < 10 then [digit_char n] else show_nat (n div 10) @ [digit_char (n mod 10)])"

declare show_nat.simps [simp del]

definition genid_base :: nat where
  "genid_base = 2147483648"

definition render_anonymous_identifier :: "usize \<Rightarrow> text_str kres" where
  "render_anonymous_identifier position =
     bnd (ok_or Resource (checked_add genid_base position)) (\<lambda>identifier.
     Inr (''_:genid'' @ show_nat identifier))"

record anonymous_ids =
  node_ids :: "usize list"
  global_positions :: "usize list option"
  single_position :: "usize option"

definition anonymous_ids_default :: anonymous_ids where
  "anonymous_ids_default = \<lparr> node_ids = [], global_positions = None, single_position = None \<rparr>"

definition anonymous_position :: "anonymous_ids \<Rightarrow> usize \<Rightarrow> usize kres" where
  "anonymous_position ids local_position =
     (case (global_positions ids, single_position ids) of
        (Some positions, None) \<Rightarrow> ok_or Malformed (get_at positions local_position)
      | (Some _, Some _) \<Rightarrow> Inl Malformed
      | (None, Some position) \<Rightarrow> (if length (node_ids ids) = 1 then Inr position else Inl Malformed)
      | (None, None) \<Rightarrow> Inr local_position)"

definition anonymous_render :: "anonymous_ids \<Rightarrow> usize \<Rightarrow> text_str kres" where
  "anonymous_render ids node_id =
     (case binary_search_by_key (\<lambda>x. x) node_id (node_ids ids) of
        Inl _ \<Rightarrow> Inl Malformed
      | Inr local_position \<Rightarrow>
          bnd (anonymous_position ids local_position) render_anonymous_identifier)"

text \<open>The pinned rendering defect: escapes lose their backslash.\<close>

definition unescape_char :: "char \<Rightarrow> text_str" where
  "unescape_char c =
     (if c = CHR 0x5C then [] else if c = CHR 0x0A then ''n'' else if c = CHR 0x0D then ''r''
      else if c = CHR 0x09 then ''t'' else [c])"

definition pop_char :: "text_str \<Rightarrow> text_str" where
  "pop_char s = butlast (rev (dropWhile (\<lambda>c. is_cont (of_char c)) (rev s)))"

definition strip_prefix :: "'a list \<Rightarrow> 'a list \<Rightarrow> 'a list option" where
  "strip_prefix p s = (if take (length p) s = p then Some (drop (length p) s) else None)"

definition render_typed_annotation_literal :: "text_str \<Rightarrow> text_str \<Rightarrow> text_str kres" where
  "render_typed_annotation_literal lexical datatype =
     bnd (ok_or Resource (checked_add (length datatype) 5)) (\<lambda>datatype_capacity.
     bnd (ok_or Resource (Option.bind (checked_add (length lexical) 3)
            (\<lambda>size. checked_add size datatype_capacity))) (\<lambda>capacity.
     let output = concat (map unescape_char lexical) @ [CHR 0x22] @ ''^^'' in
     case strip_prefix XSD_NAMESPACE datatype of
       Some suffix \<Rightarrow> Inr (pop_char (output @ ''xsd:'' @ suffix))
     | None \<Rightarrow> Inr (output @ ''<'' @ datatype)))"

section \<open>Lemmas\<close>

lemma fold_hash_append:
  "fold (\<lambda>u r. hash_step r (of_nat u)) us (h :: i32) =
   h * 31 ^ length us + fold (\<lambda>u r. hash_step r (of_nat u)) us 0"
proof (induction us arbitrary: h)
  case Nil
  then show ?case by simp
next
  case (Cons u us)
  show ?case
    using Cons.IH [of "hash_step h (of_nat u)"] Cons.IH [of "hash_step 0 (of_nat u)"]
    by (simp add: hash_step_def algebra_simps)
qed

lemma hash_spread_involution: "hash_spread (hash_spread h) = h"
proof -
  have "drop_bit 16 (drop_bit 16 h) = drop_bit 32 h" by (simp add: drop_bit_drop_bit)
  also have "\<dots> = 0"
    by (intro bit_word_eqI) (auto simp: bit_drop_bit_eq dest: bit_imp_le_length)
  finally show ?thesis
    by (simp add: hash_spread_def drop_bit_xor xor.assoc)
qed

lemma varint_decode_encode: "varint_decode (varint_encode n) = n"
proof (induction n rule: varint_encode.induct)
  case (1 n)
  then show ?case by (subst varint_encode.simps) auto
qed

lemma varint_encode_inj: "varint_encode a = varint_encode b \<longleftrightarrow> a = b"
  by (metis varint_decode_encode)

lemma varint_encode_length: "n < 128 ^ k \<Longrightarrow> 0 < k \<Longrightarrow> length (varint_encode n) \<le> k"
proof (induction k arbitrary: n)
  case 0
  then show ?case by simp
next
  case (Suc k)
  show ?case
  proof (cases "n < 128")
    case True
    then show ?thesis by (subst varint_encode.simps) simp
  next
    case False
    with Suc.prems have "n div 128 < 128 ^ k" "0 < k"
      by (auto simp: less_mult_imp_div_less mult.commute intro: gr0I)
    from Suc.IH [OF this] False show ?thesis by (subst varint_encode.simps) simp
  qed
qed

fun read_nat :: "string \<Rightarrow> nat \<Rightarrow> nat" where
  "read_nat [] acc = acc"
| "read_nat (c # cs) acc = read_nat cs (acc * 10 + (of_char c - 48))"

lemma read_nat_append: "read_nat (s @ t) acc = read_nat t (read_nat s acc)"
  by (induction s arbitrary: acc) auto

lemma of_char_digit: "d < 10 \<Longrightarrow> of_char (digit_char d) = (48 + d :: nat)"
  by (simp add: digit_char_def)

lemma read_show_nat: "read_nat (show_nat n) 0 = n"
proof (induction n rule: show_nat.induct)
  case (1 n)
  then show ?case by (subst show_nat.simps) (auto simp: read_nat_append of_char_digit)
qed

lemma show_nat_length: "n < 10 ^ k \<Longrightarrow> 0 < k \<Longrightarrow> length (show_nat n) \<le> k"
proof (induction k arbitrary: n)
  case 0
  then show ?case by simp
next
  case (Suc k)
  show ?case
  proof (cases "n < 10")
    case True
    then show ?thesis by (subst show_nat.simps) simp
  next
    case False
    with Suc.prems have "n div 10 < 10 ^ k" "0 < k"
      by (auto simp: less_mult_imp_div_less mult.commute intro: gr0I)
    from Suc.IH [OF this] False show ?thesis by (subst show_nat.simps) simp
  qed
qed

lemma render_anonymous_identifier_inj:
  "render_anonymous_identifier i = Inr s \<Longrightarrow> render_anonymous_identifier j = Inr s \<Longrightarrow> i = j"
  by (auto simp: render_anonymous_identifier_def res_simps) (metis add_left_cancel read_show_nat)

lemma length_unescape: "length (concat (map unescape_char s)) \<le> length s"
  by (induction s) (auto simp: unescape_char_def)

lemma length_pop_char: "length (pop_char s) \<le> length s"
  using length_dropWhile_le [of "\<lambda>c. is_cont (of_char c)" "rev s"] by (simp add: pop_char_def)

text \<open>The \<open>i\<close>-th byte of a varint, from the number alone; 0 after its end.\<close>

definition varint_byte :: "nat \<Rightarrow> nat \<Rightarrow> nat" where
  "varint_byte n i = n div 128 ^ i mod 128 + (if 128 ^ Suc i \<le> n then 128 else 0)"

lemma varint_byte_0: "varint_byte n 0 = hd (varint_encode n)"
  by (subst varint_encode.simps) (simp add: varint_byte_def)

lemma varint_byte_Suc: "varint_byte n (Suc i) = varint_byte (n div 128) i"
proof -
  have "128 ^ Suc (Suc i) \<le> n \<longleftrightarrow> 128 ^ Suc i \<le> n div 128"
    by (simp add: less_eq_div_iff_mult_less_eq mult.commute)
  then show ?thesis by (simp add: varint_byte_def div_mult2_eq)
qed

lemma varint_byte_zero: "varint_byte 0 i = 0"
  by (simp add: varint_byte_def)

lemma ex_first_difference:
  "(\<exists>i. (\<forall>j<i. f j = g j) \<and> f i < (g i :: nat)) \<longleftrightarrow>
     f 0 < g 0 \<or> (f 0 = g 0 \<and> (\<exists>i. (\<forall>j<i. f (Suc j) = g (Suc j)) \<and> f (Suc i) < g (Suc i)))"
  (is "?l \<longleftrightarrow> ?r")
proof
  assume ?l
  then obtain i where i: "\<forall>j<i. f j = g j" "f i < g i" by blast
  show ?r
  proof (cases i)
    case (Suc k)
    with i have "f 0 = g 0" "\<forall>j<k. f (Suc j) = g (Suc j)" "f (Suc k) < g (Suc k)" by auto
    then show ?thesis by blast
  qed (use i in simp)
next
  assume ?r
  then consider "f 0 < g 0" | i where "f 0 = g 0" "\<forall>j<i. f (Suc j) = g (Suc j)" "f (Suc i) < g (Suc i)" by blast
  then show ?l
  proof cases
    case (2 i)
    then have "\<forall>j<Suc i. f j = g j" by (auto simp: less_Suc_eq_0_disj)
    with 2 show ?thesis by blast
  qed auto
qed

lemma varint_encode_less:
  "varint_encode a < varint_encode b \<longleftrightarrow> (\<exists>i. (\<forall>j<i. varint_byte a j = varint_byte b j) \<and> varint_byte a i < varint_byte b i)"
proof (induction a arbitrary: b rule: varint_encode.induct)
  case (1 a)
  note split = ex_first_difference [of "varint_byte a" "varint_byte b", unfolded varint_byte_0 varint_byte_Suc]
  have heads: "hd (varint_encode n) = (if n < 128 then n else n mod 128 + 128)" for n
    by (subst varint_encode.simps) simp
  have small: "n < 128 \<Longrightarrow> varint_encode n = [n] \<and> n div 128 = 0" for n by (subst varint_encode.simps) simp
  have large: "\<not> n < 128 \<Longrightarrow> varint_encode n = (n mod 128 + 128) # varint_encode (n div 128)" for n
    by (subst varint_encode.simps) simp
  show ?case
  proof (cases "a < 128"; cases "b < 128")
    assume "a < 128" "b < 128"
    then show ?thesis by (subst split) (simp add: heads small varint_byte_zero)
  next
    assume "a < 128" "\<not> b < 128"
    then show ?thesis by (subst split) (simp add: heads small large)
  next
    assume "\<not> a < 128" "b < 128"
    then show ?thesis by (subst split) (simp add: heads small large)
  next
    assume "\<not> a < 128" "\<not> b < 128"
    with 1 [of "b div 128"] show ?thesis by (subst split) (simp add: heads large)
  qed
qed

section \<open>Properties\<close>

text \<open>
  C40: canonical varints. The byte sequences compared are injective encodings (they decode
  back to the length) and fit the ten-byte buffer for every \<open>usize\<close>. The comparison is the order of
  the bytes, lowest seven bits first with the continuation bit in each byte but the last: it is
  \<open>Less\<close> exactly when the left byte is smaller at the first place where the bytes of the two
  numbers differ, \<open>Equal\<close> only on equal numbers, and \<open>Greater\<close> otherwise. It is not the order of
  the numbers: 300 comes before 200.
\<close>

theorem canonical_varint_order:
  "varint_decode (varint_encode a) = a \<and>
   (fits a \<longrightarrow> length (varint_encode a) \<le> 10) \<and>
   (compare_canonical_varints a b = Equal \<longleftrightarrow> a = b) \<and>
   (compare_canonical_varints a b = Less \<longleftrightarrow>
     (\<exists>i. (\<forall>j<i. varint_byte a j = varint_byte b j) \<and> varint_byte a i < varint_byte b i)) \<and>
   (compare_canonical_varints a b = Greater \<longleftrightarrow> compare_canonical_varints b a = Less) \<and>
   (compare_canonical_varints a b = Less \<longrightarrow> compare_canonical_varints b c = Less \<longrightarrow>
      compare_canonical_varints a c = Less)"
proof -
  have "length (varint_encode a) \<le> 10" if "fits a"
  proof (rule varint_encode_length)
    have "(2 :: nat) ^ 64 \<le> 128 ^ 10" by simp
    with that show "a < 128 ^ 10" unfolding fits_def by (rule less_le_trans)
  qed simp
  then show ?thesis
    by (auto simp: compare_canonical_varints_def varint_decode_encode varint_encode_inj simp flip: varint_encode_less)
qed

theorem canonical_varint_order_witness:
  "length (varint_encode 300) \<le> 10 \<and> compare_canonical_varints 300 200 = Less \<and> compare_canonical_varints 200 300 = Greater"
proof -
  have "varint_byte 300 0 < varint_byte 200 0" by (simp add: varint_byte_def)
  then have "\<exists>i. (\<forall>j<i. varint_byte 300 j = varint_byte 200 j) \<and> varint_byte 300 i < varint_byte 200 i" by (intro exI [of _ 0]) simp
  with canonical_varint_order [of 300 200 0] canonical_varint_order [of 200 300 0] show ?thesis by (simp add: fits_def)
qed

text \<open>
  Anonymous identifiers. Distinct positions render to distinct identifiers, every
  rendering starts with the blank-node prefix and fits the 27 bytes reserved for it, and
  rendering fails only when the identifier does not fit a \<open>usize\<close>.
\<close>

theorem anonymous_identifier_injective:
  "(render_anonymous_identifier i = Inr s \<and> render_anonymous_identifier j = Inr t \<longrightarrow>
      (s = t \<longleftrightarrow> i = j) \<and> take 7 s = ''_:genid'' \<and> length s \<le> 27) \<and>
   (render_anonymous_identifier i = Inl Resource \<longleftrightarrow> \<not> fits (2147483648 + i))"
proof -
  have "length s \<le> 27" if "render_anonymous_identifier i = Inr s"
  proof -
    from that have f: "fits (genid_base + i)" and s: "s = ''_:genid'' @ show_nat (genid_base + i)"
      by (auto simp: render_anonymous_identifier_def res_simps)
    have "(2 :: nat) ^ 64 \<le> 10 ^ 20" by simp
    with f have "genid_base + i < 10 ^ 20" unfolding fits_def by (rule less_le_trans)
    then have "length (show_nat (genid_base + i)) \<le> 20" by (rule show_nat_length) simp
    with s show ?thesis by simp
  qed
  moreover have "take 7 s = ''_:genid''" if "render_anonymous_identifier i = Inr s"
    using that by (auto simp: render_anonymous_identifier_def res_simps)
  moreover have "render_anonymous_identifier i = Inl Resource \<longleftrightarrow> \<not> fits (2147483648 + i)"
    by (simp add: render_anonymous_identifier_def checked_add_def genid_base_def)
  ultimately show ?thesis using render_anonymous_identifier_inj by fastforce
qed

theorem anonymous_identifier_injective_witness:
  "\<exists>s. render_anonymous_identifier 0 = Inr s \<and> length s \<le> 27"
proof -
  have r: "render_anonymous_identifier 0 = Inr (''_:genid'' @ show_nat 2147483648)"
    by (simp add: render_anonymous_identifier_def checked_add_def fits_def genid_base_def)
  from anonymous_identifier_injective [of 0 _ 0] r show ?thesis by blast
qed

text \<open>
  Hashing. The Java hash of a text is a polynomial in 31 modulo \<open>2^32\<close> over its UTF-16
  units, so a concatenation hashes from the hashes of its parts, and the spreading step is
  its own inverse: two role axioms with equal spread hashes have equal OWLAPI hashes.
\<close>

theorem java_hash_polynomial:
  "chars (s @ t) = chars s @ chars t \<Longrightarrow>
   java_string_hash (s @ t) =
     java_string_hash s * 31 ^ length (encode_utf16 t) + java_string_hash t \<and>
   (hash_spread g = hash_spread h \<longleftrightarrow> g = h)"
  using fold_hash_append [of "encode_utf16 t" "java_string_hash s"]
  by (auto simp: java_string_hash_def encode_utf16_def) (metis hash_spread_involution)

theorem java_hash_polynomial_witness:
  "java_string_hash (''ab'' @ ''c'') =
     java_string_hash ''ab'' * 31 ^ length (encode_utf16 ''c'') + java_string_hash ''c''"
  using java_hash_polynomial [of "''ab''" "''c''"]
  by (simp add: chars_def byte_values_def)

text \<open>
  Typed literals. The rendering keeps the order of the lexical characters, drops every
  backslash, and never outgrows the capacity computed for it; a datatype outside the XML
  Schema namespace is shown whole after an opening angle bracket.
\<close>

theorem typed_literal_within_capacity:
  assumes "render_typed_annotation_literal lexical datatype = Inr out"
  shows "length out \<le> length lexical + 3 + (length datatype + 5) \<and>
    (strip_prefix XSD_NAMESPACE datatype = None \<longrightarrow>
       out = concat (map unescape_char lexical) @ [CHR 0x22] @ ''^^<'' @ datatype)"
proof -
  have sfx: "length suffix + 4 \<le> length datatype + 5" if "strip_prefix XSD_NAMESPACE datatype = Some suffix"
    for suffix using that by (auto simp: strip_prefix_def split: if_splits)
  have "length (pop_char (concat (map unescape_char lexical) @ [CHR 0x22] @ ''^^xsd:'' @ suffix)) \<le>
    length lexical + 3 + (length suffix + 4)" for suffix
    using length_pop_char [of "concat (map unescape_char lexical) @ [CHR 0x22] @ ''^^xsd:'' @ suffix"]
      length_unescape [of lexical] by simp
  then have "length (pop_char (concat (map unescape_char lexical) @ [CHR 0x22] @ ''^^xsd:'' @ suffix)) \<le>
    length lexical + 3 + (length datatype + 5)" if "strip_prefix XSD_NAMESPACE datatype = Some suffix"
    for suffix using sfx [OF that] by (meson add_left_mono order_trans)
  with assms length_unescape [of lexical] show ?thesis
    by (auto simp: render_typed_annotation_literal_def Let_def res_simps split: option.splits)
qed

theorem typed_literal_within_capacity_witness:
  "length (the (case render_typed_annotation_literal ''1'' ''d'' of Inr s \<Rightarrow> Some s | Inl _ \<Rightarrow> None))
     \<le> length ''1'' + 3 + (length ''d'' + 5)"
proof -
  have "render_typed_annotation_literal ''1'' ''d'' = Inr (''1'' @ [CHR 0x22] @ ''^^<d'')"
    by (simp add: render_typed_annotation_literal_def checked_add_def fits_def strip_prefix_def
        XSD_NAMESPACE_def unescape_char_def Let_def)
  from typed_literal_within_capacity [OF this] this show ?thesis by simp
qed

end
