(* ===== verification/Columns.thy ===== *)
theory Columns
  imports Tags Cancellable Text_Rendering
begin

text \<open>
  \<open>DirectColumns\<close>: a zero-copy view of the eleven little-endian buffers of a
  structural-columns table, its row readers, the root selection by sorted postings and the
  remapping of anonymous scopes.

  Two fields need a word. \<open>anonymous_scope_map_chain\<close> is the trait object
  \<open>AnonymousScopeMapChain\<close>, whose one implementation (\<open>RetainedAnonymousScopeMaps\<close> of
  \<open>lib.rs\<close>) is a vector of buffers, so it is a list of byte strings here.
  \<open>to_lowercase\<close> is not a field of the struct: it is the case-mapping table behind the
  standard library's \<open>char::to_lowercase\<close>, a parameter carried with the columns and
  constrained by no theorem.

  Offsets such as \<open>start + 8\<close> are computed on natural numbers. Where the machine sum could
  wrap, the wrapped range is empty or backwards and \<open>get\<close> fails, as it does here because
  no slice reaches \<open>2^64\<close> bytes.
\<close>

section \<open>Row readers\<close>

definition le_value :: "bytes \<Rightarrow> nat" where
  "le_value bs = foldr (\<lambda>b acc. of_char b + 256 * acc) bs 0"

definition read_row :: "nat \<Rightarrow> bytes \<Rightarrow> usize \<Rightarrow> bytes kres" where
  "read_row width buffer index =
     bnd (ok_or Malformed (checked_mul index width)) (\<lambda>start.
     ok_or Malformed (get_range buffer start (start + width)))"

definition read_u16 :: "bytes \<Rightarrow> usize \<Rightarrow> nat kres" where
  "read_u16 buffer index = map_res le_value (read_row 2 buffer index)"

definition read_u32 :: "bytes \<Rightarrow> usize \<Rightarrow> nat kres" where
  "read_u32 buffer index = map_res le_value (read_row 4 buffer index)"

definition read_usize :: "bytes \<Rightarrow> usize \<Rightarrow> usize kres" where
  "read_usize buffer index = map_res le_value (read_row 8 buffer index)"

section \<open>The view\<close>

record direct_columns =
  root_kinds :: bytes
  root_ids :: bytes
  included_root_ids :: bytes
  excluded_root_ids :: bytes
  anonymous_scope_map :: bytes
  anonymous_scope_map_chain :: "bytes list option"
  node_tags :: bytes
  node_field_offsets :: bytes
  field_kinds :: bytes
  field_values :: bytes
  field_lengths :: bytes
  item_kinds :: bytes
  item_values :: bytes
  item_lengths :: bytes
  scalar_bytes :: bytes
  to_lowercase :: "nat \<Rightarrow> nat list"

definition from_ordered :: "(nat \<Rightarrow> nat list) \<Rightarrow> bytes list \<Rightarrow> direct_columns" where
  "from_ordered lower buffers = \<lparr> root_kinds = buffers ! 0, root_ids = buffers ! 1,
     included_root_ids = [], excluded_root_ids = [], anonymous_scope_map = [],
     anonymous_scope_map_chain = None, node_tags = buffers ! 2, node_field_offsets = buffers ! 3,
     field_kinds = buffers ! 4, field_values = buffers ! 5, field_lengths = buffers ! 6,
     item_kinds = buffers ! 7, item_values = buffers ! 8, item_lengths = buffers ! 9,
     scalar_bytes = buffers ! 10, to_lowercase = lower \<rparr>"

definition with_excluded_root_ids :: "direct_columns \<Rightarrow> bytes \<Rightarrow> direct_columns" where
  "with_excluded_root_ids c ids = c\<lparr> excluded_root_ids := ids \<rparr>"

definition with_included_root_ids :: "direct_columns \<Rightarrow> bytes \<Rightarrow> direct_columns" where
  "with_included_root_ids c ids = c\<lparr> included_root_ids := ids \<rparr>"

definition with_anonymous_scope_map :: "direct_columns \<Rightarrow> bytes \<Rightarrow> direct_columns" where
  "with_anonymous_scope_map c m = c\<lparr> anonymous_scope_map := m, anonymous_scope_map_chain := None \<rparr>"

definition with_anonymous_scope_map_chain :: "direct_columns \<Rightarrow> bytes list \<Rightarrow> direct_columns" where
  "with_anonymous_scope_map_chain c ms =
     c\<lparr> anonymous_scope_map := [], anonymous_scope_map_chain := Some ms \<rparr>"

definition without_anonymous_scope_maps :: "direct_columns \<Rightarrow> direct_columns" where
  "without_anonymous_scope_maps c = c\<lparr> anonymous_scope_map := [], anonymous_scope_map_chain := None \<rparr>"

definition scope_map_count :: "direct_columns \<Rightarrow> usize" where
  "scope_map_count c = (case anonymous_scope_map_chain c of
     None \<Rightarrow> (if anonymous_scope_map c = [] then 0 else 1)
   | Some chain \<Rightarrow> length chain)"

definition scope_map_at :: "direct_columns \<Rightarrow> usize \<Rightarrow> bytes option" where
  "scope_map_at c index = (case anonymous_scope_map_chain c of
     Some chain \<Rightarrow> get_at chain index
   | None \<Rightarrow> if index = 0 \<and> anonymous_scope_map c \<noteq> [] then Some (anonymous_scope_map c) else None)"

definition has_anonymous_scope_map :: "direct_columns \<Rightarrow> bool" where
  "has_anonymous_scope_map c \<longleftrightarrow> scope_map_count c \<noteq> 0"

definition buffers :: "direct_columns \<Rightarrow> bytes list" where
  "buffers c = [root_kinds c, root_ids c, node_tags c, node_field_offsets c, field_kinds c,
     field_values c, field_lengths c, item_kinds c, item_values c, item_lengths c, scalar_bytes c]"

definition buffer_bytes :: "direct_columns \<Rightarrow> usize kres" where
  "buffer_bytes c =
     fold_res (\<lambda>buffer total. ok_or Resource (checked_add total (length buffer))) (buffers c) 0"

text \<open>A node of one of several tables, with its position among them (\<open>CompositeNodeCoordinate\<close>).\<close>

record composite_node_coordinate =
  node_table :: usize
  coordinate_node :: usize
  node_canonical_order :: usize

section \<open>Root selection\<close>

definition root_count :: "direct_columns \<Rightarrow> usize" where
  "root_count c = length (root_kinds c)"

definition selected_root_count :: "direct_columns \<Rightarrow> usize kres" where
  "selected_root_count c =
     (if included_root_ids c \<noteq> [] then Inr (length (included_root_ids c) div 4)
      else ok_or Malformed (checked_sub (root_count c) (length (excluded_root_ids c) div 4)))"

definition excluded_root_position :: "direct_columns \<Rightarrow> usize \<Rightarrow> usize kres" where
  "excluded_root_position c index = read_u32 (excluded_root_ids c) index"

definition included_root_position :: "direct_columns \<Rightarrow> usize \<Rightarrow> usize kres" where
  "included_root_position c index = read_u32 (included_root_ids c) index"

text \<open>The bisection loop of \<open>root_is_selected\<close>, over the position reader it chose.\<close>

function lower_bound :: "(usize \<Rightarrow> usize kres) \<Rightarrow> usize \<Rightarrow> usize \<Rightarrow> usize \<Rightarrow> usize kres" where
  "lower_bound position target start stop =
     (if start < stop then
        (let middle = start + (stop - start) div 2 in
         bnd (position middle) (\<lambda>candidate.
         if candidate < target then lower_bound position target (middle + 1) stop
         else lower_bound position target start middle))
      else Inr start)"
  by pat_completeness auto
termination
  by (relation "measure (\<lambda>(position, target, start, stop). stop - start)") auto

declare lower_bound.simps [simp del]

definition root_is_selected :: "direct_columns \<Rightarrow> usize \<Rightarrow> bool kres" where
  "root_is_selected c index =
     bnd (ok_or Resource (checked_add index 1)) (\<lambda>target.
     let included = included_root_ids c \<noteq> [];
         postings = (if included then included_root_ids c else excluded_root_ids c);
         position = (if included then included_root_position c else excluded_root_position c) in
     bnd (lower_bound position target 0 (length postings div 4)) (\<lambda>start.
     if start = length postings div 4 then Inr (\<not> included)
     else map_res (\<lambda>p. if included then p = target else p \<noteq> target) (position start)))"

section \<open>Nodes, fields and items\<close>

definition node_count :: "direct_columns \<Rightarrow> usize" where
  "node_count c = length (node_tags c) div 2"

definition field_count :: "direct_columns \<Rightarrow> usize" where
  "field_count c = length (field_kinds c)"

definition item_count :: "direct_columns \<Rightarrow> usize" where
  "item_count c = length (item_kinds c)"

definition read_u8 :: "bytes \<Rightarrow> usize \<Rightarrow> nat kres" where
  "read_u8 buffer index = map_res of_char (ok_or Malformed (get_at buffer index))"

definition root_kind :: "direct_columns \<Rightarrow> usize \<Rightarrow> nat kres" where
  "root_kind c index = read_u8 (root_kinds c) index"

definition checked_node_id :: "direct_columns \<Rightarrow> usize \<Rightarrow> usize kres" where
  "checked_node_id c node_id =
     (if 1 \<le> node_id \<and> node_id \<le> node_count c then Inr node_id else Inl Malformed)"

definition root_id :: "direct_columns \<Rightarrow> usize \<Rightarrow> usize kres" where
  "root_id c index = bnd (read_u32 (root_ids c) index) (checked_node_id c)"

definition node_tag :: "direct_columns \<Rightarrow> usize \<Rightarrow> nat kres" where
  "node_tag c node_id = bnd (checked_node_id c node_id) (\<lambda>_. read_u16 (node_tags c) (node_id - 1))"

definition field_range :: "direct_columns \<Rightarrow> usize \<Rightarrow> (usize \<times> usize) kres" where
  "field_range c node_id =
     bnd (checked_node_id c node_id) (\<lambda>_.
     bnd (read_usize (node_field_offsets c) (node_id - 1)) (\<lambda>start.
     bnd (read_usize (node_field_offsets c) node_id) (\<lambda>stop.
     if start \<le> stop \<and> stop \<le> field_count c then Inr (start, stop) else Inl Malformed)))"

definition exact_fields :: "direct_columns \<Rightarrow> usize \<Rightarrow> usize \<Rightarrow> usize kres" where
  "exact_fields c node_id arity =
     bnd (field_range c node_id) (\<lambda>(start, stop).
     if stop - start = arity then Inr start else Inl Malformed)"

definition field_kind :: "direct_columns \<Rightarrow> usize \<Rightarrow> nat kres" where
  "field_kind c index = read_u8 (field_kinds c) index"

definition field_value :: "direct_columns \<Rightarrow> usize \<Rightarrow> usize kres" where
  "field_value c index = read_usize (field_values c) index"

definition field_length :: "direct_columns \<Rightarrow> usize \<Rightarrow> usize kres" where
  "field_length c index = read_usize (field_lengths c) index"

definition field_node :: "direct_columns \<Rightarrow> usize \<Rightarrow> usize kres" where
  "field_node c index =
     bnd (field_kind c index) (\<lambda>kind.
     if kind \<noteq> COMPONENT_NODE then Inl Malformed else
     bnd (field_length c index) (\<lambda>len.
     if len \<noteq> 0 then Inl Malformed else
     bnd (field_value c index) (checked_node_id c)))"

definition item_node :: "direct_columns \<Rightarrow> usize \<Rightarrow> usize kres" where
  "item_node c index =
     bnd (read_u8 (item_kinds c) index) (\<lambda>kind.
     if kind \<noteq> COMPONENT_NODE then Inl Malformed else
     bnd (read_usize (item_lengths c) index) (\<lambda>len.
     if len \<noteq> 0 then Inl Malformed else
     bnd (read_usize (item_values c) index) (checked_node_id c)))"

text \<open>The range check shared by sets and sequences: kind, bounds, minimum length.\<close>

definition collection_range :: "direct_columns \<Rightarrow> nat \<Rightarrow> usize \<Rightarrow> usize \<Rightarrow> (usize \<times> usize) kres" where
  "collection_range c expected index minimum =
     bnd (field_kind c index) (\<lambda>kind.
     if kind \<noteq> expected then Inl Malformed else
     bnd (field_value c index) (\<lambda>start.
     bnd (field_length c index) (\<lambda>len.
     if start > item_count c \<or> len > item_count c - start then Inl Malformed else
     if len < minimum then Inl Malformed else Inr (start, len))))"

definition node_set_range :: "direct_columns \<Rightarrow> usize \<Rightarrow> usize \<Rightarrow> (usize \<times> usize) kres" where
  "node_set_range c index minimum =
     bnd (collection_range c COMPONENT_SET index minimum) (\<lambda>(start, len).
     bnd (fold_res (\<lambda>item_index previous.
            bnd (item_node c item_index) (\<lambda>node_id.
            if node_id \<le> previous then Inl Malformed else Inr node_id))
          [start ..< start + len] 0) (\<lambda>_.
     Inr (start, len)))"

definition node_sequence_range :: "direct_columns \<Rightarrow> usize \<Rightarrow> usize \<Rightarrow> (usize \<times> usize) kres" where
  "node_sequence_range c index minimum =
     bnd (collection_range c COMPONENT_SEQUENCE index minimum) (\<lambda>(start, len).
     bnd (for_each (\<lambda>item_index. map_res (\<lambda>_. ()) (item_node c item_index))
          [start ..< start + len]) (\<lambda>_.
     Inr (start, len)))"

text \<open>Two loops the validators repeat: the guard on a constructor tag and the walk over the
  items of a collection range.\<close>

definition expect_tag :: "direct_columns \<Rightarrow> usize \<Rightarrow> nat \<Rightarrow> unit kres" where
  "expect_tag c node_id expected =
     bnd (node_tag c node_id) (\<lambda>tag. reject_if (tag \<noteq> expected) Malformed)"

definition each_item :: "direct_columns \<Rightarrow> usize \<times> usize \<Rightarrow> (usize \<Rightarrow> 'a kres) \<Rightarrow> unit kres" where
  "each_item c r check =
     for_each (\<lambda>item_index. discard (bnd (item_node c item_index) check)) [fst r ..< fst r + snd r]"

definition scalar_payload :: "direct_columns \<Rightarrow> usize \<Rightarrow> nat \<Rightarrow> bytes kres" where
  "scalar_payload c index kind =
     bnd (field_kind c index) (\<lambda>k.
     if k \<noteq> kind then Inl Malformed else
     bnd (field_value c index) (\<lambda>start.
     bnd (field_length c index) (\<lambda>len.
     bnd (ok_or Malformed (checked_add start len)) (\<lambda>stop.
     ok_or Malformed (get_range (scalar_bytes c) start stop)))))"

definition canonical_integer :: "direct_columns \<Rightarrow> usize \<Rightarrow> bytes kres" where
  "canonical_integer c index =
     bnd (scalar_payload c index COMPONENT_INTEGER) (\<lambda>payload.
     if payload = [] \<or> (length payload > 1 \<and> of_char (last payload) = (0::nat)) then Inl Malformed
     else Inr payload)"

definition iri :: "direct_columns \<Rightarrow> usize \<Rightarrow> usize \<Rightarrow> text_str kres" where
  "iri c node_id maximum =
     bnd (node_tag c node_id) (\<lambda>tag.
     if tag \<noteq> TAG_IRI then Inl Malformed else
     bnd (exact_fields c node_id 1) (\<lambda>start.
     bnd (scalar_payload c start COMPONENT_TEXT) (\<lambda>payload.
     if length payload > maximum then Inl Resource else from_utf8 Malformed payload)))"

definition entity :: "direct_columns \<Rightarrow> usize \<Rightarrow> (bytes \<times> usize) kres" where
  "entity c node_id =
     bnd (node_tag c node_id) (\<lambda>tag.
     if tag \<noteq> TAG_ENTITY then Inl Malformed else
     bnd (exact_fields c node_id 2) (\<lambda>start.
     bnd (scalar_payload c start COMPONENT_ENUM) (\<lambda>kind.
     if kind \<notin> set ENTITY_KINDS then Inl Malformed else
     bnd (field_node c (start + 1)) (\<lambda>iri_id.
     bnd (node_tag c iri_id) (\<lambda>iri_tag.
     if iri_tag \<noteq> TAG_IRI then Inl Malformed else Inr (kind, iri_id))))))"

section \<open>Anonymous individuals\<close>

definition validate_anonymous_individual :: "direct_columns \<Rightarrow> usize \<Rightarrow> unit kres" where
  "validate_anonymous_individual c node_id =
     bnd (node_tag c node_id) (\<lambda>tag.
     if tag \<noteq> TAG_ANONYMOUS_INDIVIDUAL then Inl Malformed else
     bnd (exact_fields c node_id 2) (\<lambda>start.
     bnd (scalar_payload c start COMPONENT_BYTES) (\<lambda>document_scope.
     bnd (scalar_payload c (start + 1) COMPONENT_BYTES) (\<lambda>local_key.
     if length document_scope \<noteq> 32 then Inl Malformed else
     if local_key = [] then Inl Malformed else Inr ()))))"

function scope_search :: "bytes \<Rightarrow> bytes \<Rightarrow> usize \<Rightarrow> usize \<Rightarrow> bytes kres" where
  "scope_search scope_map current start stop =
     (if start < stop then
        (let middle = start + (stop - start) div 2 in
         bnd (ok_or Resource (checked_mul middle 64)) (\<lambda>offset.
         bnd (ok_or Malformed (get_range scope_map offset (offset + 32))) (\<lambda>source.
         case cmp source current of
           Less \<Rightarrow> scope_search scope_map current (middle + 1) stop
         | Greater \<Rightarrow> scope_search scope_map current start middle
         | Equal \<Rightarrow> ok_or Malformed (get_range scope_map (offset + 32) (offset + 64)))))
      else Inr current)"
  by pat_completeness auto
termination
  by (relation "measure (\<lambda>(m, current, start, stop). stop - start)") auto

declare scope_search.simps [simp del]

definition remap_anonymous_scope :: "direct_columns \<Rightarrow> bytes \<Rightarrow> bytes kres" where
  "remap_anonymous_scope c scope =
     fold_res (\<lambda>map_index current.
       bnd (ok_or Malformed (scope_map_at c map_index)) (\<lambda>scope_map.
       scope_search scope_map current 0 (length scope_map div 64)))
     [0 ..< scope_map_count c] scope"

definition anonymous_parts :: "direct_columns \<Rightarrow> usize \<Rightarrow> (bytes \<times> bytes) kres" where
  "anonymous_parts c node_id =
     bnd (validate_anonymous_individual c node_id) (\<lambda>_.
     bnd (exact_fields c node_id 2) (\<lambda>start.
     bnd (scalar_payload c start COMPONENT_BYTES) (\<lambda>document_scope.
     bnd (remap_anonymous_scope c document_scope) (\<lambda>scope.
     bnd (scalar_payload c (start + 1) COMPONENT_BYTES) (\<lambda>local_key.
     Inr (scope, local_key))))))"

definition compare_anonymous_nodes :: "direct_columns \<Rightarrow> usize \<Rightarrow> usize \<Rightarrow> ordering kres" where
  "compare_anonymous_nodes c left right =
     bnd (anonymous_parts c left) (\<lambda>(left_scope, left_key).
     bnd (anonymous_parts c right) (\<lambda>(right_scope, right_key).
     if cmp left_scope right_scope \<noteq> Equal then Inr (cmp left_scope right_scope) else
     if compare_canonical_varints (length left_key) (length right_key) \<noteq> Equal
     then Inr (compare_canonical_varints (length left_key) (length right_key))
     else Inr (cmp left_key right_key)))"

section \<open>Columns as row lists\<close>

definition column :: "nat \<Rightarrow> bytes \<Rightarrow> nat list" where
  "column width buffer =
     map (\<lambda>i. le_value (take width (drop (i * width) buffer))) [0 ..< length buffer div width]"

definition le_bytes :: "nat \<Rightarrow> nat \<Rightarrow> bytes" where
  "le_bytes width n = map (\<lambda>k. char_of (n div 256 ^ k)) [0 ..< width]"

lemma length_column [simp]: "length (column width buffer) = length buffer div width"
  by (simp add: column_def)

lemma le_value_Nil [simp]: "le_value [] = 0"
  by (simp add: le_value_def)

lemma le_value_Cons [simp]: "le_value (b # bs) = of_char b + 256 * le_value bs"
  by (simp add: le_value_def)

lemma le_value_bound: "le_value bs < 256 ^ length bs"
proof (induction bs)
  case (Cons b bs)
  define v where "v = (of_char b :: nat)"
  have v: "v < 256" by (simp add: v_def)
  from Cons have "Suc (le_value bs) \<le> 256 ^ length bs" by simp
  then have "256 * Suc (le_value bs) \<le> 256 * 256 ^ length bs" by (rule mult_le_mono2)
  with v show ?case by (simp add: v_def [symmetric])
qed simp

lemma le_bytes_Suc: "le_bytes (Suc w) n = char_of n # le_bytes w (n div 256)"
  by (auto simp: le_bytes_def upt_conv_Cons map_Suc_upt [symmetric] div_mult2_eq [symmetric]
      simp del: upt_Suc)

lemma le_bytes_code [code]:
  "le_bytes w n = (case w of 0 \<Rightarrow> [] | Suc v \<Rightarrow> char_of n # le_bytes v (n div 256))"
  by (cases w) (simp_all add: le_bytes_Suc, simp add: le_bytes_def)

lemma le_value_le_bytes: "n < 256 ^ w \<Longrightarrow> le_value (le_bytes w n) = n"
proof (induction w arbitrary: n)
  case (Suc w)
  then have "n div 256 < 256 ^ w" by (simp add: less_mult_imp_div_less mult.commute)
  with Suc.IH show ?case by (simp add: le_bytes_Suc)
qed (simp add: le_bytes_def)

lemma read_row_spec:
  assumes "fits (length buffer)" and "0 < width"
  shows "read_row width buffer i =
    (if i < length buffer div width then Inr (take width (drop (i * width) buffer)) else Inl Malformed)"
proof (cases "i < length buffer div width")
  case True
  have "(i + 1) * width \<le> length buffer div width * width"
    using True by (intro mult_le_mono1) simp
  also have "\<dots> \<le> length buffer" by simp
  finally have le: "i * width + width \<le> length buffer" by (simp add: algebra_simps)
  with fits_mono [OF _ assms(1), of "i * width"] have "fits (i * width)" by linarith
  with le True show ?thesis
    by (simp add: read_row_def checked_mul_def get_range_def)
next
  case False
  then have "length buffer < (i + 1) * width"
    using assms(2) by (metis Suc_eq_plus1 div_less_iff_less_mult not_less_eq)
  with False show ?thesis
    by (auto simp: read_row_def checked_mul_def get_range_def ok_or_def bnd_def algebra_simps)
qed

lemma read_row_column:
  assumes "fits (length buffer)" and "0 < width"
  shows "map_res le_value (read_row width buffer i) =
    (if i < length (column width buffer) then Inr (column width buffer ! i) else Inl Malformed)"
  by (simp add: read_row_spec [OF assms] map_res_def column_def)

lemma length_concat_le_bytes: "length (concat (map (le_bytes w) rows)) = length rows * w"
  by (induction rows) (auto simp: le_bytes_def)

lemma drop_concat_le_bytes:
  "drop (i * w) (concat (map (le_bytes w) rows)) = concat (map (le_bytes w) (drop i rows))"
proof (induction rows arbitrary: i)
  case (Cons r rows)
  then show ?case by (cases i) (auto simp: le_bytes_def)
qed simp

lemma column_encode:
  assumes "0 < w" and "\<forall>n \<in> set rows. n < 256 ^ w"
  shows "column w (concat (map (le_bytes w) rows)) = rows"
proof (rule nth_equalityI)
  show "length (column w (concat (map (le_bytes w) rows))) = length rows"
    using assms(1) by (simp add: length_concat_le_bytes)
  fix i assume "i < length (column w (concat (map (le_bytes w) rows)))"
  then have i: "i < length rows" using assms(1) by (simp add: length_concat_le_bytes)
  then have "drop i rows = rows ! i # drop (Suc i) rows" by (simp add: Cons_nth_drop_Suc)
  moreover have "length (le_bytes w (rows ! i)) = w" by (simp add: le_bytes_def)
  ultimately show "column w (concat (map (le_bytes w) rows)) ! i = rows ! i"
    using i assms by (simp add: column_def length_concat_le_bytes drop_concat_le_bytes le_value_le_bytes)
qed

lemma read_encoded:
  assumes "0 < w" and "w \<le> 8" and "fits (length rows * 8)" and "\<forall>n \<in> set rows. n < 256 ^ w"
  shows "map_res le_value (read_row w (concat (map (le_bytes w) rows)) i) = ok_or Malformed (get_at rows i)"
proof -
  have "fits (length (concat (map (le_bytes w) rows)))"
    using fits_mono [OF mult_le_mono2 [OF assms(2)] assms(3)] by (simp add: length_concat_le_bytes)
  with read_row_column [OF this assms(1), of i] column_encode [OF assms(1,4)] show ?thesis
    by (simp add: get_at_def del: length_column)
qed

section \<open>Bisection\<close>

lemma lower_bound_spec:
  assumes pos: "\<And>i. i < length ps \<Longrightarrow> position i = Inr (ps ! i)"
    and "sorted ps" and "start \<le> stop" and "stop \<le> length ps"
    and "\<forall>i < start. ps ! i < t" and "\<forall>i. stop \<le> i \<and> i < length ps \<longrightarrow> t \<le> ps ! i"
  shows "\<exists>k. lower_bound position t start stop = Inr k \<and> k \<le> length ps \<and>
    (\<forall>i < k. ps ! i < t) \<and> (\<forall>i. k \<le> i \<and> i < length ps \<longrightarrow> t \<le> ps ! i)"
  using assms(3-)
proof (induction "stop - start" arbitrary: start stop rule: less_induct)
  case less
  show ?case
  proof (cases "start < stop")
    case False
    with less.prems show ?thesis by (subst lower_bound.simps) auto
  next
    case True
    define m where "m = start + (stop - start) div 2"
    have m: "start \<le> m" "m < stop" "m < length ps" using True less.prems by (auto simp: m_def)
    have mono: "ps ! i \<le> ps ! j" if "i \<le> j" "j < length ps" for i j
      using assms(2) that by (simp add: sorted_iff_nth_mono)
    show ?thesis
    proof (cases "ps ! m < t")
      case lt: True
      then have "\<forall>i < Suc m. ps ! i < t" using mono m by (metis le_less_trans less_Suc_eq_le)
      with less.hyps [of stop "Suc m"] less.prems m lt True show ?thesis
        by (subst lower_bound.simps) (simp add: m_def [symmetric] pos)
    next
      case ge: False
      then have "\<forall>i. m \<le> i \<and> i < length ps \<longrightarrow> t \<le> ps ! i" using mono by (metis le_trans not_le)
      with less.hyps [of m start] less.prems m ge True show ?thesis
        by (subst lower_bound.simps) (simp add: m_def [symmetric] pos)
    qed
  qed
qed

lemma lower_bound_member:
  assumes pos: "\<And>i. i < length ps \<Longrightarrow> position i = Inr (ps ! i)" and "sorted ps"
  shows "bnd (lower_bound position t 0 (length ps)) (\<lambda>k.
      if k = length ps then Inr (\<not> included)
      else map_res (\<lambda>p. if included then p = t else p \<noteq> t) (position k)) =
    Inr (if included then t \<in> set ps else t \<notin> set ps)"
proof -
  from lower_bound_spec [of ps position 0 "length ps" t] assms obtain k where
    k: "lower_bound position t 0 (length ps) = Inr k" "k \<le> length ps" "\<forall>i < k. ps ! i < t"
      "\<forall>i. k \<le> i \<and> i < length ps \<longrightarrow> t \<le> ps ! i" by auto
  show ?thesis
  proof (cases "k = length ps")
    case True
    then have "t \<notin> set ps" using k(3) by (auto simp: in_set_conv_nth)
    with True k(1) show ?thesis by simp
  next
    case False
    then have kl: "k < length ps" using k(2) by simp
    have "t \<in> set ps \<longleftrightarrow> ps ! k = t"
    proof
      assume "t \<in> set ps"
      then obtain j where j: "j < length ps" "ps ! j = t" by (auto simp: in_set_conv_nth)
      with k(3) have "k \<le> j" by (metis leI less_irrefl)
      with j assms(2) have "ps ! k \<le> t" by (auto simp: sorted_iff_nth_mono)
      with k(4) kl show "ps ! k = t" by (simp add: order_antisym)
    qed (use kl in auto)
    with False k(1) kl pos show ?thesis by (simp add: map_res_def)
  qed
qed

section \<open>What the selection and the remapping compute\<close>

text \<open>The postings in force, and whether they include or exclude.\<close>

definition postings :: "direct_columns \<Rightarrow> nat list" where
  "postings c = column 4 (if included_root_ids c \<noteq> [] then included_root_ids c else excluded_root_ids c)"

definition selected :: "direct_columns \<Rightarrow> nat \<Rightarrow> bool" where
  "selected c i \<longleftrightarrow> (if included_root_ids c \<noteq> [] then Suc i \<in> set (postings c) else Suc i \<notin> set (postings c))"

lemma read_u32_column: "fits (length b) \<Longrightarrow> i < length b div 4 \<Longrightarrow> read_u32 b i = Inr (column 4 b ! i)"
  by (simp add: read_u32_def read_row_column)

lemma root_is_selected_spec:
  assumes "fits (length (included_root_ids c))" and "fits (length (excluded_root_ids c))"
    and "sorted (postings c)" and "fits (Suc i)"
  shows "root_is_selected c i = Inr (selected c i)"
proof (cases "included_root_ids c = []")
  case True
  then have "sorted (column 4 (excluded_root_ids c))" using assms(3) by (simp add: postings_def)
  from lower_bound_member [of "column 4 (excluded_root_ids c)" "excluded_root_position c", OF _ this,
      of "Suc i" False] assms(2,4) True
  show ?thesis
    by (simp add: root_is_selected_def checked_add_def selected_def postings_def
        excluded_root_position_def read_u32_column)
next
  case False
  then have "sorted (column 4 (included_root_ids c))" using assms(3) by (simp add: postings_def)
  from lower_bound_member [of "column 4 (included_root_ids c)" "included_root_position c", OF _ this,
      of "Suc i" True] assms(1,4) False
  show ?thesis
    by (simp add: root_is_selected_def checked_add_def selected_def postings_def
        included_root_position_def read_u32_column)
qed

lemma selected_card:
  assumes "distinct (postings c)" and "\<forall>p \<in> set (postings c). 1 \<le> p \<and> p \<le> root_count c"
  shows "card {i. i < root_count c \<and> selected c i} =
    (if included_root_ids c \<noteq> [] then length (postings c) else root_count c - length (postings c))"
    and "length (postings c) \<le> root_count c"
proof -
  let ?P = "set (postings c)" and ?n = "root_count c"
  have img: "Suc ` {i. i < ?n \<and> Suc i \<in> ?P} = ?P"
  proof (intro equalityI subsetI)
    fix p assume "p \<in> ?P"
    with assms(2) have "1 \<le> p" "p \<le> ?n" by auto
    with \<open>p \<in> ?P\<close> show "p \<in> Suc ` {i. i < ?n \<and> Suc i \<in> ?P}"
      by (intro image_eqI [of _ _ "p - 1"]) auto
  qed auto
  have len: "card {i. i < ?n \<and> Suc i \<in> ?P} = length (postings c)"
    using card_image [of Suc "{i. i < ?n \<and> Suc i \<in> ?P}"] img distinct_card [OF assms(1)] by simp
  have sub: "{i. i < ?n \<and> Suc i \<in> ?P} \<subseteq> {..<?n}" by auto
  have "{i. i < ?n \<and> Suc i \<notin> ?P} = {..<?n} - {i. i < ?n \<and> Suc i \<in> ?P}" by auto
  then have rest: "card {i. i < ?n \<and> Suc i \<notin> ?P} = ?n - length (postings c)"
    using len sub by (simp add: card_Diff_subset finite_subset)
  show "card {i. i < ?n \<and> selected c i} =
      (if included_root_ids c \<noteq> [] then length (postings c) else ?n - length (postings c))"
    using len rest by (simp add: selected_def)
  show "length (postings c) \<le> ?n" using len card_mono [OF _ sub] by simp
qed

text \<open>A scope map as a list of 64-byte rows: a 32-byte source and its 32-byte target.\<close>

definition scope_rows :: "bytes \<Rightarrow> (bytes \<times> bytes) list" where
  "scope_rows m = map (\<lambda>i. (take 32 (drop (i * 64) m), take 32 (drop (i * 64 + 32) m)))
     [0 ..< length m div 64]"

definition remap_row :: "bytes \<Rightarrow> bytes \<Rightarrow> bytes" where
  "remap_row m scope = (case map_of (scope_rows m) scope of None \<Rightarrow> scope | Some t \<Rightarrow> t)"

lemma length_scope_rows [simp]: "length (scope_rows m) = length m div 64"
  by (simp add: scope_rows_def)

lemma scope_search_is_binary_search:
  assumes "fits (length m)" and "stop \<le> length m div 64"
  shows "scope_search m scope start stop =
    (case binary_search_in (\<lambda>r. cmp (fst r) scope) (scope_rows m) start stop of
       Inl _ \<Rightarrow> Inr scope | Inr i \<Rightarrow> Inr (snd (scope_rows m ! i)))"
  using assms(2)
proof (induction "stop - start" arbitrary: start stop rule: less_induct)
  case less
  show ?case
  proof (cases "start < stop")
    case False
    then show ?thesis by (subst scope_search.simps, subst binary_search_in.simps) simp
  next
    case True
    define k where "k = start + (stop - start) div 2"
    have k: "start \<le> k" "k < stop" "k < length m div 64" using True less.prems by (auto simp: k_def)
    then have "(k + 1) * 64 \<le> length m div 64 * 64" by (intro mult_le_mono1) simp
    also have "\<dots> \<le> length m" by simp
    finally have le: "k * 64 + 64 \<le> length m" by simp
    with fits_mono [OF _ assms(1), of "k * 64"] have "fits (k * 64)" by linarith
    moreover have "scope_rows m ! k = (take 32 (drop (k * 64) m), take 32 (drop (k * 64 + 32) m))"
      using k by (simp add: scope_rows_def)
    ultimately show ?thesis
      using True k le less.hyps [of stop "Suc k"] less.hyps [of k start] less.prems
      by (subst scope_search.simps, subst binary_search_in.simps)
        (simp add: k_def [symmetric] checked_mul_def get_range_def split: ordering.split)
  qed
qed

lemma scope_search_remap:
  assumes "fits (length m)" and "sorted (map fst (scope_rows m))" and "distinct (map fst (scope_rows m))"
  shows "scope_search m scope 0 (length m div 64) = Inr (remap_row m scope)"
proof -
  have "scope_search m scope 0 (length m div 64) =
    (case binary_search_by_key fst scope (scope_rows m) of
       Inl _ \<Rightarrow> Inr scope | Inr i \<Rightarrow> Inr (snd (scope_rows m ! i)))"
    using scope_search_is_binary_search [OF assms(1), of "length m div 64" scope 0]
    by (simp add: binary_search_by_key_def)
  also have "\<dots> = Inr (remap_row m scope)"
  proof (cases "binary_search_by_key fst scope (scope_rows m)")
    case (Inl j)
    have "map_of (scope_rows m) scope = None"
    proof (rule ccontr)
      assume "map_of (scope_rows m) scope \<noteq> None"
      then obtain t where "(scope, t) \<in> set (scope_rows m)" by (auto dest: map_of_SomeD)
      then obtain i where "i < length (scope_rows m)" "fst (scope_rows m ! i) = scope"
        by (metis fst_conv in_set_conv_nth)
      with binary_search_by_key_iff [OF assms(2,3), of scope i] Inl show False by simp
    qed
    with Inl show ?thesis by (simp add: remap_row_def)
  next
    case (Inr i)
    with binary_search_by_key_iff [OF assms(2,3), of scope i]
    have "i < length (scope_rows m)" "fst (scope_rows m ! i) = scope" by auto
    then have "map_of (scope_rows m) scope = Some (snd (scope_rows m ! i))"
      using assms(3) by (metis map_of_eq_Some_iff nth_mem prod.collapse)
    with Inr show ?thesis by (simp add: remap_row_def)
  qed
  finally show ?thesis .
qed

definition scope_maps :: "direct_columns \<Rightarrow> bytes list" where
  "scope_maps c = (case anonymous_scope_map_chain c of
     Some ms \<Rightarrow> ms | None \<Rightarrow> if anonymous_scope_map c = [] then [] else [anonymous_scope_map c])"

lemma scope_map_at_nth: "i < scope_map_count c \<Longrightarrow> scope_map_at c i = Some (scope_maps c ! i)"
  and scope_map_count_length: "scope_map_count c = length (scope_maps c)"
  by (auto simp: scope_map_at_def scope_maps_def scope_map_count_def get_at_def split: option.splits if_splits)

lemma remap_fold:
  assumes "\<forall>m \<in> set (scope_maps c). fits (length m) \<and> sorted (map fst (scope_rows m)) \<and>
      distinct (map fst (scope_rows m))"
  shows "remap_anonymous_scope c scope = Inr (fold remap_row (scope_maps c) scope)"
proof -
  let ?f = "\<lambda>map_index current. bnd (ok_or Malformed (scope_map_at c map_index)) (\<lambda>scope_map.
       scope_search scope_map current 0 (length scope_map div 64))"
  have "fold_res ?f [0 ..< n] scope = Inr (fold remap_row (take n (scope_maps c)) scope)"
    if "n \<le> length (scope_maps c)" for n
    using that
  proof (induction n)
    case (Suc n)
    then have m: "scope_maps c ! n \<in> set (scope_maps c)" and n: "n < scope_map_count c"
      by (auto simp: scope_map_count_length)
    with assms Suc show ?case
      by (simp add: fold_res_append scope_map_at_nth scope_search_remap take_Suc_conv_app_nth)
  qed simp
  from this [of "length (scope_maps c)"] show ?thesis
    by (simp add: remap_anonymous_scope_def scope_map_count_length)
qed

section \<open>Reader facts for clients\<close>

lemma checked_node_id_Inr [res_simps]:
  "checked_node_id c i = Inr j \<longleftrightarrow> 1 \<le> i \<and> i \<le> node_count c \<and> j = i"
  by (auto simp: checked_node_id_def)

lemma field_range_bounds: "field_range c n = Inr (a, b) \<Longrightarrow> a \<le> b \<and> b \<le> field_count c"
  by (auto simp: field_range_def res_simps split: if_splits)

lemma item_node_bounds: "item_node c i = Inr n \<Longrightarrow> i < item_count c \<and> 1 \<le> n \<and> n \<le> node_count c"
  by (auto simp: item_node_def read_u8_def item_count_def res_simps split: if_splits)

lemma field_node_bounds: "field_node c i = Inr n \<Longrightarrow> i < field_count c \<and> 1 \<le> n \<and> n \<le> node_count c"
  by (auto simp: field_node_def field_kind_def read_u8_def field_count_def res_simps split: if_splits)

lemma collection_range_Inr:
  "collection_range c k index m = Inr (start, len) \<longleftrightarrow>
   field_kind c index = Inr k \<and> field_value c index = Inr start \<and> field_length c index = Inr len \<and>
   start + len \<le> item_count c \<and> m \<le> len"
  by (cases "field_kind c index"; cases "field_value c index"; cases "field_length c index")
    (auto simp: collection_range_def)

lemma ascending_scan:
  fixes f :: "'a \<Rightarrow> 'e + nat"
  shows "fold_res (\<lambda>i previous. bnd (f i) (\<lambda>n. if n \<le> previous then Inl e else Inr n)) xs p = Inr q \<longleftrightarrow>
   (\<exists>ns. map f xs = map Inr ns \<and> sorted_wrt (<) (p # ns) \<and> q = last (p # ns))"
proof (induction xs arbitrary: p)
  case (Cons x xs)
  show ?case
  proof
    assume "fold_res (\<lambda>i previous. bnd (f i) (\<lambda>n. if n \<le> previous then Inl e else Inr n)) (x # xs) p = Inr q"
    then obtain n where n: "f x = Inr n" "p < n"
      and r: "fold_res (\<lambda>i previous. bnd (f i) (\<lambda>n. if n \<le> previous then Inl e else Inr n)) xs n = Inr q"
      by (auto simp: bnd_eq_Inr split: if_splits)
    from r [unfolded Cons.IH] obtain ns where "map f xs = map Inr ns" "sorted_wrt (<) (n # ns)"
      "q = last (n # ns)" by blast
    with n have "map f (x # xs) = map Inr (n # ns)" "sorted_wrt (<) (p # n # ns)" "q = last (p # n # ns)"
      by auto
    then show "\<exists>ns. map f (x # xs) = map Inr ns \<and> sorted_wrt (<) (p # ns) \<and> q = last (p # ns)"
      by blast
  next
    assume "\<exists>ns. map f (x # xs) = map Inr ns \<and> sorted_wrt (<) (p # ns) \<and> q = last (p # ns)"
    then obtain n ns where "f x = Inr n" "p < n" "map f xs = map Inr ns" "sorted_wrt (<) (n # ns)"
      "q = last (n # ns)" by (auto simp: map_eq_Cons_conv Cons_eq_map_conv)
    then show "fold_res (\<lambda>i previous. bnd (f i) (\<lambda>n. if n \<le> previous then Inl e else Inr n)) (x # xs) p = Inr q"
      using Cons.IH [of n] by auto
  qed
qed auto

lemma node_set_range_Inr:
  "node_set_range c index m = Inr (start, len) \<longleftrightarrow>
   collection_range c COMPONENT_SET index m = Inr (start, len) \<and>
   (\<exists>ns. map (item_node c) [start ..< start + len] = map Inr ns \<and> sorted_wrt (<) ns)"
proof -
  have "0 < n" if "map (item_node c) [start ..< start + len] = map Inr ns" "n \<in> set ns" for n ns
  proof -
    from that obtain i where "item_node c i = Inr n" by (metis (no_types) image_iff list.set_map)
    then show ?thesis using item_node_bounds by fastforce
  qed
  then show ?thesis
    by (auto simp: node_set_range_def ascending_scan bnd_eq_Inr)
qed

lemma node_sequence_range_Inr:
  "node_sequence_range c index m = Inr (start, len) \<longleftrightarrow>
   collection_range c COMPONENT_SEQUENCE index m = Inr (start, len) \<and>
   (\<forall>i \<in> {start ..< start + len}. \<exists>n. item_node c i = Inr n)"
  by (auto simp: node_sequence_range_def res_simps)

definition anonymous_key :: "bytes \<times> bytes \<Rightarrow> bytes \<times> nat list \<times> bytes" where
  "anonymous_key p = (fst p, varint_encode (length (snd p)), snd p)"

lemma compare_anonymous_nodes_key:
  "anonymous_parts c l = Inr p \<Longrightarrow> anonymous_parts c r = Inr q \<Longrightarrow>
   compare_anonymous_nodes c l r = Inr (cmp (anonymous_key p) (anonymous_key q))"
  by (auto simp: compare_anonymous_nodes_def anonymous_key_def compare_canonical_varints_def cmp_def
      split: prod.splits)

section \<open>Properties\<close>

text \<open>
  Row readers invert the columnar encoding. A column of values below \<open>2^(8 w)\<close> written
  as \<open>w\<close> little-endian bytes per row (\<open>w\<close> = 2, 4, 8) is read back row by row, and every
  index past the last row is reported as malformed.
\<close>
lemma column_roundtrip:
  assumes "fits (length rows * 8)"
  shows "((\<forall>n \<in> set rows. n < 2 ^ 16) \<longrightarrow>
      read_u16 (concat (map (le_bytes 2) rows)) i = ok_or Malformed (get_at rows i)) \<and>
    ((\<forall>n \<in> set rows. n < 2 ^ 32) \<longrightarrow>
      read_u32 (concat (map (le_bytes 4) rows)) i = ok_or Malformed (get_at rows i)) \<and>
    ((\<forall>n \<in> set rows. n < 2 ^ 64) \<longrightarrow>
      read_usize (concat (map (le_bytes 8) rows)) i = ok_or Malformed (get_at rows i))"
  using read_encoded [of 2 rows i] read_encoded [of 4 rows i] read_encoded [of 8 rows i] assms
  by (simp add: read_u16_def read_u32_def read_usize_def)

lemma column_roundtrip_witness:
  "read_u32 (concat (map (le_bytes 4) [7, 65536])) 1 = Inr 65536 \<and>
   read_u16 (concat (map (le_bytes 2) [7, 300])) 2 = Inl Malformed \<and>
   read_usize (concat (map (le_bytes 8) [7, 65536])) 0 = Inr 7"
  using column_roundtrip [of "[7, 65536]" 1] column_roundtrip [of "[7, 300]" 2]
    column_roundtrip [of "[7, 65536]" 0]
  by (simp add: fits_def get_at_def)

text \<open>
  C35: the postings select exactly the right roots. With strictly ascending one-based
  postings inside the table, the bisection answers membership (of the included postings,
  or, when there are none, non-membership of the excluded ones) for every root, never
  fails, and \<open>selected_root_count\<close> is the number of selected roots.
\<close>
theorem root_selection_correct:
  assumes "fits (length (included_root_ids c))" and "fits (length (excluded_root_ids c))"
    and "sorted (postings c)" and "distinct (postings c)"
    and "\<forall>p \<in> set (postings c). 1 \<le> p \<and> p \<le> root_count c" and "fits (root_count c)"
  shows "(\<forall>i < root_count c. root_is_selected c i = Inr (selected c i)) \<and>
    selected_root_count c = Inr (card {i. i < root_count c \<and> selected c i})"
proof
  show "\<forall>i < root_count c. root_is_selected c i = Inr (selected c i)"
    using root_is_selected_spec [OF assms(1-3)] fits_mono [OF _ assms(6)] by simp
  show "selected_root_count c = Inr (card {i. i < root_count c \<and> selected c i})"
    using selected_card [OF assms(4,5)]
    by (simp add: selected_root_count_def checked_sub_def postings_def split: if_splits)
qed

definition sample_columns :: direct_columns where
  "sample_columns = (from_ordered (\<lambda>ch. [ch]) (replicate 11 []))
     \<lparr> root_kinds := replicate 5 (char_of (2 :: nat)),
       excluded_root_ids := concat (map (le_bytes 4) [2, 5]) \<rparr>"

theorem root_selection_correct_witness:
  "root_is_selected sample_columns 0 = Inr True \<and> root_is_selected sample_columns 1 = Inr False \<and>
   selected_root_count sample_columns = Inr (card {i. i < root_count sample_columns \<and> selected sample_columns i})"
proof -
  have p: "postings sample_columns = [2, 5]"
    using column_encode [of 4 "[2, 5]"] by (simp add: postings_def sample_columns_def from_ordered_def)
  have r: "root_count sample_columns = 5" by (simp add: sample_columns_def root_count_def)
  have i: "included_root_ids sample_columns = []" by (simp add: sample_columns_def from_ordered_def)
  have "length (excluded_root_ids sample_columns) = 8"
    by (simp add: sample_columns_def le_bytes_def)
  with root_selection_correct [of sample_columns] p r i show ?thesis
    by (simp add: fits_def selected_def)
qed

text \<open>
  C36: scope remapping is lookup. When every scope map in force is sorted by its 32-byte
  sources without repetition, remapping a scope applies the maps one after the other, each
  replacing a scope that is one of its sources by the target of that row and leaving every
  other scope alone.
\<close>
theorem scope_remap_correct:
  assumes "\<forall>m \<in> set (scope_maps c). fits (length m) \<and> sorted (map fst (scope_rows m)) \<and>
      distinct (map fst (scope_rows m))"
  shows "remap_anonymous_scope c scope =
    Inr (fold (\<lambda>m s. case map_of (scope_rows m) s of None \<Rightarrow> s | Some t \<Rightarrow> t) (scope_maps c) scope)"
  using remap_fold [OF assms] by (simp add: remap_row_def [abs_def])

definition sample_scope_map :: bytes where
  "sample_scope_map = replicate 32 (CHR ''a'') @ replicate 32 (CHR ''b'')"

theorem scope_remap_correct_witness:
  "remap_anonymous_scope (with_anonymous_scope_map sample_columns sample_scope_map)
     (replicate 32 (CHR ''a'')) = Inr (replicate 32 (CHR ''b''))"
proof -
  have rows: "scope_rows sample_scope_map = [(replicate 32 (CHR ''a''), replicate 32 (CHR ''b''))]"
    by (simp add: scope_rows_def sample_scope_map_def)
  have m: "scope_maps (with_anonymous_scope_map sample_columns sample_scope_map) = [sample_scope_map]"
    by (simp add: scope_maps_def with_anonymous_scope_map_def sample_scope_map_def)
  have "fits (length sample_scope_map)" by (simp add: sample_scope_map_def fits_def)
  with scope_remap_correct [of "with_anonymous_scope_map sample_columns sample_scope_map"
      "replicate 32 (CHR ''a'')"] rows m
  show ?thesis by simp
qed

text \<open>
  What a canonical-set reader accepts. \<open>node_set_range\<close> succeeds exactly when the field
  is a set whose item range lies inside the item table, has the minimum length, and whose
  items are all node references in strictly ascending order; so no later loop over the
  range can read out of bounds or meet a node twice.
\<close>
theorem node_set_range_accepts:
  "node_set_range c index minimum = Inr (start, len) \<longleftrightarrow>
   field_kind c index = Inr COMPONENT_SET \<and> field_value c index = Inr start \<and>
   field_length c index = Inr len \<and> start + len \<le> item_count c \<and> minimum \<le> len \<and>
   (\<exists>ns. map (item_node c) [start ..< start + len] = map Inr ns \<and> sorted_wrt (<) ns)"
  unfolding node_set_range_Inr collection_range_Inr by blast

text \<open>
  C37: the order of anonymous individuals. Whenever both nodes can be read, the comparison
  orders them by document scope after remapping, then by the canonical varint of the
  length of the local key, then by the key; it is therefore a total order that says
  \<open>Equal\<close> only of nodes with the same scope and key.
\<close>
theorem anonymous_order_total:
  assumes "anonymous_parts c l = Inr p" and "anonymous_parts c r = Inr q"
  shows "compare_anonymous_nodes c l r =
      Inr (cmp (fst p, varint_encode (length (snd p)), snd p) (fst q, varint_encode (length (snd q)), snd q)) \<and>
    (compare_anonymous_nodes c l r = Inr Equal \<longleftrightarrow> p = q)"
  using compare_anonymous_nodes_key [OF assms] by (auto simp: anonymous_key_def prod_eq_iff)

end
