(* ===== verification/Role_State.thy ===== *)
theory Role_State
  imports Text_Rendering
begin

text \<open>
  The role maps of \<open>encoded_direct.rs\<close>: \<open>RoleAxiom\<close>, \<open>RoleState\<close> (borrowed, being built),
  \<open>OwnedRoleState\<close> (retained between calls) and \<open>build_role_state_from_rows\<close>, which replays
  role axioms in the iteration order of the reference's Java hash table.

  Both maps are insertion-ordered association vectors. Their find and set operations
  are an instance of the locale \<open>keyed_store\<close>, whose laws carry the lemmas on \<open>apply\<close>.
\<close>

section \<open>Insertion-ordered association vectors\<close>

fun assoc_set :: "'k \<Rightarrow> 'v \<Rightarrow> ('k \<times> 'v) list \<Rightarrow> ('k \<times> 'v) list" where
  "assoc_set k v [] = [(k, v)]"
| "assoc_set k v ((k', v') # xs) =
     (if k' = k then (k', v) # xs else (k', v') # assoc_set k v xs)"

locale keyed_store =
  fixes find :: "'s \<Rightarrow> 'k \<Rightarrow> 'v option"
    and put :: "'k \<Rightarrow> 'v \<Rightarrow> 's \<Rightarrow> 's"
    and keys :: "'s \<Rightarrow> 'k list"
  assumes find_put: "find (put k v s) k' = (if k' = k then Some v else find s k')"
    and find_keys: "find s k = None \<longleftrightarrow> k \<notin> set (keys s)"
    and keys_put: "keys (put k v s) = (if k \<in> set (keys s) then keys s else keys s @ [k])"
begin

lemma put_distinct: "distinct (keys s) \<Longrightarrow> distinct (keys (put k v s))"
  by (simp add: keys_put)

lemma put_put_same: "find (put k v (put k w s)) = find (put k v s)"
  by (rule ext) (simp add: find_put)

lemma put_commute: "k \<noteq> l \<Longrightarrow> find (put k v (put l w s)) = find (put l w (put k v s))"
  by (rule ext) (simp add: find_put)

lemma keys_put_length: "length (keys (put k v s)) \<le> Suc (length (keys s))"
  by (simp add: keys_put)

end

interpretation assoc: keyed_store "map_of" assoc_set "\<lambda>xs. map fst xs"
proof unfold_locales
  fix k k' :: 'a and v :: 'b and s
  show "map_of (assoc_set k v s) k' = (if k' = k then Some v else map_of s k')"
    by (induction k v s rule: assoc_set.induct) auto
  show "(map_of s k = None) = (k \<notin> set (map fst s))"
    by (simp add: map_of_eq_None_iff)
  show "map fst (assoc_set k v s) =
      (if k \<in> set (map fst s) then map fst s else map fst s @ [k])"
    by (induction k v s rule: assoc_set.induct) auto
qed

section \<open>Data\<close>

record object_property_expression =
  ope_iri :: text_str
  ope_owlapi_hash :: i32

record role_axiom =
  ra_tag :: nat
  ra_first :: text_str
  ra_second :: text_str
  ra_spread :: i32
  ra_canonical_order :: usize
  ra_source_order :: nat

record owned_role_state =
  owned_subroles :: "(text_str \<times> text_str list) list"
  owned_inverses :: "(text_str \<times> text_str) list"

record role_state =
  subroles :: "(text_str \<times> text_str list) list"
  inverses :: "(text_str \<times> text_str) list"

definition owned_role_state_default :: owned_role_state where
  "owned_role_state_default = \<lparr> owned_subroles = [], owned_inverses = [] \<rparr>"

definition role_state_default :: role_state where
  "role_state_default = \<lparr> subroles = [], inverses = [] \<rparr>"

section \<open>The retained state\<close>

definition subrole_count :: "owned_role_state \<Rightarrow> usize" where
  "subrole_count s = length (owned_subroles s)"

definition inverse_count :: "owned_role_state \<Rightarrow> usize" where
  "inverse_count s = length (owned_inverses s)"

definition clone_values :: "text_str list \<Rightarrow> text_str list kres" where
  "clone_values values = fold_res (\<lambda>v acc. bnd (clone_text v) (\<lambda>c. Inr (acc @ [c]))) values []"

definition owned_snapshot :: "owned_role_state
    \<Rightarrow> ((text_str \<times> text_str list) list \<times> (text_str \<times> text_str) list) kres" where
  "owned_snapshot s =
     bnd (fold_res (\<lambda>(property, values) acc.
            bnd (clone_values values) (\<lambda>vs.
            bnd (clone_text property) (\<lambda>p. Inr (acc @ [(p, vs)])))) (owned_subroles s) []) (\<lambda>subs.
     bnd (fold_res (\<lambda>(property, inv_iri) acc.
            bnd (clone_text property) (\<lambda>p.
            bnd (clone_text inv_iri) (\<lambda>i. Inr (acc @ [(p, i)])))) (owned_inverses s) []) (\<lambda>invs.
     Inr (subs, invs)))"

definition owned_try_clone :: "owned_role_state \<Rightarrow> owned_role_state kres" where
  "owned_try_clone s =
     bnd (owned_snapshot s) (\<lambda>(subs, invs). Inr \<lparr> owned_subroles = subs, owned_inverses = invs \<rparr>)"

definition owned_subroles_for :: "owned_role_state \<Rightarrow> text_str \<Rightarrow> text_str list" where
  "owned_subroles_for s property =
     (case map_of (owned_subroles s) property of None \<Rightarrow> [] | Some values \<Rightarrow> values)"

definition owned_inverse_for :: "owned_role_state \<Rightarrow> text_str \<Rightarrow> text_str option" where
  "owned_inverse_for s property = map_of (owned_inverses s) property"

definition owned_edge_count :: "owned_role_state \<Rightarrow> text_str \<Rightarrow> usize kres" where
  "owned_edge_count s property =
     ok_or Resource (Option.bind (checked_add 1 (length (owned_subroles_for s property)))
       (\<lambda>count. checked_add count (if owned_inverse_for s property \<noteq> None then 1 else 0)))"

section \<open>The state being built\<close>

definition subroles_for :: "role_state \<Rightarrow> text_str \<Rightarrow> text_str list" where
  "subroles_for s property =
     (case map_of (subroles s) property of None \<Rightarrow> [] | Some values \<Rightarrow> values)"

definition inverse_for :: "role_state \<Rightarrow> text_str \<Rightarrow> text_str option" where
  "inverse_for s property = map_of (inverses s) property"

definition set_subroles :: "text_str \<Rightarrow> text_str list \<Rightarrow> role_state \<Rightarrow> role_state kres" where
  "set_subroles property values s = Inr (s\<lparr>subroles := assoc_set property values (subroles s)\<rparr>)"

definition set_inverse :: "text_str \<Rightarrow> text_str \<Rightarrow> role_state \<Rightarrow> role_state kres" where
  "set_inverse property inv_iri s = Inr (s\<lparr>inverses := assoc_set property inv_iri (inverses s)\<rparr>)"

definition copy_retained :: "owned_role_state \<Rightarrow> usize \<Rightarrow> role_state \<Rightarrow> role_state kres" where
  "copy_retained retained maximum_iri state =
     bnd (fold_res (\<lambda>(property, subs) acc.
            bnd (fold_res (\<lambda>subrole vs.
                   bnd (clone_retained_role_iri subrole maximum_iri) (\<lambda>c. Inr (vs @ [c]))) subs [])
              (\<lambda>values.
            bnd (clone_retained_role_iri property maximum_iri) (\<lambda>p.
            Inr (acc @ [(p, values)])))) (owned_subroles retained) (subroles state)) (\<lambda>subs.
     bnd (fold_res (\<lambda>(property, inv_iri) acc.
            bnd (clone_retained_role_iri property maximum_iri) (\<lambda>p.
            bnd (clone_retained_role_iri inv_iri maximum_iri) (\<lambda>i.
            Inr (acc @ [(p, i)])))) (owned_inverses retained) (inverses state)) (\<lambda>invs.
     Inr \<lparr> subroles = subs, inverses = invs \<rparr>))"

definition with_capacity :: "owned_role_state option \<Rightarrow> usize \<Rightarrow> usize \<Rightarrow> usize \<Rightarrow> role_state kres" where
  "with_capacity retained subrole_axioms inverse_axioms maximum_iri =
     bnd (ok_or Resource (checked_mul inverse_axioms 2)) (\<lambda>inverse_capacity.
     bnd (ok_or Resource (checked_add
            (case retained of None \<Rightarrow> 0 | Some r \<Rightarrow> length (owned_subroles r)) subrole_axioms)) (\<lambda>_.
     bnd (ok_or Resource (checked_add
            (case retained of None \<Rightarrow> 0 | Some r \<Rightarrow> length (owned_inverses r)) inverse_capacity)) (\<lambda>_.
     case retained of
       None \<Rightarrow> Inr role_state_default
     | Some r \<Rightarrow> copy_retained r maximum_iri role_state_default)))"

definition role_apply :: "role_axiom \<Rightarrow> role_state \<Rightarrow> role_state kres" where
  "role_apply axiom s =
     (if ra_tag axiom = TAG_SUB_OBJECT_PROPERTY_OF then
        (let previous = subroles_for s (ra_first axiom) in
         bnd (ok_or Resource (checked_add (length previous) 1)) (\<lambda>_.
         set_subroles (ra_second axiom) (ra_first axiom # previous) s))
      else if ra_tag axiom = TAG_INVERSE_OBJECT_PROPERTIES then
        bnd (set_inverse (ra_first axiom) (ra_second axiom) s) (\<lambda>s1.
        set_inverse (ra_second axiom) (ra_first axiom) s1)
      else Inl Malformed)"

definition edge_count :: "role_state \<Rightarrow> text_str \<Rightarrow> usize kres" where
  "edge_count s property =
     ok_or Resource (Option.bind (checked_add 1 (length (subroles_for s property)))
       (\<lambda>count. checked_add count (if inverse_for s property \<noteq> None then 1 else 0)))"

definition to_owned :: "role_state \<Rightarrow> owned_role_state kres" where
  "to_owned s =
     bnd (fold_res (\<lambda>(property, values) acc.
            bnd (clone_values values) (\<lambda>vs.
            bnd (clone_text property) (\<lambda>p. Inr (acc @ [(p, vs)])))) (subroles s) []) (\<lambda>subs.
     bnd (fold_res (\<lambda>(property, inv_iri) acc.
            bnd (clone_text property) (\<lambda>p.
            bnd (clone_text inv_iri) (\<lambda>i. Inr (acc @ [(p, i)])))) (inverses s) []) (\<lambda>invs.
     Inr \<lparr> owned_subroles = subs, owned_inverses = invs \<rparr>))"

section \<open>Replaying the rows\<close>

text \<open>
  The table-size loop. It starts from 16; the guard on zero only makes the definition
  total, the doubling never produces it.
\<close>

function grow_capacity :: "usize \<Rightarrow> usize \<Rightarrow> usize kres" where
  "grow_capacity role_axiom_count capacity =
     (if capacity \<noteq> 0 \<and> role_axiom_count > capacity div 4 * 3 then
        (case checked_mul capacity 2 of
           None \<Rightarrow> Inl Resource
         | Some doubled \<Rightarrow> grow_capacity role_axiom_count doubled)
      else Inr capacity)"
  by pat_completeness auto
termination
  by (relation "measure (\<lambda>(n, capacity). 2 ^ 64 - capacity)")
    (auto simp: checked_mul_def fits_def split: if_splits)

declare grow_capacity.simps [simp del]

definition role_row_key :: "usize \<Rightarrow> role_axiom \<Rightarrow> nat \<times> nat \<times> nat \<times> nat" where
  "role_row_key capacity row =
     (unat (ra_spread row) AND (capacity - 1), unat (ra_spread row),
      ra_canonical_order row, ra_source_order row)"

definition role_row_compare :: "usize \<Rightarrow> role_axiom \<Rightarrow> role_axiom \<Rightarrow> ordering" where
  "role_row_compare capacity left right = cmp (role_row_key capacity left) (role_row_key capacity right)"

definition apply_rows :: "nat \<Rightarrow> role_axiom list \<Rightarrow> role_state \<Rightarrow> role_state kres" where
  "apply_rows st rows s =
     fold_res (\<lambda>(index, row) acc. bnd (check_cancel st index) (\<lambda>_. role_apply row acc))
       (enumerate 0 rows) s"

definition build_role_state_from_rows :: "role_axiom list \<Rightarrow> usize \<Rightarrow> usize \<Rightarrow> usize
    \<Rightarrow> owned_role_state option \<Rightarrow> usize \<Rightarrow> nat \<Rightarrow> role_state kres" where
  "build_role_state_from_rows rows role_axiom_count subrole_axioms inverse_axioms retained maximum_iri st =
     bnd (grow_capacity role_axiom_count 16) (\<lambda>capacity.
     bnd (cancellable_sort_unstable_by st (role_row_compare capacity) rows) (\<lambda>sorted_rows.
     bnd (with_capacity retained subrole_axioms inverse_axioms maximum_iri) (\<lambda>state0.
     apply_rows st sorted_rows state0)))"

interpretation role_rows: key_comparator "role_row_compare capacity" "role_row_key capacity"
  for capacity
  by unfold_locales (simp add: role_row_compare_def)

section \<open>Lemmas\<close>

lemma clone_text_Inr [simp]: "clone_text v = Inr v"
  by (simp add: clone_text_def)

lemma collect_copies:
  assumes "\<And>x acc. x \<in> set xs \<Longrightarrow> f x acc = Inr (acc @ [g x])"
  shows "fold_res f xs acc = Inr (acc @ map g xs)"
  using assms by (induction xs arbitrary: acc) auto

lemma clone_values_id [simp]: "clone_values vs = Inr vs"
  unfolding clone_values_def
  using collect_copies [of vs "\<lambda>v acc. Inr (acc @ [v])" "\<lambda>v. v" "[]"] by simp

lemma collect_pairs:
  "fold_res (\<lambda>(p, vs) acc. Inr (acc @ [(p, vs)])) xs acc = Inr (acc @ xs)"
  using collect_copies [of xs "\<lambda>(p, vs) acc. Inr (acc @ [(p, vs)])" "\<lambda>x. x" acc] by auto

lemma to_owned_id: "to_owned s = Inr \<lparr> owned_subroles = subroles s, owned_inverses = inverses s \<rparr>"
  by (simp add: to_owned_def collect_pairs)

lemma owned_try_clone_id: "owned_try_clone s = Inr s"
  by (simp add: owned_try_clone_def owned_snapshot_def collect_pairs)

lemma owned_lookups [simp]:
  "owned_subroles_for \<lparr> owned_subroles = subroles s, owned_inverses = inverses s \<rparr> p = subroles_for s p"
  "owned_inverse_for \<lparr> owned_subroles = subroles s, owned_inverses = inverses s \<rparr> p = inverse_for s p"
  by (simp_all add: owned_subroles_for_def subroles_for_def owned_inverse_for_def inverse_for_def)

lemma edge_count_Inr [res_simps]:
  "edge_count s p = Inr n \<longleftrightarrow>
   n = 1 + length (subroles_for s p) + (if inverse_for s p \<noteq> None then 1 else 0) \<and> fits n"
  by (auto simp: edge_count_def res_simps bind_eq_Some_conv intro: fits_mono [rotated])

definition role_keys_distinct :: "role_state \<Rightarrow> bool" where
  "role_keys_distinct s \<longleftrightarrow> distinct (map fst (subroles s)) \<and> distinct (map fst (inverses s))"

lemma role_apply_distinct:
  "role_apply a s = Inr t \<Longrightarrow> role_keys_distinct s \<Longrightarrow> role_keys_distinct t"
  by (auto simp: role_apply_def role_keys_distinct_def set_subroles_def set_inverse_def Let_def
      res_simps assoc.put_distinct split: if_splits)

lemma apply_rows_distinct:
  assumes "apply_rows st rows s = Inr t" and "role_keys_distinct s"
  shows "role_keys_distinct t"
  using assms unfolding apply_rows_def
  by (rule fold_res_invariant) (auto simp: res_simps dest: role_apply_distinct)

lemma apply_rows_keys_only:
  assumes "st \<noteq> STATE_CANCELLED"
  shows "apply_rows st rows s = fold_res role_apply rows s"
proof -
  have "fold_res (\<lambda>(i, row) acc. bnd (check_cancel st i) (\<lambda>_. role_apply row acc)) (enumerate k rows) s =
    fold_res role_apply rows s" for k
    using assms by (induction rows arbitrary: s k) (auto intro!: bnd_cong)
  then show ?thesis by (simp add: apply_rows_def)
qed

lemma role_row_key_inj:
  assumes "inj_on (\<lambda>r. (ra_canonical_order r, ra_source_order r)) S"
  shows "inj_on (role_row_key capacity) S"
  using assms by (auto simp: inj_on_def role_row_key_def)

lemma sort_rows_perm:
  assumes "mset rows = mset rows'" and "length rows < 2 ^ 56"
    and "inj_on (\<lambda>r. (ra_canonical_order r, ra_source_order r)) (set rows)"
  shows "cancellable_sort_unstable_by st (role_row_compare c) rows =
    cancellable_sort_unstable_by st (role_row_compare c) rows'"
proof (cases "st = STATE_CANCELLED")
  case True
  then show ?thesis by (simp add: sort_cancelled)
next
  case False
  have len: "length rows' < 2 ^ 56" using assms(1,2) by (metis mset_eq_length)
  have sets: "set rows' = set rows" using assms(1) by (metis set_mset_mset)
  obtain ys zs where y: "cancellable_sort_unstable_by st (role_row_compare c) rows = Inr ys"
    and z: "cancellable_sort_unstable_by st (role_row_compare c) rows' = Inr zs"
    using sort_total [OF False] assms(2) len by metis
  have inj: "inj_on (role_row_key c) (set rows)" using role_row_key_inj [OF assms(3)] .
  have "mset ys = mset zs" "sorted (map (role_row_key c) ys)" "sorted (map (role_row_key c) zs)"
    using role_rows.sort_sound [OF y] role_rows.sort_sound [OF z] assms(1) by auto
  moreover have "set ys = set rows" "set zs = set rows"
    using role_rows.sort_sound [OF y] role_rows.sort_sound [OF z] sets by (metis set_mset_mset)+
  ultimately have "ys = zs"
    using inj by (metis properties_for_sort_key sort_key_inj_key_eq)
  with y z show ?thesis by simp
qed

lemma grow_capacity_spec:
  assumes "n < 2 ^ 61" and "c = 16 * 2 ^ k" and "c < 2 ^ 63" and "0 < k \<longrightarrow> c div 2 div 4 * 3 < n"
  shows "\<exists>j. grow_capacity n c = Inr (16 * 2 ^ j) \<and> n \<le> (16 * 2 ^ j) div 4 * 3 \<and>
    (0 < j \<longrightarrow> (16 * 2 ^ j) div 2 div 4 * 3 < n)"
  using assms
proof (induction n c arbitrary: k rule: grow_capacity.induct)
  case (1 n c)
  show ?case
  proof (cases "n > c div 4 * 3")
    case False
    with "1.prems" show ?thesis by (subst grow_capacity.simps) auto
  next
    case True
    have c: "c \<noteq> 0" using "1.prems" by simp
    have d: "c = 4 * (c div 4)" using "1.prems"(2) by simp
    with True "1.prems"(1) have "c < 2 ^ 62" by simp
    then have m: "checked_mul c 2 = Some (c * 2)" by (simp add: checked_mul_def fits_def)
    have "\<exists>j. grow_capacity n (c * 2) = Inr (16 * 2 ^ j) \<and> n \<le> (16 * 2 ^ j) div 4 * 3 \<and>
        (0 < j \<longrightarrow> (16 * 2 ^ j) div 2 div 4 * 3 < n)"
      using "1.prems" True c m \<open>c < 2 ^ 62\<close> by (intro "1.IH" [where k = "Suc k"]) auto
    with True c m show ?thesis by (subst grow_capacity.simps) simp
  qed
qed

definition role_iris :: "owned_role_state \<Rightarrow> text_str set" where
  "role_iris r = (\<Union>(p, vs) \<in> set (owned_subroles r). insert p (set vs)) \<union>
     (\<Union>(p, i) \<in> set (owned_inverses r). {p, i})"

lemma copy_retained_ok:
  assumes "\<forall>iri \<in> role_iris r. length iri \<le> maximum"
  shows "copy_retained r maximum role_state_default =
    Inr \<lparr> subroles = owned_subroles r, inverses = owned_inverses r \<rparr>"
proof -
  have c: "clone_retained_role_iri v maximum = Inr v" if "v \<in> role_iris r" for v
    using assms that by (auto simp: clone_retained_role_iri_def not_less)
  have vals: "fold_res (\<lambda>subrole vs. bnd (clone_retained_role_iri subrole maximum)
      (\<lambda>c. Inr (vs @ [c]))) vs [] = Inr vs" if "(p, vs) \<in> set (owned_subroles r)" for p vs
  proof -
    have "\<forall>v \<in> set vs. v \<in> role_iris r" using that by (force simp: role_iris_def)
    then show ?thesis
      using collect_copies [of vs "\<lambda>subrole vs. bnd (clone_retained_role_iri subrole maximum)
        (\<lambda>c. Inr (vs @ [c]))" "\<lambda>v. v" "[]"] c by simp
  qed
  have subs: "fold_res (\<lambda>(property, subs) acc.
            bnd (fold_res (\<lambda>subrole vs.
                   bnd (clone_retained_role_iri subrole maximum) (\<lambda>c. Inr (vs @ [c]))) subs [])
              (\<lambda>values.
            bnd (clone_retained_role_iri property maximum) (\<lambda>p.
            Inr (acc @ [(p, values)])))) (owned_subroles r) [] = Inr ([] @ map (\<lambda>x. x) (owned_subroles r))"
    by (rule collect_copies) (auto simp: vals, subst c, force simp: role_iris_def, simp)
  have invs: "fold_res (\<lambda>(property, inv_iri) acc.
            bnd (clone_retained_role_iri property maximum) (\<lambda>p.
            bnd (clone_retained_role_iri inv_iri maximum) (\<lambda>i.
            Inr (acc @ [(p, i)])))) (owned_inverses r) [] = Inr ([] @ map (\<lambda>x. x) (owned_inverses r))"
    by (rule collect_copies) (auto, subst c, force simp: role_iris_def, subst c,
        force simp: role_iris_def, simp)
  show ?thesis using subs invs by (simp add: copy_retained_def role_state_default_def)
qed

section \<open>Properties\<close>

text \<open>
  C32: one role axiom. A sub-property axiom replaces the sub-role list of its super-property
  by its sub-property followed by what that sub-property already had, and touches no other
  entry; an inverse axiom links both properties and touches no other entry. Keys stay
  unique; any other tag is malformed.
\<close>

theorem role_apply_semantics:
  "(ra_tag a = TAG_SUB_OBJECT_PROPERTY_OF \<longrightarrow> role_apply a s = Inr t \<longrightarrow>
      subroles_for t = (subroles_for s)(ra_second a := ra_first a # subroles_for s (ra_first a)) \<and>
      inverse_for t = inverse_for s) \<and>
   (ra_tag a = TAG_INVERSE_OBJECT_PROPERTIES \<longrightarrow> role_apply a s = Inr t \<longrightarrow>
      inverse_for t =
        (inverse_for s)(ra_first a := Some (ra_second a), ra_second a := Some (ra_first a)) \<and>
      subroles_for t = subroles_for s) \<and>
   (ra_tag a \<notin> {TAG_SUB_OBJECT_PROPERTY_OF, TAG_INVERSE_OBJECT_PROPERTIES} \<longrightarrow>
      role_apply a s = Inl Malformed) \<and>
   (role_apply a s = Inr t \<longrightarrow> role_keys_distinct s \<longrightarrow> role_keys_distinct t)"
  using role_apply_distinct [of a s t]
  by (auto simp: role_apply_def set_subroles_def set_inverse_def Let_def res_simps subroles_for_def
      inverse_for_def assoc.find_put fun_eq_iff)

theorem role_apply_semantics_witness:
  "\<exists>t. role_apply \<lparr> ra_tag = 70, ra_first = ''p'', ra_second = ''q'', ra_spread = 0,
        ra_canonical_order = 0, ra_source_order = 0 \<rparr> role_state_default = Inr t \<and>
     subroles_for t ''q'' = [''p'']"
proof -
  let ?a = "\<lparr> ra_tag = 70, ra_first = ''p'', ra_second = ''q'', ra_spread = 0,
        ra_canonical_order = 0, ra_source_order = 0 \<rparr>"
  have "role_apply ?a role_state_default =
    Inr \<lparr> subroles = [(''q'', [''p''])], inverses = [] \<rparr>"
    by (simp add: role_apply_def set_subroles_def role_state_default_def subroles_for_def
        checked_add_def fits_def)
  then show ?thesis
    using role_apply_semantics [of ?a role_state_default "\<lparr> subroles = [(''q'', [''p''])], inverses = [] \<rparr>"]
    by (simp add: subroles_for_def)
qed

text \<open>
  C33: replay order. The role maps depend only on the set of role rows, not on the order
  in which the scan collected them: when rows carry distinct canonical positions, any two
  permutations of the rows build the same state or fail the same way.
\<close>

theorem role_replay_order_independent:
  assumes "mset rows = mset rows'" and "length rows < 2 ^ 56"
    and "inj_on (\<lambda>r. (ra_canonical_order r, ra_source_order r)) (set rows)"
  shows "build_role_state_from_rows rows axioms subs invs retained maximum_iri st =
    build_role_state_from_rows rows' axioms subs invs retained maximum_iri st"
  unfolding build_role_state_from_rows_def
  by (intro bnd_cong refl) (simp add: sort_rows_perm [OF assms])

theorem role_replay_order_independent_witness:
  "build_role_state_from_rows
     [\<lparr> ra_tag = 70, ra_first = ''p'', ra_second = ''q'', ra_spread = 1,
        ra_canonical_order = 0, ra_source_order = 1 \<rparr>,
      \<lparr> ra_tag = 73, ra_first = ''p'', ra_second = ''r'', ra_spread = 0,
        ra_canonical_order = 1, ra_source_order = 1 \<rparr>] 2 1 1 None 10 STATE_RUNNING =
   build_role_state_from_rows
     [\<lparr> ra_tag = 73, ra_first = ''p'', ra_second = ''r'', ra_spread = 0,
        ra_canonical_order = 1, ra_source_order = 1 \<rparr>,
      \<lparr> ra_tag = 70, ra_first = ''p'', ra_second = ''q'', ra_spread = 1,
        ra_canonical_order = 0, ra_source_order = 1 \<rparr>] 2 1 1 None 10 STATE_RUNNING"
  by (rule role_replay_order_independent) simp_all

text \<open>
  The hash-table size. For every row count the loop returns the smallest power of two
  from 16 up whose three-quarter load holds the rows: it terminates and does not overflow.
\<close>

lemma role_table_capacity:
  assumes "axioms < 2 ^ 61"
  shows "\<exists>j. grow_capacity axioms 16 = Inr (16 * 2 ^ j) \<and> axioms \<le> (16 * 2 ^ j) div 4 * 3 \<and>
    (0 < j \<longrightarrow> (16 * 2 ^ j) div 2 div 4 * 3 < axioms)"
  using grow_capacity_spec [OF assms, of 16 0] by simp

lemma role_table_capacity_witness:
  "\<exists>j. grow_capacity 13 16 = Inr (16 * 2 ^ j) \<and> 13 \<le> (16 * 2 ^ j :: nat) div 4 * 3"
  using role_table_capacity [of 13] by auto

text \<open>
  C39: retention round trip. A state that is retained and reloaded for the next call comes
  back unchanged as long as every retained role name respects the name limit of that call.
\<close>

theorem role_retention_roundtrip:
  assumes "to_owned s = Inr r" and "\<forall>iri \<in> role_iris r. length iri \<le> maximum"
    and "fits (length (subroles s))" and "fits (length (inverses s))"
  shows "with_capacity (Some r) 0 0 maximum = Inr s \<and> owned_try_clone r = Inr r"
  using assms(1,3,4) copy_retained_ok [OF assms(2)]
  by (auto simp: to_owned_id with_capacity_def checked_mul_def checked_add_def fits_def owned_try_clone_id)

theorem role_retention_roundtrip_witness:
  "with_capacity (Some \<lparr> owned_subroles = [(''q'', [''p''])], owned_inverses = [] \<rparr>) 0 0 1 =
     Inr \<lparr> subroles = [(''q'', [''p''])], inverses = [] \<rparr>"
  using role_retention_roundtrip [of "\<lparr> subroles = [(''q'', [''p''])], inverses = [] \<rparr>"
      "\<lparr> owned_subroles = [(''q'', [''p''])], owned_inverses = [] \<rparr>" 1]
  by (simp add: to_owned_id role_iris_def fits_def)

end
