(* ===== verification/Entities.thy ===== *)
theory Entities
  imports Columns Role_State
begin

text \<open>
  Entities, literals, annotations and property expressions: the readers and validators of
  \<open>DirectColumns\<close> that look at one node and the nodes it names.

  The six \<open>named_*_iri\<close> readers share one body that differs in the entity kind; it is
  \<open>named_entity_iri\<close> here.
\<close>

section \<open>Projected values\<close>

datatype annotation_value_t = Borrowed text_str | AnonymousValue usize | Typed text_str text_str

datatype individual_value_t = Named text_str | Anonymous usize

record annotation_projection_t =
  ap_source :: text_str
  ap_relation :: text_str
  ap_value :: annotation_value_t

section \<open>Named entities\<close>

definition named_entity_iri :: "bytes \<Rightarrow> direct_columns \<Rightarrow> usize \<Rightarrow> usize \<Rightarrow> text_str kres" where
  "named_entity_iri expected c node_id maximum =
     bnd (node_tag c node_id) (\<lambda>tag.
     if tag \<noteq> TAG_ENTITY then (if in_schema tag then Inl Unsupported else Inl Malformed) else
     bnd (entity c node_id) (\<lambda>(kind, iri_id).
     if kind \<noteq> expected then Inl Malformed else iri c iri_id maximum))"

definition named_class_iri :: "direct_columns \<Rightarrow> usize \<Rightarrow> usize \<Rightarrow> text_str kres" where
  "named_class_iri = named_entity_iri ''class''"

definition named_individual_iri :: "direct_columns \<Rightarrow> usize \<Rightarrow> usize \<Rightarrow> text_str kres" where
  "named_individual_iri = named_entity_iri ''named_individual''"

definition named_object_property_iri :: "direct_columns \<Rightarrow> usize \<Rightarrow> usize \<Rightarrow> text_str kres" where
  "named_object_property_iri = named_entity_iri ''object_property''"

definition named_data_property_iri :: "direct_columns \<Rightarrow> usize \<Rightarrow> usize \<Rightarrow> text_str kres" where
  "named_data_property_iri = named_entity_iri ''data_property''"

definition named_annotation_property_iri :: "direct_columns \<Rightarrow> usize \<Rightarrow> usize \<Rightarrow> text_str kres" where
  "named_annotation_property_iri = named_entity_iri ''annotation_property''"

definition named_datatype_iri :: "direct_columns \<Rightarrow> usize \<Rightarrow> usize \<Rightarrow> text_str kres" where
  "named_datatype_iri = named_entity_iri ''datatype''"

definition validate_individual :: "direct_columns \<Rightarrow> usize \<Rightarrow> usize \<Rightarrow> unit kres" where
  "validate_individual c node_id maximum =
     bnd (node_tag c node_id) (\<lambda>tag.
     if tag = TAG_ENTITY then discard (named_individual_iri c node_id maximum) else
     if tag = TAG_ANONYMOUS_INDIVIDUAL then validate_anonymous_individual c node_id
     else Inl Malformed)"

definition individual_value :: "direct_columns \<Rightarrow> usize \<Rightarrow> usize \<Rightarrow> individual_value_t kres" where
  "individual_value c node_id maximum =
     bnd (node_tag c node_id) (\<lambda>tag.
     if tag = TAG_ENTITY then map_res Named (named_individual_iri c node_id maximum) else
     if tag = TAG_ANONYMOUS_INDIVIDUAL
     then seq (validate_anonymous_individual c node_id) (Inr (Anonymous node_id))
     else Inl Malformed)"

section \<open>Literals\<close>

definition literal_language :: "direct_columns \<Rightarrow> usize \<Rightarrow> text_str \<Rightarrow> unit kres" where
  "literal_language c index datatype_iri =
     bnd (field_kind c index) (\<lambda>kind.
     if kind = COMPONENT_NONE then
       bnd (field_value c index) (\<lambda>v.
       if v \<noteq> 0 then Inl Malformed else
       bnd (field_length c index) (\<lambda>len. reject_if (len \<noteq> 0) Malformed))
     else if kind = COMPONENT_TEXT then
       bnd (scalar_payload c index COMPONENT_TEXT) (\<lambda>payload.
       bnd (from_utf8 Malformed payload) (\<lambda>language.
       reject_if (language = [] \<or>
           concat (map (to_lowercase c) (chars language)) \<noteq> chars language \<or>
           datatype_iri \<noteq> RDF_PLAIN_LITERAL) Malformed))
     else Inl Malformed)"

definition literal_parts :: "direct_columns \<Rightarrow> usize \<Rightarrow> usize \<Rightarrow> (text_str \<times> text_str) kres" where
  "literal_parts c node_id maximum_iri =
     seq (expect_tag c node_id TAG_LITERAL) (
     bnd (exact_fields c node_id 3) (\<lambda>start.
     bnd (scalar_payload c start COMPONENT_TEXT) (\<lambda>payload.
     bnd (from_utf8 Malformed payload) (\<lambda>lexical.
     bnd (field_node c (start + 1)) (\<lambda>datatype_id.
     bnd (named_datatype_iri c datatype_id maximum_iri) (\<lambda>datatype_iri.
     seq (literal_language c (start + 2) datatype_iri) (Inr (lexical, datatype_iri))))))))"

definition validate_literal :: "direct_columns \<Rightarrow> usize \<Rightarrow> usize \<Rightarrow> unit kres" where
  "validate_literal c node_id maximum_iri = discard (literal_parts c node_id maximum_iri)"

section \<open>Annotations\<close>

definition annotation_value :: "direct_columns \<Rightarrow> usize \<Rightarrow> usize \<Rightarrow> annotation_value_t kres" where
  "annotation_value c node_id maximum_iri =
     bnd (node_tag c node_id) (\<lambda>tag.
     if tag = TAG_IRI then map_res Borrowed (iri c node_id maximum_iri) else
     if tag = TAG_ANONYMOUS_INDIVIDUAL
     then seq (validate_anonymous_individual c node_id) (Inr (AnonymousValue node_id)) else
     if tag = TAG_LITERAL then
       bnd (literal_parts c node_id maximum_iri) (\<lambda>(lexical, datatype_iri).
       if datatype_iri \<in> {XSD_STRING, RDF_PLAIN_LITERAL} then Inr (Borrowed lexical)
       else Inr (Typed lexical datatype_iri))
     else Inl Malformed)"

definition validate_annotation_set :: "direct_columns \<Rightarrow> usize \<Rightarrow> unit kres" where
  "validate_annotation_set c index =
     bnd (node_set_range c index 0) (\<lambda>r.
     each_item c r (\<lambda>item. expect_tag c item TAG_ANNOTATION))"

definition annotation_value_hash :: "direct_columns \<Rightarrow> usize \<Rightarrow> usize \<Rightarrow> i32 kres" where
  "annotation_value_hash c node_id maximum_iri =
     bnd (node_tag c node_id) (\<lambda>tag.
     if tag = TAG_IRI then map_res owlapi_iri_hash (iri c node_id maximum_iri) else
     if tag = TAG_LITERAL then map_res (\<lambda>p. java_string_hash (fst p)) (literal_parts c node_id maximum_iri) else
     if tag = TAG_ANONYMOUS_INDIVIDUAL then
       seq (validate_anonymous_individual c node_id) (
       bnd (exact_fields c node_id 2) (\<lambda>start.
       bnd (scalar_payload c (start + 1) COMPONENT_BYTES) (\<lambda>local_key.
       map_res java_string_hash (from_utf8 Unsupported local_key))))
     else if in_schema tag then Inl Unsupported else Inl Malformed)"

definition annotation_hash :: "direct_columns \<Rightarrow> usize \<Rightarrow> usize \<Rightarrow> i32 kres" where
  "annotation_hash c node_id maximum_iri =
     seq (expect_tag c node_id TAG_ANNOTATION) (
     bnd (exact_fields c node_id 3) (\<lambda>start.
     bnd (field_node c start) (\<lambda>property_id.
     bnd (named_annotation_property_iri c property_id maximum_iri) (\<lambda>property.
     bnd (field_node c (start + 1)) (\<lambda>value_id.
     bnd (annotation_value_hash c value_id maximum_iri) (\<lambda>hash.
     seq (validate_annotation_set c (start + 2))
       (Inr (combine_hash 6311 [owlapi_iri_hash property, hash]))))))))"

definition annotation_set_hash :: "direct_columns \<Rightarrow> usize \<Rightarrow> usize \<Rightarrow> i32 kres" where
  "annotation_set_hash c index maximum_iri =
     bnd (node_set_range c index 0) (\<lambda>(item_start, len).
     fold_res (\<lambda>item_index result.
       bnd (item_node c item_index) (\<lambda>item.
       map_res (\<lambda>hash. result + hash) (annotation_hash c item maximum_iri)))
     [item_start ..< item_start + len] 0)"

definition validate_metadata_annotation_value :: "direct_columns \<Rightarrow> usize \<Rightarrow> usize \<Rightarrow> unit kres" where
  "validate_metadata_annotation_value c node_id maximum_iri =
     bnd (node_tag c node_id) (\<lambda>tag.
     if tag = TAG_IRI then discard (iri c node_id maximum_iri) else
     if tag = TAG_LITERAL then validate_literal c node_id maximum_iri else
     if tag = TAG_ANONYMOUS_INDIVIDUAL then validate_anonymous_individual c node_id else
     if in_schema tag then Inl Unsupported else Inl Malformed)"

definition validate_annotation :: "direct_columns \<Rightarrow> usize \<Rightarrow> usize \<Rightarrow> unit kres" where
  "validate_annotation c node_id maximum_iri =
     seq (expect_tag c node_id TAG_ANNOTATION) (
     bnd (exact_fields c node_id 3) (\<lambda>start.
     bnd (field_node c start) (\<lambda>property_id.
     seq (named_annotation_property_iri c property_id maximum_iri) (
     bnd (field_node c (start + 1)) (\<lambda>value_id.
     seq (validate_metadata_annotation_value c value_id maximum_iri)
       (validate_annotation_set c (start + 2)))))))"

definition validate_annotation_assertion :: "direct_columns \<Rightarrow> usize \<Rightarrow> usize \<Rightarrow> unit kres" where
  "validate_annotation_assertion c node_id maximum_iri =
     seq (expect_tag c node_id TAG_ANNOTATION_ASSERTION) (
     bnd (exact_fields c node_id 4) (\<lambda>start.
     bnd (field_node c start) (\<lambda>property_id.
     seq (named_annotation_property_iri c property_id maximum_iri) (
     bnd (field_node c (start + 1)) (\<lambda>subject_id.
     seq (bnd (node_tag c subject_id) (\<lambda>tag.
          if tag = TAG_IRI then discard (iri c subject_id maximum_iri) else
          if tag = TAG_ANONYMOUS_INDIVIDUAL then validate_anonymous_individual c subject_id
          else Inl Malformed)) (
     bnd (field_node c (start + 2)) (\<lambda>value_id.
     seq (annotation_value c value_id maximum_iri)
       (validate_annotation_set c (start + 3)))))))))"

definition validate_sub_annotation_property_of :: "direct_columns \<Rightarrow> usize \<Rightarrow> usize \<Rightarrow> unit kres" where
  "validate_sub_annotation_property_of c node_id maximum_iri =
     seq (expect_tag c node_id TAG_SUB_ANNOTATION_PROPERTY_OF) (
     bnd (exact_fields c node_id 3) (\<lambda>start.
     bnd (field_node c start) (\<lambda>sub_id.
     seq (named_annotation_property_iri c sub_id maximum_iri) (
     bnd (field_node c (start + 1)) (\<lambda>super_id.
     seq (named_annotation_property_iri c super_id maximum_iri)
       (validate_annotation_set c (start + 2)))))))"

text \<open>The guard of the validators that serve two tags: the node has the expected one, and the
  expected one is of the family.\<close>

definition expect_tag_of :: "direct_columns \<Rightarrow> usize \<Rightarrow> nat \<Rightarrow> nat list \<Rightarrow> unit kres" where
  "expect_tag_of c node_id expected family =
     bnd (node_tag c node_id) (\<lambda>tag. reject_if (tag \<noteq> expected \<or> expected \<notin> set family) Malformed)"

definition validate_annotation_property_iri_axiom :: "direct_columns \<Rightarrow> usize \<Rightarrow> nat \<Rightarrow> usize \<Rightarrow> unit kres" where
  "validate_annotation_property_iri_axiom c node_id expected maximum_iri =
     seq (expect_tag_of c node_id expected [TAG_ANNOTATION_PROPERTY_DOMAIN, TAG_ANNOTATION_PROPERTY_RANGE]) (
     bnd (exact_fields c node_id 3) (\<lambda>start.
     bnd (field_node c start) (\<lambda>property_id.
     seq (named_annotation_property_iri c property_id maximum_iri) (
     bnd (field_node c (start + 1)) (\<lambda>iri_id.
     seq (iri c iri_id maximum_iri) (validate_annotation_set c (start + 2)))))))"

definition contains_class_iri :: "direct_columns \<Rightarrow> text_str \<Rightarrow> usize \<Rightarrow> nat \<Rightarrow> bool kres" where
  "contains_class_iri c target maximum_iri st =
     exists_res (\<lambda>node_id.
       seq (check_cancel st node_id) (
       bnd (node_tag c node_id) (\<lambda>tag.
       if tag \<noteq> TAG_ENTITY then Inr False else
       bnd (entity c node_id) (\<lambda>(kind, iri_id).
       if kind \<noteq> ''class'' then Inr False else
       map_res (\<lambda>text. text = target) (iri c iri_id maximum_iri)))))
     [1 ..< node_count c + 1]"

definition annotation_relation :: "text_str \<Rightarrow> text_str" where
  "annotation_relation property =
     (if property = ''http://www.w3.org/2000/01/rdf-schema#label'' then ''rdfs:label'' else
      if property = ''http://www.w3.org/2000/01/rdf-schema#comment'' then ''rdfs:comment''
      else property)"

definition annotation_projection :: "direct_columns \<Rightarrow> usize \<Rightarrow> usize \<Rightarrow> nat \<Rightarrow> annotation_projection_t option kres" where
  "annotation_projection c node_id maximum_iri st =
     seq (expect_tag c node_id TAG_ANNOTATION_ASSERTION) (
     bnd (exact_fields c node_id 4) (\<lambda>start.
     bnd (field_node c start) (\<lambda>property_id.
     bnd (named_annotation_property_iri c property_id maximum_iri) (\<lambda>property.
     if property \<notin> set ANNOTATION_PROPERTIES then Inr None else
     bnd (field_node c (start + 1)) (\<lambda>subject_id.
     bnd (node_tag c subject_id) (\<lambda>tag.
     if tag = TAG_IRI then
       bnd (iri c subject_id maximum_iri) (\<lambda>source.
       bnd (contains_class_iri c source maximum_iri st) (\<lambda>known.
       if \<not> known then Inr None else
       bnd (field_node c (start + 2)) (\<lambda>value_id.
       bnd (annotation_value c value_id maximum_iri) (\<lambda>v.
       Inr (Some \<lparr> ap_source = source, ap_relation = annotation_relation property, ap_value = v \<rparr>)))))
     else if tag = TAG_ANONYMOUS_INDIVIDUAL
     then seq (validate_anonymous_individual c subject_id) (Inr None)
     else Inl Malformed))))))"

section \<open>Object-property expressions and role axioms\<close>

definition object_inverse_iri :: "direct_columns \<Rightarrow> usize \<Rightarrow> usize \<Rightarrow> text_str kres" where
  "object_inverse_iri c node_id maximum =
     seq (expect_tag c node_id TAG_OBJECT_INVERSE_OF) (
     bnd (exact_fields c node_id 1) (\<lambda>start.
     bnd (field_node c start) (\<lambda>property_id. named_object_property_iri c property_id maximum)))"

definition object_property_expression_iri :: "direct_columns \<Rightarrow> usize \<Rightarrow> usize \<Rightarrow> text_str kres" where
  "object_property_expression_iri c node_id maximum =
     bnd (node_tag c node_id) (\<lambda>tag.
     if tag = TAG_ENTITY then named_object_property_iri c node_id maximum else
     if tag = TAG_OBJECT_INVERSE_OF then object_inverse_iri c node_id maximum else
     if in_schema tag then Inl Unsupported else Inl Malformed)"

definition object_property_expression_of :: "direct_columns \<Rightarrow> usize \<Rightarrow> usize \<Rightarrow> object_property_expression kres" where
  "object_property_expression_of c node_id maximum =
     bnd (node_tag c node_id) (\<lambda>tag.
     bnd (object_property_expression_iri c node_id maximum) (\<lambda>text.
     let named_hash = combine_hash 4153 [owlapi_iri_hash text] in
     Inr \<lparr> ope_iri = text,
           ope_owlapi_hash = (if tag = TAG_OBJECT_INVERSE_OF then combine_hash 4241 [named_hash]
                              else named_hash) \<rparr>))"

definition validate_object_property_chain :: "direct_columns \<Rightarrow> usize \<Rightarrow> usize \<Rightarrow> unit kres" where
  "validate_object_property_chain c node_id maximum =
     seq (expect_tag c node_id TAG_OBJECT_PROPERTY_CHAIN) (
     bnd (exact_fields c node_id 1) (\<lambda>start.
     bnd (node_sequence_range c start 2) (\<lambda>r.
     each_item c r (\<lambda>item. object_property_expression_of c item maximum))))"

definition validate_sub_object_property_of :: "direct_columns \<Rightarrow> usize \<Rightarrow> usize \<Rightarrow> bool kres" where
  "validate_sub_object_property_of c node_id maximum =
     seq (expect_tag c node_id TAG_SUB_OBJECT_PROPERTY_OF) (
     bnd (exact_fields c node_id 3) (\<lambda>start.
     bnd (field_node c start) (\<lambda>first_id.
     bnd (node_tag c first_id) (\<lambda>first_tag.
     let is_chain = (first_tag = TAG_OBJECT_PROPERTY_CHAIN) in
     seq (if is_chain then validate_object_property_chain c first_id maximum
          else discard (object_property_expression_of c first_id maximum)) (
     bnd (field_node c (start + 1)) (\<lambda>second_id.
     seq (object_property_expression_of c second_id maximum) (
     seq (annotation_set_hash c (start + 2) maximum) (Inr is_chain))))))))"

definition role_axiom_parts :: "direct_columns \<Rightarrow> usize \<Rightarrow> nat \<Rightarrow> usize
    \<Rightarrow> (object_property_expression \<times> object_property_expression \<times> i32) kres" where
  "role_axiom_parts c node_id expected maximum =
     seq (expect_tag_of c node_id expected [TAG_SUB_OBJECT_PROPERTY_OF, TAG_INVERSE_OBJECT_PROPERTIES]) (
     bnd (exact_fields c node_id 3) (\<lambda>start.
     bnd (field_node c start) (\<lambda>first_id.
     bnd (object_property_expression_of c first_id maximum) (\<lambda>first.
     bnd (field_node c (start + 1)) (\<lambda>second_id.
     bnd (object_property_expression_of c second_id maximum) (\<lambda>second.
     bnd (annotation_set_hash c (start + 2) maximum) (\<lambda>hash.
     Inr (first, second, hash))))))))"

definition role_axiom_row :: "direct_columns \<Rightarrow> usize \<Rightarrow> nat \<Rightarrow> usize \<Rightarrow> usize \<Rightarrow> nat \<Rightarrow> role_axiom kres" where
  "role_axiom_row c node_id expected maximum order source =
     bnd (role_axiom_parts c node_id expected maximum) (\<lambda>(first, second, hash).
     let owlapi_hash = (if expected = TAG_SUB_OBJECT_PROPERTY_OF
           then combine_hash 1823 [ope_owlapi_hash first, ope_owlapi_hash second, hash]
           else combine_hash 1229 [ope_owlapi_hash first + ope_owlapi_hash second, hash]) in
     Inr \<lparr> ra_tag = expected, ra_first = ope_iri first, ra_second = ope_iri second,
           ra_spread = hash_spread owlapi_hash, ra_canonical_order = order, ra_source_order = source \<rparr>)"

definition validate_object_property_set_axiom :: "direct_columns \<Rightarrow> usize \<Rightarrow> nat \<Rightarrow> usize \<Rightarrow> unit kres" where
  "validate_object_property_set_axiom c node_id expected maximum =
     seq (expect_tag_of c node_id expected [TAG_EQUIVALENT_OBJECT_PROPERTIES, TAG_DISJOINT_OBJECT_PROPERTIES]) (
     bnd (exact_fields c node_id 2) (\<lambda>start.
     bnd (node_set_range c start 2) (\<lambda>r.
     seq (each_item c r (\<lambda>item. object_property_expression_of c item maximum))
       (validate_annotation_set c (start + 1)))))"

definition validate_object_property_characteristic :: "direct_columns \<Rightarrow> usize \<Rightarrow> usize \<Rightarrow> unit kres" where
  "validate_object_property_characteristic c node_id maximum =
     bnd (node_tag c node_id) (\<lambda>tag.
     seq (reject_if (\<not> is_object_property_characteristic tag) Malformed) (
     bnd (exact_fields c node_id 2) (\<lambda>start.
     bnd (field_node c start) (\<lambda>property_id.
     seq (object_property_expression_of c property_id maximum)
       (validate_annotation_set c (start + 1))))))"

section \<open>Assertions and data properties\<close>

definition object_property_assertion_parts :: "direct_columns \<Rightarrow> usize \<Rightarrow> usize
    \<Rightarrow> (individual_value_t \<times> text_str \<times> individual_value_t) kres" where
  "object_property_assertion_parts c node_id maximum =
     seq (expect_tag c node_id TAG_OBJECT_PROPERTY_ASSERTION) (
     bnd (exact_fields c node_id 4) (\<lambda>start.
     bnd (field_node c start) (\<lambda>property_id.
     bnd (bnd (node_tag c property_id) (\<lambda>tag.
          if tag = TAG_ENTITY then named_object_property_iri c property_id maximum else
          if tag = TAG_OBJECT_INVERSE_OF
          then seq (object_inverse_iri c property_id maximum) (Inl ReferenceFailure)
          else Inl Unsupported)) (\<lambda>relation.
     bnd (field_node c (start + 1)) (\<lambda>source_id.
     bnd (individual_value c source_id maximum) (\<lambda>source.
     bnd (field_node c (start + 2)) (\<lambda>destination_id.
     bnd (individual_value c destination_id maximum) (\<lambda>destination.
     seq (validate_annotation_set c (start + 3))
       (Inr (source, relation, destination))))))))))"

definition validate_negative_object_property_assertion :: "direct_columns \<Rightarrow> usize \<Rightarrow> usize \<Rightarrow> unit kres" where
  "validate_negative_object_property_assertion c node_id maximum =
     seq (expect_tag c node_id TAG_NEGATIVE_OBJECT_PROPERTY_ASSERTION) (
     bnd (exact_fields c node_id 4) (\<lambda>start.
     bnd (field_node c start) (\<lambda>property_id.
     seq (object_property_expression_iri c property_id maximum) (
     bnd (field_node c (start + 1)) (\<lambda>source_id.
     seq (validate_individual c source_id maximum) (
     bnd (field_node c (start + 2)) (\<lambda>target_id.
     seq (validate_individual c target_id maximum)
       (validate_annotation_set c (start + 3)))))))))"

definition validate_individual_set_axiom :: "direct_columns \<Rightarrow> usize \<Rightarrow> nat \<Rightarrow> usize \<Rightarrow> unit kres" where
  "validate_individual_set_axiom c node_id expected maximum =
     seq (expect_tag_of c node_id expected [TAG_SAME_INDIVIDUAL, TAG_DIFFERENT_INDIVIDUALS]) (
     bnd (exact_fields c node_id 2) (\<lambda>start.
     bnd (node_set_range c start 2) (\<lambda>r.
     seq (each_item c r (\<lambda>item. validate_individual c item maximum))
       (validate_annotation_set c (start + 1)))))"

definition validate_data_property_assertion :: "direct_columns \<Rightarrow> usize \<Rightarrow> nat \<Rightarrow> usize \<Rightarrow> unit kres" where
  "validate_data_property_assertion c node_id expected maximum =
     seq (expect_tag_of c node_id expected [TAG_DATA_PROPERTY_ASSERTION, TAG_NEGATIVE_DATA_PROPERTY_ASSERTION]) (
     bnd (exact_fields c node_id 4) (\<lambda>start.
     bnd (field_node c start) (\<lambda>property_id.
     seq (named_data_property_iri c property_id maximum) (
     bnd (field_node c (start + 1)) (\<lambda>source_id.
     seq (validate_individual c source_id maximum) (
     bnd (field_node c (start + 2)) (\<lambda>literal_id.
     seq (validate_literal c literal_id maximum)
       (validate_annotation_set c (start + 3)))))))))"

definition validate_binary_data_property_axiom :: "direct_columns \<Rightarrow> usize \<Rightarrow> nat \<Rightarrow> usize \<Rightarrow> unit kres" where
  "validate_binary_data_property_axiom c node_id expected maximum =
     seq (expect_tag_of c node_id expected [TAG_SUB_DATA_PROPERTY_OF]) (
     bnd (exact_fields c node_id 3) (\<lambda>start.
     bnd (field_node c start) (\<lambda>sub_id.
     seq (named_data_property_iri c sub_id maximum) (
     bnd (field_node c (start + 1)) (\<lambda>super_id.
     seq (named_data_property_iri c super_id maximum)
       (validate_annotation_set c (start + 2)))))))"

definition validate_data_property_set_axiom :: "direct_columns \<Rightarrow> usize \<Rightarrow> nat \<Rightarrow> usize \<Rightarrow> unit kres" where
  "validate_data_property_set_axiom c node_id expected maximum =
     seq (expect_tag_of c node_id expected [TAG_EQUIVALENT_DATA_PROPERTIES, TAG_DISJOINT_DATA_PROPERTIES]) (
     bnd (exact_fields c node_id 2) (\<lambda>start.
     bnd (node_set_range c start 2) (\<lambda>r.
     seq (each_item c r (\<lambda>item. named_data_property_iri c item maximum))
       (validate_annotation_set c (start + 1)))))"

definition validate_functional_data_property :: "direct_columns \<Rightarrow> usize \<Rightarrow> usize \<Rightarrow> unit kres" where
  "validate_functional_data_property c node_id maximum =
     seq (expect_tag c node_id TAG_FUNCTIONAL_DATA_PROPERTY) (
     bnd (exact_fields c node_id 2) (\<lambda>start.
     bnd (field_node c start) (\<lambda>property_id.
     seq (named_data_property_iri c property_id maximum)
       (validate_annotation_set c (start + 1)))))"

end
