(* ===== verification/Class_Expressions.thy ===== *)
theory Class_Expressions
  imports Entities
begin

text \<open>
  Class expressions, data ranges and the projections of class axioms: restrictions, ranks,
  the ordering of equivalent operands, subclass, domain/range, equivalence and class
  assertion projections, the SWRL validators and the remaining class-axiom validators.
  Each validator looks only at its node and the nodes it references: recursion through
  nested expressions is left to the graph walks.
\<close>

section \<open>Projections\<close>

datatype subclass_projection_t =
    SubclassTaxonomy text_str text_str
  | SubclassRestriction text_str text_str text_str
  | SubclassIgnored

datatype class_assertion_projection_t =
    ClassAssertionEdge text_str usize text_str usize
  | ClassAssertionIgnored

datatype equivalent_projection_t =
    EquivalentPair text_str usize text_str usize
  | EquivalentAggregate text_str usize usize
  | EquivalentIgnored

record planned_restriction_coordinate =
  property_node :: usize
  filler_node :: usize

datatype planned_individual_coordinate_t = PlannedNamed usize | PlannedAnonymous usize

section \<open>Restrictions\<close>

definition validate_class_expression_reference :: "direct_columns \<Rightarrow> usize \<Rightarrow> usize \<Rightarrow> unit kres" where
  "validate_class_expression_reference c node_id maximum =
     bnd (node_tag c node_id) (\<lambda>tag.
     if tag = TAG_ENTITY then discard (named_class_iri c node_id maximum) else
     if is_class_expression_tag tag then Inr () else Inl Malformed)"

definition restriction_projection :: "direct_columns \<Rightarrow> usize \<Rightarrow> usize \<Rightarrow> (text_str \<times> text_str) option kres" where
  "restriction_projection c node_id maximum =
     bnd (node_tag c node_id) (\<lambda>tag.
     bnd (if tag = TAG_OBJECT_SOME_VALUES_FROM \<or> tag = TAG_OBJECT_ALL_VALUES_FROM then
            bnd (exact_fields c node_id 2) (\<lambda>start. Inr (start, start + 1))
          else if tag = TAG_OBJECT_MIN_CARDINALITY \<or> tag = TAG_OBJECT_MAX_CARDINALITY then
            bnd (exact_fields c node_id 3) (\<lambda>start.
            seq (canonical_integer c start) (Inr (start + 1, start + 2)))
          else if in_schema tag then Inl Unsupported else Inl Malformed)
       (\<lambda>(property_index, filler_index).
     bnd (field_node c property_index) (\<lambda>property_id.
     bnd (object_property_expression_iri c property_id maximum) (\<lambda>relation.
     bnd (field_node c filler_index) (\<lambda>filler_id.
     seq (validate_class_expression_reference c filler_id maximum) (
     bnd (node_tag c filler_id) (\<lambda>filler_tag.
     if filler_tag \<noteq> TAG_ENTITY then Inr None else
     map_res (\<lambda>filler. Some (relation, filler)) (named_class_iri c filler_id maximum))))))))"

definition planned_restriction_coordinate_of :: "direct_columns \<Rightarrow> usize \<Rightarrow> planned_restriction_coordinate kres" where
  "planned_restriction_coordinate_of c node_id =
     bnd (node_tag c node_id) (\<lambda>tag.
     bnd (if tag = TAG_OBJECT_SOME_VALUES_FROM \<or> tag = TAG_OBJECT_ALL_VALUES_FROM then
            bnd (exact_fields c node_id 2) (\<lambda>start. Inr (start, start + 1))
          else if tag = TAG_OBJECT_MIN_CARDINALITY \<or> tag = TAG_OBJECT_MAX_CARDINALITY then
            bnd (exact_fields c node_id 3) (\<lambda>start. Inr (start + 1, start + 2))
          else Inl Malformed)
       (\<lambda>(property_index, filler_index).
     bnd (field_node c property_index) (\<lambda>property_expression.
     bnd (node_tag c property_expression) (\<lambda>property_tag.
     bnd (if property_tag = TAG_ENTITY then Inr property_expression
          else if property_tag = TAG_OBJECT_INVERSE_OF then
            bnd (exact_fields c property_expression 1) (field_node c)
          else Inl Malformed) (\<lambda>property.
     bnd (field_node c filler_index) (\<lambda>filler.
     Inr \<lparr> property_node = property, filler_node = filler \<rparr>))))))"

definition planned_individual_coordinate :: "direct_columns \<Rightarrow> individual_value_t \<Rightarrow> usize
    \<Rightarrow> planned_individual_coordinate_t kres" where
  "planned_individual_coordinate c v node_id = (case v of
     Named _ \<Rightarrow> bnd (node_tag c node_id) (\<lambda>tag.
       if tag = TAG_ENTITY then Inr (PlannedNamed node_id) else Inl Malformed)
   | Anonymous expected \<Rightarrow>
       if expected \<noteq> node_id then Inl Malformed else
       bnd (node_tag c node_id) (\<lambda>tag.
       if tag = TAG_ANONYMOUS_INDIVIDUAL then Inr (PlannedAnonymous node_id) else Inl Malformed))"

definition planned_restriction_parts :: "direct_columns \<Rightarrow> planned_restriction_coordinate \<Rightarrow> usize
    \<Rightarrow> (text_str \<times> text_str) kres" where
  "planned_restriction_parts c coordinate maximum =
     bnd (named_object_property_iri c (property_node coordinate) maximum) (\<lambda>relation.
     bnd (named_class_iri c (filler_node coordinate) maximum) (\<lambda>filler.
     Inr (relation, filler)))"

definition render_planned_individual :: "direct_columns \<Rightarrow> planned_individual_coordinate_t
    \<Rightarrow> anonymous_ids \<Rightarrow> usize \<Rightarrow> text_str kres" where
  "render_planned_individual c coordinate ids maximum = (case coordinate of
     PlannedNamed node_id \<Rightarrow> bnd (named_individual_iri c node_id maximum) clone_text
   | PlannedAnonymous node_id \<Rightarrow> anonymous_render ids node_id)"

section \<open>Data ranges\<close>

definition validate_facet_restriction :: "direct_columns \<Rightarrow> usize \<Rightarrow> usize \<Rightarrow> unit kres" where
  "validate_facet_restriction c node_id maximum =
     seq (expect_tag c node_id TAG_FACET_RESTRICTION) (
     bnd (exact_fields c node_id 2) (\<lambda>start.
     bnd (field_node c start) (\<lambda>facet_id.
     seq (iri c facet_id maximum) (
     bnd (field_node c (start + 1)) (\<lambda>literal_id. validate_literal c literal_id maximum)))))"

definition validate_data_range_reference :: "direct_columns \<Rightarrow> usize \<Rightarrow> usize \<Rightarrow> unit kres" where
  "validate_data_range_reference c node_id maximum =
     bnd (node_tag c node_id) (\<lambda>tag.
     if tag = TAG_ENTITY then discard (named_datatype_iri c node_id maximum) else
     if is_data_range_tag tag then Inr () else Inl Malformed)"

definition validate_data_range_node :: "direct_columns \<Rightarrow> usize \<Rightarrow> usize \<Rightarrow> unit kres" where
  "validate_data_range_node c node_id maximum =
     bnd (node_tag c node_id) (\<lambda>tag.
     if tag = TAG_ENTITY then discard (named_datatype_iri c node_id maximum)
     else if tag = TAG_DATA_INTERSECTION_OF \<or> tag = TAG_DATA_UNION_OF then
       bnd (exact_fields c node_id 1) (\<lambda>start.
       bnd (node_set_range c start 2) (\<lambda>r.
       each_item c r (\<lambda>operand_id.
         bnd (node_tag c operand_id) (\<lambda>operand_tag.
         if operand_tag = tag then Inl Malformed
         else validate_data_range_reference c operand_id maximum))))
     else if tag = TAG_DATA_COMPLEMENT_OF then
       bnd (exact_fields c node_id 1) (\<lambda>start.
       bnd (field_node c start) (\<lambda>operand_id. validate_data_range_reference c operand_id maximum))
     else if tag = TAG_DATA_ONE_OF then
       bnd (exact_fields c node_id 1) (\<lambda>start.
       bnd (node_set_range c start 1) (\<lambda>r.
       each_item c r (\<lambda>item. validate_literal c item maximum)))
     else if tag = TAG_DATATYPE_RESTRICTION then
       bnd (exact_fields c node_id 2) (\<lambda>start.
       bnd (field_node c start) (\<lambda>datatype_id.
       seq (named_datatype_iri c datatype_id maximum) (
       bnd (node_set_range c (start + 1) 1) (\<lambda>r.
       each_item c r (\<lambda>item. validate_facet_restriction c item maximum)))))
     else Inl Malformed)"

section \<open>Class expressions\<close>

definition validate_data_class_expression :: "direct_columns \<Rightarrow> usize \<Rightarrow> usize \<Rightarrow> unit kres" where
  "validate_data_class_expression c node_id maximum =
     bnd (node_tag c node_id) (\<lambda>tag.
     if tag = TAG_DATA_SOME_VALUES_FROM \<or> tag = TAG_DATA_ALL_VALUES_FROM then
       bnd (exact_fields c node_id 2) (\<lambda>start.
       bnd (node_sequence_range c start 1) (\<lambda>r.
       seq (each_item c r (\<lambda>item. named_data_property_iri c item maximum)) (
       bnd (field_node c (start + 1)) (\<lambda>range_id. validate_data_range_node c range_id maximum))))
     else if tag = TAG_DATA_HAS_VALUE then
       bnd (exact_fields c node_id 2) (\<lambda>start.
       bnd (field_node c start) (\<lambda>property_id.
       seq (named_data_property_iri c property_id maximum) (
       bnd (field_node c (start + 1)) (\<lambda>literal_id. validate_literal c literal_id maximum))))
     else if tag = TAG_DATA_MIN_CARDINALITY \<or> tag = TAG_DATA_MAX_CARDINALITY
       \<or> tag = TAG_DATA_EXACT_CARDINALITY then
       bnd (exact_fields c node_id 3) (\<lambda>start.
       seq (canonical_integer c start) (
       bnd (field_node c (start + 1)) (\<lambda>property_id.
       seq (named_data_property_iri c property_id maximum) (
       bnd (field_node c (start + 2)) (\<lambda>range_id. validate_data_range_node c range_id maximum)))))
     else Inl Malformed)"

definition validate_nonprojecting_class_expression :: "direct_columns \<Rightarrow> usize \<Rightarrow> usize \<Rightarrow> unit kres" where
  "validate_nonprojecting_class_expression c node_id maximum =
     bnd (node_tag c node_id) (\<lambda>tag.
     if tag = TAG_OBJECT_ONE_OF then
       bnd (exact_fields c node_id 1) (\<lambda>start.
       bnd (node_set_range c start 1) (\<lambda>r.
       each_item c r (\<lambda>item. validate_individual c item maximum)))
     else if tag = TAG_OBJECT_HAS_VALUE then
       bnd (exact_fields c node_id 2) (\<lambda>start.
       bnd (field_node c start) (\<lambda>property_id.
       seq (object_property_expression_of c property_id maximum) (
       bnd (field_node c (start + 1)) (\<lambda>individual_id. validate_individual c individual_id maximum))))
     else if tag = TAG_OBJECT_HAS_SELF then
       bnd (exact_fields c node_id 1) (\<lambda>start.
       bnd (field_node c start) (\<lambda>property_id.
       discard (object_property_expression_of c property_id maximum)))
     else if tag = TAG_OBJECT_EXACT_CARDINALITY then
       bnd (exact_fields c node_id 3) (\<lambda>start.
       seq (canonical_integer c start) (
       bnd (field_node c (start + 1)) (\<lambda>property_id.
       seq (object_property_expression_of c property_id maximum) (
       bnd (field_node c (start + 2)) (\<lambda>filler_id.
       validate_class_expression_reference c filler_id maximum)))))
     else if is_data_class_expression_tag tag then validate_data_class_expression c node_id maximum
     else if tag = TAG_OBJECT_COMPLEMENT_OF then
       bnd (exact_fields c node_id 1) (\<lambda>start.
       bnd (field_node c start) (\<lambda>operand_id.
       validate_class_expression_reference c operand_id maximum))
     else if in_schema tag then Inl Unsupported else Inl Malformed)"

definition validate_aggregate_operand :: "direct_columns \<Rightarrow> nat \<Rightarrow> usize \<Rightarrow> usize \<Rightarrow> unit kres" where
  "validate_aggregate_operand c aggregate_tag operand_id maximum =
     bnd (node_tag c operand_id) (\<lambda>tag.
     if tag = TAG_ENTITY then discard (named_class_iri c operand_id maximum) else
     if is_restriction_tag tag then discard (restriction_projection c operand_id maximum) else
     if is_nonprojecting_class_tag tag
     then validate_nonprojecting_class_expression c operand_id maximum else
     if is_aggregate_tag tag then reject_if (tag = aggregate_tag) Malformed else
     if in_schema tag then Inl Unsupported else Inl Malformed)"

definition validate_aggregate_expression :: "direct_columns \<Rightarrow> usize \<Rightarrow> usize \<Rightarrow> unit kres" where
  "validate_aggregate_expression c node_id maximum =
     bnd (node_tag c node_id) (\<lambda>aggregate_tag.
     seq (reject_if (\<not> is_aggregate_tag aggregate_tag) Malformed) (
     bnd (exact_fields c node_id 1) (\<lambda>start.
     bnd (node_set_range c start 2) (\<lambda>r.
     each_item c r (\<lambda>operand_id. validate_aggregate_operand c aggregate_tag operand_id maximum)))))"

definition class_expression_rank :: "direct_columns \<Rightarrow> usize \<Rightarrow> usize \<Rightarrow> nat kres" where
  "class_expression_rank c node_id maximum =
     bnd (node_tag c node_id) (\<lambda>tag.
     if tag = TAG_ENTITY then seq (named_class_iri c node_id maximum) (Inr 1001) else
     if tag = TAG_OBJECT_INTERSECTION_OF
     then seq (validate_aggregate_expression c node_id maximum) (Inr 3001) else
     if tag = TAG_OBJECT_UNION_OF
     then seq (validate_aggregate_expression c node_id maximum) (Inr 3002) else
     if tag = TAG_OBJECT_SOME_VALUES_FROM
     then seq (restriction_projection c node_id maximum) (Inr 3005) else
     if tag = TAG_OBJECT_ALL_VALUES_FROM
     then seq (restriction_projection c node_id maximum) (Inr 3006) else
     if tag = TAG_OBJECT_MIN_CARDINALITY
     then seq (restriction_projection c node_id maximum) (Inr 3008) else
     if tag = TAG_OBJECT_MAX_CARDINALITY
     then seq (restriction_projection c node_id maximum) (Inr 3010) else
     if is_nonprojecting_class_tag tag
     then seq (validate_nonprojecting_class_expression c node_id maximum) (Inr 3999) else
     if in_schema tag then Inl Unsupported else Inl Malformed)"

definition expression_precedes :: "direct_columns \<Rightarrow> usize \<Rightarrow> usize \<Rightarrow> usize \<Rightarrow> bool kres" where
  "expression_precedes c left_id right_id maximum =
     bnd (class_expression_rank c left_id maximum) (\<lambda>left_rank.
     bnd (class_expression_rank c right_id maximum) (\<lambda>right_rank.
     if left_rank \<noteq> right_rank then Inr (left_rank < right_rank) else
     if left_rank = 1001 then
       bnd (named_class_iri c left_id maximum) (\<lambda>left.
       bnd (named_class_iri c right_id maximum) (\<lambda>right.
       Inr ((left, left_id) < (right, right_id))))
     else Inr (left_id < right_id)))"

section \<open>Class axioms\<close>

definition validate_ignored_subclass_operand :: "direct_columns \<Rightarrow> usize \<Rightarrow> usize \<Rightarrow> unit kres" where
  "validate_ignored_subclass_operand c node_id maximum =
     bnd (node_tag c node_id) (\<lambda>tag.
     if tag = TAG_ENTITY then discard (named_class_iri c node_id maximum) else
     if is_restriction_tag tag then discard (restriction_projection c node_id maximum) else
     if is_nonprojecting_class_tag tag
     then validate_nonprojecting_class_expression c node_id maximum else
     if is_aggregate_tag tag then discard (class_expression_rank c node_id maximum) else
     if in_schema tag then Inl Unsupported else Inl Malformed)"

text \<open>The two directions of a restriction subclass share their tail.\<close>

definition subclass_restriction :: "direct_columns \<Rightarrow> usize \<Rightarrow> usize \<Rightarrow> usize \<Rightarrow> subclass_projection_t kres" where
  "subclass_restriction c class_id restriction_id maximum =
     bnd (named_class_iri c class_id maximum) (\<lambda>source.
     bnd (restriction_projection c restriction_id maximum) (\<lambda>projection.
     Inr (case projection of
            Some (relation, destination) \<Rightarrow> SubclassRestriction source relation destination
          | None \<Rightarrow> SubclassIgnored)))"

definition subclass_projection :: "direct_columns \<Rightarrow> usize \<Rightarrow> usize \<Rightarrow> subclass_projection_t kres" where
  "subclass_projection c node_id maximum =
     bnd (exact_fields c node_id 3) (\<lambda>start.
     bnd (field_node c start) (\<lambda>sub_id.
     bnd (field_node c (start + 1)) (\<lambda>super_id.
     bnd (node_tag c sub_id) (\<lambda>sub_tag.
     bnd (node_tag c super_id) (\<lambda>super_tag.
     bnd (if sub_tag = TAG_ENTITY \<and> super_tag = TAG_ENTITY then
            bnd (named_class_iri c sub_id maximum) (\<lambda>source.
            bnd (named_class_iri c super_id maximum) (\<lambda>destination.
            Inr (SubclassTaxonomy source destination)))
          else if sub_tag = TAG_ENTITY \<and> is_restriction_tag super_tag then
            subclass_restriction c sub_id super_id maximum
          else if is_restriction_tag sub_tag \<and> super_tag = TAG_ENTITY then
            subclass_restriction c super_id sub_id maximum
          else if is_nonprojecting_class_tag sub_tag \<or> is_nonprojecting_class_tag super_tag
            \<or> is_aggregate_tag sub_tag \<or> is_aggregate_tag super_tag
            \<or> is_restriction_tag sub_tag \<or> is_restriction_tag super_tag then
            seq (validate_ignored_subclass_operand c sub_id maximum) (
            seq (validate_ignored_subclass_operand c super_id maximum) (Inr SubclassIgnored))
          else Inl Unsupported) (\<lambda>projection.
     seq (validate_annotation_set c (start + 2)) (Inr projection)))))))"

definition object_property_class_projection :: "direct_columns \<Rightarrow> usize \<Rightarrow> nat \<Rightarrow> usize
    \<Rightarrow> (text_str \<times> text_str) option kres" where
  "object_property_class_projection c node_id expected maximum =
     seq (expect_tag_of c node_id expected [TAG_OBJECT_PROPERTY_DOMAIN, TAG_OBJECT_PROPERTY_RANGE]) (
     bnd (exact_fields c node_id 3) (\<lambda>start.
     bnd (field_node c start) (\<lambda>property_id.
     bnd (bnd (node_tag c property_id) (\<lambda>tag.
          if tag = TAG_ENTITY then map_res Some (named_object_property_iri c property_id maximum) else
          if tag = TAG_OBJECT_INVERSE_OF then seq (object_inverse_iri c property_id maximum) (Inr None) else
          if in_schema tag then Inl Unsupported else Inl Malformed)) (\<lambda>property.
     bnd (field_node c (start + 1)) (\<lambda>class_id.
     bnd (bnd (node_tag c class_id) (\<lambda>tag.
          if tag = TAG_ENTITY then map_res Some (named_class_iri c class_id maximum)
          else seq (class_expression_rank c class_id maximum) (Inr None))) (\<lambda>class_iri.
     seq (validate_annotation_set c (start + 2))
       (Inr (case (property, class_iri) of (Some p, Some k) \<Rightarrow> Some (p, k) | _ \<Rightarrow> None))))))))"

definition equivalent_step :: "direct_columns \<Rightarrow> usize \<Rightarrow> usize \<Rightarrow> usize option \<times> usize option
    \<Rightarrow> (usize option \<times> usize option) kres" where
  "equivalent_step c maximum item_index best =
     bnd (item_node c item_index) (\<lambda>expression_id.
     seq (class_expression_rank c expression_id maximum) (
     case best of
       (None, second) \<Rightarrow> Inr (Some expression_id, second)
     | (Some current, second) \<Rightarrow>
         bnd (expression_precedes c expression_id current maximum) (\<lambda>before_first.
         if before_first then Inr (Some expression_id, Some current) else
         bnd (case second of None \<Rightarrow> Inr True
              | Some other \<Rightarrow> expression_precedes c expression_id other maximum) (\<lambda>before_second.
         Inr (Some current, if before_second then Some expression_id else second)))))"

definition equivalent_projection :: "direct_columns \<Rightarrow> usize \<Rightarrow> usize \<Rightarrow> equivalent_projection_t kres" where
  "equivalent_projection c node_id maximum =
     seq (expect_tag c node_id TAG_EQUIVALENT_CLASSES) (
     bnd (exact_fields c node_id 2) (\<lambda>start.
     bnd (node_set_range c start 2) (\<lambda>(item_start, len).
     bnd (fold_res (equivalent_step c maximum) [item_start ..< item_start + len] (None, None)) (\<lambda>best.
     seq (validate_annotation_set c (start + 1)) (
     case best of
       (Some first_id, Some second_id) \<Rightarrow>
         bnd (node_tag c first_id) (\<lambda>first_tag.
         if first_tag \<noteq> TAG_ENTITY then Inr EquivalentIgnored else
         bnd (named_class_iri c first_id maximum) (\<lambda>source.
         bnd (node_tag c second_id) (\<lambda>second_tag.
         if second_tag = TAG_ENTITY then
           bnd (named_class_iri c second_id maximum) (\<lambda>destination.
           Inr (EquivalentPair source first_id destination second_id))
         else if is_aggregate_tag second_tag then Inr (EquivalentAggregate source first_id second_id)
         else Inr EquivalentIgnored)))
     | _ \<Rightarrow> Inl Malformed)))))"

definition validate_disjoint_classes :: "direct_columns \<Rightarrow> usize \<Rightarrow> usize \<Rightarrow> unit kres" where
  "validate_disjoint_classes c node_id maximum =
     seq (expect_tag c node_id TAG_DISJOINT_CLASSES) (
     bnd (exact_fields c node_id 2) (\<lambda>start.
     bnd (node_set_range c start 2) (\<lambda>r.
     seq (each_item c r (\<lambda>item. class_expression_rank c item maximum))
       (validate_annotation_set c (start + 1)))))"

definition validate_disjoint_union :: "direct_columns \<Rightarrow> usize \<Rightarrow> usize \<Rightarrow> unit kres" where
  "validate_disjoint_union c node_id maximum =
     seq (expect_tag c node_id TAG_DISJOINT_UNION) (
     bnd (exact_fields c node_id 3) (\<lambda>start.
     bnd (field_node c start) (\<lambda>class_id.
     seq (named_class_iri c class_id maximum) (
     bnd (node_set_range c (start + 1) 2) (\<lambda>r.
     seq (each_item c r (\<lambda>item. class_expression_rank c item maximum))
       (validate_annotation_set c (start + 2)))))))"

definition class_assertion_projection :: "direct_columns \<Rightarrow> usize \<Rightarrow> usize \<Rightarrow> class_assertion_projection_t kres" where
  "class_assertion_projection c node_id maximum =
     bnd (exact_fields c node_id 3) (\<lambda>start.
     bnd (field_node c start) (\<lambda>class_id.
     bnd (field_node c (start + 1)) (\<lambda>individual_id.
     bnd (node_tag c class_id) (\<lambda>class_tag.
     seq (if class_tag = TAG_ENTITY then discard (named_class_iri c class_id maximum)
          else if is_restriction_tag class_tag \<or> is_nonprojecting_class_tag class_tag
            \<or> is_aggregate_tag class_tag then discard (class_expression_rank c class_id maximum)
          else Inl Unsupported) (
     bnd (node_tag c individual_id) (\<lambda>individual_tag.
     seq (validate_individual c individual_id maximum) (
     seq (validate_annotation_set c (start + 2)) (
     if class_tag = TAG_ENTITY \<and> individual_tag = TAG_ENTITY then
       bnd (named_individual_iri c individual_id maximum) (\<lambda>individual.
       bnd (named_class_iri c class_id maximum) (\<lambda>class_iri.
       Inr (ClassAssertionEdge individual individual_id class_iri class_id)))
     else Inr ClassAssertionIgnored))))))))"

definition validate_data_property_domain :: "direct_columns \<Rightarrow> usize \<Rightarrow> usize \<Rightarrow> unit kres" where
  "validate_data_property_domain c node_id maximum =
     seq (expect_tag c node_id TAG_DATA_PROPERTY_DOMAIN) (
     bnd (exact_fields c node_id 3) (\<lambda>start.
     bnd (field_node c start) (\<lambda>property_id.
     seq (named_data_property_iri c property_id maximum) (
     bnd (field_node c (start + 1)) (\<lambda>class_id.
     seq (class_expression_rank c class_id maximum)
       (validate_annotation_set c (start + 2)))))))"

definition validate_data_property_range :: "direct_columns \<Rightarrow> usize \<Rightarrow> usize \<Rightarrow> unit kres" where
  "validate_data_property_range c node_id maximum =
     seq (expect_tag c node_id TAG_DATA_PROPERTY_RANGE) (
     bnd (exact_fields c node_id 3) (\<lambda>start.
     bnd (field_node c start) (\<lambda>property_id.
     seq (named_data_property_iri c property_id maximum) (
     bnd (field_node c (start + 1)) (\<lambda>range_id.
     seq (validate_data_range_node c range_id maximum)
       (validate_annotation_set c (start + 2)))))))"

definition validate_datatype_definition :: "direct_columns \<Rightarrow> usize \<Rightarrow> usize \<Rightarrow> unit kres" where
  "validate_datatype_definition c node_id maximum =
     seq (expect_tag c node_id TAG_DATATYPE_DEFINITION) (
     bnd (exact_fields c node_id 3) (\<lambda>start.
     bnd (field_node c start) (\<lambda>datatype_id.
     seq (named_datatype_iri c datatype_id maximum) (
     bnd (field_node c (start + 1)) (\<lambda>range_id.
     seq (validate_data_range_node c range_id maximum)
       (validate_annotation_set c (start + 2)))))))"

definition validate_has_key :: "direct_columns \<Rightarrow> usize \<Rightarrow> usize \<Rightarrow> unit kres" where
  "validate_has_key c node_id maximum =
     seq (expect_tag c node_id TAG_HAS_KEY) (
     bnd (exact_fields c node_id 4) (\<lambda>start.
     bnd (field_node c start) (\<lambda>class_id.
     seq (class_expression_rank c class_id maximum) (
     bnd (node_set_range c (start + 1) 0) (\<lambda>objects.
     seq (each_item c objects (\<lambda>item. object_property_expression_of c item maximum)) (
     bnd (node_set_range c (start + 2) 0) (\<lambda>datas.
     seq (each_item c datas (\<lambda>item. named_data_property_iri c item maximum)) (
     seq (reject_if (snd objects = 0 \<and> snd datas = 0) Malformed)
       (validate_annotation_set c (start + 3))))))))))"

section \<open>SWRL\<close>

definition validate_variable :: "direct_columns \<Rightarrow> usize \<Rightarrow> usize \<Rightarrow> unit kres" where
  "validate_variable c node_id maximum_iri =
     seq (expect_tag c node_id TAG_VARIABLE) (
     bnd (exact_fields c node_id 1) (\<lambda>start.
     bnd (field_node c start) (\<lambda>iri_id. discard (iri c iri_id maximum_iri))))"

definition validate_swrl_individual_argument :: "direct_columns \<Rightarrow> usize \<Rightarrow> usize \<Rightarrow> unit kres" where
  "validate_swrl_individual_argument c node_id maximum_iri =
     bnd (node_tag c node_id) (\<lambda>tag.
     if tag = TAG_VARIABLE then validate_variable c node_id maximum_iri
     else validate_individual c node_id maximum_iri)"

definition validate_swrl_data_argument :: "direct_columns \<Rightarrow> usize \<Rightarrow> usize \<Rightarrow> unit kres" where
  "validate_swrl_data_argument c node_id maximum_iri =
     bnd (node_tag c node_id) (\<lambda>tag.
     if tag = TAG_VARIABLE then validate_variable c node_id maximum_iri else
     if tag = TAG_LITERAL then validate_literal c node_id maximum_iri
     else Inl Malformed)"

definition validate_swrl_class_expression :: "direct_columns \<Rightarrow> usize \<Rightarrow> usize \<Rightarrow> unit kres" where
  "validate_swrl_class_expression c node_id maximum_iri =
     discard (class_expression_rank c node_id maximum_iri)"

definition validate_swrl_atom :: "direct_columns \<Rightarrow> usize \<Rightarrow> usize \<Rightarrow> unit kres" where
  "validate_swrl_atom c node_id maximum_iri =
     bnd (node_tag c node_id) (\<lambda>tag.
     let argument = (\<lambda>index check. bnd (field_node c index) (\<lambda>id. check c id maximum_iri)) in
     if tag = TAG_CLASS_ATOM then
       bnd (exact_fields c node_id 2) (\<lambda>start.
       seq (argument start validate_swrl_class_expression)
         (argument (start + 1) validate_swrl_individual_argument))
     else if tag = TAG_DATA_RANGE_ATOM then
       bnd (exact_fields c node_id 2) (\<lambda>start.
       seq (argument start validate_data_range_node)
         (argument (start + 1) validate_swrl_data_argument))
     else if tag = TAG_OBJECT_PROPERTY_ATOM then
       bnd (exact_fields c node_id 3) (\<lambda>start.
       seq (argument start (\<lambda>c id m. discard (object_property_expression_of c id m))) (
       seq (argument (start + 1) validate_swrl_individual_argument)
         (argument (start + 2) validate_swrl_individual_argument)))
     else if tag = TAG_DATA_PROPERTY_ATOM then
       bnd (exact_fields c node_id 3) (\<lambda>start.
       seq (argument start (\<lambda>c id m. discard (named_data_property_iri c id m))) (
       seq (argument (start + 1) validate_swrl_individual_argument)
         (argument (start + 2) validate_swrl_data_argument)))
     else if tag = TAG_BUILT_IN_ATOM then
       bnd (exact_fields c node_id 2) (\<lambda>start.
       seq (argument start (\<lambda>c id m. discard (iri c id m))) (
       bnd (node_sequence_range c (start + 1) 0) (\<lambda>r.
       each_item c r (\<lambda>item. validate_swrl_data_argument c item maximum_iri))))
     else if tag = TAG_SAME_INDIVIDUAL_ATOM \<or> tag = TAG_DIFFERENT_INDIVIDUALS_ATOM then
       bnd (exact_fields c node_id 2) (\<lambda>start.
       seq (argument start validate_swrl_individual_argument)
         (argument (start + 1) validate_swrl_individual_argument))
     else Inl Malformed)"

definition validate_swrl_rule :: "direct_columns \<Rightarrow> usize \<Rightarrow> unit kres" where
  "validate_swrl_rule c node_id =
     seq (expect_tag c node_id TAG_SWRL_RULE) (
     bnd (exact_fields c node_id 3) (\<lambda>start.
     seq (for_each (\<lambda>index.
            bnd (node_set_range c index 0) (\<lambda>r.
            each_item c r (\<lambda>item.
              bnd (node_tag c item) (\<lambda>tag. reject_if (\<not> is_swrl_atom_tag tag) Malformed))))
          [start, start + 1])
       (validate_annotation_set c (start + 2))))"

end
