(* ===== verification/Root_Rules.thy ===== *)
theory Root_Rules
  imports Class_Expressions
begin

text \<open>
  The structural rule table of \<open>encoded_direct.rs\<close>: one row per root constructor, saying which
  handler reads it, in which phase its edges are emitted, what each projection mode does with
  it and which counters it moves; the counters themselves (\<open>RootCounts\<close> of the first pass,
  \<open>DirectCompileStats\<close> of the result) and the operations of a row: resolution, disposition,
  statistics. Constructors whose source names clash across enumerations carry a prefix
  (\<open>Handle\<close>, \<open>Count\<close>, \<open>Phase\<close>); \<open>n_\<close> and \<open>stat_\<close> prefix the fields of the two counter records.
\<close>

named_theorems rule_defs \<open>definitions a rule evaluates through\<close>

section \<open>Options and modes\<close>

record direct_compile_options =
  bidirectional :: bool
  asserted_taxonomy_only :: bool
  only_taxonomy :: bool
  include_literals :: bool
  max_edges_option :: usize
  max_iri_bytes :: usize

datatype local_projection_mode = Normal | TaxonomyOnly | AssertedTaxonomy

definition mode_from_options :: "direct_compile_options \<Rightarrow> local_projection_mode" where
  "mode_from_options options =
     (if asserted_taxonomy_only options then AssertedTaxonomy
      else if only_taxonomy options then TaxonomyOnly else Normal)"

fun mode_index :: "local_projection_mode \<Rightarrow> nat" where
  "mode_index Normal = 0"
| "mode_index TaxonomyOnly = 1"
| "mode_index AssertedTaxonomy = 2"

section \<open>Rows\<close>

datatype root_rule_handler =
    HandleDeclaration | HandleSubclass | HandleEquivalentClasses | HandleDisjointClasses
    | HandleDisjointUnion | HandleHasKey | HandleSubObjectProperty | HandleObjectPropertySet
    | HandleInverseObjectProperties | HandleObjectPropertyClass | HandleClassAssertion
    | HandleObjectPropertyAssertion | HandleNegativeObjectPropertyAssertion
    | HandleObjectPropertyCharacteristic | HandleBinaryDataProperty | HandleDataPropertySet
    | HandleDataPropertyDomain | HandleDataPropertyRange | HandleFunctionalDataProperty
    | HandleDatatypeDefinition | HandleDataPropertyAssertion | HandleIndividualSet
    | HandleAnnotationAssertion | HandleSubAnnotationProperty | HandleAnnotationPropertyIri
    | HandleOntologyAnnotation | HandleSwrlRule

datatype root_mode_disposition = Project | FamilyDefined | LiteralConditional | SkipDiagnostic | ValidateOnly

datatype root_literal_policy = Never | RootScopedAnnotation

datatype root_annotation_policy = AxiomAnnotations | NestedAnnotation | RuleAnnotations

datatype root_anonymous_scope_policy = AxiomDerived | ExcludedFromAxiomIds

datatype emission_phase =
    PhaseSubclasses | PhaseEquivalents | PhaseAnnotations | PhaseClassAssertions
  | PhaseObjectAssertions | PhaseDomainRanges | PhaseFinished

datatype root_counter =
    CountOntologyAnnotations | CountSwrlRules | CountDeclarations | CountSubclasses
    | CountEquivalents | CountDisjointClasses | CountDisjointUnions | CountHasKeys
    | CountSameIndividuals | CountDifferentIndividuals | CountClassAssertions
    | CountObjectPropertyAssertions | CountNegativeObjectPropertyAssertions
    | CountSubObjectProperties | CountEquivalentObjectProperties | CountDisjointObjectProperties
    | CountInverseObjectProperties | CountFunctionalObjectProperties
    | CountInverseFunctionalObjectProperties | CountReflexiveObjectProperties
    | CountIrreflexiveObjectProperties | CountSymmetricObjectProperties
    | CountAsymmetricObjectProperties | CountTransitiveObjectProperties | CountSubDataProperties
    | CountEquivalentDataProperties | CountDisjointDataProperties | CountDataPropertyDomains
    | CountDataPropertyRanges | CountFunctionalDataProperties | CountDatatypeDefinitions
    | CountDataPropertyAssertions | CountNegativeDataPropertyAssertions
    | CountAnnotationAssertions | CountSubAnnotationProperties | CountAnnotationPropertyDomains
    | CountAnnotationPropertyRanges | CountObjectPropertyDomains | CountObjectPropertyRanges

datatype root_stats_effect =
    Silent root_counter | Projecting root_counter | Skipped root_counter | ShapeClassified root_counter

fun effect_counter :: "root_stats_effect \<Rightarrow> root_counter" where
  "effect_counter (Silent counter) = counter"
| "effect_counter (Projecting counter) = counter"
| "effect_counter (Skipped counter) = counter"
| "effect_counter (ShapeClassified counter) = counter"

datatype root_role_effect = NoRoleEffect | SubPropertyOrChain | InverseProperties

datatype root_domain_range_effect = NoDomainRange | DomainEffect | RangeEffect

datatype dynamic_root_action = GeneralAction | DeclarationAction | AnnotationAssertionAction

record root_rule =
  rule_root_kind :: nat
  rule_tag :: nat
  constructor :: text_str
  handler :: root_rule_handler
  phase :: emission_phase
  mode_disposition :: "root_mode_disposition list"
  literal_policy :: root_literal_policy
  annotation_policy :: root_annotation_policy
  anonymous_scope_policy :: root_anonymous_scope_policy
  stats_effect :: root_stats_effect
  role_effect :: root_role_effect
  domain_range_effect :: root_domain_range_effect
  dynamic_action :: dynamic_root_action

section \<open>Counters\<close>

record root_counts =
  n_ontology_annotations :: usize
  n_swrl_rules :: usize
  n_declarations :: usize
  n_subclasses :: usize
  n_restriction_subclasses :: usize
  n_ignored_subclasses :: usize
  n_equivalents :: usize
  n_aggregate_equivalents :: usize
  n_disjoint_classes :: usize
  n_disjoint_unions :: usize
  n_has_keys :: usize
  n_same_individuals :: usize
  n_different_individuals :: usize
  n_class_assertions :: usize
  n_ignored_class_assertions :: usize
  n_object_property_assertions :: usize
  n_negative_object_property_assertions :: usize
  n_sub_object_properties :: usize
  n_object_property_chains :: usize
  n_equivalent_object_properties :: usize
  n_disjoint_object_properties :: usize
  n_inverse_object_properties :: usize
  n_functional_object_properties :: usize
  n_inverse_functional_object_properties :: usize
  n_reflexive_object_properties :: usize
  n_irreflexive_object_properties :: usize
  n_symmetric_object_properties :: usize
  n_asymmetric_object_properties :: usize
  n_transitive_object_properties :: usize
  n_sub_data_properties :: usize
  n_equivalent_data_properties :: usize
  n_disjoint_data_properties :: usize
  n_data_property_domains :: usize
  n_data_property_ranges :: usize
  n_functional_data_properties :: usize
  n_datatype_definitions :: usize
  n_data_property_assertions :: usize
  n_negative_data_property_assertions :: usize
  n_annotation_assertions :: usize
  n_sub_annotation_properties :: usize
  n_annotation_property_domains :: usize
  n_annotation_property_ranges :: usize
  n_object_property_domains :: usize
  n_object_property_ranges :: usize
  n_ignored_object_property_domains :: usize
  n_ignored_object_property_ranges :: usize

record direct_compile_stats =
  stat_roots :: usize
  stat_nodes :: usize
  stat_anonymous_individuals :: usize
  stat_ontology_annotations :: usize
  stat_swrl_rules :: usize
  stat_declarations :: usize
  stat_subclasses :: usize
  stat_restriction_subclasses :: usize
  stat_ignored_subclasses :: usize
  stat_equivalents :: usize
  stat_aggregate_equivalents :: usize
  stat_equivalent_base_edges :: usize
  stat_ignored_equivalents :: usize
  stat_disjoint_classes :: usize
  stat_disjoint_unions :: usize
  stat_has_keys :: usize
  stat_same_individuals :: usize
  stat_different_individuals :: usize
  stat_class_assertions :: usize
  stat_ignored_class_assertions :: usize
  stat_object_property_assertions :: usize
  stat_negative_object_property_assertions :: usize
  stat_sub_object_properties :: usize
  stat_object_property_chains :: usize
  stat_equivalent_object_properties :: usize
  stat_disjoint_object_properties :: usize
  stat_inverse_object_properties :: usize
  stat_functional_object_properties :: usize
  stat_inverse_functional_object_properties :: usize
  stat_reflexive_object_properties :: usize
  stat_irreflexive_object_properties :: usize
  stat_symmetric_object_properties :: usize
  stat_asymmetric_object_properties :: usize
  stat_transitive_object_properties :: usize
  stat_sub_data_properties :: usize
  stat_equivalent_data_properties :: usize
  stat_disjoint_data_properties :: usize
  stat_data_property_domains :: usize
  stat_data_property_ranges :: usize
  stat_functional_data_properties :: usize
  stat_datatype_definitions :: usize
  stat_data_property_assertions :: usize
  stat_negative_data_property_assertions :: usize
  stat_annotation_assertions :: usize
  stat_selected_annotation_assertions :: usize
  stat_sub_annotation_properties :: usize
  stat_annotation_property_domains :: usize
  stat_annotation_property_ranges :: usize
  stat_annotation_edges :: usize
  stat_non_string_literal_renderings :: usize
  stat_skipped_axioms :: usize
  stat_object_property_domains :: usize
  stat_object_property_ranges :: usize
  stat_ignored_object_property_domains :: usize
  stat_ignored_object_property_ranges :: usize
  stat_domain_range_edges :: usize
  stat_role_expansion_edges :: usize
  stat_edges :: usize
  stat_buffer_bytes :: usize
  stat_root_provenance_buffer_bytes :: usize

definition root_counts_default :: root_counts where
  "root_counts_default = root_counts.make
     0 0 0 0 0 0 0 0 0 0 0 0 0 0 0 0 0 0 0 0 0 0 0 0 0 0 0 0 0 0 0 0 0 0 0 0 0 0 0 0 0 0 0 0 0 0"

text \<open>\<open>*counter = counter.checked_add(1).ok_or(Resource)?\<close> on one field of a counter record.\<close>

definition bump :: "('r \<Rightarrow> usize) \<Rightarrow> ((usize \<Rightarrow> usize) \<Rightarrow> 'r \<Rightarrow> 'r) \<Rightarrow> 'r \<Rightarrow> 'r kres" where
  "bump read update r = map_res (\<lambda>n. update (\<lambda>_. n) r) (ok_or Resource (checked_add (read r) 1))"

fun increment :: "root_counter \<Rightarrow> root_counts \<Rightarrow> root_counts kres" where
  "increment CountOntologyAnnotations = bump n_ontology_annotations n_ontology_annotations_update"
| "increment CountSwrlRules = bump n_swrl_rules n_swrl_rules_update"
| "increment CountDeclarations = bump n_declarations n_declarations_update"
| "increment CountSubclasses = bump n_subclasses n_subclasses_update"
| "increment CountEquivalents = bump n_equivalents n_equivalents_update"
| "increment CountDisjointClasses = bump n_disjoint_classes n_disjoint_classes_update"
| "increment CountDisjointUnions = bump n_disjoint_unions n_disjoint_unions_update"
| "increment CountHasKeys = bump n_has_keys n_has_keys_update"
| "increment CountSameIndividuals = bump n_same_individuals n_same_individuals_update"
| "increment CountDifferentIndividuals = bump n_different_individuals n_different_individuals_update"
| "increment CountClassAssertions = bump n_class_assertions n_class_assertions_update"
| "increment CountObjectPropertyAssertions = bump n_object_property_assertions n_object_property_assertions_update"
| "increment CountNegativeObjectPropertyAssertions = bump n_negative_object_property_assertions n_negative_object_property_assertions_update"
| "increment CountSubObjectProperties = bump n_sub_object_properties n_sub_object_properties_update"
| "increment CountEquivalentObjectProperties = bump n_equivalent_object_properties n_equivalent_object_properties_update"
| "increment CountDisjointObjectProperties = bump n_disjoint_object_properties n_disjoint_object_properties_update"
| "increment CountInverseObjectProperties = bump n_inverse_object_properties n_inverse_object_properties_update"
| "increment CountFunctionalObjectProperties = bump n_functional_object_properties n_functional_object_properties_update"
| "increment CountInverseFunctionalObjectProperties = bump n_inverse_functional_object_properties n_inverse_functional_object_properties_update"
| "increment CountReflexiveObjectProperties = bump n_reflexive_object_properties n_reflexive_object_properties_update"
| "increment CountIrreflexiveObjectProperties = bump n_irreflexive_object_properties n_irreflexive_object_properties_update"
| "increment CountSymmetricObjectProperties = bump n_symmetric_object_properties n_symmetric_object_properties_update"
| "increment CountAsymmetricObjectProperties = bump n_asymmetric_object_properties n_asymmetric_object_properties_update"
| "increment CountTransitiveObjectProperties = bump n_transitive_object_properties n_transitive_object_properties_update"
| "increment CountSubDataProperties = bump n_sub_data_properties n_sub_data_properties_update"
| "increment CountEquivalentDataProperties = bump n_equivalent_data_properties n_equivalent_data_properties_update"
| "increment CountDisjointDataProperties = bump n_disjoint_data_properties n_disjoint_data_properties_update"
| "increment CountDataPropertyDomains = bump n_data_property_domains n_data_property_domains_update"
| "increment CountDataPropertyRanges = bump n_data_property_ranges n_data_property_ranges_update"
| "increment CountFunctionalDataProperties = bump n_functional_data_properties n_functional_data_properties_update"
| "increment CountDatatypeDefinitions = bump n_datatype_definitions n_datatype_definitions_update"
| "increment CountDataPropertyAssertions = bump n_data_property_assertions n_data_property_assertions_update"
| "increment CountNegativeDataPropertyAssertions = bump n_negative_data_property_assertions n_negative_data_property_assertions_update"
| "increment CountAnnotationAssertions = bump n_annotation_assertions n_annotation_assertions_update"
| "increment CountSubAnnotationProperties = bump n_sub_annotation_properties n_sub_annotation_properties_update"
| "increment CountAnnotationPropertyDomains = bump n_annotation_property_domains n_annotation_property_domains_update"
| "increment CountAnnotationPropertyRanges = bump n_annotation_property_ranges n_annotation_property_ranges_update"
| "increment CountObjectPropertyDomains = bump n_object_property_domains n_object_property_domains_update"
| "increment CountObjectPropertyRanges = bump n_object_property_ranges n_object_property_ranges_update"

fun increment_statistics :: "root_counter \<Rightarrow> direct_compile_stats \<Rightarrow> direct_compile_stats kres" where
  "increment_statistics CountOntologyAnnotations = bump stat_ontology_annotations stat_ontology_annotations_update"
| "increment_statistics CountSwrlRules = bump stat_swrl_rules stat_swrl_rules_update"
| "increment_statistics CountDeclarations = bump stat_declarations stat_declarations_update"
| "increment_statistics CountSubclasses = bump stat_subclasses stat_subclasses_update"
| "increment_statistics CountEquivalents = bump stat_equivalents stat_equivalents_update"
| "increment_statistics CountDisjointClasses = bump stat_disjoint_classes stat_disjoint_classes_update"
| "increment_statistics CountDisjointUnions = bump stat_disjoint_unions stat_disjoint_unions_update"
| "increment_statistics CountHasKeys = bump stat_has_keys stat_has_keys_update"
| "increment_statistics CountSameIndividuals = bump stat_same_individuals stat_same_individuals_update"
| "increment_statistics CountDifferentIndividuals = bump stat_different_individuals stat_different_individuals_update"
| "increment_statistics CountClassAssertions = bump stat_class_assertions stat_class_assertions_update"
| "increment_statistics CountObjectPropertyAssertions = bump stat_object_property_assertions stat_object_property_assertions_update"
| "increment_statistics CountNegativeObjectPropertyAssertions = bump stat_negative_object_property_assertions stat_negative_object_property_assertions_update"
| "increment_statistics CountSubObjectProperties = bump stat_sub_object_properties stat_sub_object_properties_update"
| "increment_statistics CountEquivalentObjectProperties = bump stat_equivalent_object_properties stat_equivalent_object_properties_update"
| "increment_statistics CountDisjointObjectProperties = bump stat_disjoint_object_properties stat_disjoint_object_properties_update"
| "increment_statistics CountInverseObjectProperties = bump stat_inverse_object_properties stat_inverse_object_properties_update"
| "increment_statistics CountFunctionalObjectProperties = bump stat_functional_object_properties stat_functional_object_properties_update"
| "increment_statistics CountInverseFunctionalObjectProperties = bump stat_inverse_functional_object_properties stat_inverse_functional_object_properties_update"
| "increment_statistics CountReflexiveObjectProperties = bump stat_reflexive_object_properties stat_reflexive_object_properties_update"
| "increment_statistics CountIrreflexiveObjectProperties = bump stat_irreflexive_object_properties stat_irreflexive_object_properties_update"
| "increment_statistics CountSymmetricObjectProperties = bump stat_symmetric_object_properties stat_symmetric_object_properties_update"
| "increment_statistics CountAsymmetricObjectProperties = bump stat_asymmetric_object_properties stat_asymmetric_object_properties_update"
| "increment_statistics CountTransitiveObjectProperties = bump stat_transitive_object_properties stat_transitive_object_properties_update"
| "increment_statistics CountSubDataProperties = bump stat_sub_data_properties stat_sub_data_properties_update"
| "increment_statistics CountEquivalentDataProperties = bump stat_equivalent_data_properties stat_equivalent_data_properties_update"
| "increment_statistics CountDisjointDataProperties = bump stat_disjoint_data_properties stat_disjoint_data_properties_update"
| "increment_statistics CountDataPropertyDomains = bump stat_data_property_domains stat_data_property_domains_update"
| "increment_statistics CountDataPropertyRanges = bump stat_data_property_ranges stat_data_property_ranges_update"
| "increment_statistics CountFunctionalDataProperties = bump stat_functional_data_properties stat_functional_data_properties_update"
| "increment_statistics CountDatatypeDefinitions = bump stat_datatype_definitions stat_datatype_definitions_update"
| "increment_statistics CountDataPropertyAssertions = bump stat_data_property_assertions stat_data_property_assertions_update"
| "increment_statistics CountNegativeDataPropertyAssertions = bump stat_negative_data_property_assertions stat_negative_data_property_assertions_update"
| "increment_statistics CountAnnotationAssertions = bump stat_annotation_assertions stat_annotation_assertions_update"
| "increment_statistics CountSubAnnotationProperties = bump stat_sub_annotation_properties stat_sub_annotation_properties_update"
| "increment_statistics CountAnnotationPropertyDomains = bump stat_annotation_property_domains stat_annotation_property_domains_update"
| "increment_statistics CountAnnotationPropertyRanges = bump stat_annotation_property_ranges stat_annotation_property_ranges_update"
| "increment_statistics CountObjectPropertyDomains = bump stat_object_property_domains stat_object_property_domains_update"
| "increment_statistics CountObjectPropertyRanges = bump stat_object_property_ranges stat_object_property_ranges_update"

definition role_axioms :: "root_counts \<Rightarrow> usize kres" where
  "role_axioms counts =
     ok_or Resource (checked_add (n_sub_object_properties counts) (n_inverse_object_properties counts))"

section \<open>The table\<close>

definition ROOT_MODES_SILENT :: "root_mode_disposition list" where
  "ROOT_MODES_SILENT = [ValidateOnly, ValidateOnly, ValidateOnly]"

definition ROOT_MODES_FAMILY :: "root_mode_disposition list" where
  "ROOT_MODES_FAMILY = [FamilyDefined, FamilyDefined, FamilyDefined]"

definition ROOT_MODES_ROLE :: "root_mode_disposition list" where
  "ROOT_MODES_ROLE = [FamilyDefined, FamilyDefined, ValidateOnly]"

definition ROOT_MODES_PROJECT_NONASSERTED :: "root_mode_disposition list" where
  "ROOT_MODES_PROJECT_NONASSERTED = [Project, Project, ValidateOnly]"

definition ROOT_MODES_LITERAL :: "root_mode_disposition list" where
  "ROOT_MODES_LITERAL = [LiteralConditional, LiteralConditional, ValidateOnly]"

definition ROOT_MODES_SKIPPED :: "root_mode_disposition list" where
  "ROOT_MODES_SKIPPED = [SkipDiagnostic, SkipDiagnostic, ValidateOnly]"

definition class_and_role_rules :: "root_rule list" where
  [simp]: "class_and_role_rules = [
     \<lparr> rule_root_kind = ROOT_AXIOM, rule_tag = TAG_DECLARATION, constructor = ''Declaration'',
       handler = HandleDeclaration, phase = PhaseObjectAssertions, mode_disposition = ROOT_MODES_SILENT,
       literal_policy = Never, annotation_policy = AxiomAnnotations, anonymous_scope_policy = AxiomDerived,
       stats_effect = Silent CountDeclarations, role_effect = NoRoleEffect,
       domain_range_effect = NoDomainRange, dynamic_action = DeclarationAction \<rparr>,
     \<lparr> rule_root_kind = ROOT_AXIOM, rule_tag = TAG_SUB_CLASS_OF, constructor = ''SubClassOf'',
       handler = HandleSubclass, phase = PhaseSubclasses, mode_disposition = ROOT_MODES_FAMILY,
       literal_policy = Never, annotation_policy = AxiomAnnotations, anonymous_scope_policy = AxiomDerived,
       stats_effect = ShapeClassified CountSubclasses, role_effect = NoRoleEffect,
       domain_range_effect = NoDomainRange, dynamic_action = GeneralAction \<rparr>,
     \<lparr> rule_root_kind = ROOT_AXIOM, rule_tag = TAG_EQUIVALENT_CLASSES, constructor = ''EquivalentClasses'',
       handler = HandleEquivalentClasses, phase = PhaseEquivalents, mode_disposition = ROOT_MODES_FAMILY,
       literal_policy = Never, annotation_policy = AxiomAnnotations, anonymous_scope_policy = AxiomDerived,
       stats_effect = ShapeClassified CountEquivalents, role_effect = NoRoleEffect,
       domain_range_effect = NoDomainRange, dynamic_action = GeneralAction \<rparr>,
     \<lparr> rule_root_kind = ROOT_AXIOM, rule_tag = TAG_DISJOINT_CLASSES, constructor = ''DisjointClasses'',
       handler = HandleDisjointClasses, phase = PhaseObjectAssertions, mode_disposition = ROOT_MODES_SKIPPED,
       literal_policy = Never, annotation_policy = AxiomAnnotations, anonymous_scope_policy = AxiomDerived,
       stats_effect = Skipped CountDisjointClasses, role_effect = NoRoleEffect,
       domain_range_effect = NoDomainRange, dynamic_action = GeneralAction \<rparr>,
     \<lparr> rule_root_kind = ROOT_AXIOM, rule_tag = TAG_DISJOINT_UNION, constructor = ''DisjointUnion'',
       handler = HandleDisjointUnion, phase = PhaseObjectAssertions, mode_disposition = ROOT_MODES_SKIPPED,
       literal_policy = Never, annotation_policy = AxiomAnnotations, anonymous_scope_policy = AxiomDerived,
       stats_effect = Skipped CountDisjointUnions, role_effect = NoRoleEffect,
       domain_range_effect = NoDomainRange, dynamic_action = GeneralAction \<rparr>,
     \<lparr> rule_root_kind = ROOT_AXIOM, rule_tag = TAG_HAS_KEY, constructor = ''HasKey'',
       handler = HandleHasKey, phase = PhaseObjectAssertions, mode_disposition = ROOT_MODES_SKIPPED,
       literal_policy = Never, annotation_policy = AxiomAnnotations, anonymous_scope_policy = AxiomDerived,
       stats_effect = Skipped CountHasKeys, role_effect = NoRoleEffect,
       domain_range_effect = NoDomainRange, dynamic_action = GeneralAction \<rparr>,
     \<lparr> rule_root_kind = ROOT_AXIOM, rule_tag = TAG_SUB_OBJECT_PROPERTY_OF, constructor = ''SubObjectPropertyOf'',
       handler = HandleSubObjectProperty, phase = PhaseObjectAssertions, mode_disposition = ROOT_MODES_ROLE,
       literal_policy = Never, annotation_policy = AxiomAnnotations, anonymous_scope_policy = AxiomDerived,
       stats_effect = Silent CountSubObjectProperties, role_effect = SubPropertyOrChain,
       domain_range_effect = NoDomainRange, dynamic_action = GeneralAction \<rparr>,
     \<lparr> rule_root_kind = ROOT_AXIOM, rule_tag = TAG_EQUIVALENT_OBJECT_PROPERTIES, constructor = ''EquivalentObjectProperties'',
       handler = HandleObjectPropertySet, phase = PhaseObjectAssertions, mode_disposition = ROOT_MODES_SKIPPED,
       literal_policy = Never, annotation_policy = AxiomAnnotations, anonymous_scope_policy = AxiomDerived,
       stats_effect = Skipped CountEquivalentObjectProperties, role_effect = NoRoleEffect,
       domain_range_effect = NoDomainRange, dynamic_action = GeneralAction \<rparr>,
     \<lparr> rule_root_kind = ROOT_AXIOM, rule_tag = TAG_DISJOINT_OBJECT_PROPERTIES, constructor = ''DisjointObjectProperties'',
       handler = HandleObjectPropertySet, phase = PhaseObjectAssertions, mode_disposition = ROOT_MODES_SKIPPED,
       literal_policy = Never, annotation_policy = AxiomAnnotations, anonymous_scope_policy = AxiomDerived,
       stats_effect = Skipped CountDisjointObjectProperties, role_effect = NoRoleEffect,
       domain_range_effect = NoDomainRange, dynamic_action = GeneralAction \<rparr>,
     \<lparr> rule_root_kind = ROOT_AXIOM, rule_tag = TAG_INVERSE_OBJECT_PROPERTIES, constructor = ''InverseObjectProperties'',
       handler = HandleInverseObjectProperties, phase = PhaseObjectAssertions, mode_disposition = ROOT_MODES_ROLE,
       literal_policy = Never, annotation_policy = AxiomAnnotations, anonymous_scope_policy = AxiomDerived,
       stats_effect = Silent CountInverseObjectProperties, role_effect = InverseProperties,
       domain_range_effect = NoDomainRange, dynamic_action = GeneralAction \<rparr>]"

definition object_property_rules :: "root_rule list" where
  [simp]: "object_property_rules = [
     \<lparr> rule_root_kind = ROOT_AXIOM, rule_tag = TAG_OBJECT_PROPERTY_DOMAIN, constructor = ''ObjectPropertyDomain'',
       handler = HandleObjectPropertyClass, phase = PhaseDomainRanges, mode_disposition = ROOT_MODES_FAMILY,
       literal_policy = Never, annotation_policy = AxiomAnnotations, anonymous_scope_policy = AxiomDerived,
       stats_effect = ShapeClassified CountObjectPropertyDomains, role_effect = NoRoleEffect,
       domain_range_effect = DomainEffect, dynamic_action = GeneralAction \<rparr>,
     \<lparr> rule_root_kind = ROOT_AXIOM, rule_tag = TAG_OBJECT_PROPERTY_RANGE, constructor = ''ObjectPropertyRange'',
       handler = HandleObjectPropertyClass, phase = PhaseDomainRanges, mode_disposition = ROOT_MODES_FAMILY,
       literal_policy = Never, annotation_policy = AxiomAnnotations, anonymous_scope_policy = AxiomDerived,
       stats_effect = ShapeClassified CountObjectPropertyRanges, role_effect = NoRoleEffect,
       domain_range_effect = RangeEffect, dynamic_action = GeneralAction \<rparr>,
     \<lparr> rule_root_kind = ROOT_AXIOM, rule_tag = TAG_CLASS_ASSERTION, constructor = ''ClassAssertion'',
       handler = HandleClassAssertion, phase = PhaseClassAssertions, mode_disposition = ROOT_MODES_PROJECT_NONASSERTED,
       literal_policy = Never, annotation_policy = AxiomAnnotations, anonymous_scope_policy = AxiomDerived,
       stats_effect = ShapeClassified CountClassAssertions, role_effect = NoRoleEffect,
       domain_range_effect = NoDomainRange, dynamic_action = GeneralAction \<rparr>,
     \<lparr> rule_root_kind = ROOT_AXIOM, rule_tag = TAG_OBJECT_PROPERTY_ASSERTION, constructor = ''ObjectPropertyAssertion'',
       handler = HandleObjectPropertyAssertion, phase = PhaseObjectAssertions, mode_disposition = ROOT_MODES_PROJECT_NONASSERTED,
       literal_policy = Never, annotation_policy = AxiomAnnotations, anonymous_scope_policy = AxiomDerived,
       stats_effect = Projecting CountObjectPropertyAssertions, role_effect = NoRoleEffect,
       domain_range_effect = NoDomainRange, dynamic_action = GeneralAction \<rparr>,
     \<lparr> rule_root_kind = ROOT_AXIOM, rule_tag = TAG_NEGATIVE_OBJECT_PROPERTY_ASSERTION, constructor = ''NegativeObjectPropertyAssertion'',
       handler = HandleNegativeObjectPropertyAssertion, phase = PhaseObjectAssertions, mode_disposition = ROOT_MODES_SKIPPED,
       literal_policy = Never, annotation_policy = AxiomAnnotations, anonymous_scope_policy = AxiomDerived,
       stats_effect = Skipped CountNegativeObjectPropertyAssertions, role_effect = NoRoleEffect,
       domain_range_effect = NoDomainRange, dynamic_action = GeneralAction \<rparr>,
     \<lparr> rule_root_kind = ROOT_AXIOM, rule_tag = TAG_FUNCTIONAL_OBJECT_PROPERTY, constructor = ''FunctionalObjectProperty'',
       handler = HandleObjectPropertyCharacteristic, phase = PhaseObjectAssertions, mode_disposition = ROOT_MODES_SKIPPED,
       literal_policy = Never, annotation_policy = AxiomAnnotations, anonymous_scope_policy = AxiomDerived,
       stats_effect = Skipped CountFunctionalObjectProperties, role_effect = NoRoleEffect,
       domain_range_effect = NoDomainRange, dynamic_action = GeneralAction \<rparr>,
     \<lparr> rule_root_kind = ROOT_AXIOM, rule_tag = TAG_INVERSE_FUNCTIONAL_OBJECT_PROPERTY, constructor = ''InverseFunctionalObjectProperty'',
       handler = HandleObjectPropertyCharacteristic, phase = PhaseObjectAssertions, mode_disposition = ROOT_MODES_SKIPPED,
       literal_policy = Never, annotation_policy = AxiomAnnotations, anonymous_scope_policy = AxiomDerived,
       stats_effect = Skipped CountInverseFunctionalObjectProperties, role_effect = NoRoleEffect,
       domain_range_effect = NoDomainRange, dynamic_action = GeneralAction \<rparr>,
     \<lparr> rule_root_kind = ROOT_AXIOM, rule_tag = TAG_REFLEXIVE_OBJECT_PROPERTY, constructor = ''ReflexiveObjectProperty'',
       handler = HandleObjectPropertyCharacteristic, phase = PhaseObjectAssertions, mode_disposition = ROOT_MODES_SKIPPED,
       literal_policy = Never, annotation_policy = AxiomAnnotations, anonymous_scope_policy = AxiomDerived,
       stats_effect = Skipped CountReflexiveObjectProperties, role_effect = NoRoleEffect,
       domain_range_effect = NoDomainRange, dynamic_action = GeneralAction \<rparr>,
     \<lparr> rule_root_kind = ROOT_AXIOM, rule_tag = TAG_IRREFLEXIVE_OBJECT_PROPERTY, constructor = ''IrreflexiveObjectProperty'',
       handler = HandleObjectPropertyCharacteristic, phase = PhaseObjectAssertions, mode_disposition = ROOT_MODES_SKIPPED,
       literal_policy = Never, annotation_policy = AxiomAnnotations, anonymous_scope_policy = AxiomDerived,
       stats_effect = Skipped CountIrreflexiveObjectProperties, role_effect = NoRoleEffect,
       domain_range_effect = NoDomainRange, dynamic_action = GeneralAction \<rparr>,
     \<lparr> rule_root_kind = ROOT_AXIOM, rule_tag = TAG_SYMMETRIC_OBJECT_PROPERTY, constructor = ''SymmetricObjectProperty'',
       handler = HandleObjectPropertyCharacteristic, phase = PhaseObjectAssertions, mode_disposition = ROOT_MODES_SKIPPED,
       literal_policy = Never, annotation_policy = AxiomAnnotations, anonymous_scope_policy = AxiomDerived,
       stats_effect = Skipped CountSymmetricObjectProperties, role_effect = NoRoleEffect,
       domain_range_effect = NoDomainRange, dynamic_action = GeneralAction \<rparr>]"

definition data_property_rules :: "root_rule list" where
  [simp]: "data_property_rules = [
     \<lparr> rule_root_kind = ROOT_AXIOM, rule_tag = TAG_ASYMMETRIC_OBJECT_PROPERTY, constructor = ''AsymmetricObjectProperty'',
       handler = HandleObjectPropertyCharacteristic, phase = PhaseObjectAssertions, mode_disposition = ROOT_MODES_SKIPPED,
       literal_policy = Never, annotation_policy = AxiomAnnotations, anonymous_scope_policy = AxiomDerived,
       stats_effect = Skipped CountAsymmetricObjectProperties, role_effect = NoRoleEffect,
       domain_range_effect = NoDomainRange, dynamic_action = GeneralAction \<rparr>,
     \<lparr> rule_root_kind = ROOT_AXIOM, rule_tag = TAG_TRANSITIVE_OBJECT_PROPERTY, constructor = ''TransitiveObjectProperty'',
       handler = HandleObjectPropertyCharacteristic, phase = PhaseObjectAssertions, mode_disposition = ROOT_MODES_SKIPPED,
       literal_policy = Never, annotation_policy = AxiomAnnotations, anonymous_scope_policy = AxiomDerived,
       stats_effect = Skipped CountTransitiveObjectProperties, role_effect = NoRoleEffect,
       domain_range_effect = NoDomainRange, dynamic_action = GeneralAction \<rparr>,
     \<lparr> rule_root_kind = ROOT_AXIOM, rule_tag = TAG_SUB_DATA_PROPERTY_OF, constructor = ''SubDataPropertyOf'',
       handler = HandleBinaryDataProperty, phase = PhaseObjectAssertions, mode_disposition = ROOT_MODES_SKIPPED,
       literal_policy = Never, annotation_policy = AxiomAnnotations, anonymous_scope_policy = AxiomDerived,
       stats_effect = Skipped CountSubDataProperties, role_effect = NoRoleEffect,
       domain_range_effect = NoDomainRange, dynamic_action = GeneralAction \<rparr>,
     \<lparr> rule_root_kind = ROOT_AXIOM, rule_tag = TAG_EQUIVALENT_DATA_PROPERTIES, constructor = ''EquivalentDataProperties'',
       handler = HandleDataPropertySet, phase = PhaseObjectAssertions, mode_disposition = ROOT_MODES_SKIPPED,
       literal_policy = Never, annotation_policy = AxiomAnnotations, anonymous_scope_policy = AxiomDerived,
       stats_effect = Skipped CountEquivalentDataProperties, role_effect = NoRoleEffect,
       domain_range_effect = NoDomainRange, dynamic_action = GeneralAction \<rparr>,
     \<lparr> rule_root_kind = ROOT_AXIOM, rule_tag = TAG_DISJOINT_DATA_PROPERTIES, constructor = ''DisjointDataProperties'',
       handler = HandleDataPropertySet, phase = PhaseObjectAssertions, mode_disposition = ROOT_MODES_SKIPPED,
       literal_policy = Never, annotation_policy = AxiomAnnotations, anonymous_scope_policy = AxiomDerived,
       stats_effect = Skipped CountDisjointDataProperties, role_effect = NoRoleEffect,
       domain_range_effect = NoDomainRange, dynamic_action = GeneralAction \<rparr>,
     \<lparr> rule_root_kind = ROOT_AXIOM, rule_tag = TAG_DATA_PROPERTY_DOMAIN, constructor = ''DataPropertyDomain'',
       handler = HandleDataPropertyDomain, phase = PhaseObjectAssertions, mode_disposition = ROOT_MODES_SKIPPED,
       literal_policy = Never, annotation_policy = AxiomAnnotations, anonymous_scope_policy = AxiomDerived,
       stats_effect = Skipped CountDataPropertyDomains, role_effect = NoRoleEffect,
       domain_range_effect = NoDomainRange, dynamic_action = GeneralAction \<rparr>,
     \<lparr> rule_root_kind = ROOT_AXIOM, rule_tag = TAG_DATA_PROPERTY_RANGE, constructor = ''DataPropertyRange'',
       handler = HandleDataPropertyRange, phase = PhaseObjectAssertions, mode_disposition = ROOT_MODES_SKIPPED,
       literal_policy = Never, annotation_policy = AxiomAnnotations, anonymous_scope_policy = AxiomDerived,
       stats_effect = Skipped CountDataPropertyRanges, role_effect = NoRoleEffect,
       domain_range_effect = NoDomainRange, dynamic_action = GeneralAction \<rparr>,
     \<lparr> rule_root_kind = ROOT_AXIOM, rule_tag = TAG_FUNCTIONAL_DATA_PROPERTY, constructor = ''FunctionalDataProperty'',
       handler = HandleFunctionalDataProperty, phase = PhaseObjectAssertions, mode_disposition = ROOT_MODES_SKIPPED,
       literal_policy = Never, annotation_policy = AxiomAnnotations, anonymous_scope_policy = AxiomDerived,
       stats_effect = Skipped CountFunctionalDataProperties, role_effect = NoRoleEffect,
       domain_range_effect = NoDomainRange, dynamic_action = GeneralAction \<rparr>,
     \<lparr> rule_root_kind = ROOT_AXIOM, rule_tag = TAG_DATATYPE_DEFINITION, constructor = ''DatatypeDefinition'',
       handler = HandleDatatypeDefinition, phase = PhaseObjectAssertions, mode_disposition = ROOT_MODES_SKIPPED,
       literal_policy = Never, annotation_policy = AxiomAnnotations, anonymous_scope_policy = AxiomDerived,
       stats_effect = Skipped CountDatatypeDefinitions, role_effect = NoRoleEffect,
       domain_range_effect = NoDomainRange, dynamic_action = GeneralAction \<rparr>,
     \<lparr> rule_root_kind = ROOT_AXIOM, rule_tag = TAG_SAME_INDIVIDUAL, constructor = ''SameIndividual'',
       handler = HandleIndividualSet, phase = PhaseObjectAssertions, mode_disposition = ROOT_MODES_SKIPPED,
       literal_policy = Never, annotation_policy = AxiomAnnotations, anonymous_scope_policy = AxiomDerived,
       stats_effect = Skipped CountSameIndividuals, role_effect = NoRoleEffect,
       domain_range_effect = NoDomainRange, dynamic_action = GeneralAction \<rparr>]"

definition assertion_and_annotation_rules :: "root_rule list" where
  [simp]: "assertion_and_annotation_rules = [
     \<lparr> rule_root_kind = ROOT_AXIOM, rule_tag = TAG_DIFFERENT_INDIVIDUALS, constructor = ''DifferentIndividuals'',
       handler = HandleIndividualSet, phase = PhaseObjectAssertions, mode_disposition = ROOT_MODES_SKIPPED,
       literal_policy = Never, annotation_policy = AxiomAnnotations, anonymous_scope_policy = AxiomDerived,
       stats_effect = Skipped CountDifferentIndividuals, role_effect = NoRoleEffect,
       domain_range_effect = NoDomainRange, dynamic_action = GeneralAction \<rparr>,
     \<lparr> rule_root_kind = ROOT_AXIOM, rule_tag = TAG_DATA_PROPERTY_ASSERTION, constructor = ''DataPropertyAssertion'',
       handler = HandleDataPropertyAssertion, phase = PhaseObjectAssertions, mode_disposition = ROOT_MODES_SKIPPED,
       literal_policy = Never, annotation_policy = AxiomAnnotations, anonymous_scope_policy = AxiomDerived,
       stats_effect = Skipped CountDataPropertyAssertions, role_effect = NoRoleEffect,
       domain_range_effect = NoDomainRange, dynamic_action = GeneralAction \<rparr>,
     \<lparr> rule_root_kind = ROOT_AXIOM, rule_tag = TAG_NEGATIVE_DATA_PROPERTY_ASSERTION, constructor = ''NegativeDataPropertyAssertion'',
       handler = HandleDataPropertyAssertion, phase = PhaseObjectAssertions, mode_disposition = ROOT_MODES_SKIPPED,
       literal_policy = Never, annotation_policy = AxiomAnnotations, anonymous_scope_policy = AxiomDerived,
       stats_effect = Skipped CountNegativeDataPropertyAssertions, role_effect = NoRoleEffect,
       domain_range_effect = NoDomainRange, dynamic_action = GeneralAction \<rparr>,
     \<lparr> rule_root_kind = ROOT_AXIOM, rule_tag = TAG_ANNOTATION_ASSERTION, constructor = ''AnnotationAssertion'',
       handler = HandleAnnotationAssertion, phase = PhaseAnnotations, mode_disposition = ROOT_MODES_LITERAL,
       literal_policy = RootScopedAnnotation, annotation_policy = AxiomAnnotations, anonymous_scope_policy = AxiomDerived,
       stats_effect = Projecting CountAnnotationAssertions, role_effect = NoRoleEffect,
       domain_range_effect = NoDomainRange, dynamic_action = AnnotationAssertionAction \<rparr>,
     \<lparr> rule_root_kind = ROOT_AXIOM, rule_tag = TAG_SUB_ANNOTATION_PROPERTY_OF, constructor = ''SubAnnotationPropertyOf'',
       handler = HandleSubAnnotationProperty, phase = PhaseObjectAssertions, mode_disposition = ROOT_MODES_SKIPPED,
       literal_policy = Never, annotation_policy = AxiomAnnotations, anonymous_scope_policy = AxiomDerived,
       stats_effect = Skipped CountSubAnnotationProperties, role_effect = NoRoleEffect,
       domain_range_effect = NoDomainRange, dynamic_action = GeneralAction \<rparr>,
     \<lparr> rule_root_kind = ROOT_AXIOM, rule_tag = TAG_ANNOTATION_PROPERTY_DOMAIN, constructor = ''AnnotationPropertyDomain'',
       handler = HandleAnnotationPropertyIri, phase = PhaseObjectAssertions, mode_disposition = ROOT_MODES_SKIPPED,
       literal_policy = Never, annotation_policy = AxiomAnnotations, anonymous_scope_policy = AxiomDerived,
       stats_effect = Skipped CountAnnotationPropertyDomains, role_effect = NoRoleEffect,
       domain_range_effect = NoDomainRange, dynamic_action = GeneralAction \<rparr>,
     \<lparr> rule_root_kind = ROOT_AXIOM, rule_tag = TAG_ANNOTATION_PROPERTY_RANGE, constructor = ''AnnotationPropertyRange'',
       handler = HandleAnnotationPropertyIri, phase = PhaseObjectAssertions, mode_disposition = ROOT_MODES_SKIPPED,
       literal_policy = Never, annotation_policy = AxiomAnnotations, anonymous_scope_policy = AxiomDerived,
       stats_effect = Skipped CountAnnotationPropertyRanges, role_effect = NoRoleEffect,
       domain_range_effect = NoDomainRange, dynamic_action = GeneralAction \<rparr>,
     \<lparr> rule_root_kind = ROOT_ONTOLOGY_ANNOTATION, rule_tag = TAG_ANNOTATION, constructor = ''ontology Annotation'',
       handler = HandleOntologyAnnotation, phase = PhaseObjectAssertions, mode_disposition = ROOT_MODES_SILENT,
       literal_policy = Never, annotation_policy = NestedAnnotation, anonymous_scope_policy = ExcludedFromAxiomIds,
       stats_effect = Silent CountOntologyAnnotations, role_effect = NoRoleEffect,
       domain_range_effect = NoDomainRange, dynamic_action = GeneralAction \<rparr>,
     \<lparr> rule_root_kind = ROOT_EXTENSION, rule_tag = TAG_SWRL_RULE, constructor = ''SWRLRule'',
       handler = HandleSwrlRule, phase = PhaseObjectAssertions, mode_disposition = ROOT_MODES_SILENT,
       literal_policy = Never, annotation_policy = RuleAnnotations, anonymous_scope_policy = ExcludedFromAxiomIds,
       stats_effect = Silent CountSwrlRules, role_effect = NoRoleEffect,
       domain_range_effect = NoDomainRange, dynamic_action = GeneralAction \<rparr>]"

definition ROOT_RULES :: "root_rule list" where
  "ROOT_RULES = class_and_role_rules @ object_property_rules @ data_property_rules @ assertion_and_annotation_rules"

section \<open>Operations of a row\<close>

fun list_position :: "('a \<Rightarrow> bool) \<Rightarrow> 'a list \<Rightarrow> nat option" where
  "list_position p [] = None"
| "list_position p (x # xs) = (if p x then Some 0 else map_option Suc (list_position p xs))"

definition resolve_index :: "nat \<Rightarrow> nat \<Rightarrow> nat kres" where
  "resolve_index kind tag =
     (case list_position (\<lambda>rule. rule_root_kind rule = kind \<and> rule_tag rule = tag) ROOT_RULES of
        Some table_index \<Rightarrow> if table_index + 1 < 256 then Inr (table_index + 1) else Inl Resource
      | None \<Rightarrow>
          if (kind = ROOT_AXIOM \<and> tag \<in> {TAG_ANNOTATION, TAG_SWRL_RULE})
             \<or> kind = ROOT_ONTOLOGY_ANNOTATION \<or> kind = ROOT_EXTENSION then Inl Malformed
          else if kind = ROOT_AXIOM \<and> in_schema tag then Inl Unsupported
          else Inl Malformed)"

definition rule_by_index :: "nat \<Rightarrow> root_rule kres" where
  "rule_by_index table_index = ok_or Malformed (get_at ROOT_RULES table_index)"

definition resolved_root_rule_at :: "nat list \<Rightarrow> usize \<Rightarrow> root_rule kres" where
  "resolved_root_rule_at rule_indexes root_index =
     bnd (ok_or Malformed (get_at rule_indexes root_index)) (\<lambda>encoded_index.
     bnd (ok_or Malformed (checked_sub encoded_index 1)) rule_by_index)"

definition disposition :: "root_rule \<Rightarrow> direct_compile_options \<Rightarrow> root_mode_disposition" where
  "disposition rule options = mode_disposition rule ! mode_index (mode_from_options options)"

definition is_skipped :: "root_rule \<Rightarrow> direct_compile_options \<Rightarrow> bool" where
  "is_skipped rule options \<longleftrightarrow>
     stats_effect rule = Skipped (effect_counter (stats_effect rule)) \<and>
     disposition rule options = SkipDiagnostic"

definition apply_statistics :: "root_rule \<Rightarrow> direct_compile_options \<Rightarrow> direct_compile_stats
    \<Rightarrow> direct_compile_stats kres" where
  "apply_statistics rule options statistics =
     bnd (increment_statistics (effect_counter (stats_effect rule)) statistics) (\<lambda>statistics'.
     if is_skipped rule options then bump stat_skipped_axioms stat_skipped_axioms_update statistics'
     else Inr statistics')"


section \<open>Counting\<close>

text \<open>What a counter has counted, in either record.\<close>

fun counted :: "root_counter \<Rightarrow> root_counts \<Rightarrow> usize" where
  "counted CountOntologyAnnotations = n_ontology_annotations"
| "counted CountSwrlRules = n_swrl_rules"
| "counted CountDeclarations = n_declarations"
| "counted CountSubclasses = n_subclasses"
| "counted CountEquivalents = n_equivalents"
| "counted CountDisjointClasses = n_disjoint_classes"
| "counted CountDisjointUnions = n_disjoint_unions"
| "counted CountHasKeys = n_has_keys"
| "counted CountSameIndividuals = n_same_individuals"
| "counted CountDifferentIndividuals = n_different_individuals"
| "counted CountClassAssertions = n_class_assertions"
| "counted CountObjectPropertyAssertions = n_object_property_assertions"
| "counted CountNegativeObjectPropertyAssertions = n_negative_object_property_assertions"
| "counted CountSubObjectProperties = n_sub_object_properties"
| "counted CountEquivalentObjectProperties = n_equivalent_object_properties"
| "counted CountDisjointObjectProperties = n_disjoint_object_properties"
| "counted CountInverseObjectProperties = n_inverse_object_properties"
| "counted CountFunctionalObjectProperties = n_functional_object_properties"
| "counted CountInverseFunctionalObjectProperties = n_inverse_functional_object_properties"
| "counted CountReflexiveObjectProperties = n_reflexive_object_properties"
| "counted CountIrreflexiveObjectProperties = n_irreflexive_object_properties"
| "counted CountSymmetricObjectProperties = n_symmetric_object_properties"
| "counted CountAsymmetricObjectProperties = n_asymmetric_object_properties"
| "counted CountTransitiveObjectProperties = n_transitive_object_properties"
| "counted CountSubDataProperties = n_sub_data_properties"
| "counted CountEquivalentDataProperties = n_equivalent_data_properties"
| "counted CountDisjointDataProperties = n_disjoint_data_properties"
| "counted CountDataPropertyDomains = n_data_property_domains"
| "counted CountDataPropertyRanges = n_data_property_ranges"
| "counted CountFunctionalDataProperties = n_functional_data_properties"
| "counted CountDatatypeDefinitions = n_datatype_definitions"
| "counted CountDataPropertyAssertions = n_data_property_assertions"
| "counted CountNegativeDataPropertyAssertions = n_negative_data_property_assertions"
| "counted CountAnnotationAssertions = n_annotation_assertions"
| "counted CountSubAnnotationProperties = n_sub_annotation_properties"
| "counted CountAnnotationPropertyDomains = n_annotation_property_domains"
| "counted CountAnnotationPropertyRanges = n_annotation_property_ranges"
| "counted CountObjectPropertyDomains = n_object_property_domains"
| "counted CountObjectPropertyRanges = n_object_property_ranges"

fun statistics_count :: "root_counter \<Rightarrow> direct_compile_stats \<Rightarrow> usize" where
  "statistics_count CountOntologyAnnotations = stat_ontology_annotations"
| "statistics_count CountSwrlRules = stat_swrl_rules"
| "statistics_count CountDeclarations = stat_declarations"
| "statistics_count CountSubclasses = stat_subclasses"
| "statistics_count CountEquivalents = stat_equivalents"
| "statistics_count CountDisjointClasses = stat_disjoint_classes"
| "statistics_count CountDisjointUnions = stat_disjoint_unions"
| "statistics_count CountHasKeys = stat_has_keys"
| "statistics_count CountSameIndividuals = stat_same_individuals"
| "statistics_count CountDifferentIndividuals = stat_different_individuals"
| "statistics_count CountClassAssertions = stat_class_assertions"
| "statistics_count CountObjectPropertyAssertions = stat_object_property_assertions"
| "statistics_count CountNegativeObjectPropertyAssertions = stat_negative_object_property_assertions"
| "statistics_count CountSubObjectProperties = stat_sub_object_properties"
| "statistics_count CountEquivalentObjectProperties = stat_equivalent_object_properties"
| "statistics_count CountDisjointObjectProperties = stat_disjoint_object_properties"
| "statistics_count CountInverseObjectProperties = stat_inverse_object_properties"
| "statistics_count CountFunctionalObjectProperties = stat_functional_object_properties"
| "statistics_count CountInverseFunctionalObjectProperties = stat_inverse_functional_object_properties"
| "statistics_count CountReflexiveObjectProperties = stat_reflexive_object_properties"
| "statistics_count CountIrreflexiveObjectProperties = stat_irreflexive_object_properties"
| "statistics_count CountSymmetricObjectProperties = stat_symmetric_object_properties"
| "statistics_count CountAsymmetricObjectProperties = stat_asymmetric_object_properties"
| "statistics_count CountTransitiveObjectProperties = stat_transitive_object_properties"
| "statistics_count CountSubDataProperties = stat_sub_data_properties"
| "statistics_count CountEquivalentDataProperties = stat_equivalent_data_properties"
| "statistics_count CountDisjointDataProperties = stat_disjoint_data_properties"
| "statistics_count CountDataPropertyDomains = stat_data_property_domains"
| "statistics_count CountDataPropertyRanges = stat_data_property_ranges"
| "statistics_count CountFunctionalDataProperties = stat_functional_data_properties"
| "statistics_count CountDatatypeDefinitions = stat_datatype_definitions"
| "statistics_count CountDataPropertyAssertions = stat_data_property_assertions"
| "statistics_count CountNegativeDataPropertyAssertions = stat_negative_data_property_assertions"
| "statistics_count CountAnnotationAssertions = stat_annotation_assertions"
| "statistics_count CountSubAnnotationProperties = stat_sub_annotation_properties"
| "statistics_count CountAnnotationPropertyDomains = stat_annotation_property_domains"
| "statistics_count CountAnnotationPropertyRanges = stat_annotation_property_ranges"
| "statistics_count CountObjectPropertyDomains = stat_object_property_domains"
| "statistics_count CountObjectPropertyRanges = stat_object_property_ranges"

lemma bump_Inr: "bump read update r = Inr r' \<longleftrightarrow> fits (read r + 1) \<and> r' = update (\<lambda>_. read r + 1) r"
  by (auto simp: bump_def res_simps)

lemma increment_counts:
  "increment k counts = Inr counts' \<Longrightarrow> counted k' counts' = counted k' counts + (if k' = k then 1 else 0)"
  by (cases k; cases k') (simp_all add: bump_Inr)

lemma increment_statistics_counts:
  "increment_statistics k s = Inr s' \<Longrightarrow>
   statistics_count k' s' = statistics_count k' s + (if k' = k then 1 else 0) \<and> stat_skipped_axioms s' = stat_skipped_axioms s"
  by (cases k; cases k') (simp_all add: bump_Inr)

lemma increment_fails: "increment k counts = Inl e \<longleftrightarrow> e = Resource \<and> \<not> fits (counted k counts + 1)"
  by (cases k) (auto simp: bump_def checked_add_def)

section \<open>The table as a partial function\<close>

lemma position_Some:
  "list_position p xs = Some i \<longleftrightarrow> i < length xs \<and> p (xs ! i) \<and> (\<forall>j < i. \<not> p (xs ! j))"
proof (induction xs arbitrary: i)
  case (Cons x xs)
  show ?case
  proof (cases i)
    case (Suc k)
    then have "(\<forall>j < i. \<not> p ((x # xs) ! j)) \<longleftrightarrow> \<not> p x \<and> (\<forall>j < k. \<not> p (xs ! j))"
      by (auto simp: less_Suc_eq_0_disj)
    with Suc Cons.IH [of k] show ?thesis by auto
  qed auto
qed simp

lemma position_None: "list_position p xs = None \<longleftrightarrow> (\<forall>x \<in> set xs. \<not> p x)"
  by (induction xs) auto

definition rule_key :: "root_rule \<Rightarrow> nat \<times> nat" where
  "rule_key rule = (rule_root_kind rule, rule_tag rule)"

lemmas mode_tables = ROOT_MODES_SILENT_def ROOT_MODES_FAMILY_def ROOT_MODES_ROLE_def
  ROOT_MODES_PROJECT_NONASSERTED_def ROOT_MODES_LITERAL_def ROOT_MODES_SKIPPED_def

lemma rules_length: "length ROOT_RULES = 39"
  by (simp add: ROOT_RULES_def)

lemma rule_keys: "map rule_key ROOT_RULES =
  map (Pair 2) [60, 61, 62, 63, 64, 101, 70, 71, 72, 73, 74, 75, 112, 113, 114, 76, 77, 78, 79, 80, 81, 82, 90, 91, 92, 93,
    94, 95, 100, 110, 111, 115, 116, 120, 121, 122, 123] @ [(1, 5), (3, 148)]"
  by (simp add: ROOT_RULES_def rule_key_def)

lemma rule_keys_distinct: "distinct (map rule_key ROOT_RULES)"
  unfolding rule_keys by simp

lemma rule_key_at: "i < length ROOT_RULES \<Longrightarrow> j < length ROOT_RULES \<Longrightarrow>
    rule_key (ROOT_RULES ! i) = rule_key (ROOT_RULES ! j) \<longleftrightarrow> i = j"
  using rule_keys_distinct by (metis distinct_conv_nth length_map nth_map)

lemma resolve_index_Inr:
  "resolve_index k t = Inr i \<longleftrightarrow> 0 < i \<and> i \<le> length ROOT_RULES \<and> rule_key (ROOT_RULES ! (i - 1)) = (k, t)"
proof -
  let ?p = "\<lambda>rule. rule_root_kind rule = k \<and> rule_tag rule = t"
  have "list_position ?p ROOT_RULES = Some j \<longleftrightarrow> j < length ROOT_RULES \<and> rule_key (ROOT_RULES ! j) = (k, t)" for j
    using rule_key_at unfolding position_Some rule_key_def by (metis less_trans nat_less_le prod.inject)
  note at = this
  show ?thesis
  proof (cases "list_position ?p ROOT_RULES")
    case None
    then have "\<not> (j < length ROOT_RULES \<and> rule_key (ROOT_RULES ! j) = (k, t))" for j using at [of j] by simp
    from this [of "i - 1"] None show ?thesis by (auto simp: resolve_index_def)
  next
    case (Some j)
    with at [of j] have j: "j < length ROOT_RULES" "rule_key (ROOT_RULES ! j) = (k, t)" by simp_all
    with Some have "resolve_index k t = Inr (j + 1)" by (simp add: resolve_index_def rules_length)
    with j rule_key_at [of "i - 1" j] show ?thesis by auto
  qed
qed

lemma resolve_index_Inl:
  "resolve_index k t = Inl e \<Longrightarrow> (k, t) \<notin> rule_key ` set ROOT_RULES \<and>
     e = (if k = ROOT_AXIOM \<and> in_schema t \<and> t \<noteq> TAG_ANNOTATION \<and> t \<noteq> TAG_SWRL_RULE then Unsupported else Malformed)"
  using position_Some [of "\<lambda>rule. rule_root_kind rule = k \<and> rule_tag rule = t" ROOT_RULES]
    position_None [of "\<lambda>rule. rule_root_kind rule = k \<and> rule_tag rule = t" ROOT_RULES]
  by (force simp: resolve_index_def rule_key_def rules_length split: option.splits if_splits)

lemma resolve_index_total: "(k, t) \<in> rule_key ` set ROOT_RULES \<Longrightarrow> \<exists>i. resolve_index k t = Inr i"
  using resolve_index_Inl by (metis sum.exhaust)

lemma resolved_rule:
  "resolve_index k t = Inr i \<Longrightarrow> \<exists>rule \<in> set ROOT_RULES. rule_by_index (i - 1) = Inr rule \<and> rule_key rule = (k, t)"
  by (auto simp: resolve_index_Inr rule_by_index_def get_at_def intro!: bexI [of _ "ROOT_RULES ! (i - 1)"])

lemma unruled_schema_tags:
  "in_schema t \<and> (ROOT_AXIOM, t) \<notin> rule_key ` set ROOT_RULES \<longleftrightarrow>
   t \<in> {1, 2, 3, 4, 5, 10, 11} \<union> {20 .. 25} \<union> {30 .. 46} \<union> {140 .. 148}"
proof -
  have "filter (\<lambda>t. (2, t) \<notin> set (map rule_key ROOT_RULES)) SCHEMA_TAGS =
      [1, 2, 3, 4, 5, 10, 11] @ [20 ..< 26] @ [30 ..< 47] @ [140 ..< 149]"
    unfolding rule_keys SCHEMA_TAGS_def by (simp add: upt_rec)
  then have "set (filter (\<lambda>t. (2, t) \<notin> set (map rule_key ROOT_RULES)) SCHEMA_TAGS) =
      {1, 2, 3, 4, 5, 10, 11} \<union> {20 ..< 26} \<union> {30 ..< 47} \<union> {140 ..< 149}"
    by (simp only: set_append set_upt list.set Un_assoc)
  moreover have "{20 .. 25} = {20 ..< 26 :: nat}" "{30 .. 46} = {30 ..< 47 :: nat}" "{140 .. 148} = {140 ..< 149 :: nat}"
    by auto
  ultimately show ?thesis unfolding in_schema_def by (simp only: set_filter set_map ROOT_AXIOM_def) blast
qed

section \<open>Properties\<close>

text \<open>
  C27: the rule table resolves every root exactly once. A root of kind \<open>k\<close> and tag \<open>t\<close> gets
  index \<open>i\<close> exactly when row \<open>i - 1\<close> is the row of that kind and tag; the rows have distinct
  keys, so the index is unique. Without a row, the root is unsupported when it is an axiom
  root whose tag is another schema constructor (an entity, a literal, a class expression, a
  data range, a SWRL atom: every axiom constructor of the schema has a row), and malformed
  otherwise.
\<close>
theorem root_rule_resolution:
  "(resolve_index k t = Inr i \<longleftrightarrow> 0 < i \<and> i \<le> length ROOT_RULES \<and> rule_key (ROOT_RULES ! (i - 1)) = (k, t)) \<and>
   distinct (map rule_key ROOT_RULES) \<and>
   (resolve_index k t = Inl Unsupported \<longleftrightarrow>
      k = ROOT_AXIOM \<and> t \<in> {1, 2, 3, 4, 10, 11} \<union> {20 .. 25} \<union> {30 .. 46} \<union> {140 .. 147}) \<and>
   resolve_index k t \<notin> {Inl Resource, Inl Panicked, Inl Cancelled, Inl ReferenceFailure}"
proof -
  have "resolve_index k t = Inl Unsupported \<longleftrightarrow> (k, t) \<notin> rule_key ` set ROOT_RULES \<and>
      k = ROOT_AXIOM \<and> in_schema t \<and> t \<noteq> TAG_ANNOTATION \<and> t \<noteq> TAG_SWRL_RULE"
    using resolve_index_Inl [of k t] resolve_index_total [of k t]
    by (metis (no_types, lifting) Inl_not_Inr kernel_error.distinct(1) resolve_index_Inr resolved_rule image_eqI sum.exhaust)
  also have "\<dots> \<longleftrightarrow> k = ROOT_AXIOM \<and> t \<in> {1, 2, 3, 4, 10, 11} \<union> {20 .. 25} \<union> {30 .. 46} \<union> {140 .. 147}"
    using unruled_schema_tags [of t] by auto
  finally have unsupported: "resolve_index k t = Inl Unsupported \<longleftrightarrow>
      k = ROOT_AXIOM \<and> t \<in> {1, 2, 3, 4, 10, 11} \<union> {20 .. 25} \<union> {30 .. 46} \<union> {140 .. 147}" .
  have "e = Unsupported \<or> e = Malformed" if "resolve_index k t = Inl e" for e
    using resolve_index_Inl [OF that] by presburger
  then have "resolve_index k t \<notin> {Inl Resource, Inl Panicked, Inl Cancelled, Inl ReferenceFailure}" by auto
  with unsupported show ?thesis using resolve_index_Inr [of k t i] rule_keys_distinct by (intro conjI)
qed

text \<open>
  Statistics of a row. \<open>apply_statistics\<close> adds one to the counter the row names and to no
  other constructor counter, and adds one to the skipped axioms exactly when the row is of
  the skipped kind and the mode is not the asserted-taxonomy one.
\<close>
lemma apply_statistics_exact:
  assumes "rule \<in> set ROOT_RULES" and "apply_statistics rule options s = Inr s'"
  shows "statistics_count k s' = statistics_count k s + (if k = effect_counter (stats_effect rule) then 1 else 0) \<and>
    stat_skipped_axioms s' = stat_skipped_axioms s +
      (if \<not> asserted_taxonomy_only options \<and> stats_effect rule = Skipped (effect_counter (stats_effect rule)) then 1 else 0)"
proof -
  have "\<forall>rule \<in> set ROOT_RULES. \<forall>e. stats_effect rule = Skipped e \<longrightarrow> mode_disposition rule = ROOT_MODES_SKIPPED"
    by (simp add: ROOT_RULES_def)
  with assms(1) have skip: "is_skipped rule options \<longleftrightarrow>
      \<not> asserted_taxonomy_only options \<and> stats_effect rule = Skipped (effect_counter (stats_effect rule))"
    by (auto simp: is_skipped_def disposition_def mode_from_options_def ROOT_MODES_SKIPPED_def)
  from assms(2) obtain s1 where s1: "increment_statistics (effect_counter (stats_effect rule)) s = Inr s1"
    and s': "(if is_skipped rule options then bump stat_skipped_axioms stat_skipped_axioms_update s1 else Inr s1) = Inr s'"
    by (auto simp: apply_statistics_def bnd_eq_Inr)
  from s' have "statistics_count k s' = statistics_count k s1"
    "stat_skipped_axioms s' = stat_skipped_axioms s1 + (if is_skipped rule options then 1 else 0)"
    by (cases k; auto simp: bump_Inr split: if_splits)+
  with increment_statistics_counts [OF s1, of k] skip show ?thesis by simp
qed

definition stats_zero :: direct_compile_stats where
  "stats_zero = direct_compile_stats.make
     0 0 0 0 0 0 0 0 0 0 0 0 0 0 0 0 0 0 0 0 0 0 0 0 0 0 0 0 0 0 0 0 0 0 0 0 0 0 0 0 0 0 0 0 0 0 0 0 0 0 0 0
     0 0 0 0 0 0 0 0"

lemma apply_statistics_exact_witness:
  "\<exists>s'. apply_statistics (ROOT_RULES ! 3) (direct_compile_options.make False False True False 10 10) stats_zero = Inr s' \<and>
     statistics_count CountDisjointClasses s' = 1 \<and> statistics_count CountSubclasses s' = 0 \<and> stat_skipped_axioms s' = 1"
proof -
  let ?rule = "ROOT_RULES ! 3" and ?o = "direct_compile_options.make False False True False 10 10"
  have r: "?rule \<in> set ROOT_RULES" by (rule nth_mem) (simp add: rules_length)
  have e: "stats_effect ?rule = Skipped CountDisjointClasses" "mode_disposition ?rule = ROOT_MODES_SKIPPED"
    by (simp_all add: ROOT_RULES_def)
  have "\<exists>s'. apply_statistics ?rule ?o stats_zero = Inr s'"
    by (simp add: apply_statistics_def is_skipped_def disposition_def e ROOT_MODES_SKIPPED_def mode_from_options_def
      direct_compile_options.defs bump_def checked_add_def fits_def stats_zero_def direct_compile_stats.defs)
  then obtain s' where s': "apply_statistics ?rule ?o stats_zero = Inr s'" by blast
  from apply_statistics_exact [OF r s', of CountDisjointClasses] apply_statistics_exact [OF r s', of CountSubclasses] s'
  show ?thesis by (simp add: e stats_zero_def direct_compile_stats.defs direct_compile_options.defs)
qed

end
