(* ===== verification/Root_Plan.thy ===== *)
theory Root_Plan
  imports Root_Rules
begin

text \<open>
  The first pass over the selected roots (\<open>populate_selected_root_rule_plan\<close> and what it
  calls in \<open>encoded_direct.rs\<close>): every selected root is resolved to its rule, its semantic
  shape is planned, and the rule classifies it into the counters. The plan is the record the
  loop fills; the Rust code passes its flat vectors one by one, here the record is passed as
  a whole. The optional workspace that budgets the vectors of an overlay is absent, as in
  \<open>resolve_selected_root_rule_plan_unbounded\<close>, so \<open>push_planned\<close> appends.
\<close>

section \<open>Planned shapes\<close>

datatype planned_role_effect = PropertyChainEffect | RowEffect role_axiom

datatype planned_root_shape =
    SubclassShape subclass_projection_t
  | EquivalentShape equivalent_projection_t
  | ObjectPropertyClassShape "(text_str \<times> text_str) option"
  | ClassAssertionShape class_assertion_projection_t
  | ObjectPropertyAssertionShape individual_value_t text_str individual_value_t

datatype planned_emission_shape =
    EmitSubclassTaxonomy usize usize
  | EmitSubclassRestriction usize planned_restriction_coordinate
  | EmitSubclassIgnored
  | EmitEquivalentPair usize usize
  | EmitEquivalentAggregate usize usize
  | EmitEquivalentIgnored
  | EmitObjectPropertyClassProjected usize usize
  | EmitObjectPropertyClassIgnored
  | EmitClassAssertionEdge usize usize
  | EmitClassAssertionIgnored
  | EmitObjectPropertyAssertion usize planned_individual_coordinate_t planned_individual_coordinate_t

record planned_aggregate_range =
  range_start :: usize
  range_length :: usize

record planned_aggregate_root =
  aggregate_root_index :: usize
  named_range :: planned_aggregate_range
  restriction_range :: planned_aggregate_range
  planned_ignored_shapes :: usize

record planned_aggregate_named_operand =
  operand_node :: usize
  operand_iri :: text_str

record planned_aggregate_restriction_operand =
  operand_restriction_node :: usize
  operand_tag :: nat
  item_order :: usize
  operand_projection :: "(text_str \<times> text_str) option"
  operand_coordinate :: "planned_restriction_coordinate option"

text \<open>\<open>PlannedShapeRoot\<close>, \<open>PlannedEmissionRoot\<close> and \<open>PlannedRoleRoot\<close> pair a root index with what
  was planned for it.\<close>

type_synonym 'a planned_root = "usize \<times> 'a"

record selected_root_rule_plan =
  rule_indexes :: "nat list"
  shape_roots :: "planned_root_shape planned_root list"
  emission_roots :: "planned_emission_shape planned_root list"
  aggregate_roots :: "planned_aggregate_root list"
  aggregate_named_operands :: "planned_aggregate_named_operand list"
  aggregate_restriction_operands :: "planned_aggregate_restriction_operand list"
  aggregate_emission_named_nodes :: "usize list"
  aggregate_emission_restrictions :: "planned_restriction_coordinate option list"
  role_roots :: "planned_role_effect planned_root list"
  plan_counts :: root_counts
  plan_selected :: usize

section \<open>Reading a plan\<close>

definition planned_at :: "'a planned_root list \<Rightarrow> usize \<Rightarrow> 'a option" where
  "planned_at roots root_index =
     (case binary_search_by_key fst root_index roots of
        Inr index \<Rightarrow> Some (snd (roots ! index))
      | Inl _ \<Rightarrow> None)"

definition rule_at :: "selected_root_rule_plan \<Rightarrow> usize \<Rightarrow> root_rule kres" where
  "rule_at plan root_index = resolved_root_rule_at (rule_indexes plan) root_index"

definition shape_at :: "selected_root_rule_plan \<Rightarrow> usize \<Rightarrow> planned_root_shape option" where
  "shape_at plan root_index = planned_at (shape_roots plan) root_index"

definition role_effect_at :: "selected_root_rule_plan \<Rightarrow> usize \<Rightarrow> planned_role_effect option kres" where
  "role_effect_at plan root_index = Inr (planned_at (role_roots plan) root_index)"

definition aggregate_at :: "selected_root_rule_plan \<Rightarrow> usize \<Rightarrow> planned_aggregate_root option" where
  "aggregate_at plan root_index =
     (case binary_search_by_key aggregate_root_index root_index (aggregate_roots plan) of
        Inr index \<Rightarrow> Some (aggregate_roots plan ! index)
      | Inl _ \<Rightarrow> None)"

definition checked_plan_slice :: "'a list \<Rightarrow> planned_aggregate_range \<Rightarrow> 'a list kres" where
  "checked_plan_slice values r =
     bnd (ok_or Malformed (checked_add (range_start r) (range_length r))) (\<lambda>stop.
     ok_or Malformed (get_range values (range_start r) stop))"

definition plan_named_operands :: "selected_root_rule_plan \<Rightarrow> planned_aggregate_root
    \<Rightarrow> planned_aggregate_named_operand list kres" where
  "plan_named_operands plan aggregate = checked_plan_slice (aggregate_named_operands plan) (named_range aggregate)"

definition plan_restriction_operands :: "selected_root_rule_plan \<Rightarrow> planned_aggregate_root
    \<Rightarrow> planned_aggregate_restriction_operand list kres" where
  "plan_restriction_operands plan aggregate =
     checked_plan_slice (aggregate_restriction_operands plan) (restriction_range aggregate)"

definition skipped_axioms :: "selected_root_rule_plan \<Rightarrow> direct_compile_options \<Rightarrow> nat \<Rightarrow> usize kres" where
  "skipped_axioms plan options st =
     fold_res (\<lambda>(root_index, encoded_index) found.
         seq (check_cancel st root_index) (
         if encoded_index = 0 then Inr found else
         bnd (rule_by_index (encoded_index - 1)) (\<lambda>rule.
         if is_skipped rule options then ok_or Resource (checked_add found 1) else Inr found)))
       (enumerate 0 (rule_indexes plan)) 0"

section \<open>Equivalent operands\<close>

record planned_expression_key_t =
  key_node :: usize
  key_rank :: nat
  key_iri :: "text_str option"

definition precedes :: "planned_expression_key_t \<Rightarrow> planned_expression_key_t \<Rightarrow> bool" where
  "precedes key other =
     (if key_rank key \<noteq> key_rank other then key_rank key < key_rank other else
      case (key_iri key, key_iri other) of
        (Some left, Some right) \<Rightarrow> (left, key_node key) < (right, key_node other)
      | _ \<Rightarrow> key_node key < key_node other)"

definition planned_expression_key :: "direct_columns \<Rightarrow> usize \<Rightarrow> usize \<Rightarrow> planned_expression_key_t kres" where
  "planned_expression_key c node_id maximum =
     bnd (node_tag c node_id) (\<lambda>tag.
     bnd (if tag = TAG_ENTITY then map_res (\<lambda>text. (1001, Some text)) (named_class_iri c node_id maximum)
          else if tag = TAG_OBJECT_INTERSECTION_OF then Inr (3001, None)
          else if tag = TAG_OBJECT_UNION_OF then Inr (3002, None)
          else if tag = TAG_OBJECT_SOME_VALUES_FROM then Inr (3005, None)
          else if tag = TAG_OBJECT_ALL_VALUES_FROM then Inr (3006, None)
          else if tag = TAG_OBJECT_MIN_CARDINALITY then Inr (3008, None)
          else if tag = TAG_OBJECT_MAX_CARDINALITY then Inr (3010, None)
          else if is_nonprojecting_class_tag tag then Inr (3999, None)
          else if in_schema tag then Inl Unsupported else Inl Malformed) (\<lambda>(rank, named_iri).
     Inr \<lparr> key_node = node_id, key_rank = rank, key_iri = named_iri \<rparr>))"

type_synonym best_keys = "planned_expression_key_t option \<times> planned_expression_key_t option"

fun keep_best :: "planned_expression_key_t \<Rightarrow> best_keys \<Rightarrow> best_keys" where
  "keep_best candidate (None, second) = (Some candidate, second)"
| "keep_best candidate (Some current, second) =
     (if precedes candidate current then (Some candidate, Some current)
      else if (case second of None \<Rightarrow> True | Some other \<Rightarrow> precedes candidate other)
           then (Some current, Some candidate)
      else (Some current, second))"

definition best_expressions :: "direct_columns \<Rightarrow> nat \<Rightarrow> usize \<Rightarrow> usize \<times> usize \<Rightarrow> best_keys kres" where
  "best_expressions c st maximum r =
     fold_res (\<lambda>item_index best.
         seq (check_cancel st item_index) (
         bnd (item_node c item_index) (\<lambda>node_id.
         map_res (\<lambda>candidate. keep_best candidate best) (planned_expression_key c node_id maximum))))
       [fst r ..< fst r + snd r] (None, None)"

definition aggregate_operand_range :: "direct_columns \<Rightarrow> usize \<Rightarrow> (usize \<times> usize) kres" where
  "aggregate_operand_range c node_id =
     bnd (node_tag c node_id) (\<lambda>tag.
     seq (reject_if (\<not> is_aggregate_tag tag) Malformed) (
     bnd (exact_fields c node_id 1) (\<lambda>start. node_set_range c start 2)))"

text \<open>One operand of the aggregate: a named class, a restriction, or an ignored shape.\<close>

definition plan_operand :: "direct_columns \<Rightarrow> nat \<Rightarrow> usize \<Rightarrow> usize \<Rightarrow> usize
    \<Rightarrow> selected_root_rule_plan \<times> usize \<Rightarrow> (selected_root_rule_plan \<times> usize) kres" where
  "plan_operand c st maximum aggregate_start item_index s =
     (case s of (plan, ignored_shapes) \<Rightarrow>
     seq (check_cancel st item_index) (
     bnd (item_node c item_index) (\<lambda>operand_id.
     bnd (node_tag c operand_id) (\<lambda>tag.
     if tag = TAG_ENTITY then
       bnd (named_class_iri c operand_id maximum) (\<lambda>text.
       Inr (plan\<lparr>aggregate_named_operands := aggregate_named_operands plan @
                   [\<lparr> operand_node = operand_id, operand_iri = text \<rparr>],
                 aggregate_emission_named_nodes := aggregate_emission_named_nodes plan @ [operand_id]\<rparr>,
            ignored_shapes))
     else if is_restriction_tag tag then
       bnd (restriction_projection c operand_id maximum) (\<lambda>projection.
       bnd (case projection of None \<Rightarrow> Inr None
            | Some _ \<Rightarrow> map_res Some (planned_restriction_coordinate_of c operand_id)) (\<lambda>coordinate.
       bnd (if projection = None then ok_or Resource (checked_add ignored_shapes 1) else Inr ignored_shapes) (\<lambda>ignored.
       Inr (plan\<lparr>aggregate_restriction_operands := aggregate_restriction_operands plan @
                   [\<lparr> operand_restriction_node = operand_id, operand_tag = tag,
                      item_order = item_index - aggregate_start, operand_projection = projection,
                      operand_coordinate = coordinate \<rparr>],
                 aggregate_emission_restrictions := aggregate_emission_restrictions plan @ [coordinate]\<rparr>,
            ignored))))
     else if is_nonprojecting_class_tag tag \<or> is_aggregate_tag tag then
       map_res (\<lambda>ignored. (plan, ignored)) (ok_or Resource (checked_add ignored_shapes 1))
     else Inl Malformed))))"

text \<open>Sorting \<open>values[start..]\<close>, and copying a projection of each sorted operand back into the
  parallel emission vector.\<close>

definition sort_tail :: "nat \<Rightarrow> ('a \<Rightarrow> 'a \<Rightarrow> ordering) \<Rightarrow> usize \<Rightarrow> 'a list \<Rightarrow> 'a list kres" where
  "sort_tail st compare start values =
     map_res (\<lambda>tail. take start values @ tail) (cancellable_sort_unstable_by st compare (drop start values))"

definition align_tail :: "nat \<Rightarrow> ('a \<Rightarrow> 'b) \<Rightarrow> usize \<Rightarrow> 'a list \<Rightarrow> 'b list \<Rightarrow> 'b list kres" where
  "align_tail st project start operands emission =
     fold_res (\<lambda>(alignment_index, operand) acc.
         seq (check_cancel st alignment_index) (Inr (acc[start + alignment_index := project operand])))
       (enumerate 0 (take (length emission - start) (drop start operands))) emission"

definition named_operand_key :: "planned_aggregate_named_operand \<Rightarrow> text_str \<times> usize" where
  "named_operand_key operand = (operand_iri operand, operand_node operand)"

definition tag_order :: "nat \<Rightarrow> nat" where
  "tag_order tag =
     (if tag = TAG_OBJECT_SOME_VALUES_FROM then 0 else
      if tag = TAG_OBJECT_ALL_VALUES_FROM then 1 else
      if tag = TAG_OBJECT_MIN_CARDINALITY then 2 else
      if tag = TAG_OBJECT_MAX_CARDINALITY then 3 else 255)"

definition restriction_operand_key :: "planned_aggregate_restriction_operand \<Rightarrow> nat \<times> usize" where
  "restriction_operand_key operand = (tag_order (operand_tag operand), item_order operand)"

definition compare_named_operands :: "planned_aggregate_named_operand \<Rightarrow> planned_aggregate_named_operand \<Rightarrow> ordering" where
  "compare_named_operands left right =
     (case cmp (operand_iri left) (operand_iri right) of
        Equal \<Rightarrow> cmp (operand_node left) (operand_node right)
      | order \<Rightarrow> order)"

definition compare_restriction_operands :: "planned_aggregate_restriction_operand
    \<Rightarrow> planned_aggregate_restriction_operand \<Rightarrow> ordering" where
  "compare_restriction_operands left right = cmp (restriction_operand_key left) (restriction_operand_key right)"

definition plan_aggregate :: "direct_columns \<Rightarrow> nat \<Rightarrow> usize \<Rightarrow> usize \<Rightarrow> usize \<Rightarrow> selected_root_rule_plan
    \<Rightarrow> (usize \<times> selected_root_rule_plan) kres" where
  "plan_aggregate c st maximum root_index expression_id plan =
     bnd (aggregate_operand_range c expression_id) (\<lambda>(aggregate_start, aggregate_length).
     let named_start = length (aggregate_named_operands plan);
         restriction_start = length (aggregate_restriction_operands plan) in
     bnd (fold_res (plan_operand c st maximum aggregate_start)
            [aggregate_start ..< aggregate_start + aggregate_length] (plan, 0)) (\<lambda>(plan1, ignored_shapes).
     bnd (sort_tail st compare_named_operands named_start (aggregate_named_operands plan1)) (\<lambda>named.
     bnd (align_tail st operand_node named_start named (aggregate_emission_named_nodes plan1)) (\<lambda>named_nodes.
     bnd (sort_tail st compare_restriction_operands restriction_start (aggregate_restriction_operands plan1)) (\<lambda>restrictions.
     bnd (align_tail st operand_coordinate restriction_start restrictions
            (aggregate_emission_restrictions plan1)) (\<lambda>coordinates.
     Inr (length (aggregate_roots plan1),
       plan1\<lparr>aggregate_named_operands := named, aggregate_emission_named_nodes := named_nodes,
             aggregate_restriction_operands := restrictions, aggregate_emission_restrictions := coordinates,
             aggregate_roots := aggregate_roots plan1 @
               [\<lparr> aggregate_root_index = root_index,
                  named_range = \<lparr> range_start = named_start, range_length = length named - named_start \<rparr>,
                  restriction_range = \<lparr> range_start = restriction_start,
                                        range_length = length restrictions - restriction_start \<rparr>,
                  planned_ignored_shapes = ignored_shapes \<rparr>]\<rparr>)))))))"

type_synonym planned_shapes = "planned_root_shape \<times> planned_emission_shape"

definition plan_equivalent_shape :: "direct_columns \<Rightarrow> nat \<Rightarrow> usize \<Rightarrow> usize \<Rightarrow> usize \<Rightarrow> selected_root_rule_plan
    \<Rightarrow> (planned_shapes \<times> selected_root_rule_plan) kres" where
  "plan_equivalent_shape c st maximum root_index node_id plan =
     bnd (exact_fields c node_id 2) (\<lambda>start.
     bnd (node_set_range c start 2) (\<lambda>r.
     bnd (best_expressions c st maximum r) (\<lambda>best.
     seq (validate_annotation_set c (start + 1)) (
     case best of
       (Some first, Some second) \<Rightarrow>
         (case key_iri first of
            None \<Rightarrow> Inr ((EquivalentShape EquivalentIgnored, EmitEquivalentIgnored), plan)
          | Some source \<Rightarrow>
              (case key_iri second of
                 Some destination \<Rightarrow>
                   Inr ((EquivalentShape (EquivalentPair source (key_node first) destination (key_node second)),
                         EmitEquivalentPair (key_node first) (key_node second)), plan)
               | None \<Rightarrow>
                   bnd (node_tag c (key_node second)) (\<lambda>tag.
                   if \<not> is_aggregate_tag tag
                   then Inr ((EquivalentShape EquivalentIgnored, EmitEquivalentIgnored), plan) else
                   map_res (\<lambda>(aggregate_plan_index, plan').
                       ((EquivalentShape (EquivalentAggregate source (key_node first) (key_node second)),
                         EmitEquivalentAggregate (key_node first) aggregate_plan_index), plan'))
                     (plan_aggregate c st maximum root_index (key_node second) plan))))
     | _ \<Rightarrow> Inl Malformed))))"


section \<open>Shapes of the other families\<close>

definition plan_root_shape :: "root_rule \<Rightarrow> direct_columns \<Rightarrow> usize \<Rightarrow> usize \<Rightarrow> usize \<Rightarrow> nat
    \<Rightarrow> selected_root_rule_plan \<Rightarrow> (planned_shapes option \<times> selected_root_rule_plan) kres" where
  "plan_root_shape rule c root_index node_id maximum st plan = (case handler rule of
     HandleSubclass \<Rightarrow>
       bnd (subclass_projection c node_id maximum) (\<lambda>projection.
       bnd (exact_fields c node_id 3) (\<lambda>start.
       bnd (field_node c start) (\<lambda>sub_node.
       bnd (field_node c (start + 1)) (\<lambda>super_node.
       bnd (case projection of
              SubclassTaxonomy _ _ \<Rightarrow> Inr (EmitSubclassTaxonomy sub_node super_node)
            | SubclassRestriction _ _ _ \<Rightarrow>
                bnd (node_tag c sub_node) (\<lambda>sub_tag.
                let (source_node, restriction_node) =
                      (if sub_tag = TAG_ENTITY then (sub_node, super_node) else (super_node, sub_node)) in
                map_res (EmitSubclassRestriction source_node) (planned_restriction_coordinate_of c restriction_node))
            | SubclassIgnored \<Rightarrow> Inr EmitSubclassIgnored) (\<lambda>emission.
       Inr (Some (SubclassShape projection, emission), plan))))))
   | HandleEquivalentClasses \<Rightarrow>
       map_res (\<lambda>(shapes, plan'). (Some shapes, plan')) (plan_equivalent_shape c st maximum root_index node_id plan)
   | HandleObjectPropertyClass \<Rightarrow>
       bnd (object_property_class_projection c node_id (rule_tag rule) maximum) (\<lambda>projection.
       bnd (if projection \<noteq> None then
              bnd (exact_fields c node_id 3) (\<lambda>start.
              bnd (field_node c start) (\<lambda>property.
              bnd (field_node c (start + 1)) (\<lambda>class_id.
              Inr (EmitObjectPropertyClassProjected property class_id))))
            else Inr EmitObjectPropertyClassIgnored) (\<lambda>emission.
       Inr (Some (ObjectPropertyClassShape projection, emission), plan)))
   | HandleClassAssertion \<Rightarrow>
       map_res (\<lambda>projection.
           (Some (ClassAssertionShape projection,
              case projection of
                ClassAssertionEdge _ individual_node _ class_node \<Rightarrow> EmitClassAssertionEdge individual_node class_node
              | ClassAssertionIgnored \<Rightarrow> EmitClassAssertionIgnored), plan))
         (class_assertion_projection c node_id maximum)
   | HandleObjectPropertyAssertion \<Rightarrow>
       bnd (object_property_assertion_parts c node_id maximum) (\<lambda>(source, relation, destination).
       bnd (exact_fields c node_id 4) (\<lambda>start.
       bnd (field_node c (start + 1)) (\<lambda>source_node.
       bnd (field_node c (start + 2)) (\<lambda>destination_node.
       bnd (field_node c start) (\<lambda>property.
       bnd (planned_individual_coordinate c source source_node) (\<lambda>source_coordinate.
       bnd (planned_individual_coordinate c destination destination_node) (\<lambda>destination_coordinate.
       Inr (Some (ObjectPropertyAssertionShape source relation destination,
              EmitObjectPropertyAssertion property source_coordinate destination_coordinate), plan))))))))
   | _ \<Rightarrow> Inr (None, plan))"

section \<open>Classification\<close>

definition classify_sub_object_property :: "root_rule \<Rightarrow> direct_columns \<Rightarrow> usize \<Rightarrow> usize \<Rightarrow> usize \<Rightarrow> root_counts
    \<Rightarrow> (planned_role_effect \<times> root_counts) kres" where
  "classify_sub_object_property rule c node_id maximum canonical_order counts =
     bnd (exact_fields c node_id 3) (\<lambda>field_start.
     bnd (field_node c field_start) (\<lambda>first.
     bnd (node_tag c first) (\<lambda>tag.
     if tag = TAG_OBJECT_PROPERTY_CHAIN then
       seq (validate_sub_object_property_of c node_id maximum) (
       map_res (Pair PropertyChainEffect) (bump n_object_property_chains n_object_property_chains_update counts))
     else map_res (\<lambda>row. (RowEffect row, counts))
            (role_axiom_row c node_id (rule_tag rule) maximum canonical_order 1))))"

definition classify_shape :: "root_rule \<Rightarrow> direct_columns \<Rightarrow> usize \<Rightarrow> usize \<Rightarrow> usize \<Rightarrow> planned_root_shape option
    \<Rightarrow> root_counts \<Rightarrow> (planned_role_effect option \<times> root_counts) kres" where
  "classify_shape rule c node_id maximum canonical_order planned_shape counts = (case handler rule of
     HandleSubclass \<Rightarrow> (case planned_shape of
         Some (SubclassShape (SubclassRestriction _ _ _)) \<Rightarrow>
           map_res (Pair None) (bump n_restriction_subclasses n_restriction_subclasses_update counts)
       | Some (SubclassShape SubclassIgnored) \<Rightarrow>
           map_res (Pair None) (bump n_ignored_subclasses n_ignored_subclasses_update counts)
       | Some (SubclassShape (SubclassTaxonomy _ _)) \<Rightarrow> Inr (None, counts)
       | _ \<Rightarrow> Inl Malformed)
   | HandleEquivalentClasses \<Rightarrow> (case planned_shape of
         Some (EquivalentShape (EquivalentAggregate _ _ _)) \<Rightarrow>
           map_res (Pair None) (bump n_aggregate_equivalents n_aggregate_equivalents_update counts)
       | Some (EquivalentShape _) \<Rightarrow> Inr (None, counts)
       | _ \<Rightarrow> Inl Malformed)
   | HandleSubObjectProperty \<Rightarrow>
       map_res (\<lambda>(effect, counts'). (Some effect, counts'))
         (classify_sub_object_property rule c node_id maximum canonical_order counts)
   | HandleInverseObjectProperties \<Rightarrow>
       map_res (\<lambda>row. (Some (RowEffect row), counts))
         (role_axiom_row c node_id (rule_tag rule) maximum canonical_order 1)
   | HandleObjectPropertyClass \<Rightarrow> (case planned_shape of
         Some (ObjectPropertyClassShape (Some _)) \<Rightarrow> Inr (None, counts)
       | Some (ObjectPropertyClassShape None) \<Rightarrow> map_res (Pair None) (case domain_range_effect rule of
             DomainEffect \<Rightarrow> bump n_ignored_object_property_domains n_ignored_object_property_domains_update counts
           | RangeEffect \<Rightarrow> bump n_ignored_object_property_ranges n_ignored_object_property_ranges_update counts
           | NoDomainRange \<Rightarrow> Inl Panicked)
       | _ \<Rightarrow> Inl Malformed)
   | HandleClassAssertion \<Rightarrow> (case planned_shape of
         Some (ClassAssertionShape ClassAssertionIgnored) \<Rightarrow>
           map_res (Pair None) (bump n_ignored_class_assertions n_ignored_class_assertions_update counts)
       | Some (ClassAssertionShape _) \<Rightarrow> Inr (None, counts)
       | _ \<Rightarrow> Inl Malformed)
   | HandleObjectPropertyAssertion \<Rightarrow> (case planned_shape of
         Some (ObjectPropertyAssertionShape _ _ _) \<Rightarrow> Inr (None, counts)
       | _ \<Rightarrow> Inl Malformed)
   | _ \<Rightarrow> Inr (None, counts))"

definition classify :: "root_rule \<Rightarrow> direct_columns \<Rightarrow> usize \<Rightarrow> usize \<Rightarrow> usize \<Rightarrow> planned_root_shape option
    \<Rightarrow> root_counts \<Rightarrow> (planned_role_effect option \<times> planned_root_shape option \<times> root_counts) kres" where
  "classify rule c node_id maximum canonical_order planned_shape counts =
     bnd (increment (effect_counter (stats_effect rule)) counts) (\<lambda>counts1.
     bnd (classify_shape rule c node_id maximum canonical_order planned_shape counts1) (\<lambda>(effect, counts2).
     if (role_effect rule = NoRoleEffect) \<noteq> (effect = None) then Inl Malformed
     else Inr (effect, planned_shape, counts2)))"

section \<open>The loop over the roots\<close>

definition empty_plan :: "usize \<Rightarrow> selected_root_rule_plan" where
  "empty_plan roots =
     \<lparr> rule_indexes = replicate roots 0, shape_roots = [], emission_roots = [], aggregate_roots = [],
       aggregate_named_operands = [], aggregate_restriction_operands = [], aggregate_emission_named_nodes = [],
       aggregate_emission_restrictions = [], role_roots = [], plan_counts = root_counts_default, plan_selected = 0 \<rparr>"

definition record_root :: "usize \<Rightarrow> nat \<Rightarrow> planned_role_effect option \<Rightarrow> planned_shapes option \<Rightarrow> root_counts
    \<Rightarrow> selected_root_rule_plan \<Rightarrow> selected_root_rule_plan kres" where
  "record_root root_index encoded_index effect shapes counts plan =
     map_res (\<lambda>chosen. plan
         \<lparr> role_roots := role_roots plan @ (case effect of None \<Rightarrow> [] | Some e \<Rightarrow> [(root_index, e)]),
           shape_roots := shape_roots plan @ (case shapes of None \<Rightarrow> [] | Some (shape, _) \<Rightarrow> [(root_index, shape)]),
           emission_roots := emission_roots plan @
             (case shapes of None \<Rightarrow> [] | Some (_, emission) \<Rightarrow> [(root_index, emission)]),
           rule_indexes := (rule_indexes plan)[root_index := encoded_index],
           plan_counts := counts, plan_selected := chosen \<rparr>)
       (ok_or Resource (checked_add (plan_selected plan) 1))"

definition populate_step :: "direct_columns \<Rightarrow> usize \<Rightarrow> nat \<Rightarrow> usize \<Rightarrow> selected_root_rule_plan
    \<Rightarrow> selected_root_rule_plan kres" where
  "populate_step c maximum st root_index plan =
     seq (check_cancel st root_index) (
     bnd (root_is_selected c root_index) (\<lambda>chosen.
     if \<not> chosen then Inr plan else
     bnd (root_id c root_index) (\<lambda>node_id.
     bnd (root_kind c root_index) (\<lambda>kind.
     bnd (node_tag c node_id) (\<lambda>tag.
     bnd (resolve_index kind tag) (\<lambda>encoded_index.
     bnd (rule_by_index (encoded_index - 1)) (\<lambda>rule.
     bnd (plan_root_shape rule c root_index node_id maximum st plan) (\<lambda>(shapes, plan1).
     bnd (classify rule c node_id maximum root_index (map_option fst shapes) (plan_counts plan1)) (\<lambda>(effect, classified, counts).
     seq (reject_if (classified \<noteq> map_option fst shapes) Malformed) (
     record_root root_index encoded_index effect shapes counts plan1))))))))))"

definition populate_selected_root_rule_plan :: "direct_columns \<Rightarrow> usize \<Rightarrow> nat \<Rightarrow> selected_root_rule_plan
    \<Rightarrow> selected_root_rule_plan kres" where
  "populate_selected_root_rule_plan c maximum st plan0 =
     bnd (fold_res (populate_step c maximum st) [0 ..< length (rule_indexes plan0)] plan0) (\<lambda>plan.
     bnd (selected_root_count c) (\<lambda>expected.
     if plan_selected plan \<noteq> expected then Inl Malformed else Inr plan))"

definition resolve_selected_root_rule_plan_unbounded :: "direct_columns \<Rightarrow> usize \<Rightarrow> nat
    \<Rightarrow> selected_root_rule_plan kres" where
  "resolve_selected_root_rule_plan_unbounded c maximum st =
     populate_selected_root_rule_plan c maximum st (empty_plan (root_count c))"

section \<open>Handing the plan over\<close>

record prepared_emission_plan =
  taken_rule_indexes :: "nat list"
  taken_emission_roots :: "planned_emission_shape planned_root list"
  taken_aggregate_roots :: "planned_aggregate_root list"
  taken_named_nodes :: "usize list"
  taken_restrictions :: "planned_restriction_coordinate option list"

definition take_emission_plan :: "selected_root_rule_plan \<Rightarrow> nat
    \<Rightarrow> (prepared_emission_plan \<times> selected_root_rule_plan) kres" where
  "take_emission_plan plan st =
     seq (for_each (\<lambda>(aggregate_index, aggregate).
           seq (check_cancel st aggregate_index) (
           seq (checked_plan_slice (aggregate_emission_named_nodes plan) (named_range aggregate))
             (discard (checked_plan_slice (aggregate_emission_restrictions plan) (restriction_range aggregate)))))
         (enumerate 0 (aggregate_roots plan))) (
     seq (for_each (\<lambda>(emission_index, planned).
           seq (check_cancel st emission_index) (case snd planned of
             EmitEquivalentAggregate _ aggregate_plan_index \<Rightarrow>
               bnd (ok_or Malformed (get_at (aggregate_roots plan) aggregate_plan_index)) (\<lambda>aggregate.
               reject_if (aggregate_root_index aggregate \<noteq> fst planned) Malformed)
           | _ \<Rightarrow> Inr ()))
         (enumerate 0 (emission_roots plan)))
     (Inr (\<lparr> taken_rule_indexes = rule_indexes plan, taken_emission_roots = emission_roots plan,
             taken_aggregate_roots = aggregate_roots plan, taken_named_nodes = aggregate_emission_named_nodes plan,
             taken_restrictions = aggregate_emission_restrictions plan \<rparr>,
           plan\<lparr>rule_indexes := [], emission_roots := [], aggregate_roots := [],
                aggregate_emission_named_nodes := [], aggregate_emission_restrictions := []\<rparr>)))"

end
