(* ===== verification/Table_Encoding.thy ===== *)
theory Table_Encoding
  imports Columns
begin

text \<open>
  The other direction of \<open>DirectColumns\<close>: abstract tables of constructor nodes, and the
  eleven buffers the structural-columns encoding gives them. The repository's encoder is
  not Rust code; this one follows the layout the readers and \<open>validate_generic\<close> demand
  (fields of a node contiguous, items and scalar bytes laid out in field order) and serves
  to state what the readers return on a table and to build concrete tables.
\<close>

datatype component =
    CNone | CNode nat | CText bytes | CBytes bytes | CInteger bytes | CEnum bytes
  | CSet "nat list" | CSequence "nat list"

type_synonym node_row = "nat \<times> component list"

fun component_kind :: "component \<Rightarrow> nat" where
  "component_kind CNone = COMPONENT_NONE"
| "component_kind (CNode _) = COMPONENT_NODE"
| "component_kind (CText _) = COMPONENT_TEXT"
| "component_kind (CBytes _) = COMPONENT_BYTES"
| "component_kind (CInteger _) = COMPONENT_INTEGER"
| "component_kind (CEnum _) = COMPONENT_ENUM"
| "component_kind (CSet _) = COMPONENT_SET"
| "component_kind (CSequence _) = COMPONENT_SEQUENCE"

fun component_scalars :: "component \<Rightarrow> bytes" where
  "component_scalars (CText b) = b"
| "component_scalars (CBytes b) = b"
| "component_scalars (CInteger b) = b"
| "component_scalars (CEnum b) = b"
| "component_scalars _ = []"

fun component_items :: "component \<Rightarrow> nat list" where
  "component_items (CSet ns) = ns"
| "component_items (CSequence ns) = ns"
| "component_items _ = []"

text \<open>The (value, length) pair of a field, given the item and scalar cursors before it.\<close>

fun field_pair :: "nat \<Rightarrow> nat \<Rightarrow> component \<Rightarrow> nat \<times> nat" where
  "field_pair items scalars CNone = (0, 0)"
| "field_pair items scalars (CNode n) = (n, 0)"
| "field_pair items scalars (CSet ns) = (items, length ns)"
| "field_pair items scalars (CSequence ns) = (items, length ns)"
| "field_pair items scalars f = (scalars, length (component_scalars f))"

fun field_pairs :: "nat \<Rightarrow> nat \<Rightarrow> component list \<Rightarrow> (nat \<times> nat) list" where
  "field_pairs items scalars [] = []"
| "field_pairs items scalars (f # fs) = field_pair items scalars f #
     field_pairs (items + length (component_items f)) (scalars + length (component_scalars f)) fs"

fun field_offsets :: "nat \<Rightarrow> node_row list \<Rightarrow> nat list" where
  "field_offsets k [] = [k]"
| "field_offsets k (n # ns) = k # field_offsets (k + length (snd n)) ns"

definition encode_column :: "nat \<Rightarrow> nat list \<Rightarrow> bytes" where
  "encode_column width rows = concat (map (le_bytes width) rows)"

definition encode_table :: "(nat \<Rightarrow> nat list) \<Rightarrow> node_row list \<Rightarrow> (nat \<times> nat) list \<Rightarrow> direct_columns" where
  "encode_table lower nodes roots =
     (let fields = concat (map snd nodes);
          items = concat (map component_items fields);
          pairs = field_pairs 0 0 fields in
      from_ordered lower
        [map (\<lambda>r. char_of (fst r)) roots, encode_column 4 (map snd roots),
         encode_column 2 (map fst nodes), encode_column 8 (field_offsets 0 nodes),
         map (\<lambda>f. char_of (component_kind f)) fields,
         encode_column 8 (map fst pairs), encode_column 8 (map snd pairs),
         map (\<lambda>_. char_of COMPONENT_NODE) items, encode_column 8 items,
         encode_column 8 (map (\<lambda>_. 0) items),
         concat (map component_scalars fields)])"

section \<open>Reading an encoded table\<close>

named_theorems table_eval \<open>evaluation of the readers on encoded tables\<close>

lemma read_encode_column [table_eval]:
  assumes "fits (length rows * 8)"
  shows "(\<forall>n \<in> set rows. n < 2 ^ 16) \<Longrightarrow> read_u16 (encode_column 2 rows) i = ok_or Malformed (get_at rows i)"
    and "(\<forall>n \<in> set rows. n < 2 ^ 32) \<Longrightarrow> read_u32 (encode_column 4 rows) i = ok_or Malformed (get_at rows i)"
    and "(\<forall>n \<in> set rows. n < 2 ^ 64) \<Longrightarrow> read_usize (encode_column 8 rows) i = ok_or Malformed (get_at rows i)"
  using read_encoded [of 2 rows i] read_encoded [of 4 rows i] read_encoded [of 8 rows i] assms
  by (simp_all add: read_u16_def read_u32_def read_usize_def encode_column_def)

lemma length_encode_column [table_eval]: "length (encode_column w rows) = length rows * w"
  by (simp add: encode_column_def length_concat_le_bytes)

lemma column_encode_column [table_eval]:
  "0 < w \<Longrightarrow> \<forall>n \<in> set rows. n < 256 ^ w \<Longrightarrow> column w (encode_column w rows) = rows"
  by (simp add: encode_column_def column_encode)

lemma encode_table_sel [table_eval]:
  "root_kinds (encode_table l ns rs) = map (\<lambda>r. char_of (fst r)) rs"
  "root_ids (encode_table l ns rs) = encode_column 4 (map snd rs)"
  "included_root_ids (encode_table l ns rs) = []"
  "excluded_root_ids (encode_table l ns rs) = []"
  "anonymous_scope_map (encode_table l ns rs) = []"
  "anonymous_scope_map_chain (encode_table l ns rs) = None"
  "node_tags (encode_table l ns rs) = encode_column 2 (map fst ns)"
  "node_field_offsets (encode_table l ns rs) = encode_column 8 (field_offsets 0 ns)"
  "field_kinds (encode_table l ns rs) = map (\<lambda>f. char_of (component_kind f)) (concat (map snd ns))"
  "field_values (encode_table l ns rs) = encode_column 8 (map fst (field_pairs 0 0 (concat (map snd ns))))"
  "field_lengths (encode_table l ns rs) = encode_column 8 (map snd (field_pairs 0 0 (concat (map snd ns))))"
  "item_kinds (encode_table l ns rs) =
     map (\<lambda>_. char_of COMPONENT_NODE) (concat (map component_items (concat (map snd ns))))"
  "item_values (encode_table l ns rs) = encode_column 8 (concat (map component_items (concat (map snd ns))))"
  "item_lengths (encode_table l ns rs) =
     encode_column 8 (map (\<lambda>_. 0) (concat (map component_items (concat (map snd ns)))))"
  "scalar_bytes (encode_table l ns rs) = concat (map component_scalars (concat (map snd ns)))"
  "to_lowercase (encode_table l ns rs) = l"
  by (simp_all add: encode_table_def from_ordered_def Let_def)

lemmas reader_defs [table_eval] = root_kind_def root_count_def root_id_def read_u8_def node_count_def field_count_def item_count_def
  checked_node_id_def node_tag_def field_range_def exact_fields_def field_kind_def field_value_def
  field_length_def field_node_def item_node_def collection_range_def node_set_range_def
  node_sequence_range_def expect_tag_def each_item_def scalar_payload_def canonical_integer_def
  iri_def entity_def validate_anonymous_individual_def checked_add_def checked_mul_def checked_sub_def
  get_range_def get_at_def fits_def

section \<open>A table with two anonymous individuals\<close>

definition anonymous_table :: direct_columns where
  "anonymous_table = encode_table (\<lambda>ch. [ch])
     [(TAG_ANONYMOUS_INDIVIDUAL, [CBytes (replicate 32 (CHR ''s'')), CBytes ''zz'']),
      (TAG_ANONYMOUS_INDIVIDUAL, [CBytes (replicate 32 (CHR ''s'')), CBytes ''aaa''])] []"

lemma anonymous_table_parts:
  "anonymous_parts anonymous_table 1 = Inr (replicate 32 (CHR ''s''), ''zz'')"
  "anonymous_parts anonymous_table 2 = Inr (replicate 32 (CHR ''s''), ''aaa'')"
  by (simp_all add: anonymous_table_def anonymous_parts_def remap_anonymous_scope_def scope_map_count_def table_eval)

text \<open>The key of two bytes precedes the key of three, although it is the greater byte string.\<close>

theorem anonymous_order_total_witness:
  "compare_anonymous_nodes anonymous_table 1 2 = Inr Less \<and> compare_anonymous_nodes anonymous_table 1 1 = Inr Equal"
  using anonymous_order_total [OF anonymous_table_parts] anonymous_order_total [OF anonymous_table_parts(1) anonymous_table_parts(1)]
  by (simp add: varint_encode.simps cmp_def)

end
