(* ===== verification/Generic_Validation.thy ===== *)
theory Generic_Validation
  imports Columns Table_Encoding
begin

text \<open>
  \<open>validate_generic\<close>, the first pass over an untrusted table: row widths, column lengths,
  monotone field offsets, canonical roots, sorted postings and scope maps, and item and
  scalar ranges that tile their arenas. The loops of the source are folds over the index
  ranges, in the source's order.

  The main property says what success buys: every reader used later stays in bounds, root
  selection and scope remapping meet the preconditions of their correctness theorems.
\<close>

section \<open>The validator\<close>

definition validate_leaf :: "direct_columns \<Rightarrow> nat \<Rightarrow> usize \<Rightarrow> usize \<Rightarrow> usize \<Rightarrow> usize kres" where
  "validate_leaf c kind v len scalar_cursor =
     (if kind = COMPONENT_NONE then
        (if v \<noteq> 0 \<or> len \<noteq> 0 then Inl Malformed else Inr scalar_cursor)
      else if kind = COMPONENT_NODE then
        (if len \<noteq> 0 then Inl Malformed else seq (checked_node_id c v) (Inr scalar_cursor))
      else if kind \<in> {COMPONENT_TEXT, COMPONENT_BYTES, COMPONENT_INTEGER, COMPONENT_ENUM} then
        (if v \<noteq> scalar_cursor \<or> len > length (scalar_bytes c) - scalar_cursor then Inl Malformed
         else Inr (scalar_cursor + len))
      else Inl Malformed)"

definition validate_widths :: "direct_columns \<Rightarrow> unit kres" where
  "validate_widths c = for_each (\<lambda>(width, buffer). reject_if (length buffer mod width \<noteq> 0) Malformed)
     [(4, root_ids c), (4, included_root_ids c), (4, excluded_root_ids c), (2, node_tags c),
      (8, node_field_offsets c), (8, field_values c), (8, field_lengths c), (8, item_values c),
      (8, item_lengths c)]"

definition validate_scope_widths :: "direct_columns \<Rightarrow> unit kres" where
  "validate_scope_widths c = for_each (\<lambda>map_index.
     bnd (ok_or Malformed (scope_map_at c map_index)) (\<lambda>scope_map.
     reject_if (length scope_map mod 64 \<noteq> 0) Malformed)) [0 ..< scope_map_count c]"

definition validate_scope_row :: "nat \<Rightarrow> bytes \<Rightarrow> nat \<Rightarrow> bytes option \<times> usize \<Rightarrow> (bytes option \<times> usize) kres" where
  "validate_scope_row st scope_map row s =
     (case s of (previous, checked_rows) \<Rightarrow>
      seq (check_cancel st checked_rows) (
      bnd (ok_or Resource (checked_add checked_rows 1)) (\<lambda>checked'.
      let source = take 32 (drop (row * 64) scope_map);
          target = take 32 (drop (row * 64 + 32) scope_map) in
      if source = target then Inl Malformed else
      if (case previous of None \<Rightarrow> False | Some p \<Rightarrow> source \<le> p) then Inl Malformed
      else Inr (Some source, checked'))))"

definition validate_scope_maps :: "direct_columns \<Rightarrow> nat \<Rightarrow> unit kres" where
  "validate_scope_maps c st = discard (fold_res (\<lambda>map_index checked_rows.
     bnd (ok_or Malformed (scope_map_at c map_index)) (\<lambda>scope_map.
     map_res snd (fold_res (validate_scope_row st scope_map) [0 ..< length scope_map div 64]
       (None, checked_rows)))) [0 ..< scope_map_count c] 0)"

definition validate_offsets :: "direct_columns \<Rightarrow> nat \<Rightarrow> unit kres" where
  "validate_offsets c st =
     bnd (fold_res (\<lambda>index previous.
       seq (check_cancel st index) (
       bnd (read_usize (node_field_offsets c) index) (\<lambda>offset.
       if (index = 0 \<and> offset \<noteq> 0) \<or> offset < previous \<or> offset > field_count c
       then Inl Malformed else Inr offset))) [0 ..< node_count c + 1] 0) (\<lambda>previous.
     reject_if (previous \<noteq> field_count c) Malformed)"

definition validate_roots :: "direct_columns \<Rightarrow> nat \<Rightarrow> unit kres" where
  "validate_roots c st = discard (fold_res (\<lambda>index previous.
     seq (check_cancel st index) (
     bnd (root_kind c index) (\<lambda>kind.
     if kind \<notin> {ROOT_ONTOLOGY_ANNOTATION, ROOT_AXIOM, ROOT_EXTENSION} then Inl Malformed else
     bnd (root_id c index) (\<lambda>node_id.
     if (case previous of None \<Rightarrow> False | Some p \<Rightarrow> (kind, node_id) \<le> p) then Inl Malformed
     else Inr (Some (kind, node_id)))))) [0 ..< root_count c] None)"

definition validate_postings :: "direct_columns \<Rightarrow> nat \<Rightarrow> (usize \<Rightarrow> usize kres) \<Rightarrow> usize \<Rightarrow> usize \<Rightarrow> unit kres" where
  "validate_postings c st position base len = discard (fold_res (\<lambda>index previous.
     seq (check_cancel st (base + index)) (
     bnd (position index) (\<lambda>root_position.
     if root_position \<le> previous \<or> root_position > root_count c then Inl Malformed
     else Inr root_position))) [0 ..< len] 0)"

definition validate_item :: "direct_columns \<Rightarrow> nat \<Rightarrow> usize \<Rightarrow> usize \<times> usize \<Rightarrow> (usize \<times> usize) kres" where
  "validate_item c kind item_index s =
     (case s of (previous_set_node, scalar_cursor) \<Rightarrow>
      bnd (load (item_kinds c) item_index) (\<lambda>item_byte.
      let item_kind = of_char item_byte in
      if kind = COMPONENT_SET \<and> item_kind \<noteq> COMPONENT_NODE then Inl Malformed else
      bnd (if kind = COMPONENT_SET then
             bnd (read_usize (item_values c) item_index) (\<lambda>node_id.
             seq (checked_node_id c node_id) (
             if node_id \<le> previous_set_node then Inl Malformed else Inr node_id))
           else Inr previous_set_node) (\<lambda>previous'.
      bnd (read_usize (item_values c) item_index) (\<lambda>v.
      bnd (read_usize (item_lengths c) item_index) (\<lambda>len.
      map_res (\<lambda>cursor. (previous', cursor)) (validate_leaf c item_kind v len scalar_cursor))))))"

definition validate_field :: "direct_columns \<Rightarrow> nat \<Rightarrow> usize \<Rightarrow> usize \<times> usize \<Rightarrow> (usize \<times> usize) kres" where
  "validate_field c st index s =
     (case s of (item_cursor, scalar_cursor) \<Rightarrow>
      seq (check_cancel st index) (
      bnd (field_kind c index) (\<lambda>kind.
      bnd (field_value c index) (\<lambda>v.
      bnd (field_length c index) (\<lambda>len.
      if kind = COMPONENT_SET \<or> kind = COMPONENT_SEQUENCE then
        (if v \<noteq> item_cursor \<or> len > item_count c - item_cursor then Inl Malformed else
         bnd (fold_res (validate_item c kind) [item_cursor ..< item_cursor + len] (0, scalar_cursor))
           (\<lambda>(previous, cursor). Inr (item_cursor + len, cursor)))
      else map_res (\<lambda>cursor. (item_cursor, cursor)) (validate_leaf c kind v len scalar_cursor))))))"

definition validate_fields :: "direct_columns \<Rightarrow> nat \<Rightarrow> unit kres" where
  "validate_fields c st =
     bnd (fold_res (validate_field c st) [0 ..< field_count c] (0, 0)) (\<lambda>(item_cursor, scalar_cursor).
     seq (reject_if (item_cursor \<noteq> item_count c) Malformed)
       (reject_if (scalar_cursor \<noteq> length (scalar_bytes c)) Malformed))"

definition validate_generic :: "direct_columns \<Rightarrow> nat \<Rightarrow> unit kres" where
  "validate_generic c st =
     seq (validate_widths c) (
     seq (validate_scope_widths c) (
     seq (reject_if (length (root_ids c) div 4 \<noteq> root_count c) Malformed) (
     seq (reject_if (included_root_ids c \<noteq> [] \<and> excluded_root_ids c \<noteq> []) Malformed) (
     seq (validate_scope_maps c st) (
     seq (reject_if (length (node_field_offsets c) div 8 \<noteq> node_count c + 1) Malformed) (
     seq (reject_if (length (field_values c) div 8 \<noteq> field_count c \<or>
                     length (field_lengths c) div 8 \<noteq> field_count c) Malformed) (
     seq (reject_if (length (item_values c) div 8 \<noteq> item_count c \<or>
                     length (item_lengths c) div 8 \<noteq> item_count c) Malformed) (
     seq (validate_offsets c st) (
     seq (validate_roots c st) (
     seq (validate_postings c st (included_root_position c) 0 (length (included_root_ids c) div 4)) (
     seq (validate_postings c st (excluded_root_position c) (length (included_root_ids c) div 4)
            (length (excluded_root_ids c) div 4)) (
     validate_fields c st))))))))))))"

section \<open>What each loop establishes\<close>

definition buffers_fit :: "direct_columns \<Rightarrow> bool" where
  "buffers_fit c \<longleftrightarrow> (\<forall>b \<in> set (included_root_ids c # excluded_root_ids c # scope_maps c @ buffers c). fits (length b))"

lemma buffers_fitD:
  assumes "buffers_fit c"
  shows "fits (length (included_root_ids c))" "fits (length (excluded_root_ids c))"
    "m \<in> set (scope_maps c) \<Longrightarrow> fits (length m)" "fits (length (node_tags c))" "fits (length (root_kinds c))"
    "fits (length (node_field_offsets c))" "fits (length (field_values c))" "fits (length (field_lengths c))"
    "fits (length (item_values c))" "fits (length (item_lengths c))" "fits (length (root_ids c))"
    "fits (length (scalar_bytes c))"
  using assms by (auto simp: buffers_fit_def buffers_def)

lemma nodes_readable:
  assumes "buffers_fit c" and "1 \<le> n" and "n \<le> node_count c"
  shows "\<exists>t. node_tag c n = Inr t"
  using read_row_column [OF buffers_fitD(4) [OF assms(1)], of 2 "n - 1"] assms(2,3)
  by (simp add: node_tag_def checked_node_id_def read_u16_def node_count_def)

lemma offsets_ok:
  assumes "validate_offsets c st = Inr u" and "1 \<le> n" and "n \<le> node_count c"
  shows "\<exists>a b. field_range c n = Inr (a, b)"
proof -
  define f where "f = (\<lambda>index previous.
       seq (check_cancel st index) (
       bnd (read_usize (node_field_offsets c) index) (\<lambda>offset.
       if (index = 0 \<and> offset \<noteq> 0) \<or> offset < previous \<or> offset > field_count c
       then Inl Malformed else Inr offset)))"
  from assms(1) obtain t where "fold_res f [0 ..< node_count c + 1] 0 = Inr t"
    by (auto simp: validate_offsets_def f_def bnd_eq_Inr simp del: upt_Suc)
  from fold_res_trace [OF this] obtain S where
    S: "\<forall>i \<in> {0 ..< node_count c + 1}. f i (S i) = Inr (S (Suc i))" by blast
  have row: "read_usize (node_field_offsets c) i = Inr (S (Suc i)) \<and> S i \<le> S (Suc i) \<and> S (Suc i) \<le> field_count c"
    if "i \<le> node_count c" for i
    using S [rule_format, of i] that by (auto simp: f_def seq_eq_Inr bnd_eq_Inr split: if_splits)
  from row [of "n - 1"] row [of n] assms(2,3) show ?thesis
    by (simp add: field_range_def checked_node_id_def)
qed

lemma ascending_postings:
  assumes "validate_postings c st position base (length ps) = Inr u"
    and "\<And>i. i < length ps \<Longrightarrow> position i = Inr (ps ! i)"
  shows "sorted_wrt (<) ps \<and> (\<forall>p \<in> set ps. 1 \<le> p \<and> p \<le> root_count c)"
proof -
  define f where "f = (\<lambda>index previous. seq (check_cancel st (base + index)) (
     bnd (position index) (\<lambda>root_position.
     if root_position \<le> previous \<or> root_position > root_count c then Inl Malformed
     else Inr root_position)))"
  from assms(1) obtain t where "fold_res f [0 ..< length ps] 0 = Inr t"
    by (auto simp: validate_postings_def f_def discard_eq_Inr)
  from fold_res_trace [OF this] obtain S where S: "\<forall>i \<in> {0 ..< length ps}. f i (S i) = Inr (S (Suc i))" by auto
  have row: "S (Suc i) = ps ! i \<and> S i < ps ! i \<and> ps ! i \<le> root_count c" if "i < length ps" for i
    using S [rule_format, of i] that assms(2) by (auto simp: f_def seq_eq_Inr bnd_eq_Inr split: if_splits)
  have "ps ! i < ps ! Suc i" if "Suc i < length ps" for i
    using row [of i] row [of "Suc i"] that by simp
  then have "sorted_wrt (<) ps" by (simp add: sorted_wrt_iff_nth_Suc_transp)
  moreover have "1 \<le> p \<and> p \<le> root_count c" if "p \<in> set ps" for p
  proof -
    from that obtain i where "i < length ps" "ps ! i = p" by (auto simp: in_set_conv_nth)
    with row [of i] show ?thesis by auto
  qed
  ultimately show ?thesis by blast
qed

lemma postings_ok:
  assumes "validate_generic c st = Inr u" and "buffers_fit c"
  shows "sorted_wrt (<) (postings c) \<and> (\<forall>p \<in> set (postings c). 1 \<le> p \<and> p \<le> root_count c)"
proof (cases "included_root_ids c = []")
  case True
  from assms(1) have v: "validate_postings c st (excluded_root_position c) (length (included_root_ids c) div 4)
      (length (column 4 (excluded_root_ids c))) = Inr ()"
    by (simp add: validate_generic_def seq_eq_Inr)
  from ascending_postings [OF v] True read_u32_column [OF buffers_fitD(2) [OF assms(2)]] show ?thesis
    by (simp add: postings_def excluded_root_position_def)
next
  case False
  from assms(1) have v: "validate_postings c st (included_root_position c) 0
      (length (column 4 (included_root_ids c))) = Inr ()"
    by (simp add: validate_generic_def seq_eq_Inr)
  from ascending_postings [OF v] False read_u32_column [OF buffers_fitD(1) [OF assms(2)]] show ?thesis
    by (simp add: postings_def included_root_position_def)
qed

lemma scope_rows_ascending:
  assumes "fold_res (validate_scope_row st m) [0 ..< length m div 64] (None, k) = Inr r"
  shows "sorted_wrt (<) (map fst (scope_rows m))"
proof -
  from fold_res_trace [OF assms] obtain S where S0: "S 0 = (None, k)"
    and S: "\<forall>i \<in> {0 ..< length m div 64}. validate_scope_row st m i (S i) = Inr (S (Suc i))" by auto
  let ?src = "\<lambda>i. take 32 (drop (i * 64) m)"
  have row: "fst (S (Suc i)) = Some (?src i) \<and> (case fst (S i) of None \<Rightarrow> True | Some p \<Rightarrow> p < ?src i)"
    if "i < length m div 64" for i
    using S [rule_format, of i] that
    by (auto simp: validate_scope_row_def seq_eq_Inr bnd_eq_Inr Let_def not_le split: prod.splits if_splits option.splits)
      (metis fst_conv)+
  have "?src i < ?src (Suc i)" if "Suc i < length m div 64" for i
    using row [of i] row [of "Suc i"] that by simp
  then show ?thesis by (auto simp: sorted_wrt_iff_nth_Suc_transp scope_rows_def)
qed

lemma scope_maps_ok:
  assumes "validate_scope_maps c st = Inr u" and "m \<in> set (scope_maps c)"
  shows "sorted_wrt (<) (map fst (scope_rows m))"
proof -
  define f where "f = (\<lambda>map_index checked_rows.
     bnd (ok_or Malformed (scope_map_at c map_index)) (\<lambda>scope_map.
     map_res snd (fold_res (validate_scope_row st scope_map) [0 ..< length scope_map div 64]
       (None, checked_rows))))"
  from assms(1) obtain t where "fold_res f [0 ..< scope_map_count c] 0 = Inr t"
    by (auto simp: validate_scope_maps_def f_def discard_eq_Inr)
  from fold_res_trace [OF this] obtain S where
    S: "\<forall>i \<in> {0 ..< scope_map_count c}. f i (S i) = Inr (S (Suc i))" by auto
  from assms(2) obtain i where i: "i < scope_map_count c" "scope_maps c ! i = m"
    by (auto simp: in_set_conv_nth scope_map_count_length)
  with S [rule_format, of i] obtain r where
    "fold_res (validate_scope_row st m) [0 ..< length m div 64] (None, S i) = Inr r"
    by (auto simp: f_def scope_map_at_nth bnd_eq_Inr map_res_eq_Inr)
  then show ?thesis by (rule scope_rows_ascending)
qed

text \<open>
  What an accepted cell holds, by its kind: nothing, a reference to a node, or a range of the
  scalar bytes. No other kind is accepted outside a collection.
\<close>

definition scalar_kind :: "nat \<Rightarrow> bool" where
  "scalar_kind kind \<longleftrightarrow> kind \<in> {COMPONENT_TEXT, COMPONENT_BYTES, COMPONENT_INTEGER, COMPONENT_ENUM}"

definition cell_ok :: "direct_columns \<Rightarrow> nat \<Rightarrow> usize \<Rightarrow> usize \<Rightarrow> bool" where
  "cell_ok c kind v len \<longleftrightarrow> (kind = COMPONENT_NONE \<and> v = 0 \<and> len = 0) \<or>
     (kind = COMPONENT_NODE \<and> len = 0 \<and> 1 \<le> v \<and> v \<le> node_count c) \<or>
     (scalar_kind kind \<and> v + len \<le> length (scalar_bytes c))"

definition item_ok :: "direct_columns \<Rightarrow> usize \<Rightarrow> bool" where
  "item_ok c i \<longleftrightarrow> (\<exists>kind v len. read_u8 (item_kinds c) i = Inr kind \<and> read_usize (item_values c) i = Inr v \<and>
     read_usize (item_lengths c) i = Inr len \<and> cell_ok c kind v len \<and>
     (kind = COMPONENT_NODE \<longrightarrow> item_node c i = Inr v))"

text \<open>
  A field the first pass accepted: its three cells can be read; a node field refers to a node; a
  scalar field reads its own bytes; a collection is a range of the item table with readable items,
  and a set consists of nodes in ascending order.
\<close>

definition field_ok :: "direct_columns \<Rightarrow> usize \<Rightarrow> bool" where
  "field_ok c f \<longleftrightarrow> (\<exists>kind v len. field_kind c f = Inr kind \<and> field_value c f = Inr v \<and> field_length c f = Inr len \<and>
     (kind = COMPONENT_NODE \<longrightarrow> field_node c f = Inr v) \<and>
     (scalar_kind kind \<longrightarrow> scalar_payload c f kind = Inr (take len (drop v (scalar_bytes c)))) \<and>
     (if kind = COMPONENT_SET \<or> kind = COMPONENT_SEQUENCE
      then v + len \<le> item_count c \<and> (\<forall>i \<in> {v ..< v + len}. item_ok c i) \<and>
        (kind = COMPONENT_SET \<longrightarrow> (\<exists>ids. length ids = len \<and> sorted_wrt (<) ids \<and>
          (\<forall>k < len. item_node c (v + k) = Inr (ids ! k))))
      else cell_ok c kind v len))"

lemma field_ok_nodes:
  assumes "field_ok c f"
  shows "\<exists>kind v len. field_kind c f = Inr kind \<and> field_value c f = Inr v \<and> field_length c f = Inr len \<and>
     (kind = COMPONENT_NODE \<longrightarrow> field_node c f = Inr v) \<and>
     (kind = COMPONENT_SET \<or> kind = COMPONENT_SEQUENCE \<longrightarrow> v + len \<le> item_count c \<and>
        (\<forall>i \<in> {v ..< v + len}. item_kinds c ! i = char_of COMPONENT_NODE \<longrightarrow> (\<exists>n. item_node c i = Inr n)))"
proof -
  have "item_kinds c ! i = char_of COMPONENT_NODE \<longrightarrow> (\<exists>n. item_node c i = Inr n)" if "item_ok c i" for i
    using that by (auto simp: item_ok_def read_u8_def res_simps)
  with assms show ?thesis by (auto simp: field_ok_def)
qed

lemma validate_leaf_ok:
  assumes "validate_leaf c kind v len cur = Inr cur'" and "cur \<le> length (scalar_bytes c)"
  shows "cell_ok c kind v len" and "cur' \<le> length (scalar_bytes c)"
    and "kind \<noteq> COMPONENT_SET \<and> kind \<noteq> COMPONENT_SEQUENCE"
  using assms by (auto simp: validate_leaf_def cell_ok_def scalar_kind_def seq_eq_Inr checked_node_id_Inr split: if_splits)

lemma validate_item_ok:
  assumes "validate_item c kind i s = Inr s'" and "snd s \<le> length (scalar_bytes c)"
  shows "item_ok c i" and "snd s' \<le> length (scalar_bytes c)"
    and "kind = COMPONENT_SET \<Longrightarrow> item_node c i = Inr (fst s') \<and> fst s < fst s'"
proof -
  obtain p cur where s: "s = (p, cur)" by (cases s)
  from assms(1) obtain item v len cur' where k: "read_u8 (item_kinds c) i = Inr item"
    and r: "read_usize (item_values c) i = Inr v" "read_usize (item_lengths c) i = Inr len"
    and leaf: "validate_leaf c item v len cur = Inr cur'" and cur': "snd s' = cur'"
    and set: "kind = COMPONENT_SET \<Longrightarrow> item = COMPONENT_NODE \<and> fst s' = v \<and> p < v"
    by (auto simp: validate_item_def s bnd_eq_Inr seq_eq_Inr load_eq_Inr map_res_eq_Inr Let_def read_u8_def res_simps
        split: if_splits)
  note ok = validate_leaf_ok [OF leaf, unfolded s]
  from assms(2) have cur: "cur \<le> length (scalar_bytes c)" by (simp add: s)
  have node: "item = COMPONENT_NODE \<Longrightarrow> item_node c i = Inr v"
    using k r ok(1) [OF cur] by (auto simp: item_node_def cell_ok_def scalar_kind_def checked_node_id_def)
  with k r ok(1) [OF cur] show "item_ok c i" by (auto simp: item_ok_def)
  show "snd s' \<le> length (scalar_bytes c)" using ok(2) [OF cur] cur' by simp
  show "item_node c i = Inr (fst s') \<and> fst s < fst s'" if "kind = COMPONENT_SET" using set [OF that] node s by simp
qed

lemma validate_items_ok:
  assumes "fold_res (validate_item c kind) [a ..< a + len] (0, cur) = Inr t" and "cur \<le> length (scalar_bytes c)"
  shows "\<forall>i \<in> {a ..< a + len}. item_ok c i" and "snd t \<le> length (scalar_bytes c)"
    and "kind = COMPONENT_SET \<Longrightarrow>
      \<exists>ids. length ids = len \<and> sorted_wrt (<) ids \<and> (\<forall>k < len. item_node c (a + k) = Inr (ids ! k))"
proof -
  from fold_res_trace [OF assms(1)] obtain S where S0: "S a = (0, cur)" and St: "S (a + len) = t"
    and S: "\<forall>i \<in> {a ..< a + len}. validate_item c kind i (S i) = Inr (S (Suc i))" by auto
  have cursor: "snd (S (a + k)) \<le> length (scalar_bytes c)" if "k \<le> len" for k
    using that
  proof (induction k)
    case (Suc k)
    with S validate_item_ok(2) [of c kind "a + k" "S (a + k)" "S (Suc (a + k))"] show ?case by simp
  qed (simp add: S0 assms(2))
  have item: "item_ok c (a + k) \<and> (kind = COMPONENT_SET \<longrightarrow> item_node c (a + k) = Inr (fst (S (Suc (a + k)))) \<and>
      fst (S (a + k)) < fst (S (Suc (a + k))))" if "k < len" for k
  proof -
    from S that have v: "validate_item c kind (a + k) (S (a + k)) = Inr (S (Suc (a + k)))" by simp
    from validate_item_ok [OF v cursor] that show ?thesis by simp
  qed
  show "\<forall>i \<in> {a ..< a + len}. item_ok c i"
  proof
    fix i assume "i \<in> {a ..< a + len}"
    with item [of "i - a"] show "item_ok c i" by auto
  qed
  show "snd t \<le> length (scalar_bytes c)" using cursor [of len] St by simp
  assume set: "kind = COMPONENT_SET"
  let ?ids = "map (\<lambda>k. fst (S (Suc (a + k)))) [0 ..< len]"
  have "fst (S (Suc (a + k))) < fst (S (Suc (Suc (a + k))))" if "Suc k < len" for k
    using item [of "Suc k"] that set by simp
  then have "sorted_wrt (<) ?ids" by (simp add: sorted_wrt_iff_nth_Suc_transp)
  moreover have "\<forall>k < len. item_node c (a + k) = Inr (?ids ! k)" using item set by simp
  ultimately show "\<exists>ids. length ids = len \<and> sorted_wrt (<) ids \<and> (\<forall>k < len. item_node c (a + k) = Inr (ids ! k))"
    by (intro exI [of _ ?ids]) simp
qed

lemma scalar_payload_ok:
  assumes "field_kind c f = Inr kind" and "field_value c f = Inr v" and "field_length c f = Inr len"
    and "v + len \<le> length (scalar_bytes c)" and "fits (length (scalar_bytes c))"
  shows "scalar_payload c f kind = Inr (take len (drop v (scalar_bytes c)))"
proof -
  from assms(4,5) have "fits (v + len)" by (rule fits_mono)
  with assms show ?thesis by (simp add: scalar_payload_def checked_add_def get_range_def)
qed

lemma validate_field_ok:
  assumes "validate_field c st f (ic, sc) = Inr s'" and "ic \<le> item_count c" and "sc \<le> length (scalar_bytes c)"
    and "fits (length (scalar_bytes c))"
  shows "field_ok c f" and "fst s' \<le> item_count c \<and> snd s' \<le> length (scalar_bytes c)"
proof -
  from assms(1) obtain kind v len where r: "field_kind c f = Inr kind" "field_value c f = Inr v"
      "field_length c f = Inr len"
    and body: "(if kind = COMPONENT_SET \<or> kind = COMPONENT_SEQUENCE then
        (if v \<noteq> ic \<or> len > item_count c - ic then Inl Malformed else
         bnd (fold_res (validate_item c kind) [ic ..< ic + len] (0, sc))
           (\<lambda>(previous, cursor). Inr (ic + len, cursor)))
      else map_res (\<lambda>cursor. (ic, cursor)) (validate_leaf c kind v len sc)) = Inr s'"
    by (auto simp: validate_field_def seq_eq_Inr bnd_eq_Inr)
  have "field_ok c f \<and> fst s' \<le> item_count c \<and> snd s' \<le> length (scalar_bytes c)"
  proof (cases "kind = COMPONENT_SET \<or> kind = COMPONENT_SEQUENCE")
    case True
    with body obtain t where v: "v = ic" "len \<le> item_count c - ic"
      and t: "fold_res (validate_item c kind) [ic ..< ic + len] (0, sc) = Inr t" and s': "s' = (ic + len, snd t)"
      by (auto simp: bnd_eq_Inr split: if_splits)
    note items = validate_items_ok [OF t assms(3)]
    from True have "kind \<noteq> COMPONENT_NODE" "\<not> scalar_kind kind" by (auto simp: scalar_kind_def)
    with r v True items assms(2) s' show ?thesis by (auto simp: field_ok_def)
  next
    case False
    with body obtain sc' where leaf: "validate_leaf c kind v len sc = Inr sc'" and s': "s' = (ic, sc')"
      by (auto simp: map_res_eq_Inr)
    note ok = validate_leaf_ok [OF leaf assms(3)]
    have "scalar_payload c f kind = Inr (take len (drop v (scalar_bytes c)))" if "scalar_kind kind"
      using ok(1) that scalar_payload_ok [OF r _ assms(4)] by (auto simp: cell_ok_def scalar_kind_def)
    moreover have "field_node c f = Inr v" if "kind = COMPONENT_NODE"
      using ok(1) that r by (auto simp: cell_ok_def scalar_kind_def field_node_def checked_node_id_def)
    ultimately show ?thesis using r False ok assms(2) s' by (auto simp: field_ok_def)
  qed
  then show "field_ok c f" and "fst s' \<le> item_count c \<and> snd s' \<le> length (scalar_bytes c)" by blast+
qed

lemma fields_ok:
  assumes "validate_fields c st = Inr u" and "fits (length (scalar_bytes c))" and "f < field_count c"
  shows "field_ok c f"
proof -
  from assms(1) obtain t where "fold_res (validate_field c st) [0 ..< field_count c] (0, 0) = Inr t"
    by (auto simp: validate_fields_def bnd_eq_Inr)
  from fold_res_trace [OF this] obtain S where S0: "S 0 = (0, 0)"
    and S: "\<forall>i \<in> {0 ..< field_count c}. validate_field c st i (S i) = Inr (S (Suc i))" by auto
  have cursors: "fst (S i) \<le> item_count c \<and> snd (S i) \<le> length (scalar_bytes c)" if "i \<le> field_count c" for i
    using that
  proof (induction i)
    case (Suc i)
    with S validate_field_ok(2) [of c st i "fst (S i)" "snd (S i)" "S (Suc i)"] assms(2) show ?case by simp
  qed (simp add: S0)
  from S assms(3) have "validate_field c st f (fst (S f), snd (S f)) = Inr (S (Suc f))" by simp
  with cursors [of f] assms(2,3) show ?thesis by (intro validate_field_ok(1)) auto
qed

lemma roots_ok:
  assumes "validate_roots c st = Inr u"
  shows "\<exists>rows. length rows = root_count c \<and> sorted_wrt (<) rows \<and> (\<forall>i < root_count c.
    root_kind c i = Inr (fst (rows ! i)) \<and> root_id c i = Inr (snd (rows ! i)) \<and>
    fst (rows ! i) \<in> {ROOT_ONTOLOGY_ANNOTATION, ROOT_AXIOM, ROOT_EXTENSION})"
proof -
  define f where "f = (\<lambda>index previous.
     seq (check_cancel st index) (
     bnd (root_kind c index) (\<lambda>kind.
     if kind \<notin> {ROOT_ONTOLOGY_ANNOTATION, ROOT_AXIOM, ROOT_EXTENSION} then Inl Malformed else
     bnd (root_id c index) (\<lambda>node_id.
     if (case previous of None \<Rightarrow> False | Some p \<Rightarrow> (kind, node_id) \<le> p) then Inl Malformed
     else Inr (Some (kind, node_id))))))"
  from assms(1) obtain t where "fold_res f [0 ..< root_count c] None = Inr t"
    unfolding validate_roots_def f_def discard_eq_Inr by blast
  from fold_res_trace [OF this] obtain S where
    S: "\<forall>i \<in> {0 ..< root_count c}. f i (S i) = Inr (S (Suc i))" by auto
  let ?rows = "map (\<lambda>i. the (S (Suc i))) [0 ..< root_count c]"
  have row: "\<exists>k n. S (Suc i) = Some (k, n) \<and> root_kind c i = Inr k \<and> root_id c i = Inr n \<and>
      k \<in> {ROOT_ONTOLOGY_ANNOTATION, ROOT_AXIOM, ROOT_EXTENSION} \<and> (\<forall>p. S i = Some p \<longrightarrow> p < (k, n))"
    if "i < root_count c" for i
    using S [rule_format, of i] that
    by (auto simp: f_def seq_eq_Inr bnd_eq_Inr not_le split: if_splits option.splits)
  have "the (S (Suc i)) < the (S (Suc (Suc i)))" if "Suc i < root_count c" for i
    using row [of i] row [of "Suc i"] that by auto
  then have "sorted_wrt (<) ?rows" by (simp add: sorted_wrt_iff_nth_Suc_transp)
  moreover have "root_kind c i = Inr (fst (?rows ! i)) \<and> root_id c i = Inr (snd (?rows ! i)) \<and>
      fst (?rows ! i) \<in> {ROOT_ONTOLOGY_ANNOTATION, ROOT_AXIOM, ROOT_EXTENSION}" if "i < root_count c" for i
    using row [OF that] that by auto
  ultimately show ?thesis by (intro exI [of _ ?rows]) simp
qed

text \<open>The invariant the first pass establishes and the later components rely on.\<close>

definition well_formed :: "direct_columns \<Rightarrow> bool" where
  "well_formed c \<longleftrightarrow>
     (\<forall>n. 1 \<le> n \<and> n \<le> node_count c \<longrightarrow> (\<exists>t a b. node_tag c n = Inr t \<and> field_range c n = Inr (a, b))) \<and>
     (\<forall>f < field_count c. field_ok c f) \<and>
     (\<forall>i < root_count c. \<exists>k n. root_kind c i = Inr k \<and> root_id c i = Inr n) \<and>
     (\<exists>rows. length rows = root_count c \<and> sorted_wrt (<) rows \<and> (\<forall>i < root_count c.
        root_kind c i = Inr (fst (rows ! i)) \<and> root_id c i = Inr (snd (rows ! i)) \<and>
        fst (rows ! i) \<in> {ROOT_ONTOLOGY_ANNOTATION, ROOT_AXIOM, ROOT_EXTENSION})) \<and>
     (\<forall>i < root_count c. root_is_selected c i = Inr (selected c i)) \<and>
     selected_root_count c = Inr (card {i. i < root_count c \<and> selected c i}) \<and>
     (\<forall>scope. remap_anonymous_scope c scope = Inr (fold remap_row (scope_maps c) scope))"

lemma validate_generic_well_formed:
  assumes v: "validate_generic c st = Inr u" and fit: "buffers_fit c"
  shows "well_formed c"
proof -
  from v have parts: "validate_offsets c st = Inr ()" "validate_fields c st = Inr ()" "validate_roots c st = Inr ()"
    "validate_scope_maps c st = Inr ()"
    by (simp_all add: validate_generic_def seq_eq_Inr)
  note ps = postings_ok [OF v fit]
  have so: "sorted (postings c)" "distinct (postings c)" using ps by (auto simp: strict_sorted_iff)
  have rc: "fits (root_count c)" using buffers_fitD(5) [OF fit] by (simp add: root_count_def)
  have sel: "root_is_selected c i = Inr (selected c i)" if "i < root_count c" for i
    using root_is_selected_spec [OF buffers_fitD(1,2) [OF fit] so(1)] fits_mono [OF _ rc, of "Suc i"] that by simp
  have cnt: "selected_root_count c = Inr (card {i. i < root_count c \<and> selected c i})"
    using selected_card [OF so(2)] ps
    by (simp add: selected_root_count_def checked_sub_def postings_def split: if_splits)
  have maps: "fits (length m) \<and> sorted (map fst (scope_rows m)) \<and> distinct (map fst (scope_rows m))"
    if "m \<in> set (scope_maps c)" for m
    using scope_maps_ok [OF parts(4) that] buffers_fitD(3) [OF fit that] by (auto simp: strict_sorted_iff)
  show ?thesis
    unfolding well_formed_def
    using nodes_readable [OF fit] offsets_ok [OF parts(1)] fields_ok [OF parts(2) buffers_fitD(12) [OF fit]] roots_ok [OF parts(3)] sel cnt
      remap_fold [of c] maps by blast
qed

section \<open>Properties\<close>

text \<open>
  C30: what the first pass over an untrusted table guarantees. If \<open>validate_generic\<close>
  accepts a table (whose buffers have lengths that fit \<open>usize\<close>), then every node has a readable
  tag and a field range inside the field table, and for every field of it the three cells can be read and
  the field is of a known kind: empty; a reference to a node; a text, bytes, integer or enum whose range lies
  in the scalar bytes, so that the reader of that kind returns exactly these bytes; or a collection
  whose range lies in the item table, whose items can be read and are again such cells, and
  which for a set lists nodes in strictly ascending order. Every root can be read, refers to a node,
  has a known kind, and the roots ascend strictly. The bisection over the postings decides
  membership and counts the selected roots, and scope remapping is the composition of the scope
  maps.
\<close>
theorem generic_validation_sound:
  assumes "validate_generic c st = Inr ()" and "buffers_fit c"
  shows "well_formed c \<and> (\<forall>n. 1 \<le> n \<and> n \<le> node_count c \<longrightarrow>
      (\<exists>a b. field_range c n = Inr (a, b) \<and> (\<forall>f \<in> {a ..< b}. field_ok c f)))"
proof (intro conjI allI impI)
  show wf: "well_formed c" using assms by (rule validate_generic_well_formed)
  fix n assume "1 \<le> n \<and> n \<le> node_count c"
  with wf obtain a b where r: "field_range c n = Inr (a, b)" unfolding well_formed_def by blast
  moreover have "field_ok c f" if "f \<in> {a ..< b}" for f
    using field_range_bounds [OF r] that wf by (auto simp: well_formed_def)
  ultimately show "\<exists>a b. field_range c n = Inr (a, b) \<and> (\<forall>f \<in> {a ..< b}. field_ok c f)" by blast
qed

definition two_root_table :: direct_columns where
  "two_root_table = with_excluded_root_ids (encode_table (\<lambda>ch. [ch])
     [(TAG_IRI, [CText ''p'']), (TAG_ENTITY, [CEnum ''class'', CNode 1]),
      (TAG_DECLARATION, [CNode 2, CSet []]), (TAG_EQUIVALENT_CLASSES, [CSet [2, 3], CSet []])]
     [(2, 3), (2, 4)]) (encode_column 4 [2])"

lemmas generic_eval = validate_generic_def validate_widths_def validate_scope_widths_def scope_map_count_def
  validate_scope_maps_def validate_offsets_def validate_roots_def validate_postings_def
  included_root_position_def excluded_root_position_def validate_fields_def validate_field_def
  validate_item_def validate_leaf_def check_cancel_def state_defs load_def upt_rec

lemma two_root_table_accepted: "validate_generic two_root_table STATE_RUNNING = Inr ()"
  by (simp add: two_root_table_def with_excluded_root_ids_def table_eval generic_eval)

lemma two_root_table_fits: "buffers_fit two_root_table"
  by (simp add: buffers_fit_def buffers_def scope_maps_def two_root_table_def with_excluded_root_ids_def table_eval)

theorem generic_validation_sound_witness:
  "well_formed two_root_table \<and> field_range two_root_table 4 = Inr (5, 7) \<and> field_ok two_root_table 6 \<and>
   scalar_payload two_root_table 0 COMPONENT_TEXT = Inr ''p''"
proof -
  have n: "node_count two_root_table = 4" and r: "field_range two_root_table 4 = Inr (5, 7)" "field_range two_root_table 1 = Inr (0, 1)"
    and cells: "field_kind two_root_table 0 = Inr COMPONENT_TEXT" "field_value two_root_table 0 = Inr 0"
      "field_length two_root_table 0 = Inr 1" "take 1 (drop 0 (scalar_bytes two_root_table)) = ''p''"
    by (simp_all add: two_root_table_def with_excluded_root_ids_def table_eval)
  from generic_validation_sound [OF two_root_table_accepted two_root_table_fits]
  have wf: "well_formed two_root_table" and fields: "\<And>k a b f. 1 \<le> k \<Longrightarrow> k \<le> 4 \<Longrightarrow> field_range two_root_table k = Inr (a, b) \<Longrightarrow>
      a \<le> f \<Longrightarrow> f < b \<Longrightarrow> field_ok two_root_table f"
    unfolding n by fastforce+
  from fields [of 4 5 7 6] fields [of 1 0 1 0] r have "field_ok two_root_table 6" "field_ok two_root_table 0" by simp_all
  with wf r cells show ?thesis by (simp add: field_ok_def scalar_kind_def)
qed

end
