(* ===== verification/Graph_Walk.thy ===== *)
theory Graph_Walk
  imports Class_Expressions
begin

text \<open>
  The cycle checks. Hostile columns can forge cyclic annotations, class expressions or data
  ranges; three validators walk the graphs with an explicit stack of enter and exit events
  and three colours (0 new, 1 open, 2 done). The loop they share is \<open>graph_walk\<close>, over the
  validator's own \<open>expand\<close>, which reads the children of a node and queues the new ones.

  \<open>graph_walk\<close> terminates because every entered node loses colour 0 and every other step
  shortens the stack. Locale \<open>coloured_walk\<close> states what a validator's \<open>expand\<close> promises
  and proves that an accepted graph has no cycle, locale \<open>exact_walk\<close> that a cycle is the
  only thing the colours reject.
\<close>

section \<open>The walk\<close>

type_synonym event = "usize \<times> bool"

definition queue_event :: "event list \<Rightarrow> usize \<Rightarrow> bool \<Rightarrow> event list kres" where
  "queue_event stack node_id exiting = Inr ((node_id, exiting) # stack)"

definition push_child :: "nat list \<Rightarrow> usize \<Rightarrow> event list \<Rightarrow> event list kres" where
  "push_child colors child stack =
     bnd (load colors child) (\<lambda>color.
     if color = 1 then Inl Malformed else
     if color = 0 then queue_event stack child False else Inr stack)"

definition fresh :: "nat list \<Rightarrow> nat" where
  "fresh colors = length (filter (\<lambda>k. k \<noteq> 1 \<and> k \<noteq> 2) colors)"

lemma fresh_store_le: "k = 1 \<or> k = 2 \<Longrightarrow> fresh (colors[n := k]) \<le> fresh colors"
  by (induction colors arbitrary: n) (auto simp: fresh_def split: nat.split)

lemma fresh_store_less:
  "n < length colors \<Longrightarrow> colors ! n \<noteq> Suc 0 \<Longrightarrow> colors ! n \<noteq> 2 \<Longrightarrow> fresh (colors[n := Suc 0]) < fresh colors"
proof (induction colors arbitrary: n)
  case (Cons k colors)
  then show ?case by (cases n) (auto simp: fresh_def)
qed simp

function graph_walk :: "nat \<Rightarrow> (usize \<Rightarrow> nat list \<Rightarrow> event list \<Rightarrow> event list kres)
    \<Rightarrow> nat list \<Rightarrow> event list \<Rightarrow> usize \<Rightarrow> (nat list \<times> usize) kres" where
  "graph_walk st expand colors [] work = Inr (colors, work)"
| "graph_walk st expand colors ((node_id, exiting) # rest) work =
     seq (check_cancel st work) (
     bnd (ok_or Resource (checked_add work 1)) (\<lambda>work'.
     if exiting then
       bnd (store colors node_id 2) (\<lambda>colors'. graph_walk st expand colors' rest work')
     else
       bnd (load colors node_id) (\<lambda>color.
       if color = 2 then graph_walk st expand colors rest work' else
       if color = 1 then Inl Malformed else
       bnd (queue_event rest node_id True) (\<lambda>stack.
       bnd (expand node_id (colors[node_id := 1]) stack) (\<lambda>stack'.
       graph_walk st expand (colors[node_id := 1]) stack' work')))))"
  by pat_completeness auto
termination
  by (relation "measures [\<lambda>(st, expand, colors, stack, work). fresh colors,
      \<lambda>(st, expand, colors, stack, work). length stack]")
    (auto simp: load_eq_Inr store_eq_Inr fresh_store_less fresh_store_le le_imp_less_or_eq)

definition walk_all :: "nat \<Rightarrow> direct_columns \<Rightarrow> (nat \<Rightarrow> bool)
    \<Rightarrow> (usize \<Rightarrow> nat list \<Rightarrow> event list \<Rightarrow> event list kres) \<Rightarrow> unit kres" where
  "walk_all st c member expand =
     bnd (ok_or Resource (checked_add (node_count c) 1)) (\<lambda>color_length.
     discard (fold_res (\<lambda>start_id (colors, work).
       bnd (node_tag c start_id) (\<lambda>tag.
       if \<not> member tag then Inr (colors, work) else
       bnd (load colors start_id) (\<lambda>color.
       if color = 2 then Inr (colors, work) else
       bnd (queue_event [] start_id False) (\<lambda>stack.
       graph_walk st expand colors stack work))))
     [1 ..< node_count c + 1] (replicate color_length 0, 0)))"

section \<open>The three validators\<close>

text \<open>The first loop of each validator only looks for a reason to walk.\<close>

definition some_node :: "nat \<Rightarrow> direct_columns \<Rightarrow> (usize \<Rightarrow> bool kres) \<Rightarrow> bool kres" where
  "some_node st c test =
     exists_res (\<lambda>node_id. seq (check_cancel st node_id) (test node_id)) [1 ..< node_count c + 1]"

definition annotation_expand :: "direct_columns \<Rightarrow> usize \<Rightarrow> nat list \<Rightarrow> event list \<Rightarrow> event list kres" where
  "annotation_expand c node_id colors stack =
     bnd (exact_fields c node_id 3) (\<lambda>start.
     bnd (node_set_range c (start + 2) 0) (\<lambda>(item_start, len).
     fold_res (\<lambda>item_index stack.
       bnd (item_node c item_index) (\<lambda>child.
       seq (expect_tag c child TAG_ANNOTATION) (push_child colors child stack)))
     (rev [item_start ..< item_start + len]) stack))"

definition validate_annotation_graph :: "direct_columns \<Rightarrow> nat \<Rightarrow> unit kres" where
  "validate_annotation_graph c st =
     bnd (some_node st c (\<lambda>node_id.
       bnd (node_tag c node_id) (\<lambda>tag.
       if tag \<noteq> TAG_ANNOTATION then Inr False else
       bnd (exact_fields c node_id 3) (\<lambda>start.
       bnd (node_set_range c (start + 2) 0) (\<lambda>(item_start, len). Inr (len \<noteq> 0)))))) (\<lambda>nested.
     if \<not> nested then Inr () else
     walk_all st c (\<lambda>tag. tag = TAG_ANNOTATION) (annotation_expand c))"

definition data_range_expand :: "direct_columns \<Rightarrow> usize \<Rightarrow> usize \<Rightarrow> nat list \<Rightarrow> event list \<Rightarrow> event list kres" where
  "data_range_expand c maximum node_id colors stack =
     bnd (node_tag c node_id) (\<lambda>tag.
     if tag = TAG_DATA_INTERSECTION_OF \<or> tag = TAG_DATA_UNION_OF then
       bnd (exact_fields c node_id 1) (\<lambda>start.
       bnd (node_set_range c start 2) (\<lambda>(item_start, len).
       fold_res (\<lambda>item_index stack.
         bnd (item_node c item_index) (\<lambda>child.
         bnd (node_tag c child) (\<lambda>child_tag.
         if \<not> is_recursive_data_range_tag child_tag
         then seq (validate_data_range_reference c child maximum) (Inr stack)
         else push_child colors child stack)))
       (rev [item_start ..< item_start + len]) stack))
     else if tag = TAG_DATA_COMPLEMENT_OF then
       bnd (exact_fields c node_id 1) (\<lambda>start.
       bnd (field_node c start) (\<lambda>child.
       bnd (node_tag c child) (\<lambda>child_tag.
       if is_recursive_data_range_tag child_tag then push_child colors child stack
       else seq (validate_data_range_reference c child maximum) (Inr stack))))
     else Inl Malformed)"

definition validate_data_range_graph :: "direct_columns \<Rightarrow> usize \<Rightarrow> nat \<Rightarrow> unit kres" where
  "validate_data_range_graph c maximum st =
     bnd (some_node st c (\<lambda>node_id. map_res is_recursive_data_range_tag (node_tag c node_id))) (\<lambda>present.
     if \<not> present then Inr () else
     walk_all st c is_recursive_data_range_tag (data_range_expand c maximum))"

definition recursive_class_single_child :: "direct_columns \<Rightarrow> usize \<Rightarrow> usize option kres" where
  "recursive_class_single_child c node_id =
     bnd (node_tag c node_id) (\<lambda>tag.
     if tag = TAG_OBJECT_COMPLEMENT_OF then
       bnd (exact_fields c node_id 1) (\<lambda>start. map_res Some (field_node c start))
     else if tag = TAG_OBJECT_SOME_VALUES_FROM \<or> tag = TAG_OBJECT_ALL_VALUES_FROM then
       bnd (exact_fields c node_id 2) (\<lambda>start. map_res Some (field_node c (start + 1)))
     else if tag = TAG_OBJECT_MIN_CARDINALITY \<or> tag = TAG_OBJECT_MAX_CARDINALITY
       \<or> tag = TAG_OBJECT_EXACT_CARDINALITY then
       bnd (exact_fields c node_id 3) (\<lambda>start. map_res Some (field_node c (start + 2)))
     else Inr None)"

definition class_expand :: "direct_columns \<Rightarrow> usize \<Rightarrow> nat list \<Rightarrow> event list \<Rightarrow> event list kres" where
  "class_expand c node_id colors stack =
     bnd (node_tag c node_id) (\<lambda>tag.
     if is_aggregate_tag tag then
       bnd (exact_fields c node_id 1) (\<lambda>start.
       bnd (node_set_range c start 2) (\<lambda>(item_start, len).
       fold_res (\<lambda>item_index stack.
         bnd (item_node c item_index) (\<lambda>child.
         bnd (node_tag c child) (\<lambda>child_tag.
         if \<not> is_recursive_class_expression_tag child_tag then Inr stack
         else push_child colors child stack)))
       (rev [item_start ..< item_start + len]) stack))
     else
       bnd (recursive_class_single_child c node_id) (\<lambda>single. case single of
         None \<Rightarrow> Inl Malformed
       | Some child \<Rightarrow>
           bnd (node_tag c child) (\<lambda>child_tag.
           if \<not> is_recursive_class_expression_tag child_tag then Inr stack
           else push_child colors child stack)))"

definition has_recursive_class_edge :: "direct_columns \<Rightarrow> usize \<Rightarrow> bool kres" where
  "has_recursive_class_edge c node_id =
     bnd (node_tag c node_id) (\<lambda>tag.
     if \<not> is_recursive_class_expression_tag tag then Inr False
     else if is_aggregate_tag tag then
       bnd (exact_fields c node_id 1) (\<lambda>start.
       bnd (node_set_range c start 2) (\<lambda>(item_start, len).
       exists_res (\<lambda>item_index.
         bnd (item_node c item_index) (\<lambda>child.
         map_res is_recursive_class_expression_tag (node_tag c child)))
       [item_start ..< item_start + len]))
     else
       bnd (recursive_class_single_child c node_id) (\<lambda>single. case single of
         None \<Rightarrow> Inr False
       | Some child \<Rightarrow> map_res is_recursive_class_expression_tag (node_tag c child)))"

definition validate_recursive_class_expression_graph :: "direct_columns \<Rightarrow> nat \<Rightarrow> unit kres" where
  "validate_recursive_class_expression_graph c st =
     bnd (some_node st c (has_recursive_class_edge c)) (\<lambda>present.
     if \<not> present then Inr () else
     walk_all st c is_recursive_class_expression_tag (class_expand c))"

section \<open>Accepted graphs have no cycle\<close>

locale coloured_walk =
  fixes expand :: "usize \<Rightarrow> nat list \<Rightarrow> event list \<Rightarrow> event list kres"
    and children :: "usize \<Rightarrow> usize set"
  assumes expand_ok: "expand n colors stack = Inr stack' \<Longrightarrow>
    \<exists>pushed. stack' = map (\<lambda>ch. (ch, False)) pushed @ stack \<and> set pushed \<subseteq> children n \<and>
      (\<forall>ch \<in> children n. ch < length colors \<and> colors ! ch \<noteq> 1 \<and> (colors ! ch = 0 \<longrightarrow> ch \<in> set pushed))"
begin

definition graph :: "(usize \<times> usize) set" where
  "graph = {(ch, n). ch \<in> children n}"

definition finished :: "nat list \<Rightarrow> usize \<Rightarrow> bool" where
  "finished colors n \<longleftrightarrow> n < length colors \<and> colors ! n = 2"

fun exits_ok :: "nat list \<Rightarrow> usize set \<Rightarrow> event list \<Rightarrow> bool" where
  "exits_ok colors A [] = True"
| "exits_ok colors A ((n, exiting) # rest) =
     ((exiting \<longrightarrow> (\<forall>ch \<in> children n. finished colors ch \<or> ch \<in> A)) \<and>
      exits_ok colors (insert n A) rest)"

definition walk_inv :: "nat list \<Rightarrow> bool" where
  "walk_inv colors \<longleftrightarrow> (\<forall>k \<in> set colors. k \<le> 2) \<and>
     (\<forall>n. finished colors n \<longrightarrow> n \<in> Wellfounded.acc graph)"

lemma exits_ok_weaken:
  assumes "exits_ok colors A s"
    and "\<And>ch. finished colors ch \<or> ch \<in> A \<Longrightarrow> finished colors' ch \<or> ch \<in> B"
  shows "exits_ok colors' B s"
  using assms
proof (induction colors A s arbitrary: B rule: exits_ok.induct)
  case (2 colors A n exiting rest)
  have "exits_ok colors' (insert n B) rest"
  proof (rule "2.IH")
    show "exits_ok colors (insert n A) rest" using "2.prems"(1) by simp
    fix ch assume "finished colors ch \<or> ch \<in> insert n A"
    then show "finished colors' ch \<or> ch \<in> insert n B" using "2.prems"(2) by auto
  qed
  moreover have "exiting \<longrightarrow> (\<forall>ch \<in> children n. finished colors' ch \<or> ch \<in> B)"
    using "2.prems" by auto
  ultimately show ?case by simp
qed simp

lemma exits_ok_entries:
  "exits_ok colors A (map (\<lambda>ch. (ch, False)) ps @ s) = exits_ok colors (A \<union> set ps) s"
  by (induction ps arbitrary: A) auto

lemma finished_update: "finished (colors[n := k]) m \<longleftrightarrow>
    m < length colors \<and> (if m = n then k = 2 else colors ! m = 2)"
  by (auto simp: finished_def nth_list_update)

lemma walk_inv_open:
  assumes "walk_inv colors" and "colors ! n \<noteq> 2"
  shows "walk_inv (colors[n := 1])"
proof -
  have "\<forall>k \<in> set (colors[n := 1]). k \<le> 2"
    using assms(1) set_update_subset_insert [of colors n 1] by (auto simp: walk_inv_def)
  moreover have "m \<in> Wellfounded.acc graph" if "finished (colors[n := 1]) m" for m
    using that assms by (cases "m = n") (auto simp: walk_inv_def finished_def)
  ultimately show ?thesis by (simp add: walk_inv_def)
qed

lemma walk_inv_close:
  assumes "walk_inv colors" and "n \<in> Wellfounded.acc graph"
  shows "walk_inv (colors[n := 2])"
proof -
  have "\<forall>k \<in> set (colors[n := 2]). k \<le> 2"
    using assms(1) set_update_subset_insert [of colors n 2] by (auto simp: walk_inv_def)
  moreover have "m \<in> Wellfounded.acc graph" if "finished (colors[n := 2]) m" for m
    using that assms by (cases "m = n") (auto simp: walk_inv_def finished_def)
  ultimately show ?thesis by (simp add: walk_inv_def)
qed

lemma enter_ok:
  assumes "expand n (colors[n := 1]) ((n, True) # rest) = Inr stack'" and "walk_inv colors"
    and "exits_ok colors {n} rest" and "colors ! n \<noteq> 2"
  shows "exits_ok (colors[n := 1]) {} stack' \<and> n \<in> fst ` set stack' \<and> set rest \<subseteq> set stack'"
proof -
  let ?cs = "colors[n := 1]"
  from expand_ok [OF assms(1)] obtain ps where
    ps: "stack' = map (\<lambda>ch. (ch, False)) ps @ (n, True) # rest"
    and ch: "\<forall>ch \<in> children n. ch < length ?cs \<and> ?cs ! ch \<noteq> 1 \<and> (?cs ! ch = 0 \<longrightarrow> ch \<in> set ps)" by blast
  have le: "k \<le> 2" if "k \<in> set ?cs" for k
    using walk_inv_open [OF assms(2,4)] that by (simp add: walk_inv_def)
  have "finished ?cs x \<or> x \<in> set ps" if "x \<in> children n" for x
  proof -
    from ch that have x: "x < length ?cs" "?cs ! x \<noteq> 1" "?cs ! x = 0 \<longrightarrow> x \<in> set ps" by auto
    with le [of "?cs ! x"] have "?cs ! x = 0 \<or> ?cs ! x = 2" by (metis nth_mem le_Suc_eq le_zero_eq numeral_2_eq_2 One_nat_def)
    with x show ?thesis by (auto simp: finished_def)
  qed
  moreover have "exits_ok ?cs (insert n (set ps)) rest"
    using assms(4) by (intro exits_ok_weaken [OF assms(3)]) (auto simp: finished_def nth_list_update)
  ultimately show ?thesis by (auto simp: ps exits_ok_entries image_Un)
qed

lemma acc_from_children:
  assumes "\<And>ch. ch \<in> children n \<Longrightarrow> ch \<in> Wellfounded.acc graph"
  shows "n \<in> Wellfounded.acc graph"
proof (rule accI)
  fix y assume "(y, n) \<in> graph"
  then show "y \<in> Wellfounded.acc graph" using assms by (simp add: graph_def)
qed

lemma graph_walk_sound:
  assumes "e = expand" and "graph_walk st e colors stack work = Inr (colors', work')"
    and "walk_inv colors" and "exits_ok colors {} stack"
  shows "walk_inv colors' \<and> length colors' = length colors \<and>
    (\<forall>n. finished colors n \<longrightarrow> finished colors' n) \<and> (\<forall>n \<in> fst ` set stack. finished colors' n)"
  using assms
proof (induction st e colors stack work rule: graph_walk.induct)
  case (1 st e colors work)
  then show ?case by simp
next
  case (2 st e colors n exiting rest work)
  from "2.prems"(2) have w: "check_cancel st work = Inr ()" "ok_or Resource (checked_add work 1) = Inr (work + 1)"
    by (cases "check_cancel st work"; cases "fits (work + 1)"; simp add: checked_add_def)+
  show ?case
  proof (cases exiting)
    case True
    with "2.prems"(2) w have n: "n < length colors" "store colors n 2 = Inr (colors[n := 2])"
      and r: "graph_walk st e (colors[n := 2]) rest (work + 1) = Inr (colors', work')"
      by (simp_all add: bnd_eq_Inr store_eq_Inr)
    from "2.prems"(4) True have ch: "\<forall>ch \<in> children n. finished colors ch"
      and ex: "exits_ok colors {n} rest" by auto
    have "n \<in> Wellfounded.acc graph"
      using ch "2.prems"(3) acc_from_children by (auto simp: walk_inv_def)
    with "2.prems"(3) have "walk_inv (colors[n := 2])" by (rule walk_inv_close)
    moreover have "exits_ok (colors[n := 2]) {} rest"
      using n by (intro exits_ok_weaken [OF ex]) (auto simp: finished_def nth_list_update)
    ultimately have "walk_inv colors' \<and> length colors' = length colors \<and>
      (\<forall>m. finished (colors[n := 2]) m \<longrightarrow> finished colors' m) \<and> (\<forall>m \<in> fst ` set rest. finished colors' m)"
      using "2.IH"(1) [OF w True n(2)] r "2.prems"(1) by simp
    moreover have "finished (colors[n := 2]) n" "\<And>m. finished colors m \<Longrightarrow> finished (colors[n := 2]) m"
      using n by (auto simp: finished_def nth_list_update)
    ultimately show ?thesis by auto
  next
    case entering: False
    with "2.prems"(2) w have n: "n < length colors" by (simp add: bnd_eq_Inr load_eq_Inr)
    then have ld: "load colors n = Inr (colors ! n)" by (simp add: load_def get_at_def)
    from "2.prems"(4) have ex: "exits_ok colors {n} rest" by simp
    show ?thesis
    proof (cases "colors ! n = 2")
      case True
      then have fin: "finished colors n" using n by (simp add: finished_def)
      have "exits_ok colors {} rest" using fin by (intro exits_ok_weaken [OF ex]) auto
      with "2.IH"(2) [OF w entering ld True "2.prems"(1) _ "2.prems"(3)] "2.prems"(2) entering True w ld fin
      show ?thesis by auto
    next
      case False
      with "2.prems"(1,2) w ld entering obtain stack' where ne: "colors ! n \<noteq> 1"
        and e: "expand n (colors[n := 1]) ((n, True) # rest) = Inr stack'"
        and r: "graph_walk st e (colors[n := 1]) stack' (work + 1) = Inr (colors', work')"
        by (auto simp: queue_event_def bnd_eq_Inr split: if_splits)
      note ok = enter_ok [OF e "2.prems"(3) ex False]
      have q: "queue_event rest n True = Inr ((n, True) # rest)" by (simp add: queue_event_def)
      from e "2.prems"(1) have e': "e n (colors[n := 1]) ((n, True) # rest) = Inr stack'" by simp
      from "2.IH"(3) [OF w entering ld False ne q e' "2.prems"(1) r walk_inv_open [OF "2.prems"(3) False]] ok
      have "walk_inv colors' \<and> length colors' = length colors \<and>
        (\<forall>m. finished (colors[n := 1]) m \<longrightarrow> finished colors' m) \<and>
        (\<forall>m \<in> fst ` set stack'. finished colors' m)" by simp
      moreover have "finished (colors[n := 1]) m" if "finished colors m" for m
        using that False by (cases "m = n") (auto simp: finished_def)
      ultimately show ?thesis using ok by auto
    qed
  qed
qed

lemma walk_inv_init: "walk_inv (replicate k 0)"
  by (auto simp: walk_inv_def finished_def)

lemma walk_all_sound:
  assumes "walk_all st c member expand = Inr u" and "node_tag c n = Inr tag" and "member tag"
  shows "n \<in> Wellfounded.acc graph"
proof -
  define visit where "visit = (\<lambda>start_id (colors, work).
       bnd (node_tag c start_id) (\<lambda>tag.
       if \<not> member tag then Inr (colors, work) else
       bnd (load colors start_id) (\<lambda>color.
       if color = 2 then Inr (colors, work) else
       bnd (queue_event [] start_id False) (\<lambda>stack.
       graph_walk st expand colors stack work))))"
  define k where "k = node_count c + 1"
  from assms(1) obtain cs w where run: "fold_res visit [1 ..< k] (replicate k 0, 0) = Inr (cs, w)"
    by (auto simp: walk_all_def visit_def bnd_eq_Inr ok_or_eq_Inr checked_add_eq_Some discard_eq_Inr
        k_def simp del: upt_Suc)
  have step: "walk_inv cs' \<and> (\<forall>m. finished cs m \<longrightarrow> finished cs' m) \<and>
      (\<forall>t. node_tag c i = Inr t \<and> member t \<longrightarrow> finished cs' i)"
    if "visit i (cs, w) = Inr (cs', w')" and inv: "walk_inv cs" for i cs w cs' w'
  proof -
    from that(1) obtain t where t: "node_tag c i = Inr t" by (auto simp: visit_def bnd_eq_Inr)
    have "(\<not> member t \<and> cs' = cs) \<or> (member t \<and> finished cs i \<and> cs' = cs) \<or>
        (member t \<and> graph_walk st expand cs [(i, False)] w = Inr (cs', w'))"
      using that(1) t
      by (simp add: visit_def bnd_eq_Inr load_eq_Inr queue_event_def finished_def
          del: graph_walk.simps split: if_splits)
    then consider "\<not> member t" "cs' = cs" | "member t" "finished cs i" "cs' = cs"
      | "member t" "graph_walk st expand cs [(i, False)] w = Inr (cs', w')" by blast
    then show ?thesis
    proof cases
      case 3
      from graph_walk_sound [OF refl 3(2) inv] show ?thesis by simp
    qed (use t inv in auto)
  qed
  have "walk_inv cs \<and> (\<forall>i \<in> {1 ..< j}. \<forall>t. node_tag c i = Inr t \<and> member t \<longrightarrow> finished cs i)"
    if "fold_res visit [1 ..< j] (replicate k 0, 0) = Inr (cs, w)" for j cs w
    using that
  proof (induction j arbitrary: cs w)
    case 0
    then show ?case using walk_inv_init by auto
  next
    case (Suc j)
    show ?case
    proof (cases "1 \<le> j")
      case False
      with Suc.prems show ?thesis using walk_inv_init by auto
    next
      case True
      with Suc.prems obtain cs1 w1 where "fold_res visit [1 ..< j] (replicate k 0, 0) = Inr (cs1, w1)"
        and v: "visit j (cs1, w1) = Inr (cs, w)"
        by (auto simp: fold_res_append bnd_eq_Inr)
      with Suc.IH have "walk_inv cs1"
        and old: "\<forall>i \<in> {1 ..< j}. \<forall>t. node_tag c i = Inr t \<and> member t \<longrightarrow> finished cs1 i" by auto
      with step [OF v] show ?thesis by (auto simp: less_Suc_eq)
    qed
  qed
  from this [OF run] have "walk_inv cs"
    and fin: "\<forall>i \<in> {1 ..< k}. \<forall>t. node_tag c i = Inr t \<and> member t \<longrightarrow> finished cs i" by auto
  moreover have "n \<in> {1 ..< k}" using assms(2) by (auto simp: k_def node_tag_def bnd_eq_Inr checked_node_id_Inr)
  ultimately show ?thesis using assms(2,3) by (auto simp: walk_inv_def)
qed

lemma walk_all_acyclic:
  assumes "walk_all st c member expand = Inr u"
  shows "wf {(ch, n). ch \<in> children n \<and> (\<exists>tag. node_tag c n = Inr tag \<and> member tag)}"
    (is "wf ?R")
proof (rule acc_wfI, rule allI)
  fix n show "n \<in> Wellfounded.acc ?R"
  proof (cases "\<exists>tag. node_tag c n = Inr tag \<and> member tag")
    case True
    have "Wellfounded.acc graph \<subseteq> Wellfounded.acc ?R" by (rule acc_subset) (auto simp: graph_def)
    with True walk_all_sound [OF assms] show ?thesis by blast
  next
    case False
    show ?thesis
    proof (rule accI)
      fix y assume "(y, n) \<in> ?R"
      then have "\<exists>tag. node_tag c n = Inr tag \<and> member tag" by simp
      with False show "y \<in> Wellfounded.acc ?R" by contradiction
    qed
  qed
qed

end

section \<open>Only cycles are rejected\<close>

locale exact_walk = coloured_walk expand children
  for expand :: "usize \<Rightarrow> nat list \<Rightarrow> event list \<Rightarrow> event list kres" and children :: "usize \<Rightarrow> usize set" +
  fixes readable :: "usize \<Rightarrow> bool" and bound :: nat
  assumes expand_total: "readable n \<Longrightarrow> length colors = bound \<Longrightarrow> (\<forall>ch \<in> children n. colors ! ch \<noteq> 1) \<Longrightarrow>
      \<exists>stack'. expand n colors stack = Inr stack'"
    and children_readable: "readable n \<Longrightarrow> ch \<in> children n \<Longrightarrow> readable ch"
    and readable_bound: "readable n \<Longrightarrow> n < bound"
begin

definition rgraph :: "(usize \<times> usize) set" where
  "rgraph = {(ch, n). ch \<in> children n \<and> readable n}"

fun path_ok :: "usize set \<Rightarrow> event list \<Rightarrow> bool" where
  "path_ok A [] = True"
| "path_ok A ((n, exiting) # rest) =
     ((exiting \<longrightarrow> (\<forall>m \<in> A. (m, n) \<in> rgraph\<^sup>+)) \<and> path_ok (insert n A) rest)"

lemma path_ok_extend:
  assumes "path_ok A s" and "\<forall>b \<in> B. \<exists>a \<in> A. b = a \<or> (b, a) \<in> rgraph\<^sup>+"
  shows "path_ok B s"
  using assms
proof (induction A s arbitrary: B rule: path_ok.induct)
  case (2 A n exiting rest)
  have "path_ok (insert n B) rest"
    using "2.IH" [of "insert n B"] "2.prems" by auto
  moreover have "exiting \<longrightarrow> (\<forall>m \<in> B. (m, n) \<in> rgraph\<^sup>+)"
    using "2.prems" by (metis path_ok.simps(2) trancl_trans)
  ultimately show ?case by simp
qed simp

lemma path_ok_empty: "path_ok A s \<Longrightarrow> path_ok {} s"
  using path_ok_extend [of A s "{}"] by simp

lemma path_ok_member: "path_ok A s \<Longrightarrow> (x, True) \<in> set s \<Longrightarrow> a \<in> A \<Longrightarrow> (a, x) \<in> rgraph\<^sup>+"
  by (induction A s rule: path_ok.induct) auto

lemma path_ok_entries: "path_ok A (map (\<lambda>ch. (ch, False)) ps @ s) = path_ok (A \<union> set ps) s"
  by (induction ps arbitrary: A) auto

definition open_inv :: "nat list \<Rightarrow> event list \<Rightarrow> bool" where
  "open_inv colors stack \<longleftrightarrow> length colors = bound \<and> (\<forall>n \<in> fst ` set stack. readable n) \<and>
     (\<forall>n < bound. colors ! n = 1 \<longrightarrow> (n, True) \<in> set stack) \<and> path_ok {} stack"

lemma open_inv_enter:
  assumes inv: "open_inv colors ((n, False) # rest)" and "acyclic rgraph"
  shows "colors ! n \<noteq> 1"
    and "\<exists>stack'. expand n (colors[n := 1]) ((n, True) # rest) = Inr stack' \<and> open_inv (colors[n := 1]) stack'"
proof -
  have r: "readable n" "length colors = bound" "path_ok {n} rest"
    and grey: "\<And>m. m < bound \<Longrightarrow> colors ! m = 1 \<Longrightarrow> (m, True) \<in> set rest"
    using inv by (auto simp: open_inv_def)
  have nb: "n < bound" using r(1) by (rule readable_bound)
  show n1: "colors ! n \<noteq> 1"
    using grey [OF nb] path_ok_member [OF r(3), of n n] assms(2) by (auto simp: acyclic_def)
  have clear: "colors[n := 1] ! ch \<noteq> 1" if ch: "ch \<in> children n" for ch
  proof
    assume one: "colors[n := 1] ! ch = 1"
    have e: "(ch, n) \<in> rgraph" using ch r(1) by (simp add: rgraph_def)
    have "ch < bound" using children_readable [OF r(1) ch] by (rule readable_bound)
    with one grey have "ch = n \<or> (ch, True) \<in> set rest" by (cases "ch = n") auto
    with path_ok_member [OF r(3), of ch n] have "ch = n \<or> (n, ch) \<in> rgraph\<^sup>+" by auto
    with e assms(2) show False by (auto simp: acyclic_def dest: trancl_into_trancl2)
  qed
  from expand_total [OF r(1), of "colors[n := 1]"] clear r(2) obtain stack' where
    e: "expand n (colors[n := 1]) ((n, True) # rest) = Inr stack'" by auto
  from expand_ok [OF e] obtain ps where ps: "stack' = map (\<lambda>ch. (ch, False)) ps @ (n, True) # rest"
    "set ps \<subseteq> children n" by blast
  have "\<forall>m \<in> set ps. (m, n) \<in> rgraph\<^sup>+" using ps(2) r(1) by (auto simp: rgraph_def)
  moreover from this have "path_ok (insert n (set ps)) rest" using path_ok_extend [OF r(3), of "insert n (set ps)"] by auto
  ultimately have "path_ok {} stack'" by (simp add: ps(1) path_ok_entries)
  moreover have "\<forall>m \<in> fst ` set stack'. readable m"
    using inv ps r(1) children_readable by (auto simp: open_inv_def)
  moreover have "\<forall>m < bound. colors[n := 1] ! m = 1 \<longrightarrow> (m, True) \<in> set stack'"
    using grey ps(1) by (auto simp: nth_list_update)
  ultimately show "\<exists>stack'. expand n (colors[n := 1]) ((n, True) # rest) = Inr stack' \<and>
      open_inv (colors[n := 1]) stack'"
    using e r(2) by (auto simp: open_inv_def)
qed

lemma graph_walk_complete:
  assumes "e = expand" and "acyclic rgraph" and "open_inv colors stack"
  shows "case graph_walk st e colors stack work of
      Inr (colors', _) \<Rightarrow> open_inv colors' [] | Inl err \<Rightarrow> err = Resource \<or> err = Cancelled"
  using assms
proof (induction st e colors stack work rule: graph_walk.induct)
  case (1 st e colors work)
  then show ?case by simp
next
  case (2 st e colors n exiting rest work)
  have rn: "n < length colors" "length colors = bound"
    using "2.prems"(3) readable_bound by (auto simp: open_inv_def)
  show ?case
  proof (cases "check_cancel st work = Inr () \<and> fits (work + 1)")
    case False
    then show ?thesis
      by (auto simp: check_cancel_def checked_add_def)
  next
    case True
    then have w: "check_cancel st work = Inr ()" "ok_or Resource (checked_add work 1) = Inr (work + 1)"
      by (auto simp: checked_add_def)
    consider "exiting" | "\<not> exiting" "colors ! n = 2" | "\<not> exiting" "colors ! n \<noteq> 2" by blast
    then show ?thesis
    proof cases
      case 1
      have st: "store colors n 2 = Inr (colors[n := 2])" using rn by (simp add: store_def)
      have "path_ok {} rest" using "2.prems"(3) path_ok_empty by (auto simp: open_inv_def)
      moreover have "(m, True) \<in> set rest" if "m < bound" "colors[n := 2] ! m = 1" for m
        using that "2.prems"(3) rn by (cases "m = n") (auto simp: open_inv_def)
      moreover have "\<forall>m \<in> fst ` set rest. readable m" using "2.prems"(3) by (simp add: open_inv_def)
      ultimately have "open_inv (colors[n := 2]) rest" using rn by (simp add: open_inv_def)
      with "2.IH"(1) [OF w 1 st "2.prems"(1,2)] 1 w st show ?thesis by simp
    next
      case 2
      have ld: "load colors n = Inr (colors ! n)" using rn by (simp add: load_def get_at_def)
      have "path_ok {} rest" using "2.prems"(3) path_ok_empty by (auto simp: open_inv_def)
      with "2.prems"(3) 2 have "open_inv colors rest" by (auto simp: open_inv_def)
      with "2.IH"(2) [OF w 2(1) ld 2(2) "2.prems"(1,2)] 2 w ld show ?thesis by simp
    next
      case 3
      have ld: "load colors n = Inr (colors ! n)" using rn by (simp add: load_def get_at_def)
      from "2.prems"(3) 3 have inv: "open_inv colors ((n, False) # rest)" by simp
      from open_inv_enter [OF inv "2.prems"(2)] obtain stack' where n1: "colors ! n \<noteq> 1"
        and ex: "e n (colors[n := 1]) ((n, True) # rest) = Inr stack'"
        and inv': "open_inv (colors[n := 1]) stack'" using "2.prems"(1) by auto
      have q: "queue_event rest n True = Inr ((n, True) # rest)" by (simp add: queue_event_def)
      from "2.IH"(3) [OF w 3(1) ld 3(2) n1 q ex "2.prems"(1,2) inv'] 3 w ld n1 q ex show ?thesis by simp
    qed
  qed
qed

lemma walk_all_complete:
  assumes "acyclic rgraph" and "bound = node_count c + 1"
    and tags: "\<And>n. 1 \<le> n \<Longrightarrow> n \<le> node_count c \<Longrightarrow> \<exists>tag. node_tag c n = Inr tag \<and> (member tag \<longrightarrow> readable n)"
  shows "walk_all st c member expand \<in> {Inr (), Inl Resource, Inl Cancelled}"
proof -
  define visit where "visit = (\<lambda>start_id (colors, work).
       bnd (node_tag c start_id) (\<lambda>tag.
       if \<not> member tag then Inr (colors, work) else
       bnd (load colors start_id) (\<lambda>color.
       if color = 2 then Inr (colors, work) else
       bnd (queue_event [] start_id False) (\<lambda>stack.
       graph_walk st expand colors stack work))))"
  have step: "case visit i (cs, w) of Inr (cs', _) \<Rightarrow> open_inv cs' [] | Inl err \<Rightarrow> err = Resource \<or> err = Cancelled"
    if inv: "open_inv cs []" and i: "1 \<le> i" "i \<le> node_count c" for i cs w
  proof -
    from tags [OF i] obtain t where t: "node_tag c i = Inr t" "member t \<longrightarrow> readable i" by blast
    have "length cs = bound" using inv by (simp add: open_inv_def)
    then have ld: "load cs i = Inr (cs ! i)" using i assms(2) by (simp add: load_def get_at_def)
    have "open_inv cs [(i, False)]" if "member t" using inv t that by (auto simp: open_inv_def)
    with graph_walk_complete [OF refl assms(1), of cs "[(i, False)]" st w] inv t ld show ?thesis
      by (auto simp: visit_def queue_event_def simp del: graph_walk.simps)
  qed
  have all: "case fold_res visit is s of Inr (cs', _) \<Rightarrow> open_inv cs' [] | Inl err \<Rightarrow> err = Resource \<or> err = Cancelled"
    if "open_inv (fst s) []" "\<forall>i \<in> set is. 1 \<le> i \<and> i \<le> node_count c" for "is" s
    using that
  proof (induction "is" arbitrary: s)
    case (Cons i "is")
    obtain cs w where s: "s = (cs, w)" by (cases s)
    from step [of cs i w] Cons.prems s have "case visit i s of Inr (cs', _) \<Rightarrow> open_inv cs' []
      | Inl err \<Rightarrow> err = Resource \<or> err = Cancelled" by simp
    with Cons show ?case by (cases "visit i s") auto
  qed (auto split: prod.split)
  have "open_inv (replicate bound 0) []" by (simp add: open_inv_def)
  with all [of "(replicate bound 0, 0)" "[1 ..< node_count c + 1]"]
  have r: "case fold_res visit [1 ..< node_count c + 1] (replicate bound 0, 0) of
     Inr (cs', _) \<Rightarrow> open_inv cs' [] | Inl err \<Rightarrow> err = Resource \<or> err = Cancelled"
    by (simp add: less_Suc_eq_le del: upt_Suc)
  show ?thesis
  proof (cases "fits (node_count c + 1)")
    case True
    with assms(2) have "walk_all st c member expand =
        discard (fold_res visit [1 ..< node_count c + 1] (replicate bound 0, 0))"
      by (simp add: walk_all_def visit_def checked_add_def del: upt_Suc)
    with r show ?thesis
      by (cases "fold_res visit [1 ..< node_count c + 1] (replicate bound 0, 0)") (auto simp del: upt_Suc)
  qed (simp add: walk_all_def checked_add_def)
qed

end

section \<open>The children each validator reads\<close>

definition range_nodes :: "direct_columns \<Rightarrow> usize \<times> usize \<Rightarrow> usize set" where
  "range_nodes c r = {n. \<exists>i \<in> {fst r ..< fst r + snd r}. item_node c i = Inr n}"

definition annotation_children :: "direct_columns \<Rightarrow> usize \<Rightarrow> usize set" where
  "annotation_children c n = {ch. \<exists>start r. exact_fields c n 3 = Inr start \<and>
     node_set_range c (start + 2) 0 = Inr r \<and> ch \<in> range_nodes c r}"

lemma push_child_Inr:
  "push_child colors ch stack = Inr stack' \<longleftrightarrow> ch < length colors \<and> colors ! ch \<noteq> 1 \<and>
     stack' = (if colors ! ch = 0 then (ch, False) # stack else stack)"
  by (auto simp: push_child_def queue_event_def bnd_eq_Inr load_eq_Inr)

lemma push_fold:
  assumes "fold_res (\<lambda>i s. bnd (item_node c i) (\<lambda>child. step child s)) is stack = Inr stack'"
    and "\<And>ch s s'. step ch s = Inr s' \<Longrightarrow>
      if member ch then push_child colors ch s = Inr s' else s' = s"
  shows "\<exists>pushed. stack' = map (\<lambda>ch. (ch, False)) pushed @ stack \<and>
    set pushed \<subseteq> {ch. member ch \<and> (\<exists>i \<in> set is. item_node c i = Inr ch)} \<and>
    (\<forall>ch. member ch \<and> (\<exists>i \<in> set is. item_node c i = Inr ch) \<longrightarrow>
       ch < length colors \<and> colors ! ch \<noteq> 1 \<and> (colors ! ch = 0 \<longrightarrow> ch \<in> set pushed))"
  using assms(1)
proof (induction "is" arbitrary: stack)
  case Nil
  then show ?case by simp
next
  case (Cons i rest)
  from Cons.prems obtain ch s where ch: "item_node c i = Inr ch" and s: "step ch stack = Inr s"
    and "fold_res (\<lambda>i s. bnd (item_node c i) (\<lambda>child. step child s)) rest s = Inr stack'"
    by (auto simp: bnd_eq_Inr)
  from Cons.IH [OF this(3)] obtain ps where ps: "stack' = map (\<lambda>ch. (ch, False)) ps @ s"
    "set ps \<subseteq> {ch. member ch \<and> (\<exists>i \<in> set rest. item_node c i = Inr ch)}"
    "\<forall>ch. member ch \<and> (\<exists>i \<in> set rest. item_node c i = Inr ch) \<longrightarrow>
       ch < length colors \<and> colors ! ch \<noteq> 1 \<and> (colors ! ch = 0 \<longrightarrow> ch \<in> set ps)" by blast
  show ?case
  proof (cases "member ch \<and> colors ! ch = 0")
    case True
    with assms(2) [OF s] have "s = (ch, False) # stack" "ch < length colors"
      by (auto simp: push_child_Inr split: if_splits)
    with ps ch True show ?thesis by (intro exI [of _ "ps @ [ch]"]) auto
  next
    case False
    with assms(2) [OF s] have "s = stack" "member ch \<longrightarrow> ch < length colors \<and> colors ! ch \<noteq> 1"
      by (auto simp: push_child_Inr split: if_splits)
    with ps ch False show ?thesis by (intro exI [of _ ps]) auto
  qed
qed

lemma range_nodes_rev: "range_nodes c (a, l) = {n. \<exists>i \<in> set (rev [a ..< a + l]). item_node c i = Inr n}"
  by (simp add: range_nodes_def)

definition set_children :: "direct_columns \<Rightarrow> (nat \<Rightarrow> bool) \<Rightarrow> usize \<Rightarrow> usize set" where
  "set_children c member n = {ch. \<exists>start r tag. exact_fields c n 1 = Inr start \<and>
     node_set_range c start 2 = Inr r \<and> ch \<in> range_nodes c r \<and> node_tag c ch = Inr tag \<and> member tag}"

definition data_range_children :: "direct_columns \<Rightarrow> usize \<Rightarrow> usize set" where
  "data_range_children c n =
     (if node_tag c n = Inr TAG_DATA_COMPLEMENT_OF
      then {ch. \<exists>start tag. exact_fields c n 1 = Inr start \<and> field_node c start = Inr ch \<and>
              node_tag c ch = Inr tag \<and> is_recursive_data_range_tag tag}
      else set_children c is_recursive_data_range_tag n)"

definition class_children :: "direct_columns \<Rightarrow> usize \<Rightarrow> usize set" where
  "class_children c n =
     (if \<exists>tag. node_tag c n = Inr tag \<and> is_aggregate_tag tag
      then set_children c is_recursive_class_expression_tag n
      else {ch. \<exists>tag. recursive_class_single_child c n = Inr (Some ch) \<and>
              node_tag c ch = Inr tag \<and> is_recursive_class_expression_tag tag})"

interpretation annotation_walk: coloured_walk "annotation_expand c" "annotation_children c" for c
proof
  fix n colors stack stack'
  assume "annotation_expand c n colors stack = Inr stack'"
  then obtain start a l where r: "exact_fields c n 3 = Inr start" "node_set_range c (start + 2) 0 = Inr (a, l)"
    and f: "fold_res (\<lambda>i s. bnd (item_node c i) (\<lambda>child.
       seq (expect_tag c child TAG_ANNOTATION) (push_child colors child s)))
     (rev [a ..< a + l]) stack = Inr stack'"
    by (auto simp: annotation_expand_def bnd_eq_Inr)
  then have "annotation_children c n = {ch. \<exists>i \<in> set (rev [a ..< a + l]). item_node c i = Inr ch}"
    by (simp add: annotation_children_def range_nodes_def)
  with push_fold [OF f, of "\<lambda>_. True" colors]
  show "\<exists>pushed. stack' = map (\<lambda>ch. (ch, False)) pushed @ stack \<and> set pushed \<subseteq> annotation_children c n \<and>
      (\<forall>ch \<in> annotation_children c n. ch < length colors \<and> colors ! ch \<noteq> 1 \<and> (colors ! ch = 0 \<longrightarrow> ch \<in> set pushed))"
    by (simp add: seq_eq_Inr)
qed

text \<open>The two validators over class expressions and data ranges walk either a set of operands
  or one child; this lemma serves both.\<close>

lemma set_children_push:
  assumes "exact_fields c n 1 = Inr start" and "node_set_range c start 2 = Inr (a, l)"
    and "fold_res (\<lambda>i s. bnd (item_node c i) (\<lambda>child. bnd (node_tag c child) (\<lambda>tag.
       if \<not> member tag then other child s else push_child colors child s)))
     (rev [a ..< a + l]) stack = Inr stack'"
    and "\<And>ch s s'. other ch s = Inr s' \<Longrightarrow> s' = s"
  shows "\<exists>pushed. stack' = map (\<lambda>ch. (ch, False)) pushed @ stack \<and> set pushed \<subseteq> set_children c member n \<and>
      (\<forall>ch \<in> set_children c member n. ch < length colors \<and> colors ! ch \<noteq> 1 \<and>
        (colors ! ch = 0 \<longrightarrow> ch \<in> set pushed))"
proof -
  have "set_children c member n = {ch. (\<exists>tag. node_tag c ch = Inr tag \<and> member tag) \<and>
      (\<exists>i \<in> set (rev [a ..< a + l]). item_node c i = Inr ch)}"
    using assms(1,2) by (auto simp: set_children_def range_nodes_def)
  moreover have "if \<exists>tag. node_tag c ch = Inr tag \<and> member tag then push_child colors ch s = Inr s' else s' = s"
    if "bnd (node_tag c ch) (\<lambda>tag. if \<not> member tag then other ch s else push_child colors ch s) = Inr s'" for ch s s'
    using that assms(4) [of ch s s'] by (auto simp: bnd_eq_Inr split: if_splits)
  ultimately show ?thesis
    using push_fold [OF assms(3), of "\<lambda>ch. \<exists>tag. node_tag c ch = Inr tag \<and> member tag" colors] by simp
qed

lemma single_child_push:
  assumes "push_child colors ch stack = Inr stack'" and "K = {ch}"
  shows "\<exists>pushed. stack' = map (\<lambda>ch. (ch, False)) pushed @ stack \<and> set pushed \<subseteq> K \<and>
      (\<forall>ch \<in> K. ch < length colors \<and> colors ! ch \<noteq> 1 \<and> (colors ! ch = 0 \<longrightarrow> ch \<in> set pushed))"
  using assms by (intro exI [of _ "if colors ! ch = 0 then [ch] else []"]) (auto simp: push_child_Inr)

interpretation data_range_walk: coloured_walk "data_range_expand c maximum" "data_range_children c" for c maximum
proof
  fix n colors stack stack'
  assume run: "data_range_expand c maximum n colors stack = Inr stack'"
  then obtain tag where tag: "node_tag c n = Inr tag" by (auto simp: data_range_expand_def bnd_eq_Inr)
  show "\<exists>pushed. stack' = map (\<lambda>ch. (ch, False)) pushed @ stack \<and> set pushed \<subseteq> data_range_children c n \<and>
      (\<forall>ch \<in> data_range_children c n. ch < length colors \<and> colors ! ch \<noteq> 1 \<and> (colors ! ch = 0 \<longrightarrow> ch \<in> set pushed))"
  proof (cases "tag = TAG_DATA_COMPLEMENT_OF")
    case True
    with run tag obtain start ch ct where ch: "exact_fields c n 1 = Inr start" "field_node c start = Inr ch"
      "node_tag c ch = Inr ct"
      and s: "if is_recursive_data_range_tag ct then push_child colors ch stack = Inr stack' else stack' = stack"
      by (auto simp: data_range_expand_def bnd_eq_Inr seq_eq_Inr split: if_splits)
    show ?thesis
    proof (cases "is_recursive_data_range_tag ct")
      case rec: True
      with s ch tag True show ?thesis by (intro single_child_push) (auto simp: data_range_children_def)
    next
      case False
      with s ch tag True show ?thesis by (auto simp: data_range_children_def)
    qed
  next
    case False
    with run tag obtain start a l where r: "exact_fields c n 1 = Inr start" "node_set_range c start 2 = Inr (a, l)"
      and f: "fold_res (\<lambda>i s. bnd (item_node c i) (\<lambda>child. bnd (node_tag c child) (\<lambda>t.
        if \<not> is_recursive_data_range_tag t then seq (validate_data_range_reference c child maximum) (Inr s)
        else push_child colors child s))) (rev [a ..< a + l]) stack = Inr stack'"
      by (auto simp: data_range_expand_def bnd_eq_Inr split: if_splits)
    from set_children_push [OF r f] False tag show ?thesis
      by (simp add: data_range_children_def seq_eq_Inr)
  qed
qed

interpretation class_walk: coloured_walk "class_expand c" "class_children c" for c
proof
  fix n colors stack stack'
  assume run: "class_expand c n colors stack = Inr stack'"
  then obtain tag where tag: "node_tag c n = Inr tag" by (auto simp: class_expand_def bnd_eq_Inr)
  show "\<exists>pushed. stack' = map (\<lambda>ch. (ch, False)) pushed @ stack \<and> set pushed \<subseteq> class_children c n \<and>
      (\<forall>ch \<in> class_children c n. ch < length colors \<and> colors ! ch \<noteq> 1 \<and> (colors ! ch = 0 \<longrightarrow> ch \<in> set pushed))"
  proof (cases "is_aggregate_tag tag")
    case False
    with run tag obtain ch ct where ch: "recursive_class_single_child c n = Inr (Some ch)" "node_tag c ch = Inr ct"
      and s: "if is_recursive_class_expression_tag ct then push_child colors ch stack = Inr stack' else stack' = stack"
      by (auto simp: class_expand_def bnd_eq_Inr split: if_splits option.splits)
    show ?thesis
    proof (cases "is_recursive_class_expression_tag ct")
      case rec: True
      with s ch tag False show ?thesis by (intro single_child_push) (auto simp: class_children_def)
    next
      case nrec: False
      with s ch tag False show ?thesis by (auto simp: class_children_def)
    qed
  next
    case True
    with run tag obtain start a l where r: "exact_fields c n 1 = Inr start" "node_set_range c start 2 = Inr (a, l)"
      and f: "fold_res (\<lambda>i s. bnd (item_node c i) (\<lambda>child. bnd (node_tag c child) (\<lambda>t.
        if \<not> is_recursive_class_expression_tag t then Inr s
        else push_child colors child s))) (rev [a ..< a + l]) stack = Inr stack'"
      by (auto simp: class_expand_def bnd_eq_Inr split: if_splits)
    from set_children_push [OF r f] True tag show ?thesis
      by (simp add: class_children_def)
  qed
qed

end
