(* ===== verification/Supported_Nodes.thy ===== *)
theory Supported_Nodes
  imports Graph_Walk Table_Encoding
begin

text \<open>
  \<open>validate_supported_nodes\<close>: every node of the table is checked by the validator of its
  constructor tag, then the three cycle checks run. The body of the loop is
  \<open>validate_supported_node\<close>.

  The property is a full characterisation: the pass accepts a table exactly when every
  node passes its own check and the annotation, class-expression and data-range graphs
  have no cycle, apart from cancellation and counter overflow.
\<close>

definition validate_supported_node :: "direct_columns \<Rightarrow> usize \<Rightarrow> usize \<Rightarrow> unit kres" where
  "validate_supported_node c maximum_iri node_id =
     bnd (node_tag c node_id) (\<lambda>tag.
     if tag = TAG_IRI then discard (iri c node_id maximum_iri)
     else if tag = TAG_ENTITY then
       bnd (entity c node_id) (\<lambda>(kind, iri_id). discard (iri c iri_id maximum_iri))
     else if tag = TAG_ANONYMOUS_INDIVIDUAL then validate_anonymous_individual c node_id
     else if tag = TAG_LITERAL then validate_literal c node_id maximum_iri
     else if tag = TAG_ANNOTATION then validate_annotation c node_id maximum_iri
     else if tag = TAG_OBJECT_INVERSE_OF then discard (object_inverse_iri c node_id maximum_iri)
     else if tag = TAG_OBJECT_PROPERTY_CHAIN then validate_object_property_chain c node_id maximum_iri
     else if tag = TAG_FACET_RESTRICTION then validate_facet_restriction c node_id maximum_iri
     else if tag \<in> {TAG_DATA_INTERSECTION_OF, TAG_DATA_UNION_OF, TAG_DATA_COMPLEMENT_OF,
         TAG_DATA_ONE_OF, TAG_DATATYPE_RESTRICTION} then validate_data_range_node c node_id maximum_iri
     else if tag = TAG_OBJECT_INTERSECTION_OF \<or> tag = TAG_OBJECT_UNION_OF then
       validate_aggregate_expression c node_id maximum_iri
     else if tag = TAG_DECLARATION then
       bnd (exact_fields c node_id 2) (\<lambda>start.
       bnd (field_node c start) (\<lambda>entity_id.
       seq (entity c entity_id) (validate_annotation_set c (start + 1))))
     else if tag \<in> {TAG_OBJECT_SOME_VALUES_FROM, TAG_OBJECT_ALL_VALUES_FROM,
         TAG_OBJECT_MIN_CARDINALITY, TAG_OBJECT_MAX_CARDINALITY} then
       discard (restriction_projection c node_id maximum_iri)
     else if tag \<in> {TAG_OBJECT_COMPLEMENT_OF, TAG_OBJECT_ONE_OF, TAG_OBJECT_HAS_VALUE,
         TAG_OBJECT_HAS_SELF, TAG_OBJECT_EXACT_CARDINALITY, TAG_DATA_SOME_VALUES_FROM,
         TAG_DATA_ALL_VALUES_FROM, TAG_DATA_HAS_VALUE, TAG_DATA_MIN_CARDINALITY,
         TAG_DATA_MAX_CARDINALITY, TAG_DATA_EXACT_CARDINALITY} then
       validate_nonprojecting_class_expression c node_id maximum_iri
     else if tag = TAG_SUB_CLASS_OF then discard (subclass_projection c node_id maximum_iri)
     else if tag = TAG_EQUIVALENT_CLASSES then discard (equivalent_projection c node_id maximum_iri)
     else if tag = TAG_DISJOINT_CLASSES then validate_disjoint_classes c node_id maximum_iri
     else if tag = TAG_DISJOINT_UNION then validate_disjoint_union c node_id maximum_iri
     else if tag = TAG_SUB_OBJECT_PROPERTY_OF then
       discard (validate_sub_object_property_of c node_id maximum_iri)
     else if tag = TAG_INVERSE_OBJECT_PROPERTIES then
       discard (role_axiom_parts c node_id TAG_INVERSE_OBJECT_PROPERTIES maximum_iri)
     else if tag = TAG_EQUIVALENT_OBJECT_PROPERTIES \<or> tag = TAG_DISJOINT_OBJECT_PROPERTIES then
       validate_object_property_set_axiom c node_id tag maximum_iri
     else if tag = TAG_OBJECT_PROPERTY_DOMAIN then
       discard (object_property_class_projection c node_id TAG_OBJECT_PROPERTY_DOMAIN maximum_iri)
     else if tag = TAG_OBJECT_PROPERTY_RANGE then
       discard (object_property_class_projection c node_id TAG_OBJECT_PROPERTY_RANGE maximum_iri)
     else if tag = TAG_CLASS_ASSERTION then discard (class_assertion_projection c node_id maximum_iri)
     else if tag = TAG_OBJECT_PROPERTY_ASSERTION then
       discard (object_property_assertion_parts c node_id maximum_iri)
     else if tag = TAG_NEGATIVE_OBJECT_PROPERTY_ASSERTION then
       validate_negative_object_property_assertion c node_id maximum_iri
     else if tag = TAG_SUB_DATA_PROPERTY_OF then
       validate_binary_data_property_axiom c node_id TAG_SUB_DATA_PROPERTY_OF maximum_iri
     else if tag = TAG_EQUIVALENT_DATA_PROPERTIES \<or> tag = TAG_DISJOINT_DATA_PROPERTIES then
       validate_data_property_set_axiom c node_id tag maximum_iri
     else if tag = TAG_DATA_PROPERTY_DOMAIN then validate_data_property_domain c node_id maximum_iri
     else if tag = TAG_DATA_PROPERTY_RANGE then validate_data_property_range c node_id maximum_iri
     else if tag = TAG_FUNCTIONAL_DATA_PROPERTY then
       validate_functional_data_property c node_id maximum_iri
     else if tag = TAG_DATATYPE_DEFINITION then validate_datatype_definition c node_id maximum_iri
     else if tag = TAG_HAS_KEY then validate_has_key c node_id maximum_iri
     else if tag = TAG_SAME_INDIVIDUAL \<or> tag = TAG_DIFFERENT_INDIVIDUALS then
       validate_individual_set_axiom c node_id tag maximum_iri
     else if tag = TAG_DATA_PROPERTY_ASSERTION \<or> tag = TAG_NEGATIVE_DATA_PROPERTY_ASSERTION then
       validate_data_property_assertion c node_id tag maximum_iri
     else if tag = TAG_ANNOTATION_ASSERTION then validate_annotation_assertion c node_id maximum_iri
     else if tag = TAG_SUB_ANNOTATION_PROPERTY_OF then
       validate_sub_annotation_property_of c node_id maximum_iri
     else if tag = TAG_ANNOTATION_PROPERTY_DOMAIN \<or> tag = TAG_ANNOTATION_PROPERTY_RANGE then
       validate_annotation_property_iri_axiom c node_id tag maximum_iri
     else if tag = TAG_VARIABLE then validate_variable c node_id maximum_iri
     else if is_swrl_atom_tag tag then validate_swrl_atom c node_id maximum_iri
     else if tag = TAG_SWRL_RULE then validate_swrl_rule c node_id
     else if is_object_property_characteristic tag then
       validate_object_property_characteristic c node_id maximum_iri
     else if in_schema tag then Inl Unsupported else Inl Malformed)"

definition validate_supported_nodes :: "direct_columns \<Rightarrow> usize \<Rightarrow> nat \<Rightarrow> unit kres" where
  "validate_supported_nodes c maximum_iri st =
     seq (for_each (\<lambda>node_id. seq (check_cancel st node_id) (validate_supported_node c maximum_iri node_id))
          [1 ..< node_count c + 1]) (
     seq (validate_annotation_graph c st) (
     seq (validate_recursive_class_expression_graph c st)
       (validate_data_range_graph c maximum_iri st)))"

section \<open>What a checked node lets the walks read\<close>

definition nodes_valid :: "direct_columns \<Rightarrow> usize \<Rightarrow> bool" where
  "nodes_valid c m \<longleftrightarrow> (\<forall>n. 1 \<le> n \<and> n \<le> node_count c \<longrightarrow> validate_supported_node c m n = Inr ())"

lemma node_tag_bounds: "node_tag c n = Inr t \<Longrightarrow> 1 \<le> n \<and> n \<le> node_count c"
  by (auto simp: node_tag_def bnd_eq_Inr checked_node_id_Inr)

lemma nodes_validD: "nodes_valid c m \<Longrightarrow> node_tag c n = Inr t \<Longrightarrow> validate_supported_node c m n = Inr ()"
  using node_tag_bounds by (auto simp: nodes_valid_def)

lemma nodes_valid_tag: "nodes_valid c m \<Longrightarrow> 1 \<le> n \<Longrightarrow> n \<le> node_count c \<Longrightarrow> \<exists>t. node_tag c n = Inr t"
  by (auto simp: nodes_valid_def validate_supported_node_def bnd_eq_Inr)

lemma each_item_Inr: "each_item c r f = Inr u \<longleftrightarrow>
    (\<forall>i \<in> {fst r ..< fst r + snd r}. \<exists>n y. item_node c i = Inr n \<and> f n = Inr y)"
  by (auto simp: each_item_def res_simps)

lemma expect_tag_Inr [res_simps]: "expect_tag c n t = Inr u \<longleftrightarrow> node_tag c n = Inr t"
  by (auto simp: expect_tag_def res_simps)

lemma validate_annotation_set_Inr:
  "validate_annotation_set c i = Inr u \<Longrightarrow>
   \<exists>r. node_set_range c i 0 = Inr r \<and> (\<forall>ch \<in> range_nodes c r. node_tag c ch = Inr TAG_ANNOTATION)"
  by (force simp: validate_annotation_set_def each_item_Inr bnd_eq_Inr range_nodes_def expect_tag_Inr)

lemma annotation_node_checked:
  assumes "validate_supported_node c m n = Inr u" and "node_tag c n = Inr TAG_ANNOTATION"
  shows "\<exists>start r. exact_fields c n 3 = Inr start \<and> node_set_range c (start + 2) 0 = Inr r \<and>
       (\<forall>ch \<in> range_nodes c r. node_tag c ch = Inr TAG_ANNOTATION)"
proof -
  from assms have "validate_annotation c n m = Inr u" by (simp add: validate_supported_node_def)
  then obtain start where "exact_fields c n 3 = Inr start" "validate_annotation_set c (start + 2) = Inr u"
    by (auto simp: validate_annotation_def bnd_eq_Inr seq_eq_Inr)
  with validate_annotation_set_Inr show ?thesis by blast
qed

lemma set_range_items:
  assumes "node_set_range c i m = Inr (a, l)" and "j \<in> {a ..< a + l}"
  shows "\<exists>n. item_node c j = Inr n"
proof -
  from assms(1) obtain ns where ns: "map (item_node c) [a ..< a + l] = map Inr ns"
    by (auto simp: node_set_range_Inr)
  have "item_node c j \<in> set (map (item_node c) [a ..< a + l])" using assms(2) by simp
  then show ?thesis unfolding ns by auto
qed

lemma range_nodes_bounds: "ch \<in> range_nodes c r \<Longrightarrow> 1 \<le> ch \<and> ch \<le> node_count c"
  by (auto simp: range_nodes_def dest: item_node_bounds)

lemma data_range_set_checked:
  assumes "nodes_valid c m" and "node_tag c n = Inr t" and "t = TAG_DATA_INTERSECTION_OF \<or> t = TAG_DATA_UNION_OF"
  shows "\<exists>start r. exact_fields c n 1 = Inr start \<and> node_set_range c start 2 = Inr r \<and>
    (\<forall>ch \<in> range_nodes c r. validate_data_range_reference c ch m = Inr ())"
proof -
  from nodes_validD [OF assms(1,2)] assms(2,3) have "validate_data_range_node c n m = Inr ()"
    by (auto simp: validate_supported_node_def)
  with assms(2,3) show ?thesis
    by (auto simp: validate_data_range_node_def bnd_eq_Inr each_item_Inr range_nodes_def split: if_splits)
qed

lemma data_range_child_checked:
  assumes "nodes_valid c m" and "node_tag c n = Inr TAG_DATA_COMPLEMENT_OF"
  shows "\<exists>start ch. exact_fields c n 1 = Inr start \<and> field_node c start = Inr ch \<and>
    validate_data_range_reference c ch m = Inr ()"
proof -
  from nodes_validD [OF assms] assms(2) have "validate_data_range_node c n m = Inr ()"
    by (simp add: validate_supported_node_def)
  with assms(2) show ?thesis by (auto simp: validate_data_range_node_def bnd_eq_Inr)
qed

lemma aggregate_checked:
  assumes "nodes_valid c m" and "node_tag c n = Inr t" and "is_aggregate_tag t"
  shows "\<exists>start r. exact_fields c n 1 = Inr start \<and> node_set_range c start 2 = Inr r"
proof -
  from nodes_validD [OF assms(1,2)] assms(2,3) have "validate_aggregate_expression c n m = Inr ()"
    by (auto simp: validate_supported_node_def is_aggregate_tag_def)
  with assms(2) show ?thesis by (auto simp: validate_aggregate_expression_def bnd_eq_Inr seq_eq_Inr)
qed

lemma single_child_checked:
  assumes "nodes_valid c m" and "node_tag c n = Inr t" and "is_recursive_class_expression_tag t"
    and "\<not> is_aggregate_tag t"
  shows "\<exists>ch. recursive_class_single_child c n = Inr (Some ch)"
proof -
  consider "is_restriction_tag t" | "t = TAG_OBJECT_COMPLEMENT_OF" | "t = TAG_OBJECT_EXACT_CARDINALITY"
    using assms(3,4) by (auto simp: is_recursive_class_expression_tag_def)
  then show ?thesis
  proof cases
    case 1
    with nodes_validD [OF assms(1,2)] assms(2) have "\<exists>p. restriction_projection c n m = Inr p"
      by (auto simp: validate_supported_node_def is_restriction_tag_def discard_eq_Inr)
    with 1 assms(2) show ?thesis
      by (auto simp: restriction_projection_def recursive_class_single_child_def is_restriction_tag_def
          bnd_eq_Inr map_res_eq_Inr seq_eq_Inr)
  next
    case 2
    with nodes_validD [OF assms(1,2)] assms(2) have "validate_nonprojecting_class_expression c n m = Inr ()"
      by (simp add: validate_supported_node_def)
    with 2 assms(2) show ?thesis
      by (auto simp: validate_nonprojecting_class_expression_def recursive_class_single_child_def
          is_data_class_expression_tag_def bnd_eq_Inr map_res_eq_Inr)
  next
    case 3
    with nodes_validD [OF assms(1,2)] assms(2) have "validate_nonprojecting_class_expression c n m = Inr ()"
      by (simp add: validate_supported_node_def)
    with 3 assms(2) show ?thesis
      by (auto simp: validate_nonprojecting_class_expression_def recursive_class_single_child_def
          bnd_eq_Inr map_res_eq_Inr seq_eq_Inr)
  qed
qed

lemma single_child_bounds: "recursive_class_single_child c n = Inr (Some ch) \<Longrightarrow> 1 \<le> ch \<and> ch \<le> node_count c"
  by (auto simp: recursive_class_single_child_def bnd_eq_Inr map_res_eq_Inr split: if_splits
      dest: field_node_bounds)

lemma push_fold_total:
  assumes "\<And>i. i \<in> set is \<Longrightarrow> \<exists>ch. item_node c i = Inr ch \<and> (\<forall>s. \<exists>s'. step ch s = Inr s')"
  shows "\<exists>s'. fold_res (\<lambda>i s. bnd (item_node c i) (\<lambda>child. step child s)) is stack = Inr s'"
  using assms
proof (induction "is" arbitrary: stack)
  case (Cons i rest)
  then obtain ch s1 where "item_node c i = Inr ch" "step ch stack = Inr s1" by (metis list.set_intros(1))
  with Cons show ?case by simp
qed simp

lemma push_child_total: "ch < length colors \<Longrightarrow> colors ! ch \<noteq> 1 \<Longrightarrow> \<exists>s'. push_child colors ch s = Inr s'"
  by (simp add: push_child_Inr)

interpretation annotation_exact: exact_walk "annotation_expand c" "annotation_children c"
  "\<lambda>n. nodes_valid c m \<and> node_tag c n = Inr TAG_ANNOTATION" "node_count c + 1" for c m
proof
  fix n :: usize and colors :: "nat list" and stack :: "event list"
  assume n: "nodes_valid c m \<and> node_tag c n = Inr TAG_ANNOTATION"
  from annotation_node_checked [OF nodes_validD [of c m n]] n obtain start a l where
    r: "exact_fields c n 3 = Inr start" "node_set_range c (start + 2) 0 = Inr (a, l)"
    and ann: "\<forall>ch \<in> range_nodes c (a, l). node_tag c ch = Inr TAG_ANNOTATION" by (metis surj_pair)
  have kids: "annotation_children c n = range_nodes c (a, l)" using r by (simp add: annotation_children_def)
  {
    assume len: "length colors = node_count c + 1" and col: "\<forall>ch \<in> annotation_children c n. colors ! ch \<noteq> 1"
    have "\<exists>ch. item_node c i = Inr ch \<and> (\<forall>s. \<exists>s'. seq (expect_tag c ch TAG_ANNOTATION) (push_child colors ch s) = Inr s')"
      if "i \<in> set (rev [a ..< a + l])" for i
    proof -
      from set_range_items [OF r(2), of i] that obtain ch where ch: "item_node c i = Inr ch" by auto
      with that have "ch \<in> range_nodes c (a, l)" by (auto simp: range_nodes_def)
      with ann col kids len range_nodes_bounds [of ch c "(a, l)"] ch show ?thesis
        by (auto simp: seq_eq_Inr expect_tag_Inr push_child_Inr)
    qed
    from push_fold_total [of "rev [a ..< a + l]", OF this] r
    show "\<exists>stack'. annotation_expand c n colors stack = Inr stack'"
      by (simp add: annotation_expand_def)
  }
  show "n < node_count c + 1" using n node_tag_bounds by fastforce
  fix ch assume "ch \<in> annotation_children c n"
  with ann kids n show "nodes_valid c m \<and> node_tag c ch = Inr TAG_ANNOTATION" by simp
qed

lemma set_children_total:
  assumes "node_set_range c start 2 = Inr (a, l)" and "length colors = node_count c + 1"
    and "\<And>ch. ch \<in> range_nodes c (a, l) \<Longrightarrow> \<exists>t. node_tag c ch = Inr t \<and>
      (if member t then colors ! ch \<noteq> 1 else \<forall>s. \<exists>s'. other ch s = Inr s')"
  shows "\<exists>s'. fold_res (\<lambda>i s. bnd (item_node c i) (\<lambda>child. bnd (node_tag c child) (\<lambda>tag.
       if \<not> member tag then other child s else push_child colors child s)))
     (rev [a ..< a + l]) stack = Inr s'"
proof (rule push_fold_total)
  fix i assume i: "i \<in> set (rev [a ..< a + l])"
  from set_range_items [OF assms(1), of i] i obtain ch where ch: "item_node c i = Inr ch" by auto
  with i have r: "ch \<in> range_nodes c (a, l)" by (auto simp: range_nodes_def)
  with assms(3) obtain t where t: "node_tag c ch = Inr t"
    "if member t then colors ! ch \<noteq> 1 else \<forall>s. \<exists>s'. other ch s = Inr s'" by blast
  with ch range_nodes_bounds [OF r] assms(2) push_child_total [of ch colors]
  show "\<exists>ch. item_node c i = Inr ch \<and> (\<forall>s. \<exists>s'. bnd (node_tag c ch) (\<lambda>tag.
       if \<not> member tag then other ch s else push_child colors ch s) = Inr s')"
    by (auto split: if_splits)
qed

interpretation data_range_exact: exact_walk "data_range_expand c m" "data_range_children c"
  "\<lambda>n. nodes_valid c m \<and> (\<exists>t. node_tag c n = Inr t \<and> is_recursive_data_range_tag t)" "node_count c + 1" for c m
proof
  fix n :: usize and colors :: "nat list" and stack :: "event list"
  assume n: "nodes_valid c m \<and> (\<exists>t. node_tag c n = Inr t \<and> is_recursive_data_range_tag t)"
  then obtain t where t: "node_tag c n = Inr t" "is_recursive_data_range_tag t" and v: "nodes_valid c m" by blast
  show "n < node_count c + 1" using t(1) node_tag_bounds by fastforce
  {
    assume len: "length colors = node_count c + 1" and col: "\<forall>ch \<in> data_range_children c n. colors ! ch \<noteq> 1"
    show "\<exists>stack'. data_range_expand c m n colors stack = Inr stack'"
    proof (cases "t = TAG_DATA_COMPLEMENT_OF")
      case True
      with data_range_child_checked [OF v, of n] t obtain start ch where ch: "exact_fields c n 1 = Inr start"
        "field_node c start = Inr ch" "validate_data_range_reference c ch m = Inr ()" by blast
      with nodes_valid_tag [OF v, of ch] field_node_bounds [OF ch(2)] obtain ct where ct: "node_tag c ch = Inr ct" by blast
      have "\<exists>s'. push_child colors ch stack = Inr s'" if "is_recursive_data_range_tag ct"
        using that ch ct t True col len field_node_bounds [OF ch(2)]
        by (intro push_child_total) (auto simp: data_range_children_def)
      with ch ct t True show ?thesis by (simp add: data_range_expand_def)
    next
      case False
      with t have t': "t = TAG_DATA_INTERSECTION_OF \<or> t = TAG_DATA_UNION_OF"
        by (auto simp: is_recursive_data_range_tag_def)
      from data_range_set_checked [OF v t(1) t'] obtain start a l where
        r: "exact_fields c n 1 = Inr start" "node_set_range c start 2 = Inr (a, l)"
        and ref: "\<forall>ch \<in> range_nodes c (a, l). validate_data_range_reference c ch m = Inr ()" by (metis surj_pair)
      have kids: "data_range_children c n = set_children c is_recursive_data_range_tag n"
        using t False by (simp add: data_range_children_def)
      have each: "\<exists>ct. node_tag c ch = Inr ct \<and> (if is_recursive_data_range_tag ct then colors ! ch \<noteq> 1
          else \<forall>s. \<exists>s'. seq (validate_data_range_reference c ch m) (Inr s) = Inr s')"
        if ch: "ch \<in> range_nodes c (a, l)" for ch
      proof -
        from nodes_valid_tag [OF v, of ch] range_nodes_bounds [OF ch] obtain ct where ct: "node_tag c ch = Inr ct" by blast
        then have "is_recursive_data_range_tag ct \<Longrightarrow> ch \<in> data_range_children c n"
          using r ch kids by (auto simp: set_children_def)
        with ct col ref ch show ?thesis by auto
      qed
      have "\<exists>s'. fold_res (\<lambda>i s. bnd (item_node c i) (\<lambda>child. bnd (node_tag c child) (\<lambda>tag.
          if \<not> is_recursive_data_range_tag tag then seq (validate_data_range_reference c child m) (Inr s)
          else push_child colors child s))) (rev [a ..< a + l]) stack = Inr s'"
        by (rule set_children_total [OF r(2) len]) (rule each)
      with r t t' show ?thesis by (auto simp: data_range_expand_def)
    qed
  }
  fix ch assume "ch \<in> data_range_children c n"
  with v show "nodes_valid c m \<and> (\<exists>t. node_tag c ch = Inr t \<and> is_recursive_data_range_tag t)"
    by (auto simp: data_range_children_def set_children_def split: if_splits)
qed

interpretation class_exact: exact_walk "class_expand c" "class_children c"
  "\<lambda>n. nodes_valid c m \<and> (\<exists>t. node_tag c n = Inr t \<and> is_recursive_class_expression_tag t)" "node_count c + 1" for c m
proof
  fix n :: usize and colors :: "nat list" and stack :: "event list"
  assume n: "nodes_valid c m \<and> (\<exists>t. node_tag c n = Inr t \<and> is_recursive_class_expression_tag t)"
  then obtain t where t: "node_tag c n = Inr t" "is_recursive_class_expression_tag t" and v: "nodes_valid c m" by blast
  show "n < node_count c + 1" using t(1) node_tag_bounds by fastforce
  {
    assume len: "length colors = node_count c + 1" and col: "\<forall>ch \<in> class_children c n. colors ! ch \<noteq> 1"
    show "\<exists>stack'. class_expand c n colors stack = Inr stack'"
    proof (cases "is_aggregate_tag t")
      case False
      from single_child_checked [OF v t False] obtain ch where ch: "recursive_class_single_child c n = Inr (Some ch)" by blast
      with nodes_valid_tag [OF v, of ch] single_child_bounds [OF ch] obtain ct where ct: "node_tag c ch = Inr ct" by blast
      have "\<exists>s'. push_child colors ch stack = Inr s'" if "is_recursive_class_expression_tag ct"
        using that ch ct t False col len single_child_bounds [OF ch]
        by (intro push_child_total) (auto simp: class_children_def)
      with ch ct t False show ?thesis by (simp add: class_expand_def)
    next
      case True
      from aggregate_checked [OF v t(1) True] obtain start a l where
        r: "exact_fields c n 1 = Inr start" "node_set_range c start 2 = Inr (a, l)" by (metis surj_pair)
      have kids: "class_children c n = set_children c is_recursive_class_expression_tag n"
        using t True by (simp add: class_children_def)
      have each: "\<exists>ct. node_tag c ch = Inr ct \<and> (if is_recursive_class_expression_tag ct then colors ! ch \<noteq> 1
          else \<forall>s. \<exists>s'. Inr s = (Inr s' :: event list kres))"
        if ch: "ch \<in> range_nodes c (a, l)" for ch
      proof -
        from nodes_valid_tag [OF v, of ch] range_nodes_bounds [OF ch] obtain ct where ct: "node_tag c ch = Inr ct" by blast
        then have "is_recursive_class_expression_tag ct \<Longrightarrow> ch \<in> class_children c n"
          using r ch kids by (auto simp: set_children_def)
        with ct col show ?thesis by auto
      qed
      have "\<exists>s'. fold_res (\<lambda>i s. bnd (item_node c i) (\<lambda>child. bnd (node_tag c child) (\<lambda>tag.
          if \<not> is_recursive_class_expression_tag tag then Inr s
          else push_child colors child s))) (rev [a ..< a + l]) stack = Inr s'"
        by (rule set_children_total [OF r(2) len]) (rule each)
      with r t True show ?thesis by (simp add: class_expand_def)
    qed
  }
  fix ch assume "ch \<in> class_children c n"
  with v show "nodes_valid c m \<and> (\<exists>t. node_tag c ch = Inr t \<and> is_recursive_class_expression_tag t)"
    by (auto simp: class_children_def set_children_def split: if_splits)
qed

section \<open>The three graphs\<close>

definition annotation_edges :: "direct_columns \<Rightarrow> (usize \<times> usize) set" where
  "annotation_edges c = {(ch, n). ch \<in> annotation_children c n \<and> node_tag c n = Inr TAG_ANNOTATION}"

definition class_edges :: "direct_columns \<Rightarrow> (usize \<times> usize) set" where
  "class_edges c = {(ch, n). ch \<in> class_children c n \<and>
     (\<exists>tag. node_tag c n = Inr tag \<and> is_recursive_class_expression_tag tag)}"

definition data_range_edges :: "direct_columns \<Rightarrow> (usize \<times> usize) set" where
  "data_range_edges c = {(ch, n). ch \<in> data_range_children c n \<and>
     (\<exists>tag. node_tag c n = Inr tag \<and> is_recursive_data_range_tag tag)}"

lemma some_node_False:
  "some_node st c test = Inr False \<Longrightarrow> node_tag c n = Inr t \<Longrightarrow> test n = Inr False"
  using node_tag_bounds [of c n t]
  by (auto simp: some_node_def exists_res_False seq_eq_Inr less_Suc_eq_le simp del: upt_Suc)

lemma some_node_total:
  assumes "\<And>n. 1 \<le> n \<Longrightarrow> n \<le> node_count c \<Longrightarrow> \<exists>b. test n = Inr b"
  shows "some_node st c test \<in> {Inr True, Inr False, Inl Cancelled}"
proof -
  have "exists_res (\<lambda>n. seq (check_cancel st n) (test n)) xs \<in> {Inr True, Inr False, Inl Cancelled}"
    if "\<forall>n \<in> set xs. \<exists>b. test n = Inr b" for xs
    using that
  proof (induction xs)
    case (Cons x xs)
    then obtain b where "test x = Inr b" by auto
    with Cons show ?case by (cases b; cases "check_cancel st x") (auto simp: check_cancel_def split: if_splits)
  qed simp
  then show ?thesis using assms by (auto simp: some_node_def less_Suc_eq_le simp del: upt_Suc)
qed

lemma annotation_graph_sound: "validate_annotation_graph c st = Inr u \<Longrightarrow> wf (annotation_edges c)"
proof -
  let ?test = "\<lambda>node_id. bnd (node_tag c node_id) (\<lambda>tag.
       if tag \<noteq> TAG_ANNOTATION then Inr False else
       bnd (exact_fields c node_id 3) (\<lambda>start.
       bnd (node_set_range c (start + 2) 0) (\<lambda>(item_start, len). Inr (len \<noteq> 0))))"
  assume run: "validate_annotation_graph c st = Inr u"
  then consider "some_node st c ?test = Inr False"
    | "walk_all st c (\<lambda>tag. tag = TAG_ANNOTATION) (annotation_expand c) = Inr u"
    by (auto simp: validate_annotation_graph_def bnd_eq_Inr split: if_splits)
  then show ?thesis
  proof cases
    case 1
    have "annotation_children c n = {}" if "node_tag c n = Inr TAG_ANNOTATION" for n
      using some_node_False [OF 1 that] that
      by (auto simp: annotation_children_def range_nodes_def bnd_eq_Inr)
    then have "annotation_edges c = {}" by (auto simp: annotation_edges_def)
    then show ?thesis by simp
  next
    case 2
    from annotation_walk.walk_all_acyclic [OF 2] show ?thesis by (simp add: annotation_edges_def)
  qed
qed

lemma data_range_graph_sound: "validate_data_range_graph c m st = Inr u \<Longrightarrow> wf (data_range_edges c)"
proof -
  assume "validate_data_range_graph c m st = Inr u"
  then consider "some_node st c (\<lambda>n. map_res is_recursive_data_range_tag (node_tag c n)) = Inr False"
    | "walk_all st c is_recursive_data_range_tag (data_range_expand c m) = Inr u"
    by (auto simp: validate_data_range_graph_def bnd_eq_Inr split: if_splits)
  then show ?thesis
  proof cases
    case 1
    from some_node_False [OF 1] have "data_range_edges c = {}" by (fastforce simp: data_range_edges_def)
    then show ?thesis by simp
  next
    case 2
    from data_range_walk.walk_all_acyclic [OF 2] show ?thesis by (simp add: data_range_edges_def)
  qed
qed

lemma no_class_edge:
  assumes "has_recursive_class_edge c n = Inr False" and "node_tag c n = Inr t"
    and "is_recursive_class_expression_tag t"
  shows "class_children c n = {}"
proof (cases "is_aggregate_tag t")
  case True
  with assms show ?thesis
    by (auto simp: has_recursive_class_edge_def class_children_def set_children_def range_nodes_def
        bnd_eq_Inr exists_res_False map_res_eq_Inr) (metis atLeastLessThan_iff sum.inject(2))
next
  case False
  with assms obtain single where single: "recursive_class_single_child c n = Inr single"
    and "(case single of None \<Rightarrow> Inr False
       | Some child \<Rightarrow> map_res is_recursive_class_expression_tag (node_tag c child)) = Inr False"
    by (auto simp: has_recursive_class_edge_def bnd_eq_Inr)
  with False assms(2) show ?thesis by (cases single) (auto simp: class_children_def map_res_eq_Inr)
qed

lemma class_graph_sound: "validate_recursive_class_expression_graph c st = Inr u \<Longrightarrow> wf (class_edges c)"
proof -
  assume "validate_recursive_class_expression_graph c st = Inr u"
  then consider "some_node st c (has_recursive_class_edge c) = Inr False"
    | "walk_all st c is_recursive_class_expression_tag (class_expand c) = Inr u"
    by (auto simp: validate_recursive_class_expression_graph_def bnd_eq_Inr split: if_splits)
  then show ?thesis
  proof cases
    case 1
    with some_node_False no_class_edge have "class_edges c = {}" by (fastforce simp: class_edges_def)
    then show ?thesis by simp
  next
    case 2
    from class_walk.walk_all_acyclic [OF 2] show ?thesis by (simp add: class_edges_def)
  qed
qed

lemma acyclic_restrict: "acyclic R \<Longrightarrow> S \<subseteq> R \<Longrightarrow> acyclic S"
  by (rule acyclic_subset)

lemma annotation_graph_complete:
  assumes "nodes_valid c m" and "acyclic (annotation_edges c)"
  shows "validate_annotation_graph c st \<in> {Inr (), Inl Resource, Inl Cancelled}"
proof -
  let ?test = "\<lambda>node_id. bnd (node_tag c node_id) (\<lambda>tag.
       if tag \<noteq> TAG_ANNOTATION then Inr False else
       bnd (exact_fields c node_id 3) (\<lambda>start.
       bnd (node_set_range c (start + 2) 0) (\<lambda>(item_start, len). Inr (len \<noteq> 0))))"
  have "\<exists>b. ?test n = Inr b" if n: "1 \<le> n" "n \<le> node_count c" for n
  proof -
    from nodes_valid_tag [OF assms(1) n] obtain t where t: "node_tag c n = Inr t" by blast
    with annotation_node_checked [OF nodes_validD [OF assms(1) t]] show ?thesis
      by (cases "t = TAG_ANNOTATION") auto
  qed
  from some_node_total [of c ?test st, OF this] have pre: "some_node st c ?test \<in> {Inr True, Inr False, Inl Cancelled}" .
  have "acyclic (annotation_exact.rgraph c m)"
    by (rule acyclic_restrict [OF assms(2)])
      (unfold annotation_edges_def annotation_exact.rgraph_def, blast)
  from annotation_exact.walk_all_complete [OF this, where c = c and st = st and member = "\<lambda>tag. tag = TAG_ANNOTATION"]
  have "walk_all st c (\<lambda>tag. tag = TAG_ANNOTATION) (annotation_expand c) \<in> {Inr (), Inl Resource, Inl Cancelled}"
    using nodes_valid_tag [OF assms(1)] assms(1) by blast
  with pre show ?thesis by (auto simp: validate_annotation_graph_def)
qed

lemma data_range_graph_complete:
  assumes "nodes_valid c m" and "acyclic (data_range_edges c)"
  shows "validate_data_range_graph c m st \<in> {Inr (), Inl Resource, Inl Cancelled}"
proof -
  let ?test = "\<lambda>n. map_res is_recursive_data_range_tag (node_tag c n)"
  have "\<exists>b. ?test n = Inr b" if "1 \<le> n" "n \<le> node_count c" for n
    using nodes_valid_tag [OF assms(1) that] by auto
  from some_node_total [of c ?test st, OF this] have pre: "some_node st c ?test \<in> {Inr True, Inr False, Inl Cancelled}" .
  have "acyclic (data_range_exact.rgraph c m)"
    by (rule acyclic_restrict [OF assms(2)])
      (unfold data_range_edges_def data_range_exact.rgraph_def, blast)
  from data_range_exact.walk_all_complete [OF this, where c = c and st = st and member = is_recursive_data_range_tag]
  have "walk_all st c is_recursive_data_range_tag (data_range_expand c m) \<in> {Inr (), Inl Resource, Inl Cancelled}"
    using nodes_valid_tag [OF assms(1)] assms(1) by blast
  with pre show ?thesis by (auto simp: validate_data_range_graph_def)
qed

lemma has_recursive_class_edge_total:
  assumes "nodes_valid c m" and "1 \<le> n" and "n \<le> node_count c"
  shows "\<exists>b. has_recursive_class_edge c n = Inr b"
proof -
  from nodes_valid_tag [OF assms] obtain t where t: "node_tag c n = Inr t" by blast
  consider "\<not> is_recursive_class_expression_tag t" | "is_recursive_class_expression_tag t" "is_aggregate_tag t"
    | "is_recursive_class_expression_tag t" "\<not> is_aggregate_tag t" by blast
  then show ?thesis
  proof cases
    case 2
    from aggregate_checked [OF assms(1) t 2(2)] obtain start a l where
      r: "exact_fields c n 1 = Inr start" "node_set_range c start 2 = Inr (a, l)" by (metis surj_pair)
    have "\<exists>b. exists_res (\<lambda>i. bnd (item_node c i) (\<lambda>child.
         map_res is_recursive_class_expression_tag (node_tag c child))) xs = Inr b"
      if "set xs \<subseteq> {a ..< a + l}" for xs
      using that
    proof (induction xs)
      case (Cons x xs)
      then obtain ch where ch: "item_node c x = Inr ch" using set_range_items [OF r(2), of x] by auto
      with nodes_valid_tag [OF assms(1), of ch] item_node_bounds [OF ch] Cons show ?case by auto
    qed auto
    from this [of "[a ..< a + l]"] r t 2 show ?thesis by (simp add: has_recursive_class_edge_def)
  next
    case 3
    from single_child_checked [OF assms(1) t 3] obtain ch where
      ch: "recursive_class_single_child c n = Inr (Some ch)" by blast
    with nodes_valid_tag [OF assms(1), of ch] single_child_bounds [OF ch] t 3 show ?thesis
      by (auto simp: has_recursive_class_edge_def)
  qed (use t in \<open>auto simp: has_recursive_class_edge_def\<close>)
qed

lemma class_graph_complete:
  assumes "nodes_valid c m" and "acyclic (class_edges c)"
  shows "validate_recursive_class_expression_graph c st \<in> {Inr (), Inl Resource, Inl Cancelled}"
proof -
  from some_node_total [of c "has_recursive_class_edge c" st, OF has_recursive_class_edge_total [OF assms(1)]]
  have pre: "some_node st c (has_recursive_class_edge c) \<in> {Inr True, Inr False, Inl Cancelled}" .
  have "acyclic (class_exact.rgraph c m)"
    by (rule acyclic_restrict [OF assms(2)])
      (unfold class_edges_def class_exact.rgraph_def, blast)
  from class_exact.walk_all_complete [OF this, where c = c and st = st and member = is_recursive_class_expression_tag]
  have "walk_all st c is_recursive_class_expression_tag (class_expand c) \<in> {Inr (), Inl Resource, Inl Cancelled}"
    using nodes_valid_tag [OF assms(1)] assms(1) by blast
  with pre show ?thesis by (auto simp: validate_recursive_class_expression_graph_def)
qed

lemma node_pass_total:
  assumes "nodes_valid c m"
  shows "for_each (\<lambda>n. seq (check_cancel st n) (validate_supported_node c m n)) [1 ..< node_count c + 1]
    \<in> {Inr (), Inl Cancelled}"
proof -
  have "for_each (\<lambda>n. seq (check_cancel st n) (validate_supported_node c m n)) xs \<in> {Inr (), Inl Cancelled}"
    if "\<forall>n \<in> set xs. validate_supported_node c m n = Inr ()" for xs
    using that by (induction xs) (auto simp: check_cancel_def)
  then show ?thesis using assms by (auto simp: nodes_valid_def less_Suc_eq_le simp del: upt_Suc)
qed

section \<open>Properties\<close>

text \<open>
  C29: what the node pass accepts. If \<open>validate_supported_nodes\<close> succeeds, every node
  passed the validator of its tag and the three reference graphs (nested annotations,
  nested class expressions, nested data ranges) are well-founded, so no later traversal
  can loop. Conversely, on a table whose nodes pass and whose graphs have no cycle, the
  pass succeeds, unless it is cancelled or a work counter overflows: the colouring
  rejects nothing but genuine cycles and never indexes out of range.
\<close>
theorem supported_nodes_characterised:
  "(validate_supported_nodes c m st = Inr () \<longrightarrow>
      nodes_valid c m \<and> wf (annotation_edges c) \<and> wf (class_edges c) \<and> wf (data_range_edges c)) \<and>
   (nodes_valid c m \<and> acyclic (annotation_edges c) \<and> acyclic (class_edges c) \<and> acyclic (data_range_edges c) \<longrightarrow>
      validate_supported_nodes c m st \<in> {Inr (), Inl Resource, Inl Cancelled})"
proof (intro conjI impI)
  assume "validate_supported_nodes c m st = Inr ()"
  then show "nodes_valid c m" "wf (annotation_edges c)" "wf (class_edges c)" "wf (data_range_edges c)"
    using annotation_graph_sound class_graph_sound data_range_graph_sound
    by (auto simp: validate_supported_nodes_def seq_eq_Inr for_each_eq_Inr nodes_valid_def less_Suc_eq_le
        simp del: upt_Suc)
next
  assume "nodes_valid c m \<and> acyclic (annotation_edges c) \<and> acyclic (class_edges c) \<and> acyclic (data_range_edges c)"
  then have a: "nodes_valid c m" "acyclic (annotation_edges c)" "acyclic (class_edges c)" "acyclic (data_range_edges c)"
    by blast+
  from node_pass_total [OF a(1), of st] annotation_graph_complete [OF a(1,2), of st]
    class_graph_complete [OF a(1,3), of st] data_range_graph_complete [OF a(1,4), of st]
  show "validate_supported_nodes c m st \<in> {Inr (), Inl Resource, Inl Cancelled}"
    by (auto simp: validate_supported_nodes_def simp del: upt_Suc)
qed

definition sample_rows :: "node_row list" where
  "sample_rows = [(TAG_IRI, [CText ''p'']), (TAG_ENTITY, [CEnum ''annotation_property'', CNode 1]),
     (TAG_ANNOTATION, [CNode 2, CNode 1, CSet [4]]), (TAG_ANNOTATION, [CNode 2, CNode 1, CSet []])]"

definition sample_table :: direct_columns where
  "sample_table = encode_table (\<lambda>ch. [ch]) sample_rows []"

lemmas validator_defs = from_utf8_def byte_values_def validate_supported_nodes_def validate_supported_node_def
  validate_annotation_graph_def validate_recursive_class_expression_graph_def validate_data_range_graph_def
  some_node_def walk_all_def annotation_expand_def push_child_def load_def store_def queue_event_def
  validate_annotation_def named_annotation_property_iri_def named_entity_iri_def
  validate_metadata_annotation_value_def validate_annotation_set_def check_cancel_def STATE_CANCELLED_def
  is_recursive_data_range_tag_def has_recursive_class_edge_def is_recursive_class_expression_tag_def
  is_aggregate_tag_def is_restriction_tag_def ENTITY_KINDS_def

lemma sample_table_accepted: "validate_supported_nodes sample_table 100 STATE_RUNNING = Inr ()"
  by (simp add: sample_table_def sample_rows_def table_eval validator_defs STATE_RUNNING_def upt_rec)
    (simp add: numeral_eq_Suc)

theorem supported_nodes_characterised_witness:
  "nodes_valid sample_table 100 \<and> wf (annotation_edges sample_table) \<and>
   validate_supported_nodes sample_table 100 STATE_RUNNING \<in> {Inr (), Inl Resource, Inl Cancelled} \<and>
   (4, 3) \<in> annotation_edges sample_table"
proof -
  from supported_nodes_characterised [of sample_table 100 STATE_RUNNING] sample_table_accepted
  have ok: "nodes_valid sample_table 100" "wf (annotation_edges sample_table)" "wf (class_edges sample_table)"
    "wf (data_range_edges sample_table)" by blast+
  with supported_nodes_characterised [of sample_table 100 STATE_RUNNING]
  have "validate_supported_nodes sample_table 100 STATE_RUNNING \<in> {Inr (), Inl Resource, Inl Cancelled}"
    by (blast intro: wf_acyclic)
  moreover have "(4, 3) \<in> annotation_edges sample_table"
    by (simp add: annotation_edges_def annotation_children_def range_nodes_def sample_table_def sample_rows_def table_eval)
  ultimately show ?thesis using ok by simp
qed

end
