(* ===== verification/Reachability.thy ===== *)
theory Reachability
  imports Generic_Validation Supported_Nodes
begin

text \<open>
  Reachability of nodes from roots (\<open>root_contains_anonymous_individual\<close>,
  \<open>mark_root_reachable\<close> and \<open>axiom_anonymous_ids\<close> of \<open>encoded_direct.rs\<close>).

  The three functions share one worklist loop: a stack of node identifiers (its top is the
  head of the list) and a table of marks indexed by identifier. An entry is marked when it is
  pushed, so that the stack length plus the number of unmarked entries falls at every
  iteration, which is the termination measure. On a well-formed table the loop never fails
  and the marks it leaves are exactly the nodes reachable over node fields and node items.
\<close>

section \<open>Worklist\<close>

type_synonym worklist = "usize list \<times> bool list"

definition queue_reachable_node :: "worklist \<Rightarrow> usize \<Rightarrow> worklist kres" where
  "queue_reachable_node s node_id =
     bnd (load (snd s) node_id) (\<lambda>marked.
     if marked then Inr s
     else map_res (\<lambda>reachable. (node_id # fst s, reachable)) (store (snd s) node_id True))"

definition visit_item :: "direct_columns \<Rightarrow> usize \<Rightarrow> worklist \<Rightarrow> worklist kres" where
  "visit_item c item_index s =
     bnd (load (item_kinds c) item_index) (\<lambda>kind.
     if kind = char_of COMPONENT_NODE then bnd (item_node c item_index) (queue_reachable_node s)
     else Inr s)"

definition visit_field :: "direct_columns \<Rightarrow> usize \<Rightarrow> worklist \<Rightarrow> worklist kres" where
  "visit_field c field_index s =
     bnd (field_kind c field_index) (\<lambda>kind.
     if kind = COMPONENT_NODE then bnd (field_node c field_index) (queue_reachable_node s) else
     if kind \<notin> {COMPONENT_SET, COMPONENT_SEQUENCE} then Inr s else
     bnd (field_value c field_index) (\<lambda>item_start.
     bnd (field_length c field_index) (\<lambda>len.
     fold_res (visit_item c) [item_start ..< item_start + len] s)))"

definition visit_node :: "direct_columns \<Rightarrow> usize \<Rightarrow> worklist \<Rightarrow> worklist kres" where
  "visit_node c node_id s =
     bnd (field_range c node_id) (\<lambda>(start, stop). fold_res (visit_field c) [start ..< stop] s)"

definition potential :: "worklist \<Rightarrow> nat" where
  "potential s = length (fst s) + count_list (snd s) False"

lemma count_list_mark:
  "i < length xs \<Longrightarrow> \<not> xs ! i \<Longrightarrow> Suc (count_list (xs[i := True]) False) = count_list xs False"
proof (induction xs arbitrary: i)
  case (Cons x xs)
  then show ?case by (cases i) auto
qed simp

lemma queue_potential: "queue_reachable_node s n = Inr s' \<Longrightarrow> potential s' = potential s"
  using count_list_mark [of n "snd s"]
  by (auto simp: queue_reachable_node_def potential_def res_simps split: if_splits)

lemma visit_item_potential: "visit_item c i s = Inr s' \<Longrightarrow> potential s' = potential s"
  by (auto simp: visit_item_def bnd_eq_Inr queue_potential split: if_splits)

lemma fold_potential:
  assumes "\<And>x s s'. f x s = Inr s' \<Longrightarrow> potential s' = potential s"
  shows "fold_res f xs s = Inr s' \<Longrightarrow> potential s' = potential s"
  using fold_res_invariant [of f xs s s' "\<lambda>t. potential t = potential s"] assms by metis

lemma visit_items_potential: "fold_res (visit_item c) xs s = Inr s' \<Longrightarrow> potential s' = potential s"
  by (rule fold_potential) (rule visit_item_potential)

lemma visit_field_potential: "visit_field c i s = Inr s' \<Longrightarrow> potential s' = potential s"
  by (auto simp: visit_field_def bnd_eq_Inr queue_potential visit_items_potential split: if_splits)

lemma visit_fields_potential: "fold_res (visit_field c) xs s = Inr s' \<Longrightarrow> potential s' = potential s"
  by (rule fold_potential) (rule visit_field_potential)

lemma visit_node_potential: "visit_node c n s = Inr s' \<Longrightarrow> potential s' = potential s"
  by (auto simp: visit_node_def bnd_eq_Inr visit_fields_potential)

function mark_loop :: "direct_columns \<Rightarrow> nat \<Rightarrow> worklist \<Rightarrow> bool list kres" where
  "mark_loop c st s =
     (case s of
        ([], reachable) \<Rightarrow> Inr reachable
      | (node_id # rest, reachable) \<Rightarrow>
          seq (check_cancel st node_id) (bnd (visit_node c node_id (rest, reachable)) (mark_loop c st)))"
  by pat_completeness auto
termination
  by (relation "measure (\<lambda>(c, st, s). potential s)")
    (auto dest!: visit_node_potential simp: potential_def)

function contains_loop :: "direct_columns \<Rightarrow> nat \<Rightarrow> worklist \<Rightarrow> bool kres" where
  "contains_loop c st s =
     (case s of
        ([], reachable) \<Rightarrow> Inr False
      | (node_id # rest, reachable) \<Rightarrow>
          seq (check_cancel st node_id) (
          bnd (node_tag c node_id) (\<lambda>tag.
          if tag = TAG_ANONYMOUS_INDIVIDUAL then Inr True
          else bnd (visit_node c node_id (rest, reachable)) (contains_loop c st))))"
  by pat_completeness auto
termination
  by (relation "measure (\<lambda>(c, st, s). potential s)")
    (auto dest!: visit_node_potential simp: potential_def)

declare mark_loop.simps [simp del] contains_loop.simps [simp del]

definition reachability_length :: "direct_columns \<Rightarrow> usize kres" where
  "reachability_length c = ok_or Resource (checked_add (node_count c) 1)"

definition root_contains_anonymous_individual :: "direct_columns \<Rightarrow> usize \<Rightarrow> nat \<Rightarrow> bool kres" where
  "root_contains_anonymous_individual c root st =
     bnd (reachability_length c) (\<lambda>len.
     bnd (queue_reachable_node ([], replicate len False) root) (contains_loop c st))"

text \<open>The caller's stack is cleared on entry and empty on a successful exit, so only the marks
  are passed.\<close>

definition mark_root_reachable :: "direct_columns \<Rightarrow> usize \<Rightarrow> bool list \<Rightarrow> nat \<Rightarrow> bool list kres" where
  "mark_root_reachable c root reachable st =
     bnd (reachability_length c) (\<lambda>len.
     seq (reject_if (length reachable \<noteq> len) Malformed) (
     bnd (queue_reachable_node ([], reachable) root) (mark_loop c st)))"

definition queue_axiom_root :: "direct_columns \<Rightarrow> nat \<Rightarrow> usize \<Rightarrow> worklist \<Rightarrow> worklist kres" where
  "queue_axiom_root c st root_index s =
     seq (check_cancel st root_index) (
     bnd (root_is_selected c root_index) (\<lambda>chosen.
     if \<not> chosen then Inr s else
     bnd (root_kind c root_index) (\<lambda>kind.
     if kind \<noteq> ROOT_AXIOM then Inr s else
     bnd (root_id c root_index) (queue_reachable_node s))))"

definition anonymous_step :: "direct_columns \<Rightarrow> nat \<Rightarrow> bool list \<Rightarrow> usize \<Rightarrow> usize option \<times> usize
    \<Rightarrow> (usize option \<times> usize) kres" where
  "anonymous_step c st reachable node_id s =
     seq (check_cancel st node_id) (
     if \<not> reachable ! node_id then Inr s else
     bnd (node_tag c node_id) (\<lambda>tag.
     if tag \<noteq> TAG_ANONYMOUS_INDIVIDUAL then Inr s else
     bnd (case fst s of None \<Rightarrow> Inr ()
          | Some previous_id \<Rightarrow>
              bnd (compare_anonymous_nodes c previous_id node_id) (\<lambda>order.
              reject_if (order \<noteq> Less) Malformed)) (\<lambda>_.
     map_res (\<lambda>count. (Some node_id, count)) (ok_or Resource (checked_add (snd s) 1)))))"

definition collect_step :: "direct_columns \<Rightarrow> bool list \<Rightarrow> usize \<Rightarrow> usize list \<Rightarrow> usize list kres" where
  "collect_step c reachable node_id ids =
     (if \<not> reachable ! node_id then Inr ids else
      map_res (\<lambda>tag. if tag = TAG_ANONYMOUS_INDIVIDUAL then ids @ [node_id] else ids) (node_tag c node_id))"

definition axiom_anonymous_ids :: "direct_columns \<Rightarrow> nat \<Rightarrow> anonymous_ids kres" where
  "axiom_anonymous_ids c st =
     bnd (exists_res (\<lambda>node_id. seq (check_cancel st node_id)
            (map_res (\<lambda>tag. tag = TAG_ANONYMOUS_INDIVIDUAL) (node_tag c node_id)))
          [1 ..< node_count c + 1]) (\<lambda>has_anonymous_individual.
     if \<not> has_anonymous_individual then Inr anonymous_ids_default else
     bnd (reachability_length c) (\<lambda>len.
     bnd (fold_res (queue_axiom_root c st) [0 ..< root_count c] ([], replicate len False)) (\<lambda>queued.
     bnd (mark_loop c st queued) (\<lambda>reachable.
     bnd (fold_res (anonymous_step c st reachable) [1 ..< length reachable] (None, 0)) (\<lambda>_.
     bnd (fold_res (collect_step c reachable) [1 ..< length reachable] []) (\<lambda>ids.
     Inr \<lparr> node_ids = ids, global_positions = None, single_position = None \<rparr>))))))"

section \<open>Children and reachability\<close>

definition field_child :: "direct_columns \<Rightarrow> usize \<Rightarrow> usize \<Rightarrow> bool" where
  "field_child c f m \<longleftrightarrow>
     field_node c f = Inr m \<or>
     (\<exists>kind v len i. field_kind c f = Inr kind \<and> kind \<in> {COMPONENT_SET, COMPONENT_SEQUENCE} \<and>
        field_value c f = Inr v \<and> field_length c f = Inr len \<and> i \<in> {v ..< v + len} \<and> item_node c i = Inr m)"

definition has_child :: "direct_columns \<Rightarrow> usize \<Rightarrow> usize \<Rightarrow> bool" where
  "has_child c n m \<longleftrightarrow> (\<exists>a b. field_range c n = Inr (a, b) \<and> (\<exists>f \<in> {a ..< b}. field_child c f m))"

definition reaches :: "direct_columns \<Rightarrow> usize \<Rightarrow> usize \<Rightarrow> bool" where
  "reaches c = (has_child c)\<^sup>*\<^sup>*"

text \<open>A visitor queues a list of nodes whose set is \<open>C\<close>, and never fails on marks of the
  table's length.\<close>

definition queue_pure :: "usize \<Rightarrow> worklist \<Rightarrow> worklist" where
  "queue_pure n s = (if snd s ! n then s else (n # fst s, (snd s)[n := True]))"

definition queues :: "direct_columns \<Rightarrow> (worklist \<Rightarrow> worklist kres) \<Rightarrow> usize set \<Rightarrow> bool" where
  "queues c f C \<longleftrightarrow> C \<subseteq> {1 .. node_count c} \<and>
     (\<exists>ms. set ms = C \<and> (\<forall>s. length (snd s) = node_count c + 1 \<longrightarrow> f s = Inr (fold queue_pure ms s)))"

lemma length_queue_pure [simp]: "length (snd (fold queue_pure ms s)) = length (snd s)"
  by (induction ms arbitrary: s) (auto simp: queue_pure_def)

lemma queues_node:
  "1 \<le> n \<Longrightarrow> n \<le> node_count c \<Longrightarrow> queues c (\<lambda>s. queue_reachable_node s n) {n}"
  unfolding queues_def
  by (rule conjI, simp, rule exI [of _ "[n]"])
    (auto simp: queue_reachable_node_def load_def get_at_def store_def queue_pure_def)

lemma queues_none: "queues c Inr {}"
  unfolding queues_def by (rule conjI, simp, rule exI [of _ "[]"]) simp

lemma queues_cong: "queues c f C \<Longrightarrow> (\<And>s. f s = g s) \<Longrightarrow> queues c g C"
  by (metis ext)

lemma queues_fold:
  assumes "\<And>x. x \<in> set xs \<Longrightarrow> queues c (f x) (C x)"
  shows "queues c (fold_res f xs) (\<Union>x \<in> set xs. C x)"
  using assms
proof (induction xs)
  case Nil
  then show ?case using queues_none queues_cong by fastforce
next
  case (Cons x xs)
  from Cons.prems [of x] obtain ms where ms: "set ms = C x"
    "\<forall>s. length (snd s) = node_count c + 1 \<longrightarrow> f x s = Inr (fold queue_pure ms s)" "C x \<subseteq> {1 .. node_count c}"
    unfolding queues_def by auto
  from Cons obtain ns where ns: "set ns = (\<Union>x \<in> set xs. C x)" "(\<Union>x \<in> set xs. C x) \<subseteq> {1 .. node_count c}"
    "\<forall>s. length (snd s) = node_count c + 1 \<longrightarrow> fold_res f xs s = Inr (fold queue_pure ns s)"
    unfolding queues_def by auto
  show ?case unfolding queues_def
    by (rule conjI, use ms ns in simp, rule exI [of _ "ms @ ns"])
      (use ms ns in \<open>simp del: split_paired_All\<close>)
qed

lemma queues_item:
  assumes "i < item_count c" and "item_kinds c ! i = char_of COMPONENT_NODE \<Longrightarrow> \<exists>n. item_node c i = Inr n"
  shows "queues c (visit_item c i) {m. item_node c i = Inr m}"
proof (cases "item_kinds c ! i = char_of COMPONENT_NODE")
  case True
  with assms(2) obtain n where n: "item_node c i = Inr n" by blast
  with item_node_bounds [OF n] queues_node [of n c] queues_cong [OF _, of c _ "{n}" "visit_item c i"] show ?thesis
    using assms(1) True by (auto simp: visit_item_def load_def get_at_def item_count_def)
next
  case False
  then have "of_char (item_kinds c ! i) \<noteq> COMPONENT_NODE" by (metis char_of_char)
  with assms(1) have "\<And>m. item_node c i \<noteq> Inr m"
    by (auto simp: item_node_def read_u8_def res_simps item_count_def split: if_splits)
  with False assms(1) show ?thesis
    by (auto simp: visit_item_def load_def get_at_def item_count_def intro: queues_cong [OF queues_none])
qed

lemma queues_field:
  assumes "field_ok c f"
  shows "queues c (visit_field c f) {m. field_child c f m}"
proof -
  obtain kind v len where r: "field_kind c f = Inr kind" "field_value c f = Inr v" "field_length c f = Inr len"
    and node: "kind = COMPONENT_NODE \<Longrightarrow> field_node c f = Inr v"
    and items: "kind \<in> {COMPONENT_SET, COMPONENT_SEQUENCE} \<Longrightarrow> v + len \<le> item_count c \<and>
        (\<forall>i \<in> {v ..< v + len}. item_kinds c ! i = char_of COMPONENT_NODE \<longrightarrow> (\<exists>n. item_node c i = Inr n))"
    using field_ok_nodes [OF assms] by blast
  have only: "kind = COMPONENT_NODE" if "field_node c f = Inr m" for m
    using that r by (auto simp: field_node_def split: if_splits)
  consider (node) "kind = COMPONENT_NODE" | (coll) "kind \<in> {COMPONENT_SET, COMPONENT_SEQUENCE}"
    | (leaf) "kind \<noteq> COMPONENT_NODE" "kind \<notin> {COMPONENT_SET, COMPONENT_SEQUENCE}" by blast
  then show ?thesis
  proof cases
    case node
    then have "{m. field_child c f m} = {v}" using r assms(1) \<open>kind = COMPONENT_NODE \<Longrightarrow> field_node c f = Inr v\<close>
      by (auto simp: field_child_def)
    with node r \<open>kind = COMPONENT_NODE \<Longrightarrow> field_node c f = Inr v\<close> show ?thesis
      using queues_cong [OF queues_node, of v c "visit_field c f"] field_node_bounds [of c f v]
      by (simp add: visit_field_def)
  next
    case coll
    have "queues c (fold_res (visit_item c) [v ..< v + len]) (\<Union>i \<in> set [v ..< v + len]. {m. item_node c i = Inr m})"
      using items coll by (intro queues_fold queues_item) auto
    moreover have "(\<Union>i \<in> set [v ..< v + len]. {m. item_node c i = Inr m}) = {m. field_child c f m}"
      using coll r only by (auto simp: field_child_def)
    ultimately show ?thesis using coll r by (auto simp: visit_field_def intro: queues_cong)
  next
    case leaf
    with r only have "{m. field_child c f m} = {}" by (auto simp: field_child_def)
    with leaf r show ?thesis by (auto simp: visit_field_def intro: queues_cong [OF queues_none])
  qed
qed

lemma queues_visit:
  assumes "well_formed c" and "1 \<le> n" and "n \<le> node_count c"
  shows "queues c (visit_node c n) {m. has_child c n m}"
proof -
  from assms obtain a b where r: "field_range c n = Inr (a, b)" unfolding well_formed_def by blast
  have "queues c (fold_res (visit_field c) [a ..< b]) (\<Union>f \<in> set [a ..< b]. {m. field_child c f m})"
    using assms(1) field_range_bounds [OF r] by (intro queues_fold queues_field) (auto simp: well_formed_def)
  moreover have "(\<Union>f \<in> set [a ..< b]. {m. field_child c f m}) = {m. has_child c n m}"
    using r by (auto simp: has_child_def)
  ultimately show ?thesis using r by (auto simp: visit_node_def intro: queues_cong)
qed


section \<open>What the worklist computes\<close>

definition marked :: "worklist \<Rightarrow> usize set" where
  "marked s = {n. n < length (snd s) \<and> snd s ! n}"

lemma marked_fold:
  "set ms \<subseteq> {n. n < length (snd s)} \<Longrightarrow> marked (fold queue_pure ms s) = marked s \<union> set ms"
proof (induction ms arbitrary: s)
  case (Cons m ms)
  then have "marked (queue_pure m s) = insert m (marked s)"
    by (auto simp: marked_def queue_pure_def nth_list_update)
  with Cons show ?case by (auto simp: queue_pure_def)
qed simp

lemma stack_fold:
  "set ms \<subseteq> {n. n < length (snd s)} \<Longrightarrow>
   set (fst (fold queue_pure ms s)) = set (fst s) \<union> (set ms - marked s)"
proof (induction ms arbitrary: s)
  case (Cons m ms)
  then have "marked (queue_pure m s) = insert m (marked s)"
      and "set (fst (queue_pure m s)) = set (fst s) \<union> ({m} - marked s)"
    by (auto simp: marked_def queue_pure_def nth_list_update)
  with Cons show ?case by (auto simp: queue_pure_def)
qed simp

definition worklist_inv :: "direct_columns \<Rightarrow> usize set \<Rightarrow> worklist \<Rightarrow> bool" where
  "worklist_inv c R s \<longleftrightarrow>
     length (snd s) = node_count c + 1 \<and> marked s \<subseteq> {1 .. node_count c} \<and>
     set (fst s) \<subseteq> marked s \<and> R \<subseteq> marked s \<and>
     (\<forall>n \<in> marked s. \<exists>r \<in> R. reaches c r n) \<and>
     (\<forall>n \<in> marked s - set (fst s). \<forall>m. has_child c n m \<longrightarrow> m \<in> marked s)"

lemma worklist_inv_start: "worklist_inv c {} ([], replicate (node_count c + 1) False)"
proof -
  have "marked ([], replicate (node_count c + 1) False) = {}" by (auto simp: marked_def simp del: replicate_Suc)
  then show ?thesis by (simp add: worklist_inv_def)
qed

lemma worklist_inv_root:
  assumes "worklist_inv c R s" and "1 \<le> n" and "n \<le> node_count c"
  shows "\<exists>s'. queue_reachable_node s n = Inr s' \<and> worklist_inv c (insert n R) s'"
proof -
  from assms have len: "length (snd s) = node_count c + 1" by (simp add: worklist_inv_def)
  with assms(2,3) have sub: "set [n] \<subseteq> {k. k < length (snd s)}" by auto
  have "queue_reachable_node s n = Inr (fold queue_pure [n] s)"
    using len assms(2,3)
    by (auto simp: queue_reachable_node_def load_def get_at_def store_def queue_pure_def)
  moreover have "worklist_inv c (insert n R) (fold queue_pure [n] s)"
    unfolding worklist_inv_def marked_fold [OF sub] stack_fold [OF sub] length_queue_pure
    using assms by (auto simp: worklist_inv_def reaches_def)
  ultimately show ?thesis by blast
qed

lemma worklist_inv_top:
  assumes "worklist_inv c R (n # rest, re)"
  shows "length re = node_count c + 1" "n \<in> marked (n # rest, re)" "1 \<le> n" "n \<le> node_count c"
    "\<exists>r \<in> R. reaches c r n"
proof -
  from assms show "length re = node_count c + 1" and n: "n \<in> marked (n # rest, re)"
    unfolding worklist_inv_def by simp_all
  from assms have sub: "marked (n # rest, re) \<subseteq> {1 .. node_count c}"
    and closed: "\<forall>n \<in> marked (n # rest, re). \<exists>r \<in> R. reaches c r n"
    unfolding worklist_inv_def by blast+
  from n sub show "1 \<le> n" "n \<le> node_count c" by (simp_all add: subset_iff)
  from n closed show "\<exists>r \<in> R. reaches c r n" by (rule bspec [rotated])
qed

lemma worklist_inv_visit:
  assumes wf: "well_formed c" and inv: "worklist_inv c R (n # rest, re)"
  shows "\<exists>s'. visit_node c n (rest, re) = Inr s' \<and> worklist_inv c R s' \<and>
    marked s' = marked (rest, re) \<union> {m. has_child c n m} \<and>
    marked s' - set (fst s') \<subseteq> insert n (marked (rest, re) - set (n # rest))"
proof -
  let ?s = "(rest, re)"
  have m [simp]: "marked (n # rest, re) = marked ?s" by (simp add: marked_def)
  from worklist_inv_top [OF inv] have len: "length (snd ?s) = node_count c + 1" and n: "n \<in> marked ?s"
    and n1: "1 \<le> n" "n \<le> node_count c" by simp_all
  from queues_visit [OF wf n1] obtain ms where ms: "set ms = {m. has_child c n m}"
    and C: "set ms \<subseteq> {1 .. node_count c}" and v: "visit_node c n ?s = Inr (fold queue_pure ms ?s)"
    using len unfolding queues_def by auto
  from C len have sub: "set ms \<subseteq> {k. k < length (snd ?s)}" by auto
  from worklist_inv_top(5) [OF inv] obtain r where r: "r \<in> R" "reaches c r n" by blast
  have up: "reaches c r k" if "has_child c n k" for k
    using r(2) that by (auto simp: reaches_def)
  from inv have M: "marked ?s \<subseteq> {1 .. node_count c}" "set (n # rest) \<subseteq> marked ?s" "R \<subseteq> marked ?s"
    and reach: "\<forall>k \<in> marked ?s. \<exists>r \<in> R. reaches c r k"
    and closed: "\<forall>k \<in> marked ?s - set (n # rest). \<forall>m. has_child c k m \<longrightarrow> m \<in> marked ?s"
    unfolding worklist_inv_def m fst_conv by blast+
  have "\<exists>r \<in> R. reaches c r k" if "k \<in> marked ?s \<union> set ms" for k
    using that reach up r(1) ms by blast
  moreover have "\<forall>m. has_child c k m \<longrightarrow> m \<in> marked ?s \<union> set ms"
    if "k \<in> marked ?s \<union> set ms - (set rest \<union> (set ms - marked ?s))" for k
  proof (cases "k = n")
    case False
    with that have "k \<in> marked ?s - set (n # rest)" by auto
    with closed show ?thesis by blast
  qed (simp add: ms)
  ultimately have "worklist_inv c R (fold queue_pure ms ?s)"
    unfolding worklist_inv_def marked_fold [OF sub] stack_fold [OF sub] length_queue_pure fst_conv
    using M C len by (intro conjI ballI) (blast | simp)+
  then show ?thesis
    using v marked_fold [OF sub] stack_fold [OF sub] ms by auto
qed

lemma worklist_closed:
  assumes "worklist_inv c R ([], re)"
  shows "marked ([], re) = {n. \<exists>r \<in> R. reaches c r n}"
proof -
  have "n \<in> marked ([], re)" if "(has_child c)\<^sup>*\<^sup>* r n" "r \<in> R" for r n
    using that
  proof (induction rule: rtranclp_induct)
    case base
    with assms show ?case by (auto simp: worklist_inv_def)
  next
    case (step y z)
    with assms show ?case by (auto simp: worklist_inv_def)
  qed
  with assms show ?thesis by (auto simp: worklist_inv_def reaches_def)
qed

lemma mark_loop_Nil: "mark_loop c st ([], re) = Inr re"
  by (simp add: mark_loop.simps [of c st "([], re)"])

lemma mark_loop_Cons:
  "st \<noteq> STATE_CANCELLED \<Longrightarrow> visit_node c n (rest, re) = Inr s' \<Longrightarrow>
   mark_loop c st (n # rest, re) = mark_loop c st s'"
  by (simp add: mark_loop.simps [of c st "(n # rest, re)"])

lemma contains_loop_Nil: "contains_loop c st ([], re) = Inr False"
  by (simp add: contains_loop.simps [of c st "([], re)"])

lemma contains_loop_found:
  "st \<noteq> STATE_CANCELLED \<Longrightarrow> node_tag c n = Inr TAG_ANONYMOUS_INDIVIDUAL \<Longrightarrow>
   contains_loop c st (n # rest, re) = Inr True"
  by (simp add: contains_loop.simps [of c st "(n # rest, re)"])

lemma contains_loop_Cons:
  "st \<noteq> STATE_CANCELLED \<Longrightarrow> node_tag c n = Inr tag \<Longrightarrow> tag \<noteq> TAG_ANONYMOUS_INDIVIDUAL \<Longrightarrow>
   visit_node c n (rest, re) = Inr s' \<Longrightarrow> contains_loop c st (n # rest, re) = contains_loop c st s'"
  by (simp add: contains_loop.simps [of c st "(n # rest, re)"])

lemma worklist_step:
  assumes "well_formed c" and "worklist_inv c R (n # rest, re)"
  obtains s' where "visit_node c n (rest, re) = Inr s'" "worklist_inv c R s'"
    "potential s' < potential (n # rest, re)"
    "marked s' - set (fst s') \<subseteq> insert n (marked (n # rest, re) - set (n # rest))"
proof -
  from worklist_inv_visit [OF assms] obtain s' where s': "visit_node c n (rest, re) = Inr s'" "worklist_inv c R s'"
    "marked s' - set (fst s') \<subseteq> insert n (marked (rest, re) - set (n # rest))" by blast
  moreover have "marked (n # rest, re) = marked (rest, re)" by (simp add: marked_def)
  ultimately show thesis using that visit_node_potential [OF s'(1)] by (simp add: potential_def)
qed

lemma mark_loop_correct:
  assumes wf: "well_formed c" and st: "st \<noteq> STATE_CANCELLED" and "worklist_inv c R s"
  shows "\<exists>re. mark_loop c st s = Inr re \<and> length re = node_count c + 1 \<and>
    {n. n < length re \<and> re ! n} = {n. \<exists>r \<in> R. reaches c r n}"
  using assms(3)
proof (induction "potential s" arbitrary: s rule: less_induct)
  case less
  obtain stack re where s: "s = (stack, re)" by (cases s)
  show ?case
  proof (cases stack)
    case Nil
    with less.prems s have inv: "worklist_inv c R ([], re)" by simp
    then have "length re = node_count c + 1" by (simp add: worklist_inv_def)
    with worklist_closed [OF inv] show ?thesis by (simp add: s Nil mark_loop_Nil marked_def)
  next
    case (Cons n rest)
    with less.prems s worklist_step [OF wf, of R n rest re] obtain s' where s':
      "visit_node c n (rest, re) = Inr s'" "worklist_inv c R s'" "potential s' < potential s" by metis
    with less.hyps [OF s'(3,2)] show ?thesis by (simp add: s Cons mark_loop_Cons [OF st s'(1)])
  qed
qed

lemma contains_loop_correct:
  assumes wf: "well_formed c" and st: "st \<noteq> STATE_CANCELLED" and "worklist_inv c R s"
    and "\<forall>n \<in> marked s - set (fst s). node_tag c n \<noteq> Inr TAG_ANONYMOUS_INDIVIDUAL"
  shows "contains_loop c st s = Inr (\<exists>r \<in> R. \<exists>n. reaches c r n \<and> node_tag c n = Inr TAG_ANONYMOUS_INDIVIDUAL)"
  using assms(3,4)
proof (induction "potential s" arbitrary: s rule: less_induct)
  case less
  obtain stack re where s: "s = (stack, re)" by (cases s)
  show ?case
  proof (cases stack)
    case Nil
    with less.prems s have inv: "worklist_inv c R ([], re)" by simp
    from less.prems(2) worklist_closed [OF inv]
    have "\<not> (\<exists>r \<in> R. \<exists>n. reaches c r n \<and> node_tag c n = Inr TAG_ANONYMOUS_INDIVIDUAL)"
      unfolding s Nil by auto
    then show ?thesis unfolding s Nil contains_loop_Nil by simp
  next
    case (Cons n rest)
    with less.prems s have inv: "worklist_inv c R (n # rest, re)" by simp
    note n = worklist_inv_top(3,4) [OF inv]
    with wf obtain tag where tag: "node_tag c n = Inr tag" unfolding well_formed_def by blast
    show ?thesis
    proof (cases "tag = TAG_ANONYMOUS_INDIVIDUAL")
      case True
      with worklist_inv_top(5) [OF inv] show ?thesis using contains_loop_found [OF st, of c n rest re] tag unfolding s Cons by auto
    next
      case False
      from worklist_step [OF wf inv] obtain s' where s':
        "visit_node c n (rest, re) = Inr s'" "worklist_inv c R s'" "potential s' < potential s"
        "marked s' - set (fst s') \<subseteq> insert n (marked s - set (fst s))"
        unfolding s Cons fst_conv by metis
      have "node_tag c k \<noteq> Inr TAG_ANONYMOUS_INDIVIDUAL" if "k \<in> marked s' - set (fst s')" for k
      proof (cases "k = n")
        case False
        with that s'(4) have "k \<in> marked s - set (fst s)" by blast
        with less.prems(2) show ?thesis by blast
      qed (use tag False in simp)
      then have "\<forall>n \<in> marked s' - set (fst s'). node_tag c n \<noteq> Inr TAG_ANONYMOUS_INDIVIDUAL" by blast
      with less.hyps [OF s'(3,2)] show ?thesis
        unfolding s Cons contains_loop_Cons [OF st tag False s'(1)] by blast
    qed
  qed
qed


section \<open>The anonymous individuals of the selected axioms\<close>

abbreviation is_anonymous :: "direct_columns \<Rightarrow> usize \<Rightarrow> bool" where
  "is_anonymous c n \<equiv> node_tag c n = Inr TAG_ANONYMOUS_INDIVIDUAL"

definition axiom_roots :: "direct_columns \<Rightarrow> usize set" where
  "axiom_roots c = {r. \<exists>i < root_count c. selected c i \<and> root_kind c i = Inr ROOT_AXIOM \<and> root_id c i = Inr r}"

definition axiom_anonymous :: "direct_columns \<Rightarrow> usize list" where
  "axiom_anonymous c =
     filter (\<lambda>n. is_anonymous c n \<and> (\<exists>r \<in> axiom_roots c. reaches c r n)) [1 ..< node_count c + 1]"

definition anonymous_key_of :: "direct_columns \<Rightarrow> usize \<Rightarrow> bytes \<times> nat list \<times> bytes" where
  "anonymous_key_of c n = anonymous_key (case anonymous_parts c n of Inr p \<Rightarrow> p)"

lemma anonymous_parts_valid:
  assumes "well_formed c" and "nodes_valid c m" and "is_anonymous c n"
  shows "\<exists>p. anonymous_parts c n = Inr p"
proof -
  from nodes_validD [OF assms(2,3)] assms(3) have "validate_anonymous_individual c n = Inr ()"
    by (simp add: validate_supported_node_def)
  moreover have "\<exists>scope'. remap_anonymous_scope c scope = Inr scope'" for scope
    using assms(1) unfolding well_formed_def by blast
  ultimately show ?thesis
    by (auto simp: anonymous_parts_def validate_anonymous_individual_def bnd_eq_Inr split: if_splits)
qed

lemma queue_axiom_roots:
  assumes wf: "well_formed c" and st: "st \<noteq> STATE_CANCELLED" and "k \<le> root_count c"
  shows "\<exists>s. fold_res (queue_axiom_root c st) [0 ..< k] ([], replicate (node_count c + 1) False) = Inr s \<and>
    worklist_inv c {r. \<exists>i < k. selected c i \<and> root_kind c i = Inr ROOT_AXIOM \<and> root_id c i = Inr r} s"
  using assms(3)
proof (induction k)
  case 0
  then show ?case using worklist_inv_start [of c] by simp
next
  case (Suc k)
  let ?R = "\<lambda>k. {r. \<exists>i < k. selected c i \<and> root_kind c i = Inr ROOT_AXIOM \<and> root_id c i = Inr r}"
  from Suc obtain s where s: "fold_res (queue_axiom_root c st) [0 ..< k] ([], replicate (node_count c + 1) False) = Inr s"
    "worklist_inv c (?R k) s" by auto
  from Suc.prems have k: "k < root_count c" by simp
  with wf obtain kind r where r: "root_kind c k = Inr kind" "root_id c k = Inr r" "root_is_selected c k = Inr (selected c k)"
    unfolding well_formed_def by blast
  have R: "?R (Suc k) = (if selected c k \<and> kind = ROOT_AXIOM then insert r (?R k) else ?R k)"
    using r by (auto simp: less_Suc_eq)
  show ?case
  proof (cases "selected c k \<and> kind = ROOT_AXIOM")
    case True
    from r(2) have "1 \<le> r" "r \<le> node_count c" by (auto simp: root_id_def bnd_eq_Inr checked_node_id_Inr)
    from worklist_inv_root [OF s(2) this] obtain s' where
      "queue_reachable_node s r = Inr s'" "worklist_inv c (insert r (?R k)) s'" by blast
    moreover from this(1) r True st have "queue_axiom_root c st k s = Inr s'"
      by (simp add: queue_axiom_root_def)
    ultimately show ?thesis using s(1) True R by (simp add: fold_res_append)
  next
    case False
    then have "queue_axiom_root c st k s = Inr s" using r st by (auto simp: queue_axiom_root_def)
    moreover from R False have "?R (Suc k) = ?R k" by presburger
    ultimately show ?thesis using s by (simp add: fold_res_append)
  qed
qed

lemma anonymous_fold:
  fixes re :: "bool list"
  assumes st: "st \<noteq> STATE_CANCELLED"
    and parts: "\<And>n. is_anonymous c n \<Longrightarrow> \<exists>p. anonymous_parts c n = Inr p"
    and "\<And>n. n \<in> set xs \<Longrightarrow> \<exists>t. node_tag c n = Inr t" and "fits (found + length xs)"
    and "\<And>p. prev = Some p \<Longrightarrow> is_anonymous c p"
  defines "A \<equiv> filter (\<lambda>n. re ! n \<and> is_anonymous c n)"
  shows "discard (fold_res (anonymous_step c st re) xs (prev, found)) =
    reject_if (\<not> sorted_wrt (\<lambda>l r. anonymous_key_of c l < anonymous_key_of c r)
                 ((case prev of None \<Rightarrow> [] | Some p \<Rightarrow> [p]) @ A xs)) Malformed"
  using assms(3-5)
proof (induction xs arbitrary: prev found)
  case Nil
  then show ?case by (simp add: A_def split: option.splits)
next
  case (Cons n xs)
  let ?less = "\<lambda>l r. anonymous_key_of c l < anonymous_key_of c r"
  have tr: "transp ?less" by (auto simp: transp_def)
  from Cons.prems(1) [of n] obtain t where t: "node_tag c n = Inr t" by auto
  from Cons.prems(2) have f: "fits (found + length xs)" "fits (Suc found)" "fits (Suc found + length xs)"
    using fits_mono [OF _ Cons.prems(2)] by simp_all
  show ?case
  proof (cases "re ! n \<and> t = TAG_ANONYMOUS_INDIVIDUAL")
    case False
    then have "anonymous_step c st re n (prev, found) = Inr (prev, found)" and "A (n # xs) = A xs"
      using st t by (auto simp: anonymous_step_def A_def)
    with Cons.IH [of found prev] Cons.prems f(1) show ?thesis by simp
  next
    case True
    then have A: "A (n # xs) = n # A xs" and an: "is_anonymous c n" using t by (auto simp: A_def)
    note IH = Cons.IH [of "Suc found" "Some n", OF _ f(3)]
    show ?thesis
    proof (cases prev)
      case None
      with True st t f(2) have "anonymous_step c st re n (prev, found) = Inr (Some n, Suc found)"
        by (simp add: anonymous_step_def checked_add_def)
      with IH an Cons.prems(1) None A show ?thesis by simp
    next
      case (Some p)
      with Cons.prems(3) have "is_anonymous c p" by blast
      with parts an obtain a b where ab: "anonymous_parts c p = Inr a" "anonymous_parts c n = Inr b" by metis
      have c: "compare_anonymous_nodes c p n = Inr (cmp (anonymous_key_of c p) (anonymous_key_of c n))"
        using compare_anonymous_nodes_key [OF ab] ab by (simp add: anonymous_key_of_def)
      show ?thesis
      proof (cases "?less p n")
        case True
        with c Some st t \<open>re ! n \<and> t = TAG_ANONYMOUS_INDIVIDUAL\<close> f(2)
        have "anonymous_step c st re n (prev, found) = Inr (Some n, Suc found)"
          by (simp add: anonymous_step_def checked_add_def cmp_def)
        with IH an Cons.prems(1) Some A True sorted_wrt2 [OF tr, of p n "A xs"] show ?thesis by simp
      next
        case False
        with c Some st t \<open>re ! n \<and> t = TAG_ANONYMOUS_INDIVIDUAL\<close>
        have "anonymous_step c st re n (prev, found) = Inl Malformed"
          by (simp add: anonymous_step_def cmp_def)
        with Some A False show ?thesis by simp
      qed
    qed
  qed
qed

lemma collect_fold:
  assumes "\<And>n. n \<in> set xs \<Longrightarrow> \<exists>t. node_tag c n = Inr t"
  shows "fold_res (collect_step c re) xs ids = Inr (ids @ filter (\<lambda>n. re ! n \<and> is_anonymous c n) xs)"
  using assms
proof (induction xs arbitrary: ids)
  case (Cons n xs)
  from Cons.prems [of n] obtain t where "node_tag c n = Inr t" by auto
  with Cons show ?case by (auto simp: collect_step_def)
qed simp

section \<open>Properties\<close>

text \<open>
  C26: the early-exit walk decides whether the axiom under a root mentions an anonymous
  individual. On a well-formed table it terminates without an error, and answers yes exactly
  when an anonymous individual is reachable from the root over node fields and node items.
\<close>
theorem root_contains_anonymous_correct:
  assumes "well_formed c" and "st \<noteq> STATE_CANCELLED" and "fits (node_count c + 1)"
    and "1 \<le> root" and "root \<le> node_count c"
  shows "root_contains_anonymous_individual c root st = Inr (\<exists>n. reaches c root n \<and> is_anonymous c n)"
proof -
  from worklist_inv_root [OF worklist_inv_start [of c] assms(4,5)] obtain s where
    q: "queue_reachable_node ([], replicate (node_count c + 1) False) root = Inr s" "worklist_inv c {root} s" by auto
  from q(1) assms(4,5) have "s = ([root], (replicate (node_count c + 1) False)[root := True])"
    by (auto simp: queue_reachable_node_def res_simps split: if_splits simp del: replicate_Suc)
  then have "marked s - set (fst s) = {}" using assms(4,5)
    by (auto simp: marked_def nth_list_update simp del: replicate_Suc split: if_splits)
  then have "\<forall>n \<in> marked s - set (fst s). node_tag c n \<noteq> Inr TAG_ANONYMOUS_INDIVIDUAL" by blast
  from contains_loop_correct [OF assms(1,2) q(2) this] q(1) assms(3) show ?thesis
    by (simp add: root_contains_anonymous_individual_def reachability_length_def checked_add_def del: replicate_Suc)
qed

lemma axiom_anonymous_ids_value:
  assumes "well_formed c" and "nodes_valid c m" and "st \<noteq> STATE_CANCELLED" and "fits (node_count c + 1)"
  shows "axiom_anonymous_ids c st =
    (if sorted_wrt (\<lambda>l r. anonymous_key_of c l < anonymous_key_of c r) (axiom_anonymous c)
     then Inr \<lparr> node_ids = axiom_anonymous c, global_positions = None, single_position = None \<rparr>
     else Inl Malformed)"
proof -
  have tags: "\<exists>t. node_tag c n = Inr t" if "n \<in> set [1 ..< node_count c + 1]" for n :: nat
    using that nodes_valid_tag [OF assms(2), of n] by auto
  define P where "P = (\<lambda>node_id. seq (check_cancel st node_id)
            (map_res (\<lambda>tag. tag = TAG_ANONYMOUS_INDIVIDUAL) (node_tag c node_id)))"
  have P: "P n = Inr (is_anonymous c n)" if "n \<in> set [1 ..< node_count c + 1]" for n
    using tags [OF that] assms(3) by (auto simp: P_def)
  have ex: "exists_res P xs = Inr (\<exists>n \<in> set xs. is_anonymous c n)" if "set xs \<subseteq> set [1 ..< node_count c + 1]" for xs
    using that by (induction xs) (use P in auto)
  show ?thesis
  proof (cases "\<exists>n \<in> set [1 ..< node_count c + 1]. is_anonymous c n")
    case False
    then have "axiom_anonymous c = []" unfolding axiom_anonymous_def filter_empty_conv by blast
    with False show ?thesis
      unfolding axiom_anonymous_ids_def P_def [symmetric] ex [OF subset_refl]
      by (simp add: anonymous_ids_default_def del: upt_Suc)
  next
    case True
    from queue_axiom_roots [OF assms(1,3) order_refl] obtain s where
      q: "fold_res (queue_axiom_root c st) [0 ..< root_count c] ([], replicate (node_count c + 1) False) = Inr s"
      "worklist_inv c (axiom_roots c) s" by (auto simp: axiom_roots_def)
    from mark_loop_correct [OF assms(1,3) q(2)] obtain re where re: "mark_loop c st s = Inr re"
      "length re = node_count c + 1" "{n. n < length re \<and> re ! n} = {n. \<exists>r \<in> axiom_roots c. reaches c r n}" by blast
    have A: "filter (\<lambda>n. re ! n \<and> is_anonymous c n) [1 ..< length re] = axiom_anonymous c"
      unfolding axiom_anonymous_def using re(2,3) by (intro filter_cong) auto
    have "discard (fold_res (anonymous_step c st re) [1 ..< length re] (None, 0)) =
        reject_if (\<not> sorted_wrt (\<lambda>l r. anonymous_key_of c l < anonymous_key_of c r) (axiom_anonymous c)) Malformed"
      using anonymous_fold [OF assms(3) anonymous_parts_valid [OF assms(1,2)], of "[1 ..< length re]" 0 None re] tags
        re(2) assms(4) fits_mono [OF _ assms(4)] unfolding A by (simp del: upt_Suc)
    moreover have "fold_res (collect_step c re) [1 ..< length re] [] = Inr (axiom_anonymous c)"
      using collect_fold [OF tags, of "[1 ..< node_count c + 1]" re "[]"] A unfolding append_Nil re(2) by simp
    moreover have "reachability_length c = Inr (node_count c + 1)"
      using assms(4) by (simp add: reachability_length_def checked_add_def)
    ultimately show ?thesis
      using True q(1) re(1) unfolding axiom_anonymous_ids_def P_def [symmetric] ex [OF subset_refl]
      by (cases "fold_res (anonymous_step c st re) [1 ..< length re] (None, 0)")
        (simp_all add: reject_if_def del: upt_Suc replicate_Suc split: if_splits)
  qed
qed

text \<open>
  C25: the anonymous-individual index of a validated table. \<open>axiom_anonymous_ids\<close> collects, in
  table order, the anonymous individuals that a selected axiom root reaches, and accepts them
  exactly when their keys (remapped scope, canonical varint of the key length, key) increase
  strictly; the blank-node numbering of the rendered output rests on this order.
\<close>
theorem axiom_anonymous_ids_correct:
  assumes "well_formed c" and "nodes_valid c m" and "st \<noteq> STATE_CANCELLED" and "fits (node_count c + 1)"
  shows "axiom_anonymous_ids c st =
    (if sorted_wrt (\<lambda>l r. anonymous_key_of c l < anonymous_key_of c r) (axiom_anonymous c)
     then Inr \<lparr> node_ids = axiom_anonymous c, global_positions = None, single_position = None \<rparr>
     else Inl Malformed)"
  using assms by (rule axiom_anonymous_ids_value)


text \<open>A class assertion on an anonymous individual, and a second individual nothing reaches.\<close>

definition assertion_table :: direct_columns where
  "assertion_table = encode_table (\<lambda>ch. [ch])
     [(TAG_IRI, [CText ''p'']),
      (TAG_ENTITY, [CEnum ''class'', CNode 1]),
      (TAG_ANONYMOUS_INDIVIDUAL, [CBytes (replicate 32 (CHR ''s'')), CBytes ''zz'']),
      (TAG_ANONYMOUS_INDIVIDUAL, [CBytes (replicate 32 (CHR ''s'')), CBytes ''aaa'']),
      (TAG_CLASS_ASSERTION, [CNode 2, CNode 3, CSet []])]
     [(2, 5)]"

lemma assertion_table_wf: "well_formed assertion_table"
proof (rule validate_generic_well_formed)
  show "validate_generic assertion_table STATE_RUNNING = Inr ()"
    by (simp add: assertion_table_def table_eval generic_eval)
  show "buffers_fit assertion_table"
    by (simp add: buffers_fit_def buffers_def scope_maps_def assertion_table_def table_eval)
qed

lemma assertion_table_shape:
  "node_count assertion_table = 5" "root_count assertion_table = 1"
  "root_kind assertion_table 0 = Inr ROOT_AXIOM" "root_id assertion_table 0 = Inr 5"
  "selected assertion_table 0"
  by (simp_all add: assertion_table_def table_eval selected_def postings_def column_def)

lemma assertion_table_valid: "nodes_valid assertion_table 100"
proof -
  have "validate_supported_node assertion_table 100 n = Inr ()" if "n \<in> {1, 2, 3, 4, 5}" for n
    using that unfolding insert_iff empty_iff
    by (elim disjE FalseE; hypsubst)
      ((simp add: assertion_table_def table_eval validator_defs class_assertion_projection_def
        named_class_iri_def individual_value_def validate_individual_def upt_rec; fail)+)
  moreover have "n \<in> {1, 2, 3, 4, 5}" if "1 \<le> n \<and> n \<le> 5" for n :: nat
    using that by auto
  ultimately show ?thesis by (simp add: nodes_valid_def assertion_table_shape)
qed

lemma assertion_table_ranges:
  "field_range assertion_table 5 = Inr (7, 10)" "field_range assertion_table 2 = Inr (1, 3)"
  "field_range assertion_table 3 = Inr (3, 5)" "field_range assertion_table (Suc 0) = Inr (0, 1)"
  by (simp_all add: assertion_table_def table_eval)

lemma assertion_table_fields:
  "field_kind assertion_table 0 = Inr COMPONENT_TEXT" "field_kind assertion_table (Suc 0) = Inr COMPONENT_ENUM"
  "field_kind assertion_table 3 = Inr COMPONENT_BYTES" "field_kind assertion_table 4 = Inr COMPONENT_BYTES"
  "field_node assertion_table 2 = Inr 1" "field_node assertion_table 7 = Inr 2" "field_node assertion_table 8 = Inr 3"
  "field_kind assertion_table 2 = Inr COMPONENT_NODE" "field_kind assertion_table 7 = Inr COMPONENT_NODE"
  "field_kind assertion_table 8 = Inr COMPONENT_NODE"
  "field_kind assertion_table 9 = Inr COMPONENT_SET" "field_length assertion_table 9 = Inr 0"
  by (simp_all add: assertion_table_def table_eval)

lemma assertion_table_field_children:
  "\<not> field_child assertion_table 0 n" "\<not> field_child assertion_table (Suc 0) n" "\<not> field_child assertion_table 3 n"
  "\<not> field_child assertion_table 4 n" "\<not> field_child assertion_table 9 n"
  "field_child assertion_table 2 n \<longleftrightarrow> n = 1" "field_child assertion_table 7 n \<longleftrightarrow> n = 2"
  "field_child assertion_table 8 n \<longleftrightarrow> n = 3"
  using assertion_table_fields by (auto simp: field_child_def field_node_def [of _ 0] field_node_def [of _ "Suc 0"]
      field_node_def [of _ 3] field_node_def [of _ 4] field_node_def [of _ 9])

lemma assertion_table_children:
  "has_child assertion_table 5 n \<longleftrightarrow> n = 2 \<or> n = 3" "has_child assertion_table 2 n \<longleftrightarrow> n = 1"
  "\<not> has_child assertion_table 3 n" "\<not> has_child assertion_table (Suc 0) n"
proof -
  have "{7 ..< 10} = {7, 8, 9 :: nat}" "{1 ..< 3} = {1, 2 :: nat}" "{3 ..< 5} = {3, 4 :: nat}" by auto
  then show "has_child assertion_table 5 n \<longleftrightarrow> n = 2 \<or> n = 3" "has_child assertion_table 2 n \<longleftrightarrow> n = 1"
    "\<not> has_child assertion_table 3 n" "\<not> has_child assertion_table (Suc 0) n"
    by (simp_all add: has_child_def assertion_table_ranges assertion_table_field_children)
qed

lemma assertion_table_reaches: "reaches assertion_table 5 n \<longleftrightarrow> n \<in> {5, 2, 3, 1}"
proof
  show "reaches assertion_table 5 n \<Longrightarrow> n \<in> {5, 2, 3, 1}"
    unfolding reaches_def by (induction rule: rtranclp_induct) (auto simp: assertion_table_children)
  have "has_child assertion_table 5 2" "has_child assertion_table 5 3" "has_child assertion_table 2 1"
    by (simp_all add: assertion_table_children)
  then show "n \<in> {5, 2, 3, 1} \<Longrightarrow> reaches assertion_table 5 n"
    unfolding reaches_def by (auto intro: rtranclp.rtrancl_into_rtrancl)
qed

lemma assertion_table_anonymous:
  "is_anonymous assertion_table 3" "is_anonymous assertion_table 4" "\<not> is_anonymous assertion_table (Suc 0)"
  "\<not> is_anonymous assertion_table 2" "\<not> is_anonymous assertion_table 5"
  by (simp_all add: assertion_table_def table_eval)

theorem root_contains_anonymous_correct_witness:
  "root_contains_anonymous_individual assertion_table 5 STATE_RUNNING = Inr True \<and>
   root_contains_anonymous_individual assertion_table 2 STATE_RUNNING = Inr False"
proof -
  have 2: "n \<in> {2, 1}" if "reaches assertion_table 2 n" for n
    using that unfolding reaches_def by (induction rule: rtranclp_induct) (auto simp: assertion_table_children)
  have fits: "fits (node_count assertion_table + 1)" by (simp add: assertion_table_shape fits_def)
  have st: "STATE_RUNNING \<noteq> STATE_CANCELLED" by (simp add: state_defs)
  from root_contains_anonymous_correct [OF assertion_table_wf st fits, of 5]
    root_contains_anonymous_correct [OF assertion_table_wf st fits, of 2] 2 assertion_table_anonymous
  show ?thesis by (auto simp: assertion_table_shape assertion_table_reaches)
qed

theorem axiom_anonymous_ids_correct_witness:
  "axiom_anonymous_ids assertion_table STATE_RUNNING =
     Inr \<lparr> node_ids = [3], global_positions = None, single_position = None \<rparr>"
proof -
  have r: "axiom_roots assertion_table = {5}" by (auto simp: axiom_roots_def assertion_table_shape)
  have "[1 ..< node_count assertion_table + 1] = [1, 2, 3, 4, 5]" by (simp add: assertion_table_shape upt_rec)
  then have "axiom_anonymous assertion_table = [3]"
    unfolding axiom_anonymous_def r using assertion_table_anonymous by (simp add: assertion_table_reaches)
  moreover have "fits (node_count assertion_table + 1)" by (simp add: assertion_table_shape fits_def)
  ultimately show ?thesis
    using axiom_anonymous_ids_correct [OF assertion_table_wf assertion_table_valid, of STATE_RUNNING]
    by (simp add: state_defs)
qed

end
