(* ===== verification/Plan_Invariant.thy ===== *)
theory Plan_Invariant
  imports Root_Plan Reachability
begin

text \<open>
  What the first pass leaves behind. The loop of \<open>populate_selected_root_rule_plan\<close> is followed by
  a list with one entry per root visited: nothing for a root that is not selected, otherwise
  its rule and the shapes planned for it. The invariant says that every vector of the plan is
  the projection of that list, that the counters tally it, that a semantic shape and the
  emission shape beside it denote the same texts, and that the aggregate arenas are aligned.
\<close>

section \<open>Entries\<close>

type_synonym plan_entry = "(root_rule \<times> planned_shapes option) option"

definition rows_of :: "(planned_shapes \<Rightarrow> 'a) \<Rightarrow> plan_entry list \<Rightarrow> 'a planned_root list" where
  "rows_of f entries = List.map_filter (\<lambda>(i, e). case e of
      Some (_, Some shapes) \<Rightarrow> Some (i, f shapes) | _ \<Rightarrow> None) (enumerate 0 entries)"

definition tally :: "(root_rule \<Rightarrow> planned_root_shape option \<Rightarrow> bool) \<Rightarrow> plan_entry list \<Rightarrow> nat" where
  "tally p entries = length (filter (\<lambda>e. case e of None \<Rightarrow> False | Some (rule, shapes) \<Rightarrow> p rule (map_option fst shapes)) entries)"

lemma map_filter_append: "List.map_filter f (xs @ ys) = List.map_filter f xs @ List.map_filter f ys"
  by (simp add: List.map_filter_def)

lemma map_filter_simps [simp]:
  "List.map_filter f [] = []"
  "List.map_filter f (x # xs) = (case f x of None \<Rightarrow> List.map_filter f xs | Some y \<Rightarrow> y # List.map_filter f xs)"
  by (simp_all add: List.map_filter_def split: option.split)

lemma enumerate_append: "enumerate n (xs @ ys) = enumerate n xs @ enumerate (n + length xs) ys"
  by (induction xs arbitrary: n) simp_all

lemma rows_of_Nil [simp]: "rows_of f [] = []"
  by (simp add: rows_of_def)

lemma rows_of_snoc:
  "rows_of f (es @ [e]) = rows_of f es @ (case e of Some (_, Some shapes) \<Rightarrow> [(length es, f shapes)] | _ \<Rightarrow> [])"
  by (auto simp: rows_of_def enumerate_append map_filter_append split: option.splits prod.splits)

lemma tally_simps [simp]:
  "tally p [] = 0"
  "tally p (es @ [e]) = tally p es + (case e of None \<Rightarrow> 0 | Some (rule, shapes) \<Rightarrow> if p rule (map_option fst shapes) then 1 else 0)"
  by (auto simp: tally_def split: option.splits)

lemma rows_of_keys: "(i, x) \<in> set (rows_of f es) \<longleftrightarrow>
    i < length es \<and> (\<exists>rule shapes. es ! i = Some (rule, Some shapes) \<and> x = f shapes)"
proof (induction es rule: rev_induct)
  case (snoc e es)
  then show ?case
    by (auto simp: rows_of_snoc nth_append less_Suc_eq split: option.splits prod.splits)
qed simp

lemma rows_of_sorted: "sorted_wrt (<) (map fst (rows_of f es))"
proof (induction es rule: rev_induct)
  case (snoc e es)
  have "i < length es" if "(i, x) \<in> set (rows_of f es)" for i x
    using that by (simp add: rows_of_keys)
  with snoc show ?case
    by (force simp: rows_of_snoc sorted_wrt_append split: option.splits prod.splits)
qed simp

text \<open>The binary search over a projection finds exactly the entry of the root.\<close>

lemma planned_at_rows:
  "planned_at (rows_of f es) i =
     (if i < length es then (case es ! i of Some (_, Some shapes) \<Rightarrow> Some (f shapes) | _ \<Rightarrow> None) else None)"
proof -
  have s: "sorted (map fst (rows_of f es))" "distinct (map fst (rows_of f es))"
    using rows_of_sorted [of f es] by (auto simp: strict_sorted_iff)
  note iff = binary_search_by_key_iff [OF s, of i]
  show ?thesis
  proof (cases "binary_search_by_key fst i (rows_of f es)")
    case (Inr k)
    then have k: "k < length (rows_of f es)" "fst (rows_of f es ! k) = i" using iff by auto
    then have "(i, snd (rows_of f es ! k)) \<in> set (rows_of f es)" by (metis nth_mem prod.collapse)
    with Inr show ?thesis by (auto simp: planned_at_def rows_of_keys)
  next
    case (Inl k)
    have "(i, x) \<notin> set (rows_of f es)" for x
    proof
      assume "(i, x) \<in> set (rows_of f es)"
      then obtain k' where "k' < length (rows_of f es)" "rows_of f es ! k' = (i, x)" by (metis in_set_conv_nth)
      with iff [of k'] Inl show False by simp
    qed
    with Inl show ?thesis by (auto simp: planned_at_def rows_of_keys split: option.splits)
  qed
qed

section \<open>Agreement of the two shapes of a root\<close>

definition individual_agrees :: "direct_columns \<Rightarrow> usize \<Rightarrow> usize \<Rightarrow> individual_value_t
    \<Rightarrow> planned_individual_coordinate_t \<Rightarrow> bool" where
  "individual_agrees c maximum root v coordinate \<longleftrightarrow> (case (v, coordinate) of
     (Named individual, PlannedNamed n) \<Rightarrow> named_individual_iri c n maximum = Inr individual
   | (Anonymous m, PlannedAnonymous n) \<Rightarrow> m = n \<and> node_tag c n = Inr TAG_ANONYMOUS_INDIVIDUAL \<and> has_child c root n
   | _ \<Rightarrow> False)"

definition subclass_agrees :: "direct_columns \<Rightarrow> usize \<Rightarrow> subclass_projection_t \<Rightarrow> planned_emission_shape \<Rightarrow> bool" where
  "subclass_agrees c m p emission \<longleftrightarrow> (case p of
     SubclassTaxonomy a b \<Rightarrow> (\<exists>x y. emission = EmitSubclassTaxonomy x y \<and>
       named_class_iri c x m = Inr a \<and> named_class_iri c y m = Inr b)
   | SubclassRestriction a r b \<Rightarrow> (\<exists>x coordinate. emission = EmitSubclassRestriction x coordinate \<and>
       named_class_iri c x m = Inr a \<and> planned_restriction_parts c coordinate m = Inr (r, b))
   | SubclassIgnored \<Rightarrow> emission = EmitSubclassIgnored)"

definition equivalent_agrees :: "direct_columns \<Rightarrow> usize \<Rightarrow> usize \<Rightarrow> planned_aggregate_root list
    \<Rightarrow> equivalent_projection_t \<Rightarrow> planned_emission_shape \<Rightarrow> bool" where
  "equivalent_agrees c m i aggregates p emission \<longleftrightarrow> (case p of
     EquivalentPair a x b y \<Rightarrow> emission = EmitEquivalentPair x y \<and>
       named_class_iri c x m = Inr a \<and> named_class_iri c y m = Inr b
   | EquivalentAggregate a x y \<Rightarrow> (\<exists>k. emission = EmitEquivalentAggregate x k \<and>
       named_class_iri c x m = Inr a \<and> k < length aggregates \<and> aggregate_root_index (aggregates ! k) = i)
   | EquivalentIgnored \<Rightarrow> emission = EmitEquivalentIgnored)"

definition property_class_agrees :: "direct_columns \<Rightarrow> usize \<Rightarrow> (text_str \<times> text_str) option
    \<Rightarrow> planned_emission_shape \<Rightarrow> bool" where
  "property_class_agrees c m p emission \<longleftrightarrow> (case p of
     None \<Rightarrow> emission = EmitObjectPropertyClassIgnored
   | Some (property, k) \<Rightarrow> (\<exists>x y. emission = EmitObjectPropertyClassProjected x y \<and>
       named_object_property_iri c x m = Inr property \<and> named_class_iri c y m = Inr k))"

definition class_assertion_agrees :: "direct_columns \<Rightarrow> usize \<Rightarrow> class_assertion_projection_t
    \<Rightarrow> planned_emission_shape \<Rightarrow> bool" where
  "class_assertion_agrees c m p emission \<longleftrightarrow> (case p of
     ClassAssertionEdge i x k y \<Rightarrow> emission = EmitClassAssertionEdge x y \<and>
       named_individual_iri c x m = Inr i \<and> named_class_iri c y m = Inr k
   | ClassAssertionIgnored \<Rightarrow> emission = EmitClassAssertionIgnored)"

definition object_assertion_agrees :: "direct_columns \<Rightarrow> usize \<Rightarrow> usize \<Rightarrow> individual_value_t \<Rightarrow> text_str
    \<Rightarrow> individual_value_t \<Rightarrow> planned_emission_shape \<Rightarrow> bool" where
  "object_assertion_agrees c m root s r d emission \<longleftrightarrow> (\<exists>p x y. emission = EmitObjectPropertyAssertion p x y \<and>
     named_object_property_iri c p m = Inr r \<and> individual_agrees c m root s x \<and> individual_agrees c m root d y)"

definition shapes_agree :: "direct_columns \<Rightarrow> usize \<Rightarrow> usize \<Rightarrow> usize \<Rightarrow> planned_aggregate_root list
    \<Rightarrow> planned_shapes \<Rightarrow> bool" where
  "shapes_agree c m i root aggregates shapes \<longleftrightarrow> (case fst shapes of
     SubclassShape p \<Rightarrow> subclass_agrees c m p (snd shapes)
   | EquivalentShape p \<Rightarrow> equivalent_agrees c m i aggregates p (snd shapes)
   | ObjectPropertyClassShape p \<Rightarrow> property_class_agrees c m p (snd shapes)
   | ClassAssertionShape p \<Rightarrow> class_assertion_agrees c m p (snd shapes)
   | ObjectPropertyAssertionShape s r d \<Rightarrow> object_assertion_agrees c m root s r d (snd shapes))"

fun shape_handler :: "planned_root_shape \<Rightarrow> root_rule_handler" where
  "shape_handler (SubclassShape _) = HandleSubclass"
| "shape_handler (EquivalentShape _) = HandleEquivalentClasses"
| "shape_handler (ObjectPropertyClassShape _) = HandleObjectPropertyClass"
| "shape_handler (ClassAssertionShape _) = HandleClassAssertion"
| "shape_handler (ObjectPropertyAssertionShape _ _ _) = HandleObjectPropertyAssertion"

definition shaped_handlers :: "root_rule_handler set" where
  "shaped_handlers = {HandleSubclass, HandleEquivalentClasses, HandleObjectPropertyClass, HandleClassAssertion,
     HandleObjectPropertyAssertion}"

lemma restriction_agrees:
  assumes "restriction_projection c n m = Inr (Some (r, d))" and "planned_restriction_coordinate_of c n = Inr coordinate"
  shows "planned_restriction_parts c coordinate m = Inr (r, d)"
  using assms
  by (auto simp: restriction_projection_def planned_restriction_coordinate_of_def planned_restriction_parts_def
      object_property_expression_iri_def object_inverse_iri_def res_simps split: if_splits)

lemma individual_coordinate_agrees:
  assumes "individual_value c n m = Inr v" and "planned_individual_coordinate c v n = Inr coordinate" and "has_child c root n"
  shows "individual_agrees c m root v coordinate"
  using assms by (auto simp: individual_value_def planned_individual_coordinate_def individual_agrees_def res_simps
      split: if_splits individual_value_t.splits)

lemma field_has_child:
  assumes "exact_fields c n k = Inr start" and "field_node c f = Inr m" and "start \<le> f" and "f < start + k"
  shows "has_child c n m"
  using assms by (force simp: exact_fields_def has_child_def field_child_def res_simps split: if_splits prod.splits)

lemma agree_mono:
  "shapes_agree c m i root aggregates shapes \<Longrightarrow> shapes_agree c m i root (aggregates @ later) shapes"
  by (auto simp: shapes_agree_def equivalent_agrees_def nth_append split: planned_root_shape.splits equivalent_projection_t.splits)

section \<open>The aggregate arenas\<close>

definition operand_agrees :: "direct_columns \<Rightarrow> usize \<Rightarrow> planned_aggregate_restriction_operand \<Rightarrow> bool" where
  "operand_agrees c m operand \<longleftrightarrow> (case operand_projection operand of
     None \<Rightarrow> operand_coordinate operand = None
   | Some parts \<Rightarrow> (\<exists>coordinate. operand_coordinate operand = Some coordinate \<and>
       planned_restriction_parts c coordinate m = Inr parts))"

definition aligned :: "direct_columns \<Rightarrow> usize \<Rightarrow> selected_root_rule_plan \<Rightarrow> bool" where
  "aligned c m plan \<longleftrightarrow>
     aggregate_emission_named_nodes plan = map operand_node (aggregate_named_operands plan) \<and>
     aggregate_emission_restrictions plan = map operand_coordinate (aggregate_restriction_operands plan) \<and>
     (\<forall>operand \<in> set (aggregate_named_operands plan). named_class_iri c (operand_node operand) m = Inr (operand_iri operand)) \<and>
     (\<forall>operand \<in> set (aggregate_restriction_operands plan). operand_agrees c m operand)"

definition slices_inside :: "selected_root_rule_plan \<Rightarrow> bool" where
  "slices_inside plan \<longleftrightarrow> (\<forall>aggregate \<in> set (aggregate_roots plan).
     range_start (named_range aggregate) + range_length (named_range aggregate) \<le> length (aggregate_named_operands plan) \<and>
     range_start (restriction_range aggregate) + range_length (restriction_range aggregate)
       \<le> length (aggregate_restriction_operands plan))"

definition aggregates_below :: "nat \<Rightarrow> selected_root_rule_plan \<Rightarrow> bool" where
  "aggregates_below k plan \<longleftrightarrow> sorted_wrt (<) (map aggregate_root_index (aggregate_roots plan) @ [k])"

text \<open>What an arena operation leaves alone.\<close>

definition same_rows :: "selected_root_rule_plan \<Rightarrow> selected_root_rule_plan \<Rightarrow> bool" where
  "same_rows plan plan' \<longleftrightarrow> rule_indexes plan' = rule_indexes plan \<and> shape_roots plan' = shape_roots plan \<and>
     emission_roots plan' = emission_roots plan \<and> role_roots plan' = role_roots plan \<and>
     plan_counts plan' = plan_counts plan \<and> plan_selected plan' = plan_selected plan"

lemma same_rows_trans: "same_rows a b \<Longrightarrow> same_rows b d \<Longrightarrow> same_rows a d"
  by (simp add: same_rows_def)

definition grown :: "selected_root_rule_plan \<Rightarrow> selected_root_rule_plan \<Rightarrow> bool" where
  "grown plan plan' \<longleftrightarrow> same_rows plan plan' \<and> aggregate_roots plan' = aggregate_roots plan \<and>
     length (aggregate_named_operands plan) \<le> length (aggregate_named_operands plan') \<and>
     length (aggregate_restriction_operands plan) \<le> length (aggregate_restriction_operands plan')"

lemma plan_operand_arenas:
  assumes "plan_operand c st m aggregate_start item (plan, ignored) = Inr (plan', ignored')" and "aligned c m plan"
  shows "aligned c m plan' \<and> grown plan plan'"
proof -
  have "(\<exists>operand. plan' = plan\<lparr>aggregate_named_operands := aggregate_named_operands plan @ [operand],
            aggregate_emission_named_nodes := aggregate_emission_named_nodes plan @ [operand_node operand]\<rparr> \<and>
          named_class_iri c (operand_node operand) m = Inr (operand_iri operand)) \<or>
      (\<exists>operand. plan' = plan\<lparr>aggregate_restriction_operands := aggregate_restriction_operands plan @ [operand],
            aggregate_emission_restrictions := aggregate_emission_restrictions plan @ [operand_coordinate operand]\<rparr> \<and>
          operand_agrees c m operand) \<or> plan' = plan" (is "?N \<or> ?R \<or> _")
  proof -
    from assms(1) obtain operand_id tag where ok: "item_node c item = Inr operand_id" "node_tag c operand_id = Inr tag"
      "check_cancel st item = Inr ()" by (simp add: plan_operand_def bnd_eq_Inr seq_eq_Inr) blast
    note r = assms(1) [unfolded plan_operand_def prod.case ok seq_simps bnd_Inr]
    consider (entity) "tag = TAG_ENTITY" | (restriction) "tag \<noteq> TAG_ENTITY" "is_restriction_tag tag"
      | (neither) "tag \<noteq> TAG_ENTITY" "\<not> is_restriction_tag tag" by blast
    then show ?thesis
    proof cases
      case entity
      with r obtain iri_text where "named_class_iri c operand_id m = Inr iri_text"
        and "plan' = plan\<lparr>aggregate_named_operands := aggregate_named_operands plan @ [\<lparr> operand_node = operand_id, operand_iri = iri_text \<rparr>],
            aggregate_emission_named_nodes := aggregate_emission_named_nodes plan @ [operand_id]\<rparr>"
        by (auto simp: bnd_eq_Inr)
      then have ?N by (intro exI [of _ "\<lparr> operand_node = operand_id, operand_iri = iri_text \<rparr>"]) simp
      then show ?thesis by blast
    next
      case restriction
      with r obtain projection coordinate where p: "restriction_projection c operand_id m = Inr projection"
        and co: "(case projection of None \<Rightarrow> Inr None | Some _ \<Rightarrow> map_res Some (planned_restriction_coordinate_of c operand_id)) = Inr coordinate"
        and plan': "plan' = plan\<lparr>aggregate_restriction_operands := aggregate_restriction_operands plan @
              [\<lparr> operand_restriction_node = operand_id, operand_tag = tag, item_order = item - aggregate_start,
                 operand_projection = projection, operand_coordinate = coordinate \<rparr>],
            aggregate_emission_restrictions := aggregate_emission_restrictions plan @ [coordinate]\<rparr>"
        by (auto simp: bnd_eq_Inr)
      let ?o = "\<lparr> operand_restriction_node = operand_id, operand_tag = tag, item_order = item - aggregate_start,
                 operand_projection = projection, operand_coordinate = coordinate \<rparr>"
      from p co have "operand_agrees c m ?o"
        by (auto simp: operand_agrees_def map_res_eq_Inr split: option.splits intro: restriction_agrees)
      with plan' have ?R by (intro exI [of _ ?o]) simp
      then show ?thesis by blast
    next
      case neither
      with r show ?thesis by (auto simp: map_res_eq_Inr split: if_splits)
    qed
  qed
  with assms(2) show ?thesis by (auto simp: aligned_def grown_def same_rows_def)
qed

lemma plan_operands_arenas:
  assumes "fold_res (plan_operand c st m aggregate_start) items (plan, ignored) = Inr (plan', ignored')" and "aligned c m plan"
  shows "aligned c m plan' \<and> grown plan plan'"
proof -
  have "aligned c m (fst (plan', ignored')) \<and> grown plan (fst (plan', ignored'))"
  proof (rule fold_res_invariant [where P = "\<lambda>s. aligned c m (fst s) \<and> grown plan (fst s)", OF assms(1)])
    show "aligned c m (fst (plan, ignored)) \<and> grown plan (fst (plan, ignored))"
      using assms(2) by (simp add: grown_def same_rows_def)
  next
    fix x s t assume "aligned c m (fst s) \<and> grown plan (fst s)" and "plan_operand c st m aggregate_start x s = Inr t"
    then show "aligned c m (fst t) \<and> grown plan (fst t)"
      using plan_operand_arenas [of c st m aggregate_start x "fst s" "snd s" "fst t" "snd t"]
      by (auto simp: grown_def same_rows_def)
  qed
  then show ?thesis by simp
qed

context key_comparator
begin

lemma sort_tail_spec:
  assumes "sort_tail st compare start values = Inr ys" and "start \<le> length values"
  shows "mset ys = mset values \<and> take start ys = take start values"
proof -
  from assms(1) obtain tail where t: "cancellable_sort_unstable_by st compare (drop start values) = Inr tail"
    and ys: "ys = take start values @ tail" by (auto simp: sort_tail_def res_simps)
  have "mset ys = mset (take start values @ drop start values)"
    using sort_sound [OF t] ys by (simp only: mset_append)
  with ys assms(2) show ?thesis by simp
qed

end

lemma align_fold:
  assumes "fold_res (\<lambda>(alignment_index, operand) acc.
      seq (check_cancel st alignment_index) (Inr (acc[start + alignment_index := project operand])))
      (enumerate k operands) acc = Inr ys" and "start + k + length operands \<le> length acc"
  shows "ys = take (start + k) acc @ map project operands @ drop (start + k + length operands) acc"
  using assms
proof (induction operands arbitrary: k acc)
  case (Cons operand operands)
  from Cons.prems(1) have f: "fold_res (\<lambda>(alignment_index, operand) acc.
      seq (check_cancel st alignment_index) (Inr (acc[start + alignment_index := project operand])))
      (enumerate (Suc k) operands) (acc[start + k := project operand]) = Inr ys" by (auto simp: res_simps)
  from Cons.prems(2) have "start + k < length acc" by simp
  then have "take (start + Suc k) (acc[start + k := project operand]) = take (start + k) acc @ [project operand]"
    by (simp add: take_Suc_conv_app_nth)
  with Cons.IH [OF f] Cons.prems(2) show ?case by simp
qed simp

lemma align_tail_spec:
  assumes "align_tail st project start operands emission = Inr ys"
    and "length emission = length operands" and "start \<le> length operands"
    and "take start emission = map project (take start operands)"
  shows "ys = map project operands"
proof -
  have l: "take (length emission - start) (drop start operands) = drop start operands" using assms(2) by simp
  have "ys = take (start + 0) emission @ map project (drop start operands) @ drop (start + 0 + length (drop start operands)) emission"
    using assms(1) unfolding align_tail_def l by (rule align_fold) (use assms(2,3) in simp)
  with assms show ?thesis by (simp add: map_append [symmetric] del: map_append)
qed

interpretation named_operands: key_comparator compare_named_operands named_operand_key
  by unfold_locales (auto simp: compare_named_operands_def named_operand_key_def cmp_def less_prod_def' split: ordering.splits)

interpretation restriction_operands: key_comparator compare_restriction_operands restriction_operand_key
  by unfold_locales (simp add: compare_restriction_operands_def)

lemma plan_aggregate_arenas:
  assumes p: "plan_aggregate c st m i expression_id plan = Inr (k, plan')"
    and al: "aligned c m plan" and sl: "slices_inside plan" and below: "aggregates_below i plan"
  shows "aligned c m plan' \<and> slices_inside plan' \<and> aggregates_below (Suc i) plan' \<and> same_rows plan plan' \<and>
    k < length (aggregate_roots plan') \<and> aggregate_root_index (aggregate_roots plan' ! k) = i \<and>
    (\<exists>aggregate. aggregate_roots plan' = aggregate_roots plan @ [aggregate])"
proof -
  let ?n = "length (aggregate_named_operands plan)" and ?r = "length (aggregate_restriction_operands plan)"
  from p obtain a l plan1 ignored named nodes restrictions coordinates where
    ops: "fold_res (plan_operand c st m a) [a ..< a + l] (plan, 0) = Inr (plan1, ignored)"
    and named: "sort_tail st compare_named_operands ?n (aggregate_named_operands plan1) = Inr named"
    and nodes: "align_tail st operand_node ?n named (aggregate_emission_named_nodes plan1) = Inr nodes"
    and restrictions: "sort_tail st compare_restriction_operands ?r (aggregate_restriction_operands plan1) = Inr restrictions"
    and coordinates: "align_tail st operand_coordinate ?r restrictions (aggregate_emission_restrictions plan1) = Inr coordinates"
    and k: "k = length (aggregate_roots plan1)"
    and plan': "plan' = plan1\<lparr>aggregate_named_operands := named, aggregate_emission_named_nodes := nodes,
             aggregate_restriction_operands := restrictions, aggregate_emission_restrictions := coordinates,
             aggregate_roots := aggregate_roots plan1 @
               [\<lparr> aggregate_root_index = i, named_range = \<lparr> range_start = ?n, range_length = length named - ?n \<rparr>,
                  restriction_range = \<lparr> range_start = ?r, range_length = length restrictions - ?r \<rparr>,
                  planned_ignored_shapes = ignored \<rparr>]\<rparr>"
    unfolding plan_aggregate_def Let_def bnd_eq_Inr by (auto simp: bnd_eq_Inr)
  from plan_operands_arenas [OF ops al] have al1: "aligned c m plan1" and g: "grown plan plan1" by simp_all
  from g have len: "?n \<le> length (aggregate_named_operands plan1)" "?r \<le> length (aggregate_restriction_operands plan1)"
    and roots: "aggregate_roots plan1 = aggregate_roots plan" and rows: "same_rows plan plan1" by (simp_all add: grown_def)
  note ns = named_operands.sort_tail_spec [OF named len(1)] and rs = restriction_operands.sort_tail_spec [OF restrictions len(2)]
  have nl: "length named = length (aggregate_named_operands plan1)" "length restrictions = length (aggregate_restriction_operands plan1)"
    using ns rs by (metis mset_eq_length)+
  have sets: "set named = set (aggregate_named_operands plan1)" "set restrictions = set (aggregate_restriction_operands plan1)"
    using ns rs by (metis mset_eq_setD)+
  from al1 have em: "aggregate_emission_named_nodes plan1 = map operand_node (aggregate_named_operands plan1)"
    "aggregate_emission_restrictions plan1 = map operand_coordinate (aggregate_restriction_operands plan1)"
    by (simp_all add: aligned_def)
  have n: "nodes = map operand_node named"
    by (rule align_tail_spec [OF nodes]) (use em nl len ns in \<open>simp_all add: take_map\<close>)
  have co: "coordinates = map operand_coordinate restrictions"
    by (rule align_tail_spec [OF coordinates]) (use em nl len rs in \<open>simp_all add: take_map\<close>)
  have "aligned c m plan'" using al1 sets n co by (simp add: plan' aligned_def)
  moreover have "slices_inside plan'"
    using sl nl len roots by (force simp: plan' slices_inside_def)
  moreover have "aggregates_below (Suc i) plan'"
    using below roots by (force simp: plan' aggregates_below_def sorted_wrt_append)
  moreover have "same_rows plan plan'" using rows by (simp add: same_rows_def plan')
  ultimately show ?thesis using k roots by (simp add: plan')
qed

section \<open>The shapes of a root\<close>

text \<open>Everything the arenas and the rows need from one step at root \<open>i\<close>.\<close>

definition arenas_ok :: "direct_columns \<Rightarrow> usize \<Rightarrow> nat \<Rightarrow> selected_root_rule_plan \<Rightarrow> bool" where
  "arenas_ok c m i plan \<longleftrightarrow> aligned c m plan \<and> slices_inside plan \<and> aggregates_below i plan"

definition extends_at :: "nat \<Rightarrow> selected_root_rule_plan \<Rightarrow> selected_root_rule_plan \<Rightarrow> bool" where
  "extends_at i plan plan' \<longleftrightarrow> same_rows plan plan' \<and>
     (\<exists>aggregates. aggregate_roots plan' = aggregate_roots plan @ aggregates)"

lemma aggregates_below_Suc: "aggregates_below i plan \<Longrightarrow> aggregates_below (Suc i) plan"
  by (force simp: aggregates_below_def sorted_wrt_append)

lemma arenas_ok_Suc: "arenas_ok c m i plan \<Longrightarrow> arenas_ok c m (Suc i) plan"
  by (simp add: arenas_ok_def aggregates_below_Suc)

lemma extends_refl [simp]: "extends_at i plan plan"
  by (simp add: extends_at_def same_rows_def)

lemma planned_key_iri:
  "planned_expression_key c n m = Inr key \<Longrightarrow> key_node key = n \<and> (\<forall>t. key_iri key = Some t \<longrightarrow> named_class_iri c n m = Inr t)"
  by (auto simp: planned_expression_key_def res_simps split: if_splits)

definition key_ok :: "direct_columns \<Rightarrow> usize \<Rightarrow> planned_expression_key_t option \<Rightarrow> bool" where
  "key_ok c m key \<longleftrightarrow> (\<forall>k t. key = Some k \<longrightarrow> key_iri k = Some t \<longrightarrow> named_class_iri c (key_node k) m = Inr t)"

lemma best_expressions_keys:
  assumes "best_expressions c st m r = Inr (first, second)"
  shows "key_ok c m first \<and> key_ok c m second"
proof -
  have "(\<lambda>(a, b). key_ok c m a \<and> key_ok c m b) (first, second)"
    using assms unfolding best_expressions_def
  proof (rule fold_res_invariant)
    show "case (None, None) of (a, b) \<Rightarrow> key_ok c m a \<and> key_ok c m b" by (simp add: key_ok_def)
  next
    fix x s t
    assume s: "case s of (a, b) \<Rightarrow> key_ok c m a \<and> key_ok c m b"
      and "seq (check_cancel st x) (bnd (item_node c x) (\<lambda>node_id.
         map_res (\<lambda>candidate. keep_best candidate s) (planned_expression_key c node_id m))) = Inr t"
    then obtain n key where "planned_expression_key c n m = Inr key" and t: "t = keep_best key s"
      by (auto simp: res_simps)
    then have "key_ok c m (Some key)" using planned_key_iri by (auto simp: key_ok_def)
    with s t show "case t of (a, b) \<Rightarrow> key_ok c m a \<and> key_ok c m b"
      by (cases "(key, s)" rule: keep_best.cases) auto
  qed
  then show ?thesis by simp
qed

lemma plan_equivalent_agrees:
  assumes p: "plan_equivalent_shape c st m i node plan = Inr (shapes, plan')" and ok: "arenas_ok c m i plan"
  shows "shape_handler (fst shapes) = HandleEquivalentClasses \<and> shapes_agree c m i node (aggregate_roots plan') shapes \<and>
    arenas_ok c m (Suc i) plan' \<and> extends_at i plan plan'"
proof -
  from p obtain r best where b: "best_expressions c st m r = Inr best"
    and rest: "(case best of (Some first, Some second) \<Rightarrow>
         (case key_iri first of
            None \<Rightarrow> Inr ((EquivalentShape EquivalentIgnored, EmitEquivalentIgnored), plan)
          | Some source \<Rightarrow>
              (case key_iri second of
                 Some destination \<Rightarrow>
                   Inr ((EquivalentShape (EquivalentPair source (key_node first) destination (key_node second)),
                         EmitEquivalentPair (key_node first) (key_node second)), plan)
               | None \<Rightarrow>
                   bnd (node_tag c (key_node second)) (\<lambda>tag.
                   if \<not> is_aggregate_tag tag
                   then Inr ((EquivalentShape EquivalentIgnored, EmitEquivalentIgnored), plan) else
                   map_res (\<lambda>(aggregate_plan_index, plan').
                       ((EquivalentShape (EquivalentAggregate source (key_node first) (key_node second)),
                         EmitEquivalentAggregate (key_node first) aggregate_plan_index), plan'))
                     (plan_aggregate c st m i (key_node second) plan))))
     | _ \<Rightarrow> Inl Malformed) = Inr (shapes, plan')"
    unfolding plan_equivalent_shape_def bnd_eq_Inr seq_eq_Inr by blast
  from rest obtain first second where best: "best = (Some first, Some second)"
    by (auto split: prod.splits option.splits)
  from best_expressions_keys [OF b [unfolded best]]
  have keys: "key_iri first = Some t \<Longrightarrow> named_class_iri c (key_node first) m = Inr t"
    "key_iri second = Some t \<Longrightarrow> named_class_iri c (key_node second) m = Inr t" for t by (auto simp: key_ok_def)
  note ok' = ok [unfolded arenas_ok_def]
  show ?thesis
  proof (cases "key_iri first")
    case None
    with rest best ok show ?thesis by (auto simp: shapes_agree_def equivalent_agrees_def intro: arenas_ok_Suc)
  next
    case (Some source)
    note source = this
    show ?thesis
    proof (cases "key_iri second")
      case (Some destination)
      with rest best source keys ok show ?thesis by (auto simp: shapes_agree_def equivalent_agrees_def intro: arenas_ok_Suc)
    next
      case None
      with rest best source obtain tag where tag: "node_tag c (key_node second) = Inr tag" by (auto simp: bnd_eq_Inr)
      show ?thesis
      proof (cases "is_aggregate_tag tag")
        case False
        with rest best source None tag ok show ?thesis
          by (auto simp: shapes_agree_def equivalent_agrees_def intro: arenas_ok_Suc)
      next
        case True
        with rest best source None tag obtain k where
          pa: "plan_aggregate c st m i (key_node second) plan = Inr (k, plan')"
          and sh: "shapes = (EquivalentShape (EquivalentAggregate source (key_node first) (key_node second)),
                         EmitEquivalentAggregate (key_node first) k)"
          by (auto simp: map_res_eq_Inr)
        from plan_aggregate_arenas [OF pa] ok' keys(1) [OF source] show ?thesis
          by (auto simp: sh shapes_agree_def equivalent_agrees_def arenas_ok_def extends_at_def)
      qed
    qed
  qed
qed

lemma subclass_shape_agrees:
  assumes "subclass_projection c n m = Inr projection" and "exact_fields c n 3 = Inr start"
    and "field_node c start = Inr sub_node" and "field_node c (start + 1) = Inr super_node"
    and "(case projection of
              SubclassTaxonomy _ _ \<Rightarrow> Inr (EmitSubclassTaxonomy sub_node super_node)
            | SubclassRestriction _ _ _ \<Rightarrow>
                bnd (node_tag c sub_node) (\<lambda>sub_tag.
                let (source_node, restriction_node) =
                      (if sub_tag = TAG_ENTITY then (sub_node, super_node) else (super_node, sub_node)) in
                map_res (EmitSubclassRestriction source_node) (planned_restriction_coordinate_of c restriction_node))
            | SubclassIgnored \<Rightarrow> Inr EmitSubclassIgnored) = Inr emission"
  shows "subclass_agrees c m projection emission"
proof -
  from assms(1-4) obtain sub_tag super_tag where tags: "node_tag c sub_node = Inr sub_tag" "node_tag c super_node = Inr super_tag"
    and pr: "(if sub_tag = TAG_ENTITY \<and> super_tag = TAG_ENTITY then
            bnd (named_class_iri c sub_node m) (\<lambda>source.
            bnd (named_class_iri c super_node m) (\<lambda>destination.
            Inr (SubclassTaxonomy source destination)))
          else if sub_tag = TAG_ENTITY \<and> is_restriction_tag super_tag then
            subclass_restriction c sub_node super_node m
          else if is_restriction_tag sub_tag \<and> super_tag = TAG_ENTITY then
            subclass_restriction c super_node sub_node m
          else if is_nonprojecting_class_tag sub_tag \<or> is_nonprojecting_class_tag super_tag
            \<or> is_aggregate_tag sub_tag \<or> is_aggregate_tag super_tag
            \<or> is_restriction_tag sub_tag \<or> is_restriction_tag super_tag then
            seq (validate_ignored_subclass_operand c sub_node m) (
            seq (validate_ignored_subclass_operand c super_node m) (Inr SubclassIgnored))
          else Inl Unsupported) = Inr projection"
    unfolding subclass_projection_def by (auto simp only: bnd_eq_Inr seq_eq_Inr sum.inject)
  consider (taxonomy) "sub_tag = TAG_ENTITY" "super_tag = TAG_ENTITY"
    | (right) "sub_tag = TAG_ENTITY" "super_tag \<noteq> TAG_ENTITY" "is_restriction_tag super_tag"
    | (left) "sub_tag \<noteq> TAG_ENTITY" "super_tag = TAG_ENTITY" "is_restriction_tag sub_tag"
    | (neither) "projection = SubclassIgnored" using pr
    by (cases "sub_tag = TAG_ENTITY"; cases "super_tag = TAG_ENTITY"; auto simp: seq_eq_Inr split: if_splits)
  then show ?thesis
  proof cases
    case taxonomy
    with pr assms(5) show ?thesis by (auto simp: bnd_eq_Inr subclass_agrees_def)
  next
    case right
    with pr tags assms(5) show ?thesis
      by (auto simp: bnd_eq_Inr map_res_eq_Inr subclass_agrees_def subclass_restriction_def
          split: option.splits) (rule restriction_agrees)
  next
    case left
    with pr tags assms(5) show ?thesis
      by (auto simp: bnd_eq_Inr map_res_eq_Inr subclass_agrees_def subclass_restriction_def
          split: option.splits) (rule restriction_agrees)
  next
    case neither
    with assms(5) show ?thesis by (simp add: subclass_agrees_def)
  qed
qed

lemma property_class_shape_agrees:
  assumes "object_property_class_projection c n expected m = Inr projection"
    and "(if projection \<noteq> None then
              bnd (exact_fields c n 3) (\<lambda>start.
              bnd (field_node c start) (\<lambda>property.
              bnd (field_node c (start + 1)) (\<lambda>class_id.
              Inr (EmitObjectPropertyClassProjected property class_id))))
            else Inr EmitObjectPropertyClassIgnored) = Inr emission"
  shows "property_class_agrees c m projection emission"
  using assms unfolding object_property_class_projection_def property_class_agrees_def
  by (auto simp: res_simps split: if_splits option.splits)

lemma class_assertion_shape_agrees:
  assumes "class_assertion_projection c n m = Inr projection"
  shows "class_assertion_agrees c m projection (case projection of
      ClassAssertionEdge _ individual_node _ class_node \<Rightarrow> EmitClassAssertionEdge individual_node class_node
    | ClassAssertionIgnored \<Rightarrow> EmitClassAssertionIgnored)"
  using assms unfolding class_assertion_projection_def class_assertion_agrees_def
  by (auto simp: bnd_eq_Inr seq_eq_Inr split: if_splits)

lemma object_assertion_shape_agrees:
  assumes parts: "object_property_assertion_parts c n m = Inr (source, relation, destination)"
    and f: "exact_fields c n 4 = Inr start" "field_node c (start + 1) = Inr source_node"
      "field_node c (start + 2) = Inr destination_node" "field_node c start = Inr property"
    and co: "planned_individual_coordinate c source source_node = Inr source_coordinate"
      "planned_individual_coordinate c destination destination_node = Inr destination_coordinate"
  shows "object_assertion_agrees c m n source relation destination
    (EmitObjectPropertyAssertion property source_coordinate destination_coordinate)"
proof -
  from parts f have v: "individual_value c source_node m = Inr source" "individual_value c destination_node m = Inr destination"
    and r: "named_object_property_iri c property m = Inr relation"
    unfolding object_property_assertion_parts_def by (auto simp: bnd_eq_Inr seq_eq_Inr split: if_splits)
  show ?thesis
    using r individual_coordinate_agrees [OF v(1) co(1) field_has_child [OF f(1,2)]]
      individual_coordinate_agrees [OF v(2) co(2) field_has_child [OF f(1,3)]]
    by (simp add: object_assertion_agrees_def)
qed

lemma plan_root_shape_agrees:
  assumes p: "plan_root_shape rule c i n m st plan = Inr (shapes, plan')" and ok: "arenas_ok c m i plan"
  shows "(case shapes of
       None \<Rightarrow> handler rule \<notin> shaped_handlers
     | Some s \<Rightarrow> shape_handler (fst s) = handler rule \<and> shapes_agree c m i n (aggregate_roots plan') s) \<and>
    arenas_ok c m (Suc i) plan' \<and> extends_at i plan plan'"
proof (cases "handler rule")
  case HandleSubclass
  with p obtain projection start sub_node super_node emission where
    "subclass_projection c n m = Inr projection" "exact_fields c n 3 = Inr start"
    "field_node c start = Inr sub_node" "field_node c (start + 1) = Inr super_node"
    "(case projection of
              SubclassTaxonomy _ _ \<Rightarrow> Inr (EmitSubclassTaxonomy sub_node super_node)
            | SubclassRestriction _ _ _ \<Rightarrow>
                bnd (node_tag c sub_node) (\<lambda>sub_tag.
                let (source_node, restriction_node) =
                      (if sub_tag = TAG_ENTITY then (sub_node, super_node) else (super_node, sub_node)) in
                map_res (EmitSubclassRestriction source_node) (planned_restriction_coordinate_of c restriction_node))
            | SubclassIgnored \<Rightarrow> Inr EmitSubclassIgnored) = Inr emission"
    and s: "shapes = Some (SubclassShape projection, emission)" "plan' = plan"
    unfolding plan_root_shape_def by (auto simp only: bnd_eq_Inr root_rule_handler.case sum.inject prod.inject)
  from subclass_shape_agrees [OF this(1-5)] s ok HandleSubclass show ?thesis
    by (simp add: shapes_agree_def arenas_ok_Suc)
next
  case HandleEquivalentClasses
  with p obtain s where "plan_equivalent_shape c st m i n plan = Inr (s, plan')" "shapes = Some s"
    unfolding plan_root_shape_def by (auto simp: map_res_eq_Inr)
  with plan_equivalent_agrees [OF this(1) ok] HandleEquivalentClasses show ?thesis by simp
next
  case HandleObjectPropertyClass
  with p obtain projection emission where
    "object_property_class_projection c n (rule_tag rule) m = Inr projection"
    "(if projection \<noteq> None then
              bnd (exact_fields c n 3) (\<lambda>start.
              bnd (field_node c start) (\<lambda>property.
              bnd (field_node c (start + 1)) (\<lambda>class_id.
              Inr (EmitObjectPropertyClassProjected property class_id))))
            else Inr EmitObjectPropertyClassIgnored) = Inr emission"
    and s: "shapes = Some (ObjectPropertyClassShape projection, emission)" "plan' = plan"
    unfolding plan_root_shape_def
    by (simp only: root_rule_handler.case bnd_eq_Inr [of "object_property_class_projection _ _ _ _"]
        bnd_eq_Inr [of "if _ then _ else _"] sum.inject prod.inject) blast
  from property_class_shape_agrees [OF this(1,2)] s ok HandleObjectPropertyClass show ?thesis
    by (simp add: shapes_agree_def arenas_ok_Suc)
next
  case HandleClassAssertion
  with p obtain projection where "class_assertion_projection c n m = Inr projection"
    and s: "shapes = Some (ClassAssertionShape projection, case projection of
      ClassAssertionEdge _ individual_node _ class_node \<Rightarrow> EmitClassAssertionEdge individual_node class_node
    | ClassAssertionIgnored \<Rightarrow> EmitClassAssertionIgnored)" "plan' = plan"
    unfolding plan_root_shape_def by (auto simp: map_res_eq_Inr)
  from class_assertion_shape_agrees [OF this(1)] s ok HandleClassAssertion show ?thesis
    by (simp add: shapes_agree_def arenas_ok_Suc)
next
  case HandleObjectPropertyAssertion
  with p obtain source relation destination start source_node destination_node property source_coordinate destination_coordinate where
    "object_property_assertion_parts c n m = Inr (source, relation, destination)"
    "exact_fields c n 4 = Inr start" "field_node c (start + 1) = Inr source_node"
    "field_node c (start + 2) = Inr destination_node" "field_node c start = Inr property"
    "planned_individual_coordinate c source source_node = Inr source_coordinate"
    "planned_individual_coordinate c destination destination_node = Inr destination_coordinate"
    and s: "shapes = Some (ObjectPropertyAssertionShape source relation destination,
              EmitObjectPropertyAssertion property source_coordinate destination_coordinate)" "plan' = plan"
    unfolding plan_root_shape_def by (auto simp: bnd_eq_Inr)
  from object_assertion_shape_agrees [OF this(1-7)] s ok HandleObjectPropertyAssertion show ?thesis
    by (simp add: shapes_agree_def arenas_ok_Suc)
qed (use p ok in \<open>auto simp: plan_root_shape_def shaped_handlers_def arenas_ok_Suc\<close>)

section \<open>The counters\<close>

definition is_restriction_shape :: "planned_root_shape option \<Rightarrow> bool" where
  "is_restriction_shape s \<longleftrightarrow> (\<exists>a r b. s = Some (SubclassShape (SubclassRestriction a r b)))"

definition is_aggregate_shape :: "planned_root_shape option \<Rightarrow> bool" where
  "is_aggregate_shape s \<longleftrightarrow> (\<exists>iri start len. s = Some (EquivalentShape (EquivalentAggregate iri start len)))"

definition is_ignored_class :: "root_domain_range_effect \<Rightarrow> root_rule \<Rightarrow> planned_root_shape option \<Rightarrow> bool" where
  "is_ignored_class effect rule s \<longleftrightarrow> domain_range_effect rule = effect \<and> s = Some (ObjectPropertyClassShape None)"

text \<open>A sub-property axiom whose first operand is a property chain.\<close>

definition chain_node :: "direct_columns \<Rightarrow> usize \<Rightarrow> bool" where
  "chain_node c n \<longleftrightarrow> (\<exists>start first. exact_fields c n 3 = Inr start \<and> field_node c start = Inr first \<and>
     node_tag c first = Inr TAG_OBJECT_PROPERTY_CHAIN)"

definition tallies :: "root_counts \<Rightarrow> plan_entry list \<Rightarrow> bool" where
  "tallies counts es \<longleftrightarrow>
     (\<forall>k. counted k counts = tally (\<lambda>rule _. effect_counter (stats_effect rule) = k) es) \<and>
     n_restriction_subclasses counts = tally (\<lambda>_ s. is_restriction_shape s) es \<and>
     n_ignored_subclasses counts = tally (\<lambda>_ s. s = Some (SubclassShape SubclassIgnored)) es \<and>
     n_ignored_class_assertions counts = tally (\<lambda>_ s. s = Some (ClassAssertionShape ClassAssertionIgnored)) es \<and>
     n_aggregate_equivalents counts = tally (\<lambda>_ s. is_aggregate_shape s) es \<and>
     n_ignored_object_property_domains counts = tally (is_ignored_class DomainEffect) es \<and>
     n_ignored_object_property_ranges counts = tally (is_ignored_class RangeEffect) es"

lemma increment_others:
  "increment k counts = Inr counts' \<Longrightarrow> n_restriction_subclasses counts' = n_restriction_subclasses counts \<and>
     n_ignored_subclasses counts' = n_ignored_subclasses counts \<and>
     n_ignored_class_assertions counts' = n_ignored_class_assertions counts \<and>
     n_aggregate_equivalents counts' = n_aggregate_equivalents counts \<and>
     n_ignored_object_property_domains counts' = n_ignored_object_property_domains counts \<and>
     n_ignored_object_property_ranges counts' = n_ignored_object_property_ranges counts \<and>
     n_object_property_chains counts' = n_object_property_chains counts"
  by (cases k) (auto simp: bump_Inr)

lemma counted_classified [simp]:
  "counted k (counts\<lparr>n_restriction_subclasses := x\<rparr>) = counted k counts"
  "counted k (counts\<lparr>n_ignored_subclasses := x\<rparr>) = counted k counts"
  "counted k (counts\<lparr>n_aggregate_equivalents := x\<rparr>) = counted k counts"
  "counted k (counts\<lparr>n_ignored_class_assertions := x\<rparr>) = counted k counts"
  "counted k (counts\<lparr>n_object_property_chains := x\<rparr>) = counted k counts"
  "counted k (counts\<lparr>n_ignored_object_property_domains := x\<rparr>) = counted k counts"
  "counted k (counts\<lparr>n_ignored_object_property_ranges := x\<rparr>) = counted k counts"
  by (cases k; simp)+

lemmas shape_defs = is_restriction_shape_def is_aggregate_shape_def is_ignored_class_def

lemma classify_shape_counts:
  assumes "classify_shape rule c n m i shape counts = Inr (effect, counts')"
    and "case shape of None \<Rightarrow> True | Some s \<Rightarrow> shape_handler s = handler rule"
  shows "counted k counts' = counted k counts \<and>
    n_restriction_subclasses counts' = n_restriction_subclasses counts + (if is_restriction_shape shape then 1 else 0) \<and>
    n_ignored_subclasses counts' = n_ignored_subclasses counts + (if shape = Some (SubclassShape SubclassIgnored) then 1 else 0) \<and>
    n_ignored_class_assertions counts' = n_ignored_class_assertions counts +
      (if shape = Some (ClassAssertionShape ClassAssertionIgnored) then 1 else 0) \<and>
    n_aggregate_equivalents counts' = n_aggregate_equivalents counts + (if is_aggregate_shape shape then 1 else 0) \<and>
    n_ignored_object_property_domains counts' = n_ignored_object_property_domains counts +
      (if is_ignored_class DomainEffect rule shape then 1 else 0) \<and>
    n_ignored_object_property_ranges counts' = n_ignored_object_property_ranges counts +
      (if is_ignored_class RangeEffect rule shape then 1 else 0)"
proof (cases shape)
  case None
  with assms show ?thesis
    by (auto simp: classify_shape_def classify_sub_object_property_def shape_defs bump_Inr res_simps
        split: root_rule_handler.splits if_splits)
next
  case (Some s)
  then have h: "handler rule = shape_handler s" using assms(2) by simp
  show ?thesis
  proof (cases s)
    case (SubclassShape p)
    with Some h assms(1) show ?thesis
      by (cases p) (auto simp: classify_shape_def shape_defs bump_Inr res_simps)
  next
    case (EquivalentShape p)
    with Some h assms(1) show ?thesis
      by (cases p) (auto simp: classify_shape_def shape_defs bump_Inr res_simps)
  next
    case (ObjectPropertyClassShape p)
    with Some h assms(1) show ?thesis
      by (cases p) (auto simp: classify_shape_def shape_defs bump_Inr res_simps
          split: root_domain_range_effect.splits)
  next
    case (ClassAssertionShape p)
    with Some h assms(1) show ?thesis
      by (cases p) (auto simp: classify_shape_def shape_defs bump_Inr res_simps)
  next
    case (ObjectPropertyAssertionShape a r b)
    with Some h assms(1) show ?thesis
      by (auto simp: classify_shape_def shape_defs bump_Inr res_simps)
  qed
qed

lemma classify_chains:
  assumes "classify_shape rule c n m i shape counts = Inr (effect, counts')"
  shows "n_object_property_chains counts' = n_object_property_chains counts +
    (if handler rule = HandleSubObjectProperty \<and> chain_node c n then 1 else 0)"
  using assms
  by (auto simp: classify_shape_def classify_sub_object_property_def chain_node_def bump_Inr res_simps
      split: root_rule_handler.splits if_splits option.splits planned_root_shape.splits subclass_projection_t.splits
        equivalent_projection_t.splits class_assertion_projection_t.splits root_domain_range_effect.splits)

lemma classify_tallies:
  assumes "classify rule c n m i shape counts = Inr (effect, classified, counts')"
    and "case shape of None \<Rightarrow> True | Some s \<Rightarrow> shape_handler s = handler rule"
    and "tallies counts es" and "map_option fst shapes = shape"
  shows "tallies counts' (es @ [Some (rule, shapes)])"
proof -
  from assms(1) obtain counts1 where inc: "increment (effect_counter (stats_effect rule)) counts = Inr counts1"
    and sh: "classify_shape rule c n m i shape counts1 = Inr (effect, counts')"
    by (auto simp: classify_def bnd_eq_Inr split: if_splits)
  show ?thesis
    using assms(3) increment_counts [OF inc] increment_others [OF inc] classify_shape_counts [OF sh assms(2)] assms(4)
    by (simp add: tallies_def eq_commute)
qed

lemma classify_chain_count:
  assumes "classify rule c n m i shape counts = Inr (effect, classified, counts')"
  shows "n_object_property_chains counts' = n_object_property_chains counts +
    (if handler rule = HandleSubObjectProperty \<and> chain_node c n then 1 else 0)"
proof -
  from assms obtain counts1 where "increment (effect_counter (stats_effect rule)) counts = Inr counts1"
    and "classify_shape rule c n m i shape counts1 = Inr (effect, counts')"
    by (auto simp: classify_def bnd_eq_Inr split: if_splits)
  with increment_others [OF this(1)] classify_chains [OF this(2)] show ?thesis by simp
qed

text \<open>The chains among the entries: the handler is that of the row, the operand that of the table.\<close>

definition chain_entry :: "direct_columns \<Rightarrow> nat \<Rightarrow> plan_entry \<Rightarrow> bool" where
  "chain_entry c i e \<longleftrightarrow> (\<exists>rule shapes n. e = Some (rule, shapes) \<and> handler rule = HandleSubObjectProperty \<and>
     root_id c i = Inr n \<and> chain_node c n)"

definition chains_counted :: "direct_columns \<Rightarrow> plan_entry list \<Rightarrow> usize \<Rightarrow> bool" where
  "chains_counted c es k \<longleftrightarrow> k = card {i. i < length es \<and> chain_entry c i (es ! i)}"

lemma chains_counted_snoc:
  assumes "chains_counted c es k"
  shows "chains_counted c (es @ [e]) (k + (if chain_entry c (length es) e then 1 else 0))"
proof -
  let ?old = "{i. i < length es \<and> chain_entry c i (es ! i)}"
  have "{i. i < length (es @ [e]) \<and> chain_entry c i ((es @ [e]) ! i)} =
      (if chain_entry c (length es) e then insert (length es) ?old else ?old)"
    by (auto simp: nth_append less_Suc_eq split: if_splits)
  with assms show ?thesis by (simp add: chains_counted_def)
qed

section \<open>The invariant\<close>

definition shapes_ok :: "direct_columns \<Rightarrow> usize \<Rightarrow> usize \<Rightarrow> usize \<Rightarrow> planned_aggregate_root list \<Rightarrow> root_rule
    \<Rightarrow> planned_shapes option \<Rightarrow> bool" where
  "shapes_ok c m i n aggregates rule shapes \<longleftrightarrow> (case shapes of
     None \<Rightarrow> handler rule \<notin> shaped_handlers
   | Some s \<Rightarrow> shape_handler (fst s) = handler rule \<and> shapes_agree c m i n aggregates s)"

lemma shapes_ok_mono: "shapes_ok c m i n aggregates rule shapes \<Longrightarrow> shapes_ok c m i n (aggregates @ later) rule shapes"
  by (auto simp: shapes_ok_def intro: agree_mono split: option.splits)

definition entry_ok :: "direct_columns \<Rightarrow> usize \<Rightarrow> selected_root_rule_plan \<Rightarrow> nat \<Rightarrow> plan_entry \<Rightarrow> bool" where
  "entry_ok c m plan i e \<longleftrightarrow> (case e of
     None \<Rightarrow> root_is_selected c i = Inr False
   | Some (rule, shapes) \<Rightarrow> root_is_selected c i = Inr True \<and> rule \<in> set ROOT_RULES \<and> rule_at plan i = Inr rule \<and>
       (\<exists>n. root_id c i = Inr n \<and> root_kind c i = Inr (rule_root_kind rule) \<and> node_tag c n = Inr (rule_tag rule) \<and>
         shapes_ok c m i n (aggregate_roots plan) rule shapes))"

definition plan_invariant :: "direct_columns \<Rightarrow> usize \<Rightarrow> plan_entry list \<Rightarrow> selected_root_rule_plan \<Rightarrow> bool" where
  "plan_invariant c m es plan \<longleftrightarrow>
     length (rule_indexes plan) = root_count c \<and> length es \<le> root_count c \<and>
     (\<forall>i < length es. entry_ok c m plan i (es ! i)) \<and>
     shape_roots plan = rows_of fst es \<and> emission_roots plan = rows_of snd es \<and>
     arenas_ok c m (length es) plan \<and> tallies (plan_counts plan) es \<and>
     plan_selected plan = tally (\<lambda>_ _. True) es \<and>
     chains_counted c es (n_object_property_chains (plan_counts plan))"

lemma counted_default: "counted k root_counts_default = 0"
  by (cases k) (simp_all add: root_counts_default_def root_counts.defs)

lemma empty_plan_invariant: "plan_invariant c m [] (empty_plan (root_count c))"
  by (simp add: plan_invariant_def empty_plan_def chains_counted_def arenas_ok_def aligned_def slices_inside_def aggregates_below_def
      tallies_def counted_default) (simp add: root_counts_default_def root_counts.defs)

lemma entry_ok_later:
  assumes "entry_ok c m plan i e" and "extends_at k plan plan1" and "i \<noteq> k"
    and "rule_indexes plan2 = (rule_indexes plan1)[k := encoded]" and "aggregate_roots plan2 = aggregate_roots plan1"
  shows "entry_ok c m plan2 i e"
proof -
  from assms(2) obtain later where l: "aggregate_roots plan1 = aggregate_roots plan @ later"
    and r: "rule_indexes plan1 = rule_indexes plan" by (auto simp: extends_at_def same_rows_def)
  have "rule_at plan2 i = rule_at plan i" using assms(3,4) r
    by (simp add: rule_at_def resolved_root_rule_at_def get_at_def)
  with assms(1,5) l show ?thesis
    by (auto simp: entry_ok_def split: option.splits dest: shapes_ok_mono [where later = later])
qed

lemma populate_step_invariant:
  assumes inv: "plan_invariant c m es plan" and step: "populate_step c m st (length es) plan = Inr plan'"
    and len: "length es < root_count c"
  shows "\<exists>e. plan_invariant c m (es @ [e]) plan'"
proof -
  let ?i = "length es"
  note inv' = inv [unfolded plan_invariant_def]
  from step obtain chosen where chosen: "root_is_selected c ?i = Inr chosen"
    by (auto simp: populate_step_def bnd_eq_Inr seq_eq_Inr)
  show ?thesis
  proof (cases chosen)
    case False
    with step chosen have "plan' = plan" by (auto simp: populate_step_def seq_eq_Inr)
    moreover have "chains_counted c (es @ [None]) (n_object_property_chains (plan_counts plan))"
      using chains_counted_snoc [of c es _ None] inv' by (auto simp: chain_entry_def)
    ultimately have "plan_invariant c m (es @ [None]) plan'" using inv' len chosen False
      by (auto simp: plan_invariant_def nth_append less_Suc_eq entry_ok_def rows_of_snoc tallies_def intro: arenas_ok_Suc)
    then show ?thesis by blast
  next
    case True
    with step chosen obtain n kind tag encoded rule shapes plan1 effect counts where
      root: "root_id c ?i = Inr n" "root_kind c ?i = Inr kind" "node_tag c n = Inr tag"
      and res: "resolve_index kind tag = Inr encoded" "rule_by_index (encoded - 1) = Inr rule"
      and ps: "plan_root_shape rule c ?i n m st plan = Inr (shapes, plan1)"
      and cl: "classify rule c n m ?i (map_option fst shapes) (plan_counts plan1) = Inr (effect, map_option fst shapes, counts)"
      and rec: "record_root ?i encoded effect shapes counts plan1 = Inr plan'"
      by (simp add: populate_step_def bnd_eq_Inr seq_eq_Inr reject_if_eq_Inr) blast
    from res have rule: "rule \<in> set ROOT_RULES" "rule_root_kind rule = kind" "rule_tag rule = tag" and pos: "0 < encoded"
      using resolved_rule [OF res(1)] resolve_index_Inr [of kind tag encoded] by (auto simp: rule_key_def)
    from plan_root_shape_agrees [OF ps] inv' have
      shapes: "shapes_ok c m ?i n (aggregate_roots plan1) rule shapes" and ar: "arenas_ok c m (Suc ?i) plan1" and ext: "extends_at ?i plan plan1" by (simp_all add: shapes_ok_def)
    from ext have same: "rule_indexes plan1 = rule_indexes plan" "shape_roots plan1 = shape_roots plan"
      "emission_roots plan1 = emission_roots plan" "plan_counts plan1 = plan_counts plan" "plan_selected plan1 = plan_selected plan"
      by (simp_all add: extends_at_def same_rows_def)
    from rec have plan': "plan' = plan1
         \<lparr> role_roots := role_roots plan1 @ (case effect of None \<Rightarrow> [] | Some e \<Rightarrow> [(?i, e)]),
           shape_roots := shape_roots plan @ (case shapes of None \<Rightarrow> [] | Some (shape, _) \<Rightarrow> [(?i, shape)]),
           emission_roots := emission_roots plan @ (case shapes of None \<Rightarrow> [] | Some (_, emission) \<Rightarrow> [(?i, emission)]),
           rule_indexes := (rule_indexes plan1)[?i := encoded],
           plan_counts := counts, plan_selected := Suc (plan_selected plan) \<rparr>"
      using same by (auto simp: record_root_def res_simps)
    have "rule_at plan' ?i = Inr rule" using res(2) pos inv' len same
      by (simp add: plan' rule_at_def resolved_root_rule_at_def get_at_def checked_sub_def)
    then have new: "entry_ok c m plan' ?i (Some (rule, shapes))"
      using rule root chosen True shapes by (simp add: entry_ok_def plan')
    have old: "entry_ok c m plan' j (es ! j)" if "j < ?i" for j
    proof (rule entry_ok_later [OF _ ext])
      show "entry_ok c m plan j (es ! j)" using inv' that by blast
      show "j \<noteq> ?i" using that by simp
      show "rule_indexes plan' = (rule_indexes plan1)[?i := encoded]" "aggregate_roots plan' = aggregate_roots plan1"
        by (simp_all add: plan')
    qed
    have "tallies counts (es @ [Some (rule, shapes)])"
      using classify_tallies [OF cl, of es shapes] shapes inv' same by (auto simp: shapes_ok_def split: option.splits)
    moreover have "chains_counted c (es @ [Some (rule, shapes)]) (n_object_property_chains counts)"
      using chains_counted_snoc [of c es "n_object_property_chains (plan_counts plan)" "Some (rule, shapes)"] inv' root(1)
        classify_chain_count [OF cl] same by (simp add: chain_entry_def)
    moreover have "arenas_ok c m (length (es @ [Some (rule, shapes)])) plan'"
      using ar by (simp add: arenas_ok_def plan' aligned_def slices_inside_def aggregates_below_def)
    ultimately have "plan_invariant c m (es @ [Some (rule, shapes)]) plan'"
      using inv' len new old same unfolding plan_invariant_def
      by (auto simp: plan' rows_of_snoc nth_append less_Suc_eq split: option.splits)
    then show ?thesis by blast
  qed
qed

lemma populate_invariant:
  assumes "resolve_selected_root_rule_plan_unbounded c m st = Inr plan"
  shows "\<exists>es. length es = root_count c \<and> plan_invariant c m es plan"
proof -
  from assms have f: "fold_res (populate_step c m st) [0 ..< root_count c] (empty_plan (root_count c)) = Inr plan"
    by (auto simp: resolve_selected_root_rule_plan_unbounded_def populate_selected_root_rule_plan_def empty_plan_def
        bnd_eq_Inr split: if_splits)
  from fold_res_trace [OF f] obtain S where S: "S 0 = empty_plan (root_count c)" "S (root_count c) = plan"
    and steps: "i < root_count c \<Longrightarrow> populate_step c m st i (S i) = Inr (S (Suc i))" for i by auto
  have "\<exists>es. length es = k \<and> plan_invariant c m es (S k)" if "k \<le> root_count c" for k
    using that
  proof (induction k)
    case 0
    with S(1) empty_plan_invariant show ?case by auto
  next
    case (Suc k)
    then obtain es where es: "length es = k" "plan_invariant c m es (S k)" by auto
    from populate_step_invariant [OF es(2)] steps [of k] es(1) Suc.prems obtain e where
      "plan_invariant c m (es @ [e]) (S (Suc k))" by auto
    with es(1) show ?case by (intro exI [of _ "es @ [e]"]) simp
  qed
  with S(2) show ?thesis by auto
qed

end
