(* ===== verification/Overlay_Deltas.thy ===== *)
theory Overlay_Deltas
  imports Root_Plan
begin

text \<open>
  The projection of one root a local overlay adds (\<open>OwnedOverlayDeltaProjection\<close>): its phase,
  the edges it adds, the statistics it moves, and the order in which the emission cursor meets
  the deltas. A delta owns its text, so it needs no table to be emitted.
\<close>

section \<open>Phases are ordered\<close>

fun phase_rank :: "emission_phase \<Rightarrow> nat" where
  "phase_rank PhaseSubclasses = 0"
| "phase_rank PhaseEquivalents = 1"
| "phase_rank PhaseAnnotations = 2"
| "phase_rank PhaseClassAssertions = 3"
| "phase_rank PhaseObjectAssertions = 4"
| "phase_rank PhaseDomainRanges = 5"
| "phase_rank PhaseFinished = 6"

lemma phase_rank_inject: "phase_rank p = phase_rank q \<longleftrightarrow> p = q"
  by (cases p; cases q) simp_all

instantiation emission_phase :: linorder
begin

definition less_eq_emission_phase :: "emission_phase \<Rightarrow> emission_phase \<Rightarrow> bool" where
  "less_eq_emission_phase p q \<longleftrightarrow> phase_rank p \<le> phase_rank q"

definition less_emission_phase :: "emission_phase \<Rightarrow> emission_phase \<Rightarrow> bool" where
  "less_emission_phase p q \<longleftrightarrow> phase_rank p < phase_rank q"

instance
  by standard (auto simp: less_eq_emission_phase_def less_emission_phase_def phase_rank_inject)

end

section \<open>Deltas\<close>

datatype object_property_class_rule_kind = KindDomain | KindRange

fun kind_from_effect :: "root_domain_range_effect \<Rightarrow> object_property_class_rule_kind option" where
  "kind_from_effect DomainEffect = Some KindDomain"
| "kind_from_effect RangeEffect = Some KindRange"
| "kind_from_effect NoDomainRange = None"

record owned_equivalent_restriction =
  owned_relation :: text_str
  owned_destination :: text_str

datatype owned_overlay_delta_projection =
    DeltaTaxonomy text_str text_str
  | DeltaRestriction text_str text_str text_str
  | DeltaEquivalentPair text_str text_str
  | DeltaEquivalentAggregate text_str "text_str list" "owned_equivalent_restriction list" usize
  | DeltaIgnoredEquivalent
  | DeltaClassAssertion text_str text_str
  | DeltaIgnoredClassAssertion usize
  | DeltaIgnoredSubclass usize
  | DeltaIgnoredObjectPropertyClass object_property_class_rule_kind usize
  | DeltaObjectPropertyAssertion text_str text_str text_str usize
  | DeltaIgnoredNegativeObjectPropertyAssertion usize
  | DeltaIgnoredDataPropertyAssertion usize bool
  | DeltaIgnoredIndividualSet usize bool
  | DeltaIgnoredAnnotationAssertion usize
  | DeltaSilentRoot root_rule
  | DeltaSilentDeclaration
  | DeltaSilentOntologyAnnotation
  | DeltaSilentSwrl

record owned_overlay_delta =
  delta_projection :: owned_overlay_delta_projection
  insertion_scan_index :: usize
  local_canonical_index :: usize

fun delta_phase :: "owned_overlay_delta_projection \<Rightarrow> emission_phase" where
  "delta_phase (DeltaTaxonomy _ _) = PhaseSubclasses"
| "delta_phase (DeltaRestriction _ _ _) = PhaseSubclasses"
| "delta_phase (DeltaIgnoredSubclass _) = PhaseSubclasses"
| "delta_phase (DeltaEquivalentPair _ _) = PhaseEquivalents"
| "delta_phase (DeltaEquivalentAggregate _ _ _ _) = PhaseEquivalents"
| "delta_phase DeltaIgnoredEquivalent = PhaseEquivalents"
| "delta_phase (DeltaClassAssertion _ _) = PhaseClassAssertions"
| "delta_phase (DeltaIgnoredClassAssertion _) = PhaseClassAssertions"
| "delta_phase (DeltaObjectPropertyAssertion _ _ _ _) = PhaseObjectAssertions"
| "delta_phase (DeltaIgnoredObjectPropertyClass _ _) = PhaseObjectAssertions"
| "delta_phase (DeltaIgnoredNegativeObjectPropertyAssertion _) = PhaseObjectAssertions"
| "delta_phase (DeltaIgnoredDataPropertyAssertion _ _) = PhaseObjectAssertions"
| "delta_phase (DeltaIgnoredIndividualSet _ _) = PhaseObjectAssertions"
| "delta_phase (DeltaIgnoredAnnotationAssertion _) = PhaseObjectAssertions"
| "delta_phase DeltaSilentDeclaration = PhaseObjectAssertions"
| "delta_phase DeltaSilentOntologyAnnotation = PhaseObjectAssertions"
| "delta_phase DeltaSilentSwrl = PhaseObjectAssertions"
| "delta_phase (DeltaSilentRoot rule) = phase rule"

definition directions :: "direct_compile_options \<Rightarrow> usize" where
  "directions options = 1 + (if bidirectional options then 1 else 0)"

definition restriction_edge_counts :: "owned_role_state \<Rightarrow> nat \<Rightarrow> owned_equivalent_restriction list
    \<Rightarrow> usize \<Rightarrow> (usize \<times> usize) kres" where
  "restriction_edge_counts role_state st restrictions edges =
     fold_res (\<lambda>(restriction_index, restriction) (edges, expansion).
         seq (check_cancel st restriction_index) (
         bnd (owned_edge_count role_state (owned_relation restriction)) (\<lambda>expanded.
         bnd (ok_or Resource (checked_add edges expanded)) (\<lambda>edges'.
         bnd (ok_or Malformed (checked_sub expanded 1)) (\<lambda>extra.
         map_res (Pair edges') (ok_or Resource (checked_add expansion extra)))))))
       (enumerate 0 restrictions) (edges, 0)"

definition delta_edge_counts :: "owned_overlay_delta_projection \<Rightarrow> owned_role_state \<Rightarrow> direct_compile_options
    \<Rightarrow> nat \<Rightarrow> (usize \<times> usize) kres" where
  "delta_edge_counts projection role_state options st = (case projection of
     DeltaTaxonomy _ _ \<Rightarrow>
       map_res (\<lambda>n. (n, 0)) (ok_or Resource (checked_add 1 (if bidirectional options then 1 else 0)))
   | DeltaRestriction _ relation _ \<Rightarrow>
       if \<not> asserted_taxonomy_only options \<and> \<not> only_taxonomy options then
         bnd (owned_edge_count role_state relation) (\<lambda>edges.
         map_res (Pair edges) (ok_or Malformed (checked_sub edges 1)))
       else Inr (0, 0)
   | DeltaEquivalentPair _ _ \<Rightarrow>
       if \<not> asserted_taxonomy_only options
       then map_res (\<lambda>n. (n, 0)) (ok_or Resource (checked_add 1 (if bidirectional options then 1 else 0)))
       else Inr (0, 0)
   | DeltaEquivalentAggregate _ named_destinations restrictions _ \<Rightarrow>
       if \<not> asserted_taxonomy_only options then
         bnd (ok_or Resource (checked_mul (length named_destinations) (directions options))) (\<lambda>edges.
         if only_taxonomy options then Inr (edges, 0)
         else restriction_edge_counts role_state st restrictions edges)
       else Inr (0, 0)
   | DeltaClassAssertion _ _ \<Rightarrow> if \<not> asserted_taxonomy_only options then Inr (1, 0) else Inr (0, 0)
   | DeltaObjectPropertyAssertion _ _ _ _ \<Rightarrow> if \<not> asserted_taxonomy_only options then Inr (1, 0) else Inr (0, 0)
   | _ \<Rightarrow> Inr (0, 0))"

section \<open>Statistics\<close>

text \<open>\<open>*counter = counter.checked_add(amount).ok_or(Resource)?\<close>; \<open>bump\<close> is the case of one.\<close>

definition add_stat :: "('r \<Rightarrow> usize) \<Rightarrow> ((usize \<Rightarrow> usize) \<Rightarrow> 'r \<Rightarrow> 'r) \<Rightarrow> usize \<Rightarrow> 'r \<Rightarrow> 'r kres" where
  "add_stat read update amount r = map_res (\<lambda>n. update (\<lambda>_. n) r) (ok_or Resource (checked_add (read r) amount))"

definition guarded_step :: "bool \<Rightarrow> ('a \<Rightarrow> 'a kres) \<Rightarrow> 'a \<Rightarrow> 'a kres" where
  "guarded_step b f s = (if b then f s else Inr s)"

abbreviation add_anonymous :: "usize \<Rightarrow> direct_compile_stats \<Rightarrow> direct_compile_stats kres" where
  "add_anonymous \<equiv> add_stat stat_anonymous_individuals stat_anonymous_individuals_update"

abbreviation bump_skipped :: "direct_compile_stats \<Rightarrow> direct_compile_stats kres" where
  "bump_skipped \<equiv> bump stat_skipped_axioms stat_skipped_axioms_update"

definition delta_apply_statistics :: "owned_overlay_delta_projection \<Rightarrow> direct_compile_options
    \<Rightarrow> direct_compile_stats \<Rightarrow> direct_compile_stats kres" where
  "delta_apply_statistics projection options s = (case projection of
     DeltaTaxonomy _ _ \<Rightarrow> bump stat_subclasses stat_subclasses_update s
   | DeltaRestriction _ _ _ \<Rightarrow>
       bnd (bump stat_subclasses stat_subclasses_update s)
           (bump stat_restriction_subclasses stat_restriction_subclasses_update)
   | DeltaEquivalentPair _ _ \<Rightarrow>
       bnd (bump stat_equivalents stat_equivalents_update s)
           (guarded_step (\<not> asserted_taxonomy_only options)
             (add_stat stat_equivalent_base_edges stat_equivalent_base_edges_update (directions options)))
   | DeltaEquivalentAggregate _ named_destinations restrictions ignored_shapes \<Rightarrow>
       bnd (bump stat_equivalents stat_equivalents_update s) (\<lambda>s1.
       bnd (bump stat_aggregate_equivalents stat_aggregate_equivalents_update s1)
           (guarded_step (\<not> asserted_taxonomy_only options) (\<lambda>s2.
         bnd (ok_or Resource (checked_mul (length named_destinations) (directions options))) (\<lambda>named_edges.
         bnd (ok_or Resource (Option.bind (checked_add (stat_equivalent_base_edges s2) named_edges)
                (\<lambda>n. checked_add n (if only_taxonomy options then 0 else length restrictions)))) (\<lambda>base.
         guarded_step (\<not> only_taxonomy options)
             (add_stat stat_ignored_equivalents stat_ignored_equivalents_update ignored_shapes)
             (s2\<lparr>stat_equivalent_base_edges := base\<rparr>))))))
   | DeltaIgnoredEquivalent \<Rightarrow>
       bnd (bump stat_equivalents stat_equivalents_update s)
           (guarded_step (\<not> asserted_taxonomy_only options) (bump stat_ignored_equivalents stat_ignored_equivalents_update))
   | DeltaIgnoredSubclass anonymous \<Rightarrow>
       bnd (bump stat_subclasses stat_subclasses_update s) (\<lambda>s1.
       bnd (bump stat_ignored_subclasses stat_ignored_subclasses_update s1) (add_anonymous anonymous))
   | DeltaIgnoredObjectPropertyClass KindDomain anonymous \<Rightarrow>
       bnd (bump stat_object_property_domains stat_object_property_domains_update s) (\<lambda>s1.
       bnd (bump stat_ignored_object_property_domains stat_ignored_object_property_domains_update s1)
           (add_anonymous anonymous))
   | DeltaIgnoredObjectPropertyClass KindRange anonymous \<Rightarrow>
       bnd (bump stat_object_property_ranges stat_object_property_ranges_update s) (\<lambda>s1.
       bnd (bump stat_ignored_object_property_ranges stat_ignored_object_property_ranges_update s1)
           (add_anonymous anonymous))
   | DeltaClassAssertion _ _ \<Rightarrow> bump stat_class_assertions stat_class_assertions_update s
   | DeltaIgnoredClassAssertion anonymous \<Rightarrow>
       bnd (bump stat_class_assertions stat_class_assertions_update s) (\<lambda>s1.
       bnd (bump stat_ignored_class_assertions stat_ignored_class_assertions_update s1) (add_anonymous anonymous))
   | DeltaObjectPropertyAssertion _ _ _ anonymous \<Rightarrow>
       bnd (bump stat_object_property_assertions stat_object_property_assertions_update s) (add_anonymous anonymous)
   | DeltaIgnoredNegativeObjectPropertyAssertion anonymous \<Rightarrow>
       bnd (bump stat_negative_object_property_assertions stat_negative_object_property_assertions_update s) (\<lambda>s1.
       bnd (add_anonymous anonymous s1) (guarded_step (\<not> asserted_taxonomy_only options) bump_skipped))
   | DeltaIgnoredDataPropertyAssertion anonymous negative \<Rightarrow>
       bnd (if negative
            then bump stat_negative_data_property_assertions stat_negative_data_property_assertions_update s
            else bump stat_data_property_assertions stat_data_property_assertions_update s) (\<lambda>s1.
       bnd (add_anonymous anonymous s1) (guarded_step (\<not> asserted_taxonomy_only options) bump_skipped))
   | DeltaIgnoredIndividualSet anonymous different \<Rightarrow>
       bnd (if different then bump stat_different_individuals stat_different_individuals_update s
            else bump stat_same_individuals stat_same_individuals_update s) (\<lambda>s1.
       bnd (add_anonymous anonymous s1) (guarded_step (\<not> asserted_taxonomy_only options) bump_skipped))
   | DeltaIgnoredAnnotationAssertion anonymous \<Rightarrow>
       bnd (bump stat_annotation_assertions stat_annotation_assertions_update s) (add_anonymous anonymous)
   | DeltaSilentRoot rule \<Rightarrow> apply_statistics rule options s
   | DeltaSilentDeclaration \<Rightarrow> bump stat_declarations stat_declarations_update s
   | DeltaSilentOntologyAnnotation \<Rightarrow> bump stat_ontology_annotations stat_ontology_annotations_update s
   | DeltaSilentSwrl \<Rightarrow> bump stat_swrl_rules stat_swrl_rules_update s)"

section \<open>The order of the deltas\<close>

definition delta_key :: "owned_overlay_delta \<Rightarrow> emission_phase \<times> usize \<times> usize" where
  "delta_key delta = (delta_phase (delta_projection delta), insertion_scan_index delta, local_canonical_index delta)"

definition compare_deltas :: "owned_overlay_delta \<Rightarrow> owned_overlay_delta \<Rightarrow> ordering" where
  "compare_deltas left right = cmp (delta_key left) (delta_key right)"

definition canonicalize_overlay_delta_plan :: "nat \<Rightarrow> owned_overlay_delta list \<Rightarrow> owned_overlay_delta list kres" where
  "canonicalize_overlay_delta_plan st plan = cancellable_sort_unstable_by st compare_deltas plan"

interpretation deltas: key_comparator compare_deltas delta_key
  by unfold_locales (simp add: compare_deltas_def)

end
