(* ===== verification/Emission.thy ===== *)
theory Emission
  imports Overlay_Deltas Reachability
begin

text \<open>
  What a preparation holds and how its edges are produced: \<open>DirectPreparation\<close> with the
  readers of its object-property-class index, \<open>PendingExpansion\<close>, and the emission cursor
  (\<open>DirectEmissionCursor::next_edge\<close>). The cursor's \<open>loop\<close> is one function per phase
  returning what the iteration does (go round again, hand out an edge, stop) and a
  \<open>partial_function\<close> that repeats it; that it returns is a theorem about well-formed plans.
  A cursor that fails is discarded by its caller, so an error carries no cursor.
\<close>

section \<open>Preparations\<close>

record direct_edge =
  edge_from :: text_str
  edge_label :: text_str
  edge_to :: text_str

record owned_local_object_property_class =
  local_kind :: object_property_class_rule_kind
  local_property :: text_str
  local_class :: text_str
  insertion_position :: usize

record prepared_object_property_class_group =
  group_property :: text_str
  base_domains :: usize
  base_ranges :: usize
  local_domains :: usize
  local_ranges :: usize
  domain_positions :: "usize list"
  range_positions :: "usize list"

record composite_root_coordinate =
  root_table :: usize
  coordinate_root_index :: usize
  coordinate_root_node :: usize
  coordinate_root_kind :: nat
  coordinate_tag :: nat
  root_canonical_order :: usize

record direct_preparation =
  prep_role_state :: owned_role_state
  prep_rule_indexes :: "nat list"
  prep_emission_roots :: "planned_emission_shape planned_root list"
  prep_aggregate_roots :: "planned_aggregate_root list"
  prep_named_nodes :: "usize list"
  prep_restrictions :: "planned_restriction_coordinate option list"
  prep_anonymous_ids :: anonymous_ids
  prep_selected_annotation_nodes :: "usize list option"
  prep_composite_annotation_roots :: "composite_root_coordinate list"
  prep_composite_class_nodes :: "composite_node_coordinate list"
  prep_composite_anonymous_nodes :: "composite_node_coordinate list"
  prep_overlay_deltas :: "owned_overlay_delta list"
  prep_local_classes :: "owned_local_object_property_class list"
  prep_local_class_positions :: "usize list"
  prep_class_groups :: "prepared_object_property_class_group list"
  prep_options :: direct_compile_options
  prep_statistics :: direct_compile_stats

definition prep_rule_at :: "direct_preparation \<Rightarrow> usize \<Rightarrow> root_rule kres" where
  "prep_rule_at prep root_index = resolved_root_rule_at (prep_rule_indexes prep) root_index"

definition emission_shape_at :: "direct_preparation \<Rightarrow> usize \<Rightarrow> planned_emission_shape option" where
  "emission_shape_at prep root_index = planned_at (prep_emission_roots prep) root_index"

definition aggregate_emission_at :: "direct_preparation \<Rightarrow> usize \<Rightarrow> planned_aggregate_root kres" where
  "aggregate_emission_at prep aggregate_plan_index =
     ok_or Malformed (get_at (prep_aggregate_roots prep) aggregate_plan_index)"

definition emission_named_nodes :: "direct_preparation \<Rightarrow> planned_aggregate_root \<Rightarrow> usize list kres" where
  "emission_named_nodes prep aggregate = checked_plan_slice (prep_named_nodes prep) (named_range aggregate)"

definition emission_restrictions :: "direct_preparation \<Rightarrow> planned_aggregate_root
    \<Rightarrow> planned_restriction_coordinate option list kres" where
  "emission_restrictions prep aggregate = checked_plan_slice (prep_restrictions prep) (restriction_range aggregate)"

abbreviation prep_iri_limit :: "direct_preparation \<Rightarrow> usize" where
  "prep_iri_limit prep \<equiv> max_iri_bytes (prep_options prep)"

section \<open>Domains and ranges\<close>

type_synonym property_class = "object_property_class_rule_kind \<times> text_str \<times> text_str"

definition base_object_property_class_at :: "direct_preparation \<Rightarrow> direct_columns \<Rightarrow> usize
    \<Rightarrow> property_class option kres" where
  "base_object_property_class_at prep c position =
     bnd (root_is_selected c position) (\<lambda>chosen.
     if \<not> chosen then Inr None else
     bnd (prep_rule_at prep position) (\<lambda>rule.
     case (handler rule = HandleObjectPropertyClass, kind_from_effect (domain_range_effect rule)) of
       (True, Some kind) \<Rightarrow>
         (case emission_shape_at prep position of
            Some (EmitObjectPropertyClassProjected property class_id) \<Rightarrow>
              bnd (named_object_property_iri c property (prep_iri_limit prep)) (\<lambda>property_iri.
              bnd (named_class_iri c class_id (prep_iri_limit prep)) (\<lambda>class_iri.
              Inr (Some (kind, property_iri, class_iri))))
          | Some EmitObjectPropertyClassIgnored \<Rightarrow> Inr None
          | _ \<Rightarrow> Inl Malformed)
     | (True, None) \<Rightarrow> Inl Malformed
     | (False, Some _) \<Rightarrow> Inl Malformed
     | (False, None) \<Rightarrow> Inr None))"

definition base_has_object_property_class_for_property :: "direct_preparation \<Rightarrow> direct_columns
    \<Rightarrow> root_domain_range_effect \<Rightarrow> text_str \<Rightarrow> nat \<Rightarrow> bool kres" where
  "base_has_object_property_class_for_property prep c expected_effect property st =
     bnd (ok_or Malformed (kind_from_effect expected_effect)) (\<lambda>expected_kind.
     exists_res (\<lambda>root_index.
         seq (check_cancel st root_index) (
         map_res (\<lambda>r. case r of None \<Rightarrow> False
                  | Some (kind, candidate, _) \<Rightarrow> kind = expected_kind \<and> candidate = property)
           (base_object_property_class_at prep c root_index)))
       [0 ..< root_count c])"

definition object_property_class_scan_len :: "direct_preparation \<Rightarrow> direct_columns \<Rightarrow> usize kres" where
  "object_property_class_scan_len prep c =
     ok_or Resource (checked_add (root_count c) (length (prep_local_classes prep)))"

definition object_property_class_at :: "direct_preparation \<Rightarrow> direct_columns \<Rightarrow> usize \<Rightarrow> nat
    \<Rightarrow> property_class option kres" where
  "object_property_class_at prep c position st =
     bnd (object_property_class_scan_len prep c) (\<lambda>scan_len.
     if position \<ge> scan_len then Inl Malformed else
     if prep_local_classes prep = [] then base_object_property_class_at prep c position else
     seq (check_cancel st position) (
     if length (prep_local_class_positions prep) \<noteq> length (prep_local_classes prep) then Inl Malformed else
     case binary_search_by_key (\<lambda>i. insertion_position (prep_local_classes prep ! i)) position
            (prep_local_class_positions prep) of
       Inr index_position \<Rightarrow>
         bnd (ok_or Malformed (get_at (prep_local_classes prep) (prep_local_class_positions prep ! index_position)))
           (\<lambda>loc. Inr (Some (local_kind loc, local_property loc, local_class loc)))
     | Inl inserted_before \<Rightarrow>
         bnd (ok_or Malformed (checked_sub position inserted_before)) (\<lambda>base_position.
         if base_position \<ge> root_count c then Inl Malformed
         else base_object_property_class_at prep c base_position)))"

text \<open>The search of the group index for the first property after the previous one.\<close>

function group_search :: "prepared_object_property_class_group list \<Rightarrow> text_str \<Rightarrow> nat \<Rightarrow> usize \<Rightarrow> usize \<Rightarrow> usize
    \<Rightarrow> usize kres" where
  "group_search groups previous st step lower upper =
     (if lower < upper then
        seq (check_cancel st step) (
        bnd (ok_or Resource (checked_add step 1)) (\<lambda>step'.
        let middle = lower + (upper - lower) div 2 in
        if group_property (groups ! middle) \<le> previous
        then bnd (ok_or Resource (checked_add middle 1)) (\<lambda>lower'. group_search groups previous st step' lower' upper)
        else group_search groups previous st step' lower middle))
      else Inr lower)"
  by pat_completeness auto
termination
  by (relation "measure (\<lambda>(groups, previous, st, step, lower, upper). upper - lower)") (auto simp: res_simps)

declare group_search.simps [simp del]

definition paired_step :: "direct_preparation \<Rightarrow> direct_columns \<Rightarrow> text_str option \<Rightarrow> nat \<Rightarrow> usize \<Rightarrow> text_str option
    \<Rightarrow> text_str option kres" where
  "paired_step prep c after st root_index base =
     seq (check_cancel st root_index) (
     bnd (base_object_property_class_at prep c root_index) (\<lambda>r.
     case r of
       None \<Rightarrow> Inr base
     | Some (kind, property, _) \<Rightarrow>
         if kind \<noteq> KindDomain
            \<or> (case after of None \<Rightarrow> False | Some previous \<Rightarrow> property \<le> previous)
            \<or> (case base of None \<Rightarrow> False | Some current \<Rightarrow> property \<ge> current)
         then Inr base
         else map_res (\<lambda>paired. if paired then Some property else base)
                (base_has_object_property_class_for_property prep c RangeEffect property st)))"

definition next_paired_property :: "direct_preparation \<Rightarrow> direct_columns \<Rightarrow> text_str option \<Rightarrow> nat
    \<Rightarrow> text_str option kres" where
  "next_paired_property prep c after st =
     (if prep_local_classes prep \<noteq> [] then
        (if length (prep_local_class_positions prep) \<noteq> length (prep_local_classes prep) then Inl Malformed else
         bnd (case after of None \<Rightarrow> Inr 0
              | Some previous \<Rightarrow> group_search (prep_class_groups prep) previous st 0 0 (length (prep_class_groups prep)))
           (\<lambda>lower. Inr (map_option group_property (get_at (prep_class_groups prep) lower))))
      else fold_res (paired_step prep c after st) [0 ..< root_count c] None)"

definition paired_property_positions :: "direct_preparation \<Rightarrow> text_str \<Rightarrow> object_property_class_rule_kind
    \<Rightarrow> usize list kres" where
  "paired_property_positions prep property kind =
     (if prep_local_classes prep = [] then Inl Malformed else
      if length (prep_local_class_positions prep) \<noteq> length (prep_local_classes prep) then Inl Malformed else
      case binary_search_by_key group_property property (prep_class_groups prep) of
        Inl _ \<Rightarrow> Inl Malformed
      | Inr group_index \<Rightarrow>
          (let group = prep_class_groups prep ! group_index in
           Inr (case kind of KindDomain \<Rightarrow> domain_positions group | KindRange \<Rightarrow> range_positions group)))"

section \<open>Pending expansions\<close>

datatype pending_expansion =
    PendingTaxonomy text_str text_str usize bool
  | PendingRole text_str text_str text_str usize

definition mk_edge :: "text_str \<Rightarrow> text_str \<Rightarrow> text_str \<Rightarrow> direct_edge" where
  "mk_edge s r d = \<lparr> edge_from = s, edge_label = r, edge_to = d \<rparr>"

definition cloned_edge :: "text_str \<Rightarrow> text_str \<Rightarrow> text_str \<Rightarrow> direct_edge kres" where
  "cloned_edge s r d =
     bnd (clone_text s) (\<lambda>source.
     bnd (clone_text r) (\<lambda>relation.
     bnd (clone_text d) (\<lambda>destination. Inr (mk_edge source relation destination))))"

definition pending_next_edge :: "pending_expansion \<Rightarrow> owned_role_state
    \<Rightarrow> (direct_edge option \<times> pending_expansion) kres" where
  "pending_next_edge pending role_state = (case pending of
     PendingTaxonomy source destination next_direction both \<Rightarrow>
       bnd (if next_direction = 0 then map_res Some (cloned_edge source SUBCLASS_OF destination)
            else if next_direction = 1 \<and> both then map_res Some (cloned_edge destination SUPERCLASS_OF source)
            else Inr None) (\<lambda>edge.
       map_res (\<lambda>n. (edge, PendingTaxonomy source destination n both)) (ok_or Resource (checked_add next_direction 1)))
   | PendingRole source relation destination next_relation \<Rightarrow>
       (let subroles = owned_subroles_for role_state relation in
        bnd (if next_relation = 0 then map_res Some (cloned_edge source relation destination)
             else if next_relation \<le> length subroles
             then map_res Some (cloned_edge source (subroles ! (next_relation - 1)) destination)
             else if next_relation = length subroles + 1 then
               (case owned_inverse_for role_state relation of
                  None \<Rightarrow> Inr None
                | Some inv_iri \<Rightarrow> map_res Some (cloned_edge destination inv_iri source))
             else Inr None) (\<lambda>edge.
        map_res (\<lambda>n. (edge, PendingRole source relation destination n)) (ok_or Resource (checked_add next_relation 1)))))"

section \<open>The cursor\<close>

record equivalent_aggregate_cursor =
  aggregate_source :: text_str
  aggregate_plan_index :: usize
  aggregate_named_index :: usize
  aggregate_restriction_index :: usize

record owned_equivalent_aggregate_cursor =
  owned_delta_index :: usize
  owned_named_index :: usize
  owned_restriction_index :: usize

record direct_emission_cursor =
  cursor_phase :: emission_phase
  scan_index :: usize
  overlay_delta_index :: usize
  pending :: "pending_expansion option"
  aggregate :: "equivalent_aggregate_cursor option"
  owned_aggregate :: "owned_equivalent_aggregate_cursor option"
  previous_property :: "text_str option"
  active_property :: "text_str option"
  current_domain :: "text_str option"
  domain_index :: usize
  range_index :: usize
  emitted :: usize

definition initial_cursor :: direct_emission_cursor where
  "initial_cursor =
     \<lparr> cursor_phase = PhaseSubclasses, scan_index = 0, overlay_delta_index = 0, pending = None, aggregate = None,
       owned_aggregate = None, previous_property = None, active_property = None, current_domain = None,
       domain_index = 0, range_index = 0, emitted = 0 \<rparr>"

datatype iteration = Continue direct_emission_cursor | Publish direct_edge direct_emission_cursor | Exhausted

definition set_taxonomy :: "text_str \<Rightarrow> text_str \<Rightarrow> bool \<Rightarrow> direct_emission_cursor \<Rightarrow> direct_emission_cursor kres" where
  "set_taxonomy source destination both cur =
     bnd (clone_text source) (\<lambda>s. bnd (clone_text destination) (\<lambda>d.
     Inr (cur\<lparr>pending := Some (PendingTaxonomy s d 0 both)\<rparr>)))"

definition set_role :: "text_str \<Rightarrow> text_str \<Rightarrow> text_str \<Rightarrow> direct_emission_cursor \<Rightarrow> direct_emission_cursor kres" where
  "set_role source relation destination cur =
     bnd (clone_text source) (\<lambda>s. bnd (clone_text relation) (\<lambda>r. bnd (clone_text destination) (\<lambda>d.
     Inr (cur\<lparr>pending := Some (PendingRole s r d 0)\<rparr>))))"

definition publish :: "direct_edge \<Rightarrow> direct_emission_cursor \<Rightarrow> iteration kres" where
  "publish edge cur = map_res (\<lambda>n. Publish edge (cur\<lparr>emitted := n\<rparr>)) (ok_or Resource (checked_add (emitted cur) 1))"

definition next_overlay_delta_index :: "direct_preparation \<Rightarrow> direct_emission_cursor \<Rightarrow> usize option kres" where
  "next_overlay_delta_index prep cur =
     (case get_at (prep_overlay_deltas prep) (overlay_delta_index cur) of
        None \<Rightarrow> Inr None
      | Some delta \<Rightarrow>
          (let phase = delta_phase (delta_projection delta) in
           if phase < cursor_phase cur \<or> phase = cursor_phase cur \<and> insertion_scan_index delta < scan_index cur
           then Inl Malformed
           else Inr (if phase = cursor_phase cur \<and> insertion_scan_index delta = scan_index cur
                     then Some (overlay_delta_index cur) else None)))"

definition advance_delta :: "direct_emission_cursor \<Rightarrow> direct_emission_cursor kres" where
  "advance_delta cur =
     map_res (\<lambda>n. cur\<lparr>overlay_delta_index := n\<rparr>) (ok_or Resource (checked_add (overlay_delta_index cur) 1))"

text \<open>The delta the cursor has reached, if any, and the scan of the next selected root of one
  handler: the two halves every phase shares.\<close>

definition with_delta :: "direct_preparation \<Rightarrow> direct_emission_cursor
    \<Rightarrow> (owned_overlay_delta_projection \<Rightarrow> usize \<Rightarrow> iteration kres option) \<Rightarrow> iteration kres \<Rightarrow> iteration kres" where
  "with_delta prep cur handle otherwise =
     bnd (next_overlay_delta_index prep cur) (\<lambda>found.
     case found of
       None \<Rightarrow> otherwise
     | Some delta_index \<Rightarrow>
         (case handle (delta_projection (prep_overlay_deltas prep ! delta_index)) delta_index of
            Some result \<Rightarrow> result
          | None \<Rightarrow> otherwise))"

definition scan_root :: "direct_preparation \<Rightarrow> direct_columns \<Rightarrow> nat \<Rightarrow> root_rule_handler \<Rightarrow> emission_phase
    \<Rightarrow> (planned_emission_shape option \<Rightarrow> direct_emission_cursor \<Rightarrow> iteration kres)
    \<Rightarrow> direct_emission_cursor \<Rightarrow> iteration kres" where
  "scan_root prep c st expected next_phase emit cur =
     (if scan_index cur = root_count c then Inr (Continue (cur\<lparr>scan_index := 0, cursor_phase := next_phase\<rparr>)) else
      let index = scan_index cur; cur1 = cur\<lparr>scan_index := scan_index cur + 1\<rparr> in
      seq (check_cancel st index) (
      bnd (root_is_selected c index) (\<lambda>chosen.
      if \<not> chosen then Inr (Continue cur1) else
      bnd (prep_rule_at prep index) (\<lambda>rule.
      if handler rule \<noteq> expected then Inr (Continue cur1)
      else emit (emission_shape_at prep index) cur1))))"

definition continue_with :: "direct_emission_cursor kres \<Rightarrow> iteration kres" where
  "continue_with m = map_res Continue m"

definition skip_delta :: "direct_emission_cursor \<Rightarrow> iteration kres option" where
  "skip_delta cur = Some (continue_with (advance_delta cur))"


section \<open>Annotation edges\<close>

definition annotation_edge :: "annotation_projection_t \<Rightarrow> anonymous_ids \<Rightarrow> direct_edge kres" where
  "annotation_edge projection ids =
     bnd (case ap_value projection of
            Borrowed text \<Rightarrow> clone_text text
          | AnonymousValue node_id \<Rightarrow> anonymous_render ids node_id
          | Typed lexical datatype \<Rightarrow> render_typed_annotation_literal lexical datatype) (\<lambda>destination.
     cloned_edge (ap_source projection) (ap_relation projection) destination)"

definition composite_contains_class_iri :: "direct_columns list \<Rightarrow> composite_node_coordinate list \<Rightarrow> text_str
    \<Rightarrow> usize \<Rightarrow> nat \<Rightarrow> bool kres" where
  "composite_contains_class_iri tables class_nodes target maximum st =
     exists_res (\<lambda>(index, coordinate).
         seq (check_cancel st index) (
         bnd (ok_or Malformed (get_at tables (node_table coordinate))) (\<lambda>member.
         bnd (node_tag member (coordinate_node coordinate)) (\<lambda>tag.
         if tag \<noteq> TAG_ENTITY then Inl Malformed else
         bnd (entity member (coordinate_node coordinate)) (\<lambda>(kind, iri_id).
         if kind \<noteq> ''class'' then Inr False
         else map_res (\<lambda>text. text = target) (iri member iri_id maximum))))))
       (enumerate 0 class_nodes)"

definition composite_annotation_projection :: "direct_columns list \<Rightarrow> composite_root_coordinate
    \<Rightarrow> composite_node_coordinate list \<Rightarrow> usize \<Rightarrow> nat \<Rightarrow> annotation_projection_t option kres" where
  "composite_annotation_projection tables coordinate class_nodes maximum st =
     bnd (ok_or Malformed (get_at tables (root_table coordinate))) (\<lambda>member.
     seq (if coordinate_root_kind coordinate \<noteq> ROOT_AXIOM \<or> coordinate_tag coordinate \<noteq> TAG_ANNOTATION_ASSERTION
          then Inl Malformed else
          bnd (root_id member (coordinate_root_index coordinate)) (\<lambda>node_id.
          if node_id \<noteq> coordinate_root_node coordinate then Inl Malformed
          else expect_tag member (coordinate_root_node coordinate) TAG_ANNOTATION_ASSERTION)) (
     bnd (exact_fields member (coordinate_root_node coordinate) 4) (\<lambda>start.
     bnd (field_node member start) (\<lambda>property_id.
     bnd (named_annotation_property_iri member property_id maximum) (\<lambda>property.
     if property \<notin> set ANNOTATION_PROPERTIES then Inr None else
     bnd (field_node member (start + 1)) (\<lambda>subject_id.
     bnd (node_tag member subject_id) (\<lambda>tag.
     if tag = TAG_IRI then
       bnd (iri member subject_id maximum) (\<lambda>source.
       bnd (composite_contains_class_iri tables class_nodes source maximum st) (\<lambda>known.
       if \<not> known then Inr None else
       bnd (field_node member (start + 2)) (\<lambda>value_id.
       bnd (annotation_value member value_id maximum) (\<lambda>v.
       Inr (Some \<lparr> ap_source = source, ap_relation = annotation_relation property, ap_value = v \<rparr>)))))
     else if tag = TAG_ANONYMOUS_INDIVIDUAL
     then seq (validate_anonymous_individual member subject_id) (Inr None)
     else Inl Malformed)))))))"

definition composite_anonymous_position :: "composite_node_coordinate list \<Rightarrow> usize \<Rightarrow> usize \<Rightarrow> usize kres" where
  "composite_anonymous_position coordinates table node_id =
     (case binary_search_by_key (\<lambda>coordinate. (node_table coordinate, coordinate_node coordinate)) (table, node_id)
            coordinates of
        Inr index \<Rightarrow> Inr (node_canonical_order (coordinates ! index))
      | Inl _ \<Rightarrow> Inl Malformed)"

definition composite_annotation_edge :: "annotation_projection_t \<Rightarrow> usize \<Rightarrow> composite_node_coordinate list
    \<Rightarrow> direct_edge kres" where
  "composite_annotation_edge projection table anonymous_nodes =
     bnd (case ap_value projection of
            Borrowed text \<Rightarrow> clone_text text
          | AnonymousValue node_id \<Rightarrow>
              bnd (composite_anonymous_position anonymous_nodes table node_id) render_anonymous_identifier
          | Typed lexical datatype \<Rightarrow> render_typed_annotation_literal lexical datatype) (\<lambda>destination.
     cloned_edge (ap_source projection) (ap_relation projection) destination)"

section \<open>The phases\<close>

definition subclass_delta :: "direct_preparation \<Rightarrow> direct_emission_cursor
    \<Rightarrow> owned_overlay_delta_projection \<Rightarrow> usize \<Rightarrow> iteration kres option" where
  "subclass_delta prep cur projection delta_index = (case projection of
     DeltaTaxonomy source destination \<Rightarrow>
       Some (continue_with (bnd (advance_delta cur) (set_taxonomy source destination (bidirectional (prep_options prep)))))
   | DeltaRestriction source relation destination \<Rightarrow>
       if \<not> asserted_taxonomy_only (prep_options prep) \<and> \<not> only_taxonomy (prep_options prep)
       then Some (continue_with (bnd (advance_delta cur) (set_role source relation destination)))
       else skip_delta cur
   | DeltaIgnoredSubclass _ \<Rightarrow> skip_delta cur
   | _ \<Rightarrow> None)"

definition subclass_root :: "direct_preparation \<Rightarrow> direct_columns \<Rightarrow> planned_emission_shape option
    \<Rightarrow> direct_emission_cursor \<Rightarrow> iteration kres" where
  "subclass_root prep c shape cur = (case shape of
     Some (EmitSubclassTaxonomy source_node destination_node) \<Rightarrow>
       bnd (named_class_iri c source_node (prep_iri_limit prep)) (\<lambda>source.
       bnd (named_class_iri c destination_node (prep_iri_limit prep)) (\<lambda>destination.
       continue_with (set_taxonomy source destination (bidirectional (prep_options prep)) cur)))
   | Some (EmitSubclassRestriction source_node restriction) \<Rightarrow>
       if \<not> asserted_taxonomy_only (prep_options prep) \<and> \<not> only_taxonomy (prep_options prep) then
         bnd (named_class_iri c source_node (prep_iri_limit prep)) (\<lambda>source.
         bnd (planned_restriction_parts c restriction (prep_iri_limit prep)) (\<lambda>(relation, destination).
         continue_with (set_role source relation destination cur)))
       else Inr (Continue cur)
   | Some EmitSubclassIgnored \<Rightarrow> Inr (Continue cur)
   | _ \<Rightarrow> Inl Malformed)"

definition subclasses_phase :: "direct_preparation \<Rightarrow> direct_columns \<Rightarrow> nat \<Rightarrow> direct_emission_cursor \<Rightarrow> iteration kres" where
  "subclasses_phase prep c st cur =
     with_delta prep cur (subclass_delta prep cur)
       (scan_root prep c st HandleSubclass
          (if asserted_taxonomy_only (prep_options prep) then PhaseFinished else PhaseEquivalents)
          (subclass_root prep c) cur)"

definition owned_aggregate_step :: "direct_preparation \<Rightarrow> owned_equivalent_aggregate_cursor \<Rightarrow> direct_emission_cursor
    \<Rightarrow> direct_emission_cursor option kres" where
  "owned_aggregate_step prep agg cur =
     bnd (ok_or Malformed (get_at (prep_overlay_deltas prep) (owned_delta_index agg))) (\<lambda>delta.
     case delta_projection delta of
       DeltaEquivalentAggregate source named_destinations restrictions _ \<Rightarrow>
         (case get_at named_destinations (owned_named_index agg) of
            Some destination \<Rightarrow>
              bnd (ok_or Resource (checked_add (owned_named_index agg) 1)) (\<lambda>n.
              bnd (set_taxonomy source destination (bidirectional (prep_options prep)) cur) (\<lambda>cur'.
              Inr (Some (cur'\<lparr>owned_aggregate := Some (agg\<lparr>owned_named_index := n\<rparr>)\<rparr>))))
          | None \<Rightarrow>
              if only_taxonomy (prep_options prep) then Inr None else
              (case get_at restrictions (owned_restriction_index agg) of
                 None \<Rightarrow> Inr None
               | Some restriction \<Rightarrow>
                   bnd (ok_or Resource (checked_add (owned_restriction_index agg) 1)) (\<lambda>n.
                   bnd (set_role source (owned_relation restriction) (owned_destination restriction) cur) (\<lambda>cur'.
                   Inr (Some (cur'\<lparr>owned_aggregate := Some (agg\<lparr>owned_restriction_index := n\<rparr>)\<rparr>))))))
     | _ \<Rightarrow> Inl Malformed)"

text \<open>The inner \<open>while let\<close> over the restriction coordinates: the index after the first
  projecting one, and that coordinate.\<close>

function next_restriction :: "nat \<Rightarrow> usize \<Rightarrow> planned_restriction_coordinate option list \<Rightarrow> usize
    \<Rightarrow> (usize \<times> planned_restriction_coordinate option) kres" where
  "next_restriction st start restrictions index =
     (case get_at restrictions index of
        None \<Rightarrow> Inr (index, None)
      | Some coordinate \<Rightarrow>
          bnd (ok_or Resource (checked_add start index)) (\<lambda>work_index.
          seq (check_cancel st work_index) (
          bnd (ok_or Resource (checked_add index 1)) (\<lambda>index'.
          case coordinate of
            None \<Rightarrow> next_restriction st start restrictions index'
          | Some found \<Rightarrow> Inr (index', Some found)))))"
  by pat_completeness auto
termination
  by (relation "measure (\<lambda>(st, start, restrictions, index). length restrictions - index)") (auto simp: res_simps)

declare next_restriction.simps [simp del]

definition aggregate_step :: "direct_preparation \<Rightarrow> direct_columns \<Rightarrow> nat \<Rightarrow> equivalent_aggregate_cursor
    \<Rightarrow> direct_emission_cursor \<Rightarrow> direct_emission_cursor kres" where
  "aggregate_step prep c st agg cur =
     bnd (aggregate_emission_at prep (aggregate_plan_index agg)) (\<lambda>plan.
     bnd (emission_named_nodes prep plan) (\<lambda>named_nodes.
     case get_at named_nodes (aggregate_named_index agg) of
       Some destination_node \<Rightarrow>
         bnd (ok_or Resource (checked_add (range_start (named_range plan)) (aggregate_named_index agg))) (\<lambda>work_index.
         seq (check_cancel st work_index) (
         bnd (ok_or Resource (checked_add (aggregate_named_index agg) 1)) (\<lambda>n.
         bnd (named_class_iri c destination_node (prep_iri_limit prep)) (\<lambda>destination.
         bnd (set_taxonomy (aggregate_source agg) destination (bidirectional (prep_options prep)) cur) (\<lambda>cur'.
         Inr (cur'\<lparr>aggregate := Some (agg\<lparr>aggregate_named_index := n\<rparr>)\<rparr>))))))
     | None \<Rightarrow>
         if only_taxonomy (prep_options prep) then Inr cur else
         bnd (emission_restrictions prep plan) (\<lambda>restrictions.
         bnd (next_restriction st (range_start (restriction_range plan)) restrictions (aggregate_restriction_index agg))
           (\<lambda>(n, found). case found of
              None \<Rightarrow> Inr cur
            | Some coordinate \<Rightarrow>
                bnd (planned_restriction_parts c coordinate (prep_iri_limit prep)) (\<lambda>(relation, destination).
                bnd (set_role (aggregate_source agg) relation destination cur) (\<lambda>cur'.
                Inr (cur'\<lparr>aggregate := Some (agg\<lparr>aggregate_restriction_index := n\<rparr>)\<rparr>)))))))"

definition equivalent_delta :: "direct_preparation \<Rightarrow> direct_emission_cursor
    \<Rightarrow> owned_overlay_delta_projection \<Rightarrow> usize \<Rightarrow> iteration kres option" where
  "equivalent_delta prep cur projection delta_index = (case projection of
     DeltaEquivalentPair source destination \<Rightarrow>
       Some (continue_with (bnd (advance_delta cur) (set_taxonomy source destination (bidirectional (prep_options prep)))))
   | DeltaEquivalentAggregate _ _ _ _ \<Rightarrow>
       Some (continue_with (map_res (\<lambda>cur'. cur'\<lparr>owned_aggregate :=
           Some \<lparr> owned_delta_index = delta_index, owned_named_index = 0, owned_restriction_index = 0 \<rparr>\<rparr>) (advance_delta cur)))
   | DeltaIgnoredEquivalent \<Rightarrow> skip_delta cur
   | _ \<Rightarrow> None)"

definition equivalent_root :: "direct_preparation \<Rightarrow> direct_columns \<Rightarrow> planned_emission_shape option
    \<Rightarrow> direct_emission_cursor \<Rightarrow> iteration kres" where
  "equivalent_root prep c shape cur = (case shape of
     Some (EmitEquivalentPair source_node destination_node) \<Rightarrow>
       bnd (named_class_iri c source_node (prep_iri_limit prep)) (\<lambda>source.
       bnd (named_class_iri c destination_node (prep_iri_limit prep)) (\<lambda>destination.
       continue_with (set_taxonomy source destination (bidirectional (prep_options prep)) cur)))
   | Some (EmitEquivalentAggregate source_node plan_index) \<Rightarrow>
       bnd (named_class_iri c source_node (prep_iri_limit prep)) (\<lambda>source.
       bnd (clone_text source) (\<lambda>owned.
       Inr (Continue (cur\<lparr>aggregate := Some \<lparr> aggregate_source = owned, aggregate_plan_index = plan_index,
              aggregate_named_index = 0, aggregate_restriction_index = 0 \<rparr>\<rparr>))))
   | Some EmitEquivalentIgnored \<Rightarrow> Inr (Continue cur)
   | _ \<Rightarrow> Inl Malformed)"

text \<open>The phase proper, when no aggregate is in progress; and the two kinds of aggregate in
  progress, an exhausted owned one falling through to the rest of the iteration.\<close>

definition equivalents_scan :: "direct_preparation \<Rightarrow> direct_columns \<Rightarrow> nat \<Rightarrow> direct_emission_cursor \<Rightarrow> iteration kres" where
  "equivalents_scan prep c st cur =
     with_delta prep cur (equivalent_delta prep cur)
       (scan_root prep c st HandleEquivalentClasses PhaseAnnotations (equivalent_root prep c) cur)"

definition table_aggregate_phase :: "direct_preparation \<Rightarrow> direct_columns \<Rightarrow> nat \<Rightarrow> direct_emission_cursor \<Rightarrow> iteration kres" where
  "table_aggregate_phase prep c st cur = (case aggregate cur of
     Some agg \<Rightarrow> continue_with (aggregate_step prep c st agg (cur\<lparr>aggregate := None\<rparr>))
   | None \<Rightarrow> equivalents_scan prep c st cur)"

definition equivalents_phase :: "direct_preparation \<Rightarrow> direct_columns \<Rightarrow> nat \<Rightarrow> direct_emission_cursor \<Rightarrow> iteration kres" where
  "equivalents_phase prep c st cur = (case owned_aggregate cur of
     Some agg \<Rightarrow>
       bnd (owned_aggregate_step prep agg (cur\<lparr>owned_aggregate := None\<rparr>)) (\<lambda>r. case r of
         Some cur' \<Rightarrow> Inr (Continue cur')
       | None \<Rightarrow> table_aggregate_phase prep c st (cur\<lparr>owned_aggregate := None\<rparr>))
   | None \<Rightarrow> table_aggregate_phase prep c st cur)"


definition leave_annotations :: "direct_emission_cursor \<Rightarrow> iteration kres" where
  "leave_annotations cur = Inr (Continue (cur\<lparr>scan_index := 0, cursor_phase := PhaseClassAssertions\<rparr>))"

text \<open>The scan for the next selected annotation assertion when no root selection was prepared.\<close>

function next_annotation_root :: "direct_preparation \<Rightarrow> direct_columns \<Rightarrow> nat \<Rightarrow> usize \<Rightarrow> (usize \<times> usize option) kres" where
  "next_annotation_root prep c st index =
     (if index < root_count c then
        seq (check_cancel st index) (
        bnd (root_is_selected c index) (\<lambda>chosen.
        if \<not> chosen then next_annotation_root prep c st (index + 1) else
        bnd (root_id c index) (\<lambda>candidate.
        bnd (prep_rule_at prep index) (\<lambda>rule.
        if handler rule = HandleAnnotationAssertion then Inr (index + 1, Some candidate)
        else next_annotation_root prep c st (index + 1)))))
      else Inr (index, None))"
  by pat_completeness auto
termination
  by (relation "measure (\<lambda>(prep, c, st, index). root_count c - index)") auto

declare next_annotation_root.simps [simp del]

definition emit_annotation :: "direct_preparation \<Rightarrow> direct_columns \<Rightarrow> nat \<Rightarrow> usize \<Rightarrow> direct_emission_cursor
    \<Rightarrow> iteration kres" where
  "emit_annotation prep c st node_id cur =
     bnd (annotation_projection c node_id (prep_iri_limit prep) st) (\<lambda>r. case r of
       None \<Rightarrow> Inr (Continue cur)
     | Some projection \<Rightarrow>
         bnd (annotation_edge projection (prep_anonymous_ids prep)) (\<lambda>edge. publish edge cur))"

definition annotations_phase :: "direct_preparation \<Rightarrow> direct_columns \<Rightarrow> direct_columns list option \<Rightarrow> nat
    \<Rightarrow> direct_emission_cursor \<Rightarrow> iteration kres" where
  "annotations_phase prep c composite_columns st cur =
     (if \<not> include_literals (prep_options prep) then leave_annotations cur else
      case composite_columns of
        Some tables \<Rightarrow>
          if scan_index cur = length (prep_composite_annotation_roots prep) then leave_annotations cur else
          bnd (load (prep_composite_annotation_roots prep) (scan_index cur)) (\<lambda>coordinate.
          let cur1 = cur\<lparr>scan_index := scan_index cur + 1\<rparr> in
          bnd (composite_annotation_projection tables coordinate (prep_composite_class_nodes prep)
                 (prep_iri_limit prep) st) (\<lambda>r. case r of
            None \<Rightarrow> Inr (Continue cur1)
          | Some projection \<Rightarrow>
              bnd (composite_annotation_edge projection (root_table coordinate) (prep_composite_anonymous_nodes prep))
                (\<lambda>edge. publish edge cur1)))
      | None \<Rightarrow>
          (case prep_selected_annotation_nodes prep of
             Some chosen \<Rightarrow>
               if scan_index cur = length chosen then leave_annotations cur else
               bnd (load chosen (scan_index cur)) (\<lambda>node_id.
               emit_annotation prep c st node_id (cur\<lparr>scan_index := scan_index cur + 1\<rparr>))
           | None \<Rightarrow>
               bnd (next_annotation_root prep c st (scan_index cur)) (\<lambda>(index, found). case found of
                 None \<Rightarrow> leave_annotations cur
               | Some node_id \<Rightarrow> emit_annotation prep c st node_id (cur\<lparr>scan_index := index\<rparr>))))"

definition class_assertion_delta :: "direct_preparation \<Rightarrow> direct_emission_cursor
    \<Rightarrow> owned_overlay_delta_projection \<Rightarrow> usize \<Rightarrow> iteration kres option" where
  "class_assertion_delta prep cur projection delta_index = (case projection of
     DeltaClassAssertion individual class_iri \<Rightarrow>
       Some (bnd (advance_delta cur) (\<lambda>cur'.
             bnd (cloned_edge individual RDF_TYPE class_iri) (\<lambda>edge. publish edge cur')))
   | DeltaIgnoredClassAssertion _ \<Rightarrow> skip_delta cur
   | _ \<Rightarrow> None)"

definition class_assertion_root :: "direct_preparation \<Rightarrow> direct_columns \<Rightarrow> planned_emission_shape option
    \<Rightarrow> direct_emission_cursor \<Rightarrow> iteration kres" where
  "class_assertion_root prep c shape cur = (case shape of
     Some (EmitClassAssertionEdge individual_node class_node) \<Rightarrow>
       bnd (named_individual_iri c individual_node (prep_iri_limit prep)) (\<lambda>individual.
       bnd (named_class_iri c class_node (prep_iri_limit prep)) (\<lambda>class_iri.
       bnd (cloned_edge individual RDF_TYPE class_iri) (\<lambda>edge. publish edge cur)))
   | Some EmitClassAssertionIgnored \<Rightarrow> Inr (Continue cur)
   | _ \<Rightarrow> Inl Malformed)"

definition class_assertions_phase :: "direct_preparation \<Rightarrow> direct_columns \<Rightarrow> nat \<Rightarrow> direct_emission_cursor
    \<Rightarrow> iteration kres" where
  "class_assertions_phase prep c st cur =
     with_delta prep cur (class_assertion_delta prep cur)
       (scan_root prep c st HandleClassAssertion PhaseObjectAssertions (class_assertion_root prep c) cur)"

definition object_assertion_delta :: "direct_preparation \<Rightarrow> direct_emission_cursor
    \<Rightarrow> owned_overlay_delta_projection \<Rightarrow> usize \<Rightarrow> iteration kres option" where
  "object_assertion_delta prep cur projection delta_index = (case projection of
     DeltaObjectPropertyAssertion source relation destination _ \<Rightarrow>
       Some (bnd (advance_delta cur) (\<lambda>cur'.
             bnd (cloned_edge source relation destination) (\<lambda>edge. publish edge cur')))
   | DeltaIgnoredNegativeObjectPropertyAssertion _ \<Rightarrow> skip_delta cur
   | DeltaIgnoredObjectPropertyClass _ _ \<Rightarrow> skip_delta cur
   | DeltaIgnoredDataPropertyAssertion _ _ \<Rightarrow> skip_delta cur
   | DeltaIgnoredIndividualSet _ _ \<Rightarrow> skip_delta cur
   | DeltaIgnoredAnnotationAssertion _ \<Rightarrow> skip_delta cur
   | DeltaSilentRoot _ \<Rightarrow> skip_delta cur
   | DeltaSilentDeclaration \<Rightarrow> skip_delta cur
   | DeltaSilentOntologyAnnotation \<Rightarrow> skip_delta cur
   | DeltaSilentSwrl \<Rightarrow> skip_delta cur
   | _ \<Rightarrow> None)"

definition object_assertion_root :: "direct_preparation \<Rightarrow> direct_columns \<Rightarrow> planned_emission_shape option
    \<Rightarrow> direct_emission_cursor \<Rightarrow> iteration kres" where
  "object_assertion_root prep c shape cur = (case shape of
     Some (EmitObjectPropertyAssertion property source_node destination_node) \<Rightarrow>
       bnd (named_object_property_iri c property (prep_iri_limit prep)) (\<lambda>relation.
       bnd (render_planned_individual c source_node (prep_anonymous_ids prep) (prep_iri_limit prep)) (\<lambda>source.
       bnd (clone_text relation) (\<lambda>owned.
       bnd (render_planned_individual c destination_node (prep_anonymous_ids prep) (prep_iri_limit prep)) (\<lambda>destination.
       publish (mk_edge source owned destination) cur))))
   | _ \<Rightarrow> Inl Malformed)"

definition object_assertions_phase :: "direct_preparation \<Rightarrow> direct_columns \<Rightarrow> nat \<Rightarrow> direct_emission_cursor
    \<Rightarrow> iteration kres" where
  "object_assertions_phase prep c st cur =
     with_delta prep cur (object_assertion_delta prep cur)
       (scan_root prep c st HandleObjectPropertyAssertion PhaseDomainRanges (object_assertion_root prep c) cur)"

text \<open>The next class of a property on one side, from the index when there is one and by scanning
  otherwise: the advanced position, and the class unless the side is exhausted.\<close>

definition indexed_class :: "direct_preparation \<Rightarrow> direct_columns \<Rightarrow> nat \<Rightarrow> object_property_class_rule_kind
    \<Rightarrow> text_str \<Rightarrow> usize \<Rightarrow> (usize \<times> text_str option) kres" where
  "indexed_class prep c st kind property span_index =
     bnd (paired_property_positions prep property kind) (\<lambda>positions.
     case get_at positions span_index of
       None \<Rightarrow> Inr (span_index, None)
     | Some position \<Rightarrow>
         seq (check_cancel st span_index) (
         bnd (ok_or Resource (checked_add span_index 1)) (\<lambda>next.
         bnd (object_property_class_at prep c position st) (\<lambda>r. case r of
           None \<Rightarrow> Inl Malformed
         | Some (found, candidate, class_iri) \<Rightarrow>
             if found \<noteq> kind \<or> candidate \<noteq> property then Inl Malformed
             else Inr (next, Some class_iri)))))"

function scanned_class :: "direct_preparation \<Rightarrow> direct_columns \<Rightarrow> nat \<Rightarrow> object_property_class_rule_kind
    \<Rightarrow> text_str \<Rightarrow> usize \<Rightarrow> usize \<Rightarrow> (usize \<times> text_str option) kres" where
  "scanned_class prep c st kind property scan_len position =
     (if position < scan_len then
        bnd (ok_or Resource (checked_add position 1)) (\<lambda>next.
        seq (check_cancel st position) (
        bnd (object_property_class_at prep c position st) (\<lambda>r. case r of
          None \<Rightarrow> scanned_class prep c st kind property scan_len next
        | Some (found, candidate, class_iri) \<Rightarrow>
            if found = kind \<and> candidate = property then Inr (next, Some class_iri)
            else scanned_class prep c st kind property scan_len next)))
      else Inr (position, None))"
  by pat_completeness auto
termination
  by (relation "measure (\<lambda>(prep, c, st, kind, property, scan_len, position). scan_len - position)")
    (auto simp: res_simps)

declare scanned_class.simps [simp del]

definition next_class :: "direct_preparation \<Rightarrow> direct_columns \<Rightarrow> nat \<Rightarrow> object_property_class_rule_kind
    \<Rightarrow> text_str \<Rightarrow> usize \<Rightarrow> (usize \<times> text_str option) kres" where
  "next_class prep c st kind property index =
     (if prep_local_classes prep \<noteq> [] then indexed_class prep c st kind property index
      else bnd (object_property_class_scan_len prep c) (\<lambda>scan_len.
           scanned_class prep c st kind property scan_len index))"

text \<open>One iteration of the last phase: choose a property, then a domain, then a range.\<close>

definition select_property :: "direct_preparation \<Rightarrow> direct_columns \<Rightarrow> nat \<Rightarrow> direct_emission_cursor
    \<Rightarrow> (text_str \<times> direct_emission_cursor) option kres" where
  "select_property prep c st cur = (case active_property cur of
     Some property \<Rightarrow> map_res (\<lambda>p. Some (p, cur)) (clone_text property)
   | None \<Rightarrow>
       map_res (map_option (\<lambda>property. (property,
           cur\<lparr>previous_property := Some property, active_property := Some property, current_domain := None,
               domain_index := 0, range_index := 0\<rparr>)))
         (next_paired_property prep c (previous_property cur) st))"

definition select_domain :: "direct_preparation \<Rightarrow> direct_columns \<Rightarrow> nat \<Rightarrow> text_str \<Rightarrow> direct_emission_cursor
    \<Rightarrow> (text_str option \<times> direct_emission_cursor) kres" where
  "select_domain prep c st property cur = (case current_domain cur of
     Some domain \<Rightarrow> Inr (Some domain, cur)
   | None \<Rightarrow>
       map_res (\<lambda>(index, found). (found, case found of
             None \<Rightarrow> cur\<lparr>domain_index := index, active_property := None\<rparr>
           | Some domain \<Rightarrow> cur\<lparr>domain_index := index, current_domain := Some domain, range_index := 0\<rparr>))
         (next_class prep c st KindDomain property (domain_index cur)))"

definition domain_ranges_phase :: "direct_preparation \<Rightarrow> direct_columns \<Rightarrow> nat \<Rightarrow> direct_emission_cursor
    \<Rightarrow> iteration kres" where
  "domain_ranges_phase prep c st cur =
     bnd (select_property prep c st cur) (\<lambda>chosen. case chosen of
       None \<Rightarrow> Inr (Continue (cur\<lparr>cursor_phase := PhaseFinished\<rparr>))
     | Some (property, cur1) \<Rightarrow>
         bnd (select_domain prep c st property cur1) (\<lambda>(selected_domain, cur2). case selected_domain of
           None \<Rightarrow> Inr (Continue cur2)
         | Some domain \<Rightarrow>
             bnd (next_class prep c st KindRange property (range_index cur2)) (\<lambda>(index, selected_range).
             let cur3 = cur2\<lparr>range_index := index\<rparr> in
             case selected_range of
               None \<Rightarrow> Inr (Continue (cur3\<lparr>current_domain := None\<rparr>))
             | Some destination \<Rightarrow> continue_with (set_role domain property destination cur3))))"

section \<open>The loop\<close>

definition phase_iteration :: "direct_preparation \<Rightarrow> direct_columns \<Rightarrow> direct_columns list option \<Rightarrow> nat
    \<Rightarrow> direct_emission_cursor \<Rightarrow> iteration kres" where
  "phase_iteration prep c composite_columns st cur = (case cursor_phase cur of
     PhaseSubclasses \<Rightarrow> subclasses_phase prep c st cur
   | PhaseEquivalents \<Rightarrow> equivalents_phase prep c st cur
   | PhaseAnnotations \<Rightarrow> annotations_phase prep c composite_columns st cur
   | PhaseClassAssertions \<Rightarrow> class_assertions_phase prep c st cur
   | PhaseObjectAssertions \<Rightarrow> object_assertions_phase prep c st cur
   | PhaseDomainRanges \<Rightarrow> domain_ranges_phase prep c st cur
   | PhaseFinished \<Rightarrow> Inr Exhausted)"

definition cursor_iteration :: "direct_preparation \<Rightarrow> direct_columns \<Rightarrow> direct_columns list option \<Rightarrow> nat
    \<Rightarrow> direct_emission_cursor \<Rightarrow> iteration kres" where
  "cursor_iteration prep c composite_columns st cur =
     seq (check_cancel st (emitted cur)) (
     case pending cur of
       Some expansion \<Rightarrow>
         bnd (pending_next_edge expansion (prep_role_state prep)) (\<lambda>(edge, expansion').
         case edge of
           Some e \<Rightarrow> publish e (cur\<lparr>pending := Some expansion'\<rparr>)
         | None \<Rightarrow> Inr (Continue (cur\<lparr>pending := None\<rparr>)))
     | None \<Rightarrow> phase_iteration prep c composite_columns st cur)"

partial_function (option) next_edge :: "direct_preparation \<Rightarrow> direct_columns \<Rightarrow> direct_columns list option \<Rightarrow> nat
    \<Rightarrow> direct_emission_cursor \<Rightarrow> (direct_edge \<times> direct_emission_cursor) option kres option" where
  "next_edge prep c composite_columns st cur =
     (case cursor_iteration prep c composite_columns st cur of
        Inl e \<Rightarrow> Some (Inl e)
      | Inr (Continue cur') \<Rightarrow> next_edge prep c composite_columns st cur'
      | Inr (Publish edge cur') \<Rightarrow> Some (Inr (Some (edge, cur')))
      | Inr Exhausted \<Rightarrow> Some (Inr None))"

section \<open>Prepared batches\<close>

record prepared_direct_batches =
  preparation :: direct_preparation
  batch_cursor :: direct_emission_cursor

definition remaining_edges :: "prepared_direct_batches \<Rightarrow> usize" where
  "remaining_edges b = stat_edges (prep_statistics (preparation b)) - emitted (batch_cursor b)"

text \<open>The \<open>while\<close> loop of a batch; running out of edges early is malformed.\<close>

fun fill_batch :: "direct_preparation \<Rightarrow> direct_columns \<Rightarrow> direct_columns list option \<Rightarrow> nat \<Rightarrow> usize
    \<Rightarrow> direct_emission_cursor \<Rightarrow> (direct_edge list \<times> direct_emission_cursor) kres option" where
  "fill_batch prep c composite_columns st 0 cur = Some (Inr ([], cur))"
| "fill_batch prep c composite_columns st (Suc amount) cur =
     (case next_edge prep c composite_columns st cur of
        None \<Rightarrow> None
      | Some (Inl e) \<Rightarrow> Some (Inl e)
      | Some (Inr None) \<Rightarrow> Some (Inl Malformed)
      | Some (Inr (Some (edge, cur'))) \<Rightarrow>
          map_option (map_res (\<lambda>(edges, cur''). (edge # edges, cur'')))
            (fill_batch prep c composite_columns st amount cur'))"

definition prepare_next_batch :: "prepared_direct_batches \<Rightarrow> direct_columns \<Rightarrow> nat \<Rightarrow> usize
    \<Rightarrow> (direct_edge list \<times> direct_emission_cursor) kres option" where
  "prepare_next_batch b c st batch_edges =
     fill_batch (preparation b) c None st (min (remaining_edges b) batch_edges) (batch_cursor b)"

definition prepare_next_composite_batch :: "prepared_direct_batches \<Rightarrow> direct_columns list \<Rightarrow> nat \<Rightarrow> usize
    \<Rightarrow> (direct_edge list \<times> direct_emission_cursor) kres option" where
  "prepare_next_composite_batch b tables st batch_edges =
     (case tables of
        [] \<Rightarrow> Some (Inl Malformed)
      | base # _ \<Rightarrow>
          fill_batch (preparation b) base (Some tables) st (min (remaining_edges b) batch_edges) (batch_cursor b))"

definition commit_cursor :: "prepared_direct_batches \<Rightarrow> direct_emission_cursor \<Rightarrow> prepared_direct_batches" where
  "commit_cursor b cur = b\<lparr>batch_cursor := cur\<rparr>"

end
