(* ===== verification/Emission_Trace.thy ===== *)
theory Emission_Trace
  imports Emission
begin

text \<open>
  What the emission cursor produces, as a reference enumeration. A \<open>trace\<close> is the list of
  edges a cursor hands out followed by the way it stops (no error, or the error). The
  reference \<open>emission_trace\<close> is a plain recursion over phases, roots and deltas; the relation
  \<open>emits\<close> is the behaviour of the loop of the code. The theorems say that the two agree, that
  the loop always returns, and that the edges do not depend on how batches are cut.
\<close>

section \<open>Traces\<close>

type_synonym trace = "direct_edge list \<times> kernel_error option"

definition no_edges :: trace where
  "no_edges = ([], None)"

fun followed_by :: "trace \<Rightarrow> trace \<Rightarrow> trace" where
  "followed_by (edges, None) (edges', stop) = (edges @ edges', stop)"
| "followed_by (edges, Some e) _ = (edges, Some e)"

definition joined :: "trace list \<Rightarrow> trace" where
  "joined traces = foldr followed_by traces no_edges"

definition lifted :: "direct_edge list kres \<Rightarrow> trace" where
  "lifted r = (case r of Inl e \<Rightarrow> ([], Some e) | Inr edges \<Rightarrow> (edges, None))"

lemma followed_by_simps [simp]:
  "followed_by no_edges t = t" "followed_by t no_edges = t" "followed_by ([], None) t = t"
  by (cases t rule: prod.exhaust; simp add: no_edges_def; cases "snd t"; auto)+

lemma followed_by_assoc: "followed_by (followed_by a b) c = followed_by a (followed_by b c)"
  by (cases a; cases b; cases c; cases "snd a"; cases "snd b") auto

lemma joined_simps [simp]: "joined [] = no_edges" "joined (t # ts) = followed_by t (joined ts)"
  by (simp_all add: joined_def)

lemma joined_append: "joined (ts @ us) = followed_by (joined ts) (joined us)"
  by (induction ts) (simp_all add: followed_by_assoc)

lemma lifted_simps [simp]: "lifted (Inl e) = ([], Some e)" "lifted (Inr es) = (es, None)"
  by (simp_all add: lifted_def)

lemma followed_by_length:
  "length (fst (followed_by (es, None) t)) = length es + length (fst t)"
  by (cases t) simp

section \<open>The reference enumeration\<close>

definition taxonomy_edges :: "direct_compile_options \<Rightarrow> text_str \<Rightarrow> text_str \<Rightarrow> direct_edge list" where
  "taxonomy_edges options source destination =
     mk_edge source SUBCLASS_OF destination #
     (if bidirectional options then [mk_edge destination SUPERCLASS_OF source] else [])"

definition role_edges :: "owned_role_state \<Rightarrow> text_str \<Rightarrow> text_str \<Rightarrow> text_str \<Rightarrow> direct_edge list" where
  "role_edges role_state source relation destination =
     map (\<lambda>r. mk_edge source r destination) (relation # owned_subroles_for role_state relation) @
     (case owned_inverse_for role_state relation of
        None \<Rightarrow> [] | Some inv_iri \<Rightarrow> [mk_edge destination inv_iri source])"

definition projects_roles :: "direct_compile_options \<Rightarrow> bool" where
  "projects_roles options \<longleftrightarrow> \<not> asserted_taxonomy_only options \<and> \<not> only_taxonomy options"

fun delta_edges :: "owned_role_state \<Rightarrow> direct_compile_options \<Rightarrow> owned_overlay_delta_projection
    \<Rightarrow> direct_edge list" where
  "delta_edges rs options (DeltaTaxonomy source destination) = taxonomy_edges options source destination"
| "delta_edges rs options (DeltaRestriction source relation destination) =
     (if projects_roles options then role_edges rs source relation destination else [])"
| "delta_edges rs options (DeltaEquivalentPair source destination) = taxonomy_edges options source destination"
| "delta_edges rs options (DeltaEquivalentAggregate source named_destinations restrictions _) =
     concat (map (taxonomy_edges options source) named_destinations) @
     (if only_taxonomy options then []
      else concat (map (\<lambda>r. role_edges rs source (owned_relation r) (owned_destination r)) restrictions))"
| "delta_edges rs options (DeltaClassAssertion individual class_iri) = [mk_edge individual RDF_TYPE class_iri]"
| "delta_edges rs options (DeltaObjectPropertyAssertion source relation destination _) =
     [mk_edge source relation destination]"
| "delta_edges rs options _ = []"

definition subclass_edges :: "direct_preparation \<Rightarrow> direct_columns \<Rightarrow> planned_emission_shape option \<Rightarrow> trace" where
  "subclass_edges prep c shape = lifted (case shape of
     Some (EmitSubclassTaxonomy source_node destination_node) \<Rightarrow>
       bnd (named_class_iri c source_node (prep_iri_limit prep)) (\<lambda>source.
       map_res (taxonomy_edges (prep_options prep) source)
         (named_class_iri c destination_node (prep_iri_limit prep)))
   | Some (EmitSubclassRestriction source_node restriction) \<Rightarrow>
       if projects_roles (prep_options prep) then
         bnd (named_class_iri c source_node (prep_iri_limit prep)) (\<lambda>source.
         map_res (\<lambda>(relation, destination). role_edges (prep_role_state prep) source relation destination)
           (planned_restriction_parts c restriction (prep_iri_limit prep)))
       else Inr []
   | Some EmitSubclassIgnored \<Rightarrow> Inr []
   | _ \<Rightarrow> Inl Malformed)"

definition named_operand_edges :: "direct_preparation \<Rightarrow> direct_columns \<Rightarrow> text_str \<Rightarrow> usize \<Rightarrow> trace" where
  "named_operand_edges prep c source node_id =
     lifted (map_res (taxonomy_edges (prep_options prep) source) (named_class_iri c node_id (prep_iri_limit prep)))"

definition restriction_operand_edges :: "direct_preparation \<Rightarrow> direct_columns \<Rightarrow> text_str
    \<Rightarrow> planned_restriction_coordinate option \<Rightarrow> trace" where
  "restriction_operand_edges prep c source coordinate = (case coordinate of
     None \<Rightarrow> no_edges
   | Some found \<Rightarrow>
       lifted (map_res (\<lambda>(relation, destination). role_edges (prep_role_state prep) source relation destination)
         (planned_restriction_parts c found (prep_iri_limit prep))))"

definition aggregate_edges :: "direct_preparation \<Rightarrow> direct_columns \<Rightarrow> text_str \<Rightarrow> usize \<Rightarrow> trace" where
  "aggregate_edges prep c source plan_index =
     (case bnd (aggregate_emission_at prep plan_index) (\<lambda>plan. map_res (Pair plan) (emission_named_nodes prep plan)) of
        Inl e \<Rightarrow> ([], Some e)
      | Inr (plan, named_nodes) \<Rightarrow>
          followed_by (joined (map (named_operand_edges prep c source) named_nodes))
            (if only_taxonomy (prep_options prep) then no_edges else
             case emission_restrictions prep plan of
               Inl e \<Rightarrow> ([], Some e)
             | Inr restrictions \<Rightarrow> joined (map (restriction_operand_edges prep c source) restrictions)))"

definition equivalent_edges :: "direct_preparation \<Rightarrow> direct_columns \<Rightarrow> planned_emission_shape option \<Rightarrow> trace" where
  "equivalent_edges prep c shape = (case shape of
     Some (EmitEquivalentPair source_node destination_node) \<Rightarrow>
       lifted (bnd (named_class_iri c source_node (prep_iri_limit prep)) (\<lambda>source.
         map_res (taxonomy_edges (prep_options prep) source)
           (named_class_iri c destination_node (prep_iri_limit prep))))
   | Some (EmitEquivalentAggregate source_node plan_index) \<Rightarrow>
       (case named_class_iri c source_node (prep_iri_limit prep) of
          Inl e \<Rightarrow> ([], Some e)
        | Inr source \<Rightarrow> aggregate_edges prep c source plan_index)
   | Some EmitEquivalentIgnored \<Rightarrow> no_edges
   | _ \<Rightarrow> ([], Some Malformed))"

definition class_assertion_edges :: "direct_preparation \<Rightarrow> direct_columns \<Rightarrow> planned_emission_shape option \<Rightarrow> trace" where
  "class_assertion_edges prep c shape = lifted (case shape of
     Some (EmitClassAssertionEdge individual_node class_node) \<Rightarrow>
       bnd (named_individual_iri c individual_node (prep_iri_limit prep)) (\<lambda>individual.
       map_res (\<lambda>class_iri. [mk_edge individual RDF_TYPE class_iri])
         (named_class_iri c class_node (prep_iri_limit prep)))
   | Some EmitClassAssertionIgnored \<Rightarrow> Inr []
   | _ \<Rightarrow> Inl Malformed)"

definition object_assertion_edges :: "direct_preparation \<Rightarrow> direct_columns \<Rightarrow> planned_emission_shape option \<Rightarrow> trace" where
  "object_assertion_edges prep c shape = lifted (case shape of
     Some (EmitObjectPropertyAssertion property source_node destination_node) \<Rightarrow>
       bnd (named_object_property_iri c property (prep_iri_limit prep)) (\<lambda>relation.
       bnd (render_planned_individual c source_node (prep_anonymous_ids prep) (prep_iri_limit prep)) (\<lambda>source.
       map_res (\<lambda>destination. [mk_edge source relation destination])
         (render_planned_individual c destination_node (prep_anonymous_ids prep) (prep_iri_limit prep))))
   | _ \<Rightarrow> Inl Malformed)"

text \<open>A phase: at every scan position the deltas inserted there, then the root.\<close>

definition root_edges :: "direct_preparation \<Rightarrow> direct_columns \<Rightarrow> root_rule_handler
    \<Rightarrow> (planned_emission_shape option \<Rightarrow> trace) \<Rightarrow> usize \<Rightarrow> trace" where
  "root_edges prep c expected shape_edges index =
     (case bnd (root_is_selected c index) (\<lambda>chosen. if \<not> chosen then Inr False
           else map_res (\<lambda>rule. handler rule = expected) (prep_rule_at prep index)) of
        Inl e \<Rightarrow> ([], Some e)
      | Inr relevant \<Rightarrow> if relevant then shape_edges (emission_shape_at prep index) else no_edges)"

definition deltas_at :: "direct_preparation \<Rightarrow> emission_phase \<Rightarrow> usize \<Rightarrow> owned_overlay_delta list" where
  "deltas_at prep p index =
     filter (\<lambda>delta. delta_phase (delta_projection delta) = p \<and> insertion_scan_index delta = index)
       (prep_overlay_deltas prep)"

definition inserted_edges :: "direct_preparation \<Rightarrow> emission_phase \<Rightarrow> usize \<Rightarrow> trace" where
  "inserted_edges prep p index =
     (concat (map (\<lambda>delta. delta_edges (prep_role_state prep) (prep_options prep) (delta_projection delta))
        (deltas_at prep p index)), None)"

definition phase_edges :: "direct_preparation \<Rightarrow> direct_columns \<Rightarrow> emission_phase \<Rightarrow> root_rule_handler
    \<Rightarrow> (planned_emission_shape option \<Rightarrow> trace) \<Rightarrow> trace" where
  "phase_edges prep c p expected shape_edges =
     followed_by
       (joined (map (\<lambda>index. followed_by (inserted_edges prep p index) (root_edges prep c expected shape_edges index))
          [0 ..< root_count c]))
       (inserted_edges prep p (root_count c))"

text \<open>The annotations: of a composite, of a root selection, or of every selected root.\<close>

definition annotation_node_edges :: "direct_preparation \<Rightarrow> direct_columns \<Rightarrow> nat \<Rightarrow> usize \<Rightarrow> trace" where
  "annotation_node_edges prep c st node_id =
     lifted (bnd (annotation_projection c node_id (prep_iri_limit prep) st) (\<lambda>r. case r of
         None \<Rightarrow> Inr []
       | Some projection \<Rightarrow> map_res (\<lambda>edge. [edge]) (annotation_edge projection (prep_anonymous_ids prep))))"

definition annotation_root_edges :: "direct_preparation \<Rightarrow> direct_columns \<Rightarrow> nat \<Rightarrow> usize \<Rightarrow> trace" where
  "annotation_root_edges prep c st index =
     (case bnd (root_is_selected c index) (\<lambda>chosen. if \<not> chosen then Inr None else
           bnd (root_id c index) (\<lambda>candidate.
           map_res (\<lambda>rule. if handler rule = HandleAnnotationAssertion then Some candidate else None)
             (prep_rule_at prep index))) of
        Inl e \<Rightarrow> ([], Some e)
      | Inr None \<Rightarrow> no_edges
      | Inr (Some node_id) \<Rightarrow> annotation_node_edges prep c st node_id)"

definition composite_annotation_edges :: "direct_preparation \<Rightarrow> direct_columns list \<Rightarrow> nat
    \<Rightarrow> composite_root_coordinate \<Rightarrow> trace" where
  "composite_annotation_edges prep tables st coordinate =
     lifted (bnd (composite_annotation_projection tables coordinate (prep_composite_class_nodes prep)
                    (prep_iri_limit prep) st) (\<lambda>r. case r of
         None \<Rightarrow> Inr []
       | Some projection \<Rightarrow>
           map_res (\<lambda>edge. [edge])
             (composite_annotation_edge projection (root_table coordinate) (prep_composite_anonymous_nodes prep))))"

definition annotation_phase_edges :: "direct_preparation \<Rightarrow> direct_columns \<Rightarrow> direct_columns list option \<Rightarrow> nat \<Rightarrow> trace" where
  "annotation_phase_edges prep c composite_columns st =
     (if \<not> include_literals (prep_options prep) then no_edges else
      case composite_columns of
        Some tables \<Rightarrow> joined (map (composite_annotation_edges prep tables st) (prep_composite_annotation_roots prep))
      | None \<Rightarrow>
          (case prep_selected_annotation_nodes prep of
             Some chosen \<Rightarrow> joined (map (annotation_node_edges prep c st) chosen)
           | None \<Rightarrow> joined (map (annotation_root_edges prep c st) [0 ..< root_count c])))"

text \<open>Domains and ranges: every domain of a property with both, in the order of the
  properties, paired with every range.\<close>

fun collect :: "('a \<Rightarrow> 'b kres) \<Rightarrow> 'a list \<Rightarrow> 'b list kres" where
  "collect f [] = Inr []"
| "collect f (x # xs) = bnd (f x) (\<lambda>y. map_res ((#) y) (collect f xs))"

definition classes_of :: "object_property_class_rule_kind \<Rightarrow> text_str \<Rightarrow> property_class option list \<Rightarrow> text_str list" where
  "classes_of kind property rows =
     List.map_filter (\<lambda>row. case row of None \<Rightarrow> None
       | Some (found, candidate, class_iri) \<Rightarrow>
           if found = kind \<and> candidate = property then Some class_iri else None) rows"

definition paired_properties :: "property_class option list \<Rightarrow> text_str list" where
  "paired_properties rows =
     sort (remdups (filter (\<lambda>p. classes_of KindRange p rows \<noteq> [])
       (List.map_filter (\<lambda>row. case row of Some (KindDomain, p, _) \<Rightarrow> Some p | _ \<Rightarrow> None) rows)))"

definition property_edges :: "owned_role_state \<Rightarrow> property_class option list \<Rightarrow> text_str \<Rightarrow> direct_edge list" where
  "property_edges rs rows property =
     concat (map (\<lambda>domain. concat (map (\<lambda>range_iri. role_edges rs domain property range_iri)
       (classes_of KindRange property rows))) (classes_of KindDomain property rows))"

definition domain_range_edges :: "direct_preparation \<Rightarrow> direct_columns \<Rightarrow> trace" where
  "domain_range_edges prep c =
     lifted (map_res (\<lambda>rows. concat (map (property_edges (prep_role_state prep) rows) (paired_properties rows)))
       (collect (base_object_property_class_at prep c) [0 ..< root_count c]))"

definition later_phases :: "direct_preparation \<Rightarrow> direct_columns \<Rightarrow> direct_columns list option \<Rightarrow> nat \<Rightarrow> trace" where
  "later_phases prep c composite_columns st =
     joined [phase_edges prep c PhaseEquivalents HandleEquivalentClasses (equivalent_edges prep c),
             annotation_phase_edges prep c composite_columns st,
             phase_edges prep c PhaseClassAssertions HandleClassAssertion (class_assertion_edges prep c),
             phase_edges prep c PhaseObjectAssertions HandleObjectPropertyAssertion (object_assertion_edges prep c),
             domain_range_edges prep c]"

definition emission_trace :: "direct_preparation \<Rightarrow> direct_columns \<Rightarrow> direct_columns list option \<Rightarrow> nat \<Rightarrow> trace" where
  "emission_trace prep c composite_columns st =
     followed_by (phase_edges prep c PhaseSubclasses HandleSubclass (subclass_edges prep c))
       (if asserted_taxonomy_only (prep_options prep) then no_edges else later_phases prep c composite_columns st)"

section \<open>The behaviour of the loop\<close>

inductive emits :: "direct_preparation \<Rightarrow> direct_columns \<Rightarrow> direct_columns list option \<Rightarrow> nat
    \<Rightarrow> direct_emission_cursor \<Rightarrow> trace \<Rightarrow> bool"
  for prep c composite_columns st where
  failed: "cursor_iteration prep c composite_columns st cur = Inl e \<Longrightarrow>
    emits prep c composite_columns st cur ([], Some e)"
| exhausted: "cursor_iteration prep c composite_columns st cur = Inr Exhausted \<Longrightarrow>
    emits prep c composite_columns st cur ([], None)"
| continued: "cursor_iteration prep c composite_columns st cur = Inr (Continue cur') \<Longrightarrow>
    emits prep c composite_columns st cur' t \<Longrightarrow> emits prep c composite_columns st cur t"
| published: "cursor_iteration prep c composite_columns st cur = Inr (Publish edge cur') \<Longrightarrow>
    emits prep c composite_columns st cur' (edges, stop) \<Longrightarrow>
    emits prep c composite_columns st cur (edge # edges, stop)"

text \<open>One call returns the first edge of the trace and leaves a cursor with the rest.\<close>

lemma emits_next_edge:
  "emits prep c composite_columns st cur t \<Longrightarrow>
   case t of
     ([], None) \<Rightarrow> next_edge prep c composite_columns st cur = Some (Inr None)
   | ([], Some e) \<Rightarrow> next_edge prep c composite_columns st cur = Some (Inl e)
   | (edge # edges, stop) \<Rightarrow> \<exists>cur'. next_edge prep c composite_columns st cur = Some (Inr (Some (edge, cur')))
       \<and> emits prep c composite_columns st cur' (edges, stop)"
proof (induction rule: emits.induct)
  case (continued cur cur' t)
  then have "next_edge prep c composite_columns st cur = next_edge prep c composite_columns st cur'"
    by (subst next_edge.simps) simp
  with continued.IH show ?case by (simp only:)
qed (subst next_edge.simps, force)+

lemma emits_fill:
  assumes "emits prep c composite_columns st cur (edges, stop)"
  shows "if n \<le> length edges
    then \<exists>cur'. fill_batch prep c composite_columns st n cur = Some (Inr (take n edges, cur'))
           \<and> emits prep c composite_columns st cur' (drop n edges, stop)
    else fill_batch prep c composite_columns st n cur
           = Some (Inl (case stop of None \<Rightarrow> Malformed | Some e \<Rightarrow> e))"
  using assms
proof (induction n arbitrary: cur edges)
  case 0
  then show ?case by simp
next
  case (Suc n)
  show ?case
  proof (cases edges)
    case Nil
    with emits_next_edge [OF Suc.prems] show ?thesis by (cases stop) simp_all
  next
    case (Cons e es)
    with emits_next_edge [OF Suc.prems] obtain cur' where
      n: "next_edge prep c composite_columns st cur = Some (Inr (Some (e, cur')))"
      and r: "emits prep c composite_columns st cur' (es, stop)" by auto
    from Suc.IH [OF r] n Cons show ?thesis by (auto split: if_splits)
  qed
qed

section \<open>Composing behaviours\<close>

text \<open>
  \<open>yields cur t\<close>: from the position of \<open>cur\<close>, whatever has been emitted before, the loop
  produces \<open>t\<close>, as long as the counter of emitted edges does not overflow; \<open>results r t\<close>
  is the same of one iteration.
\<close>

definition yields :: "direct_preparation \<Rightarrow> direct_columns \<Rightarrow> direct_columns list option \<Rightarrow> nat
    \<Rightarrow> direct_emission_cursor \<Rightarrow> trace \<Rightarrow> bool" where
  "yields prep c composite_columns st cur t \<longleftrightarrow>
     (\<forall>k. fits (k + length (fst t)) \<longrightarrow> emits prep c composite_columns st (cur\<lparr>emitted := k\<rparr>) t)"

definition results :: "direct_preparation \<Rightarrow> direct_columns \<Rightarrow> direct_columns list option \<Rightarrow> nat
    \<Rightarrow> (direct_emission_cursor \<Rightarrow> iteration kres) \<Rightarrow> direct_emission_cursor \<Rightarrow> trace \<Rightarrow> bool" where
  "results prep c composite_columns st f cur t \<longleftrightarrow>
     (\<forall>k. fits (k + length (fst t)) \<longrightarrow> (case f (cur\<lparr>emitted := k\<rparr>) of
        Inl e \<Rightarrow> t = ([], Some e)
      | Inr Exhausted \<Rightarrow> t = ([], None)
      | Inr (Continue cur') \<Rightarrow> emits prep c composite_columns st cur' t
      | Inr (Publish edge cur') \<Rightarrow> \<exists>edges stop. t = (edge # edges, stop)
          \<and> emits prep c composite_columns st cur' (edges, stop)))"

lemma yields_iteration:
  assumes "results prep c composite_columns st (cursor_iteration prep c composite_columns st) cur t"
  shows "yields prep c composite_columns st cur t"
  unfolding yields_def
proof (intro allI impI)
  fix k assume "fits (k + length (fst t))"
  with assms show "emits prep c composite_columns st (cur\<lparr>emitted := k\<rparr>) t"
    unfolding results_def
    by (cases "cursor_iteration prep c composite_columns st (cur\<lparr>emitted := k\<rparr>)")
      (force split: iteration.splits intro: emits.intros)+
qed

lemma yields_emitted: "yields prep c composite_columns st (cur\<lparr>emitted := k\<rparr>) t = yields prep c composite_columns st cur t"
  by (simp add: yields_def)

text \<open>The shapes of an iteration.\<close>

lemma results_Continue:
  assumes "\<And>k. f (cur\<lparr>emitted := k\<rparr>) = Inr (Continue (g (cur\<lparr>emitted := k\<rparr>)))"
    and "\<And>k. g (cur\<lparr>emitted := k\<rparr>) = (g cur)\<lparr>emitted := k\<rparr>"
    and "yields prep c composite_columns st (g cur) t"
  shows "results prep c composite_columns st f cur t"
  using assms by (simp add: results_def yields_def)

lemma results_Publish:
  assumes "\<And>k. f (cur\<lparr>emitted := k\<rparr>) = publish edge (g (cur\<lparr>emitted := k\<rparr>))"
    and "\<And>k. g (cur\<lparr>emitted := k\<rparr>) = (g cur)\<lparr>emitted := k\<rparr>"
    and "yields prep c composite_columns st (g cur) t"
  shows "results prep c composite_columns st f cur (followed_by ([edge], None) t)"
  unfolding results_def
proof (intro allI impI)
  fix k assume "fits (k + length (fst (followed_by ([edge], None) t)))"
  then have f: "fits (k + 1 + length (fst t))" by (simp add: followed_by_length)
  then have "fits (k + 1)" by (rule fits_mono [rotated]) simp
  with f assms show "case f (cur\<lparr>emitted := k\<rparr>) of Inl e \<Rightarrow> followed_by ([edge], None) t = ([], Some e)
      | Inr Exhausted \<Rightarrow> followed_by ([edge], None) t = ([], None)
      | Inr (Continue cur') \<Rightarrow> emits prep c composite_columns st cur' (followed_by ([edge], None) t)
      | Inr (Publish edge' cur') \<Rightarrow> \<exists>edges stop. followed_by ([edge], None) t = (edge' # edges, stop)
          \<and> emits prep c composite_columns st cur' (edges, stop)"
    by (cases t) (auto simp: publish_def checked_add_def yields_def)
qed

lemma results_failed:
  "(\<And>k. f (cur\<lparr>emitted := k\<rparr>) = Inl e) \<Longrightarrow> results prep c composite_columns st f cur ([], Some e)"
  by (simp add: results_def)

lemma results_cong:
  "(\<And>k. f (cur\<lparr>emitted := k\<rparr>) = g (cur\<lparr>emitted := k\<rparr>)) \<Longrightarrow>
   results prep c composite_columns st g cur t \<Longrightarrow> results prep c composite_columns st f cur t"
  by (simp add: results_def)

section \<open>Pending expansions\<close>

fun pending_edges :: "owned_role_state \<Rightarrow> direct_compile_options \<Rightarrow> pending_expansion \<Rightarrow> direct_edge list" where
  "pending_edges rs options (PendingTaxonomy source destination n both) =
     drop n (taxonomy_edges (options\<lparr>bidirectional := both\<rparr>) source destination)"
| "pending_edges rs options (PendingRole source relation destination n) =
     drop n (role_edges rs source relation destination)"

text \<open>Sizes that a real process cannot exceed.\<close>

definition roles_fit :: "owned_role_state \<Rightarrow> bool" where
  "roles_fit rs \<longleftrightarrow> (\<forall>(r, values) \<in> set (owned_subroles rs). fits (length values + 3))"

lemma fits_small: "n < 100 \<Longrightarrow> fits n"
  by (simp add: fits_def)

lemma roles_fit_subroles: "roles_fit rs \<Longrightarrow> n \<le> length (owned_subroles_for rs r) + 3 \<Longrightarrow> fits n"
  by (auto simp: roles_fit_def owned_subroles_for_def intro: fits_mono fits_small
      split: option.splits dest!: map_of_SomeD)

lemma pending_next_edge_spec:
  assumes "roles_fit rs"
    and "case p of PendingTaxonomy _ _ n _ \<Rightarrow> n \<le> 2
         | PendingRole _ r _ n \<Rightarrow> n \<le> length (owned_subroles_for rs r) + 2"
  shows "pending_next_edge p rs = Inr (case pending_edges rs options p of
      [] \<Rightarrow> (None, (case p of PendingTaxonomy s d n b \<Rightarrow> PendingTaxonomy s d (n + 1) b
                             | PendingRole s r d n \<Rightarrow> PendingRole s r d (n + 1)))
    | e # _ \<Rightarrow> (Some e, (case p of PendingTaxonomy s d n b \<Rightarrow> PendingTaxonomy s d (n + 1) b
                             | PendingRole s r d n \<Rightarrow> PendingRole s r d (n + 1))))"
proof (cases p)
  case (PendingTaxonomy s d n b)
  with assms(2) have "n = 0 \<or> n = 1 \<or> n = 2" by auto
  with PendingTaxonomy show ?thesis
    by (auto simp: pending_next_edge_def cloned_edge_def clone_text_def checked_add_def fits_small taxonomy_edges_def)
next
  case (PendingRole s r d n)
  let ?subs = "owned_subroles_for rs r"
  from PendingRole assms have n: "n \<le> length ?subs + 2" by simp
  have f: "fits (n + 1)" by (rule roles_fit_subroles [OF assms(1), of _ r]) (use n in simp)
  consider "n = 0" | m where "n = Suc m" "m < length ?subs" | "n = Suc (length ?subs)" | "n = Suc (Suc (length ?subs))"
    using n by (cases n) (auto, linarith)
  then show ?thesis
  proof cases
    case 1
    with PendingRole f show ?thesis
      by (simp add: pending_next_edge_def cloned_edge_def clone_text_def checked_add_def role_edges_def Let_def)
  next
    case 2
    then have "drop n (role_edges rs s r d) = mk_edge s (?subs ! m) d # drop (Suc n) (role_edges rs s r d)"
      by (subst Cons_nth_drop_Suc [symmetric]) (auto simp: role_edges_def nth_append)
    with 2 PendingRole f show ?thesis
      by (simp add: pending_next_edge_def cloned_edge_def clone_text_def checked_add_def Let_def)
  next
    case 3
    then have "drop n (role_edges rs s r d) = (case owned_inverse_for rs r of None \<Rightarrow> [] | Some i \<Rightarrow> [mk_edge d i s])"
      by (simp add: role_edges_def)
    with 3 PendingRole f show ?thesis
      by (simp add: pending_next_edge_def cloned_edge_def clone_text_def checked_add_def Let_def split: option.split)
  next
    case 4
    then have "drop n (role_edges rs s r d) = []"
      by (simp add: role_edges_def split: option.split)
    with 4 PendingRole f show ?thesis
      by (simp add: pending_next_edge_def checked_add_def Let_def)
  qed
qed

lemma pending_unchanged: "pending cur = None \<Longrightarrow> cur\<lparr>pending := None\<rparr> = cur"
  by (cases cur) simp

lemma followed_by_Cons: "followed_by ([e], None) (followed_by (es, None) t) = followed_by (e # es, None) t"
  by (cases t) simp

lemma yields_pending:
  assumes "st \<noteq> STATE_CANCELLED" and roles: "roles_fit (prep_role_state prep)"
    and "pending cur = Some p"
    and "case p of PendingTaxonomy _ _ n _ \<Rightarrow> n \<le> 2
         | PendingRole _ r _ n \<Rightarrow> n \<le> length (owned_subroles_for (prep_role_state prep) r) + 2"
    and t: "yields prep c composite_columns st (cur\<lparr>pending := None\<rparr>) t"
  shows "yields prep c composite_columns st cur
           (followed_by (pending_edges (prep_role_state prep) options p, None) t)"
  using assms(3-)
proof (induction "pending_edges (prep_role_state prep) options p" arbitrary: p cur)
  case Nil
  note spec = pending_next_edge_spec [OF roles Nil.prems(2), of options]
  have "results prep c composite_columns st (cursor_iteration prep c composite_columns st) cur t"
    by (rule results_Continue [where g = "\<lambda>cur. cur\<lparr>pending := None\<rparr>", OF _ _ Nil.prems(3)])
      (use spec Nil.prems(1) Nil.hyps [symmetric] assms(1) in \<open>simp_all add: cursor_iteration_def\<close>)
  then show ?case using Nil.hyps [symmetric] by (simp add: yields_iteration)
next
  case (Cons e es)
  note spec = pending_next_edge_spec [OF roles Cons.prems(2), of options]
  define p' where "p' = (case p of PendingTaxonomy s d n b \<Rightarrow> PendingTaxonomy s d (n + 1) b
    | PendingRole s r d n \<Rightarrow> PendingRole s r d (n + 1))"
  have es: "pending_edges (prep_role_state prep) options p' = es"
    using Cons.hyps(2) [symmetric] by (cases p) (simp_all add: p'_def drop_Suc tl_drop [symmetric])
  have valid: "case p' of PendingTaxonomy _ _ n _ \<Rightarrow> n \<le> 2
      | PendingRole _ r _ n \<Rightarrow> n \<le> length (owned_subroles_for (prep_role_state prep) r) + 2"
  proof (cases p)
    case (PendingTaxonomy s d n b)
    with Cons.hyps(2) have "n < length (taxonomy_edges (options\<lparr>bidirectional := b\<rparr>) s d)"
      by (metis drop_eq_Nil2 leI list.distinct(1) pending_edges.simps(1))
    with PendingTaxonomy show ?thesis by (auto simp: p'_def taxonomy_edges_def split: if_splits)
  next
    case (PendingRole s r d n)
    with Cons.hyps(2) have "n < length (role_edges (prep_role_state prep) s r d)"
      by (metis drop_eq_Nil2 leI list.distinct(1) pending_edges.simps(2))
    with PendingRole show ?thesis by (auto simp: p'_def role_edges_def split: option.splits)
  qed
  have "yields prep c composite_columns st (cur\<lparr>pending := Some p'\<rparr>)
      (followed_by (pending_edges (prep_role_state prep) options p', None) t)"
    by (rule Cons.hyps(1)) (use es valid Cons.prems(3) in simp_all)
  then have "results prep c composite_columns st (cursor_iteration prep c composite_columns st) cur
      (followed_by ([e], None) (followed_by (es, None) t))"
    by (intro results_Publish [where g = "\<lambda>cur. cur\<lparr>pending := Some p'\<rparr>"])
      (use spec Cons.prems(1) Cons.hyps(2) [symmetric] assms(1) es in \<open>simp_all add: cursor_iteration_def p'_def\<close>)
  then show ?case
    using Cons.hyps(2) [symmetric] by (simp only: followed_by_Cons) (rule yields_iteration, simp)
qed

lemma yields_taxonomy:
  assumes "st \<noteq> STATE_CANCELLED" and "roles_fit (prep_role_state prep)"
    and "yields prep c composite_columns st (cur\<lparr>pending := None\<rparr>) t"
  shows "yields prep c composite_columns st
           (cur\<lparr>pending := Some (PendingTaxonomy source destination 0 (bidirectional options))\<rparr>)
           (followed_by (taxonomy_edges options source destination, None) t)"
  using yields_pending [OF assms(1,2), where p = "PendingTaxonomy source destination 0 (bidirectional options)"
      and options = options and cur = "cur\<lparr>pending := Some (PendingTaxonomy source destination 0 (bidirectional options))\<rparr>"]
    assms(3)
  by simp

lemma yields_role:
  assumes "st \<noteq> STATE_CANCELLED" and "roles_fit (prep_role_state prep)"
    and "yields prep c composite_columns st (cur\<lparr>pending := None\<rparr>) t"
  shows "yields prep c composite_columns st
           (cur\<lparr>pending := Some (PendingRole source relation destination 0)\<rparr>)
           (followed_by (role_edges (prep_role_state prep) source relation destination, None) t)"
  using yields_pending [OF assms(1,2), where p = "PendingRole source relation destination 0"
      and cur = "cur\<lparr>pending := Some (PendingRole source relation destination 0)\<rparr>"]
    assms(3)
  by simp

lemma set_taxonomy_spec [simp]:
  "set_taxonomy source destination both cur = Inr (cur\<lparr>pending := Some (PendingTaxonomy source destination 0 both)\<rparr>)"
  by (simp add: set_taxonomy_def clone_text_def)

lemma set_role_spec [simp]:
  "set_role source relation destination cur = Inr (cur\<lparr>pending := Some (PendingRole source relation destination 0)\<rparr>)"
  by (simp add: set_role_def clone_text_def)

lemma cloned_edge_spec [simp]: "cloned_edge source relation destination = Inr (mk_edge source relation destination)"
  by (simp add: cloned_edge_def clone_text_def)

section \<open>Positions\<close>

definition delta_position :: "owned_overlay_delta \<Rightarrow> emission_phase \<times> usize" where
  "delta_position delta = (delta_phase (delta_projection delta), insertion_scan_index delta)"

definition delta_bound :: "direct_preparation \<Rightarrow> emission_phase \<Rightarrow> usize \<Rightarrow> nat" where
  "delta_bound prep p index = length (filter (\<lambda>delta. delta_position delta < (p, index)) (prep_overlay_deltas prep))"

definition at_position :: "emission_phase \<Rightarrow> usize \<Rightarrow> usize \<Rightarrow> direct_emission_cursor \<Rightarrow> bool" where
  "at_position p index delta_index cur \<longleftrightarrow>
     cursor_phase cur = p \<and> scan_index cur = index \<and> overlay_delta_index cur = delta_index \<and>
     pending cur = None \<and> aggregate cur = None \<and> owned_aggregate cur = None \<and>
     previous_property cur = None \<and> active_property cur = None \<and> current_domain cur = None"

definition from_position :: "direct_preparation \<Rightarrow> direct_columns \<Rightarrow> direct_columns list option \<Rightarrow> nat
    \<Rightarrow> emission_phase \<Rightarrow> usize \<Rightarrow> usize \<Rightarrow> trace \<Rightarrow> bool" where
  "from_position prep c composite_columns st p index delta_index t \<longleftrightarrow>
     (\<forall>cur. at_position p index delta_index cur \<longrightarrow> yields prep c composite_columns st cur t)"

lemma from_positionD:
  "from_position prep c composite_columns st p index delta_index t \<Longrightarrow> at_position p index delta_index cur \<Longrightarrow>
   yields prep c composite_columns st cur t"
  by (simp add: from_position_def)

text \<open>What the deltas of a preparation satisfy: they come in the order of their positions, no
  position lies beyond the roots, and a silent root is met in the object-assertion phase.\<close>

fun projection_in_place :: "owned_overlay_delta_projection \<Rightarrow> bool" where
  "projection_in_place (DeltaSilentRoot rule) \<longleftrightarrow> phase rule = PhaseObjectAssertions"
| "projection_in_place (DeltaEquivalentAggregate _ named_destinations restrictions _) \<longleftrightarrow>
     fits (length named_destinations) \<and> fits (length restrictions)"
| "projection_in_place _ \<longleftrightarrow> True"

definition deltas_in_place :: "direct_preparation \<Rightarrow> direct_columns \<Rightarrow> bool" where
  "deltas_in_place prep c \<longleftrightarrow>
     sorted (map delta_position (prep_overlay_deltas prep)) \<and> fits (length (prep_overlay_deltas prep)) \<and>
     (\<forall>delta \<in> set (prep_overlay_deltas prep). insertion_scan_index delta \<le> root_count c \<and>
        projection_in_place (delta_projection delta))"

lemma filter_sorted_split:
  fixes f :: "'a \<Rightarrow> 'b::linorder"
  assumes "sorted (map f xs)"
  shows "xs = filter (\<lambda>x. f x < k) xs @ filter (\<lambda>x. f x = k) xs @ filter (\<lambda>x. k < f x) xs"
  using assms
proof (induction xs)
  case Nil
  then show ?case by simp
next
  case (Cons x xs)
  then have IH: "xs = filter (\<lambda>x. f x < k) xs @ filter (\<lambda>x. f x = k) xs @ filter (\<lambda>x. k < f x) xs"
    and le: "\<forall>y \<in> set xs. f x \<le> f y" by auto
  consider "f x < k" | "f x = k" | "k < f x" by fastforce
  then show ?case
  proof cases
    case 1
    then have "f x \<noteq> k" "\<not> k < f x" by auto
    with 1 IH show ?thesis by simp
  next
    case 2
    with le have "filter (\<lambda>x. f x < k) xs = []" by (auto simp: filter_empty_conv)
    with 2 IH show ?thesis by simp
  next
    case 3
    with le have "filter (\<lambda>x. f x < k) xs = []" "filter (\<lambda>x. f x = k) xs = []"
      by (auto simp: filter_empty_conv)
    moreover from 3 have "f x \<noteq> k" "\<not> f x < k" by auto
    ultimately show ?thesis using 3 IH by simp
  qed
qed

lemma deltas_at_position: "deltas_at prep p i = filter (\<lambda>delta. delta_position delta = (p, i)) (prep_overlay_deltas prep)"
  by (simp add: deltas_at_def delta_position_def)

lemma length_filter_split:
  "(\<And>x. P x \<longleftrightarrow> Q x \<or> R x) \<Longrightarrow> (\<And>x. \<not> (Q x \<and> R x)) \<Longrightarrow>
   length (filter P xs) = length (filter Q xs) + length (filter R xs)"
  by (induction xs) auto

lemma delta_bound_Suc: "delta_bound prep p (Suc i) = delta_bound prep p i + length (deltas_at prep p i)"
  unfolding delta_bound_def deltas_at_position 
  by (rule length_filter_split) (auto simp: less_prod_def prod_eq_iff)

lemma deltas_split:
  assumes "deltas_in_place prep c"
  shows "prep_overlay_deltas prep =
     filter (\<lambda>delta. delta_position delta < (p, i)) (prep_overlay_deltas prep) @ deltas_at prep p i @
     filter (\<lambda>delta. (p, i) < delta_position delta) (prep_overlay_deltas prep)"
  unfolding deltas_at_position using assms
  by (intro filter_sorted_split) (simp add: deltas_in_place_def)

lemma delta_reached:
  assumes "deltas_in_place prep c" and "j < length (deltas_at prep p i)"
  shows "delta_bound prep p i + j < length (prep_overlay_deltas prep)"
    and "prep_overlay_deltas prep ! (delta_bound prep p i + j) = deltas_at prep p i ! j"
  by (subst deltas_split [OF assms(1), of p i]; use assms(2) in \<open>simp add: delta_bound_def nth_append\<close>)+

lemma next_delta_some:
  assumes "deltas_in_place prep c" and "j < length (deltas_at prep p i)"
    and "at_position p i (delta_bound prep p i + j) cur"
  shows "next_overlay_delta_index prep cur = Inr (Some (delta_bound prep p i + j))"
proof -
  have "deltas_at prep p i ! j \<in> set (deltas_at prep p i)" using assms(2) by simp
  then have "delta_position (deltas_at prep p i ! j) = (p, i)" by (simp add: deltas_at_position)
  with assms delta_reached [OF assms(1,2)] show ?thesis
    by (simp add: next_overlay_delta_index_def at_position_def get_at_def delta_position_def Let_def)
qed

lemma next_delta_none:
  assumes "deltas_in_place prep c"
    and "at_position p i (delta_bound prep p i + length (deltas_at prep p i)) cur"
  shows "next_overlay_delta_index prep cur = Inr None"
proof -
  let ?later = "filter (\<lambda>delta. (p, i) < delta_position delta) (prep_overlay_deltas prep)"
  let ?n = "delta_bound prep p i + length (deltas_at prep p i)"
  have g: "get_at (prep_overlay_deltas prep) ?n = get_at ?later 0"
    by (subst deltas_split [OF assms(1), of p i]) (simp add: get_at_def delta_bound_def nth_append)
  show ?thesis
  proof (cases ?later)
    case Nil
    with g assms(2) show ?thesis
      by (simp add: next_overlay_delta_index_def at_position_def get_at_def)
  next
    case (Cons x xs)
    then have "x \<in> set ?later" by simp
    then have x: "(p, i) < delta_position x" by simp
    from g Cons have "get_at (prep_overlay_deltas prep) ?n = Some x" by (simp add: get_at_def)
    with x assms(2) show ?thesis
      by (auto simp: next_overlay_delta_index_def at_position_def delta_position_def Let_def)
  qed
qed

text \<open>A phase, from what happens at one delta, at one root and at the end of the roots.\<close>

lemma inserted_from_position:
  assumes place: "deltas_in_place prep c"
    and step: "\<And>j cur t. j < length (deltas_at prep p i) \<Longrightarrow>
      at_position p i (delta_bound prep p i + j) cur \<Longrightarrow>
      from_position prep c composite_columns st p i (Suc (delta_bound prep p i + j)) t \<Longrightarrow>
      yields prep c composite_columns st cur (followed_by (delta_edges (prep_role_state prep) (prep_options prep)
        (delta_projection (deltas_at prep p i ! j)), None) t)"
    and t: "from_position prep c composite_columns st p i (delta_bound prep p (Suc i)) t"
  shows "from_position prep c composite_columns st p i (delta_bound prep p i) (followed_by (inserted_edges prep p i) t)"
proof -
  let ?ds = "deltas_at prep p i"
  let ?edges = "\<lambda>delta. delta_edges (prep_role_state prep) (prep_options prep) (delta_projection delta)"
  have "from_position prep c composite_columns st p i (delta_bound prep p i + j)
      (followed_by (concat (map ?edges (drop j ?ds)), None) t)" if "j \<le> length ?ds" for j
    using that
  proof (induction rule: inc_induct)
    case base
    with t show ?case by (simp add: delta_bound_Suc)
  next
    case (step j)
    let ?t = "followed_by (concat (map ?edges (drop (Suc j) ?ds)), None) t"
    have "followed_by (concat (map ?edges (drop j ?ds)), None) t = followed_by (?edges (?ds ! j), None) ?t"
      by (simp add: Cons_nth_drop_Suc [symmetric, OF step(2)] followed_by_assoc [symmetric])
    with step assms(2) [OF step(2)] show ?case by (simp add: from_position_def)
  qed
  from this [of 0] show ?thesis by (simp add: inserted_edges_def)
qed

lemma phase_from_position:
  assumes place: "deltas_in_place prep c"
    and step: "\<And>i j cur t. i \<le> root_count c \<Longrightarrow> j < length (deltas_at prep p i) \<Longrightarrow>
      at_position p i (delta_bound prep p i + j) cur \<Longrightarrow>
      from_position prep c composite_columns st p i (Suc (delta_bound prep p i + j)) t \<Longrightarrow>
      yields prep c composite_columns st cur (followed_by (delta_edges (prep_role_state prep) (prep_options prep)
        (delta_projection (deltas_at prep p i ! j)), None) t)"
    and root: "\<And>i cur t. i < root_count c \<Longrightarrow> at_position p i (delta_bound prep p (Suc i)) cur \<Longrightarrow>
      from_position prep c composite_columns st p (Suc i) (delta_bound prep p (Suc i)) t \<Longrightarrow>
      yields prep c composite_columns st cur (followed_by (root_edges prep c expected shape_edges i) t)"
    and finish: "\<And>cur. at_position p (root_count c) (delta_bound prep p (Suc (root_count c))) cur \<Longrightarrow>
      yields prep c composite_columns st cur t"
  shows "from_position prep c composite_columns st p 0 (delta_bound prep p 0)
           (followed_by (phase_edges prep c p expected shape_edges) t)"
proof -
  let ?at = "\<lambda>i. followed_by (inserted_edges prep p i) (root_edges prep c expected shape_edges i)"
  let ?last = "followed_by (inserted_edges prep p (root_count c)) t"
  have "from_position prep c composite_columns st p i (delta_bound prep p i)
      (followed_by (joined (map ?at [i ..< root_count c])) ?last)" if "i \<le> root_count c" for i
    using that
  proof (induction rule: inc_induct)
    case base
    show ?case
      using inserted_from_position [OF place step [OF order_refl]] finish by (simp add: from_position_def)
  next
    case (step i)
    let ?t = "followed_by (joined (map ?at [Suc i ..< root_count c])) ?last"
    have "from_position prep c composite_columns st p i (delta_bound prep p (Suc i))
        (followed_by (root_edges prep c expected shape_edges i) ?t)"
      using root [OF step(2)] step(3) by (simp add: from_position_def)
    then have "from_position prep c composite_columns st p i (delta_bound prep p i)
        (followed_by (inserted_edges prep p i) (followed_by (root_edges prep c expected shape_edges i) ?t))"
      by (intro inserted_from_position [OF place assms(2)]) (use step(2) in auto)
    then show ?case using step(2) by (simp add: upt_conv_Cons followed_by_assoc)
  qed
  from this [of 0] show ?thesis by (simp add: phase_edges_def followed_by_assoc)
qed

lemma results_after:
  assumes "results prep c composite_columns st f (u cur) t"
    and "\<And>k. h (cur\<lparr>emitted := k\<rparr>) = f ((u cur)\<lparr>emitted := k\<rparr>)"
  shows "results prep c composite_columns st h cur t"
  using assms by (simp add: results_def)

lemma emitted_inward:
  "cur\<lparr>scan_index := i, emitted := k\<rparr> = cur\<lparr>emitted := k, scan_index := i\<rparr>"
  "cur\<lparr>aggregate := a, emitted := k\<rparr> = cur\<lparr>emitted := k, aggregate := a\<rparr>"
  "cur\<lparr>owned_aggregate := oa, emitted := k\<rparr> = cur\<lparr>emitted := k, owned_aggregate := oa\<rparr>"
  "cur\<lparr>pending := p, emitted := k\<rparr> = cur\<lparr>emitted := k, pending := p\<rparr>"
  by simp_all

lemma scan_root_step:
  assumes run: "st \<noteq> STATE_CANCELLED" and cur: "at_position p i d cur" and i: "i < root_count c"
    and t: "from_position prep c composite_columns st p (Suc i) d t"
    and shape: "\<And>shape cur t. at_position p (Suc i) d cur \<Longrightarrow> from_position prep c composite_columns st p (Suc i) d t \<Longrightarrow>
      results prep c composite_columns st (emit shape) cur (followed_by (shape_edges shape) t)"
  shows "results prep c composite_columns st (scan_root prep c st expected next_phase emit) cur
           (followed_by (root_edges prep c expected shape_edges i) t)"
proof -
  let ?results = "results prep c composite_columns st"
  let ?scan = "scan_root prep c st expected next_phase emit"
  let ?next = "\<lambda>cur. cur\<lparr>scan_index := Suc i\<rparr>"
  from cur have next_at: "at_position p (Suc i) d (?next cur)" by (simp add: at_position_def)
  from cur have si: "scan_index cur = i" by (simp add: at_position_def)
  have skip: "?results ?scan cur t" if "\<And>k. ?scan (cur\<lparr>emitted := k\<rparr>) = Inr (Continue (?next (cur\<lparr>emitted := k\<rparr>)))"
    using that from_positionD [OF t next_at] by (intro results_Continue [where g = ?next]) simp_all
  show ?thesis
  proof (cases "root_is_selected c i")
    case (Inl e)
    with i si run show ?thesis by (simp add: root_edges_def) (rule results_failed, simp add: scan_root_def Let_def)
  next
    case selected: (Inr chosen)
    show ?thesis
    proof (cases chosen)
      case False
      with selected i si run show ?thesis
        by (simp add: root_edges_def) (rule skip, simp add: scan_root_def Let_def)
    next
      case chosen: True
      show ?thesis
      proof (cases "prep_rule_at prep i")
        case (Inl e)
        with selected chosen i si run show ?thesis
          by (simp add: root_edges_def) (rule results_failed, simp add: scan_root_def Let_def)
      next
        case rule: (Inr rule)
        show ?thesis
        proof (cases "handler rule = expected")
          case False
          with rule selected chosen i si run show ?thesis
            by (simp add: root_edges_def) (rule skip, simp add: scan_root_def Let_def)
        next
          case True
          have "?results ?scan cur (followed_by (shape_edges (emission_shape_at prep i)) t)"
            by (rule results_after [where u = ?next, OF shape [OF next_at t]])
              (use True rule selected chosen i si run in \<open>simp add: scan_root_def Let_def emitted_inward\<close>)
          with True rule selected chosen show ?thesis by (simp add: root_edges_def)
        qed
      qed
    qed
  qed
qed

lemma scan_root_end:
  assumes "at_position p (root_count c) d cur" and "from_position prep c composite_columns st next_phase 0 d t"
  shows "results prep c composite_columns st (scan_root prep c st expected next_phase emit) cur t"
  by (rule results_Continue [where g = "\<lambda>cur. cur\<lparr>scan_index := 0, cursor_phase := next_phase\<rparr>"])
    (use assms in \<open>simp_all add: scan_root_def at_position_def from_position_def\<close>)

lemma idle_iteration:
  assumes "st \<noteq> STATE_CANCELLED" and "pending cur = None"
    and "results prep c composite_columns st (phase_iteration prep c composite_columns st) cur t"
  shows "yields prep c composite_columns st cur t"
  by (rule yields_iteration, rule results_cong [OF _ assms(3)]) (use assms(1,2) in \<open>simp add: cursor_iteration_def\<close>)

lemma at_position_emitted [simp]: "at_position p i d (cur\<lparr>emitted := k\<rparr>) = at_position p i d cur"
  by (simp add: at_position_def)

lemma next_delta_emitted [simp]: "next_overlay_delta_index prep (cur\<lparr>emitted := k\<rparr>) = next_overlay_delta_index prep cur"
  by (simp add: next_overlay_delta_index_def Let_def split: option.split)

section \<open>The phases of the code\<close>

lemma advance_delta_spec:
  "deltas_in_place prep c \<Longrightarrow> d < length (prep_overlay_deltas prep) \<Longrightarrow> overlay_delta_index cur = d \<Longrightarrow>
   advance_delta cur = Inr (cur\<lparr>overlay_delta_index := Suc d\<rparr>)"
  by (auto simp: advance_delta_def checked_add_def deltas_in_place_def fits_def)

lemma delta_at:
  assumes "deltas_in_place prep c" and "j < length (deltas_at prep p i)"
  shows "delta_phase (delta_projection (deltas_at prep p i ! j)) = p"
    and "projection_in_place (delta_projection (deltas_at prep p i ! j))"
proof -
  have "deltas_at prep p i ! j \<in> set (deltas_at prep p i)" using assms(2) by simp
  then have "deltas_at prep p i ! j \<in> set (prep_overlay_deltas prep)"
    and "delta_phase (delta_projection (deltas_at prep p i ! j)) = p"
    by (auto simp: deltas_at_def)
  with assms(1) show "delta_phase (delta_projection (deltas_at prep p i ! j)) = p"
    and "projection_in_place (delta_projection (deltas_at prep p i ! j))"
    by (auto simp: deltas_in_place_def)
qed

text \<open>One delta of a phase, given how the phase handles it.\<close>

lemma delta_step:
  assumes run: "st \<noteq> STATE_CANCELLED" and place: "deltas_in_place prep c"
    and j: "j < length (deltas_at prep p i)" and cur: "at_position p i (delta_bound prep p i + j) cur"
    and body: "\<And>k. phase_iteration prep c composite_columns st (cur\<lparr>emitted := k\<rparr>) =
      with_delta prep (cur\<lparr>emitted := k\<rparr>) (handle (cur\<lparr>emitted := k\<rparr>)) (rest (cur\<lparr>emitted := k\<rparr>))"
    and handled: "\<And>k. handle (cur\<lparr>emitted := k\<rparr>) (delta_projection (deltas_at prep p i ! j)) (delta_bound prep p i + j)
      = Some (f (cur\<lparr>emitted := k\<rparr>))"
    and f: "results prep c composite_columns st f cur t"
  shows "yields prep c composite_columns st cur t"
proof (rule idle_iteration [OF run])
  show "pending cur = None" using cur by (simp add: at_position_def)
  show "results prep c composite_columns st (phase_iteration prep c composite_columns st) cur t"
    by (rule results_cong [OF _ f])
      (use body handled next_delta_some [OF place j cur] delta_reached(2) [OF place j] in \<open>simp add: with_delta_def\<close>)
qed

lemma advanced_position:
  "at_position p i d cur \<Longrightarrow> at_position p i d' (cur\<lparr>overlay_delta_index := d'\<rparr>)"
  by (simp add: at_position_def)

lemma delta_results:
  fixes d assumes run: "st \<noteq> STATE_CANCELLED" and roles: "roles_fit (prep_role_state prep)"
    and place: "deltas_in_place prep c" and d: "d < length (prep_overlay_deltas prep)"
    and cur: "at_position p i d cur"
    and t: "from_position prep c composite_columns st p i (Suc d) t"
  shows "results prep c composite_columns st (\<lambda>cur. continue_with (advance_delta cur)) cur t"
    and "results prep c composite_columns st (\<lambda>cur. continue_with (bnd (advance_delta cur)
           (set_taxonomy source destination (bidirectional (prep_options prep))))) cur
           (followed_by (taxonomy_edges (prep_options prep) source destination, None) t)"
    and "results prep c composite_columns st (\<lambda>cur. continue_with (bnd (advance_delta cur)
           (set_role source relation destination))) cur
           (followed_by (role_edges (prep_role_state prep) source relation destination, None) t)"
    and "results prep c composite_columns st (\<lambda>cur. bnd (advance_delta cur) (publish edge)) cur
           (followed_by ([edge], None) t)"
proof -
  let ?next = "\<lambda>cur. cur\<lparr>overlay_delta_index := Suc d\<rparr>"
  let ?yields = "yields prep c composite_columns st"
  have y: "?yields (?next cur) t" and y0: "?yields ((?next cur)\<lparr>pending := None\<rparr>) t"
    using cur by (auto intro!: from_positionD [OF t] simp: at_position_def)
  have idle: "overlay_delta_index cur = d" using cur by (simp add: at_position_def)
  note adv = advance_delta_spec [OF place d]
  show "results prep c composite_columns st (\<lambda>cur. continue_with (advance_delta cur)) cur t"
    by (rule results_Continue [where g = ?next]) (use y idle adv in \<open>simp_all add: continue_with_def\<close>)
  show "results prep c composite_columns st (\<lambda>cur. continue_with (bnd (advance_delta cur)
           (set_taxonomy source destination (bidirectional (prep_options prep))))) cur
           (followed_by (taxonomy_edges (prep_options prep) source destination, None) t)"
    by (rule results_Continue [where g = "\<lambda>cur. (?next cur)\<lparr>pending :=
          Some (PendingTaxonomy source destination 0 (bidirectional (prep_options prep)))\<rparr>"])
      (use yields_taxonomy [OF run roles y0] idle adv in \<open>simp_all add: continue_with_def\<close>)
  show "results prep c composite_columns st (\<lambda>cur. continue_with (bnd (advance_delta cur)
           (set_role source relation destination))) cur
           (followed_by (role_edges (prep_role_state prep) source relation destination, None) t)"
    by (rule results_Continue [where g = "\<lambda>cur. (?next cur)\<lparr>pending := Some (PendingRole source relation destination 0)\<rparr>"])
      (use yields_role [OF run roles y0] idle adv in \<open>simp_all add: continue_with_def\<close>)
  show "results prep c composite_columns st (\<lambda>cur. bnd (advance_delta cur) (publish edge)) cur
           (followed_by ([edge], None) t)"
    by (rule results_Publish [where g = ?next]) (use y idle adv in simp_all)
qed

lemma subclass_delta_step:
  assumes run: "st \<noteq> STATE_CANCELLED" and roles: "roles_fit (prep_role_state prep)"
    and place: "deltas_in_place prep c" and j: "j < length (deltas_at prep PhaseSubclasses i)"
    and cur: "at_position PhaseSubclasses i (delta_bound prep PhaseSubclasses i + j) cur"
    and t: "from_position prep c composite_columns st PhaseSubclasses i (Suc (delta_bound prep PhaseSubclasses i + j)) t"
  shows "yields prep c composite_columns st cur (followed_by (delta_edges (prep_role_state prep) (prep_options prep)
           (delta_projection (deltas_at prep PhaseSubclasses i ! j)), None) t)"
proof -
  have body: "phase_iteration prep c composite_columns st (cur\<lparr>emitted := k\<rparr>) =
      with_delta prep (cur\<lparr>emitted := k\<rparr>) (subclass_delta prep (cur\<lparr>emitted := k\<rparr>))
        (scan_root prep c st HandleSubclass
          (if asserted_taxonomy_only (prep_options prep) then PhaseFinished else PhaseEquivalents)
          (subclass_root prep c) (cur\<lparr>emitted := k\<rparr>))" for k
    using cur by (simp add: phase_iteration_def subclasses_phase_def at_position_def)
  note step = delta_step [OF run place j cur body]
  note res = delta_results [OF run roles place delta_reached(1) [OF place j] cur t]
  show ?thesis
  proof (cases "delta_projection (deltas_at prep PhaseSubclasses i ! j)")
    case (DeltaTaxonomy s d)
    show ?thesis unfolding DeltaTaxonomy delta_edges.simps
      by (rule step [OF _ res(2)]) (simp add: DeltaTaxonomy subclass_delta_def)
  next
    case (DeltaRestriction s r d)
    show ?thesis
    proof (cases "projects_roles (prep_options prep)")
      case True
      then have "followed_by (delta_edges (prep_role_state prep) (prep_options prep) (DeltaRestriction s r d), None) t =
        followed_by (role_edges (prep_role_state prep) s r d, None) t" by simp
      then show ?thesis unfolding DeltaRestriction
        by (simp only:) (rule step [OF _ res(3)], use True DeltaRestriction in \<open>simp add: subclass_delta_def projects_roles_def\<close>)
    next
      case False
      then have "followed_by (delta_edges (prep_role_state prep) (prep_options prep) (DeltaRestriction s r d), None) t = t"
        by simp
      then show ?thesis unfolding DeltaRestriction
        by (simp only:) (rule step [OF _ res(1)], use False DeltaRestriction in
          \<open>auto simp: subclass_delta_def projects_roles_def skip_delta_def\<close>)
    qed
  next
    case (DeltaIgnoredSubclass n)
    show ?thesis unfolding DeltaIgnoredSubclass delta_edges.simps followed_by_simps
      by (rule step [OF _ res(1)]) (simp add: DeltaIgnoredSubclass subclass_delta_def skip_delta_def)
  qed (use delta_at [OF place j] in \<open>auto\<close>)
qed

lemma shape_results:
  assumes run: "st \<noteq> STATE_CANCELLED" and roles: "roles_fit (prep_role_state prep)"
    and idle: "pending cur = None" and y: "yields prep c composite_columns st cur t"
  shows "results prep c composite_columns st (\<lambda>cur. Inr (Continue cur)) cur t"
    and "results prep c composite_columns st (\<lambda>cur. Inl e) cur ([], Some e)"
    and "results prep c composite_columns st (\<lambda>cur. continue_with (set_taxonomy source destination
           (bidirectional (prep_options prep)) cur)) cur
           (followed_by (taxonomy_edges (prep_options prep) source destination, None) t)"
    and "results prep c composite_columns st (\<lambda>cur. continue_with (set_role source relation destination cur)) cur
           (followed_by (role_edges (prep_role_state prep) source relation destination, None) t)"
    and "results prep c composite_columns st (publish edge) cur (followed_by ([edge], None) t)"
proof -
  from y have y0: "yields prep c composite_columns st (cur\<lparr>pending := None\<rparr>) t" by (simp add: pending_unchanged idle)
  show "results prep c composite_columns st (\<lambda>cur. Inr (Continue cur)) cur t"
    by (rule results_Continue [where g = "\<lambda>cur. cur"]) (use y in simp_all)
  show "results prep c composite_columns st (\<lambda>cur. Inl e) cur ([], Some e)"
    by (rule results_failed) simp
  show "results prep c composite_columns st (\<lambda>cur. continue_with (set_taxonomy source destination
           (bidirectional (prep_options prep)) cur)) cur
           (followed_by (taxonomy_edges (prep_options prep) source destination, None) t)"
    by (rule results_Continue [where g = "\<lambda>cur. cur\<lparr>pending :=
          Some (PendingTaxonomy source destination 0 (bidirectional (prep_options prep)))\<rparr>"])
      (use yields_taxonomy [OF run roles y0] in \<open>simp_all add: continue_with_def\<close>)
  show "results prep c composite_columns st (\<lambda>cur. continue_with (set_role source relation destination cur)) cur
           (followed_by (role_edges (prep_role_state prep) source relation destination, None) t)"
    by (rule results_Continue [where g = "\<lambda>cur. cur\<lparr>pending := Some (PendingRole source relation destination 0)\<rparr>"])
      (use yields_role [OF run roles y0] in \<open>simp_all add: continue_with_def\<close>)
  show "results prep c composite_columns st (publish edge) cur (followed_by ([edge], None) t)"
    by (rule results_Publish [where g = "\<lambda>cur. cur"]) (use y in simp_all)
qed

lemma subclass_root_step:
  assumes run: "st \<noteq> STATE_CANCELLED" and roles: "roles_fit (prep_role_state prep)"
    and idle: "pending cur = None" and y: "yields prep c composite_columns st cur t"
  shows "results prep c composite_columns st (subclass_root prep c shape) cur (followed_by (subclass_edges prep c shape) t)"
proof -
  note res = shape_results [OF run roles idle y]
  show ?thesis
  proof (cases shape)
    case None
    show ?thesis by (simp add: None subclass_root_def [abs_def] subclass_edges_def res)
  next
    case (Some shape')
    show ?thesis
    proof (cases shape')
      case (EmitSubclassTaxonomy a b)
      show ?thesis
        by (cases "named_class_iri c a (prep_iri_limit prep)"; cases "named_class_iri c b (prep_iri_limit prep)")
          (simp_all add: Some EmitSubclassTaxonomy subclass_root_def [abs_def] subclass_edges_def res del: set_taxonomy_spec)
    next
      case (EmitSubclassRestriction a r)
      show ?thesis
        by (cases "named_class_iri c a (prep_iri_limit prep)"; cases "planned_restriction_parts c r (prep_iri_limit prep)")
          (auto simp add: Some EmitSubclassRestriction subclass_root_def [abs_def] subclass_edges_def projects_roles_def
            res simp del: set_role_spec)
    qed (simp_all add: Some subclass_root_def [abs_def] subclass_edges_def res)
  qed
qed

lemma phase_gap:
  assumes "deltas_in_place prep c"
    and "\<And>delta. delta \<in> set (prep_overlay_deltas prep) \<Longrightarrow>
      delta_phase (delta_projection delta) \<le> p \<or> q \<le> delta_phase (delta_projection delta)" and "p < q"
  shows "delta_bound prep p (Suc (root_count c)) = delta_bound prep q 0"
  unfolding delta_bound_def using assms
  by (intro arg_cong [where f = length] filter_cong refl)
    (force simp: less_prod_def delta_position_def deltas_in_place_def less_Suc_eq_le not_le)

lemma scanning_phase:
  assumes run: "st \<noteq> STATE_CANCELLED" and place: "deltas_in_place prep c"
    and body: "\<And>cur i d. at_position p i d cur \<Longrightarrow> phase_iteration prep c composite_columns st cur =
      with_delta prep cur (handle cur) (scan_root prep c st expected next_phase emit cur)"
    and step: "\<And>i j cur t. j < length (deltas_at prep p i) \<Longrightarrow> at_position p i (delta_bound prep p i + j) cur \<Longrightarrow>
      from_position prep c composite_columns st p i (Suc (delta_bound prep p i + j)) t \<Longrightarrow>
      yields prep c composite_columns st cur (followed_by (delta_edges (prep_role_state prep) (prep_options prep)
        (delta_projection (deltas_at prep p i ! j)), None) t)"
    and shape: "\<And>shape i d cur t. at_position p i d cur \<Longrightarrow> yields prep c composite_columns st cur t \<Longrightarrow>
      results prep c composite_columns st (emit shape) cur (followed_by (shape_edges shape) t)"
    and t: "from_position prep c composite_columns st next_phase 0 (delta_bound prep p (Suc (root_count c))) t"
  shows "from_position prep c composite_columns st p 0 (delta_bound prep p 0)
    (followed_by (phase_edges prep c p expected shape_edges) t)"
proof (rule phase_from_position [OF place])
  let ?scan = "scan_root prep c st expected next_phase emit"
  have quiet: "yields prep c composite_columns st cur t'"
    if "at_position p i (delta_bound prep p (Suc i)) cur"
      and "results prep c composite_columns st ?scan cur t'" for i cur t'
  proof (rule idle_iteration [OF run _ results_cong [OF _ that(2)]])
    from that(1) show "pending cur = None" by (simp add: at_position_def)
    from that(1) next_delta_none [OF place, of p i cur]
    show "phase_iteration prep c composite_columns st (cur\<lparr>emitted := k\<rparr>) = ?scan (cur\<lparr>emitted := k\<rparr>)" for k
      by (simp add: delta_bound_Suc body [of i "delta_bound prep p (Suc i)"] with_delta_def)
  qed
  show "yields prep c composite_columns st cur t"
    if "at_position p (root_count c) (delta_bound prep p (Suc (root_count c))) cur" for cur
    by (rule quiet [OF that scan_root_end [OF that t]])
  show "yields prep c composite_columns st cur (followed_by (root_edges prep c expected shape_edges i) t')"
    if "i < root_count c" and "at_position p i (delta_bound prep p (Suc i)) cur"
      and "from_position prep c composite_columns st p (Suc i) (delta_bound prep p (Suc i)) t'" for i cur t'
    by (rule quiet [OF that(2) scan_root_step [OF run that(2,1,3)]])
      (rule shape, auto simp: from_position_def)
qed (rule step)

lemma at_position_idle: "at_position p i d cur \<Longrightarrow> pending cur = None"
  by (simp add: at_position_def)

lemma subclasses_from_position:
  assumes run: "st \<noteq> STATE_CANCELLED" and roles: "roles_fit (prep_role_state prep)" and place: "deltas_in_place prep c"
    and t: "from_position prep c composite_columns st
      (if asserted_taxonomy_only (prep_options prep) then PhaseFinished else PhaseEquivalents) 0
      (delta_bound prep PhaseSubclasses (Suc (root_count c))) t"
  shows "from_position prep c composite_columns st PhaseSubclasses 0 (delta_bound prep PhaseSubclasses 0)
    (followed_by (phase_edges prep c PhaseSubclasses HandleSubclass (subclass_edges prep c)) t)"
  by (rule scanning_phase [OF run place _ subclass_delta_step [OF run roles place]
        subclass_root_step [OF run roles at_position_idle] t])
    (simp add: phase_iteration_def subclasses_phase_def at_position_def)

subsection \<open>Equivalent classes\<close>

text \<open>An aggregate a delta owns, from any of its operands on.\<close>

definition owned_operand_edges :: "direct_preparation \<Rightarrow> text_str \<Rightarrow> text_str list
    \<Rightarrow> owned_equivalent_restriction list \<Rightarrow> direct_edge list" where
  "owned_operand_edges prep source named_destinations restrictions =
     concat (map (taxonomy_edges (prep_options prep) source) named_destinations) @
     (if only_taxonomy (prep_options prep) then []
      else concat (map (\<lambda>r. role_edges (prep_role_state prep) source (owned_relation r) (owned_destination r)) restrictions))"

lemma owned_aggregate_iteration:
  assumes run: "st \<noteq> STATE_CANCELLED" and "pending cur = None" and "cursor_phase cur = PhaseEquivalents"
    and "owned_aggregate cur = Some agg"
    and step: "\<And>k. owned_aggregate_step prep agg ((cur\<lparr>owned_aggregate := None\<rparr>)\<lparr>emitted := k\<rparr>) = Inr (Some ((g cur)\<lparr>emitted := k\<rparr>))"
    and y: "yields prep c composite_columns st (g cur) t"
  shows "yields prep c composite_columns st cur t"
proof (rule idle_iteration [OF run assms(2)])
  show "results prep c composite_columns st (phase_iteration prep c composite_columns st) cur t"
    unfolding results_def
  proof (intro allI impI)
    fix k assume "fits (k + length (fst t))"
    then show "case phase_iteration prep c composite_columns st (cur\<lparr>emitted := k\<rparr>) of Inl e \<Rightarrow> t = ([], Some e)
        | Inr (Continue cur') \<Rightarrow> emits prep c composite_columns st cur' t
        | Inr (Publish edge cur') \<Rightarrow> \<exists>edges stop. t = (edge # edges, stop) \<and> emits prep c composite_columns st cur' (edges, stop)
        | Inr Exhausted \<Rightarrow> t = ([], None)"
      using assms(3,4) step [of k] y by (simp add: phase_iteration_def equivalents_phase_def emitted_inward yields_def)
  qed
qed

text \<open>Two cursors whose next iterations agree behave alike.\<close>

lemma yields_same_iteration:
  assumes "yields prep c composite_columns st cur t"
    and "\<And>k. cursor_iteration prep c composite_columns st (cur'\<lparr>emitted := k\<rparr>) =
      cursor_iteration prep c composite_columns st (cur\<lparr>emitted := k\<rparr>)"
  shows "yields prep c composite_columns st cur' t"
  unfolding yields_def
proof (intro allI impI)
  fix k assume "fits (k + length (fst t))"
  with assms(1) have "emits prep c composite_columns st (cur\<lparr>emitted := k\<rparr>) t" by (simp add: yields_def)
  then show "emits prep c composite_columns st (cur'\<lparr>emitted := k\<rparr>) t"
    by cases (auto intro: emits.intros simp: assms(2))
qed

definition owned_in_progress :: "usize \<Rightarrow> usize \<Rightarrow> usize \<Rightarrow> direct_emission_cursor \<Rightarrow> direct_emission_cursor" where
  "owned_in_progress d n m cur = cur\<lparr>owned_aggregate :=
     Some \<lparr> owned_delta_index = d, owned_named_index = n, owned_restriction_index = m \<rparr>\<rparr>"

lemma get_at_nth [simp]: "i < length xs \<Longrightarrow> get_at xs i = Some (xs ! i)"
  by (simp add: get_at_def)

lemma get_at_length [simp]: "get_at xs (length xs) = None"
  by (simp add: get_at_def)

lemma owned_unchanged:
  "owned_aggregate cur = None \<Longrightarrow> cur\<lparr>emitted := k, owned_aggregate := None\<rparr> = cur\<lparr>emitted := k\<rparr>"
  by (cases cur) simp

lemma owned_aggregate_step_spec:
  assumes "get_at (prep_overlay_deltas prep) d = Some delta"
    and "delta_projection delta = DeltaEquivalentAggregate source named_destinations restrictions ignored"
  shows "n < length named_destinations \<Longrightarrow> fits (Suc n) \<Longrightarrow>
      owned_aggregate_step prep \<lparr> owned_delta_index = d, owned_named_index = n, owned_restriction_index = m \<rparr> cur =
      Inr (Some (cur\<lparr>pending := Some (PendingTaxonomy source (named_destinations ! n) 0 (bidirectional (prep_options prep))),
        owned_aggregate := Some \<lparr> owned_delta_index = d, owned_named_index = Suc n, owned_restriction_index = m \<rparr>\<rparr>))"
    and "m < length restrictions \<Longrightarrow> fits (Suc m) \<Longrightarrow> \<not> only_taxonomy (prep_options prep) \<Longrightarrow>
      owned_aggregate_step prep \<lparr> owned_delta_index = d, owned_named_index = length named_destinations, owned_restriction_index = m \<rparr> cur =
      Inr (Some (cur\<lparr>pending := Some (PendingRole source (owned_relation (restrictions ! m)) (owned_destination (restrictions ! m)) 0),
        owned_aggregate := Some \<lparr> owned_delta_index = d, owned_named_index = length named_destinations, owned_restriction_index = Suc m \<rparr>\<rparr>))"
    and "m = length restrictions \<or> only_taxonomy (prep_options prep) \<Longrightarrow>
      owned_aggregate_step prep \<lparr> owned_delta_index = d, owned_named_index = length named_destinations, owned_restriction_index = m \<rparr> cur =
      Inr None"
  using assms by (auto simp: owned_aggregate_step_def checked_add_def)

lemma owned_restrictions_yield:
  assumes run: "st \<noteq> STATE_CANCELLED" and roles: "roles_fit (prep_role_state prep)"
    and delta: "get_at (prep_overlay_deltas prep) d = Some delta"
      "delta_projection delta = DeltaEquivalentAggregate source named_destinations restrictions ignored"
    and fit: "fits (length restrictions)"
    and cur: "at_position PhaseEquivalents i d' cur"
    and y: "yields prep c composite_columns st cur t" and m: "m \<le> length restrictions"
  shows "yields prep c composite_columns st (owned_in_progress d (length named_destinations) m cur)
    (followed_by (owned_operand_edges prep source [] (drop m restrictions), None) t)"
  using m
proof (induction rule: inc_induct)
  case base
  have "yields prep c composite_columns st (owned_in_progress d (length named_destinations) (length restrictions) cur) t"
    by (rule yields_same_iteration [OF y])
      (use cur run in \<open>simp add: cursor_iteration_def phase_iteration_def equivalents_phase_def owned_in_progress_def
        at_position_def owned_aggregate_step_spec [OF delta] emitted_inward owned_unchanged\<close>)
  then show ?case by (simp add: owned_operand_edges_def)
next
  case (step m)
  show ?case
  proof (cases "only_taxonomy (prep_options prep)")
    case True
    have "yields prep c composite_columns st (owned_in_progress d (length named_destinations) m cur) t"
      by (rule yields_same_iteration [OF y])
        (use cur run True in \<open>simp add: cursor_iteration_def phase_iteration_def equivalents_phase_def owned_in_progress_def
          at_position_def owned_aggregate_step_spec [OF delta] emitted_inward owned_unchanged\<close>)
    then show ?thesis using True by (simp add: owned_operand_edges_def)
  next
    case False
    let ?r = "restrictions ! m" and ?t = "followed_by (owned_operand_edges prep source [] (drop (Suc m) restrictions), None) t"
    let ?next = "owned_in_progress d (length named_destinations) (Suc m) cur"
    have f: "fits (Suc m)" using fit step(2) by (simp add: fits_def)
    have p: "?next\<lparr>pending := None\<rparr> = ?next" using cur by (simp add: owned_in_progress_def at_position_def)
    have "yields prep c composite_columns st
        (?next\<lparr>pending := Some (PendingRole source (owned_relation ?r) (owned_destination ?r) 0)\<rparr>)
        (followed_by (role_edges (prep_role_state prep) source (owned_relation ?r) (owned_destination ?r), None) ?t)"
      by (rule yields_role [OF run roles]) (use step.IH in \<open>simp add: p\<close>)
    then have "yields prep c composite_columns st (owned_in_progress d (length named_destinations) m cur)
        (followed_by (role_edges (prep_role_state prep) source (owned_relation ?r) (owned_destination ?r), None) ?t)"
      by (rule owned_aggregate_iteration [OF run, rotated -1, where agg = "\<lparr> owned_delta_index = d,
            owned_named_index = length named_destinations, owned_restriction_index = m \<rparr>"])
        (use cur step(2) f False in \<open>simp_all add: owned_in_progress_def at_position_def owned_aggregate_step_spec [OF delta]\<close>)
    then show ?thesis
      using False step(2)
      by (simp add: owned_operand_edges_def Cons_nth_drop_Suc [symmetric, of m] followed_by_assoc [symmetric])
  qed
qed

lemma owned_named_yield:
  assumes run: "st \<noteq> STATE_CANCELLED" and roles: "roles_fit (prep_role_state prep)"
    and delta: "get_at (prep_overlay_deltas prep) d = Some delta"
      "delta_projection delta = DeltaEquivalentAggregate source named_destinations restrictions ignored"
    and fit: "fits (length named_destinations)" "fits (length restrictions)"
    and cur: "at_position PhaseEquivalents i d' cur"
    and y: "yields prep c composite_columns st cur t" and n: "n \<le> length named_destinations"
  shows "yields prep c composite_columns st (owned_in_progress d n 0 cur)
    (followed_by (owned_operand_edges prep source (drop n named_destinations) restrictions, None) t)"
  using n
proof (induction rule: inc_induct)
  case base
  show ?case using owned_restrictions_yield [OF run roles delta fit(2) cur y, of 0] by simp
next
  case (step n)
  let ?d = "named_destinations ! n"
  let ?t = "followed_by (owned_operand_edges prep source (drop (Suc n) named_destinations) restrictions, None) t"
  let ?next = "owned_in_progress d (Suc n) 0 cur"
  have f: "fits (Suc n)" using fit step(2) by (simp add: fits_def)
  have p: "?next\<lparr>pending := None\<rparr> = ?next" using cur by (simp add: owned_in_progress_def at_position_def)
  have "yields prep c composite_columns st
      (?next\<lparr>pending := Some (PendingTaxonomy source ?d 0 (bidirectional (prep_options prep)))\<rparr>)
      (followed_by (taxonomy_edges (prep_options prep) source ?d, None) ?t)"
    by (rule yields_taxonomy [OF run roles]) (use step.IH in \<open>simp add: p\<close>)
  then have "yields prep c composite_columns st (owned_in_progress d n 0 cur)
      (followed_by (taxonomy_edges (prep_options prep) source ?d, None) ?t)"
    by (rule owned_aggregate_iteration [OF run, rotated -1, where agg = "\<lparr> owned_delta_index = d,
          owned_named_index = n, owned_restriction_index = 0 \<rparr>"])
      (use cur step(2) f in \<open>simp_all add: owned_in_progress_def at_position_def owned_aggregate_step_spec [OF delta]\<close>)
  then show ?case
    using step(2)
    by (simp add: owned_operand_edges_def Cons_nth_drop_Suc [symmetric, of n] followed_by_assoc [symmetric])
qed

text \<open>An aggregate of the table.\<close>

definition table_cursor :: "text_str \<Rightarrow> usize \<Rightarrow> usize \<Rightarrow> usize \<Rightarrow> equivalent_aggregate_cursor" where
  "table_cursor source plan_index n m =
     \<lparr> aggregate_source = source, aggregate_plan_index = plan_index, aggregate_named_index = n,
       aggregate_restriction_index = m \<rparr>"

lemma table_cursor_simps [simp]:
  "aggregate_source (table_cursor source plan_index n m) = source"
  "aggregate_plan_index (table_cursor source plan_index n m) = plan_index"
  "aggregate_named_index (table_cursor source plan_index n m) = n"
  "aggregate_restriction_index (table_cursor source plan_index n m) = m"
  "(table_cursor source plan_index n m)\<lparr>aggregate_named_index := n'\<rparr> = table_cursor source plan_index n' m"
  "(table_cursor source plan_index n m)\<lparr>aggregate_restriction_index := m'\<rparr> = table_cursor source plan_index n m'"
  by (simp_all add: table_cursor_def)

lemma checked_plan_slice_fits: "checked_plan_slice xs r = Inr ys \<Longrightarrow> fits (range_start r + length ys)"
  by (auto simp: checked_plan_slice_def res_simps)

lemma aggregate_unchanged:
  "aggregate cur = None \<Longrightarrow> cur\<lparr>emitted := k, aggregate := None\<rparr> = cur\<lparr>emitted := k\<rparr>"
  by (cases cur) simp

lemma table_in_progress:
  assumes run: "st \<noteq> STATE_CANCELLED" and cur: "at_position PhaseEquivalents i d cur"
    and "results prep c composite_columns st (\<lambda>cur. continue_with (aggregate_step prep c st agg cur)) cur t"
  shows "yields prep c composite_columns st (cur\<lparr>aggregate := Some agg\<rparr>) t"
proof (rule idle_iteration [OF run])
  show "pending (cur\<lparr>aggregate := Some agg\<rparr>) = None" using cur by (simp add: at_position_def)
  show "results prep c composite_columns st (phase_iteration prep c composite_columns st) (cur\<lparr>aggregate := Some agg\<rparr>) t"
    using assms(3) cur
    by (simp add: results_def phase_iteration_def equivalents_phase_def table_aggregate_phase_def at_position_def
        emitted_inward aggregate_unchanged)
qed

lemma next_restriction_spec:
  assumes "fits (start + length restrictions)" and "st \<noteq> STATE_CANCELLED"
  shows "m = length restrictions \<Longrightarrow> next_restriction st start restrictions m = Inr (m, None)"
    and "m < length restrictions \<Longrightarrow> next_restriction st start restrictions m =
      (case restrictions ! m of None \<Rightarrow> next_restriction st start restrictions (Suc m) | Some x \<Rightarrow> Inr (Suc m, Some x))"
  using assms by (subst next_restriction.simps; simp add: checked_add_def fits_def)+

lemma aggregate_step_spec:
  assumes run: "st \<noteq> STATE_CANCELLED" and plan: "aggregate_emission_at prep plan_index = Inr plan"
    and named: "emission_named_nodes prep plan = Inr named_nodes"
  shows "n < length named_nodes \<Longrightarrow> aggregate_step prep c st (table_cursor source plan_index n m) cur =
      bnd (named_class_iri c (named_nodes ! n) (prep_iri_limit prep)) (\<lambda>destination.
      Inr (cur\<lparr>pending := Some (PendingTaxonomy source destination 0 (bidirectional (prep_options prep))),
               aggregate := Some (table_cursor source plan_index (Suc n) m)\<rparr>))"
    and "only_taxonomy (prep_options prep) \<Longrightarrow>
      aggregate_step prep c st (table_cursor source plan_index (length named_nodes) m) cur = Inr cur"
    and "\<not> only_taxonomy (prep_options prep) \<Longrightarrow> emission_restrictions prep plan = Inl e \<Longrightarrow>
      aggregate_step prep c st (table_cursor source plan_index (length named_nodes) m) cur = Inl e"
    and "\<not> only_taxonomy (prep_options prep) \<Longrightarrow> emission_restrictions prep plan = Inr restrictions \<Longrightarrow>
      aggregate_step prep c st (table_cursor source plan_index (length named_nodes) m) cur =
      bnd (next_restriction st (range_start (restriction_range plan)) restrictions m) (\<lambda>(m', found). case found of
          None \<Rightarrow> Inr cur
        | Some coordinate \<Rightarrow>
            bnd (planned_restriction_parts c coordinate (prep_iri_limit prep)) (\<lambda>(relation, destination).
            Inr (cur\<lparr>pending := Some (PendingRole source relation destination 0),
              aggregate := Some (table_cursor source plan_index (length named_nodes) m')\<rparr>)))"
proof -
  have f: "fits (range_start (named_range plan) + length named_nodes)"
    using named by (auto simp: emission_named_nodes_def dest: checked_plan_slice_fits)
  show "n < length named_nodes \<Longrightarrow> aggregate_step prep c st (table_cursor source plan_index n m) cur =
      bnd (named_class_iri c (named_nodes ! n) (prep_iri_limit prep)) (\<lambda>destination.
      Inr (cur\<lparr>pending := Some (PendingTaxonomy source destination 0 (bidirectional (prep_options prep))),
               aggregate := Some (table_cursor source plan_index (Suc n) m)\<rparr>))"
    using f run plan named by (simp add: aggregate_step_def checked_add_def fits_def)
qed (use run plan named in \<open>simp_all add: aggregate_step_def cong: option.case_cong\<close>)

lemma table_restrictions_results:
  assumes run: "st \<noteq> STATE_CANCELLED" and roles: "roles_fit (prep_role_state prep)"
    and plan: "aggregate_emission_at prep plan_index = Inr plan"
    and named: "emission_named_nodes prep plan = Inr named_nodes"
    and only: "\<not> only_taxonomy (prep_options prep)"
    and restrictions: "emission_restrictions prep plan = Inr restrictions"
    and cur: "at_position PhaseEquivalents i d cur"
    and y: "yields prep c composite_columns st cur t" and m: "m \<le> length restrictions"
  shows "results prep c composite_columns st
      (\<lambda>cur. continue_with (aggregate_step prep c st (table_cursor source plan_index (length named_nodes) m) cur)) cur
      (followed_by (joined (map (restriction_operand_edges prep c source) (drop m restrictions))) t)"
  using m
proof (induction rule: inc_induct)
  note spec = aggregate_step_spec(4) [OF run plan named only restrictions]
  have "fits (range_start (restriction_range plan) + length restrictions)"
    using restrictions by (auto simp: emission_restrictions_def dest: checked_plan_slice_fits)
  note scan = next_restriction_spec [OF this run]
  case base
  show ?case
    by (rule results_Continue [where g = "\<lambda>cur. cur"]) (use y in \<open>simp_all add: spec scan continue_with_def\<close>)
next
  note spec = aggregate_step_spec(4) [OF run plan named only restrictions]
  have "fits (range_start (restriction_range plan) + length restrictions)"
    using restrictions by (auto simp: emission_restrictions_def dest: checked_plan_slice_fits)
  note scan = next_restriction_spec [OF this run]
  case (step m)
  let ?rest = "followed_by (joined (map (restriction_operand_edges prep c source) (drop (Suc m) restrictions))) t"
  have t: "followed_by (joined (map (restriction_operand_edges prep c source) (drop m restrictions))) t =
      followed_by (restriction_operand_edges prep c source (restrictions ! m)) ?rest"
    by (simp add: Cons_nth_drop_Suc [symmetric, OF step(2)] followed_by_assoc)
  show ?case
  proof (cases "restrictions ! m")
    case None
    then have "restriction_operand_edges prep c source (restrictions ! m) = no_edges"
      by (simp add: restriction_operand_edges_def)
    with None step.IH step(2) show ?thesis unfolding t by (simp add: spec scan(2))
  next
    case (Some coordinate)
    show ?thesis
    proof (cases "planned_restriction_parts c coordinate (prep_iri_limit prep)")
      case (Inl e)
      with Some step(2) show ?thesis unfolding t
        by (simp add: restriction_operand_edges_def) (rule results_failed, simp add: spec scan(2) continue_with_def)
    next
      case (Inr parts)
      obtain relation destination where parts: "parts = (relation, destination)" by fastforce
      let ?next = "cur\<lparr>aggregate := Some (table_cursor source plan_index (length named_nodes) (Suc m))\<rparr>"
      have p: "?next\<lparr>pending := None\<rparr> = ?next" using cur by (simp add: at_position_def)
      have "yields prep c composite_columns st (?next\<lparr>pending := Some (PendingRole source relation destination 0)\<rparr>)
          (followed_by (role_edges (prep_role_state prep) source relation destination, None) ?rest)"
        by (rule yields_role [OF run roles]) (use table_in_progress [OF run cur step.IH] in \<open>simp add: p\<close>)
      then have "results prep c composite_columns st (\<lambda>cur. continue_with (aggregate_step prep c st
          (table_cursor source plan_index (length named_nodes) m) cur)) cur
          (followed_by (role_edges (prep_role_state prep) source relation destination, None) ?rest)"
        by (rule results_Continue [rotated 2, where g = "\<lambda>cur. cur\<lparr>aggregate := Some (table_cursor source plan_index
              (length named_nodes) (Suc m)), pending := Some (PendingRole source relation destination 0)\<rparr>"])
          (use Some Inr parts step(2) in \<open>simp_all add: spec scan(2) continue_with_def\<close>)
      then show ?thesis unfolding t by (simp add: restriction_operand_edges_def Some Inr parts)
    qed
  qed
qed

lemma table_named_results:
  assumes run: "st \<noteq> STATE_CANCELLED" and roles: "roles_fit (prep_role_state prep)"
    and plan: "aggregate_emission_at prep plan_index = Inr plan"
    and named: "emission_named_nodes prep plan = Inr named_nodes"
    and cur: "at_position PhaseEquivalents i d cur"
    and last: "results prep c composite_columns st
      (\<lambda>cur. continue_with (aggregate_step prep c st (table_cursor source plan_index (length named_nodes) 0) cur)) cur t"
    and n: "n \<le> length named_nodes"
  shows "results prep c composite_columns st
      (\<lambda>cur. continue_with (aggregate_step prep c st (table_cursor source plan_index n 0) cur)) cur
      (followed_by (joined (map (named_operand_edges prep c source) (drop n named_nodes))) t)"
  using n
proof (induction rule: inc_induct)
  case base
  show ?case using last by simp
next
  note spec = aggregate_step_spec(1) [OF run plan named]
  case (step n)
  let ?rest = "followed_by (joined (map (named_operand_edges prep c source) (drop (Suc n) named_nodes))) t"
  have t: "followed_by (joined (map (named_operand_edges prep c source) (drop n named_nodes))) t =
      followed_by (named_operand_edges prep c source (named_nodes ! n)) ?rest"
    by (simp add: Cons_nth_drop_Suc [symmetric, OF step(2)] followed_by_assoc)
  show ?case
  proof (cases "named_class_iri c (named_nodes ! n) (prep_iri_limit prep)")
    case (Inl e)
    then have "named_operand_edges prep c source (named_nodes ! n) = ([], Some e)"
      by (simp add: named_operand_edges_def)
    then show ?thesis unfolding t
      by simp (rule results_failed, use Inl step(2) in \<open>simp add: spec continue_with_def\<close>)
  next
    case (Inr destination)
    let ?next = "cur\<lparr>aggregate := Some (table_cursor source plan_index (Suc n) 0)\<rparr>"
    have p: "?next\<lparr>pending := None\<rparr> = ?next" using cur by (simp add: at_position_def)
    have "yields prep c composite_columns st
        (?next\<lparr>pending := Some (PendingTaxonomy source destination 0 (bidirectional (prep_options prep)))\<rparr>)
        (followed_by (taxonomy_edges (prep_options prep) source destination, None) ?rest)"
      by (rule yields_taxonomy [OF run roles]) (use table_in_progress [OF run cur step.IH] in \<open>simp add: p\<close>)
    then have "results prep c composite_columns st (\<lambda>cur. continue_with (aggregate_step prep c st
        (table_cursor source plan_index n 0) cur)) cur
        (followed_by (taxonomy_edges (prep_options prep) source destination, None) ?rest)"
      by (rule results_Continue [rotated 2, where g = "\<lambda>cur. cur\<lparr>aggregate := Some (table_cursor source plan_index (Suc n) 0),
            pending := Some (PendingTaxonomy source destination 0 (bidirectional (prep_options prep)))\<rparr>"])
        (use Inr step(2) in \<open>simp_all add: spec continue_with_def\<close>)
    then show ?thesis unfolding t by (simp add: named_operand_edges_def Inr)
  qed
qed

lemma table_aggregate_results:
  assumes run: "st \<noteq> STATE_CANCELLED" and roles: "roles_fit (prep_role_state prep)"
    and cur: "at_position PhaseEquivalents i d cur" and y: "yields prep c composite_columns st cur t"
  shows "results prep c composite_columns st
      (\<lambda>cur. continue_with (aggregate_step prep c st (table_cursor source plan_index 0 0) cur)) cur
      (followed_by (aggregate_edges prep c source plan_index) t)"
proof (cases "bnd (aggregate_emission_at prep plan_index) (\<lambda>plan. map_res (Pair plan) (emission_named_nodes prep plan))")
  case (Inl e)
  then show ?thesis
    by (simp add: aggregate_edges_def) (rule results_failed, auto simp: bnd_eq_Inl aggregate_step_def continue_with_def map_res_def)
next
  case (Inr found)
  then obtain plan named_nodes where plan: "aggregate_emission_at prep plan_index = Inr plan"
    and named: "emission_named_nodes prep plan = Inr named_nodes" and found: "found = (plan, named_nodes)"
    by (auto simp: res_simps)
  let ?step = "\<lambda>n cur. continue_with (aggregate_step prep c st (table_cursor source plan_index n 0) cur)"
  let ?tail = "if only_taxonomy (prep_options prep) then no_edges else
             case emission_restrictions prep plan of
               Inl e \<Rightarrow> ([], Some e)
             | Inr restrictions \<Rightarrow> joined (map (restriction_operand_edges prep c source) restrictions)"
  note spec = aggregate_step_spec [OF run plan named]
  have "results prep c composite_columns st (?step (length named_nodes)) cur (followed_by ?tail t)"
  proof (cases "only_taxonomy (prep_options prep)")
    case True
    then show ?thesis
      by simp (rule results_Continue [where g = "\<lambda>cur. cur"], use y in \<open>simp_all add: spec continue_with_def\<close>)
  next
    case False
    show ?thesis
    proof (cases "emission_restrictions prep plan")
      case (Inl e)
      with False show ?thesis by simp (rule results_failed, simp add: spec continue_with_def)
    next
      case (Inr restrictions)
      from table_restrictions_results [OF run roles plan named False Inr cur y, of 0] False Inr
      show ?thesis by simp
    qed
  qed
  from table_named_results [OF run roles plan named cur this, of 0] Inr found
  show ?thesis by (simp add: aggregate_edges_def followed_by_assoc)
qed

lemma equivalent_root_step:
  assumes run: "st \<noteq> STATE_CANCELLED" and roles: "roles_fit (prep_role_state prep)"
    and cur: "at_position PhaseEquivalents i d cur" and y: "yields prep c composite_columns st cur t"
  shows "results prep c composite_columns st (equivalent_root prep c shape) cur (followed_by (equivalent_edges prep c shape) t)"
proof -
  note res = shape_results [OF run roles at_position_idle [OF cur] y]
  show ?thesis
  proof (cases shape)
    case None
    show ?thesis by (simp add: None equivalent_root_def [abs_def] equivalent_edges_def res)
  next
    case (Some shape')
    show ?thesis
    proof (cases shape')
      case (EmitEquivalentPair a b)
      show ?thesis
        by (cases "named_class_iri c a (prep_iri_limit prep)"; cases "named_class_iri c b (prep_iri_limit prep)")
          (simp_all add: Some EmitEquivalentPair equivalent_root_def [abs_def] equivalent_edges_def res del: set_taxonomy_spec)
    next
      case (EmitEquivalentAggregate a plan_index)
      show ?thesis
      proof (cases "named_class_iri c a (prep_iri_limit prep)")
        case (Inl e)
        show ?thesis by (simp add: Some EmitEquivalentAggregate equivalent_root_def [abs_def] equivalent_edges_def Inl res)
      next
        case (Inr source)
        have "results prep c composite_columns st (equivalent_root prep c shape) cur
            (followed_by (aggregate_edges prep c source plan_index) t)"
          by (rule results_Continue [where g = "\<lambda>cur. cur\<lparr>aggregate := Some (table_cursor source plan_index 0 0)\<rparr>"])
            (use table_in_progress [OF run cur table_aggregate_results [OF run roles cur y]] in
              \<open>simp_all add: Some EmitEquivalentAggregate equivalent_root_def Inr clone_text_def table_cursor_def\<close>)
        then show ?thesis by (simp add: Some EmitEquivalentAggregate equivalent_edges_def Inr)
      qed
    qed (simp_all add: Some equivalent_root_def [abs_def] equivalent_edges_def res)
  qed
qed

lemma equivalent_delta_step:
  assumes run: "st \<noteq> STATE_CANCELLED" and roles: "roles_fit (prep_role_state prep)"
    and place: "deltas_in_place prep c" and j: "j < length (deltas_at prep PhaseEquivalents i)"
    and cur: "at_position PhaseEquivalents i (delta_bound prep PhaseEquivalents i + j) cur"
    and t: "from_position prep c composite_columns st PhaseEquivalents i (Suc (delta_bound prep PhaseEquivalents i + j)) t"
  shows "yields prep c composite_columns st cur (followed_by (delta_edges (prep_role_state prep) (prep_options prep)
           (delta_projection (deltas_at prep PhaseEquivalents i ! j)), None) t)"
proof -
  let ?d = "delta_bound prep PhaseEquivalents i + j"
  have body: "phase_iteration prep c composite_columns st (cur\<lparr>emitted := k\<rparr>) =
      with_delta prep (cur\<lparr>emitted := k\<rparr>) (equivalent_delta prep (cur\<lparr>emitted := k\<rparr>))
        (scan_root prep c st HandleEquivalentClasses PhaseAnnotations (equivalent_root prep c) (cur\<lparr>emitted := k\<rparr>))" for k
    using cur by (simp add: phase_iteration_def equivalents_phase_def table_aggregate_phase_def equivalents_scan_def at_position_def)
  note step = delta_step [OF run place j cur body]
  note reached = delta_reached [OF place j]
  note res = delta_results [OF run roles place reached(1) cur t]
  show ?thesis
  proof (cases "delta_projection (deltas_at prep PhaseEquivalents i ! j)")
    case (DeltaEquivalentPair s d)
    show ?thesis unfolding DeltaEquivalentPair delta_edges.simps
      by (rule step [OF _ res(2)]) (simp add: DeltaEquivalentPair equivalent_delta_def)
  next
    case (DeltaEquivalentAggregate source named_destinations restrictions ignored)
    have delta: "get_at (prep_overlay_deltas prep) ?d = Some (deltas_at prep PhaseEquivalents i ! j)"
      using reached by simp
    from DeltaEquivalentAggregate delta_at(2) [OF place j]
    have fit: "fits (length named_destinations)" "fits (length restrictions)" by simp_all
    let ?next = "cur\<lparr>overlay_delta_index := Suc ?d\<rparr>"
    have next_at: "at_position PhaseEquivalents i (Suc ?d) ?next" by (rule advanced_position [OF cur])
    have "yields prep c composite_columns st (owned_in_progress ?d 0 0 ?next)
        (followed_by (owned_operand_edges prep source named_destinations restrictions, None) t)"
      using owned_named_yield [OF run roles delta DeltaEquivalentAggregate fit next_at from_positionD [OF t next_at], of 0] by simp
    then have "results prep c composite_columns st (\<lambda>cur. continue_with (map_res (\<lambda>cur'. cur'\<lparr>owned_aggregate :=
           Some \<lparr> owned_delta_index = ?d, owned_named_index = 0, owned_restriction_index = 0 \<rparr>\<rparr>) (advance_delta cur))) cur
        (followed_by (owned_operand_edges prep source named_destinations restrictions, None) t)"
      by (rule results_Continue [rotated 2, where g = "\<lambda>cur. owned_in_progress ?d 0 0 (cur\<lparr>overlay_delta_index := Suc ?d\<rparr>)"])
        (use cur advance_delta_spec [OF place reached(1)] in \<open>simp_all add: at_position_def continue_with_def owned_in_progress_def\<close>)
    then show ?thesis unfolding DeltaEquivalentAggregate delta_edges.simps owned_operand_edges_def
      by (rule step [rotated]) (simp add: DeltaEquivalentAggregate equivalent_delta_def)
  next
    case DeltaIgnoredEquivalent
    show ?thesis unfolding DeltaIgnoredEquivalent delta_edges.simps followed_by_simps
      by (rule step [OF _ res(1)]) (simp add: DeltaIgnoredEquivalent equivalent_delta_def skip_delta_def)
  qed (use delta_at [OF place j] in \<open>auto\<close>)
qed

lemma equivalents_from_position:
  assumes run: "st \<noteq> STATE_CANCELLED" and roles: "roles_fit (prep_role_state prep)" and place: "deltas_in_place prep c"
    and t: "from_position prep c composite_columns st PhaseAnnotations 0 (delta_bound prep PhaseEquivalents (Suc (root_count c))) t"
  shows "from_position prep c composite_columns st PhaseEquivalents 0 (delta_bound prep PhaseEquivalents 0)
    (followed_by (phase_edges prep c PhaseEquivalents HandleEquivalentClasses (equivalent_edges prep c)) t)"
  by (rule scanning_phase [OF run place _ equivalent_delta_step [OF run roles place] equivalent_root_step [OF run roles] t])
    (simp add: phase_iteration_def equivalents_phase_def table_aggregate_phase_def equivalents_scan_def at_position_def)

subsection \<open>Annotations\<close>

lemma results_edge:
  assumes "yields prep c composite_columns st cur t"
  shows "results prep c composite_columns st
      (\<lambda>cur. bnd found (\<lambda>r. case r of None \<Rightarrow> Inr (Continue cur) | Some x \<Rightarrow> bnd (edge x) (\<lambda>e. publish e cur))) cur
      (followed_by (lifted (bnd found (\<lambda>r. case r of None \<Rightarrow> Inr [] | Some x \<Rightarrow> map_res (\<lambda>e. [e]) (edge x)))) t)"
proof (cases found)
  case (Inl e)
  then show ?thesis by simp (rule results_failed, simp)
next
  case (Inr r)
  show ?thesis
  proof (cases r)
    case None
    show ?thesis by (simp add: Inr None) (rule results_Continue [where g = "\<lambda>cur. cur"], use assms in simp_all)
  next
    case (Some x)
    show ?thesis
    proof (cases "edge x")
      case (Inl e)
      show ?thesis by (simp add: Inr Some Inl) (rule results_failed, simp)
    next
      case e: (Inr e)
      show ?thesis by (simp add: Inr Some e) (rule results_Publish [where g = "\<lambda>cur. cur"], use assms in simp_all)
    qed
  qed
qed

lemma listed_from_position:
  assumes step: "\<And>i cur t. i < length xs \<Longrightarrow> at_position p i d cur \<Longrightarrow>
      from_position prep c composite_columns st p (Suc i) d t \<Longrightarrow>
      yields prep c composite_columns st cur (followed_by (f (xs ! i)) t)"
    and finish: "from_position prep c composite_columns st p (length xs) d t"
  shows "from_position prep c composite_columns st p 0 d (followed_by (joined (map f xs)) t)"
proof -
  have "from_position prep c composite_columns st p i d (followed_by (joined (map f (drop i xs))) t)"
    if "i \<le> length xs" for i
    using that
  proof (induction rule: inc_induct)
    case base
    with finish show ?case by simp
  next
    case (step i)
    from assms(1) [OF step(2) _ step.IH] show ?case
      by (simp add: from_position_def Cons_nth_drop_Suc [symmetric, OF step(2)] followed_by_assoc)
  qed
  from this [of 0] show ?thesis by simp
qed

lemma leave_annotations_from_position:
  assumes run: "st \<noteq> STATE_CANCELLED"
    and body: "\<And>cur. at_position PhaseAnnotations i d cur \<Longrightarrow>
      annotations_phase prep c composite_columns st cur = leave_annotations cur"
    and t: "from_position prep c composite_columns st PhaseClassAssertions 0 d t"
  shows "from_position prep c composite_columns st PhaseAnnotations i d t"
  unfolding from_position_def
proof (intro allI impI)
  fix cur assume cur: "at_position PhaseAnnotations i d cur"
  have "results prep c composite_columns st (phase_iteration prep c composite_columns st) cur t"
    by (rule results_Continue [where g = "\<lambda>cur. cur\<lparr>scan_index := 0, cursor_phase := PhaseClassAssertions\<rparr>"])
      (use cur body t in \<open>simp_all add: phase_iteration_def leave_annotations_def at_position_def from_position_def\<close>)
  with cur show "yields prep c composite_columns st cur t" by (intro idle_iteration [OF run at_position_idle])
qed

lemma annotation_item_yields:
  assumes run: "st \<noteq> STATE_CANCELLED" and cur: "at_position PhaseAnnotations i d cur"
    and body: "\<And>k. annotations_phase prep c composite_columns st (cur\<lparr>emitted := k\<rparr>) =
      f (cur\<lparr>scan_index := Suc i, emitted := k\<rparr>)"
    and res: "results prep c composite_columns st f (cur\<lparr>scan_index := Suc i\<rparr>) t"
  shows "yields prep c composite_columns st cur t"
proof (rule idle_iteration [OF run at_position_idle [OF cur]])
  show "results prep c composite_columns st (phase_iteration prep c composite_columns st) cur t"
    by (rule results_after [where u = "\<lambda>cur. cur\<lparr>scan_index := Suc i\<rparr>", OF res])
      (use cur body in \<open>simp add: phase_iteration_def at_position_def\<close>)
qed

lemma next_position:
  "at_position p i d cur \<Longrightarrow> from_position prep c composite_columns st p (Suc i) d t \<Longrightarrow>
   yields prep c composite_columns st (cur\<lparr>scan_index := Suc i\<rparr>) t"
  by (simp add: from_position_def at_position_def)

lemma leave_annotations_scan [simp]: "leave_annotations (cur\<lparr>scan_index := i\<rparr>) = leave_annotations cur"
  by (simp add: leave_annotations_def)

lemma annotation_root_yields:
  assumes run: "st \<noteq> STATE_CANCELLED" and literals: "include_literals (prep_options prep)"
    and unselected: "prep_selected_annotation_nodes prep = None"
    and i: "i < root_count c" and cur: "at_position PhaseAnnotations i d cur"
    and t: "from_position prep c None st PhaseAnnotations (Suc i) d t"
  shows "yields prep c None st cur (followed_by (annotation_root_edges prep c st i) t)"
proof -
  note y = next_position [OF cur t]
  have body: "annotations_phase prep c None st (cur\<lparr>emitted := k\<rparr>) =
      bnd (next_annotation_root prep c st i) (\<lambda>(index, found). case found of
          None \<Rightarrow> leave_annotations (cur\<lparr>emitted := k\<rparr>)
        | Some node_id \<Rightarrow> emit_annotation prep c st node_id (cur\<lparr>emitted := k, scan_index := index\<rparr>))" for k
    using cur literals unselected by (simp add: annotations_phase_def at_position_def)
  have scan: "next_annotation_root prep c st i =
      bnd (bnd (root_is_selected c i) (\<lambda>chosen. if \<not> chosen then Inr None else
           bnd (root_id c i) (\<lambda>candidate.
           map_res (\<lambda>rule. if handler rule = HandleAnnotationAssertion then Some candidate else None) (prep_rule_at prep i))))
        (\<lambda>r. case r of None \<Rightarrow> next_annotation_root prep c st (Suc i) | Some node_id \<Rightarrow> Inr (Suc i, Some node_id))"
    using i run by (subst next_annotation_root.simps)
      (simp add: bnd_assoc map_res_def if_distrib [of "\<lambda>x. bnd x _"] cong: if_cong bnd_cong,
       intro bnd_cong if_cong refl, simp)
  show ?thesis
  proof (cases "bnd (root_is_selected c i) (\<lambda>chosen. if \<not> chosen then Inr None else
           bnd (root_id c i) (\<lambda>candidate.
           map_res (\<lambda>rule. if handler rule = HandleAnnotationAssertion then Some candidate else None) (prep_rule_at prep i)))")
    case (Inl e)
    show ?thesis
      by (simp add: annotation_root_edges_def Inl)
        (rule idle_iteration [OF run at_position_idle [OF cur] results_failed],
         use cur in \<open>simp add: phase_iteration_def at_position_def body scan Inl\<close>)
  next
    case (Inr r)
    show ?thesis
    proof (cases r)
      case None
      have "annotations_phase prep c None st (cur\<lparr>emitted := k\<rparr>) =
          annotations_phase prep c None st (cur\<lparr>scan_index := Suc i, emitted := k\<rparr>)" for k
        using literals unselected
        by (simp add: body scan Inr None) (simp add: annotations_phase_def emitted_inward cong: option.case_cong)
      then have "yields prep c None st cur t"
        using cur run by (intro yields_same_iteration [OF y]) (simp add: cursor_iteration_def phase_iteration_def at_position_def)
      then show ?thesis by (simp add: annotation_root_edges_def Inr None)
    next
      case (Some node_id)
      show ?thesis
        unfolding annotation_root_edges_def
        by (simp add: Inr Some annotation_node_edges_def)
          (rule annotation_item_yields [OF run cur _ results_edge [OF y]], simp add: body scan Inr Some emit_annotation_def emitted_inward cong: option.case_cong)
    qed
  qed
qed

lemma annotations_from_position:
  assumes run: "st \<noteq> STATE_CANCELLED" and t: "from_position prep c composite_columns st PhaseClassAssertions 0 d t"
  shows "from_position prep c composite_columns st PhaseAnnotations 0 d
    (followed_by (annotation_phase_edges prep c composite_columns st) t)"
proof (cases "include_literals (prep_options prep)")
  case False
  have "from_position prep c composite_columns st PhaseAnnotations 0 d t"
    by (rule leave_annotations_from_position [OF run _ t]) (use False in \<open>simp add: annotations_phase_def\<close>)
  with False show ?thesis by (simp add: annotation_phase_edges_def)
next
  case literals: True
  show ?thesis
  proof (cases composite_columns)
    case (Some tables)
    let ?roots = "prep_composite_annotation_roots prep"
    have "from_position prep c composite_columns st PhaseAnnotations 0 d
        (followed_by (joined (map (composite_annotation_edges prep tables st) ?roots)) t)"
    proof (rule listed_from_position)
      show "from_position prep c composite_columns st PhaseAnnotations (length ?roots) d t"
        by (rule leave_annotations_from_position [OF run _ t]) (use literals Some in \<open>simp add: annotations_phase_def at_position_def\<close>)
      fix i cur t assume i: "i < length ?roots" and cur: "at_position PhaseAnnotations i d cur"
        and t: "from_position prep c composite_columns st PhaseAnnotations (Suc i) d t"
      show "yields prep c composite_columns st cur (followed_by (composite_annotation_edges prep tables st (?roots ! i)) t)"
        unfolding composite_annotation_edges_def
        by (rule annotation_item_yields [OF run cur _ results_edge [OF next_position [OF cur t]]])
          (use i cur literals Some in \<open>simp add: annotations_phase_def at_position_def load_def Let_def emitted_inward
            cong: option.case_cong\<close>)
    qed
    with literals Some show ?thesis by (simp add: annotation_phase_edges_def)
  next
    case None
    show ?thesis
    proof (cases "prep_selected_annotation_nodes prep")
      case (Some chosen)
      have "from_position prep c composite_columns st PhaseAnnotations 0 d
          (followed_by (joined (map (annotation_node_edges prep c st) chosen)) t)"
      proof (rule listed_from_position)
        show "from_position prep c composite_columns st PhaseAnnotations (length chosen) d t"
          by (rule leave_annotations_from_position [OF run _ t])
            (use literals None Some in \<open>simp add: annotations_phase_def at_position_def\<close>)
        fix i cur t assume i: "i < length chosen" and cur: "at_position PhaseAnnotations i d cur"
          and t: "from_position prep c composite_columns st PhaseAnnotations (Suc i) d t"
        show "yields prep c composite_columns st cur (followed_by (annotation_node_edges prep c st (chosen ! i)) t)"
          unfolding annotation_node_edges_def
          by (rule annotation_item_yields [OF run cur _ results_edge [OF next_position [OF cur t]]])
            (use i cur literals None Some in \<open>simp add: annotations_phase_def at_position_def load_def Let_def
              emit_annotation_def emitted_inward cong: option.case_cong\<close>)
      qed
      with literals None Some show ?thesis by (simp add: annotation_phase_edges_def)
    next
      case unselected: None
      have "from_position prep c None st PhaseAnnotations 0 d
          (followed_by (joined (map (annotation_root_edges prep c st) [0 ..< root_count c])) t)"
      proof (rule listed_from_position)
        show "from_position prep c None st PhaseAnnotations (length [0 ..< root_count c]) d t"
          by (rule leave_annotations_from_position [OF run _ t [unfolded None]])
            (use literals unselected in \<open>simp add: annotations_phase_def at_position_def next_annotation_root.simps\<close>)
      qed (use annotation_root_yields [OF run literals unselected] in simp)
      with literals None unselected show ?thesis by (simp add: annotation_phase_edges_def)
    qed
  qed
qed

subsection \<open>Assertions\<close>

lemma class_assertion_root_step:
  assumes run: "st \<noteq> STATE_CANCELLED" and roles: "roles_fit (prep_role_state prep)"
    and idle: "pending cur = None" and y: "yields prep c composite_columns st cur t"
  shows "results prep c composite_columns st (class_assertion_root prep c shape) cur
    (followed_by (class_assertion_edges prep c shape) t)"
proof -
  note res = shape_results [OF run roles idle y]
  show ?thesis
  proof (cases shape)
    case None
    show ?thesis by (simp add: None class_assertion_root_def [abs_def] class_assertion_edges_def res)
  next
    case (Some shape')
    show ?thesis
    proof (cases shape')
      case (EmitClassAssertionEdge a b)
      show ?thesis
        by (cases "named_individual_iri c a (prep_iri_limit prep)"; cases "named_class_iri c b (prep_iri_limit prep)")
          (simp_all add: Some EmitClassAssertionEdge class_assertion_root_def [abs_def] class_assertion_edges_def res)
    qed (simp_all add: Some class_assertion_root_def [abs_def] class_assertion_edges_def res)
  qed
qed

lemma object_assertion_root_step:
  assumes run: "st \<noteq> STATE_CANCELLED" and roles: "roles_fit (prep_role_state prep)"
    and idle: "pending cur = None" and y: "yields prep c composite_columns st cur t"
  shows "results prep c composite_columns st (object_assertion_root prep c shape) cur
    (followed_by (object_assertion_edges prep c shape) t)"
proof -
  note res = shape_results [OF run roles idle y]
  show ?thesis
  proof (cases shape)
    case None
    show ?thesis by (simp add: None object_assertion_root_def [abs_def] object_assertion_edges_def res)
  next
    case (Some shape')
    show ?thesis
    proof (cases shape')
      case (EmitObjectPropertyAssertion r a b)
      let ?render = "\<lambda>x. render_planned_individual c x (prep_anonymous_ids prep) (prep_iri_limit prep)"
      show ?thesis
        by (cases "named_object_property_iri c r (prep_iri_limit prep)"; cases "?render a"; cases "?render b")
          (simp_all add: Some EmitObjectPropertyAssertion object_assertion_root_def [abs_def] object_assertion_edges_def
            clone_text_def res)
    qed (simp_all add: Some object_assertion_root_def [abs_def] object_assertion_edges_def res)
  qed
qed

lemma class_assertion_delta_step:
  assumes run: "st \<noteq> STATE_CANCELLED" and roles: "roles_fit (prep_role_state prep)"
    and place: "deltas_in_place prep c" and j: "j < length (deltas_at prep PhaseClassAssertions i)"
    and cur: "at_position PhaseClassAssertions i (delta_bound prep PhaseClassAssertions i + j) cur"
    and t: "from_position prep c composite_columns st PhaseClassAssertions i (Suc (delta_bound prep PhaseClassAssertions i + j)) t"
  shows "yields prep c composite_columns st cur (followed_by (delta_edges (prep_role_state prep) (prep_options prep)
           (delta_projection (deltas_at prep PhaseClassAssertions i ! j)), None) t)"
proof -
  have body: "phase_iteration prep c composite_columns st (cur\<lparr>emitted := k\<rparr>) =
      with_delta prep (cur\<lparr>emitted := k\<rparr>) (class_assertion_delta prep (cur\<lparr>emitted := k\<rparr>))
        (scan_root prep c st HandleClassAssertion PhaseObjectAssertions (class_assertion_root prep c) (cur\<lparr>emitted := k\<rparr>))" for k
    using cur by (simp add: phase_iteration_def class_assertions_phase_def at_position_def)
  note step = delta_step [OF run place j cur body]
  note res = delta_results [OF run roles place delta_reached(1) [OF place j] cur t]
  show ?thesis
  proof (cases "delta_projection (deltas_at prep PhaseClassAssertions i ! j)")
    case (DeltaClassAssertion a b)
    show ?thesis unfolding DeltaClassAssertion delta_edges.simps
      by (rule step [OF _ res(4)]) (simp add: DeltaClassAssertion class_assertion_delta_def)
  next
    case (DeltaIgnoredClassAssertion n)
    show ?thesis unfolding DeltaIgnoredClassAssertion delta_edges.simps followed_by_simps
      by (rule step [OF _ res(1)]) (simp add: DeltaIgnoredClassAssertion class_assertion_delta_def skip_delta_def)
  qed (use delta_at [OF place j] in \<open>auto\<close>)
qed

lemma object_assertion_delta_step:
  assumes run: "st \<noteq> STATE_CANCELLED" and roles: "roles_fit (prep_role_state prep)"
    and place: "deltas_in_place prep c" and j: "j < length (deltas_at prep PhaseObjectAssertions i)"
    and cur: "at_position PhaseObjectAssertions i (delta_bound prep PhaseObjectAssertions i + j) cur"
    and t: "from_position prep c composite_columns st PhaseObjectAssertions i (Suc (delta_bound prep PhaseObjectAssertions i + j)) t"
  shows "yields prep c composite_columns st cur (followed_by (delta_edges (prep_role_state prep) (prep_options prep)
           (delta_projection (deltas_at prep PhaseObjectAssertions i ! j)), None) t)"
proof -
  let ?projection = "delta_projection (deltas_at prep PhaseObjectAssertions i ! j)"
  have body: "phase_iteration prep c composite_columns st (cur\<lparr>emitted := k\<rparr>) =
      with_delta prep (cur\<lparr>emitted := k\<rparr>) (object_assertion_delta prep (cur\<lparr>emitted := k\<rparr>))
        (scan_root prep c st HandleObjectPropertyAssertion PhaseDomainRanges (object_assertion_root prep c) (cur\<lparr>emitted := k\<rparr>))" for k
    using cur by (simp add: phase_iteration_def object_assertions_phase_def at_position_def)
  note step = delta_step [OF run place j cur body]
  note res = delta_results [OF run roles place delta_reached(1) [OF place j] cur t]
  show ?thesis
  proof (cases "\<exists>s r d n. ?projection = DeltaObjectPropertyAssertion s r d n")
    case True
    then obtain s r d n where projection: "?projection = DeltaObjectPropertyAssertion s r d n" by blast
    show ?thesis unfolding projection delta_edges.simps
      by (rule step [OF _ res(4)]) (simp add: projection object_assertion_delta_def)
  next
    case False
    then have quiet: "delta_edges (prep_role_state prep) (prep_options prep) ?projection = []"
      and skip: "object_assertion_delta prep cur' ?projection d = skip_delta cur'" for cur' d
      using delta_at(1) [OF place j] by (cases ?projection; simp add: object_assertion_delta_def)+
    show ?thesis unfolding quiet followed_by_simps
      by (rule step [OF _ res(1)]) (simp add: skip, simp add: skip_delta_def)
  qed
qed

lemma class_assertions_from_position:
  assumes run: "st \<noteq> STATE_CANCELLED" and roles: "roles_fit (prep_role_state prep)" and place: "deltas_in_place prep c"
    and t: "from_position prep c composite_columns st PhaseObjectAssertions 0
      (delta_bound prep PhaseClassAssertions (Suc (root_count c))) t"
  shows "from_position prep c composite_columns st PhaseClassAssertions 0 (delta_bound prep PhaseClassAssertions 0)
    (followed_by (phase_edges prep c PhaseClassAssertions HandleClassAssertion (class_assertion_edges prep c)) t)"
  by (rule scanning_phase [OF run place _ class_assertion_delta_step [OF run roles place]
        class_assertion_root_step [OF run roles at_position_idle] t])
    (simp add: phase_iteration_def class_assertions_phase_def at_position_def)

lemma object_assertions_from_position:
  assumes run: "st \<noteq> STATE_CANCELLED" and roles: "roles_fit (prep_role_state prep)" and place: "deltas_in_place prep c"
    and t: "from_position prep c composite_columns st PhaseDomainRanges 0
      (delta_bound prep PhaseObjectAssertions (Suc (root_count c))) t"
  shows "from_position prep c composite_columns st PhaseObjectAssertions 0 (delta_bound prep PhaseObjectAssertions 0)
    (followed_by (phase_edges prep c PhaseObjectAssertions HandleObjectPropertyAssertion (object_assertion_edges prep c)) t)"
  by (rule scanning_phase [OF run place _ object_assertion_delta_step [OF run roles place]
        object_assertion_root_step [OF run roles at_position_idle] t])
    (simp add: phase_iteration_def object_assertions_phase_def at_position_def)

end
