(* ===== verification/Emission_Output.thy ===== *)
theory Emission_Output
  imports Emission_Trace
begin

text \<open>
  The last emission phase and the theorems about the whole cursor: the loop hands out exactly the
  reference enumeration of \<open>Emission_Trace\<close>, it always returns, and the batches of
  \<open>PreparedDirectBatches\<close> are its consecutive pieces however they are cut.
\<close>

section \<open>Domains and ranges by scanning\<close>

text \<open>The readings of the roots, when none of them fails.\<close>

definition class_rows :: "direct_preparation \<Rightarrow> direct_columns \<Rightarrow> property_class option list \<Rightarrow> bool" where
  "class_rows prep c rows \<longleftrightarrow>
     length rows = root_count c \<and> (\<forall>i < root_count c. base_object_property_class_at prep c i = Inr (rows ! i))"

lemma collect_Inr: "collect f xs = Inr ys \<longleftrightarrow> length ys = length xs \<and> (\<forall>i < length xs. f (xs ! i) = Inr (ys ! i))"
proof (induction xs arbitrary: ys)
  case Nil
  then show ?case by auto
next
  case (Cons x xs)
  then show ?case by (cases ys) (auto simp: res_simps nth_Cons split: nat.splits)
qed

lemma collect_Inl:
  "collect f xs = Inl e \<Longrightarrow> \<exists>us x vs. xs = us @ x # vs \<and> (\<forall>u \<in> set us. \<exists>r. f u = Inr r) \<and> f x = Inl e"
proof (induction xs)
  case Nil
  then show ?case by simp
next
  case (Cons y ys)
  show ?case
  proof (cases "f y")
    case (Inl e')
    with Cons.prems have "y # ys = [] @ y # ys \<and> (\<forall>u \<in> set []. \<exists>r. f u = Inr r) \<and> f y = Inl e" by simp
    then show ?thesis by blast
  next
    case (Inr r)
    with Cons.prems have "collect f ys = Inl e" by (auto simp: bnd_eq_Inl map_res_def)
    from Cons.IH [OF this] obtain us x vs where "ys = us @ x # vs" "\<forall>u \<in> set us. \<exists>r. f u = Inr r" "f x = Inl e"
      by blast
    with Inr have "y # ys = (y # us) @ x # vs \<and> (\<forall>u \<in> set (y # us). \<exists>r. f u = Inr r) \<and> f x = Inl e" by auto
    then show ?thesis by blast
  qed
qed

lemma collect_rows: "collect (base_object_property_class_at prep c) [0 ..< root_count c] = Inr rows \<longleftrightarrow> class_rows prep c rows"
  by (auto simp: collect_Inr class_rows_def)

lemma classes_of_simps [simp]:
  "classes_of kind p [] = []"
  "classes_of kind p (row # rows) = (case row of None \<Rightarrow> classes_of kind p rows
     | Some (found, candidate, class_iri) \<Rightarrow>
         if found = kind \<and> candidate = p then class_iri # classes_of kind p rows else classes_of kind p rows)"
  by (auto simp: classes_of_def List.map_filter_def split: option.splits)

lemma classes_of_nonempty: "classes_of kind p rows \<noteq> [] \<longleftrightarrow> (\<exists>class_iri. Some (kind, p, class_iri) \<in> set rows)"
  by (induction rows) (auto split: option.splits)

text \<open>The search for a range of a property.\<close>

lemma exists_res_rows:
  assumes "\<forall>i \<in> set is. f i = Inr (P i)"
  shows "exists_res f is = Inr (\<exists>i \<in> set is. P i)"
  using assms by (induction "is") auto

lemma exists_res_failing:
  assumes "\<forall>u \<in> set us. \<exists>b. f u = Inr b" and "f x = Inl e"
  shows "exists_res f (us @ x # vs) = Inl e \<or> (\<exists>b. exists_res f (us @ x # vs) = Inr b)"
  using assms(1)
proof (induction us)
  case Nil
  with assms(2) show ?case by simp
next
  case (Cons u us)
  then obtain b where "f u = Inr b" by auto
  with Cons show ?case by (cases b) auto
qed

lemma base_has_range:
  assumes rows: "class_rows prep c rows" and run: "st \<noteq> STATE_CANCELLED"
  shows "base_has_object_property_class_for_property prep c RangeEffect p st = Inr (classes_of KindRange p rows \<noteq> [])"
proof -
  let ?P = "\<lambda>i. case rows ! i of None \<Rightarrow> False | Some (kind, candidate, _) \<Rightarrow> kind = KindRange \<and> candidate = p"
  have "base_has_object_property_class_for_property prep c RangeEffect p st =
      Inr (\<exists>i \<in> set [0 ..< root_count c]. ?P i)"
    unfolding base_has_object_property_class_for_property_def kind_from_effect.simps ok_or_Some bnd_Inr
    by (rule exists_res_rows) (use rows run in \<open>auto simp: class_rows_def split: option.split\<close>)
  also have "(\<exists>i \<in> set [0 ..< root_count c]. ?P i) \<longleftrightarrow> (\<exists>class_iri. Some (KindRange, p, class_iri) \<in> set rows)"
    using rows by (force simp: class_rows_def in_set_conv_nth split: option.splits)
  finally show ?thesis by (simp add: classes_of_nonempty)
qed

section \<open>The next property\<close>

definition has_domain :: "property_class option list \<Rightarrow> text_str \<Rightarrow> bool" where
  "has_domain rows p \<longleftrightarrow> classes_of KindDomain p rows \<noteq> []"

lemma set_map_filter: "set (List.map_filter f xs) = {y. \<exists>x \<in> set xs. f x = Some y}"
  by (force simp: List.map_filter_def)

lemma domain_of_row:
  "(case row of Some (KindDomain, p, _) \<Rightarrow> Some p | _ \<Rightarrow> None) = Some q \<longleftrightarrow> (\<exists>class_iri. row = Some (KindDomain, q, class_iri))"
  by (auto split: option.splits object_property_class_rule_kind.splits)

lemma set_paired_properties:
  "set (paired_properties rows) = {p. classes_of KindDomain p rows \<noteq> [] \<and> classes_of KindRange p rows \<noteq> []}"
proof -
  have "set (List.map_filter (\<lambda>row. case row of Some (KindDomain, p, _) \<Rightarrow> Some p | _ \<Rightarrow> None) rows) =
      {p. \<exists>class_iri. Some (KindDomain, p, class_iri) \<in> set rows}"
    by (auto simp: set_map_filter domain_of_row)
  then show ?thesis by (auto simp: paired_properties_def classes_of_nonempty)
qed

lemma sorted_paired_properties: "sorted (paired_properties rows)" "distinct (paired_properties rows)"
  by (simp_all add: paired_properties_def)

definition least_option :: "text_str set \<Rightarrow> text_str option" where
  "least_option S = (if S = {} then None else Some (Min S))"

text \<open>The properties the scan may still choose, of the first rows.\<close>

definition candidates :: "property_class option list \<Rightarrow> text_str option \<Rightarrow> property_class option list \<Rightarrow> text_str set" where
  "candidates rows after prefix =
     {p. classes_of KindDomain p prefix \<noteq> [] \<and> classes_of KindRange p rows \<noteq> [] \<and>
         (case after of None \<Rightarrow> True | Some previous \<Rightarrow> previous < p)}"

lemma finite_candidates: "finite (candidates rows after prefix)"
proof (rule finite_subset)
  show "candidates rows after prefix \<subseteq> set (List.map_filter (map_option (fst \<circ> snd)) prefix)"
    by (force simp: candidates_def classes_of_nonempty set_map_filter)
qed simp

lemma candidates_snoc:
  "candidates rows after (prefix @ [row]) = candidates rows after prefix \<union>
     (case row of Some (KindDomain, p, _) \<Rightarrow>
        if classes_of KindRange p rows \<noteq> [] \<and> (case after of None \<Rightarrow> True | Some previous \<Rightarrow> previous < p)
        then {p} else {}
      | _ \<Rightarrow> {})"
  by (auto simp: candidates_def classes_of_nonempty split: option.splits object_property_class_rule_kind.splits if_splits)

lemma least_option_insert:
  "finite S \<Longrightarrow> least_option (insert p S) = (case least_option S of None \<Rightarrow> Some p
     | Some q \<Rightarrow> Some (if p < q then p else q))"
  by (auto simp: least_option_def min_def not_less less_le)

lemma next_paired_property_rows:
  assumes rows: "class_rows prep c rows" and run: "st \<noteq> STATE_CANCELLED"
    and local: "prep_local_classes prep = []"
  shows "next_paired_property prep c after st = Inr (least_option (candidates rows after rows))"
proof -
  have "fold_res (paired_step prep c after st) [0 ..< k] None = Inr (least_option (candidates rows after (take k rows)))"
    if "k \<le> root_count c" for k
    using that
  proof (induction k)
    case 0
    then show ?case by (simp add: candidates_def least_option_def)
  next
    case (Suc k)
    then have k: "k < root_count c" "k < length rows" using rows by (simp_all add: class_rows_def)
    let ?S = "candidates rows after (take k rows)"
    have row: "base_object_property_class_at prep c k = Inr (rows ! k)" using rows k by (simp add: class_rows_def)
    have "paired_step prep c after st k (least_option ?S) = Inr (least_option (candidates rows after (take (Suc k) rows)))"
    proof (cases "rows ! k")
      case None
      with k row run show ?thesis by (simp add: paired_step_def take_Suc_conv_app_nth candidates_snoc)
    next
      case (Some r)
      obtain kind p class_iri where r: "r = (kind, p, class_iri)" by (cases r)
      note base = base_has_range [OF rows run]
      show ?thesis
      proof (cases kind)
        case KindRange
        with k row run Some r show ?thesis by (simp add: paired_step_def take_Suc_conv_app_nth candidates_snoc)
      next
        case KindDomain
        have mem: "q \<in> ?S \<Longrightarrow> least_option ?S = Some q' \<Longrightarrow> q' \<le> q" for q q'
          using finite_candidates by (auto simp: least_option_def split: if_splits)
        with k row run Some r KindDomain show ?thesis
          by (auto simp: paired_step_def take_Suc_conv_app_nth candidates_snoc base least_option_insert [OF finite_candidates]
              not_less split: option.splits)
      qed
    qed
    with Suc k show ?case by (simp add: fold_res_append)
  qed
  from this [of "root_count c"] rows local show ?thesis by (simp add: next_paired_property_def class_rows_def)
qed

text \<open>The properties left after one, as a list.\<close>

definition properties_after :: "property_class option list \<Rightarrow> text_str option \<Rightarrow> text_str list" where
  "properties_after rows after =
     filter (\<lambda>p. case after of None \<Rightarrow> True | Some previous \<Rightarrow> previous < p) (paired_properties rows)"

lemma candidates_properties_after: "candidates rows after rows = set (properties_after rows after)"
  by (auto simp: candidates_def properties_after_def set_paired_properties)

lemma least_option_sorted: "sorted ps \<Longrightarrow> least_option (set ps) = (case ps of [] \<Rightarrow> None | p # _ \<Rightarrow> Some p)"
  by (cases ps) (auto simp: least_option_def intro!: Min_eqI)

lemma next_paired_property_spec:
  assumes "class_rows prep c rows" and "st \<noteq> STATE_CANCELLED" and "prep_local_classes prep = []"
  shows "next_paired_property prep c after st =
    Inr (case properties_after rows after of [] \<Rightarrow> None | p # _ \<Rightarrow> Some p)"
proof -
  have "sorted (properties_after rows after)"
    by (simp add: properties_after_def sorted_paired_properties sorted_wrt_filter)
  with next_paired_property_rows [OF assms, of after] show ?thesis
    by (simp add: candidates_properties_after least_option_sorted)
qed

lemma properties_after_next:
  assumes "properties_after rows after = p # ps"
  shows "properties_after rows (Some p) = ps"
proof -
  let ?L = "properties_after rows after"
  have s: "sorted ?L" "distinct ?L"
    by (simp_all add: properties_after_def sorted_paired_properties sorted_wrt_filter)
  have "p \<in> set ?L" using assms by simp
  then have "case after of None \<Rightarrow> True | Some previous \<Rightarrow> previous < p" by (simp add: properties_after_def)
  then have "properties_after rows (Some p) = filter (\<lambda>q. p < q) ?L"
    by (auto simp: properties_after_def intro!: filter_cong split: option.splits)
  also have "\<dots> = ps" using s assms by (auto simp: filter_id_conv less_le)
  finally show ?thesis .
qed

section \<open>The next class of a property\<close>

lemma scanned_class_spec:
  assumes rows: "class_rows prep c rows" and run: "st \<noteq> STATE_CANCELLED" and local: "prep_local_classes prep = []"
    and fit: "fits (root_count c)"
  shows "i \<le> root_count c \<Longrightarrow>
    \<exists>q. scanned_class prep c st kind p (root_count c) i =
        Inr (q, case classes_of kind p (drop i rows) of [] \<Rightarrow> None | x # _ \<Rightarrow> Some x) \<and> q \<le> root_count c \<and>
      classes_of kind p (drop q rows) = tl (classes_of kind p (drop i rows))"
proof (induction rule: inc_induct)
  case base
  show ?case using rows by (subst scanned_class.simps) (simp add: class_rows_def)
next
  case (step i)
  have len: "length rows = root_count c" and row: "base_object_property_class_at prep c i = Inr (rows ! i)"
    using rows step(2) by (simp_all add: class_rows_def)
  have f: "fits (Suc i)" using fit step(2) by (simp add: fits_def)
  have at: "object_property_class_at prep c i st = Inr (rows ! i)"
    using step(2) fit local row by (simp add: object_property_class_at_def object_property_class_scan_len_def checked_add_def)
  have d: "drop i rows = rows ! i # drop (Suc i) rows" using step(2) len by (simp add: Cons_nth_drop_Suc)
  have unroll: "scanned_class prep c st kind p (root_count c) i =
      (case rows ! i of
          None \<Rightarrow> scanned_class prep c st kind p (root_count c) (Suc i)
        | Some (found, candidate, class_iri) \<Rightarrow>
            if found = kind \<and> candidate = p then Inr (Suc i, Some class_iri)
            else scanned_class prep c st kind p (root_count c) (Suc i))"
    using step(2) run f at by (subst scanned_class.simps) (simp add: checked_add_def)
  show ?case
    using step.IH step(2) by (auto simp: unroll d split: option.split prod.split)
qed

lemma next_class_spec:
  assumes "class_rows prep c rows" and "st \<noteq> STATE_CANCELLED" and local: "prep_local_classes prep = []"
    and fit: "fits (root_count c)" and "i \<le> root_count c"
  obtains q where "next_class prep c st kind p i =
        Inr (q, case classes_of kind p (drop i rows) of [] \<Rightarrow> None | x # _ \<Rightarrow> Some x)"
    and "q \<le> root_count c" and "classes_of kind p (drop q rows) = tl (classes_of kind p (drop i rows))"
proof -
  from scanned_class_spec [OF assms, of kind p] obtain q where
    "scanned_class prep c st kind p (root_count c) i =
        Inr (q, case classes_of kind p (drop i rows) of [] \<Rightarrow> None | x # _ \<Rightarrow> Some x)"
    "q \<le> root_count c" "classes_of kind p (drop q rows) = tl (classes_of kind p (drop i rows))" by blast
  then show thesis
    using that local fit by (simp add: next_class_def object_property_class_scan_len_def checked_add_def)
qed

section \<open>The loops over ranges, domains and properties\<close>

definition in_domain_ranges :: "direct_emission_cursor \<Rightarrow> bool" where
  "in_domain_ranges cur \<longleftrightarrow> cursor_phase cur = PhaseDomainRanges \<and> pending cur = None"

lemma domain_range_iteration:
  assumes "st \<noteq> STATE_CANCELLED" and "in_domain_ranges cur"
    and "results prep c composite_columns st (domain_ranges_phase prep c st) cur t"
  shows "yields prep c composite_columns st cur t"
  by (rule idle_iteration [OF assms(1)], use assms(2) in \<open>simp add: in_domain_ranges_def\<close>)
    (rule results_cong [OF _ assms(3)], use assms(2) in \<open>simp add: phase_iteration_def in_domain_ranges_def\<close>)

lemma ranges_yield:
  assumes rows: "class_rows prep c rows" and run: "st \<noteq> STATE_CANCELLED" and local: "prep_local_classes prep = []"
    and fit: "fits (root_count c)" and roles: "roles_fit (prep_role_state prep)"
    and rest: "\<And>j. yields prep c composite_columns st (cur\<lparr>range_index := j, current_domain := None\<rparr>) t"
    and cur: "in_domain_ranges cur" "active_property cur = Some p" "current_domain cur = Some domain"
    and j: "j \<le> root_count c"
  shows "yields prep c composite_columns st (cur\<lparr>range_index := j\<rparr>)
    (followed_by (concat (map (role_edges (prep_role_state prep) domain p) (classes_of KindRange p (drop j rows))), None) t)"
  using j
proof (induction "classes_of KindRange p (drop j rows)" arbitrary: j)
  case Nil
  obtain q where q: "next_class prep c st KindRange p j =
      Inr (q, case classes_of KindRange p (drop j rows) of [] \<Rightarrow> None | x # _ \<Rightarrow> Some x)"
    by (rule next_class_spec [OF rows run local fit Nil.prems])
  have "results prep c composite_columns st (domain_ranges_phase prep c st) (cur\<lparr>range_index := j\<rparr>) t"
    by (rule results_Continue [where g = "\<lambda>cur. cur\<lparr>range_index := q, current_domain := None\<rparr>"])
      (use cur q rest [of q] Nil.hyps [symmetric] in
        \<open>simp_all add: domain_ranges_phase_def select_property_def select_domain_def clone_text_def\<close>)
  with Nil.hyps [symmetric] cur show ?case by (intro domain_range_iteration [OF run]) (simp_all add: in_domain_ranges_def)
next
  case (Cons x xs)
  obtain q where q: "next_class prep c st KindRange p j =
      Inr (q, case classes_of KindRange p (drop j rows) of [] \<Rightarrow> None | x # _ \<Rightarrow> Some x)"
    and le: "q \<le> root_count c"
    and tail: "classes_of KindRange p (drop q rows) = tl (classes_of KindRange p (drop j rows))"
    by (rule next_class_spec [OF rows run local fit Cons.prems])
  from tail Cons.hyps(2) [symmetric] have xs: "xs = classes_of KindRange p (drop q rows)" by simp
  let ?t = "followed_by (concat (map (role_edges (prep_role_state prep) domain p) xs), None) t"
  from Cons.hyps(1) [OF xs le] have IH: "yields prep c composite_columns st (cur\<lparr>range_index := q\<rparr>) ?t" by (simp add: xs)
  have p: "(cur\<lparr>range_index := q\<rparr>)\<lparr>pending := None\<rparr> = cur\<lparr>range_index := q\<rparr>"
    using cur by (intro pending_unchanged) (simp add: in_domain_ranges_def)
  have "yields prep c composite_columns st ((cur\<lparr>range_index := q\<rparr>)\<lparr>pending := Some (PendingRole domain p x 0)\<rparr>)
      (followed_by (role_edges (prep_role_state prep) domain p x, None) ?t)"
    by (rule yields_role [OF run roles]) (use IH in \<open>simp only: p\<close>)
  then have "results prep c composite_columns st (domain_ranges_phase prep c st) (cur\<lparr>range_index := j\<rparr>)
      (followed_by (role_edges (prep_role_state prep) domain p x, None) ?t)"
    by (intro results_Continue [where g = "\<lambda>cur. cur\<lparr>range_index := q, pending := Some (PendingRole domain p x 0)\<rparr>"])
      (use cur q Cons.hyps(2) [symmetric] in
        \<open>simp_all add: domain_ranges_phase_def select_property_def select_domain_def clone_text_def continue_with_def\<close>)
  then have "yields prep c composite_columns st (cur\<lparr>range_index := j\<rparr>)
      (followed_by (role_edges (prep_role_state prep) domain p x, None) ?t)"
    by (rule domain_range_iteration [OF run, rotated]) (use cur in \<open>simp add: in_domain_ranges_def\<close>)
  then show ?case by (simp add: Cons.hyps(2) [symmetric] followed_by_assoc [symmetric])
qed

lemma domains_yield:
  assumes rows: "class_rows prep c rows" and run: "st \<noteq> STATE_CANCELLED" and local: "prep_local_classes prep = []"
    and fit: "fits (root_count c)" and roles: "roles_fit (prep_role_state prep)"
    and rest: "\<And>i j. yields prep c composite_columns st
      (cur\<lparr>domain_index := i, range_index := j, current_domain := None, active_property := None\<rparr>) t"
    and cur: "in_domain_ranges cur" "active_property cur = Some p" and i: "i \<le> root_count c"
  shows "yields prep c composite_columns st (cur\<lparr>domain_index := i, range_index := j, current_domain := None\<rparr>)
    (followed_by (concat (map (\<lambda>domain. concat (map (role_edges (prep_role_state prep) domain p) (classes_of KindRange p rows)))
       (classes_of KindDomain p (drop i rows))), None) t)"
  using i
proof (induction "classes_of KindDomain p (drop i rows)" arbitrary: i j)
  case Nil
  obtain q where q: "next_class prep c st KindDomain p i =
      Inr (q, case classes_of KindDomain p (drop i rows) of [] \<Rightarrow> None | x # _ \<Rightarrow> Some x)"
    by (rule next_class_spec [OF rows run local fit Nil.prems])
  have reorder: "cur\<lparr>domain_index := q, range_index := j, current_domain := None, active_property := None\<rparr> =
      cur\<lparr>range_index := j, current_domain := None, domain_index := q, active_property := None\<rparr>" by simp
  have "results prep c composite_columns st (domain_ranges_phase prep c st)
      (cur\<lparr>domain_index := i, range_index := j, current_domain := None\<rparr>) t"
    by (rule results_Continue [where g = "\<lambda>cur. cur\<lparr>domain_index := q, active_property := None\<rparr>"])
      (use cur q rest [where i = q and j = j, unfolded reorder] Nil.hyps [symmetric] in
        \<open>simp_all add: domain_ranges_phase_def select_property_def select_domain_def clone_text_def\<close>)
  with Nil.hyps [symmetric] cur show ?case by (intro domain_range_iteration [OF run]) (simp_all add: in_domain_ranges_def)
next
  case (Cons x xs)
  obtain q where q: "next_class prep c st KindDomain p i =
      Inr (q, case classes_of KindDomain p (drop i rows) of [] \<Rightarrow> None | x # _ \<Rightarrow> Some x)"
    and le: "q \<le> root_count c"
    and tail: "classes_of KindDomain p (drop q rows) = tl (classes_of KindDomain p (drop i rows))"
    by (rule next_class_spec [OF rows run local fit Cons.prems])
  from tail Cons.hyps(2) [symmetric] have xs: "xs = classes_of KindDomain p (drop q rows)" by simp
  let ?ranges = "\<lambda>domain. concat (map (role_edges (prep_role_state prep) domain p) (classes_of KindRange p rows))"
  let ?t = "followed_by (concat (map ?ranges xs), None) t"
  let ?before = "cur\<lparr>domain_index := i, range_index := j, current_domain := None\<rparr>"
  let ?chosen = "cur\<lparr>domain_index := q, range_index := 0, current_domain := Some x\<rparr>"
  from Cons.hyps(1) [OF xs le]
  have "yields prep c composite_columns st (?chosen\<lparr>range_index := j', current_domain := None\<rparr>) ?t" for j' by (simp add: xs)
  then have "yields prep c composite_columns st (?chosen\<lparr>range_index := 0\<rparr>) (followed_by (?ranges x, None) ?t)"
    using ranges_yield [OF rows run local fit roles, of composite_columns ?chosen ?t p x 0] cur
    by (simp add: in_domain_ranges_def)
  moreover have "?chosen\<lparr>range_index := 0\<rparr> = ?chosen" by simp
  ultimately have chosen: "yields prep c composite_columns st ?chosen (followed_by (?ranges x, None) ?t)" by (simp only:)
  have reorder: "?chosen\<lparr>emitted := k\<rparr> =
      cur\<lparr>emitted := k, domain_index := q, current_domain := Some x, range_index := 0\<rparr>" for k by simp
  from chosen have "yields prep c composite_columns st ?before (followed_by (?ranges x, None) ?t)"
    by (rule yields_same_iteration, unfold reorder)
      (use cur q run Cons.hyps(2) [symmetric] in \<open>simp add: cursor_iteration_def phase_iteration_def in_domain_ranges_def
        domain_ranges_phase_def select_property_def select_domain_def clone_text_def\<close>)
  then show ?case by (simp add: Cons.hyps(2) [symmetric] followed_by_assoc [symmetric])
qed

lemma finished_yields: "st \<noteq> STATE_CANCELLED \<Longrightarrow> pending cur = None \<Longrightarrow> cursor_phase cur = PhaseFinished \<Longrightarrow>
    yields prep c composite_columns st cur no_edges"
  by (rule idle_iteration) (simp_all add: results_def phase_iteration_def no_edges_def)

lemma properties_yield:
  assumes rows: "class_rows prep c rows" and run: "st \<noteq> STATE_CANCELLED" and local: "prep_local_classes prep = []"
    and fit: "fits (root_count c)" and roles: "roles_fit (prep_role_state prep)"
  shows "in_domain_ranges cur \<Longrightarrow> active_property cur = None \<Longrightarrow> current_domain cur = None \<Longrightarrow>
    properties_after rows (previous_property cur) = ps \<Longrightarrow>
    yields prep c composite_columns st cur (concat (map (property_edges (prep_role_state prep) rows) ps), None)"
proof (induction ps arbitrary: cur)
  case Nil
  note spec = next_paired_property_spec [OF rows run local]
  have "results prep c composite_columns st (domain_ranges_phase prep c st) cur no_edges"
    by (rule results_Continue [where g = "\<lambda>cur. cur\<lparr>cursor_phase := PhaseFinished\<rparr>"])
      (use Nil finished_yields [OF run] in
        \<open>simp_all add: domain_ranges_phase_def select_property_def spec in_domain_ranges_def\<close>)
  with Nil show ?case by (simp add: no_edges_def) (rule domain_range_iteration [OF run])
next
  case (Cons p ps)
  note spec = next_paired_property_spec [OF rows run local]
  let ?chosen = "cur\<lparr>previous_property := Some p, active_property := Some p, current_domain := None,
      domain_index := 0, range_index := 0\<rparr>"
  let ?t = "(concat (map (property_edges (prep_role_state prep) rows) ps), None)"
  have next_ps: "properties_after rows (Some p) = ps" by (rule properties_after_next [OF Cons.prems(4)])
  have "yields prep c composite_columns st
      (?chosen\<lparr>domain_index := i, range_index := j, current_domain := None, active_property := None\<rparr>) ?t" for i j
    by (rule Cons.IH) (use Cons.prems next_ps in \<open>simp_all add: in_domain_ranges_def\<close>)
  from domains_yield [OF rows run local fit roles this, of p 0 0] Cons.prems(1)
  have "yields prep c composite_columns st (?chosen\<lparr>domain_index := 0, range_index := 0, current_domain := None\<rparr>)
      (followed_by (property_edges (prep_role_state prep) rows p, None) ?t)"
    by (simp add: property_edges_def in_domain_ranges_def)
  moreover have "?chosen\<lparr>domain_index := 0, range_index := 0, current_domain := None\<rparr> = ?chosen" by simp
  ultimately have "yields prep c composite_columns st ?chosen
      (followed_by (property_edges (prep_role_state prep) rows p, None) ?t)" by (simp only:)
  note chosen = this
  have reorder: "?chosen\<lparr>emitted := k\<rparr> = cur\<lparr>emitted := k, previous_property := Some p, active_property := Some p,
      current_domain := None, domain_index := 0, range_index := 0\<rparr>" for k by simp
  from chosen have "yields prep c composite_columns st cur (followed_by (property_edges (prep_role_state prep) rows p, None) ?t)"
    by (rule yields_same_iteration, unfold reorder)
      (use Cons.prems run in \<open>simp add: cursor_iteration_def phase_iteration_def in_domain_ranges_def
        domain_ranges_phase_def select_property_def spec clone_text_def\<close>)
  then show ?case by simp
qed

text \<open>A root whose reading fails stops the phase before its first edge.\<close>

lemma fold_res_failing:
  assumes "\<And>u s. u \<in> set us \<Longrightarrow> f u s = Inl e \<or> (\<exists>s'. f u s = Inr s')" and "\<And>s. f x s = Inl e"
  shows "fold_res f (us @ x # vs) s = Inl e"
  using assms(1)
proof (induction us arbitrary: s)
  case Nil
  with assms(2) show ?case by simp
next
  case (Cons u us)
  from Cons.prems [of u s] have "f u s = Inl e \<or> (\<exists>s'. f u s = Inr s')" by simp
  then show ?case
  proof
    assume "\<exists>s'. f u s = Inr s'"
    then obtain s' where "f u s = Inr s'" ..
    moreover have "fold_res f (us @ x # vs) s' = Inl e" by (rule Cons.IH) (use Cons.prems in simp)
    ultimately show ?thesis by simp
  qed simp
qed

lemma next_paired_property_failing:
  assumes run: "st \<noteq> STATE_CANCELLED" and local: "prep_local_classes prep = []"
    and failing: "collect (base_object_property_class_at prep c) [0 ..< root_count c] = Inl e"
  shows "next_paired_property prep c after st = Inl e"
proof -
  from collect_Inl [OF failing] obtain us x vs where split: "[0 ..< root_count c] = us @ x # vs"
    and us: "\<forall>u \<in> set us. \<exists>r. base_object_property_class_at prep c u = Inr r"
    and x: "base_object_property_class_at prep c x = Inl e" by blast
  have base: "base_has_object_property_class_for_property prep c RangeEffect p st = Inl e \<or>
      (\<exists>b. base_has_object_property_class_for_property prep c RangeEffect p st = Inr b)" for p
    unfolding base_has_object_property_class_for_property_def split kind_from_effect.simps ok_or_Some bnd_Inr
    by (rule exists_res_failing) (use us x run in \<open>auto simp: map_res_def\<close>)
  have "fold_res (paired_step prep c after st) (us @ x # vs) None = Inl e"
  proof (rule fold_res_failing)
    show "paired_step prep c after st x s = Inl e" for s using x run by (simp add: paired_step_def)
    fix u s assume "u \<in> set us"
    with us obtain r where r: "base_object_property_class_at prep c u = Inr r" by blast
    show "paired_step prep c after st u s = Inl e \<or> (\<exists>s'. paired_step prep c after st u s = Inr s')"
    proof (cases r)
      case None
      with r run show ?thesis by (simp add: paired_step_def)
    next
      case (Some q)
      obtain kind p class_iri where q: "q = (kind, p, class_iri)" by (cases q)
      from base [of p] show ?thesis using Some r run by (auto simp: paired_step_def q)
    qed
  qed
  with local split show ?thesis by (simp add: next_paired_property_def)
qed

lemma domain_ranges_from_position:
  assumes run: "st \<noteq> STATE_CANCELLED" and local: "prep_local_classes prep = []"
    and fit: "fits (root_count c)" and roles: "roles_fit (prep_role_state prep)"
  shows "from_position prep c composite_columns st PhaseDomainRanges i d (domain_range_edges prep c)"
  unfolding from_position_def
proof (intro allI impI)
  fix cur assume cur: "at_position PhaseDomainRanges i d cur"
  then have idle: "in_domain_ranges cur" "active_property cur = None" "current_domain cur = None" "previous_property cur = None"
    by (simp_all add: at_position_def in_domain_ranges_def)
  show "yields prep c composite_columns st cur (domain_range_edges prep c)"
  proof (cases "collect (base_object_property_class_at prep c) [0 ..< root_count c]")
    case (Inl e)
    then show ?thesis
      using idle next_paired_property_failing [OF run local Inl]
      by (simp add: domain_range_edges_def)
        (rule domain_range_iteration [OF run _ results_failed], simp_all add: domain_ranges_phase_def select_property_def)
  next
    case (Inr rows)
    then have rows: "class_rows prep c rows" by (simp add: collect_rows)
    have "properties_after rows (previous_property cur) = paired_properties rows"
      using idle by (simp add: properties_after_def)
    from properties_yield [OF rows run local fit roles idle(1,2,3) this] Inr
    show ?thesis by (simp add: domain_range_edges_def)
  qed
qed

section \<open>The whole emission\<close>

definition emittable :: "direct_preparation \<Rightarrow> direct_columns \<Rightarrow> bool" where
  "emittable prep c \<longleftrightarrow> roles_fit (prep_role_state prep) \<and> deltas_in_place prep c \<and>
     prep_local_classes prep = [] \<and> fits (root_count c)"

lemma delta_phases:
  assumes "deltas_in_place prep c" and "delta \<in> set (prep_overlay_deltas prep)"
  shows "delta_phase (delta_projection delta) \<in> {PhaseSubclasses, PhaseEquivalents, PhaseClassAssertions, PhaseObjectAssertions}"
proof -
  from assms have "projection_in_place (delta_projection delta)" by (simp add: deltas_in_place_def)
  then show ?thesis by (cases "delta_projection delta") auto
qed

lemma delta_bound_phase:
  assumes "deltas_in_place prep c"
  shows "delta_bound prep PhaseSubclasses (Suc (root_count c)) = delta_bound prep PhaseEquivalents 0"
    and "delta_bound prep PhaseEquivalents (Suc (root_count c)) = delta_bound prep PhaseAnnotations 0"
    and "delta_bound prep PhaseEquivalents (Suc (root_count c)) = delta_bound prep PhaseClassAssertions 0"
    and "delta_bound prep PhaseClassAssertions (Suc (root_count c)) = delta_bound prep PhaseObjectAssertions 0"
    and "delta_bound prep PhaseSubclasses 0 = 0"
  by (rule phase_gap [OF assms]; use delta_phases [OF assms] in \<open>force simp: less_eq_emission_phase_def less_emission_phase_def\<close>)+
    (simp add: delta_bound_def less_prod_def less_emission_phase_def)

lemma emission_yields:
  assumes run: "st \<noteq> STATE_CANCELLED" and ok: "emittable prep c"
  shows "yields prep c composite_columns st initial_cursor (emission_trace prep c composite_columns st)"
proof -
  from ok have roles: "roles_fit (prep_role_state prep)" and place: "deltas_in_place prep c"
    and local: "prep_local_classes prep = []" and fit: "fits (root_count c)" by (simp_all add: emittable_def)
  note bound = delta_bound_phase [OF place]
  have "from_position prep c composite_columns st PhaseEquivalents 0 (delta_bound prep PhaseEquivalents 0)
      (later_phases prep c composite_columns st)"
    unfolding later_phases_def joined_simps followed_by_simps
    by (intro equivalents_from_position [OF run roles place] annotations_from_position [OF run]
        class_assertions_from_position [OF run roles place, folded bound(3)]
        object_assertions_from_position [OF run roles place, folded bound(4)]
        domain_ranges_from_position [OF run local fit roles])
  moreover have "from_position prep c composite_columns st PhaseFinished 0 d no_edges" for d
    by (simp add: from_position_def at_position_def finished_yields [OF run])
  ultimately have "from_position prep c composite_columns st PhaseSubclasses 0 0 (emission_trace prep c composite_columns st)"
    using subclasses_from_position [OF run roles place, of composite_columns] bound
    by (auto simp: emission_trace_def split: if_splits)
  then show ?thesis by (rule from_positionD) (simp add: at_position_def initial_cursor_def)
qed

section \<open>Counting what has been emitted\<close>

lemma continue_with_cases: "continue_with m = Inr r \<longleftrightarrow> (\<exists>cur. m = Inr cur \<and> r = Continue cur)"
  by (auto simp: continue_with_def res_simps)

lemma publish_cases: "publish e cur = Inr r \<longleftrightarrow> fits (Suc (emitted cur)) \<and> r = Publish e (cur\<lparr>emitted := Suc (emitted cur)\<rparr>)"
  by (auto simp: publish_def res_simps)

definition keeps_count :: "direct_emission_cursor \<Rightarrow> iteration kres \<Rightarrow> bool" where
  "keeps_count cur r \<longleftrightarrow> (case r of
     Inr (Continue cur') \<Rightarrow> emitted cur' = emitted cur
   | Inr (Publish _ cur') \<Rightarrow> emitted cur' = Suc (emitted cur)
   | _ \<Rightarrow> True)"

named_theorems counting \<open>iterations count exactly the edges they publish\<close>

lemma keeps_count_simps [counting]:
  "keeps_count cur (Inl e)" "keeps_count cur (Inr Exhausted)"
  "keeps_count cur (Inr (Continue cur')) \<longleftrightarrow> emitted cur' = emitted cur"
  "emitted cur' = emitted cur \<Longrightarrow> keeps_count cur (publish edge cur')"
  by (auto simp: keeps_count_def publish_def checked_add_def)

lemma keeps_count_bnd [counting]: "(\<And>x. m = Inr x \<Longrightarrow> keeps_count cur (f x)) \<Longrightarrow> keeps_count cur (bnd m f)"
  by (cases m) (simp_all add: keeps_count_def)

lemma keeps_count_seq [counting]: "keeps_count cur k \<Longrightarrow> keeps_count cur (seq m k)"
  by (cases m) (simp_all add: keeps_count_def)

lemma keeps_count_with [counting]:
  "(\<And>cur'. m = Inr cur' \<Longrightarrow> emitted cur' = emitted cur) \<Longrightarrow> keeps_count cur (continue_with m)"
  by (cases m) (simp_all add: keeps_count_def continue_with_def)

lemma advance_delta_count [counting]: "advance_delta cur = Inr cur' \<Longrightarrow> emitted cur' = emitted cur"
  by (auto simp: advance_delta_def res_simps)

lemma scan_root_count:
  assumes "\<And>shape cur'. emitted cur' = emitted cur \<Longrightarrow> keeps_count cur (emit shape cur')"
  shows "keeps_count cur (scan_root prep c st expected next_phase emit cur)"
  using assms by (auto simp: scan_root_def Let_def intro!: counting simp: keeps_count_simps(3))

lemma with_delta_count:
  assumes "\<And>projection d r. handle projection d = Some r \<Longrightarrow> keeps_count cur r" and "keeps_count cur otherwise"
  shows "keeps_count cur (with_delta prep cur handle otherwise)"
  using assms by (auto simp: with_delta_def intro!: counting split: option.split)

lemma aggregate_step_count: "aggregate_step prep c st agg cur = Inr cur' \<Longrightarrow> emitted cur' = emitted cur"
  by (auto simp: aggregate_step_def res_simps split: option.splits if_splits)

lemma owned_aggregate_step_count: "owned_aggregate_step prep agg cur = Inr (Some cur') \<Longrightarrow> emitted cur' = emitted cur"
  by (auto simp: owned_aggregate_step_def res_simps split: option.splits if_splits owned_overlay_delta_projection.splits)

lemmas delta_count_defs = skip_delta_def advance_delta_def

lemma subclasses_count: "keeps_count cur (subclasses_phase prep c st cur)"
  unfolding subclasses_phase_def
proof (intro with_delta_count scan_root_count)
  show "keeps_count cur r" if "subclass_delta prep cur projection d = Some r" for projection d r
    using that by (auto simp: subclass_delta_def delta_count_defs res_simps split: owned_overlay_delta_projection.splits if_splits
        intro!: keeps_count_with)
  show "keeps_count cur (subclass_root prep c shape cur')" if "emitted cur' = emitted cur" for shape cur'
    using that by (auto simp: subclass_root_def keeps_count_simps split: option.split planned_emission_shape.split
        intro!: keeps_count_with keeps_count_bnd)
qed

lemma equivalents_scan_count: "keeps_count cur (equivalents_scan prep c st cur)"
  unfolding equivalents_scan_def
proof (intro with_delta_count scan_root_count)
  show "keeps_count cur r" if "equivalent_delta prep cur projection d = Some r" for projection d r
    using that by (auto simp: equivalent_delta_def delta_count_defs res_simps split: owned_overlay_delta_projection.splits
        intro!: keeps_count_with)
  show "keeps_count cur (equivalent_root prep c shape cur')" if "emitted cur' = emitted cur" for shape cur'
    using that by (auto simp: equivalent_root_def keeps_count_simps split: option.split planned_emission_shape.split
        intro!: keeps_count_with keeps_count_bnd)
qed

lemma keeps_count_emitted: "emitted cur' = emitted cur \<Longrightarrow> keeps_count cur' r \<Longrightarrow> keeps_count cur r"
  by (simp add: keeps_count_def split: sum.splits iteration.splits)

lemma table_aggregate_count: "keeps_count cur (table_aggregate_phase prep c st cur)"
  by (auto simp: table_aggregate_phase_def equivalents_scan_count split: option.split intro!: keeps_count_with
      dest!: aggregate_step_count)

lemma owned_cleared_count: "keeps_count cur (table_aggregate_phase prep c st (cur\<lparr>owned_aggregate := None\<rparr>))"
  by (rule keeps_count_emitted [OF _ table_aggregate_count]) simp

lemma equivalents_count: "keeps_count cur (equivalents_phase prep c st cur)"
  by (auto simp: equivalents_phase_def table_aggregate_count owned_cleared_count keeps_count_simps split: option.split
      intro!: keeps_count_bnd dest!: owned_aggregate_step_count)

lemma emit_annotation_count: "emitted cur' = emitted cur \<Longrightarrow> keeps_count cur (emit_annotation prep c st node_id cur')"
  by (auto simp: emit_annotation_def keeps_count_simps split: option.split intro!: keeps_count_bnd)

lemma annotations_count: "keeps_count cur (annotations_phase prep c composite_columns st cur)"
  by (auto simp: annotations_phase_def leave_annotations_def keeps_count_simps Let_def split: option.split
      intro!: keeps_count_bnd emit_annotation_count)

lemma class_assertions_count: "keeps_count cur (class_assertions_phase prep c st cur)"
  unfolding class_assertions_phase_def
proof (intro with_delta_count scan_root_count)
  show "keeps_count cur r" if "class_assertion_delta prep cur projection d = Some r" for projection d r
    using that by (auto simp: class_assertion_delta_def delta_count_defs res_simps keeps_count_simps
        split: owned_overlay_delta_projection.splits intro!: keeps_count_with keeps_count_bnd)
  show "keeps_count cur (class_assertion_root prep c shape cur')" if "emitted cur' = emitted cur" for shape cur'
    using that by (auto simp: class_assertion_root_def keeps_count_simps split: option.split planned_emission_shape.split
        intro!: keeps_count_bnd)
qed

lemma object_assertions_count: "keeps_count cur (object_assertions_phase prep c st cur)"
  unfolding object_assertions_phase_def
proof (intro with_delta_count scan_root_count)
  show "keeps_count cur r" if "object_assertion_delta prep cur projection d = Some r" for projection d r
    using that by (auto simp: object_assertion_delta_def delta_count_defs res_simps keeps_count_simps
        split: owned_overlay_delta_projection.splits intro!: keeps_count_with keeps_count_bnd)
  show "keeps_count cur (object_assertion_root prep c shape cur')" if "emitted cur' = emitted cur" for shape cur'
    using that by (auto simp: object_assertion_root_def keeps_count_simps split: option.split planned_emission_shape.split
        intro!: keeps_count_bnd)
qed

lemma select_property_count: "select_property prep c st cur = Inr (Some r) \<Longrightarrow> emitted (snd r) = emitted cur"
  by (cases "active_property cur"; cases "next_paired_property prep c (previous_property cur) st")
    (auto simp: select_property_def clone_text_def)

lemma select_domain_count: "select_domain prep c st p cur = Inr r \<Longrightarrow> emitted (snd r) = emitted cur"
  by (cases "current_domain cur"; cases "next_class prep c st KindDomain p (domain_index cur)")
    (auto simp: select_domain_def split: option.split)

lemma domain_ranges_count: "keeps_count cur (domain_ranges_phase prep c st cur)"
proof -
  have count: "emitted cur'' = emitted cur"
    if "select_property prep c st cur = Inr (Some (p, cur'))" and "select_domain prep c st p cur' = Inr (d, cur'')" for p cur' d cur''
    using select_property_count [OF that(1)] select_domain_count [OF that(2)] by simp
  show ?thesis
    unfolding domain_ranges_phase_def
  proof (rule keeps_count_bnd)
    fix chosen assume chosen: "select_property prep c st cur = Inr chosen"
    show "keeps_count cur (case chosen of
       None \<Rightarrow> Inr (Continue (cur\<lparr>cursor_phase := PhaseFinished\<rparr>))
     | Some (property, cur1) \<Rightarrow>
         bnd (select_domain prep c st property cur1) (\<lambda>(selected_domain, cur2). case selected_domain of
           None \<Rightarrow> Inr (Continue cur2)
         | Some domain \<Rightarrow>
             bnd (next_class prep c st KindRange property (range_index cur2)) (\<lambda>(index, selected_range).
             let cur3 = cur2\<lparr>range_index := index\<rparr> in
             case selected_range of
               None \<Rightarrow> Inr (Continue (cur3\<lparr>current_domain := None\<rparr>))
             | Some destination \<Rightarrow> continue_with (set_role domain property destination cur3))))"
    proof (cases chosen)
      case None
      then show ?thesis by (simp add: keeps_count_simps)
    next
      case (Some pc)
      obtain p cur1 where pc: "pc = (p, cur1)" by fastforce
      have "keeps_count cur (case r of (selected_domain, cur2) \<Rightarrow> (case selected_domain of
           None \<Rightarrow> Inr (Continue cur2)
         | Some domain \<Rightarrow>
             bnd (next_class prep c st KindRange p (range_index cur2)) (\<lambda>(index, selected_range).
             let cur3 = cur2\<lparr>range_index := index\<rparr> in
             case selected_range of
               None \<Rightarrow> Inr (Continue (cur3\<lparr>current_domain := None\<rparr>))
             | Some destination \<Rightarrow> continue_with (set_role domain p destination cur3))))"
        if r: "select_domain prep c st p cur1 = Inr r" for r
      proof -
        obtain d cur2 where r2: "r = (d, cur2)" by fastforce
        with count chosen Some pc r have e: "emitted cur2 = emitted cur" by blast
        then show ?thesis
          by (cases d) (auto simp: r2 keeps_count_simps Let_def intro!: keeps_count_bnd keeps_count_with split: option.split)
      qed
      then show ?thesis by (simp add: Some pc) (rule keeps_count_bnd)
    qed
  qed
qed

lemma cursor_iteration_count: "keeps_count cur (cursor_iteration prep c composite_columns st cur)"
  unfolding cursor_iteration_def phase_iteration_def
  by (auto simp: keeps_count_simps subclasses_count equivalents_count annotations_count class_assertions_count
      object_assertions_count domain_ranges_count split: option.split emission_phase.split
      intro!: keeps_count_seq keeps_count_bnd)

lemma emits_next_count:
  assumes "next_edge prep c composite_columns st cur = Some (Inr (Some (edge, cur')))" and "emits prep c composite_columns st cur t"
  shows "emitted cur' = Suc (emitted cur)"
  using assms(2,1)
proof (induction rule: emits.induct)
  case (failed cur e)
  then show ?case by (simp add: next_edge.simps [of prep c composite_columns st cur])
next
  case (exhausted cur)
  then show ?case by (simp add: next_edge.simps [of prep c composite_columns st cur])
next
  case (continued cur cur'' t)
  then have "next_edge prep c composite_columns st cur = next_edge prep c composite_columns st cur''"
    by (subst next_edge.simps) simp
  with continued cursor_iteration_count [of cur prep c composite_columns st] show ?case by (simp add: keeps_count_def)
next
  case (published cur e cur'' edges stop)
  then have "cur'' = cur'" by (simp add: next_edge.simps [of prep c composite_columns st cur])
  with published cursor_iteration_count [of cur prep c composite_columns st] show ?case by (simp add: keeps_count_def)
qed

lemma fill_batch_count:
  "emits prep c composite_columns st cur t \<Longrightarrow>
   fill_batch prep c composite_columns st n cur = Some (Inr (edges, cur')) \<Longrightarrow> emitted cur' = emitted cur + n"
proof (induction n arbitrary: cur t edges)
  case 0
  then show ?case by simp
next
  case (Suc n)
  from Suc.prems(2) obtain edge cur1 rest where n: "next_edge prep c composite_columns st cur = Some (Inr (Some (edge, cur1)))"
    and f: "fill_batch prep c composite_columns st n cur1 = Some (Inr (rest, cur'))"
    by (auto split: option.splits sum.splits simp: res_simps)
  obtain t' where "emits prep c composite_columns st cur1 t'"
    using emits_next_edge [OF Suc.prems(1)] n
    by (cases t; cases "fst t"; cases "snd t") auto
  from Suc.IH [OF this f] emits_next_count [OF n Suc.prems(1)] show ?case by simp
qed

section \<open>The edges handed out are the enumeration\<close>

lemma emission_emits:
  assumes "st \<noteq> STATE_CANCELLED" and "emittable prep c" and "fits (length (fst (emission_trace prep c composite_columns st)))"
  shows "emits prep c composite_columns st initial_cursor (emission_trace prep c composite_columns st)"
proof -
  have "initial_cursor\<lparr>emitted := 0\<rparr> = initial_cursor" by (simp add: initial_cursor_def)
  with emission_yields [OF assms(1,2), of composite_columns] assms(3) show ?thesis
    unfolding yields_def by (metis add_0)
qed


section \<open>Batches\<close>

text \<open>Where a prepared batch sequence reads its edges: one table, or a composite and its base.\<close>

datatype batch_source = OneTable direct_columns | Composite direct_columns "direct_columns list"

fun source_base :: "batch_source \<Rightarrow> direct_columns" where
  "source_base (OneTable c) = c"
| "source_base (Composite base others) = base"

fun source_columns :: "batch_source \<Rightarrow> direct_columns list option" where
  "source_columns (OneTable c) = None"
| "source_columns (Composite base others) = Some (base # others)"

text \<open>One call of the caller: prepare the next batch and, when that succeeds, commit the cursor.\<close>

definition take_batch :: "batch_source \<Rightarrow> nat \<Rightarrow> nat \<Rightarrow> prepared_direct_batches
    \<Rightarrow> (direct_edge list \<times> prepared_direct_batches) option" where
  "take_batch source st batch_edges b =
     (case (case source of OneTable c \<Rightarrow> prepare_next_batch b c st batch_edges
            | Composite base others \<Rightarrow> prepare_next_composite_batch b (base # others) st batch_edges) of
        Some (Inr (edges, cur)) \<Rightarrow> Some (edges, commit_cursor b cur)
      | _ \<Rightarrow> None)"

definition batch_trace :: "batch_source \<Rightarrow> nat \<Rightarrow> prepared_direct_batches \<Rightarrow> trace" where
  "batch_trace source st b = emission_trace (preparation b) (source_base source) (source_columns source) st"

definition batch_rest :: "batch_source \<Rightarrow> nat \<Rightarrow> prepared_direct_batches \<Rightarrow> direct_edge list" where
  "batch_rest source st b = drop (emitted (batch_cursor b)) (fst (batch_trace source st b))"

definition batch_ready :: "batch_source \<Rightarrow> nat \<Rightarrow> prepared_direct_batches \<Rightarrow> bool" where
  "batch_ready source st b \<longleftrightarrow>
     stat_edges (prep_statistics (preparation b)) = length (fst (batch_trace source st b)) \<and>
     emitted (batch_cursor b) \<le> length (fst (batch_trace source st b)) \<and>
     emits (preparation b) (source_base source) (source_columns source) st (batch_cursor b)
       (batch_rest source st b, snd (batch_trace source st b))"

lemma take_batch_unfold:
  "take_batch source st n b =
     (case fill_batch (preparation b) (source_base source) (source_columns source) st (min (remaining_edges b) n) (batch_cursor b) of
        Some (Inr (edges, cur)) \<Rightarrow> Some (edges, commit_cursor b cur)
      | _ \<Rightarrow> None)"
  by (cases source) (simp_all add: take_batch_def prepare_next_batch_def prepare_next_composite_batch_def)

lemma take_batch_next:
  assumes ready: "batch_ready source st b"
  shows "\<exists>b'. take_batch source st n b = Some (take n (batch_rest source st b), b') \<and> batch_ready source st b' \<and>
    batch_rest source st b' = drop n (batch_rest source st b)"
proof -
  let ?rest = "batch_rest source st b" and ?stop = "snd (batch_trace source st b)"
  let ?k = "min (remaining_edges b) n"
  from ready have em: "emits (preparation b) (source_base source) (source_columns source) st (batch_cursor b) (?rest, ?stop)"
    and len: "remaining_edges b = length ?rest" "emitted (batch_cursor b) + length ?rest = length (fst (batch_trace source st b))"
    by (simp_all add: batch_ready_def batch_rest_def remaining_edges_def)
  from emits_fill [OF em, of ?k] len(1) obtain cur where
    fill: "fill_batch (preparation b) (source_base source) (source_columns source) st ?k (batch_cursor b) = Some (Inr (take ?k ?rest, cur))"
    and em': "emits (preparation b) (source_base source) (source_columns source) st cur (drop ?k ?rest, ?stop)"
    by auto
  have count: "emitted cur = emitted (batch_cursor b) + ?k" by (rule fill_batch_count [OF em fill])
  have k: "take ?k ?rest = take n ?rest" "drop ?k ?rest = drop n ?rest" using len(1) by (simp_all add: min_def)
  have trace: "batch_trace source st (commit_cursor b cur) = batch_trace source st b"
    by (simp add: batch_trace_def commit_cursor_def)
  have rest: "batch_rest source st (commit_cursor b cur) = drop n ?rest"
    using k(2) count by (simp add: batch_rest_def trace) (simp add: commit_cursor_def add.commute)
  have "batch_ready source st (commit_cursor b cur)"
  proof -
    from em' have "emits (preparation b) (source_base source) (source_columns source) st cur (drop n ?rest, ?stop)"
      by (simp only: k(2))
    moreover have "emitted cur \<le> length (fst (batch_trace source st b))"
      unfolding count len(2) [symmetric] len(1) by simp
    ultimately show ?thesis using ready unfolding batch_ready_def trace rest by (simp add: commit_cursor_def)
  qed
  with fill rest k show ?thesis by (simp add: take_batch_unfold)
qed

interpretation batches: resumable_output "take_batch source st" "batch_rest source st" "batch_ready source st" for source st
  by unfold_locales (rule take_batch_next)

lemma batch_ready_initial:
  assumes "st \<noteq> STATE_CANCELLED" and "emittable (preparation b) (source_base source)"
    and "batch_cursor b = initial_cursor"
    and "stat_edges (prep_statistics (preparation b)) = length (fst (batch_trace source st b))"
    and "fits (length (fst (batch_trace source st b)))"
  shows "batch_ready source st b" and "batch_rest source st b = fst (batch_trace source st b)"
proof -
  have e: "emitted initial_cursor = 0" by (simp add: initial_cursor_def)
  show rest: "batch_rest source st b = fst (batch_trace source st b)" using assms(3) e by (simp add: batch_rest_def)
  show "batch_ready source st b"
    using assms emission_emits [OF assms(1,2), of "source_columns source"] e
    by (simp add: batch_ready_def rest) (simp add: batch_trace_def)
qed


section \<open>Announced and emitted edges of a delta\<close>

lemma owned_edge_count_edges: "owned_edge_count rs r = Inr n \<Longrightarrow> n = length (role_edges rs s r d)"
  by (auto simp: owned_edge_count_def role_edges_def res_simps bind_eq_Some_conv split: option.splits if_splits)

lemma role_edges_default: "length (role_edges owned_role_state_default s r d) = 1"
  by (simp add: role_edges_def owned_role_state_default_def owned_subroles_for_def owned_inverse_for_def)

lemma restriction_edge_counts_exact:
  assumes "fold_res (\<lambda>(restriction_index, restriction) (edges, expansion).
         seq (check_cancel st restriction_index) (
         bnd (owned_edge_count rs (owned_relation restriction)) (\<lambda>expanded.
         bnd (ok_or Resource (checked_add edges expanded)) (\<lambda>edges'.
         bnd (ok_or Malformed (checked_sub expanded 1)) (\<lambda>extra.
         map_res (Pair edges') (ok_or Resource (checked_add expansion extra)))))))
       (enumerate k restrictions) (edges, expansion) = Inr (edges', expansion')"
  shows "edges' = edges + length (concat (map (\<lambda>r. role_edges rs source (owned_relation r) (owned_destination r)) restrictions)) \<and>
    edges' + expansion = edges + length restrictions + expansion'"
  using assms
proof (induction restrictions arbitrary: k edges expansion)
  case Nil
  then show ?case by simp
next
  case (Cons r restrictions)
  from Cons.prems obtain expanded where e: "owned_edge_count rs (owned_relation r) = Inr expanded" and le: "1 \<le> expanded"
    and f: "fold_res (\<lambda>(restriction_index, restriction) (edges, expansion).
         seq (check_cancel st restriction_index) (
         bnd (owned_edge_count rs (owned_relation restriction)) (\<lambda>expanded.
         bnd (ok_or Resource (checked_add edges expanded)) (\<lambda>edges'.
         bnd (ok_or Malformed (checked_sub expanded 1)) (\<lambda>extra.
         map_res (Pair edges') (ok_or Resource (checked_add expansion extra)))))))
       (enumerate (Suc k) restrictions) (edges + expanded, expansion + (expanded - 1)) = Inr (edges', expansion')"
    by (auto simp: res_simps)
  from le obtain m where m: "expanded = Suc m" by (cases expanded) auto
  from Cons.IH [OF f] owned_edge_count_edges [OF e, of source "owned_destination r"] show ?case by (simp add: m)
qed



section \<open>Projection modes\<close>

definition all_labels :: "text_str set \<Rightarrow> trace \<Rightarrow> bool" where
  "all_labels labels t \<longleftrightarrow> edge_label ` set (fst t) \<subseteq> labels"

lemma all_labels_followed: "all_labels labels a \<Longrightarrow> all_labels labels b \<Longrightarrow> all_labels labels (followed_by a b)"
  by (cases a; cases b; cases "snd a") (auto simp: all_labels_def)

lemma all_labels_none: "all_labels labels no_edges"
  by (simp add: all_labels_def no_edges_def)

lemma all_labels_joined: "(\<And>t. t \<in> set ts \<Longrightarrow> all_labels labels t) \<Longrightarrow> all_labels labels (joined ts)"
  by (induction ts) (simp_all add: all_labels_none all_labels_followed)

lemma taxonomy_labels: "edge_label ` set (taxonomy_edges options source destination) \<subseteq>
    (if bidirectional options then {SUBCLASS_OF, SUPERCLASS_OF} else {SUBCLASS_OF})"
  by (simp add: taxonomy_edges_def mk_edge_def)

lemma subclass_phase_labels:
  assumes "deltas_in_place prep c" and "\<not> projects_roles (prep_options prep)"
  shows "all_labels (if bidirectional (prep_options prep) then {SUBCLASS_OF, SUPERCLASS_OF} else {SUBCLASS_OF})
    (phase_edges prep c PhaseSubclasses HandleSubclass (subclass_edges prep c))"
proof -
  let ?labels = "if bidirectional (prep_options prep) then {SUBCLASS_OF, SUPERCLASS_OF} else {SUBCLASS_OF}"
  have shape: "all_labels ?labels (subclass_edges prep c shape)" for shape
    using assms(2)
    by (auto simp: subclass_edges_def all_labels_def lifted_def res_simps taxonomy_edges_def mk_edge_def split: option.splits planned_emission_shape.splits sum.splits)
  have root: "all_labels ?labels (root_edges prep c HandleSubclass (subclass_edges prep c) i)" for i
    using shape [of "emission_shape_at prep i"] all_labels_none
    by (auto simp: root_edges_def all_labels_def split: sum.split)
  have delta: "edge_label ` set (delta_edges rs (prep_options prep) projection) \<subseteq> ?labels"
    if "delta_phase projection = PhaseSubclasses" for rs projection
    using that assms(2) taxonomy_labels [of "prep_options prep"] by (cases projection) auto
  have inserted: "all_labels ?labels (inserted_edges prep PhaseSubclasses i)" for i
    using delta by (fastforce simp: all_labels_def inserted_edges_def deltas_at_def)
  have each: "all_labels ?labels t" if "t \<in> set (map (\<lambda>index. followed_by (inserted_edges prep PhaseSubclasses index)
      (root_edges prep c HandleSubclass (subclass_edges prep c) index)) [0 ..< root_count c])" for t
  proof -
    from that obtain i where "t = followed_by (inserted_edges prep PhaseSubclasses i)
      (root_edges prep c HandleSubclass (subclass_edges prep c) i)" by (auto simp del: followed_by.simps)
    then show ?thesis using all_labels_followed [OF inserted root] by simp
  qed
  show ?thesis
    unfolding phase_edges_def by (intro all_labels_followed all_labels_joined inserted each)
qed

text \<open>
  C12: In the asserted-taxonomy mode the cursor hands out class-hierarchy edges only: whatever
  axioms and local deltas the preparation holds, every edge of every batch is labelled as a
  subclass edge, or as its reversed superclass edge when the projection is bidirectional.
\<close>
theorem asserted_taxonomy_emits_hierarchy:
  assumes "st \<noteq> STATE_CANCELLED" and "emittable prep c" and "asserted_taxonomy_only (prep_options prep)"
    and "fits (length (fst (emission_trace prep c composite_columns st)))"
    and "fill_batch prep c composite_columns st amount initial_cursor = Some (Inr (edges, cur))"
  shows "edge_label ` set edges \<subseteq>
    (if bidirectional (prep_options prep) then {SUBCLASS_OF, SUPERCLASS_OF} else {SUBCLASS_OF})"
proof -
  obtain es stop where t: "emission_trace prep c composite_columns st = (es, stop)" by fastforce
  with assms(4) have "emits prep c composite_columns st initial_cursor (es, stop)"
    using emission_emits [OF assms(1,2), of composite_columns] by simp
  from emits_fill [OF this, of amount] assms(5) have "edges = take amount es" by (auto split: if_splits)
  moreover have "all_labels (if bidirectional (prep_options prep) then {SUBCLASS_OF, SUPERCLASS_OF} else {SUBCLASS_OF}) (es, stop)"
    using subclass_phase_labels [of prep c] assms(2,3) t
    by (simp add: emission_trace_def emittable_def projects_roles_def)
  ultimately show ?thesis by (auto simp: all_labels_def dest!: in_set_takeD)
qed

section \<open>A concrete run\<close>

text \<open>The axiom \<open>SubClassOf(a, b)\<close>, with a local restriction of \<open>b\<close> inserted after it.\<close>

definition taxonomy_table :: direct_columns where
  "taxonomy_table = encode_table (\<lambda>ch. [ch])
     [(TAG_IRI, [CText ''a'']), (TAG_ENTITY, [CEnum ''class'', CNode 1]),
      (TAG_IRI, [CText ''b'']), (TAG_ENTITY, [CEnum ''class'', CNode 3]),
      (TAG_SUB_CLASS_OF, [CNode 2, CNode 4, CSet []])]
     [(2, 5)]"

definition taxonomy_preparation :: direct_preparation where
  "taxonomy_preparation =
     \<lparr> prep_role_state = \<lparr> owned_subroles = [(''r'', [''s''])], owned_inverses = [(''r'', ''i'')] \<rparr>,
       prep_rule_indexes = [2], prep_emission_roots = [(0, EmitSubclassTaxonomy 2 4)],
       prep_aggregate_roots = [], prep_named_nodes = [], prep_restrictions = [],
       prep_anonymous_ids = anonymous_ids_default, prep_selected_annotation_nodes = None,
       prep_composite_annotation_roots = [], prep_composite_class_nodes = [], prep_composite_anonymous_nodes = [],
       prep_overlay_deltas = [\<lparr> delta_projection = DeltaRestriction ''b'' ''r'' ''a'', insertion_scan_index = 1,
         local_canonical_index = 0 \<rparr>],
       prep_local_classes = [], prep_local_class_positions = [], prep_class_groups = [],
       prep_options = direct_compile_options.make True False False False 10 10,
       prep_statistics = stats_zero\<lparr>stat_edges := 5\<rparr> \<rparr>"

definition taxonomy_batches :: prepared_direct_batches where
  "taxonomy_batches = \<lparr> preparation = taxonomy_preparation, batch_cursor = initial_cursor \<rparr>"

lemma taxonomy_batches_sel [simp]:
  "preparation taxonomy_batches = taxonomy_preparation" "batch_cursor taxonomy_batches = initial_cursor"
  by (simp_all add: taxonomy_batches_def)

lemma taxonomy_preparation_emittable: "emittable taxonomy_preparation taxonomy_table"
  by (simp add: emittable_def roles_fit_def deltas_in_place_def taxonomy_preparation_def taxonomy_table_def table_eval
      delta_position_def fits_def)

lemma taxonomy_table_reads:
  "root_count taxonomy_table = 1" "root_is_selected taxonomy_table 0 = Inr True"
  "named_class_iri taxonomy_table 2 10 = Inr ''a''" "named_class_iri taxonomy_table 4 10 = Inr ''b''"
  by (simp_all add: taxonomy_table_def table_eval root_is_selected_def named_class_iri_def validator_defs lower_bound.simps)

lemma taxonomy_rule:
  "prep_rule_at taxonomy_preparation 0 = Inr (ROOT_RULES ! Suc 0)" "handler (ROOT_RULES ! Suc 0) = HandleSubclass"
  "domain_range_effect (ROOT_RULES ! Suc 0) = NoDomainRange"
  by (simp_all add: prep_rule_at_def resolved_root_rule_at_def rule_by_index_def taxonomy_preparation_def rules_length
      get_at_def checked_sub_def) (simp_all add: ROOT_RULES_def)

lemma taxonomy_prep_sel:
  "prep_role_state taxonomy_preparation = \<lparr> owned_subroles = [(''r'', [''s''])], owned_inverses = [(''r'', ''i'')] \<rparr>"
  "prep_options taxonomy_preparation = direct_compile_options.make True False False False 10 10"
  "prep_overlay_deltas taxonomy_preparation =
     [\<lparr> delta_projection = DeltaRestriction ''b'' ''r'' ''a'', insertion_scan_index = 1, local_canonical_index = 0 \<rparr>]"
  "emission_shape_at taxonomy_preparation 0 = Some (EmitSubclassTaxonomy 2 4)"
  by (simp_all add: taxonomy_preparation_def emission_shape_at_def planned_at_def binary_search_by_key_def
     binary_search_in.simps cmp_def)

lemma taxonomy_trace:
  "emission_trace taxonomy_preparation taxonomy_table None STATE_RUNNING =
    ([mk_edge ''a'' SUBCLASS_OF ''b'', mk_edge ''b'' SUPERCLASS_OF ''a'',
      mk_edge ''b'' ''r'' ''a'', mk_edge ''b'' ''s'' ''a'', mk_edge ''a'' ''i'' ''b''], None)"
proof -
  note reads = taxonomy_table_reads taxonomy_rule taxonomy_prep_sel direct_compile_options.defs
  have d: "inserted_edges taxonomy_preparation PhaseSubclasses 0 = no_edges"
    "inserted_edges taxonomy_preparation PhaseSubclasses 1 =
      ([mk_edge ''b'' ''r'' ''a'', mk_edge ''b'' ''s'' ''a'', mk_edge ''a'' ''i'' ''b''], None)"
    "p \<noteq> PhaseSubclasses \<Longrightarrow> inserted_edges taxonomy_preparation p i = no_edges" for p i
    by (simp_all add: inserted_edges_def deltas_at_def reads projects_roles_def role_edges_def no_edges_def
        owned_subroles_for_def owned_inverse_for_def)
  have r: "root_edges taxonomy_preparation taxonomy_table HandleSubclass
      (subclass_edges taxonomy_preparation taxonomy_table) 0 =
      ([mk_edge ''a'' SUBCLASS_OF ''b'', mk_edge ''b'' SUPERCLASS_OF ''a''], None)"
    "h \<noteq> HandleSubclass \<Longrightarrow> root_edges taxonomy_preparation taxonomy_table h f 0 = no_edges" for h f
    by (simp_all add: root_edges_def reads subclass_edges_def taxonomy_edges_def)
  have l: "later_phases taxonomy_preparation taxonomy_table None STATE_RUNNING = no_edges"
    by (simp add: later_phases_def phase_edges_def reads d r annotation_phase_edges_def domain_range_edges_def
        base_object_property_class_at_def no_edges_def paired_properties_def List.map_filter_def)
  show ?thesis
    by (simp add: emission_trace_def l phase_edges_def reads d [simplified] r) 
qed



text \<open>The same run in the asserted-taxonomy mode: the restriction is silent.\<close>

definition asserted_preparation :: direct_preparation where
  "asserted_preparation = taxonomy_preparation\<lparr>prep_options := direct_compile_options.make False True False False 10 10\<rparr>"

lemma asserted_trace:
  "emission_trace asserted_preparation taxonomy_table None STATE_RUNNING = ([mk_edge ''a'' SUBCLASS_OF ''b''], None)"
proof -
  have o: "prep_options asserted_preparation = direct_compile_options.make False True False False 10 10"
    "prep_overlay_deltas asserted_preparation = prep_overlay_deltas taxonomy_preparation"
    "prep_rule_at asserted_preparation i = prep_rule_at taxonomy_preparation i"
    "emission_shape_at asserted_preparation i = emission_shape_at taxonomy_preparation i" for i
    by (simp_all add: asserted_preparation_def prep_rule_at_def emission_shape_at_def)
  show ?thesis
    by (simp add: emission_trace_def phase_edges_def inserted_edges_def deltas_at_def root_edges_def o subclass_edges_def
        taxonomy_edges_def projects_roles_def taxonomy_table_reads taxonomy_rule taxonomy_prep_sel direct_compile_options.defs)
qed

theorem asserted_taxonomy_emits_hierarchy_witness:
  "\<exists>edges cur. fill_batch asserted_preparation taxonomy_table None STATE_RUNNING 1 initial_cursor = Some (Inr (edges, cur)) \<and>
     edge_label ` set edges \<subseteq> {SUBCLASS_OF} \<and> edges = [mk_edge ''a'' SUBCLASS_OF ''b'']"
proof -
  have run: "STATE_RUNNING \<noteq> STATE_CANCELLED" by (simp add: STATE_RUNNING_def STATE_CANCELLED_def)
  have ok: "emittable asserted_preparation taxonomy_table"
    using taxonomy_preparation_emittable by (simp add: emittable_def asserted_preparation_def deltas_in_place_def)
  have f: "fits (length (fst (emission_trace asserted_preparation taxonomy_table None STATE_RUNNING)))"
    by (simp add: asserted_trace fits_small)
  obtain cur where fill: "fill_batch asserted_preparation taxonomy_table None STATE_RUNNING 1 initial_cursor =
      Some (Inr ([mk_edge ''a'' SUBCLASS_OF ''b''], cur))"
    using emits_fill [OF emission_emits [OF run ok f, unfolded asserted_trace], of 1] by auto
  have a: "asserted_taxonomy_only (prep_options asserted_preparation)" "\<not> bidirectional (prep_options asserted_preparation)"
    by (simp_all add: asserted_preparation_def direct_compile_options.defs)
  from asserted_taxonomy_emits_hierarchy [OF run ok a(1) f fill] fill a(2) show ?thesis by auto
qed

end
