(* ===== verification/Provenance.thy ===== *)
theory Provenance
  imports Root_Plan
begin

text \<open>
  Which annotation assertions of a closure table belong to the root document
  (\<open>DirectColumns::structurally_equal_node\<close> and \<open>select_root_annotation_nodes\<close>). Node
  numbers are local to a table, so two nodes are compared by walking both tables in step. The
  \<open>Vec\<close> used as a stack is a list with its top first; a comparison that has found a
  difference is \<open>None\<close> (\<open>return Ok(false)\<close>).
\<close>

section \<open>Comparing two nodes across tables\<close>

type_synonym node_pair = "usize \<times> usize"

definition scalar_range :: "direct_columns \<Rightarrow> usize \<Rightarrow> usize \<Rightarrow> bytes kres" where
  "scalar_range c start len =
     bnd (ok_or Malformed (checked_add start len)) (\<lambda>stop.
     ok_or Malformed (get_range (scalar_bytes c) start stop))"

definition is_scalar_kind :: "nat \<Rightarrow> bool" where
  "is_scalar_kind kind \<longleftrightarrow>
     kind = COMPONENT_TEXT \<or> kind = COMPONENT_BYTES \<or> kind = COMPONENT_INTEGER \<or> kind = COMPONENT_ENUM"

definition queue_pair :: "node_pair list \<Rightarrow> node_pair \<Rightarrow> node_pair list \<Rightarrow> node_pair list" where
  "queue_pair visited pair pend = (if pair \<in> set visited \<or> pair \<in> set pend then pend else pair # pend)"

text \<open>A component that is neither a collection nor of unknown kind; the last argument is what
  the caller does with any other kind.\<close>

definition compare_component :: "direct_columns \<Rightarrow> direct_columns \<Rightarrow> node_pair list \<Rightarrow> nat \<Rightarrow> usize \<Rightarrow> usize
    \<Rightarrow> usize \<Rightarrow> usize \<Rightarrow> node_pair list \<Rightarrow> node_pair list option kres \<Rightarrow> node_pair list option kres" where
  "compare_component c other visited kind left_value right_value left_length right_length pend otherwise =
     (if kind = COMPONENT_NONE then
        Inr (if left_value \<noteq> 0 \<or> right_value \<noteq> 0 then None else Some pend)
      else if kind = COMPONENT_NODE then
        bnd (checked_node_id c left_value) (\<lambda>left_node.
        map_res (\<lambda>right_node. Some (queue_pair visited (left_node, right_node) pend))
          (checked_node_id other right_value))
      else if is_scalar_kind kind then
        bnd (scalar_range c left_value left_length) (\<lambda>left_bytes.
        map_res (\<lambda>right_bytes. if left_bytes \<noteq> right_bytes then None else Some pend)
          (scalar_range other right_value right_length))
      else otherwise)"

definition compare_item :: "direct_columns \<Rightarrow> direct_columns \<Rightarrow> node_pair list \<Rightarrow> usize \<Rightarrow> usize \<Rightarrow> usize
    \<Rightarrow> node_pair list option \<Rightarrow> node_pair list option kres" where
  "compare_item c other visited left_value right_value item_offset state = (case state of
     None \<Rightarrow> Inr None
   | Some pend \<Rightarrow>
       (let left_item = left_value + item_offset; right_item = right_value + item_offset in
        bnd (read_u8 (item_kinds c) left_item) (\<lambda>item_kind.
        bnd (read_u8 (item_kinds other) right_item) (\<lambda>other_kind.
        if item_kind \<noteq> other_kind then Inr None else
        bnd (read_usize (item_values c) left_item) (\<lambda>left_item_value.
        bnd (read_usize (item_values other) right_item) (\<lambda>right_item_value.
        bnd (read_usize (item_lengths c) left_item) (\<lambda>left_item_length.
        bnd (read_usize (item_lengths other) right_item) (\<lambda>right_item_length.
        if left_item_length \<noteq> right_item_length then Inr None else
        compare_component c other visited item_kind left_item_value right_item_value
          left_item_length right_item_length pend (Inl Malformed)))))))))"

definition compare_field :: "direct_columns \<Rightarrow> direct_columns \<Rightarrow> node_pair list \<Rightarrow> usize \<Rightarrow> usize \<Rightarrow> usize
    \<Rightarrow> node_pair list option \<Rightarrow> node_pair list option kres" where
  "compare_field c other visited left_start right_start offset state = (case state of
     None \<Rightarrow> Inr None
   | Some pend \<Rightarrow>
       (let left_field = left_start + offset; right_field = right_start + offset in
        bnd (field_kind c left_field) (\<lambda>kind.
        bnd (field_kind other right_field) (\<lambda>other_kind.
        if kind \<noteq> other_kind then Inr None else
        bnd (field_value c left_field) (\<lambda>left_value.
        bnd (field_value other right_field) (\<lambda>right_value.
        bnd (field_length c left_field) (\<lambda>left_length.
        bnd (field_length other right_field) (\<lambda>right_length.
        if left_length \<noteq> right_length then Inr None else
        compare_component c other visited kind left_value right_value left_length right_length pend
          (if kind = COMPONENT_SET \<or> kind = COMPONENT_SEQUENCE
           then fold_res (compare_item c other visited left_value right_value) [0 ..< left_length] (Some pend)
           else Inl Malformed)))))))))"

text \<open>One pair: its tags, its numbers of fields, then its fields in order.\<close>

definition compare_pair :: "direct_columns \<Rightarrow> direct_columns \<Rightarrow> node_pair list \<Rightarrow> node_pair \<Rightarrow> node_pair list
    \<Rightarrow> node_pair list option kres" where
  "compare_pair c other visited pair pend =
     bnd (node_tag c (fst pair)) (\<lambda>left_tag.
     bnd (node_tag other (snd pair)) (\<lambda>right_tag.
     if left_tag \<noteq> right_tag then Inr None else
     bnd (field_range c (fst pair)) (\<lambda>(left_start, left_end).
     bnd (field_range other (snd pair)) (\<lambda>(right_start, right_end).
     if left_end - left_start \<noteq> right_end - right_start then Inr None else
     fold_res (compare_field c other visited left_start right_start) [0 ..< left_end - left_start] (Some pend)))))"

lemma compare_pair_valid:
  "compare_pair c other visited pair pend = Inr r \<Longrightarrow> pair \<in> {1 .. node_count c} \<times> {1 .. node_count other}"
  by (cases pair) (auto simp: compare_pair_def node_tag_def checked_node_id_def res_simps split: if_splits)

function equality_walk :: "direct_columns \<Rightarrow> direct_columns \<Rightarrow> nat \<Rightarrow> node_pair list \<Rightarrow> node_pair list \<Rightarrow> bool kres" where
  "equality_walk c other st visited [] = Inr True"
| "equality_walk c other st visited (pair # pend) =
     seq (check_cancel st (length visited)) (
     if pair \<in> set visited then equality_walk c other st visited pend else
     bnd (compare_pair c other (visited @ [pair]) pair pend) (\<lambda>r. case r of
       None \<Rightarrow> Inr False
     | Some pend' \<Rightarrow> equality_walk c other st (visited @ [pair]) pend'))"
  by pat_completeness auto
termination
proof (relation "measures [\<lambda>(c, other, st, visited, pend).
    card ({1 .. node_count c} \<times> {1 .. node_count other} - set visited), \<lambda>(c, other, st, visited, pend). length pend]")
  fix c other st visited and pair :: node_pair and pend x r pend'
  assume new: "pair \<notin> set visited" and r: "compare_pair c other (visited @ [pair]) pair pend = Inr r"
  let ?V = "{1 .. node_count c} \<times> {1 .. node_count other}"
  from compare_pair_valid [OF r] new have "?V - set (visited @ [pair]) \<subset> ?V - set visited" by auto
  then have "card (?V - set (visited @ [pair])) < card (?V - set visited)"
    by (intro psubset_card_mono) simp_all
  then show "((c, other, st, visited @ [pair], pend'), (c, other, st, visited, pair # pend)) \<in> measures [\<lambda>(c, other, st, visited, pend).
    card ({1 .. node_count c} \<times> {1 .. node_count other} - set visited), \<lambda>(c, other, st, visited, pend). length pend]"
    by simp
qed simp_all

definition structurally_equal_node :: "direct_columns \<Rightarrow> usize \<Rightarrow> direct_columns \<Rightarrow> usize \<Rightarrow> nat \<Rightarrow> bool kres" where
  "structurally_equal_node c left_node other right_node st = equality_walk c other st [] [(left_node, right_node)]"

section \<open>Selecting the annotations of the root document\<close>

text \<open>The inner \<open>while\<close>: the closure cursor after the first matching root, and its node.\<close>

function next_closure_match :: "direct_columns \<Rightarrow> nat list \<Rightarrow> direct_columns \<Rightarrow> usize \<Rightarrow> nat \<Rightarrow> usize
    \<Rightarrow> (usize \<times> usize option) kres" where
  "next_closure_match c closure_rule_indexes root_columns root_node st closure_index =
     (if closure_index < root_count c then
        bnd (root_is_selected c closure_index) (\<lambda>chosen.
        if \<not> chosen then next_closure_match c closure_rule_indexes root_columns root_node st (closure_index + 1) else
        bnd (root_id c closure_index) (\<lambda>candidate.
        bnd (resolved_root_rule_at closure_rule_indexes closure_index) (\<lambda>rule.
        bnd (if handler rule = HandleAnnotationAssertion
             then structurally_equal_node c candidate root_columns root_node st else Inr False) (\<lambda>equal.
        if equal then Inr (closure_index + 1, Some candidate)
        else next_closure_match c closure_rule_indexes root_columns root_node st (closure_index + 1)))))
      else Inr (closure_index, None))"
  by pat_completeness auto
termination
  by (relation "measure (\<lambda>(c, closure_rule_indexes, root_columns, root_node, st, closure_index). root_count c - closure_index)") auto

declare next_closure_match.simps [simp del]

definition select_step :: "direct_columns \<Rightarrow> nat list \<Rightarrow> direct_columns \<Rightarrow> nat list \<Rightarrow> nat \<Rightarrow> usize
    \<Rightarrow> usize \<times> usize list \<Rightarrow> (usize \<times> usize list) kres" where
  "select_step c closure_rule_indexes root_columns root_rule_indexes st root_index s =
     (case s of (closure_index, chosen_nodes) \<Rightarrow>
     seq (check_cancel st root_index) (
     bnd (root_is_selected root_columns root_index) (\<lambda>chosen.
     if \<not> chosen then Inr s else
     bnd (resolved_root_rule_at root_rule_indexes root_index) (\<lambda>rule.
     bnd (root_id root_columns root_index) (\<lambda>root_node.
     if handler rule \<noteq> HandleAnnotationAssertion then Inr s else
     bnd (next_closure_match c closure_rule_indexes root_columns root_node st closure_index) (\<lambda>(closure_index', matched).
     map_res (\<lambda>candidate. (closure_index', chosen_nodes @ [candidate])) (ok_or Malformed matched)))))))"

definition select_root_annotation_nodes :: "direct_columns \<Rightarrow> nat list \<Rightarrow> direct_columns \<Rightarrow> nat list \<Rightarrow> nat
    \<Rightarrow> usize list kres" where
  "select_root_annotation_nodes c closure_rule_indexes root_columns root_rule_indexes st =
     map_res snd (fold_res (select_step c closure_rule_indexes root_columns root_rule_indexes st)
       [0 ..< root_count root_columns] (0, []))"

end
