(* ===== verification/Preparation.thy ===== *)
theory Preparation
  imports Provenance Emission
begin

text \<open>
  The preflight of one table (\<open>prepare_direct\<close> and the counters it calls): validation, the root
  plan, the role state, the exact number of edges of every kind, the limit on it, and the
  record the emission cursor works from. Nothing is emitted here; the number announced in
  the statistics is what the batches later hand out.
\<close>

section \<open>Role state\<close>

definition planned_rows :: "nat \<Rightarrow> planned_role_effect planned_root list \<Rightarrow> role_axiom list kres" where
  "planned_rows st roots =
     fold_res (\<lambda>(index, planned) rows.
         seq (check_cancel st index) (case snd planned of
           PropertyChainEffect \<Rightarrow> Inr rows
         | RowEffect row \<Rightarrow> Inr (rows @ [row])))
       (enumerate 0 roots) []"

definition has_local_tag :: "role_axiom option \<Rightarrow> nat \<Rightarrow> usize" where
  "has_local_tag local_axiom tag =
     (case local_axiom of None \<Rightarrow> 0 | Some axiom \<Rightarrow> if ra_tag axiom = tag then 1 else 0)"

definition build_role_state :: "root_counts \<Rightarrow> usize \<Rightarrow> nat \<Rightarrow> owned_role_state option
    \<Rightarrow> selected_root_rule_plan \<Rightarrow> role_axiom option \<Rightarrow> role_state kres" where
  "build_role_state counts maximum st retained plan local_axiom =
     bnd (role_axioms counts) (\<lambda>table_axioms.
     bnd (ok_or Resource (checked_add table_axioms (if local_axiom \<noteq> None then 1 else 0))) (\<lambda>role_axiom_count.
     bnd (planned_rows st (role_roots plan)) (\<lambda>table_rows.
     let rows = table_rows @ (case local_axiom of None \<Rightarrow> [] | Some axiom \<Rightarrow> [axiom]) in
     bnd (ok_or Resource (checked_add (length rows) (n_object_property_chains counts))) (\<lambda>row_count.
     if row_count \<noteq> role_axiom_count then Inl Malformed else
     bnd (ok_or Malformed (Option.bind (checked_sub (n_sub_object_properties counts) (n_object_property_chains counts))
            (\<lambda>n. checked_add n (has_local_tag local_axiom TAG_SUB_OBJECT_PROPERTY_OF)))) (\<lambda>subrole_axioms.
     bnd (ok_or Resource (checked_add (n_inverse_object_properties counts)
            (has_local_tag local_axiom TAG_INVERSE_OBJECT_PROPERTIES))) (\<lambda>inverse_axioms.
     build_role_state_from_rows rows role_axiom_count subrole_axioms inverse_axioms retained maximum st))))))"

section \<open>Edge counts\<close>

record equivalent_edge_counts_t =
  ec_edges :: usize
  ec_base_role_edges :: usize
  ec_expanded_role_edges :: usize
  ec_ignored_shapes :: usize

definition equivalent_edge_counts_default :: equivalent_edge_counts_t where
  "equivalent_edge_counts_default =
     \<lparr> ec_edges = 0, ec_base_role_edges = 0, ec_expanded_role_edges = 0, ec_ignored_shapes = 0 \<rparr>"

record annotation_edge_counts_t =
  ac_edges :: usize
  ac_non_string_literals :: usize

definition annotation_edge_counts_default :: annotation_edge_counts_t where
  "annotation_edge_counts_default = \<lparr> ac_edges = 0, ac_non_string_literals = 0 \<rparr>"

text \<open>The loop over the roots every counter starts with: selected roots and their rules.\<close>

definition selected_step :: "selected_root_rule_plan \<Rightarrow> direct_columns \<Rightarrow> nat
    \<Rightarrow> (usize \<Rightarrow> root_rule \<Rightarrow> 's \<Rightarrow> 's kres) \<Rightarrow> usize \<Rightarrow> 's \<Rightarrow> 's kres" where
  "selected_step plan c st f root_index s =
     seq (check_cancel st root_index) (
     bnd (root_is_selected c root_index) (\<lambda>chosen.
     if \<not> chosen then Inr s else bnd (rule_at plan root_index) (\<lambda>rule. f root_index rule s)))"

definition count_named_operand :: "nat \<Rightarrow> usize \<Rightarrow> usize \<times> planned_aggregate_named_operand
    \<Rightarrow> equivalent_edge_counts_t \<Rightarrow> equivalent_edge_counts_t kres" where
  "count_named_operand st dirs operand counts =
     seq (check_cancel st (fst operand)) (add_stat ec_edges ec_edges_update dirs counts)"

definition count_restriction_operand :: "nat \<Rightarrow> role_state \<Rightarrow> usize \<times> planned_aggregate_restriction_operand
    \<Rightarrow> equivalent_edge_counts_t \<Rightarrow> equivalent_edge_counts_t kres" where
  "count_restriction_operand st rs operand counts =
     seq (check_cancel st (fst operand)) (case operand_projection (snd operand) of
       None \<Rightarrow> Inr counts
     | Some (relation, _) \<Rightarrow>
         bnd (edge_count rs relation) (\<lambda>expanded.
         bnd (add_stat ec_edges ec_edges_update expanded counts) (\<lambda>counts1.
         bnd (bump ec_base_role_edges ec_base_role_edges_update counts1)
             (add_stat ec_expanded_role_edges ec_expanded_role_edges_update expanded))))"

definition equivalent_count_step :: "selected_root_rule_plan \<Rightarrow> role_state \<Rightarrow> usize \<Rightarrow> bool \<Rightarrow> nat \<Rightarrow> usize
    \<Rightarrow> root_rule \<Rightarrow> equivalent_edge_counts_t \<Rightarrow> equivalent_edge_counts_t kres" where
  "equivalent_count_step plan rs dirs taxonomy_only st root_index rule counts =
     (if handler rule \<noteq> HandleEquivalentClasses then Inr counts else
      case shape_at plan root_index of
        Some (EquivalentShape (EquivalentPair _ _ _ _)) \<Rightarrow> add_stat ec_edges ec_edges_update dirs counts
      | Some (EquivalentShape (EquivalentAggregate _ _ _)) \<Rightarrow>
          bnd (ok_or Malformed (aggregate_at plan root_index)) (\<lambda>aggregate.
          bnd (plan_named_operands plan aggregate) (\<lambda>named.
          bnd (fold_res (count_named_operand st dirs) (enumerate 0 named) counts) (\<lambda>counts1.
          if taxonomy_only then Inr counts1 else
          bnd (add_stat ec_ignored_shapes ec_ignored_shapes_update (planned_ignored_shapes aggregate) counts1) (\<lambda>counts2.
          bnd (plan_restriction_operands plan aggregate) (\<lambda>restrictions.
          fold_res (count_restriction_operand st rs) (enumerate 0 restrictions) counts2)))))
      | Some (EquivalentShape EquivalentIgnored) \<Rightarrow> bump ec_ignored_shapes ec_ignored_shapes_update counts
      | _ \<Rightarrow> Inl Malformed)"

definition equivalent_edge_counts :: "direct_columns \<Rightarrow> selected_root_rule_plan \<Rightarrow> role_state \<Rightarrow> usize \<Rightarrow> bool
    \<Rightarrow> nat \<Rightarrow> equivalent_edge_counts_t kres" where
  "equivalent_edge_counts c plan rs dirs taxonomy_only st =
     fold_res (selected_step plan c st (equivalent_count_step plan rs dirs taxonomy_only st))
       [0 ..< root_count c] equivalent_edge_counts_default"

definition count_annotation :: "direct_columns \<Rightarrow> usize \<Rightarrow> nat \<Rightarrow> usize \<Rightarrow> annotation_edge_counts_t
    \<Rightarrow> annotation_edge_counts_t kres" where
  "count_annotation c maximum st node_id counts =
     bnd (annotation_projection c node_id maximum st) (\<lambda>r. case r of
       None \<Rightarrow> Inr counts
     | Some projection \<Rightarrow>
         bnd (bump ac_edges ac_edges_update counts)
           (case ap_value projection of
              Typed _ _ \<Rightarrow> bump ac_non_string_literals ac_non_string_literals_update
            | _ \<Rightarrow> Inr))"

definition annotation_edge_counts :: "direct_columns \<Rightarrow> nat list \<Rightarrow> usize \<Rightarrow> nat \<Rightarrow> annotation_edge_counts_t kres" where
  "annotation_edge_counts c root_rule_indexes maximum st =
     fold_res (\<lambda>root_index counts.
         seq (check_cancel st root_index) (
         bnd (root_is_selected c root_index) (\<lambda>chosen.
         if \<not> chosen then Inr counts else
         bnd (root_id c root_index) (\<lambda>node_id.
         bnd (resolved_root_rule_at root_rule_indexes root_index) (\<lambda>rule.
         if handler rule \<noteq> HandleAnnotationAssertion then Inr counts
         else count_annotation c maximum st node_id counts)))))
       [0 ..< root_count c] annotation_edge_counts_default"

definition selected_annotation_edge_counts :: "direct_columns \<Rightarrow> usize list \<Rightarrow> usize \<Rightarrow> nat
    \<Rightarrow> annotation_edge_counts_t kres" where
  "selected_annotation_edge_counts c selected_roots maximum st =
     fold_res (\<lambda>(index, node_id) counts. seq (check_cancel st index) (count_annotation c maximum st node_id counts))
       (enumerate 0 selected_roots) annotation_edge_counts_default"

definition restriction_count_step :: "selected_root_rule_plan \<Rightarrow> role_state \<Rightarrow> usize \<Rightarrow> root_rule \<Rightarrow> usize \<Rightarrow> usize kres" where
  "restriction_count_step plan rs root_index rule found =
     (if handler rule \<noteq> HandleSubclass then Inr found else
      case shape_at plan root_index of
        Some (SubclassShape (SubclassRestriction _ relation _)) \<Rightarrow>
          bnd (edge_count rs relation) (\<lambda>n. ok_or Resource (checked_add found n))
      | Some (SubclassShape _) \<Rightarrow> Inr found
      | _ \<Rightarrow> Inl Malformed)"

definition restriction_role_edge_count :: "direct_columns \<Rightarrow> selected_root_rule_plan \<Rightarrow> role_state \<Rightarrow> nat \<Rightarrow> usize kres" where
  "restriction_role_edge_count c plan rs st =
     fold_res (selected_step plan c st (restriction_count_step plan rs)) [0 ..< root_count c] 0"

definition range_count_step :: "selected_root_rule_plan \<Rightarrow> role_state \<Rightarrow> text_str \<Rightarrow> usize \<Rightarrow> root_rule
    \<Rightarrow> usize \<times> usize \<Rightarrow> (usize \<times> usize) kres" where
  "range_count_step plan rs domain_property range_root rule s =
     (case s of (products, edges) \<Rightarrow>
      if domain_range_effect rule \<noteq> RangeEffect then Inr s else
      case shape_at plan range_root of
        Some (ObjectPropertyClassShape None) \<Rightarrow> Inr s
      | Some (ObjectPropertyClassShape (Some (range_property, _))) \<Rightarrow>
          if domain_property = range_property then
            bnd (ok_or Resource (checked_add products 1)) (\<lambda>products'.
            bnd (edge_count rs domain_property) (\<lambda>n.
            map_res (Pair products') (ok_or Resource (checked_add edges n))))
          else Inr s
      | _ \<Rightarrow> Inl Malformed)"

definition domain_count_step :: "direct_columns \<Rightarrow> selected_root_rule_plan \<Rightarrow> role_state \<Rightarrow> nat \<Rightarrow> usize \<Rightarrow> root_rule
    \<Rightarrow> usize \<times> usize \<Rightarrow> (usize \<times> usize) kres" where
  "domain_count_step c plan rs st domain_root rule s =
     (if domain_range_effect rule \<noteq> DomainEffect then Inr s else
      case shape_at plan domain_root of
        Some (ObjectPropertyClassShape None) \<Rightarrow> Inr s
      | Some (ObjectPropertyClassShape (Some (domain_property, _))) \<Rightarrow>
          fold_res (selected_step plan c st (range_count_step plan rs domain_property)) [0 ..< root_count c] s
      | _ \<Rightarrow> Inl Malformed)"

definition domain_range_edge_count :: "direct_columns \<Rightarrow> selected_root_rule_plan \<Rightarrow> role_state \<Rightarrow> nat
    \<Rightarrow> (usize \<times> usize) kres" where
  "domain_range_edge_count c plan rs st =
     fold_res (selected_step plan c st (domain_count_step c plan rs st)) [0 ..< root_count c] (0, 0)"

section \<open>Preparing a table\<close>

definition effective_plan :: "direct_columns \<Rightarrow> usize \<Rightarrow> nat \<Rightarrow> selected_root_rule_plan option
    \<Rightarrow> selected_root_rule_plan kres" where
  "effective_plan c maximum st preclassified = (case preclassified of
     Some plan \<Rightarrow>
       if length (rule_indexes plan) \<noteq> root_count c then Inl Malformed else
       bnd (selected_root_count c) (\<lambda>expected.
       if plan_selected plan \<noteq> expected then Inl Malformed else Inr plan)
   | None \<Rightarrow> resolve_selected_root_rule_plan_unbounded c maximum st)"

definition root_annotations :: "direct_columns \<Rightarrow> direct_columns option \<Rightarrow> usize \<Rightarrow> nat \<Rightarrow> selected_root_rule_plan
    \<Rightarrow> usize list option kres" where
  "root_annotations c root_annotation_columns maximum st plan = (case root_annotation_columns of
     None \<Rightarrow> Inr None
   | Some root_columns \<Rightarrow>
       seq (validate_generic root_columns st) (
       seq (validate_supported_nodes root_columns maximum st) (
       bnd (resolve_selected_root_rule_plan_unbounded root_columns maximum st) (\<lambda>root_plan.
       bnd (select_root_annotation_nodes c (rule_indexes plan) root_columns (rule_indexes root_plan) st) (\<lambda>chosen.
       if length chosen \<noteq> n_annotation_assertions (plan_counts root_plan) then Inl Malformed
       else Inr (Some chosen))))))"

definition prepared_role_state :: "direct_compile_options \<Rightarrow> nat \<Rightarrow> owned_role_state option \<Rightarrow> role_state option
    \<Rightarrow> selected_root_rule_plan \<Rightarrow> role_axiom option \<Rightarrow> role_state kres" where
  "prepared_role_state options st retained role_state_override plan local_role_axiom =
     (if asserted_taxonomy_only options then Inr role_state_default else
      case role_state_override of
        Some rs \<Rightarrow> if local_role_axiom \<noteq> None then Inl Malformed else Inr rs
      | None \<Rightarrow> build_role_state (plan_counts plan) (max_iri_bytes options) st retained plan local_role_axiom)"

text \<open>The numbers of edges \<open>prepare_direct\<close> adds up.\<close>

record projected_edges =
  pe_taxonomy :: usize
  pe_equivalent :: equivalent_edge_counts_t
  pe_equivalent_base :: usize
  pe_restriction :: usize
  pe_class_assertion :: usize
  pe_object_assertion :: usize
  pe_annotation :: annotation_edge_counts_t
  pe_skipped :: usize
  pe_domain_range :: usize
  pe_expanded_domain_range :: usize
  pe_role_expansion :: usize
  pe_total :: usize

definition unless_asserted :: "direct_compile_options \<Rightarrow> 'a \<Rightarrow> 'a kres \<Rightarrow> 'a kres" where
  "unless_asserted options skipped m = (if asserted_taxonomy_only options then Inr skipped else m)"

definition checked_sum :: "usize list \<Rightarrow> usize option" where
  "checked_sum ns = foldl (\<lambda>acc n. Option.bind acc (\<lambda>a. checked_add a n)) (Some 0) ns"

definition count_projected_edges :: "direct_columns \<Rightarrow> direct_compile_options \<Rightarrow> nat \<Rightarrow> selected_root_rule_plan
    \<Rightarrow> role_state \<Rightarrow> usize list option \<Rightarrow> projected_edges kres" where
  "count_projected_edges c options st plan rs selected_nodes =
     (let counts = plan_counts plan; dirs = directions options in
      bnd (ok_or Malformed (Option.bind (checked_sub (n_subclasses counts) (n_restriction_subclasses counts))
             (\<lambda>n. checked_sub n (n_ignored_subclasses counts)))) (\<lambda>direct_subclasses.
      bnd (ok_or Resource (checked_mul direct_subclasses dirs)) (\<lambda>taxonomy.
      bnd (unless_asserted options equivalent_edge_counts_default
             (equivalent_edge_counts c plan rs dirs (only_taxonomy options) st)) (\<lambda>ec.
      bnd (ok_or Malformed (checked_sub (ec_expanded_role_edges ec) (ec_base_role_edges ec))) (\<lambda>ec_expansion.
      bnd (ok_or Malformed (checked_sub (ec_edges ec) ec_expansion)) (\<lambda>ec_base.
      bnd (if asserted_taxonomy_only options \<or> only_taxonomy options then Inr 0
           else restriction_role_edge_count c plan rs st) (\<lambda>restriction.
      bnd (unless_asserted options 0
             (ok_or Malformed (checked_sub (n_class_assertions counts) (n_ignored_class_assertions counts)))) (\<lambda>class_edges.
      let object_edges = (if asserted_taxonomy_only options then 0 else n_object_property_assertions counts) in
      bnd (if asserted_taxonomy_only options \<or> \<not> include_literals options then Inr annotation_edge_counts_default
           else case selected_nodes of
             Some chosen \<Rightarrow> selected_annotation_edge_counts c chosen (max_iri_bytes options) st
           | None \<Rightarrow> annotation_edge_counts c (rule_indexes plan) (max_iri_bytes options) st) (\<lambda>ac.
      bnd (unless_asserted options 0 (skipped_axioms plan options st)) (\<lambda>skipped.
      bnd (unless_asserted options (0, 0) (domain_range_edge_count c plan rs st)) (\<lambda>(products, expanded).
      bnd (unless_asserted options 0 (ok_or Resource (Option.bind
             (checked_add products (if only_taxonomy options then 0 else n_restriction_subclasses counts))
             (\<lambda>n. checked_add n (ec_base_role_edges ec))))) (\<lambda>base_role.
      bnd (ok_or Resource (Option.bind (checked_add restriction expanded)
             (\<lambda>n. checked_add n (ec_expanded_role_edges ec)))) (\<lambda>expanded_role.
      bnd (ok_or Malformed (checked_sub expanded_role base_role)) (\<lambda>role_expansion.
      bnd (ok_or Resource (checked_sum [taxonomy, ec_edges ec, restriction, ac_edges ac, class_edges,
             object_edges, expanded])) (\<lambda>projected.
      if projected > max_edges_option options then Inl Resource else
      Inr \<lparr> pe_taxonomy = taxonomy, pe_equivalent = ec, pe_equivalent_base = ec_base, pe_restriction = restriction,
            pe_class_assertion = class_edges, pe_object_assertion = object_edges, pe_annotation = ac,
            pe_skipped = skipped, pe_domain_range = products, pe_expanded_domain_range = expanded,
            pe_role_expansion = role_expansion, pe_total = projected \<rparr>)))))))))))))))"

definition compile_statistics :: "direct_columns \<Rightarrow> usize \<Rightarrow> anonymous_ids \<Rightarrow> root_counts \<Rightarrow> usize list option
    \<Rightarrow> projected_edges \<Rightarrow> usize \<Rightarrow> usize \<Rightarrow> direct_compile_stats" where
  "compile_statistics c chosen_roots ids counts selected_nodes e own_bytes provenance_bytes =
     \<lparr> stat_roots = chosen_roots,
       stat_nodes = node_count c,
       stat_anonymous_individuals = length (node_ids ids),
       stat_ontology_annotations = n_ontology_annotations counts,
       stat_swrl_rules = n_swrl_rules counts,
       stat_declarations = n_declarations counts,
       stat_subclasses = n_subclasses counts,
       stat_restriction_subclasses = n_restriction_subclasses counts,
       stat_ignored_subclasses = n_ignored_subclasses counts,
       stat_equivalents = n_equivalents counts,
       stat_aggregate_equivalents = n_aggregate_equivalents counts,
       stat_equivalent_base_edges = pe_equivalent_base e,
       stat_ignored_equivalents = ec_ignored_shapes (pe_equivalent e),
       stat_disjoint_classes = n_disjoint_classes counts,
       stat_disjoint_unions = n_disjoint_unions counts,
       stat_has_keys = n_has_keys counts,
       stat_same_individuals = n_same_individuals counts,
       stat_different_individuals = n_different_individuals counts,
       stat_class_assertions = n_class_assertions counts,
       stat_ignored_class_assertions = n_ignored_class_assertions counts,
       stat_object_property_assertions = n_object_property_assertions counts,
       stat_negative_object_property_assertions = n_negative_object_property_assertions counts,
       stat_sub_object_properties = n_sub_object_properties counts,
       stat_object_property_chains = n_object_property_chains counts,
       stat_equivalent_object_properties = n_equivalent_object_properties counts,
       stat_disjoint_object_properties = n_disjoint_object_properties counts,
       stat_inverse_object_properties = n_inverse_object_properties counts,
       stat_functional_object_properties = n_functional_object_properties counts,
       stat_inverse_functional_object_properties = n_inverse_functional_object_properties counts,
       stat_reflexive_object_properties = n_reflexive_object_properties counts,
       stat_irreflexive_object_properties = n_irreflexive_object_properties counts,
       stat_symmetric_object_properties = n_symmetric_object_properties counts,
       stat_asymmetric_object_properties = n_asymmetric_object_properties counts,
       stat_transitive_object_properties = n_transitive_object_properties counts,
       stat_sub_data_properties = n_sub_data_properties counts,
       stat_equivalent_data_properties = n_equivalent_data_properties counts,
       stat_disjoint_data_properties = n_disjoint_data_properties counts,
       stat_data_property_domains = n_data_property_domains counts,
       stat_data_property_ranges = n_data_property_ranges counts,
       stat_functional_data_properties = n_functional_data_properties counts,
       stat_datatype_definitions = n_datatype_definitions counts,
       stat_data_property_assertions = n_data_property_assertions counts,
       stat_negative_data_property_assertions = n_negative_data_property_assertions counts,
       stat_annotation_assertions = n_annotation_assertions counts,
       stat_selected_annotation_assertions = (case selected_nodes of None \<Rightarrow> n_annotation_assertions counts | Some chosen \<Rightarrow> length chosen),
       stat_sub_annotation_properties = n_sub_annotation_properties counts,
       stat_annotation_property_domains = n_annotation_property_domains counts,
       stat_annotation_property_ranges = n_annotation_property_ranges counts,
       stat_annotation_edges = ac_edges (pe_annotation e),
       stat_non_string_literal_renderings = ac_non_string_literals (pe_annotation e),
       stat_skipped_axioms = pe_skipped e,
       stat_object_property_domains = n_object_property_domains counts,
       stat_object_property_ranges = n_object_property_ranges counts,
       stat_ignored_object_property_domains = n_ignored_object_property_domains counts,
       stat_ignored_object_property_ranges = n_ignored_object_property_ranges counts,
       stat_domain_range_edges = pe_domain_range e,
       stat_role_expansion_edges = pe_role_expansion e,
       stat_edges = pe_total e,
       stat_buffer_bytes = own_bytes,
       stat_root_provenance_buffer_bytes = provenance_bytes \<rparr>"

definition provenance_bytes_of :: "direct_columns option \<Rightarrow> usize kres" where
  "provenance_bytes_of root_annotation_columns =
     (case root_annotation_columns of None \<Rightarrow> Inr 0 | Some root_columns \<Rightarrow> buffer_bytes root_columns)"

definition assemble_preparation :: "owned_role_state \<Rightarrow> prepared_emission_plan \<Rightarrow> anonymous_ids \<Rightarrow> usize list option
    \<Rightarrow> direct_compile_options \<Rightarrow> direct_compile_stats \<Rightarrow> direct_preparation" where
  "assemble_preparation rs taken ids selected_nodes options statistics =
     \<lparr> prep_role_state = rs,
       prep_rule_indexes = taken_rule_indexes taken,
       prep_emission_roots = taken_emission_roots taken,
       prep_aggregate_roots = taken_aggregate_roots taken,
       prep_named_nodes = taken_named_nodes taken,
       prep_restrictions = taken_restrictions taken,
       prep_anonymous_ids = ids,
       prep_selected_annotation_nodes = selected_nodes,
       prep_composite_annotation_roots = [],
       prep_composite_class_nodes = [],
       prep_composite_anonymous_nodes = [],
       prep_overlay_deltas = [],
       prep_local_classes = [],
       prep_local_class_positions = [],
       prep_class_groups = [],
       prep_options = options,
       prep_statistics = statistics \<rparr>"

text \<open>
  A preclassified plan is emptied by the call, so the result carries the plan as the caller
  finds it afterwards (of a plan generated here nobody else holds a reference).
\<close>

definition prepare_direct :: "direct_columns \<Rightarrow> direct_columns option \<Rightarrow> direct_compile_options \<Rightarrow> nat
    \<Rightarrow> owned_role_state option \<Rightarrow> role_state option \<Rightarrow> selected_root_rule_plan option \<Rightarrow> role_axiom option
    \<Rightarrow> (direct_preparation \<times> selected_root_rule_plan) kres" where
  "prepare_direct c root_annotation_columns options st retained role_state_override preclassified local_role_axiom =
     seq (check_cancel st 0) (
     seq (validate_generic c st) (
     seq (validate_supported_nodes c (max_iri_bytes options) st) (
     bnd (effective_plan c (max_iri_bytes options) st preclassified) (\<lambda>plan.
     bnd (root_annotations c root_annotation_columns (max_iri_bytes options) st plan) (\<lambda>selected_nodes.
     bnd (axiom_anonymous_ids c st) (\<lambda>ids.
     bnd (buffer_bytes c) (\<lambda>own_bytes.
     bnd (provenance_bytes_of root_annotation_columns) (\<lambda>provenance_bytes.
     bnd (prepared_role_state options st retained role_state_override plan local_role_axiom) (\<lambda>rs.
     bnd (count_projected_edges c options st plan rs selected_nodes) (\<lambda>e.
     bnd (selected_root_count c) (\<lambda>chosen_roots.
     bnd (take_emission_plan plan st) (\<lambda>(taken, plan').
     bnd (to_owned rs) (\<lambda>owned.
     Inr (assemble_preparation owned taken ids selected_nodes options
            (compile_statistics c chosen_roots ids (plan_counts plan) selected_nodes e own_bytes provenance_bytes),
          plan'))))))))))))))"

definition prepare_direct_batches_with_local_role_uncommitted :: "direct_columns \<Rightarrow> direct_columns option
    \<Rightarrow> direct_compile_options \<Rightarrow> nat \<Rightarrow> owned_role_state option \<Rightarrow> role_state option
    \<Rightarrow> selected_root_rule_plan option \<Rightarrow> role_axiom option
    \<Rightarrow> (prepared_direct_batches \<times> selected_root_rule_plan) kres" where
  "prepare_direct_batches_with_local_role_uncommitted c root_annotation_columns options st retained
       role_state_override preclassified local_role_axiom =
     map_res (\<lambda>(prep, plan). (\<lparr> preparation = prep, batch_cursor = initial_cursor \<rparr>, plan))
       (prepare_direct c root_annotation_columns options st retained role_state_override preclassified
          local_role_axiom)"

definition prepare_direct_batches_uncommitted :: "direct_columns \<Rightarrow> direct_columns option
    \<Rightarrow> direct_compile_options \<Rightarrow> nat \<Rightarrow> owned_role_state option \<Rightarrow> prepared_direct_batches kres" where
  "prepare_direct_batches_uncommitted c root_annotation_columns options st retained =
     map_res fst (prepare_direct_batches_with_local_role_uncommitted c root_annotation_columns options st retained
       None None None)"

end
