(* ===== verification/Announced_Edges.thy ===== *)
theory Announced_Edges
  imports Plan_Invariant Emission_Output Preparation
begin

text \<open>
  The number of edges a preparation announces is the number its batches hand out. Every
  counter of the preflight is a sum over the entries of the plan, every phase of the reference
  enumeration is a concatenation over the same entries, and entry by entry the two agree:
  the plan invariant gives the texts each emission shape denotes, so no rendering fails and
  no edge is lost.
\<close>

section \<open>Complete traces\<close>

definition completes :: "trace \<Rightarrow> nat \<Rightarrow> bool" where
  "completes t n \<longleftrightarrow> snd t = None \<and> length (fst t) = n"

named_theorems complete \<open>traces that end without an error, with their lengths\<close>

lemma completes_none [complete]: "completes no_edges 0"
  by (simp add: completes_def no_edges_def)

lemma completes_lifted [complete]: "m = Inr es \<Longrightarrow> length es = n \<Longrightarrow> completes (lifted m) n"
  by (simp add: completes_def)

lemma completes_followed [complete]: "completes a m \<Longrightarrow> completes b n \<Longrightarrow> completes (followed_by a b) (m + n)"
  by (cases a; cases b) (auto simp: completes_def)

lemma completes_joined: "(\<And>x. x \<in> set xs \<Longrightarrow> completes (f x) (g x)) \<Longrightarrow> completes (joined (map f xs)) (sum_list (map g xs))"
  by (induction xs) (simp_all add: complete)

lemma taxonomy_length: "length (taxonomy_edges options s d) = directions options"
  by (simp add: taxonomy_edges_def directions_def)

definition relation_edges :: "role_state \<Rightarrow> text_str \<Rightarrow> nat" where
  "relation_edges rs r = Suc (length (subroles_for rs r)) + (if inverse_for rs r \<noteq> None then 1 else 0)"

lemma edge_count_relation: "edge_count rs r = Inr n \<Longrightarrow> n = relation_edges rs r"
  by (auto simp: edge_count_def relation_edges_def res_simps bind_eq_Some_conv)

lemma role_edges_length: "to_owned rs = Inr owned \<Longrightarrow> length (role_edges owned s r d) = relation_edges rs r"
  by (auto simp: to_owned_id role_edges_def relation_edges_def split: option.splits)

section \<open>Sums over entries\<close>

lemma fold_counts:
  assumes "fold_res f [0 ..< n] s = Inr t" and "\<And>i s t. i < n \<Longrightarrow> f i s = Inr t \<Longrightarrow> \<mu> t = \<mu> s + g i"
  shows "(\<mu> t :: nat) = \<mu> s + sum_list (map g [0 ..< n])"
proof -
  from fold_res_trace [OF assms(1)] obtain S where S: "S 0 = s" "S n = t"
    and steps: "i < n \<Longrightarrow> f i (S i) = Inr (S (Suc i))" for i by auto
  have "\<mu> (S k) = \<mu> s + sum_list (map g [0 ..< k])" if "k \<le> n" for k
    using that
  proof (induction k)
    case (Suc k)
    with steps [of k] assms(2) [of k "S k" "S (Suc k)"] show ?case by simp
  qed (simp add: S)
  with S(2) show ?thesis by auto
qed

lemma fold_counts_enumerate:
  assumes "fold_res f (enumerate k xs) s = Inr t" and "\<And>i x s t. x \<in> set xs \<Longrightarrow> f (i, x) s = Inr t \<Longrightarrow> \<mu> t = \<mu> s + g x"
  shows "(\<mu> t :: nat) = \<mu> s + sum_list (map g xs)"
  using assms
proof (induction xs arbitrary: k s)
  case (Cons x xs)
  from Cons.prems(1) obtain u where u: "f (k, x) s = Inr u" and r: "fold_res f (enumerate (Suc k) xs) u = Inr t"
    by (auto simp: bnd_eq_Inr)
  from Cons.prems(2) [OF _ u] Cons.IH [OF r Cons.prems(2)] show ?case by simp
qed simp

lemma sum_over_entries: "length es = n \<Longrightarrow> sum_list (map (\<lambda>i. g (es ! i)) [0 ..< n]) = sum_list (map g es)"
  by (rule arg_cong [where f = sum_list]) (auto intro: nth_equalityI)

lemma tally_sum: "tally p es = sum_list (map (\<lambda>e. case e of None \<Rightarrow> 0 | Some (rule, shapes) \<Rightarrow>
    if p rule (map_option fst shapes) then 1 else 0) es)"
  by (induction es) (auto simp: tally_def split: option.splits)

section \<open>Rows of the rule table\<close>

lemma rule_families:
  assumes "rule \<in> set ROOT_RULES"
  shows "effect_counter (stats_effect rule) = CountSubclasses \<longleftrightarrow> handler rule = HandleSubclass"
    and "effect_counter (stats_effect rule) = CountClassAssertions \<longleftrightarrow> handler rule = HandleClassAssertion"
    and "effect_counter (stats_effect rule) = CountObjectPropertyAssertions \<longleftrightarrow> handler rule = HandleObjectPropertyAssertion"
    and "handler rule = HandleObjectPropertyClass \<longleftrightarrow> domain_range_effect rule \<noteq> NoDomainRange"
    and "handler rule = HandleAnnotationAssertion \<or> handler rule = HandleObjectPropertyAssertion \<Longrightarrow> rule_root_kind rule = ROOT_AXIOM"
    and "handler rule = HandleAnnotationAssertion \<Longrightarrow> rule_tag rule = TAG_ANNOTATION_ASSERTION"
proof -
  have "list_all (\<lambda>rule.
      (effect_counter (stats_effect rule) = CountSubclasses \<longleftrightarrow> handler rule = HandleSubclass) \<and>
      (effect_counter (stats_effect rule) = CountClassAssertions \<longleftrightarrow> handler rule = HandleClassAssertion) \<and>
      (effect_counter (stats_effect rule) = CountObjectPropertyAssertions \<longleftrightarrow> handler rule = HandleObjectPropertyAssertion) \<and>
      (handler rule = HandleObjectPropertyClass \<longleftrightarrow> domain_range_effect rule \<noteq> NoDomainRange) \<and>
      (handler rule = HandleAnnotationAssertion \<or> handler rule = HandleObjectPropertyAssertion \<longrightarrow> rule_root_kind rule = ROOT_AXIOM) \<and>
      (handler rule = HandleAnnotationAssertion \<longrightarrow> rule_tag rule = TAG_ANNOTATION_ASSERTION)) ROOT_RULES"
    by (simp add: ROOT_RULES_def)
  note all = this [unfolded list_all_iff, rule_format, OF assms]
  show "effect_counter (stats_effect rule) = CountSubclasses \<longleftrightarrow> handler rule = HandleSubclass"
    "effect_counter (stats_effect rule) = CountClassAssertions \<longleftrightarrow> handler rule = HandleClassAssertion"
    "effect_counter (stats_effect rule) = CountObjectPropertyAssertions \<longleftrightarrow> handler rule = HandleObjectPropertyAssertion"
    "handler rule = HandleObjectPropertyClass \<longleftrightarrow> domain_range_effect rule \<noteq> NoDomainRange"
    using all by blast+
  show "handler rule = HandleAnnotationAssertion \<or> handler rule = HandleObjectPropertyAssertion \<Longrightarrow> rule_root_kind rule = ROOT_AXIOM"
    "handler rule = HandleAnnotationAssertion \<Longrightarrow> rule_tag rule = TAG_ANNOTATION_ASSERTION"
    using all by blast+
qed

section \<open>A preparation and its plan\<close>

definition follows :: "direct_columns \<Rightarrow> direct_preparation \<Rightarrow> plan_entry list \<Rightarrow> selected_root_rule_plan \<Rightarrow> role_state \<Rightarrow> bool" where
  "follows c prep es plan rs \<longleftrightarrow>
     plan_invariant c (prep_iri_limit prep) es plan \<and> length es = root_count c \<and>
     prep_rule_indexes prep = rule_indexes plan \<and> prep_emission_roots prep = emission_roots plan \<and>
     prep_aggregate_roots prep = aggregate_roots plan \<and> prep_named_nodes prep = aggregate_emission_named_nodes plan \<and>
     prep_restrictions prep = aggregate_emission_restrictions plan \<and>
     to_owned rs = Inr (prep_role_state prep) \<and> prep_overlay_deltas prep = []"

definition entry_shaped :: "plan_entry \<Rightarrow> bool" where
  "entry_shaped e \<longleftrightarrow> (case e of None \<Rightarrow> True | Some (rule, shapes) \<Rightarrow> rule \<in> set ROOT_RULES \<and>
     (case shapes of None \<Rightarrow> handler rule \<notin> shaped_handlers | Some s \<Rightarrow> shape_handler (fst s) = handler rule))"

lemma follows_entry:
  assumes "follows c prep es plan rs" and "i < root_count c"
  shows "entry_ok c (prep_iri_limit prep) plan i (es ! i)"
  using assms by (simp add: follows_def plan_invariant_def)

lemma follows_shaped:
  assumes "follows c prep es plan rs" and "e \<in> set es"
  shows "entry_shaped e"
proof -
  from assms obtain i where "i < root_count c" "es ! i = e" by (auto simp: in_set_conv_nth follows_def)
  with follows_entry [OF assms(1), of i] show ?thesis
    by (auto simp: entry_shaped_def entry_ok_def shapes_ok_def split: option.splits)
qed

text \<open>The entries as a counter sees them.\<close>

lemma entry_cases:
  assumes "follows c prep es plan rs" and "i < root_count c"
  obtains (skipped) "es ! i = None"
    | (bare) rule where "es ! i = Some (rule, None)" "rule \<in> set ROOT_RULES" "handler rule \<notin> shaped_handlers"
    | (shaped) rule s emission where "es ! i = Some (rule, Some (s, emission))" "rule \<in> set ROOT_RULES"
        "handler rule = shape_handler s"
proof -
  have sh: "entry_shaped (es ! i)" using assms follows_shaped [OF assms(1), of "es ! i"] by (simp add: follows_def)
  show ?thesis
  proof (cases "es ! i")
    case None
    then show ?thesis by (rule that(1))
  next
    case (Some e)
    obtain rule shapes where e: "e = (rule, shapes)" by (cases e)
    show ?thesis
    proof (cases shapes)
      case None
      with Some e sh show ?thesis by (intro that(2) [of rule]) (simp_all add: entry_shaped_def)
    next
      case (Some s)
      with \<open>es ! i = Some e\<close> e sh show ?thesis
        by (intro that(3) [of rule "fst s" "snd s"]) (simp_all add: entry_shaped_def)
    qed
  qed
qed

lemma shape_at_entry:
  assumes "follows c prep es plan rs" and "i < root_count c"
  shows "shape_at plan i = (case es ! i of Some (_, Some shapes) \<Rightarrow> Some (fst shapes) | _ \<Rightarrow> None)"
  using assms by (simp add: follows_def plan_invariant_def shape_at_def planned_at_rows)

lemma emission_at_entry:
  assumes "follows c prep es plan rs" and "i < root_count c"
  shows "emission_shape_at prep i = (case es ! i of Some (_, Some shapes) \<Rightarrow> Some (snd shapes) | _ \<Rightarrow> None)"
  using assms by (simp add: follows_def plan_invariant_def emission_shape_at_def planned_at_rows)

lemma root_edges_entry:
  assumes f: "follows c prep es plan rs" and i: "i < root_count c"
  shows "root_edges prep c h g i = (case es ! i of None \<Rightarrow> no_edges
    | Some (rule, shapes) \<Rightarrow> if handler rule = h then g (map_option snd shapes) else no_edges)"
proof (cases "es ! i")
  case None
  with follows_entry [OF f i] show ?thesis by (simp add: root_edges_def entry_ok_def)
next
  case (Some e)
  obtain rule shapes where e: "e = (rule, shapes)" by (cases e)
  with follows_entry [OF f i] Some have "root_is_selected c i = Inr True" "rule_at plan i = Inr rule"
    by (simp_all add: entry_ok_def)
  with f emission_at_entry [OF f i] Some e show ?thesis
    by (auto simp: root_edges_def prep_rule_at_def rule_at_def follows_def split: option.splits)
qed

lemma selected_step_entry:
  assumes f: "follows c prep es plan rs" and i: "i < root_count c" and step: "selected_step plan c st g i s = Inr t"
  shows "case es ! i of None \<Rightarrow> t = s | Some (rule, shapes) \<Rightarrow> g i rule s = Inr t"
  using follows_entry [OF f i] step by (auto simp: selected_step_def entry_ok_def res_simps split: option.splits)

lemma inserted_none: "prep_overlay_deltas prep = [] \<Longrightarrow> inserted_edges prep p i = no_edges"
  by (simp add: inserted_edges_def deltas_at_def no_edges_def)

lemma phase_completes_at:
  assumes f: "follows c prep es plan rs"
    and root: "\<And>i. i < root_count c \<Longrightarrow> case es ! i of None \<Rightarrow> k i = 0
      | Some (rule, shapes) \<Rightarrow> if handler rule = h then completes (g (map_option snd shapes)) (k i) else k i = 0"
  shows "completes (phase_edges prep c p h g) (sum_list (map k [0 ..< root_count c]))"
proof -
  from f have none: "prep_overlay_deltas prep = []" by (simp add: follows_def)
  have "completes (root_edges prep c h g i) (k i)" if "i < root_count c" for i
    using root [OF that] by (auto simp: root_edges_entry [OF f that] complete split: option.splits if_splits)
  then have "completes (joined (map (root_edges prep c h g) [0 ..< root_count c])) (sum_list (map k [0 ..< root_count c]))"
    by (intro completes_joined) simp
  then show ?thesis by (simp add: phase_edges_def inserted_none [OF none])
qed

lemma phase_completes:
  assumes f: "follows c prep es plan rs"
    and root: "\<And>i rule shapes. i < root_count c \<Longrightarrow> es ! i = Some (rule, shapes) \<Longrightarrow> handler rule = h \<Longrightarrow>
      completes (g (map_option snd shapes)) (k (es ! i))"
    and zero: "\<And>e. e \<in> set es \<Longrightarrow> (case e of None \<Rightarrow> True | Some (rule, shapes) \<Rightarrow> handler rule \<noteq> h) \<Longrightarrow> k e = 0"
  shows "completes (phase_edges prep c p h g) (sum_list (map k es))"
proof -
  from f have len: "length es = root_count c" by (simp add: follows_def)
  have "completes (phase_edges prep c p h g) (sum_list (map (\<lambda>i. k (es ! i)) [0 ..< root_count c]))"
  proof (rule phase_completes_at [OF f])
    fix i assume "i < root_count c"
    with root [of i] zero [of "es ! i"] len show "case es ! i of None \<Rightarrow> k (es ! i) = 0
      | Some (rule, shapes) \<Rightarrow> if handler rule = h then completes (g (map_option snd shapes)) (k (es ! i)) else k (es ! i) = 0"
      by (auto split: option.splits)
  qed
  then show ?thesis by (simp add: sum_over_entries [OF len])
qed

section \<open>Subclass axioms\<close>

definition subclass_entry_edges :: "direct_compile_options \<Rightarrow> role_state \<Rightarrow> plan_entry \<Rightarrow> nat" where
  "subclass_entry_edges options rs e = (case e of
     Some (_, Some (SubclassShape (SubclassTaxonomy _ _), _)) \<Rightarrow> directions options
   | Some (_, Some (SubclassShape (SubclassRestriction _ r _), _)) \<Rightarrow> if projects_roles options then relation_edges rs r else 0
   | _ \<Rightarrow> 0)"

lemma shaped_handler_cases:
  assumes "entry_shaped (Some (rule, shapes))" and "handler rule \<in> shaped_handlers"
  obtains s emission where "shapes = Some (s, emission)" and "shape_handler s = handler rule"
  using assms by (auto simp: entry_shaped_def split: option.splits)

lemma shape_handlers:
  "shape_handler s = HandleSubclass \<longleftrightarrow> (\<exists>p. s = SubclassShape p)"
  "shape_handler s = HandleEquivalentClasses \<longleftrightarrow> (\<exists>p. s = EquivalentShape p)"
  "shape_handler s = HandleObjectPropertyClass \<longleftrightarrow> (\<exists>p. s = ObjectPropertyClassShape p)"
  "shape_handler s = HandleClassAssertion \<longleftrightarrow> (\<exists>p. s = ClassAssertionShape p)"
  "shape_handler s = HandleObjectPropertyAssertion \<longleftrightarrow> (\<exists>a r b. s = ObjectPropertyAssertionShape a r b)"
  by (cases s; simp)+

lemma subclass_completes:
  assumes f: "follows c prep es plan rs"
  shows "completes (phase_edges prep c PhaseSubclasses HandleSubclass (subclass_edges prep c))
    (sum_list (map (subclass_entry_edges (prep_options prep) rs) es))"
proof (rule phase_completes [OF f])
  fix i rule shapes
  assume i: "i < root_count c" and e: "es ! i = Some (rule, shapes)" and h: "handler rule = HandleSubclass"
  from follows_entry [OF f i] e h obtain n p emission where s: "shapes = Some (SubclassShape p, emission)"
    and a: "subclass_agrees c (prep_iri_limit prep) p emission"
    by (auto simp: entry_ok_def shapes_ok_def shapes_agree_def shaped_handlers_def shape_handlers split: option.splits)
  have owned: "to_owned rs = Inr (prep_role_state prep)" using f by (simp add: follows_def)
  show "completes (subclass_edges prep c (map_option snd shapes)) (subclass_entry_edges (prep_options prep) rs (es ! i))"
    using a role_edges_length [OF owned]
    by (cases p) (auto simp: e s subclass_entry_edges_def subclass_agrees_def subclass_edges_def taxonomy_length completes_def)
next
  fix e assume "e \<in> set es" and h: "case e of None \<Rightarrow> True | Some (rule, shapes) \<Rightarrow> handler rule \<noteq> HandleSubclass"
  with follows_shaped [OF f] have "entry_shaped e" by blast
  with h show "subclass_entry_edges (prep_options prep) rs e = 0"
    by (auto simp: subclass_entry_edges_def entry_shaped_def split: option.splits planned_root_shape.splits)
qed

lemma restriction_announced:
  assumes f: "follows c prep es plan rs" and r: "restriction_role_edge_count c plan rs st = Inr n"
  shows "n = sum_list (map (\<lambda>e. case e of
      Some (_, Some (SubclassShape (SubclassRestriction _ r _), _)) \<Rightarrow> relation_edges rs r | _ \<Rightarrow> 0) es)"
    (is "n = sum_list (map ?g es)")
proof -
  have len: "length es = root_count c" using f by (simp add: follows_def)
  have "n = 0 + sum_list (map (\<lambda>i. ?g (es ! i)) [0 ..< root_count c])"
    using r unfolding restriction_role_edge_count_def
  proof (rule fold_counts)
    fix i s t assume i: "i < root_count c" and st: "selected_step plan c st (restriction_count_step plan rs) i s = Inr t"
    note step = selected_step_entry [OF f i st] and shape = shape_at_entry [OF f i]
    show "t = s + ?g (es ! i)"
      using f i
    proof (cases rule: entry_cases)
      case skipped
      with step show ?thesis by simp
    next
      case (bare rule)
      with step show ?thesis by (auto simp: restriction_count_step_def shaped_handlers_def)
    next
      case (shaped rule sh emission)
      with step shape show ?thesis
        by (cases sh) (auto simp: restriction_count_step_def res_simps relation_edges_def
            split: subclass_projection_t.splits)
    qed
  qed
  then show ?thesis by (simp add: sum_over_entries [OF len])
qed

text \<open>The counters of the plan, as sums over its entries.\<close>

lemma follows_tallies: "follows c prep es plan rs \<Longrightarrow> tallies (plan_counts plan) es"
  by (simp add: follows_def plan_invariant_def)

lemma tally_cong: "(\<And>rule shapes. Some (rule, shapes) \<in> set es \<Longrightarrow> p rule (map_option fst shapes) = q rule (map_option fst shapes))
    \<Longrightarrow> tally p es = tally q es"
  unfolding tally_def by (intro arg_cong [where f = length] filter_cong) (auto split: option.splits)

lemma tally_split: "tally p es = tally (\<lambda>r s. p r s \<and> q r s) es + tally (\<lambda>r s. p r s \<and> \<not> q r s) es"
  by (induction es rule: rev_induct) (auto split: option.splits)

lemma tally_sum_list: "tally p es * k = sum_list (map (\<lambda>e. case e of None \<Rightarrow> 0 | Some (rule, shapes) \<Rightarrow>
    if p rule (map_option fst shapes) then k else 0) es)"
  by (induction es rule: rev_induct) (auto split: option.splits)

definition is_taxonomy_shape :: "planned_root_shape option \<Rightarrow> bool" where
  "is_taxonomy_shape s \<longleftrightarrow> (\<exists>a b. s = Some (SubclassShape (SubclassTaxonomy a b)))"

lemma subclass_counters:
  assumes f: "follows c prep es plan rs"
  shows "n_subclasses (plan_counts plan) = tally (\<lambda>_ s. is_taxonomy_shape s) es + n_restriction_subclasses (plan_counts plan)
    + n_ignored_subclasses (plan_counts plan)"
proof -
  note t = follows_tallies [OF f, unfolded tallies_def]
  from t have "counted CountSubclasses (plan_counts plan) = tally (\<lambda>rule _. effect_counter (stats_effect rule) = CountSubclasses) es"
    by blast
  also have "\<dots> = tally (\<lambda>_ s. is_taxonomy_shape s \<or> is_restriction_shape s \<or> s = Some (SubclassShape SubclassIgnored)) es"
  proof (rule tally_cong)
    fix rule shapes assume "Some (rule, shapes) \<in> set es"
    then have sh: "entry_shaped (Some (rule, shapes))" by (rule follows_shaped [OF f])
    then have h: "effect_counter (stats_effect rule) = CountSubclasses \<longleftrightarrow> handler rule = HandleSubclass"
      by (simp add: entry_shaped_def rule_families(1))
    show "(effect_counter (stats_effect rule) = CountSubclasses) = (is_taxonomy_shape (map_option fst shapes) \<or>
        is_restriction_shape (map_option fst shapes) \<or> map_option fst shapes = Some (SubclassShape SubclassIgnored))"
    proof (cases shapes)
      case None
      with sh h show ?thesis
        by (auto simp: entry_shaped_def shaped_handlers_def is_taxonomy_shape_def is_restriction_shape_def)
    next
      case (Some s)
      with sh h have "handler rule = shape_handler (fst s)" by (simp add: entry_shaped_def)
      then have "handler rule = HandleSubclass \<longleftrightarrow> (\<exists>p. fst s = SubclassShape p)" by (simp add: shape_handlers)
      with h Some show ?thesis
        by (auto simp: is_taxonomy_shape_def is_restriction_shape_def) (metis subclass_projection_t.exhaust)
    qed
  qed
  also have "\<dots> = tally (\<lambda>_ s. is_taxonomy_shape s) es + (tally (\<lambda>_ s. is_restriction_shape s) es +
      tally (\<lambda>_ s. s = Some (SubclassShape SubclassIgnored)) es)"
    by (induction es rule: rev_induct) (auto simp: is_taxonomy_shape_def is_restriction_shape_def split: option.splits)
  finally show ?thesis using t by simp
qed

lemma subclass_announced:
  assumes f: "follows c prep es plan rs"
    and r: "restriction = (if projects_roles options then sum_list (map (\<lambda>e. case e of
      Some (_, Some (SubclassShape (SubclassRestriction _ r _), _)) \<Rightarrow> relation_edges rs r | _ \<Rightarrow> 0) es) else 0)"
  shows "(n_subclasses (plan_counts plan) - n_restriction_subclasses (plan_counts plan) - n_ignored_subclasses (plan_counts plan))
      * directions options + restriction = sum_list (map (subclass_entry_edges options rs) es)"
proof -
  let ?t = "\<lambda>e. case e of None \<Rightarrow> 0 | Some (rule, shapes) \<Rightarrow> if is_taxonomy_shape (map_option fst shapes) then directions options else 0"
  let ?r = "\<lambda>e. case e of Some (_, Some (SubclassShape (SubclassRestriction _ r _), _)) \<Rightarrow> relation_edges rs r | _ \<Rightarrow> 0"
  have "subclass_entry_edges options rs e = ?t e + (if projects_roles options then ?r e else 0)" for e :: plan_entry
    by (auto simp: subclass_entry_edges_def is_taxonomy_shape_def split: option.splits planned_root_shape.splits
        subclass_projection_t.splits)
  then have eq: "subclass_entry_edges options rs = (\<lambda>e. ?t e + (if projects_roles options then ?r e else 0))" by blast
  show ?thesis
    unfolding eq sum_list_addf using subclass_counters [OF f] r
    by (cases "projects_roles options") (simp_all add: tally_sum_list)
qed

section \<open>Equivalent classes\<close>

definition sliced :: "selected_root_rule_plan \<Rightarrow> bool" where
  "sliced plan \<longleftrightarrow> (\<forall>agg \<in> set (aggregate_roots plan).
     (\<exists>ns. checked_plan_slice (aggregate_emission_named_nodes plan) (named_range agg) = Inr ns) \<and>
     (\<exists>rs. checked_plan_slice (aggregate_emission_restrictions plan) (restriction_range agg) = Inr rs))"

lemma take_emission_sliced:
  assumes "take_emission_plan plan st = Inr r"
  shows "sliced plan"
  unfolding sliced_def
proof
  fix agg assume "agg \<in> set (aggregate_roots plan)"
  then obtain i where "i < length (aggregate_roots plan)" "aggregate_roots plan ! i = agg" by (auto simp: in_set_conv_nth)
  then have "(i, agg) \<in> set (enumerate 0 (aggregate_roots plan))" by (simp add: in_set_enumerate_eq)
  moreover from assms have "\<forall>x \<in> set (enumerate 0 (aggregate_roots plan)). (case x of (aggregate_index, agg) \<Rightarrow>
           seq (check_cancel st aggregate_index) (
           seq (checked_plan_slice (aggregate_emission_named_nodes plan) (named_range agg))
             (discard (checked_plan_slice (aggregate_emission_restrictions plan) (restriction_range agg))))) = Inr ()"
    by (simp add: take_emission_plan_def seq_eq_Inr for_each_eq_Inr)
  ultimately show "(\<exists>ns. checked_plan_slice (aggregate_emission_named_nodes plan) (named_range agg) = Inr ns) \<and>
     (\<exists>rs. checked_plan_slice (aggregate_emission_restrictions plan) (restriction_range agg) = Inr rs)"
    by (force simp: seq_eq_Inr discard_eq_Inr)
qed

lemma checked_plan_slice_map: "checked_plan_slice (map f xs) r = map_res (map f) (checked_plan_slice xs r)"
  by (auto simp: checked_plan_slice_def get_range_def checked_add_def ok_or_def take_map drop_map)

lemma checked_plan_slice_subset: "checked_plan_slice xs r = Inr ys \<Longrightarrow> set ys \<subseteq> set xs"
  by (auto simp: checked_plan_slice_def res_simps dest: in_set_takeD in_set_dropD)

definition operand_edges :: "role_state \<Rightarrow> planned_aggregate_restriction_operand \<Rightarrow> nat" where
  "operand_edges rs operand = (case operand_projection operand of None \<Rightarrow> 0 | Some (r, _) \<Rightarrow> relation_edges rs r)"

definition aggregate_count :: "direct_compile_options \<Rightarrow> role_state \<Rightarrow> selected_root_rule_plan \<Rightarrow> planned_aggregate_root \<Rightarrow> nat" where
  "aggregate_count options rs plan agg =
     (case plan_named_operands plan agg of Inl _ \<Rightarrow> 0 | Inr ns \<Rightarrow> length ns * directions options) +
     (if only_taxonomy options then 0 else
      case plan_restriction_operands plan agg of Inl _ \<Rightarrow> 0 | Inr operands \<Rightarrow> sum_list (map (operand_edges rs) operands))"

definition equivalent_count :: "direct_compile_options \<Rightarrow> role_state \<Rightarrow> selected_root_rule_plan \<Rightarrow> plan_entry list \<Rightarrow> nat \<Rightarrow> nat" where
  "equivalent_count options rs plan es i = (case es ! i of
     Some (_, Some (EquivalentShape (EquivalentPair _ _ _ _), _)) \<Rightarrow> directions options
   | Some (_, Some (EquivalentShape (EquivalentAggregate _ _ _), _)) \<Rightarrow>
       (case aggregate_at plan i of None \<Rightarrow> 0 | Some agg \<Rightarrow> aggregate_count options rs plan agg)
   | _ \<Rightarrow> 0)"

lemma aggregate_at_planned:
  assumes "aggregates_below k plan" and "j < length (aggregate_roots plan)"
  shows "aggregate_at plan (aggregate_root_index (aggregate_roots plan ! j)) = Some (aggregate_roots plan ! j)"
proof -
  have s: "sorted (map aggregate_root_index (aggregate_roots plan))" "distinct (map aggregate_root_index (aggregate_roots plan))"
    using assms(1) by (auto simp: aggregates_below_def sorted_wrt_append strict_sorted_iff)
  show ?thesis
    unfolding aggregate_at_def using binary_search_by_key_iff [OF s, of "aggregate_root_index (aggregate_roots plan ! j)" j] assms(2)
    by simp
qed

lemma aggregate_completes:
  assumes f: "follows c prep es plan rs" and sl: "sliced plan" and j: "j < length (aggregate_roots plan)"
  shows "completes (aggregate_edges prep c source j) (aggregate_count (prep_options prep) rs plan (aggregate_roots plan ! j))"
proof -
  let ?a = "aggregate_roots plan ! j" and ?m = "prep_iri_limit prep"
  have "?a \<in> set (aggregate_roots plan)" using j by simp
  with sl obtain ns' rs' where sn: "checked_plan_slice (aggregate_emission_named_nodes plan) (named_range ?a) = Inr ns'"
    and sr: "checked_plan_slice (aggregate_emission_restrictions plan) (restriction_range ?a) = Inr rs'"
    unfolding sliced_def by blast
  from f have al: "aligned c ?m plan" by (simp add: follows_def plan_invariant_def arenas_ok_def)
  with sn sr obtain ns operands where ns: "plan_named_operands plan ?a = Inr ns" "ns' = map operand_node ns"
    and os: "plan_restriction_operands plan ?a = Inr operands" "rs' = map operand_coordinate operands"
    by (auto simp: aligned_def checked_plan_slice_map map_res_eq_Inr plan_named_operands_def plan_restriction_operands_def)
  have n_ok: "named_class_iri c (operand_node x) ?m = Inr (operand_iri x)" if "x \<in> set ns" for x
    using al ns(1) that by (auto simp: aligned_def plan_named_operands_def dest: checked_plan_slice_subset)
  have o_ok: "operand_agrees c ?m x" if "x \<in> set operands" for x
    using al os(1) that by (auto simp: aligned_def plan_restriction_operands_def dest: checked_plan_slice_subset)
  have owned: "to_owned rs = Inr (prep_role_state prep)" using f by (simp add: follows_def)
  have "completes (joined (map (\<lambda>x. named_operand_edges prep c source (operand_node x)) ns))
      (sum_list (map (\<lambda>x. directions (prep_options prep)) ns))"
    by (rule completes_joined) (simp add: named_operand_edges_def n_ok completes_def taxonomy_length)
  then have A: "completes (joined (map (named_operand_edges prep c source) ns')) (length ns * directions (prep_options prep))"
    by (simp add: ns(2) comp_def sum_list_triv)
  have "completes (joined (map (\<lambda>x. restriction_operand_edges prep c source (operand_coordinate x)) operands))
      (sum_list (map (operand_edges rs) operands))"
  proof (rule completes_joined)
    fix x assume "x \<in> set operands"
    from o_ok [OF this] show "completes (restriction_operand_edges prep c source (operand_coordinate x)) (operand_edges rs x)"
      by (auto simp: operand_agrees_def restriction_operand_edges_def operand_edges_def complete completes_def
          no_edges_def role_edges_length [OF owned] split: option.splits)
  qed
  then have B: "completes (joined (map (restriction_operand_edges prep c source) rs')) (sum_list (map (operand_edges rs) operands))"
    by (simp add: os(2) comp_def)
  have e: "aggregate_emission_at prep j = Inr ?a" "emission_named_nodes prep ?a = Inr ns'" "emission_restrictions prep ?a = Inr rs'"
    using f j sn sr by (simp_all add: aggregate_emission_at_def emission_named_nodes_def emission_restrictions_def get_at_def follows_def)
  have rest: "completes (if only_taxonomy (prep_options prep) then no_edges else joined (map (restriction_operand_edges prep c source) rs'))
      (if only_taxonomy (prep_options prep) then 0 else sum_list (map (operand_edges rs) operands))"
    using B completes_none by simp
  from completes_followed [OF A rest] show ?thesis
    by (cases "only_taxonomy (prep_options prep)") (simp_all add: aggregate_edges_def e aggregate_count_def ns(1) os(1))
qed

lemma equivalents_complete:
  assumes f: "follows c prep es plan rs" and sl: "sliced plan"
  shows "completes (phase_edges prep c PhaseEquivalents HandleEquivalentClasses (equivalent_edges prep c))
    (sum_list (map (equivalent_count (prep_options prep) rs plan es) [0 ..< root_count c]))"
proof (rule phase_completes_at [OF f])
  fix i assume i: "i < root_count c"
  show "case es ! i of None \<Rightarrow> equivalent_count (prep_options prep) rs plan es i = 0
      | Some (rule, shapes) \<Rightarrow> if handler rule = HandleEquivalentClasses
          then completes (equivalent_edges prep c (map_option snd shapes)) (equivalent_count (prep_options prep) rs plan es i)
          else equivalent_count (prep_options prep) rs plan es i = 0"
    using f i
  proof (cases rule: entry_cases)
    case (shaped rule s emission)
    show ?thesis
    proof (cases "handler rule = HandleEquivalentClasses")
      case False
      with shaped show ?thesis by (cases s) (simp_all add: equivalent_count_def)
    next
      case True
      with shaped obtain p where p: "s = EquivalentShape p" using shape_handlers(2) [of s] by auto
      from follows_entry [OF f i] shaped p have
        a: "equivalent_agrees c (prep_iri_limit prep) i (aggregate_roots plan) p emission"
        by (auto simp: entry_ok_def shapes_ok_def shapes_agree_def)
      have below: "aggregates_below (root_count c) plan"
        using f by (auto simp: follows_def plan_invariant_def arenas_ok_def)
      show ?thesis
      proof (cases p)
        case (EquivalentPair x1 x2 x3 x4)
        with a shaped p True show ?thesis
          by (simp add: equivalent_agrees_def equivalent_count_def equivalent_edges_def completes_def taxonomy_length)
      next
        case (EquivalentAggregate source x y)
        with a obtain k where k: "emission = EmitEquivalentAggregate x k" "named_class_iri c x (prep_iri_limit prep) = Inr source"
          "k < length (aggregate_roots plan)" "aggregate_root_index (aggregate_roots plan ! k) = i"
          by (auto simp: equivalent_agrees_def)
        from aggregate_at_planned [OF below k(3)] k(4) have at: "aggregate_at plan i = Some (aggregate_roots plan ! k)" by simp
        from aggregate_completes [OF f sl k(3), of source] shaped p True EquivalentAggregate k(1,2) at
        show ?thesis by (simp add: equivalent_count_def equivalent_edges_def)
      next
        case EquivalentIgnored
        with a shaped p True show ?thesis by (simp add: equivalent_agrees_def equivalent_count_def equivalent_edges_def complete)
      qed
    qed
  qed (auto simp: equivalent_count_def shaped_handlers_def)
qed

lemma add_stat_Inr: "add_stat r u n x = Inr y \<longleftrightarrow> fits (r x + n) \<and> y = u (\<lambda>_. r x + n) x"
  by (auto simp: add_stat_def res_simps)

lemma named_operands_counted:
  assumes "fold_res (count_named_operand st dirs) (enumerate 0 named) counts = Inr counts'"
  shows "ec_edges counts' = ec_edges counts + length named * dirs"
proof -
  have "ec_edges counts' = ec_edges counts + sum_list (map (\<lambda>_. dirs) named)"
    by (rule fold_counts_enumerate [OF assms]) (auto simp: count_named_operand_def add_stat_Inr seq_eq_Inr)
  then show ?thesis by (simp add: sum_list_triv)
qed

lemma restriction_operands_counted:
  assumes "fold_res (count_restriction_operand st rs) (enumerate 0 operands) counts = Inr counts'"
  shows "ec_edges counts' = ec_edges counts + sum_list (map (operand_edges rs) operands)"
proof (rule fold_counts_enumerate [OF assms])
  fix i x s t assume "count_restriction_operand st rs (i, x) s = Inr t"
  then show "ec_edges t = ec_edges s + operand_edges rs x"
    by (auto simp: count_restriction_operand_def operand_edges_def bnd_eq_Inr seq_eq_Inr add_stat_Inr bump_Inr
        split: option.splits dest!: edge_count_relation)
qed

lemma equivalents_announced:
  assumes f: "follows c prep es plan rs" and r: "equivalent_edge_counts c plan rs (directions options) (only_taxonomy options) st = Inr counts"
  shows "ec_edges counts = sum_list (map (equivalent_count options rs plan es) [0 ..< root_count c])"
proof -
  have "ec_edges counts = ec_edges equivalent_edge_counts_default + sum_list (map (equivalent_count options rs plan es) [0 ..< root_count c])"
    using r unfolding equivalent_edge_counts_def
  proof (rule fold_counts)
    fix i s t assume i: "i < root_count c" and st: "selected_step plan c st
        (equivalent_count_step plan rs (directions options) (only_taxonomy options) st) i s = Inr t"
    note step = selected_step_entry [OF f i st] and shape = shape_at_entry [OF f i]
    show "ec_edges t = ec_edges s + equivalent_count options rs plan es i"
      using f i
    proof (cases rule: entry_cases)
      case skipped
      with step show ?thesis by (simp add: equivalent_count_def)
    next
      case (bare rule)
      with step show ?thesis by (auto simp: equivalent_count_step_def shaped_handlers_def equivalent_count_def)
    next
      case (shaped rule sh emission)
      show ?thesis
      proof (cases "\<exists>a x y. sh = EquivalentShape (EquivalentAggregate a x y)")
        case True
        then obtain a x y where sh: "sh = EquivalentShape (EquivalentAggregate a x y)" by blast
        with step shaped shape obtain agg ns counts1 where agg: "aggregate_at plan i = Some agg"
          and ns: "plan_named_operands plan agg = Inr ns"
          and c1: "fold_res (count_named_operand st (directions options)) (enumerate 0 ns) s = Inr counts1"
          and rest: "(if only_taxonomy options then Inr counts1 else
            bnd (add_stat ec_ignored_shapes ec_ignored_shapes_update (planned_ignored_shapes agg) counts1) (\<lambda>counts2.
            bnd (plan_restriction_operands plan agg) (\<lambda>restrictions.
            fold_res (count_restriction_operand st rs) (enumerate 0 restrictions) counts2))) = Inr t"
          by (auto simp: equivalent_count_step_def bnd_eq_Inr ok_or_eq_Inr)
        note n = named_operands_counted [OF c1]
        show ?thesis
        proof (cases "only_taxonomy options")
          case True
          with rest n agg ns shaped sh show ?thesis by (simp add: equivalent_count_def aggregate_count_def)
        next
          case False
          with rest obtain operands where os: "plan_restriction_operands plan agg = Inr operands"
            and f2: "fold_res (count_restriction_operand st rs) (enumerate 0 operands)
              (counts1\<lparr>ec_ignored_shapes := ec_ignored_shapes counts1 + planned_ignored_shapes agg\<rparr>) = Inr t"
            by (auto simp: bnd_eq_Inr add_stat_Inr)
          from restriction_operands_counted [OF f2] n agg ns os False shaped sh show ?thesis
            by (simp add: equivalent_count_def aggregate_count_def)
        qed
      next
        case False
        with step shaped shape show ?thesis
          by (cases sh) (auto simp: equivalent_count_step_def equivalent_count_def add_stat_Inr bump_Inr
              split: equivalent_projection_t.splits)
      qed
    qed
  qed
  then show ?thesis by (simp add: equivalent_edge_counts_default_def)
qed

section \<open>Class assertions\<close>

definition class_assertion_entry_edges :: "plan_entry \<Rightarrow> nat" where
  "class_assertion_entry_edges e = (case e of
     Some (_, Some (ClassAssertionShape (ClassAssertionEdge _ _ _ _), _)) \<Rightarrow> 1 | _ \<Rightarrow> 0)"

lemma class_assertions_complete:
  assumes f: "follows c prep es plan rs"
  shows "completes (phase_edges prep c PhaseClassAssertions HandleClassAssertion (class_assertion_edges prep c))
    (sum_list (map class_assertion_entry_edges es))"
proof (rule phase_completes [OF f])
  fix i rule shapes
  assume i: "i < root_count c" and e: "es ! i = Some (rule, shapes)" and h: "handler rule = HandleClassAssertion"
  from follows_entry [OF f i] e h obtain p emission where s: "shapes = Some (ClassAssertionShape p, emission)"
    and a: "class_assertion_agrees c (prep_iri_limit prep) p emission"
    by (auto simp: entry_ok_def shapes_ok_def shapes_agree_def shaped_handlers_def shape_handlers split: option.splits)
  show "completes (class_assertion_edges prep c (map_option snd shapes)) (class_assertion_entry_edges (es ! i))"
    using a by (cases p) (auto simp: e s class_assertion_entry_edges_def class_assertion_agrees_def class_assertion_edges_def completes_def)
next
  fix e assume "e \<in> set es" and h: "case e of None \<Rightarrow> True | Some (rule, shapes) \<Rightarrow> handler rule \<noteq> HandleClassAssertion"
  with follows_shaped [OF f] have "entry_shaped e" by blast
  with h show "class_assertion_entry_edges e = 0"
    by (auto simp: class_assertion_entry_edges_def entry_shaped_def split: option.splits planned_root_shape.splits)
qed

lemma class_assertions_announced:
  assumes f: "follows c prep es plan rs"
  shows "n_class_assertions (plan_counts plan) - n_ignored_class_assertions (plan_counts plan) =
    sum_list (map class_assertion_entry_edges es)"
proof -
  note t = follows_tallies [OF f, unfolded tallies_def]
  let ?edge = "\<lambda>s. \<exists>a x b y. s = Some (ClassAssertionShape (ClassAssertionEdge a x b y))"
  from t have "counted CountClassAssertions (plan_counts plan) =
      tally (\<lambda>rule _. effect_counter (stats_effect rule) = CountClassAssertions) es" by blast
  also have "\<dots> = tally (\<lambda>_ s. ?edge s \<or> s = Some (ClassAssertionShape ClassAssertionIgnored)) es"
  proof (rule tally_cong)
    fix rule shapes assume "Some (rule, shapes) \<in> set es"
    then have sh: "entry_shaped (Some (rule, shapes))" by (rule follows_shaped [OF f])
    then have h: "effect_counter (stats_effect rule) = CountClassAssertions \<longleftrightarrow> handler rule = HandleClassAssertion"
      by (simp add: entry_shaped_def rule_families(2))
    show "(effect_counter (stats_effect rule) = CountClassAssertions) = (?edge (map_option fst shapes) \<or>
        map_option fst shapes = Some (ClassAssertionShape ClassAssertionIgnored))"
    proof (cases shapes)
      case None
      with sh h show ?thesis by (auto simp: entry_shaped_def shaped_handlers_def)
    next
      case (Some s)
      with sh h have "handler rule = shape_handler (fst s)" by (simp add: entry_shaped_def)
      then have "handler rule = HandleClassAssertion \<longleftrightarrow> (\<exists>p. fst s = ClassAssertionShape p)" by (simp add: shape_handlers)
      with h Some show ?thesis by auto (metis class_assertion_projection_t.exhaust)
    qed
  qed
  also have "\<dots> = tally (\<lambda>_ s. ?edge s) es + tally (\<lambda>_ s. s = Some (ClassAssertionShape ClassAssertionIgnored)) es"
    by (induction es rule: rev_induct) (auto split: option.splits)
  also have "tally (\<lambda>_ s. ?edge s) es = sum_list (map class_assertion_entry_edges es)"
    by (induction es rule: rev_induct)
      (auto simp: class_assertion_entry_edges_def split: option.splits planned_root_shape.splits class_assertion_projection_t.splits)
  finally show ?thesis using t by simp
qed

section \<open>Anonymous individuals\<close>

text \<open>The selected axiom roots, and the anonymous individuals an axiom mentions directly.\<close>

definition axiom_root :: "direct_columns \<Rightarrow> usize \<Rightarrow> bool" where
  "axiom_root c n \<longleftrightarrow> (\<exists>i < root_count c. root_is_selected c i = Inr True \<and> root_kind c i = Inr ROOT_AXIOM \<and> root_id c i = Inr n)"

definition renders_individuals :: "direct_columns \<Rightarrow> anonymous_ids \<Rightarrow> bool" where
  "renders_individuals c ids \<longleftrightarrow> (\<forall>n m. axiom_root c n \<longrightarrow> has_child c n m \<longrightarrow> node_tag c m = Inr TAG_ANONYMOUS_INDIVIDUAL \<longrightarrow>
     (\<exists>t. anonymous_render ids m = Inr t))"

lemma sorted_node_ids: "sorted (axiom_anonymous c)" "distinct (axiom_anonymous c)" "length (axiom_anonymous c) \<le> node_count c"
proof -
  show "sorted (axiom_anonymous c)" "distinct (axiom_anonymous c)" by (simp_all add: axiom_anonymous_def sorted_wrt_filter del: upt_Suc)
  have "length (axiom_anonymous c) \<le> length [1 ..< node_count c + 1]" unfolding axiom_anonymous_def by (rule length_filter_le)
  then show "length (axiom_anonymous c) \<le> node_count c" by (simp del: upt_Suc)
qed

lemma individuals_rendered:
  assumes ids: "axiom_anonymous_ids c st = Inr ids" and wf: "well_formed c" and nv: "nodes_valid c m"
    and st: "st \<noteq> STATE_CANCELLED" and size: "fits (node_count c + genid_base)"
    and sel: "\<And>i. i < root_count c \<Longrightarrow> root_is_selected c i = Inr (selected c i)"
  shows "renders_individuals c ids"
  unfolding renders_individuals_def
proof (intro allI impI)
  fix n k assume n: "axiom_root c n" and ch: "has_child c n k" and tag: "node_tag c k = Inr TAG_ANONYMOUS_INDIVIDUAL"
  have "fits (node_count c + 1)" using size by (rule fits_mono [rotated]) (simp add: genid_base_def)
  from axiom_anonymous_ids_value [OF wf nv st this] ids have i: "ids = \<lparr> node_ids = axiom_anonymous c, global_positions = None, single_position = None \<rparr>"
    by (simp split: if_splits)
  have "n \<in> axiom_roots c" using n sel by (auto simp: axiom_root_def axiom_roots_def)
  moreover have "reaches c n k" using ch by (simp add: reaches_def)
  moreover have "1 \<le> k \<and> k \<le> node_count c" by (rule node_tag_bounds [OF tag])
  moreover have "is_anonymous c k" using tag by simp
  ultimately have "k \<in> set (axiom_anonymous c)" by (auto simp: axiom_anonymous_def simp del: upt_Suc)
  then obtain j where j: "j < length (axiom_anonymous c)" "axiom_anonymous c ! j = k" by (auto simp: in_set_conv_nth)
  have "binary_search_by_key (\<lambda>x. x) k (axiom_anonymous c) = Inr j"
    using binary_search_by_key_iff [of "\<lambda>x. x" "axiom_anonymous c" k j] sorted_node_ids [of c] j by simp
  moreover have "fits (genid_base + j)" using size by (rule fits_mono [rotated]) (use j sorted_node_ids(3) [of c] in simp)
  ultimately show "\<exists>t. anonymous_render ids k = Inr t"
    by (simp add: anonymous_render_def i anonymous_position_def render_anonymous_identifier_def checked_add_def)
qed

lemma entry_axiom_root:
  assumes f: "follows c prep es plan rs" and i: "i < root_count c" and e: "es ! i = Some (rule, shapes)"
    and h: "handler rule = HandleAnnotationAssertion \<or> handler rule = HandleObjectPropertyAssertion" and n: "root_id c i = Inr n"
  shows "axiom_root c n"
  using follows_entry [OF f i] e rule_families(5) [of rule] h n i by (auto simp: entry_ok_def axiom_root_def)

section \<open>Object-property assertions\<close>

definition object_assertion_entry_edges :: "plan_entry \<Rightarrow> nat" where
  "object_assertion_entry_edges e = (case e of Some (_, Some (ObjectPropertyAssertionShape _ _ _, _)) \<Rightarrow> 1 | _ \<Rightarrow> 0)"

lemma individual_renders:
  assumes "individual_agrees c m root v coordinate" and "renders_individuals c ids" and "axiom_root c root"
  shows "\<exists>t. render_planned_individual c coordinate ids m = Inr t"
  using assms by (auto simp: individual_agrees_def render_planned_individual_def renders_individuals_def
      split: individual_value_t.splits planned_individual_coordinate_t.splits)

lemma object_assertions_complete:
  assumes f: "follows c prep es plan rs" and r: "renders_individuals c (prep_anonymous_ids prep)"
  shows "completes (phase_edges prep c PhaseObjectAssertions HandleObjectPropertyAssertion (object_assertion_edges prep c))
    (sum_list (map object_assertion_entry_edges es))"
proof (rule phase_completes [OF f])
  fix i rule shapes
  assume i: "i < root_count c" and e: "es ! i = Some (rule, shapes)" and h: "handler rule = HandleObjectPropertyAssertion"
  from follows_entry [OF f i] e h obtain n a r b emission where s: "shapes = Some (ObjectPropertyAssertionShape a r b, emission)"
    and ag: "object_assertion_agrees c (prep_iri_limit prep) n a r b emission" and n: "root_id c i = Inr n"
    by (auto simp: entry_ok_def shapes_ok_def shapes_agree_def shaped_handlers_def shape_handlers split: option.splits)
  from entry_axiom_root [OF f i e] h n have root: "axiom_root c n" by blast
  from ag obtain p x y where em: "emission = EmitObjectPropertyAssertion p x y"
    and pr: "named_object_property_iri c p (prep_iri_limit prep) = Inr r"
    and x: "individual_agrees c (prep_iri_limit prep) n a x" and y: "individual_agrees c (prep_iri_limit prep) n b y"
    by (auto simp: object_assertion_agrees_def)
  from individual_renders [OF x assms(2) root] individual_renders [OF y assms(2) root] pr
  show "completes (object_assertion_edges prep c (map_option snd shapes)) (object_assertion_entry_edges (es ! i))"
    by (auto simp: e s em object_assertion_edges_def object_assertion_entry_edges_def completes_def)
next
  fix e assume "e \<in> set es" and h: "case e of None \<Rightarrow> True | Some (rule, shapes) \<Rightarrow> handler rule \<noteq> HandleObjectPropertyAssertion"
  with follows_shaped [OF f] have "entry_shaped e" by blast
  with h show "object_assertion_entry_edges e = 0"
    by (auto simp: object_assertion_entry_edges_def entry_shaped_def split: option.splits planned_root_shape.splits)
qed

lemma object_assertions_announced:
  assumes f: "follows c prep es plan rs"
  shows "n_object_property_assertions (plan_counts plan) = sum_list (map object_assertion_entry_edges es)"
proof -
  note t = follows_tallies [OF f, unfolded tallies_def]
  let ?edge = "\<lambda>s. \<exists>a r b. s = Some (ObjectPropertyAssertionShape a r b)"
  from t have "counted CountObjectPropertyAssertions (plan_counts plan) =
      tally (\<lambda>rule _. effect_counter (stats_effect rule) = CountObjectPropertyAssertions) es" by blast
  also have "\<dots> = tally (\<lambda>_ s. ?edge s) es"
  proof (rule tally_cong)
    fix rule shapes assume "Some (rule, shapes) \<in> set es"
    then have sh: "entry_shaped (Some (rule, shapes))" by (rule follows_shaped [OF f])
    then have h: "effect_counter (stats_effect rule) = CountObjectPropertyAssertions \<longleftrightarrow> handler rule = HandleObjectPropertyAssertion"
      by (simp add: entry_shaped_def rule_families(3))
    show "(effect_counter (stats_effect rule) = CountObjectPropertyAssertions) = ?edge (map_option fst shapes)"
    proof (cases shapes)
      case None
      with sh h show ?thesis by (auto simp: entry_shaped_def shaped_handlers_def)
    next
      case (Some s)
      with sh h have "handler rule = shape_handler (fst s)" by (simp add: entry_shaped_def)
      then have "handler rule = HandleObjectPropertyAssertion \<longleftrightarrow> (\<exists>a r b. fst s = ObjectPropertyAssertionShape a r b)"
        by (simp add: shape_handlers)
      with h Some show ?thesis by auto
    qed
  qed
  also have "\<dots> = sum_list (map object_assertion_entry_edges es)"
    by (induction es rule: rev_induct) (auto simp: object_assertion_entry_edges_def split: option.splits planned_root_shape.splits)
  finally show ?thesis by simp
qed

section \<open>Annotation assertions\<close>

definition annotation_count :: "direct_columns \<Rightarrow> usize \<Rightarrow> nat \<Rightarrow> usize \<Rightarrow> nat" where
  "annotation_count c m st n = (case annotation_projection c n m st of Inr (Some _) \<Rightarrow> 1 | _ \<Rightarrow> 0)"

lemma count_annotation_Inr:
  assumes "count_annotation c m st n s = Inr t"
  shows "ac_edges t = ac_edges s + annotation_count c m st n" and "\<exists>r. annotation_projection c n m st = Inr r"
proof -
  from assms obtain r where r: "annotation_projection c n m st = Inr r" by (auto simp: count_annotation_def bnd_eq_Inr)
  then show "\<exists>r. annotation_projection c n m st = Inr r" by blast
  show "ac_edges t = ac_edges s + annotation_count c m st n"
  proof (cases r)
    case None
    with assms r show ?thesis by (simp add: count_annotation_def annotation_count_def)
  next
    case (Some projection)
    with assms r show ?thesis
      by (cases "ap_value projection") (auto simp: count_annotation_def annotation_count_def bnd_eq_Inr bump_Inr)
  qed
qed

lemma scalar_length: "scalar_payload c f k = Inr bs \<Longrightarrow> length bs \<le> length (scalar_bytes c)"
  by (auto simp: scalar_payload_def res_simps split: if_splits)

lemma iri_length: "iri c n m = Inr t \<Longrightarrow> length t \<le> length (scalar_bytes c)"
  by (auto simp: iri_def bnd_eq_Inr from_utf8_eq_Inr split: if_splits dest: scalar_length)

lemma literal_lengths:
  assumes "literal_parts c n m = Inr (l, d)"
  shows "length l \<le> length (scalar_bytes c)" and "length d \<le> length (scalar_bytes c)"
  using assms
  by (auto simp: literal_parts_def named_datatype_iri_def named_entity_iri_def bnd_eq_Inr seq_eq_Inr from_utf8_eq_Inr
      split: if_splits dest: scalar_length iri_length)

lemma annotation_edge_ok:
  assumes p: "annotation_projection c n m st = Inr (Some projection)" and r: "renders_individuals c ids"
    and root: "axiom_root c n" and size: "fits (2 * length (scalar_bytes c) + 8)"
  shows "\<exists>edge. annotation_edge projection ids = Inr edge"
proof -
  from p obtain start value_id where start: "exact_fields c n 4 = Inr start" and v: "field_node c (start + 2) = Inr value_id"
    and av: "annotation_value c value_id m = Inr (ap_value projection)"
    by (auto simp: annotation_projection_def bnd_eq_Inr seq_eq_Inr split: if_splits)
  show ?thesis
  proof (cases "ap_value projection")
    case (Borrowed t)
    then show ?thesis by (simp add: annotation_edge_def cloned_edge_def)
  next
    case (AnonymousValue k)
    with av have "k = value_id" "node_tag c k = Inr TAG_ANONYMOUS_INDIVIDUAL"
      by (auto simp: annotation_value_def bnd_eq_Inr seq_eq_Inr map_res_eq_Inr split: if_splits)
    moreover have "has_child c n value_id" using field_has_child [OF start v] by simp
    ultimately obtain t where "anonymous_render ids k = Inr t" using r root by (auto simp: renders_individuals_def)
    with AnonymousValue show ?thesis by (simp add: annotation_edge_def cloned_edge_def)
  next
    case (Typed l d)
    with av have "literal_parts c value_id m = Inr (l, d)"
      by (auto simp: annotation_value_def bnd_eq_Inr seq_eq_Inr map_res_eq_Inr split: if_splits)
    from literal_lengths [OF this] have "length d + 5 \<le> 2 * length (scalar_bytes c) + 8"
      "length l + 3 \<le> 2 * length (scalar_bytes c) + 8" "length l + 3 + (length d + 5) \<le> 2 * length (scalar_bytes c) + 8" by simp_all
    with size have "fits (length d + 5)" "fits (length l + 3)" "fits (length l + 3 + (length d + 5))"
      by (blast intro: fits_mono)+
    then have "\<exists>t. render_typed_annotation_literal l d = Inr t"
      by (auto simp: render_typed_annotation_literal_def checked_add_def Let_def split: option.split)
    with Typed show ?thesis by (auto simp: annotation_edge_def cloned_edge_def)
  qed
qed

lemma annotation_node_completes:
  assumes "annotation_projection c n (prep_iri_limit prep) st = Inr r" and "renders_individuals c (prep_anonymous_ids prep)"
    and "axiom_root c n" and "fits (2 * length (scalar_bytes c) + 8)"
  shows "completes (annotation_node_edges prep c st n) (annotation_count c (prep_iri_limit prep) st n)"
proof (cases r)
  case None
  with assms(1) show ?thesis by (simp add: annotation_node_edges_def annotation_count_def completes_def)
next
  case (Some projection)
  with annotation_edge_ok [OF _ assms(2-4), of "prep_iri_limit prep" st projection] assms(1) show ?thesis
    by (auto simp: annotation_node_edges_def annotation_count_def completes_def)
qed

lemma fold_steps:
  assumes "fold_res f [0 ..< n] s = Inr t" and "i < n"
  shows "\<exists>s t. f i s = Inr t"
proof -
  from fold_res_trace [OF assms(1)] obtain S where "\<forall>i \<in> {0 ..< n}. f i (S i) = Inr (S (Suc i))" by auto
  with assms(2) have "f i (S i) = Inr (S (Suc i))" by simp
  then show ?thesis by blast
qed

lemma fold_steps_enumerate:
  assumes "fold_res f (enumerate k xs) s = Inr t" and "x \<in> set xs"
  shows "\<exists>i s t. f (i, x) s = Inr t"
  using assms
proof (induction xs arbitrary: k s)
  case (Cons y xs)
  then obtain u where "f (k, y) s = Inr u" and "fold_res f (enumerate (Suc k) xs) u = Inr t" by (auto simp: bnd_eq_Inr)
  with Cons show ?case by (cases "x = y") auto
qed simp

definition annotation_entry_count :: "direct_columns \<Rightarrow> usize \<Rightarrow> nat \<Rightarrow> plan_entry list \<Rightarrow> nat \<Rightarrow> nat" where
  "annotation_entry_count c m st es i = (case es ! i of
     Some (rule, _) \<Rightarrow> if handler rule = HandleAnnotationAssertion
       then (case root_id c i of Inr n \<Rightarrow> annotation_count c m st n | _ \<Rightarrow> 0) else 0
   | None \<Rightarrow> 0)"

lemma annotation_roots_complete:
  assumes f: "follows c prep es plan rs" and r: "renders_individuals c (prep_anonymous_ids prep)"
    and size: "fits (2 * length (scalar_bytes c) + 8)"
    and counts: "annotation_edge_counts c (rule_indexes plan) (prep_iri_limit prep) st = Inr counts"
  shows "completes (joined (map (annotation_root_edges prep c st) [0 ..< root_count c])) (ac_edges counts)"
proof -
  let ?m = "prep_iri_limit prep"
  define step where "step = (\<lambda>root_index counts.
         seq (check_cancel st root_index) (
         bnd (root_is_selected c root_index) (\<lambda>chosen.
         if \<not> chosen then Inr counts else
         bnd (root_id c root_index) (\<lambda>node_id.
         bnd (resolved_root_rule_at (rule_indexes plan) root_index) (\<lambda>rule.
         if handler rule \<noteq> HandleAnnotationAssertion then Inr counts
         else count_annotation c ?m st node_id counts)))))"
  have fold: "fold_res step [0 ..< root_count c] annotation_edge_counts_default = Inr counts"
    using counts by (simp add: annotation_edge_counts_def step_def)
  have entry: "if \<exists>rule shapes n. es ! i = Some (rule, shapes) \<and> handler rule = HandleAnnotationAssertion
      then \<exists>n. root_id c i = Inr n \<and> axiom_root c n \<and> count_annotation c ?m st n s = Inr t \<and>
        annotation_root_edges prep c st i = annotation_node_edges prep c st n \<and>
        annotation_entry_count c ?m st es i = annotation_count c ?m st n
      else t = s \<and> annotation_root_edges prep c st i = no_edges \<and> annotation_entry_count c ?m st es i = 0"
    if i: "i < root_count c" and step: "step i s = Inr t" for i s t
  proof (cases "es ! i")
    case None
    with follows_entry [OF f i] step show ?thesis
      by (simp add: step_def entry_ok_def annotation_root_edges_def annotation_entry_count_def seq_eq_Inr)
  next
    case (Some e)
    obtain rule shapes where e: "e = (rule, shapes)" by (cases e)
    from follows_entry [OF f i] Some e obtain n where n: "root_is_selected c i = Inr True" "root_id c i = Inr n"
      "resolved_root_rule_at (rule_indexes plan) i = Inr rule" by (auto simp: entry_ok_def rule_at_def)
    have p: "prep_rule_indexes prep = rule_indexes plan" using f by (simp add: follows_def)
    show ?thesis
    proof (cases "handler rule = HandleAnnotationAssertion")
      case True
      from entry_axiom_root [OF f i] Some e True n have "axiom_root c n" by blast
      with True Some e n step p show ?thesis
        by (simp add: step_def annotation_root_edges_def annotation_entry_count_def seq_eq_Inr prep_rule_at_def)
    next
      case False
      with Some e n step p show ?thesis
        by (simp add: step_def annotation_root_edges_def annotation_entry_count_def seq_eq_Inr prep_rule_at_def)
    qed
  qed
  have "completes (annotation_root_edges prep c st i) (annotation_entry_count c ?m st es i)" if i: "i < root_count c" for i
  proof -
    from fold_steps [OF fold i] obtain s t where "step i s = Inr t" by blast
    from entry [OF i this] show ?thesis
      by (auto split: if_splits simp: complete dest!: count_annotation_Inr(2))
        (erule (1) annotation_node_completes [OF _ r _ size])
  qed
  then have "completes (joined (map (annotation_root_edges prep c st) [0 ..< root_count c]))
      (sum_list (map (annotation_entry_count c ?m st es) [0 ..< root_count c]))"
    by (intro completes_joined) simp
  moreover have "ac_edges counts = ac_edges annotation_edge_counts_default + sum_list (map (annotation_entry_count c ?m st es) [0 ..< root_count c])"
    using fold
  proof (rule fold_counts)
    fix i s t assume "i < root_count c" and "step i s = Inr t"
    from entry [OF this] show "ac_edges t = ac_edges s + annotation_entry_count c ?m st es i"
      by (auto split: if_splits dest: count_annotation_Inr(1))
  qed
  ultimately show ?thesis by (simp add: annotation_edge_counts_default_def)
qed

lemma chosen_annotations_complete:
  assumes roots: "\<And>n. n \<in> set chosen \<Longrightarrow> axiom_root c n" and r: "renders_individuals c (prep_anonymous_ids prep)"
    and size: "fits (2 * length (scalar_bytes c) + 8)"
    and counts: "selected_annotation_edge_counts c chosen (prep_iri_limit prep) st = Inr counts"
  shows "completes (joined (map (annotation_node_edges prep c st) chosen)) (ac_edges counts)"
proof -
  let ?m = "prep_iri_limit prep"
  note fold = counts [unfolded selected_annotation_edge_counts_def]
  have "completes (joined (map (annotation_node_edges prep c st) chosen)) (sum_list (map (annotation_count c ?m st) chosen))"
  proof (rule completes_joined)
    fix n assume n: "n \<in> set chosen"
    from fold_steps_enumerate [OF fold n] obtain i s t where "count_annotation c ?m st n s = Inr t"
      by (auto simp: seq_eq_Inr)
    from count_annotation_Inr(2) [OF this] show "completes (annotation_node_edges prep c st n) (annotation_count c ?m st n)"
      using annotation_node_completes [OF _ r roots [OF n] size] by blast
  qed
  moreover have "ac_edges counts = ac_edges annotation_edge_counts_default + sum_list (map (annotation_count c ?m st) chosen)"
    by (rule fold_counts_enumerate [OF fold]) (auto simp: seq_eq_Inr dest: count_annotation_Inr(1))
  ultimately show ?thesis by (simp add: annotation_edge_counts_default_def)
qed

text \<open>The annotations of a root document are annotation assertions of the closure.\<close>

lemma next_closure_match_root:
  assumes "next_closure_match c idxs other root_node st k = Inr (k', Some n)"
  shows "\<exists>i < root_count c. root_is_selected c i = Inr True \<and> root_id c i = Inr n \<and>
    (\<exists>rule. resolved_root_rule_at idxs i = Inr rule \<and> handler rule = HandleAnnotationAssertion)"
  using assms
proof (induction c idxs other root_node st k rule: next_closure_match.induct)
  case (1 c idxs other root_node st k)
  note unroll = next_closure_match.simps [of c idxs other root_node st k]
  show ?case
  proof (cases "k < root_count c")
    case False
    with "1.prems" show ?thesis by (simp add: unroll)
  next
    case True
    with "1.prems" obtain chosen where sel: "root_is_selected c k = Inr chosen" by (auto simp: unroll bnd_eq_Inr)
    show ?thesis
    proof (cases chosen)
      case False
      with "1.prems" True sel show ?thesis by (intro "1.IH"(1) [OF True sel]) (simp_all add: unroll)
    next
      case chosen: True
      with "1.prems" True sel obtain candidate rule equal where c: "root_id c k = Inr candidate"
        "resolved_root_rule_at idxs k = Inr rule"
        "(if handler rule = HandleAnnotationAssertion
             then structurally_equal_node c candidate other root_node st else Inr False) = Inr equal"
        by (auto simp: unroll bnd_eq_Inr)
      show ?thesis
      proof (cases equal)
        case True
        with "1.prems" \<open>k < root_count c\<close> sel chosen c have "candidate = n" by (simp add: unroll)
        with True \<open>k < root_count c\<close> sel chosen c show ?thesis by (auto split: if_splits)
      next
        case False
        with "1.prems" \<open>k < root_count c\<close> sel chosen c show ?thesis
          by (intro "1.IH"(2) [OF \<open>k < root_count c\<close> sel _ c]) (simp_all add: unroll)
      qed
    qed
  qed
qed

lemma selected_annotations_rooted:
  assumes f: "follows c prep es plan rs"
    and sel: "select_root_annotation_nodes c (rule_indexes plan) other idxs st = Inr chosen" and n: "n \<in> set chosen"
  shows "axiom_root c n"
proof -
  let ?P = "\<lambda>s. \<forall>n \<in> set (snd s). axiom_root c n"
  from sel obtain s where s: "fold_res (select_step c (rule_indexes plan) other idxs st) [0 ..< root_count other] (0, []) = Inr s"
    and chosen: "chosen = snd s" by (auto simp: select_root_annotation_nodes_def map_res_eq_Inr)
  have "?P s"
  proof (rule fold_res_invariant [where P = ?P, OF s])
    fix x s t assume P: "?P s" and step: "select_step c (rule_indexes plan) other idxs st x s = Inr t"
    show "?P t"
    proof (cases "t = s")
      case True
      with P show ?thesis by simp
    next
      case False
      with step obtain root_node k n k' where
        m: "next_closure_match c (rule_indexes plan) other root_node st k = Inr (k', Some n)"
        and t: "t = (k', snd s @ [n])"
        by (cases s) (auto simp: select_step_def bnd_eq_Inr seq_eq_Inr map_res_eq_Inr ok_or_eq_Inr split: if_splits prod.splits)
      from next_closure_match_root [OF m] obtain i rule where i: "i < root_count c" "root_is_selected c i = Inr True"
        "root_id c i = Inr n" "resolved_root_rule_at (rule_indexes plan) i = Inr rule" "handler rule = HandleAnnotationAssertion"
        by blast
      from follows_entry [OF f i(1)] i have "\<exists>shapes. es ! i = Some (rule, shapes)"
        by (auto simp: entry_ok_def rule_at_def split: option.splits)
      with entry_axiom_root [OF f i(1)] i have "axiom_root c n" by blast
      with P t show ?thesis by simp
    qed
  qed simp
  with n chosen show ?thesis by simp
qed

section \<open>Domains and ranges\<close>

definition entry_row :: "plan_entry \<Rightarrow> property_class option" where
  "entry_row e = (case e of
     Some (rule, Some (ObjectPropertyClassShape (Some (p, k)), _)) \<Rightarrow>
       Some (if domain_range_effect rule = DomainEffect then KindDomain else KindRange, p, k)
   | _ \<Rightarrow> None)"

lemma base_row:
  assumes f: "follows c prep es plan rs" and i: "i < root_count c"
  shows "base_object_property_class_at prep c i = Inr (entry_row (es ! i))"
proof -
  have p: "prep_rule_indexes prep = rule_indexes plan" using f by (simp add: follows_def)
  note e = follows_entry [OF f i] and shape = emission_at_entry [OF f i]
  show ?thesis
    using f i
  proof (cases rule: entry_cases)
    case skipped
    with e show ?thesis by (simp add: base_object_property_class_at_def entry_ok_def entry_row_def)
  next
    case (bare rule)
    with e shape p rule_families(4) [OF bare(2)] show ?thesis
      by (auto simp: base_object_property_class_at_def entry_ok_def entry_row_def prep_rule_at_def rule_at_def
          shaped_handlers_def)
  next
    case (shaped rule s emission)
    from shaped e p have sel: "root_is_selected c i = Inr True" "prep_rule_at prep i = Inr rule"
      and sh: "\<exists>n. shapes_agree c (prep_iri_limit prep) i n (aggregate_roots plan) (s, emission)"
      by (auto simp: entry_ok_def prep_rule_at_def rule_at_def shapes_ok_def)
    note fam = rule_families(4) [OF shaped(2)]
    show ?thesis
    proof (cases "\<exists>projection. s = ObjectPropertyClassShape projection")
      case True
      then obtain projection where s: "s = ObjectPropertyClassShape projection" by blast
      with sh have a: "property_class_agrees c (prep_iri_limit prep) projection emission" by (simp add: shapes_agree_def)
      from fam shaped(3) s have eff: "domain_range_effect rule \<noteq> NoDomainRange" by simp
      then obtain kind where kind: "kind_from_effect (domain_range_effect rule) = Some kind"
        "kind = (if domain_range_effect rule = DomainEffect then KindDomain else KindRange)"
        by (cases "domain_range_effect rule") simp_all
      with a s shaped sel shape show ?thesis
        by (cases projection) (auto simp: base_object_property_class_at_def entry_row_def property_class_agrees_def)
    next
      case False
      with shaped fam have "handler rule \<noteq> HandleObjectPropertyClass" "domain_range_effect rule = NoDomainRange"
        by (auto simp: shape_handlers)
      with shaped sel False show ?thesis
        by (auto simp: base_object_property_class_at_def entry_row_def split: planned_root_shape.splits)
    qed
  qed
qed

definition domain_properties :: "property_class option list \<Rightarrow> text_str list" where
  "domain_properties rows = List.map_filter (\<lambda>row. case row of Some (KindDomain, p, _) \<Rightarrow> Some p | _ \<Rightarrow> None) rows"

lemma domain_properties_count: "count_list (domain_properties rows) p = length (classes_of KindDomain p rows)"
  by (induction rows) (auto simp: domain_properties_def classes_of_def split: option.splits object_property_class_rule_kind.splits)

lemma paired_properties_alt:
  "paired_properties rows = sort (remdups (filter (\<lambda>p. classes_of KindRange p rows \<noteq> []) (domain_properties rows)))"
  by (simp add: paired_properties_def domain_properties_def)

lemma length_concat_const: "(\<And>x. x \<in> set xs \<Longrightarrow> length (f x) = n) \<Longrightarrow> length (concat (map f xs)) = length xs * n"
  by (induction xs) auto

lemma property_edges_length:
  assumes "to_owned rs = Inr owned"
  shows "length (property_edges owned rows p) =
    length (classes_of KindDomain p rows) * (length (classes_of KindRange p rows) * relation_edges rs p)"
  unfolding property_edges_def
  by (intro length_concat_const) (simp add: role_edges_length [OF assms])

lemma paired_edges_total:
  assumes "to_owned rs = Inr owned"
  shows "length (concat (map (property_edges owned rows) (paired_properties rows))) =
    sum_list (map (\<lambda>p. length (classes_of KindRange p rows) * relation_edges rs p) (domain_properties rows))"
proof -
  let ?D = "domain_properties rows"
  let ?g = "\<lambda>p. length (classes_of KindRange p rows) * relation_edges rs p"
  let ?n = "\<lambda>p. length (classes_of KindDomain p rows) * ?g p"
  have "length (concat (map (property_edges owned rows) (paired_properties rows))) = sum_list (map ?n (paired_properties rows))"
    by (simp add: length_concat comp_def property_edges_length [OF assms])
  also have "\<dots> = sum ?n (set (paired_properties rows))"
    by (intro sum_list_distinct_conv_sum_set) (simp add: paired_properties_alt)
  also have "\<dots> = sum ?n (set ?D)"
    by (intro sum.mono_neutral_left) (auto simp: paired_properties_alt)
  also have "\<dots> = sum_list (map ?g ?D)"
    by (simp add: sum_list_map_eq_sum_count domain_properties_count)
  finally show ?thesis .
qed

lemma domain_ranges_complete:
  assumes f: "follows c prep es plan rs"
  shows "completes (domain_range_edges prep c)
    (sum_list (map (\<lambda>p. length (classes_of KindRange p (map entry_row es)) * relation_edges rs p)
      (domain_properties (map entry_row es))))"
proof -
  have len: "length es = root_count c" and owned: "to_owned rs = Inr (prep_role_state prep)" using f by (simp_all add: follows_def)
  have "collect (base_object_property_class_at prep c) [0 ..< root_count c] = Inr (map entry_row es)"
    unfolding collect_Inr using base_row [OF f] len by auto
  then show ?thesis by (simp add: domain_range_edges_def completes_def paired_edges_total [OF owned])
qed

definition range_share :: "role_state \<Rightarrow> text_str \<Rightarrow> property_class option \<Rightarrow> nat" where
  "range_share rs p row = (case row of Some (KindRange, q, _) \<Rightarrow> if q = p then relation_edges rs p else 0 | _ \<Rightarrow> 0)"

lemma range_shares: "sum_list (map (range_share rs p) rows) = length (classes_of KindRange p rows) * relation_edges rs p"
  by (induction rows) (auto simp: range_share_def classes_of_def split: option.splits object_property_class_rule_kind.splits)

lemma domain_ranges_announced:
  assumes f: "follows c prep es plan rs" and r: "domain_range_edge_count c plan rs st = Inr (products, expanded)"
  shows "expanded = sum_list (map (\<lambda>p. length (classes_of KindRange p (map entry_row es)) * relation_edges rs p)
    (domain_properties (map entry_row es)))"
proof -
  let ?rows = "map entry_row es"
  let ?g = "\<lambda>row. case row of Some (KindDomain, p, _) \<Rightarrow> length (classes_of KindRange p ?rows) * relation_edges rs p | _ \<Rightarrow> 0"
  have len: "length es = root_count c" using f by (simp add: follows_def)
  have inner: "snd t = snd s + length (classes_of KindRange p ?rows) * relation_edges rs p"
    if "fold_res (selected_step plan c st (range_count_step plan rs p)) [0 ..< root_count c] s = Inr t" for p s t
  proof -
    have "snd t = snd s + sum_list (map (\<lambda>i. range_share rs p (entry_row (es ! i))) [0 ..< root_count c])"
      using that
    proof (rule fold_counts)
      fix i s t assume i: "i < root_count c" and st: "selected_step plan c st (range_count_step plan rs p) i s = Inr t"
      note step = selected_step_entry [OF f i st] and shape = shape_at_entry [OF f i]
      show "snd t = snd s + range_share rs p (entry_row (es ! i))"
        using f i
      proof (cases rule: entry_cases)
        case skipped
        with step show ?thesis by (simp add: entry_row_def range_share_def)
      next
        case (bare rule)
        with step rule_families(4) [OF bare(2)] show ?thesis
          by (auto simp: range_count_step_def entry_row_def range_share_def shaped_handlers_def split: prod.splits)
      next
        case (shaped rule sh emission)
        show ?thesis
        proof (cases "domain_range_effect rule = RangeEffect")
          case False
          with step shaped rule_families(4) [OF shaped(2)] show ?thesis
            by (cases "domain_range_effect rule"; cases sh)
              (auto simp: range_count_step_def entry_row_def range_share_def split: prod.splits option.splits)
        next
          case True
          with shaped rule_families(4) [OF shaped(2)] obtain projection where "sh = ObjectPropertyClassShape projection"
            by (auto simp: shape_handlers)
          with True step shaped shape show ?thesis
            by (cases projection) (auto simp: range_count_step_def entry_row_def range_share_def relation_edges_def res_simps
                split: prod.splits if_splits)
        qed
      qed
    qed
    then show ?thesis
      by (simp add: sum_over_entries [OF len, where g = "\<lambda>e. range_share rs p (entry_row e)"] range_shares [symmetric] comp_def)
  qed
  have "snd (products, expanded) = snd (0 :: nat, 0 :: nat) + sum_list (map (\<lambda>i. ?g (entry_row (es ! i))) [0 ..< root_count c])"
    using r unfolding domain_range_edge_count_def
  proof (rule fold_counts [where \<mu> = snd and g = "\<lambda>i. ?g (entry_row (es ! i))"])
    fix i s t assume i: "i < root_count c" and st: "selected_step plan c st (domain_count_step c plan rs st) i s = Inr t"
    note step = selected_step_entry [OF f i st] and shape = shape_at_entry [OF f i]
    show "snd t = snd s + ?g (entry_row (es ! i))"
      using f i
    proof (cases rule: entry_cases)
      case skipped
      with step show ?thesis by (simp add: entry_row_def)
    next
      case (bare rule)
      with step rule_families(4) [OF bare(2)] show ?thesis
        by (auto simp: domain_count_step_def entry_row_def shaped_handlers_def)
    next
      case (shaped rule sh emission)
      show ?thesis
      proof (cases "domain_range_effect rule = DomainEffect")
        case False
        with step shaped show ?thesis
          by (cases sh) (auto simp: domain_count_step_def entry_row_def split: option.splits)
      next
        case True
        with shaped rule_families(4) [OF shaped(2)] obtain projection where "sh = ObjectPropertyClassShape projection"
          by (auto simp: shape_handlers)
        with True step shaped shape show ?thesis
          by (cases projection) (auto simp: domain_count_step_def entry_row_def inner)
      qed
    qed
  qed
  then have "expanded = sum_list (map ?g ?rows)" by (simp add: sum_over_entries [OF len, where g = "\<lambda>e. ?g (entry_row e)"] comp_def)
  also have "sum_list (map ?g rows) = sum_list (map (\<lambda>p. length (classes_of KindRange p ?rows) * relation_edges rs p) (domain_properties rows))" for rows
    by (induction rows) (auto simp: domain_properties_def split: option.splits object_property_class_rule_kind.splits)
  finally show ?thesis .
qed

section \<open>The announced number\<close>

lemma emission_completes:
  assumes f: "follows c prep es plan rs" and sl: "sliced plan" and r: "renders_individuals c (prep_anonymous_ids prep)"
    and size: "fits (2 * length (scalar_bytes c) + 8)"
    and e: "count_projected_edges c (prep_options prep) st plan rs (prep_selected_annotation_nodes prep) = Inr e"
    and roots: "\<And>chosen n. prep_selected_annotation_nodes prep = Some chosen \<Longrightarrow> n \<in> set chosen \<Longrightarrow> axiom_root c n"
  shows "completes (emission_trace prep c None st) (pe_total e)"
proof -
  let ?o = "prep_options prep" and ?m = "prep_iri_limit prep" and ?counts = "plan_counts plan"
  from e obtain direct taxonomy ec ec_expansion ec_base restriction class_edges ac skipped products expanded where
    direct: "Option.bind (checked_sub (n_subclasses ?counts) (n_restriction_subclasses ?counts))
             (\<lambda>n. checked_sub n (n_ignored_subclasses ?counts)) = Some direct"
    and taxonomy: "checked_mul direct (directions ?o) = Some taxonomy"
    and ec: "unless_asserted ?o equivalent_edge_counts_default
             (equivalent_edge_counts c plan rs (directions ?o) (only_taxonomy ?o) st) = Inr ec"
    and restriction: "(if asserted_taxonomy_only ?o \<or> only_taxonomy ?o then Inr 0
           else restriction_role_edge_count c plan rs st) = Inr restriction"
    and class_edges: "unless_asserted ?o 0
             (ok_or Malformed (checked_sub (n_class_assertions ?counts) (n_ignored_class_assertions ?counts))) = Inr class_edges"
    and ac: "(if asserted_taxonomy_only ?o \<or> \<not> include_literals ?o then Inr annotation_edge_counts_default
           else case prep_selected_annotation_nodes prep of
             Some chosen \<Rightarrow> selected_annotation_edge_counts c chosen ?m st
           | None \<Rightarrow> annotation_edge_counts c (rule_indexes plan) ?m st) = Inr ac"
    and dr: "unless_asserted ?o (0, 0) (domain_range_edge_count c plan rs st) = Inr (products, expanded)"
    and projected: "checked_sum [taxonomy, ec_edges ec, restriction, ac_edges ac, class_edges,
             if asserted_taxonomy_only ?o then 0 else n_object_property_assertions ?counts, expanded] = Some (pe_total e)"
    unfolding count_projected_edges_def Let_def
    by (auto simp: bnd_eq_Inr ok_or_eq_Inr split: if_splits)
  have d: "direct = n_subclasses ?counts - n_restriction_subclasses ?counts - n_ignored_subclasses ?counts"
    and t: "taxonomy = direct * directions ?o"
    using direct taxonomy by (auto simp: res_simps bind_eq_Some_conv)
  have total: "pe_total e = taxonomy + ec_edges ec + restriction + ac_edges ac + class_edges +
      (if asserted_taxonomy_only ?o then 0 else n_object_property_assertions ?counts) + expanded"
    using projected by (auto simp: checked_sum_def bind_eq_Some_conv res_simps)
  let ?r = "sum_list (map (\<lambda>e. case e of
      Some (_, Some (SubclassShape (SubclassRestriction _ r _), _)) \<Rightarrow> relation_edges rs r | _ \<Rightarrow> 0) es)"
  have "restriction = (if projects_roles ?o then ?r else 0)"
    using restriction restriction_announced [OF f] by (auto simp: projects_roles_def split: if_splits)
  from subclass_announced [OF f this]
  have sub: "completes (phase_edges prep c PhaseSubclasses HandleSubclass (subclass_edges prep c)) (taxonomy + restriction)"
    using subclass_completes [OF f] by (simp add: t d)
  show ?thesis
  proof (cases "asserted_taxonomy_only ?o")
    case True
    with ec restriction class_edges ac dr have "pe_total e = taxonomy + restriction"
      by (auto simp: total unless_asserted_def equivalent_edge_counts_default_def annotation_edge_counts_default_def)
    with True sub show ?thesis by (simp add: emission_trace_def)
  next
    case False
    have eq: "completes (phase_edges prep c PhaseEquivalents HandleEquivalentClasses (equivalent_edges prep c)) (ec_edges ec)"
      using equivalents_complete [OF f sl] equivalents_announced [OF f] ec False by (simp add: unless_asserted_def)
    have an: "completes (annotation_phase_edges prep c None st) (ac_edges ac)"
    proof (cases "include_literals ?o")
      case False
      with ac have "ac = annotation_edge_counts_default" by simp
      with False show ?thesis by (simp add: annotation_phase_edges_def complete annotation_edge_counts_default_def)
    next
      case True
      note literals = this
      show ?thesis
      proof (cases "prep_selected_annotation_nodes prep")
        case None
        with literals False ac annotation_roots_complete [OF f r size] show ?thesis by (simp add: annotation_phase_edges_def)
      next
        case (Some chosen)
        with literals False ac chosen_annotations_complete [OF roots [OF Some] r size] show ?thesis
          by (simp add: annotation_phase_edges_def)
      qed
    qed
    have cl: "completes (phase_edges prep c PhaseClassAssertions HandleClassAssertion (class_assertion_edges prep c)) class_edges"
      using class_assertions_complete [OF f] class_assertions_announced [OF f] class_edges False
      by (auto simp: unless_asserted_def res_simps)
    have ob: "completes (phase_edges prep c PhaseObjectAssertions HandleObjectPropertyAssertion (object_assertion_edges prep c))
        (n_object_property_assertions ?counts)"
      using object_assertions_complete [OF f r] object_assertions_announced [OF f] by simp
    have dom: "completes (domain_range_edges prep c) expanded"
      using domain_ranges_complete [OF f] domain_ranges_announced [OF f] dr False by (simp add: unless_asserted_def)
    have "completes (later_phases prep c None st) (ec_edges ec + (ac_edges ac + (class_edges + (n_object_property_assertions ?counts + (expanded + 0)))))"
      unfolding later_phases_def joined_simps by (intro completes_followed eq an cl ob dom completes_none)
    from completes_followed [OF sub this] False show ?thesis
      by (simp add: emission_trace_def total ac_simps)
  qed
qed

text \<open>What a successful preflight of one table provides.\<close>

lemma prepared_follows:
  assumes p: "prepare_direct c other options st retained None None None = Inr (prep, plan')" and fit: "buffers_fit c"
    and size: "fits (node_count c + genid_base)"
  shows "\<exists>es plan rs e. follows c prep es plan rs \<and> sliced plan \<and> renders_individuals c (prep_anonymous_ids prep) \<and>
    count_projected_edges c (prep_options prep) st plan rs (prep_selected_annotation_nodes prep) = Inr e \<and>
    (\<forall>chosen. prep_selected_annotation_nodes prep = Some chosen \<longrightarrow> (\<forall>n \<in> set chosen. axiom_root c n)) \<and>
    stat_edges (prep_statistics prep) = pe_total e \<and> pe_total e \<le> max_edges_option options \<and> fits (pe_total e) \<and>
    prep_local_classes prep = [] \<and> prep_overlay_deltas prep = [] \<and> st \<noteq> STATE_CANCELLED"
proof -
  from p obtain plan chosen ids own_bytes provenance rs e roots taken owned where
    cancel: "check_cancel st 0 = Inr ()" and vg: "validate_generic c st = Inr ()"
    and vs: "validate_supported_nodes c (max_iri_bytes options) st = Inr ()"
    and plan: "resolve_selected_root_rule_plan_unbounded c (max_iri_bytes options) st = Inr plan"
    and chosen: "root_annotations c other (max_iri_bytes options) st plan = Inr chosen"
    and ids: "axiom_anonymous_ids c st = Inr ids"
    and rs: "prepared_role_state options st retained None plan None = Inr rs"
    and e: "count_projected_edges c options st plan rs chosen = Inr e"
    and taken: "take_emission_plan plan st = Inr (taken, plan')" and owned: "to_owned rs = Inr owned"
    and prep: "prep = assemble_preparation owned taken ids chosen options
            (compile_statistics c roots ids (plan_counts plan) chosen e own_bytes provenance)"
    unfolding prepare_direct_def effective_plan_def option.case
    by (auto simp: bnd_eq_Inr seq_eq_Inr)
  from cancel have st: "st \<noteq> STATE_CANCELLED" by (auto simp: check_cancel_def split: if_splits)
  have wf: "well_formed c" by (rule validate_generic_well_formed [OF vg fit])
  have nv: "nodes_valid c (max_iri_bytes options)"
    using vs by (auto simp: validate_supported_nodes_def nodes_valid_def seq_eq_Inr for_each_eq_Inr)
  from populate_invariant [OF plan] obtain es where es: "length es = root_count c" "plan_invariant c (max_iri_bytes options) es plan" by blast
  from taken have tk: "taken = \<lparr> taken_rule_indexes = rule_indexes plan, taken_emission_roots = emission_roots plan,
             taken_aggregate_roots = aggregate_roots plan, taken_named_nodes = aggregate_emission_named_nodes plan,
             taken_restrictions = aggregate_emission_restrictions plan \<rparr>"
    by (auto simp: take_emission_plan_def seq_eq_Inr)
  have f: "follows c prep es plan rs" using es owned by (simp add: follows_def prep assemble_preparation_def tk)
  have sel: "root_is_selected c i = Inr (selected c i)" if "i < root_count c" for i
    using wf that by (simp add: well_formed_def)
  have rend: "renders_individuals c (prep_anonymous_ids prep)"
    using individuals_rendered [OF ids wf nv st size sel] by (simp add: prep assemble_preparation_def)
  have rooted: "\<forall>n \<in> set ns. axiom_root c n" if "prep_selected_annotation_nodes prep = Some ns" for ns
  proof -
    from that chosen obtain root_columns idxs where
      "select_root_annotation_nodes c (rule_indexes plan) root_columns idxs st = Inr ns"
      by (auto simp: prep assemble_preparation_def root_annotations_def bnd_eq_Inr seq_eq_Inr split: option.splits if_splits)
    from selected_annotations_rooted [OF f this] show ?thesis by blast
  qed
  have limit: "pe_total e \<le> max_edges_option options \<and> fits (pe_total e)"
    using e unfolding count_projected_edges_def Let_def
    by (auto simp: bnd_eq_Inr ok_or_eq_Inr checked_sum_def bind_eq_Some_conv res_simps split: if_splits)
  show ?thesis
    using f take_emission_sliced [OF taken] rend e rooted limit st
    by (intro exI [of _ es] exI [of _ plan] exI [of _ rs] exI [of _ e])
      (simp add: prep assemble_preparation_def compile_statistics_def)
qed

text \<open>The word is polled for a cancellation and nothing else.\<close>

lemma annotation_projection_running:
  assumes "st \<noteq> STATE_CANCELLED" and "st' \<noteq> STATE_CANCELLED"
  shows "annotation_projection c n m st = annotation_projection c n m st'"
proof -
  have "contains_class_iri c t m st = contains_class_iri c t m st'" for t
    using assms by (simp add: contains_class_iri_def)
  then show ?thesis by (simp add: annotation_projection_def cong: if_cong)
qed

lemma emission_trace_running:
  assumes "st \<noteq> STATE_CANCELLED" and "st' \<noteq> STATE_CANCELLED"
  shows "emission_trace prep c None st = emission_trace prep c None st'"
proof -
  have n: "annotation_node_edges prep c st = annotation_node_edges prep c st'"
    using annotation_projection_running [OF assms] by (auto simp: annotation_node_edges_def fun_eq_iff)
  have r: "annotation_root_edges prep c st = annotation_root_edges prep c st'"
    by (rule ext) (simp only: annotation_root_edges_def n cong: sum.case_cong option.case_cong)
  have "annotation_phase_edges prep c None st = annotation_phase_edges prep c None st'"
    unfolding annotation_phase_edges_def option.case n r ..
  then show ?thesis unfolding emission_trace_def later_phases_def by (simp only:)
qed

lemma prepared_batches_complete:
  assumes p: "prepare_direct_batches_uncommitted c other options st retained = Inr b" and fit: "buffers_fit c"
    and size: "fits (node_count c + genid_base)" "fits (2 * length (scalar_bytes c) + 8)"
  shows "completes (batch_trace (OneTable c) st b) (stat_edges (prep_statistics (preparation b)))"
    and "stat_edges (prep_statistics (preparation b)) \<le> max_edges_option options"
    and "roles_fit (prep_role_state (preparation b)) \<Longrightarrow> batch_ready (OneTable c) st b"
    and "batch_rest (OneTable c) st b = fst (batch_trace (OneTable c) st b)"
    and "roles_fit (prep_role_state (preparation b)) \<Longrightarrow> st' \<noteq> STATE_CANCELLED \<Longrightarrow>
      batch_ready (OneTable c) st' b \<and> batch_trace (OneTable c) st' b = batch_trace (OneTable c) st b"
proof -
  from p obtain prep plan' where prep: "prepare_direct c other options st retained None None None = Inr (prep, plan')"
    and b: "b = \<lparr> preparation = prep, batch_cursor = initial_cursor \<rparr>"
    by (auto simp: prepare_direct_batches_uncommitted_def prepare_direct_batches_with_local_role_uncommitted_def map_res_eq_Inr)
  from prepared_follows [OF prep fit size(1)] obtain es plan rs e where f: "follows c prep es plan rs" "sliced plan"
      "renders_individuals c (prep_anonymous_ids prep)"
    and e: "count_projected_edges c (prep_options prep) st plan rs (prep_selected_annotation_nodes prep) = Inr e"
    and roots: "\<forall>chosen. prep_selected_annotation_nodes prep = Some chosen \<longrightarrow> (\<forall>n \<in> set chosen. axiom_root c n)"
    and stat: "stat_edges (prep_statistics prep) = pe_total e" "pe_total e \<le> max_edges_option options" "fits (pe_total e)"
    and empty: "prep_local_classes prep = []" "prep_overlay_deltas prep = []" and st: "st \<noteq> STATE_CANCELLED" by blast
  show total: "completes (batch_trace (OneTable c) st b) (stat_edges (prep_statistics (preparation b)))"
    using emission_completes [OF f(1-3) size(2) e] roots stat(1) by (simp add: batch_trace_def b)
  show "stat_edges (prep_statistics (preparation b)) \<le> max_edges_option options" using stat by (simp add: b)
  show "batch_rest (OneTable c) st b = fst (batch_trace (OneTable c) st b)" by (simp add: batch_rest_def b initial_cursor_def)
  have "fits (root_count c)" using buffers_fitD(5) [OF fit] by (simp add: root_count_def)
  with empty have em: "emittable (preparation b) (source_base (OneTable c))" if "roles_fit (prep_role_state (preparation b))"
    using that by (simp add: emittable_def b deltas_in_place_def fits_small)
  show "batch_ready (OneTable c) st b" if "roles_fit (prep_role_state (preparation b))"
    using em [OF that] st total stat by (intro batch_ready_initial(1)) (simp_all add: b completes_def)
  show "batch_ready (OneTable c) st' b \<and> batch_trace (OneTable c) st' b = batch_trace (OneTable c) st b"
    if "roles_fit (prep_role_state (preparation b))" and st': "st' \<noteq> STATE_CANCELLED"
  proof -
    have same: "batch_trace (OneTable c) st' b = batch_trace (OneTable c) st b"
      unfolding batch_trace_def source_columns.simps by (rule emission_trace_running [OF st' st])
    with em [OF that(1)] st' total stat have "batch_ready (OneTable c) st' b"
      by (intro batch_ready_initial(1)) (simp_all add: b completes_def)
    with same show ?thesis by blast
  qed
qed

section \<open>A concrete preparation\<close>

text \<open>The axiom \<open>SubClassOf(a, b)\<close>, prepared with literals in both directions.\<close>

definition taxonomy_options :: direct_compile_options where
  "taxonomy_options = direct_compile_options.make True False False True 10 10"

lemma taxonomy_option_values:
  "bidirectional taxonomy_options" "\<not> asserted_taxonomy_only taxonomy_options" "\<not> only_taxonomy taxonomy_options"
  "include_literals taxonomy_options" "max_edges_option taxonomy_options = 10" "max_iri_bytes taxonomy_options = 10"
  by (simp_all add: taxonomy_options_def direct_compile_options.defs)

lemma taxonomy_valid: "validate_generic taxonomy_table STATE_RUNNING = Inr ()"
  by (simp_all add: taxonomy_table_def table_eval generic_eval)

lemma taxonomy_fits: "buffers_fit taxonomy_table" "fits (node_count taxonomy_table + genid_base)"
    "fits (2 * length (scalar_bytes taxonomy_table) + 8)"
  by (simp_all add: buffers_fit_def buffers_def scope_maps_def taxonomy_table_def table_eval genid_base_def fits_def)

lemma taxonomy_supported: "validate_supported_nodes taxonomy_table 10 STATE_RUNNING = Inr ()"
  by (simp add: taxonomy_table_def table_eval validator_defs STATE_RUNNING_def upt_rec subclass_projection_def
      named_class_iri_def)

definition taxonomy_plan :: selected_root_rule_plan where
  "taxonomy_plan = \<lparr> rule_indexes = [2], shape_roots = [(0, SubclassShape (SubclassTaxonomy ''a'' ''b''))],
     emission_roots = [(0, EmitSubclassTaxonomy 2 4)], aggregate_roots = [],
     aggregate_named_operands = [], aggregate_restriction_operands = [], aggregate_emission_named_nodes = [],
     aggregate_emission_restrictions = [], role_roots = [], plan_counts = root_counts_default\<lparr>n_subclasses := 1\<rparr>,
     plan_selected = 1 \<rparr>"

lemma taxonomy_resolved:
  "resolve_selected_root_rule_plan_unbounded taxonomy_table 10 STATE_RUNNING =
    Inr taxonomy_plan"
proof -
  have r: "root_id taxonomy_table 0 = Inr 5" "root_kind taxonomy_table 0 = Inr 2" "node_tag taxonomy_table 5 = Inr 61"
    "exact_fields taxonomy_table 5 3 = Inr 6" "field_node taxonomy_table 6 = Inr 2" "field_node taxonomy_table (Suc 6) = Inr 4"
    "selected_root_count taxonomy_table = Inr 1" "root_count taxonomy_table = 1" "root_is_selected taxonomy_table 0 = Inr True"
    "subclass_projection taxonomy_table 5 10 = Inr (SubclassTaxonomy ''a'' ''b'')"
    by (simp_all add: taxonomy_table_def table_eval selected_root_count_def subclass_projection_def root_is_selected_def named_class_iri_def validator_defs lower_bound.simps)
  have rule: "resolve_index 2 61 = Inr 2" "rule_by_index 1 = Inr (ROOT_RULES ! 1)" "handler (ROOT_RULES ! 1) = HandleSubclass"
    "stats_effect (ROOT_RULES ! 1) = ShapeClassified CountSubclasses" "role_effect (ROOT_RULES ! 1) = NoRoleEffect"
    by (simp_all add: resolve_index_Inr rules_length rule_by_index_def get_at_def) (simp_all add: ROOT_RULES_def rule_key_def)
  have e: "empty_plan (Suc 0) = \<lparr> rule_indexes = [0], shape_roots = [], emission_roots = [], aggregate_roots = [],
       aggregate_named_operands = [], aggregate_restriction_operands = [], aggregate_emission_named_nodes = [],
       aggregate_emission_restrictions = [], role_roots = [], plan_counts = root_counts_default, plan_selected = 0 \<rparr>"
    by (simp add: empty_plan_def)
  have bumped: "increment CountSubclasses root_counts_default = Inr (root_counts_default\<lparr>n_subclasses := 1\<rparr>)"
    by (simp add: bump_def root_counts_default_def root_counts.defs checked_add_def fits_def)
  show ?thesis
    using r rule bumped
    by (simp add: taxonomy_plan_def resolve_selected_root_rule_plan_unbounded_def populate_selected_root_rule_plan_def e populate_step_def
        plan_root_shape_def classify_def classify_shape_def record_root_def checked_add_def fits_def state_defs check_cancel_def)
qed

lemma taxonomy_prepared:
  "\<exists>b. prepare_direct_batches_uncommitted taxonomy_table None taxonomy_options STATE_RUNNING None = Inr b \<and>
     stat_edges (prep_statistics (preparation b)) = 2 \<and> prep_role_state (preparation b) = owned_role_state_default"
proof -
  let ?plan = taxonomy_plan
  note o = taxonomy_option_values
  have r: "root_count taxonomy_table = 1" "root_is_selected taxonomy_table 0 = Inr True" "root_id taxonomy_table 0 = Inr 5"
    "selected_root_count taxonomy_table = Inr 1" "\<exists>n. buffer_bytes taxonomy_table = Inr n"
    by (simp_all add: taxonomy_table_def table_eval selected_root_count_def root_is_selected_def validator_defs lower_bound.simps
        buffer_bytes_def buffers_def checked_add_def fits_def)
  have ids: "axiom_anonymous_ids taxonomy_table STATE_RUNNING = Inr anonymous_ids_default"
    by (simp add: axiom_anonymous_ids_def taxonomy_table_def table_eval state_defs check_cancel_def upt_rec)
  have rule: "rule_at ?plan 0 = Inr (ROOT_RULES ! Suc 0)" "handler (ROOT_RULES ! Suc 0) = HandleSubclass"
    "domain_range_effect (ROOT_RULES ! Suc 0) = NoDomainRange" "is_skipped (ROOT_RULES ! Suc 0) taxonomy_options = False"
    "rule_by_index (Suc 0) = Inr (ROOT_RULES ! Suc 0)"
    by (simp_all add: taxonomy_plan_def rule_at_def resolved_root_rule_at_def rules_length rule_by_index_def get_at_def checked_sub_def)
      (simp_all add: ROOT_RULES_def is_skipped_def disposition_def mode_from_options_def o mode_tables)
  have counts: "plan_counts ?plan = root_counts_default\<lparr>n_subclasses := 1\<rparr>" "role_roots ?plan = []" "rule_indexes ?plan = [2]" "aggregate_roots ?plan = []" "emission_roots ?plan = [(0, EmitSubclassTaxonomy 2 4)]"
     "shape_at ?plan 0 = Some (SubclassShape (SubclassTaxonomy ''a'' ''b''))"
    by (simp_all add: taxonomy_plan_def shape_at_def planned_at_def binary_search_by_key_def binary_search_in.simps cmp_def)
  have z: "n_subclasses root_counts_default = 0" "n_sub_object_properties root_counts_default = 0" "n_inverse_object_properties root_counts_default = 0"
    "n_object_property_chains root_counts_default = 0" "n_restriction_subclasses root_counts_default = 0" "n_ignored_subclasses root_counts_default = 0"
    "n_class_assertions root_counts_default = 0" "n_ignored_class_assertions root_counts_default = 0" "n_object_property_assertions root_counts_default = 0"
    by (simp_all add: root_counts_default_def root_counts.defs)
  have role: "prepared_role_state taxonomy_options STATE_RUNNING None None ?plan None = Inr role_state_default"
    by (simp add: prepared_role_state_def o build_role_state_def counts role_axioms_def z checked_add_def checked_sub_def fits_def planned_rows_def
      build_role_state_from_rows_def grow_capacity.simps cancellable_sort_unstable_by_def with_capacity_def checked_mul_def apply_rows_def has_local_tag_def state_defs check_cancel_def)
  have projected: "\<exists>e. count_projected_edges taxonomy_table taxonomy_options STATE_RUNNING ?plan role_state_default None = Inr e \<and> pe_total e = 2"
    by (simp add: count_projected_edges_def o counts z rule r checked_sub_def checked_mul_def checked_add_def fits_def directions_def unless_asserted_def
      equivalent_edge_counts_def selected_step_def equivalent_count_step_def equivalent_edge_counts_default_def restriction_role_edge_count_def restriction_count_step_def
      annotation_edge_counts_def resolved_root_rule_at_def get_at_def annotation_edge_counts_default_def skipped_axioms_def domain_range_edge_count_def domain_count_step_def
      state_defs check_cancel_def checked_sum_def)
  obtain e where e: "count_projected_edges taxonomy_table taxonomy_options STATE_RUNNING ?plan role_state_default None = Inr e" "pe_total e = 2"
    using projected by blast
  have taken: "\<exists>t p. take_emission_plan ?plan STATE_RUNNING = Inr (t, p)"
    by (simp add: take_emission_plan_def counts check_cancel_def state_defs)
  have start: "check_cancel STATE_RUNNING 0 = Inr ()" by (simp add: check_cancel_def state_defs)
  from r(5) obtain n where n: "buffer_bytes taxonomy_table = Inr n" by blast
  show ?thesis
    using taken e
    by (auto simp: prepare_direct_batches_uncommitted_def prepare_direct_batches_with_local_role_uncommitted_def prepare_direct_def start
        effective_plan_def root_annotations_def provenance_bytes_of_def o taxonomy_valid taxonomy_supported taxonomy_resolved ids role r(1-4) n to_owned_id
        assemble_preparation_def compile_statistics_def role_state_default_def owned_role_state_default_def)
qed

section \<open>Properties\<close>

text \<open>
  C7: The number of edges the preflight announces in its statistics is exactly the number of edges
  the emission produces, and the emission ends without an error: once \<open>prepare_direct\<close> has
  accepted a table, every count, rendering and arena lookup of the cursor is already known to
  succeed. The announced number also respects the caller's limit. This holds for every
  projection mode, any retained role state and any root document.
\<close>
theorem announced_edges_exact:
  assumes "prepare_direct_batches_uncommitted c other options st retained = Inr b" and "buffers_fit c"
    and "fits (node_count c + genid_base)" and "fits (2 * length (scalar_bytes c) + 8)"
  shows "length (fst (batch_trace (OneTable c) st b)) = stat_edges (prep_statistics (preparation b)) \<and>
    snd (batch_trace (OneTable c) st b) = None \<and>
    stat_edges (prep_statistics (preparation b)) \<le> max_edges_option options"
  using prepared_batches_complete(1,2) [OF assms] by (simp add: completes_def)

text \<open>
  C8: A caller of a prepared table who asks for batches of any sizes receives exactly as many
  edges as it asked for until the announced number is reached, and none of its calls fails or
  fails to return: the \<open>malformed\<close> branch for an output that ends early is unreachable.
\<close>
theorem prepared_output_complete:
  assumes "prepare_direct_batches_uncommitted c other options st retained = Inr b" and "buffers_fit c"
    and "fits (node_count c + genid_base)" and "fits (2 * length (scalar_bytes c) + 8)"
    and "roles_fit (prep_role_state (preparation b))"
  shows "\<exists>edges b'. drain_with (take_batch (OneTable c) st) sizes b = Some (edges, b') \<and>
    length edges = min (sum_list sizes) (stat_edges (prep_statistics (preparation b)))"
  using batches.drain_with_take [OF prepared_batches_complete(3) [OF assms], of sizes]
    prepared_batches_complete(1,4) [OF assms(1-4)]
  by (auto simp: completes_def min_def)

theorem announced_edges_exact_witness:
  "\<exists>b. prepare_direct_batches_uncommitted taxonomy_table None taxonomy_options STATE_RUNNING None = Inr b \<and>
     length (fst (batch_trace (OneTable taxonomy_table) STATE_RUNNING b)) = 2 \<and>
     snd (batch_trace (OneTable taxonomy_table) STATE_RUNNING b) = None"
proof -
  from taxonomy_prepared obtain b where b: "prepare_direct_batches_uncommitted taxonomy_table None taxonomy_options STATE_RUNNING None = Inr b"
    and "stat_edges (prep_statistics (preparation b)) = 2" by blast
  with announced_edges_exact [OF b taxonomy_fits] show ?thesis by auto
qed

theorem prepared_output_complete_witness:
  "\<exists>b edges b'. prepare_direct_batches_uncommitted taxonomy_table None taxonomy_options STATE_RUNNING None = Inr b \<and>
     drain_with (take_batch (OneTable taxonomy_table) STATE_RUNNING) [1, 0, 5] b = Some (edges, b') \<and> length edges = 2"
proof -
  from taxonomy_prepared obtain b where b: "prepare_direct_batches_uncommitted taxonomy_table None taxonomy_options STATE_RUNNING None = Inr b"
    and s: "stat_edges (prep_statistics (preparation b)) = 2" and r: "prep_role_state (preparation b) = owned_role_state_default" by blast
  from r have "roles_fit (prep_role_state (preparation b))" by (simp add: roles_fit_def owned_role_state_default_def)
  from prepared_output_complete [OF b taxonomy_fits this, of "[1, 0, 5]"] b s show ?thesis by auto
qed

end
