(* ===== verification/Plan_Census.thy ===== *)
theory Plan_Census
  imports Announced_Edges
begin

text \<open>
  What the counters of a resolved root plan count: a census of the selected roots, stated over
  the table and the finished plan only (the loop invariant is in Plan_Invariant).
\<close>

definition census :: "direct_columns \<Rightarrow> selected_root_rule_plan \<Rightarrow> (root_rule \<Rightarrow> planned_root_shape option \<Rightarrow> bool) \<Rightarrow> nat" where
  "census c plan p = card {i. i < root_count c \<and> root_is_selected c i = Inr True \<and>
     (\<exists>rule. rule_at plan i = Inr rule \<and> p rule (shape_at plan i))}"

lemma tally_census:
  assumes "plan_invariant c m es plan" and "length es = root_count c"
  shows "tally p es = census c plan p"
proof -
  have "(case es ! i of None \<Rightarrow> False | Some (rule, shapes) \<Rightarrow> p rule (map_option fst shapes)) \<longleftrightarrow>
      root_is_selected c i = Inr True \<and> (\<exists>rule. rule_at plan i = Inr rule \<and> p rule (shape_at plan i))"
    if i: "i < root_count c" for i
  proof -
    from assms i have ok: "entry_ok c m plan i (es ! i)" by (simp add: plan_invariant_def)
    from assms i have "shape_at plan i = (case es ! i of Some (_, Some shapes) \<Rightarrow> Some (fst shapes) | _ \<Rightarrow> None)"
      by (simp add: plan_invariant_def shape_at_def planned_at_rows)
    with ok show ?thesis by (auto simp: entry_ok_def split: option.splits)
  qed
  with assms(2) show ?thesis
    by (simp add: tally_def census_def length_filter_conv_card) (metis (no_types, lifting))
qed

lemma chains_census:
  assumes "plan_invariant c m es plan" and "length es = root_count c"
  shows "n_object_property_chains (plan_counts plan) = card {i. i < root_count c \<and> root_is_selected c i = Inr True \<and>
    (\<exists>rule n. rule_at plan i = Inr rule \<and> handler rule = HandleSubObjectProperty \<and> root_id c i = Inr n \<and> chain_node c n)}"
proof -
  have "chain_entry c i (es ! i) \<longleftrightarrow> root_is_selected c i = Inr True \<and>
      (\<exists>rule n. rule_at plan i = Inr rule \<and> handler rule = HandleSubObjectProperty \<and> root_id c i = Inr n \<and> chain_node c n)"
    if i: "i < root_count c" for i
  proof -
    from assms i have "entry_ok c m plan i (es ! i)" by (simp add: plan_invariant_def)
    then show ?thesis by (auto simp: entry_ok_def chain_entry_def split: option.splits)
  qed
  then have "{i. i < root_count c \<and> chain_entry c i (es ! i)} = {i. i < root_count c \<and> root_is_selected c i = Inr True \<and>
      (\<exists>rule n. rule_at plan i = Inr rule \<and> handler rule = HandleSubObjectProperty \<and> root_id c i = Inr n \<and> chain_node c n)}"
    by blast
  with assms show ?thesis by (simp add: plan_invariant_def chains_counted_def)
qed

text \<open>
  C19: The counters of a resolved root plan are exactly a census of the selected roots, each of
  them: the number of selected roots; for every statistic the number of selected roots whose row of
  the rule table moves it; the numbers of sub-class axioms planned as restrictions or ignored, of
  equivalences planned as aggregates, of ignored class assertions, of ignored property domains and
  of ignored property ranges; and the number of sub-property axioms whose first operand is a
  chain in the table. A root outside the selection is never counted.
\<close>
theorem plan_census:
  assumes "resolve_selected_root_rule_plan_unbounded c maximum st = Inr plan"
  shows "plan_selected plan = census c plan (\<lambda>_ _. True) \<and>
    (\<forall>k. counted k (plan_counts plan) = census c plan (\<lambda>rule _. effect_counter (stats_effect rule) = k)) \<and>
    n_restriction_subclasses (plan_counts plan) = census c plan (\<lambda>_ s. is_restriction_shape s) \<and>
    n_ignored_subclasses (plan_counts plan) = census c plan (\<lambda>_ s. s = Some (SubclassShape SubclassIgnored)) \<and>
    n_aggregate_equivalents (plan_counts plan) = census c plan (\<lambda>_ s. is_aggregate_shape s) \<and>
    n_ignored_class_assertions (plan_counts plan) = census c plan (\<lambda>_ s. s = Some (ClassAssertionShape ClassAssertionIgnored)) \<and>
    n_ignored_object_property_domains (plan_counts plan) = census c plan (is_ignored_class DomainEffect) \<and>
    n_ignored_object_property_ranges (plan_counts plan) = census c plan (is_ignored_class RangeEffect) \<and>
    n_object_property_chains (plan_counts plan) = card {i. i < root_count c \<and> root_is_selected c i = Inr True \<and>
      (\<exists>rule n. rule_at plan i = Inr rule \<and> handler rule = HandleSubObjectProperty \<and> root_id c i = Inr n \<and> chain_node c n)}"
proof -
  from populate_invariant [OF assms] obtain es where es: "length es = root_count c" "plan_invariant c maximum es plan" by blast
  note census = tally_census [OF es(2,1)]
  from es(2) show ?thesis unfolding chains_census [OF es(2,1)] by (simp add: plan_invariant_def tallies_def census)
qed

theorem plan_census_witness:
  "plan_selected taxonomy_plan = 1 \<and> census taxonomy_table taxonomy_plan (\<lambda>_ _. True) = 1 \<and>
   counted CountSubclasses (plan_counts taxonomy_plan)
     = census taxonomy_table taxonomy_plan (\<lambda>rule _. effect_counter (stats_effect rule) = CountSubclasses) \<and>
   census taxonomy_table taxonomy_plan (\<lambda>_ s. is_aggregate_shape s) = 0 \<and>
   census taxonomy_table taxonomy_plan (is_ignored_class DomainEffect) = 0"
proof -
  have "plan_selected taxonomy_plan = 1" "n_aggregate_equivalents (plan_counts taxonomy_plan) = 0"
    "n_ignored_object_property_domains (plan_counts taxonomy_plan) = 0"
    by (simp_all add: taxonomy_plan_def root_counts_default_def root_counts.defs)
  then show ?thesis using plan_census [OF taxonomy_resolved] by (simp del: counted.simps)
qed

text \<open>
  C20: A resolved root plan assigns every selected root the row of the rule table that carries its
  kind and tag, and no root outside the selection is required to have one; the planned shape of a
  root is the one its row's handler computes: shapes exist for the five shaped handlers only.
\<close>
theorem plan_follows_rule_table:
  assumes "resolve_selected_root_rule_plan_unbounded c maximum st = Inr plan"
    and "i < root_count c" and "root_is_selected c i = Inr True"
  shows "\<exists>rule n. rule_at plan i = Inr rule \<and> rule \<in> set ROOT_RULES \<and> root_id c i = Inr n \<and>
    root_kind c i = Inr (rule_root_kind rule) \<and> node_tag c n = Inr (rule_tag rule) \<and>
    (case shape_at plan i of None \<Rightarrow> handler rule \<notin> shaped_handlers | Some s \<Rightarrow> shape_handler s = handler rule)"
proof -
  from populate_invariant [OF assms(1)] obtain es where es: "length es = root_count c" "plan_invariant c maximum es plan" by blast
  with assms(2) have ok: "entry_ok c maximum plan i (es ! i)" by (simp add: plan_invariant_def)
  from es assms(2) have "shape_at plan i = (case es ! i of Some (_, Some shapes) \<Rightarrow> Some (fst shapes) | _ \<Rightarrow> None)"
    by (simp add: plan_invariant_def shape_at_def planned_at_rows)
  with ok assms(3) show ?thesis
    by (auto simp: entry_ok_def shapes_ok_def split: option.splits prod.splits)
qed

theorem plan_follows_rule_table_witness:
  "\<exists>rule. rule_at taxonomy_plan 0 = Inr rule \<and> rule \<in> set ROOT_RULES \<and> rule_tag rule = 61"
proof -
  have r: "root_count taxonomy_table = 1" "root_is_selected taxonomy_table 0 = Inr True" "root_id taxonomy_table 0 = Inr 5" "node_tag taxonomy_table 5 = Inr 61"
    by (simp_all add: taxonomy_table_def table_eval root_is_selected_def validator_defs lower_bound.simps)
  from plan_follows_rule_table [OF taxonomy_resolved, of 0] r show ?thesis by auto
qed

end
