(* ===== verification/Compiler_Inputs.thy ===== *)
theory Compiler_Inputs
  imports Columns
begin

text \<open>
  The buffers an \<open>EncodedDirectCompiler\<close> of \<open>native/src/lib.rs\<close> retains and the tables it reads
  from them: inspection of memory views, whole and packed exporters, the base table with its
  postings and scope maps, the members of a dynamic composite and the fixed members of a small
  one. A Python object is the record of the attributes the code reads; identity of two exporters
  is equality of their numbers. Messages are kept for the errors the life cycle raises itself.
\<close>

section \<open>Errors at the Python boundary\<close>

datatype compiler_error =
    ValueError string
  | RuntimeError string
  | MemoryError
  | BufferError
  | UnsupportedError
  | ReferenceError
  | CancelledError
  | ForeignError string

type_synonym 'a compiler_res = "compiler_error + 'a"

fun kernel_error_raised :: "kernel_error \<Rightarrow> compiler_error" where
  "kernel_error_raised Malformed = BufferError"
| "kernel_error_raised Unsupported = UnsupportedError"
| "kernel_error_raised ReferenceFailure = ReferenceError"
| "kernel_error_raised Resource = MemoryError"
| "kernel_error_raised Cancelled = CancelledError"
| "kernel_error_raised Panicked = RuntimeError ''panic contained at the native projector boundary''"

definition raised :: "'a kres \<Rightarrow> 'a compiler_res" where
  "raised r = (case r of Inl e \<Rightarrow> Inl (kernel_error_raised e) | Inr v \<Rightarrow> Inr v)"

section \<open>Retained buffers\<close>

definition BUFFER_COUNT :: nat where "BUFFER_COUNT = 11"

datatype exporter = ExactImmutableBytes nat bytes | GeneralReadonlyContiguous

record memory_view =
  view_exact :: bool
  view_readonly :: bool
  view_ndim :: usize
  view_itemsize :: usize
  view_c_contiguous :: bool
  view_format :: string
  view_nbytes :: usize
  view_len :: usize
  view_obj :: exporter
  view_contents :: bytes

definition checked_memoryview_length :: "memory_view \<Rightarrow> usize compiler_res" where
  "checked_memoryview_length v =
     (if \<not> view_exact v then Inl BufferError else
      if \<not> view_readonly v then Inl BufferError else
      if view_ndim v \<noteq> 1 \<or> view_itemsize v \<noteq> 1 \<or> \<not> view_c_contiguous v \<or> view_format v \<noteq> ''B''
      then Inl BufferError else
      if view_len v \<noteq> view_nbytes v then Inl BufferError else Inr (view_nbytes v))"

record validated_direct_buffer =
  candidate_view :: memory_view
  candidate_exporter :: exporter
  candidate_length :: usize

definition inspect :: "memory_view \<Rightarrow> validated_direct_buffer compiler_res" where
  "inspect v = map_res (\<lambda>n. \<lparr> candidate_view = v, candidate_exporter = view_obj v, candidate_length = n \<rparr>)
     (checked_memoryview_length v)"

definition is_general_exporter :: "validated_direct_buffer \<Rightarrow> bool" where
  "is_general_exporter candidate = (candidate_exporter candidate = GeneralReadonlyContiguous)"

text \<open>
  A retained slice. Every constructor below keeps \<open>slice_start \<le> slice_end \<le> length storage\<close>, so the
  slice expression of \<open>as_slice\<close> never leaves its exporter (\<open>retained_inside\<close>).
\<close>

record retained_direct_buffer =
  storage :: bytes
  slice_start :: usize
  slice_end :: usize

definition as_slice :: "retained_direct_buffer \<Rightarrow> bytes" where
  "as_slice b = take (slice_end b - slice_start b) (drop (slice_start b) (storage b))"

definition into_exact_bytes :: "validated_direct_buffer \<Rightarrow> (bytes \<times> usize) compiler_res" where
  "into_exact_bytes candidate = (case candidate_exporter candidate of
     ExactImmutableBytes _ contents \<Rightarrow> Inr (contents, candidate_length candidate)
   | GeneralReadonlyContiguous \<Rightarrow> Inl UnsupportedError)"

definition retained_exact_bytes_buffer :: "memory_view \<Rightarrow> retained_direct_buffer compiler_res" where
  "retained_exact_bytes_buffer v =
     bnd (inspect v) (\<lambda>candidate.
     bnd (into_exact_bytes candidate) (\<lambda>(contents, n).
     if length contents \<noteq> n then Inl UnsupportedError
     else Inr \<lparr> storage = contents, slice_start = 0, slice_end = n \<rparr>))"

text \<open>Eleven whole exporters, or one exporter cut into consecutive ranges.\<close>

fun exact_contents :: "exporter \<Rightarrow> bytes" where
  "exact_contents (ExactImmutableBytes _ contents) = contents"
| "exact_contents GeneralReadonlyContiguous = []"

definition covers_exporter :: "validated_direct_buffer \<Rightarrow> bool" where
  "covers_exporter candidate = (length (exact_contents (candidate_exporter candidate)) = candidate_length candidate)"

definition same_exporter :: "exporter \<Rightarrow> exporter \<Rightarrow> bool" where
  "same_exporter a b = (case (a, b) of
     (ExactImmutableBytes i _, ExactImmutableBytes j _) \<Rightarrow> i = j | _ \<Rightarrow> False)"

fun packed_slices :: "bytes \<Rightarrow> usize \<Rightarrow> validated_direct_buffer list \<Rightarrow> retained_direct_buffer list compiler_res" where
  "packed_slices contents start [] = Inr []"
| "packed_slices contents start (candidate # rest) =
     bnd (ok_or BufferError (checked_add start (candidate_length candidate))) (\<lambda>finish_index.
     if start > 2 ^ 63 - 1 \<or> finish_index > 2 ^ 63 - 1 then Inl BufferError else
     if view_contents (candidate_view candidate) \<noteq> take (candidate_length candidate) (drop start contents)
     then Inl UnsupportedError else
     map_res ((#) \<lparr> storage = contents, slice_start = start, slice_end = finish_index \<rparr>)
       (packed_slices contents finish_index rest))"

definition packed_length :: "validated_direct_buffer list \<Rightarrow> usize compiler_res" where
  "packed_length candidates =
     fold_res (\<lambda>candidate sofar. ok_or BufferError (checked_add sofar (candidate_length candidate))) candidates 0"

definition retain_direct_bytes_exporters :: "validated_direct_buffer list \<Rightarrow> retained_direct_buffer list compiler_res" where
  "retain_direct_bytes_exporters borrowed =
     (if list_all covers_exporter borrowed then
        Inr (map (\<lambda>candidate. \<lparr> storage = exact_contents (candidate_exporter candidate), slice_start = 0,
               slice_end = candidate_length candidate \<rparr>) borrowed)
      else case borrowed of
        [] \<Rightarrow> Inl BufferError
      | first # _ \<Rightarrow>
          if \<exists>candidate \<in> set borrowed. \<not> same_exporter (candidate_exporter candidate) (candidate_exporter first)
          then Inl UnsupportedError else
          bnd (packed_length borrowed) (\<lambda>covered.
          if covered \<noteq> length (exact_contents (candidate_exporter first)) then Inl UnsupportedError else
          packed_slices (exact_contents (candidate_exporter first)) 0 borrowed))"

definition retain_direct_exporters :: "validated_direct_buffer list \<Rightarrow> retained_direct_buffer list compiler_res" where
  "retain_direct_exporters candidates =
     (if \<exists>candidate \<in> set candidates. is_general_exporter candidate then Inl UnsupportedError
      else retain_direct_bytes_exporters candidates)"

definition retained_structural_buffers :: "memory_view list \<Rightarrow> retained_direct_buffer list compiler_res" where
  "retained_structural_buffers views =
     (if length views \<noteq> BUFFER_COUNT then Inl BufferError else
      bnd (fold_res (\<lambda>v candidates. map_res (\<lambda>candidate. candidates @ [candidate]) (inspect v)) views [])
        retain_direct_exporters)"

section \<open>Tables of a compiler\<close>

record retained_composite_root_member =
  root_member_buffers :: "retained_direct_buffer list"
  root_member_included :: "retained_direct_buffer option"
  root_member_excluded :: "retained_direct_buffer option"
  root_member_scope_maps :: "retained_direct_buffer list"

record retained_composite_member =
  member_buffers :: "retained_direct_buffer list option"
  member_included :: "retained_direct_buffer option"
  member_excluded :: "retained_direct_buffer option"
  member_scope_maps :: "retained_direct_buffer list"
  member_root :: "retained_composite_root_member option"

record compiler_inputs =
  base_buffers :: "retained_direct_buffer list"
  overlay_delta_buffers :: "retained_direct_buffer list option"
  third_member_buffers :: "retained_direct_buffer list option"
  fourth_member_buffers :: "retained_direct_buffer list option"
  has_nested_member :: bool
  has_merge_manifest :: bool
  composite_members :: "retained_composite_member list option"
  canonical_merge_limits :: "(usize \<times> usize) option"
  input_included :: "retained_direct_buffer option"
  input_excluded :: "retained_direct_buffer option"
  right_excluded :: "retained_direct_buffer option"
  third_excluded :: "retained_direct_buffer option"
  fourth_excluded :: "retained_direct_buffer option"
  input_scope_map :: "retained_direct_buffer option"
  right_scope_map :: "retained_direct_buffer option"
  root_annotation_buffers :: "retained_direct_buffer list option"
  char_case :: "nat \<Rightarrow> nat list"

definition optional_slice :: "retained_direct_buffer option \<Rightarrow> bytes" where
  "optional_slice b = (case b of None \<Rightarrow> [] | Some b' \<Rightarrow> as_slice b')"

definition table_of :: "compiler_inputs \<Rightarrow> retained_direct_buffer list \<Rightarrow> direct_columns" where
  "table_of inputs retained_list = from_ordered (char_case inputs) (map as_slice retained_list)"

definition with_member_postings :: "direct_columns \<Rightarrow> retained_direct_buffer option \<Rightarrow> retained_direct_buffer option
    \<Rightarrow> retained_direct_buffer list \<Rightarrow> direct_columns" where
  "with_member_postings c included excluded maps =
     with_anonymous_scope_map_chain
       (with_excluded_root_ids (with_included_root_ids c (optional_slice included)) (optional_slice excluded))
       (map as_slice maps)"

definition retained_base_columns :: "compiler_inputs \<Rightarrow> direct_columns \<Rightarrow> direct_columns compiler_res" where
  "retained_base_columns inputs base = (case composite_members inputs of
     Some [] \<Rightarrow> Inl (RuntimeError ''encoded dynamic composite lost its base member'')
   | Some (first # _) \<Rightarrow>
       if member_buffers first \<noteq> None
       then Inl (RuntimeError ''encoded dynamic composite duplicated its base buffers'')
       else Inr (with_member_postings base (member_included first) (member_excluded first) (member_scope_maps first))
   | None \<Rightarrow>
       Inr (with_anonymous_scope_map
         (with_excluded_root_ids (with_included_root_ids base (optional_slice (input_included inputs)))
           (optional_slice (input_excluded inputs)))
         (optional_slice (input_scope_map inputs))))"

record dynamic_composite_columns_t =
  composite_closure :: "direct_columns list"
  composite_root :: "direct_columns list option"

definition composite_member_columns :: "compiler_inputs \<Rightarrow> direct_columns \<Rightarrow> usize \<times> retained_composite_member
    \<Rightarrow> direct_columns compiler_res" where
  "composite_member_columns inputs base indexed = (case indexed of (i, member) \<Rightarrow>
     bnd (if i = 0 then retained_base_columns inputs base
          else case member_buffers member of
            None \<Rightarrow> Inl (RuntimeError ''encoded dynamic composite lost a member table'')
          | Some retained_list \<Rightarrow> Inr (table_of inputs retained_list)) (\<lambda>columns.
     Inr (with_member_postings columns (member_included member) (member_excluded member) (member_scope_maps member))))"

definition composite_root_columns :: "compiler_inputs \<Rightarrow> retained_composite_member \<Rightarrow> direct_columns compiler_res" where
  "composite_root_columns inputs member = (case member_root member of
     None \<Rightarrow> Inl (RuntimeError ''encoded dynamic composite lost one paired ROOT member'')
   | Some root \<Rightarrow> Inr (with_member_postings (table_of inputs (root_member_buffers root))
       (root_member_included root) (root_member_excluded root) (root_member_scope_maps root)))"

text \<open>\<open>alloc n\<close> says whether a reservation of \<open>n\<close> elements succeeds.\<close>

definition dynamic_composite_columns :: "(nat \<Rightarrow> bool) \<Rightarrow> compiler_inputs \<Rightarrow> direct_columns
    \<Rightarrow> dynamic_composite_columns_t option compiler_res" where
  "dynamic_composite_columns alloc inputs base = (case composite_members inputs of
     None \<Rightarrow> Inr None
   | Some members \<Rightarrow>
       seq (reject_if (\<not> alloc (length members)) MemoryError) (
       bnd (fold_res (\<lambda>indexed columns. map_res (\<lambda>column. columns @ [column])
              (composite_member_columns inputs base indexed)) (enumerate 0 members) []) (\<lambda>closure_columns.
       if \<exists>member \<in> set members. member_root member \<noteq> None then
         seq (reject_if (\<not> alloc (length members)) MemoryError) (
         bnd (fold_res (\<lambda>member columns. map_res (\<lambda>column. columns @ [column])
                (composite_root_columns inputs member)) members []) (\<lambda>roots.
         Inr (Some \<lparr> composite_closure = closure_columns, composite_root = Some roots \<rparr>)))
       else Inr (Some \<lparr> composite_closure = closure_columns, composite_root = None \<rparr>))))"

definition overlay_delta_columns :: "compiler_inputs \<Rightarrow> direct_columns option" where
  "overlay_delta_columns inputs = map_option (\<lambda>retained_list.
     with_anonymous_scope_map
       (with_excluded_root_ids (table_of inputs retained_list) (optional_slice (right_excluded inputs)))
       (if has_nested_member inputs then [] else optional_slice (right_scope_map inputs)))
     (overlay_delta_buffers inputs)"

definition third_member_columns :: "compiler_inputs \<Rightarrow> direct_columns option" where
  "third_member_columns inputs = map_option (\<lambda>retained_list.
     with_anonymous_scope_map
       (with_excluded_root_ids (table_of inputs retained_list) (optional_slice (third_excluded inputs)))
       (if has_nested_member inputs then optional_slice (right_scope_map inputs) else []))
     (third_member_buffers inputs)"

definition fourth_member_columns :: "compiler_inputs \<Rightarrow> direct_columns option" where
  "fourth_member_columns inputs = map_option (\<lambda>retained_list.
     with_excluded_root_ids (table_of inputs retained_list) (optional_slice (fourth_excluded inputs)))
     (fourth_member_buffers inputs)"

definition root_annotation_columns :: "compiler_inputs \<Rightarrow> direct_columns option" where
  "root_annotation_columns inputs = map_option (table_of inputs) (root_annotation_buffers inputs)"

text \<open>The tables of a small composite of two to four members, unused places filled with the base.\<close>

definition fixed_member_count :: "compiler_inputs \<Rightarrow> nat" where
  "fixed_member_count inputs = 2 + (if third_member_columns inputs \<noteq> None then 1 else 0)
     + (if fourth_member_columns inputs \<noteq> None then 1 else 0)"

definition fixed_composite_columns :: "compiler_inputs \<Rightarrow> direct_columns \<Rightarrow> direct_columns \<Rightarrow> direct_columns list" where
  "fixed_composite_columns inputs base delta =
     take (fixed_member_count inputs)
       [base, delta, case_option base id (third_member_columns inputs), case_option base id (fourth_member_columns inputs)]"

definition present :: "'a option \<Rightarrow> nat" where
  "present b = (if b = None then 0 else 1)"

definition retained_buffer_count :: "compiler_inputs \<Rightarrow> nat" where
  "retained_buffer_count inputs =
     length (base_buffers inputs) + case_option 0 length (overlay_delta_buffers inputs)
     + case_option 0 length (third_member_buffers inputs) + case_option 0 length (fourth_member_buffers inputs)
     + (case composite_members inputs of None \<Rightarrow> 0 | Some members \<Rightarrow> sum_list (map (\<lambda>member.
          case_option 0 length (member_buffers member) + present (member_included member)
          + present (member_excluded member) + length (member_scope_maps member)
          + (case member_root member of None \<Rightarrow> 0 | Some root \<Rightarrow> length (root_member_buffers root)
               + present (root_member_included root) + present (root_member_excluded root)
               + length (root_member_scope_maps root))) members))
     + case_option 0 length (root_annotation_buffers inputs)
     + present (input_included inputs) + present (input_excluded inputs) + present (right_excluded inputs)
     + present (third_excluded inputs) + present (fourth_excluded inputs) + present (input_scope_map inputs)
     + present (right_scope_map inputs)"

section \<open>Retention keeps the contents\<close>

definition retained_inside :: "retained_direct_buffer \<Rightarrow> bool" where
  "retained_inside b \<longleftrightarrow> slice_start b \<le> slice_end b \<and> slice_end b \<le> length (storage b)"

lemma packed_slices_spec:
  assumes "packed_slices contents start candidates = Inr retained_list"
    and "start + sum_list (map candidate_length candidates) \<le> length contents"
  shows "map as_slice retained_list = map (\<lambda>candidate. view_contents (candidate_view candidate)) candidates \<and>
    concat (map (\<lambda>candidate. view_contents (candidate_view candidate)) candidates)
      = take (sum_list (map candidate_length candidates)) (drop start contents) \<and>
    list_all retained_inside retained_list"
  using assms
proof (induction candidates arbitrary: start retained_list)
  case Nil
  then show ?case by simp
next
  case (Cons candidate rest)
  from Cons.prems(1) obtain tail where tail: "packed_slices contents (start + candidate_length candidate) rest = Inr tail"
    and v: "view_contents (candidate_view candidate) = take (candidate_length candidate) (drop start contents)"
    and b: "retained_list = \<lparr> storage = contents, slice_start = start, slice_end = start + candidate_length candidate \<rparr> # tail"
    by (auto simp: res_simps split: if_splits)
  from Cons.IH [OF tail] Cons.prems(2) b v show ?case
    by (simp add: as_slice_def retained_inside_def take_add add.commute)
qed

lemma packed_length_spec: "packed_length candidates = Inr n \<Longrightarrow> n = sum_list (map candidate_length candidates)"
proof -
  have "fold_res (\<lambda>candidate sofar. ok_or BufferError (checked_add sofar (candidate_length candidate))) candidates k = Inr n
      \<Longrightarrow> n = k + sum_list (map candidate_length candidates)" for k
    proof (induction candidates arbitrary: k)
    case Nil
    then show ?case by simp
  next
    case (Cons candidate candidates)
    then show ?case by (fastforce simp: res_simps)
  qed
  from this [of 0] show "packed_length candidates = Inr n \<Longrightarrow> n = sum_list (map candidate_length candidates)"
    by (simp add: packed_length_def)
qed

definition faithful_view :: "validated_direct_buffer \<Rightarrow> bool" where
  "faithful_view candidate \<longleftrightarrow>
     (covers_exporter candidate \<longrightarrow> view_contents (candidate_view candidate) = exact_contents (candidate_exporter candidate))"

text \<open>
  C5: Whatever layout the exporters have, the slices a compiler retains read exactly the bytes the
  Python memory views showed, none of them leaves its exporter, and a packed exporter is used up
  completely: its slices are consecutive and concatenate to it. The documented fact used
  about Python is that a contiguous view as long as its exporter shows the whole exporter.
\<close>
theorem retained_slices_exact:
  assumes "retain_direct_exporters candidates = Inr retained_list" and "list_all faithful_view candidates"
  shows "map as_slice retained_list = map (\<lambda>candidate. view_contents (candidate_view candidate)) candidates \<and>
    list_all retained_inside retained_list \<and>
    (list_all covers_exporter candidates \<or>
     concat (map as_slice retained_list) = exact_contents (candidate_exporter (hd candidates)))"
proof (cases "list_all covers_exporter candidates")
  case True
  with assms show ?thesis
    by (auto simp: retain_direct_exporters_def retain_direct_bytes_exporters_def faithful_view_def as_slice_def
        covers_exporter_def retained_inside_def list_all_iff split: if_splits)
next
  case False
  with assms(1) obtain first rest n where c: "candidates = first # rest" and n: "packed_length candidates = Inr n"
    "n = length (exact_contents (candidate_exporter first))"
    and p: "packed_slices (exact_contents (candidate_exporter first)) 0 candidates = Inr retained_list"
    by (auto simp: retain_direct_exporters_def retain_direct_bytes_exporters_def bnd_eq_Inr split: if_splits list.splits)
  from packed_length_spec [OF n(1)] n(2) have whole: "sum_list (map candidate_length candidates) = length (exact_contents (candidate_exporter first))"
    by simp
  from packed_slices_spec [OF p] whole have "map as_slice retained_list = map (\<lambda>candidate. view_contents (candidate_view candidate)) candidates"
    and "concat (map (\<lambda>candidate. view_contents (candidate_view candidate)) candidates) = exact_contents (candidate_exporter first)"
    and "list_all retained_inside retained_list"
    by auto
  then show ?thesis unfolding c list.sel by (metis (no_types, lifting))
qed

definition packed_sample :: "validated_direct_buffer list" where
  "packed_sample = map (\<lambda>(contents, n). \<lparr> candidate_view = \<lparr> view_exact = True, view_readonly = True, view_ndim = 1,
       view_itemsize = 1, view_c_contiguous = True, view_format = ''B'', view_nbytes = n, view_len = n,
       view_obj = ExactImmutableBytes 0 ''abc'', view_contents = contents \<rparr>,
     candidate_exporter = ExactImmutableBytes 0 ''abc'', candidate_length = n \<rparr>) [(''a'', 1), ('''', 0), (''bc'', 2)]"

theorem retained_slices_exact_witness:
  "\<exists>retained_list. retain_direct_exporters packed_sample = Inr retained_list \<and> map as_slice retained_list = [''a'', [], ''bc''] \<and>
     concat (map as_slice retained_list) = ''abc''"
proof -
  obtain retained_list where b: "retain_direct_exporters packed_sample = Inr retained_list"
    by (simp add: retain_direct_exporters_def retain_direct_bytes_exporters_def packed_sample_def is_general_exporter_def
        covers_exporter_def same_exporter_def packed_length_def checked_add_def fits_def)
  have "list_all faithful_view packed_sample" "\<not> list_all covers_exporter packed_sample"
    by (simp_all add: packed_sample_def faithful_view_def covers_exporter_def)
  with retained_slices_exact [OF b] b show ?thesis by (auto simp: packed_sample_def)
qed

end
