(* ===== verification/Compiler_Lifecycle.thy ===== *)
theory Compiler_Lifecycle
  imports Compiler_Inputs Announced_Edges
begin

text \<open>
  The life cycle of an \<open>EncodedDirectCompiler\<close> (\<open>native/src/lib.rs\<close>): its state word
  (\<open>begin\<close>, \<open>finish_result\<close>, \<open>cancel\<close>), the role state retained across compilers, the
  resumable output, and the sections of \<open>compile_batch\<close>, \<open>compile_batches\<close> and \<open>next_batch\<close>
  that run without another thread in between. A section ends where the interpreter lock is
  released (\<open>py.detach\<close>) or Python code is called; Compiler_Runs interleaves them.

  A compare-and-exchange is one function on the word. The messages are those of the code.
\<close>

section \<open>The state word\<close>

definition begin_compiler :: "nat \<Rightarrow> unit compiler_res \<times> nat" where
  "begin_compiler w =
     (if w = STATE_IDLE then (Inr (), STATE_RUNNING)
      else if w = STATE_CANCELLED then (Inl CancelledError, w)
      else if w = STATE_RUNNING then (Inl (ValueError ''encoded direct compiler is already running''), w)
      else if w = STATE_FINISHED then (Inl (ValueError ''encoded direct compiler is already finished''), w)
      else if w = STATE_FAILED then (Inl (ValueError ''encoded direct compiler is permanently failed''), w)
      else (Inl (RuntimeError ''encoded direct compiler entered an invalid state''), w))"

definition finish_result :: "nat \<Rightarrow> 'a compiler_res \<Rightarrow> 'a compiler_res \<times> nat" where
  "finish_result w result = (case result of
     Inr v \<Rightarrow>
       if w = STATE_RUNNING then (Inr v, STATE_FINISHED)
       else if w = STATE_CANCELLED then (Inl CancelledError, w)
       else (Inl (RuntimeError ''encoded direct compiler changed state during compilation''), w)
   | Inl e \<Rightarrow>
       if w = STATE_RUNNING then (Inl e, STATE_FAILED)
       else if w = STATE_CANCELLED then (Inl CancelledError, w)
       else (Inl e, w))"

definition cancel_compiler :: "nat \<Rightarrow> bool \<times> nat" where
  "cancel_compiler w = (if w = STATE_IDLE \<or> w = STATE_RUNNING then (True, STATE_CANCELLED) else (False, w))"

definition compiler_state_name :: "nat \<Rightarrow> string" where
  "compiler_state_name w =
     (if w = STATE_IDLE then ''idle'' else if w = STATE_RUNNING then ''running''
      else if w = STATE_FINISHED then ''finished'' else if w = STATE_CANCELLED then ''cancelled''
      else if w = STATE_FAILED then ''failed'' else ''invalid'')"

section \<open>The retained role state\<close>

text \<open>\<open>roles_poisoned\<close>: a thread panicked while it held the lock of the roles.\<close>

record retained_role_state =
  retained_roles :: owned_role_state
  in_use :: bool
  roles_poisoned :: bool

definition retained_role_state_default :: retained_role_state where
  "retained_role_state_default = \<lparr> retained_roles = owned_role_state_default, in_use = False, roles_poisoned = False \<rparr>"

definition claim :: "retained_role_state \<Rightarrow> unit compiler_res \<times> retained_role_state" where
  "claim r = (if in_use r then (Inl (ValueError ''encoded direct role state is already in use''), r)
     else (Inr (), r\<lparr>in_use := True\<rparr>))"

definition release :: "retained_role_state \<Rightarrow> retained_role_state" where
  "release r = r\<lparr>in_use := False\<rparr>"

definition lock_roles :: "retained_role_state \<Rightarrow> owned_role_state compiler_res" where
  "lock_roles r = (if roles_poisoned r then Inl (RuntimeError ''encoded direct role state is permanently failed'')
     else Inr (retained_roles r))"

definition subrole_property_count :: "retained_role_state \<Rightarrow> usize compiler_res" where
  "subrole_property_count r = map_res subrole_count (lock_roles r)"

definition inverse_property_count :: "retained_role_state \<Rightarrow> usize compiler_res" where
  "inverse_property_count r = map_res inverse_count (lock_roles r)"

definition role_snapshot :: "retained_role_state \<Rightarrow> ((text_str \<times> text_str list) list \<times> (text_str \<times> text_str) list) compiler_res" where
  "role_snapshot r = bnd (lock_roles r) (\<lambda>roles. raised (owned_snapshot roles))"

text \<open>A preparation under the lock of the roles; a panic inside poisons the lock.\<close>

definition prepare_claimed :: "(owned_role_state option \<Rightarrow> 'a kres) \<Rightarrow> retained_role_state
    \<Rightarrow> 'a compiler_res \<times> retained_role_state" where
  "prepare_claimed run r = (case lock_roles r of
     Inl e \<Rightarrow> (Inl e, r)
   | Inr roles \<Rightarrow> (raised (run (Some roles)),
       if run (Some roles) = Inl Panicked then r\<lparr>roles_poisoned := True\<rparr> else r))"

section \<open>The resumable output\<close>

record batch_output =
  out_stream :: "prepared_direct_batches option"
  out_remaining :: usize
  out_batch_edges :: usize
  out_boundary_calls :: usize
  out_edge_batches :: usize
  out_peak :: usize
  out_prepared :: bool
  out_draining :: bool
  out_exhausted :: bool
  out_cancelled :: bool

definition batch_output_default :: batch_output where
  "batch_output_default = \<lparr> out_stream = None, out_remaining = 0, out_batch_edges = 0, out_boundary_calls = 0,
     out_edge_batches = 0, out_peak = 0, out_prepared = False, out_draining = False, out_exhausted = False,
     out_cancelled = False \<rparr>"

definition install :: "prepared_direct_batches \<Rightarrow> usize \<Rightarrow> batch_output" where
  "install b batch_edges =
     \<lparr> out_stream = (if remaining_edges b = 0 then None else Some b), out_remaining = remaining_edges b,
       out_batch_edges = batch_edges, out_boundary_calls = 1, out_edge_batches = 0, out_peak = 0,
       out_prepared = True, out_draining = False, out_exhausted = (remaining_edges b = 0), out_cancelled = False \<rparr>"

definition output_remaining_edges :: "batch_output \<Rightarrow> usize" where
  "output_remaining_edges out =
     (if out_prepared out \<and> \<not> out_cancelled out \<and> \<not> out_exhausted out then out_remaining out else 0)"

definition output_state :: "batch_output \<Rightarrow> string" where
  "output_state out =
     (if \<not> out_prepared out then ''absent'' else if out_cancelled out then ''cancelled''
      else if out_exhausted out then ''exhausted'' else ''active'')"

definition output_cancel :: "batch_output \<Rightarrow> bool \<times> batch_output" where
  "output_cancel out =
     (if \<not> out_prepared out \<or> out_cancelled out \<or> out_exhausted out then (False, out)
      else (True, out\<lparr>out_stream := None, out_remaining := 0, out_cancelled := True\<rparr>))"

definition cancel_batch_output :: "nat \<Rightarrow> batch_output \<Rightarrow> bool \<times> nat \<times> batch_output" where
  "cancel_batch_output w out = (let (stopped, out') = output_cancel out in
     (stopped, if stopped then STATE_CANCELLED else w, out'))"

text \<open>The first section of \<open>next_batch\<close> takes the stream out.\<close>

datatype taken_stream =
    NothingLeft
  | Taken prepared_direct_batches usize usize usize

definition take_stream :: "batch_output \<Rightarrow> taken_stream compiler_res \<times> batch_output" where
  "take_stream out =
     (if \<not> out_prepared out then (Inl (ValueError ''encoded direct batch output has not been prepared''), out)
      else if out_cancelled out then (Inl CancelledError, out)
      else if out_exhausted out then (Inr NothingLeft, out)
      else if out_draining out then (Inl (ValueError ''encoded direct batch output is already draining''), out)
      else case checked_add (out_boundary_calls out) 1 of
        None \<Rightarrow> (Inl MemoryError, out)
      | Some next_calls \<Rightarrow> (case checked_add (out_edge_batches out) 1 of
          None \<Rightarrow> (Inl MemoryError, out)
        | Some next_batches \<Rightarrow> (case out_stream out of
            None \<Rightarrow> (Inl (RuntimeError ''encoded direct batch cursor is unavailable''), out)
          | Some b \<Rightarrow> (Inr (Taken b (out_batch_edges out) next_calls next_batches),
              out\<lparr>out_stream := None, out_draining := True\<rparr>))))"

text \<open>Its last section gives the stream back, after a failure unchanged.\<close>

definition give_back :: "prepared_direct_batches \<Rightarrow> compiler_error \<Rightarrow> batch_output \<Rightarrow> 'a compiler_res \<times> batch_output" where
  "give_back b e out =
     (if out_cancelled out then (Inl CancelledError, out\<lparr>out_draining := False\<rparr>)
      else (Inl e, out\<lparr>out_draining := False, out_stream := Some b\<rparr>))"

definition commit_batch :: "prepared_direct_batches \<Rightarrow> direct_edge list \<Rightarrow> direct_emission_cursor \<Rightarrow> usize \<Rightarrow> usize
    \<Rightarrow> batch_output \<Rightarrow> direct_edge list compiler_res \<times> batch_output" where
  "commit_batch b edges next_cursor next_calls next_batches out =
     (if out_cancelled out then (Inl CancelledError, out\<lparr>out_draining := False\<rparr>)
      else let b' = commit_cursor b next_cursor in
        (Inr edges, out\<lparr>out_draining := False, out_boundary_calls := next_calls, out_edge_batches := next_batches,
           out_peak := max (out_peak out) (length edges), out_remaining := remaining_edges b',
           out_exhausted := (remaining_edges b' = 0),
           out_stream := (if remaining_edges b' = 0 then None else Some b')\<rparr>))"

section \<open>Sections of a compilation\<close>

text \<open>\<open>begin\<close> and the tables, in that order; \<open>?\<close> on the tables returns without \<open>finish_result\<close>.\<close>

definition enter_compiler :: "(nat \<Rightarrow> bool) \<Rightarrow> compiler_inputs \<Rightarrow> nat
    \<Rightarrow> (direct_columns \<times> dynamic_composite_columns_t option) compiler_res \<times> nat" where
  "enter_compiler alloc inputs w = (case begin_compiler w of
     (Inl e, w') \<Rightarrow> (Inl e, w')
   | (Inr _, w') \<Rightarrow>
       (let base = table_of inputs (base_buffers inputs) in
        (bnd (dynamic_composite_columns alloc inputs base) (\<lambda>composite.
         map_res (\<lambda>columns. (columns, composite)) (retained_base_columns inputs base)), w')))"

definition next_roles :: "bool \<Rightarrow> direct_compile_options \<Rightarrow> prepared_direct_batches
    \<Rightarrow> owned_role_state option compiler_res" where
  "next_roles retained options b =
     (if retained \<and> \<not> asserted_taxonomy_only options
      then map_res Some (raised (owned_try_clone (prep_role_state (preparation b)))) else Inr None)"

text \<open>The transition to \<open>FINISHED\<close> and the new roles are one transaction under the lock of the roles.\<close>

definition commit_roles :: "owned_role_state option \<Rightarrow> nat \<Rightarrow> retained_role_state
    \<Rightarrow> unit compiler_res \<times> nat \<times> retained_role_state" where
  "commit_roles next w r = (case next of
     None \<Rightarrow> (let (result, w') = finish_result w (Inr ()) in (result, w', r))
   | Some roles \<Rightarrow> (case lock_roles r of
       Inl e \<Rightarrow> (let (result, w') = finish_result w (Inl e) in (result, w', r))
     | Inr _ \<Rightarrow> (case finish_result w (Inr ()) of
         (Inl e, w') \<Rightarrow> (Inl e, w', r)
       | (Inr _, w') \<Rightarrow> (Inr (), w', r\<lparr>retained_roles := roles\<rparr>))))"

definition COARSE_OUTPUT_CHUNK_EDGES :: nat where "COARSE_OUTPUT_CHUNK_EDGES = 256"

section \<open>The word only moves forward\<close>

definition word_rank :: "nat \<Rightarrow> nat" where
  "word_rank w = (if w = STATE_IDLE then 0 else if w = STATE_RUNNING then 1 else if w = STATE_CANCELLED then 3 else 2)"

lemma word_moves:
  "snd (begin_compiler w) = w \<or> word_rank w < word_rank (snd (begin_compiler w))"
  "snd (finish_result w r) = w \<or> word_rank w < word_rank (snd (finish_result w r))"
  "snd (cancel_compiler w) = w \<or> word_rank w < word_rank (snd (cancel_compiler w))"
  by (auto simp: begin_compiler_def finish_result_def cancel_compiler_def word_rank_def state_defs split: sum.splits)

lemma begin_succeeds: "fst (begin_compiler w) = Inr u \<longleftrightarrow> w = STATE_IDLE"
  by (simp add: begin_compiler_def state_defs)

lemma finish_succeeds: "fst (finish_result w result) = Inr v \<longleftrightarrow> w = STATE_RUNNING \<and> result = Inr v"
  by (auto simp: finish_result_def state_defs split: sum.splits)

section \<open>Calls that meet a failed table setup\<close>

text \<open>
  The first sections of \<open>next_batch\<close>: the stream is taken out, then the tables are set up with
  \<open>?\<close>, which returns without giving the stream back.
\<close>

definition enter_next_batch :: "(nat \<Rightarrow> bool) \<Rightarrow> compiler_inputs \<Rightarrow> batch_output
    \<Rightarrow> (prepared_direct_batches \<times> usize \<times> direct_columns \<times> dynamic_composite_columns_t option) option compiler_res \<times> batch_output" where
  "enter_next_batch alloc inputs out = (case take_stream out of
     (Inl e, out') \<Rightarrow> (Inl e, out')
   | (Inr NothingLeft, out') \<Rightarrow> (Inr None, out')
   | (Inr (Taken b n next_calls next_batches), out') \<Rightarrow>
       (bnd (retained_base_columns inputs (table_of inputs (base_buffers inputs))) (\<lambda>columns.
        map_res (\<lambda>composite. Some (b, n, columns, composite)) (dynamic_composite_columns alloc inputs columns)), out'))"

text \<open>
  The calls of a Python thread on one compiler, up to the end of their entry: \<open>compile_batch\<close> and
  \<open>compile_batches\<close>, \<open>next_batch\<close>, \<open>close_batches\<close> and \<open>cancel\<close>, each with the reservations that
  succeed at that call. A call that gets past its entry is \<open>Admitted\<close>.
\<close>

datatype entry_call = Compile "nat \<Rightarrow> bool" | Next_Batch "nat \<Rightarrow> bool" | Close_Batches | Cancel_Compiler

datatype entry_outcome = Refused compiler_error | Answered bool | Admitted

fun entry_outcome_of :: "'a compiler_res \<Rightarrow> entry_outcome" where
  "entry_outcome_of (Inl e) = Refused e"
| "entry_outcome_of (Inr _) = Admitted"

fun run_entry :: "compiler_inputs \<Rightarrow> entry_call \<Rightarrow> nat \<times> batch_output \<Rightarrow> entry_outcome \<times> nat \<times> batch_output" where
  "run_entry inputs (Compile alloc) (w, out) =
     (let (result, w') = enter_compiler alloc inputs w in (entry_outcome_of result, w', out))"
| "run_entry inputs (Next_Batch alloc) (w, out) =
     (let (result, out') = enter_next_batch alloc inputs out in (entry_outcome_of result, w, out'))"
| "run_entry inputs Close_Batches (w, out) =
     (let (stopped, w', out') = cancel_batch_output w out in (Answered stopped, w', out'))"
| "run_entry inputs Cancel_Compiler (w, out) = (let (stopped, w') = cancel_compiler w in (Answered stopped, w', out))"

primrec run_entries :: "compiler_inputs \<Rightarrow> entry_call list \<Rightarrow> nat \<times> batch_output \<Rightarrow> entry_outcome list \<times> nat \<times> batch_output" where
  "run_entries inputs [] s = ([], s)"
| "run_entries inputs (c # calls) s =
     (let (outcome, s') = run_entry inputs c s; (outcomes, s'') = run_entries inputs calls s' in (outcome # outcomes, s''))"

text \<open>What the calls answer after a failed entry, and after a batch was taken and lost.\<close>

fun stranded_answer :: "bool \<Rightarrow> entry_call \<Rightarrow> entry_outcome" where
  "stranded_answer stopped (Compile _) =
     Refused (if stopped then CancelledError else ValueError ''encoded direct compiler is already running'')"
| "stranded_answer stopped (Next_Batch _) = Refused (ValueError ''encoded direct batch output has not been prepared'')"
| "stranded_answer stopped Close_Batches = Answered False"
| "stranded_answer stopped Cancel_Compiler = Answered (\<not> stopped)"

fun lost_batch_answer :: "bool \<Rightarrow> entry_call \<Rightarrow> entry_outcome" where
  "lost_batch_answer closed (Compile _) =
     Refused (if closed then CancelledError else ValueError ''encoded direct compiler is already finished'')"
| "lost_batch_answer closed (Next_Batch _) =
     Refused (if closed then CancelledError else ValueError ''encoded direct batch output is already draining'')"
| "lost_batch_answer closed Close_Batches = Answered (\<not> closed)"
| "lost_batch_answer closed Cancel_Compiler = Answered False"

lemma entries_answer:
  assumes "\<And>stopped c. run_entry inputs c (state stopped) = (answer stopped c, state (stopped \<or> c = stop))"
  shows "run_entries inputs calls (state stopped) =
    (map (\<lambda>i. answer (stopped \<or> stop \<in> set (take i calls)) (calls ! i)) [0..<length calls], state (stopped \<or> stop \<in> set calls))"
proof (induction calls arbitrary: stopped)
  case (Cons c calls)
  have "[0..<length (c # calls)] = 0 # map Suc [0..<length calls]"
    unfolding map_Suc_upt by (simp add: upt_conv_Cons del: upt_Suc)
  moreover have "(stopped \<or> c = stop) \<or> stop \<in> set ys \<longleftrightarrow> stopped \<or> stop = c \<or> stop \<in> set ys" for ys by auto
  ultimately show ?case by (simp add: assms Cons.IH del: upt_Suc)
qed simp

definition stranded :: "bool \<Rightarrow> nat \<times> batch_output" where
  "stranded stopped = (if stopped then STATE_CANCELLED else STATE_RUNNING, batch_output_default)"

definition lost_batch :: "prepared_direct_batches \<Rightarrow> usize \<Rightarrow> bool \<Rightarrow> nat \<times> batch_output" where
  "lost_batch b n closed =
     (if closed then (STATE_CANCELLED, (install b n)\<lparr>out_stream := None, out_draining := True, out_remaining := 0, out_cancelled := True\<rparr>)
      else (STATE_FINISHED, (install b n)\<lparr>out_stream := None, out_draining := True\<rparr>))"

lemma stranded_entry: "run_entry inputs c (stranded stopped) = (stranded_answer stopped c, stranded (stopped \<or> c = Cancel_Compiler))"
  by (cases c) (auto simp: stranded_def enter_compiler_def begin_compiler_def enter_next_batch_def take_stream_def
    cancel_batch_output_def output_cancel_def cancel_compiler_def batch_output_default_def state_defs)

lemma lost_batch_entry:
  "remaining_edges b \<noteq> 0 \<Longrightarrow>
     run_entry inputs c (lost_batch b n closed) = (lost_batch_answer closed c, lost_batch b n (closed \<or> c = Close_Batches))"
  by (cases c) (auto simp: lost_batch_def install_def enter_compiler_def begin_compiler_def enter_next_batch_def take_stream_def
    cancel_batch_output_def output_cancel_def cancel_compiler_def state_defs)

lemma composite_tables_fail:
  assumes "composite_members inputs = Some members" and "\<not> alloc (length members)"
  shows "dynamic_composite_columns alloc inputs base = Inl MemoryError"
  using assms by (simp add: dynamic_composite_columns_def res_simps)

lemma entry_strands:
  assumes "composite_members inputs = Some members" and "\<not> alloc (length members)"
  shows "run_entry inputs (Compile alloc) (STATE_IDLE, batch_output_default) = (Refused MemoryError, stranded False)"
  by (simp add: enter_compiler_def begin_compiler_def stranded_def composite_tables_fail [where alloc = alloc, OF assms] res_simps)

lemma drain_loses_batch:
  assumes "composite_members inputs = Some members" and "\<not> alloc (length members)" and "remaining_edges b \<noteq> 0"
    and "members = first # rest" and "member_buffers first = None"
  shows "run_entry inputs (Next_Batch alloc) (STATE_FINISHED, install b n) = (Refused MemoryError, lost_batch b n False)"
proof -
  obtain columns where "retained_base_columns inputs (table_of inputs (base_buffers inputs)) = Inr columns"
    using assms(1,4,5) by (simp add: retained_base_columns_def)
  moreover have "take_stream (install b n) = (Inr (Taken b n 2 1), (install b n)\<lparr>out_stream := None, out_draining := True\<rparr>)"
    using assms(3) by (simp add: take_stream_def install_def checked_add_def fits_def)
  ultimately show ?thesis
    by (simp add: enter_next_batch_def lost_batch_def composite_tables_fail [where alloc = alloc, OF assms(1,2)] res_simps)
qed

text \<open>
  C6: A failed reservation in the table setup of a dynamic composite strands its compiler, at both
  places that return early with \<open>?\<close>. In \<open>compile_batch\<close>, after \<open>begin\<close>: the word stays at running with
  nobody running, so that whatever calls follow, of any number and with all their reservations
  succeeding, each compilation is refused as already running until \<open>cancel\<close> is called and as
  cancelled after it; it is never reported as failed, and no later compilation is admitted. In
  \<open>next_batch\<close>, after the stream was taken: each later \<open>next_batch\<close> is refused as already draining
  until \<open>close_batches\<close> is called and as cancelled after it; the edges left are never handed out.
\<close>
theorem failed_tables_strand_compiler:
  assumes "composite_members inputs = Some (first # rest)" and "member_buffers first = None"
    and "\<not> alloc (length (first # rest))" and "remaining_edges b \<noteq> 0"
  shows "run_entries inputs (Compile alloc # calls) (STATE_IDLE, batch_output_default) =
      (Refused MemoryError # map (\<lambda>i. stranded_answer (Cancel_Compiler \<in> set (take i calls)) (calls ! i)) [0..<length calls],
       if Cancel_Compiler \<in> set calls then STATE_CANCELLED else STATE_RUNNING, batch_output_default) \<and>
    run_entries inputs (Next_Batch alloc # calls) (STATE_FINISHED, install b n) =
      (Refused MemoryError # map (\<lambda>i. lost_batch_answer (Close_Batches \<in> set (take i calls)) (calls ! i)) [0..<length calls],
       lost_batch b n (Close_Batches \<in> set calls))"
  using entries_answer [where state = stranded and answer = stranded_answer and stopped = False, OF stranded_entry]
    entries_answer [where state = "lost_batch b n" and answer = lost_batch_answer and stopped = False, OF lost_batch_entry [OF assms(4)]]
  by (simp add: entry_strands [where alloc = alloc, OF assms(1,3)] drain_loses_batch [where alloc = alloc, OF assms(1,3,4) refl assms(2)] stranded_def del: run_entry.simps)

definition empty_inputs :: compiler_inputs where
  "empty_inputs = \<lparr> base_buffers = replicate 11 \<lparr> storage = [], slice_start = 0, slice_end = 0 \<rparr>,
     overlay_delta_buffers = None, third_member_buffers = None, fourth_member_buffers = None,
     has_nested_member = False, has_merge_manifest = False, composite_members = None,
     canonical_merge_limits = None, input_included = None, input_excluded = None, right_excluded = None,
     third_excluded = None, fourth_excluded = None, input_scope_map = None, right_scope_map = None,
     root_annotation_buffers = None, char_case = (\<lambda>n. [n]) \<rparr>"

definition unread_batches :: prepared_direct_batches where
  "unread_batches = \<lparr> preparation = \<lparr> prep_role_state = owned_role_state_default, prep_rule_indexes = [],
     prep_emission_roots = [], prep_aggregate_roots = [], prep_named_nodes = [], prep_restrictions = [],
     prep_anonymous_ids = \<lparr> node_ids = [], global_positions = None, single_position = None \<rparr>,
     prep_selected_annotation_nodes = None, prep_composite_annotation_roots = [], prep_composite_class_nodes = [],
     prep_composite_anonymous_nodes = [], prep_overlay_deltas = [], prep_local_classes = [], prep_local_class_positions = [],
     prep_class_groups = [], prep_options = taxonomy_options, prep_statistics = stats_zero\<lparr>stat_edges := 2\<rparr> \<rparr>,
     batch_cursor = initial_cursor \<rparr>"

definition base_member :: retained_composite_member where
  "base_member = \<lparr> member_buffers = None, member_included = None, member_excluded = None,
     member_scope_maps = [], member_root = None \<rparr>"

theorem failed_tables_strand_compiler_witness:
  "fst (run_entries (empty_inputs\<lparr>composite_members := Some [base_member]\<rparr>)
      [Compile (\<lambda>n. n = 0), Compile (\<lambda>_. True), Next_Batch (\<lambda>_. True), Cancel_Compiler, Compile (\<lambda>_. True)] (STATE_IDLE, batch_output_default)) =
     [Refused MemoryError, Refused (ValueError ''encoded direct compiler is already running''),
      Refused (ValueError ''encoded direct batch output has not been prepared''), Answered True, Refused CancelledError] \<and>
   fst (run_entries (empty_inputs\<lparr>composite_members := Some [base_member]\<rparr>)
      [Next_Batch (\<lambda>n. n = 0), Compile (\<lambda>_. True), Next_Batch (\<lambda>_. True), Cancel_Compiler, Next_Batch (\<lambda>_. True)] (STATE_FINISHED, install unread_batches 1)) =
     [Refused MemoryError, Refused (ValueError ''encoded direct compiler is already finished''),
      Refused (ValueError ''encoded direct batch output is already draining''), Answered False,
      Refused (ValueError ''encoded direct batch output is already draining'')]"
proof -
  have "composite_members (empty_inputs\<lparr>composite_members := Some [base_member]\<rparr>) = Some [base_member]"
    "member_buffers base_member = None" "\<not> length [base_member] = 0" "remaining_edges unread_batches \<noteq> 0"
    by (simp_all add: base_member_def remaining_edges_def unread_batches_def initial_cursor_def)
  note stranding = failed_tables_strand_compiler [where alloc = "\<lambda>n. n = 0", OF this]
  show ?thesis
    by (simp only: conjunct1 [OF stranding] conjunct2 [OF stranding] fst_conv) (simp add: upt_rec)
qed

end
