(* ===== verification/Compiler_Runs.thy ===== *)
theory Compiler_Runs
  imports Compiler_Lifecycle
begin

text \<open>
  Threads that share compilers and one retained role state: the sections of Compiler_Lifecycle as
  one step relation. A thread is at rest or between two sections of a call, and holds what
  the local variables of the call hold there. Another thread may run between any two sections,
  in particular cancel or close; Python code called in between may raise at any point.

  The kernel polls the word while it runs. The word only moves to cancelled under it, so a run sees
  the word it started with, unless it polls a cancellation and stops (\<open>observed\<close>).

  Modelled are the compilers of one table (no overlay delta, no composite). The ghost fields
  record what was installed, what was handed out and what \<open>compile_batch\<close> returned.
\<close>

section \<open>States\<close>

record call =
  call_options :: direct_compile_options
  call_batch :: "usize option"
  call_roles :: bool

record compiler =
  comp_inputs :: compiler_inputs
  comp_state :: nat
  comp_output :: batch_output
  comp_chunks :: usize
  comp_peak :: usize
  comp_origin :: "prepared_direct_batches option"
  comp_delivered :: "direct_edge list"
  comp_returned :: "direct_edge list option"

datatype thread_state =
    Resting
  | Entered nat call direct_columns
  | Preparing nat call direct_columns
  | Prepared nat call prepared_direct_batches
  | Collecting nat call direct_columns prepared_direct_batches "direct_edge list" usize usize
  | Draining nat prepared_direct_batches usize usize usize

record system =
  compilers :: "nat \<Rightarrow> compiler"
  roles_cell :: retained_role_state
  threads :: "nat \<Rightarrow> thread_state"

definition compiler_new :: "compiler_inputs \<Rightarrow> compiler" where
  "compiler_new inputs = \<lparr> comp_inputs = inputs, comp_state = STATE_IDLE, comp_output = batch_output_default,
     comp_chunks = 0, comp_peak = 0, comp_origin = None, comp_delivered = [], comp_returned = None \<rparr>"

definition one_table :: "compiler_inputs \<Rightarrow> bool" where
  "one_table inputs \<longleftrightarrow> composite_members inputs = None \<and> overlay_delta_buffers inputs = None"

definition base_table :: "compiler_inputs \<Rightarrow> direct_columns" where
  "base_table inputs = with_anonymous_scope_map
     (with_excluded_root_ids (with_included_root_ids (table_of inputs (base_buffers inputs))
       (optional_slice (input_included inputs))) (optional_slice (input_excluded inputs)))
     (optional_slice (input_scope_map inputs))"

text \<open>The vectors of a running process have lengths that fit \<open>usize\<close>.\<close>

definition sized_stream :: "prepared_direct_batches \<Rightarrow> bool" where
  "sized_stream b \<longleftrightarrow> roles_fit (prep_role_state (preparation b))"

section \<open>Turns\<close>

definition observed :: "nat \<Rightarrow> 'a kres \<Rightarrow> 'a kres \<Rightarrow> bool" where
  "observed w run result \<longleftrightarrow> result = run \<or> (w = STATE_CANCELLED \<and> result = Inl Cancelled)"

definition prepare_stream :: "compiler_inputs \<Rightarrow> direct_columns \<Rightarrow> direct_compile_options \<Rightarrow> owned_role_state option
    \<Rightarrow> prepared_direct_batches kres" where
  "prepare_stream inputs columns options retained =
     prepare_direct_batches_uncommitted columns (root_annotation_columns inputs) options STATE_RUNNING retained"

definition prepare_section :: "call \<Rightarrow> (owned_role_state option \<Rightarrow> prepared_direct_batches kres) \<Rightarrow> retained_role_state
    \<Rightarrow> prepared_direct_batches compiler_res \<times> retained_role_state" where
  "prepare_section call run r = (if call_roles call then prepare_claimed run r else (raised (run None), r))"

definition release_call :: "call \<Rightarrow> retained_role_state \<Rightarrow> retained_role_state" where
  "release_call call r = (if call_roles call then release r else r)"

definition failed_call :: "compiler_error \<Rightarrow> compiler \<Rightarrow> compiler" where
  "failed_call e c = c\<lparr>comp_state := snd (finish_result (comp_state c) (Inl e :: unit compiler_res))\<rparr>"

definition call_valid :: "call \<Rightarrow> bool" where
  "call_valid call \<longleftrightarrow> max_edges_option (call_options call) \<noteq> 0 \<and> max_iri_bytes (call_options call) \<noteq> 0 \<and> call_batch call \<noteq> Some 0"

inductive turn :: "nat \<Rightarrow> thread_state \<Rightarrow> compiler \<Rightarrow> retained_role_state
    \<Rightarrow> thread_state \<Rightarrow> compiler \<Rightarrow> retained_role_state \<Rightarrow> bool" for k where
  entered: "enter_compiler alloc (comp_inputs c) (comp_state c) = (Inr (columns, None), w) \<Longrightarrow> call_valid call \<Longrightarrow>
    turn k Resting c r (Entered k call columns) (c\<lparr>comp_state := w\<rparr>) r"
| refused: "enter_compiler alloc (comp_inputs c) (comp_state c) = (Inl e, w) \<Longrightarrow>
    turn k Resting c r Resting (c\<lparr>comp_state := w\<rparr>) r"
| claimed: "call_roles call \<Longrightarrow> claim r = (Inr (), r') \<Longrightarrow>
    turn k (Entered k call columns) c r (Preparing k call columns) c r'"
| claim_refused: "call_roles call \<Longrightarrow> claim r = (Inl e, r') \<Longrightarrow>
    turn k (Entered k call columns) c r Resting (failed_call e c) r'"
| unclaimed: "\<not> call_roles call \<Longrightarrow> turn k (Entered k call columns) c r (Preparing k call columns) c r"
| prepared: "\<forall>retained. observed (comp_state c)
      (prepare_stream (comp_inputs c) columns (call_options call) retained) (run retained) \<Longrightarrow>
    prepare_section call run r = (Inr b, r') \<Longrightarrow> sized_stream b \<Longrightarrow> call_batch call = Some n \<Longrightarrow>
    turn k (Preparing k call columns) c r (Prepared k call b) c r'"
| prepared_coarse: "\<forall>retained. observed (comp_state c)
      (prepare_stream (comp_inputs c) columns (call_options call) retained) (run retained) \<Longrightarrow>
    prepare_section call run r = (Inr b, r') \<Longrightarrow> sized_stream b \<Longrightarrow> call_batch call = None \<Longrightarrow>
    turn k (Preparing k call columns) c r (Collecting k call columns b [] 0 0) c r'"
| prepare_failed: "\<forall>retained. observed (comp_state c)
      (prepare_stream (comp_inputs c) columns (call_options call) retained) (run retained) \<Longrightarrow>
    prepare_section call run r = (Inl e, r') \<Longrightarrow>
    turn k (Preparing k call columns) c r Resting (failed_call e c) (release_call call r')"
| python_failed: "pc = Preparing k call columns \<or> pc = Prepared k call b \<or>
      pc = Collecting k call columns b collected chunks peak \<Longrightarrow>
    turn k pc c r Resting (failed_call e c) (release_call call r)"
| collected: "remaining_edges b \<noteq> 0 \<Longrightarrow>
    prepare_next_batch b columns STATE_RUNNING COARSE_OUTPUT_CHUNK_EDGES = Some run \<Longrightarrow>
    observed (comp_state c) run (Inr (edges, cur)) \<Longrightarrow> checked_add chunks 1 = Some chunks' \<Longrightarrow>
    turn k (Collecting k call columns b done_edges chunks peak) c r
      (Collecting k call columns (commit_cursor b cur) (done_edges @ edges) chunks' (max peak (length edges))) c r"
| collect_failed: "remaining_edges b \<noteq> 0 \<Longrightarrow>
    prepare_next_batch b columns STATE_RUNNING COARSE_OUTPUT_CHUNK_EDGES = Some run \<Longrightarrow>
    observed (comp_state c) run (Inl e) \<Longrightarrow>
    turn k (Collecting k call columns b done_edges chunks peak) c r Resting
      (failed_call (kernel_error_raised e) c) (release_call call r)"
| returned: "remaining_edges b = 0 \<Longrightarrow> next_roles (call_roles call) (call_options call) b = Inr next_state \<Longrightarrow>
    commit_roles next_state (comp_state c) r = (Inr (), w, r') \<Longrightarrow>
    turn k (Collecting k call columns b done_edges chunks peak) c r Resting
      (c\<lparr>comp_state := w, comp_chunks := chunks, comp_peak := peak, comp_returned := Some done_edges\<rparr>) (release_call call r')"
| return_lost: "remaining_edges b = 0 \<Longrightarrow> next_roles (call_roles call) (call_options call) b = Inr next_state \<Longrightarrow>
    commit_roles next_state (comp_state c) r = (Inl e, w, r') \<Longrightarrow>
    turn k (Collecting k call columns b done_edges chunks peak) c r Resting (c\<lparr>comp_state := w\<rparr>) (release_call call r')"
| published: "call_batch call = Some n \<Longrightarrow> next_roles (call_roles call) (call_options call) b = Inr next_state \<Longrightarrow>
    commit_roles next_state (comp_state c) r = (Inr (), w, r') \<Longrightarrow>
    turn k (Prepared k call b) c r Resting
      (c\<lparr>comp_state := w, comp_output := install b n, comp_origin := Some b\<rparr>) (release_call call r')"
| publish_lost: "call_batch call = Some n \<Longrightarrow> next_roles (call_roles call) (call_options call) b = Inr next_state \<Longrightarrow>
    commit_roles next_state (comp_state c) r = (Inl e, w, r') \<Longrightarrow>
    turn k (Prepared k call b) c r Resting (c\<lparr>comp_state := w\<rparr>) (release_call call r')"
| taken: "take_stream (comp_output c) = (Inr (Taken b n next_calls next_batches), out) \<Longrightarrow>
    turn k Resting c r (Draining k b n next_calls next_batches) (c\<lparr>comp_output := out\<rparr>) r"
| drained: "retained_base_columns (comp_inputs c) (table_of (comp_inputs c) (base_buffers (comp_inputs c))) = Inr columns \<Longrightarrow>
    prepare_next_batch b columns STATE_FINISHED n = Some run \<Longrightarrow> observed (comp_state c) run (Inr (edges, cur)) \<Longrightarrow>
    commit_batch b edges cur next_calls next_batches (comp_output c) = (Inr handed, out) \<Longrightarrow>
    turn k (Draining k b n next_calls next_batches) c r Resting
      (c\<lparr>comp_output := out, comp_delivered := comp_delivered c @ handed\<rparr>) r"
| drain_lost: "retained_base_columns (comp_inputs c) (table_of (comp_inputs c) (base_buffers (comp_inputs c))) = Inr columns \<Longrightarrow>
    prepare_next_batch b columns STATE_FINISHED n = Some run \<Longrightarrow> observed (comp_state c) run (Inr (edges, cur)) \<Longrightarrow>
    commit_batch b edges cur next_calls next_batches (comp_output c) = (Inl e, out) \<Longrightarrow>
    turn k (Draining k b n next_calls next_batches) c r Resting (c\<lparr>comp_output := out\<rparr>) r"
| drain_failed: "retained_base_columns (comp_inputs c) (table_of (comp_inputs c) (base_buffers (comp_inputs c))) = Inr columns \<Longrightarrow>
    prepare_next_batch b columns STATE_FINISHED n = Some run \<Longrightarrow> observed (comp_state c) run (Inl e) \<Longrightarrow> e \<noteq> Panicked \<Longrightarrow>
    give_back b (kernel_error_raised e) (comp_output c) = (Inl e' :: unit compiler_res, out) \<Longrightarrow>
    turn k (Draining k b n next_calls next_batches) c r Resting (c\<lparr>comp_output := out\<rparr>) r"
| drain_refused: "give_back b e (comp_output c) = (Inl e' :: unit compiler_res, out) \<Longrightarrow>
    turn k (Draining k b n next_calls next_batches) c r Resting (c\<lparr>comp_output := out\<rparr>) r"
| drain_panicked: "retained_base_columns (comp_inputs c) (table_of (comp_inputs c) (base_buffers (comp_inputs c))) = Inr columns \<Longrightarrow>
    prepare_next_batch b columns STATE_FINISHED n = Some run \<Longrightarrow> observed (comp_state c) run (Inl Panicked) \<Longrightarrow>
    turn k (Draining k b n next_calls next_batches) c r Resting c r"
| columns_lost: "retained_base_columns (comp_inputs c) (table_of (comp_inputs c) (base_buffers (comp_inputs c))) = Inl e \<Longrightarrow>
    turn k (Draining k b n next_calls next_batches) c r Resting c r"
| closed: "cancel_batch_output (comp_state c) (comp_output c) = (stopped, w, out) \<Longrightarrow>
    turn k Resting c r Resting (c\<lparr>comp_state := w, comp_output := out\<rparr>) r"
| cancelled: "cancel_compiler (comp_state c) = (stopped, w) \<Longrightarrow> turn k Resting c r Resting (c\<lparr>comp_state := w\<rparr>) r"

inductive step :: "system \<Rightarrow> system \<Rightarrow> bool" where
  "turn k (threads s t) (compilers s k) (roles_cell s) pc c r \<Longrightarrow>
   step s (s\<lparr>threads := (threads s)(t := pc), compilers := (compilers s)(k := c), roles_cell := r\<rparr>)"

definition initial :: "system \<Rightarrow> bool" where
  "initial s \<longleftrightarrow> (\<forall>t. threads s t = Resting) \<and> \<not> in_use (roles_cell s) \<and>
     (\<forall>k. \<exists>inputs. compilers s k = compiler_new inputs \<and> one_table inputs \<and> buffers_fit (base_table inputs) \<and>
        fits (node_count (base_table inputs) + genid_base) \<and> fits (2 * length (scalar_bytes (base_table inputs)) + 8))"

section \<open>The stream of a compiler\<close>

definition stream_edges :: "compiler_inputs \<Rightarrow> prepared_direct_batches \<Rightarrow> direct_edge list" where
  "stream_edges inputs b = fst (batch_trace (OneTable (base_table inputs)) STATE_FINISHED b)"

definition origin_ok :: "compiler_inputs \<Rightarrow> prepared_direct_batches \<Rightarrow> bool" where
  "origin_ok inputs b \<longleftrightarrow> sized_stream b \<and>
     (\<exists>options retained. prepare_stream inputs (base_table inputs) options retained = Inr b)"

definition sized_inputs :: "compiler_inputs \<Rightarrow> bool" where
  "sized_inputs inputs \<longleftrightarrow> one_table inputs \<and> buffers_fit (base_table inputs) \<and>
     fits (node_count (base_table inputs) + genid_base) \<and> fits (2 * length (scalar_bytes (base_table inputs)) + 8)"

text \<open>A stream of which the edges \<open>done_edges\<close> have been handed out.\<close>

definition stream_at :: "compiler_inputs \<Rightarrow> nat \<Rightarrow> prepared_direct_batches \<Rightarrow> direct_edge list \<Rightarrow> prepared_direct_batches \<Rightarrow> bool" where
  "stream_at inputs st origin done_edges b \<longleftrightarrow>
     batch_ready (OneTable (base_table inputs)) st b \<and>
     done_edges @ batch_rest (OneTable (base_table inputs)) st b = stream_edges inputs origin"

lemma base_table_retained:
  "one_table inputs \<Longrightarrow> retained_base_columns inputs (table_of inputs (base_buffers inputs)) = Inr (base_table inputs)"
  by (simp add: one_table_def retained_base_columns_def base_table_def)

lemma entered_columns:
  "one_table inputs \<Longrightarrow> enter_compiler alloc inputs w = (Inr (columns, composite), w') \<Longrightarrow>
     columns = base_table inputs \<and> w = STATE_IDLE \<and> w' = STATE_RUNNING"
  using base_table_retained [of inputs]
  by (auto simp: enter_compiler_def begin_compiler_def dynamic_composite_columns_def one_table_def res_simps
      split: if_splits)

lemma refused_word: "one_table inputs \<Longrightarrow> enter_compiler alloc inputs w = (Inl e, w') \<Longrightarrow> w' = w \<and> w \<noteq> STATE_IDLE"
  using base_table_retained [of inputs]
  by (auto simp: enter_compiler_def begin_compiler_def dynamic_composite_columns_def one_table_def split: if_splits)

lemma remaining_rest:
  "batch_ready source st b \<Longrightarrow> remaining_edges b = length (batch_rest source st b)"
  by (simp add: batch_ready_def batch_rest_def remaining_edges_def)

text \<open>A new stream has handed out nothing, whichever word is polled.\<close>

lemma new_stream:
  assumes "origin_ok inputs b" and "sized_inputs inputs" and "st \<noteq> STATE_CANCELLED"
  shows "stream_at inputs st b [] b"
    and "length (stream_edges inputs b) = stat_edges (prep_statistics (preparation b))"
    and "snd (batch_trace (OneTable (base_table inputs)) STATE_FINISHED b) = None"
proof -
  from assms(1) obtain options retained where
    p: "prepare_direct_batches_uncommitted (base_table inputs) (root_annotation_columns inputs) options STATE_RUNNING retained = Inr b"
    and roles: "roles_fit (prep_role_state (preparation b))"
    by (auto simp: origin_ok_def sized_stream_def prepare_stream_def)
  from assms(2) have size: "buffers_fit (base_table inputs)" "fits (node_count (base_table inputs) + genid_base)"
      "fits (2 * length (scalar_bytes (base_table inputs)) + 8)" by (simp_all add: sized_inputs_def)
  have fin: "STATE_FINISHED \<noteq> STATE_CANCELLED" by (simp add: state_defs)
  note complete = prepared_batches_complete [OF p size]
  from complete(5) [OF roles fin] complete(5) [OF roles assms(3)]
  have ready: "batch_ready (OneTable (base_table inputs)) st b"
    and same: "batch_trace (OneTable (base_table inputs)) st b = batch_trace (OneTable (base_table inputs)) STATE_RUNNING b"
      "batch_trace (OneTable (base_table inputs)) STATE_FINISHED b = batch_trace (OneTable (base_table inputs)) STATE_RUNNING b"
    by simp_all
  from complete(4) have rest: "batch_rest (OneTable (base_table inputs)) st b = stream_edges inputs b"
    by (simp add: batch_rest_def same stream_edges_def)
  with ready show "stream_at inputs st b [] b" by (simp add: stream_at_def)
  from complete(1) show "length (stream_edges inputs b) = stat_edges (prep_statistics (preparation b))"
    and "snd (batch_trace (OneTable (base_table inputs)) STATE_FINISHED b) = None"
    by (simp_all add: stream_edges_def same completes_def)
qed

text \<open>The kernel never fails on such a stream, and hands out the next edges.\<close>

lemma stream_next:
  assumes "stream_at inputs st origin done_edges b"
  shows "\<exists>cur. prepare_next_batch b (base_table inputs) st n =
      Some (Inr (take n (batch_rest (OneTable (base_table inputs)) st b), cur)) \<and>
    stream_at inputs st origin (done_edges @ take n (batch_rest (OneTable (base_table inputs)) st b)) (commit_cursor b cur) \<and>
    remaining_edges (commit_cursor b cur) = remaining_edges b - n"
proof -
  let ?source = "OneTable (base_table inputs)"
  from assms have ready: "batch_ready ?source st b" and d: "done_edges @ batch_rest ?source st b = stream_edges inputs origin"
    by (simp_all add: stream_at_def)
  from take_batch_next [OF ready, of n] obtain b' where b': "take_batch ?source st n b = Some (take n (batch_rest ?source st b), b')"
    "batch_ready ?source st b'" "batch_rest ?source st b' = drop n (batch_rest ?source st b)" by blast
  from b'(1) obtain cur where cur: "prepare_next_batch b (base_table inputs) st n = Some (Inr (take n (batch_rest ?source st b), cur))"
    "b' = commit_cursor b cur"
    by (auto simp: take_batch_def split: option.splits sum.splits)
  with b' d remaining_rest [OF ready] remaining_rest [OF b'(2)] show ?thesis
    by (intro exI [of _ cur]) (simp add: stream_at_def)
qed

lemma observed_batch:
  assumes "stream_at inputs st origin done_edges b" and "prepare_next_batch b (base_table inputs) st n = Some run"
    and "observed w run (Inr (edges, cur))"
  shows "stream_at inputs st origin (done_edges @ edges) (commit_cursor b cur) \<and>
    remaining_edges (commit_cursor b cur) = remaining_edges b - n \<and> length edges = min n (remaining_edges b)"
proof -
  from assms(1) have "remaining_edges b = length (batch_rest (OneTable (base_table inputs)) st b)"
    by (simp add: stream_at_def remaining_rest)
  with stream_next [OF assms(1), of n] assms(2,3) show ?thesis by (auto simp: observed_def min_def)
qed

lemma stream_never_panics:
  assumes "stream_at inputs st origin done_edges b" and "prepare_next_batch b (base_table inputs) st n = Some run"
  shows "\<not> observed w run (Inl Panicked)"
  using stream_next [OF assms(1), of n] assms(2) by (auto simp: observed_def)

lemma stream_finished:
  "stream_at inputs st origin done_edges b \<Longrightarrow> remaining_edges b = 0 \<Longrightarrow> done_edges = stream_edges inputs origin"
  by (auto simp: stream_at_def dest: remaining_rest)

lemma prepared_origin:
  assumes "prepare_section call run r = (Inr b, r')" and "sized_stream b"
    and "\<forall>retained. observed w (prepare_stream inputs (base_table inputs) options retained) (run retained)"
  shows "origin_ok inputs b \<and> in_use r' = in_use r"
proof -
  from assms(1) obtain retained where "run retained = Inr b" and "in_use r' = in_use r"
    by (auto simp: prepare_section_def prepare_claimed_def raised_def split: if_splits sum.splits)
  moreover from assms(3) have "observed w (prepare_stream inputs (base_table inputs) options retained) (run retained)" by blast
  ultimately have "prepare_stream inputs (base_table inputs) options retained = Inr b \<and> in_use r' = in_use r"
    by (simp add: observed_def)
  with assms(2) show ?thesis by (auto simp: origin_ok_def)
qed

lemma prepare_section_in_use: "prepare_section call run r = (x, r') \<Longrightarrow> in_use r' = in_use r"
  by (auto simp: prepare_section_def prepare_claimed_def split: if_splits sum.splits)

section \<open>What a thread relies on\<close>

fun compiling :: "thread_state \<Rightarrow> nat option" where
  "compiling (Entered k _ _) = Some k"
| "compiling (Preparing k _ _) = Some k"
| "compiling (Prepared k _ _) = Some k"
| "compiling (Collecting k _ _ _ _ _ _) = Some k"
| "compiling _ = None"

fun draining_on :: "thread_state \<Rightarrow> nat option" where
  "draining_on (Draining k _ _ _ _) = Some k"
| "draining_on _ = None"

fun claims :: "thread_state \<Rightarrow> bool" where
  "claims (Preparing _ call _) = call_roles call"
| "claims (Prepared _ call _) = call_roles call"
| "claims (Collecting _ call _ _ _ _ _) = call_roles call"
| "claims _ = False"

definition works_on :: "nat \<Rightarrow> thread_state \<Rightarrow> bool" where
  "works_on k pc \<longleftrightarrow> compiling pc = Some k \<or> draining_on pc = Some k"

text \<open>At most one thread compiles with a compiler, drains it, or uses the retained roles.\<close>

definition apart :: "thread_state \<Rightarrow> thread_state \<Rightarrow> bool" where
  "apart pc other_pc \<longleftrightarrow> (\<forall>k. \<not> (compiling pc = Some k \<and> compiling other_pc = Some k)) \<and>
     (\<forall>k. \<not> (draining_on pc = Some k \<and> draining_on other_pc = Some k)) \<and> \<not> (claims pc \<and> claims other_pc)"

definition open_compiler :: "compiler \<Rightarrow> bool" where
  "open_compiler c \<longleftrightarrow> comp_state c \<in> {STATE_RUNNING, STATE_CANCELLED} \<and> \<not> out_prepared (comp_output c) \<and>
     comp_returned c = None"

fun pc_ok :: "compiler \<Rightarrow> thread_state \<Rightarrow> bool" where
  "pc_ok c Resting = True"
| "pc_ok c (Entered _ _ columns) = (open_compiler c \<and> columns = base_table (comp_inputs c))"
| "pc_ok c (Preparing _ _ columns) = (open_compiler c \<and> columns = base_table (comp_inputs c))"
| "pc_ok c (Prepared _ _ b) = (open_compiler c \<and> origin_ok (comp_inputs c) b)"
| "pc_ok c (Collecting _ _ columns b done_edges _ _) = (open_compiler c \<and> columns = base_table (comp_inputs c) \<and>
     (\<exists>origin. origin_ok (comp_inputs c) origin \<and> stream_at (comp_inputs c) STATE_RUNNING origin done_edges b))"
| "pc_ok c (Draining _ b n _ _) = (out_prepared (comp_output c) \<and> out_draining (comp_output c) \<and>
     out_stream (comp_output c) = None \<and> out_batch_edges (comp_output c) = n \<and>
     (\<exists>origin. comp_origin c = Some origin \<and> stream_at (comp_inputs c) STATE_FINISHED origin (comp_delivered c) b))"

definition output_ok :: "compiler_inputs \<Rightarrow> nat \<Rightarrow> batch_output \<Rightarrow> prepared_direct_batches \<Rightarrow> direct_edge list \<Rightarrow> bool" where
  "output_ok inputs w out origin done_edges \<longleftrightarrow>
     origin_ok inputs origin \<and> (\<exists>rest. done_edges @ rest = stream_edges inputs origin) \<and>
     (if out_cancelled out then w = STATE_CANCELLED \<and> out_stream out = None \<and> out_remaining out = 0
      else w = STATE_FINISHED \<and> out_remaining out = length (stream_edges inputs origin) - length done_edges \<and>
        (out_exhausted out \<longleftrightarrow> out_remaining out = 0) \<and>
        (case out_stream out of
           Some b \<Rightarrow> stream_at inputs STATE_FINISHED origin done_edges b \<and> \<not> out_draining out \<and> \<not> out_exhausted out
         | None \<Rightarrow> out_draining out \<longleftrightarrow> \<not> out_exhausted out))"

definition compiler_ok :: "compiler \<Rightarrow> bool" where
  "compiler_ok c \<longleftrightarrow> sized_inputs (comp_inputs c) \<and>
     (if out_prepared (comp_output c)
      then comp_returned c = None \<and>
        (\<exists>origin. comp_origin c = Some origin \<and>
           output_ok (comp_inputs c) (comp_state c) (comp_output c) origin (comp_delivered c))
      else comp_output c = batch_output_default \<and> comp_origin c = None \<and> comp_delivered c = [] \<and>
        (\<forall>edges. comp_returned c = Some edges \<longrightarrow> comp_state c = STATE_FINISHED \<and>
           (\<exists>origin. origin_ok (comp_inputs c) origin \<and> edges = stream_edges (comp_inputs c) origin)))"

lemma open_compiler_word:
  assumes "compiler_ok c" and "open_compiler c" and "w \<noteq> STATE_IDLE"
  shows "compiler_ok (c\<lparr>comp_state := w\<rparr>)"
  using assms by (auto simp: compiler_ok_def open_compiler_def)

lemma failed_call_ok: "compiler_ok c \<Longrightarrow> open_compiler c \<Longrightarrow> compiler_ok (failed_call e c)"
  unfolding failed_call_def
  by (rule open_compiler_word) (auto simp: finish_result_def state_defs open_compiler_def)

lemma commit_roles_word:
  "commit_roles next_state w r = (result, w', r') \<Longrightarrow>
     w' \<noteq> STATE_IDLE \<or> w = STATE_IDLE"
  "commit_roles next_state w r = (Inr u, w', r') \<Longrightarrow> w = STATE_RUNNING \<and> w' = STATE_FINISHED"
  by (auto simp: commit_roles_def finish_result_def state_defs split: option.splits sum.splits prod.splits if_splits)

lemma commit_roles_in_use: "commit_roles next_state w r = (result, w', r') \<Longrightarrow> in_use r' = in_use r"
  by (auto simp: commit_roles_def split: option.splits sum.splits prod.splits)

lemma open_states: "open_compiler c \<Longrightarrow> comp_state c \<noteq> STATE_IDLE"
  by (auto simp: open_compiler_def state_defs)

lemma lost_commit_ok:
  "compiler_ok c \<Longrightarrow> open_compiler c \<Longrightarrow> commit_roles next_state (comp_state c) r = (result, w, r') \<Longrightarrow>
    compiler_ok (c\<lparr>comp_state := w\<rparr>)"
  using commit_roles_word(1) open_states by (blast intro: open_compiler_word)

lemma install_ok:
  assumes "compiler_ok c" and "open_compiler c" and "origin_ok (comp_inputs c) b"
  shows "compiler_ok (c\<lparr>comp_state := STATE_FINISHED, comp_output := install b n, comp_origin := Some b\<rparr>)"
proof -
  have fin: "STATE_FINISHED \<noteq> STATE_CANCELLED" by (simp add: state_defs)
  from assms(1) have size: "sized_inputs (comp_inputs c)" by (simp add: compiler_ok_def)
  note new = new_stream(1) [OF assms(3) size fin]
  from new have "remaining_edges b = length (stream_edges (comp_inputs c) b)"
    by (auto simp: stream_at_def dest: remaining_rest)
  with assms new size show ?thesis
    by (auto simp: compiler_ok_def open_compiler_def output_ok_def install_def)
qed

lemma take_stream_cases:
  "take_stream out = (Inr (Taken b n next_calls next_batches), out') \<Longrightarrow>
     out_prepared out \<and> \<not> out_cancelled out \<and> \<not> out_exhausted out \<and> \<not> out_draining out \<and> out_stream out = Some b \<and>
     n = out_batch_edges out \<and> out' = out\<lparr>out_stream := None, out_draining := True\<rparr>"
  by (auto simp: take_stream_def split: if_splits option.splits)

lemma taken_ok:
  assumes "compiler_ok c" and "take_stream (comp_output c) = (Inr (Taken b n next_calls next_batches), out)"
  shows "compiler_ok (c\<lparr>comp_output := out\<rparr>) \<and> pc_ok (c\<lparr>comp_output := out\<rparr>) (Draining k b n next_calls next_batches)"
  using assms take_stream_cases [OF assms(2)] by (auto simp: compiler_ok_def output_ok_def)

lemma drained_ok:
  assumes "compiler_ok c" and "pc_ok c (Draining k b n next_calls next_batches)"
    and "prepare_next_batch b (base_table (comp_inputs c)) STATE_FINISHED n = Some run"
    and "observed (comp_state c) run (Inr (edges, cur))"
    and "commit_batch b edges cur next_calls next_batches (comp_output c) = (Inr handed, out)"
  shows "compiler_ok (c\<lparr>comp_output := out, comp_delivered := comp_delivered c @ handed\<rparr>)"
proof -
  from assms(2) obtain origin where origin: "comp_origin c = Some origin"
    and at: "stream_at (comp_inputs c) STATE_FINISHED origin (comp_delivered c) b" by auto
  from observed_batch [OF at assms(3,4)] have next_at: "stream_at (comp_inputs c) STATE_FINISHED origin
      (comp_delivered c @ edges) (commit_cursor b cur)" by blast
  from next_at have split: "(comp_delivered c @ edges) @ batch_rest (OneTable (base_table (comp_inputs c))) STATE_FINISHED (commit_cursor b cur)
      = stream_edges (comp_inputs c) origin"
    and rem: "remaining_edges (commit_cursor b cur) = length (batch_rest (OneTable (base_table (comp_inputs c))) STATE_FINISHED (commit_cursor b cur))"
    by (auto simp: stream_at_def remaining_rest)
  from split rem have rest: "remaining_edges (commit_cursor b cur) =
      length (stream_edges (comp_inputs c) origin) - length (comp_delivered c @ edges)"
    by (metis diff_add_inverse length_append)
  have "out_prepared out"
    using assms(2,5) by (auto simp: commit_batch_def Let_def split: if_splits)
  with assms(1,2,5) origin next_at split rest show ?thesis
    by (auto simp: compiler_ok_def output_ok_def commit_batch_def Let_def split: if_splits)
qed

lemma drain_lost_ok:
  assumes "compiler_ok c" and "pc_ok c (Draining k b n next_calls next_batches)"
    and "commit_batch b edges cur next_calls next_batches (comp_output c) = (Inl e, out)"
  shows "compiler_ok (c\<lparr>comp_output := out\<rparr>)"
  using assms by (auto simp: compiler_ok_def output_ok_def commit_batch_def Let_def split: if_splits)

lemma give_back_ok:
  assumes "compiler_ok c" and "pc_ok c (Draining k b n next_calls next_batches)"
    and "give_back b e (comp_output c) = (result, out)"
  shows "compiler_ok (c\<lparr>comp_output := out\<rparr>)"
  using assms by (auto simp: compiler_ok_def output_ok_def give_back_def split: if_splits)

lemma closed_ok:
  assumes "compiler_ok c" and "cancel_batch_output (comp_state c) (comp_output c) = (stopped, w, out)"
  shows "compiler_ok (c\<lparr>comp_state := w, comp_output := out\<rparr>)"
  using assms by (auto simp: compiler_ok_def output_ok_def cancel_batch_output_def output_cancel_def batch_output_default_def split: if_splits)

lemma cancelled_ok:
  assumes "compiler_ok c" and "cancel_compiler (comp_state c) = (stopped, w)"
  shows "compiler_ok (c\<lparr>comp_state := w\<rparr>)"
  using assms by (auto simp: compiler_ok_def output_ok_def cancel_compiler_def state_defs split: if_splits)

section \<open>A turn keeps its compiler in order\<close>

lemma collecting_next:
  assumes "pc_ok c (Collecting k call columns b done_edges chunks peak)"
    and "prepare_next_batch b columns STATE_RUNNING COARSE_OUTPUT_CHUNK_EDGES = Some run"
    and "observed w run (Inr (edges, cur))"
  shows "pc_ok c (Collecting k call columns (commit_cursor b cur) (done_edges @ edges) chunks' peak')"
  using assms observed_batch by fastforce

lemma prepared_collecting:
  assumes "sized_inputs (comp_inputs c)" and "open_compiler c" and "origin_ok (comp_inputs c) b"
  shows "pc_ok c (Collecting k call (base_table (comp_inputs c)) b [] 0 0)"
  using assms new_stream(1) [OF assms(3,1), of STATE_RUNNING] by (auto simp: state_defs)

lemma returned_ok:
  assumes "compiler_ok c" and "pc_ok c (Collecting k call columns b done_edges chunks peak)" and "remaining_edges b = 0"
  shows "compiler_ok (c\<lparr>comp_state := STATE_FINISHED, comp_chunks := chunks', comp_peak := peak', comp_returned := Some done_edges\<rparr>)"
  using assms by (auto simp: compiler_ok_def open_compiler_def dest!: stream_finished)

lemma turn_self:
  assumes "turn k pc c r pc' c' r'" and "compiler_ok c" and "pc_ok c pc"
  shows "compiler_ok c' \<and> pc_ok c' pc'"
  using assms
proof (cases rule: turn.cases)
  case (entered alloc columns w call)
  from assms(2) have one: "one_table (comp_inputs c)" by (simp add: compiler_ok_def sized_inputs_def)
  from entered_columns [OF one entered(5)] have w: "comp_state c = STATE_IDLE" "w = STATE_RUNNING" "columns = base_table (comp_inputs c)"
    by simp_all
  with assms(2) have "open_compiler (c\<lparr>comp_state := w\<rparr>) \<and> compiler_ok (c\<lparr>comp_state := w\<rparr>)"
    by (auto simp: compiler_ok_def open_compiler_def output_ok_def state_defs split: if_splits)
  with entered w show ?thesis by simp
next
  case (refused alloc e w)
  from assms(2) have one: "one_table (comp_inputs c)" by (simp add: compiler_ok_def sized_inputs_def)
  from refused_word [OF one refused(5)] refused assms(2) show ?thesis by simp
next
  case (prepared columns call run b n)
  from prepared_origin [OF prepared(5,6)] prepared assms show ?thesis by auto
next
  case (prepared_coarse columns call run b)
  from assms(2) have size: "sized_inputs (comp_inputs c)" by (simp add: compiler_ok_def)
  from prepared_coarse assms(3) have o: "open_compiler c" "columns = base_table (comp_inputs c)" by simp_all
  from prepared_origin [OF prepared_coarse(5,6)] prepared_coarse(4) o have "origin_ok (comp_inputs c) b" by auto
  from prepared_collecting [OF size o(1) this] prepared_coarse o assms(2) show ?thesis by simp
next
  case (python_failed call columns b collected_edges chunks peak e)
  then show ?thesis using assms failed_call_ok by auto
next
  case (collected b columns run edges cur chunks chunks' call done_edges peak)
  from collecting_next [OF assms(3) [unfolded collected(1)] collected(6,7)] collected assms show ?thesis by simp
next
  case (returned b call next_state w done_edges columns chunks peak)
  from commit_roles_word(2) [OF returned(7)] have "w = STATE_FINISHED" by simp
  with returned_ok [OF assms(2) assms(3) [unfolded returned(1)] returned(5)] returned show ?thesis by simp
next
  case (return_lost b call next_state e w done_edges columns chunks peak)
  with assms lost_commit_ok show ?thesis by auto
next
  case (published call n b next_state w)
  from commit_roles_word(2) [OF published(7)] have "w = STATE_FINISHED" by simp
  with published assms install_ok [OF assms(2)] show ?thesis by auto
next
  case (publish_lost call n b next_state e w)
  with assms lost_commit_ok show ?thesis by auto
next
  case (taken b n next_calls next_batches out)
  with taken_ok [OF assms(2)] show ?thesis by blast
next
  case (drained columns b n run edges cur next_calls next_batches handed out)
  from assms(2) have "one_table (comp_inputs c)" by (simp add: compiler_ok_def sized_inputs_def)
  from base_table_retained [OF this] drained(5) have "columns = base_table (comp_inputs c)" by simp
  with drained drained_ok [OF assms(2) assms(3) [unfolded drained(1)]] show ?thesis by simp
next
  case (drain_lost columns b n run edges cur next_calls next_batches e out)
  with drain_lost_ok [OF assms(2) assms(3) [unfolded drain_lost(1)]] show ?thesis by simp
next
  case (drain_failed columns b n run e next_calls next_batches e' out)
  with give_back_ok [OF assms(2) assms(3) [unfolded drain_failed(1)]] show ?thesis by auto
next
  case (drain_refused b e e' out n next_calls next_batches)
  with give_back_ok [OF assms(2) assms(3) [unfolded drain_refused(1)]] show ?thesis by auto
next
  case (closed stopped w out)
  with closed_ok [OF assms(2)] show ?thesis by simp
next
  case (cancelled stopped w)
  with cancelled_ok [OF assms(2)] show ?thesis by simp
qed (use assms failed_call_ok in auto)

text \<open>What another thread relies on survives the turn.\<close>

lemma open_compiler_kept:
  "open_compiler c \<Longrightarrow> cancel_compiler (comp_state c) = (stopped, w) \<Longrightarrow> open_compiler (c\<lparr>comp_state := w\<rparr>)"
  by (auto simp: open_compiler_def cancel_compiler_def split: if_splits)

lemma pc_ok_same_output:
  assumes "pc_ok c pc" and "compiling pc = None" and "comp_inputs c' = comp_inputs c" and "comp_output c' = comp_output c"
    and "comp_origin c' = comp_origin c" and "comp_delivered c' = comp_delivered c"
  shows "pc_ok c' pc"
  using assms by (cases pc) simp_all

lemma pc_ok_open:
  assumes "pc_ok c pc" and "draining_on pc = None" and "comp_inputs c' = comp_inputs c" and "open_compiler c \<Longrightarrow> open_compiler c'"
  shows "pc_ok c' pc"
  using assms by (cases pc) auto

lemma open_not_draining: "open_compiler c \<Longrightarrow> pc_ok c pc \<Longrightarrow> draining_on pc = None"
  by (cases pc) (auto simp: open_compiler_def)

lemma prepared_not_compiling: "out_prepared (comp_output c) \<Longrightarrow> pc_ok c pc \<Longrightarrow> compiling pc = None"
  by (cases pc) (auto simp: open_compiler_def)

lemma turn_works_on:
  assumes "turn k pc c r pc' c' r'"
  shows "pc = Resting \<or> works_on k pc" and "pc' = Resting \<or> works_on k pc'"
  using assms by (cases rule: turn.cases; auto simp: works_on_def)+

lemma busy_excludes:
  assumes "pc_ok c pc" and "works_on k pc" and "pc_ok c other_pc" and "works_on k other_pc" and "apart pc other_pc"
  shows False
  using assms open_not_draining [of c pc] open_not_draining [of c other_pc]
  by (cases pc; cases other_pc) (auto simp: works_on_def apart_def)

lemma not_idle: "compiler_ok c \<Longrightarrow> pc_ok c pc \<Longrightarrow> works_on k pc \<Longrightarrow> comp_state c \<noteq> STATE_IDLE"
  by (cases pc) (auto simp: works_on_def compiler_ok_def output_ok_def open_compiler_def state_defs split: if_splits)

lemma turn_others:
  assumes turn: "turn k pc c r pc' c' r'" and ok: "compiler_ok c" and own: "pc_ok c pc"
    and theirs: "pc_ok c other_pc" "works_on k other_pc" and apart: "apart pc other_pc"
  shows "pc_ok c' other_pc"
proof (cases "pc = Resting")
  case False
  with turn_works_on(1) [OF turn] have "works_on k pc" by blast
  from busy_excludes [OF own this theirs apart] show ?thesis ..
next
  case True
  from turn show ?thesis
  proof (cases rule: turn.cases)
    case (entered alloc columns w call)
    from ok have one: "one_table (comp_inputs c)" by (simp add: compiler_ok_def sized_inputs_def)
    from entered_columns [OF one entered(5)] not_idle [OF ok theirs] show ?thesis by blast
  next
    case (refused alloc e w)
    from ok have one: "one_table (comp_inputs c)" by (simp add: compiler_ok_def sized_inputs_def)
    from refused_word [OF one refused(5)] refused theirs show ?thesis by simp
  next
    case (taken b n next_calls next_batches out)
    from take_stream_cases [OF taken(5)] theirs prepared_not_compiling [OF _ theirs(1)] show ?thesis
      by (cases other_pc) (auto simp: works_on_def)
  next
    case (closed stopped w out)
    with theirs show ?thesis
      by (cases other_pc) (auto simp: cancel_batch_output_def output_cancel_def open_compiler_def works_on_def split: if_splits)
  next
    case (cancelled stopped w)
    show ?thesis
    proof (cases "draining_on other_pc")
      case None
      then show ?thesis using pc_ok_open [OF theirs(1) None, of c'] open_compiler_kept cancelled by simp
    next
      case (Some j)
      then have "compiling other_pc = None" by (cases other_pc) auto
      from pc_ok_same_output [OF theirs(1) this, of c'] cancelled show ?thesis by simp
    qed
  qed (use True in auto)
qed

lemma turn_apart:
  assumes turn: "turn k pc c r pc' c' r'" and ok: "compiler_ok c" and apart: "apart pc other_pc"
    and theirs: "works_on k other_pc \<Longrightarrow> pc_ok c other_pc" and using_roles: "claims other_pc \<Longrightarrow> in_use r"
  shows "apart pc' other_pc"
  using turn
proof (cases rule: turn.cases)
  case (entered alloc columns w call)
  from ok have one: "one_table (comp_inputs c)" by (simp add: compiler_ok_def sized_inputs_def)
  from entered_columns [OF one entered(5)] not_idle [OF ok] theirs have "\<not> works_on k other_pc" by blast
  with entered apart show ?thesis by (auto simp: apart_def works_on_def)
next
  case (claimed call columns)
  with using_roles apart show ?thesis by (auto simp: apart_def claim_def split: if_splits)
next
  case (taken b n next_calls next_batches out)
  from take_stream_cases [OF taken(5)] have "\<not> out_draining (comp_output c)" by blast
  with theirs have "draining_on other_pc \<noteq> Some k" by (cases other_pc) (auto simp: works_on_def)
  with taken apart show ?thesis by (auto simp: apart_def)
qed (use apart in \<open>auto simp: apart_def\<close>)

lemma release_in_use [simp]: "in_use (release_call call r) \<longleftrightarrow> \<not> call_roles call \<and> in_use r"
  by (simp add: release_call_def release_def)

lemma claim_in_use: "claim r = (x, r') \<Longrightarrow> in_use r' \<and> (x = Inr () \<longleftrightarrow> \<not> in_use r)"
  by (auto simp: claim_def split: if_splits)

lemma turn_in_use:
  assumes "turn k pc c r pc' c' r'" and "claims pc \<longrightarrow> in_use r"
  shows "in_use r' \<longleftrightarrow> claims pc' \<or> (in_use r \<and> \<not> claims pc)"
  using assms
  by (cases rule: turn.cases)
    (auto dest: claim_in_use prepare_section_in_use commit_roles_in_use)

lemma failed_call_not_running: "comp_state (failed_call e c) \<noteq> STATE_RUNNING"
  by (auto simp: failed_call_def finish_result_def state_defs)

lemma commit_not_running: "commit_roles next_state w r = (result, w', r') \<Longrightarrow> w' \<noteq> STATE_RUNNING"
  by (auto simp: commit_roles_def finish_result_def state_defs split: option.splits sum.splits prod.splits if_splits)

lemma cancelled_not_running: "STATE_CANCELLED \<noteq> STATE_RUNNING"
  by (simp add: state_defs)

lemma turn_running:
  assumes "turn k pc c r pc' c' r'" and ok: "compiler_ok c" and "comp_state c' = STATE_RUNNING"
  shows "compiling pc' = Some k \<or> (comp_state c = STATE_RUNNING \<and> compiling pc \<noteq> Some k)"
  using assms(1,3)
proof (cases rule: turn.cases)
  case (refused alloc e w)
  from ok have one: "one_table (comp_inputs c)" by (simp add: compiler_ok_def sized_inputs_def)
  from refused_word [OF one refused(5)] refused assms(3) show ?thesis by simp
qed (use assms(3) in \<open>auto simp: failed_call_not_running cancelled_not_running cancel_batch_output_def
    cancel_compiler_def dest: commit_not_running split: if_splits prod.splits\<close>)

lemma turn_draining:
  assumes "turn k pc c r pc' c' r'" and ok: "compiler_ok c" and own: "pc_ok c pc" and "out_draining (comp_output c')"
  shows "draining_on pc' = Some k \<or> (out_draining (comp_output c) \<and> draining_on pc \<noteq> Some k)"
  using assms(1,4)
proof (cases rule: turn.cases)
  case (drain_panicked columns b n run next_calls next_batches)
  from ok have "one_table (comp_inputs c)" by (simp add: compiler_ok_def sized_inputs_def)
  from base_table_retained [OF this] drain_panicked(5) have "columns = base_table (comp_inputs c)" by simp
  with drain_panicked own stream_never_panics show ?thesis by fastforce
next
  case (columns_lost e b n next_calls next_batches)
  from ok have "one_table (comp_inputs c)" by (simp add: compiler_ok_def sized_inputs_def)
  from base_table_retained [OF this] columns_lost show ?thesis by simp
next
  case (published call n b next_state w)
  with assms(4) show ?thesis by (simp add: install_def)
qed (use assms(4) in
    \<open>auto simp: failed_call_def commit_batch_def give_back_def cancel_batch_output_def output_cancel_def Let_def split: if_splits\<close>)

section \<open>Reachable systems\<close>

definition system_ok :: "system \<Rightarrow> bool" where
  "system_ok s \<longleftrightarrow> (\<forall>k. compiler_ok (compilers s k)) \<and>
     (\<forall>t k. works_on k (threads s t) \<longrightarrow> pc_ok (compilers s k) (threads s t)) \<and>
     (\<forall>t u. t \<noteq> u \<longrightarrow> apart (threads s t) (threads s u)) \<and>
     (in_use (roles_cell s) \<longleftrightarrow> (\<exists>t. claims (threads s t))) \<and>
     (\<forall>k. comp_state (compilers s k) = STATE_RUNNING \<longrightarrow> (\<exists>t. compiling (threads s t) = Some k)) \<and>
     (\<forall>k. out_draining (comp_output (compilers s k)) \<longrightarrow> (\<exists>t. draining_on (threads s t) = Some k))"

lemma initial_ok: "initial s \<Longrightarrow> system_ok s"
proof -
  assume init: "initial s"
  have "compiler_ok (compilers s k) \<and> comp_state (compilers s k) = STATE_IDLE \<and> comp_output (compilers s k) = batch_output_default" for k
  proof -
    from init obtain inputs where "compilers s k = compiler_new inputs" and "sized_inputs inputs"
      unfolding initial_def sized_inputs_def by blast
    then show ?thesis by (simp add: compiler_ok_def compiler_new_def batch_output_default_def)
  qed
  with init show ?thesis
    by (auto simp: system_ok_def initial_def works_on_def apart_def batch_output_default_def state_defs)
qed

lemma step_ok:
  assumes ok: "system_ok s" and "step s s'"
  shows "system_ok s'"
  using assms(2)
proof (cases rule: step.cases)
  case (1 k t pc c r)
  note turn = 1(2)
  from ok have comp: "\<And>k. compiler_ok (compilers s k)"
    and pcs: "\<And>t k. works_on k (threads s t) \<Longrightarrow> pc_ok (compilers s k) (threads s t)"
    and apart: "\<And>t u. t \<noteq> u \<Longrightarrow> apart (threads s t) (threads s u)"
    and roles: "in_use (roles_cell s) \<longleftrightarrow> (\<exists>t. claims (threads s t))"
    and running: "\<And>k. comp_state (compilers s k) = STATE_RUNNING \<Longrightarrow> \<exists>t. compiling (threads s t) = Some k"
    and drains: "\<And>k. out_draining (comp_output (compilers s k)) \<Longrightarrow> \<exists>t. draining_on (threads s t) = Some k"
    by (simp_all add: system_ok_def)
  have own: "pc_ok (compilers s k) (threads s t)"
    using turn_works_on(1) [OF turn] pcs by (cases "threads s t = Resting") auto
  note self = turn_self [OF turn comp own]
  have use_r: "in_use r \<longleftrightarrow> claims pc \<or> (in_use (roles_cell s) \<and> \<not> claims (threads s t))"
    by (rule turn_in_use [OF turn]) (use roles in auto)
  have c1: "\<forall>j. compiler_ok (compilers s' j)" using 1 comp self by simp
  have c2: "works_on j (threads s' u) \<Longrightarrow> pc_ok (compilers s' j) (threads s' u)" for u j
  proof -
    assume w: "works_on j (threads s' u)"
    show ?thesis
    proof (cases "u = t")
      case True
      with w 1 turn_works_on(2) [OF turn] have "j = k" by (cases pc) (auto simp: works_on_def)
      with True 1 self show ?thesis by simp
    next
      case False
      with w 1 have w': "works_on j (threads s u)" by simp
      show ?thesis
      proof (cases "j = k")
        case True
        with turn_others [OF turn comp own pcs [OF w' [unfolded True]] w' [unfolded True]] apart [of t u] False 1
        show ?thesis by simp
      next
        case other: False
        with False 1 pcs [OF w'] show ?thesis by simp
      qed
    qed
  qed
  have a: "apart pc (threads s u)" if "u \<noteq> t" for u
    using turn_apart [OF turn comp, of "threads s u"] apart [of t u] that pcs roles by blast
  have c3: "\<forall>u v. u \<noteq> v \<longrightarrow> apart (threads s' u) (threads s' v)"
    using 1 a apart by (auto simp: apart_def)
  have c4: "in_use (roles_cell s') \<longleftrightarrow> (\<exists>u. claims (threads s' u))"
  proof -
    have "(\<exists>u. u \<noteq> t \<and> claims (threads s u)) \<longleftrightarrow> in_use (roles_cell s) \<and> \<not> claims (threads s t)"
      using apart roles unfolding apart_def by metis
    with use_r 1 show ?thesis by auto
  qed
  have c5: "comp_state (compilers s' j) = STATE_RUNNING \<longrightarrow> (\<exists>u. compiling (threads s' u) = Some j)" for j
  proof (cases "j = k")
    case True
    show ?thesis
    proof
      assume "comp_state (compilers s' j) = STATE_RUNNING"
      with True 1 have "comp_state c = STATE_RUNNING" by simp
      from turn_running [OF turn comp this] show "\<exists>u. compiling (threads s' u) = Some j"
      proof
        assume "compiling pc = Some k"
        with 1 True show ?thesis by (auto intro: exI [of _ t])
      next
        assume before: "comp_state (compilers s k) = STATE_RUNNING \<and> compiling (threads s t) \<noteq> Some k"
        with running [of k] obtain u where u: "compiling (threads s u) = Some k" by blast
        with before have "u \<noteq> t" by auto
        with u 1 True show ?thesis by (auto intro: exI [of _ u])
      qed
    qed
  next
    case False
    have "compiling pc = compiling (threads s t) \<or> compiling (threads s t) \<noteq> Some j"
      using turn_works_on(1) [OF turn] False by (cases "threads s t") (auto simp: works_on_def)
    with False 1 running [of j] show ?thesis by (auto simp: fun_upd_def)
  qed
  have c6: "out_draining (comp_output (compilers s' j)) \<longrightarrow> (\<exists>u. draining_on (threads s' u) = Some j)" for j
  proof (cases "j = k")
    case True
    show ?thesis
    proof
      assume "out_draining (comp_output (compilers s' j))"
      with True 1 have "out_draining (comp_output c)" by simp
      from turn_draining [OF turn comp own this] show "\<exists>u. draining_on (threads s' u) = Some j"
      proof
        assume "draining_on pc = Some k"
        with 1 True show ?thesis by (auto intro: exI [of _ t])
      next
        assume before: "out_draining (comp_output (compilers s k)) \<and> draining_on (threads s t) \<noteq> Some k"
        with drains [of k] obtain u where u: "draining_on (threads s u) = Some k" by blast
        with before have "u \<noteq> t" by auto
        with u 1 True show ?thesis by (auto intro: exI [of _ u])
      qed
    qed
  next
    case False
    have "draining_on (threads s t) \<noteq> Some j"
      using turn_works_on(1) [OF turn] False by (cases "threads s t") (auto simp: works_on_def)
    with False 1 drains [of j] show ?thesis by (auto simp: fun_upd_def)
  qed
  from c1 c2 c3 c4 c5 c6 show ?thesis by (simp add: system_ok_def)
qed

lemma reachable_ok:
  assumes "step\<^sup>*\<^sup>* s0 s" and "initial s0"
  shows "system_ok s"
  using assms by (induction rule: rtranclp_induct) (auto intro: initial_ok step_ok)

end
