(* ===== verification/Compiler_Safety.thy ===== *)
theory Compiler_Safety
  imports Compiler_Runs
begin

text \<open>
  What every interleaving of threads over the compilers guarantees: exactly the announced edges
  are handed out, busy flags are owned, and the retained roles change with a finished compilation
  only. The invariant is in Compiler_Runs.
\<close>

section \<open>A run\<close>

definition sample_inputs :: compiler_inputs where
  "sample_inputs = empty_inputs\<lparr>base_buffers := map (\<lambda>column. \<lparr> storage = column, slice_start = 0, slice_end = length column \<rparr>)
     [root_kinds taxonomy_table, root_ids taxonomy_table, node_tags taxonomy_table, node_field_offsets taxonomy_table,
      field_kinds taxonomy_table, field_values taxonomy_table, field_lengths taxonomy_table, item_kinds taxonomy_table,
      item_values taxonomy_table, item_lengths taxonomy_table, scalar_bytes taxonomy_table]\<rparr>"

lemma sample_table: "base_table sample_inputs = taxonomy_table"
  by (simp add: base_table_def sample_inputs_def empty_inputs_def table_of_def as_slice_def from_ordered_def
      with_included_root_ids_def with_excluded_root_ids_def with_anonymous_scope_map_def optional_slice_def
      taxonomy_table_def encode_table_def)

lemma sample_sized: "sized_inputs sample_inputs" and sample_root: "root_annotation_columns sample_inputs = None"
  using taxonomy_fits
  by (simp_all add: sized_inputs_def sample_table one_table_def) (simp_all add: sample_inputs_def empty_inputs_def root_annotation_columns_def)

definition sample_system :: system where
  "sample_system = \<lparr> compilers = (\<lambda>_. compiler_new sample_inputs), roles_cell = retained_role_state_default,
     threads = (\<lambda>_. Resting) \<rparr>"

lemma sample_initial: "initial sample_system"
  using sample_sized
  by (auto simp: initial_def sample_system_def retained_role_state_default_def sized_inputs_def)

definition sample_call :: call where
  "sample_call = \<lparr> call_options = taxonomy_options, call_batch = Some 5, call_roles = False \<rparr>"

definition after_turn :: "system \<Rightarrow> nat \<Rightarrow> nat \<Rightarrow> thread_state \<Rightarrow> compiler \<Rightarrow> system" where
  "after_turn s t k pc c = s\<lparr>threads := (threads s)(t := pc), compilers := (compilers s)(k := c), roles_cell := roles_cell s\<rparr>"

lemma after_turn_step:
  assumes "turn k pc0 c0 r pc c r" and "threads s t = pc0" and "compilers s k = c0" and "roles_cell s = r"
  shows "step s (after_turn s t k pc c)"
  using assms step.intros [of k s t pc c r] by (simp add: after_turn_def)

lemma after_turn_sel [simp]:
  "threads (after_turn s t k pc c) t = pc" "compilers (after_turn s t k pc c) k = c"
  "roles_cell (after_turn s t k pc c) = roles_cell s"
  by (simp_all add: after_turn_def)

lemma sample_run:
  "\<exists>u s b. step\<^sup>*\<^sup>* sample_system u \<and> threads u 0 = Draining 0 b 5 2 1 \<and> \<not> out_cancelled (comp_output (compilers u 0)) \<and>
     out_remaining (comp_output (compilers u 0)) = 2 \<and> step u s \<and> comp_origin (compilers s 0) = Some b \<and>
     length (comp_delivered (compilers s 0)) = 2 \<and> stat_edges (prep_statistics (preparation b)) = 2"
proof -
  let ?c0 = "compiler_new sample_inputs"
  let ?c1 = "?c0\<lparr>comp_state := STATE_RUNNING\<rparr>"
  from taxonomy_prepared obtain b where b: "prepare_direct_batches_uncommitted taxonomy_table None taxonomy_options STATE_RUNNING None = Inr b"
    and two: "stat_edges (prep_statistics (preparation b)) = 2" and roles: "prep_role_state (preparation b) = owned_role_state_default" by blast
  let ?c2 = "?c1\<lparr>comp_state := STATE_FINISHED, comp_output := install b 5, comp_origin := Some b\<rparr>"
  have sized: "sized_stream b" by (simp add: sized_stream_def roles roles_fit_def owned_role_state_default_def)
  have stream: "prepare_stream sample_inputs taxonomy_table taxonomy_options None = Inr b"
    using b by (simp add: prepare_stream_def sample_root)
  have origin: "origin_ok sample_inputs b" using stream sized by (auto simp: origin_ok_def sample_table)
  have one: "one_table sample_inputs" using sample_sized by (simp add: sized_inputs_def)
  have enter: "enter_compiler (\<lambda>_. True) sample_inputs STATE_IDLE = (Inr (taxonomy_table, None), STATE_RUNNING)"
    using base_table_retained [OF one] one
    by (simp add: enter_compiler_def begin_compiler_def sample_table dynamic_composite_columns_def one_table_def)
  let ?r = "roles_cell sample_system"
  let ?s1 = "after_turn sample_system 0 0 (Entered 0 sample_call taxonomy_table) ?c1"
  have "turn 0 Resting ?c0 ?r (Entered 0 sample_call taxonomy_table) ?c1 ?r"
    by (rule turn.entered [where alloc = "\<lambda>_. True"])
      (simp_all add: compiler_new_def enter call_valid_def sample_call_def taxonomy_option_values)
  then have 1: "step sample_system ?s1" by (rule after_turn_step) (simp_all add: sample_system_def)
  let ?s2 = "after_turn ?s1 0 0 (Preparing 0 sample_call taxonomy_table) ?c1"
  have "turn 0 (Entered 0 sample_call taxonomy_table) ?c1 ?r (Preparing 0 sample_call taxonomy_table) ?c1 ?r"
    by (rule turn.unclaimed) (simp add: sample_call_def)
  then have 2: "step ?s1 ?s2" by (rule after_turn_step) simp_all
  let ?s3 = "after_turn ?s2 0 0 (Prepared 0 sample_call b) ?c1"
  have "turn 0 (Preparing 0 sample_call taxonomy_table) ?c1 ?r (Prepared 0 sample_call b) ?c1 ?r"
    by (rule turn.prepared [where run = "prepare_stream sample_inputs taxonomy_table taxonomy_options" and n = 5])
      (simp_all add: compiler_new_def observed_def sample_call_def prepare_section_def stream raised_def sized)
  then have 3: "step ?s2 ?s3" by (rule after_turn_step) simp_all
  let ?s4 = "after_turn ?s3 0 0 Resting ?c2"
  have "turn 0 (Prepared 0 sample_call b) ?c1 ?r Resting ?c2 (release_call sample_call ?r)"
    by (rule turn.published [where next_state = None])
      (simp_all add: sample_call_def next_roles_def commit_roles_def finish_result_def compiler_new_def)
  then have "turn 0 (Prepared 0 sample_call b) ?c1 ?r Resting ?c2 ?r" by (simp add: release_call_def sample_call_def)
  then have 4: "step ?s3 ?s4" by (rule after_turn_step) simp_all
  have fin: "STATE_FINISHED \<noteq> STATE_CANCELLED" by (simp add: state_defs)
  note at = new_stream(1) [OF origin sample_sized fin]
  have rem: "remaining_edges b = 2"
    using at new_stream(2) [OF origin sample_sized fin] two by (auto simp: stream_at_def remaining_rest)
  let ?out = "(install b 5)\<lparr>out_stream := None, out_draining := True\<rparr>"
  let ?c3 = "?c2\<lparr>comp_output := ?out\<rparr>"
  let ?s5 = "after_turn ?s4 0 0 (Draining 0 b 5 2 1) ?c3"
  have "turn 0 Resting ?c2 ?r (Draining 0 b 5 2 1) ?c3 ?r"
    by (rule turn.taken) (simp add: take_stream_def install_def rem checked_add_def fits_def)
  then have 5: "step ?s4 ?s5" by (rule after_turn_step) simp_all
  let ?edges = "take 5 (batch_rest (OneTable (base_table sample_inputs)) STATE_FINISHED b)"
  from stream_next [OF at, of 5] obtain cur where next_batch: "prepare_next_batch b (base_table sample_inputs) STATE_FINISHED 5 = Some (Inr (?edges, cur))"
    and left: "remaining_edges (commit_cursor b cur) = 0" using rem by auto
  have len: "length ?edges = 2" using at rem remaining_rest by (fastforce simp: stream_at_def)
  let ?out2 = "?out\<lparr>out_draining := False, out_boundary_calls := 2, out_edge_batches := 1,
    out_peak := max (out_peak ?out) (length ?edges), out_remaining := remaining_edges (commit_cursor b cur),
    out_exhausted := (remaining_edges (commit_cursor b cur) = 0), out_stream := None\<rparr>"
  let ?c4 = "?c3\<lparr>comp_output := ?out2, comp_delivered := comp_delivered ?c3 @ ?edges\<rparr>"
  have "turn 0 (Draining 0 b 5 2 1) ?c3 ?r Resting ?c4 ?r"
  proof (rule turn.drained)
    show "retained_base_columns (comp_inputs ?c3) (table_of (comp_inputs ?c3) (base_buffers (comp_inputs ?c3))) = Inr (base_table sample_inputs)"
      using base_table_retained [OF one] by (simp add: compiler_new_def)
    show "prepare_next_batch b (base_table sample_inputs) STATE_FINISHED 5 = Some (Inr (?edges, cur))" by (rule next_batch)
    show "observed (comp_state ?c3) (Inr (?edges, cur)) (Inr (?edges, cur))" by (simp add: observed_def)
    show "commit_batch b ?edges cur 2 1 (comp_output ?c3) = (Inr ?edges, ?out2)"
      by (simp add: commit_batch_def left install_def)
  qed
  then have 6: "step ?s5 (after_turn ?s5 0 0 Resting ?c4)" by (rule after_turn_step) simp_all
  let ?s6 = "after_turn ?s5 0 0 Resting ?c4"
  from 1 2 3 4 5 have "step\<^sup>*\<^sup>* sample_system ?s5" by (meson rtranclp.rtrancl_refl rtranclp.rtrancl_into_rtrancl)
  moreover have "threads ?s5 0 = Draining 0 b 5 2 1" "\<not> out_cancelled (comp_output (compilers ?s5 0))"
    "out_remaining (comp_output (compilers ?s5 0)) = 2" by (simp_all add: install_def rem)
  moreover have "comp_origin (compilers ?s6 0) = Some b" by simp
  moreover have "comp_delivered (compilers ?s6 0) = ?edges" by (simp add: compiler_new_def)
  then have "length (comp_delivered (compilers ?s6 0)) = 2" by (simp only: len)
  ultimately show ?thesis using 6 two by blast
qed

lemma sample_reached:
  obtains s b where "step\<^sup>*\<^sup>* sample_system s" "comp_origin (compilers s 0) = Some b" "length (comp_delivered (compilers s 0)) = 2"
    "stat_edges (prep_statistics (preparation b)) = 2"
  using sample_run by (meson rtranclp.rtrancl_into_rtrancl)

section \<open>Properties\<close>

text \<open>
  C1: Whatever the threads do with compilers of one table, a caller gets exactly the edges of the preparation, each once and in
  order. In every reachable state the batches handed out so far are a prefix of the reference enumeration
  of the installed preparation; an output that is exhausted has handed out all of it, and one that
  is not cancelled announces exactly what is left. A list returned by \<open>compile_batch\<close> is the whole
  enumeration. Refused, failed, raced or cancelled calls in between lose and repeat nothing.
\<close>
theorem outputs_exact:
  assumes "initial s0" and "step\<^sup>*\<^sup>* s0 s"
  shows "case comp_origin (compilers s k) of
      Some b \<Rightarrow> (\<exists>rest. comp_delivered (compilers s k) @ rest = stream_edges (comp_inputs (compilers s k)) b \<and>
        length (stream_edges (comp_inputs (compilers s k)) b) = stat_edges (prep_statistics (preparation b)) \<and>
        (out_cancelled (comp_output (compilers s k)) \<or>
         output_remaining_edges (comp_output (compilers s k)) = length rest \<and>
         (out_exhausted (comp_output (compilers s k)) \<longleftrightarrow> rest = [])))
    | None \<Rightarrow> comp_delivered (compilers s k) = [] \<and>
        (case comp_returned (compilers s k) of None \<Rightarrow> True
         | Some edges \<Rightarrow> \<exists>b. origin_ok (comp_inputs (compilers s k)) b \<and> edges = stream_edges (comp_inputs (compilers s k)) b \<and>
             length edges = stat_edges (prep_statistics (preparation b)))"
proof -
  let ?c = "compilers s k"
  have fin: "STATE_FINISHED \<noteq> STATE_CANCELLED" by (simp add: state_defs)
  from reachable_ok [OF assms(2,1)] have ok: "compiler_ok ?c" by (simp add: system_ok_def)
  then have size: "sized_inputs (comp_inputs ?c)" by (simp add: compiler_ok_def)
  show ?thesis
  proof (cases "out_prepared (comp_output ?c)")
    case False
    with ok new_stream(2) [OF _ size fin] show ?thesis by (auto simp: compiler_ok_def split: option.split) metis
  next
    case True
    with ok obtain b where b: "comp_origin ?c = Some b"
      and out: "output_ok (comp_inputs ?c) (comp_state ?c) (comp_output ?c) b (comp_delivered ?c)"
      by (auto simp: compiler_ok_def)
    then obtain rest where rest: "comp_delivered ?c @ rest = stream_edges (comp_inputs ?c) b" and "origin_ok (comp_inputs ?c) b"
      by (auto simp: output_ok_def)
    with new_stream(2) [OF _ size fin] b have "length (stream_edges (comp_inputs ?c) b) = stat_edges (prep_statistics (preparation b))"
      by blast
    moreover from rest have "length (stream_edges (comp_inputs ?c) b) - length (comp_delivered ?c) = length rest"
      by (metis diff_add_inverse length_append)
    ultimately show ?thesis using b rest True out
      by (auto simp: output_ok_def output_remaining_edges_def intro!: exI [of _ rest] split: if_splits)
  qed
qed

text \<open>
  C2: For compilers of one table (neither a composite nor an overlay delta, as \<open>initial\<close> requires),
  sharing one retained role state: in every state their threads can reach, a compiler that reads
  \<open>running\<close> has exactly one thread compiling with it, an output is marked as draining exactly when one
  thread drains it, and the role state is in use exactly when one thread has claimed it. Composites
  are excluded because the claim is false for them: Compiler_Lifecycle has
  the runs that leave either flag set with nobody to clear it.
\<close>
theorem flags_are_owned:
  assumes "initial s0" and "step\<^sup>*\<^sup>* s0 s"
  shows "(comp_state (compilers s k) \<noteq> STATE_RUNNING \<or> (\<exists>!t. compiling (threads s t) = Some k)) \<and>
    (out_draining (comp_output (compilers s k)) \<longleftrightarrow> (\<exists>!t. draining_on (threads s t) = Some k)) \<and>
    (in_use (roles_cell s) \<longleftrightarrow> (\<exists>!t. claims (threads s t)))"
proof -
  from reachable_ok [OF assms(2,1)] have ok: "system_ok s" .
  then have one: "t = u" if "\<not> apart (threads s t) (threads s u)" for t u using that by (auto simp: system_ok_def)
  have d: "out_draining (comp_output (compilers s k))" if "draining_on (threads s t) = Some k" for t
  proof -
    from ok that have "pc_ok (compilers s k) (threads s t)" by (auto simp: system_ok_def works_on_def)
    with that show ?thesis by (cases "threads s t") auto
  qed
  from ok have r: "comp_state (compilers s k) = STATE_RUNNING \<longrightarrow> (\<exists>t. compiling (threads s t) = Some k)"
    "out_draining (comp_output (compilers s k)) \<longrightarrow> (\<exists>t. draining_on (threads s t) = Some k)"
    "in_use (roles_cell s) \<longleftrightarrow> (\<exists>t. claims (threads s t))" by (simp_all add: system_ok_def)
  have "compiling (threads s t) = Some k \<Longrightarrow> compiling (threads s u) = Some k \<Longrightarrow> t = u"
    "draining_on (threads s t) = Some k \<Longrightarrow> draining_on (threads s u) = Some k \<Longrightarrow> t = u"
    "claims (threads s t) \<Longrightarrow> claims (threads s u) \<Longrightarrow> t = u" for t u
    using one [of t u] by (auto simp: apart_def)
  with r d show ?thesis by blast
qed

text \<open>
  C4: The retained roles change in one transaction with a finished compilation, never otherwise: a
  step that changes them ends a call that had claimed them, takes its compiler from \<open>running\<close> to
  \<open>finished\<close> and stores the role state of the stream that call prepared. A failed or cancelled
  call leaves the roles of the earlier calls untouched.
\<close>
theorem roles_change_with_finish:
  assumes "step s s'" and "retained_roles (roles_cell s') \<noteq> retained_roles (roles_cell s)"
  shows "\<exists>t k b. claims (threads s t) \<and> compiling (threads s t) = Some k \<and> threads s' t = Resting \<and>
    comp_state (compilers s k) = STATE_RUNNING \<and> comp_state (compilers s' k) = STATE_FINISHED \<and>
    (comp_origin (compilers s' k) = Some b \<or> comp_returned (compilers s' k) \<noteq> None) \<and>
    retained_roles (roles_cell s') = prep_role_state (preparation b)"
  using assms(1)
proof (cases rule: step.cases)
  case (1 k t pc c r)
  have kept: "retained_roles (release_call call q) = retained_roles q" for call q
    by (simp add: release_call_def release_def)
  have failed: "prepare_section call run q = (x, q') \<Longrightarrow> retained_roles q' = retained_roles q" for call run q x q'
    by (auto simp: prepare_section_def prepare_claimed_def split: if_splits sum.splits)
  have claim: "claim q = (x, q') \<Longrightarrow> retained_roles q' = retained_roles q" for q x q'
    by (auto simp: claim_def split: if_splits)
  have commit: "commit_roles next_state w q = (result, w', q') \<Longrightarrow> next_roles retained options b = Inr next_state \<Longrightarrow>
      retained_roles q' \<noteq> retained_roles q \<Longrightarrow>
      retained \<and> result = Inr () \<and> retained_roles q' = prep_role_state (preparation b)" for next_state w q result w' q' retained options b
    by (auto simp: commit_roles_def next_roles_def raised_def owned_try_clone_id split: option.splits sum.splits prod.splits if_splits)
  from assms(2) 1 have changed: "retained_roles r \<noteq> retained_roles (roles_cell s)" by simp
  from 1(2) show ?thesis
  proof (cases rule: turn.cases)
    case (returned b call next_state w r' done_edges columns chunks peak)
    with commit [OF returned(7,6)] changed kept commit_roles_word(2) [OF returned(7)] 1 show ?thesis
      by (intro exI [of _ t] exI [of _ k] exI [of _ b]) simp
  next
    case (published call n b next_state w r')
    with commit [OF published(7,6)] changed kept commit_roles_word(2) [OF published(7)] 1 show ?thesis
      by (intro exI [of _ t] exI [of _ k] exI [of _ b]) simp
  next
    case (return_lost b call next_state e w r' done_edges columns chunks peak)
    with commit [OF return_lost(7,6)] changed kept show ?thesis by auto
  next
    case (publish_lost call n b next_state e w r')
    with commit [OF publish_lost(7,6)] changed kept show ?thesis by auto
  qed (use changed kept failed claim in auto)
qed

text \<open>
  C3: For compilers of one table: a thread that has taken the stream of an output, not cancelled since,
  can finish its call, and then the next edges of the reference enumeration, as many as were asked
  for or as are left, have been handed out. The kernel neither fails, nor panics, nor runs forever at
  this point. The table of such a compiler is set up without reservations; for a composite the
  setup can fail after the stream is taken (see Compiler_Lifecycle).
\<close>
theorem drain_finishes:
  assumes "initial s0" and "step\<^sup>*\<^sup>* s0 s" and "threads s t = Draining k b n next_calls next_batches"
    and "\<not> out_cancelled (comp_output (compilers s k))"
  shows "\<exists>s' edges. step s s' \<and> threads s' t = Resting \<and>
    comp_delivered (compilers s' k) = comp_delivered (compilers s k) @ edges \<and>
    length edges = min n (out_remaining (comp_output (compilers s k))) \<and> comp_origin (compilers s' k) = comp_origin (compilers s k)"
proof -
  let ?c = "compilers s k"
  have "works_on k (threads s t)" using assms(3) by (simp add: works_on_def)
  with reachable_ok [OF assms(2,1)] have ok: "compiler_ok ?c" and "pc_ok ?c (threads s t)"
    unfolding system_ok_def by blast+
  then obtain origin where origin: "comp_origin ?c = Some origin" and at: "stream_at (comp_inputs ?c) STATE_FINISHED origin (comp_delivered ?c) b"
    and p: "out_prepared (comp_output ?c)" using assms(3) by auto
  from ok have one: "one_table (comp_inputs ?c)" by (simp add: compiler_ok_def sized_inputs_def)
  let ?edges = "take n (batch_rest (OneTable (base_table (comp_inputs ?c))) STATE_FINISHED b)"
  from stream_next [OF at, of n] obtain cur where fetch: "prepare_next_batch b (base_table (comp_inputs ?c)) STATE_FINISHED n = Some (Inr (?edges, cur))" by blast
  obtain out where out: "commit_batch b ?edges cur next_calls next_batches (comp_output ?c) = (Inr ?edges, out)"
    using assms(4) by (auto simp: commit_batch_def Let_def)
  have "length ?edges = min n (out_remaining (comp_output ?c))"
  proof -
    from ok origin p assms(4) have "out_remaining (comp_output ?c) = length (stream_edges (comp_inputs ?c) origin) - length (comp_delivered ?c)"
      by (auto simp: compiler_ok_def output_ok_def)
    also from at have "\<dots> = length (batch_rest (OneTable (base_table (comp_inputs ?c))) STATE_FINISHED b)"
      unfolding stream_at_def by (metis diff_add_inverse length_append)
    finally show ?thesis by (simp add: min_def)
  qed
  moreover have "turn k (threads s t) ?c (roles_cell s) Resting
      (?c\<lparr>comp_output := out, comp_delivered := comp_delivered ?c @ ?edges\<rparr>) (roles_cell s)"
    unfolding assms(3)
    by (rule turn.drained [OF base_table_retained [OF one] fetch _ out]) (simp add: observed_def)
  from step.intros [OF this] obtain s' where "step s s'" and "threads s' t = Resting"
    and "compilers s' k = ?c\<lparr>comp_output := out, comp_delivered := comp_delivered ?c @ ?edges\<rparr>" by fastforce
  ultimately show ?thesis by (intro exI [of _ s'] exI [of _ ?edges]) simp
qed

theorem outputs_exact_witness:
  "\<exists>s b. step\<^sup>*\<^sup>* sample_system s \<and> comp_origin (compilers s 0) = Some b \<and> length (comp_delivered (compilers s 0)) = 2 \<and>
     comp_delivered (compilers s 0) = stream_edges (comp_inputs (compilers s 0)) b"
proof -
  obtain s b where s: "step\<^sup>*\<^sup>* sample_system s" "comp_origin (compilers s 0) = Some b"
    "length (comp_delivered (compilers s 0)) = 2" "stat_edges (prep_statistics (preparation b)) = 2" by (rule sample_reached)
  from outputs_exact [OF sample_initial s(1), of 0] s(2,4) obtain rest where
    rest: "comp_delivered (compilers s 0) @ rest = stream_edges (comp_inputs (compilers s 0)) b"
      "length (stream_edges (comp_inputs (compilers s 0)) b) = 2" by auto
  from arg_cong [OF rest(1), of length] rest(2) s(3) have "rest = []" by simp
  with rest(1) s show ?thesis by (intro exI [of _ s] exI [of _ b]) simp
qed

theorem flags_are_owned_witness:
  "\<exists>s b. step\<^sup>*\<^sup>* sample_system s \<and> comp_origin (compilers s 0) = Some b \<and>
     (in_use (roles_cell s) \<longleftrightarrow> (\<exists>!t. claims (threads s t)))"
proof -
  obtain s b where s: "step\<^sup>*\<^sup>* sample_system s" "comp_origin (compilers s 0) = Some b" by (rule sample_reached)
  from flags_are_owned [OF sample_initial s(1), of 0] s show ?thesis by blast
qed

theorem drain_finishes_witness:
  "\<exists>u s' edges. step\<^sup>*\<^sup>* sample_system u \<and> step u s' \<and> threads s' 0 = Resting \<and>
     comp_delivered (compilers s' 0) = comp_delivered (compilers u 0) @ edges \<and> length edges = 2"
proof -
  from sample_run obtain u b where u: "step\<^sup>*\<^sup>* sample_system u" "threads u 0 = Draining 0 b 5 2 1"
    "\<not> out_cancelled (comp_output (compilers u 0))" "out_remaining (comp_output (compilers u 0)) = 2" by blast
  from drain_finishes [OF sample_initial u(1-3)] u show ?thesis by fastforce
qed

definition committing_system :: system where
  "committing_system = \<lparr> compilers = (\<lambda>_. (compiler_new sample_inputs)\<lparr>comp_state := STATE_RUNNING\<rparr>),
     roles_cell = retained_role_state_default\<lparr>in_use := True\<rparr>,
     threads = (\<lambda>_. Resting)(0 := Prepared 0 (sample_call\<lparr>call_roles := True\<rparr>) taxonomy_batches) \<rparr>"

theorem roles_change_with_finish_witness:
  "\<exists>s'. step committing_system s' \<and> retained_roles (roles_cell committing_system) = owned_role_state_default \<and>
     (\<exists>k (b :: prepared_direct_batches). comp_state (compilers s' k) = STATE_FINISHED \<and>
        retained_roles (roles_cell s') = prep_role_state (preparation b))"
proof -
  let ?call = "sample_call\<lparr>call_roles := True\<rparr>" and ?c = "(compiler_new sample_inputs)\<lparr>comp_state := STATE_RUNNING\<rparr>"
  let ?r = "roles_cell committing_system" and ?roles = "prep_role_state (preparation taxonomy_batches)"
  have "turn 0 (Prepared 0 ?call taxonomy_batches) ?c ?r Resting
      (?c\<lparr>comp_state := STATE_FINISHED, comp_output := install taxonomy_batches 5, comp_origin := Some taxonomy_batches\<rparr>)
      (release_call ?call (?r\<lparr>retained_roles := ?roles\<rparr>))"
    by (rule turn.published [where next_state = "Some ?roles"])
      (simp_all add: sample_call_def next_roles_def taxonomy_option_values raised_def owned_try_clone_id commit_roles_def
        lock_roles_def finish_result_def committing_system_def retained_role_state_default_def compiler_new_def)
  then have "turn 0 (threads committing_system 0) (compilers committing_system 0) ?r Resting
      (?c\<lparr>comp_state := STATE_FINISHED, comp_output := install taxonomy_batches 5, comp_origin := Some taxonomy_batches\<rparr>)
      (release_call ?call (?r\<lparr>retained_roles := ?roles\<rparr>))" by (simp add: committing_system_def)
  from step.intros [OF this] obtain s' where s': "step committing_system s'"
    "roles_cell s' = release_call ?call (?r\<lparr>retained_roles := ?roles\<rparr>)" by fastforce
  then have "retained_roles (roles_cell s') = ?roles" by (simp add: release_call_def release_def sample_call_def)
  moreover have "retained_roles ?r = owned_role_state_default"
    by (simp add: committing_system_def retained_role_state_default_def)
  moreover have "?roles \<noteq> owned_role_state_default"
    by (simp add: taxonomy_batches_def taxonomy_preparation_def owned_role_state_default_def)
  ultimately have "retained_roles (roles_cell s') \<noteq> retained_roles ?r" by simp
  from roles_change_with_finish [OF s'(1) this] obtain k and b :: prepared_direct_batches where "comp_state (compilers s' k) = STATE_FINISHED"
    "retained_roles (roles_cell s') = prep_role_state (preparation b)" by blast
  with \<open>retained_roles ?r = owned_role_state_default\<close> s'(1) show ?thesis by blast
qed

end
