(* ===== verification/Run_Monad.thy ===== *)
theory Run_Monad
  imports Prelude
begin

text \<open>
  Computations with a budget: a method that takes \<open>&mut\<close> of a budget and may fail is a function of the
  budget that returns its result and the budget it leaves, after an error too.
\<close>

type_synonym ('s, 'a) run = "'s \<Rightarrow> 'a kres \<times> 's"

definition mret :: "'a \<Rightarrow> ('s, 'a) run" where
  "mret x b = (Inr x, b)"

definition mlift :: "'a kres \<Rightarrow> ('s, 'a) run" where
  "mlift r b = (r, b)"

definition mbnd :: "('s, 'a) run \<Rightarrow> ('a \<Rightarrow> ('s, 'b) run) \<Rightarrow> ('s, 'b) run" where
  "mbnd m f b = (case m b of (Inl e, b') \<Rightarrow> (Inl e, b') | (Inr x, b') \<Rightarrow> f x b')"

definition mseq :: "('s, 'a) run \<Rightarrow> ('s, 'b) run \<Rightarrow> ('s, 'b) run" where
  "mseq m k = mbnd m (\<lambda>_. k)"

text \<open>\<open>attempt\<close> binds the result of a computation without returning early on an error; \<open>on_error\<close>
  runs a handler when the computation fails and passes the error on.\<close>

definition attempt :: "('s, 'a) run \<Rightarrow> ('a kres \<Rightarrow> ('s, 'b) run) \<Rightarrow> ('s, 'b) run" where
  "attempt m k b = (case m b of (r, b') \<Rightarrow> k r b')"

definition on_error :: "('s, 'a) run \<Rightarrow> ('s, unit) run \<Rightarrow> ('s, 'a) run" where
  "on_error m cleanup = attempt m (\<lambda>r. case r of Inl e \<Rightarrow> mseq cleanup (mlift (Inl e)) | Inr x \<Rightarrow> mret x)"

fun mfold :: "('a \<Rightarrow> 't \<Rightarrow> ('s, 't) run) \<Rightarrow> 'a list \<Rightarrow> 't \<Rightarrow> ('s, 't) run" where
  "mfold f [] s = mret s"
| "mfold f (x # xs) s = mbnd (f x s) (mfold f xs)"

section \<open>Laws\<close>

lemma mret_run [simp]: "mret x b = (Inr x, b)"
  by (simp add: mret_def)

lemma mlift_run [simp]: "mlift r b = (r, b)"
  by (simp add: mlift_def)

lemma mbnd_run: "mbnd m f b = (r, b') \<longleftrightarrow>
    (\<exists>e. m b = (Inl e, b') \<and> r = Inl e) \<or> (\<exists>x b1. m b = (Inr x, b1) \<and> f x b1 = (r, b'))"
  by (auto simp: mbnd_def split: prod.splits sum.splits)

lemma mbnd_Inr: "mbnd m f b = (Inr y, b') \<longleftrightarrow> (\<exists>x b1. m b = (Inr x, b1) \<and> f x b1 = (Inr y, b'))"
  by (auto simp: mbnd_run)

lemma mseq_Inr: "mseq m k b = (Inr y, b') \<longleftrightarrow> (\<exists>x b1. m b = (Inr x, b1) \<and> k b1 = (Inr y, b'))"
  by (simp add: mseq_def mbnd_Inr)

lemma on_error_Inr: "on_error m cleanup b = (Inr y, b') \<longleftrightarrow> m b = (Inr y, b')"
  by (auto simp: on_error_def attempt_def mseq_def mbnd_run split: prod.splits sum.splits)

lemma attempt_run: "attempt m k b = (r, b') \<longleftrightarrow> (\<exists>r1 b1. m b = (r1, b1) \<and> k r1 b1 = (r, b'))"
  by (auto simp: attempt_def split: prod.splits)

lemmas metered_Inr = mbnd_Inr mseq_Inr on_error_Inr

lemma mbnd_cong [fundef_cong]:
  "b = b' \<Longrightarrow> m b' = m' b' \<Longrightarrow> (\<And>x b1. m' b' = (Inr x, b1) \<Longrightarrow> f x b1 = f' x b1) \<Longrightarrow> mbnd m f b = mbnd m' f' b'"
  by (auto simp: mbnd_def split: prod.splits sum.splits)

end
