(* ===== verification/Canonical_Budget.thy ===== *)
theory Canonical_Budget
  imports Columns Run_Monad
begin

text \<open>
  The work and workspace budget of the canonical merge (\<open>CanonicalBudget\<close> in the module
  \<open>canonical_merge\<close> of \<open>native/src/encoded_direct.rs\<close>) and the computations metered by it: a
  method with \<open>&mut CanonicalBudget\<close> is a function of the budget that returns its result and
  the budget it leaves, after an error too.

  \<open>canonical_allocator\<close> stands for what Rust leaves open: the size of an item of each vector type and
  the capacity a successful reservation yields (\<open>None\<close>: the reservation fails).
\<close>

section \<open>The budget\<close>

record canonical_budget =
  max_work :: usize
  max_workspace_bytes :: usize
  spent_work :: usize
  workspace_bytes :: usize
  peak_workspace_bytes :: usize
  canonical_bytes_compared :: usize
  roots_emitted :: usize
  deduplicated_roots :: usize

type_synonym 'a metered = "canonical_budget \<Rightarrow> 'a kres \<times> canonical_budget"

definition canonical_budget_new :: "usize \<Rightarrow> usize \<Rightarrow> canonical_budget kres" where
  "canonical_budget_new work_limit workspace_limit =
     (if work_limit = 0 then Inl Resource else if workspace_limit = 0 then Inl Resource else
      Inr \<lparr> max_work = work_limit, max_workspace_bytes = workspace_limit, spent_work = 0, workspace_bytes = 0,
            peak_workspace_bytes = 0, canonical_bytes_compared = 0, roots_emitted = 0, deduplicated_roots = 0 \<rparr>)"

definition consume :: "nat \<Rightarrow> usize \<Rightarrow> unit metered" where
  "consume st amount b =
     (if st = STATE_CANCELLED then (Inl Cancelled, b) else
      case checked_add (spent_work b) amount of
        None \<Rightarrow> (Inl Resource, b)
      | Some next_work \<Rightarrow>
          if next_work > max_work b then (Inl Resource, b) else (Inr (), b\<lparr>spent_work := next_work\<rparr>))"

definition claim_workspace :: "usize \<Rightarrow> unit metered" where
  "claim_workspace amount b = (case checked_add (workspace_bytes b) amount of
     None \<Rightarrow> (Inl Resource, b)
   | Some next_bytes \<Rightarrow>
       if next_bytes > max_workspace_bytes b then (Inl Resource, b)
       else (Inr (), b\<lparr>workspace_bytes := next_bytes,
                       peak_workspace_bytes := max (peak_workspace_bytes b) next_bytes\<rparr>))"

definition release_workspace :: "usize \<Rightarrow> unit metered" where
  "release_workspace amount b = (case checked_sub (workspace_bytes b) amount of
     None \<Rightarrow> (Inl Malformed, b)
   | Some rest \<Rightarrow> (Inr (), b\<lparr>workspace_bytes := rest\<rparr>))"

definition record_comparison_byte :: "unit metered" where
  "record_comparison_byte b = (case checked_add (canonical_bytes_compared b) 1 of
     None \<Rightarrow> (Inl Resource, b)
   | Some n \<Rightarrow> (Inr (), b\<lparr>canonical_bytes_compared := n\<rparr>))"

definition record_merged_root_duplicates :: "usize \<Rightarrow> unit metered" where
  "record_merged_root_duplicates duplicate_count b = (case checked_add (roots_emitted b) 1 of
     None \<Rightarrow> (Inl Resource, b)
   | Some emitted_roots \<Rightarrow> (case checked_add (deduplicated_roots b) duplicate_count of
       None \<Rightarrow> (Inl Resource, b)
     | Some dropped \<Rightarrow> (Inr (), b\<lparr>roots_emitted := emitted_roots, deduplicated_roots := dropped\<rparr>)))"

definition record_merged_root :: "bool \<Rightarrow> unit metered" where
  "record_merged_root deduplicated = record_merged_root_duplicates (if deduplicated then 1 else 0)"

section \<open>Allocations\<close>

datatype vector_kind = Lengths_Vec | Colors_Vec | Events_Vec | Tasks_Vec | Tables_Vec | Positions_Vec | Candidates_Vec

record canonical_allocator =
  item_bytes :: "vector_kind \<Rightarrow> usize"
  granted :: "vector_kind \<Rightarrow> usize \<Rightarrow> usize option"

definition allocation_bytes :: "canonical_allocator \<Rightarrow> vector_kind \<Rightarrow> usize \<Rightarrow> usize kres" where
  "allocation_bytes env kind capacity = ok_or Resource (checked_mul capacity (item_bytes env kind))"

text \<open>A fresh vector: its capacity and the bytes charged for it.\<close>

definition allocate_vector :: "canonical_allocator \<Rightarrow> vector_kind \<Rightarrow> usize \<Rightarrow> (usize \<times> usize) metered" where
  "allocate_vector env kind capacity =
     mbnd (mlift (allocation_bytes env kind capacity)) (\<lambda>requested_bytes.
     mseq (claim_workspace requested_bytes) (
     case granted env kind capacity of
       None \<Rightarrow> mseq (release_workspace requested_bytes) (mlift (Inl Resource))
     | Some actual \<Rightarrow>
         mbnd (mlift (allocation_bytes env kind actual)) (\<lambda>actual_bytes.
         mseq (if actual_bytes > requested_bytes
               then on_error (claim_workspace (actual_bytes - requested_bytes)) (release_workspace requested_bytes)
               else if actual_bytes < requested_bytes then release_workspace (requested_bytes - actual_bytes)
               else mret ())
           (mret (actual, actual_bytes)))))"

section \<open>Laws\<close>

text \<open>
  What every metered computation keeps: the limits, and that neither the work nor the workspace ever
  exceeds its limit, on the error paths too; the work only grows.
\<close>

definition within_limits :: "canonical_budget \<Rightarrow> bool" where
  "within_limits b \<longleftrightarrow> spent_work b \<le> max_work b \<and> workspace_bytes b \<le> peak_workspace_bytes b \<and>
     peak_workspace_bytes b \<le> max_workspace_bytes b"

definition spends :: "canonical_budget \<Rightarrow> canonical_budget \<Rightarrow> bool" where
  "spends b b' \<longleftrightarrow> max_work b' = max_work b \<and> max_workspace_bytes b' = max_workspace_bytes b \<and>
     spent_work b \<le> spent_work b' \<and> peak_workspace_bytes b \<le> peak_workspace_bytes b' \<and> (within_limits b \<longrightarrow> within_limits b')"

definition metering :: "'a metered \<Rightarrow> bool" where
  "metering m \<longleftrightarrow> (\<forall>b r b'. m b = (r, b') \<longrightarrow> spends b b')"

named_theorems metering_intros \<open>computations that stay within their budget\<close>

lemma spends_refl [simp]: "spends b b"
  by (simp add: spends_def)

lemma spends_trans: "spends a b \<Longrightarrow> spends b c \<Longrightarrow> spends a c"
  by (auto simp: spends_def)

lemma meteringD: "metering m \<Longrightarrow> m b = (r, b') \<Longrightarrow> spends b b'"
  by (simp add: metering_def)

lemma metering_mret [metering_intros]: "metering (mret x)"
  and metering_mlift [metering_intros]: "metering (mlift r)"
  by (simp_all add: metering_def)

lemma metering_mbnd [metering_intros]: "metering m \<Longrightarrow> (\<And>x. metering (f x)) \<Longrightarrow> metering (mbnd m f)"
  unfolding metering_def mbnd_run by (blast intro: spends_trans)

lemma metering_mseq [metering_intros]: "metering m \<Longrightarrow> metering k \<Longrightarrow> metering (mseq m k)"
  unfolding mseq_def by (rule metering_mbnd)

lemma metering_attempt [metering_intros]:
  assumes "metering m" and "\<And>r. metering (k r)"
  shows "metering (attempt m k)"
  unfolding metering_def attempt_def
proof (intro allI impI)
  fix b r b' assume "(case m b of (r, b1) \<Rightarrow> k r b1) = (r, b')"
  then obtain r1 b1 where "m b = (r1, b1)" and "k r1 b1 = (r, b')" by (auto split: prod.splits)
  then show "spends b b'" using assms by (metis meteringD spends_trans)
qed

lemma metering_case_sum: "(\<And>e. metering (f e)) \<Longrightarrow> (\<And>x. metering (g x)) \<Longrightarrow> metering (case r of Inl e \<Rightarrow> f e | Inr x \<Rightarrow> g x)"
  by (simp split: sum.split)

lemma metering_on_error [metering_intros]: "metering m \<Longrightarrow> metering cleanup \<Longrightarrow> metering (on_error m cleanup)"
  unfolding on_error_def by (intro metering_attempt metering_case_sum metering_mseq metering_mlift metering_mret)

lemma metering_mfold [metering_intros]: "(\<And>x s. metering (f x s)) \<Longrightarrow> metering (mfold f xs s)"
  by (induction xs arbitrary: s) (auto intro: metering_intros)

lemma metering_consume [metering_intros]: "metering (consume st amount)"
  by (auto simp: metering_def consume_def spends_def within_limits_def checked_add_def split: if_splits option.splits)

lemma metering_claim [metering_intros]: "metering (claim_workspace amount)"
  by (auto simp: metering_def claim_workspace_def spends_def within_limits_def checked_add_def split: if_splits option.splits)

lemma metering_release [metering_intros]: "metering (release_workspace amount)"
  by (auto simp: metering_def release_workspace_def spends_def within_limits_def checked_sub_def split: if_splits option.splits)

lemma metering_comparison_byte [metering_intros]: "metering record_comparison_byte"
  by (auto simp: metering_def record_comparison_byte_def spends_def within_limits_def split: if_splits option.splits)

lemma metering_record_merged_root_duplicates [metering_intros]: "metering (record_merged_root_duplicates n)"
  by (auto simp: metering_def record_merged_root_duplicates_def spends_def within_limits_def split: if_splits option.splits)

lemma metering_record_merged_root [metering_intros]: "metering (record_merged_root d)"
  unfolding record_merged_root_def by (rule metering_record_merged_root_duplicates)

lemma metering_if [metering_intros]: "(P \<Longrightarrow> metering m) \<Longrightarrow> (\<not> P \<Longrightarrow> metering k) \<Longrightarrow> metering (if P then m else k)"
  by simp

lemma metering_allocate_vector [metering_intros]: "metering (allocate_vector env kind capacity)"
  unfolding allocate_vector_def by (auto intro!: metering_intros split: option.split)

lemma consume_Inr: "consume st amount b = (Inr u, b') \<longleftrightarrow> st \<noteq> STATE_CANCELLED \<and>
    fits (spent_work b + amount) \<and> spent_work b + amount \<le> max_work b \<and> b' = b\<lparr>spent_work := spent_work b + amount\<rparr>"
  by (auto simp: consume_def checked_add_def split: if_splits)

text \<open>A loop whose body consumes work ends: the work left is a measure.\<close>

definition work_left :: "canonical_budget \<Rightarrow> nat" where
  "work_left b = max_work b - spent_work b"

lemma consume_progress:
  assumes "consume st amount b = (Inr u, b1)" and "0 < amount" and "spends b1 b'"
  shows "work_left b' < work_left b"
  using assms by (auto simp: consume_Inr work_left_def spends_def)

end
