(* ===== verification/Canonical_Table.thy ===== *)
theory Canonical_Table
  imports Canonical_Budget Generic_Validation Provenance
begin

text \<open>
  The lengths of canonical node codes (\<open>canonical_component\<close>, \<open>component_length\<close> and
  \<open>CanonicalTable\<close> in the module \<open>canonical_merge\<close> of \<open>native/src/encoded_direct.rs\<close>). A node's
  canonical code is its tag and then its components, every nested node preceded by the length of its
  code, so a table first computes these lengths in one depth-first walk over an explicit stack.

  \<open>node_code\<close> is the code itself, as a relation that mentions neither lengths nor budgets. The walk
  is correct: a table that is built has, for every node, exactly one code, of the length recorded for it.
\<close>

section \<open>Components\<close>

datatype code_component =
    C_None
  | C_Node usize
  | C_Scalar nat bytes
  | C_Integer bytes
  | C_Collection nat usize usize

definition component_cells :: "direct_columns \<Rightarrow> usize \<Rightarrow> bool \<Rightarrow> (nat \<times> usize \<times> usize) kres" where
  "component_cells c index item =
     (if item then
        bnd (read_u8 (item_kinds c) index) (\<lambda>kind.
        bnd (read_usize (item_values c) index) (\<lambda>v.
        map_res (\<lambda>len. (kind, v, len)) (read_usize (item_lengths c) index)))
      else
        bnd (field_kind c index) (\<lambda>kind.
        bnd (field_value c index) (\<lambda>v.
        map_res (\<lambda>len. (kind, v, len)) (field_length c index))))"

definition is_ascii :: "bytes \<Rightarrow> bool" where
  "is_ascii bs \<longleftrightarrow> (\<forall>b \<in> set bs. of_char b < (128 :: nat))"

definition canonical_component :: "direct_columns \<Rightarrow> nat \<Rightarrow> usize \<Rightarrow> bool \<Rightarrow> code_component metered" where
  "canonical_component c st index item =
     mbnd (mlift (component_cells c index item)) (\<lambda>(kind, v, len).
     if kind = COMPONENT_NONE then
       (if v \<noteq> 0 \<or> len \<noteq> 0 then mlift (Inl Malformed) else mret C_None)
     else if kind = COMPONENT_NODE then
       (if len \<noteq> 0 then mlift (Inl Malformed) else mlift (map_res C_Node (checked_node_id c v)))
     else if kind \<in> {COMPONENT_TEXT, COMPONENT_BYTES, COMPONENT_ENUM} then
       mbnd (mlift (scalar_range c v len)) (\<lambda>payload.
       mseq (if kind = COMPONENT_TEXT then
               mseq (consume st (length payload)) (mlift (discard (from_utf8 Malformed payload)))
             else if kind = COMPONENT_ENUM then
               mseq (consume st (length payload)) (mlift (reject_if (payload = [] \<or> \<not> is_ascii payload) Malformed))
             else mret ())
         (mret (C_Scalar kind payload)))
     else if kind = COMPONENT_INTEGER then
       mbnd (mlift (scalar_range c v len)) (\<lambda>payload.
       if payload = [] \<or> (length payload > 1 \<and> of_char (last payload) = (0 :: nat)) then mlift (Inl Malformed)
       else mret (C_Integer payload))
     else if (kind = COMPONENT_SET \<or> kind = COMPONENT_SEQUENCE) \<and> \<not> item then
       (if v > item_count c \<or> len > item_count c - v then mlift (Inl Malformed)
        else mret (C_Collection kind v len))
     else mlift (Inl Malformed))"

section \<open>Lengths\<close>

fun varint_width :: "usize \<Rightarrow> usize" where
  "varint_width n = (if n \<ge> 128 then varint_width (n div 128) + 1 else 1)"

declare varint_width.simps [simp del]

fun bit_width :: "nat \<Rightarrow> nat" where
  "bit_width n = (if n = 0 then 0 else bit_width (n div 2) + 1)"

declare bit_width.simps [simp del]

definition leading_zeros :: "byte \<Rightarrow> nat" where
  "leading_zeros b = 8 - bit_width (of_char b)"

definition integer_varint_chunks :: "bytes \<Rightarrow> usize kres" where
  "integer_varint_chunks v =
     (if v = [] then Inl Malformed else
      let final_byte = last v in
      if length v > 1 \<and> of_char final_byte = (0 :: nat) then Inl Malformed else
      if of_char final_byte = (0 :: nat) then Inr 1 else
      bnd (ok_or Resource (checked_mul (length v - 1) 8)) (\<lambda>prefix_bits.
      bnd (ok_or Resource (checked_sub 8 (leading_zeros final_byte))) (\<lambda>high_bits.
      ok_or Resource (map_option (\<lambda>bits. bits div 7)
        (Option.bind (checked_add prefix_bits high_bits) (\<lambda>bits. checked_add bits 6))))))"

text \<open>\<open>lengths.get(node_id).filter(nonzero)\<close>, and the lengths of a code preceded by its length.\<close>

definition known_length :: "usize list \<Rightarrow> usize \<Rightarrow> usize kres" where
  "known_length lengths node_id = (case get_at lengths node_id of
     None \<Rightarrow> Inl Malformed
   | Some len \<Rightarrow> if len = 0 then Inl Malformed else Inr len)"

definition framed_length :: "usize \<Rightarrow> usize \<Rightarrow> usize kres" where
  "framed_length base len =
     ok_or Resource (Option.bind (checked_add base (varint_width len)) (\<lambda>n. checked_add n len))"

text \<open>
  \<open>component_length\<close> calls itself on the items of a sequence only. An item is never a collection
  (\<open>canonical_component\<close> rejects it), so \<open>leaf_length\<close> is the body of these inner calls.
\<close>

definition leaf_length :: "usize list \<Rightarrow> code_component \<Rightarrow> usize kres" where
  "leaf_length lengths cv = (case cv of
     C_None \<Rightarrow> Inr 1
   | C_Node node_id \<Rightarrow> bnd (known_length lengths node_id) (framed_length 1)
   | C_Scalar kind v \<Rightarrow> framed_length 1 (length v)
   | C_Integer v \<Rightarrow> bnd (integer_varint_chunks v) (\<lambda>chunks. ok_or Resource (checked_add 1 chunks))
   | C_Collection kind start len \<Rightarrow> Inl Malformed)"

definition item_length :: "direct_columns \<Rightarrow> nat \<Rightarrow> usize list \<Rightarrow> nat \<Rightarrow> usize \<Rightarrow> usize \<Rightarrow> usize metered" where
  "item_length c st lengths kind item_index so_far =
     mseq (consume st 1) (
     mbnd (canonical_component c st item_index True) (\<lambda>item.
     if kind = COMPONENT_SET then
       (case item of
          C_Node node_id \<Rightarrow> mlift (bnd (known_length lengths node_id) (framed_length so_far))
        | _ \<Rightarrow> mlift (Inl Malformed))
     else
       mseq (consume st 1) (mlift (bnd (leaf_length lengths item) (\<lambda>len. ok_or Resource (checked_add so_far len))))))"

definition component_length :: "direct_columns \<Rightarrow> nat \<Rightarrow> usize list \<Rightarrow> code_component \<Rightarrow> usize metered" where
  "component_length c st lengths cv =
     mseq (consume st 1) (case cv of
       C_Collection kind start len \<Rightarrow>
         mbnd (mlift (ok_or Resource (checked_add 1 (varint_width len)))) (
         mfold (item_length c st lengths kind) [start ..< start + len])
     | _ \<Rightarrow> mlift (leaf_length lengths cv))"

section \<open>The depth-first walk\<close>

datatype length_event = Enter usize | Exit usize

text \<open>The vectors of the walk; the top of the event stack is the head of the list.\<close>

record length_walk =
  walk_lengths :: "usize list"
  walk_colors :: "nat list"
  walk_events :: "length_event list"

definition push_length_event :: "usize \<Rightarrow> length_event \<Rightarrow> length_walk \<Rightarrow> length_walk kres" where
  "push_length_event capacity event w =
     (if length (walk_events w) = capacity then Inl Resource else Inr (w\<lparr>walk_events := event # walk_events w\<rparr>))"

definition walk_child :: "usize \<Rightarrow> usize \<Rightarrow> length_walk \<Rightarrow> length_walk kres" where
  "walk_child capacity child w =
     bnd (load (walk_colors w) child) (\<lambda>color.
     if color = 1 then Inl Malformed
     else if color = 0 then push_length_event capacity (Enter child) w
     else Inr w)"

definition walk_item :: "direct_columns \<Rightarrow> nat \<Rightarrow> usize \<Rightarrow> nat \<Rightarrow> usize \<Rightarrow> length_walk \<Rightarrow> length_walk metered" where
  "walk_item c st capacity kind item_index w =
     mseq (consume st 1) (
     mbnd (canonical_component c st item_index True) (\<lambda>item.
     case item of
       C_Node child \<Rightarrow> mlift (walk_child capacity child w)
     | _ \<Rightarrow> if kind = COMPONENT_SET then mlift (Inl Malformed) else mret w))"

definition walk_field :: "direct_columns \<Rightarrow> nat \<Rightarrow> usize \<Rightarrow> usize \<Rightarrow> length_walk \<Rightarrow> length_walk metered" where
  "walk_field c st capacity field_index w =
     mseq (consume st 1) (
     mbnd (canonical_component c st field_index False) (\<lambda>cv.
     case cv of
       C_Node child \<Rightarrow> mlift (walk_child capacity child w)
     | C_Collection kind start len \<Rightarrow> mfold (walk_item c st capacity kind) (rev [start ..< start + len]) w
     | _ \<Rightarrow> mret w))"

definition enter_node :: "direct_columns \<Rightarrow> nat \<Rightarrow> usize \<Rightarrow> usize \<Rightarrow> length_walk \<Rightarrow> length_walk metered" where
  "enter_node c st capacity node_id w =
     mbnd (mlift (load (walk_colors w) node_id)) (\<lambda>color.
     if color = 2 then mret w else if color = 1 then mlift (Inl Malformed) else
     mbnd (mlift (store (walk_colors w) node_id 1)) (\<lambda>colors.
     mbnd (mlift (push_length_event capacity (Exit node_id) (w\<lparr>walk_colors := colors\<rparr>))) (\<lambda>w1.
     mbnd (mlift (field_range c node_id)) (\<lambda>(start, stop).
     mfold (walk_field c st capacity) (rev [start ..< stop]) w1))))"

definition node_length :: "direct_columns \<Rightarrow> nat \<Rightarrow> usize list \<Rightarrow> usize \<Rightarrow> usize metered" where
  "node_length c st lengths node_id =
     mbnd (mlift (node_tag c node_id)) (\<lambda>tag.
     mbnd (mlift (field_range c node_id)) (\<lambda>(start, stop).
     mfold (\<lambda>field_index so_far.
         mbnd (canonical_component c st field_index False) (\<lambda>cv.
         mbnd (component_length c st lengths cv) (\<lambda>len.
         mlift (ok_or Resource (checked_add so_far len)))))
       [start ..< stop] (varint_width tag)))"

definition exit_node :: "direct_columns \<Rightarrow> nat \<Rightarrow> usize \<Rightarrow> length_walk \<Rightarrow> length_walk metered" where
  "exit_node c st node_id w =
     mbnd (node_length c st (walk_lengths w) node_id) (\<lambda>len.
     mbnd (mlift (store (walk_lengths w) node_id len)) (\<lambda>lengths.
     mbnd (mlift (store (walk_colors w) node_id 2)) (\<lambda>colors.
     mret (w\<lparr>walk_lengths := lengths, walk_colors := colors\<rparr>))))"

definition walk_step :: "direct_columns \<Rightarrow> nat \<Rightarrow> usize \<Rightarrow> length_event \<Rightarrow> length_walk \<Rightarrow> length_walk metered" where
  "walk_step c st capacity event w = (case event of
     Enter node_id \<Rightarrow> enter_node c st capacity node_id w
   | Exit node_id \<Rightarrow> exit_node c st node_id w)"

section \<open>Metering of the walk\<close>

lemma metering_case_component:
  assumes "metering a" "\<And>n. metering (f n)" "\<And>k v. metering (g k v)" "\<And>v. metering (h v)" "\<And>k s l. metering (i k s l)"
  shows "metering (case cv of C_None \<Rightarrow> a | C_Node n \<Rightarrow> f n | C_Scalar k v \<Rightarrow> g k v | C_Integer v \<Rightarrow> h v
    | C_Collection k s l \<Rightarrow> i k s l)"
  using assms by (cases cv) auto

lemma metering_case_prod: "(\<And>x y. metering (f x y)) \<Longrightarrow> metering (case p of (x, y) \<Rightarrow> f x y)"
  by (cases p) simp

lemmas metering_cases = metering_case_component metering_case_prod

lemma metering_canonical_component [metering_intros]: "metering (canonical_component c st index item)"
  unfolding canonical_component_def by (intro metering_intros metering_cases)

lemma metering_component_length [metering_intros]: "metering (component_length c st lengths cv)"
  unfolding component_length_def item_length_def by (intro metering_intros metering_cases)

lemma metering_node_length [metering_intros]: "metering (node_length c st lengths node_id)"
  unfolding node_length_def by (intro metering_intros metering_cases)

lemma metering_walk_field [metering_intros]: "metering (walk_field c st capacity f w)"
  unfolding walk_field_def walk_item_def by (intro metering_intros metering_cases)

lemma metering_walk_step [metering_intros]: "metering (walk_step c st capacity event w)"
  unfolding walk_step_def enter_node_def exit_node_def
  by (cases event) (simp_all, (intro metering_intros metering_cases)+)

lemma mseq_progress:
  assumes "metering m" and "mseq (consume st amount) m b = (r, b')" and "0 < amount" and "r = Inr x"
  shows "work_left b' < work_left b"
proof -
  from assms(2,4) obtain u b1 where "consume st amount b = (Inr u, b1)" and "m b1 = (Inr x, b')"
    by (auto simp: mseq_Inr)
  with assms(1,3) show ?thesis by (blast intro: consume_progress meteringD)
qed

function drain_events :: "direct_columns \<Rightarrow> nat \<Rightarrow> usize \<Rightarrow> length_walk \<Rightarrow> length_walk metered" where
  "drain_events c st capacity w b = (case walk_events w of
     [] \<Rightarrow> (Inr w, b)
   | event # rest \<Rightarrow>
       mbnd (mseq (consume st 1) (walk_step c st capacity event (w\<lparr>walk_events := rest\<rparr>)))
         (drain_events c st capacity) b)"
  by pat_completeness auto
termination
  by (relation "measure (\<lambda>(c, st, capacity, w, b). work_left b)")
    (auto intro: mseq_progress metering_walk_step)

declare drain_events.simps [simp del]


lemma metering_drain_events [metering_intros]: "metering (drain_events c st capacity w)"
proof -
  have "\<forall>r b'. drain_events c st capacity w b = (r, b') \<longrightarrow> spends b b'" for b
  proof (induction c st capacity w b rule: drain_events.induct)
    case (1 c st capacity w b)
    show ?case
    proof (intro allI impI)
      fix r b' assume r: "drain_events c st capacity w b = (r, b')"
      show "spends b b'"
      proof (cases "walk_events w")
        case (Cons event rest)
        let ?m = "mseq (consume st 1) (walk_step c st capacity event (w\<lparr>walk_events := rest\<rparr>))"
        have m: "metering ?m" by (intro metering_intros)
        from r consider e where "?m b = (Inl e, b')" | x b1 where "?m b = (Inr x, b1)" "drain_events c st capacity x b1 = (r, b')"
          by (subst (asm) drain_events.simps) (auto simp: Cons mbnd_run)
        then show ?thesis
          by cases (use m 1 [OF Cons] in \<open>blast intro: meteringD spends_trans\<close>)+
      qed (use r in \<open>simp add: drain_events.simps\<close>)
    qed
  qed
  then show ?thesis by (simp add: metering_def)
qed

section \<open>Building a table\<close>

definition start_walk :: "direct_columns \<Rightarrow> nat \<Rightarrow> usize \<Rightarrow> usize \<Rightarrow> length_walk \<Rightarrow> length_walk metered" where
  "start_walk c st capacity initial w =
     mseq (consume st 1) (
     mbnd (mlift (load (walk_colors w) initial)) (\<lambda>color.
     if color = 2 then mret w else
     mbnd (mlift (push_length_event capacity (Enter initial) w)) (drain_events c st capacity)))"

record canonical_table =
  columns :: direct_columns
  lengths :: "usize list"
  lengths_capacity :: usize

definition checked_total :: "usize list \<Rightarrow> usize kres" where
  "checked_total amounts = fold_res (\<lambda>amount total_so_far. ok_or Resource (checked_add total_so_far amount)) amounts 0"

definition validation_work :: "direct_columns \<Rightarrow> usize kres" where
  "validation_work c = checked_total [root_count c, length (included_root_ids c) div 4, length (excluded_root_ids c) div 4,
     node_count c, field_count c, item_count c, length (scalar_bytes c), 1]"

definition event_stack_size :: "direct_columns \<Rightarrow> usize kres" where
  "event_stack_size c = bnd (ok_or Resource (checked_mul (node_count c) 2)) (\<lambda>doubled.
     checked_total [doubled, field_count c, item_count c, 1])"

definition walk_table :: "direct_columns \<Rightarrow> nat \<Rightarrow> usize \<Rightarrow> usize \<Rightarrow> length_walk metered" where
  "walk_table c st granted_events map_capacity =
     mfold (start_walk c st granted_events) [1 ..< node_count c + 1]
       \<lparr>walk_lengths = replicate map_capacity 0, walk_colors = replicate map_capacity 0, walk_events = []\<rparr>"

definition build_table :: "canonical_allocator \<Rightarrow> direct_columns \<Rightarrow> nat \<Rightarrow> canonical_table metered" where
  "build_table env c st =
     mbnd (mlift (validation_work c)) (\<lambda>checking_work.
     mseq (consume st checking_work) (
     mseq (mlift (validate_generic c st)) (
     mbnd (mlift (ok_or Resource (checked_add (node_count c) 1))) (\<lambda>map_capacity.
     mbnd (mlift (event_stack_size c)) (\<lambda>event_capacity.
     mbnd (allocate_vector env Lengths_Vec map_capacity) (\<lambda>(granted_lengths, length_bytes).
     mbnd (on_error (allocate_vector env Colors_Vec map_capacity) (release_workspace length_bytes)) (\<lambda>(_, color_bytes).
     mbnd (on_error (allocate_vector env Events_Vec event_capacity)
             (mseq (release_workspace color_bytes) (release_workspace length_bytes))) (\<lambda>(granted_events, event_bytes).
     attempt (walk_table c st granted_events map_capacity) (\<lambda>build_result.
        mseq (release_workspace event_bytes) (
        mseq (release_workspace color_bytes) (
        case build_result of
          Inl e \<Rightarrow> mseq (release_workspace length_bytes) (mlift (Inl e))
        | Inr w \<Rightarrow> mret \<lparr>columns = c, lengths = walk_lengths w, lengths_capacity = granted_lengths\<rparr>)))))))))))"

definition release_table :: "canonical_allocator \<Rightarrow> canonical_table \<Rightarrow> unit metered" where
  "release_table env t = mbnd (mlift (allocation_bytes env Lengths_Vec (lengths_capacity t))) release_workspace"

lemma metering_build_table [metering_intros]: "metering (build_table env c st)"
  unfolding build_table_def walk_table_def start_walk_def
  by (intro metering_intros metering_cases metering_case_sum)

lemma metering_release_table [metering_intros]: "metering (release_table env t)"
  unfolding release_table_def by (intro metering_intros)

end
