(* ===== verification/Canonical_Code.thy ===== *)
theory Canonical_Code
  imports Canonical_Table
begin

text \<open>
  The canonical code of a node, as a reference for the length walk and the byte cursor of the module
  \<open>canonical_merge\<close>. \<open>node_code c n code\<close> says that \<open>code\<close> is the code of node \<open>n\<close>: the varint of its
  tag followed by the codes of its components. A component's code starts with its kind; the code of a
  nested node is preceded by its length, an integer is written as the varint of its little-endian
  value, and the document scope of an anonymous individual is remapped first. A node on a reference
  cycle has no code, and no node has two.
\<close>

section \<open>Components and their codes\<close>

text \<open>What the cells of a field or an item denote, without the checks of \<open>canonical_component\<close>.\<close>

definition component_at :: "direct_columns \<Rightarrow> usize \<Rightarrow> bool \<Rightarrow> code_component kres" where
  "component_at c index item = map_res (\<lambda>(kind, v, len).
     if kind = COMPONENT_NONE then C_None
     else if kind = COMPONENT_NODE then C_Node v
     else if kind = COMPONENT_SET \<or> kind = COMPONENT_SEQUENCE then C_Collection kind v len
     else if kind = COMPONENT_INTEGER then C_Integer (take len (drop v (scalar_bytes c)))
     else C_Scalar kind (take len (drop v (scalar_bytes c)))) (component_cells c index item)"

definition remapped_scope :: "direct_columns \<Rightarrow> bytes \<Rightarrow> bytes" where
  "remapped_scope c v = (case remap_anonymous_scope c v of Inl _ \<Rightarrow> v | Inr v' \<Rightarrow> v')"

definition effective_component :: "direct_columns \<Rightarrow> bool \<Rightarrow> code_component \<Rightarrow> code_component" where
  "effective_component c remaps cv = (case cv of
     C_Scalar kind v \<Rightarrow> if remaps \<and> kind = COMPONENT_BYTES then C_Scalar kind (remapped_scope c v) else cv
   | _ \<Rightarrow> cv)"

definition framed :: "nat list \<Rightarrow> nat list" where
  "framed code = varint_encode (length code) @ code"

definition leaf_code :: "(usize \<Rightarrow> nat list \<Rightarrow> bool) \<Rightarrow> code_component \<Rightarrow> nat list \<Rightarrow> bool" where
  "leaf_code R cv code = (case cv of
     C_None \<Rightarrow> code = [COMPONENT_NONE]
   | C_Node n \<Rightarrow> (\<exists>child. R n child \<and> code = COMPONENT_NODE # framed child)
   | C_Scalar kind v \<Rightarrow> code = kind # framed (byte_values v)
   | C_Integer v \<Rightarrow> code = COMPONENT_INTEGER # varint_encode (le_value v)
   | C_Collection kind start len \<Rightarrow> False)"

definition item_code :: "(usize \<Rightarrow> nat list \<Rightarrow> bool) \<Rightarrow> direct_columns \<Rightarrow> nat \<Rightarrow> usize \<Rightarrow> nat list \<Rightarrow> bool" where
  "item_code R c kind i code \<longleftrightarrow>
     (if kind = COMPONENT_SET then \<exists>n child. component_at c i True = Inr (C_Node n) \<and> R n child \<and> code = framed child
      else \<exists>cv. component_at c i True = Inr cv \<and> leaf_code R cv code)"

definition component_code :: "(usize \<Rightarrow> nat list \<Rightarrow> bool) \<Rightarrow> direct_columns \<Rightarrow> code_component \<Rightarrow> nat list \<Rightarrow> bool" where
  "component_code R c cv code = (case cv of
     C_Collection kind start len \<Rightarrow> \<exists>codes. list_all2 (item_code R c kind) [start ..< start + len] codes \<and>
       code = kind # varint_encode len @ concat codes
   | _ \<Rightarrow> leaf_code R cv code)"

definition field_code :: "(usize \<Rightarrow> nat list \<Rightarrow> bool) \<Rightarrow> direct_columns \<Rightarrow> nat \<Rightarrow> usize \<Rightarrow> usize \<Rightarrow> nat list \<Rightarrow> bool" where
  "field_code R c tag start f code \<longleftrightarrow> (\<exists>cv. component_at c f False = Inr cv \<and>
     component_code R c (effective_component c (tag = TAG_ANONYMOUS_INDIVIDUAL \<and> f = start) cv) code)"

lemma leaf_code_mono: "R \<le> S \<Longrightarrow> leaf_code R cv code \<Longrightarrow> leaf_code S cv code"
  unfolding leaf_code_def by (cases cv) (auto simp: le_fun_def)

lemma item_code_mono: "R \<le> S \<Longrightarrow> item_code R c kind i code \<Longrightarrow> item_code S c kind i code"
  unfolding item_code_def by (auto simp: le_fun_def split: if_splits dest: leaf_code_mono [unfolded le_fun_def, simplified])

lemma component_code_mono: "R \<le> S \<Longrightarrow> component_code R c cv code \<Longrightarrow> component_code S c cv code"
  unfolding component_code_def
  by (cases cv) (auto dest: leaf_code_mono intro: item_code_mono list_all2_mono)

lemma field_code_mono [mono]: "R \<le> S \<Longrightarrow> field_code R c tag start f code \<longrightarrow> field_code S c tag start f code"
  unfolding field_code_def by (auto dest: component_code_mono)

inductive node_code :: "direct_columns \<Rightarrow> usize \<Rightarrow> nat list \<Rightarrow> bool" for c where
  node_codeI: "node_tag c n = Inr tag \<Longrightarrow> field_range c n = Inr (start, stop) \<Longrightarrow>
    list_all2 (\<lambda>f code. field_code (node_code c) c tag start f code) [start ..< stop] codes \<Longrightarrow>
    node_code c n (varint_encode tag @ concat codes)"

section \<open>Codes are unique\<close>

lemma list_all2_unique:
  assumes "list_all2 P xs ys" and "list_all2 Q xs zs"
    and "\<And>x y z. x \<in> set xs \<Longrightarrow> P x y \<Longrightarrow> Q x z \<Longrightarrow> y = z"
  shows "ys = zs"
  using assms
proof (induction xs ys arbitrary: zs rule: list_all2_induct)
  case (Cons x xs y ys)
  then show ?case by (cases zs) auto
qed simp

definition unique_on :: "(usize \<Rightarrow> nat list \<Rightarrow> bool) \<Rightarrow> (usize \<Rightarrow> nat list \<Rightarrow> bool) \<Rightarrow> bool" where
  "unique_on R S \<longleftrightarrow> (\<forall>n x y. R n x \<longrightarrow> S n y \<longrightarrow> x = y)"

lemma leaf_code_unique: "unique_on R S \<Longrightarrow> leaf_code R cv x \<Longrightarrow> leaf_code S cv y \<Longrightarrow> x = y"
  unfolding leaf_code_def unique_on_def by (cases cv) auto

lemma item_code_unique: "unique_on R S \<Longrightarrow> item_code R c kind i x \<Longrightarrow> item_code S c kind i y \<Longrightarrow> x = y"
  unfolding item_code_def using leaf_code_unique [of R S] unfolding unique_on_def by (fastforce split: if_splits)

lemma component_code_unique:
  assumes u: "unique_on R S" and "component_code R c cv x" and "component_code S c cv y"
  shows "x = y"
proof (cases cv)
  case (C_Collection kind start len)
  with assms(2,3) obtain codes codes' where
    "list_all2 (item_code R c kind) [start ..< start + len] codes" "x = kind # varint_encode len @ concat codes"
    "list_all2 (item_code S c kind) [start ..< start + len] codes'" "y = kind # varint_encode len @ concat codes'"
    by (auto simp: component_code_def)
  with list_all2_unique [OF this(1,3) item_code_unique [OF u]] show ?thesis by simp
qed (use assms leaf_code_unique [OF u] in \<open>simp_all add: component_code_def\<close>)

lemma node_code_unique: "node_code c n x \<Longrightarrow> node_code c n y \<Longrightarrow> x = y"
proof (induction arbitrary: y rule: node_code.induct)
  case (node_codeI n tag start stop codes)
  from node_codeI.prems obtain codes' where y: "y = varint_encode tag @ concat codes'"
    and l: "list_all2 (field_code (node_code c) c tag start) [start ..< stop] codes'"
    using node_codeI.hyps by (auto elim!: node_code.cases)
  let ?R = "\<lambda>n code. node_code c n code \<and> (\<forall>z. node_code c n z \<longrightarrow> code = z)"
  have u: "unique_on ?R (node_code c)" by (auto simp: unique_on_def)
  have "codes = codes'"
  proof (rule list_all2_unique [OF node_codeI.IH l])
    fix f a b assume "field_code ?R c tag start f a" and "field_code (node_code c) c tag start f b"
    then show "a = b" unfolding field_code_def by (auto intro: component_code_unique [OF u])
  qed
  with y show ?case by simp
qed

section \<open>Varint widths\<close>

lemma varint_width: "varint_width n = length (varint_encode n)"
  by (induction n rule: varint_width.induct) (subst varint_width.simps, subst varint_encode.simps, simp)

lemma bit_width_shift: "n div 2 ^ k \<noteq> 0 \<Longrightarrow> bit_width n = bit_width (n div 2 ^ k) + k"
proof (induction k)
  case (Suc k)
  have e: "n div 2 ^ Suc k = n div 2 ^ k div 2" by (metis div_mult2_eq mult.commute power_Suc)
  with Suc.prems have "n div 2 ^ k \<noteq> 0" by auto
  moreover from this have "bit_width (n div 2 ^ k) = bit_width (n div 2 ^ Suc k) + 1"
    unfolding e by (subst bit_width.simps) simp
  ultimately show ?case using Suc.IH by simp
qed simp

lemma bit_width_pos: "0 < n \<Longrightarrow> 0 < bit_width n"
  by (subst bit_width.simps) simp

lemma bit_width_bound: "n < 2 ^ k \<Longrightarrow> bit_width n \<le> k"
proof (induction k arbitrary: n)
  case (Suc k)
  then have "bit_width (n div 2) \<le> k" by simp
  then show ?case by (subst bit_width.simps) simp
qed (simp add: bit_width.simps)

lemma varint_length_bits: "0 < n \<Longrightarrow> length (varint_encode n) = (bit_width n + 6) div 7"
proof (induction n rule: varint_encode.induct)
  case (1 n)
  show ?case
  proof (cases "n < 128")
    case True
    then have "0 < bit_width n" "bit_width n \<le> 7" using 1 bit_width_pos bit_width_bound [of n 7] by auto
    then have "(bit_width n + 6) div 7 = 1" by (intro div_nat_eqI) auto
    with True show ?thesis by (simp add: varint_encode.simps)
  next
    case False
    then have p: "0 < n div 128" by simp
    have "bit_width n = bit_width (n div 128) + 7" using bit_width_shift [of n 7] p by simp
    moreover have "length (varint_encode n) = Suc (length (varint_encode (n div 128)))"
      using False by (subst varint_encode.simps) simp
    moreover have "(bit_width (n div 128) + 7 + 6) div 7 = Suc ((bit_width (n div 128) + 6) div 7)" by presburger
    ultimately show ?thesis using 1 False p by simp
  qed
qed

lemma bit_width_le_value:
  "v \<noteq> [] \<Longrightarrow> of_char (last v) \<noteq> (0 :: nat) \<Longrightarrow> bit_width (le_value v) = 8 * (length v - 1) + bit_width (of_char (last v))"
proof (induction v)
  case (Cons b v)
  show ?case
  proof (cases "v = []")
    case False
    have b: "of_char b < (256 :: nat)" using of_char_of [of "of_char b :: nat"] by simp
    have ih: "bit_width (le_value v) = 8 * (length v - 1) + bit_width (of_char (last v))"
      using Cons False by simp
    moreover from Cons.prems False have "0 < bit_width (of_char (last v))" by (simp add: bit_width_pos)
    ultimately have "le_value v \<noteq> 0" by (metis add_gr_0 bit_width.simps less_numeral_extra(3))
    moreover have d: "le_value (b # v) div 2 ^ 8 = le_value v" using b by simp
    ultimately have "bit_width (le_value (b # v)) = bit_width (le_value v) + 8"
      using bit_width_shift [of "le_value (b # v)" 8] by simp
    with ih False show ?thesis by (cases v) auto
  qed simp
qed simp

lemma le_value_zero_byte: "le_value [b] = of_char b"
  by simp

text \<open>The number of chunks \<open>integer_varint_chunks\<close> computes from the payload is the varint width of its value.\<close>

lemma integer_varint_chunks:
  assumes "integer_varint_chunks v = Inr k"
  shows "k = length (varint_encode (le_value v))"
proof -
  from assms have ne: "v \<noteq> []" and m: "\<not> (length v > 1 \<and> of_char (last v) = (0 :: nat))"
    by (auto simp: integer_varint_chunks_def Let_def split: if_splits)
  show ?thesis
  proof (cases "of_char (last v) = (0 :: nat)")
    case True
    with m ne obtain b where "v = [b]" by (cases v rule: rev_cases) auto
    with True assms show ?thesis
      by (simp add: integer_varint_chunks_def varint_encode.simps)
  next
    case False
    have "of_char (last v) < (2 :: nat) ^ 8" by simp
    from bit_width_bound [OF this] have w: "8 - leading_zeros (last v) = bit_width (of_char (last v))"
      by (simp add: leading_zeros_def)
    have "bit_width (le_value v) = 8 * (length v - 1) + bit_width (of_char (last v))"
      using bit_width_le_value [OF ne False] .
    moreover from this bit_width_pos [of "of_char (last v)"] False have "0 < le_value v"
      by (metis add_gr_0 bit_width.simps gr0I neq0_conv)
    moreover from assms ne m False w have "k = ((length v - 1) * 8 + bit_width (of_char (last v)) + 6) div 7"
      by (auto simp: integer_varint_chunks_def Let_def bnd_eq_Inr ok_or_eq_Inr res_simps Option.bind_eq_Some_conv split: if_splits)
    ultimately show ?thesis by (simp add: varint_length_bits mult.commute)
  qed
qed

end
