(* ===== verification/Canonical_Lengths.thy ===== *)
theory Canonical_Lengths
  imports Canonical_Code
begin

text \<open>
  The length walk of \<open>CanonicalTable::build\<close> against the reference codes: every length it records is the
  length of the node's code, so on success every node has a code, and the reference graph has no
  cycle. Remapping a document scope does not change these lengths.
\<close>

section \<open>Reading a component\<close>

lemma scalar_range_Inr: "scalar_range c v len = Inr payload \<Longrightarrow> payload = take len (drop v (scalar_bytes c))"
  by (auto simp: scalar_range_def res_simps)

lemma canonical_component_at:
  assumes "canonical_component c st i item b = (Inr cv, b')"
  shows "component_at c i item = Inr cv" and "item \<Longrightarrow> cv \<noteq> C_Collection kind' start len'"
proof -
  from assms obtain kind v len b1 where cells: "component_cells c i item = Inr (kind, v, len)"
    and body: "canonical_component c st i item b = (Inr cv, b')"
    by (auto simp: canonical_component_def mbnd_Inr)
  have "component_at c i item = Inr cv \<and> (item \<longrightarrow> cv \<noteq> C_Collection kind' start len')"
  proof (cases "kind \<in> {COMPONENT_TEXT, COMPONENT_BYTES, COMPONENT_ENUM}")
    case True
    with body obtain payload where "scalar_range c v len = Inr payload" and "cv = C_Scalar kind payload"
      unfolding canonical_component_def cells by (auto simp: mbnd_Inr mseq_Inr)
    with True show ?thesis by (auto simp: component_at_def cells dest: scalar_range_Inr)
  next
    case False
    with body show ?thesis unfolding canonical_component_def cells
      by (auto simp: component_at_def cells mbnd_Inr map_res_eq_Inr checked_node_id_Inr dest: scalar_range_Inr split: if_splits)
  qed
  then show "component_at c i item = Inr cv" "item \<Longrightarrow> cv \<noteq> C_Collection kind' start len'" by blast+
qed

section \<open>Scope remapping keeps the length\<close>

lemma scope_search_length: "scope_search m current start stop = Inr v \<Longrightarrow> length v = length current"
proof (induction m current start stop rule: scope_search.induct)
  case (1 m current start stop)
  from "1.prems" show ?case
    by (subst (asm) scope_search.simps)
      (auto simp: Let_def res_simps split: if_splits ordering.splits dest: "1.IH" get_range_length)
qed

lemma remap_length: "remap_anonymous_scope c v = Inr v' \<Longrightarrow> length v' = length v"
proof -
  assume r: "remap_anonymous_scope c v = Inr v'"
  show ?thesis
    by (rule fold_res_invariant [OF r [unfolded remap_anonymous_scope_def], of "\<lambda>x. length x = length v"])
      (auto simp: res_simps dest: scope_search_length)
qed

lemma length_remapped_scope [simp]: "length (remapped_scope c v) = length v"
  by (simp add: remapped_scope_def remap_length split: sum.split)

section \<open>Lengths of codes\<close>

definition codes_known :: "direct_columns \<Rightarrow> usize list \<Rightarrow> bool" where
  "codes_known c ls \<longleftrightarrow> (\<forall>n < length ls. ls ! n \<noteq> 0 \<longrightarrow> (\<exists>code. node_code c n code \<and> length code = ls ! n))"

lemma known_length_Inr: "known_length ls n = Inr len \<longleftrightarrow> n < length ls \<and> ls ! n \<noteq> 0 \<and> len = ls ! n"
  by (auto simp: known_length_def get_at_def)

lemma known_length_code:
  assumes "codes_known c ls" and "known_length ls n = Inr len"
  obtains code where "node_code c n code" and "length code = len"
  using assms by (auto simp: codes_known_def known_length_Inr)

lemma framed_length_Inr: "framed_length base (length code) = Inr len \<Longrightarrow> len = base + length (framed code)"
  by (auto simp: framed_length_def framed_def varint_width res_simps Option.bind_eq_Some_conv)

lemma length_byte_values [simp]: "length (byte_values v) = length v"
  by (simp add: byte_values_def)

lemma leaf_length_code:
  assumes k: "codes_known c ls" and l: "leaf_length ls cv = Inr len"
  shows "\<exists>code. leaf_code (node_code c) cv code \<and> length code = len"
proof (cases cv)
  case (C_Node n)
  with l obtain l1 where "known_length ls n = Inr l1" and f: "framed_length 1 l1 = Inr len"
    by (auto simp: leaf_length_def bnd_eq_Inr)
  with known_length_code [OF k] obtain child where "node_code c n child" and "length child = l1" by blast
  with f framed_length_Inr [of 1 child len] C_Node show ?thesis by (auto simp: leaf_code_def)
next
  case (C_Scalar kind v)
  with l framed_length_Inr [of 1 "byte_values v" len] show ?thesis by (simp add: leaf_length_def leaf_code_def)
next
  case (C_Integer v)
  with l show ?thesis by (auto simp: leaf_length_def leaf_code_def bnd_eq_Inr res_simps dest: integer_varint_chunks)
qed (use l in \<open>simp_all add: leaf_length_def leaf_code_def\<close>)

lemma leaf_length_effective: "leaf_length ls (effective_component c remaps cv) = leaf_length ls cv"
  by (simp add: leaf_length_def effective_component_def split: code_component.split)

lemma mfold_codes:
  assumes "mfold f xs s b = (Inr t, b')"
    and "\<And>x s t b b'. x \<in> set xs \<Longrightarrow> f x s b = (Inr t, b') \<Longrightarrow> \<exists>code. P x code \<and> t = s + length code"
  shows "\<exists>codes. list_all2 P xs codes \<and> t = s + length (concat codes)"
  using assms
proof (induction xs arbitrary: s b)
  case (Cons x xs)
  from Cons.prems(1) obtain s1 b1 where 1: "f x s b = (Inr s1, b1)" and 2: "mfold f xs s1 b1 = (Inr t, b')"
    by (auto simp: metered_Inr)
  from Cons.prems(2) [OF _ 1] obtain code where "P x code" "s1 = s + length code" by auto
  moreover from Cons.IH [OF 2] Cons.prems(2) obtain codes where "list_all2 P xs codes" "t = s1 + length (concat codes)"
    by auto
  ultimately have "list_all2 P (x # xs) (code # codes) \<and> t = s + length (concat (code # codes))" by simp
  then show ?case by blast
qed simp

lemma item_length_code:
  assumes k: "codes_known c ls" and r: "item_length c st ls kind i so_far b = (Inr len, b')"
  shows "\<exists>code. item_code (node_code c) c kind i code \<and> len = so_far + length code"
proof -
  from r obtain cv b1 b2 where at: "component_at c i True = Inr cv"
    and rest: "(if kind = COMPONENT_SET then
       (case cv of C_Node node_id \<Rightarrow> mlift (bnd (known_length ls node_id) (framed_length so_far))
        | _ \<Rightarrow> mlift (Inl Malformed))
     else mseq (consume st 1) (mlift (bnd (leaf_length ls cv) (\<lambda>len. ok_or Resource (checked_add so_far len))))) b1 = (Inr len, b2)"
    unfolding item_length_def by (auto simp: mseq_Inr mbnd_Inr dest: canonical_component_at(1))
  show ?thesis
  proof (cases "kind = COMPONENT_SET")
    case True
    with rest obtain n l1 where cv: "cv = C_Node n" and 1: "known_length ls n = Inr l1" and f: "framed_length so_far l1 = Inr len"
      by (cases cv) (auto simp: bnd_eq_Inr)
    from known_length_code [OF k 1] obtain child where "node_code c n child" and "length child = l1" by blast
    with f framed_length_Inr [of so_far child len] at cv True show ?thesis by (auto simp: item_code_def)
  next
    case False
    with rest obtain l1 where 1: "leaf_length ls cv = Inr l1" and "len = so_far + l1"
      by (auto simp: mseq_Inr res_simps)
    with leaf_length_code [OF k 1] at False show ?thesis by (auto simp: item_code_def)
  qed
qed

lemma component_length_code:
  assumes k: "codes_known c ls" and r: "component_length c st ls cv b = (Inr len, b')"
  shows "\<exists>code. component_code (node_code c) c (effective_component c remaps cv) code \<and> length code = len"
proof (cases "\<exists>kind start n. cv = C_Collection kind start n")
  case True
  then obtain kind start n where cv: "cv = C_Collection kind start n" by blast
  from r obtain b1 where "mfold (item_length c st ls kind) [start ..< start + n] (1 + length (varint_encode n)) b1 = (Inr len, b')"
    by (auto simp: component_length_def cv metered_Inr res_simps varint_width)
  from mfold_codes [OF this, of "item_code (node_code c) c kind"] item_length_code [OF k]
  obtain codes where "list_all2 (item_code (node_code c) c kind) [start ..< start + n] codes"
    and "len = 1 + length (varint_encode n) + length (concat codes)" by blast
  then show ?thesis by (auto simp: component_code_def effective_component_def cv)
next
  case False
  then have "component_length c st ls cv = mseq (consume st 1) (mlift (leaf_length ls cv))"
    by (cases cv) (auto simp: component_length_def)
  with r have "leaf_length ls (effective_component c remaps cv) = Inr len" by (auto simp: mseq_Inr leaf_length_effective)
  from leaf_length_code [OF k this] False show ?thesis
    by (cases cv) (auto simp: component_code_def effective_component_def)
qed

lemma varint_encode_not_Nil [simp]: "varint_encode n \<noteq> []"
  by (subst varint_encode.simps) simp

lemma node_length_code:
  assumes k: "codes_known c ls" and r: "node_length c st ls n b = (Inr len, b')"
  shows "\<exists>code. node_code c n code \<and> length code = len" and "len \<noteq> 0"
proof -
  from r obtain tag start stop b1 where t: "node_tag c n = Inr tag" and f: "field_range c n = Inr (start, stop)"
    and l: "mfold (\<lambda>field_index so_far.
         mbnd (canonical_component c st field_index False) (\<lambda>cv.
         mbnd (component_length c st ls cv) (\<lambda>len.
         mlift (ok_or Resource (checked_add so_far len))))) [start ..< stop] (varint_width tag) b1 = (Inr len, b')"
    by (auto simp: node_length_def metered_Inr)
  have "\<exists>codes. list_all2 (field_code (node_code c) c tag start) [start ..< stop] codes \<and>
      len = varint_width tag + length (concat codes)"
  proof (rule mfold_codes [OF l])
    fix i s s' b b'
    assume "mbnd (canonical_component c st i False) (\<lambda>cv. mbnd (component_length c st ls cv) (\<lambda>len.
         mlift (ok_or Resource (checked_add s len)))) b = (Inr s', b')"
    then obtain cv l1 b1 b2 where "component_at c i False = Inr cv" and 2: "component_length c st ls cv b1 = (Inr l1, b2)"
      and "s' = s + l1" by (auto simp: mbnd_Inr res_simps dest: canonical_component_at(1))
    with component_length_code [OF k 2] show "\<exists>code. field_code (node_code c) c tag start i code \<and> s' = s + length code"
      unfolding field_code_def by blast
  qed
  then obtain codes where "list_all2 (field_code (node_code c) c tag start) [start ..< stop] codes"
    and len: "len = varint_width tag + length (concat codes)" by blast
  with t f node_codeI [of c n tag start stop codes] show "\<exists>code. node_code c n code \<and> length code = len"
    by (auto simp: varint_width)
  show "len \<noteq> 0" by (simp add: len varint_width)
qed

section \<open>The walk\<close>

definition walk_ok :: "direct_columns \<Rightarrow> length_walk \<Rightarrow> bool" where
  "walk_ok c w \<longleftrightarrow> length (walk_lengths w) = node_count c + 1 \<and> length (walk_colors w) = node_count c + 1 \<and>
     codes_known c (walk_lengths w) \<and> (\<forall>n \<le> node_count c. walk_colors w ! n = 2 \<longrightarrow> walk_lengths w ! n \<noteq> 0)"

text \<open>Visiting children only pushes events.\<close>

definition pushes :: "length_walk \<Rightarrow> length_walk \<Rightarrow> bool" where
  "pushes w w' \<longleftrightarrow> walk_lengths w' = walk_lengths w \<and> walk_colors w' = walk_colors w \<and> set (walk_events w) \<subseteq> set (walk_events w')"

lemma pushes_refl [simp]: "pushes w w"
  and pushes_trans: "pushes u v \<Longrightarrow> pushes v w \<Longrightarrow> pushes u w"
  by (auto simp: pushes_def)

lemma mfold_pushes:
  assumes "mfold f xs w b = (Inr w', b')" and "\<And>x u v b b'. f x u b = (Inr v, b') \<Longrightarrow> pushes u v"
  shows "pushes w w'"
  using assms(1)
proof (induction xs arbitrary: w b)
  case (Cons x xs)
  then obtain w1 b1 where "f x w b = (Inr w1, b1)" and 2: "mfold f xs w1 b1 = (Inr w', b')" by (auto simp: metered_Inr)
  with assms(2) Cons.IH [OF 2] show ?case by (blast intro: pushes_trans)
qed simp

lemma push_event_pushes: "push_length_event k e w = Inr w' \<Longrightarrow> pushes w w' \<and> e \<in> set (walk_events w')"
  by (auto simp: push_length_event_def pushes_def split: if_splits)

lemma walk_child_pushes: "walk_child k n w = Inr w' \<Longrightarrow> pushes w w'"
  by (auto simp: walk_child_def res_simps dest: push_event_pushes split: if_splits)

lemma walk_item_pushes: "walk_item c st k kind i w b = (Inr w', b') \<Longrightarrow> pushes w w'"
proof -
  assume "walk_item c st k kind i w b = (Inr w', b')"
  then obtain cv b1 where "(case cv of C_Node child \<Rightarrow> mlift (walk_child k child w)
     | _ \<Rightarrow> if kind = COMPONENT_SET then mlift (Inl Malformed) else mret w) b1 = (Inr w', b')"
    by (auto simp: walk_item_def mseq_Inr mbnd_Inr simp del: mlift_run mret_run)
  then show ?thesis by (cases cv) (auto dest: walk_child_pushes split: if_splits)
qed

lemma walk_field_pushes: "walk_field c st k f w b = (Inr w', b') \<Longrightarrow> pushes w w'"
proof -
  assume "walk_field c st k f w b = (Inr w', b')"
  then obtain cv b1 where "(case cv of C_Node child \<Rightarrow> mlift (walk_child k child w)
     | C_Collection kind start len \<Rightarrow> mfold (walk_item c st k kind) (rev [start ..< start + len]) w
     | _ \<Rightarrow> mret w) b1 = (Inr w', b')"
    by (auto simp: walk_field_def mseq_Inr mbnd_Inr simp del: mlift_run mret_run)
  then show ?thesis by (cases cv) (auto dest: walk_child_pushes mfold_pushes [OF _ walk_item_pushes])
qed

definition tracked :: "usize \<Rightarrow> length_walk \<Rightarrow> bool" where
  "tracked n w \<longleftrightarrow> walk_colors w ! n = 2 \<or> Enter n \<in> set (walk_events w) \<or> Exit n \<in> set (walk_events w)"

lemma enter_node_ok:
  assumes w: "walk_ok c w" and r: "enter_node c st k n w b = (Inr w', b')"
  shows "walk_ok c w'" and "tracked n w'" and "tracked m w \<Longrightarrow> tracked m w'"
    and "walk_colors w ! m = 2 \<Longrightarrow> walk_colors w' ! m = 2"
proof -
  consider (done_node) "walk_colors w ! n = 2" "w' = w"
    | (fresh) w1 where "n < length (walk_colors w)" "walk_colors w ! n \<noteq> 2"
        "pushes (w\<lparr>walk_colors := (walk_colors w)[n := 1]\<rparr>) w1" "Exit n \<in> set (walk_events w1)" "pushes w1 w'"
    using r unfolding enter_node_def
    by (auto simp: mbnd_Inr res_simps dest!: push_event_pushes mfold_pushes [OF _ walk_field_pushes] split: if_splits)
  then have "walk_ok c w' \<and> tracked n w' \<and> (tracked m w \<longrightarrow> tracked m w') \<and>
      (walk_colors w ! m = 2 \<longrightarrow> walk_colors w' ! m = 2)"
  proof cases
    case fresh
    then have e: "walk_lengths w' = walk_lengths w" "walk_colors w' = (walk_colors w)[n := 1]"
      "set (walk_events w) \<subseteq> set (walk_events w')" "Exit n \<in> set (walk_events w')" by (auto simp: pushes_def)
    have "walk_ok c w'" using w fresh(1,2) by (auto simp: walk_ok_def e nth_list_update)
    moreover have "tracked m w \<longrightarrow> tracked m w'" using e fresh by (cases "m = n") (auto simp: tracked_def)
    moreover have "walk_colors w ! m = 2 \<longrightarrow> walk_colors w' ! m = 2" using e fresh by (cases "m = n") auto
    ultimately show ?thesis using e by (simp add: tracked_def)
  qed (use w in \<open>auto simp: tracked_def\<close>)
  then show "walk_ok c w'" "tracked n w'" "tracked m w \<Longrightarrow> tracked m w'" "walk_colors w ! m = 2 \<Longrightarrow> walk_colors w' ! m = 2"
    by blast+
qed

lemma exit_node_ok:
  assumes w: "walk_ok c w" and r: "exit_node c st n w b = (Inr w', b')"
  shows "walk_ok c w'" and "tracked n w'" and "tracked m w \<Longrightarrow> tracked m w'"
    and "walk_colors w ! m = 2 \<Longrightarrow> walk_colors w' ! m = 2"
proof -
  from r obtain len b1 where l: "node_length c st (walk_lengths w) n b = (Inr len, b1)"
    and n: "n < length (walk_lengths w)" "n < length (walk_colors w)"
    and w': "w' = w\<lparr>walk_lengths := (walk_lengths w)[n := len], walk_colors := (walk_colors w)[n := 2]\<rparr>"
    by (auto simp: exit_node_def mbnd_Inr res_simps)
  from w have "codes_known c (walk_lengths w)" by (simp add: walk_ok_def)
  from node_length_code [OF this l] w n show "walk_ok c w'"
    by (auto simp: walk_ok_def w' codes_known_def nth_list_update)
  show "tracked n w'" using n by (simp add: tracked_def w')
  show "tracked m w \<Longrightarrow> tracked m w'" using n by (cases "m = n") (auto simp: tracked_def w')
  show "walk_colors w ! m = 2 \<Longrightarrow> walk_colors w' ! m = 2" using n by (cases "m = n") (auto simp: w')
qed

lemma drain_events_ok:
  assumes "drain_events c st k w b = (Inr w', b')" and "walk_ok c w"
  shows "walk_ok c w' \<and> (tracked m w \<longrightarrow> walk_colors w' ! m = 2)"
  using assms
proof (induction c st k w b arbitrary: w' b' rule: drain_events.induct)
  case (1 c st k w b)
  show ?case
  proof (cases "walk_events w")
    case Nil
    from 1(2) have "w' = w" by (subst (asm) drain_events.simps) (simp add: Nil)
    with Nil 1(3) show ?thesis by (simp add: tracked_def)
  next
    case (Cons event rest)
    let ?w = "w\<lparr>walk_events := rest\<rparr>"
    have w: "walk_ok c ?w" using 1(3) by (simp add: walk_ok_def)
    from 1(2) obtain w1 b1 where s: "mseq (consume st 1) (walk_step c st k event ?w) b = (Inr w1, b1)"
      and d: "drain_events c st k w1 b1 = (Inr w', b')"
      by (subst (asm) drain_events.simps) (auto simp: Cons mbnd_Inr)
    from s obtain b0 where s': "walk_step c st k event ?w b0 = (Inr w1, b1)" by (auto simp: mseq_Inr)
    have "walk_ok c w1 \<and> (tracked m w \<longrightarrow> tracked m w1)"
    proof (cases event)
      case (Enter n)
      with s' have e: "enter_node c st k n ?w b0 = (Inr w1, b1)" by (simp add: walk_step_def)
      from Enter Cons have "tracked m w \<Longrightarrow> m = n \<or> tracked m ?w" by (auto simp: tracked_def)
      with enter_node_ok [OF w e] show ?thesis by blast
    next
      case (Exit n)
      with s' have e: "exit_node c st n ?w b0 = (Inr w1, b1)" by (simp add: walk_step_def)
      from Exit Cons have "tracked m w \<Longrightarrow> m = n \<or> tracked m ?w" by (auto simp: tracked_def)
      with exit_node_ok [OF w e] show ?thesis by blast
    qed
    with 1(1) [OF Cons s d] show ?thesis by blast
  qed
qed

lemma start_walk_ok:
  assumes w: "walk_ok c w" and r: "start_walk c st k n w b = (Inr w', b')"
  shows "walk_ok c w'" and "walk_colors w' ! n = 2" and "walk_colors w ! m = 2 \<Longrightarrow> walk_colors w' ! m = 2"
proof -
  consider "walk_colors w ! n = 2" "w' = w"
    | w1 b1 where "push_length_event k (Enter n) w = Inr w1" "drain_events c st k w1 b1 = (Inr w', b')"
    using r unfolding start_walk_def by (auto simp: mseq_Inr mbnd_Inr res_simps split: if_splits)
  then have "walk_ok c w' \<and> walk_colors w' ! n = 2 \<and> (walk_colors w ! m = 2 \<longrightarrow> walk_colors w' ! m = 2)"
  proof cases
    case 2
    with push_event_pushes [OF this(1)] have "walk_ok c w1" "tracked n w1" "walk_colors w ! m = 2 \<longrightarrow> tracked m w1"
      using w by (auto simp: walk_ok_def pushes_def tracked_def)
    with drain_events_ok [OF 2(2)] show ?thesis by blast
  qed (use w in auto)
  then show "walk_ok c w'" "walk_colors w' ! n = 2" "walk_colors w ! m = 2 \<Longrightarrow> walk_colors w' ! m = 2" by blast+
qed

lemma walks_ok:
  assumes "mfold (start_walk c st k) ns w b = (Inr w', b')" and "walk_ok c w"
  shows "walk_ok c w' \<and> (\<forall>n \<in> set ns. walk_colors w' ! n = 2) \<and> (\<forall>m. walk_colors w ! m = 2 \<longrightarrow> walk_colors w' ! m = 2)"
  using assms
proof (induction ns arbitrary: w b)
  case (Cons n ns)
  from Cons.prems(1) obtain w1 b1 where 1: "start_walk c st k n w b = (Inr w1, b1)"
    and 2: "mfold (start_walk c st k) ns w1 b1 = (Inr w', b')" by (auto simp: metered_Inr)
  from start_walk_ok [OF Cons.prems(2) 1] Cons.IH [OF 2] show ?case by auto
qed simp

text \<open>A table that was built: the lengths are those of the codes, and every node has a code.\<close>

definition table_ok :: "canonical_table \<Rightarrow> bool" where
  "table_ok t \<longleftrightarrow> length (lengths t) = node_count (columns t) + 1 \<and>
     (\<forall>n. 1 \<le> n \<and> n \<le> node_count (columns t) \<longrightarrow> (\<exists>code. node_code (columns t) n code \<and> length code = lengths t ! n \<and> code \<noteq> []))"

lemma build_table_ok:
  assumes "build_table env c st b = (Inr t, b')"
  shows "columns t = c" and "validate_generic c st = Inr ()" and "table_ok t"
proof -
  from assms obtain cap k r b1 b2 b3 granted_lengths length_bytes color_bytes event_bytes where
      v: "validate_generic c st = Inr ()" and cap: "cap = node_count c + 1"
    and m: "walk_table c st k cap b1 = (r, b2)"
    and r: "(case r of Inl e \<Rightarrow> mseq (release_workspace length_bytes) (mlift (Inl e))
        | Inr w \<Rightarrow> mret \<lparr>columns = c, lengths = walk_lengths w, lengths_capacity = granted_lengths\<rparr>) b3 = (Inr t, b')"
    unfolding build_table_def
    by (simp only: mbnd_Inr mseq_Inr on_error_Inr attempt_run split_paired_Ex prod.case mlift_run prod.inject
        ok_or_eq_Inr checked_add_eq_Some) (clarify, rule that, simp, rule refl, assumption, assumption)
  from r obtain w where rw: "r = Inr w" and t: "t = \<lparr>columns = c, lengths = walk_lengths w, lengths_capacity = granted_lengths\<rparr>"
    by (cases r) (auto simp: mseq_Inr)
  note m = m [unfolded rw walk_table_def]
  have "walk_ok c \<lparr>walk_lengths = replicate cap 0, walk_colors = replicate cap 0, walk_events = []\<rparr>"
    by (simp add: walk_ok_def cap codes_known_def del: replicate_Suc)
  from walks_ok [OF m this] have w: "walk_ok c w" and d: "\<forall>n \<in> {1 ..< node_count c + 1}. walk_colors w ! n = 2" by auto
  show "columns t = c" "validate_generic c st = Inr ()" using t v by simp_all
  have "\<exists>code. node_code c n code \<and> length code = walk_lengths w ! n \<and> code \<noteq> []" if "1 \<le> n" "n \<le> node_count c" for n
  proof -
    from that d have "walk_colors w ! n = 2" by auto
    with w that have "walk_lengths w ! n \<noteq> 0" and l: "n < length (walk_lengths w)" and k: "codes_known c (walk_lengths w)"
      by (auto simp: walk_ok_def)
    with k [unfolded codes_known_def, rule_format, OF l] show ?thesis by (metis length_0_conv)
  qed
  with w show "table_ok t" by (simp add: table_ok_def t walk_ok_def)
qed

end
