(* ===== verification/Canonical_Cursor.thy ===== *)
theory Canonical_Cursor
  imports Canonical_Lengths
begin

text \<open>
  The byte cursor of the canonical merge (\<open>CanonicalByteCursor\<close> and the comparison loops of
  \<open>CanonicalNodeComparator\<close> and \<open>CanonicalKWayRootMerger\<close> in \<open>native/src/encoded_direct.rs\<close>): it emits the
  canonical code of a node byte by byte from an explicit stack of tasks, never holding more of it, and
  a comparison runs two cursors until they differ.

  The cursor emits exactly the node's code, so a comparison that returns is the lexicographic order
  of the two codes. A cursor is \<open>reset\<close> before every use; the one left by an error is never used again
  and is not part of the result.
\<close>

section \<open>Tasks and the stack\<close>

datatype emit_task =
    E_Byte nat
  | E_Varint usize
  | E_Slice bytes usize
  | E_Integer bytes usize usize
  | E_Node usize
  | E_Component usize bool bool
  | E_Collection usize usize usize bool

text \<open>The top of the stack is the head of the list.\<close>

record byte_cursor =
  tasks :: "emit_task list"
  task_capacity :: usize

definition cursor_new :: byte_cursor where
  "cursor_new = \<lparr>tasks = [], task_capacity = 0\<rparr>"

definition reserve_task :: "canonical_allocator \<Rightarrow> byte_cursor \<Rightarrow> byte_cursor metered" where
  "reserve_task env cur =
     (if length (tasks cur) \<noteq> task_capacity cur then mret cur else
      let previous = task_capacity cur in
      mbnd (mlift (if previous = 0 then Inr 8 else ok_or Resource (checked_mul previous 2))) (\<lambda>target.
      mbnd (mlift (allocation_bytes env Tasks_Vec (target - previous))) (\<lambda>requested.
      mseq (claim_workspace requested) (
      case granted env Tasks_Vec target of
        None \<Rightarrow> mseq (release_workspace requested) (mlift (Inl Resource))
      | Some actual_capacity \<Rightarrow>
          mbnd (mlift (ok_or Malformed (checked_sub actual_capacity previous))) (\<lambda>actual_growth.
          mbnd (mlift (allocation_bytes env Tasks_Vec actual_growth)) (\<lambda>actual.
          mseq (if actual > requested then
                  on_error (claim_workspace (actual - requested))
                    (mbnd (mlift (allocation_bytes env Tasks_Vec previous)) (\<lambda>previous_bytes.
                     mseq (release_workspace requested) (release_workspace previous_bytes)))
                else if actual < requested then release_workspace (requested - actual)
                else mret ())
            (mret (cur\<lparr>task_capacity := actual_capacity\<rparr>))))))))"

definition push_task :: "canonical_allocator \<Rightarrow> emit_task \<Rightarrow> byte_cursor \<Rightarrow> byte_cursor metered" where
  "push_task env task cur =
     mbnd (reserve_task env cur) (\<lambda>cur'. mret (cur'\<lparr>tasks := task # tasks cur'\<rparr>))"

definition push_tasks :: "canonical_allocator \<Rightarrow> emit_task list \<Rightarrow> byte_cursor \<Rightarrow> byte_cursor metered" where
  "push_tasks env = mfold (push_task env)"

definition reset_cursor :: "canonical_allocator \<Rightarrow> usize \<Rightarrow> byte_cursor \<Rightarrow> byte_cursor metered" where
  "reset_cursor env node_id cur = push_task env (E_Node node_id) (cur\<lparr>tasks := []\<rparr>)"

definition schedule_node :: "canonical_allocator \<Rightarrow> usize list \<Rightarrow> usize \<Rightarrow> bool \<Rightarrow> byte_cursor \<Rightarrow> byte_cursor metered" where
  "schedule_node env ls node_id include_marker cur =
     mbnd (mlift (known_length ls node_id)) (\<lambda>len.
     push_tasks env ([E_Node node_id, E_Varint len] @ (if include_marker then [E_Byte COMPONENT_NODE] else [])) cur)"

definition schedule_component :: "canonical_allocator \<Rightarrow> usize list \<Rightarrow> code_component \<Rightarrow> byte_cursor \<Rightarrow> byte_cursor metered" where
  "schedule_component env ls cv cur = (case cv of
     C_None \<Rightarrow> push_task env (E_Byte COMPONENT_NONE) cur
   | C_Node node_id \<Rightarrow> schedule_node env ls node_id True cur
   | C_Scalar kind v \<Rightarrow>
       push_tasks env ((if v \<noteq> [] then [E_Slice v 0] else []) @ [E_Varint (length v), E_Byte kind]) cur
   | C_Integer v \<Rightarrow>
       mbnd (mlift (integer_varint_chunks v)) (\<lambda>chunks.
       push_tasks env [E_Integer v 0 chunks, E_Byte COMPONENT_INTEGER] cur)
   | C_Collection kind start len \<Rightarrow>
       push_tasks env [E_Collection start 0 len (kind = COMPONENT_SET), E_Varint len, E_Byte kind] cur)"

section \<open>Emitting a byte\<close>

definition byte_or_zero :: "bytes \<Rightarrow> usize \<Rightarrow> nat" where
  "byte_or_zero v i = (case get_at v i of None \<Rightarrow> 0 | Some b \<Rightarrow> of_char b)"

definition integer_chunk :: "bytes \<Rightarrow> usize \<Rightarrow> nat" where
  "integer_chunk v bit_offset =
     (let byte_index = bit_offset div 8; shift = bit_offset mod 8;
          low = byte_or_zero v byte_index; high = byte_or_zero v (byte_index + 1)
      in (low + 256 * high) div 2 ^ shift mod 128)"

definition remap_component :: "direct_columns \<Rightarrow> bool \<Rightarrow> code_component \<Rightarrow> code_component kres" where
  "remap_component c remap_scope cv =
     (if remap_scope then
        (case cv of
           C_Scalar kind v \<Rightarrow>
             if kind = COMPONENT_BYTES then map_res (C_Scalar COMPONENT_BYTES) (remap_anonymous_scope c v)
             else Inl Malformed
         | _ \<Rightarrow> Inl Malformed)
      else Inr cv)"

text \<open>One iteration of the loop in \<open>next_byte\<close>, after the task is popped: the byte it returns, or
  \<open>None\<close> where the loop continues.\<close>

definition emit_step ::
  "canonical_allocator \<Rightarrow> direct_columns \<Rightarrow> usize list \<Rightarrow> nat \<Rightarrow> emit_task \<Rightarrow> byte_cursor \<Rightarrow> (nat option \<times> byte_cursor) metered" where
  "emit_step env c ls st task cur = (case task of
     E_Byte byte \<Rightarrow> mret (Some byte, cur)
   | E_Varint v \<Rightarrow>
       let following = v div 128 in
       mbnd (if following \<noteq> 0 then push_task env (E_Varint following) cur else mret cur) (\<lambda>cur'.
       mret (Some (v mod 128 + (if following = 0 then 0 else 128)), cur'))
   | E_Slice v index \<Rightarrow>
       mbnd (mlift (ok_or Malformed (get_at v index))) (\<lambda>byte.
       mbnd (if index + 1 < length v then push_task env (E_Slice v (index + 1)) cur else mret cur) (\<lambda>cur'.
       mret (Some (of_char byte), cur')))
   | E_Integer v chunk chunks \<Rightarrow>
       if chunk \<ge> chunks then mlift (Inl Malformed) else
       mbnd (mlift (ok_or Resource (checked_mul chunk 7))) (\<lambda>bit_offset.
       mbnd (if chunk + 1 < chunks then push_task env (E_Integer v (chunk + 1) chunks) cur else mret cur) (\<lambda>cur'.
       mret (Some (integer_chunk v bit_offset + (if chunk + 1 = chunks then 0 else 128)), cur')))
   | E_Node node_id \<Rightarrow>
       mbnd (mlift (field_range c node_id)) (\<lambda>(start, stop).
       mbnd (mlift (node_tag c node_id)) (\<lambda>tag.
       mbnd (push_tasks env (map (\<lambda>f. E_Component f False (tag = TAG_ANONYMOUS_INDIVIDUAL \<and> f = start))
               (rev [start ..< stop])) cur) (\<lambda>cur'.
       mbnd (push_task env (E_Varint tag) cur') (\<lambda>cur''. mret (None, cur'')))))
   | E_Component index item remap_scope \<Rightarrow>
       mbnd (canonical_component c st index item) (\<lambda>cv.
       mbnd (mlift (remap_component c remap_scope cv)) (\<lambda>cv'.
       mbnd (schedule_component env ls cv' cur) (\<lambda>cur'. mret (None, cur'))))
   | E_Collection start index len canonical_set \<Rightarrow>
       if index \<ge> len then mret (None, cur) else
       mbnd (push_task env (E_Collection start (index + 1) len canonical_set) cur) (\<lambda>cur1.
       mbnd (canonical_component c st (start + index) True) (\<lambda>item.
       mbnd (if canonical_set then
               (case item of
                  C_Node node_id \<Rightarrow> schedule_node env ls node_id False cur1
                | _ \<Rightarrow> mlift (Inl Malformed))
             else schedule_component env ls item cur1) (\<lambda>cur2. mret (None, cur2)))))"

lemma metering_reserve_task [metering_intros]: "metering (reserve_task env cur)"
  unfolding reserve_task_def Let_def
  by (intro metering_intros) (simp split: option.split, (intro impI metering_intros allI conjI)+)

lemma metering_push_task [metering_intros]: "metering (push_task env task cur)"
  unfolding push_task_def by (intro metering_intros)

lemma metering_push_tasks [metering_intros]: "metering (push_tasks env ts cur)"
  unfolding push_tasks_def by (intro metering_intros)

lemma metering_reset_cursor [metering_intros]: "metering (reset_cursor env n cur)"
  unfolding reset_cursor_def by (intro metering_intros)

lemma metering_schedule_node [metering_intros]: "metering (schedule_node env ls n m cur)"
  unfolding schedule_node_def by (intro metering_intros)

lemma metering_schedule_component [metering_intros]: "metering (schedule_component env ls cv cur)"
  unfolding schedule_component_def by (intro metering_intros metering_cases)

lemma metering_case_task:
  assumes "\<And>b. metering (f1 b)" "\<And>v. metering (f2 v)" "\<And>v i. metering (f3 v i)" "\<And>v k m. metering (f4 v k m)"
    "\<And>n. metering (f5 n)" "\<And>i x r. metering (f6 i x r)" "\<And>s i l x. metering (f7 s i l x)"
  shows "metering (case task of E_Byte b \<Rightarrow> f1 b | E_Varint v \<Rightarrow> f2 v | E_Slice v i \<Rightarrow> f3 v i | E_Integer v k m \<Rightarrow> f4 v k m
    | E_Node n \<Rightarrow> f5 n | E_Component i x r \<Rightarrow> f6 i x r | E_Collection s i l x \<Rightarrow> f7 s i l x)"
  using assms by (cases task) auto

lemma metering_emit_step [metering_intros]: "metering (emit_step env c ls st task cur)"
  unfolding emit_step_def Let_def by (intro metering_intros metering_cases metering_case_task)

function next_byte ::
  "canonical_allocator \<Rightarrow> direct_columns \<Rightarrow> usize list \<Rightarrow> nat \<Rightarrow> byte_cursor \<Rightarrow> (nat option \<times> byte_cursor) metered" where
  "next_byte env c ls st cur b = (case tasks cur of
     [] \<Rightarrow> (Inr (None, cur), b)
   | task # rest \<Rightarrow>
       (case mseq (consume st 1) (emit_step env c ls st task (cur\<lparr>tasks := rest\<rparr>)) b of
          (Inl e, b1) \<Rightarrow> (Inl e, b1)
        | (Inr (Some byte, cur'), b1) \<Rightarrow> (Inr (Some byte, cur'), b1)
        | (Inr (None, cur'), b1) \<Rightarrow> next_byte env c ls st cur' b1))"
  by pat_completeness auto
termination
  by (relation "measure (\<lambda>(env, c, ls, st, cur, b). work_left b)")
    (auto intro: mseq_progress [OF metering_emit_step sym])

declare next_byte.simps [simp del]

lemma next_byte_cases:
  assumes "next_byte env c ls st cur b = (r, b')"
  obtains (empty) "tasks cur = []" "r = Inr (None, cur)" "b' = b"
    | (failed) task rest e where "tasks cur = task # rest" "r = Inl e"
        "mseq (consume st 1) (emit_step env c ls st task (cur\<lparr>tasks := rest\<rparr>)) b = (Inl e, b')"
    | (emitted) task rest byte cur' where "tasks cur = task # rest" "r = Inr (Some byte, cur')"
        "mseq (consume st 1) (emit_step env c ls st task (cur\<lparr>tasks := rest\<rparr>)) b = (Inr (Some byte, cur'), b')"
    | (continued) task rest cur' b1 where "tasks cur = task # rest" "next_byte env c ls st cur' b1 = (r, b')"
        "mseq (consume st 1) (emit_step env c ls st task (cur\<lparr>tasks := rest\<rparr>)) b = (Inr (None, cur'), b1)"
proof (cases "tasks cur")
  case Nil
  with assms empty show thesis by (subst (asm) next_byte.simps) simp
next
  case (Cons task rest)
  obtain r1 b1 where m: "mseq (consume st 1) (emit_step env c ls st task (cur\<lparr>tasks := rest\<rparr>)) b = (r1, b1)"
    by fastforce
  have eq: "(r, b') = (case (r1, b1) of
          (Inl e, b1) \<Rightarrow> (Inl e, b1)
        | (Inr (Some byte, cur'), b1) \<Rightarrow> (Inr (Some byte, cur'), b1)
        | (Inr (None, cur'), b1) \<Rightarrow> next_byte env c ls st cur' b1)"
    unfolding assms [symmetric] m [symmetric] by (subst next_byte.simps) (simp add: Cons)
  consider e where "r1 = Inl e" | byte cur' where "r1 = Inr (Some byte, cur')" | cur' where "r1 = Inr (None, cur')"
    by (metis option.exhaust prod.collapse sum.exhaust)
  then show thesis
  proof cases
    case 1
    with eq m Cons show thesis by (intro failed) auto
  next
    case 2
    with eq m Cons show thesis by (intro emitted) auto
  next
    case 3
    with eq m Cons show thesis by (intro continued) auto
  qed
qed

lemma metering_next_byte [metering_intros]: "metering (next_byte env c ls st cur)"
proof -
  have m: "mseq (consume st 1) (emit_step env c ls st task cur') b = (r, b') \<Longrightarrow> spends b b'" for env c ls st task cur' b r b'
    by (erule meteringD [rotated], intro metering_intros)
  have "next_byte env c ls st cur b = (r, b') \<Longrightarrow> spends b b'" for b r b'
  proof (induction env c ls st cur b arbitrary: r b' rule: next_byte.induct)
    case (1 env c ls st cur b)
    from 1(2) show ?case
    proof (cases rule: next_byte_cases)
      case (continued task rest cur' b1)
      then have "spends b1 b'" using 1(1) [OF continued(1) continued(3) [symmetric] refl refl refl] by blast
      with m [OF continued(3)] show ?thesis by (blast intro: spends_trans)
    qed (auto dest: m [unfolded One_nat_def])
  qed
  then show ?thesis by (simp add: metering_def)
qed

lemma next_byte_progress:
  assumes "next_byte env c ls st cur b = (Inr (Some byte, cur'), b')"
  shows "work_left b' < work_left b"
  using assms
proof (cases rule: next_byte_cases)
  case (emitted task rest byte' cur'')
  then show ?thesis by (auto intro: mseq_progress metering_emit_step)
next
  case (continued task rest cur1 b1)
  have "work_left b' \<le> work_left b1"
    using meteringD [OF metering_next_byte continued(2)] by (auto simp: spends_def work_left_def)
  moreover have "work_left b1 < work_left b" using continued(3) by (auto intro: mseq_progress metering_emit_step)
  ultimately show ?thesis by simp
qed auto

section \<open>Comparing two nodes\<close>

text \<open>One iteration of the comparison loop: the ordering it returns, or \<open>None\<close> where the loop continues.\<close>

definition compare_step ::
  "canonical_allocator \<Rightarrow> nat \<Rightarrow> canonical_table \<Rightarrow> canonical_table \<Rightarrow> byte_cursor \<times> byte_cursor \<Rightarrow>
   (ordering option \<times> byte_cursor \<times> byte_cursor) metered" where
  "compare_step env st left right cursors =
     mbnd (next_byte env (columns left) (lengths left) st (fst cursors)) (\<lambda>(left_byte, left_cursor).
     mbnd (next_byte env (columns right) (lengths right) st (snd cursors)) (\<lambda>(right_byte, right_cursor).
     case (left_byte, right_byte) of
       (Some x, Some y) \<Rightarrow>
         mseq record_comparison_byte
           (mret (if cmp x y \<noteq> Equal then Some (cmp x y) else None, left_cursor, right_cursor))
     | (None, None) \<Rightarrow> mret (Some Equal, left_cursor, right_cursor)
     | (None, Some _) \<Rightarrow> mret (Some Less, left_cursor, right_cursor)
     | (Some _, None) \<Rightarrow> mret (Some Greater, left_cursor, right_cursor)))"

lemma metering_case_options:
  assumes "\<And>x y. metering (f x y)" "metering a" "\<And>y. metering (g y)" "\<And>x. metering (h x)"
  shows "metering (case (p, q) of (Some x, Some y) \<Rightarrow> f x y | (None, None) \<Rightarrow> a | (None, Some y) \<Rightarrow> g y | (Some x, None) \<Rightarrow> h x)"
  using assms by (auto split: option.split)

lemma metering_compare_step [metering_intros]: "metering (compare_step env st left right cursors)"
  unfolding compare_step_def by (intro metering_intros metering_case_prod metering_case_options)

lemma compare_step_progress:
  assumes "compare_step env st left right cursors b = (Inr (None, cursors'), b')"
  shows "work_left b' < work_left b"
proof -
  from assms obtain x lcur y rcur b1 b2 b3 where
    "next_byte env (columns left) (lengths left) st (fst cursors) b = (Inr (Some x, lcur), b1)"
    "next_byte env (columns right) (lengths right) st (snd cursors) b1 = (Inr (Some y, rcur), b2)"
    "record_comparison_byte b2 = (Inr (), b')"
    unfolding compare_step_def by (auto simp: mbnd_Inr mseq_Inr split: option.splits if_splits)
  with next_byte_progress meteringD [OF metering_comparison_byte]
  have "work_left b1 < work_left b" "work_left b2 < work_left b1" "spends b2 b'" by blast+
  then show ?thesis by (auto simp: spends_def work_left_def)
qed

function compare_bytes ::
  "canonical_allocator \<Rightarrow> nat \<Rightarrow> canonical_table \<Rightarrow> canonical_table \<Rightarrow> byte_cursor \<times> byte_cursor \<Rightarrow>
   (ordering \<times> byte_cursor \<times> byte_cursor) metered" where
  "compare_bytes env st left right cursors b = (case compare_step env st left right cursors b of
     (Inl e, b1) \<Rightarrow> (Inl e, b1)
   | (Inr (Some outcome, cursors'), b1) \<Rightarrow> (Inr (outcome, cursors'), b1)
   | (Inr (None, cursors'), b1) \<Rightarrow> compare_bytes env st left right cursors' b1)"
  by pat_completeness auto
termination
  by (relation "measure (\<lambda>(env, st, left, right, cursors, b). work_left b)")
    (auto intro: compare_step_progress [OF sym])

declare compare_bytes.simps [simp del]

lemma compare_bytes_cases:
  assumes "compare_bytes env st left right cursors b = (r, b')"
  obtains (failed) e where "r = Inl e" "compare_step env st left right cursors b = (Inl e, b')"
    | (decided) outcome cursors' where "r = Inr (outcome, cursors')"
        "compare_step env st left right cursors b = (Inr (Some outcome, cursors'), b')"
    | (continued) cursors' b1 where "compare_step env st left right cursors b = (Inr (None, cursors'), b1)"
        "compare_bytes env st left right cursors' b1 = (r, b')"
proof -
  obtain r1 b1 where m: "compare_step env st left right cursors b = (r1, b1)" by fastforce
  have eq: "(r, b') = (case (r1, b1) of
     (Inl e, b1) \<Rightarrow> (Inl e, b1)
   | (Inr (Some outcome, cursors'), b1) \<Rightarrow> (Inr (outcome, cursors'), b1)
   | (Inr (None, cursors'), b1) \<Rightarrow> compare_bytes env st left right cursors' b1)"
    unfolding assms [symmetric] m [symmetric] by (subst compare_bytes.simps) simp
  consider e where "r1 = Inl e" | x cur' where "r1 = Inr (Some x, cur')" | cur' where "r1 = Inr (None, cur')"
    by (metis option.exhaust prod.collapse sum.exhaust)
  then show thesis
  proof cases
    case 1
    with eq m show thesis by (intro failed) auto
  next
    case 2
    with eq m show thesis by (intro decided) auto
  next
    case 3
    with eq m show thesis by (intro continued) auto
  qed
qed

lemma metering_compare_bytes [metering_intros]: "metering (compare_bytes env st left right cursors)"
proof -
  have "compare_bytes env st left right cursors b = (r, b') \<Longrightarrow> spends b b'" for b r b'
  proof (induction env st left right cursors b arbitrary: r b' rule: compare_bytes.induct)
    case (1 env st left right cursors b)
    note m = meteringD [OF metering_compare_step]
    from 1(2) show ?case
    proof (cases rule: compare_bytes_cases)
      case (continued cursors' b1)
      then have "spends b1 b'" using 1(1) [OF continued(1) [symmetric]] by (cases cursors') blast
      with m [OF continued(1)] show ?thesis by (blast intro: spends_trans)
    qed (auto dest: m)
  qed
  then show ?thesis by (simp add: metering_def)
qed

text \<open>\<open>compare_sides\<close>, \<open>compare_nodes\<close> and \<open>compare_nodes_in_table\<close>: \<open>same\<close> says that both nodes are of
  one table.\<close>

definition compare_table_nodes ::
  "canonical_allocator \<Rightarrow> nat \<Rightarrow> bool \<Rightarrow> canonical_table \<Rightarrow> usize \<Rightarrow> canonical_table \<Rightarrow> usize \<Rightarrow>
   byte_cursor \<times> byte_cursor \<Rightarrow> (ordering \<times> byte_cursor \<times> byte_cursor) metered" where
  "compare_table_nodes env st same left left_node right right_node cursors =
     mseq (mlift (checked_node_id (columns left) left_node)) (
     mseq (mlift (checked_node_id (columns right) right_node)) (
     if same \<and> left_node = right_node then mret (Equal, cursors) else
     mbnd (reset_cursor env left_node (fst cursors)) (\<lambda>left_cursor.
     mbnd (reset_cursor env right_node (snd cursors)) (\<lambda>right_cursor.
     compare_bytes env st left right (left_cursor, right_cursor)))))"

lemma metering_compare_table_nodes [metering_intros]:
  "metering (compare_table_nodes env st same left l right r cursors)"
  unfolding compare_table_nodes_def by (intro metering_intros)

end
