(* ===== verification/Canonical_Emission.thy ===== *)
theory Canonical_Emission
  imports Canonical_Cursor
begin

text \<open>
  What the byte cursor emits. A stack of tasks stands for the bytes still to come (\<open>stack_emits\<close>); every
  iteration of \<open>next_byte\<close> keeps this reading, so a cursor reset to a node cursor_emits exactly the node's
  canonical code, and a comparison that returns is the lexicographic order of two codes.
\<close>

section \<open>Varints byte by byte\<close>

lemma varint_nth:
  "k < length (varint_encode n) \<Longrightarrow>
   varint_encode n ! k = n div 128 ^ k mod 128 + (if k + 1 = length (varint_encode n) then 0 else 128)"
proof (induction n arbitrary: k rule: varint_encode.induct)
  case (1 n)
  show ?case
  proof (cases "n < 128")
    case True
    then show ?thesis using 1(2) by (simp add: varint_encode.simps)
  next
    case False
    then have e: "varint_encode n = (n mod 128 + 128) # varint_encode (n div 128)"
      by (subst varint_encode.simps) simp
    show ?thesis
    proof (cases k)
      case 0
      then show ?thesis by (simp add: e)
    next
      case (Suc j)
      with 1 False show ?thesis by (simp add: e div_mult2_eq)
    qed
  qed
qed

lemma varint_unfold:
  "varint_encode v = (v mod 128 + (if v div 128 = 0 then 0 else 128)) # (if v div 128 \<noteq> 0 then varint_encode (v div 128) else [])"
  by (subst varint_encode.simps) (simp add: div_eq_0_iff)

lemma le_value_byte: "le_value v div 256 ^ i mod 256 = byte_or_zero v i"
proof (induction v arbitrary: i)
  case Nil
  then show ?case by (simp add: byte_or_zero_def get_at_def)
next
  case (Cons b v)
  show ?case
  proof (cases i)
    case (Suc j)
    have "(of_char b + 256 * le_value v) div 256 = le_value v" by simp
    then have "le_value (b # v) div 256 ^ i = le_value v div 256 ^ j"
      by (simp add: Suc div_mult2_eq)
    with Cons show ?thesis by (simp add: Suc byte_or_zero_def get_at_def)
  qed (simp add: byte_or_zero_def get_at_def)
qed

lemma integer_chunk: "integer_chunk v (k * 7) = le_value v div 128 ^ k mod 128"
proof -
  define i s V where "i = k * 7 div 8" and "s = k * 7 mod 8" and "V = le_value v div 256 ^ i"
  have s: "s \<le> 7" by (simp add: s_def)
  have "V mod 65536 = V mod 256 + 256 * (V div 256 mod 256)"
    using mod_mult2_eq [of V 256 256] by simp
  moreover have "V div 256 = le_value v div 256 ^ (i + 1)"
    by (simp add: V_def div_mult2_eq [symmetric] mult.commute)
  ultimately have w: "byte_or_zero v i + 256 * byte_or_zero v (i + 1) = V mod 65536"
    by (simp add: le_value_byte [symmetric] V_def)
  have "(65536 :: nat) = 2 ^ s * 2 ^ (16 - s)" using s by (simp add: power_add [symmetric])
  then have "V mod 65536 div 2 ^ s = V div 2 ^ s mod 2 ^ (16 - s)"
    using mod_mult2_eq [of V "2 ^ s" "2 ^ (16 - s)"] by simp
  moreover have "(128 :: nat) dvd 2 ^ (16 - s)" using s le_imp_power_dvd [of 7 "16 - s" "2 :: nat"] by simp
  ultimately have "V mod 65536 div 2 ^ s mod 128 = V div 2 ^ s mod 128" by (simp add: mod_mod_cancel)
  moreover have "V div 2 ^ s = le_value v div 128 ^ k"
  proof -
    have "(256 :: nat) ^ i * 2 ^ s = 2 ^ (8 * i + s)" by (simp add: power_add power_mult)
    also have "8 * i + s = 7 * k" by (simp add: i_def s_def)
    also have "(2 :: nat) ^ (7 * k) = 128 ^ k" by (simp add: power_mult)
    finally show ?thesis by (simp add: V_def div_mult2_eq [symmetric])
  qed
  ultimately show ?thesis by (simp add: integer_chunk_def Let_def i_def [symmetric] s_def [symmetric] w [simplified])
qed

section \<open>The bytes a stack stands for\<close>

definition item_codes :: "direct_columns \<Rightarrow> bool \<Rightarrow> usize \<Rightarrow> usize \<Rightarrow> nat list \<Rightarrow> bool" where
  "item_codes c canonical_set start stop code \<longleftrightarrow> (\<exists>codes.
     list_all2 (item_code (node_code c) c (if canonical_set then COMPONENT_SET else COMPONENT_SEQUENCE)) [start ..< stop] codes \<and>
     code = concat codes)"

definition task_emits :: "direct_columns \<Rightarrow> emit_task \<Rightarrow> nat list \<Rightarrow> bool" where
  "task_emits c task code = (case task of
     E_Byte b \<Rightarrow> code = [b]
   | E_Varint v \<Rightarrow> code = varint_encode v
   | E_Slice v i \<Rightarrow> i < length v \<and> code = byte_values (drop i v)
   | E_Integer v k chunks \<Rightarrow> chunks = length (varint_encode (le_value v)) \<and> k < chunks \<and> code = drop k (varint_encode (le_value v))
   | E_Node n \<Rightarrow> node_code c n code
   | E_Component i item remaps \<Rightarrow>
       \<exists>cv. component_at c i item = Inr cv \<and> component_code (node_code c) c (effective_component c remaps cv) code
   | E_Collection start index len canonical_set \<Rightarrow> item_codes c canonical_set (start + index) (start + len) code)"

fun stack_emits :: "direct_columns \<Rightarrow> emit_task list \<Rightarrow> nat list \<Rightarrow> bool" where
  "stack_emits c [] code \<longleftrightarrow> code = []"
| "stack_emits c (task # ts) code \<longleftrightarrow> (\<exists>a b. task_emits c task a \<and> stack_emits c ts b \<and> code = a @ b)"

lemma stack_emits_append:
  "stack_emits c (ts @ us) code \<longleftrightarrow> (\<exists>a b. stack_emits c ts a \<and> stack_emits c us b \<and> code = a @ b)"
  by (induction ts arbitrary: code) (auto, metis append.assoc, metis append.assoc)

lemma push_task_Inr: "push_task env task cur b = (Inr cur', b') \<Longrightarrow> tasks cur' = task # tasks cur"
  by (auto simp: push_task_def reserve_task_def Let_def mbnd_Inr mseq_Inr split: if_splits option.splits)

lemma push_tasks_Inr: "push_tasks env ts cur b = (Inr cur', b') \<Longrightarrow> tasks cur' = rev ts @ tasks cur"
proof (induction ts arbitrary: cur b)
  case (Cons t ts)
  then obtain cur1 b1 where "push_task env t cur b = (Inr cur1, b1)" and "push_tasks env ts cur1 b1 = (Inr cur', b')"
    by (auto simp: push_tasks_def mbnd_Inr)
  with Cons.IH push_task_Inr show ?case by fastforce
qed (simp add: push_tasks_def)

text \<open>The lengths of a built table are those of the codes.\<close>

definition lengths_exact :: "direct_columns \<Rightarrow> usize list \<Rightarrow> bool" where
  "lengths_exact c ls \<longleftrightarrow> (\<forall>n code. node_code c n code \<longrightarrow> n < length ls \<longrightarrow> ls ! n = length code)"

lemma schedule_node_emits:
  assumes "schedule_node env ls n marker cur b = (Inr cur', b')" and "lengths_exact c ls"
    and "node_code c n code" and "stack_emits c (tasks cur) rest"
  shows "stack_emits c (tasks cur') ((if marker then [COMPONENT_NODE] else []) @ framed code @ rest)"
proof -
  from assms(1) obtain b1 where "n < length ls"
    and p: "push_tasks env ([E_Node n, E_Varint (ls ! n)] @ (if marker then [E_Byte COMPONENT_NODE] else [])) cur b1 = (Inr cur', b')"
    by (auto simp: schedule_node_def mbnd_Inr known_length_Inr simp del: append.simps)
  with assms(2,3) have "ls ! n = length code" by (simp add: lengths_exact_def)
  with push_tasks_Inr [OF p] assms(3,4) show ?thesis
    by (auto simp: task_emits_def framed_def)
qed

lemma schedule_leaf_emits:
  assumes s: "schedule_component env ls cv cur b = (Inr cur', b')" and ls: "lengths_exact c ls"
    and code: "leaf_code (node_code c) cv code" and rest: "stack_emits c (tasks cur) rest"
  shows "stack_emits c (tasks cur') (code @ rest)"
proof (cases cv)
  case C_None
  with s have "tasks cur' = E_Byte COMPONENT_NONE # tasks cur" by (auto simp: schedule_component_def dest: push_task_Inr)
  with code rest C_None show ?thesis by (auto simp: leaf_code_def task_emits_def)
next
  case (C_Node n)
  with code obtain child where "node_code c n child" and "code = COMPONENT_NODE # framed child" by (auto simp: leaf_code_def)
  with s C_Node schedule_node_emits [OF _ ls _ rest, of env n True b cur' b' child] show ?thesis
    by (simp add: schedule_component_def)
next
  case (C_Scalar kind v)
  with s push_tasks_Inr have "tasks cur' = [E_Byte kind, E_Varint (length v)] @ (if v \<noteq> [] then [E_Slice v 0] else []) @ tasks cur"
    by (fastforce simp: schedule_component_def)
  with code rest C_Scalar show ?thesis
    by (cases v) (auto simp: leaf_code_def task_emits_def framed_def byte_values_def)
next
  case (C_Integer v)
  with s obtain chunks b1 where ch: "integer_varint_chunks v = Inr chunks"
    and p: "push_tasks env [E_Integer v 0 chunks, E_Byte COMPONENT_INTEGER] cur b1 = (Inr cur', b')"
    by (auto simp: schedule_component_def mbnd_Inr)
  with push_tasks_Inr [OF p] integer_varint_chunks [OF ch] code rest C_Integer show ?thesis
    by (auto simp: leaf_code_def task_emits_def)
next
  case (C_Collection kind start len)
  with code show ?thesis by (simp add: leaf_code_def)
qed

lemma component_code_leaf:
  "(\<And>kind start len. cv \<noteq> C_Collection kind start len) \<Longrightarrow> component_code R c cv code = leaf_code R cv code"
  by (cases cv) (auto simp: component_code_def)

lemma item_code_kind [simp]:
  "item_code R c (if kind = COMPONENT_SET then COMPONENT_SET else COMPONENT_SEQUENCE) = item_code R c kind"
  by (auto simp: item_code_def fun_eq_iff)

lemma schedule_component_emits:
  assumes s: "schedule_component env ls cv cur b = (Inr cur', b')" and ls: "lengths_exact c ls"
    and code: "component_code (node_code c) c cv code" and rest: "stack_emits c (tasks cur) rest"
  shows "stack_emits c (tasks cur') (code @ rest)"
proof (cases "\<exists>kind start len. cv = C_Collection kind start len")
  case True
  then obtain kind start len where cv: "cv = C_Collection kind start len" by blast
  from code obtain codes where "list_all2 (item_code (node_code c) c kind) [start ..< start + len] codes"
    and e: "code = kind # varint_encode len @ concat codes" by (auto simp: component_code_def cv)
  then have "item_codes c (kind = COMPONENT_SET) start (start + len) (concat codes)"
    unfolding item_codes_def item_code_kind by blast
  moreover from s push_tasks_Inr have "tasks cur' = [E_Byte kind, E_Varint len, E_Collection start 0 len (kind = COMPONENT_SET)] @ tasks cur"
    by (fastforce simp: schedule_component_def cv)
  ultimately show ?thesis using rest by (auto simp: e task_emits_def)
next
  case False
  with schedule_leaf_emits [OF s ls _ rest] code show ?thesis by (simp add: component_code_leaf)
qed

lemma remap_component_effective: "remap_component c remaps cv = Inr cv' \<Longrightarrow> cv' = effective_component c remaps cv"
  by (auto simp: remap_component_def effective_component_def remapped_scope_def map_res_eq_Inr split: code_component.splits if_splits)


section \<open>One iteration\<close>

definition cursor_emits :: "direct_columns \<Rightarrow> nat option \<Rightarrow> byte_cursor \<Rightarrow> nat list \<Rightarrow> bool" where
  "cursor_emits c emitted cur code = (case emitted of
     None \<Rightarrow> stack_emits c (tasks cur) code
   | Some byte \<Rightarrow> \<exists>rest. code = byte # rest \<and> stack_emits c (tasks cur) rest)"

lemma cursor_emits_simps [simp]:
  "cursor_emits c None cur code = stack_emits c (tasks cur) code"
  "cursor_emits c (Some byte) cur code \<longleftrightarrow> (\<exists>rest. code = byte # rest \<and> stack_emits c (tasks cur) rest)"
  by (simp_all add: cursor_emits_def)

lemma fields_emit:
  assumes "list_all2 (field_code (node_code c) c tag start) fs codes" and "stack_emits c ts rest"
  shows "stack_emits c (map (\<lambda>f. E_Component f False (tag = TAG_ANONYMOUS_INDIVIDUAL \<and> f = start)) fs @ ts) (concat codes @ rest)"
  using assms
proof (induction fs codes rule: list_all2_induct)
  case (Cons f fs code codes)
  have "task_emits c (E_Component f False (tag = TAG_ANONYMOUS_INDIVIDUAL \<and> f = start)) code"
    using Cons(1) by (simp add: task_emits_def field_code_def)
  with Cons show ?case by auto
qed simp

lemma node_step_emits:
  assumes s: "emit_step env c ls st (E_Node n) cur b = (Inr (emitted, cur'), b')"
    and code: "node_code c n code" and rest: "stack_emits c (tasks cur) rest"
  shows "cursor_emits c emitted cur' (code @ rest)"
proof -
  from code obtain tag start stop codes where t: "node_tag c n = Inr tag" and f: "field_range c n = Inr (start, stop)"
    and l: "list_all2 (field_code (node_code c) c tag start) [start ..< stop] codes"
    and e: "code = varint_encode tag @ concat codes" by (auto elim!: node_code.cases)
  from s t f obtain cur1 b1 where none: "emitted = None"
    and p: "push_tasks env (map (\<lambda>f. E_Component f False (tag = TAG_ANONYMOUS_INDIVIDUAL \<and> f = start)) (rev [start ..< stop])) cur b = (Inr cur1, b1)"
    and v: "push_task env (E_Varint tag) cur1 b1 = (Inr cur', b')"
    by (auto simp: emit_step_def mbnd_Inr)
  from push_tasks_Inr [OF p] fields_emit [OF l rest]
  have "stack_emits c (tasks cur1) (concat codes @ rest)" by (simp add: rev_map)
  with push_task_Inr [OF v] show ?thesis by (auto simp: none e task_emits_def)
qed

lemma component_step_emits:
  assumes s: "emit_step env c ls st (E_Component i item remaps) cur b = (Inr (emitted, cur'), b')" and ls: "lengths_exact c ls"
    and at: "component_at c i item = Inr cv" and code: "component_code (node_code c) c (effective_component c remaps cv) code"
    and rest: "stack_emits c (tasks cur) rest"
  shows "cursor_emits c emitted cur' (code @ rest)"
proof -
  from s obtain cv1 b1 cv2 b2 where "canonical_component c st i item b = (Inr cv1, b1)"
    and r: "remap_component c remaps cv1 = Inr cv2" and none: "emitted = None"
    and sc: "schedule_component env ls cv2 cur b2 = (Inr cur', b')"
    by (auto simp: emit_step_def mbnd_Inr)
  then have "cv1 = cv" using canonical_component_at(1) at by fastforce
  with remap_component_effective [OF r] schedule_component_emits [OF sc ls _ rest] code none show ?thesis by simp
qed

lemma collection_step_emits:
  assumes s: "emit_step env c ls st (E_Collection start index len canonical_set) cur b = (Inr (emitted, cur'), b')"
    and ls: "lengths_exact c ls" and code: "item_codes c canonical_set (start + index) (start + len) code"
    and rest: "stack_emits c (tasks cur) rest"
  shows "cursor_emits c emitted cur' (code @ rest)"
proof (cases "index < len")
  case False
  with s code rest show ?thesis by (auto simp: emit_step_def item_codes_def)
next
  case True
  let ?kind = "if canonical_set then COMPONENT_SET else COMPONENT_SEQUENCE"
  from True have u: "[start + index ..< start + len] = (start + index) # [start + (index + 1) ..< start + len]"
    by (simp add: upt_conv_Cons)
  from code obtain a codes where a: "item_code (node_code c) c ?kind (start + index) a"
    and l: "list_all2 (item_code (node_code c) c ?kind) [start + (index + 1) ..< start + len] codes" and e: "code = a @ concat codes"
    unfolding item_codes_def u by (auto simp: list_all2_Cons1)
  from s True obtain cur1 b1 item b2 where none: "emitted = None"
    and p: "push_task env (E_Collection start (index + 1) len canonical_set) cur b = (Inr cur1, b1)"
    and at: "canonical_component c st (start + index) True b1 = (Inr item, b2)"
    and body: "(if canonical_set then (case item of C_Node node_id \<Rightarrow> schedule_node env ls node_id False cur1 | _ \<Rightarrow> mlift (Inl Malformed))
       else schedule_component env ls item cur1) b2 = (Inr cur', b')"
    by (auto simp: emit_step_def mbnd_Inr)
  have rest': "stack_emits c (tasks cur1) (concat codes @ rest)"
  proof -
    have "task_emits c (E_Collection start (index + 1) len canonical_set) (concat codes)"
      using l unfolding task_emits_def item_codes_def by auto
    with rest push_task_Inr [OF p] show ?thesis by auto
  qed
  have "stack_emits c (tasks cur') (a @ concat codes @ rest)"
  proof (cases canonical_set)
    case True
    with a canonical_component_at(1) [OF at] obtain n child where "item = C_Node n" "node_code c n child" "a = framed child"
      by (auto simp: item_code_def)
    with body True schedule_node_emits [OF _ ls _ rest', of env n False b2 cur' b' child] show ?thesis by simp
  next
    case False
    with a canonical_component_at(1) [OF at] have "leaf_code (node_code c) item a" by (auto simp: item_code_def)
    with body False schedule_leaf_emits [OF _ ls _ rest', of env item b2 cur' b' a] show ?thesis by simp
  qed
  then show ?thesis by (simp add: none e)
qed

lemma integer_step_emits:
  assumes s: "emit_step env c ls st (E_Integer v k chunks) cur b = (Inr (emitted, cur'), b')"
    and chunks: "chunks = length (varint_encode (le_value v))" and k: "k < chunks" and rest: "stack_emits c (tasks cur) rest"
  shows "cursor_emits c emitted cur' (drop k (varint_encode (le_value v)) @ rest)"
proof -
  let ?V = "varint_encode (le_value v)"
  from s k obtain b1 where e: "emitted = Some (integer_chunk v (k * 7) + (if k + 1 = chunks then 0 else 128))"
    and p: "(if k + 1 < chunks then push_task env (E_Integer v (k + 1) chunks) cur else mret cur) b1 = (Inr cur', b')"
    by (auto simp: emit_step_def mbnd_Inr res_simps)
  have "?V ! k = integer_chunk v (k * 7) + (if k + 1 = chunks then 0 else 128)"
    using varint_nth [of k "le_value v"] k by (simp add: chunks integer_chunk)
  then have d: "drop k ?V = (integer_chunk v (k * 7) + (if k + 1 = chunks then 0 else 128)) # drop (k + 1) ?V"
    using k Cons_nth_drop_Suc [of k ?V] by (simp add: chunks)
  have "stack_emits c (tasks cur') (drop (k + 1) ?V @ rest)"
  proof (cases "k + 1 < chunks")
    case True
    with p have "push_task env (E_Integer v (k + 1) chunks) cur b1 = (Inr cur', b')" by simp
    from push_task_Inr [OF this] True rest show ?thesis by (auto simp: task_emits_def chunks)
  next
    case False
    with p rest show ?thesis by (simp add: chunks)
  qed
  then show ?thesis by (simp add: e d)
qed

lemma emit_step_emits:
  assumes s: "emit_step env c ls st task cur b = (Inr (emitted, cur'), b')" and ls: "lengths_exact c ls"
    and code: "task_emits c task code" and rest: "stack_emits c (tasks cur) rest"
  shows "cursor_emits c emitted cur' (code @ rest)"
proof (cases task)
  case (E_Byte x)
  with assms show ?thesis by (auto simp: emit_step_def task_emits_def)
next
  case (E_Varint v)
  have "stack_emits c (tasks cur') ((if v div 128 \<noteq> 0 then varint_encode (v div 128) else []) @ rest)"
    using s rest by (auto simp: E_Varint emit_step_def Let_def mbnd_Inr task_emits_def dest!: push_task_Inr split: if_splits)
  moreover have "emitted = Some (v mod 128 + (if v div 128 = 0 then 0 else 128))"
    using s by (auto simp: E_Varint emit_step_def Let_def mbnd_Inr split: if_splits)
  moreover have "code = varint_encode v" using code by (simp add: E_Varint task_emits_def)
  ultimately show ?thesis by (simp add: varint_unfold [of v])
next
  case (E_Slice v i)
  with code have i: "i < length v" and e: "code = byte_values (drop i v)" by (auto simp: task_emits_def)
  from i have d: "byte_values (drop i v) = of_char (v ! i) # byte_values (drop (i + 1) v)"
    by (simp add: byte_values_def Cons_nth_drop_Suc [symmetric])
  have "stack_emits c (tasks cur') (byte_values (drop (i + 1) v) @ rest)"
    using s rest by (auto simp: E_Slice emit_step_def mbnd_Inr task_emits_def byte_values_def dest!: push_task_Inr split: if_splits)
  moreover have "emitted = Some (of_char (v ! i))"
    using s by (auto simp: E_Slice emit_step_def mbnd_Inr res_simps)
  ultimately show ?thesis by (simp add: e d)
next
  case (E_Integer v k chunks)
  with integer_step_emits [OF s [unfolded E_Integer] _ _ rest] code show ?thesis by (auto simp: task_emits_def)
next
  case (E_Node n)
  with node_step_emits [OF s [unfolded E_Node] _ rest] code show ?thesis by (simp add: task_emits_def)
next
  case (E_Component i item remaps)
  with component_step_emits [OF s [unfolded E_Component] ls _ _ rest] code show ?thesis by (auto simp: task_emits_def)
next
  case (E_Collection start index len canonical_set)
  with collection_step_emits [OF s [unfolded E_Collection] ls _ rest] code show ?thesis by (simp add: task_emits_def)
qed

section \<open>Cursors and comparisons\<close>

lemma next_byte_emits:
  assumes "next_byte env c ls st cur b = (Inr (emitted, cur'), b')" and "lengths_exact c ls"
    and "stack_emits c (tasks cur) code"
  shows "cursor_emits c emitted cur' code" and "emitted = None \<longleftrightarrow> code = []"
proof -
  have "cursor_emits c emitted cur' code \<and> (emitted = None \<longleftrightarrow> code = [])"
    using assms
  proof (induction env c ls st cur b arbitrary: emitted cur' b' rule: next_byte.induct)
    case (1 env c ls st cur b)
    from 1(2) show ?case
    proof (cases rule: next_byte_cases)
      case empty
      with 1(4) show ?thesis by auto
    next
      case (failed task rest e)
      then show ?thesis by simp
    next
      case (emitted task rest byte cur1)
      from emitted(1) 1(4) obtain a d where "task_emits c task a" and "stack_emits c rest d" and e: "code = a @ d" by auto
      moreover from emitted(3) obtain b0 where "emit_step env c ls st task (cur\<lparr>tasks := rest\<rparr>) b0 = (Inr (Some byte, cur1), b')"
        by (auto simp: mseq_Inr)
      ultimately have "cursor_emits c (Some byte) cur1 code"
        using emit_step_emits [OF _ 1(3), of env st task "cur\<lparr>tasks := rest\<rparr>" b0 "Some byte" cur1 b' a d] by simp
      with emitted(2) show ?thesis by auto
    next
      case (continued task rest cur1 b1)
      from continued(1) 1(4) obtain a d where "task_emits c task a" and "stack_emits c rest d" and e: "code = a @ d" by auto
      moreover from continued(3) obtain b0 where "emit_step env c ls st task (cur\<lparr>tasks := rest\<rparr>) b0 = (Inr (None, cur1), b1)"
        by (auto simp: mseq_Inr)
      ultimately have "stack_emits c (tasks cur1) code"
        using emit_step_emits [OF _ 1(3), of env st task "cur\<lparr>tasks := rest\<rparr>" b0 None cur1 b1 a d] by simp
      with 1(1) [OF continued(1) continued(3) [symmetric] refl refl refl continued(2) 1(3)] show ?thesis by blast
    qed
  qed
  then show "cursor_emits c emitted cur' code" "emitted = None \<longleftrightarrow> code = []" by blast+
qed

lemma reset_cursor_emits:
  "reset_cursor env n cur b = (Inr cur', b') \<Longrightarrow> node_code c n code \<Longrightarrow> stack_emits c (tasks cur') code"
  by (auto simp: reset_cursor_def task_emits_def dest!: push_task_Inr)

lemma cmp_Cons: "cmp (x # xs) (y # ys) = (if cmp x y \<noteq> Equal then cmp x y else cmp xs (ys :: nat list))"
  by (auto simp: cmp_def)

lemma cmp_Nil: "cmp [] [] = Equal" "cmp [] (y # ys) = Less" "cmp (x # xs) [] = Greater"
  for x :: nat
  by (simp_all add: cmp_def)

lemma compare_bytes_order:
  assumes "compare_bytes env st left right cursors b = (Inr (outcome, cursors'), b')"
    and "lengths_exact (columns left) (lengths left)" and "lengths_exact (columns right) (lengths right)"
    and "stack_emits (columns left) (tasks (fst cursors)) x" and "stack_emits (columns right) (tasks (snd cursors)) y"
  shows "outcome = cmp x y"
  using assms
proof (induction env st left right cursors b arbitrary: cursors' b' x y rule: compare_bytes.induct)
  case (1 env st left right cursors b)
  have step: "case o' of Some res \<Rightarrow> res = cmp x y
     | None \<Rightarrow> \<exists>z x' y'. x = z # x' \<and> y = z # y' \<and> stack_emits (columns left) (tasks (fst cs)) x' \<and>
         stack_emits (columns right) (tasks (snd cs)) y'"
    if "compare_step env st left right cursors b = (Inr (o', cs), b1)" for o' cs b1
  proof -
    from that obtain p lcur b2 q rcur b3 where
      p: "next_byte env (columns left) (lengths left) st (fst cursors) b = (Inr (p, lcur), b2)" and
      q: "next_byte env (columns right) (lengths right) st (snd cursors) b2 = (Inr (q, rcur), b3)" and
      r: "(case (p, q) of (Some x, Some y) \<Rightarrow>
         mseq record_comparison_byte (mret (if cmp x y \<noteq> Equal then Some (cmp x y) else None, lcur, rcur))
       | (None, None) \<Rightarrow> mret (Some Equal, lcur, rcur) | (None, Some _) \<Rightarrow> mret (Some Less, lcur, rcur)
       | (Some _, None) \<Rightarrow> mret (Some Greater, lcur, rcur)) b3 = (Inr (o', cs), b1)"
      unfolding compare_step_def by (auto simp: mbnd_Inr)
    note l = next_byte_emits [OF p 1(3) 1(5)] and l' = next_byte_emits [OF q 1(4) 1(6)]
    show ?thesis
    proof (cases p)
      case None
      with l l' r show ?thesis by (cases q) (auto simp: cmp_Nil)
    next
      case (Some u)
      show ?thesis
      proof (cases q)
        case None
        with Some l l' r show ?thesis by (auto simp: cmp_Nil)
      next
        case (Some v)
        with \<open>p = Some u\<close> l l' r show ?thesis by (auto simp: cmp_Cons mseq_Inr split: if_splits)
      qed
    qed
  qed
  from 1(2) show ?case
  proof (cases rule: compare_bytes_cases)
    case (decided res cs)
    with step [OF decided(2)] show ?thesis by simp
  next
    case (continued cs b1)
    from step [OF continued(1)] obtain z x' y' where e: "x = z # x'" "y = z # y'"
      and "stack_emits (columns left) (tasks (fst cs)) x'" "stack_emits (columns right) (tasks (snd cs)) y'" by auto
    with 1(1) [OF continued(1) [symmetric]] continued(2) 1(3,4) have "outcome = cmp x' y'" by (cases cs) simp
    then show ?thesis by (simp add: e cmp_Cons)
  qed simp
qed

end
