(* ===== verification/Canonical_Merge.thy ===== *)
theory Canonical_Merge
  imports Canonical_Emission
begin

text \<open>
  The mergers of the module \<open>canonical_merge\<close> of \<open>native/src/encoded_direct.rs\<close>: \<open>CanonicalNodeComparator\<close>
  over two tables, \<open>CanonicalRootMerger\<close> that walks the selected roots of two tables in canonical order
  and pairs the equal ones, and \<open>CanonicalKWayRootMerger\<close> that does so for any number of tables. Both
  check first that every table keeps its sets and its roots strictly ascending in canonical order.

  The budget field of the Rust structures is the state threaded by \<open>metered\<close> computations; the two
  cursors are one pair.
\<close>

type_synonym cursor_pair = "byte_cursor \<times> byte_cursor"

record root_ref =
  ref_index :: usize
  ref_kind :: nat
  root_node :: usize

section \<open>Order checks\<close>

text \<open>
  The loops shared by \<open>validate_canonical_sets\<close>, \<open>validate_table\<close> and
  \<open>validate_original_table_order\<close>: they differ in the comparison they call and in the error they report.
\<close>

definition set_item_node :: "direct_columns \<Rightarrow> nat \<Rightarrow> usize \<Rightarrow> usize metered" where
  "set_item_node c st index =
     mbnd (canonical_component c st index True) (\<lambda>cv.
     case cv of C_Node n \<Rightarrow> mret n | _ \<Rightarrow> mlift (Inl Malformed))"

definition check_set_pair ::
  "(usize \<Rightarrow> usize \<Rightarrow> cursor_pair \<Rightarrow> (ordering \<times> cursor_pair) metered) \<Rightarrow> kernel_error \<Rightarrow> direct_columns \<Rightarrow> nat \<Rightarrow>
   usize \<Rightarrow> usize \<Rightarrow> cursor_pair \<Rightarrow> cursor_pair metered" where
  "check_set_pair compare err c st start offset cursors =
     mseq (consume st 1) (
     mbnd (set_item_node c st (start + offset - 1)) (\<lambda>previous.
     mbnd (set_item_node c st (start + offset)) (\<lambda>current.
     mbnd (compare previous current cursors) (\<lambda>(outcome, cursors').
     if outcome \<noteq> Less then mlift (Inl err) else mret cursors'))))"

definition check_set_field ::
  "(usize \<Rightarrow> usize \<Rightarrow> cursor_pair \<Rightarrow> (ordering \<times> cursor_pair) metered) \<Rightarrow> kernel_error \<Rightarrow> direct_columns \<Rightarrow> nat \<Rightarrow>
   usize \<Rightarrow> cursor_pair \<Rightarrow> cursor_pair metered" where
  "check_set_field compare err c st field_index cursors =
     mseq (consume st 1) (
     mbnd (mlift (field_kind c field_index)) (\<lambda>kind.
     if kind \<noteq> COMPONENT_SET then mret cursors else
     mbnd (canonical_component c st field_index False) (\<lambda>cv.
     case cv of
       C_Collection kind' start len \<Rightarrow>
         if kind' \<noteq> COMPONENT_SET then mlift (Inl Malformed)
         else mfold (check_set_pair compare err c st start) [1 ..< len] cursors
     | _ \<Rightarrow> mlift (Inl Malformed))))"

definition check_sets ::
  "(usize \<Rightarrow> usize \<Rightarrow> cursor_pair \<Rightarrow> (ordering \<times> cursor_pair) metered) \<Rightarrow> kernel_error \<Rightarrow> direct_columns \<Rightarrow> nat \<Rightarrow>
   cursor_pair \<Rightarrow> cursor_pair metered" where
  "check_sets compare err c st = mfold (check_set_field compare err c st) [0 ..< field_count c]"

definition read_root :: "direct_columns \<Rightarrow> usize \<Rightarrow> root_ref kres" where
  "read_root c index =
     bnd (root_kind c index) (\<lambda>kind.
     map_res (\<lambda>node_id. \<lparr>ref_index = index, ref_kind = kind, root_node = node_id\<rparr>) (root_id c index))"

definition check_root ::
  "(root_ref \<Rightarrow> root_ref \<Rightarrow> cursor_pair \<Rightarrow> (ordering \<times> cursor_pair) metered) \<Rightarrow> kernel_error \<Rightarrow> direct_columns \<Rightarrow> nat \<Rightarrow>
   usize \<Rightarrow> root_ref option \<times> cursor_pair \<Rightarrow> (root_ref option \<times> cursor_pair) metered" where
  "check_root compare err c st index s =
     mseq (consume st 1) (
     mbnd (mlift (read_root c index)) (\<lambda>current.
     case fst s of
       None \<Rightarrow> mret (Some current, snd s)
     | Some previous \<Rightarrow>
         mbnd (compare previous current (snd s)) (\<lambda>(outcome, cursors').
         if outcome \<noteq> Less then mlift (Inl err) else mret (Some current, cursors'))))"

definition check_roots ::
  "(root_ref \<Rightarrow> root_ref \<Rightarrow> cursor_pair \<Rightarrow> (ordering \<times> cursor_pair) metered) \<Rightarrow> kernel_error \<Rightarrow> direct_columns \<Rightarrow> nat \<Rightarrow>
   cursor_pair \<Rightarrow> cursor_pair metered" where
  "check_roots compare err c st cursors =
     mbnd (mfold (check_root compare err c st) [0 ..< root_count c] (None, cursors)) (\<lambda>s. mret (snd s))"

text \<open>\<open>compare_roots\<close>, over the comparison of nodes it falls back on.\<close>

definition compare_roots ::
  "nat \<Rightarrow> (usize \<Rightarrow> usize \<Rightarrow> cursor_pair \<Rightarrow> (ordering \<times> cursor_pair) metered) \<Rightarrow>
   root_ref \<Rightarrow> root_ref \<Rightarrow> cursor_pair \<Rightarrow> (ordering \<times> cursor_pair) metered" where
  "compare_roots st compare left right cursors =
     mseq (consume st 1) (
     if ref_kind left \<noteq> ref_kind right then mret (cmp (ref_kind left) (ref_kind right), cursors)
     else compare (root_node left) (root_node right) cursors)"

definition compare_original_roots ::
  "(usize \<Rightarrow> usize \<Rightarrow> cursor_pair \<Rightarrow> (ordering \<times> cursor_pair) metered) \<Rightarrow>
   root_ref \<Rightarrow> root_ref \<Rightarrow> cursor_pair \<Rightarrow> (ordering \<times> cursor_pair) metered" where
  "compare_original_roots compare previous current cursors =
     (if ref_kind previous = ref_kind current then compare (root_node previous) (root_node current) cursors
      else mret (cmp (ref_kind previous) (ref_kind current), cursors))"

section \<open>The next selected root\<close>

text \<open>The loops of \<open>selected_root\<close>, the same in both mergers: the inner one advances over the postings,
  the outer one over the roots.\<close>

definition posting_count :: "direct_columns \<Rightarrow> usize" where
  "posting_count c = length (if included_root_ids c \<noteq> [] then included_root_ids c else excluded_root_ids c) div 4"

definition posting_at :: "direct_columns \<Rightarrow> usize \<Rightarrow> usize kres" where
  "posting_at c i = (if included_root_ids c \<noteq> [] then included_root_position c i else excluded_root_position c i)"

function match_posting :: "direct_columns \<Rightarrow> nat \<Rightarrow> usize \<Rightarrow> usize \<Rightarrow> (bool \<times> usize) metered" where
  "match_posting c st root_position posting_position =
     (if posting_position < posting_count c then
        mseq (consume st 1) (
        mbnd (mlift (posting_at c posting_position)) (\<lambda>candidate.
        if candidate < root_position then match_posting c st root_position (posting_position + 1)
        else if candidate = root_position then
          mret (True, if included_root_ids c \<noteq> [] then posting_position else posting_position + 1)
        else mret (False, posting_position)))
      else mret (False, posting_position))"
  by pat_completeness auto
termination
  by (relation "measure (\<lambda>(c, st, target, p). posting_count c - p)") auto

declare match_posting.simps [simp del]

function selected_root :: "direct_columns \<Rightarrow> nat \<Rightarrow> usize \<Rightarrow> usize \<Rightarrow> (root_ref option \<times> usize \<times> usize) metered" where
  "selected_root c st position posting_position =
     (if position < root_count c then
        mseq (consume st 1) (
        mbnd (mlift (ok_or Resource (checked_add position 1))) (\<lambda>root_position.
        mbnd (match_posting c st root_position posting_position) (\<lambda>(matched, posting_position').
        if (if included_root_ids c \<noteq> [] then matched else \<not> matched)
        then mbnd (mlift (read_root c position)) (\<lambda>r. mret (Some r, position, posting_position'))
        else selected_root c st (position + 1) posting_position')))
      else mret (None, position, posting_position))"
  by pat_completeness auto
termination
  by (relation "measure (\<lambda>(c, st, p, q). root_count c - p)") auto

declare selected_root.simps [simp del]

section \<open>Two tables\<close>

datatype table_side = Left_Side | Right_Side

datatype merged_root = Left_Root root_ref | Right_Root root_ref | Both_Roots root_ref root_ref

record node_comparator =
  left_table :: canonical_table
  right_table :: canonical_table
  node_cursors :: cursor_pair

fun side_table :: "'a node_comparator_scheme \<Rightarrow> table_side \<Rightarrow> canonical_table" where
  "side_table m Left_Side = left_table m"
| "side_table m Right_Side = right_table m"

definition compare_sides ::
  "canonical_allocator \<Rightarrow> nat \<Rightarrow> canonical_table \<Rightarrow> canonical_table \<Rightarrow> table_side \<Rightarrow> table_side \<Rightarrow> usize \<Rightarrow> usize \<Rightarrow>
   cursor_pair \<Rightarrow> (ordering \<times> cursor_pair) metered" where
  "compare_sides env st left right left_side right_side left_node right_node =
     (let pick = (\<lambda>s. case s of Left_Side \<Rightarrow> left | Right_Side \<Rightarrow> right) in
      compare_table_nodes env st (left_side = right_side) (pick left_side) left_node (pick right_side) right_node)"

definition validate_canonical_sets :: "canonical_allocator \<Rightarrow> nat \<Rightarrow> table_side \<Rightarrow> node_comparator \<Rightarrow> node_comparator metered" where
  "validate_canonical_sets env st s m =
     mbnd (check_sets (compare_sides env st (left_table m) (right_table m) s s) Malformed
         (columns (side_table m s)) st (node_cursors m))
       (\<lambda>cursors. mret (m\<lparr>node_cursors := cursors\<rparr>))"

definition comparator_new ::
  "canonical_allocator \<Rightarrow> nat \<Rightarrow> direct_columns \<Rightarrow> direct_columns \<Rightarrow> node_comparator metered" where
  "comparator_new env st left right =
     mbnd (build_table env left st) (\<lambda>l.
     mbnd (build_table env right st) (\<lambda>r.
     mbnd (validate_canonical_sets env st Left_Side
             \<lparr>left_table = l, right_table = r, node_cursors = (cursor_new, cursor_new)\<rparr>)
       (validate_canonical_sets env st Right_Side)))"

record root_merger = node_comparator +
  left_position :: usize
  right_position :: usize
  left_posting_position :: usize
  right_posting_position :: usize

definition side_compare_roots ::
  "canonical_allocator \<Rightarrow> nat \<Rightarrow> root_merger \<Rightarrow> table_side \<Rightarrow> table_side \<Rightarrow> root_ref \<Rightarrow> root_ref \<Rightarrow>
   cursor_pair \<Rightarrow> (ordering \<times> cursor_pair) metered" where
  "side_compare_roots env st m left_side right_side =
     compare_roots st (compare_sides env st (left_table m) (right_table m) left_side right_side)"

definition validate_group :: "canonical_allocator \<Rightarrow> nat \<Rightarrow> table_side \<Rightarrow> root_merger \<Rightarrow> root_merger metered" where
  "validate_group env st s m =
     mbnd (check_roots (side_compare_roots env st m s s) Malformed
         (columns (side_table m s)) st (node_cursors m))
       (\<lambda>cursors. mret (m\<lparr>node_cursors := cursors\<rparr>))"

definition root_merger_new ::
  "canonical_allocator \<Rightarrow> nat \<Rightarrow> direct_columns \<Rightarrow> direct_columns \<Rightarrow> root_merger metered" where
  "root_merger_new env st left right =
     mbnd (comparator_new env st left right) (\<lambda>m.
     mbnd (validate_group env st Left_Side (node_comparator.extend m
             \<lparr>left_position = 0, right_position = 0, left_posting_position = 0, right_posting_position = 0\<rparr>))
       (validate_group env st Right_Side))"

text \<open>The end of \<open>next\<close>: the positions that move on and the root that is recorded and returned.\<close>

fun advance :: "root_merger \<Rightarrow> merged_root \<Rightarrow> root_merger" where
  "advance m (Left_Root a) = m\<lparr>left_position := left_position m + 1\<rparr>"
| "advance m (Right_Root b) = m\<lparr>right_position := right_position m + 1\<rparr>"
| "advance m (Both_Roots a b) = m\<lparr>left_position := left_position m + 1, right_position := right_position m + 1\<rparr>"

definition is_both :: "merged_root \<Rightarrow> bool" where
  "is_both out = (case out of Both_Roots a b \<Rightarrow> True | _ \<Rightarrow> False)"

definition take_root :: "root_merger \<Rightarrow> merged_root \<Rightarrow> (merged_root option \<times> root_merger) metered" where
  "take_root m out = mseq (record_merged_root (is_both out)) (mret (Some out, advance m out))"

definition merger_next :: "canonical_allocator \<Rightarrow> nat \<Rightarrow> root_merger \<Rightarrow> (merged_root option \<times> root_merger) metered" where
  "merger_next env st m =
     mbnd (selected_root (columns (left_table m)) st (left_position m) (left_posting_position m)) (\<lambda>(left, lp, lq).
     mbnd (selected_root (columns (right_table m)) st (right_position m) (right_posting_position m)) (\<lambda>(right, rp, rq).
     let m' = m\<lparr>left_position := lp, left_posting_position := lq, right_position := rp, right_posting_position := rq\<rparr> in
     case (left, right) of
       (Some a, Some b) \<Rightarrow>
         mbnd (side_compare_roots env st m Left_Side Right_Side a b (node_cursors m)) (\<lambda>(outcome, cursors).
         take_root (m'\<lparr>node_cursors := cursors\<rparr>)
           (case outcome of Less \<Rightarrow> Left_Root a | Greater \<Rightarrow> Right_Root b | Equal \<Rightarrow> Both_Roots a b))
     | (None, None) \<Rightarrow> mret (None, m')
     | (None, Some b) \<Rightarrow> take_root m' (Right_Root b)
     | (Some a, None) \<Rightarrow> take_root m' (Left_Root a)))"

text \<open>\<open>compare\<close> of the comparator.\<close>

definition comparator_compare ::
  "canonical_allocator \<Rightarrow> nat \<Rightarrow> node_comparator \<Rightarrow> usize \<Rightarrow> usize \<Rightarrow> (ordering \<times> node_comparator) metered" where
  "comparator_compare env st m left_node right_node =
     mbnd (compare_sides env st (left_table m) (right_table m) Left_Side Right_Side left_node right_node (node_cursors m))
       (\<lambda>(outcome, cursors). mret (outcome, m\<lparr>node_cursors := cursors\<rparr>))"

text \<open>The constructors start with the budget of the caller's limits.\<close>

definition with_limits :: "usize \<Rightarrow> usize \<Rightarrow> 'a metered \<Rightarrow> ('a \<times> canonical_budget) kres" where
  "with_limits work_limit workspace_limit m =
     bnd (canonical_budget_new work_limit workspace_limit) (\<lambda>b.
     case m b of (Inl e, b') \<Rightarrow> Inl e | (Inr x, b') \<Rightarrow> Inr (x, b'))"

definition merge_two_tables ::
  "canonical_allocator \<Rightarrow> nat \<Rightarrow> usize \<Rightarrow> usize \<Rightarrow> direct_columns \<Rightarrow> direct_columns \<Rightarrow> (root_merger \<times> canonical_budget) kres" where
  "merge_two_tables env st work_limit workspace_limit left right =
     with_limits work_limit workspace_limit (root_merger_new env st left right)"

section \<open>Folds over a range\<close>

lemma mfold_append: "mfold f (xs @ ys) s = mbnd (mfold f xs s) (mfold f ys)"
  by (induction xs arbitrary: s) (auto simp: mbnd_def fun_eq_iff split: prod.splits sum.splits)

lemma mfold_upt:
  assumes "mfold f [0 ..< n] s b = (Inr t, b')" and "P 0 s"
    and "\<And>i s b s' b'. i < n \<Longrightarrow> P i s \<Longrightarrow> f i s b = (Inr s', b') \<Longrightarrow> P (Suc i) s'"
  shows "P n t"
  using assms
proof (induction n arbitrary: t b')
  case (Suc n)
  from Suc.prems(1) obtain u b1 where u: "mfold f [0 ..< n] s b = (Inr u, b1)" and l: "f n u b1 = (Inr t, b')"
    by (auto simp: mfold_append mbnd_Inr)
  have "P n u" by (rule Suc.IH [OF u Suc.prems(2)]) (use Suc.prems(3) in auto)
  with Suc.prems(3) l show ?case by blast
qed simp

section \<open>Metering\<close>

lemma metering_case_option: "metering a \<Longrightarrow> (\<And>x. metering (f x)) \<Longrightarrow> metering (case r of None \<Rightarrow> a | Some x \<Rightarrow> f x)"
  by (cases r) auto

lemma metering_check_sets [metering_intros]:
  "(\<And>l r cur. metering (compare l r cur)) \<Longrightarrow> metering (check_sets compare err c st cursors)"
  unfolding check_sets_def check_set_field_def check_set_pair_def set_item_node_def
  by (intro metering_intros metering_cases)

lemma metering_check_roots [metering_intros]:
  "(\<And>l r cur. metering (compare l r cur)) \<Longrightarrow> metering (check_roots compare err c st cursors)"
  unfolding check_roots_def check_root_def by (intro metering_intros metering_cases metering_case_option)

lemma metering_compare_roots [metering_intros]:
  "(\<And>l r cur. metering (compare l r cur)) \<Longrightarrow> metering (compare_roots st compare l r cursors)"
  unfolding compare_roots_def by (intro metering_intros)

lemma metering_match_posting [metering_intros]: "metering (match_posting c st target p)"
  by (induction c st target p rule: match_posting.induct)
    (subst match_posting.simps, intro metering_intros; blast)

lemma metering_selected_root [metering_intros]: "metering (selected_root c st p q)"
  by (induction c st p q rule: selected_root.induct)
    (subst selected_root.simps, intro metering_intros metering_cases; blast)

lemma metering_compare_sides [metering_intros]: "metering (compare_sides env st l r s s' m n cursors)"
  unfolding compare_sides_def Let_def by (intro metering_intros)

lemma metering_merger_next [metering_intros]: "metering (merger_next env st m)"
  unfolding merger_next_def take_root_def side_compare_roots_def Let_def
  by (intro metering_intros metering_cases metering_case_options)

lemma metering_root_merger_new [metering_intros]: "metering (root_merger_new env st left right)"
  unfolding root_merger_new_def comparator_new_def validate_canonical_sets_def validate_group_def side_compare_roots_def
  by (intro metering_intros)

end
