(* ===== verification/Canonical_Kway.thy ===== *)
theory Canonical_Kway
  imports Canonical_Merge
begin

text \<open>
  \<open>CanonicalKWayRootMerger\<close>: one pass over the roots of several tables in canonical order, each group
  of equal roots emitted once with its occurrence in every table. Where a table carries an anonymous
  scope map, its order is checked twice: in its own scopes and in the remapped ones.

  \<open>assign_anonymous_positions\<close> numbers the anonymous individuals of all tables by their effective
  identity, the smallest first; \<open>usize::MAX\<close> marks a coordinate that has no position yet.
\<close>

section \<open>State\<close>

record kway_merger =
  kway_tables :: "canonical_table list"
  kway_positions :: "usize list"
  kway_posting_positions :: "usize list"
  kway_candidates :: "root_ref option list"
  kway_roots :: "root_ref option list"
  kway_cursors :: cursor_pair

definition compare_nodes ::
  "canonical_allocator \<Rightarrow> nat \<Rightarrow> canonical_table list \<Rightarrow> usize \<Rightarrow> usize \<Rightarrow> usize \<Rightarrow> usize \<Rightarrow> cursor_pair \<Rightarrow>
   (ordering \<times> cursor_pair) metered" where
  "compare_nodes env st tables left_index right_index left_node right_node cursors =
     mbnd (mlift (load tables left_index)) (\<lambda>left.
     mbnd (mlift (load tables right_index)) (\<lambda>right.
     compare_table_nodes env st (left_index = right_index) left left_node right right_node cursors))"

definition kway_compare_roots ::
  "canonical_allocator \<Rightarrow> nat \<Rightarrow> canonical_table list \<Rightarrow> usize \<Rightarrow> root_ref \<Rightarrow> usize \<Rightarrow> root_ref \<Rightarrow> cursor_pair \<Rightarrow>
   (ordering \<times> cursor_pair) metered" where
  "kway_compare_roots env st tables left_index left right_index right =
     compare_roots st (compare_nodes env st tables left_index right_index) left right"

section \<open>Construction\<close>

definition validate_original_table_order ::
  "canonical_allocator \<Rightarrow> nat \<Rightarrow> canonical_table \<Rightarrow> cursor_pair \<Rightarrow> cursor_pair metered" where
  "validate_original_table_order env st t cursors =
     (let compare = (\<lambda>l r. compare_table_nodes env st True t l t r) in
      mbnd (check_sets compare Malformed (columns t) st cursors)
        (check_roots (compare_original_roots compare) Malformed (columns t) st))"

definition validate_original :: "canonical_allocator \<Rightarrow> nat \<Rightarrow> direct_columns \<Rightarrow> cursor_pair \<Rightarrow> cursor_pair metered" where
  "validate_original env st c cursors =
     (if has_anonymous_scope_map c then
        mbnd (build_table env (without_anonymous_scope_maps c) st) (\<lambda>original.
        attempt (validate_original_table_order env st original cursors) (\<lambda>validation.
        attempt (release_table env original) (\<lambda>release.
        mbnd (mlift validation) (\<lambda>cursors'.
        mseq (mlift release) (mret cursors')))))
      else mret cursors)"

definition validate_table :: "canonical_allocator \<Rightarrow> nat \<Rightarrow> usize \<Rightarrow> kway_merger \<Rightarrow> kway_merger metered" where
  "validate_table env st table m =
     mbnd (mlift (load (kway_tables m) table)) (\<lambda>t.
     let c = columns t; err = (if has_anonymous_scope_map c then Unsupported else Malformed) in
     mbnd (validate_original env st c (kway_cursors m)) (\<lambda>cursors1.
     mbnd (check_sets (compare_nodes env st (kway_tables m) table table) err c st cursors1) (\<lambda>cursors2.
     mbnd (check_roots (\<lambda>l r. kway_compare_roots env st (kway_tables m) table l table r) err c st cursors2) (\<lambda>cursors3.
     mret (m\<lparr>kway_cursors := cursors3\<rparr>)))))"

definition kway_new :: "canonical_allocator \<Rightarrow> nat \<Rightarrow> direct_columns list \<Rightarrow> kway_merger metered" where
  "kway_new env st cs =
     (let table_count = length cs in
      mbnd (allocate_vector env Tables_Vec table_count) (\<lambda>_.
      mbnd (mfold (\<lambda>c tables. mbnd (build_table env c st) (\<lambda>t. mret (tables @ [t]))) cs []) (\<lambda>tables.
      mbnd (allocate_vector env Positions_Vec table_count) (\<lambda>_.
      mbnd (allocate_vector env Positions_Vec table_count) (\<lambda>_.
      mbnd (allocate_vector env Candidates_Vec table_count) (\<lambda>_.
      mbnd (allocate_vector env Candidates_Vec table_count) (\<lambda>_.
      mfold (validate_table env st) [0 ..< table_count]
        \<lparr>kway_tables = tables, kway_positions = replicate table_count 0, kway_posting_positions = replicate table_count 0,
         kway_candidates = replicate table_count None, kway_roots = replicate table_count None,
         kway_cursors = (cursor_new, cursor_new)\<rparr>)))))))"

definition merge_tables ::
  "canonical_allocator \<Rightarrow> nat \<Rightarrow> usize \<Rightarrow> usize \<Rightarrow> direct_columns list \<Rightarrow> (kway_merger \<times> canonical_budget) kres" where
  "merge_tables env st work_limit workspace_limit cs =
     (if length cs < 2 then Inl Unsupported
      else with_limits work_limit workspace_limit (kway_new env st cs))"

section \<open>The next group\<close>

definition kway_candidate :: "nat \<Rightarrow> usize \<Rightarrow> kway_merger \<Rightarrow> kway_merger metered" where
  "kway_candidate st table m =
     mbnd (mlift (load (kway_tables m) table)) (\<lambda>t.
     mbnd (mlift (load (kway_positions m) table)) (\<lambda>position.
     mbnd (mlift (load (kway_posting_positions m) table)) (\<lambda>posting_position.
     mbnd (selected_root (columns t) st position posting_position) (\<lambda>(candidate, position', posting_position').
     mret (m\<lparr>kway_positions := (kway_positions m)[table := position'],
             kway_posting_positions := (kway_posting_positions m)[table := posting_position'],
             kway_candidates := (kway_candidates m)[table := candidate]\<rparr>)))))"

definition kway_minimum ::
  "canonical_allocator \<Rightarrow> nat \<Rightarrow> usize \<Rightarrow> usize option \<times> kway_merger \<Rightarrow> (usize option \<times> kway_merger) metered" where
  "kway_minimum env st table s = (case s of (minimum_table, m) \<Rightarrow>
     mbnd (mlift (load (kway_candidates m) table)) (\<lambda>entry.
     case entry of
       None \<Rightarrow> mret (minimum_table, m)
     | Some candidate \<Rightarrow> (case minimum_table of
         None \<Rightarrow> mret (Some table, m)
       | Some current_minimum \<Rightarrow>
           mbnd (mlift (load (kway_candidates m) current_minimum)) (\<lambda>minimum_entry.
           mbnd (mlift (ok_or Malformed minimum_entry)) (\<lambda>minimum.
           mbnd (kway_compare_roots env st (kway_tables m) table candidate current_minimum minimum (kway_cursors m))
             (\<lambda>(outcome, cursors).
              mret (if outcome = Less then Some table else minimum_table, m\<lparr>kway_cursors := cursors\<rparr>)))))))"

definition kway_take :: "usize \<Rightarrow> root_ref \<Rightarrow> bool \<Rightarrow> usize \<Rightarrow> kway_merger \<Rightarrow> (usize \<times> kway_merger) metered" where
  "kway_take table candidate same collected m =
     (if \<not> same then mret (collected, m) else
      mbnd (mlift (load (kway_positions m) table)) (\<lambda>position.
      mbnd (mlift (ok_or Resource (checked_add position 1))) (\<lambda>position'.
      mbnd (mlift (ok_or Resource (checked_add collected 1))) (\<lambda>collected'.
      mret (collected', m\<lparr>kway_roots := (kway_roots m)[table := Some candidate],
                          kway_positions := (kway_positions m)[table := position']\<rparr>)))))"

definition kway_collect ::
  "canonical_allocator \<Rightarrow> nat \<Rightarrow> usize \<Rightarrow> root_ref \<Rightarrow> usize \<Rightarrow> usize \<times> kway_merger \<Rightarrow> (usize \<times> kway_merger) metered" where
  "kway_collect env st minimum_table minimum table s = (case s of (collected, m) \<Rightarrow>
     mbnd (mlift (load (kway_candidates m) table)) (\<lambda>entry.
     case entry of
       None \<Rightarrow> mret (collected, m)
     | Some candidate \<Rightarrow>
         mbnd (if table = minimum_table then mret (True, kway_cursors m)
               else mbnd (kway_compare_roots env st (kway_tables m) table candidate minimum_table minimum (kway_cursors m))
                 (\<lambda>(outcome, cursors). mret (outcome = Equal, cursors))) (\<lambda>(same, cursors).
         kway_take table candidate same collected (m\<lparr>kway_cursors := cursors\<rparr>))))"

definition kway_next ::
  "canonical_allocator \<Rightarrow> nat \<Rightarrow> kway_merger \<Rightarrow> (root_ref option list option \<times> kway_merger) metered" where
  "kway_next env st m =
     (let table_count = length (kway_tables m);
          cleared = m\<lparr>kway_candidates := map (\<lambda>_. None) (kway_candidates m), kway_roots := map (\<lambda>_. None) (kway_roots m)\<rparr> in
      mbnd (mfold (kway_candidate st) [0 ..< table_count] cleared) (\<lambda>m1.
      mbnd (mfold (kway_minimum env st) [0 ..< table_count] (None, m1)) (\<lambda>(found, m2).
      case found of
        None \<Rightarrow> mret (None, m2)
      | Some minimum_table \<Rightarrow>
          mbnd (mlift (load (kway_candidates m2) minimum_table)) (\<lambda>minimum_entry.
          mbnd (mlift (ok_or Malformed minimum_entry)) (\<lambda>minimum.
          mbnd (mfold (kway_collect env st minimum_table minimum) [0 ..< table_count] (0, m2)) (\<lambda>(collected, m3).
          mbnd (mlift (ok_or Malformed (checked_sub collected 1))) (\<lambda>duplicate_count.
          mseq (record_merged_root_duplicates duplicate_count) (mret (Some (kway_roots m3), m3)))))))))"

section \<open>Anonymous positions\<close>

definition USIZE_MAX :: usize where
  "USIZE_MAX = 2 ^ 64 - 1"

definition compare_effective_anonymous_nodes ::
  "nat \<Rightarrow> canonical_table list \<Rightarrow> composite_node_coordinate \<Rightarrow> composite_node_coordinate \<Rightarrow> ordering metered" where
  "compare_effective_anonymous_nodes st tables left right =
     mseq (consume st 1) (
     mbnd (mlift (ok_or Malformed (get_at tables (node_table left)))) (\<lambda>left_t.
     mbnd (mlift (ok_or Malformed (get_at tables (node_table right)))) (\<lambda>right_t.
     mbnd (mlift (anonymous_parts (columns left_t) (coordinate_node left))) (\<lambda>(left_scope, left_key).
     mbnd (mlift (anonymous_parts (columns right_t) (coordinate_node right))) (\<lambda>(right_scope, right_key).
     mbnd (mlift (checked_total [length left_scope, length right_scope, length left_key, length right_key])) (\<lambda>amount.
     mseq (consume st amount) (
     if cmp left_scope right_scope \<noteq> Equal then mret (cmp left_scope right_scope) else
     if compare_canonical_varints (length left_key) (length right_key) \<noteq> Equal
     then mret (compare_canonical_varints (length left_key) (length right_key))
     else mret (cmp left_key right_key))))))))"

definition minimum_coordinate ::
  "nat \<Rightarrow> canonical_table list \<Rightarrow> composite_node_coordinate list \<Rightarrow> usize \<Rightarrow> usize option \<Rightarrow> usize option metered" where
  "minimum_coordinate st tables coordinates index best =
     (let coordinate = coordinates ! index in
      if node_canonical_order coordinate \<noteq> USIZE_MAX then mret best else
      case best of
        None \<Rightarrow> mret (Some index)
      | Some current \<Rightarrow>
          mbnd (compare_effective_anonymous_nodes st tables coordinate (coordinates ! current)) (\<lambda>outcome.
          mret (if outcome = Less then Some index else best)))"

definition assign_position ::
  "nat \<Rightarrow> canonical_table list \<Rightarrow> composite_node_coordinate \<Rightarrow> usize \<Rightarrow> usize \<Rightarrow> composite_node_coordinate list \<Rightarrow> composite_node_coordinate list metered" where
  "assign_position st tables minimum next_position index coordinates =
     (let coordinate = coordinates ! index in
      if node_canonical_order coordinate \<noteq> USIZE_MAX then mret coordinates else
      mbnd (compare_effective_anonymous_nodes st tables coordinate minimum) (\<lambda>outcome.
      mret (if outcome = Equal then coordinates[index := coordinate\<lparr>node_canonical_order := next_position\<rparr>]
            else coordinates)))"

text \<open>One round of the loop: \<open>None\<close> where no coordinate is left.\<close>

definition assign_round ::
  "nat \<Rightarrow> canonical_table list \<Rightarrow> usize \<Rightarrow> composite_node_coordinate list \<Rightarrow> (composite_node_coordinate list \<times> usize) option metered" where
  "assign_round st tables next_position coordinates =
     mbnd (mfold (minimum_coordinate st tables coordinates) [0 ..< length coordinates] None) (\<lambda>found.
     case found of
       None \<Rightarrow> mret None
     | Some minimum \<Rightarrow>
         mbnd (mfold (assign_position st tables (coordinates ! minimum) next_position) [0 ..< length coordinates] coordinates)
           (\<lambda>coordinates'.
         mbnd (mlift (ok_or Resource (checked_add next_position 1))) (\<lambda>next_position'.
         mret (Some (coordinates', next_position')))))"


section \<open>Metering\<close>

lemma metering_kway_compare_roots [metering_intros]: "metering (kway_compare_roots env st tables lt l rt r cursors)"
  unfolding kway_compare_roots_def compare_nodes_def by (intro metering_intros)

lemma metering_kway_new [metering_intros]: "metering (kway_new env st cs)"
  unfolding kway_new_def validate_table_def validate_original_def validate_original_table_order_def compare_original_roots_def
    compare_nodes_def Let_def
  by (intro metering_intros metering_cases)

lemma metering_kway_next [metering_intros]: "metering (kway_next env st m)"
  unfolding kway_next_def kway_candidate_def kway_minimum_def kway_collect_def kway_take_def Let_def
  by (intro metering_intros metering_cases metering_case_option)

lemma metering_compare_anonymous [metering_intros]: "metering (compare_effective_anonymous_nodes st tables l r)"
  unfolding compare_effective_anonymous_nodes_def by (intro metering_intros metering_cases)

lemma metering_assign_position [metering_intros]: "metering (assign_position st tables minimum p i coordinates)"
  unfolding assign_position_def Let_def by (intro metering_intros)

lemma metering_minimum_coordinate [metering_intros]: "metering (minimum_coordinate st tables coordinates i best)"
  unfolding minimum_coordinate_def Let_def by (intro metering_intros metering_case_option)

lemma metering_assign_round [metering_intros]: "metering (assign_round st tables p coordinates)"
  unfolding assign_round_def by (intro metering_intros metering_case_option)

section \<open>The rounds end\<close>

lemma compare_anonymous_progress:
  assumes "compare_effective_anonymous_nodes st tables l r b = (Inr outcome, b')"
  shows "work_left b' < work_left b"
  using assms unfolding compare_effective_anonymous_nodes_def
  by (rule mseq_progress [rotated]) (simp_all, intro metering_intros metering_cases)

lemma minimum_coordinate_found:
  assumes "mfold (minimum_coordinate st tables coordinates) is best b = (Inr (Some i), b')"
  shows "best = Some i \<or> (i \<in> set is \<and> node_canonical_order (coordinates ! i) = USIZE_MAX)"
  using assms
proof (induction "is" arbitrary: best b)
  case (Cons j "is")
  from Cons.prems obtain best1 b1 where s: "minimum_coordinate st tables coordinates j best b = (Inr best1, b1)"
    and r: "mfold (minimum_coordinate st tables coordinates) is best1 b1 = (Inr (Some i), b')"
    by (auto simp: mbnd_Inr)
  from s have "best1 = best \<or> (best1 = Some j \<and> node_canonical_order (coordinates ! j) = USIZE_MAX)"
    by (auto simp: minimum_coordinate_def Let_def mbnd_Inr split: if_splits option.splits)
  with Cons.IH [OF r] show ?case by auto
qed simp

lemma assign_positions_progress:
  assumes "mfold (assign_position st tables minimum p) is coordinates b = (Inr coordinates', b')"
    and "i \<in> set is" and "node_canonical_order (coordinates ! i) = USIZE_MAX"
  shows "work_left b' < work_left b"
  using assms
proof (induction "is" arbitrary: coordinates b)
  case (Cons j "is")
  from Cons.prems(1) obtain cs b1 where s: "assign_position st tables minimum p j coordinates b = (Inr cs, b1)"
    and r: "mfold (assign_position st tables minimum p) is cs b1 = (Inr coordinates', b')"
    by (auto simp: mbnd_Inr)
  have rest: "work_left b' \<le> work_left b1"
    using meteringD [OF metering_mfold [OF metering_assign_position] r] by (auto simp: spends_def work_left_def)
  show ?case
  proof (cases "node_canonical_order (coordinates ! j) = USIZE_MAX")
    case True
    with s obtain outcome where "compare_effective_anonymous_nodes st tables (coordinates ! j) minimum b = (Inr outcome, b1)"
      by (auto simp: assign_position_def Let_def mbnd_Inr)
    with compare_anonymous_progress rest show ?thesis by fastforce
  next
    case False
    with s have "cs = coordinates" "b1 = b" by (simp_all add: assign_position_def)
    moreover from False Cons.prems(2,3) have "i \<in> set is" by auto
    ultimately show ?thesis using Cons.IH r Cons.prems(3) by simp
  qed
qed simp

lemma assign_round_progress:
  assumes "assign_round st tables p coordinates b = (Inr (Some (coordinates', p')), b')"
  shows "work_left b' < work_left b"
proof -
  from assms obtain i b1 where f: "mfold (minimum_coordinate st tables coordinates) [0 ..< length coordinates] None b = (Inr (Some i), b1)"
    and a: "mfold (assign_position st tables (coordinates ! i) p) [0 ..< length coordinates] coordinates b1 = (Inr coordinates', b')"
    by (auto simp: assign_round_def mbnd_Inr split: option.splits)
  have "work_left b1 \<le> work_left b"
    using meteringD [OF metering_mfold [OF metering_minimum_coordinate] f] by (auto simp: spends_def work_left_def)
  moreover from minimum_coordinate_found [OF f] have "work_left b' < work_left b1"
    by (intro assign_positions_progress [OF a, of i]) auto
  ultimately show ?thesis by simp
qed

function assign_rounds ::
  "nat \<Rightarrow> canonical_table list \<Rightarrow> usize \<Rightarrow> composite_node_coordinate list \<Rightarrow> (composite_node_coordinate list \<times> usize) metered" where
  "assign_rounds st tables next_position coordinates b =
     (case assign_round st tables next_position coordinates b of
        (Inl e, b1) \<Rightarrow> (Inl e, b1)
      | (Inr None, b1) \<Rightarrow> (Inr (coordinates, next_position), b1)
      | (Inr (Some (coordinates', next_position')), b1) \<Rightarrow> assign_rounds st tables next_position' coordinates' b1)"
  by pat_completeness auto
termination
  by (relation "measure (\<lambda>(st, tables, p, coordinates, b). work_left b)")
    (auto intro: assign_round_progress [OF sym])

declare assign_rounds.simps [simp del]

definition assign_anonymous_positions ::
  "nat \<Rightarrow> kway_merger \<Rightarrow> composite_node_coordinate list \<Rightarrow> (composite_node_coordinate list \<times> usize) metered" where
  "assign_anonymous_positions st m = assign_rounds st (kway_tables m) 0"

end
