(* ===== verification/Canonical_Order.thy ===== *)
theory Canonical_Order
  imports Canonical_Kway
begin

text \<open>
  The order the mergers rely on. A locale states the contract of a node comparison (it answers the
  order of two keys); the order checks of both mergers are proved against it once, and it is
  interpreted on the byte-cursor comparison with the canonical codes as keys.
\<close>

section \<open>Keys\<close>

definition code_of :: "direct_columns \<Rightarrow> usize \<Rightarrow> nat list" where
  "code_of c n = (THE code. node_code c n code)"

lemma code_of: "node_code c n code \<Longrightarrow> code_of c n = code"
  unfolding code_of_def by (blast intro: node_code_unique)

definition ref_key :: "direct_columns \<Rightarrow> root_ref \<Rightarrow> nat \<times> nat list" where
  "ref_key c r = (ref_kind r, code_of c (root_node r))"

definition root_key :: "direct_columns \<Rightarrow> usize \<Rightarrow> nat \<times> nat list" where
  "root_key c i = (case read_root c i of Inl _ \<Rightarrow> (0, []) | Inr r \<Rightarrow> ref_key c r)"

definition node_known :: "canonical_table \<Rightarrow> usize \<Rightarrow> bool" where
  "node_known t n \<longleftrightarrow> table_ok t \<and> 1 \<le> n \<and> n \<le> node_count (columns t)"

lemma node_known_code: "node_known t n \<Longrightarrow> node_code (columns t) n (code_of (columns t) n)"
  unfolding node_known_def table_ok_def using code_of by metis

lemma table_ok_lengths_exact:
  assumes "table_ok t"
  shows "lengths_exact (columns t) (lengths t)"
  unfolding lengths_exact_def
proof (intro allI impI)
  fix n code assume code: "node_code (columns t) n code" and "n < length (lengths t)"
  from code have "1 \<le> n" "n \<le> node_count (columns t)" by (auto elim!: node_code.cases simp: node_tag_def res_simps)
  with assms obtain code' where "node_code (columns t) n code'" and "length code' = lengths t ! n"
    unfolding table_ok_def by blast
  with code show "lengths t ! n = length code" using node_code_unique by metis
qed

lemma compare_table_nodes_order:
  assumes "compare_table_nodes env st same lt l rt r cursors b = (Inr (outcome, cursors'), b')"
    and l: "node_known lt l" and r: "node_known rt r" and "same \<longrightarrow> lt = rt"
  shows "outcome = cmp (code_of (columns lt) l) (code_of (columns rt) r)"
proof (cases "same \<and> l = r")
  case True
  with assms show ?thesis by (auto simp: compare_table_nodes_def mseq_Inr)
next
  case False
  with assms(1) obtain lc b1 rc b2 b0 where "reset_cursor env l (fst cursors) b0 = (Inr lc, b1)"
    and "reset_cursor env r (snd cursors) b1 = (Inr rc, b2)"
    and c: "compare_bytes env st lt rt (lc, rc) b2 = (Inr (outcome, cursors'), b')"
    unfolding compare_table_nodes_def by (auto simp: mseq_Inr mbnd_Inr)
  with reset_cursor_emits node_known_code [OF l] node_known_code [OF r]
  have "stack_emits (columns lt) (tasks lc) (code_of (columns lt) l)" "stack_emits (columns rt) (tasks rc) (code_of (columns rt) r)"
    by blast+
  with compare_bytes_order [OF c] l r show ?thesis by (simp add: node_known_def table_ok_lengths_exact)
qed

section \<open>Comparisons and order checks\<close>

lemma mfold_member:
  assumes "mfold f xs s b = (Inr t, b')" and "x \<in> set xs"
  shows "\<exists>s1 b1 t1 b2. f x s1 b1 = (Inr t1, b2)"
  using assms by (induction xs arbitrary: s b) (auto simp: mbnd_Inr)

lemma set_item_node_at: "set_item_node c st i b = (Inr n, b') \<Longrightarrow> component_at c i True = Inr (C_Node n)"
proof -
  assume "set_item_node c st i b = (Inr n, b')"
  then obtain cv b1 where at: "canonical_component c st i True b = (Inr cv, b1)"
    and "(case cv of C_Node n \<Rightarrow> mret n | _ \<Rightarrow> mlift (Inl Malformed)) b1 = (Inr n, b')"
    by (auto simp: set_item_node_def mbnd_Inr simp del: mret_run mlift_run)
  then have "cv = C_Node n" by (cases cv) auto
  with canonical_component_at(1) [OF at] show ?thesis by simp
qed

locale root_comparison =
  fixes compare :: "root_ref \<Rightarrow> root_ref \<Rightarrow> cursor_pair \<Rightarrow> (ordering \<times> cursor_pair) metered"
    and left_key right_key :: "root_ref \<Rightarrow> 'k::linorder"
    and left_known right_known :: "root_ref \<Rightarrow> bool"
  assumes compare_key: "left_known x \<Longrightarrow> right_known y \<Longrightarrow> compare x y cursors b = (Inr (outcome, cursors'), b') \<Longrightarrow>
    outcome = cmp (left_key x) (right_key y)"
begin

text \<open>Where the keys of both sides are the same, a group of roots that passes is strictly ascending.\<close>

lemma check_root_folds:
  assumes "mfold (check_root compare err c st) [a ..< a + n] (previous, cursors) b = (Inr s, b')"
    and key: "left_key = right_key" and known: "\<And>i r. read_root c i = Inr r \<Longrightarrow> left_known r \<and> right_known r"
    and prev: "\<And>p. previous = Some p \<Longrightarrow> left_known p"
  shows "\<exists>rs. map (read_root c) [a ..< a + n] = map Inr rs \<and>
    sorted_wrt (<) (map left_key ((case previous of None \<Rightarrow> [] | Some p \<Rightarrow> [p]) @ rs))"
  using assms(1) prev
proof (induction n arbitrary: a previous cursors b)
  case 0
  then show ?case by (cases previous) auto
next
  case (Suc n)
  have u: "[a ..< a + Suc n] = a # [Suc a ..< Suc a + n]" by (simp add: upt_conv_Cons del: upt_Suc)
  from Suc.prems(1) obtain s1 b1 where 1: "check_root compare err c st a (previous, cursors) b = (Inr s1, b1)"
    and 2: "mfold (check_root compare err c st) [Suc a ..< Suc a + n] s1 b1 = (Inr s, b')"
    unfolding u by (auto simp: mbnd_Inr)
  from 1 obtain r cursors1 where r: "read_root c a = Inr r" and s1: "s1 = (Some r, cursors1)"
    and less: "\<And>p. previous = Some p \<Longrightarrow> left_key p < right_key r"
  proof (cases previous)
    case None
    with 1 obtain r where "read_root c a = Inr r" "s1 = (Some r, cursors)" by (auto simp: check_root_def mseq_Inr mbnd_Inr)
    with None show thesis by (intro that) auto
  next
    case (Some p)
    with 1 obtain r b2 b3 cursors1 where r: "read_root c a = Inr r" and c: "compare p r cursors b2 = (Inr (Less, cursors1), b3)"
      and "s1 = (Some r, cursors1)" by (auto simp: check_root_def mseq_Inr mbnd_Inr split: if_splits)
    moreover from compare_key [OF Suc.prems(2) [OF Some] _ c] known [OF r] have "cmp (left_key p) (right_key r) = Less" by simp
    ultimately show thesis using that Some by simp
  qed
  from 2 have "mfold (check_root compare err c st) [Suc a ..< Suc a + n] (Some r, cursors1) b1 = (Inr s, b')" by (simp add: s1)
  from Suc.IH [OF this] known [OF r] obtain rs where m: "map (read_root c) [Suc a ..< Suc a + n] = map Inr rs"
    and srt: "sorted_wrt (<) (map left_key ([r] @ rs))" by auto
  have "map (read_root c) [a ..< a + Suc n] = map Inr (r # rs)" unfolding u using m r by simp
  moreover have "sorted_wrt (<) (map left_key ((case previous of None \<Rightarrow> [] | Some p \<Rightarrow> [p]) @ r # rs))"
    using srt less by (cases previous) (auto simp: key)
  ultimately show ?case by blast
qed

lemma check_roots_sorted:
  assumes "check_roots compare err c st cursors b = (Inr cursors', b')"
    and "left_key = right_key" and "\<And>i r. read_root c i = Inr r \<Longrightarrow> left_known r \<and> right_known r"
  shows "\<exists>rs. map (read_root c) [0 ..< root_count c] = map Inr rs \<and> sorted_wrt (<) (map left_key rs)"
proof -
  from assms(1) obtain s b1 where "mfold (check_root compare err c st) [0 ..< 0 + root_count c] (None, cursors) b = (Inr s, b1)"
    by (auto simp: check_roots_def mbnd_Inr)
  from check_root_folds [OF this assms(2,3)] show ?thesis by auto
qed

end

locale node_comparison =
  fixes compare :: "usize \<Rightarrow> usize \<Rightarrow> cursor_pair \<Rightarrow> (ordering \<times> cursor_pair) metered"
    and left_key right_key :: "usize \<Rightarrow> 'k::linorder"
    and left_known right_known :: "usize \<Rightarrow> bool"
    and st :: nat
  assumes compare_key: "left_known x \<Longrightarrow> right_known y \<Longrightarrow> compare x y cursors b = (Inr (outcome, cursors'), b') \<Longrightarrow>
    outcome = cmp (left_key x) (right_key y)"

sublocale node_comparison \<subseteq> charged: root_comparison "compare_roots st compare"
    "\<lambda>r. (ref_kind r, left_key (root_node r))" "\<lambda>r. (ref_kind r, right_key (root_node r))"
    "\<lambda>r. left_known (root_node r)" "\<lambda>r. right_known (root_node r)"
  by unfold_locales
    (auto simp: compare_roots_def mseq_Inr cmp_def split: if_splits dest!: compare_key)

sublocale node_comparison \<subseteq> uncharged: root_comparison "compare_original_roots compare"
    "\<lambda>r. (ref_kind r, left_key (root_node r))" "\<lambda>r. (ref_kind r, right_key (root_node r))"
    "\<lambda>r. left_known (root_node r)" "\<lambda>r. right_known (root_node r)"
  by unfold_locales
    (auto simp: compare_original_roots_def cmp_def split: if_splits dest!: compare_key)

context node_comparison begin

text \<open>Every set that passes lists its nodes in strictly ascending order of their keys.\<close>

lemma check_pairs_sorted:
  assumes "mfold (check_set_pair compare err c st start) [a ..< a + k] cursors b = (Inr cursors', b')" and "1 \<le> a"
    and key: "left_key = right_key"
    and known: "\<And>i n. component_at c i True = Inr (C_Node n) \<Longrightarrow> left_known n \<and> right_known n"
    and first: "component_at c (start + a - 1) True = Inr (C_Node n0)"
  shows "\<exists>ns. map (\<lambda>i. component_at c (start + i) True) [a ..< a + k] = map (\<lambda>n. Inr (C_Node n)) ns \<and>
    sorted_wrt (<) (map left_key (n0 # ns))"
  using assms(1,2) first
proof (induction k arbitrary: a cursors b n0)
  case (Suc k)
  have u: "[a ..< a + Suc k] = a # [Suc a ..< Suc a + k]" by (simp add: upt_conv_Cons del: upt_Suc)
  from Suc.prems(1) obtain cur1 b1 where 1: "check_set_pair compare err c st start a cursors b = (Inr cur1, b1)"
    and 2: "mfold (check_set_pair compare err c st start) [Suc a ..< Suc a + k] cur1 b1 = (Inr cursors', b')"
    unfolding u by (auto simp: mbnd_Inr)
  from 1 obtain p n b2 b3 b4 b5 b6 where "set_item_node c st (start + a - 1) b2 = (Inr p, b5)"
    and "set_item_node c st (start + a) b5 = (Inr n, b3)" and c: "compare p n cursors b3 = (Inr (Less, cur1), b4)"
    by (auto simp: check_set_pair_def mseq_Inr mbnd_Inr split: if_splits)
  with set_item_node_at have "component_at c (start + a - 1) True = Inr (C_Node p)" and n: "component_at c (start + a) True = Inr (C_Node n)"
    by blast+
  with Suc.prems(3) have p: "p = n0" by simp
  from compare_key [OF _ _ c, symmetric] known [OF Suc.prems(3)] known [OF n] have less: "left_key n0 < left_key n"
    by (simp add: p key)
  from Suc.IH [OF 2 _, of n] n obtain ns where m: "map (\<lambda>i. component_at c (start + i) True) [Suc a ..< Suc a + k] = map (\<lambda>n. Inr (C_Node n)) ns"
    and s: "sorted_wrt (<) (map left_key (n # ns))" by auto
  have "map (\<lambda>i. component_at c (start + i) True) [a ..< a + Suc k] = map (\<lambda>n. Inr (C_Node n)) (n # ns)"
    unfolding u using m n by simp
  moreover have "sorted_wrt (<) (map left_key (n0 # n # ns))" using s less by auto
  ultimately show ?case by blast
qed simp

lemma check_sets_sorted:
  assumes c: "check_sets compare err c st cursors b = (Inr cursors', b')"
    and key: "left_key = right_key"
    and known: "\<And>i n. component_at c i True = Inr (C_Node n) \<Longrightarrow> left_known n \<and> right_known n"
    and f: "f < field_count c" and set_field: "component_at c f False = Inr (C_Collection COMPONENT_SET start len)" and "0 < len"
    and first: "component_at c start True = Inr (C_Node n0)"
  shows "\<exists>ns. map (\<lambda>i. component_at c i True) [start ..< start + len] = map (\<lambda>n. Inr (C_Node n)) ns \<and>
    sorted_wrt (<) (map left_key ns)"
proof -
  from mfold_member [OF c [unfolded check_sets_def], of f] f
  obtain cur b1 cur' b2 where "check_set_field compare err c st f cur b1 = (Inr cur', b2)" by auto
  then obtain kind b3 where k: "field_kind c f = Inr kind" and
    body: "(if kind \<noteq> COMPONENT_SET then mret cur else
     mbnd (canonical_component c st f False) (\<lambda>cv.
     case cv of
       C_Collection kind' start len \<Rightarrow>
         if kind' \<noteq> COMPONENT_SET then mlift (Inl Malformed)
         else mfold (check_set_pair compare err c st start) [1 ..< len] cur
     | _ \<Rightarrow> mlift (Inl Malformed))) b3 = (Inr cur', b2)"
    by (auto simp: check_set_field_def mseq_Inr mbnd_Inr simp del: mret_run)
  from set_field k have kind: "kind = COMPONENT_SET"
    by (auto simp: component_at_def component_cells_def res_simps split: if_splits)
  with body obtain cv b4 where at: "canonical_component c st f False b3 = (Inr cv, b4)"
    and r: "(case cv of C_Collection kind' start len \<Rightarrow>
         if kind' \<noteq> COMPONENT_SET then mlift (Inl Malformed)
         else mfold (check_set_pair compare err c st start) [1 ..< len] cur
     | _ \<Rightarrow> mlift (Inl Malformed)) b4 = (Inr cur', b2)" by (simp only: kind mbnd_Inr simp_thms if_False) blast
  from canonical_component_at(1) [OF at] set_field have "cv = C_Collection COMPONENT_SET start len" by simp
  with r \<open>0 < len\<close> have pairs: "mfold (check_set_pair compare err c st start) [1 ..< 1 + (len - 1)] cur b4 = (Inr cur', b2)" by simp
  have "\<exists>ns. map (\<lambda>i. component_at c (start + i) True) [1 ..< 1 + (len - 1)] = map (\<lambda>n. Inr (C_Node n)) ns \<and>
      sorted_wrt (<) (map left_key (n0 # ns))"
    by (rule check_pairs_sorted [OF pairs _ key]) (use known first in auto)
  then obtain ns where m: "map (\<lambda>i. component_at c (start + i) True) [1 ..< 1 + (len - 1)] = map (\<lambda>n. Inr (C_Node n)) ns"
    and s: "sorted_wrt (<) (map left_key (n0 # ns))" by blast
  have "map (\<lambda>i. component_at c i True) [start ..< start + len] = map (\<lambda>i. component_at c (start + i) True) [0 ..< len]"
    by (simp add: list_eq_iff_nth_eq)
  also have "[0 ..< len] = 0 # [1 ..< 1 + (len - 1)]" using \<open>0 < len\<close> by (simp add: upt_conv_Cons)
  finally have "map (\<lambda>i. component_at c i True) [start ..< start + len] = map (\<lambda>n. Inr (C_Node n)) (n0 # ns)"
    using m first by simp
  with s show ?thesis by blast
qed

end

interpretation coded: node_comparison "\<lambda>l r. compare_table_nodes env st same lt l rt r"
    "code_of (columns lt)" "code_of (columns rt)" "\<lambda>n. node_known lt n \<and> (same \<longrightarrow> lt = rt)" "node_known rt" st
  for env same lt rt st
  by unfold_locales (auto dest: compare_table_nodes_order)

end
