(* ===== verification/Canonical_Selection.thy ===== *)
theory Canonical_Selection
  imports Canonical_Order
begin

text \<open>
  What \<open>selected_root\<close> finds: from a root position and a posting position that fit together it reaches
  the next selected root, if there is one. \<open>remaining\<close> lists the keys of the selected roots still to
  come, the abstract state of one table in a merge.
\<close>

definition postings_readable :: "direct_columns \<Rightarrow> bool" where
  "postings_readable c \<longleftrightarrow> sorted (postings c) \<and> length (postings c) = posting_count c \<and>
     (\<forall>j < posting_count c. posting_at c j = Inr (postings c ! j))"

definition roots_ascending :: "direct_columns \<Rightarrow> bool" where
  "roots_ascending c \<longleftrightarrow> (\<forall>i < root_count c. \<exists>r. read_root c i = Inr r) \<and>
     sorted_wrt (<) (map (root_key c) [0 ..< root_count c])"

definition aligned :: "direct_columns \<Rightarrow> usize \<Rightarrow> usize \<Rightarrow> bool" where
  "aligned c position posting_position \<longleftrightarrow>
     (\<forall>j < posting_position. j < posting_count c \<longrightarrow> postings c ! j \<le> position)"

definition remaining :: "direct_columns \<Rightarrow> usize \<Rightarrow> (nat \<times> nat list) list" where
  "remaining c position = map (root_key c) (filter (selected c) [position ..< root_count c])"

definition selected_keys :: "direct_columns \<Rightarrow> (nat \<times> nat list) list" where
  "selected_keys c = remaining c 0"

lemma sorted_wrt_map_filter:
  "sorted_wrt (<) (map f (xs :: 'a list)) \<Longrightarrow> sorted_wrt (<) (map f (filter P xs))"
  for f :: "'a \<Rightarrow> 'k :: order"
  by (induction xs) auto

lemma selected_keys_ascending:
  assumes "roots_ascending c"
  shows "sorted_wrt (<) (remaining c p)"
proof (cases "p \<le> root_count c")
  case True
  then have "[0 ..< root_count c] = [0 ..< p] @ [p ..< root_count c]"
    using upt_add_eq_append [of 0 p "root_count c - p"] by simp
  with assms have "sorted_wrt (<) (map (root_key c) [p ..< root_count c])"
    by (simp add: roots_ascending_def sorted_wrt_append)
  then show ?thesis unfolding remaining_def by (rule sorted_wrt_map_filter)
qed (simp add: remaining_def)

lemma match_posting_finds:
  assumes "match_posting c st target p b = (Inr (matched, p'), b')" and "postings_readable c" and "0 < target"
    and "aligned c (target - 1) p"
  shows "matched \<longleftrightarrow> target \<in> set (postings c)" and "aligned c target p'"
    and "\<not> matched \<or> included_root_ids c \<noteq> [] \<Longrightarrow> aligned c (target - 1) p'"
proof -
  have "(matched \<longleftrightarrow> target \<in> set (postings c)) \<and> aligned c target p' \<and>
      (\<not> matched \<or> included_root_ids c \<noteq> [] \<longrightarrow> aligned c (target - 1) p')"
    using assms
  proof (induction c st target p arbitrary: b rule: match_posting.induct)
    case (1 c st target p)
    from 1(3) have srt: "sorted (postings c)" and len: "length (postings c) = posting_count c"
      and read: "\<And>j. j < posting_count c \<Longrightarrow> posting_at c j = Inr (postings c ! j)" by (auto simp: postings_readable_def)
    have before: "postings c ! j < target" if "j < p" "j < posting_count c" for j
      using 1(4,5) that by (auto simp: aligned_def)
    have weak: "aligned c (target - 1) q \<Longrightarrow> aligned c target q" for q by (auto simp: aligned_def)
    show ?case
    proof (cases "p < posting_count c")
      case False
      with 1(2) have r: "\<not> matched" "p' = p" by (subst (asm) match_posting.simps, simp)+
      have "target \<notin> set (postings c)" using before False len by (auto simp: in_set_conv_nth)
      with r 1(5) weak show ?thesis by simp
    next
      case True
      let ?x = "postings c ! p"
      from 1(2) [unfolded match_posting.simps [of c st target p]] True obtain b1 where r: "(if ?x < target then match_posting c st target (p + 1)
        else if ?x = target then mret (True, if included_root_ids c \<noteq> [] then p else p + 1)
        else mret (False, p)) b1 = (Inr (matched, p'), b')"
        by (auto simp: mseq_Inr mbnd_Inr read simp del: mret_run split del: if_split)
      consider (less) "?x < target" | (equal) "?x = target" | (greater) "target < ?x" by linarith
      then show ?thesis
      proof cases
        case less
        have "aligned c (target - 1) (p + 1)"
          using before less 1(5) by (auto simp: aligned_def less_Suc_eq)
        with 1(1) [OF True _ _, of ?x] less r 1(3,4) show ?thesis by simp
      next
        case equal
        with r have "matched" "p' = (if included_root_ids c \<noteq> [] then p else p + 1)" by simp_all
        moreover from equal True len have "target \<in> set (postings c)" by (metis nth_mem)
        moreover have "aligned c target (p + 1)" using before equal by (auto simp: aligned_def less_Suc_eq intro: less_imp_le)
        ultimately show ?thesis using 1(5) weak by simp
      next
        case greater
        with r have "\<not> matched" "p' = p" by simp_all
        moreover have "target \<notin> set (postings c)"
        proof
          assume "target \<in> set (postings c)"
          then obtain j where j: "j < posting_count c" "postings c ! j = target" using len by (metis in_set_conv_nth)
          with before have "p \<le> j" by (meson leI less_irrefl)
          with sorted_nth_mono [OF srt, of p j] j len greater show False by simp
        qed
        ultimately show ?thesis using 1(5) weak by simp
      qed
    qed
  qed
  then show "matched \<longleftrightarrow> target \<in> set (postings c)" "aligned c target p'"
    "\<not> matched \<or> included_root_ids c \<noteq> [] \<Longrightarrow> aligned c (target - 1) p'" by blast+
qed

lemma remaining_unselected: "p < root_count c \<Longrightarrow> \<not> selected c p \<Longrightarrow> remaining c p = remaining c (p + 1)"
  and remaining_selected: "p < root_count c \<Longrightarrow> selected c p \<Longrightarrow> remaining c p = root_key c p # remaining c (p + 1)"
  by (simp_all add: remaining_def upt_conv_Cons)

lemma remaining_end: "root_count c \<le> p \<Longrightarrow> remaining c p = []"
  by (simp add: remaining_def)

text \<open>The outcome of a call, for the root it returns and the positions it leaves.\<close>

definition selection_ok :: "direct_columns \<Rightarrow> usize \<Rightarrow> root_ref option \<times> usize \<times> usize \<Rightarrow> bool" where
  "selection_ok c position res \<longleftrightarrow> (case res of (found, p', q') \<Rightarrow>
     remaining c position = remaining c p' \<and> aligned c p' q' \<and>
     (case found of
        None \<Rightarrow> remaining c p' = []
      | Some r \<Rightarrow> read_root c p' = Inr r \<and> p' < root_count c \<and> remaining c p' = ref_key c r # remaining c (p' + 1) \<and>
          aligned c (p' + 1) q'))"

lemma selected_root_finds:
  assumes "selected_root c st p q b = (Inr res, b')" and "postings_readable c" and "aligned c p q"
  shows "selection_ok c p res"
  using assms
proof (induction c st p q arbitrary: b rule: selected_root.induct)
  case (1 c st p q)
  show ?case
  proof (cases "p < root_count c")
    case False
    with 1(2) have "res = (None, p, q)" by (subst (asm) selected_root.simps) simp
    with False 1(4) show ?thesis by (simp add: selection_ok_def remaining_end)
  next
    case True
    from 1(2) [unfolded selected_root.simps [of c st p q]] True obtain matched q' b1 b2 b3 where f: "fits (p + 1)" and m: "match_posting c st (p + 1) q b2 = (Inr (matched, q'), b3)"
      and r: "(if (if included_root_ids c \<noteq> [] then matched else \<not> matched)
        then mbnd (mlift (read_root c p)) (\<lambda>r. mret (Some r, p, q')) else selected_root c st (p + 1) q') b3 = (Inr res, b')"
      by (auto simp: mseq_Inr mbnd_Inr res_simps simp del: mret_run split del: if_split)
    have al: "aligned c (p + 1 - 1) q" using 1(4) by simp
    from match_posting_finds [OF m 1(3) _ al] have mt: "matched \<longleftrightarrow> p + 1 \<in> set (postings c)" and
      a1: "aligned c (p + 1) q'" and a0: "\<not> matched \<or> included_root_ids c \<noteq> [] \<Longrightarrow> aligned c p q'" by simp_all
    have sel: "(if included_root_ids c \<noteq> [] then matched else \<not> matched) \<longleftrightarrow> selected c p"
      using mt by (simp add: selected_def)
    show ?thesis
    proof (cases "selected c p")
      case True
      with r sel obtain x where x: "read_root c p = Inr x" and res: "res = (Some x, p, q')" by (auto simp: mbnd_Inr)
      from sel True have "\<not> matched \<or> included_root_ids c \<noteq> []" by (auto split: if_splits)
      with a0 a1 x True \<open>p < root_count c\<close> show ?thesis
        by (simp add: selection_ok_def res remaining_selected root_key_def)
    next
      case False
      with r sel have "selected_root c st (p + 1) q' b3 = (Inr res, b')" by simp
      with 1(1) [OF True, of matched q' b3] sel False a1 1(3) have "selection_ok c (p + 1) res" by simp
      with remaining_unselected [OF True False] show ?thesis by (simp add: selection_ok_def)
    qed
  qed
qed

section \<open>Roots that were read\<close>

definition root_read :: "direct_columns \<Rightarrow> root_ref \<Rightarrow> bool" where
  "root_read c r \<longleftrightarrow> ref_index r < root_count c \<and> read_root c (ref_index r) = Inr r"

lemma root_read_key: "root_read c r \<Longrightarrow> ref_key c r = root_key c (ref_index r)"
  by (simp add: root_read_def root_key_def)

lemma selection_read:
  assumes "selection_ok c p (Some r, p', q')"
  shows "root_read c r"
proof -
  from assms have "read_root c p' = Inr r" "p' < root_count c" by (simp_all add: selection_ok_def)
  moreover from this(1) have "ref_index r = p'" by (auto simp: read_root_def res_simps)
  ultimately show ?thesis by (simp add: root_read_def)
qed

lemma root_key_less:
  assumes "roots_ascending c" and "i < root_count c" and "j < root_count c"
  shows "root_key c i < root_key c j \<longleftrightarrow> i < j"
proof -
  from assms(1) have s: "sorted_wrt (<) (map (root_key c) [0 ..< root_count c])" by (simp add: roots_ascending_def)
  have "root_key c a < root_key c b" if "a < b" "b < root_count c" for a b
    using sorted_wrt_nth_less [OF s, of a b] that by simp
  with assms(2,3) show ?thesis by (metis less_asym' nat_neq_iff order_less_irrefl)
qed

lemma root_key_eq:
  assumes "roots_ascending c" and "i < root_count c" and "j < root_count c"
  shows "root_key c i = root_key c j \<longleftrightarrow> i = j"
  using root_key_less [OF assms] root_key_less [OF assms(1,3,2)] by (metis nat_neq_iff order_less_irrefl)

lemma remaining_member:
  assumes "roots_ascending c" and "j < root_count c"
  shows "root_key c j \<in> set (remaining c p) \<longleftrightarrow> selected c j \<and> p \<le> j"
  using assms by (auto simp: remaining_def root_key_eq)

end
