(* ===== verification/Merged_Roots.thy ===== *)
theory Merged_Roots
  imports Canonical_Selection
begin

text \<open>
  The two-table merger is correct: a merger that was built keeps \<open>merger_ok\<close>, and the roots it returns
  one by one are the union of the selected roots of both tables, each canonical key once and in
  ascending order, paired exactly where both tables select it.
\<close>

section \<open>A checked table\<close>

definition mergeable :: "canonical_table \<Rightarrow> bool" where
  "mergeable t \<longleftrightarrow> table_ok t \<and> postings_readable (columns t) \<and> roots_ascending (columns t)"

lemma read_root_known:
  assumes "table_ok t" and "read_root (columns t) i = Inr r"
  shows "node_known t (root_node r)"
  using assms by (auto simp: read_root_def root_id_def node_known_def res_simps)

lemma validated_postings:
  assumes "validate_generic c st = Inr ()" and "buffers_fit c"
  shows "postings_readable c"
proof -
  from postings_ok [OF assms] have "sorted (postings c)" by (simp add: strict_sorted_iff)
  then show ?thesis using read_u32_column buffers_fitD(1,2) [OF assms(2)]
    by (simp add: postings_readable_def postings_def posting_count_def posting_at_def included_root_position_def
        excluded_root_position_def)
qed

lemma checked_roots_ascending:
  assumes "map (read_root c) [0 ..< root_count c] = map Inr rs" and "sorted_wrt (<) (map (ref_key c) rs)"
  shows "roots_ascending c"
proof -
  from assms(1) have l: "length rs = root_count c" by (metis length_map minus_nat.diff_0 length_upt)
  have r: "read_root c i = Inr (rs ! i)" if "i < root_count c" for i
    using assms(1) that l by (auto simp: list_eq_iff_nth_eq)
  have "map (root_key c) [0 ..< root_count c] = map (ref_key c) rs"
    using l by (simp add: list_eq_iff_nth_eq root_key_def r)
  with assms(2) r show ?thesis by (simp add: roots_ascending_def)
qed

text \<open>The order check of a group, with the comparison of one table's roots.\<close>

lemma checked_group:
  assumes t: "table_ok t"
    and c: "check_roots (compare_roots st (\<lambda>l r. compare_table_nodes env st same t l t r)) err (columns t) st cursors b = (Inr cursors', b')"
  shows "roots_ascending (columns t)"
proof -
  have "\<exists>rs. map (read_root (columns t)) [0 ..< root_count (columns t)] = map Inr rs \<and>
      sorted_wrt (<) (map (\<lambda>r. (ref_kind r, code_of (columns t) (root_node r))) rs)"
    by (rule coded.charged.check_roots_sorted [OF c]) (use read_root_known [OF t] in auto)
  then show ?thesis using checked_roots_ascending unfolding ref_key_def by blast
qed

section \<open>The invariant of the merger\<close>

definition merger_ok :: "root_merger \<Rightarrow> bool" where
  "merger_ok m \<longleftrightarrow> mergeable (left_table m) \<and> mergeable (right_table m) \<and>
     aligned (columns (left_table m)) (left_position m) (left_posting_position m) \<and>
     aligned (columns (right_table m)) (right_position m) (right_posting_position m)"

definition left_remaining :: "root_merger \<Rightarrow> (nat \<times> nat list) list" where
  "left_remaining m = remaining (columns (left_table m)) (left_position m)"

definition right_remaining :: "root_merger \<Rightarrow> (nat \<times> nat list) list" where
  "right_remaining m = remaining (columns (right_table m)) (right_position m)"

lemma compare_sides_same: "compare_sides env st l r s s = (\<lambda>m n. compare_table_nodes env st True (case s of Left_Side \<Rightarrow> l | Right_Side \<Rightarrow> r) m
    (case s of Left_Side \<Rightarrow> l | Right_Side \<Rightarrow> r) n)"
  by (intro ext) (simp add: compare_sides_def Let_def)

lemma compare_sides_cross:
  "compare_sides env st l r Left_Side Right_Side = (\<lambda>m n. compare_table_nodes env st False l m r n)"
  by (intro ext) (simp add: compare_sides_def Let_def)

lemma validate_group_ascending:
  assumes "validate_group env st s m b = (Inr m', b')" and "table_ok (side_table m s)"
  shows "roots_ascending (columns (side_table m s))" and "\<exists>cursors. m' = m\<lparr>node_cursors := cursors\<rparr>"
proof -
  from assms(1) obtain cursors b1 where c: "check_roots (side_compare_roots env st m s s) Malformed
      (columns (side_table m s)) st (node_cursors m) b = (Inr cursors, b1)" and m': "m' = m\<lparr>node_cursors := cursors\<rparr>"
    by (auto simp: validate_group_def mbnd_Inr)
  have "side_compare_roots env st m s s =
      compare_roots st (\<lambda>l r. compare_table_nodes env st True (side_table m s) l (side_table m s) r)"
    by (cases s) (simp_all add: side_compare_roots_def compare_sides_same)
  from checked_group [OF assms(2) c [unfolded this]] show "roots_ascending (columns (side_table m s))" .
  from m' show "\<exists>cursors. m' = m\<lparr>node_cursors := cursors\<rparr>" by blast
qed

lemma root_merger_new_ok:
  assumes n: "root_merger_new env st left right b = (Inr m, b')" and fit: "buffers_fit left" "buffers_fit right"
  shows "merger_ok m" and "columns (left_table m) = left" and "columns (right_table m) = right"
    and "left_remaining m = selected_keys left" and "right_remaining m = selected_keys right"
proof -
  from n obtain l b1 r b2 cursors b3 m1 b4 where l: "build_table env left st b = (Inr l, b1)"
    and r: "build_table env right st b1 = (Inr r, b2)"
    and g1: "validate_group env st Left_Side \<lparr>left_table = l, right_table = r, node_cursors = cursors,
        left_position = 0, right_position = 0, left_posting_position = 0, right_posting_position = 0\<rparr> b3 = (Inr m1, b4)"
    and g2: "validate_group env st Right_Side m1 b4 = (Inr m, b')"
    by (auto simp: root_merger_new_def comparator_new_def validate_canonical_sets_def mbnd_Inr node_comparator.extend_def)
  note lok = build_table_ok [OF l] and rok = build_table_ok [OF r]
  from validate_group_ascending [OF g1] lok obtain cursors1 where al: "roots_ascending left"
    and m1: "m1 = \<lparr>left_table = l, right_table = r, node_cursors = cursors1,
        left_position = 0, right_position = 0, left_posting_position = 0, right_posting_position = 0\<rparr>" by auto
  from validate_group_ascending [OF g2] rok m1 obtain cursors2 where ar: "roots_ascending right"
    and m: "m = \<lparr>left_table = l, right_table = r, node_cursors = cursors2,
        left_position = 0, right_position = 0, left_posting_position = 0, right_posting_position = 0\<rparr>" by auto
  show "merger_ok m" using lok rok al ar fit validated_postings by (simp add: merger_ok_def mergeable_def m aligned_def)
  show "columns (left_table m) = left" "columns (right_table m) = right" using lok rok by (simp_all add: m)
  show "left_remaining m = selected_keys left" "right_remaining m = selected_keys right"
    using lok rok by (simp_all add: m left_remaining_def right_remaining_def selected_keys_def)
qed

section \<open>One step\<close>

definition merged_key :: "direct_columns \<Rightarrow> direct_columns \<Rightarrow> merged_root \<Rightarrow> nat \<times> nat list" where
  "merged_key left right out = (case out of
     Left_Root a \<Rightarrow> ref_key left a | Right_Root b \<Rightarrow> ref_key right b | Both_Roots a b \<Rightarrow> ref_key left a)"

text \<open>The abstract merge of two ascending key lists: what one step takes from each.\<close>

definition merge_step :: "(nat \<times> nat list) list \<Rightarrow> (nat \<times> nat list) list \<Rightarrow> direct_columns \<Rightarrow> direct_columns \<Rightarrow> merged_root option \<Rightarrow>
    (nat \<times> nat list) list \<Rightarrow> (nat \<times> nat list) list \<Rightarrow> bool" where
  "merge_step L R left right out L' R' \<longleftrightarrow> (case out of
     None \<Rightarrow> L = [] \<and> R = []
   | Some (Left_Root a) \<Rightarrow> L = ref_key left a # L' \<and> R' = R \<and> (\<forall>k \<in> set R. ref_key left a < k)
   | Some (Right_Root b) \<Rightarrow> R = ref_key right b # R' \<and> L' = L \<and> (\<forall>k \<in> set L. ref_key right b < k)
   | Some (Both_Roots a b) \<Rightarrow> L = ref_key left a # L' \<and> R = ref_key right b # R' \<and> ref_key left a = ref_key right b)"

lemma ascending_head: "sorted_wrt (<) (x # xs) \<Longrightarrow> y < x \<Longrightarrow> k \<in> set (x # xs) \<Longrightarrow> y < k"
  for x y :: "'k :: linorder"
  by auto

lemma take_root_Inr: "take_root m x b = (Inr (out, m'), b') \<Longrightarrow> out = Some x \<and> m' = advance m x"
  by (auto simp: take_root_def mseq_Inr)

lemma merger_next_step:
  assumes ok: "merger_ok m" and n: "merger_next env st m b = (Inr (out, m'), b')"
  shows "merger_ok m'" and "left_table m' = left_table m" and "right_table m' = right_table m"
    and "merge_step (left_remaining m) (right_remaining m) (columns (left_table m)) (columns (right_table m)) out
      (left_remaining m') (right_remaining m')"
proof -
  let ?l = "columns (left_table m)" and ?r = "columns (right_table m)"
  from ok have lok: "mergeable (left_table m)" and rok: "mergeable (right_table m)" by (simp_all add: merger_ok_def)
  from n obtain left lp lq b1 right rp rq b2 where
    sl: "selected_root ?l st (left_position m) (left_posting_position m) b = (Inr (left, lp, lq), b1)" and
    sr: "selected_root ?r st (right_position m) (right_posting_position m) b1 = (Inr (right, rp, rq), b2)" and
    body: "(let m' = m\<lparr>left_position := lp, left_posting_position := lq, right_position := rp, right_posting_position := rq\<rparr> in
     case (left, right) of
       (Some a, Some b) \<Rightarrow>
         mbnd (side_compare_roots env st m Left_Side Right_Side a b (node_cursors m)) (\<lambda>(outcome, cursors).
         take_root (m'\<lparr>node_cursors := cursors\<rparr>)
           (case outcome of Less \<Rightarrow> Left_Root a | Greater \<Rightarrow> Right_Root b | Equal \<Rightarrow> Both_Roots a b))
     | (None, None) \<Rightarrow> mret (None, m')
     | (None, Some b) \<Rightarrow> take_root m' (Right_Root b)
     | (Some a, None) \<Rightarrow> take_root m' (Left_Root a)) b2 = (Inr (out, m'), b')"
    unfolding merger_next_def by (simp only: mbnd_Inr split_paired_Ex prod.case) blast
  have L: "selection_ok ?l (left_position m) (left, lp, lq)"
    using selected_root_finds [OF sl] ok by (simp add: merger_ok_def mergeable_def)
  have R: "selection_ok ?r (right_position m) (right, rp, rq)"
    using selected_root_finds [OF sr] ok by (simp add: merger_ok_def mergeable_def)
  have asc: "sorted_wrt (<) (remaining ?l p)" "sorted_wrt (<) (remaining ?r p)" for p
    using lok rok selected_keys_ascending by (simp_all add: mergeable_def)
  have cmp_ok: "outcome = cmp (ref_key ?l a) (ref_key ?r c)"
    if "side_compare_roots env st m Left_Side Right_Side a c cur b3 = (Inr (outcome, cur'), b4)" "left = Some a" "right = Some c"
    for outcome a c cur cur' b3 b4
  proof -
    have eq: "side_compare_roots env st m Left_Side Right_Side =
        compare_roots st (\<lambda>l r. compare_table_nodes env st False (left_table m) l (right_table m) r)"
      by (simp add: side_compare_roots_def compare_sides_cross)
    from L R that have "read_root ?l lp = Inr a" "read_root ?r rp = Inr c" by (simp_all add: selection_ok_def)
    with read_root_known lok rok have "node_known (left_table m) (root_node a)" "node_known (right_table m) (root_node c)"
      by (auto simp: mergeable_def)
    with coded.charged.compare_key [OF _ _ that(1) [unfolded eq]] show ?thesis by (simp add: ref_key_def)
  qed
  have "merger_ok m' \<and> left_table m' = left_table m \<and> right_table m' = right_table m \<and>
      merge_step (left_remaining m) (right_remaining m) ?l ?r out (left_remaining m') (right_remaining m')"
  proof (cases left)
    case None
    show ?thesis
    proof (cases right)
      case None
      with \<open>left = None\<close> body L R lok rok show ?thesis
        by (auto simp: merger_ok_def merge_step_def selection_ok_def left_remaining_def right_remaining_def)
    next
      case (Some c)
      with \<open>left = None\<close> body L R lok rok show ?thesis
        by (auto simp: merger_ok_def merge_step_def selection_ok_def left_remaining_def right_remaining_def dest!: take_root_Inr)
    qed
  next
    case (Some a)
    show ?thesis
    proof (cases right)
      case None
      with \<open>left = Some a\<close> body L R lok rok show ?thesis
        by (auto simp: merger_ok_def merge_step_def selection_ok_def left_remaining_def right_remaining_def dest!: take_root_Inr)
    next
      case (Some c)
      with \<open>left = Some a\<close> body obtain outcome cur b3 where
        cr: "side_compare_roots env st m Left_Side Right_Side a c (node_cursors m) b2 = (Inr (outcome, cur), b3)"
        and out: "out = Some (case outcome of Less \<Rightarrow> Left_Root a | Greater \<Rightarrow> Right_Root c | Equal \<Rightarrow> Both_Roots a c)"
        and rest: "m' = advance (m\<lparr>left_position := lp, left_posting_position := lq, right_position := rp,
            right_posting_position := rq, node_cursors := cur\<rparr>) (the out)"
        by (auto simp: mbnd_Inr dest!: take_root_Inr)
      note key = cmp_ok [OF cr \<open>left = Some a\<close> Some, symmetric]
      from L R Some \<open>left = Some a\<close> have heads: "remaining ?l (left_position m) = ref_key ?l a # remaining ?l (lp + 1)"
        "remaining ?r (right_position m) = ref_key ?r c # remaining ?r (rp + 1)"
        "remaining ?l lp = ref_key ?l a # remaining ?l (lp + 1)" "remaining ?r rp = ref_key ?r c # remaining ?r (rp + 1)"
        and al: "aligned ?l lp lq" "aligned ?l (lp + 1) lq" "aligned ?r rp rq" "aligned ?r (rp + 1) rq"
        by (simp_all add: selection_ok_def)
      have lt: "ref_key ?l a < k" if "outcome = Less" "k \<in> set (remaining ?r rp)" for k
        using ascending_head [of "ref_key ?r c" "remaining ?r (rp + 1)" "ref_key ?l a" k] asc(2) [of rp] that key heads by simp
      have gt: "ref_key ?r c < k" if "outcome = Greater" "k \<in> set (remaining ?l lp)" for k
        using ascending_head [of "ref_key ?l a" "remaining ?l (lp + 1)" "ref_key ?r c" k] asc(1) [of lp] that key heads by simp
      show ?thesis
      proof (cases outcome)
        case Less
        with rest out lt al heads lok rok show ?thesis
          by (simp add: merger_ok_def merge_step_def left_remaining_def right_remaining_def)
      next
        case Equal
        with rest out key al heads lok rok show ?thesis
          by (simp add: merger_ok_def merge_step_def left_remaining_def right_remaining_def)
      next
        case Greater
        with rest out gt al heads lok rok show ?thesis
          by (simp add: merger_ok_def merge_step_def left_remaining_def right_remaining_def)
      qed
    qed
  qed
  then show "merger_ok m'" "left_table m' = left_table m" "right_table m' = right_table m"
    "merge_step (left_remaining m) (right_remaining m) ?l ?r out (left_remaining m') (right_remaining m')" by blast+
qed


section \<open>All steps\<close>

text \<open>The roots of successive calls of \<open>next\<close> until it returns \<open>None\<close>.\<close>

inductive merges ::
  "canonical_allocator \<Rightarrow> nat \<Rightarrow> root_merger \<Rightarrow> canonical_budget \<Rightarrow> merged_root list \<Rightarrow> canonical_budget \<Rightarrow> bool"
  for env st where
  merges_end: "merger_next env st m b = (Inr (None, m'), b') \<Longrightarrow> merges env st m b [] b'"
| merges_next: "merger_next env st m b = (Inr (Some out, m1), b1) \<Longrightarrow> merges env st m1 b1 outs b' \<Longrightarrow>
    merges env st m b (out # outs) b'"

text \<open>An output against the keys both sides select.\<close>

definition output_ok :: "direct_columns \<Rightarrow> direct_columns \<Rightarrow> (nat \<times> nat list) set \<Rightarrow> (nat \<times> nat list) set \<Rightarrow> merged_root \<Rightarrow> bool" where
  "output_ok left right L R out \<longleftrightarrow> (case out of
     Left_Root a \<Rightarrow> ref_key left a \<in> L \<and> ref_key left a \<notin> R
   | Right_Root b \<Rightarrow> ref_key right b \<in> R \<and> ref_key right b \<notin> L
   | Both_Roots a b \<Rightarrow> ref_key left a \<in> L \<and> ref_key right b \<in> R \<and> ref_key left a = ref_key right b)"

lemma merge_step_spec:
  assumes "merge_step L R left right (Some out) L' R'" and "sorted_wrt (<) L" and "sorted_wrt (<) R"
  shows "set L \<union> set R = insert (merged_key left right out) (set L' \<union> set R')"
    and "\<forall>k \<in> set L' \<union> set R'. merged_key left right out < k"
    and "output_ok left right (set L) (set R) out"
    and "output_ok left right (set L') (set R') x \<Longrightarrow> output_ok left right (set L) (set R) x"
proof -
  let ?k = "merged_key left right out"
  from assms have e: "set L \<union> set R = insert ?k (set L' \<union> set R')" and lt: "\<forall>k \<in> set L' \<union> set R'. ?k < k"
    and o1: "output_ok left right (set L) (set R) out"
    by (cases out; auto simp: merge_step_def merged_key_def output_ok_def)+
  then show "set L \<union> set R = insert ?k (set L' \<union> set R')" "\<forall>k \<in> set L' \<union> set R'. ?k < k"
    "output_ok left right (set L) (set R) out" by blast+
  have sub: "set L' \<subseteq> set L" "set R' \<subseteq> set R" "set L \<subseteq> insert ?k (set L')" "set R \<subseteq> insert ?k (set R')"
    using assms(1) by (cases out; auto simp: merge_step_def merged_key_def)+
  show "output_ok left right (set L') (set R') x \<Longrightarrow> output_ok left right (set L) (set R) x"
  proof -
    have "?k \<notin> set L'" "?k \<notin> set R'" using lt by auto
    then show "output_ok left right (set L') (set R') x \<Longrightarrow> output_ok left right (set L) (set R) x"
      using sub by (cases x) (auto simp: output_ok_def)
  qed
qed

lemma merges_union:
  assumes "merges env st m b outs b'" and "merger_ok m"
    and "left = columns (left_table m)" and "right = columns (right_table m)"
  shows "sorted_wrt (<) (map (merged_key left right) outs)"
    and "merged_key left right ` set outs = set (left_remaining m) \<union> set (right_remaining m)"
    and "\<forall>out \<in> set outs. output_ok left right (set (left_remaining m)) (set (right_remaining m)) out"
proof -
  have "sorted_wrt (<) (map (merged_key left right) outs) \<and>
      merged_key left right ` set outs = set (left_remaining m) \<union> set (right_remaining m) \<and>
      (\<forall>out \<in> set outs. output_ok left right (set (left_remaining m)) (set (right_remaining m)) out)"
    using assms
  proof (induction rule: merges.induct)
    case (merges_end m b m' b')
    from merger_next_step(4) [OF merges_end(2,1)] show ?case by (simp add: merge_step_def)
  next
    case (merges_next m b out m1 b1 outs b')
    note step = merger_next_step [OF merges_next(4,1)]
    note ih = merges_next.IH [OF step(1)] 
    have ih: "sorted_wrt (<) (map (merged_key left right) outs)"
      "merged_key left right ` set outs = set (left_remaining m1) \<union> set (right_remaining m1)"
      "\<forall>out \<in> set outs. output_ok left right (set (left_remaining m1)) (set (right_remaining m1)) out"
      using ih step(2,3) merges_next(5,6) by simp_all
    have "sorted_wrt (<) (left_remaining m)" "sorted_wrt (<) (right_remaining m)"
      using merges_next(4) selected_keys_ascending
      by (simp_all add: merger_ok_def mergeable_def left_remaining_def right_remaining_def)
    note spec = merge_step_spec [OF step(4) [folded merges_next(5,6)] this]
    have "\<forall>x \<in> set (map (merged_key left right) outs). merged_key left right out < x" using ih(2) spec(2) by auto
    with ih(1) have "sorted_wrt (<) (map (merged_key left right) (out # outs))" by simp
    moreover have "merged_key left right ` set (out # outs) = set (left_remaining m) \<union> set (right_remaining m)"
      using ih(2) spec(1) by simp
    moreover have "\<forall>x \<in> set (out # outs). output_ok left right (set (left_remaining m)) (set (right_remaining m)) x"
      using ih(3) spec(3,4) by simp
    ultimately show ?case by blast
  qed
  then show "sorted_wrt (<) (map (merged_key left right) outs)"
    "merged_key left right ` set outs = set (left_remaining m) \<union> set (right_remaining m)"
    "\<forall>out \<in> set outs. output_ok left right (set (left_remaining m)) (set (right_remaining m)) out" by blast+
qed

lemma merges_spends: "merges env st m b outs b' \<Longrightarrow> spends b b'"
  by (induction rule: merges.induct) (blast intro: meteringD [OF metering_merger_next] spends_trans)+

lemma with_limits_Inr:
  assumes "with_limits work_limit workspace_limit m = Inr (x, b)" and "metering m"
  obtains b0 where "m b0 = (Inr x, b)" and "within_limits b" and "max_work b = work_limit"
    and "max_workspace_bytes b = workspace_limit" and "roots_emitted b0 = 0" and "deduplicated_roots b0 = 0"
proof -
  from assms(1) obtain b0 where b0: "canonical_budget_new work_limit workspace_limit = Inr b0" and m: "m b0 = (Inr x, b)"
  proof -
    from assms(1) obtain b0 where b0: "canonical_budget_new work_limit workspace_limit = Inr b0"
      and r: "(case m b0 of (Inl e, b') \<Rightarrow> Inl e | (Inr x, b') \<Rightarrow> Inr (x, b')) = (Inr (x, b) :: _ kres)"
      by (auto simp: with_limits_def bnd_eq_Inr)
    obtain r1 b1 where "m b0 = (r1, b1)" by fastforce
    with r have "m b0 = (Inr x, b)" by (cases r1) auto
    with b0 that show thesis by blast
  qed
  from b0 have "within_limits b0" "max_work b0 = work_limit" "max_workspace_bytes b0 = workspace_limit"
    "roots_emitted b0 = 0" "deduplicated_roots b0 = 0"
    by (auto simp: canonical_budget_new_def within_limits_def split: if_splits)
  with meteringD [OF assms(2) m] m that show thesis by (auto simp: spends_def)
qed

end
