(* ===== verification/Kway_Roots.thy ===== *)
theory Kway_Roots
  imports Merged_Roots
begin

text \<open>
  The merger of several tables is correct: every group it returns holds one canonical key and the
  occurrence of this key in each table that selects it, and the groups run through the union of all
  selections in ascending order.
\<close>

section \<open>The invariant\<close>

definition kway_ok :: "kway_merger \<Rightarrow> bool" where
  "kway_ok m \<longleftrightarrow> length (kway_positions m) = length (kway_tables m) \<and>
     length (kway_posting_positions m) = length (kway_tables m) \<and>
     length (kway_candidates m) = length (kway_tables m) \<and> length (kway_roots m) = length (kway_tables m) \<and>
     (\<forall>i < length (kway_tables m). mergeable (kway_tables m ! i) \<and>
        aligned (columns (kway_tables m ! i)) (kway_positions m ! i) (kway_posting_positions m ! i))"

definition table_remaining :: "kway_merger \<Rightarrow> usize \<Rightarrow> (nat \<times> nat list) list" where
  "table_remaining m i = remaining (columns (kway_tables m ! i)) (kway_positions m ! i)"

lemma table_remaining_ascending: "kway_ok m \<Longrightarrow> i < length (kway_tables m) \<Longrightarrow> sorted_wrt (<) (table_remaining m i)"
  using selected_keys_ascending by (simp add: kway_ok_def mergeable_def table_remaining_def)

lemma kway_compare_order:
  assumes "kway_compare_roots env st tables i x j y cursors b = (Inr (outcome, cursors'), b')"
    and "i < length tables" and "j < length tables"
    and "node_known (tables ! i) (root_node x)" and "node_known (tables ! j) (root_node y)"
  shows "outcome = cmp (ref_key (columns (tables ! i)) x) (ref_key (columns (tables ! j)) y)"
proof -
  have "compare_nodes env st tables i j = (\<lambda>l r. compare_table_nodes env st (i = j) (tables ! i) l (tables ! j) r)"
    using assms(2,3) by (intro ext) (simp add: compare_nodes_def load_def get_at_def mbnd_def)
  with assms(1) have "compare_roots st (\<lambda>l r. compare_table_nodes env st (i = j) (tables ! i) l (tables ! j) r) x y cursors b
      = (Inr (outcome, cursors'), b')" by (simp add: kway_compare_roots_def)
  from coded.charged.compare_key [OF _ _ this] assms(4,5) show ?thesis by (auto simp: ref_key_def)
qed

section \<open>The candidates\<close>

definition candidate_ok :: "canonical_table \<Rightarrow> usize \<Rightarrow> usize \<Rightarrow> root_ref option \<Rightarrow> bool" where
  "candidate_ok t position posting_position candidate \<longleftrightarrow> (case candidate of
     None \<Rightarrow> remaining (columns t) position = []
   | Some r \<Rightarrow> node_known t (root_node r) \<and> root_read (columns t) r \<and> aligned (columns t) (position + 1) posting_position \<and>
       remaining (columns t) position = ref_key (columns t) r # remaining (columns t) (position + 1))"

definition candidates_ok :: "nat \<Rightarrow> kway_merger \<Rightarrow> bool" where
  "candidates_ok n m \<longleftrightarrow> (\<forall>i < n. candidate_ok (kway_tables m ! i) (kway_positions m ! i) (kway_posting_positions m ! i)
     (kway_candidates m ! i))"

lemma kway_candidate_step:
  assumes r: "kway_candidate st i m b = (Inr m', b')" and ok: "kway_ok m" and c: "candidates_ok i m"
    and i: "i < length (kway_tables m)"
  shows "kway_ok m'" and "candidates_ok (Suc i) m'" and "kway_tables m' = kway_tables m"
    and "kway_roots m' = kway_roots m" and "table_remaining m' j = table_remaining m j"
proof -
  let ?t = "kway_tables m ! i"
  from r i ok obtain cand p q b1 where s: "selected_root (columns ?t) st (kway_positions m ! i) (kway_posting_positions m ! i) b1 = (Inr (cand, p, q), b')"
    and m': "m' = m\<lparr>kway_positions := (kway_positions m)[i := p], kway_posting_positions := (kway_posting_positions m)[i := q],
      kway_candidates := (kway_candidates m)[i := cand]\<rparr>"
    by (auto simp: kway_candidate_def mbnd_Inr res_simps)
  from ok i have t: "mergeable ?t" and "aligned (columns ?t) (kway_positions m ! i) (kway_posting_positions m ! i)"
    by (simp_all add: kway_ok_def)
  with selected_root_finds [OF s] have so: "selection_ok (columns ?t) (kway_positions m ! i) (cand, p, q)"
    by (simp add: mergeable_def)
  have read: "cand = Some r \<Longrightarrow> root_read (columns ?t) r" for r using so selection_read by blast
  from so t read_root_known have co: "candidate_ok ?t p q cand"
    by (auto simp: selection_ok_def candidate_ok_def mergeable_def split: option.splits dest: read)
  from so have a: "aligned (columns ?t) p q" and rem: "remaining (columns ?t) (kway_positions m ! i) = remaining (columns ?t) p"
    by (simp_all add: selection_ok_def)
  show "kway_ok m'" using ok a i by (auto simp: kway_ok_def m' nth_list_update)
  show "candidates_ok (Suc i) m'"
    using c co ok i by (auto simp: candidates_ok_def m' nth_list_update less_Suc_eq kway_ok_def)
  show "kway_tables m' = kway_tables m" "kway_roots m' = kway_roots m" by (simp_all add: m')
  show "table_remaining m' j = table_remaining m j"
    using rem ok i by (cases "j = i") (auto simp: table_remaining_def m' kway_ok_def)
qed

lemma kway_candidates:
  assumes "mfold (kway_candidate st) [0 ..< length (kway_tables m)] m b = (Inr m', b')" and "kway_ok m"
  shows "kway_ok m'" and "candidates_ok (length (kway_tables m)) m'" and "kway_tables m' = kway_tables m"
    and "kway_roots m' = kway_roots m" and "table_remaining m' j = table_remaining m j"
proof -
  have "kway_ok m' \<and> candidates_ok (length (kway_tables m)) m' \<and> kway_tables m' = kway_tables m \<and> kway_roots m' = kway_roots m \<and>
      table_remaining m' = table_remaining m"
    by (rule mfold_upt [OF assms(1), of "\<lambda>i s. kway_ok s \<and> candidates_ok i s \<and> kway_tables s = kway_tables m \<and>
          kway_roots s = kway_roots m \<and> table_remaining s = table_remaining m"])
      (use assms(2) in \<open>auto simp: candidates_ok_def [of 0] dest: kway_candidate_step intro!: ext\<close>)
  then show "kway_ok m'" "candidates_ok (length (kway_tables m)) m'" "kway_tables m' = kway_tables m"
    "kway_roots m' = kway_roots m" "table_remaining m' j = table_remaining m j" by simp_all
qed

section \<open>The minimum\<close>

definition candidate_key :: "kway_merger \<Rightarrow> usize \<Rightarrow> root_ref \<Rightarrow> nat \<times> nat list" where
  "candidate_key m i r = ref_key (columns (kway_tables m ! i)) r"

definition minimum_ok :: "kway_merger \<Rightarrow> nat \<Rightarrow> usize option \<Rightarrow> bool" where
  "minimum_ok m n found \<longleftrightarrow> (case found of
     None \<Rightarrow> \<forall>i < n. kway_candidates m ! i = None
   | Some j \<Rightarrow> j < n \<and> (\<exists>r. kway_candidates m ! j = Some r \<and>
       (\<forall>i < n. \<forall>x. kway_candidates m ! i = Some x \<longrightarrow> candidate_key m j r \<le> candidate_key m i x)))"

lemma candidate_known:
  "candidates_ok n m \<Longrightarrow> i < n \<Longrightarrow> kway_candidates m ! i = Some r \<Longrightarrow> node_known (kway_tables m ! i) (root_node r)"
  by (auto simp: candidates_ok_def candidate_ok_def dest!: spec [of _ i] split: option.splits)

lemma kway_minimum_step:
  assumes r: "kway_minimum env st i (found, m) b = (Inr (found', m'), b')" and ok: "kway_ok m"
    and c: "candidates_ok (length (kway_tables m)) m" and i: "i < length (kway_tables m)" and mn: "minimum_ok m i found"
  shows "minimum_ok m (Suc i) found'" and "\<exists>cursors. m' = m\<lparr>kway_cursors := cursors\<rparr>"
proof -
  have self: "\<exists>cursors. m = m\<lparr>kway_cursors := cursors\<rparr>" by (intro exI [of _ "kway_cursors m"]) simp
  have "minimum_ok m (Suc i) found' \<and> (\<exists>cursors. m' = m\<lparr>kway_cursors := cursors\<rparr>)"
  proof (cases "kway_candidates m ! i")
    case None
    with r i ok have "found' = found" "m' = m" by (auto simp: kway_minimum_def mbnd_Inr res_simps kway_ok_def)
    with mn None self show ?thesis by (auto simp: minimum_ok_def less_Suc_eq split: option.splits)
  next
    case (Some x)
    show ?thesis
    proof (cases found)
      case None
      with r i ok Some have "found' = Some i" "m' = m" by (auto simp: kway_minimum_def mbnd_Inr res_simps kway_ok_def)
      with mn None Some self show ?thesis by (auto simp: minimum_ok_def less_Suc_eq)
    next
      case (Some j)
      with mn obtain y where j: "j < i" and y: "kway_candidates m ! j = Some y"
        and le: "\<forall>k < i. \<forall>z. kway_candidates m ! k = Some z \<longrightarrow> candidate_key m j y \<le> candidate_key m k z"
        by (auto simp: minimum_ok_def)
      from r i ok j y Some \<open>kway_candidates m ! i = Some x\<close> obtain outcome cursors b1 where
        k: "kway_compare_roots env st (kway_tables m) i x j y (kway_cursors m) b1 = (Inr (outcome, cursors), b')"
        and f: "found' = (if outcome = Less then Some i else Some j)" and m': "m' = m\<lparr>kway_cursors := cursors\<rparr>"
        by (auto simp: kway_minimum_def mbnd_Inr res_simps kway_ok_def)
      from j i have "j < length (kway_tables m)" by simp
      with kway_compare_order [OF k i, symmetric] candidate_known [OF c] i y \<open>kway_candidates m ! i = Some x\<close>
      have o: "cmp (candidate_key m i x) (candidate_key m j y) = outcome" by (simp add: candidate_key_def)
      have "minimum_ok m (Suc i) found'"
      proof (cases "outcome = Less")
        case True
        with o have lt: "candidate_key m i x < candidate_key m j y" by simp
        have "candidate_key m i x \<le> candidate_key m k z" if "k < Suc i" "kway_candidates m ! k = Some z" for k z
          using le that lt \<open>kway_candidates m ! i = Some x\<close> by (cases "k = i") (auto intro: order.trans less_imp_le)
        with True f \<open>kway_candidates m ! i = Some x\<close> show ?thesis by (simp add: minimum_ok_def)
      next
        case False
        with o have "candidate_key m j y \<le> candidate_key m i x" by (metis cmp_Less not_le)
        with False f j y le \<open>kway_candidates m ! i = Some x\<close> show ?thesis
          by (auto simp: minimum_ok_def less_Suc_eq)
      qed
      with m' show ?thesis by blast
    qed
  qed
  then show "minimum_ok m (Suc i) found'" "\<exists>cursors. m' = m\<lparr>kway_cursors := cursors\<rparr>" by blast+
qed

lemma kway_minimum_found:
  assumes "mfold (kway_minimum env st) [0 ..< length (kway_tables m)] (None, m) b = (Inr (found, m'), b')"
    and ok: "kway_ok m" and c: "candidates_ok (length (kway_tables m)) m"
  shows "minimum_ok m (length (kway_tables m)) found" and "\<exists>cursors. m' = m\<lparr>kway_cursors := cursors\<rparr>"
proof -
  let ?P = "\<lambda>i s. minimum_ok m i (fst s) \<and> (\<exists>cursors. snd s = m\<lparr>kway_cursors := cursors\<rparr>)"
  have step: "?P (Suc i) s'" if i: "i < length (kway_tables m)" and p: "?P i s" and r: "kway_minimum env st i s b = (Inr s', b')"
    for i s b s' b'
  proof -
    obtain f n f' n' where s: "s = (f, n)" and s': "s' = (f', n')" by fastforce
    from p obtain cursors where n: "n = m\<lparr>kway_cursors := cursors\<rparr>" by (auto simp: s)
    have same: "minimum_ok n k g = minimum_ok m k g" for k g
      by (cases g) (simp_all add: minimum_ok_def candidate_key_def n)
    have a: "kway_ok n" "candidates_ok (length (kway_tables n)) n" "i < length (kway_tables n)" "minimum_ok n i f"
      using ok c i p by (simp_all add: kway_ok_def candidates_ok_def same s) (simp_all add: n)
    from kway_minimum_step [OF r [unfolded s s'] a] have "minimum_ok m (Suc i) f'" and "\<exists>cursors. n' = m\<lparr>kway_cursors := cursors\<rparr>"
      unfolding same by (auto simp: n)
    then show ?thesis by (simp add: s')
  qed
  have "?P (length (kway_tables m)) (found, m')"
  proof (rule mfold_upt [OF assms(1), of ?P])
    have "m = m\<lparr>kway_cursors := kway_cursors m\<rparr>" by simp
    then have "\<exists>cursors. m = m\<lparr>kway_cursors := cursors\<rparr>" by (rule exI)
    then show "?P 0 (None, m)" by (simp only: minimum_ok_def fst_conv snd_conv option.case not_less0 simp_thms)
  qed (rule step)
  then show "minimum_ok m (length (kway_tables m)) found" "\<exists>cursors. m' = m\<lparr>kway_cursors := cursors\<rparr>" by auto
qed


section \<open>The group\<close>

definition collected_at :: "kway_merger \<Rightarrow> nat \<times> nat list \<Rightarrow> usize \<Rightarrow> kway_merger \<Rightarrow> bool" where
  "collected_at m k i s \<longleftrightarrow> (case kway_candidates m ! i of
     None \<Rightarrow> kway_roots s ! i = None \<and> kway_positions s ! i = kway_positions m ! i
   | Some r \<Rightarrow> if candidate_key m i r = k
       then kway_roots s ! i = Some r \<and> kway_positions s ! i = kway_positions m ! i + 1
       else kway_roots s ! i = None \<and> kway_positions s ! i = kway_positions m ! i)"

definition collecting :: "kway_merger \<Rightarrow> nat \<times> nat list \<Rightarrow> nat \<Rightarrow> kway_merger \<Rightarrow> bool" where
  "collecting m k n s \<longleftrightarrow> kway_tables s = kway_tables m \<and> kway_candidates s = kway_candidates m \<and>
     kway_posting_positions s = kway_posting_positions m \<and> length (kway_roots s) = length (kway_tables m) \<and>
     length (kway_positions s) = length (kway_tables m) \<and> (\<forall>i < n. collected_at m k i s) \<and>
     (\<forall>i. n \<le> i \<longrightarrow> i < length (kway_tables m) \<longrightarrow> kway_roots s ! i = None \<and> kway_positions s ! i = kway_positions m ! i)"

lemma kway_collect_step:
  assumes r: "kway_collect env st j y i (collected, s) b = (Inr (collected', s'), b')" and ok: "kway_ok m"
    and c: "candidates_ok (length (kway_tables m)) m" and i: "i < length (kway_tables m)" and j: "j < length (kway_tables m)"
    and y: "kway_candidates m ! j = Some y" and p: "collecting m (candidate_key m j y) i s"
  shows "collecting m (candidate_key m j y) (Suc i) s'"
proof -
  let ?k = "candidate_key m j y"
  from p have e: "kway_tables s = kway_tables m" "kway_candidates s = kway_candidates m" "kway_posting_positions s = kway_posting_positions m"
    "length (kway_roots s) = length (kway_tables m)" "length (kway_positions s) = length (kway_tables m)"
    and here: "kway_roots s ! i = None" "kway_positions s ! i = kway_positions m ! i" using i by (auto simp: collecting_def)
  have keep: "collecting m ?k (Suc i) s1" if "kway_roots s1 = kway_roots s" "kway_positions s1 = kway_positions s"
    "kway_tables s1 = kway_tables s" "kway_candidates s1 = kway_candidates s" "kway_posting_positions s1 = kway_posting_positions s"
    "collected_at m ?k i s" for s1
  proof -
    have "collected_at m ?k n s1 = collected_at m ?k n s" for n
      using that by (cases "kway_candidates m ! n") (simp_all add: collected_at_def)
    with p that show ?thesis by (auto simp: collecting_def less_Suc_eq)
  qed
  show ?thesis
  proof (cases "kway_candidates m ! i")
    case None
    with r i ok e have "s' = s" by (auto simp: kway_collect_def mbnd_Inr res_simps kway_ok_def)
    with keep [of s] None here show ?thesis by (simp add: collected_at_def)
  next
    case (Some x)
    from r i ok e Some obtain same cursors b1 b2 where
      cmp_run: "(if i = j then mret (True, kway_cursors s)
        else mbnd (kway_compare_roots env st (kway_tables s) i x j y (kway_cursors s))
          (\<lambda>(outcome, cursors). mret (outcome = Equal, cursors))) b1 = (Inr (same, cursors), b2)"
      and "kway_take i x same collected (s\<lparr>kway_cursors := cursors\<rparr>) b2 = (Inr (collected', s'), b')"
      by (auto simp: kway_collect_def mbnd_Inr load_eq_Inr kway_ok_def split del: if_split simp del: mret_run)
    then have s': "s' = (if same then s\<lparr>kway_cursors := cursors, kway_roots := (kway_roots s)[i := Some x],
          kway_positions := (kway_positions s)[i := kway_positions s ! i + 1]\<rparr> else s\<lparr>kway_cursors := cursors\<rparr>)"
      by (auto simp: kway_take_def mbnd_Inr res_simps split: if_splits)
    have same: "same \<longleftrightarrow> candidate_key m i x = ?k"
    proof (cases "i = j")
      case True
      with cmp_run Some y show ?thesis by (auto simp: candidate_key_def)
    next
      case False
      with cmp_run obtain outcome where "kway_compare_roots env st (kway_tables m) i x j y (kway_cursors s) b1 = (Inr (outcome, cursors), b2)"
        and so: "same = (outcome = Equal)" by (auto simp: mbnd_Inr e)
      from kway_compare_order [OF this(1) i j] candidate_known [OF c] i j Some y
      show ?thesis by (simp add: so candidate_key_def)
    qed
    show ?thesis
    proof (cases same)
      case False
      with s' have "s' = s\<lparr>kway_cursors := cursors\<rparr>" by simp
      with keep [of s'] False same Some here show ?thesis by (simp add: collected_at_def)
    next
      case True
      then have "s' = s\<lparr>kway_cursors := cursors, kway_roots := (kway_roots s)[i := Some x],
          kway_positions := (kway_positions s)[i := kway_positions s ! i + 1]\<rparr>" using s' by simp
      moreover from this have "collected_at m ?k n s' = collected_at m ?k n s" if "n < i" for n
        using that by (cases "kway_candidates m ! n") (simp_all add: collected_at_def)
      moreover have "collected_at m ?k i s'" using True same Some here e i calculation(1) by (simp add: collected_at_def)
      ultimately show ?thesis using p e i by (auto simp: collecting_def less_Suc_eq)
    qed
  qed
qed

lemma kway_collected:
  assumes "mfold (kway_collect env st j y) [0 ..< length (kway_tables m)] (0, m) b = (Inr (collected, m'), b')"
    and ok: "kway_ok m" and c: "candidates_ok (length (kway_tables m)) m" and j: "j < length (kway_tables m)"
    and y: "kway_candidates m ! j = Some y" and cleared: "\<forall>i < length (kway_tables m). kway_roots m ! i = None"
  shows "collecting m (candidate_key m j y) (length (kway_tables m)) m'"
proof -
  have "collecting m (candidate_key m j y) (length (kway_tables m)) (snd (collected, m'))"
    by (rule mfold_upt [OF assms(1), of "\<lambda>i s. collecting m (candidate_key m j y) i (snd s)"])
      (use ok cleared in \<open>simp add: collecting_def kway_ok_def\<close>, use kway_collect_step [OF _ ok c _ j y] in auto)
  then show ?thesis by simp
qed

section \<open>One step\<close>

text \<open>What a call of \<open>next\<close> does to the keys that remain in each of \<open>n\<close> tables.\<close>

definition group_ok :: "(usize \<Rightarrow> direct_columns) \<Rightarrow> nat \<Rightarrow> (usize \<Rightarrow> (nat \<times> nat list) list) \<Rightarrow> nat \<times> nat list \<Rightarrow> root_ref option list \<Rightarrow>
    (usize \<Rightarrow> (nat \<times> nat list) list) \<Rightarrow> bool" where
  "group_ok col n before k roots after \<longleftrightarrow> length roots = n \<and> (\<exists>i < n. roots ! i \<noteq> None) \<and>
     (\<forall>i < n. case roots ! i of
        Some r \<Rightarrow> root_read (col i) r \<and> ref_key (col i) r = k \<and> before i = k # after i
      | None \<Rightarrow> after i = before i \<and> (\<forall>k' \<in> set (before i). k < k'))"

lemma kway_next_step:
  assumes ok: "kway_ok m" and r: "kway_next env st m b = (Inr (out, m'), b')"
  shows "kway_ok m'" and "kway_tables m' = kway_tables m"
    and "out = None \<Longrightarrow> \<forall>i < length (kway_tables m). table_remaining m i = []"
    and "out = Some roots \<Longrightarrow> \<exists>k. group_ok (\<lambda>i. columns (kway_tables m ! i)) (length (kway_tables m)) (table_remaining m) k roots
      (table_remaining m')"
proof -
  let ?n = "length (kway_tables m)"
  define m0 where "m0 = m\<lparr>kway_candidates := map (\<lambda>_. None) (kway_candidates m), kway_roots := map (\<lambda>_. None) (kway_roots m)\<rparr>"
  have ok0: "kway_ok m0" and t0: "kway_tables m0 = kway_tables m" and r0: "\<forall>i < ?n. kway_roots m0 ! i = None"
    and rem0: "table_remaining m0 = table_remaining m"
    using ok by (auto simp: kway_ok_def m0_def table_remaining_def)
  from r obtain m1 b1 found m2 b2 where f1: "mfold (kway_candidate st) [0 ..< ?n] m0 b = (Inr m1, b1)"
    and f2: "mfold (kway_minimum env st) [0 ..< ?n] (None, m1) b1 = (Inr (found, m2), b2)"
    and body: "(case found of
        None \<Rightarrow> mret (None, m2)
      | Some minimum_table \<Rightarrow>
          mbnd (mlift (load (kway_candidates m2) minimum_table)) (\<lambda>minimum_entry.
          mbnd (mlift (ok_or Malformed minimum_entry)) (\<lambda>minimum.
          mbnd (mfold (kway_collect env st minimum_table minimum) [0 ..< ?n] (0, m2)) (\<lambda>(collected, m3).
          mbnd (mlift (ok_or Malformed (checked_sub collected 1))) (\<lambda>duplicate_count.
          mseq (record_merged_root_duplicates duplicate_count) (mret (Some (kway_roots m3), m3))))))) b2 = (Inr (out, m'), b')"
    unfolding kway_next_def Let_def m0_def by (simp only: mbnd_Inr split_paired_Ex prod.case) blast
  note c1 = kway_candidates [OF f1 [folded t0] ok0, unfolded t0 rem0]
  have r1: "\<forall>i < ?n. kway_roots m1 ! i = None" using r0 c1(4) by simp
  note mn = kway_minimum_found [OF f2 [folded c1(3)] c1(1) c1(2) [folded c1(3)], unfolded c1(3)]
  then obtain cursors where m2: "m2 = m1\<lparr>kway_cursors := cursors\<rparr>" by blast
  have ok2: "kway_ok m2" and c2: "candidates_ok ?n m2" and t2: "kway_tables m2 = kway_tables m"
    and r2: "\<forall>i < ?n. kway_roots m2 ! i = None" and rem2: "table_remaining m2 = table_remaining m"
    using c1 r1 by (auto simp: m2 kway_ok_def candidates_ok_def table_remaining_def fun_eq_iff)
  have "kway_ok m' \<and> kway_tables m' = kway_tables m \<and> (out = None \<longrightarrow> (\<forall>i < ?n. table_remaining m i = [])) \<and>
      (out = Some roots \<longrightarrow> (\<exists>k. group_ok (\<lambda>i. columns (kway_tables m ! i)) ?n (table_remaining m) k roots (table_remaining m')))"
  proof (cases found)
    case None
    with body have "out = None" "m' = m2" by auto
    moreover from None mn have "\<forall>i < ?n. kway_candidates m1 ! i = None" by (simp add: minimum_ok_def)
    with c1(2) have "\<forall>i < ?n. table_remaining m1 i = []" by (auto simp: candidates_ok_def candidate_ok_def table_remaining_def)
    ultimately show ?thesis using ok2 t2 c1(5) by simp
  next
    case (Some j)
    with mn obtain y where j: "j < ?n" and y1: "kway_candidates m1 ! j = Some y"
      and le1: "\<forall>i < ?n. \<forall>x. kway_candidates m1 ! i = Some x \<longrightarrow> candidate_key m1 j y \<le> candidate_key m1 i x"
      by (auto simp: minimum_ok_def)
    let ?k = "candidate_key m2 j y"
    have y: "kway_candidates m2 ! j = Some y" and le: "\<forall>i < ?n. \<forall>x. kway_candidates m2 ! i = Some x \<longrightarrow> ?k \<le> candidate_key m2 i x"
      using y1 le1 by (simp_all add: m2 candidate_key_def)
    from body Some y obtain collected where f3: "mfold (kway_collect env st j y) [0 ..< length (kway_tables m2)] (0, m2) b2 = (Inr (collected, m'), b')
        \<or> (\<exists>b3. mfold (kway_collect env st j y) [0 ..< length (kway_tables m2)] (0, m2) b2 = (Inr (collected, m'), b3))"
      and out: "out = Some (kway_roots m')"
      unfolding t2 by (auto simp: mbnd_Inr mseq_Inr res_simps)
    then obtain b3 where f3: "mfold (kway_collect env st j y) [0 ..< length (kway_tables m2)] (0, m2) b2 = (Inr (collected, m'), b3)" by blast
    from kway_collected [OF f3 ok2] c2 j y r2 have g: "collecting m2 ?k ?n m'" by (simp add: t2)
    have at: "(case kway_roots m' ! i of
        Some r \<Rightarrow> root_read (columns (kway_tables m ! i)) r \<and> ref_key (columns (kway_tables m ! i)) r = ?k \<and> table_remaining m i = ?k # table_remaining m' i
      | None \<Rightarrow> table_remaining m' i = table_remaining m i \<and> (\<forall>k' \<in> set (table_remaining m i). ?k < k')) \<and>
      aligned (columns (kway_tables m ! i)) (kway_positions m' ! i) (kway_posting_positions m' ! i)" if i: "i < ?n" for i
    proof -
      from g i have ca: "collected_at m2 ?k i m'" and e: "kway_tables m' = kway_tables m" "kway_posting_positions m' = kway_posting_positions m2"
        by (simp_all add: collecting_def t2)
      from c2 i have co: "candidate_ok (kway_tables m ! i) (kway_positions m2 ! i) (kway_posting_positions m2 ! i) (kway_candidates m2 ! i)"
        by (simp add: candidates_ok_def t2)
      have al: "aligned (columns (kway_tables m ! i)) (kway_positions m2 ! i) (kway_posting_positions m2 ! i)"
        using ok2 i by (simp add: kway_ok_def t2)
      have rem: "table_remaining m i = remaining (columns (kway_tables m ! i)) (kway_positions m2 ! i)"
        by (simp add: rem2 [symmetric] table_remaining_def t2)
      have asc: "sorted_wrt (<) (table_remaining m i)" using table_remaining_ascending [OF ok i] .
      show ?thesis
      proof (cases "kway_candidates m2 ! i")
        case None
        with ca co al rem show ?thesis by (simp add: collected_at_def candidate_ok_def table_remaining_def e)
      next
        case (Some x)
        with le i have kx: "?k \<le> ref_key (columns (kway_tables m ! i)) x" by (simp add: candidate_key_def t2)
        from co Some have read: "root_read (columns (kway_tables m ! i)) x" and cx: "remaining (columns (kway_tables m ! i)) (kway_positions m2 ! i) =
            ref_key (columns (kway_tables m ! i)) x # remaining (columns (kway_tables m ! i)) (kway_positions m2 ! i + 1)"
          and al1: "aligned (columns (kway_tables m ! i)) (kway_positions m2 ! i + 1) (kway_posting_positions m2 ! i)"
          by (simp_all add: candidate_ok_def)
        show ?thesis
        proof (cases "candidate_key m2 i x = ?k")
          case True
          with ca Some read cx al1 rem show ?thesis by (simp add: collected_at_def table_remaining_def e candidate_key_def t2)
        next
          case False
          with kx have "?k < ref_key (columns (kway_tables m ! i)) x" by (simp add: candidate_key_def t2)
          with asc cx rem have "\<forall>k' \<in> set (table_remaining m i). ?k < k'" by auto
          with ca Some False al rem show ?thesis by (simp add: collected_at_def table_remaining_def e)
        qed
      qed
    qed
    have "kway_roots m' ! j \<noteq> None" using g j y by (auto simp: collecting_def collected_at_def)
    with at j g have "group_ok (\<lambda>i. columns (kway_tables m ! i)) ?n (table_remaining m) ?k (kway_roots m') (table_remaining m')"
      unfolding group_ok_def by (auto simp: collecting_def t2)
    moreover have "kway_ok m'" using g ok2 at by (auto simp: kway_ok_def collecting_def t2)
    moreover have "kway_tables m' = kway_tables m" using g by (simp add: collecting_def t2)
    ultimately show ?thesis using out by blast
  qed
  then show "kway_ok m'" "kway_tables m' = kway_tables m" "out = None \<Longrightarrow> \<forall>i < ?n. table_remaining m i = []"
    "out = Some roots \<Longrightarrow> \<exists>k. group_ok (\<lambda>i. columns (kway_tables m ! i)) ?n (table_remaining m) k roots (table_remaining m')"
    by blast+
qed


section \<open>All groups\<close>

text \<open>The groups of successive calls of \<open>next\<close> until it returns \<open>None\<close>.\<close>

inductive group_merges ::
  "canonical_allocator \<Rightarrow> nat \<Rightarrow> kway_merger \<Rightarrow> canonical_budget \<Rightarrow> root_ref option list list \<Rightarrow> canonical_budget \<Rightarrow> bool"
  for env st where
  groups_end: "kway_next env st m b = (Inr (None, m'), b') \<Longrightarrow> group_merges env st m b [] b'"
| groups_next: "kway_next env st m b = (Inr (Some roots, m1), b1) \<Longrightarrow> group_merges env st m1 b1 outs b' \<Longrightarrow>
    group_merges env st m b (roots # outs) b'"

text \<open>A group against the keys each table selects.\<close>

definition group_output :: "direct_columns list \<Rightarrow> (usize \<Rightarrow> (nat \<times> nat list) set) \<Rightarrow> nat \<times> nat list \<Rightarrow> root_ref option list \<Rightarrow> bool" where
  "group_output cs K k roots \<longleftrightarrow> length roots = length cs \<and> (\<forall>i < length cs. case roots ! i of
     None \<Rightarrow> k \<notin> K i
   | Some r \<Rightarrow> k \<in> K i \<and> ref_key (cs ! i) r = k)"

lemma group_ok_spec:
  assumes g: "group_ok (\<lambda>i. cs ! i) (length cs) before k roots after"
    and asc: "\<And>i. i < length cs \<Longrightarrow> sorted_wrt (<) (before i)"
  shows "(\<Union>i < length cs. set (before i)) = insert k (\<Union>i < length cs. set (after i))"
    and "i < length cs \<Longrightarrow> x \<in> set (after i) \<Longrightarrow> k < x"
    and "group_output cs (\<lambda>i. set (before i)) k roots"
    and "group_output cs (\<lambda>i. set (after i)) k' out \<Longrightarrow> k < k' \<Longrightarrow> group_output cs (\<lambda>i. set (before i)) k' out"
proof -
  have cases: "(\<exists>r. roots ! i = Some r \<and> ref_key (cs ! i) r = k \<and> before i = k # after i) \<or>
      (roots ! i = None \<and> after i = before i \<and> (\<forall>k' \<in> set (before i). k < k'))" if "i < length cs" for i
    using g that by (auto simp: group_ok_def dest!: spec [of _ i] split: option.splits)
  have ins: "set (before i) = (if roots ! i = None then set (after i) else insert k (set (after i)))" if "i < length cs" for i
    using cases [OF that] by auto
  have sub: "set (after i) \<subseteq> set (before i)" "set (before i) \<subseteq> insert k (set (after i))" if "i < length cs" for i
    using ins [OF that] by auto
  from g obtain i0 where i0: "i0 < length cs" "roots ! i0 \<noteq> None" by (auto simp: group_ok_def)
  then have "k \<in> set (before i0)" using ins [OF i0(1)] by auto
  with i0(1) sub show "(\<Union>i < length cs. set (before i)) = insert k (\<Union>i < length cs. set (after i))" by blast
  show less: "k < x" if "i < length cs" "x \<in> set (after i)" for i x
    using cases [OF that(1)] asc [OF that(1)] that(2) by auto
  have "case roots ! i of None \<Rightarrow> k \<notin> set (before i) | Some r \<Rightarrow> k \<in> set (before i) \<and> ref_key (cs ! i) r = k" if "i < length cs" for i
    using cases [OF that] by auto
  with g show "group_output cs (\<lambda>i. set (before i)) k roots" by (simp add: group_output_def group_ok_def)
  show "group_output cs (\<lambda>i. set (before i)) k' out" if o': "group_output cs (\<lambda>i. set (after i)) k' out" and k': "k < k'"
    unfolding group_output_def
  proof (intro conjI allI impI)
    show "length out = length cs" using o' by (simp add: group_output_def)
    fix i assume i: "i < length cs"
    have "k' \<in> set (before i) \<longleftrightarrow> k' \<in> set (after i)" using sub [OF i] k' by auto
    with o' i show "case out ! i of None \<Rightarrow> k' \<notin> set (before i) | Some r \<Rightarrow> k' \<in> set (before i) \<and> ref_key (cs ! i) r = k'"
      by (cases "out ! i") (force simp: group_output_def)+
  qed
qed

lemma group_merges_union:
  assumes "group_merges env st m b outs b'" and "kway_ok m" and "cs = map columns (kway_tables m)"
  shows "\<exists>keys. sorted_wrt (<) keys \<and> set keys = (\<Union>i < length cs. set (table_remaining m i)) \<and>
    list_all2 (group_output cs (\<lambda>i. set (table_remaining m i))) keys outs"
  using assms
proof (induction rule: group_merges.induct)
  case (groups_end m b m' b')
  from kway_next_step(3) [OF groups_end(2,1)] show ?case by (auto simp: groups_end(3) intro!: exI [of _ "[]"])
next
  case (groups_next m b roots m1 b1 outs b')
  note step = kway_next_step(1,2) [OF groups_next(4,1)]
  from kway_next_step(4) [OF groups_next(4,1) refl] obtain k where
    "group_ok (\<lambda>i. columns (kway_tables m ! i)) (length (kway_tables m)) (table_remaining m) k roots (table_remaining m1)" by blast
  then have g: "group_ok (\<lambda>i. cs ! i) (length cs) (table_remaining m) k roots (table_remaining m1)"
    by (auto simp: group_ok_def groups_next(5) split: option.splits)
  have asc: "\<And>i. i < length cs \<Longrightarrow> sorted_wrt (<) (table_remaining m i)"
    using table_remaining_ascending [OF groups_next(4)] by (simp add: groups_next(5))
  note spec = group_ok_spec [OF g asc]
  from groups_next.IH [OF step(1)] step(2) groups_next(5) obtain keys where s: "sorted_wrt (<) keys"
    and u: "set keys = (\<Union>i < length cs. set (table_remaining m1 i))"
    and l: "list_all2 (group_output cs (\<lambda>i. set (table_remaining m1 i))) keys outs" by auto
  have lt: "\<forall>x \<in> set keys. k < x" using u spec(2) by auto
  have "list_all2 (group_output cs (\<lambda>i. set (table_remaining m i))) keys outs"
    using l by (rule list.rel_mono_strong) (use lt spec(4) in auto)
  with spec(3) have "list_all2 (group_output cs (\<lambda>i. set (table_remaining m i))) (k # keys) (roots # outs)" by simp
  moreover have "sorted_wrt (<) (k # keys)" using s lt by simp
  moreover have "set (k # keys) = (\<Union>i < length cs. set (table_remaining m i))" using u spec(1) by simp
  ultimately show ?case by blast
qed

section \<open>Construction\<close>

lemma kway_tables_built:
  assumes "mfold (\<lambda>c tables. mbnd (build_table env c st) (\<lambda>t. mret (tables @ [t]))) cs acc b = (Inr tables, b')"
  shows "\<exists>ts. tables = acc @ ts \<and> map columns ts = cs \<and> (\<forall>t \<in> set ts. table_ok t \<and> validate_generic (columns t) st = Inr ())"
  using assms
proof (induction cs arbitrary: acc b)
  case (Cons c cs)
  then obtain t b1 where t: "build_table env c st b = (Inr t, b1)"
    and r: "mfold (\<lambda>c tables. mbnd (build_table env c st) (\<lambda>t. mret (tables @ [t]))) cs (acc @ [t]) b1 = (Inr tables, b')"
    by (simp only: mfold.simps mbnd_Inr) (auto simp only: mret_run prod.inject sum.inject)
  from Cons.IH [OF r] obtain ts where "tables = (acc @ [t]) @ ts" "map columns ts = cs"
    "\<forall>t \<in> set ts. table_ok t \<and> validate_generic (columns t) st = Inr ()" by blast
  with build_table_ok [OF t] show ?case by (intro exI [of _ "t # ts"]) auto
qed simp

lemma compare_nodes_same:
  "i < length tables \<Longrightarrow> compare_nodes env st tables i i = (\<lambda>l r. compare_table_nodes env st True (tables ! i) l (tables ! i) r)"
  by (intro ext) (simp add: compare_nodes_def load_def get_at_def mbnd_def)

lemma validate_table_ascending:
  assumes "validate_table env st i m b = (Inr m', b')" and "i < length (kway_tables m)" and "table_ok (kway_tables m ! i)"
  shows "roots_ascending (columns (kway_tables m ! i))" and "\<exists>cursors. m' = m\<lparr>kway_cursors := cursors\<rparr>"
proof -
  let ?t = "kway_tables m ! i"
  from assms(1,2) obtain err cursors2 b2 cursors3 b3 where
    c: "check_roots (\<lambda>l r. kway_compare_roots env st (kway_tables m) i l i r) err (columns ?t) st cursors2 b2 = (Inr cursors3, b3)"
    and m': "m' = m\<lparr>kway_cursors := cursors3\<rparr>"
    by (auto simp: validate_table_def mbnd_Inr load_eq_Inr Let_def)
  have e: "(\<lambda>l r. kway_compare_roots env st (kway_tables m) i l i r) =
      compare_roots st (\<lambda>l r. compare_table_nodes env st True ?t l ?t r)"
    using assms(2) by (intro ext) (simp add: kway_compare_roots_def compare_nodes_same)
  from checked_group [OF assms(3) c [unfolded e]] show "roots_ascending (columns ?t)" .
  from m' show "\<exists>cursors. m' = m\<lparr>kway_cursors := cursors\<rparr>" by blast
qed

lemma kway_new_ok:
  assumes n: "kway_new env st cs b = (Inr m, b')" and fit: "\<And>c. c \<in> set cs \<Longrightarrow> buffers_fit c"
  shows "kway_ok m" and "map columns (kway_tables m) = cs" and "\<And>i. i < length cs \<Longrightarrow> table_remaining m i = selected_keys (cs ! i)"
proof -
  let ?m = "\<lambda>tables. \<lparr>kway_tables = tables, kway_positions = replicate (length cs) 0, kway_posting_positions = replicate (length cs) 0,
         kway_candidates = replicate (length cs) None, kway_roots = replicate (length cs) None,
         kway_cursors = (cursor_new, cursor_new)\<rparr>"
  from n obtain tables b0 b1 b2 where t: "mfold (\<lambda>c tables. mbnd (build_table env c st) (\<lambda>t. mret (tables @ [t]))) cs [] b0 = (Inr tables, b1)"
    and v: "mfold (validate_table env st) [0 ..< length cs] (?m tables) b2 = (Inr m, b')"
    unfolding kway_new_def Let_def by (simp only: mbnd_Inr split_paired_Ex prod.case) blast
  from kway_tables_built [OF t] have cs: "map columns tables = cs"
    and ok: "\<forall>t \<in> set tables. table_ok t \<and> validate_generic (columns t) st = Inr ()" by auto
  have l: "length tables = length cs" using cs by (metis length_map)
  let ?P = "\<lambda>i s. (\<exists>cursors. s = (?m tables)\<lparr>kway_cursors := cursors\<rparr>) \<and> (\<forall>j < i. roots_ascending (columns (tables ! j)))"
  have "?P (length cs) m"
  proof (rule mfold_upt [OF v, of ?P])
    have "?m tables = (?m tables)\<lparr>kway_cursors := (cursor_new, cursor_new)\<rparr>" by simp
    then show "?P 0 (?m tables)" by blast
  next
    fix i s b s' b' assume i: "i < length cs" and p: "?P i s" and r: "validate_table env st i s b = (Inr s', b')"
    from p obtain cursors where s: "s = (?m tables)\<lparr>kway_cursors := cursors\<rparr>" by blast
    have ki: "i < length (kway_tables s)" and ti: "table_ok (kway_tables s ! i)" using i ok l by (simp_all add: s)
    note v = validate_table_ascending [OF r ki ti]
    from v(2) obtain cursors' where "s' = (?m tables)\<lparr>kway_cursors := cursors'\<rparr>" by (auto simp: s)
    then have "\<exists>cursors. s' = (?m tables)\<lparr>kway_cursors := cursors\<rparr>" by (rule exI)
    moreover have ai: "roots_ascending (columns (tables ! i))" using v(1) by (simp add: s)
    moreover have "\<forall>j < Suc i. roots_ascending (columns (tables ! j))" using conjunct2 [OF p] ai by (simp add: less_Suc_eq)
    ultimately show "?P (Suc i) s'" by (intro conjI)
  qed
  then obtain cursors where m: "m = (?m tables)\<lparr>kway_cursors := cursors\<rparr>" and asc: "\<forall>j < length cs. roots_ascending (columns (tables ! j))"
    by blast
  have "mergeable (tables ! i)" if i: "i < length cs" for i
  proof -
    from i l have mem: "tables ! i \<in> set tables" by simp
    with cs have "columns (tables ! i) \<in> set cs" by (metis image_eqI list.set_map)
    then have "postings_readable (columns (tables ! i))" using ok mem validated_postings fit by blast
    with asc i ok mem show ?thesis by (simp add: mergeable_def)
  qed
  then show "kway_ok m" by (simp add: m kway_ok_def l aligned_def)
  show "map columns (kway_tables m) = cs" by (simp add: m cs)
  show "table_remaining m i = selected_keys (cs ! i)" if "i < length cs" for i
  proof -
    have "columns (tables ! i) = cs ! i" using that l by (metis cs nth_map)
    with that show ?thesis by (simp add: table_remaining_def m selected_keys_def)
  qed
qed

lemma group_merges_spends: "group_merges env st m b outs b' \<Longrightarrow> spends b b'"
  by (induction rule: group_merges.induct) (blast intro: meteringD [OF metering_kway_next] spends_trans)+

end
