(* ===== verification/Merge_Loops.thy ===== *)
theory Merge_Loops
  imports Canonical_Kway
begin

text \<open>
  The loops \<open>while let Some(root) = merger.next(state)?\<close> that consume a merge of two tables and of several
  tables. The body works on a state of its own; the merger and its budget move on. Every root a merger
  hands out costs it work, so the budget bounds the loop.
\<close>

section \<open>Progress\<close>

lemma selected_root_progress:
  assumes "selected_root c st p q b = (Inr (Some r, p', q'), b')"
  shows "work_left b' < work_left b"
proof (cases "p < root_count c")
  case True
  show ?thesis
    using assms unfolding selected_root.simps [of c st p q] if_P [OF True]
    by (rule mseq_progress [rotated]) (simp_all, intro metering_intros metering_cases)
next
  case False
  with assms show ?thesis by (simp add: selected_root.simps [of c st p q])
qed

lemma metering_work_left: "metering m \<Longrightarrow> m b = (r, b') \<Longrightarrow> work_left b' \<le> work_left b"
  by (drule (1) meteringD) (auto simp: spends_def work_left_def)

lemma merger_next_progress:
  assumes "merger_next env st m b = (Inr (Some out, m'), b')"
  shows "work_left b' < work_left b"
proof -
  from assms obtain left lp lq b1 right rp rq b2 where
      l: "selected_root (columns (left_table m)) st (left_position m) (left_posting_position m) b = (Inr (left, lp, lq), b1)"
    and r: "selected_root (columns (right_table m)) st (right_position m) (right_posting_position m) b1 = (Inr (right, rp, rq), b2)"
    and k: "(let m' = m\<lparr>left_position := lp, left_posting_position := lq, right_position := rp, right_posting_position := rq\<rparr> in
       case (left, right) of
         (Some a, Some b) \<Rightarrow>
           mbnd (side_compare_roots env st m Left_Side Right_Side a b (node_cursors m)) (\<lambda>(outcome, cursors).
           take_root (m'\<lparr>node_cursors := cursors\<rparr>)
             (case outcome of Less \<Rightarrow> Left_Root a | Greater \<Rightarrow> Right_Root b | Equal \<Rightarrow> Both_Roots a b))
       | (None, None) \<Rightarrow> mret (None, m')
       | (None, Some b) \<Rightarrow> take_root m' (Right_Root b)
       | (Some a, None) \<Rightarrow> take_root m' (Left_Root a)) b2 = (Inr (Some out, m'), b')"
    unfolding merger_next_def by (simp only: mbnd_Inr split_paired_Ex prod.case) blast
  have rest: "work_left b' \<le> work_left b2"
    using k
    by (rule metering_work_left [rotated], unfold side_compare_roots_def compare_sides_def take_root_def Let_def)
      (intro metering_intros metering_cases metering_case_options)
  have "left \<noteq> None \<or> right \<noteq> None"
    using k by (cases left; cases right) (auto simp: Let_def)
  moreover note metering_work_left [OF metering_selected_root l] metering_work_left [OF metering_selected_root r]
  ultimately show ?thesis
    using selected_root_progress l r rest by fastforce
qed

lemma kway_candidates_none:
  assumes "mfold (kway_candidate st) is m b = (Inr m', b')" and "set (kway_candidates m) \<subseteq> {None}"
  shows "work_left b' < work_left b \<or> set (kway_candidates m') \<subseteq> {None}"
  using assms
proof (induction "is" arbitrary: m b)
  case (Cons i "is")
  from Cons.prems(1) obtain m1 b1 where s: "kway_candidate st i m b = (Inr m1, b1)"
    and r: "mfold (kway_candidate st) is m1 b1 = (Inr m', b')"
    by (auto simp: mbnd_Inr)
  have later: "work_left b' \<le> work_left b1"
    by (rule metering_work_left [OF metering_mfold r]) (unfold kway_candidate_def, intro metering_intros metering_cases)
  from s obtain t :: canonical_table and p q candidate p' q' where
      f: "selected_root (columns t) st p q b = (Inr (candidate, p', q'), b1)"
    and u: "kway_candidates m1 = (kway_candidates m)[i := candidate]"
    by (auto simp: kway_candidate_def mbnd_Inr)
  show ?case
  proof (cases candidate)
    case None
    with u Cons.prems(2) set_update_subset_insert [of "kway_candidates m" i candidate]
    have "set (kway_candidates m1) \<subseteq> {None}" by auto
    with Cons.IH [OF r] metering_work_left [OF metering_selected_root f] show ?thesis by auto
  next
    case (Some x)
    with selected_root_progress f later show ?thesis by fastforce
  qed
qed simp

lemma kway_minimum_none:
  assumes "mfold (kway_minimum env st) is (None, m) b = (Inr (found, m'), b')" and "set (kway_candidates m) \<subseteq> {None}"
  shows "found = None"
  using assms
proof (induction "is" arbitrary: b)
  case (Cons i "is")
  then show ?case
    by (auto simp: kway_minimum_def mbnd_Inr res_simps dest!: nth_mem split: option.splits)
qed simp

lemma kway_next_progress:
  assumes "kway_next env st m b = (Inr (Some roots, m'), b')"
  shows "work_left b' < work_left b"
proof -
  from assms obtain m1 b1 found m2 b2 where
      c: "mfold (kway_candidate st) [0 ..< length (kway_tables m)]
        (m\<lparr>kway_candidates := map (\<lambda>_. None) (kway_candidates m), kway_roots := map (\<lambda>_. None) (kway_roots m)\<rparr>) b = (Inr m1, b1)"
    and n: "mfold (kway_minimum env st) [0 ..< length (kway_tables m)] (None, m1) b1 = (Inr (found, m2), b2)"
    and k: "(case found of
        None \<Rightarrow> mret (None, m2)
      | Some minimum_table \<Rightarrow>
          mbnd (mlift (load (kway_candidates m2) minimum_table)) (\<lambda>minimum_entry.
          mbnd (mlift (ok_or Malformed minimum_entry)) (\<lambda>minimum.
          mbnd (mfold (kway_collect env st minimum_table minimum) [0 ..< length (kway_tables m)] (0, m2)) (\<lambda>(collected, m3).
          mbnd (mlift (ok_or Malformed (checked_sub collected 1))) (\<lambda>duplicate_count.
          mseq (record_merged_root_duplicates duplicate_count) (mret (Some (kway_roots m3), m3))))))) b2 = (Inr (Some roots, m'), b')"
    unfolding kway_next_def Let_def by (simp only: mbnd_Inr split_paired_Ex prod.case) blast
  have rest: "work_left b' \<le> work_left b2"
    using k
    by (rule metering_work_left [rotated], unfold kway_collect_def kway_take_def)
      (intro metering_intros metering_cases metering_case_option)
  have later: "work_left b2 \<le> work_left b1"
    by (rule metering_work_left [OF metering_mfold n], unfold kway_minimum_def)
      (intro metering_intros metering_cases metering_case_option)
  from k have "found \<noteq> None" by (cases found) auto
  with kway_minimum_none [OF n] have "\<not> set (kway_candidates m1) \<subseteq> {None}" by blast
  with kway_candidates_none [OF c] have "work_left b1 < work_left b" by auto
  with later rest show ?thesis by simp
qed

section \<open>The loops\<close>

function merge_roots :: "canonical_allocator \<Rightarrow> nat \<Rightarrow> (merged_root \<Rightarrow> 's \<Rightarrow> 's kres) \<Rightarrow> root_merger \<Rightarrow> 's \<Rightarrow> 's metered" where
  "merge_roots env st body m s b = (case merger_next env st m b of
     (Inl e, b1) \<Rightarrow> (Inl e, b1)
   | (Inr (None, m'), b1) \<Rightarrow> (Inr s, b1)
   | (Inr (Some out, m'), b1) \<Rightarrow> (case body out s of
       Inl e \<Rightarrow> (Inl e, b1)
     | Inr s' \<Rightarrow> merge_roots env st body m' s' b1))"
  by pat_completeness auto
termination
  by (relation "measure (\<lambda>(env, st, body, m, s, b). work_left b)") (auto intro: merger_next_progress [OF sym])

declare merge_roots.simps [simp del]

text \<open>With several tables the merger is needed after the loop: it also ranks the anonymous individuals.\<close>

function merge_groups :: "canonical_allocator \<Rightarrow> nat \<Rightarrow> (root_ref option list \<Rightarrow> 's \<Rightarrow> 's kres) \<Rightarrow> kway_merger \<Rightarrow> 's
    \<Rightarrow> ('s \<times> kway_merger) metered" where
  "merge_groups env st body m s b = (case kway_next env st m b of
     (Inl e, b1) \<Rightarrow> (Inl e, b1)
   | (Inr (None, m'), b1) \<Rightarrow> (Inr (s, m'), b1)
   | (Inr (Some roots, m'), b1) \<Rightarrow> (case body roots s of
       Inl e \<Rightarrow> (Inl e, b1)
     | Inr s' \<Rightarrow> merge_groups env st body m' s' b1))"
  by pat_completeness auto
termination
  by (relation "measure (\<lambda>(env, st, body, m, s, b). work_left b)") (auto intro: kway_next_progress [OF sym])

declare merge_groups.simps [simp del]

section \<open>What a whole merge spends\<close>

text \<open>The loops and the ranking, each to its end or to its first error.\<close>

lemma metering_merge_roots [metering_intros]: "metering (merge_roots env st body m s)"
proof -
  have "\<forall>r b'. merge_roots env st body m s b = (r, b') \<longrightarrow> spends b b'" for b
  proof (induction env st body m s b rule: merge_roots.induct)
    case (1 env st body m s b)
    show ?case
    proof (intro allI impI)
      fix r b' assume r: "merge_roots env st body m s b = (r, b')"
      obtain x b1 where n: "merger_next env st m b = (x, b1)" by (cases "merger_next env st m b")
      note first = meteringD [OF metering_merger_next n]
      from r n consider "b' = b1" | out m' s' where "x = Inr (Some out, m')" "body out s = Inr s'"
          "merge_roots env st body m' s' b1 = (r, b')"
        by (auto simp: merge_roots.simps [of env st body m s b] split: sum.splits option.splits)
      then show "spends b b'"
      proof cases
        case (2 out m' s')
        with 1 [OF n [symmetric], of "(Some out, m')" "Some out" m' out s'] first show ?thesis by (blast intro: spends_trans)
      qed (simp add: first)
    qed
  qed
  then show ?thesis by (simp add: metering_def)
qed

lemma metering_merge_groups [metering_intros]: "metering (merge_groups env st body m s)"
proof -
  have "\<forall>r b'. merge_groups env st body m s b = (r, b') \<longrightarrow> spends b b'" for b
  proof (induction env st body m s b rule: merge_groups.induct)
    case (1 env st body m s b)
    show ?case
    proof (intro allI impI)
      fix r b' assume r: "merge_groups env st body m s b = (r, b')"
      obtain x b1 where n: "kway_next env st m b = (x, b1)" by (cases "kway_next env st m b")
      note first = meteringD [OF metering_kway_next n]
      from r n consider "b' = b1" | out m' s' where "x = Inr (Some out, m')" "body out s = Inr s'"
          "merge_groups env st body m' s' b1 = (r, b')"
        by (auto simp: merge_groups.simps [of env st body m s b] split: sum.splits option.splits)
      then show "spends b b'"
      proof cases
        case (2 out m' s')
        with 1 [OF n [symmetric], of "(Some out, m')" "Some out" m' out s'] first show ?thesis by (blast intro: spends_trans)
      qed (simp add: first)
    qed
  qed
  then show ?thesis by (simp add: metering_def)
qed

lemma metering_assign_rounds [metering_intros]: "metering (assign_rounds st tables p xs)"
proof -
  have "\<forall>r b'. assign_rounds st tables p xs b = (r, b') \<longrightarrow> spends b b'" for b
  proof (induction st tables p xs b rule: assign_rounds.induct)
    case (1 st tables p xs b)
    show ?case
    proof (intro allI impI)
      fix r b' assume r: "assign_rounds st tables p xs b = (r, b')"
      obtain x b1 where n: "assign_round st tables p xs b = (x, b1)" by (cases "assign_round st tables p xs b")
      note first = meteringD [OF metering_assign_round n]
      from r n consider "b' = b1" | ys q where "x = Inr (Some (ys, q))" "assign_rounds st tables q ys b1 = (r, b')"
        by (auto simp: assign_rounds.simps [of st tables p xs b] split: sum.splits option.splits)
      then show "spends b b'"
      proof cases
        case (2 ys q)
        with 1 [OF n [symmetric], of "Some (ys, q)" "(ys, q)" ys q] first show ?thesis by (blast intro: spends_trans)
      qed (simp add: first)
    qed
  qed
  then show ?thesis by (simp add: metering_def)
qed

lemma metering_assign_anonymous [metering_intros]: "metering (assign_anonymous_positions st m xs)"
  by (simp add: assign_anonymous_positions_def metering_assign_rounds)

lemma work_left_spent: "spends b b' \<Longrightarrow> within_limits b \<Longrightarrow> work_left b' < work_left b \<Longrightarrow> Suc (spent_work b) \<le> spent_work b'"
  by (auto simp: spends_def work_left_def within_limits_def)

end
