(* ===== verification/Anonymous_Positions.thy ===== *)
theory Anonymous_Positions
  imports Canonical_Kway
begin

text \<open>
  \<open>assign_anonymous_positions\<close> is correct: the repeated selection of a minimum gives every coordinate
  the rank of its effective identity among the distinct identities of all tables.
\<close>

type_synonym anonymous_identity = "bytes \<times> nat list \<times> bytes"

definition coordinate_key :: "canonical_table list \<Rightarrow> composite_node_coordinate \<Rightarrow> anonymous_identity kres" where
  "coordinate_key tables x = bnd (ok_or Malformed (get_at tables (node_table x))) (\<lambda>t.
     map_res anonymous_key (anonymous_parts (columns t) (coordinate_node x)))"

lemma coordinate_key_order [simp]: "coordinate_key tables (x\<lparr>node_canonical_order := p\<rparr>) = coordinate_key tables x"
  by (simp add: coordinate_key_def)

lemma compare_effective_key:
  assumes "compare_effective_anonymous_nodes st tables l r b = (Inr outcome, b')"
  obtains k k' where "coordinate_key tables l = Inr k" and "coordinate_key tables r = Inr k'" and "outcome = cmp k k'"
proof -
  from assms obtain lt rt ls lk rs rk b1 where "get_at tables (node_table l) = Some lt" "get_at tables (node_table r) = Some rt"
    "anonymous_parts (columns lt) (coordinate_node l) = Inr (ls, lk)" "anonymous_parts (columns rt) (coordinate_node r) = Inr (rs, rk)"
    and o': "(if cmp ls rs \<noteq> Equal then mret (cmp ls rs) else
     if compare_canonical_varints (length lk) (length rk) \<noteq> Equal
     then mret (compare_canonical_varints (length lk) (length rk)) else mret (cmp lk rk)) b1 = (Inr outcome, b')"
    unfolding compare_effective_anonymous_nodes_def
    by (simp only: mseq_Inr mbnd_Inr split_paired_Ex prod.case mlift_run prod.inject ok_or_eq_Inr) blast
  moreover have "outcome = cmp (anonymous_key (ls, lk)) (anonymous_key (rs, rk))"
    using o' by (auto simp: anonymous_key_def compare_canonical_varints_def cmp_def split: if_splits)
  ultimately show thesis using that by (simp add: coordinate_key_def)
qed

section \<open>The minimum\<close>

definition unassigned :: "composite_node_coordinate list \<Rightarrow> nat \<Rightarrow> bool" where
  "unassigned xs i \<longleftrightarrow> node_canonical_order (xs ! i) = USIZE_MAX"

definition key_at :: "canonical_table list \<Rightarrow> composite_node_coordinate list \<Rightarrow> nat \<Rightarrow> anonymous_identity" where
  "key_at tables xs i = projr (coordinate_key tables (xs ! i))"

lemma compare_at:
  assumes "compare_effective_anonymous_nodes st tables (xs ! i) (xs ! j) b = (Inr outcome, b')"
  shows "outcome = cmp (key_at tables xs i) (key_at tables xs j)"
    and "coordinate_key tables (xs ! i) = Inr (key_at tables xs i)"
proof -
  obtain k k' where "coordinate_key tables (xs ! i) = Inr k" "coordinate_key tables (xs ! j) = Inr k'" "outcome = cmp k k'"
    using compare_effective_key [OF assms] by blast
  then show "outcome = cmp (key_at tables xs i) (key_at tables xs j)" "coordinate_key tables (xs ! i) = Inr (key_at tables xs i)"
    by (simp_all add: key_at_def)
qed

definition minimum_of :: "canonical_table list \<Rightarrow> composite_node_coordinate list \<Rightarrow> nat \<Rightarrow> usize option \<Rightarrow> bool" where
  "minimum_of tables xs n best \<longleftrightarrow> (case best of
     None \<Rightarrow> \<forall>j < n. \<not> unassigned xs j
   | Some i \<Rightarrow> i < n \<and> unassigned xs i \<and> (\<forall>j < n. unassigned xs j \<longrightarrow> key_at tables xs i \<le> key_at tables xs j))"

lemma minimum_coordinate_step:
  assumes r: "minimum_coordinate st tables xs n best b = (Inr best', b')" and m: "minimum_of tables xs n best"
  shows "minimum_of tables xs (Suc n) best'"
proof (cases "unassigned xs n")
  case False
  with r have "best' = best" by (simp add: minimum_coordinate_def unassigned_def)
  with m False show ?thesis by (auto simp: minimum_of_def less_Suc_eq split: option.splits)
next
  case True
  show ?thesis
  proof (cases best)
    case None
    with r True m show ?thesis by (auto simp: minimum_coordinate_def unassigned_def minimum_of_def less_Suc_eq)
  next
    case (Some i)
    from m Some have i: "i < n" "unassigned xs i" and le: "\<forall>j < n. unassigned xs j \<longrightarrow> key_at tables xs i \<le> key_at tables xs j"
      by (simp_all add: minimum_of_def)
    from r True Some obtain outcome where c: "compare_effective_anonymous_nodes st tables (xs ! n) (xs ! i) b = (Inr outcome, b')"
      and b: "best' = (if outcome = Less then Some n else Some i)"
      by (auto simp: minimum_coordinate_def unassigned_def mbnd_Inr)
    note o' = compare_at(1) [OF c]
    show ?thesis
    proof (cases "key_at tables xs n < key_at tables xs i")
      case True
      with o' b have "best' = Some n" by simp
      moreover have "key_at tables xs n \<le> key_at tables xs j" if "j < n" "unassigned xs j" for j
        using le that True by (meson less_imp_le order.strict_trans2)
      ultimately show ?thesis using \<open>unassigned xs n\<close> by (auto simp: minimum_of_def less_Suc_eq)
    next
      case False
      with o' b have "best' = Some i" by auto
      with i le False show ?thesis by (auto simp: minimum_of_def less_Suc_eq)
    qed
  qed
qed

section \<open>Assigning a position\<close>

definition assigned_upto :: "canonical_table list \<Rightarrow> composite_node_coordinate list \<Rightarrow> anonymous_identity \<Rightarrow> usize \<Rightarrow> nat \<Rightarrow> composite_node_coordinate list \<Rightarrow> bool" where
  "assigned_upto tables xs k p n ys \<longleftrightarrow> length ys = length xs \<and> (\<forall>j < length xs. ys ! j =
     (if j < n \<and> unassigned xs j \<and> key_at tables xs j = k then (xs ! j)\<lparr>node_canonical_order := p\<rparr> else xs ! j)) \<and>
     (\<forall>j < n. j < length xs \<longrightarrow> unassigned xs j \<longrightarrow> coordinate_key tables (xs ! j) = Inr (key_at tables xs j))"

lemma assign_position_step:
  assumes r: "assign_position st tables (xs ! i) p n ys b = (Inr ys', b')" and a: "assigned_upto tables xs (key_at tables xs i) p n ys"
    and n: "n < length xs"
  shows "assigned_upto tables xs (key_at tables xs i) p (Suc n) ys'"
proof -
  from a n have yn: "ys ! n = xs ! n" and l: "length ys = length xs" by (auto simp: assigned_upto_def)
  show ?thesis
  proof (cases "unassigned xs n")
    case False
    with r yn have "ys' = ys" by (simp add: assign_position_def unassigned_def)
    with a False show ?thesis by (auto simp: assigned_upto_def less_Suc_eq)
  next
    case True
    with r yn obtain outcome where c: "compare_effective_anonymous_nodes st tables (xs ! n) (xs ! i) b = (Inr outcome, b')"
      and y: "ys' = (if outcome = Equal then ys[n := (xs ! n)\<lparr>node_canonical_order := p\<rparr>] else ys)"
      by (auto simp: assign_position_def unassigned_def Let_def mbnd_Inr)
    note o' = compare_at [OF c]
    have "ys' = (if key_at tables xs n = key_at tables xs i then ys[n := (xs ! n)\<lparr>node_canonical_order := p\<rparr>] else ys)"
      using y o'(1) [symmetric] by auto
    with a n True l o'(2) show ?thesis
      by (auto simp: assigned_upto_def less_Suc_eq nth_list_update)
  qed
qed

lemma assign_round_cases:
  assumes "assign_round st tables p xs b = (Inr res, b')"
  shows "case res of
     None \<Rightarrow> \<forall>j < length xs. \<not> unassigned xs j
   | Some (ys, p') \<Rightarrow> p' = p + 1 \<and> (\<exists>i < length xs. unassigned xs i \<and>
       (\<forall>j < length xs. unassigned xs j \<longrightarrow> key_at tables xs i \<le> key_at tables xs j) \<and>
       assigned_upto tables xs (key_at tables xs i) p (length xs) ys)"
proof -
  from assms obtain found b1 where f: "mfold (minimum_coordinate st tables xs) [0 ..< length xs] None b = (Inr found, b1)"
    and body: "(case found of None \<Rightarrow> mret None | Some minimum \<Rightarrow>
         mbnd (mfold (assign_position st tables (xs ! minimum) p) [0 ..< length xs] xs) (\<lambda>coordinates'.
         mbnd (mlift (ok_or Resource (checked_add p 1))) (\<lambda>next_position'.
         mret (Some (coordinates', next_position'))))) b1 = (Inr res, b')"
    unfolding assign_round_def by (simp only: mbnd_Inr) blast
  have m: "minimum_of tables xs (length xs) found"
    by (rule mfold_upt [OF f]) (auto simp: minimum_of_def [of _ _ 0] intro: minimum_coordinate_step)
  show ?thesis
  proof (cases found)
    case None
    with body m show ?thesis by (simp add: minimum_of_def)
  next
    case (Some i)
    with body obtain ys b2 where a: "mfold (assign_position st tables (xs ! i) p) [0 ..< length xs] xs b1 = (Inr ys, b2)"
      and res: "res = Some (ys, p + 1)" by (auto simp: mbnd_Inr res_simps)
    have "assigned_upto tables xs (key_at tables xs i) p (length xs) ys"
      by (rule mfold_upt [OF a]) (auto simp: assigned_upto_def [of _ _ _ _ 0] intro: assign_position_step)
    with m Some res show ?thesis by (auto simp: minimum_of_def)
  qed
qed

section \<open>Ranks\<close>

definition rank_in :: "anonymous_identity set \<Rightarrow> anonymous_identity \<Rightarrow> nat" where
  "rank_in K k = card {k' \<in> K. k' < k}"

definition assigned_keys :: "(nat \<Rightarrow> anonymous_identity) \<Rightarrow> composite_node_coordinate list \<Rightarrow> anonymous_identity set" where
  "assigned_keys key ys = key ` {i. i < length ys \<and> \<not> unassigned ys i}"

definition positions_ok :: "canonical_table list \<Rightarrow> composite_node_coordinate list \<Rightarrow> usize \<Rightarrow> composite_node_coordinate list \<Rightarrow> bool" where
  "positions_ok tables xs p ys \<longleftrightarrow> (let key = key_at tables xs; K = assigned_keys key ys in
     length ys = length xs \<and> p = card K \<and>
     (\<forall>i < length xs. ys ! i = (xs ! i)\<lparr>node_canonical_order := (if unassigned ys i then USIZE_MAX else rank_in K (key i))\<rparr> \<and>
        (\<not> unassigned ys i \<longrightarrow> coordinate_key tables (xs ! i) = Inr (key i)) \<and>
        (unassigned ys i \<longrightarrow> (\<forall>k \<in> K. k < key i))))"

lemma finite_assigned_keys [simp]: "finite (assigned_keys key ys)"
  by (simp add: assigned_keys_def)

lemma card_assigned_keys: "card (assigned_keys key ys) \<le> length ys"
proof -
  have "card (assigned_keys key ys) \<le> card {i. i < length ys \<and> \<not> unassigned ys i}"
    unfolding assigned_keys_def by (rule card_image_le) simp
  also have "\<dots> \<le> card {..< length ys}" by (rule card_mono) auto
  finally show ?thesis by simp
qed

lemma rank_insert_above: "finite K \<Longrightarrow> \<forall>k' \<in> K. k' < k \<Longrightarrow> x \<in> K \<Longrightarrow> rank_in (insert k K) x = rank_in K x"
  by (simp add: rank_in_def) (metis (no_types, lifting) insert_iff less_asym)

lemma rank_insert_top: "finite K \<Longrightarrow> \<forall>k' \<in> K. k' < k \<Longrightarrow> rank_in (insert k K) k = card K"
proof -
  assume "\<forall>k' \<in> K. k' < k"
  then have "{k' \<in> insert k K. k' < k} = K" by auto
  then show ?thesis by (simp add: rank_in_def)
qed

lemma positions_round:
  assumes ok: "positions_ok tables xs p ys" and small: "length xs < USIZE_MAX"
    and i: "i < length ys" "unassigned ys i"
    and le: "\<forall>j < length ys. unassigned ys j \<longrightarrow> key_at tables ys i \<le> key_at tables ys j"
    and a: "assigned_upto tables ys (key_at tables ys i) p (length ys) zs"
  shows "positions_ok tables xs (p + 1) zs"
proof -
  let ?key = "key_at tables xs" and ?K = "assigned_keys (key_at tables xs) ys" and ?Z = "assigned_keys (key_at tables xs) zs"
  let ?k = "?key i"
  from ok have l: "length ys = length xs" and p: "p = card ?K"
    and y: "\<And>j. j < length xs \<Longrightarrow> ys ! j = (xs ! j)\<lparr>node_canonical_order := (if unassigned ys j then USIZE_MAX else rank_in ?K (?key j))\<rparr>"
    and known: "\<And>j. j < length xs \<Longrightarrow> \<not> unassigned ys j \<Longrightarrow> coordinate_key tables (xs ! j) = Inr (?key j)"
    and above: "\<And>j k. j < length xs \<Longrightarrow> unassigned ys j \<Longrightarrow> k \<in> ?K \<Longrightarrow> k < ?key j"
    by (auto simp: positions_ok_def Let_def)
  have ky: "key_at tables ys j = ?key j" "coordinate_key tables (ys ! j) = coordinate_key tables (xs ! j)" if "j < length xs" for j
    by (simp_all add: key_at_def y [OF that])
  from i l have il: "i < length xs" by simp
  have kk: "\<forall>k \<in> ?K. k < ?k" using above [OF il i(2)] by blast
  have "card ?K \<le> length xs" using card_assigned_keys [of ?key ys] l by simp
  with small p have pm: "p \<noteq> USIZE_MAX" by simp
  from a l ky have lz: "length zs = length xs"
    and z: "\<And>j. j < length xs \<Longrightarrow> zs ! j = (if unassigned ys j \<and> ?key j = ?k then (ys ! j)\<lparr>node_canonical_order := p\<rparr> else ys ! j)"
    and zk: "\<And>j. j < length xs \<Longrightarrow> unassigned ys j \<Longrightarrow> coordinate_key tables (xs ! j) = Inr (?key j)"
    using il by (auto simp: assigned_upto_def)
  have uz: "unassigned zs j \<longleftrightarrow> unassigned ys j \<and> ?key j \<noteq> ?k" if "j < length xs" for j
    using z [OF that] pm by (auto simp: unassigned_def)
  have Z: "?Z = insert ?k ?K"
  proof (intro equalityI subsetI)
    fix k assume "k \<in> ?Z"
    then obtain j where "j < length xs" "\<not> unassigned zs j" "k = ?key j" by (auto simp: assigned_keys_def lz)
    then show "k \<in> insert ?k ?K" using uz by (auto simp: assigned_keys_def l)
  next
    fix k assume "k \<in> insert ?k ?K"
    then show "k \<in> ?Z"
    proof
      assume "k = ?k"
      with uz [OF il] il show ?thesis by (auto simp: assigned_keys_def lz)
    next
      assume "k \<in> ?K"
      then show ?thesis using uz by (auto simp: assigned_keys_def l lz)
    qed
  qed
  have "?k \<notin> ?K" using kk by blast
  then have "card ?Z = p + 1" by (simp add: Z p)
  moreover have "zs ! j = (xs ! j)\<lparr>node_canonical_order := (if unassigned zs j then USIZE_MAX else rank_in ?Z (?key j))\<rparr>"
    if j: "j < length xs" for j
  proof (cases "unassigned ys j")
    case False
    then have "?key j \<in> ?K" using j l by (auto simp: assigned_keys_def)
    with rank_insert_above [OF _ kk] False z [OF j] y [OF j] uz [OF j] show ?thesis by (simp add: Z)
  next
    case True
    show ?thesis
    proof (cases "?key j = ?k")
      case True
      with \<open>unassigned ys j\<close> z [OF j] y [OF j] uz [OF j] rank_insert_top [OF _ kk] show ?thesis by (simp add: Z p)
    next
      case False
      with True z [OF j] y [OF j] uz [OF j] show ?thesis by simp
    qed
  qed
  moreover have "coordinate_key tables (xs ! j) = Inr (?key j)" if "j < length xs" "\<not> unassigned zs j" for j
    using that uz zk known by blast
  moreover have "\<forall>k \<in> ?Z. k < ?key j" if j: "j < length xs" "unassigned zs j" for j
  proof -
    from uz [OF j(1)] j(2) have u: "unassigned ys j" and ne: "?key j \<noteq> ?k" by blast+
    with le ky j(1) l il have "?k < ?key j" by (metis order_le_imp_less_or_eq)
    with above [OF j(1) u] show ?thesis by (auto simp: Z)
  qed
  ultimately show ?thesis using lz by (simp add: positions_ok_def Let_def)
qed

lemma assign_rounds_cases:
  assumes "assign_rounds st tables p xs b = (Inr res, b')"
  obtains (last) b1 where "assign_round st tables p xs b = (Inr None, b1)" "res = (xs, p)"
    | (again) ys p' b1 where "assign_round st tables p xs b = (Inr (Some (ys, p')), b1)" "assign_rounds st tables p' ys b1 = (Inr res, b')"
proof -
  obtain r b1 where m: "assign_round st tables p xs b = (r, b1)" by fastforce
  have eq: "(Inr res, b') = (case (r, b1) of (Inl e, b1) \<Rightarrow> (Inl e, b1) | (Inr None, b1) \<Rightarrow> (Inr (xs, p), b1)
      | (Inr (Some (coordinates', next_position')), b1) \<Rightarrow> assign_rounds st tables next_position' coordinates' b1)"
    unfolding assms [symmetric] m [symmetric] by (subst assign_rounds.simps) simp
  consider e where "r = Inl e" | "r = Inr None" | ys p' where "r = Inr (Some (ys, p'))"
    by (metis option.exhaust prod.collapse sum.exhaust)
  then show thesis
  proof cases
    case 1
    with eq show thesis by simp
  next
    case 2
    with eq m show thesis by (intro last) auto
  next
    case 3
    with eq m show thesis by (intro again) auto
  qed
qed

lemma assign_rounds_ranks:
  assumes "assign_rounds st tables p ys b = (Inr (zs, n), b')" and "positions_ok tables xs p ys" and "length xs < USIZE_MAX"
  shows "positions_ok tables xs n zs" and "\<forall>i < length xs. \<not> unassigned zs i"
proof -
  have "positions_ok tables xs n zs \<and> (\<forall>i < length xs. \<not> unassigned zs i)"
    using assms(1,2)
  proof (induction st tables p ys b rule: assign_rounds.induct)
    case (1 st tables p ys b)
    from 1(3) have l: "length ys = length xs" by (simp add: positions_ok_def Let_def)
    from 1(2) show ?case
    proof (cases rule: assign_rounds_cases)
      case (last b1)
      from assign_round_cases [OF last(1)] last(2) 1(3) l show ?thesis by simp
    next
      case (again zs' p' b1)
      from assign_round_cases [OF again(1)] obtain i where p': "p' = p + 1" and "i < length ys" "unassigned ys i"
        "\<forall>j < length ys. unassigned ys j \<longrightarrow> key_at tables ys i \<le> key_at tables ys j"
        "assigned_upto tables ys (key_at tables ys i) p (length ys) zs'" by auto
      with positions_round [OF 1(3) assms(3)] have "positions_ok tables xs p' zs'" by simp
      with 1(1) [OF again(1) [symmetric] refl refl refl] again(2) show ?thesis by simp
    qed
  qed
  then show "positions_ok tables xs n zs" "\<forall>i < length xs. \<not> unassigned zs i" by blast+
qed

end
