(* ===== verification/Merge_Properties.thy ===== *)
theory Merge_Properties
  imports Kway_Roots Merge_Loops Anonymous_Positions
begin

text \<open>
  The properties of the canonical merge, with tables of one IRI each on which the mergers run as
  witnesses.
\<close>

section \<open>Tables for the witnesses\<close>

definition letter_table :: "char \<Rightarrow> direct_columns" where
  "letter_table ch = encode_table (\<lambda>x. [x]) [(TAG_IRI, [CText [ch]])] [(ROOT_AXIOM, 1)]"

definition exact_allocator :: canonical_allocator where
  "exact_allocator = \<lparr>item_bytes = (\<lambda>_. 8), granted = (\<lambda>_ n. Some n)\<rparr>"

definition merge_budget :: "usize \<Rightarrow> usize \<Rightarrow> usize \<Rightarrow> usize \<Rightarrow> usize \<Rightarrow> usize \<Rightarrow> canonical_budget" where
  "merge_budget work bytes peak compared emitted dropped =
     \<lparr>max_work = 1000, max_workspace_bytes = 10000, spent_work = work, workspace_bytes = bytes,
      peak_workspace_bytes = peak, canonical_bytes_compared = compared, roots_emitted = emitted, deduplicated_roots = dropped\<rparr>"

lemma running [simp]: "STATE_RUNNING \<noteq> STATE_CANCELLED"
  by (simp add: state_defs)

lemma letter_table_valid: "validate_generic (letter_table ch) STATE_RUNNING = Inr ()"
  by (simp add: letter_table_def table_eval generic_eval)

lemma letter_table_fits: "buffers_fit (letter_table ch)"
  by (simp add: letter_table_def buffers_fit_def buffers_def scope_maps_def table_eval)

lemma letter_table_facts [simp]:
  "root_count (letter_table ch) = Suc 0" "included_root_ids (letter_table ch) = []" "excluded_root_ids (letter_table ch) = []"
  "node_count (letter_table ch) = Suc 0" "field_count (letter_table ch) = Suc 0" "item_count (letter_table ch) = 0"
  "length (scalar_bytes (letter_table ch)) = Suc 0" "field_range (letter_table ch) (Suc 0) = Inr (0, Suc 0)"
  "node_tag (letter_table ch) (Suc 0) = Inr TAG_IRI" "field_kind (letter_table ch) 0 = Inr COMPONENT_TEXT"
  "has_anonymous_scope_map (letter_table ch) = False" "checked_node_id (letter_table ch) (Suc 0) = Inr (Suc 0)"
  "read_root (letter_table ch) 0 = Inr \<lparr>ref_index = 0, ref_kind = ROOT_AXIOM, root_node = Suc 0\<rparr>"
  by (simp_all add: letter_table_def table_eval has_anonymous_scope_map_def scope_map_count_def read_root_def)

lemma letter_component [simp]:
  assumes "of_char ch < (128 :: nat)"
  shows "canonical_component (letter_table ch) STATE_RUNNING 0 False b =
    mbnd (consume STATE_RUNNING (Suc 0)) (\<lambda>_. mret (C_Scalar COMPONENT_TEXT [ch])) b"
proof -
  have "component_cells (letter_table ch) 0 False = Inr (COMPONENT_TEXT, 0, Suc 0)" "scalar_range (letter_table ch) 0 (Suc 0) = Inr [ch]"
    by (simp_all add: letter_table_def table_eval component_cells_def scalar_range_def)
  with assms show ?thesis
    by (simp add: canonical_component_def mbnd_def mseq_def from_utf8_def byte_values_def split: prod.splits sum.splits)
qed

lemmas budget_eval = mbnd_def mseq_def attempt_def on_error_def consume_def claim_workspace_def release_workspace_def
  allocate_vector_def allocation_bytes_def checked_add_def checked_sub_def checked_mul_def fits_def get_at_def load_def
  store_def merge_budget_def exact_allocator_def record_comparison_byte_def record_merged_root_def record_merged_root_duplicates_def

lemmas table_run = build_table_def validation_work_def checked_total_def event_stack_size_def walk_table_def start_walk_def
  drain_events.simps walk_step_def enter_node_def exit_node_def walk_field_def node_length_def component_length_def leaf_length_def
  framed_length_def varint_width.simps push_length_event_def

lemmas cursor_run = compare_sides_def compare_table_nodes_def compare_roots_def side_compare_roots_def reset_cursor_def push_task_def
  push_tasks_def reserve_task_def compare_bytes.simps compare_step_def next_byte.simps emit_step_def schedule_component_def
  remap_component_def cursor_new_def

abbreviation letter_built :: "char \<Rightarrow> canonical_table" where
  "letter_built ch \<equiv> \<lparr>columns = letter_table ch, lengths = [0, 4], lengths_capacity = 2\<rparr>"

lemma letter_table_built:
  assumes "of_char ch < (128 :: nat)"
  shows "build_table exact_allocator (letter_table ch) STATE_RUNNING (merge_budget 0 0 0 0 0 0) =
      (Inr (letter_built ch), merge_budget 12 16 64 0 0 0)"
    and "build_table exact_allocator (letter_table ch) STATE_RUNNING (merge_budget 12 16 64 0 0 0) =
      (Inr (letter_built ch), merge_budget 24 32 80 0 0 0)"
  using assms by (simp_all add: table_run budget_eval letter_table_valid)

abbreviation letter_merger :: "usize \<Rightarrow> usize \<Rightarrow> usize \<Rightarrow> root_merger" where
  "letter_merger left right capacity \<equiv> \<lparr>left_table = letter_built CHR ''p'', right_table = letter_built CHR ''q'',
     node_cursors = (\<lparr>tasks = [], task_capacity = capacity\<rparr>, \<lparr>tasks = [], task_capacity = capacity\<rparr>),
     left_position = left, right_position = right, left_posting_position = 0, right_posting_position = 0\<rparr>"

abbreviation letter_root :: root_ref where
  "letter_root \<equiv> \<lparr>ref_index = 0, ref_kind = ROOT_AXIOM, root_node = Suc 0\<rparr>"

lemma letter_budget: "canonical_budget_new 1000 10000 = Inr (merge_budget 0 0 0 0 0 0)"
  by (simp add: canonical_budget_new_def merge_budget_def)

lemma letter_merger_built:
  "root_merger_new exact_allocator STATE_RUNNING (letter_table CHR ''p'') (letter_table CHR ''q'') (merge_budget 0 0 0 0 0 0) =
     (Inr (letter_merger 0 0 0), merge_budget 28 32 80 0 0 0)"
  by (simp add: root_merger_new_def comparator_new_def validate_canonical_sets_def check_sets_def check_set_field_def
      validate_group_def check_roots_def check_root_def node_comparator.extend_def cursor_new_def budget_eval
      letter_table_built [unfolded merge_budget_def exact_allocator_def])

lemma letter_merger_new:
  "merge_two_tables exact_allocator STATE_RUNNING 1000 10000 (letter_table CHR ''p'') (letter_table CHR ''q'') =
     Inr (letter_merger 0 0 0, merge_budget 28 32 80 0 0 0)"
  by (simp add: merge_two_tables_def with_limits_def letter_budget letter_merger_built)

lemma letter_merger_next:
  "merger_next exact_allocator STATE_RUNNING (letter_merger 0 0 0) (merge_budget 28 32 80 0 0 0) =
     (Inr (Some (Left_Root letter_root), letter_merger 1 0 8), merge_budget 45 160 160 4 1 0)"
  "merger_next exact_allocator STATE_RUNNING (letter_merger 1 0 8) (merge_budget 45 160 160 4 1 0) =
     (Inr (Some (Right_Root letter_root), letter_merger 1 1 8), merge_budget 46 160 160 4 2 0)"
  "merger_next exact_allocator STATE_RUNNING (letter_merger 1 1 8) (merge_budget 46 160 160 4 2 0) =
     (Inr (None, letter_merger 1 1 8), merge_budget 46 160 160 4 2 0)"
  by (simp_all add: merger_next_def selected_root.simps match_posting.simps posting_count_def take_root_def is_both_def cursor_run
      budget_eval varint_width.simps)


lemma letter_table_built_after:
  assumes "of_char ch < (128 :: nat)"
  shows "build_table exact_allocator (letter_table ch) STATE_RUNNING (merge_budget 0 24 24 0 0 0) =
      (Inr (letter_built ch), merge_budget 12 40 88 0 0 0)"
    and "build_table exact_allocator (letter_table ch) STATE_RUNNING (merge_budget 12 40 88 0 0 0) =
      (Inr (letter_built ch), merge_budget 24 56 104 0 0 0)"
    and "build_table exact_allocator (letter_table ch) STATE_RUNNING (merge_budget 24 56 104 0 0 0) =
      (Inr (letter_built ch), merge_budget 36 72 120 0 0 0)"
  using assms by (simp_all add: table_run budget_eval letter_table_valid)

abbreviation letter_kway :: "usize list \<Rightarrow> root_ref option list \<Rightarrow> root_ref option list \<Rightarrow> usize \<Rightarrow> kway_merger" where
  "letter_kway positions candidates roots capacity \<equiv> \<lparr>kway_tables = [letter_built CHR ''p'', letter_built CHR ''p'', letter_built CHR ''q''],
     kway_positions = positions, kway_posting_positions = [0, 0, 0], kway_candidates = candidates, kway_roots = roots,
     kway_cursors = (\<lparr>tasks = [], task_capacity = capacity\<rparr>, \<lparr>tasks = [], task_capacity = capacity\<rparr>)\<rparr>"

abbreviation letter_tables :: "direct_columns list" where
  "letter_tables \<equiv> [letter_table CHR ''p'', letter_table CHR ''p'', letter_table CHR ''q'']"

lemma letter_kway_built:
  "kway_new exact_allocator STATE_RUNNING letter_tables (merge_budget 0 0 0 0 0 0) =
     (Inr (letter_kway [0, 0, 0] [None, None, None] [None, None, None] 0), merge_budget 42 168 168 0 0 0)"
  by (simp add: kway_new_def validate_table_def validate_original_def check_sets_def check_set_field_def check_roots_def
      check_root_def cursor_new_def upt_rec Let_def budget_eval letter_table_built_after [unfolded merge_budget_def exact_allocator_def])

lemma letter_kway_new:
  "merge_tables exact_allocator STATE_RUNNING 1000 10000 letter_tables =
     Inr (letter_kway [0, 0, 0] [None, None, None] [None, None, None] 0, merge_budget 42 168 168 0 0 0)"
  by (simp add: merge_tables_def with_limits_def letter_budget letter_kway_built)

lemmas kway_run = kway_next_def kway_candidate_def kway_minimum_def kway_collect_def kway_take_def kway_compare_roots_def
  compare_nodes_def selected_root.simps match_posting.simps posting_count_def upt_rec Let_def cursor_run budget_eval varint_width.simps

lemma letter_kway_first:
  "kway_next exact_allocator STATE_RUNNING (letter_kway [0, 0, 0] [None, None, None] [None, None, None] 0) (merge_budget 42 168 168 0 0 0) =
     (Inr (Some [Some letter_root, Some letter_root, None],
           letter_kway [1, 1, 0] [Some letter_root, Some letter_root, Some letter_root] [Some letter_root, Some letter_root, None] 8),
      merge_budget 105 296 296 16 1 1)"
  by (simp add: kway_run)

lemma letter_kway_rest:
  "kway_next exact_allocator STATE_RUNNING
       (letter_kway [1, 1, 0] [Some letter_root, Some letter_root, Some letter_root] [Some letter_root, Some letter_root, None] 8)
       (merge_budget 105 296 296 16 1 1) =
     (Inr (Some [None, None, Some letter_root], letter_kway [1, 1, 1] [None, None, Some letter_root] [None, None, Some letter_root] 8),
      merge_budget 106 296 296 16 2 1)"
  "kway_next exact_allocator STATE_RUNNING (letter_kway [1, 1, 1] [None, None, Some letter_root] [None, None, Some letter_root] 8)
       (merge_budget 106 296 296 16 2 1) =
     (Inr (None, letter_kway [1, 1, 1] [None, None, None] [None, None, None] 8), merge_budget 106 296 296 16 2 1)"
  by (simp_all add: kway_run)

text \<open>Every group and every root a merger hands out costs work.\<close>

lemma group_merges_cost: "group_merges env st m b outs b' \<Longrightarrow> within_limits b \<Longrightarrow> length outs + spent_work b \<le> spent_work b'"
proof (induction rule: group_merges.induct)
  case (groups_end m b m' b')
  then show ?case using meteringD [OF metering_kway_next groups_end.hyps] by (simp add: spends_def)
next
  case (groups_next m b roots m1 b1 outs b')
  have s: "spends b b1" using meteringD [OF metering_kway_next groups_next.hyps(1)] .
  with groups_next.prems groups_next.IH work_left_spent [OF s groups_next.prems kway_next_progress [OF groups_next.hyps(1)]]
  show ?case by (simp add: spends_def)
qed

lemma merges_cost: "merges env st m b outs b' \<Longrightarrow> within_limits b \<Longrightarrow> length outs + spent_work b \<le> spent_work b'"
proof (induction rule: merges.induct)
  case (merges_end m b m' b')
  then show ?case using meteringD [OF metering_merger_next merges_end.hyps] by (simp add: spends_def)
next
  case (merges_next m b out m1 b1 outs b')
  have s: "spends b b1" using meteringD [OF metering_merger_next merges_next.hyps(1)] .
  with merges_next.prems merges_next.IH work_left_spent [OF s merges_next.prems merger_next_progress [OF merges_next.hyps(1)]]
  show ?case by (simp add: spends_def)
qed

section \<open>Properties\<close>

text \<open>
  C17: canonical comparison. When the comparison of two nodes of built tables returns, its answer is the
  lexicographic order of the canonical codes of the two nodes, the codes being those of the reference
  definition, with anonymous scopes remapped, each node having exactly one.
\<close>
theorem comparison_is_code_order:
  assumes "build_table env c st b0 = (Inr left, b1)" and "build_table env d st b2 = (Inr right, b3)"
    and "compare_table_nodes env st False left l right r cursors b4 = (Inr (outcome, cursors'), b5)"
  shows "\<exists>x y. node_code c l x \<and> node_code d r y \<and> outcome = cmp x y"
proof -
  note lt = build_table_ok [OF assms(1)] and rt = build_table_ok [OF assms(2)]
  from assms(3) have "1 \<le> l" "l \<le> node_count c" "1 \<le> r" "r \<le> node_count d"
    using lt(1) rt(1) by (auto simp: compare_table_nodes_def mseq_Inr checked_node_id_Inr)
  with lt rt have k: "node_known left l" "node_known right r" by (simp_all add: node_known_def)
  from compare_table_nodes_order [OF assms(3) k] node_known_code [OF k(1)] node_known_code [OF k(2)] lt(1) rt(1)
  show ?thesis by auto
qed

theorem comparison_is_code_order_witness:
  "\<exists>x y. node_code (letter_table CHR ''p'') 1 x \<and> node_code (letter_table CHR ''q'') 1 y \<and> cmp x y = Less"
proof -
  have p: "of_char CHR ''p'' < (128 :: nat)" and q: "of_char CHR ''q'' < (128 :: nat)" by simp_all
  have "\<exists>cursors b. compare_table_nodes exact_allocator STATE_RUNNING False (letter_built CHR ''p'') 1 (letter_built CHR ''q'') 1
      (cursor_new, cursor_new) (merge_budget 28 32 80 0 0 0) = (Inr (Less, cursors), b)"
    by (simp add: cursor_run budget_eval varint_width.simps)
  then obtain cursors b where "compare_table_nodes exact_allocator STATE_RUNNING False (letter_built CHR ''p'') 1 (letter_built CHR ''q'') 1
      (cursor_new, cursor_new) (merge_budget 28 32 80 0 0 0) = (Inr (Less, cursors), b)" by blast
  from comparison_is_code_order [OF letter_table_built(1) [OF p] letter_table_built(1) [OF q] this] show ?thesis by metis
qed

text \<open>
  C18: the lengths of a built table. The depth-first walk succeeds only on an acyclic reference graph
  whose codes it can measure: every node has exactly one canonical code, and the length recorded for
  the node is the length of this code.
\<close>
theorem table_lengths_exact:
  assumes "build_table env c st b = (Inr t, b')" and "1 \<le> n" and "n \<le> node_count c"
  shows "(\<exists>!code. node_code c n code) \<and> (\<exists>code. node_code c n code \<and> lengths t ! n = length code)"
proof -
  note ok = build_table_ok [OF assms(1)]
  with assms(2,3) obtain code where "node_code c n code" "length code = lengths t ! n" by (auto simp: table_ok_def)
  with node_code_unique show ?thesis by metis
qed

theorem table_lengths_exact_witness:
  "\<exists>!code. node_code (letter_table CHR ''p'') 1 code"
  using table_lengths_exact [OF letter_table_built(1) [of "CHR ''p''"], of 1] by simp

text \<open>
  C16: the two-table merge. The roots a freshly built merger returns until it is exhausted are the
  selected roots of both tables: their canonical keys (kind, then code) ascend strictly, every key
  selected by a table appears, a root is reported for one side exactly when the other does not select
  its key and for both when both do, and work and workspace stay within the limits given.
\<close>
theorem two_table_merge_exact:
  assumes "merge_two_tables env st work_limit workspace_limit left right = Inr (m, b)"
    and "buffers_fit left" and "buffers_fit right" and "merges env st m b outs b'"
  shows "map (merged_key left right) outs = sorted_list_of_set (set (selected_keys left) \<union> set (selected_keys right)) \<and>
    list_all (output_ok left right (set (selected_keys left)) (set (selected_keys right))) outs \<and>
    spent_work b' \<le> work_limit \<and> peak_workspace_bytes b' \<le> workspace_limit"
proof -
  from with_limits_Inr [OF assms(1) [unfolded merge_two_tables_def] metering_root_merger_new]
  obtain b0 where n: "root_merger_new env st left right b0 = (Inr m, b)" and w: "within_limits b" "max_work b = work_limit"
    "max_workspace_bytes b = workspace_limit" by blast
  note ok = root_merger_new_ok [OF n assms(2,3)]
  note u = merges_union [OF assms(4) ok(1) ok(2,3) [symmetric], unfolded ok(4,5)]
  have "sorted_list_of_set (set (map (merged_key left right) outs)) = map (merged_key left right) outs"
    using u(1) by (intro sorted_list_of_set.idem_if_sorted_distinct) (auto simp: strict_sorted_iff)
  with u(2,3) merges_spends [OF assms(4)] w show ?thesis
    by (simp add: list_all_iff spends_def within_limits_def)
qed

theorem two_table_merge_exact_witness:
  "map (merged_key (letter_table CHR ''p'') (letter_table CHR ''q'')) [Left_Root letter_root, Right_Root letter_root] =
     sorted_list_of_set (set (selected_keys (letter_table CHR ''p'')) \<union> set (selected_keys (letter_table CHR ''q'')))"
  using two_table_merge_exact [OF letter_merger_new letter_table_fits letter_table_fits
      merges_next [OF letter_merger_next(1) merges_next [OF letter_merger_next(2) merges_end [OF letter_merger_next(3)]]]]
  by simp

text \<open>
  C13: the merge of any number of tables. The groups a freshly built merger returns until it is
  exhausted run through the union of the selected canonical keys in ascending order, each key once; a
  group holds a root for a table exactly when that table selects the key, and the root has it.
\<close>
theorem table_merge_exact:
  assumes "merge_tables env st work_limit workspace_limit cs = Inr (m, b)"
    and "\<forall>c \<in> set cs. buffers_fit c" and "group_merges env st m b outs b'"
  shows "list_all2 (group_output cs (\<lambda>i. set (selected_keys (cs ! i))))
      (sorted_list_of_set (\<Union>c \<in> set cs. set (selected_keys c))) outs"
proof -
  from assms(1) have "with_limits work_limit workspace_limit (kway_new env st cs) = Inr (m, b)"
    by (simp add: merge_tables_def split: if_splits)
  from with_limits_Inr [OF this metering_kway_new] obtain b0 where n: "kway_new env st cs b0 = (Inr m, b)" by blast
  note ok = kway_new_ok [OF n, OF bspec [OF assms(2)]]
  from group_merges_union [OF assms(3) ok(1) ok(2) [symmetric]] obtain keys where s: "sorted_wrt (<) keys"
    and u: "set keys = (\<Union>i < length cs. set (table_remaining m i))"
    and l: "list_all2 (group_output cs (\<lambda>i. set (table_remaining m i))) keys outs" by blast
  have "(\<Union>i < length cs. set (table_remaining m i)) = (\<Union>c \<in> set cs. set (selected_keys c))"
  proof -
    have "set cs = (!) cs ` {..< length cs}" by (auto simp: set_conv_nth)
    then show ?thesis using ok(3) by simp
  qed
  with s u have "sorted_list_of_set (\<Union>c \<in> set cs. set (selected_keys c)) = keys"
    by (metis sorted_list_of_set.idem_if_sorted_distinct strict_sorted_iff)
  moreover have "group_output cs (\<lambda>i. set (table_remaining m i)) = group_output cs (\<lambda>i. set (selected_keys (cs ! i)))"
    using ok(3) by (auto simp: group_output_def fun_eq_iff split: option.splits)
  ultimately show ?thesis using l by simp
qed

theorem table_merge_exact_witness:
  "list_all2 (group_output letter_tables (\<lambda>i. set (selected_keys (letter_tables ! i))))
      (sorted_list_of_set (\<Union>c \<in> set letter_tables. set (selected_keys c)))
      [[Some letter_root, Some letter_root, None], [None, None, Some letter_root]]"
  by (rule table_merge_exact [OF letter_kway_new _ groups_next [OF letter_kway_first
        groups_next [OF letter_kway_rest(1) groups_end [OF letter_kway_rest(2)]]]])
    (simp add: letter_table_fits)

lemma merge_groups_next:
  "kway_next env st m b = (Inr (Some roots, m'), b1) \<Longrightarrow> body roots s = Inr s' \<Longrightarrow>
     merge_groups env st body m s b = merge_groups env st body m' s' b1"
  and merge_groups_end: "kway_next env st m b = (Inr (None, m'), b1) \<Longrightarrow> merge_groups env st body m s b = (Inr (s, m'), b1)"
  by (simp_all add: merge_groups.simps [of env st body m s b])

lemma merge_roots_next:
  "merger_next env st m b = (Inr (Some out, m'), b1) \<Longrightarrow> body out s = Inr s' \<Longrightarrow>
     merge_roots env st body m s b = merge_roots env st body m' s' b1"
  and merge_roots_end: "merger_next env st m b = (Inr (None, m'), b1) \<Longrightarrow> merge_roots env st body m s b = (Inr s, b1)"
  by (simp_all add: merge_roots.simps [of env st body m s b])

text \<open>
  C22: the budget of a whole merge. A merge of several tables is the construction of the merger, the loop
  that hands each group to the caller, and the ranking of the anonymous individuals; a merge of two tables
  is the construction and the loop. Whatever each part returns, an error included, and whatever the caller does
  with the roots: the work spent and the peak of the workspace never fall from one part to the next, so
  that nothing resets the budget, and the work, the peak and the workspace in use stay within the limits to
  the end. And the merge is paid for: each group, and each root of a two-table merge, costs at
  least one unit of work, so no more of them are handed out than the work spent.
\<close>
theorem merge_within_limits:
  assumes "canonical_budget_new work_limit workspace_limit = Inr b0"
    and "kway_new env st cs b0 = (built, b1)" and "merge_groups env st step m s b1 = (groups, b2)"
    and "assign_anonymous_positions st m' xs b2 = (positions, b3)"
    and "root_merger_new env st left right b0 = (paired, c1)" and "merge_roots env st body n t c1 = (roots, c2)"
  shows "sorted [0, spent_work b1, spent_work b2, spent_work b3, work_limit] \<and>
    sorted [0, peak_workspace_bytes b1, peak_workspace_bytes b2, peak_workspace_bytes b3, workspace_limit] \<and>
    workspace_bytes b3 \<le> peak_workspace_bytes b3 \<and>
    sorted [0, spent_work c1, spent_work c2, work_limit] \<and>
    sorted [0, peak_workspace_bytes c1, peak_workspace_bytes c2, workspace_limit] \<and>
    workspace_bytes c2 \<le> peak_workspace_bytes c2 \<and>
    (group_merges env st m b1 group_list b \<longrightarrow> length group_list \<le> spent_work b \<and> spent_work b \<le> work_limit) \<and>
    (merges env st n c1 root_list c \<longrightarrow> length root_list \<le> spent_work c \<and> spent_work c \<le> work_limit)"
proof -
  from assms(1) have 0: "within_limits b0" "max_work b0 = work_limit" "max_workspace_bytes b0 = workspace_limit"
    by (auto simp: canonical_budget_new_def within_limits_def split: if_splits)
  have g: "spends b0 b1" "spends b1 b2" "spends b2 b3" and r: "spends b0 c1" "spends c1 c2"
    using meteringD [OF metering_kway_new assms(2)] meteringD [OF metering_merge_groups assms(3)]
      meteringD [OF metering_assign_anonymous assms(4)] meteringD [OF metering_root_merger_new assms(5)]
      meteringD [OF metering_merge_roots assms(6)] by blast+
  from g r 0(1) have w: "within_limits b1" "within_limits c1" by (simp_all add: spends_def)
  have groups: "length group_list \<le> spent_work b \<and> spent_work b \<le> work_limit" if "group_merges env st m b1 group_list b"
    using group_merges_cost [OF that w(1)] group_merges_spends [OF that] g(1) 0 by (auto simp: spends_def within_limits_def)
  have roots: "length root_list \<le> spent_work c \<and> spent_work c \<le> work_limit" if "merges env st n c1 root_list c"
    using merges_cost [OF that w(2)] merges_spends [OF that] r(1) 0 by (auto simp: spends_def within_limits_def)
  from g r 0 groups roots show ?thesis by (auto simp: spends_def within_limits_def)
qed

lemma letter_counted:
  "merge_groups exact_allocator STATE_RUNNING (\<lambda>_ k. Inr (k + 1)) (letter_kway [0, 0, 0] [None, None, None] [None, None, None] 0) 0
     (merge_budget 42 168 168 0 0 0) = (Inr (2 :: nat, letter_kway [1, 1, 1] [None, None, None] [None, None, None] 8), merge_budget 106 296 296 16 2 1)"
  "merge_roots exact_allocator STATE_RUNNING (\<lambda>_ k. Inr (k + 1)) (letter_merger 0 0 0) 0 (merge_budget 28 32 80 0 0 0) =
     (Inr (2 :: nat), merge_budget 46 160 160 4 2 0)"
  by (simp_all only: merge_groups_next [where body = "\<lambda>_ k. Inr (k + 1)", OF letter_kway_first refl]
      merge_groups_next [where body = "\<lambda>_ k. Inr (k + 1)", OF letter_kway_rest(1) refl]
      merge_groups_end [where body = "\<lambda>_ k. Inr (k + 1)", OF letter_kway_rest(2)]
      merge_roots_next [where body = "\<lambda>_ k. Inr (k + 1)", OF letter_merger_next(1) refl]
      merge_roots_next [where body = "\<lambda>_ k. Inr (k + 1)", OF letter_merger_next(2) refl]
      merge_roots_end [where body = "\<lambda>_ k. Inr (k + 1)", OF letter_merger_next(3)] add_0 one_add_one)

theorem merge_within_limits_witness:
  "sorted [0, spent_work (merge_budget 42 168 168 0 0 0), spent_work (merge_budget 106 296 296 16 2 1), 106, 1000] \<and>
   sorted [0, peak_workspace_bytes (merge_budget 28 32 80 0 0 0), peak_workspace_bytes (merge_budget 46 160 160 4 2 0), 10000] \<and>
   length [Left_Root letter_root, Right_Root letter_root] \<le> 46"
proof -
  have none: "assign_anonymous_positions STATE_RUNNING (letter_kway [1, 1, 1] [None, None, None] [None, None, None] 8) []
      (merge_budget 106 296 296 16 2 1) = (Inr ([], 0), merge_budget 106 296 296 16 2 1)"
    by (simp add: assign_anonymous_positions_def assign_rounds.simps assign_round_def mbnd_def mret_def del: One_nat_def)
  have roots: "merges exact_allocator STATE_RUNNING (letter_merger 0 0 0) (merge_budget 28 32 80 0 0 0)
      [Left_Root letter_root, Right_Root letter_root] (merge_budget 46 160 160 4 2 0)"
    by (rule merges_next [OF letter_merger_next(1) merges_next [OF letter_merger_next(2) merges_end [OF letter_merger_next(3)]]])
  have "spent_work (merge_budget 106 296 296 16 2 1) = 106" "spent_work (merge_budget 46 160 160 4 2 0) = 46"
    by (simp_all add: merge_budget_def)
  with merge_within_limits [OF letter_budget letter_kway_built letter_counted(1) none letter_merger_built letter_counted(2),
      of "[]" _ "[Left_Root letter_root, Right_Root letter_root]" "merge_budget 46 160 160 4 2 0"] roots
  show ?thesis by simp
qed

text \<open>
  C21: anonymous positions. Coordinates that start without a position all get one: the rank of their
  effective identity (remapped scope, varint of the key length, key) among the distinct identities, so
  equal identities share a position across tables, and the count returned is the number of identities.
\<close>
theorem anonymous_positions_ranked:
  assumes "assign_anonymous_positions st m xs b = (Inr (zs, n), b')"
    and "\<forall>x \<in> set xs. node_canonical_order x = USIZE_MAX" and "length xs < USIZE_MAX"
  shows "\<exists>keys. map (coordinate_key (kway_tables m)) xs = map Inr keys \<and> n = card (set keys) \<and>
    zs = map (\<lambda>(x, k). x\<lparr>node_canonical_order := rank_in (set keys) k\<rparr>) (zip xs keys)"
proof -
  let ?key = "key_at (kway_tables m) xs" and ?keys = "map (key_at (kway_tables m) xs) [0 ..< length xs]"
  have u: "unassigned xs i" if "i < length xs" for i using assms(2) that by (simp add: unassigned_def)
  then have none: "assigned_keys k xs = {}" for k by (auto simp: assigned_keys_def)
  have "positions_ok (kway_tables m) xs 0 xs"
    using u by (simp add: positions_ok_def Let_def none unassigned_def)
  from assign_rounds_ranks [OF assms(1) [unfolded assign_anonymous_positions_def] this assms(3)]
  have ok: "positions_ok (kway_tables m) xs n zs" and all: "\<forall>i < length xs. \<not> unassigned zs i" by blast+
  from ok have l: "length zs = length xs" by (simp add: positions_ok_def Let_def)
  have K: "assigned_keys ?key zs = set ?keys" using all l by (auto simp: assigned_keys_def)
  from ok have n: "n = card (set ?keys)" by (simp only: positions_ok_def Let_def K)
  have c: "coordinate_key (kway_tables m) (xs ! i) = Inr (?key i)"
    and z: "zs ! i = (xs ! i)\<lparr>node_canonical_order := rank_in (set ?keys) (?key i)\<rparr>" if i: "i < length xs" for i
  proof -
    have nu: "unassigned zs i = False" using all i by simp
    note q = ok [unfolded positions_ok_def Let_def K, THEN conjunct2, THEN conjunct2, rule_format, OF i, unfolded nu if_False simp_thms]
    from q show "coordinate_key (kway_tables m) (xs ! i) = Inr (?key i)"
      "zs ! i = (xs ! i)\<lparr>node_canonical_order := rank_in (set ?keys) (?key i)\<rparr>" by blast+
  qed
  from c have "map (coordinate_key (kway_tables m)) xs = map Inr ?keys" by (intro nth_equalityI) simp_all
  moreover have "zs = map (\<lambda>(x, k). x\<lparr>node_canonical_order := rank_in (set ?keys) k\<rparr>) (zip xs ?keys)"
  proof (rule nth_equalityI)
    fix i assume "i < length zs"
    with l have i: "i < length xs" by simp
    then have "zip xs ?keys ! i = (xs ! i, ?key i)" by simp
    with z [OF i] i show "zs ! i = map (\<lambda>(x, k). x\<lparr>node_canonical_order := rank_in (set ?keys) k\<rparr>) (zip xs ?keys) ! i"
      by (simp only: nth_map length_zip length_map length_upt prod.case min.idem minus_nat.diff_0)
  qed (simp add: l)
  ultimately show ?thesis using n by blast
qed

definition anonymous_merger :: kway_merger where
  "anonymous_merger = \<lparr>kway_tables = [\<lparr>columns = anonymous_table, lengths = [], lengths_capacity = 0\<rparr>,
       \<lparr>columns = anonymous_table, lengths = [], lengths_capacity = 0\<rparr>],
     kway_positions = [], kway_posting_positions = [], kway_candidates = [], kway_roots = [],
     kway_cursors = (cursor_new, cursor_new)\<rparr>"

abbreviation coordinate :: "usize \<Rightarrow> usize \<Rightarrow> usize \<Rightarrow> composite_node_coordinate" where
  "coordinate t n p \<equiv> \<lparr>node_table = t, coordinate_node = n, node_canonical_order = p\<rparr>"

lemma USIZE_MAX_large [simp]: "0 \<noteq> USIZE_MAX" "Suc 0 \<noteq> USIZE_MAX"
  by (simp_all add: USIZE_MAX_def)

lemma anonymous_assigned:
  "\<exists>b. assign_anonymous_positions STATE_RUNNING anonymous_merger [coordinate 0 2 USIZE_MAX, coordinate 0 1 USIZE_MAX, coordinate 1 2 USIZE_MAX]
     (merge_budget 0 0 0 0 0 0) = (Inr ([coordinate 0 2 1, coordinate 0 1 0, coordinate 1 2 1], 2), b)"
  by (simp add: assign_anonymous_positions_def assign_rounds.simps assign_round_def minimum_coordinate_def assign_position_def
      compare_effective_anonymous_nodes_def anonymous_merger_def anonymous_table_parts [simplified] checked_total_def
      compare_canonical_varints_def varint_encode.simps upt_rec budget_eval Let_def cmp_def)

theorem anonymous_positions_ranked_witness:
  "\<exists>keys. map (coordinate_key (kway_tables anonymous_merger)) [coordinate 0 2 USIZE_MAX, coordinate 0 1 USIZE_MAX, coordinate 1 2 USIZE_MAX]
      = map Inr keys \<and> card (set keys) = 2"
proof -
  from anonymous_assigned obtain b where "assign_anonymous_positions STATE_RUNNING anonymous_merger
      [coordinate 0 2 USIZE_MAX, coordinate 0 1 USIZE_MAX, coordinate 1 2 USIZE_MAX]
     (merge_budget 0 0 0 0 0 0) = (Inr ([coordinate 0 2 1, coordinate 0 1 0, coordinate 1 2 1], 2), b)" by blast
  from anonymous_positions_ranked [OF this] show ?thesis by (simp add: USIZE_MAX_def) metis
qed

end
