(* ===== verification/Composite_Scope.thy ===== *)
theory Composite_Scope
  imports Root_Plan Reachability Overlay_Deltas
begin

text \<open>
  Members of a composite whose anonymous individuals are renamed (\<open>validate_scope_mapped_composite_table\<close>
  of \<open>DirectColumns\<close> and the shapes it recognises): such a member has one anonymous individual, one root
  that carries it in a supported construct, and named \<open>SubClassOf\<close> roots besides.
\<close>

datatype scope_mapped_composite_kind =
    ScopeIgnoredSubclass | ScopeIgnoredObjectPropertyDomain | ScopeIgnoredObjectPropertyRange | ScopeIgnoredClass
  | ScopePositiveObject | ScopeNegativeObject | ScopePositiveData | ScopeNegativeData | ScopeSameIndividual
  | ScopeDifferentIndividuals | ScopeSilentAnnotation | ScopeSilentOntologyAnnotation | ScopeSilentSwrl

section \<open>Ignored shapes\<close>

definition annotation_count :: "direct_columns \<Rightarrow> usize \<Rightarrow> usize kres" where
  "annotation_count c field = map_res snd (node_set_range c field 0)"

definition when_anonymous :: "direct_columns \<Rightarrow> usize \<Rightarrow> usize option kres" where
  "when_anonymous c node_id =
     map_res (\<lambda>tag. if tag = TAG_ANONYMOUS_INDIVIDUAL then Some node_id else None) (node_tag c node_id)"

definition singleton_anonymous_nominal_member :: "direct_columns \<Rightarrow> usize \<Rightarrow> usize option kres" where
  "singleton_anonymous_nominal_member c expression =
     bnd (node_tag c expression) (\<lambda>tag.
     if tag \<noteq> TAG_OBJECT_ONE_OF then Inr None else
     bnd (exact_fields c expression 1) (\<lambda>nominal_start.
     bnd (node_set_range c nominal_start 1) (\<lambda>(item_start, items).
     if items \<noteq> 1 then Inr None else
     bnd (item_node c item_start) (when_anonymous c))))"

definition anonymous_individual_class_expression_member :: "direct_columns \<Rightarrow> usize \<Rightarrow> usize \<Rightarrow> usize option kres" where
  "anonymous_individual_class_expression_member c expression maximum =
     bnd (node_tag c expression) (\<lambda>tag.
     if tag = TAG_OBJECT_ONE_OF then singleton_anonymous_nominal_member c expression
     else if tag = TAG_OBJECT_HAS_VALUE then
       bnd (exact_fields c expression 2) (\<lambda>start.
       bnd (field_node c start) (\<lambda>property.
       seq (discard (named_object_property_iri c property maximum)) (
       bnd (field_node c (start + 1)) (when_anonymous c))))
     else Inr None)"

text \<open>\<open>candidate.is_some_and(|c| anonymous_node.is_none_or(|e| c == e))\<close>\<close>

definition is_expected :: "usize option \<Rightarrow> usize option \<Rightarrow> bool" where
  "is_expected anonymous_node candidate =
     (case candidate of None \<Rightarrow> False | Some n \<Rightarrow> (case anonymous_node of None \<Rightarrow> True | Some expected \<Rightarrow> n = expected))"

definition is_scope_mapped_ignored_subclass :: "direct_columns \<Rightarrow> usize \<Rightarrow> usize option \<Rightarrow> usize \<Rightarrow> bool kres" where
  "is_scope_mapped_ignored_subclass c root anonymous_node maximum =
     bnd (exact_fields c root 3) (\<lambda>start.
     bnd (annotation_count c (start + 2)) (\<lambda>annotations.
     if annotations \<noteq> 0 then Inr False else
     bnd (field_node c start) (\<lambda>sub_node.
     bnd (field_node c (start + 1)) (\<lambda>super_node.
     bnd (node_tag c sub_node) (\<lambda>sub_tag.
     bnd (node_tag c super_node) (\<lambda>super_tag.
     map_res (is_expected anonymous_node)
       (if sub_tag = TAG_ENTITY then anonymous_individual_class_expression_member c super_node maximum
        else if super_tag = TAG_ENTITY then anonymous_individual_class_expression_member c sub_node maximum
        else Inr None)))))))"

definition is_scope_mapped_ignored_object_property_class ::
  "direct_columns \<Rightarrow> usize \<Rightarrow> nat \<Rightarrow> usize option \<Rightarrow> usize \<Rightarrow> bool kres" where
  "is_scope_mapped_ignored_object_property_class c root expected_tag anonymous_node maximum =
     bnd (exact_fields c root 3) (\<lambda>start.
     bnd (annotation_count c (start + 2)) (\<lambda>annotations.
     if annotations \<noteq> 0 then Inr False else
     bnd (field_node c start) (\<lambda>property.
     seq (discard (named_object_property_iri c property maximum)) (
     bnd (field_node c (start + 1)) (\<lambda>class_id.
     bnd (anonymous_individual_class_expression_member c class_id maximum) (\<lambda>candidate.
     map_res (\<lambda>tag. tag = expected_tag \<and> is_expected anonymous_node candidate) (node_tag c root)))))))"

definition is_scope_mapped_ignored_class_assertion :: "direct_columns \<Rightarrow> usize \<Rightarrow> usize option \<Rightarrow> usize \<Rightarrow> bool kres" where
  "is_scope_mapped_ignored_class_assertion c root anonymous_node maximum =
     bnd (exact_fields c root 3) (\<lambda>start.
     bnd (annotation_count c (start + 2)) (\<lambda>annotations.
     if annotations \<noteq> 0 then Inr False else
     bnd (field_node c start) (\<lambda>class_id.
     bnd (field_node c (start + 1)) (\<lambda>individual.
     bnd (node_tag c class_id) (\<lambda>class_tag.
     bnd (if class_tag = TAG_ENTITY then when_anonymous c individual
          else if class_tag = TAG_OBJECT_ONE_OF \<or> class_tag = TAG_OBJECT_HAS_VALUE then
            bnd (node_tag c individual) (\<lambda>tag.
            if tag = TAG_ENTITY then anonymous_individual_class_expression_member c class_id maximum else Inr None)
          else Inr None) (\<lambda>candidate.
     Inr (is_expected anonymous_node candidate)))))))"

section \<open>The anonymous individual and the excluded roots\<close>

definition find_anonymous_node :: "direct_columns \<Rightarrow> nat \<Rightarrow> usize \<Rightarrow> usize option \<Rightarrow> usize option kres" where
  "find_anonymous_node c st node_id found =
     seq (check_cancel st node_id) (
     bnd (node_tag c node_id) (\<lambda>tag.
     if tag \<noteq> TAG_ANONYMOUS_INDIVIDUAL then Inr found
     else if found \<noteq> None then Inl Unsupported else Inr (Some node_id)))"

definition sole_anonymous_node :: "direct_columns \<Rightarrow> nat \<Rightarrow> usize kres" where
  "sole_anonymous_node c st =
     bnd (fold_res (find_anonymous_node c st) [1 ..< node_count c + 1] None) (ok_or Unsupported)"

definition is_taxonomy :: "subclass_projection_t \<Rightarrow> bool" where
  "is_taxonomy projection = (case projection of SubclassTaxonomy _ _ \<Rightarrow> True | _ \<Rightarrow> False)"

definition validate_excluded_root :: "direct_columns \<Rightarrow> usize \<Rightarrow> usize \<Rightarrow> usize \<Rightarrow> unit kres" where
  "validate_excluded_root c maximum root_index root =
     bnd (root_kind c root_index) (\<lambda>kind.
     bnd (if kind \<noteq> ROOT_AXIOM then Inr False else
          bnd (node_tag c root) (\<lambda>tag.
          if tag \<noteq> TAG_SUB_CLASS_OF then Inr False else map_res is_taxonomy (subclass_projection c root maximum)))
       (\<lambda>named.
     seq (reject_if (\<not> named) Unsupported) (
     bnd (exact_fields c root 3) (\<lambda>start.
     bnd (annotation_count c (start + 2)) (\<lambda>annotations.
     reject_if (annotations \<noteq> 0) Unsupported)))))"

section \<open>The construct of a root\<close>

text \<open>One function per arm of the \<open>match\<close>: the kind the root contributes, given that the member has none
  yet where the arm asks for it.\<close>

definition scope_ontology_annotation :: "direct_columns \<Rightarrow> usize \<Rightarrow> usize \<Rightarrow> usize \<Rightarrow> scope_mapped_composite_kind kres" where
  "scope_ontology_annotation c maximum anonymous_node root =
     seq (validate_annotation c root maximum) (
     bnd (exact_fields c root 3) (\<lambda>start.
     seq (discard (node_set_range c (start + 2) 0)) (
     bnd (field_node c (start + 1)) (\<lambda>v.
     if v \<noteq> anonymous_node then Inl Unsupported else Inr ScopeSilentOntologyAnnotation))))"

definition scope_swrl :: "direct_columns \<Rightarrow> nat \<Rightarrow> usize \<Rightarrow> scope_mapped_composite_kind kres" where
  "scope_swrl c st root =
     seq (validate_swrl_rule c root) (
     bnd (root_contains_anonymous_individual c root st) (\<lambda>found.
     if \<not> found then Inl Unsupported else Inr ScopeSilentSwrl))"

definition scope_subclass :: "direct_columns \<Rightarrow> selected_root_rule_plan \<Rightarrow> usize \<Rightarrow> usize \<Rightarrow> usize \<Rightarrow> usize
    \<Rightarrow> scope_mapped_composite_kind option \<Rightarrow> scope_mapped_composite_kind option kres" where
  "scope_subclass c plan maximum anonymous_node root_index root kind = (case shape_at plan root_index of
     Some (SubclassShape projection) \<Rightarrow>
       (case projection of
          SubclassTaxonomy _ _ \<Rightarrow> Inr kind
        | SubclassIgnored \<Rightarrow>
            bnd (if kind \<noteq> None then Inr False
                 else is_scope_mapped_ignored_subclass c root (Some anonymous_node) maximum) (\<lambda>ignored.
            if ignored then Inr (Some ScopeIgnoredSubclass) else Inl Unsupported)
        | SubclassRestriction _ _ _ \<Rightarrow> Inl Unsupported)
   | _ \<Rightarrow> Inl Malformed)"

definition scope_object_property_class :: "direct_columns \<Rightarrow> selected_root_rule_plan \<Rightarrow> usize \<Rightarrow> usize \<Rightarrow> usize \<Rightarrow> usize
    \<Rightarrow> root_rule \<Rightarrow> scope_mapped_composite_kind kres" where
  "scope_object_property_class c plan maximum anonymous_node root_index root rule =
     bnd (ok_or Malformed (kind_from_effect (domain_range_effect rule))) (\<lambda>kind.
     case shape_at plan root_index of
       Some (ObjectPropertyClassShape projection) \<Rightarrow>
         bnd (if projection \<noteq> None then Inr False
              else is_scope_mapped_ignored_object_property_class c root (rule_tag rule) (Some anonymous_node) maximum)
           (\<lambda>ignored.
         if \<not> ignored then Inl Unsupported else
         Inr (case kind of KindDomain \<Rightarrow> ScopeIgnoredObjectPropertyDomain | KindRange \<Rightarrow> ScopeIgnoredObjectPropertyRange))
     | _ \<Rightarrow> Inl Malformed)"

definition scope_class_assertion :: "direct_columns \<Rightarrow> selected_root_rule_plan \<Rightarrow> usize \<Rightarrow> usize \<Rightarrow> usize \<Rightarrow> usize
    \<Rightarrow> scope_mapped_composite_kind kres" where
  "scope_class_assertion c plan maximum anonymous_node root_index root = (case shape_at plan root_index of
     Some (ClassAssertionShape projection) \<Rightarrow>
       bnd (if projection \<noteq> ClassAssertionIgnored then Inr False
            else is_scope_mapped_ignored_class_assertion c root (Some anonymous_node) maximum) (\<lambda>ignored.
       if \<not> ignored then Inl Unsupported else Inr ScopeIgnoredClass)
   | _ \<Rightarrow> Inl Malformed)"

definition one_anonymous_endpoint :: "usize \<Rightarrow> individual_value_t \<Rightarrow> individual_value_t \<Rightarrow> bool" where
  "one_anonymous_endpoint anonymous_node source destination = (case (source, destination) of
     (Anonymous node, Named _) \<Rightarrow> node = anonymous_node
   | (Named _, Anonymous node) \<Rightarrow> node = anonymous_node
   | _ \<Rightarrow> False)"

definition scope_object_property_assertion :: "direct_columns \<Rightarrow> selected_root_rule_plan \<Rightarrow> usize \<Rightarrow> usize \<Rightarrow> usize
    \<Rightarrow> scope_mapped_composite_kind kres" where
  "scope_object_property_assertion c plan anonymous_node root_index root =
     bnd (exact_fields c root 4) (\<lambda>start.
     bnd (annotation_count c (start + 3)) (\<lambda>annotations.
     case shape_at plan root_index of
       Some (ObjectPropertyAssertionShape source _ destination) \<Rightarrow>
         if annotations \<noteq> 0 \<or> \<not> one_anonymous_endpoint anonymous_node source destination
         then Inl Unsupported else Inr ScopePositiveObject
     | _ \<Rightarrow> Inl Malformed))"

definition scope_negative_object_property_assertion :: "direct_columns \<Rightarrow> usize \<Rightarrow> usize \<Rightarrow> usize
    \<Rightarrow> scope_mapped_composite_kind kres" where
  "scope_negative_object_property_assertion c maximum anonymous_node root =
     bnd (exact_fields c root 4) (\<lambda>start.
     bnd (annotation_count c (start + 3)) (\<lambda>annotations.
     bnd (field_node c start) (\<lambda>property.
     seq (discard (named_object_property_iri c property maximum)) (
     bnd (field_node c (start + 1)) (\<lambda>source_id.
     bnd (individual_value c source_id maximum) (\<lambda>source.
     bnd (field_node c (start + 2)) (\<lambda>destination_id.
     bnd (individual_value c destination_id maximum) (\<lambda>destination.
     if annotations \<noteq> 0 \<or> \<not> one_anonymous_endpoint anonymous_node source destination
     then Inl Unsupported else Inr ScopeNegativeObject))))))))"

definition scope_data_property_assertion :: "direct_columns \<Rightarrow> usize \<Rightarrow> usize \<Rightarrow> usize \<Rightarrow> root_rule
    \<Rightarrow> scope_mapped_composite_kind kres" where
  "scope_data_property_assertion c maximum anonymous_node root rule =
     bnd (exact_fields c root 4) (\<lambda>start.
     bnd (annotation_count c (start + 3)) (\<lambda>annotations.
     bnd (field_node c start) (\<lambda>property.
     seq (discard (named_data_property_iri c property maximum)) (
     bnd (field_node c (start + 1)) (\<lambda>source_id.
     bnd (individual_value c source_id maximum) (\<lambda>source.
     bnd (field_node c (start + 2)) (\<lambda>literal.
     seq (validate_literal c literal maximum) (
     if annotations \<noteq> 0 \<or> source \<noteq> Anonymous anonymous_node then Inl Unsupported else
     case effect_counter (stats_effect rule) of
       CountDataPropertyAssertions \<Rightarrow> Inr ScopePositiveData
     | CountNegativeDataPropertyAssertions \<Rightarrow> Inr ScopeNegativeData
     | _ \<Rightarrow> Inl Malformed))))))))"

definition count_member :: "direct_columns \<Rightarrow> usize \<Rightarrow> usize \<Rightarrow> usize \<Rightarrow> usize \<times> usize \<Rightarrow> (usize \<times> usize) kres" where
  "count_member c maximum anonymous_node item_index s =
     bnd (item_node c item_index) (\<lambda>item.
     bnd (individual_value c item maximum) (\<lambda>v. case v of
       Anonymous node \<Rightarrow> if node = anonymous_node then Inr (fst s + 1, snd s) else Inl Unsupported
     | Named _ \<Rightarrow> Inr (fst s, snd s + 1)))"

definition scope_individual_set :: "direct_columns \<Rightarrow> usize \<Rightarrow> usize \<Rightarrow> usize \<Rightarrow> root_rule
    \<Rightarrow> scope_mapped_composite_kind kres" where
  "scope_individual_set c maximum anonymous_node root rule =
     seq (validate_individual_set_axiom c root (rule_tag rule) maximum) (
     bnd (exact_fields c root 2) (\<lambda>start.
     bnd (node_set_range c start 2) (\<lambda>(item_start, items).
     bnd (annotation_count c (start + 1)) (\<lambda>annotations.
     bnd (fold_res (count_member c maximum anonymous_node) [item_start ..< item_start + items] (0, 0)) (\<lambda>(anonymous, named).
     if items \<noteq> 2 \<or> annotations \<noteq> 0 \<or> anonymous \<noteq> 1 \<or> named \<noteq> 1 then Inl Unsupported else
     case effect_counter (stats_effect rule) of
       CountSameIndividuals \<Rightarrow> Inr ScopeSameIndividual
     | CountDifferentIndividuals \<Rightarrow> Inr ScopeDifferentIndividuals
     | _ \<Rightarrow> Inl Malformed)))))"

definition scope_annotation_assertion :: "direct_columns \<Rightarrow> usize \<Rightarrow> usize \<Rightarrow> usize \<Rightarrow> scope_mapped_composite_kind kres" where
  "scope_annotation_assertion c maximum anonymous_node root =
     seq (validate_annotation_assertion c root maximum) (
     bnd (exact_fields c root 4) (\<lambda>start.
     seq (discard (node_set_range c (start + 3) 0)) (
     bnd (field_node c (start + 1)) (\<lambda>subject.
     bnd (field_node c (start + 2)) (\<lambda>v.
     if (subject = anonymous_node) = (v = anonymous_node) then Inl Unsupported else Inr ScopeSilentAnnotation)))))"

definition first_construct :: "scope_mapped_composite_kind option \<Rightarrow> scope_mapped_composite_kind kres
    \<Rightarrow> scope_mapped_composite_kind option kres" where
  "first_construct kind arm = seq (reject_if (kind \<noteq> None) Unsupported) (map_res Some arm)"

definition scope_construct :: "direct_columns \<Rightarrow> selected_root_rule_plan \<Rightarrow> usize \<Rightarrow> nat \<Rightarrow> usize \<Rightarrow> usize \<Rightarrow> usize
    \<Rightarrow> root_rule \<Rightarrow> scope_mapped_composite_kind option \<Rightarrow> scope_mapped_composite_kind option kres" where
  "scope_construct c plan maximum st anonymous_node root_index root rule kind =
     (if rule_root_kind rule = ROOT_ONTOLOGY_ANNOTATION then
        (if handler rule = HandleOntologyAnnotation
         then first_construct kind (scope_ontology_annotation c maximum anonymous_node root) else Inl Unsupported)
      else if rule_root_kind rule = ROOT_EXTENSION then
        (if handler rule = HandleSwrlRule then first_construct kind (scope_swrl c st root) else Inl Unsupported)
      else if rule_root_kind rule \<noteq> ROOT_AXIOM then Inl Unsupported else
      case handler rule of
        HandleSubclass \<Rightarrow> scope_subclass c plan maximum anonymous_node root_index root kind
      | HandleObjectPropertyClass \<Rightarrow>
          first_construct kind (scope_object_property_class c plan maximum anonymous_node root_index root rule)
      | HandleClassAssertion \<Rightarrow> first_construct kind (scope_class_assertion c plan maximum anonymous_node root_index root)
      | HandleObjectPropertyAssertion \<Rightarrow>
          first_construct kind (scope_object_property_assertion c plan anonymous_node root_index root)
      | HandleNegativeObjectPropertyAssertion \<Rightarrow>
          first_construct kind (scope_negative_object_property_assertion c maximum anonymous_node root)
      | HandleDataPropertyAssertion \<Rightarrow>
          first_construct kind (scope_data_property_assertion c maximum anonymous_node root rule)
      | HandleIndividualSet \<Rightarrow> first_construct kind (scope_individual_set c maximum anonymous_node root rule)
      | HandleAnnotationAssertion \<Rightarrow> first_construct kind (scope_annotation_assertion c maximum anonymous_node root)
      | _ \<Rightarrow> Inl Unsupported)"

definition scope_root :: "direct_columns \<Rightarrow> selected_root_rule_plan \<Rightarrow> usize \<Rightarrow> nat \<Rightarrow> usize \<Rightarrow> usize
    \<Rightarrow> scope_mapped_composite_kind option \<Rightarrow> scope_mapped_composite_kind option kres" where
  "scope_root c plan maximum st anonymous_node root_index kind =
     seq (check_cancel st root_index) (
     bnd (root_id c root_index) (\<lambda>root.
     bnd (root_is_selected c root_index) (\<lambda>chosen.
     if \<not> chosen then seq (validate_excluded_root c maximum root_index root) (Inr kind) else
     bnd (rule_at plan root_index) (\<lambda>rule.
     bnd (root_kind c root_index) (\<lambda>found_kind.
     bnd (if found_kind \<noteq> rule_root_kind rule then Inr True else map_res (\<lambda>tag. tag \<noteq> rule_tag rule) (node_tag c root))
       (\<lambda>changed.
     seq (reject_if changed Malformed)
       (scope_construct c plan maximum st anonymous_node root_index root rule kind)))))))"

definition validate_scope_mapped_composite_table :: "direct_columns \<Rightarrow> selected_root_rule_plan \<Rightarrow> usize \<Rightarrow> nat
    \<Rightarrow> (scope_mapped_composite_kind \<times> bytes \<times> bytes) kres" where
  "validate_scope_mapped_composite_table c plan maximum st =
     seq (reject_if (included_root_ids c \<noteq> [] \<or> \<not> has_anonymous_scope_map c) Unsupported) (
     bnd (sole_anonymous_node c st) (\<lambda>anonymous_node.
     bnd (exact_fields c anonymous_node 2) (\<lambda>anonymous_start.
     bnd (scalar_payload c anonymous_start COMPONENT_BYTES) (\<lambda>source_scope.
     bnd (remap_anonymous_scope c source_scope) (\<lambda>target_scope.
     seq (reject_if (source_scope = target_scope) Malformed) (
     bnd (fold_res (scope_root c plan maximum st anonymous_node) [0 ..< root_count c] None) (\<lambda>kind.
     bnd (ok_or Unsupported kind) (\<lambda>construct_kind.
     Inr (construct_kind, source_scope, target_scope)))))))))"

end
