(* ===== verification/Overlay_Workspace.thy ===== *)
theory Overlay_Workspace
  imports Run_Monad Text_Rendering
begin

text \<open>
  \<open>LocalOverlayWorkspace\<close> of \<open>native/src/encoded_direct.rs\<close>: the bytes a composition of tables may own.
  Every vector and string is charged with the capacity the allocator gave it. What Rust leaves open
  (the size of an item of each type, the capacity a successful reservation yields, whether it succeeds)
  is \<open>overlay_allocator\<close>.
\<close>

record overlay_workspace =
  ws_limit :: usize
  ws_claimed :: usize

text \<open>The item types of the vectors charged.\<close>

datatype owned_kind =
    Own_Rule_Index | Own_Role_Root | Own_Shape_Root | Own_Emission_Root | Own_Aggregate_Root | Own_Named_Operand
  | Own_Restriction_Operand | Own_Restriction_Coordinate | Own_Usize | Own_Bool | Own_Text | Own_Equivalent_Restriction
  | Own_Delta | Own_Local_Class | Own_Occurrence | Own_Group | Own_Rule_Plan | Own_Columns | Own_Scope_Construct
  | Own_Scope_Target | Own_Root_Coordinate | Own_Node_Coordinate | Own_Tail_Plan | Own_Role_Row

record overlay_allocator =
  owned_bytes :: "owned_kind \<Rightarrow> usize"
  owned_capacity :: "owned_kind \<Rightarrow> usize \<Rightarrow> usize option"
  text_capacity :: "usize \<Rightarrow> usize option"

definition workspace_new :: "usize \<Rightarrow> overlay_workspace kres" where
  "workspace_new limit = (if limit = 0 then Inl Resource else Inr \<lparr>ws_limit = limit, ws_claimed = 0\<rparr>)"

definition ws_claim :: "usize \<Rightarrow> ('z overlay_workspace_scheme, unit) run" where
  "ws_claim amount w = (case checked_add (ws_claimed w) amount of
     None \<Rightarrow> (Inl Resource, w)
   | Some next_claimed \<Rightarrow>
       if next_claimed > ws_limit w then (Inl Resource, w) else (Inr (), w\<lparr>ws_claimed := next_claimed\<rparr>))"

definition ws_set :: "usize \<Rightarrow> ('z overlay_workspace_scheme, unit) run" where
  "ws_set claimed w = (Inr (), w\<lparr>ws_claimed := claimed\<rparr>)"

text \<open>\<open>clone_text\<close>: the length is charged first, the rest of the capacity afterwards.\<close>

definition ws_clone_text :: "overlay_allocator \<Rightarrow> text_str \<Rightarrow> ('z overlay_workspace_scheme, text_str) run" where
  "ws_clone_text env v =
     mseq (ws_claim (length v)) (
     mbnd (mlift (clone_text v)) (\<lambda>owned.
     mbnd (mlift (ok_or Resource (text_capacity env (length v)))) (\<lambda>capacity.
     mseq (ws_claim (capacity - length v)) (mret owned))))"

definition RESERVED_BYTES :: usize where
  "RESERVED_BYTES = 27"

definition ws_anonymous_identifier :: "overlay_allocator \<Rightarrow> usize \<Rightarrow> ('z overlay_workspace_scheme, text_str) run" where
  "ws_anonymous_identifier env position =
     mseq (ws_claim RESERVED_BYTES) (
     mbnd (mlift (render_anonymous_identifier position)) (\<lambda>owned.
     mbnd (mlift (ok_or Resource (text_capacity env RESERVED_BYTES))) (\<lambda>capacity.
     mseq (ws_claim (capacity - RESERVED_BYTES)) (mret owned))))"

definition owned_size :: "overlay_allocator \<Rightarrow> owned_kind \<Rightarrow> usize \<Rightarrow> usize kres" where
  "owned_size env kind n = ok_or Resource (checked_mul n (owned_bytes env kind))"

text \<open>\<open>reserve_owned\<close> returns an empty vector; its items are pushed within the capacity reserved.\<close>

definition reserve_owned :: "overlay_allocator \<Rightarrow> owned_kind \<Rightarrow> usize \<Rightarrow> ('z overlay_workspace_scheme, unit) run" where
  "reserve_owned env kind item_count =
     mbnd (mlift (owned_size env kind item_count)) (\<lambda>requested.
     mseq (ws_claim requested) (
     mbnd (mlift (ok_or Resource (owned_capacity env kind item_count))) (\<lambda>capacity.
     mbnd (mlift (owned_size env kind capacity)) (\<lambda>actual.
     ws_claim (actual - requested)))))"

text \<open>\<open>push_owned\<close> on a vector of \<open>len\<close> items: the capacity afterwards. When it has to grow and fails, the
  claim is rolled back.\<close>

definition push_owned :: "overlay_allocator \<Rightarrow> owned_kind \<Rightarrow> usize \<Rightarrow> usize \<Rightarrow> ('z overlay_workspace_scheme, usize) run" where
  "push_owned env kind len capacity w =
     (if len \<noteq> capacity then (Inr capacity, w) else
      let claimed_before = ws_claimed w; required = owned_bytes env kind in
      mseq (ws_claim required) (
      case owned_capacity env kind (len + 1) of
        None \<Rightarrow> mseq (ws_set claimed_before) (mlift (Inl Resource))
      | Some new_capacity \<Rightarrow>
          mbnd (mlift (ok_or Resource (Option.bind (checked_sub new_capacity capacity)
                 (\<lambda>grown. checked_mul grown (owned_bytes env kind))))) (\<lambda>additional.
          mseq (if additional > required
                then on_error (ws_claim (additional - required)) (ws_set claimed_before)
                else mbnd (mlift (ok_or Resource (checked_add claimed_before additional))) ws_set)
            (mret new_capacity))) w)"

definition reserve_overlay_deltas :: "overlay_allocator \<Rightarrow> usize \<Rightarrow> ('z overlay_workspace_scheme, unit) run" where
  "reserve_overlay_deltas env = reserve_owned env Own_Delta"

definition remaining_for_canonical_merge :: "'z overlay_workspace_scheme \<Rightarrow> usize kres" where
  "remaining_for_canonical_merge w =
     (let remaining = ws_limit w - ws_claimed w in if remaining = 0 then Inl Resource else Inr remaining)"

section \<open>Laws\<close>

text \<open>
  What every computation on a workspace keeps: the limit, and that the claim stays within it. The claim
  only grows on success.
\<close>

definition ws_within :: "'z overlay_workspace_scheme \<Rightarrow> bool" where
  "ws_within w \<longleftrightarrow> ws_claimed w \<le> ws_limit w"

definition charging :: "('z overlay_workspace_scheme, 'a) run \<Rightarrow> bool" where
  "charging m \<longleftrightarrow> (\<forall>w r w'. m w = (r, w') \<longrightarrow> ws_within w \<longrightarrow>
     ws_within w' \<and> ws_limit w' = ws_limit w \<and> ws_claimed w \<le> ws_claimed w')"

named_theorems charging_intros \<open>computations that charge their workspace\<close>

lemma chargingD:
  assumes "charging m" and "m w = (r, w')" and "ws_within w"
  shows "ws_within w'" and "ws_limit w' = ws_limit w" and "ws_claimed w \<le> ws_claimed w'"
  using assms by (auto simp: charging_def)

lemma charging_mret [charging_intros]: "charging (mret x)"
  and charging_mlift [charging_intros]: "charging (mlift r)"
  by (simp_all add: charging_def)

lemma charging_mbnd [charging_intros]: "charging m \<Longrightarrow> (\<And>x. charging (f x)) \<Longrightarrow> charging (mbnd m f)"
  by (force simp: charging_def mbnd_run)

lemma charging_mseq [charging_intros]: "charging m \<Longrightarrow> charging k \<Longrightarrow> charging (mseq m k)"
  by (simp add: mseq_def charging_mbnd)

lemma charging_if [charging_intros]: "(P \<Longrightarrow> charging m) \<Longrightarrow> (\<not> P \<Longrightarrow> charging k) \<Longrightarrow> charging (if P then m else k)"
  by simp

lemma charging_mfold [charging_intros]: "(\<And>x s. charging (f x s)) \<Longrightarrow> charging (mfold f xs s)"
  by (induction xs arbitrary: s) (simp_all add: charging_intros)

lemma charging_claim [charging_intros]: "charging (ws_claim amount)"
  by (auto simp: charging_def ws_claim_def ws_within_def checked_add_def split: option.splits if_splits)

lemma charging_clone_text [charging_intros]: "charging (ws_clone_text env v)"
  and charging_anonymous_identifier [charging_intros]: "charging (ws_anonymous_identifier env n)"
  and charging_reserve_owned [charging_intros]: "charging (reserve_owned env kind n)"
  and charging_reserve_deltas [charging_intros]: "charging (reserve_overlay_deltas env n)"
  unfolding ws_clone_text_def ws_anonymous_identifier_def reserve_owned_def reserve_overlay_deltas_def
  by (intro charging_intros)+

lemma charging_push_owned [charging_intros]: "charging (push_owned env kind len capacity)"
  unfolding charging_def push_owned_def ws_claim_def ws_set_def ws_within_def
  by (auto simp: mseq_def mbnd_def on_error_def attempt_def Let_def checked_add_def
      split: option.splits if_splits prod.splits sum.splits)

lemma ws_clone_text_Inr: "ws_clone_text env v w = (Inr x, w') \<Longrightarrow> x = v"
  by (auto simp: ws_clone_text_def mseq_Inr mbnd_Inr clone_text_def)

text \<open>A push charges the growth of the vector, so the claim follows the capacities.\<close>

lemma push_owned_exact:
  assumes "push_owned env kind len capacity w = (Inr capacity', w')"
  shows "ws_claimed w' + capacity * owned_bytes env kind = ws_claimed w + capacity' * owned_bytes env kind"
  using assms
  by (auto simp: push_owned_def ws_claim_def ws_set_def mseq_def mbnd_def on_error_def attempt_def Let_def
      checked_add_def checked_sub_def checked_mul_def diff_mult_distrib
      split: option.splits if_splits prod.splits sum.splits)
    (metis (no_types) le_add_diff_inverse2 mult_le_mono1 trans_le_add2)

end
