(* ===== verification/Overlay_Ownership.thy ===== *)
theory Overlay_Ownership
  imports Composite_Scope Overlay_Workspace Emission
begin

text \<open>
  From a planned root of an added table to the delta that owns its texts: \<open>own_local_emitting_projection\<close>
  for the root of a local overlay, \<open>own_composite_tail_projection\<close> for the roots a composite adds to its
  base table.
\<close>

type_synonym 'a owning = "(overlay_workspace, 'a) run"

section \<open>Local overlays\<close>

definition validate_local_annotation_scope :: "direct_columns \<Rightarrow> usize \<Rightarrow> usize \<Rightarrow> nat \<Rightarrow> unit kres" where
  "validate_local_annotation_scope c root annotation_field st =
     bnd (annotation_count c annotation_field) (\<lambda>annotations.
     bnd (if annotations \<noteq> 0 then root_contains_anonymous_individual c root st else Inr False) (\<lambda>refused.
     reject_if refused Unsupported))"

definition own_local_subclass_projection :: "overlay_allocator \<Rightarrow> subclass_projection_t \<Rightarrow> direct_columns \<Rightarrow> usize \<Rightarrow> nat
    \<Rightarrow> owned_overlay_delta_projection owning" where
  "own_local_subclass_projection env projection c root st =
     mbnd (mlift (exact_fields c root 3)) (\<lambda>field_start.
     mseq (mlift (validate_local_annotation_scope c root (field_start + 2) st)) (
     case projection of
       SubclassTaxonomy source destination \<Rightarrow>
         mbnd (ws_clone_text env source) (\<lambda>owned_source.
         mbnd (ws_clone_text env destination) (\<lambda>owned_target.
         mret (DeltaTaxonomy owned_source owned_target)))
     | SubclassRestriction source relation destination \<Rightarrow>
         mbnd (ws_clone_text env source) (\<lambda>owned_source.
         mbnd (ws_clone_text env relation) (\<lambda>owned_relation.
         mbnd (ws_clone_text env destination) (\<lambda>owned_target.
         mret (DeltaRestriction owned_source owned_relation owned_target))))
     | SubclassIgnored \<Rightarrow> mlift (Inl Unsupported)))"

definition own_local_class_assertion_projection :: "overlay_allocator \<Rightarrow> class_assertion_projection_t \<Rightarrow> direct_columns \<Rightarrow> usize
    \<Rightarrow> nat \<Rightarrow> owned_overlay_delta_projection owning" where
  "own_local_class_assertion_projection env projection c root st =
     mbnd (mlift (exact_fields c root 3)) (\<lambda>field_start.
     mseq (mlift (validate_local_annotation_scope c root (field_start + 2) st)) (
     case projection of
       ClassAssertionEdge individual _ class_iri _ \<Rightarrow>
         mbnd (ws_clone_text env individual) (\<lambda>owned_individual.
         mbnd (ws_clone_text env class_iri) (\<lambda>owned_class.
         mret (DeltaClassAssertion owned_individual owned_class)))
     | ClassAssertionIgnored \<Rightarrow> mlift (Inl Unsupported)))"

definition own_local_object_property_assertion_projection :: "overlay_allocator \<Rightarrow> individual_value_t \<Rightarrow> text_str
    \<Rightarrow> individual_value_t \<Rightarrow> direct_columns \<Rightarrow> usize \<Rightarrow> nat \<Rightarrow> owned_overlay_delta_projection owning" where
  "own_local_object_property_assertion_projection env source relation destination c root st =
     mbnd (mlift (exact_fields c root 4)) (\<lambda>field_start.
     mseq (mlift (validate_local_annotation_scope c root (field_start + 3) st)) (
     case (source, destination) of
       (Named source_iri, Named destination_iri) \<Rightarrow>
         mbnd (ws_clone_text env source_iri) (\<lambda>owned_source.
         mbnd (ws_clone_text env relation) (\<lambda>owned_relation.
         mbnd (ws_clone_text env destination_iri) (\<lambda>owned_target.
         mret (DeltaObjectPropertyAssertion owned_source owned_relation owned_target 0))))
     | _ \<Rightarrow> mlift (Inl Unsupported)))"

definition own_named_operand :: "overlay_allocator \<Rightarrow> nat \<Rightarrow> usize \<times> planned_aggregate_named_operand \<Rightarrow> text_str list
    \<Rightarrow> text_str list owning" where
  "own_named_operand env st operand names =
     mseq (mlift (check_cancel st (fst operand))) (
     mbnd (ws_clone_text env (operand_iri (snd operand))) (\<lambda>owned. mret (names @ [owned])))"

definition own_restriction_operand :: "overlay_allocator \<Rightarrow> nat \<Rightarrow> usize \<times> planned_aggregate_restriction_operand
    \<Rightarrow> owned_equivalent_restriction list \<Rightarrow> owned_equivalent_restriction list owning" where
  "own_restriction_operand env st operand restrictions =
     mseq (mlift (check_cancel st (fst operand))) (
     case operand_projection (snd operand) of
       None \<Rightarrow> mret restrictions
     | Some (relation, destination) \<Rightarrow>
         mbnd (ws_clone_text env relation) (\<lambda>relation'.
         mbnd (ws_clone_text env destination) (\<lambda>destination'.
         mret (restrictions @ [\<lparr>owned_relation = relation', owned_destination = destination'\<rparr>]))))"

definition own_aggregate :: "overlay_allocator \<Rightarrow> text_str \<Rightarrow> selected_root_rule_plan \<Rightarrow> usize \<Rightarrow> nat
    \<Rightarrow> owned_overlay_delta_projection owning" where
  "own_aggregate env source plan root_index st =
     mbnd (mlift (ok_or Malformed (aggregate_at plan root_index))) (\<lambda>aggregate.
     mbnd (mlift (plan_named_operands plan aggregate)) (\<lambda>planned_named.
     mbnd (mlift (plan_restriction_operands plan aggregate)) (\<lambda>planned_restrictions.
     mseq (reserve_owned env Own_Text (length planned_named)) (
     mbnd (mfold (own_named_operand env st) (enumerate 0 planned_named) []) (\<lambda>named_destinations.
     mseq (reserve_owned env Own_Equivalent_Restriction (length planned_restrictions)) (
     mbnd (mfold (own_restriction_operand env st) (enumerate 0 planned_restrictions) []) (\<lambda>restrictions.
     mbnd (ws_clone_text env source) (\<lambda>owned_source.
     mret (DeltaEquivalentAggregate owned_source named_destinations restrictions
             (planned_ignored_shapes aggregate))))))))))"

definition own_local_equivalent_projection :: "overlay_allocator \<Rightarrow> equivalent_projection_t \<Rightarrow> selected_root_rule_plan \<Rightarrow> usize
    \<Rightarrow> direct_columns \<Rightarrow> usize \<Rightarrow> nat \<Rightarrow> owned_overlay_delta_projection owning" where
  "own_local_equivalent_projection env projection plan root_index c root st =
     mbnd (mlift (exact_fields c root 2)) (\<lambda>field_start.
     mseq (mlift (validate_local_annotation_scope c root (field_start + 1) st)) (
     mbnd (mlift (root_contains_anonymous_individual c root st)) (\<lambda>found.
     mseq (mlift (reject_if found Unsupported)) (
     case projection of
       EquivalentPair source _ destination _ \<Rightarrow>
         mbnd (ws_clone_text env source) (\<lambda>owned_source.
         mbnd (ws_clone_text env destination) (\<lambda>owned_target.
         mret (DeltaEquivalentPair owned_source owned_target)))
     | EquivalentIgnored \<Rightarrow> mret DeltaIgnoredEquivalent
     | EquivalentAggregate source _ _ \<Rightarrow> own_aggregate env source plan root_index st))))"

definition own_local_emitting_projection :: "overlay_allocator \<Rightarrow> root_rule \<Rightarrow> planned_root_shape option
    \<Rightarrow> selected_root_rule_plan \<Rightarrow> usize \<Rightarrow> direct_columns \<Rightarrow> usize \<Rightarrow> nat \<Rightarrow> owned_overlay_delta_projection owning" where
  "own_local_emitting_projection env rule planned_shape plan root_index c root st =
     (case (phase rule, handler rule, planned_shape) of
        (PhaseSubclasses, HandleSubclass, Some (SubclassShape projection)) \<Rightarrow>
          own_local_subclass_projection env projection c root st
      | (PhaseEquivalents, HandleEquivalentClasses, Some (EquivalentShape projection)) \<Rightarrow>
          own_local_equivalent_projection env projection plan root_index c root st
      | (PhaseClassAssertions, HandleClassAssertion, Some (ClassAssertionShape projection)) \<Rightarrow>
          own_local_class_assertion_projection env projection c root st
      | (PhaseObjectAssertions, HandleObjectPropertyAssertion, Some (ObjectPropertyAssertionShape source relation destination)) \<Rightarrow>
          own_local_object_property_assertion_projection env source relation destination c root st
      | _ \<Rightarrow> mlift (Inl Unsupported))"

section \<open>Composites\<close>

record dynamic_tail_context =
  tail_construct :: "(scope_mapped_composite_kind \<times> usize) option"
  tail_table :: usize
  tail_anonymous_nodes :: "composite_node_coordinate list"

definition own_composite_individual :: "overlay_allocator \<Rightarrow> individual_value_t \<Rightarrow> usize \<Rightarrow> composite_node_coordinate list
    \<Rightarrow> text_str owning" where
  "own_composite_individual env v table coordinates = (case v of
     Named text \<Rightarrow> ws_clone_text env text
   | Anonymous node_id \<Rightarrow>
       mbnd (mlift (composite_anonymous_position coordinates table node_id)) (ws_anonymous_identifier env))"

definition valid_envelope :: "root_rule \<Rightarrow> bool" where
  "valid_envelope rule \<longleftrightarrow>
     rule_root_kind rule = ROOT_AXIOM \<and> annotation_policy rule = AxiomAnnotations \<and> anonymous_scope_policy rule = AxiomDerived \<or>
     rule_root_kind rule = ROOT_ONTOLOGY_ANNOTATION \<and> handler rule = HandleOntologyAnnotation \<and>
       annotation_policy rule = NestedAnnotation \<and> anonymous_scope_policy rule = ExcludedFromAxiomIds \<or>
     rule_root_kind rule = ROOT_EXTENSION \<and> handler rule = HandleSwrlRule \<and>
       annotation_policy rule = RuleAnnotations \<and> anonymous_scope_policy rule = ExcludedFromAxiomIds"

definition own_tail_ontology_annotation :: "direct_columns \<Rightarrow> usize \<Rightarrow> usize \<Rightarrow> owned_overlay_delta_projection kres" where
  "own_tail_ontology_annotation c root maximum =
     seq (validate_annotation c root maximum) (
     bnd (exact_fields c root 3) (\<lambda>start.
     bnd (field_node c (start + 1)) (\<lambda>v.
     seq (discard (node_set_range c (start + 2) 0)) (
     bnd (node_tag c v) (\<lambda>tag.
     if tag \<noteq> TAG_ANONYMOUS_INDIVIDUAL then Inl Unsupported else Inr DeltaSilentOntologyAnnotation)))))"

definition own_tail_swrl :: "direct_columns \<Rightarrow> usize \<Rightarrow> nat \<Rightarrow> owned_overlay_delta_projection kres" where
  "own_tail_swrl c root st =
     seq (validate_swrl_rule c root) (
     bnd (root_contains_anonymous_individual c root st) (\<lambda>found.
     if \<not> found then Inl Unsupported else Inr DeltaSilentSwrl))"

text \<open>The ignored \<open>SubClassOf\<close> of a member; \<open>None\<close> where the code goes on to the general case.\<close>

definition own_tail_ignored_subclass :: "direct_columns \<Rightarrow> usize \<Rightarrow> usize \<Rightarrow> planned_root_shape option
    \<Rightarrow> owned_overlay_delta_projection option kres" where
  "own_tail_ignored_subclass c root maximum planned_shape = (case planned_shape of
     Some (SubclassShape projection) \<Rightarrow>
       bnd (if projection = SubclassIgnored then is_scope_mapped_ignored_subclass c root None maximum else Inr False)
         (\<lambda>ignored.
       if ignored then Inr (Some (DeltaIgnoredSubclass 1))
       else if is_taxonomy projection then Inr None else Inl Unsupported)
   | _ \<Rightarrow> Inl Malformed)"

definition own_tail_object_property_class :: "direct_columns \<Rightarrow> usize \<Rightarrow> usize \<Rightarrow> root_rule \<Rightarrow> planned_root_shape option
    \<Rightarrow> object_property_class_rule_kind \<Rightarrow> owned_overlay_delta_projection kres" where
  "own_tail_object_property_class c root maximum rule planned_shape kind = (case planned_shape of
     Some (ObjectPropertyClassShape projection) \<Rightarrow>
       bnd (if projection \<noteq> None then Inr False
            else is_scope_mapped_ignored_object_property_class c root (rule_tag rule) None maximum) (\<lambda>ignored.
       if \<not> ignored then Inl Unsupported else Inr (DeltaIgnoredObjectPropertyClass kind 1))
   | _ \<Rightarrow> Inl Malformed)"

definition own_tail_positive_object :: "overlay_allocator \<Rightarrow> direct_columns \<Rightarrow> usize \<Rightarrow> planned_root_shape option \<Rightarrow> usize
    \<Rightarrow> owned_overlay_delta_projection owning" where
  "own_tail_positive_object env c root planned_shape position =
     mbnd (mlift (exact_fields c root 4)) (\<lambda>field_start.
     mbnd (mlift (annotation_count c (field_start + 3))) (\<lambda>annotations.
     mseq (mlift (reject_if (annotations \<noteq> 0) Unsupported)) (
     case planned_shape of
       Some (ObjectPropertyAssertionShape source relation destination) \<Rightarrow>
         mbnd (case (source, destination) of
             (Anonymous _, Named destination_iri) \<Rightarrow>
               mbnd (ws_anonymous_identifier env position) (\<lambda>s.
               mbnd (ws_clone_text env destination_iri) (\<lambda>d. mret (s, d)))
           | (Named source_iri, Anonymous _) \<Rightarrow>
               mbnd (ws_clone_text env source_iri) (\<lambda>s.
               mbnd (ws_anonymous_identifier env position) (\<lambda>d. mret (s, d)))
           | _ \<Rightarrow> mlift (Inl Unsupported)) (\<lambda>(owned_source, owned_target).
         mbnd (ws_clone_text env relation) (\<lambda>owned_relation.
         mret (DeltaObjectPropertyAssertion owned_source owned_relation owned_target 1)))
     | _ \<Rightarrow> mlift (Inl Malformed))))"

definition mixed_endpoints :: "individual_value_t \<Rightarrow> individual_value_t \<Rightarrow> bool" where
  "mixed_endpoints source destination = (case (source, destination) of
     (Anonymous _, Named _) \<Rightarrow> True | (Named _, Anonymous _) \<Rightarrow> True | _ \<Rightarrow> False)"

definition own_tail_negative_object :: "direct_columns \<Rightarrow> usize \<Rightarrow> usize \<Rightarrow> owned_overlay_delta_projection kres" where
  "own_tail_negative_object c root maximum =
     bnd (exact_fields c root 4) (\<lambda>field_start.
     bnd (annotation_count c (field_start + 3)) (\<lambda>annotations.
     seq (reject_if (annotations \<noteq> 0) Unsupported) (
     bnd (field_node c field_start) (\<lambda>property.
     seq (discard (named_object_property_iri c property maximum)) (
     bnd (field_node c (field_start + 1)) (\<lambda>source_id.
     bnd (individual_value c source_id maximum) (\<lambda>source.
     bnd (field_node c (field_start + 2)) (\<lambda>destination_id.
     bnd (individual_value c destination_id maximum) (\<lambda>destination.
     if \<not> mixed_endpoints source destination then Inl Unsupported
     else Inr (DeltaIgnoredNegativeObjectPropertyAssertion 1))))))))))"

definition own_tail_data :: "direct_columns \<Rightarrow> usize \<Rightarrow> usize \<Rightarrow> root_rule \<Rightarrow> owned_overlay_delta_projection kres" where
  "own_tail_data c root maximum rule =
     bnd (exact_fields c root 4) (\<lambda>field_start.
     bnd (annotation_count c (field_start + 3)) (\<lambda>annotations.
     seq (reject_if (annotations \<noteq> 0) Unsupported) (
     bnd (field_node c field_start) (\<lambda>property.
     seq (discard (named_data_property_iri c property maximum)) (
     bnd (field_node c (field_start + 1)) (\<lambda>source_id.
     bnd (individual_value c source_id maximum) (\<lambda>source.
     bnd (field_node c (field_start + 2)) (\<lambda>literal.
     seq (validate_literal c literal maximum) (
     case source of
       Named _ \<Rightarrow> Inl Unsupported
     | Anonymous _ \<Rightarrow> Inr (DeltaIgnoredDataPropertyAssertion 1
           (effect_counter (stats_effect rule) = CountNegativeDataPropertyAssertions)))))))))))"

definition count_endpoint :: "direct_columns \<Rightarrow> usize \<Rightarrow> usize \<Rightarrow> usize \<times> usize \<Rightarrow> (usize \<times> usize) kres" where
  "count_endpoint c maximum item_index s =
     bnd (item_node c item_index) (\<lambda>item.
     map_res (\<lambda>v. case v of Anonymous _ \<Rightarrow> (fst s + 1, snd s) | Named _ \<Rightarrow> (fst s, snd s + 1)) (individual_value c item maximum))"

definition own_tail_individual_set :: "direct_columns \<Rightarrow> usize \<Rightarrow> usize \<Rightarrow> root_rule \<Rightarrow> owned_overlay_delta_projection kres" where
  "own_tail_individual_set c root maximum rule =
     seq (validate_individual_set_axiom c root (rule_tag rule) maximum) (
     bnd (exact_fields c root 2) (\<lambda>field_start.
     bnd (node_set_range c field_start 2) (\<lambda>(item_start, items).
     bnd (annotation_count c (field_start + 1)) (\<lambda>annotations.
     bnd (fold_res (count_endpoint c maximum) [item_start ..< item_start + items] (0, 0)) (\<lambda>(anonymous, named).
     if items \<noteq> 2 \<or> annotations \<noteq> 0 \<or> anonymous \<noteq> 1 \<or> named \<noteq> 1 then Inl Unsupported
     else Inr (DeltaIgnoredIndividualSet 1 (effect_counter (stats_effect rule) = CountDifferentIndividuals)))))))"

definition own_tail_annotation :: "direct_columns \<Rightarrow> usize \<Rightarrow> usize \<Rightarrow> owned_overlay_delta_projection kres" where
  "own_tail_annotation c root maximum =
     seq (validate_annotation_assertion c root maximum) (
     bnd (exact_fields c root 4) (\<lambda>field_start.
     seq (discard (node_set_range c (field_start + 3) 0)) (
     bnd (field_node c (field_start + 1)) (\<lambda>subject.
     bnd (node_tag c subject) (\<lambda>subject_tag.
     bnd (field_node c (field_start + 2)) (\<lambda>v.
     bnd (node_tag c v) (\<lambda>value_tag.
     if (subject_tag = TAG_ANONYMOUS_INDIVIDUAL) = (value_tag = TAG_ANONYMOUS_INDIVIDUAL) then Inl Unsupported
     else Inr (DeltaIgnoredAnnotationAssertion 1))))))))"

definition own_tail_class_assertion :: "overlay_allocator \<Rightarrow> direct_columns \<Rightarrow> usize \<Rightarrow> usize \<Rightarrow> planned_root_shape option
    \<Rightarrow> owned_overlay_delta_projection owning" where
  "own_tail_class_assertion env c root maximum planned_shape =
     mbnd (mlift (exact_fields c root 3)) (\<lambda>field_start.
     mbnd (mlift (annotation_count c (field_start + 2))) (\<lambda>annotations.
     mseq (mlift (reject_if (annotations \<noteq> 0) Unsupported)) (
     case planned_shape of
       Some (ClassAssertionShape (ClassAssertionEdge individual _ class_iri _)) \<Rightarrow>
         mbnd (ws_clone_text env individual) (\<lambda>owned_individual.
         mbnd (ws_clone_text env class_iri) (\<lambda>owned_class.
         mret (DeltaClassAssertion owned_individual owned_class)))
     | Some (ClassAssertionShape ClassAssertionIgnored) \<Rightarrow>
         mbnd (mlift (is_scope_mapped_ignored_class_assertion c root None maximum)) (\<lambda>ignored.
         if ignored then mret (DeltaIgnoredClassAssertion 1) else mlift (Inl Unsupported))
     | _ \<Rightarrow> mlift (Inl Malformed))))"

text \<open>The block for roots without a construct of their own.\<close>

definition own_tail_general :: "overlay_allocator \<Rightarrow> root_rule \<Rightarrow> planned_root_shape option \<Rightarrow> selected_root_rule_plan \<Rightarrow> usize
    \<Rightarrow> direct_columns \<Rightarrow> usize \<Rightarrow> nat \<Rightarrow> dynamic_tail_context \<Rightarrow> owned_overlay_delta_projection owning" where
  "own_tail_general env rule planned_shape plan root_index c root st context =
     (if handler rule = HandleObjectPropertyClass then
        mbnd (mlift (ok_or Malformed (kind_from_effect (domain_range_effect rule)))) (\<lambda>kind.
        case planned_shape of
          Some (ObjectPropertyClassShape projection) \<Rightarrow>
            mret (if projection \<noteq> None then DeltaSilentRoot rule else DeltaIgnoredObjectPropertyClass kind 0)
        | _ \<Rightarrow> mlift (Inl Malformed))
      else if handler rule = HandleObjectPropertyAssertion then
        (case planned_shape of
           Some (ObjectPropertyAssertionShape source relation destination) \<Rightarrow>
             mbnd (own_composite_individual env source (tail_table context) (tail_anonymous_nodes context)) (\<lambda>owned_source.
             mbnd (ws_clone_text env relation) (\<lambda>owned_relation.
             mbnd (own_composite_individual env destination (tail_table context) (tail_anonymous_nodes context)) (\<lambda>owned_target.
             mret (DeltaObjectPropertyAssertion owned_source owned_relation owned_target 0))))
         | _ \<Rightarrow> mlift (Inl Malformed))
      else if handler rule = HandleSubclass \<and> planned_shape = Some (SubclassShape SubclassIgnored) then
        mret (DeltaIgnoredSubclass 0)
      else if handler rule = HandleClassAssertion \<and> planned_shape = Some (ClassAssertionShape ClassAssertionIgnored) then
        mret (DeltaIgnoredClassAssertion 0)
      else if handler rule \<in> {HandleSubclass, HandleEquivalentClasses, HandleClassAssertion} then
        own_local_emitting_projection env rule planned_shape plan root_index c root st
      else mret (DeltaSilentRoot rule))"

text \<open>The construct branches, in the order of the code; \<open>None\<close> where none of them applies.\<close>

definition own_tail_construct :: "overlay_allocator \<Rightarrow> root_rule \<Rightarrow> planned_root_shape option \<Rightarrow> direct_columns \<Rightarrow> usize \<Rightarrow> usize
    \<Rightarrow> nat \<Rightarrow> (scope_mapped_composite_kind \<times> usize) option \<Rightarrow> owned_overlay_delta_projection option owning" where
  "own_tail_construct env rule planned_shape c root maximum st construct =
     (case (map_option fst construct, handler rule) of
        (Some ScopeSilentOntologyAnnotation, HandleOntologyAnnotation) \<Rightarrow>
          mlift (map_res Some (own_tail_ontology_annotation c root maximum))
      | (Some ScopeSilentSwrl, HandleSwrlRule) \<Rightarrow> mlift (map_res Some (own_tail_swrl c root st))
      | (Some ScopeIgnoredSubclass, HandleSubclass) \<Rightarrow> mlift (own_tail_ignored_subclass c root maximum planned_shape)
      | (Some ScopePositiveObject, HandleObjectPropertyAssertion) \<Rightarrow>
          mbnd (own_tail_positive_object env c root planned_shape (case construct of Some (_, position) \<Rightarrow> position | None \<Rightarrow> 0))
            (\<lambda>delta. mret (Some delta))
      | (Some ScopeNegativeObject, HandleNegativeObjectPropertyAssertion) \<Rightarrow>
          mlift (map_res Some (own_tail_negative_object c root maximum))
      | (Some ScopePositiveData, HandleDataPropertyAssertion) \<Rightarrow> mlift (map_res Some (own_tail_data c root maximum rule))
      | (Some ScopeNegativeData, HandleDataPropertyAssertion) \<Rightarrow> mlift (map_res Some (own_tail_data c root maximum rule))
      | (Some ScopeSameIndividual, HandleIndividualSet) \<Rightarrow> mlift (map_res Some (own_tail_individual_set c root maximum rule))
      | (Some ScopeDifferentIndividuals, HandleIndividualSet) \<Rightarrow> mlift (map_res Some (own_tail_individual_set c root maximum rule))
      | (Some ScopeSilentAnnotation, HandleAnnotationAssertion) \<Rightarrow> mlift (map_res Some (own_tail_annotation c root maximum))
      | (Some ScopeIgnoredClass, HandleClassAssertion) \<Rightarrow>
          mbnd (own_tail_class_assertion env c root maximum planned_shape) (\<lambda>delta. mret (Some delta))
      | _ \<Rightarrow> mret None)"

text \<open>The domain and range constructs look at the effect of the rule, not at its handler.\<close>

definition ignored_class_kind :: "root_rule \<Rightarrow> (scope_mapped_composite_kind \<times> usize) option
    \<Rightarrow> object_property_class_rule_kind option" where
  "ignored_class_kind rule construct = (case (map_option fst construct, domain_range_effect rule) of
     (Some ScopeIgnoredObjectPropertyDomain, DomainEffect) \<Rightarrow> Some KindDomain
   | (Some ScopeIgnoredObjectPropertyRange, RangeEffect) \<Rightarrow> Some KindRange
   | _ \<Rightarrow> None)"

definition own_composite_tail_projection :: "overlay_allocator \<Rightarrow> root_rule \<Rightarrow> planned_root_shape option
    \<Rightarrow> selected_root_rule_plan \<Rightarrow> usize \<Rightarrow> direct_columns \<Rightarrow> usize \<Rightarrow> usize \<Rightarrow> nat \<Rightarrow> dynamic_tail_context
    \<Rightarrow> owned_overlay_delta_projection owning" where
  "own_composite_tail_projection env rule planned_shape plan root_index c root maximum st context =
     (let construct = tail_construct context in
      mseq (mlift (reject_if (construct \<noteq> None \<and> \<not> valid_envelope rule) Malformed)) (
      if dynamic_action rule = DeclarationAction then mret DeltaSilentDeclaration
      else if dynamic_action rule = AnnotationAssertionAction \<and> map_option fst construct \<noteq> Some ScopeSilentAnnotation then
        mseq (mlift (validate_annotation_assertion c root maximum)) (mret (DeltaIgnoredAnnotationAssertion 0))
      else case ignored_class_kind rule construct of
        Some kind \<Rightarrow> mlift (own_tail_object_property_class c root maximum rule planned_shape kind)
      | None \<Rightarrow>
          mbnd (own_tail_construct env rule planned_shape c root maximum st construct) (\<lambda>r. case r of
            Some delta \<Rightarrow> mret delta
          | None \<Rightarrow> own_tail_general env rule planned_shape plan root_index c root st context)))"

end
