(* ===== verification/Local_Rules.thy ===== *)
theory Local_Rules
  imports Overlay_Ownership
begin

text \<open>
  The plans of a local overlay with a single root that emits no edge of its own: object-property domains
  and ranges, role axioms, annotations (\<open>ObjectPropertyClassRulePlan\<close>, \<open>LocalRoleRulePlan\<close>,
  \<open>LocalAnnotationRulePlan\<close>). Validation takes the row of \<open>ROOT_RULES\<close> and the context of the overlay.
\<close>

record local_rule_context =
  context_mode :: local_projection_mode
  context_include_literals :: bool
  context_max_iri_bytes :: usize
  local_scope_remap_available :: bool

definition local_rule_context_new :: "direct_compile_options \<Rightarrow> bool \<Rightarrow> local_rule_context" where
  "local_rule_context_new options remap_available =
     \<lparr>context_mode = mode_from_options options, context_include_literals = include_literals options,
      context_max_iri_bytes = max_iri_bytes options, local_scope_remap_available = remap_available\<rparr>"

datatype local_anonymous_scope_policy = ExcludedByGrammar | RejectWithoutRemap

definition scope_policy_validate :: "local_anonymous_scope_policy \<Rightarrow> direct_columns \<Rightarrow> usize \<Rightarrow> local_rule_context \<Rightarrow> nat
    \<Rightarrow> unit kres" where
  "scope_policy_validate policy c root context st = (case policy of
     ExcludedByGrammar \<Rightarrow> Inr ()
   | RejectWithoutRemap \<Rightarrow>
       bnd (if local_scope_remap_available context then Inr False else root_contains_anonymous_individual c root st)
         (\<lambda>refused. reject_if refused Unsupported))"

section \<open>Domains and ranges\<close>

definition kind_is_ignored :: "object_property_class_rule_kind \<Rightarrow> root_counts \<Rightarrow> bool" where
  "kind_is_ignored kind counts = (case kind of
     KindDomain \<Rightarrow> n_ignored_object_property_domains counts = 1
   | KindRange \<Rightarrow> n_ignored_object_property_ranges counts = 1)"

record object_property_class_rule_plan =
  class_root_rule :: root_rule
  class_rule_kind :: object_property_class_rule_kind
  class_rule_ignored :: bool
  retain_ignored_counter :: bool

definition class_plan_from_root_rule :: "root_rule \<Rightarrow> root_counts \<Rightarrow> object_property_class_rule_plan option" where
  "class_plan_from_root_rule rule counts =
     (if handler rule \<noteq> HandleObjectPropertyClass then None else
      map_option (\<lambda>kind. \<lparr>class_root_rule = rule, class_rule_kind = kind,
                           class_rule_ignored = kind_is_ignored kind counts, retain_ignored_counter = True\<rparr>)
        (kind_from_effect (domain_range_effect rule)))"

definition class_plan_validate :: "object_property_class_rule_plan \<Rightarrow> direct_columns \<Rightarrow> usize \<Rightarrow> (text_str \<times> text_str) option
    \<Rightarrow> local_rule_context \<Rightarrow> nat \<Rightarrow> property_class option kres" where
  "class_plan_validate p c root projection context st =
     bnd (exact_fields c root 3) (\<lambda>field_start.
     bnd (annotation_count c (field_start + 2)) (\<lambda>annotations.
     seq (reject_if (annotations \<noteq> 0) Unsupported) (
     if class_rule_ignored p then
       seq (reject_if (projection \<noteq> None) Malformed) (
       seq (scope_policy_validate RejectWithoutRemap c root context st) (Inr None))
     else
       bnd (ok_or Malformed projection) (\<lambda>(property, class_iri).
       Inr (Some (class_rule_kind p, property, class_iri))))))"

definition class_plan_apply_statistics :: "object_property_class_rule_plan \<Rightarrow> direct_compile_stats
    \<Rightarrow> direct_compile_stats kres" where
  "class_plan_apply_statistics p s =
     bnd (increment_statistics (effect_counter (stats_effect (class_root_rule p))) s)
         (guarded_step (class_rule_ignored p \<and> retain_ignored_counter p) (case class_rule_kind p of
            KindDomain \<Rightarrow> bump stat_ignored_object_property_domains stat_ignored_object_property_domains_update
          | KindRange \<Rightarrow> bump stat_ignored_object_property_ranges stat_ignored_object_property_ranges_update))"

section \<open>Role axioms\<close>

datatype local_role_rule_kind = SimpleSubProperty | LocalPropertyChain | LocalInverseProperties

record local_role_rule_plan =
  role_root_rule :: root_rule
  role_rule_kind :: local_role_rule_kind
  mutates_role_state :: bool
  retain_constructor_counter :: bool
  retain_chain_counter :: bool

definition role_plan_from_root_rule :: "root_rule \<Rightarrow> root_counts \<Rightarrow> local_role_rule_plan option" where
  "role_plan_from_root_rule rule counts =
     map_option (\<lambda>kind. \<lparr>role_root_rule = rule, role_rule_kind = kind,
         mutates_role_state = (kind \<noteq> LocalPropertyChain), retain_constructor_counter = True,
         retain_chain_counter = (kind = LocalPropertyChain)\<rparr>)
       (case role_effect rule of
          NoRoleEffect \<Rightarrow> None
        | SubPropertyOrChain \<Rightarrow> Some (if n_object_property_chains counts = 1 then LocalPropertyChain else SimpleSubProperty)
        | InverseProperties \<Rightarrow> Some LocalInverseProperties)"

definition role_plan_validate :: "local_role_rule_plan \<Rightarrow> direct_columns \<Rightarrow> usize \<Rightarrow> planned_role_effect option
    \<Rightarrow> local_rule_context \<Rightarrow> nat \<Rightarrow> role_axiom option kres" where
  "role_plan_validate p c root planned_effect context st =
     bnd (exact_fields c root 3) (\<lambda>field_start.
     seq (validate_local_annotation_scope c root (field_start + 2) st) (
     seq (scope_policy_validate ExcludedByGrammar c root context st) (
     case (mutates_role_state p, planned_effect) of
       (True, Some (RowEffect row)) \<Rightarrow> Inr (Some (row\<lparr>ra_canonical_order := 0, ra_source_order := 0\<rparr>))
     | (False, Some PropertyChainEffect) \<Rightarrow> Inr None
     | _ \<Rightarrow> Inl Malformed)))"

definition role_plan_apply_statistics :: "local_role_rule_plan \<Rightarrow> direct_compile_stats \<Rightarrow> direct_compile_stats kres" where
  "role_plan_apply_statistics p s =
     bnd (guarded_step (retain_constructor_counter p)
            (increment_statistics (effect_counter (stats_effect (role_root_rule p)))) s)
         (guarded_step (retain_chain_counter p) (bump stat_object_property_chains stat_object_property_chains_update))"

section \<open>Annotations\<close>

datatype local_annotation_rule_kind = LocalOntologyAnnotation | LocalAssertion

record local_annotation_rule_plan =
  annotation_root_rule :: root_rule
  annotation_rule_kind :: local_annotation_rule_kind
  retain_counter :: bool

definition annotation_plan_from_root_rule :: "root_rule \<Rightarrow> local_annotation_rule_plan option" where
  "annotation_plan_from_root_rule rule =
     map_option (\<lambda>kind. \<lparr>annotation_root_rule = rule, annotation_rule_kind = kind, retain_counter = True\<rparr>)
       (case handler rule of
          HandleOntologyAnnotation \<Rightarrow> Some LocalOntologyAnnotation
        | HandleAnnotationAssertion \<Rightarrow> Some LocalAssertion
        | _ \<Rightarrow> None)"

definition annotation_plan_validate :: "local_annotation_rule_plan \<Rightarrow> direct_columns \<Rightarrow> usize \<Rightarrow> local_rule_context \<Rightarrow> nat
    \<Rightarrow> unit kres" where
  "annotation_plan_validate p c root context st =
     seq (reject_if (context_include_literals context) Unsupported) (
     let (fields, annotation_field_offset) =
       (case annotation_rule_kind p of LocalOntologyAnnotation \<Rightarrow> (3, 2) | LocalAssertion \<Rightarrow> (4, 3)) in
     bnd (exact_fields c root fields) (\<lambda>field_start.
     bnd (ok_or Resource (checked_add field_start annotation_field_offset)) (\<lambda>annotation_field.
     seq (discard (node_set_range c annotation_field 0))
       (scope_policy_validate RejectWithoutRemap c root context st))))"

definition annotation_plan_apply_statistics :: "local_annotation_rule_plan \<Rightarrow> direct_compile_stats
    \<Rightarrow> direct_compile_stats kres" where
  "annotation_plan_apply_statistics p =
     guarded_step (retain_counter p) (\<lambda>s.
       bnd (increment_statistics (effect_counter (stats_effect (annotation_root_rule p))) s)
           (guarded_step (annotation_rule_kind p = LocalAssertion)
             (bump stat_selected_annotation_assertions stat_selected_annotation_assertions_update)))"

end
