(* ===== verification/Overlay_Segments.thy ===== *)
theory Overlay_Segments
  imports Local_Rules Merge_Loops
begin

text \<open>
  The local segment of an overlay, as \<open>prepare_two_table_batches_uncommitted\<close> reads it before the merge:
  which of its shapes it has (one silent root, a domain and range of one property, roots that emit), and
  for each shape the validation of its roots and what is kept of them.
\<close>

section \<open>Shapes of a segment\<close>

definition paired_object_property_class :: "usize \<Rightarrow> root_counts \<Rightarrow> bool" where
  "paired_object_property_class delta_roots counts \<longleftrightarrow> delta_roots = 2 \<and>
     counts = root_counts_default\<lparr>n_object_property_domains := 1, n_object_property_ranges := 1\<rparr>"

definition singular_emitting_delta :: "usize \<Rightarrow> root_rule \<Rightarrow> root_counts \<Rightarrow> bool" where
  "singular_emitting_delta delta_roots rule counts \<longleftrightarrow> delta_roots = 1 \<and> rule_root_kind rule = ROOT_AXIOM \<and>
     (case handler rule of
        HandleSubclass \<Rightarrow> n_ignored_subclasses counts = 0
      | HandleClassAssertion \<Rightarrow> n_ignored_class_assertions counts = 0
      | HandleObjectPropertyAssertion \<Rightarrow> True
      | HandleEquivalentClasses \<Rightarrow> True
      | _ \<Rightarrow> False)"

definition silent_ignored_class_handler :: "root_rule \<Rightarrow> root_counts \<Rightarrow> root_rule_handler option" where
  "silent_ignored_class_handler rule counts =
     (if handler rule = HandleSubclass \<and> n_ignored_subclasses counts = 1 then Some HandleSubclass
      else if handler rule = HandleClassAssertion \<and> n_ignored_class_assertions counts = 1 then Some HandleClassAssertion
      else None)"

text \<open>The search for the first selected root.\<close>

fun first_selected :: "direct_columns \<Rightarrow> nat \<Rightarrow> usize list \<Rightarrow> usize option kres" where
  "first_selected c st [] = Inr None"
| "first_selected c st (index # rest) =
     seq (check_cancel st index) (
     bnd (root_is_selected c index) (\<lambda>chosen. if chosen then Inr (Some index) else first_selected c st rest))"

section \<open>A domain and range of one property\<close>

definition own_class_slot :: "property_class \<Rightarrow> owned_local_object_property_class kres" where
  "own_class_slot v = (case v of (kind, property, class_iri) \<Rightarrow>
     bnd (clone_text property) (\<lambda>owned_property.
     bnd (clone_text class_iri) (\<lambda>owned_class.
     Inr \<lparr>local_kind = kind, local_property = owned_property, local_class = owned_class, insertion_position = 0\<rparr>)))"

type_synonym class_slots = "object_property_class_rule_plan option list \<times> owned_local_object_property_class option list"

definition paired_root :: "direct_columns \<Rightarrow> selected_root_rule_plan \<Rightarrow> local_rule_context \<Rightarrow> nat \<Rightarrow> usize
    \<Rightarrow> class_slots \<times> usize \<Rightarrow> (class_slots \<times> usize) kres" where
  "paired_root c plan context st root_index s = (case s of ((rules, slots), selected_index) \<Rightarrow>
     seq (check_cancel st root_index) (
     bnd (root_is_selected c root_index) (\<lambda>chosen.
     if \<not> chosen then Inr s else
     bnd (root_id c root_index) (\<lambda>root.
     bnd (rule_at plan root_index) (\<lambda>root_rule.
     seq (reject_if (rule_root_kind root_rule \<noteq> ROOT_AXIOM) Unsupported) (
     bnd (ok_or Unsupported (class_plan_from_root_rule root_rule (plan_counts plan))) (\<lambda>rule.
     case shape_at plan root_index of
       Some (ObjectPropertyClassShape projection) \<Rightarrow>
         bnd (class_plan_validate rule c root projection context st) (\<lambda>r.
         bnd (ok_or Unsupported r) (\<lambda>v.
         if selected_index \<ge> length rules \<or> selected_index \<ge> length slots then Inl Malformed else
         bnd (own_class_slot v) (\<lambda>owned.
         map_res (Pair (rules[selected_index := Some rule], slots[selected_index := Some owned]))
           (ok_or Resource (checked_add selected_index 1)))))
     | _ \<Rightarrow> Inl Malformed)))))))"

definition slot_of_kind :: "object_property_class_rule_kind \<Rightarrow> owned_local_object_property_class option list
    \<Rightarrow> owned_local_object_property_class option" where
  "slot_of_kind kind slots = List.find (\<lambda>loc. local_kind loc = kind) (List.map_filter id slots)"

definition own_paired_classes :: "direct_columns \<Rightarrow> selected_root_rule_plan \<Rightarrow> local_rule_context \<Rightarrow> nat \<Rightarrow> usize
    \<Rightarrow> class_slots \<Rightarrow> class_slots kres" where
  "own_paired_classes c plan context st delta_roots initial =
     bnd (fold_res (paired_root c plan context st) [0 ..< root_count c] (initial, 0)) (\<lambda>(slots, selected_index).
     seq (reject_if (selected_index \<noteq> delta_roots) Malformed) (
     bnd (ok_or Malformed (slot_of_kind KindDomain (snd slots))) (\<lambda>domain_slot.
     bnd (ok_or Malformed (slot_of_kind KindRange (snd slots))) (\<lambda>range_slot.
     seq (reject_if (local_property domain_slot \<noteq> local_property range_slot) Unsupported) (Inr slots)))))"

section \<open>Emitting roots\<close>

definition emitting_root :: "overlay_allocator \<Rightarrow> direct_columns \<Rightarrow> selected_root_rule_plan \<Rightarrow> nat \<Rightarrow> usize
    \<Rightarrow> owned_overlay_delta list \<Rightarrow> owned_overlay_delta list owning" where
  "emitting_root env c plan st root_index deltas =
     mseq (mlift (check_cancel st root_index)) (
     mbnd (mlift (root_is_selected c root_index)) (\<lambda>chosen.
     if \<not> chosen then mret deltas else
     mbnd (mlift (root_id c root_index)) (\<lambda>root.
     mbnd (mlift (rule_at plan root_index)) (\<lambda>rule.
     mseq (mlift (reject_if (rule_root_kind rule \<noteq> ROOT_AXIOM) Unsupported)) (
     mbnd (own_local_emitting_projection env rule (shape_at plan root_index) plan root_index c root st) (\<lambda>projection.
     mret (deltas @ [\<lparr>delta_projection = projection, insertion_scan_index = USIZE_MAX,
             local_canonical_index = root_index\<rparr>])))))))"

definition own_emitting_segment :: "overlay_allocator \<Rightarrow> direct_columns \<Rightarrow> selected_root_rule_plan \<Rightarrow> nat \<Rightarrow> usize
    \<Rightarrow> owned_overlay_delta list owning" where
  "own_emitting_segment env c plan st delta_roots =
     mbnd (mfold (emitting_root env c plan st) [0 ..< root_count c] []) (\<lambda>deltas.
     mseq (mlift (reject_if (length deltas \<noteq> delta_roots) Malformed)) (mret deltas))"

section \<open>One silent root\<close>

text \<open>The branches of the validation chain, one function each; all end with an unannotated root.\<close>

definition require_unannotated :: "direct_columns \<Rightarrow> usize \<Rightarrow> unit kres" where
  "require_unannotated c annotation_field =
     bnd (annotation_count c annotation_field) (\<lambda>annotations. reject_if (annotations \<noteq> 0) Unsupported)"

definition require_no_anonymous :: "direct_columns \<Rightarrow> nat \<Rightarrow> unit kres" where
  "require_no_anonymous c st =
     bnd (axiom_anonymous_ids c st) (\<lambda>ids. reject_if (node_ids ids \<noteq> []) Unsupported)"

definition silent_declaration :: "direct_columns \<Rightarrow> usize \<Rightarrow> usize \<Rightarrow> nat \<Rightarrow> unit kres" where
  "silent_declaration c root maximum st =
     bnd (exact_fields c root 2) (\<lambda>field_start.
     bnd (field_node c field_start) (\<lambda>entity_id.
     bnd (entity c entity_id) (\<lambda>(_, iri_id).
     seq (discard (iri c iri_id maximum))
       (validate_local_annotation_scope c root (field_start + 1) st))))"

definition silent_ignored_class :: "direct_columns \<Rightarrow> usize \<Rightarrow> planned_root_shape option \<Rightarrow> root_rule_handler \<Rightarrow> nat
    \<Rightarrow> unit kres" where
  "silent_ignored_class c root shape h st =
     bnd (exact_fields c root 3) (\<lambda>field_start.
     seq (require_unannotated c (field_start + 2)) (
     seq (reject_if (shape \<noteq> Some (if h = HandleSubclass then SubclassShape SubclassIgnored
                                   else ClassAssertionShape ClassAssertionIgnored)) Malformed)
       (require_no_anonymous c st)))"

definition silent_equivalent :: "direct_columns \<Rightarrow> usize \<Rightarrow> planned_root_shape option \<Rightarrow> nat \<Rightarrow> unit kres" where
  "silent_equivalent c root shape st =
     bnd (exact_fields c root 2) (\<lambda>field_start.
     bnd (node_set_range c field_start 2) (\<lambda>(_, items).
     seq (reject_if (items > 3) Unsupported) (
     seq (require_unannotated c (field_start + 1)) (
     seq (reject_if (shape \<noteq> Some (EquivalentShape EquivalentIgnored)) Unsupported)
       (require_no_anonymous c st)))))"

definition silent_negative_object :: "direct_columns \<Rightarrow> usize \<Rightarrow> usize \<Rightarrow> unit kres" where
  "silent_negative_object c root maximum =
     bnd (exact_fields c root 4) (\<lambda>field_start.
     seq (require_unannotated c (field_start + 3)) (
     bnd (field_node c field_start) (\<lambda>property.
     seq (discard (object_property_expression_iri c property maximum)) (
     bnd (field_node c (field_start + 1)) (\<lambda>source_id.
     bnd (individual_value c source_id maximum) (\<lambda>source.
     bnd (field_node c (field_start + 2)) (\<lambda>destination_id.
     bnd (individual_value c destination_id maximum) (\<lambda>destination.
     case (source, destination) of (Named _, Named _) \<Rightarrow> Inr () | _ \<Rightarrow> Inl Unsupported))))))))"

definition each_member :: "direct_columns \<Rightarrow> usize \<Rightarrow> usize \<Rightarrow> (usize \<Rightarrow> unit kres) \<Rightarrow> unit kres" where
  "each_member c item_start items check =
     for_each (\<lambda>item_index. bnd (item_node c item_index) check) [item_start ..< item_start + items]"

definition silent_object_property :: "direct_columns \<Rightarrow> usize \<Rightarrow> usize \<Rightarrow> root_counter \<Rightarrow> unit kres" where
  "silent_object_property c root maximum counter =
     bnd (exact_fields c root 2) (\<lambda>field_start.
     seq (if counter \<in> {CountEquivalentObjectProperties, CountDisjointObjectProperties} then
            bnd (node_set_range c field_start 2) (\<lambda>(item_start, items).
            seq (reject_if (items > 3) Unsupported)
              (each_member c item_start items (\<lambda>item. discard (object_property_expression_of c item maximum))))
          else bnd (field_node c field_start) (\<lambda>property. discard (object_property_expression_of c property maximum)))
       (require_unannotated c (field_start + 1)))"

definition silent_annotation_property :: "direct_columns \<Rightarrow> usize \<Rightarrow> usize \<Rightarrow> root_counter \<Rightarrow> nat \<Rightarrow> unit kres" where
  "silent_annotation_property c root maximum counter st =
     seq (case counter of
            CountSubAnnotationProperties \<Rightarrow> validate_sub_annotation_property_of c root maximum
          | CountAnnotationPropertyDomains \<Rightarrow>
              validate_annotation_property_iri_axiom c root TAG_ANNOTATION_PROPERTY_DOMAIN maximum
          | CountAnnotationPropertyRanges \<Rightarrow>
              validate_annotation_property_iri_axiom c root TAG_ANNOTATION_PROPERTY_RANGE maximum
          | _ \<Rightarrow> Inl Panicked) (
     bnd (exact_fields c root 3) (\<lambda>field_start. validate_local_annotation_scope c root (field_start + 2) st))"

definition silent_disjoint_classes :: "direct_columns \<Rightarrow> usize \<Rightarrow> usize \<Rightarrow> root_counter \<Rightarrow> unit kres" where
  "silent_disjoint_classes c root maximum counter =
     bnd (case counter of
            CountDisjointClasses \<Rightarrow>
              seq (validate_disjoint_classes c root maximum) (
              bnd (exact_fields c root 2) (\<lambda>field_start.
              map_res (\<lambda>r. (snd r, field_start + 1)) (node_set_range c field_start 2)))
          | CountDisjointUnions \<Rightarrow>
              seq (validate_disjoint_union c root maximum) (
              bnd (exact_fields c root 3) (\<lambda>field_start.
              map_res (\<lambda>r. (snd r, field_start + 2)) (node_set_range c (field_start + 1) 2)))
          | _ \<Rightarrow> Inl Panicked) (\<lambda>(items, annotation_field).
     seq (reject_if (items > 3) Unsupported) (require_unannotated c annotation_field))"

definition silent_data_assertion :: "direct_columns \<Rightarrow> usize \<Rightarrow> usize \<Rightarrow> unit kres" where
  "silent_data_assertion c root maximum =
     bnd (exact_fields c root 4) (\<lambda>field_start.
     seq (require_unannotated c (field_start + 3)) (
     bnd (field_node c field_start) (\<lambda>property.
     seq (discard (named_data_property_iri c property maximum)) (
     bnd (field_node c (field_start + 1)) (\<lambda>source_id.
     bnd (individual_value c source_id maximum) (\<lambda>source.
     case source of
       Anonymous _ \<Rightarrow> Inl Unsupported
     | Named _ \<Rightarrow> bnd (field_node c (field_start + 2)) (\<lambda>literal. validate_literal c literal maximum)))))))"

definition silent_sub_data_property :: "direct_columns \<Rightarrow> usize \<Rightarrow> usize \<Rightarrow> unit kres" where
  "silent_sub_data_property c root maximum =
     bnd (exact_fields c root 3) (\<lambda>field_start.
     seq (require_unannotated c (field_start + 2)) (
     bnd (field_node c field_start) (\<lambda>sub_property.
     seq (discard (named_data_property_iri c sub_property maximum)) (
     bnd (field_node c (field_start + 1)) (\<lambda>super_property.
     discard (named_data_property_iri c super_property maximum))))))"

definition silent_data_property_set :: "direct_columns \<Rightarrow> usize \<Rightarrow> usize \<Rightarrow> unit kres" where
  "silent_data_property_set c root maximum =
     bnd (exact_fields c root 2) (\<lambda>field_start.
     bnd (node_set_range c field_start 2) (\<lambda>(item_start, items).
     seq (require_unannotated c (field_start + 1))
       (each_member c item_start items (\<lambda>item. discard (named_data_property_iri c item maximum)))))"

text \<open>A property, an operand and the annotations: domains and ranges of data properties, and datatypes.\<close>

definition silent_data_pair :: "direct_columns \<Rightarrow> usize \<Rightarrow> (usize \<Rightarrow> unit kres) \<Rightarrow> (usize \<Rightarrow> unit kres) \<Rightarrow> unit kres" where
  "silent_data_pair c root check_first check_second =
     bnd (exact_fields c root 3) (\<lambda>field_start.
     bnd (field_node c field_start) (\<lambda>first.
     seq (check_first first) (
     bnd (field_node c (field_start + 1)) (\<lambda>second.
     seq (check_second second) (require_unannotated c (field_start + 2))))))"

definition silent_functional_data_property :: "direct_columns \<Rightarrow> usize \<Rightarrow> usize \<Rightarrow> unit kres" where
  "silent_functional_data_property c root maximum =
     bnd (exact_fields c root 2) (\<lambda>field_start.
     bnd (field_node c field_start) (\<lambda>property.
     seq (discard (named_data_property_iri c property maximum)) (require_unannotated c (field_start + 1))))"

definition silent_has_key :: "direct_columns \<Rightarrow> usize \<Rightarrow> usize \<Rightarrow> unit kres" where
  "silent_has_key c root maximum =
     bnd (exact_fields c root 4) (\<lambda>field_start.
     bnd (field_node c field_start) (\<lambda>class_id.
     seq (discard (class_expression_rank c class_id maximum)) (
     bnd (node_set_range c (field_start + 1) 0) (\<lambda>(object_start, objects).
     seq (each_member c object_start objects (\<lambda>item. discard (object_property_expression_of c item maximum))) (
     bnd (node_set_range c (field_start + 2) 0) (\<lambda>(data_start, data).
     seq (each_member c data_start data (\<lambda>item. discard (named_data_property_iri c item maximum))) (
     seq (reject_if (objects = 0 \<and> data = 0) Malformed) (
     require_unannotated c (field_start + 3)))))))))"

definition silent_individual_set :: "direct_columns \<Rightarrow> usize \<Rightarrow> usize \<Rightarrow> unit kres" where
  "silent_individual_set c root maximum =
     bnd (exact_fields c root 2) (\<lambda>field_start.
     bnd (node_set_range c field_start 2) (\<lambda>(item_start, items).
     seq (reject_if (items > 3) Unsupported) (
     seq (require_unannotated c (field_start + 1)) (
     each_member c item_start items (\<lambda>item.
       bnd (individual_value c item maximum) (\<lambda>v. case v of Named _ \<Rightarrow> Inr () | Anonymous _ \<Rightarrow> Inl Unsupported))))))"

text \<open>The rest of the chain, selected by the counter of the rule.\<close>

definition silent_counted :: "direct_columns \<Rightarrow> usize \<Rightarrow> usize \<Rightarrow> root_rule \<Rightarrow> nat \<Rightarrow> unit kres" where
  "silent_counted c root maximum rule st = (let counter = effect_counter (stats_effect rule) in
     if counter \<in> {CountEquivalentObjectProperties, CountDisjointObjectProperties, CountFunctionalObjectProperties,
         CountInverseFunctionalObjectProperties, CountReflexiveObjectProperties, CountIrreflexiveObjectProperties,
         CountSymmetricObjectProperties, CountAsymmetricObjectProperties, CountTransitiveObjectProperties}
     then silent_object_property c root maximum counter
     else if counter \<in> {CountSubAnnotationProperties, CountAnnotationPropertyDomains, CountAnnotationPropertyRanges}
     then silent_annotation_property c root maximum counter st
     else if counter \<in> {CountDisjointClasses, CountDisjointUnions} then silent_disjoint_classes c root maximum counter
     else if handler rule = HandleDataPropertyAssertion then silent_data_assertion c root maximum
     else if counter = CountSubDataProperties then silent_sub_data_property c root maximum
     else if counter \<in> {CountEquivalentDataProperties, CountDisjointDataProperties}
     then silent_data_property_set c root maximum
     else if counter = CountDataPropertyDomains then
       silent_data_pair c root (\<lambda>id. discard (named_data_property_iri c id maximum))
         (\<lambda>id. discard (class_expression_rank c id maximum))
     else if counter = CountDataPropertyRanges then
       silent_data_pair c root (\<lambda>id. discard (named_data_property_iri c id maximum))
         (\<lambda>id. validate_data_range_node c id maximum)
     else if counter = CountFunctionalDataProperties then silent_functional_data_property c root maximum
     else if counter = CountDatatypeDefinitions then
       silent_data_pair c root (\<lambda>id. discard (named_datatype_iri c id maximum))
         (\<lambda>id. validate_data_range_node c id maximum)
     else if counter = CountHasKeys then silent_has_key c root maximum
     else if handler rule = HandleIndividualSet then silent_individual_set c root maximum
     else Inl Unsupported)"

text \<open>The whole chain: what a silent root leaves is a class of a domain or range, or a role axiom.\<close>

definition validate_silent_root :: "direct_columns \<Rightarrow> selected_root_rule_plan \<Rightarrow> usize \<Rightarrow> usize \<Rightarrow> root_rule \<Rightarrow> usize
    \<Rightarrow> local_rule_context \<Rightarrow> nat \<Rightarrow> (owned_local_object_property_class option \<times> role_axiom option) kres" where
  "validate_silent_root c plan root_index root rule maximum context st =
     (case annotation_plan_from_root_rule rule of
        Some annotation_rule \<Rightarrow>
          seq (annotation_plan_validate annotation_rule c root context st) (Inr (None, None))
      | None \<Rightarrow>
      if handler rule = HandleDeclaration then seq (silent_declaration c root maximum st) (Inr (None, None)) else
      (case silent_ignored_class_handler rule (plan_counts plan) of
        Some h \<Rightarrow> seq (silent_ignored_class c root (shape_at plan root_index) h st) (Inr (None, None))
      | None \<Rightarrow>
      if handler rule = HandleEquivalentClasses
      then seq (silent_equivalent c root (shape_at plan root_index) st) (Inr (None, None)) else
      (case class_plan_from_root_rule rule (plan_counts plan) of
        Some class_rule \<Rightarrow>
          (case shape_at plan root_index of
             Some (ObjectPropertyClassShape projection) \<Rightarrow>
               bnd (class_plan_validate class_rule c root projection context st) (\<lambda>r. case r of
                 None \<Rightarrow> Inr (None, None)
               | Some v \<Rightarrow> map_res (\<lambda>owned. (Some owned, None)) (own_class_slot v))
           | _ \<Rightarrow> Inl Malformed)
      | None \<Rightarrow>
      (case role_plan_from_root_rule rule (plan_counts plan) of
        Some role_rule \<Rightarrow>
          bnd (role_effect_at plan root_index) (\<lambda>effect.
          map_res (Pair None) (role_plan_validate role_rule c root effect context st))
      | None \<Rightarrow>
      if handler rule = HandleNegativeObjectPropertyAssertion
      then seq (silent_negative_object c root maximum) (Inr (None, None))
      else seq (silent_counted c root maximum rule st) (Inr (None, None))))))"

end
