(* ===== verification/Class_Index.thy ===== *)
theory Class_Index
  imports Overlay_Ownership Preparation
begin

text \<open>
  The index of object-property domains and ranges over a base table and the classes an overlay adds
  (\<open>prepare_local_object_property_class_index\<close> of \<open>DirectPreparation\<close>), the number of edges the added
  classes bring (\<open>local_object_property_class_edge_counts\<close>), and the annotation edges of a composite.
\<close>

record prepared_object_property_class_occurrence =
  occurrence_property :: text_str
  occurrence_kind :: object_property_class_rule_kind
  occurrence_local :: bool
  merged_position :: usize

section \<open>Groups\<close>

definition group_new :: "text_str \<Rightarrow> prepared_object_property_class_group" where
  "group_new property = \<lparr>group_property = property, base_domains = 0, base_ranges = 0, local_domains = 0,
     local_ranges = 0, domain_positions = [], range_positions = []\<rparr>"

text \<open>A group under construction, with the capacities of its two position vectors.\<close>

type_synonym growing_group = "prepared_object_property_class_group \<times> usize \<times> usize"

definition bump_occurrence :: "object_property_class_rule_kind \<Rightarrow> bool \<Rightarrow> prepared_object_property_class_group
    \<Rightarrow> prepared_object_property_class_group kres" where
  "bump_occurrence kind is_local grp = (case (kind, is_local) of
     (KindDomain, False) \<Rightarrow> bump base_domains base_domains_update grp
   | (KindRange, False) \<Rightarrow> bump base_ranges base_ranges_update grp
   | (KindDomain, True) \<Rightarrow> bump local_domains local_domains_update grp
   | (KindRange, True) \<Rightarrow> bump local_ranges local_ranges_update grp)"

definition push_occurrence :: "overlay_allocator \<Rightarrow> prepared_object_property_class_occurrence \<Rightarrow> growing_group
    \<Rightarrow> growing_group owning" where
  "push_occurrence env occurrence g = (case g of (grp, domain_capacity, range_capacity) \<Rightarrow>
     mbnd (mlift (bump_occurrence (occurrence_kind occurrence) (occurrence_local occurrence) grp)) (\<lambda>counted.
     case occurrence_kind occurrence of
       KindDomain \<Rightarrow>
         mbnd (push_owned env Own_Usize (length (domain_positions counted)) domain_capacity) (\<lambda>capacity.
         mret (counted\<lparr>domain_positions := domain_positions counted @ [merged_position occurrence]\<rparr>, capacity, range_capacity))
     | KindRange \<Rightarrow>
         mbnd (push_owned env Own_Usize (length (range_positions counted)) range_capacity) (\<lambda>capacity.
         mret (counted\<lparr>range_positions := range_positions counted @ [merged_position occurrence]\<rparr>, domain_capacity, capacity))))"

definition has_pair :: "prepared_object_property_class_group \<Rightarrow> bool" where
  "has_pair grp \<longleftrightarrow> (base_domains grp \<noteq> 0 \<or> local_domains grp \<noteq> 0) \<and> (base_ranges grp \<noteq> 0 \<or> local_ranges grp \<noteq> 0)"

section \<open>Positions of the added classes\<close>

definition compare_insertions :: "owned_local_object_property_class list \<Rightarrow> usize \<Rightarrow> usize \<Rightarrow> ordering" where
  "compare_insertions locals left right =
     cmp (insertion_position (locals ! left), left) (insertion_position (locals ! right), right)"

definition check_insertion :: "owned_local_object_property_class list \<Rightarrow> usize \<Rightarrow> nat \<Rightarrow> usize \<times> usize \<Rightarrow> usize option
    \<Rightarrow> usize option kres" where
  "check_insertion locals scan_len st entry previous =
     seq (check_cancel st (fst entry)) (
     bnd (ok_or Malformed (get_at locals (snd entry))) (\<lambda>loc.
     if insertion_position loc \<ge> scan_len then Inl Malformed
     else if previous = Some (insertion_position loc) then Inl Malformed
     else Inr (Some (insertion_position loc))))"

section \<open>Occurrences\<close>

text \<open>The inner loop over the added classes that stand before the next root of the base.\<close>

function skip_locals :: "owned_local_object_property_class list \<Rightarrow> usize list \<Rightarrow> nat \<Rightarrow> usize \<Rightarrow> usize
    \<Rightarrow> (usize \<times> usize) kres" where
  "skip_locals locals positions st cursor merged =
     (if cursor < length positions then
        seq (check_cancel st cursor) (
        bnd (load locals (positions ! cursor)) (\<lambda>loc.
        if insertion_position loc \<noteq> merged then Inr (cursor, merged) else
        bnd (ok_or Resource (checked_add cursor 1)) (\<lambda>cursor'.
        bnd (ok_or Resource (checked_add merged 1)) (\<lambda>merged'.
        skip_locals locals positions st cursor' merged'))))
      else Inr (cursor, merged))"
  by pat_completeness auto
termination
  by (relation "measure (\<lambda>(locals, positions, st, cursor, merged). length positions - cursor)") (auto simp: res_simps)

declare skip_locals.simps [simp del]

type_synonym occurrence_scan = "usize \<times> usize \<times> prepared_object_property_class_occurrence list"

definition base_occurrence :: "overlay_allocator \<Rightarrow> direct_preparation \<Rightarrow> direct_columns \<Rightarrow> usize list \<Rightarrow> nat \<Rightarrow> usize
    \<Rightarrow> occurrence_scan \<Rightarrow> occurrence_scan owning" where
  "base_occurrence env prep c positions st root_index s = (case s of (cursor, merged, found) \<Rightarrow>
     mseq (mlift (check_cancel st root_index)) (
     mbnd (mlift (skip_locals (prep_local_classes prep) positions st cursor merged)) (\<lambda>(cursor', root_position).
     mbnd (mlift (ok_or Resource (checked_add root_position 1))) (\<lambda>merged'.
     mbnd (mlift (base_object_property_class_at prep c root_index)) (\<lambda>r. case r of
       None \<Rightarrow> mret (cursor', merged', found)
     | Some (kind, property, _) \<Rightarrow>
         mbnd (ws_clone_text env property) (\<lambda>owned.
         mret (cursor', merged', found @ [\<lparr>occurrence_property = owned, occurrence_kind = kind,
                 occurrence_local = False, merged_position = root_position\<rparr>])))))))"

definition local_occurrence :: "overlay_allocator \<Rightarrow> nat \<Rightarrow> usize \<times> owned_local_object_property_class
    \<Rightarrow> prepared_object_property_class_occurrence list \<Rightarrow> prepared_object_property_class_occurrence list owning" where
  "local_occurrence env st entry found =
     mseq (mlift (check_cancel st (fst entry))) (
     mbnd (ws_clone_text env (local_property (snd entry))) (\<lambda>owned.
     mret (found @ [\<lparr>occurrence_property = owned, occurrence_kind = local_kind (snd entry),
             occurrence_local = True, merged_position = insertion_position (snd entry)\<rparr>])))"

definition compare_occurrences :: "prepared_object_property_class_occurrence \<Rightarrow> prepared_object_property_class_occurrence
    \<Rightarrow> ordering" where
  "compare_occurrences left right =
     cmp (occurrence_property left, merged_position left) (occurrence_property right, merged_position right)"

section \<open>Grouping\<close>

type_synonym group_scan = "growing_group \<times> usize \<times> prepared_object_property_class_occurrence list"

fun extend_group :: "overlay_allocator \<Rightarrow> nat \<Rightarrow> growing_group \<Rightarrow> usize \<Rightarrow> prepared_object_property_class_occurrence list
    \<Rightarrow> group_scan owning" where
  "extend_group env st g grouped [] = mret (g, grouped, [])"
| "extend_group env st g grouped (occurrence # rest) =
     (if occurrence_property occurrence \<noteq> group_property (fst g) then mret (g, grouped, occurrence # rest) else
      mseq (mlift (check_cancel st grouped)) (
      mbnd (mlift (ok_or Resource (checked_add grouped 1))) (\<lambda>grouped'.
      mbnd (push_occurrence env occurrence g) (\<lambda>g'. extend_group env st g' grouped' rest))))"

lemma extend_group_rest:
  "extend_group env st g grouped xs w = (Inr (g', grouped', rest), w') \<Longrightarrow> length rest \<le> length xs"
  by (induction xs arbitrary: g grouped w) (auto simp: mseq_Inr mbnd_Inr le_SucI split: if_splits)

lemmas metered_Inr_sym = metered_Inr [THEN trans [OF eq_commute]]

function build_groups :: "overlay_allocator \<Rightarrow> nat \<Rightarrow> usize \<Rightarrow> usize \<Rightarrow> prepared_object_property_class_group list
    \<Rightarrow> prepared_object_property_class_occurrence list \<Rightarrow> prepared_object_property_class_group list owning" where
  "build_groups env st grouped group_index groups occurrences w = (case occurrences of
     [] \<Rightarrow> (Inr groups, w)
   | first # rest \<Rightarrow>
      (case mseq (mlift (check_cancel st grouped)) (
            mbnd (mlift (ok_or Resource (checked_add grouped 1))) (\<lambda>grouped'.
            mbnd (push_occurrence env first (group_new (occurrence_property first), 0, 0)) (\<lambda>g.
            mbnd (extend_group env st g grouped' rest) (\<lambda>scan.
            mbnd (mlift (ok_or Resource (checked_add group_index 1))) (\<lambda>group_index'. mret (scan, group_index')))))) w of
         (Inl e, w1) \<Rightarrow> (Inl e, w1)
       | (Inr ((g, grouped'', rest'), group_index'), w1) \<Rightarrow>
           build_groups env st grouped'' group_index' (if has_pair (fst g) then groups @ [fst g] else groups) rest' w1))"
  by pat_completeness auto
termination
  by (relation "measure (\<lambda>(env, st, grouped, group_index, groups, occurrences, w). length occurrences)")
    (auto simp: metered_Inr metered_Inr_sym less_Suc_eq_le dest!: extend_group_rest)

declare build_groups.simps [simp del]

section \<open>The index\<close>

definition insertion_order :: "overlay_allocator \<Rightarrow> owned_local_object_property_class list \<Rightarrow> usize \<Rightarrow> nat \<Rightarrow> usize list owning" where
  "insertion_order env locals scan_len st =
     mseq (reserve_owned env Own_Usize (length locals)) (
     mlift (
     seq (for_each (check_cancel st) [0 ..< length locals]) (
     bnd (cancellable_sort_unstable_by st (compare_insertions locals) [0 ..< length locals]) (\<lambda>positions.
     seq (fold_res (check_insertion locals scan_len st) (enumerate 0 positions) None) (Inr positions)))))"

definition collect_occurrences :: "overlay_allocator \<Rightarrow> direct_preparation \<Rightarrow> direct_columns \<Rightarrow> usize list \<Rightarrow> nat
    \<Rightarrow> prepared_object_property_class_occurrence list owning" where
  "collect_occurrences env prep c positions st =
     mbnd (mfold (base_occurrence env prep c positions st) [0 ..< root_count c] (0, 0, [])) (\<lambda>(_, _, found).
     mbnd (mfold (local_occurrence env st) (enumerate 0 (prep_local_classes prep)) found) (\<lambda>occurrences.
     mlift (cancellable_sort_unstable_by st compare_occurrences occurrences)))"

definition prepare_local_object_property_class_index :: "overlay_allocator \<Rightarrow> direct_columns \<Rightarrow> nat \<Rightarrow> direct_preparation
    \<Rightarrow> direct_preparation owning" where
  "prepare_local_object_property_class_index env c st prep =
     (let locals = prep_local_classes prep in
      if locals = [] then mret (prep\<lparr>prep_local_class_positions := [], prep_class_groups := []\<rparr>) else
      mbnd (mlift (ok_or Resource (checked_add (root_count c) (length locals)))) (\<lambda>scan_len.
      mbnd (insertion_order env locals scan_len st) (\<lambda>positions.
      mbnd (mlift (ok_or Resource (checked_add (root_count c) (length locals)))) (\<lambda>maximum_occurrences.
      mseq (reserve_owned env Own_Occurrence maximum_occurrences) (
      mbnd (collect_occurrences env prep c positions st) (\<lambda>occurrences.
      mseq (reserve_owned env Own_Group maximum_occurrences) (
      mbnd (build_groups env st 0 0 [] occurrences) (\<lambda>groups.
      mret (prep\<lparr>prep_local_class_positions := positions, prep_class_groups := groups\<rparr>)))))))))"

section \<open>Counting\<close>

definition count_group :: "owned_role_state \<Rightarrow> nat \<Rightarrow> usize \<times> prepared_object_property_class_group \<Rightarrow> usize \<times> usize
    \<Rightarrow> (usize \<times> usize) kres" where
  "count_group rs st entry s = (case s of (products, edges) \<Rightarrow> let grp = snd entry in
     seq (check_cancel st (fst entry)) (
     bnd (ok_or Resource (checked_add (base_domains grp) (local_domains grp))) (\<lambda>total_domains.
     bnd (ok_or Resource (checked_add (base_ranges grp) (local_ranges grp))) (\<lambda>total_ranges.
     bnd (ok_or Resource (checked_mul total_domains total_ranges)) (\<lambda>all_products.
     bnd (ok_or Resource (checked_mul (base_domains grp) (base_ranges grp))) (\<lambda>base_products.
     bnd (ok_or Malformed (checked_sub all_products base_products)) (\<lambda>local_products.
     bnd (ok_or Resource (checked_add products local_products)) (\<lambda>products'.
     bnd (owned_edge_count rs (group_property grp)) (\<lambda>expanded.
     bnd (ok_or Resource (checked_mul local_products expanded)) (\<lambda>n.
     map_res (Pair products') (ok_or Resource (checked_add edges n))))))))))))"

definition local_object_property_class_edge_counts :: "direct_preparation \<Rightarrow> nat \<Rightarrow> (usize \<times> usize) kres" where
  "local_object_property_class_edge_counts prep st =
     (if prep_local_classes prep = [] then Inr (0, 0)
      else if length (prep_local_class_positions prep) \<noteq> length (prep_local_classes prep) then Inl Malformed
      else fold_res (count_group (prep_role_state prep) st) (enumerate 0 (prep_class_groups prep)) (0, 0))"

definition count_composite_annotation :: "direct_columns list \<Rightarrow> composite_node_coordinate list \<Rightarrow> usize \<Rightarrow> nat
    \<Rightarrow> usize \<times> composite_root_coordinate \<Rightarrow> annotation_edge_counts_t \<Rightarrow> annotation_edge_counts_t kres" where
  "count_composite_annotation tables class_nodes maximum st entry counts =
     seq (check_cancel st (fst entry)) (
     bnd (composite_annotation_projection tables (snd entry) class_nodes maximum st) (\<lambda>r. case r of
       None \<Rightarrow> Inr counts
     | Some projection \<Rightarrow>
         bnd (bump ac_edges ac_edges_update counts)
           (case ap_value projection of
              Typed _ _ \<Rightarrow> bump ac_non_string_literals ac_non_string_literals_update
            | _ \<Rightarrow> Inr)))"

definition composite_annotation_edge_counts :: "direct_columns list \<Rightarrow> composite_root_coordinate list
    \<Rightarrow> composite_node_coordinate list \<Rightarrow> usize \<Rightarrow> nat \<Rightarrow> annotation_edge_counts_t kres" where
  "composite_annotation_edge_counts tables annotation_roots class_nodes maximum st =
     fold_res (count_composite_annotation tables class_nodes maximum st) (enumerate 0 annotation_roots)
       annotation_edge_counts_default"

end
