(* ===== verification/Budgeted_Plan.thy ===== *)
theory Budgeted_Plan
  imports Overlay_Workspace Root_Plan
begin

text \<open>
  \<open>resolve_selected_root_rule_plan\<close>: the first pass over the roots with a workspace, as compositions of
  tables use it. \<open>push_planned\<close> charges every push on a vector of the plan; the capacities of these
  vectors travel with the workspace. In the code the pushes of one operand, one aggregate and one root
  come after everything else in the step that can fail, so each budgeted step is the step of Root_Plan
  followed by the charges for what it appended.
\<close>

datatype planned_vector =
  Role_Roots | Shape_Roots | Emission_Roots | Aggregate_Roots | Named_Operands | Restriction_Operands
  | Emission_Named | Emission_Restrictions

record planning_workspace = overlay_workspace +
  plan_capacity :: "planned_vector \<Rightarrow> usize"

type_synonym 'a planning = "(planning_workspace, 'a) run"

fun planned_kind :: "planned_vector \<Rightarrow> owned_kind" where
  "planned_kind Role_Roots = Own_Role_Root"
| "planned_kind Shape_Roots = Own_Shape_Root"
| "planned_kind Emission_Roots = Own_Emission_Root"
| "planned_kind Aggregate_Roots = Own_Aggregate_Root"
| "planned_kind Named_Operands = Own_Named_Operand"
| "planned_kind Restriction_Operands = Own_Restriction_Operand"
| "planned_kind Emission_Named = Own_Usize"
| "planned_kind Emission_Restrictions = Own_Restriction_Coordinate"

fun planned_length :: "selected_root_rule_plan \<Rightarrow> planned_vector \<Rightarrow> usize" where
  "planned_length plan Role_Roots = length (role_roots plan)"
| "planned_length plan Shape_Roots = length (shape_roots plan)"
| "planned_length plan Emission_Roots = length (emission_roots plan)"
| "planned_length plan Aggregate_Roots = length (aggregate_roots plan)"
| "planned_length plan Named_Operands = length (aggregate_named_operands plan)"
| "planned_length plan Restriction_Operands = length (aggregate_restriction_operands plan)"
| "planned_length plan Emission_Named = length (aggregate_emission_named_nodes plan)"
| "planned_length plan Emission_Restrictions = length (aggregate_emission_restrictions plan)"

section \<open>Charges\<close>

definition charge_push :: "overlay_allocator \<Rightarrow> planned_vector \<Rightarrow> usize \<Rightarrow> unit planning" where
  "charge_push env v len w =
     mbnd (push_owned env (planned_kind v) len (plan_capacity w v)) (\<lambda>capacity w'.
       (Inr (), w'\<lparr>plan_capacity := (plan_capacity w')(v := capacity)\<rparr>)) w"

text \<open>One push on each of the vectors that a step made longer, in the order given.\<close>

definition charge_pushes :: "overlay_allocator \<Rightarrow> planned_vector list \<Rightarrow> selected_root_rule_plan
    \<Rightarrow> selected_root_rule_plan \<Rightarrow> unit planning" where
  "charge_pushes env vs plan plan' =
     mfold (\<lambda>v _. if planned_length plan v < planned_length plan' v then charge_push env v (planned_length plan v)
                  else mret ()) vs ()"

section \<open>The pass\<close>

definition budgeted_operand :: "overlay_allocator \<Rightarrow> direct_columns \<Rightarrow> nat \<Rightarrow> usize \<Rightarrow> usize \<Rightarrow> usize
    \<Rightarrow> selected_root_rule_plan \<times> usize \<Rightarrow> (selected_root_rule_plan \<times> usize) planning" where
  "budgeted_operand env c st maximum aggregate_start item_index s =
     mbnd (mlift (plan_operand c st maximum aggregate_start item_index s)) (\<lambda>s'.
     mseq (charge_pushes env [Named_Operands, Emission_Named, Restriction_Operands, Emission_Restrictions] (fst s) (fst s'))
       (mret s'))"

text \<open>What \<open>plan_aggregate\<close> does after the operands: the sorts, and the aggregate itself.\<close>

definition finish_aggregate :: "nat \<Rightarrow> usize \<Rightarrow> selected_root_rule_plan \<Rightarrow> selected_root_rule_plan \<times> usize
    \<Rightarrow> (usize \<times> selected_root_rule_plan) kres" where
  "finish_aggregate st root_index plan s = (case s of (plan1, ignored_shapes) \<Rightarrow>
     let named_start = length (aggregate_named_operands plan);
         restriction_start = length (aggregate_restriction_operands plan) in
     bnd (sort_tail st compare_named_operands named_start (aggregate_named_operands plan1)) (\<lambda>named.
     bnd (align_tail st operand_node named_start named (aggregate_emission_named_nodes plan1)) (\<lambda>named_nodes.
     bnd (sort_tail st compare_restriction_operands restriction_start (aggregate_restriction_operands plan1)) (\<lambda>restrictions.
     bnd (align_tail st operand_coordinate restriction_start restrictions
            (aggregate_emission_restrictions plan1)) (\<lambda>coordinates.
     Inr (length (aggregate_roots plan1),
          plan1\<lparr>aggregate_named_operands := named, aggregate_emission_named_nodes := named_nodes,
                aggregate_restriction_operands := restrictions, aggregate_emission_restrictions := coordinates,
                aggregate_roots := aggregate_roots plan1 @
                  [\<lparr> aggregate_root_index = root_index,
                     named_range = \<lparr> range_start = named_start, range_length = length named - named_start \<rparr>,
                     restriction_range = \<lparr> range_start = restriction_start,
                       range_length = length restrictions - restriction_start \<rparr>,
                     planned_ignored_shapes = ignored_shapes \<rparr>]\<rparr>))))))"

lemma plan_aggregate_finish:
  "plan_aggregate c st maximum root_index expression_id plan =
     bnd (aggregate_operand_range c expression_id) (\<lambda>(aggregate_start, aggregate_length).
     bnd (fold_res (plan_operand c st maximum aggregate_start)
            [aggregate_start ..< aggregate_start + aggregate_length] (plan, 0)) (finish_aggregate st root_index plan))"
  unfolding plan_aggregate_def finish_aggregate_def Let_def
  by (intro arg_cong2 [where f = bnd] refl ext)

definition budgeted_aggregate :: "overlay_allocator \<Rightarrow> direct_columns \<Rightarrow> nat \<Rightarrow> usize \<Rightarrow> usize \<Rightarrow> usize
    \<Rightarrow> selected_root_rule_plan \<Rightarrow> (usize \<times> selected_root_rule_plan) planning" where
  "budgeted_aggregate env c st maximum root_index expression_id plan =
     mbnd (mlift (aggregate_operand_range c expression_id)) (\<lambda>(aggregate_start, aggregate_length).
     mbnd (mfold (budgeted_operand env c st maximum aggregate_start)
             [aggregate_start ..< aggregate_start + aggregate_length] (plan, 0)) (\<lambda>s.
     mbnd (mlift (finish_aggregate st root_index plan s)) (\<lambda>r.
     mseq (charge_pushes env [Aggregate_Roots] (fst s) (snd r)) (mret r))))"

definition budgeted_equivalent_shape :: "overlay_allocator \<Rightarrow> direct_columns \<Rightarrow> nat \<Rightarrow> usize \<Rightarrow> usize \<Rightarrow> usize
    \<Rightarrow> selected_root_rule_plan \<Rightarrow> (planned_shapes \<times> selected_root_rule_plan) planning" where
  "budgeted_equivalent_shape env c st maximum root_index node_id plan =
     mbnd (mlift (exact_fields c node_id 2)) (\<lambda>start.
     mbnd (mlift (node_set_range c start 2)) (\<lambda>r.
     mbnd (mlift (best_expressions c st maximum r)) (\<lambda>best.
     mseq (mlift (validate_annotation_set c (start + 1))) (
     case best of
       (Some first, Some second) \<Rightarrow>
         (case key_iri first of
            None \<Rightarrow> mret ((EquivalentShape EquivalentIgnored, EmitEquivalentIgnored), plan)
          | Some source \<Rightarrow>
              (case key_iri second of
                 Some destination \<Rightarrow>
                   mret ((EquivalentShape (EquivalentPair source (key_node first) destination (key_node second)),
                          EmitEquivalentPair (key_node first) (key_node second)), plan)
               | None \<Rightarrow>
                   mbnd (mlift (node_tag c (key_node second))) (\<lambda>tag.
                   if \<not> is_aggregate_tag tag
                   then mret ((EquivalentShape EquivalentIgnored, EmitEquivalentIgnored), plan) else
                   mbnd (budgeted_aggregate env c st maximum root_index (key_node second) plan)
                     (\<lambda>(aggregate_plan_index, plan'). mret
                       ((EquivalentShape (EquivalentAggregate source (key_node first) (key_node second)),
                         EmitEquivalentAggregate (key_node first) aggregate_plan_index), plan')))))
     | _ \<Rightarrow> mlift (Inl Malformed)))))"

definition budgeted_root_shape :: "overlay_allocator \<Rightarrow> root_rule \<Rightarrow> direct_columns \<Rightarrow> usize \<Rightarrow> usize \<Rightarrow> usize \<Rightarrow> nat
    \<Rightarrow> selected_root_rule_plan \<Rightarrow> (planned_shapes option \<times> selected_root_rule_plan) planning" where
  "budgeted_root_shape env rule c root_index node_id maximum st plan =
     (if handler rule = HandleEquivalentClasses then
        mbnd (budgeted_equivalent_shape env c st maximum root_index node_id plan) (\<lambda>(shapes, plan'). mret (Some shapes, plan'))
      else mlift (plan_root_shape rule c root_index node_id maximum st plan))"

definition budgeted_step :: "overlay_allocator \<Rightarrow> direct_columns \<Rightarrow> usize \<Rightarrow> nat \<Rightarrow> usize \<Rightarrow> selected_root_rule_plan
    \<Rightarrow> selected_root_rule_plan planning" where
  "budgeted_step env c maximum st root_index plan =
     mseq (mlift (check_cancel st root_index)) (
     mbnd (mlift (root_is_selected c root_index)) (\<lambda>chosen.
     if \<not> chosen then mret plan else
     mbnd (mlift (root_id c root_index)) (\<lambda>node_id.
     mbnd (mlift (root_kind c root_index)) (\<lambda>kind.
     mbnd (mlift (node_tag c node_id)) (\<lambda>tag.
     mbnd (mlift (resolve_index kind tag)) (\<lambda>encoded_index.
     mbnd (mlift (rule_by_index (encoded_index - 1))) (\<lambda>rule.
     mbnd (budgeted_root_shape env rule c root_index node_id maximum st plan) (\<lambda>(shapes, plan1).
     mbnd (mlift (classify rule c node_id maximum root_index (map_option fst shapes) (plan_counts plan1))) (\<lambda>(effect, classified, counts).
     mseq (mlift (reject_if (classified \<noteq> map_option fst shapes) Malformed)) (
     mbnd (mlift (record_root root_index encoded_index effect shapes counts plan1)) (\<lambda>plan2.
     mseq (charge_pushes env [Role_Roots, Shape_Roots, Emission_Roots] plan1 plan2) (mret plan2))))))))))))"

text \<open>\<open>resolve_selected_root_rule_plan\<close>; the vectors of a new plan start without a capacity.\<close>

definition resolve_selected_root_rule_plan :: "overlay_allocator \<Rightarrow> direct_columns \<Rightarrow> usize \<Rightarrow> nat
    \<Rightarrow> (overlay_workspace, selected_root_rule_plan) run" where
  "resolve_selected_root_rule_plan env c maximum st w =
     (case mseq (reserve_owned env Own_Rule_Index (root_count c)) (
           mbnd (mfold (budgeted_step env c maximum st) [0 ..< root_count c] (empty_plan (root_count c))) (\<lambda>plan.
           mbnd (mlift (selected_root_count c)) (\<lambda>expected.
           if plan_selected plan \<noteq> expected then mlift (Inl Malformed) else mret plan)))
         (overlay_workspace.extend w \<lparr>plan_capacity = (\<lambda>_. 0)\<rparr>) of
      (r, w') \<Rightarrow> (r, overlay_workspace.truncate w'))"

section \<open>The budget changes nothing but a lack of resources\<close>

text \<open>\<open>computes m r\<close>: whatever the workspace, the computation returns \<open>r\<close> or runs out of it.\<close>

definition computes :: "('s, 'a) run \<Rightarrow> 'a kres \<Rightarrow> bool" where
  "computes m r \<longleftrightarrow> (\<forall>w. fst (m w) = r \<or> fst (m w) = Inl Resource)"

named_theorems computes_intros \<open>budgeted computations and their results\<close>

lemma computes_mret [computes_intros]: "computes (mret x) (Inr x)"
  and computes_mlift [computes_intros]: "computes (mlift r) r"
  by (simp_all add: computes_def)

lemma computes_mbnd [computes_intros]:
  assumes "computes m r" and "\<And>x. r = Inr x \<Longrightarrow> computes (f x) (g x)"
  shows "computes (mbnd m f) (bnd r g)"
  unfolding computes_def
proof
  fix w
  obtain q w1 where m: "m w = (q, w1)" by (cases "m w")
  with assms(1) have "q = r \<or> q = Inl Resource" by (auto simp: computes_def dest: spec [of _ w])
  with m assms(2) show "fst (mbnd m f w) = bnd r g \<or> fst (mbnd m f w) = Inl Resource"
    by (cases q) (auto simp: mbnd_def computes_def)
qed

lemma computes_mseq [computes_intros]:
  "computes m r \<Longrightarrow> (\<And>x. r = Inr x \<Longrightarrow> computes k s) \<Longrightarrow> computes (mseq m k) (seq r s)"
  unfolding mseq_def seq_def by (rule computes_mbnd)

lemma computes_map [computes_intros]: "computes m r \<Longrightarrow> computes (mbnd m (\<lambda>x. mret (h x))) (map_res h r)"
  unfolding map_res_def by (intro computes_intros)

text \<open>A charge never fails for another reason, so it can be added after any step.\<close>

definition only_charges :: "('s, unit) run \<Rightarrow> bool" where
  "only_charges m \<longleftrightarrow> computes m (Inr ())"

lemma computes_charged: "only_charges m \<Longrightarrow> computes k r \<Longrightarrow> computes (mseq m k) r"
  unfolding only_charges_def using computes_mseq [of m "Inr ()" k r] by (simp add: seq_def)

lemma computes_if: "(P \<Longrightarrow> computes m r) \<Longrightarrow> (\<not> P \<Longrightarrow> computes k s) \<Longrightarrow> computes (if P then m else k) (if P then r else s)"
  by simp

lemma computes_prod:
  "(\<And>a b. x = (a, b) \<Longrightarrow> computes (f a b) (g a b)) \<Longrightarrow> computes (case x of (a, b) \<Rightarrow> f a b) (case x of (a, b) \<Rightarrow> g a b)"
  by (cases x) simp

lemma computes_mfold:
  assumes "\<And>x s. computes (f x s) (g x s)"
  shows "computes (mfold f xs s) (fold_res g xs s)"
  using assms by (induction xs arbitrary: s) (simp_all add: computes_intros)

lemma only_charges_pushes: "only_charges (charge_pushes env vs plan plan')"
proof -
  have push: "computes (charge_push env v len) (Inr ())" for v len
    unfolding computes_def charge_push_def push_owned_def ws_claim_def ws_set_def
    by (auto simp: mseq_def mbnd_def on_error_def attempt_def Let_def ok_or_def
        split: option.splits if_splits prod.splits sum.splits)
  have "computes (mfold (\<lambda>v _. if planned_length plan v < planned_length plan' v then charge_push env v (planned_length plan v)
      else mret ()) vs ()) (fold_res (\<lambda>v u. Inr ()) vs ())"
    by (rule computes_mfold) (simp add: push computes_intros)
  moreover have "fold_res (\<lambda>v u. Inr ()) vs () = (Inr () :: unit kres)" by (induction vs) simp_all
  ultimately show ?thesis by (simp add: only_charges_def charge_pushes_def)
qed

lemma bnd_Inr_right: "bnd r Inr = r"
  by (cases r) simp_all

lemma computes_then_charge:
  assumes "computes m r" and "\<And>x. only_charges (k x)"
  shows "computes (mbnd m (\<lambda>x. mseq (k x) (mret x))) r"
  using computes_mbnd [OF assms(1), of "\<lambda>x. mseq (k x) (mret x)" Inr]
  by (simp add: bnd_Inr_right computes_charged [OF assms(2) computes_mret])

lemma computes_operand [computes_intros]:
  "computes (budgeted_operand env c st maximum start i s) (plan_operand c st maximum start i s)"
  unfolding budgeted_operand_def by (intro computes_then_charge computes_mlift only_charges_pushes)

lemma computes_aggregate [computes_intros]:
  "computes (budgeted_aggregate env c st maximum root_index expression_id plan) (plan_aggregate c st maximum root_index expression_id plan)"
  unfolding budgeted_aggregate_def plan_aggregate_finish
  by (intro computes_mbnd computes_mlift, clarsimp)
    (intro computes_mbnd computes_mfold computes_then_charge computes_intros only_charges_pushes)

lemma computes_equivalent_shape [computes_intros]:
  "computes (budgeted_equivalent_shape env c st maximum root_index node_id plan)
     (plan_equivalent_shape c st maximum root_index node_id plan)"
  unfolding budgeted_equivalent_shape_def plan_equivalent_shape_def
  apply (intro computes_mbnd computes_mseq computes_mlift)
  apply (clarsimp split: prod.splits option.splits)
  apply (intro conjI impI allI computes_intros)
  apply (auto intro!: computes_intros simp: map_res_def)
  done

lemma computes_root_shape [computes_intros]:
  "computes (budgeted_root_shape env rule c root_index node_id maximum st plan)
     (plan_root_shape rule c root_index node_id maximum st plan)"
proof (cases "handler rule = HandleEquivalentClasses")
  case True
  then show ?thesis
    by (auto simp: budgeted_root_shape_def plan_root_shape_def map_res_def split_beta intro!: computes_intros)
qed (simp add: budgeted_root_shape_def computes_intros)

lemma computes_step [computes_intros]:
  "computes (budgeted_step env c maximum st root_index plan) (populate_step c maximum st root_index plan)"
  unfolding budgeted_step_def populate_step_def
  by (intro computes_mseq computes_mbnd computes_mlift computes_if computes_prod computes_mret computes_root_shape
      computes_then_charge only_charges_pushes)

lemma computes_resolve:
  "computes (resolve_selected_root_rule_plan env c maximum st) (resolve_selected_root_rule_plan_unbounded c maximum st)"
proof -
  let ?pass = "mbnd (mfold (budgeted_step env c maximum st) [0 ..< root_count c] (empty_plan (root_count c))) (\<lambda>plan.
      mbnd (mlift (selected_root_count c)) (\<lambda>expected.
      if plan_selected plan \<noteq> expected then mlift (Inl Malformed) else mret plan))"
  have reserve: "only_charges (reserve_owned env Own_Rule_Index n :: (planning_workspace, unit) run)" for n
    unfolding only_charges_def computes_def reserve_owned_def ws_claim_def owned_size_def
    by (auto simp: mseq_def mbnd_def ok_or_def split: option.splits if_splits prod.splits sum.splits)
  have "computes ?pass (resolve_selected_root_rule_plan_unbounded c maximum st)"
    unfolding resolve_selected_root_rule_plan_unbounded_def populate_selected_root_rule_plan_def empty_plan_def
    by (simp, intro computes_mbnd computes_mfold computes_step computes_mlift computes_if computes_mret)
  note whole = computes_charged [OF reserve this, unfolded computes_def, rule_format]
  show ?thesis unfolding computes_def
  proof
    fix w :: overlay_workspace
    show "fst (resolve_selected_root_rule_plan env c maximum st w) = resolve_selected_root_rule_plan_unbounded c maximum st \<or>
        fst (resolve_selected_root_rule_plan env c maximum st w) = Inl Resource"
      using whole [of "root_count c" "overlay_workspace.extend w \<lparr>plan_capacity = (\<lambda>_. 0)\<rparr>"]
      by (simp only: resolve_selected_root_rule_plan_def split_beta fst_conv)
  qed
qed

lemma charging_charge_pushes [charging_intros]: "charging (charge_pushes env vs plan plan')"
proof -
  have "charging (charge_push env v len)" for v len
    using charging_push_owned [of env "planned_kind v" len "plan_capacity w v" for w]
    by (auto simp: charging_def charge_push_def mbnd_def ws_within_def split: prod.splits sum.splits)
  then show ?thesis unfolding charge_pushes_def by (intro charging_intros)
qed

lemma charging_case_prod [charging_intros]: "(\<And>a b. charging (f a b)) \<Longrightarrow> charging (case x of (a, b) \<Rightarrow> f a b)"
  by (cases x) simp

lemma charging_case_option [charging_intros]:
  "charging m \<Longrightarrow> (\<And>x. charging (f x)) \<Longrightarrow> charging (case v of None \<Rightarrow> m | Some x \<Rightarrow> f x)"
  by (cases v) simp_all

lemma charging_step: "charging (budgeted_step env c maximum st root_index plan)"
  unfolding budgeted_step_def budgeted_root_shape_def budgeted_equivalent_shape_def budgeted_aggregate_def budgeted_operand_def
  by (intro charging_intros)

lemma charging_resolve [charging_intros]: "charging (resolve_selected_root_rule_plan env c maximum st)"
proof -
  have "charging (mseq (reserve_owned env Own_Rule_Index (root_count c)) (
           mbnd (mfold (budgeted_step env c maximum st) [0 ..< root_count c] (empty_plan (root_count c))) (\<lambda>plan.
           mbnd (mlift (selected_root_count c)) (\<lambda>expected.
           if plan_selected plan \<noteq> expected then mlift (Inl Malformed) else mret plan))))"
    by (intro charging_intros charging_step)
  note whole = chargingD [OF this prod.collapse [symmetric]]
  show ?thesis unfolding charging_def
  proof (intro allI impI)
    fix w w' :: overlay_workspace and r
    assume run: "resolve_selected_root_rule_plan env c maximum st w = (r, w')" and "ws_within w"
    then have "ws_within (overlay_workspace.extend w \<lparr>plan_capacity = (\<lambda>_. 0)\<rparr>)"
      by (simp add: ws_within_def overlay_workspace.defs)
    from whole [OF this] run show "ws_within w' \<and> ws_limit w' = ws_limit w \<and> ws_claimed w \<le> ws_claimed w'"
      by (auto simp: resolve_selected_root_rule_plan_def split_beta ws_within_def overlay_workspace.defs prod_eq_iff)
  qed
qed

end
