(* ===== verification/Two_Tables.thy ===== *)
theory Two_Tables
  imports Overlay_Segments Class_Index Budgeted_Plan
begin

text \<open>
  \<open>prepare_two_table_batches_uncommitted\<close>: the preparation of a base table with one local segment. The
  segment is read, both tables are merged to find where its roots go, the base is prepared as a single
  table would be, and what the segment adds is counted on top.
\<close>

section \<open>Reading the segment\<close>

datatype cross_table_duplicate_policy = RejectDuplicates

definition DEDUPLICATED_OVERLAY_SCAN_INDEX :: usize where
  "DEDUPLICATED_OVERLAY_SCAN_INDEX = USIZE_MAX - 1"

definition two_table_preflight :: "direct_columns \<Rightarrow> direct_columns \<Rightarrow> usize \<Rightarrow> nat \<Rightarrow> cross_table_duplicate_policy
    \<Rightarrow> usize kres" where
  "two_table_preflight base delta maximum st policy =
     seq (reject_if (policy = RejectDuplicates \<and> (included_root_ids delta \<noteq> [] \<or> excluded_root_ids delta \<noteq> [])) Unsupported) (
     seq (reject_if (root_count delta = 0) Unsupported) (
     seq (validate_generic base st) (
     seq (validate_supported_nodes base maximum st) (
     seq (validate_generic delta st) (
     seq (validate_supported_nodes delta maximum st) (
     bnd (selected_root_count delta) (\<lambda>delta_roots.
     if delta_roots = 0 then Inl Unsupported else Inr delta_roots)))))))"

text \<open>What the reading phase leaves for the rest of the function.\<close>

record local_segment =
  segment_rule :: root_rule
  segment_emitting :: bool
  segment_handler :: "root_rule_handler option"
  segment_annotation_rule :: "local_annotation_rule_plan option"
  segment_role_rule :: "local_role_rule_plan option"
  segment_class_rules :: "object_property_class_rule_plan option list"
  segment_classes :: "owned_local_object_property_class option list"
  segment_deltas :: "owned_overlay_delta list"
  segment_axiom :: "role_axiom option"

definition read_paired_segment :: "direct_columns \<Rightarrow> selected_root_rule_plan \<Rightarrow> local_rule_context \<Rightarrow> nat \<Rightarrow> usize
    \<Rightarrow> local_segment \<Rightarrow> local_segment kres" where
  "read_paired_segment c plan context st delta_roots segment =
     map_res (\<lambda>(rules, slots). segment\<lparr>segment_class_rules := rules, segment_classes := slots\<rparr>)
       (own_paired_classes c plan context st delta_roots (segment_class_rules segment, segment_classes segment))"

definition read_silent_segment :: "direct_columns \<Rightarrow> selected_root_rule_plan \<Rightarrow> usize \<Rightarrow> usize \<Rightarrow> usize
    \<Rightarrow> local_rule_context \<Rightarrow> nat \<Rightarrow> local_segment \<Rightarrow> local_segment kres" where
  "read_silent_segment c plan position root maximum context st segment =
     map_res (\<lambda>(owned, axiom). segment\<lparr>segment_classes := (segment_classes segment)[0 := owned], segment_axiom := axiom\<rparr>)
       (validate_silent_root c plan position root (segment_rule segment) maximum context st)"

definition read_local_segment :: "overlay_allocator \<Rightarrow> direct_columns \<Rightarrow> selected_root_rule_plan
    \<Rightarrow> direct_compile_options \<Rightarrow> nat \<Rightarrow> usize \<Rightarrow> local_segment owning" where
  "read_local_segment env c plan options st delta_roots =
     mbnd (mlift (bnd (first_selected c st [0 ..< root_count c]) (ok_or Malformed))) (\<lambda>position.
     mbnd (mlift (root_id c position)) (\<lambda>root.
     mbnd (mlift (rule_at plan position)) (\<lambda>rule.
     let counts = plan_counts plan;
         context = local_rule_context_new options False;
         paired = paired_object_property_class delta_roots counts;
         emitting = (\<not> paired \<and> (delta_roots > 1 \<or> singular_emitting_delta delta_roots rule counts));
         annotation_rule = annotation_plan_from_root_rule rule;
         segment = \<lparr>segment_rule = rule, segment_emitting = emitting,
           segment_handler = silent_ignored_class_handler rule counts, segment_annotation_rule = annotation_rule,
           segment_role_rule = role_plan_from_root_rule rule counts,
           segment_class_rules = [class_plan_from_root_rule rule counts, None], segment_classes = [None, None],
           segment_deltas = [], segment_axiom = None\<rparr> in
     mseq (mlift (reject_if (\<not> paired \<and> \<not> emitting \<and> rule_root_kind rule \<noteq> ROOT_AXIOM \<and> annotation_rule = None) Unsupported)) (
     if paired then mlift (read_paired_segment c plan context st delta_roots segment)
     else if emitting then
       mseq (reserve_overlay_deltas env delta_roots) (
       mbnd (own_emitting_segment env c plan st delta_roots) (\<lambda>deltas. mret (segment\<lparr>segment_deltas := deltas\<rparr>)))
     else mlift (read_silent_segment c plan position root (max_iri_bytes options) context st segment)))))"

section \<open>The merge\<close>

record two_table_merge =
  left_roots :: usize
  right_roots :: usize
  unique_right_roots :: usize
  deduplicated_right_roots :: usize
  next_insertion_scan :: usize
  next_base_scan_index :: usize
  next_right_plan_index :: usize
  insertion_positions :: "usize option list"
  merged_deltas :: "owned_overlay_delta list"
  base_selected_annotation_assertion :: bool

definition two_table_merge_start :: "owned_overlay_delta list \<Rightarrow> two_table_merge" where
  "two_table_merge_start deltas =
     \<lparr>left_roots = 0, right_roots = 0, unique_right_roots = 0, deduplicated_right_roots = 0, next_insertion_scan = 0,
      next_base_scan_index = 0, next_right_plan_index = 0, insertion_positions = [None, None],
      merged_deltas = deltas, base_selected_annotation_assertion = False\<rparr>"

definition note_base_assertion :: "direct_compile_options \<Rightarrow> selected_root_rule_plan \<Rightarrow> root_ref \<Rightarrow> two_table_merge
    \<Rightarrow> two_table_merge kres" where
  "note_base_assertion options plan root s =
     map_res (\<lambda>assertion. s\<lparr>base_selected_annotation_assertion := base_selected_annotation_assertion s \<or> assertion\<rparr>)
       (if include_literals options
        then map_res (\<lambda>rule. handler rule = HandleAnnotationAssertion) (rule_at plan (ref_index root)) else Inr False)"

definition move_scan :: "root_ref \<Rightarrow> two_table_merge \<Rightarrow> two_table_merge kres" where
  "move_scan root s =
     bnd (ok_or Resource (Option.bind (checked_add (ref_index root) 1) (\<lambda>p. checked_add p (unique_right_roots s)))) (\<lambda>scan.
     map_res (\<lambda>base_scan. s\<lparr>next_insertion_scan := scan, next_base_scan_index := base_scan\<rparr>)
       (ok_or Resource (checked_add (ref_index root) 1)))"

definition left_step :: "direct_compile_options \<Rightarrow> selected_root_rule_plan \<Rightarrow> root_ref \<Rightarrow> two_table_merge
    \<Rightarrow> two_table_merge kres" where
  "left_step options plan root s =
     bnd (note_base_assertion options plan root s) (\<lambda>s1.
     bnd (bump left_roots left_roots_update s1) (move_scan root))"

text \<open>The delta of the next local root, which must be this one and not placed yet.\<close>

definition place_delta :: "usize \<Rightarrow> usize \<Rightarrow> two_table_merge \<Rightarrow> two_table_merge kres" where
  "place_delta position scan s =
     bnd (ok_or Malformed (get_at (merged_deltas s) (next_right_plan_index s))) (\<lambda>delta.
     seq (reject_if (local_canonical_index delta \<noteq> position) Malformed) (
     seq (reject_if (insertion_scan_index delta \<noteq> USIZE_MAX) Malformed) (
     Inr (s\<lparr>merged_deltas := (merged_deltas s)[next_right_plan_index s := delta\<lparr>insertion_scan_index := scan\<rparr>]\<rparr>))))"

definition place_position :: "two_table_merge \<Rightarrow> two_table_merge kres" where
  "place_position s =
     bnd (ok_or Malformed (get_at (insertion_positions s) (next_right_plan_index s))) (\<lambda>position.
     seq (reject_if (position \<noteq> None) Malformed) (
     Inr (s\<lparr>insertion_positions := (insertion_positions s)[next_right_plan_index s := Some (next_insertion_scan s)]\<rparr>)))"

definition right_step :: "bool \<Rightarrow> root_ref \<Rightarrow> two_table_merge \<Rightarrow> two_table_merge kres" where
  "right_step emitting root s =
     bnd (if emitting then place_delta (ref_index root) (next_base_scan_index s) s else place_position s) (\<lambda>s1.
     bnd (bump next_right_plan_index next_right_plan_index_update s1) (\<lambda>s2.
     bnd (bump right_roots right_roots_update s2) (\<lambda>s3.
     bnd (bump unique_right_roots unique_right_roots_update s3)
       (bump next_insertion_scan next_insertion_scan_update))))"

definition both_step :: "cross_table_duplicate_policy \<Rightarrow> direct_compile_options \<Rightarrow> selected_root_rule_plan \<Rightarrow> bool
    \<Rightarrow> root_ref \<Rightarrow> root_ref \<Rightarrow> two_table_merge \<Rightarrow> two_table_merge kres" where
  "both_step policy options plan emitting left right s =
     bnd (note_base_assertion options plan left s) (\<lambda>s1.
     seq (reject_if (policy = RejectDuplicates) Unsupported) (
     seq (reject_if (\<not> emitting) Unsupported) (
     bnd (place_delta (ref_index right) DEDUPLICATED_OVERLAY_SCAN_INDEX s1) (\<lambda>s2.
     bnd (bump next_right_plan_index next_right_plan_index_update s2) (\<lambda>s3.
     bnd (bump left_roots left_roots_update s3) (\<lambda>s4.
     bnd (bump right_roots right_roots_update s4) (\<lambda>s5.
     bnd (bump deduplicated_right_roots deduplicated_right_roots_update s5) (move_scan left))))))))"

definition two_table_step :: "cross_table_duplicate_policy \<Rightarrow> direct_compile_options \<Rightarrow> selected_root_rule_plan \<Rightarrow> bool
    \<Rightarrow> merged_root \<Rightarrow> two_table_merge \<Rightarrow> two_table_merge kres" where
  "two_table_step policy options plan emitting out s = (case out of
     Left_Root root \<Rightarrow> left_step options plan root s
   | Right_Root root \<Rightarrow> right_step emitting root s
   | Both_Roots left right \<Rightarrow> both_step policy options plan emitting left right s)"

text \<open>The work the sort of the deltas is charged in advance (\<open>sort_levels\<close> of \<open>usize\<close>).\<close>

definition sort_work :: "usize \<Rightarrow> usize kres" where
  "sort_work n = ok_or Resource (Option.bind (checked_mul n (bit_width (n - 1))) (\<lambda>work. checked_add work n))"

definition work_after_sort :: "usize \<Rightarrow> usize \<Rightarrow> usize kres" where
  "work_after_sort max_canonical_work spent = (case checked_sub max_canonical_work spent of
     Some rest \<Rightarrow> if rest = 0 then Inl Resource else Inr rest
   | None \<Rightarrow> Inl Resource)"

definition lost_local_root :: "bool \<Rightarrow> usize \<Rightarrow> two_table_merge \<Rightarrow> bool kres" where
  "lost_local_root emitting delta_roots s =
     (if emitting then Inr (\<exists>delta \<in> set (merged_deltas s). insertion_scan_index delta = USIZE_MAX)
      else if delta_roots > length (insertion_positions s) then Inl Panicked
      else Inr (None \<in> set (take delta_roots (insertion_positions s))))"

definition check_two_table_merge :: "direct_columns \<Rightarrow> bool \<Rightarrow> usize \<Rightarrow> two_table_merge \<Rightarrow> canonical_budget \<Rightarrow> unit kres" where
  "check_two_table_merge base emitting delta_roots s report =
     bnd (lost_local_root emitting delta_roots s) (\<lambda>lost.
     seq (reject_if (right_roots s \<noteq> delta_roots \<or> next_right_plan_index s \<noteq> delta_roots \<or> lost) Malformed) (
     bnd (selected_root_count base) (\<lambda>selected_base_roots.
     bnd (if left_roots s \<noteq> selected_base_roots \<or> deduplicated_roots report \<noteq> deduplicated_right_roots s then Inr True
          else map_res (\<lambda>total. roots_emitted report \<noteq> total)
            (ok_or Resource (checked_add selected_base_roots (unique_right_roots s)))) (\<lambda>inconsistent.
     seq (reject_if inconsistent Malformed)
       (reject_if (base_selected_annotation_assertion s) Unsupported)))))"

definition merge_local_segment :: "canonical_allocator \<Rightarrow> direct_columns \<Rightarrow> direct_columns \<Rightarrow> selected_root_rule_plan
    \<Rightarrow> direct_compile_options \<Rightarrow> nat \<Rightarrow> cross_table_duplicate_policy \<Rightarrow> usize \<Rightarrow> usize kres \<Rightarrow> usize \<Rightarrow> local_segment
    \<Rightarrow> two_table_merge kres" where
  "merge_local_segment cenv base delta plan options st policy max_canonical_work remaining delta_roots segment =
     bnd (if segment_emitting segment then sort_work delta_roots else Inr 0) (\<lambda>local_sort_work.
     bnd (work_after_sort max_canonical_work local_sort_work) (\<lambda>canonical_work.
     bnd remaining (\<lambda>merge_workspace.
     bnd (merge_two_tables cenv st canonical_work merge_workspace base delta) (\<lambda>(merger, budget).
     case merge_roots cenv st (two_table_step policy options plan (segment_emitting segment)) merger
            (two_table_merge_start (segment_deltas segment)) budget of
       (Inl e, _) \<Rightarrow> Inl e
     | (Inr s, report) \<Rightarrow>
         seq (check_two_table_merge base (segment_emitting segment) delta_roots s report) (Inr s)))))"

section \<open>What the segment adds\<close>

definition count_delta :: "owned_role_state \<Rightarrow> direct_compile_options \<Rightarrow> nat \<Rightarrow> usize \<times> owned_overlay_delta
    \<Rightarrow> usize \<times> usize \<Rightarrow> (usize \<times> usize) kres" where
  "count_delta rs options st entry s = (case s of (projection_edges, expansion_edges) \<Rightarrow>
     seq (check_cancel st (fst entry)) (
     bnd (delta_edge_counts (delta_projection (snd entry)) rs options st) (\<lambda>(edges, expansion).
     bnd (ok_or Resource (checked_add projection_edges edges)) (\<lambda>projection_edges'.
     map_res (Pair projection_edges') (ok_or Resource (checked_add expansion_edges expansion))))))"

definition count_deltas :: "owned_role_state \<Rightarrow> direct_compile_options \<Rightarrow> nat \<Rightarrow> owned_overlay_delta list
    \<Rightarrow> (usize \<times> usize) kres" where
  "count_deltas rs options st deltas = fold_res (count_delta rs options st) (enumerate 0 deltas) (0, 0)"

text \<open>The products of the local domains and ranges, their edges with role expansion, and the difference.\<close>

definition count_local_classes :: "direct_preparation \<Rightarrow> direct_compile_options \<Rightarrow> nat \<Rightarrow> (usize \<times> usize \<times> usize) kres" where
  "count_local_classes prep options st =
     bnd (if asserted_taxonomy_only options then Inr (0, 0) else local_object_property_class_edge_counts prep st)
       (\<lambda>(additional, expanded).
     map_res (\<lambda>expansion. (additional, expanded, expansion)) (ok_or Malformed (checked_sub expanded additional)))"

definition apply_delta_statistics :: "direct_compile_options \<Rightarrow> nat \<Rightarrow> owned_overlay_delta list \<Rightarrow> direct_compile_stats
    \<Rightarrow> direct_compile_stats kres" where
  "apply_delta_statistics options st deltas =
     fold_res (\<lambda>entry s. seq (check_cancel st (fst entry)) (delta_apply_statistics (delta_projection (snd entry)) options s))
       (enumerate 0 deltas)"

definition apply_silent_statistics :: "local_segment \<Rightarrow> direct_compile_options \<Rightarrow> direct_compile_stats
    \<Rightarrow> direct_compile_stats kres" where
  "apply_silent_statistics segment options s =
     (case segment_annotation_rule segment of
        Some rule \<Rightarrow> annotation_plan_apply_statistics rule s
      | None \<Rightarrow>
      if \<exists>rule \<in> set (segment_class_rules segment). rule \<noteq> None then
        fold_res class_plan_apply_statistics (List.map_filter id (segment_class_rules segment)) s
      else (case segment_role_rule segment of
        Some rule \<Rightarrow> role_plan_apply_statistics rule s
      | None \<Rightarrow>
          bnd (apply_statistics (segment_rule segment) options s) (\<lambda>s1.
          bnd (case segment_handler segment of
                 Some HandleSubclass \<Rightarrow> bump stat_ignored_subclasses stat_ignored_subclasses_update s1
               | Some HandleClassAssertion \<Rightarrow> bump stat_ignored_class_assertions stat_ignored_class_assertions_update s1
               | _ \<Rightarrow> Inr s1)
            (guarded_step (handler (segment_rule segment) = HandleEquivalentClasses \<and> \<not> asserted_taxonomy_only options)
              (bump stat_ignored_equivalents stat_ignored_equivalents_update)))))"

definition two_table_statistics :: "direct_columns \<Rightarrow> local_segment \<Rightarrow> direct_compile_options \<Rightarrow> nat \<Rightarrow> usize
    \<Rightarrow> owned_overlay_delta list \<Rightarrow> usize \<Rightarrow> usize \<times> usize \<times> usize \<Rightarrow> usize \<Rightarrow> direct_compile_stats
    \<Rightarrow> direct_compile_stats kres" where
  "two_table_statistics delta segment options st unique deltas projection_expansion classes projected s =
     (case classes of (additional, _, class_expansion) \<Rightarrow>
     bnd (add_stat stat_roots stat_roots_update unique s) (\<lambda>s1.
     bnd (add_stat stat_nodes stat_nodes_update (node_count delta) s1) (\<lambda>s2.
     bnd (apply_delta_statistics options st deltas s2) (\<lambda>s3.
     bnd (add_stat stat_role_expansion_edges stat_role_expansion_edges_update projection_expansion s3) (\<lambda>s4.
     bnd (guarded_step (\<not> segment_emitting segment) (apply_silent_statistics segment options) s4) (\<lambda>s5.
     bnd (add_stat stat_domain_range_edges stat_domain_range_edges_update additional s5) (\<lambda>s6.
     bnd (add_stat stat_role_expansion_edges stat_role_expansion_edges_update class_expansion s6) (\<lambda>s7.
     bnd (buffer_bytes delta) (\<lambda>bytes.
     add_stat stat_buffer_bytes stat_buffer_bytes_update bytes (s7\<lparr>stat_edges := projected\<rparr>))))))))))"

section \<open>The preparation\<close>

text \<open>The insertion positions of the classes of a domain or range, and their transfer into one vector.\<close>

definition position_class :: "usize option list \<Rightarrow> usize \<times> owned_local_object_property_class option
    \<Rightarrow> owned_local_object_property_class option kres" where
  "position_class positions entry = (case snd entry of
     None \<Rightarrow> Inr None
   | Some loc \<Rightarrow>
       bnd (load positions (fst entry)) (\<lambda>position.
       map_res (\<lambda>p. Some (loc\<lparr>insertion_position := p\<rparr>)) (ok_or Malformed position)))"

definition position_classes :: "usize option list \<Rightarrow> owned_local_object_property_class option list
    \<Rightarrow> owned_local_object_property_class option list kres" where
  "position_classes positions slots =
     fold_res (\<lambda>entry out. map_res (\<lambda>r. out @ [r]) (position_class positions entry)) (enumerate 0 slots) []"

definition transfer_classes :: "overlay_allocator \<Rightarrow> nat \<Rightarrow> owned_local_object_property_class option list
    \<Rightarrow> owned_local_object_property_class list owning" where
  "transfer_classes env st slots =
     mseq (reserve_owned env Own_Local_Class (length (List.map_filter id slots))) (
     mseq (mlift (for_each (check_cancel st) [0 ..< length slots])) (mret (List.map_filter id slots)))"

text \<open>The classes join the preparation of the base, with the index over both.\<close>

definition attach_classes :: "overlay_allocator \<Rightarrow> direct_columns \<Rightarrow> nat \<Rightarrow> owned_local_object_property_class list
    \<Rightarrow> prepared_direct_batches \<Rightarrow> prepared_direct_batches owning" where
  "attach_classes env base st classes prepared =
     mbnd (prepare_local_object_property_class_index env base st ((preparation prepared)\<lparr>prep_local_classes := classes\<rparr>))
       (\<lambda>prep. mret (prepared\<lparr>preparation := prep\<rparr>))"

definition finish_two_tables :: "direct_columns \<Rightarrow> local_segment \<Rightarrow> direct_compile_options \<Rightarrow> nat \<Rightarrow> usize
    \<Rightarrow> owned_overlay_delta list \<Rightarrow> prepared_direct_batches \<Rightarrow> prepared_direct_batches kres" where
  "finish_two_tables delta segment options st unique deltas prepared = (let prep = preparation prepared in
     bnd (count_deltas (prep_role_state prep) options st deltas) (\<lambda>(projection_edges, projection_expansion).
     bnd (count_local_classes prep options st) (\<lambda>classes.
     bnd (ok_or Resource (checked_add projection_edges (fst (snd classes)))) (\<lambda>additional_edges.
     bnd (ok_or Resource (checked_add (stat_edges (prep_statistics prep)) additional_edges)) (\<lambda>projected.
     seq (reject_if (projected > max_edges_option options) Resource) (
     map_res (\<lambda>s. prepared\<lparr>preparation := prep\<lparr>prep_statistics := s, prep_overlay_deltas := deltas\<rparr>\<rparr>)
       (two_table_statistics delta segment options st unique deltas projection_expansion classes projected
          (prep_statistics prep))))))))"

definition prepare_two_tables :: "overlay_allocator \<Rightarrow> canonical_allocator \<Rightarrow> direct_columns \<Rightarrow> direct_columns
    \<Rightarrow> direct_compile_options \<Rightarrow> nat \<Rightarrow> owned_role_state option \<Rightarrow> usize \<Rightarrow> cross_table_duplicate_policy \<Rightarrow> usize
    \<Rightarrow> prepared_direct_batches owning" where
  "prepare_two_tables env cenv base delta options st retained max_canonical_work policy delta_roots =
     mbnd (resolve_selected_root_rule_plan env base (max_iri_bytes options) st) (\<lambda>base_plan.
     mbnd (resolve_selected_root_rule_plan env delta (max_iri_bytes options) st) (\<lambda>delta_plan.
     mbnd (read_local_segment env delta delta_plan options st delta_roots) (\<lambda>segment.
     mbnd (\<lambda>w. (merge_local_segment cenv base delta base_plan options st policy max_canonical_work
                    (remaining_for_canonical_merge w) delta_roots segment, w)) (\<lambda>merged.
     mbnd (mlift (bnd (cancellable_retain st (\<lambda>d. insertion_scan_index d \<noteq> DEDUPLICATED_OVERLAY_SCAN_INDEX) (merged_deltas merged))
                   (canonicalize_overlay_delta_plan st))) (\<lambda>deltas.
     let axiom_position = (case insertion_positions merged of Some p # _ \<Rightarrow> p | _ \<Rightarrow> 0);
         axiom = map_option (\<lambda>a. a\<lparr>ra_canonical_order := axiom_position\<rparr>) (segment_axiom segment) in
     mbnd (mlift (position_classes (insertion_positions merged) (segment_classes segment))) (\<lambda>slots.
     mbnd (transfer_classes env st slots) (\<lambda>classes.
     mbnd (mlift (prepare_direct_batches_with_local_role_uncommitted base None options st retained None (Some base_plan) axiom))
       (\<lambda>(prepared, _).
     mbnd (attach_classes env base st classes prepared) (\<lambda>attached.
     mlift (finish_two_tables delta segment options st (unique_right_roots merged) deltas attached))))))))))"

definition prepare_two_table_batches_uncommitted :: "overlay_allocator \<Rightarrow> canonical_allocator \<Rightarrow> direct_columns
    \<Rightarrow> direct_columns \<Rightarrow> direct_compile_options \<Rightarrow> nat \<Rightarrow> owned_role_state option \<Rightarrow> usize \<Rightarrow> usize
    \<Rightarrow> cross_table_duplicate_policy \<Rightarrow> prepared_direct_batches kres" where
  "prepare_two_table_batches_uncommitted env cenv base delta options st retained max_canonical_work
       max_canonical_workspace_bytes policy =
     bnd (two_table_preflight base delta (max_iri_bytes options) st policy) (\<lambda>delta_roots.
     bnd (workspace_new max_canonical_workspace_bytes) (\<lambda>w.
     fst (prepare_two_tables env cenv base delta options st retained max_canonical_work policy delta_roots w)))"

definition prepare_single_overlay_delta_batches_uncommitted :: "overlay_allocator \<Rightarrow> canonical_allocator \<Rightarrow> direct_columns
    \<Rightarrow> direct_columns \<Rightarrow> direct_compile_options \<Rightarrow> nat \<Rightarrow> owned_role_state option \<Rightarrow> usize \<Rightarrow> usize
    \<Rightarrow> prepared_direct_batches kres" where
  "prepare_single_overlay_delta_batches_uncommitted env cenv base delta options st retained max_canonical_work
       max_canonical_workspace_bytes =
     prepare_two_table_batches_uncommitted env cenv base delta options st retained max_canonical_work
       max_canonical_workspace_bytes RejectDuplicates"

end
