(* ===== verification/Overlay_Placement.thy ===== *)
theory Overlay_Placement
  imports Merged_Roots Two_Tables
begin

text \<open>
  Where the merge puts the roots of a local segment. The loop of \<open>prepare_two_table_batches_uncommitted\<close>
  keeps one invariant between its own state and the merger: the scan position separates the base roots
  the merger has handed out from those it has not, and every root handed out is smaller than every local
  root still to come.
\<close>

section \<open>Loops over a merge\<close>

lemma merge_roots_invariant:
  assumes "merge_roots env st body m s b = (Inr s', b')" and "I m s" and "merger_ok m"
    and step: "\<And>m b out m' b' s s'. merger_ok m \<Longrightarrow> I m s \<Longrightarrow> merger_next env st m b = (Inr (Some out, m'), b') \<Longrightarrow>
      body out s = Inr s' \<Longrightarrow> I m' s'"
  shows "\<exists>m'. I m' s' \<and> left_remaining m' = [] \<and> right_remaining m' = []"
  using assms(1-3)
proof (induction "work_left b" arbitrary: m s b rule: less_induct)
  case less
  show ?case
  proof (cases "merger_next env st m b")
    case (Pair r b1)
    show ?thesis
    proof (cases r)
      case (Inl e)
      with less.prems(1) Pair show ?thesis by (simp add: merge_roots.simps [of env st body m s b])
    next
      case (Inr res)
      obtain found m1 where res: "res = (found, m1)" by fastforce
      note n = Pair [unfolded Inr res]
      show ?thesis
      proof (cases found)
        case None
        with merger_next_step(4) [OF less.prems(3) n] have "left_remaining m = []" "right_remaining m = []"
          by (simp_all add: merge_step_def)
        moreover from less.prems(1) n None have "s' = s" by (simp add: merge_roots.simps [of env st body m s b])
        ultimately show ?thesis using less.prems(2) by blast
      next
        case (Some out)
        with less.prems(1) n obtain s1 where "body out s = Inr s1" and "merge_roots env st body m1 s1 b1 = (Inr s', b')"
          by (auto simp: merge_roots.simps [of env st body m s b] split: sum.splits)
        with less.hyps [OF merger_next_progress [OF n [unfolded Some]]] step [OF less.prems(3,2) n [unfolded Some]]
          merger_next_step(1) [OF less.prems(3) n]
        show ?thesis by blast
      qed
    qed
  qed
qed

section \<open>Roots that were read\<close>

fun merged_read :: "direct_columns \<Rightarrow> direct_columns \<Rightarrow> merged_root \<Rightarrow> bool" where
  "merged_read left right (Left_Root a) = root_read left a"
| "merged_read left right (Right_Root b) = root_read right b"
| "merged_read left right (Both_Roots a b) = (root_read left a \<and> root_read right b)"

lemma merger_next_reads:
  assumes ok: "merger_ok m" and n: "merger_next env st m b = (Inr (Some out, m'), b')"
  shows "merged_read (columns (left_table m)) (columns (right_table m)) out"
proof -
  let ?l = "columns (left_table m)" and ?r = "columns (right_table m)"
  from n obtain left lp lq b1 right rp rq b2 where
    sl: "selected_root ?l st (left_position m) (left_posting_position m) b = (Inr (left, lp, lq), b1)" and
    sr: "selected_root ?r st (right_position m) (right_posting_position m) b1 = (Inr (right, rp, rq), b2)" and
    body: "(let m' = m\<lparr>left_position := lp, left_posting_position := lq, right_position := rp, right_posting_position := rq\<rparr> in
     case (left, right) of
       (Some a, Some b) \<Rightarrow>
         mbnd (side_compare_roots env st m Left_Side Right_Side a b (node_cursors m)) (\<lambda>(outcome, cursors).
         take_root (m'\<lparr>node_cursors := cursors\<rparr>)
           (case outcome of Less \<Rightarrow> Left_Root a | Greater \<Rightarrow> Right_Root b | Equal \<Rightarrow> Both_Roots a b))
     | (None, None) \<Rightarrow> mret (None, m')
     | (None, Some b) \<Rightarrow> take_root m' (Right_Root b)
     | (Some a, None) \<Rightarrow> take_root m' (Left_Root a)) b2 = (Inr (Some out, m'), b')"
    unfolding merger_next_def by (simp only: mbnd_Inr split_paired_Ex prod.case) blast
  have L: "selection_ok ?l (left_position m) (left, lp, lq)" and R: "selection_ok ?r (right_position m) (right, rp, rq)"
    using selected_root_finds [OF sl] selected_root_finds [OF sr] ok by (simp_all add: merger_ok_def mergeable_def)
  show ?thesis
    using body selection_read [of ?l "left_position m" "the left" lp lq]
      selection_read [of ?r "right_position m" "the right" rp rq] L R
    by (cases left; cases right; auto simp: Let_def mbnd_Inr dest!: take_root_Inr split: ordering.splits; metis ordering.exhaust)
qed

section \<open>The scan position\<close>

text \<open>The scan position of a key: the selected base roots before it are those with smaller keys.\<close>

definition scan_fits :: "direct_columns \<Rightarrow> nat \<times> nat list \<Rightarrow> usize \<Rightarrow> bool" where
  "scan_fits c key scan \<longleftrightarrow> list_all (\<lambda>j. root_key c j < key \<longleftrightarrow> j < scan) (filter (selected c) [0 ..< root_count c])"

text \<open>What the merge keeps: the scan position splits the selected base roots into those it has handed out,
  all smaller than the keys to come, and those it has not.\<close>

definition scan_splits :: "direct_columns \<Rightarrow> (nat \<times> nat list) list \<Rightarrow> (nat \<times> nat list) set \<Rightarrow> usize \<Rightarrow> bool" where
  "scan_splits c left keys scan \<longleftrightarrow> (\<forall>j < root_count c. selected c j \<longrightarrow>
     (j < scan \<longleftrightarrow> root_key c j \<notin> set left) \<and> (j < scan \<longrightarrow> (\<forall>key \<in> keys. root_key c j < key)))"

lemma scan_splits_start: "roots_ascending c \<Longrightarrow> scan_splits c (selected_keys c) keys 0"
  using remaining_member [of c _ 0] by (simp add: scan_splits_def selected_keys_def)

lemma scan_splits_take:
  assumes asc: "roots_ascending c" and i: "i < root_count c"
    and l: "remaining c p = root_key c i # remaining c p'" and above: "\<And>key. key \<in> keys \<Longrightarrow> root_key c i < key"
  shows "scan_splits c (remaining c p') keys (i + 1)"
proof -
  have s: "sorted_wrt (<) (remaining c p)" using selected_keys_ascending [OF asc] .
  then have "root_key c i \<in> set (remaining c p)" "root_key c i \<notin> set (remaining c p')" using l by auto
  then have i': "selected c i" "p \<le> i" "i < p'" by (auto simp: remaining_member [OF asc i])
  have "(j < i + 1 \<longleftrightarrow> root_key c j \<notin> set (remaining c p')) \<and> (j < i + 1 \<longrightarrow> (\<forall>key \<in> keys. root_key c j < key))"
    if j: "j < root_count c" "selected c j" for j
  proof -
    note member = remaining_member [OF asc j(1)]
    have "root_key c j \<in> set (remaining c p')" if "i < j"
    proof -
      from that j(2) i'(2) member have "root_key c j \<in> set (remaining c p)" by simp
      with l that root_key_eq [OF asc i j(1)] show ?thesis by (metis less_irrefl set_ConsD)
    qed
    moreover have "j \<le> i \<Longrightarrow> root_key c j \<notin> set (remaining c p') \<and> root_key c j \<le> root_key c i"
      using i'(3) root_key_less [OF asc i j(1)] by (auto simp: member)
    ultimately show ?thesis using above by (cases "j \<le> i") (auto simp: not_le intro: le_less_trans)
  qed
  then show ?thesis by (simp add: scan_splits_def)
qed

lemma scan_splits_keep: "scan_splits c left keys scan \<Longrightarrow> keys' \<subseteq> keys \<Longrightarrow> scan_splits c left keys' scan"
  by (auto simp: scan_splits_def)

lemma scan_splits_fits:
  assumes inv: "scan_splits c left keys scan" and key: "key \<in> keys" and lt: "\<forall>k \<in> set left. key < k"
  shows "scan_fits c key scan" and "key \<notin> set (selected_keys c)"
proof -
  have side: "(root_key c j < key \<longleftrightarrow> j < scan) \<and> root_key c j \<noteq> key" if "j < root_count c" "selected c j" for j
    using inv [unfolded scan_splits_def, rule_format, OF that] lt key by (cases "j < scan") auto
  then show "scan_fits c key scan" by (simp add: scan_fits_def list_all_iff)
  show "key \<notin> set (selected_keys c)" unfolding selected_keys_def remaining_def by (auto dest: side)
qed

definition scan_ok :: "root_merger \<Rightarrow> usize \<Rightarrow> bool" where
  "scan_ok m scan \<longleftrightarrow> scan_splits (columns (left_table m)) (left_remaining m) (set (right_remaining m)) scan"

lemma scan_ok_start:
  assumes "merger_ok m" and "left_remaining m = selected_keys (columns (left_table m))"
  shows "scan_ok m 0"
  using assms scan_splits_start by (simp add: scan_ok_def merger_ok_def mergeable_def)

lemma scan_ok_left:
  assumes ok: "merger_ok m" and n: "merger_next env st m b = (Inr (Some out, m'), b')"
    and out: "out = Left_Root a \<or> out = Both_Roots a r"
  shows "scan_ok m' (ref_index a + 1)"
proof -
  let ?c = "columns (left_table m)"
  note step = merger_next_step [OF ok n]
  have asc: "roots_ascending ?c" and sr: "sorted_wrt (<) (right_remaining m)"
    using ok selected_keys_ascending by (simp_all add: merger_ok_def mergeable_def right_remaining_def)
  have i: "ref_index a < root_count ?c" "ref_key ?c a = root_key ?c (ref_index a)"
    using merger_next_reads [OF ok n] out root_read_key by (auto simp: root_read_def)
  from step(4) out i have "left_remaining m = root_key ?c (ref_index a) # left_remaining m'"
    and "\<And>key. key \<in> set (right_remaining m') \<Longrightarrow> root_key ?c (ref_index a) < key"
    using sr by (auto simp: merge_step_def)
  then have "scan_splits ?c (remaining ?c (left_position m')) (set (right_remaining m')) (ref_index a + 1)"
    using scan_splits_take [OF asc i(1)] by (simp add: left_remaining_def step(2))
  then show ?thesis by (simp add: scan_ok_def left_remaining_def step(2))
qed

lemma scan_ok_right:
  assumes ok: "merger_ok m" and inv: "scan_ok m scan"
    and n: "merger_next env st m b = (Inr (Some (Right_Root r), m'), b')"
  shows "scan_ok m' scan" and "scan_fits (columns (left_table m)) (ref_key (columns (right_table m)) r) scan"
    and "ref_key (columns (right_table m)) r \<notin> set (selected_keys (columns (left_table m)))"
proof -
  let ?key = "ref_key (columns (right_table m)) r"
  note step = merger_next_step [OF ok n]
  from step(4) have l: "left_remaining m' = left_remaining m" and r: "right_remaining m = ?key # right_remaining m'"
    and lt: "\<forall>k \<in> set (left_remaining m). ?key < k" by (simp_all add: merge_step_def)
  show "scan_ok m' scan" using inv r by (auto simp: scan_ok_def step(2) l elim: scan_splits_keep)
  from scan_splits_fits [OF inv [unfolded scan_ok_def] _ lt] r
  show "scan_fits (columns (left_table m)) ?key scan" "?key \<notin> set (selected_keys (columns (left_table m)))" by simp_all
qed

section \<open>The loop keeps the placement\<close>

definition placed_delta :: "direct_columns \<Rightarrow> direct_columns \<Rightarrow> owned_overlay_delta \<Rightarrow> bool" where
  "placed_delta base delta d \<longleftrightarrow> (let key = root_key delta (local_canonical_index d) in
     key \<notin> set (selected_keys base) \<and> scan_fits base key (insertion_scan_index d))"

text \<open>The position of a silent root counts the base roots before it and the local roots before it.\<close>

definition placed_position :: "direct_columns \<Rightarrow> usize option list \<Rightarrow> nat \<times> nat \<times> nat list \<Rightarrow> bool" where
  "placed_position base positions entry \<longleftrightarrow> (case entry of (i, key) \<Rightarrow>
     case get_at positions i of
       Some (Some p) \<Rightarrow> i \<le> p \<and> scan_fits base key (p - i) \<and> key \<notin> set (selected_keys base)
     | _ \<Rightarrow> False)"

definition between :: "direct_columns \<Rightarrow> direct_columns \<Rightarrow> root_merger \<Rightarrow> two_table_merge \<Rightarrow> bool" where
  "between base delta m s \<longleftrightarrow> columns (left_table m) = base \<and> columns (right_table m) = delta \<and>
     scan_ok m (next_base_scan_index s)"

definition deltas_placed :: "direct_columns \<Rightarrow> direct_columns \<Rightarrow> owned_overlay_delta list \<Rightarrow> root_merger \<Rightarrow> two_table_merge \<Rightarrow> bool" where
  "deltas_placed base delta start m s \<longleftrightarrow> between base delta m s \<and>
     (let n = next_right_plan_index s; ds = merged_deltas s in n \<le> length ds \<and>
     map (\<lambda>d. root_key delta (local_canonical_index d)) (take n ds) @ right_remaining m = selected_keys delta \<and>
     list_all (placed_delta base delta) (take n ds) \<and> map delta_projection ds = map delta_projection start)"

definition positions_placed :: "direct_columns \<Rightarrow> direct_columns \<Rightarrow> root_merger \<Rightarrow> two_table_merge \<Rightarrow> bool" where
  "positions_placed base delta m s \<longleftrightarrow> between base delta m s \<and>
     (let n = next_right_plan_index s; keys = selected_keys delta in n \<le> length keys \<and>
     right_remaining m = drop n keys \<and> unique_right_roots s = n \<and>
     next_insertion_scan s = next_base_scan_index s + n \<and>
     list_all (placed_position base (insertion_positions s)) (enumerate 0 (take n keys)))"

lemmas two_table_step_defs = two_table_step_def left_step_def right_step_def both_step_def note_base_assertion_def
  move_scan_def bump_def

lemma place_delta_Inr:
  assumes "place_delta position scan s = Inr s'"
  obtains d where "next_right_plan_index s < length (merged_deltas s)" and "merged_deltas s ! next_right_plan_index s = d"
    and "local_canonical_index d = position"
    and "s' = s\<lparr>merged_deltas := (merged_deltas s)[next_right_plan_index s := d\<lparr>insertion_scan_index := scan\<rparr>]\<rparr>"
  using assms by (auto simp: place_delta_def res_simps get_at_def split: if_splits)

text \<open>What one step does to the state, by the kind of the root.\<close>

lemma left_step_effect:
  assumes "left_step options plan a s = Inr s'"
  shows "next_base_scan_index s' = ref_index a + 1" and "next_right_plan_index s' = next_right_plan_index s"
    and "merged_deltas s' = merged_deltas s" and "insertion_positions s' = insertion_positions s"
    and "unique_right_roots s' = unique_right_roots s"
    and "next_insertion_scan s' = ref_index a + 1 + unique_right_roots s"
  using assms by (auto simp: left_step_def note_base_assertion_def move_scan_def bump_def res_simps checked_add_def
      split: if_splits)

lemma emitting_right_effect:
  assumes "right_step True r s = Inr s'"
  obtains d where "next_right_plan_index s < length (merged_deltas s)" and "merged_deltas s ! next_right_plan_index s = d"
    and "local_canonical_index d = ref_index r" and "next_right_plan_index s' = next_right_plan_index s + 1"
    and "merged_deltas s' = (merged_deltas s)[next_right_plan_index s := d\<lparr>insertion_scan_index := next_base_scan_index s\<rparr>]"
    and "next_base_scan_index s' = next_base_scan_index s"
  using assms by (auto simp: right_step_def bump_def res_simps checked_add_def elim!: place_delta_Inr split: if_splits)

text \<open>A root of both tables is refused: rejecting is the only policy there is.\<close>

lemma both_refused: "both_step policy options plan emitting a r s \<noteq> Inr s'"
  by (cases policy) (auto simp: both_step_def res_simps)

lemma silent_right_effect:
  assumes "right_step False r s = Inr s'"
  shows "next_right_plan_index s < length (insertion_positions s)" and "next_right_plan_index s' = next_right_plan_index s + 1"
    and "insertion_positions s' = (insertion_positions s)[next_right_plan_index s := Some (next_insertion_scan s)]"
    and "next_base_scan_index s' = next_base_scan_index s" and "next_insertion_scan s' = next_insertion_scan s + 1"
    and "unique_right_roots s' = unique_right_roots s + 1"
  using assms by (auto simp: right_step_def place_position_def bump_def res_simps checked_add_def get_at_def split: if_splits)

lemma place_next:
  assumes n: "n < length ds" and d: "ds ! n = d" and e: "e = d\<lparr>insertion_scan_index := scan\<rparr>"
  shows "take (n + 1) (ds[n := e]) = take n ds @ [e]" and "map delta_projection (ds[n := e]) = map delta_projection ds"
  using assms by (auto simp: take_Suc_conv_app_nth list_eq_iff_nth_eq nth_list_update)

lemma deltas_placed_grow:
  assumes inv: "deltas_placed base delta start m s"
    and b: "between base delta m' s'" and r: "right_remaining m = ref_key delta r # right_remaining m'" and read: "root_read delta r"
    and d: "next_right_plan_index s < length (merged_deltas s)" "merged_deltas s ! next_right_plan_index s = d"
      "local_canonical_index d = ref_index r"
    and s': "next_right_plan_index s' = next_right_plan_index s + 1"
      "merged_deltas s' = (merged_deltas s)[next_right_plan_index s := d\<lparr>insertion_scan_index := scan\<rparr>]"
    and placed: "placed_delta base delta (d\<lparr>insertion_scan_index := scan\<rparr>)"
  shows "deltas_placed base delta start m' s'"
proof -
  note grow = place_next [OF d(1,2) refl, of scan]
  show ?thesis
    using inv b r root_read_key [OF read] d(1,3) placed unfolding deltas_placed_def Let_def s' grow by simp
qed

lemma deltas_placed_step:
  assumes ok: "merger_ok m" and inv: "deltas_placed base delta start m s"
    and n: "merger_next env st m b = (Inr (Some out, m'), b')" and s: "two_table_step policy options plan True out s = Inr s'"
  shows "deltas_placed base delta start m' s'"
proof -
  note step = merger_next_step [OF ok n]
  from inv have base: "columns (left_table m) = base" and delta: "columns (right_table m) = delta"
    and scan: "scan_ok m (next_base_scan_index s)" by (simp_all add: deltas_placed_def between_def)
  have tables: "columns (left_table m') = base" "columns (right_table m') = delta" using step(2,3) base delta by simp_all
  note read = merger_next_reads [OF ok n, unfolded base delta]
  show ?thesis
  proof (cases out)
    case (Left_Root a)
    have l: "left_step options plan a s = Inr s'" using s Left_Root by (simp add: two_table_step_def)
    have "scan_ok m' (ref_index a + 1)" using scan_ok_left [OF ok n] Left_Root by simp
    with inv step(4) tables show ?thesis
      unfolding deltas_placed_def Let_def between_def left_step_effect [OF l] by (simp add: merge_step_def Left_Root)
  next
    case (Right_Root r)
    from s Right_Root have "right_step True r s = Inr s'" by (simp add: two_table_step_def)
    then obtain d where d: "next_right_plan_index s < length (merged_deltas s)" "merged_deltas s ! next_right_plan_index s = d"
      "local_canonical_index d = ref_index r" "next_right_plan_index s' = next_right_plan_index s + 1"
      "merged_deltas s' = (merged_deltas s)[next_right_plan_index s := d\<lparr>insertion_scan_index := next_base_scan_index s\<rparr>]"
      and b: "next_base_scan_index s' = next_base_scan_index s" by (rule emitting_right_effect)
    note right = scan_ok_right [OF ok scan n [unfolded Right_Root], unfolded base delta]
    from read Right_Root have r: "root_read delta r" by simp
    have k: "right_remaining m = ref_key delta r # right_remaining m'" using step(4) by (simp add: merge_step_def Right_Root delta)
    show ?thesis
    proof (rule deltas_placed_grow [OF inv _ k r d])
      show "between base delta m' s'" by (simp add: between_def tables b right(1))
      show "placed_delta base delta (d\<lparr>insertion_scan_index := next_base_scan_index s\<rparr>)"
        using right(2,3) by (simp add: placed_delta_def Let_def d(3) root_read_key [OF r])
    qed
  next
    case (Both_Roots a r)
    with s show ?thesis by (simp add: two_table_step_def both_refused)
  qed
qed

lemma positions_placed_step:
  assumes ok: "merger_ok m" and inv: "positions_placed base delta m s"
    and n: "merger_next env st m b = (Inr (Some out, m'), b')" and s: "two_table_step policy options plan False out s = Inr s'"
  shows "positions_placed base delta m' s'"
proof -
  note step = merger_next_step [OF ok n]
  from inv have base: "columns (left_table m) = base" and delta: "columns (right_table m) = delta"
    and scan: "scan_ok m (next_base_scan_index s)" by (simp_all add: positions_placed_def between_def)
  have tables: "columns (left_table m') = base" "columns (right_table m') = delta" using step(2,3) base delta by simp_all
  show ?thesis
  proof (cases out)
    case (Left_Root a)
    have l: "left_step options plan a s = Inr s'" using s Left_Root by (simp add: two_table_step_def)
    have "scan_ok m' (ref_index a + 1)" using scan_ok_left [OF ok n] Left_Root by simp
    with inv step(4) tables show ?thesis
      unfolding positions_placed_def Let_def between_def left_step_effect [OF l] by (simp add: merge_step_def Left_Root)
  next
    case (Right_Root r)
    let ?n = "next_right_plan_index s" and ?keys = "selected_keys delta"
    from s Right_Root have e: "right_step False r s = Inr s'" by (simp add: two_table_step_def)
    note effect = silent_right_effect [OF e] and right = scan_ok_right [OF ok scan n [unfolded Right_Root], unfolded base delta]
    have r: "right_remaining m = ref_key delta r # right_remaining m'" using step(4) by (simp add: merge_step_def Right_Root delta)
    with inv have k: "?n < length ?keys" "?keys ! ?n = ref_key delta r" "right_remaining m' = drop (?n + 1) ?keys"
      by (auto simp: positions_placed_def Let_def) (metis drop_all length_greater_0_conv list.distinct(1) not_le
          nth_via_drop drop_Suc tl_drop list.sel(3))+
    have "placed_position base (insertion_positions s') (i, key)"
      if "placed_position base (insertion_positions s) (i, key)" "i < ?n" for i key
      using that effect(1) by (simp add: placed_position_def get_at_def effect(3))
    with inv k have old: "list_all (placed_position base (insertion_positions s')) (enumerate 0 (take ?n ?keys))"
      by (auto simp: positions_placed_def Let_def list_all_iff in_set_enumerate_eq)
    have "placed_position base (insertion_positions s') (?n, ref_key delta r)"
      using right effect inv by (simp add: placed_position_def get_at_def positions_placed_def Let_def)
    with old k inv right(1) show ?thesis
      unfolding positions_placed_def Let_def between_def effect(2,4,5,6)
      by (simp add: tables take_Suc_conv_app_nth enumerate_append_eq)
  next
    case (Both_Roots a r)
    with s show ?thesis by (simp add: two_table_step_def both_refused)
  qed
qed

end
