(* ===== verification/Composite_Setup.thy ===== *)
theory Composite_Setup
  imports Two_Tables
begin

text \<open>
  \<open>prepare_dynamic_composite_batches_with_root_uncommitted\<close> up to its merge loop: the members of a
  composite are validated and planned, the anonymous scopes of mapped members get their positions, and
  every root of the members after the first gets a plan entry to be placed by the merge. With a ROOT
  selection there is a second table per member, over the same nodes, that selects the asserted roots.
\<close>

section \<open>Planning the members\<close>

definition plan_member :: "overlay_allocator \<Rightarrow> usize \<Rightarrow> nat \<Rightarrow> direct_columns \<Rightarrow> selected_root_rule_plan owning" where
  "plan_member env maximum st c =
     mseq (mlift (validate_generic c st)) (
     mseq (mlift (validate_supported_nodes c maximum st)) (
     resolve_selected_root_rule_plan env c maximum st))"

definition plan_closure :: "overlay_allocator \<Rightarrow> usize \<Rightarrow> nat \<Rightarrow> direct_columns list
    \<Rightarrow> (selected_root_rule_plan list \<times> usize) owning" where
  "plan_closure env maximum st cs =
     mfold (\<lambda>c (plans, selected_total).
         mbnd (plan_member env maximum st c) (\<lambda>plan.
         mbnd (mlift (ok_or Resource (checked_add selected_total (plan_selected plan)))) (\<lambda>total.
         mret (plans @ [plan], total))))
       cs ([], 0)"

definition plan_roots :: "overlay_allocator \<Rightarrow> usize \<Rightarrow> nat \<Rightarrow> direct_columns list \<Rightarrow> selected_root_rule_plan list owning" where
  "plan_roots env maximum st cs =
     mfold (\<lambda>c plans. mbnd (plan_member env maximum st c) (\<lambda>plan. mret (plans @ [plan]))) cs []"

definition reserve_all :: "overlay_allocator \<Rightarrow> (owned_kind \<times> usize) list \<Rightarrow> unit owning" where
  "reserve_all env wanted = mfold (\<lambda>(kind, n) _. reserve_owned env kind n) wanted ()"

section \<open>Anonymous scopes\<close>

type_synonym scope_scan = "scope_mapped_composite_kind option list \<times> (usize \<times> bytes) list \<times> bool"

definition holds_anonymous_node :: "direct_columns \<Rightarrow> nat \<Rightarrow> bool kres" where
  "holds_anonymous_node c st =
     exists_res (\<lambda>node_id. seq (check_cancel st node_id)
       (map_res (\<lambda>tag. tag = TAG_ANONYMOUS_INDIVIDUAL) (node_tag c node_id))) [1 ..< node_count c + 1]"

definition scope_member :: "selected_root_rule_plan list \<Rightarrow> usize \<Rightarrow> nat \<Rightarrow> usize \<times> direct_columns \<Rightarrow> scope_scan
    \<Rightarrow> scope_scan kres" where
  "scope_member plans maximum st entry s = (case (entry, s) of ((table, member), constructs, targets, generic) \<Rightarrow>
     if \<not> has_anonymous_scope_map member then
       map_res (\<lambda>found. (constructs, targets, generic \<or> found)) (holds_anonymous_node member st)
     else
       bnd (load plans table) (\<lambda>plan.
       case validate_scope_mapped_composite_table member plan maximum st of
         Inr (kind, _, target) \<Rightarrow>
           map_res (\<lambda>constructs'. (constructs', targets @ [(table, target)], generic)) (store constructs table (Some kind))
       | Inl e \<Rightarrow> if e = Unsupported then Inr (constructs, targets, True) else Inl e))"

definition compare_targets :: "usize \<times> bytes \<Rightarrow> usize \<times> bytes \<Rightarrow> ordering" where
  "compare_targets left right = cmp (snd left, fst left) (snd right, fst right)"

fun adjacent_targets_differ :: "(usize \<times> bytes) list \<Rightarrow> bool" where
  "adjacent_targets_differ (a # b # rest) \<longleftrightarrow> snd a \<noteq> snd b \<and> adjacent_targets_differ (b # rest)"
| "adjacent_targets_differ _ \<longleftrightarrow> True"

definition rank_targets :: "nat \<Rightarrow> (usize \<times> bytes) list \<Rightarrow> usize list \<Rightarrow> usize list kres" where
  "rank_targets st targets positions =
     bnd (cancellable_sort_unstable_by st compare_targets targets) (\<lambda>ranked.
     seq (reject_if (\<not> adjacent_targets_differ ranked) Malformed) (
     fold_res (\<lambda>(position, table, _) positions. store positions table position) (enumerate 0 ranked) positions))"

text \<open>The constructs of the mapped members and their positions. One member outside the bounded shape makes
  the whole composite generic: no construct is left.\<close>

definition scope_constructs :: "overlay_allocator \<Rightarrow> direct_columns list \<Rightarrow> selected_root_rule_plan list \<Rightarrow> usize \<Rightarrow> nat
    \<Rightarrow> (scope_mapped_composite_kind option list \<times> usize list) owning" where
  "scope_constructs env cs plans maximum st =
     (let nowhere = replicate (length cs) None; unranked = replicate (length cs) 0 in
      mseq (reserve_all env [(Own_Scope_Construct, length cs), (Own_Usize, length cs)]) (
      if \<not> (\<exists>c \<in> set cs. has_anonymous_scope_map c) then mret (nowhere, unranked) else
      mseq (reserve_owned env Own_Scope_Target (length cs)) (
      mbnd (mlift (fold_res (scope_member plans maximum st) (enumerate 0 cs) (nowhere, [], False)))
        (\<lambda>(constructs, targets, generic).
      if generic then mret (nowhere, unranked)
      else mlift (map_res (Pair constructs) (rank_targets st targets unranked))))))"

section \<open>Node slots\<close>

definition add_member_nodes :: "direct_columns \<Rightarrow> usize list \<times> usize \<times> usize \<Rightarrow> (usize list \<times> usize \<times> usize) kres" where
  "add_member_nodes c s = (case s of (offsets, slot_total, maximum_nodes) \<Rightarrow>
     bnd (ok_or Resource (checked_add (node_count c) 1)) (\<lambda>slots.
     map_res (\<lambda>next_offset. (offsets @ [next_offset], next_offset, max maximum_nodes (node_count c)))
       (ok_or Resource (checked_add slot_total slots))))"

definition node_slots :: "overlay_allocator \<Rightarrow> direct_columns list \<Rightarrow> (usize list \<times> usize) owning" where
  "node_slots env cs =
     mbnd (mlift (ok_or Resource (checked_add (length cs) 1))) (\<lambda>offset_count.
     mseq (reserve_owned env Own_Usize offset_count) (
     mbnd (mlift (fold_res add_member_nodes cs ([0], 0, 0))) (\<lambda>(offsets, slot_total, maximum_nodes).
     mseq (reserve_all env [(Own_Bool, slot_total), (Own_Bool, slot_total), (Own_Usize, maximum_nodes)]) (mret (offsets, slot_total)))))"

section \<open>Tail roots\<close>

record dynamic_tail_root_plan =
  plan_table :: usize
  plan_root_index :: usize
  plan_node :: usize
  plan_rule :: root_rule
  plan_shape :: "planned_root_shape option"
  plan_scan_index :: usize
  merged_canonical_index :: usize

definition plan_tail_root :: "direct_compile_options \<Rightarrow> bool \<Rightarrow> direct_columns \<Rightarrow> selected_root_rule_plan \<Rightarrow> nat
    \<Rightarrow> usize \<Rightarrow> usize \<Rightarrow> dynamic_tail_root_plan list \<Rightarrow> dynamic_tail_root_plan list kres" where
  "plan_tail_root options rooted c plan st table root_index plans =
     seq (check_cancel st root_index) (
     bnd (root_is_selected c root_index) (\<lambda>chosen.
     if \<not> chosen then Inr plans else
     bnd (root_id c root_index) (\<lambda>root.
     bnd (rule_at plan root_index) (\<lambda>rule.
     seq (reject_if (include_literals options \<and> literal_policy rule = RootScopedAnnotation \<and>
            disposition rule options = LiteralConditional \<and> \<not> rooted) Unsupported) (
     Inr (plans @ [\<lparr>plan_table = table, plan_root_index = root_index, plan_node = root, plan_rule = rule,
        plan_shape = shape_at plan root_index, plan_scan_index = USIZE_MAX, merged_canonical_index = USIZE_MAX\<rparr>]))))))"

definition plan_tail_member :: "direct_compile_options \<Rightarrow> bool \<Rightarrow> selected_root_rule_plan list \<Rightarrow> nat
    \<Rightarrow> usize \<times> direct_columns \<Rightarrow> dynamic_tail_root_plan list \<Rightarrow> dynamic_tail_root_plan list kres" where
  "plan_tail_member options rooted plans st entry tail = (case entry of (table, c) \<Rightarrow>
     if table = 0 then Inr tail else
     bnd (load plans table) (\<lambda>plan.
     fold_res (plan_tail_root options rooted c plan st table) [0 ..< root_count c] tail))"

text \<open>The number of tail roots, and where the plan entries of each member start.\<close>

definition tail_offsets :: "usize list \<Rightarrow> (usize \<times> usize list) kres" where
  "tail_offsets selected_counts =
     fold_res (\<lambda>n (offset, offsets). map_res (\<lambda>offset'. (offset', offsets @ [offset])) (ok_or Resource (checked_add offset n)))
       (tl selected_counts) (0, [0])"

definition plan_tail :: "overlay_allocator \<Rightarrow> direct_compile_options \<Rightarrow> bool \<Rightarrow> direct_columns list
    \<Rightarrow> selected_root_rule_plan list \<Rightarrow> nat \<Rightarrow> (usize list \<times> dynamic_tail_root_plan list) owning" where
  "plan_tail env options rooted cs plans st =
     mbnd (mlift (tail_offsets (map plan_selected plans))) (\<lambda>(tail_root_count, offsets).
     mseq (reserve_all env [(Own_Tail_Plan, tail_root_count), (Own_Usize, length cs)]) (
     mbnd (mlift (fold_res (plan_tail_member options rooted plans st) (enumerate 0 cs) [])) (\<lambda>tail_plans.
     if length tail_plans \<noteq> tail_root_count then mlift (Inl Malformed) else mret (offsets, tail_plans))))"

end
