(* ===== verification/Composite_Merge.thy ===== *)
theory Composite_Merge
  imports Composite_Setup
begin

text \<open>
  The merge loop of \<open>prepare_dynamic_composite_batches_with_root_uncommitted\<close>. A group holds the roots of
  all tables with one canonical key; its first closure occurrence represents it. The group contributes its
  role effect and its reachable nodes once, and the first occurrence outside the base is the one that is
  placed, unless the base has the root.
\<close>

record composite_input =
  closure_columns :: "direct_columns list"
  composite_rooted :: bool
  composite_options :: direct_compile_options
  closure_plans :: "selected_root_rule_plan list"
  root_plans :: "selected_root_rule_plan list"
  node_offsets :: "usize list"
  plan_offsets :: "usize list"

record composite_merge =
  global_role_rows :: "role_axiom list"
  global_role_axiom_count :: usize
  global_subrole_axioms :: usize
  global_inverse_axioms :: usize
  global_property_chains :: usize
  composite_reachable :: "bool list"
  composite_axiom_reachable :: "bool list"
  annotation_roots :: "composite_root_coordinate list"
  consumed_roots :: "usize list"
  root_consumed :: "usize list"
  selected_base_roots :: usize
  unique_tail_roots :: usize
  deduplicated_tail_roots :: usize
  root_occurrences :: usize
  closure_annotation_assertions :: usize
  base_scan :: usize
  canonical_index :: usize
  tail_plans :: "dynamic_tail_root_plan list"

definition composite_merge_start :: "composite_input \<Rightarrow> usize \<Rightarrow> dynamic_tail_root_plan list \<Rightarrow> composite_merge" where
  "composite_merge_start ctx node_slot_total plans = (let members = length (closure_columns ctx) in
     \<lparr>global_role_rows = [], global_role_axiom_count = 0, global_subrole_axioms = 0, global_inverse_axioms = 0,
      global_property_chains = 0, composite_reachable = replicate node_slot_total False,
      composite_axiom_reachable = replicate node_slot_total False, annotation_roots = [],
      consumed_roots = replicate members 0, root_consumed = (if composite_rooted ctx then replicate members 0 else []),
      selected_base_roots = 0, unique_tail_roots = 0, deduplicated_tail_roots = 0, root_occurrences = 0,
      closure_annotation_assertions = 0, base_scan = 0, canonical_index = 0, tail_plans = plans\<rparr>)"

section \<open>The representative\<close>

fun representative_of :: "root_ref option list \<Rightarrow> usize list \<Rightarrow> (usize \<times> root_ref) option kres" where
  "representative_of roots [] = Inr None"
| "representative_of roots (table # rest) = bnd (load roots table) (\<lambda>entry. case entry of
     Some root \<Rightarrow> Inr (Some (table, root))
   | None \<Rightarrow> representative_of roots rest)"

text \<open>The error for a group that only the ROOT selection has.\<close>

definition other_than_annotation :: "composite_input \<Rightarrow> root_ref option list \<Rightarrow> usize \<Rightarrow> bool kres" where
  "other_than_annotation ctx roots table =
     bnd (load roots (length (closure_columns ctx) + table)) (\<lambda>entry. case entry of
       None \<Rightarrow> Inr False
     | Some root \<Rightarrow> bnd (load (root_plans ctx) table) (\<lambda>plan.
         map_res (\<lambda>rule. handler rule \<noteq> HandleAnnotationAssertion) (rule_at plan (ref_index root))))"

definition absent_from_closure :: "composite_input \<Rightarrow> root_ref option list \<Rightarrow> 'a kres" where
  "absent_from_closure ctx roots =
     bnd (exists_res (other_than_annotation ctx roots) [0 ..< length (root_plans ctx)]) (\<lambda>other.
     Inl (if composite_rooted ctx \<and> \<not> other then Unsupported else Malformed))"

section \<open>What a group contributes\<close>

definition count_role_effect :: "root_rule \<Rightarrow> planned_role_effect option \<Rightarrow> composite_merge \<Rightarrow> composite_merge kres" where
  "count_role_effect rule planned s = (case (role_effect rule, planned) of
     (NoRoleEffect, None) \<Rightarrow> Inr s
   | (SubPropertyOrChain, Some PropertyChainEffect) \<Rightarrow>
       bnd (bump global_role_axiom_count global_role_axiom_count_update s)
         (bump global_property_chains global_property_chains_update)
   | (SubPropertyOrChain, Some (RowEffect row)) \<Rightarrow>
       bnd (bump global_role_axiom_count global_role_axiom_count_update s) (\<lambda>s1.
       map_res (\<lambda>s2. s2\<lparr>global_role_rows := global_role_rows s2 @
           [row\<lparr>ra_canonical_order := canonical_index s2, ra_source_order := 1\<rparr>]\<rparr>)
         (bump global_subrole_axioms global_subrole_axioms_update s1))
   | (InverseProperties, Some (RowEffect row)) \<Rightarrow>
       bnd (bump global_role_axiom_count global_role_axiom_count_update s) (\<lambda>s1.
       map_res (\<lambda>s2. s2\<lparr>global_role_rows := global_role_rows s2 @
           [row\<lparr>ra_canonical_order := canonical_index s2, ra_source_order := 1\<rparr>]\<rparr>)
         (bump global_inverse_axioms global_inverse_axioms_update s1))
   | _ \<Rightarrow> Inl Malformed)"

definition bump_at :: "usize list \<Rightarrow> usize \<Rightarrow> usize list kres" where
  "bump_at counts i = bnd (load counts i) (\<lambda>n. bnd (ok_or Resource (checked_add n 1)) (store counts i))"

definition root_occurrence :: "composite_input \<Rightarrow> root_ref option list \<Rightarrow> root_ref \<Rightarrow> root_rule \<Rightarrow> usize
    \<Rightarrow> bool \<times> composite_merge \<Rightarrow> (bool \<times> composite_merge) kres" where
  "root_occurrence ctx roots representative rule table s = (case s of (found, m) \<Rightarrow>
     bnd (load roots (length (closure_columns ctx) + table)) (\<lambda>entry. case entry of
       None \<Rightarrow> Inr (found, m)
     | Some root \<Rightarrow>
         bnd (load roots table) (\<lambda>closure_entry.
         seq (reject_if (closure_entry = None) Malformed) (
         bnd (bump root_occurrences root_occurrences_update m) (\<lambda>m1.
         bnd (bump_at (root_consumed m1) table) (\<lambda>counts.
         seq (reject_if (ref_kind root \<noteq> ref_kind representative) Malformed) (
         bnd (load (root_plans ctx) table) (\<lambda>plan.
         bnd (rule_at plan (ref_index root)) (\<lambda>root_rule.
         seq (reject_if (root_rule \<noteq> rule) Malformed) (Inr (True, m1\<lparr>root_consumed := counts\<rparr>)))))))))))"

definition root_occurrence_all :: "composite_input \<Rightarrow> root_ref option list \<Rightarrow> root_ref \<Rightarrow> root_rule \<Rightarrow> composite_merge
    \<Rightarrow> (bool \<times> composite_merge) kres" where
  "root_occurrence_all ctx roots representative rule m =
     (if composite_rooted ctx
      then fold_res (root_occurrence ctx roots representative rule) [0 ..< length (root_consumed m)] (False, m)
      else Inr (False, m))"

text \<open>The slots of one member in the flat marks of all.\<close>

definition mark_member :: "composite_input \<Rightarrow> usize \<Rightarrow> usize \<Rightarrow> nat \<Rightarrow> bool list \<Rightarrow> bool list kres" where
  "mark_member ctx table node st marks =
     bnd (load (closure_columns ctx) table) (\<lambda>c.
     bnd (load (node_offsets ctx) table) (\<lambda>start.
     bnd (load (node_offsets ctx) (table + 1)) (\<lambda>stop.
     bnd (ok_or Panicked (get_range marks start stop)) (\<lambda>own.
     map_res (\<lambda>own'. take start marks @ own' @ drop stop marks) (mark_root_reachable c node own st)))))"

definition mark_group :: "composite_input \<Rightarrow> usize \<Rightarrow> usize \<Rightarrow> root_rule \<Rightarrow> nat \<Rightarrow> composite_merge \<Rightarrow> composite_merge kres" where
  "mark_group ctx table node rule st s =
     bnd (mark_member ctx table node st (composite_reachable s)) (\<lambda>marks.
     map_res (\<lambda>axiom_marks. s\<lparr>composite_reachable := marks, composite_axiom_reachable := axiom_marks\<rparr>)
       (if anonymous_scope_policy rule = AxiomDerived
        then mark_member ctx table node st (composite_axiom_reachable s) else Inr (composite_axiom_reachable s)))"

definition note_annotation :: "composite_input \<Rightarrow> usize \<Rightarrow> root_ref \<Rightarrow> root_rule \<Rightarrow> bool \<Rightarrow> composite_merge
    \<Rightarrow> composite_merge kres" where
  "note_annotation ctx table root rule root_selected s =
     (if literal_policy rule \<noteq> RootScopedAnnotation then Inr s else
      let options = composite_options ctx in
      bnd (bump closure_annotation_assertions closure_annotation_assertions_update s) (\<lambda>s1.
      seq (reject_if (include_literals options \<and> \<not> asserted_taxonomy_only options \<and> \<not> composite_rooted ctx) Unsupported) (
      Inr (if root_selected then s1\<lparr>annotation_roots := annotation_roots s1 @
             [\<lparr>root_table = table, coordinate_root_index = ref_index root, coordinate_root_node = root_node root,
               coordinate_root_kind = ref_kind root, coordinate_tag = rule_tag rule,
               root_canonical_order = canonical_index s1\<rparr>]\<rparr> else s1))))"

definition take_base :: "root_ref option \<Rightarrow> composite_merge \<Rightarrow> composite_merge kres" where
  "take_base base_root s = (case base_root of
     None \<Rightarrow> Inr s
   | Some root \<Rightarrow>
       bnd (bump selected_base_roots selected_base_roots_update s) (\<lambda>s1.
       bnd (ok_or Resource (checked_add (ref_index root) 1)) (\<lambda>scan.
       map_res (\<lambda>counts. s1\<lparr>base_scan := scan, consumed_roots := counts\<rparr>) (bump_at (consumed_roots s1) 0))))"

section \<open>The occurrences outside the base\<close>

definition take_tail :: "composite_input \<Rightarrow> root_ref option list \<Rightarrow> root_rule \<Rightarrow> usize \<Rightarrow> bool \<times> composite_merge
    \<Rightarrow> (bool \<times> composite_merge) kres" where
  "take_tail ctx roots rule table s = (case s of (retained_tail, m) \<Rightarrow>
     bnd (load roots table) (\<lambda>entry. case entry of
       None \<Rightarrow> Inr (retained_tail, m)
     | Some root \<Rightarrow>
         bnd (load (plan_offsets ctx) table) (\<lambda>offset.
         bnd (load (consumed_roots m) table) (\<lambda>taken.
         bnd (ok_or Resource (checked_add offset taken)) (\<lambda>plan_index.
         bnd (ok_or Malformed (get_at (tail_plans m) plan_index)) (\<lambda>plan.
         seq (reject_if (plan_table plan \<noteq> table \<or> plan_root_index plan \<noteq> ref_index root \<or>
                plan_node plan \<noteq> root_node root \<or> plan_rule plan \<noteq> rule) Malformed) (
         bnd (if retained_tail then
                map_res (Pair (plan\<lparr>plan_scan_index := DEDUPLICATED_OVERLAY_SCAN_INDEX\<rparr>))
                  (bump deduplicated_tail_roots deduplicated_tail_roots_update m)
              else
                map_res (Pair (plan\<lparr>plan_scan_index := base_scan m, merged_canonical_index := canonical_index m\<rparr>))
                  (bump unique_tail_roots unique_tail_roots_update m)) (\<lambda>(plan', m1).
         map_res (\<lambda>counts. (True, m1\<lparr>tail_plans := (tail_plans m1)[plan_index := plan'], consumed_roots := counts\<rparr>))
           (bump_at (consumed_roots m1) table)))))))))"

section \<open>One group\<close>

definition composite_step :: "composite_input \<Rightarrow> nat \<Rightarrow> root_ref option list \<Rightarrow> composite_merge \<Rightarrow> composite_merge kres" where
  "composite_step ctx st roots s = (let members = length (closure_columns ctx) in
     bnd (representative_of roots [0 ..< members]) (\<lambda>found. case found of
       None \<Rightarrow> absent_from_closure ctx roots
     | Some (table, root) \<Rightarrow>
         bnd (load (closure_plans ctx) table) (\<lambda>plan.
         bnd (rule_at plan (ref_index root)) (\<lambda>rule.
         bnd (role_effect_at plan (ref_index root)) (\<lambda>planned.
         bnd (count_role_effect rule planned s) (\<lambda>s1.
         bnd (root_occurrence_all ctx roots root rule s1) (\<lambda>(root_selected, s2).
         bnd (mark_group ctx table (root_node root) rule st s2) (\<lambda>s3.
         bnd (note_annotation ctx table root rule root_selected s3) (\<lambda>s4.
         bnd (load roots 0) (\<lambda>base_root.
         bnd (take_base base_root s4) (\<lambda>s5.
         bnd (fold_res (take_tail ctx roots rule) [1 ..< members] (base_root \<noteq> None, s5)) (\<lambda>(_, s6).
         bump canonical_index canonical_index_update s6))))))))))))"

end
