(* ===== verification/Composite_Preparation.thy ===== *)
theory Composite_Preparation
  imports Composite_Merge
begin

text \<open>
  The rest of \<open>prepare_dynamic_composite_batches_with_root_uncommitted\<close>: the coordinates of the classes
  and anonymous individuals of all members, the consistency checks after the merge, the deltas of the
  placed roots, and the preparation of the base with everything the other members add.
\<close>

section \<open>Coordinates\<close>

type_synonym coordinate_scan = "usize \<times> usize \<times> composite_node_coordinate list \<times> composite_node_coordinate list"

definition marked_with_tag :: "bool list \<Rightarrow> usize \<Rightarrow> direct_columns \<Rightarrow> usize \<Rightarrow> nat \<Rightarrow> bool kres" where
  "marked_with_tag marks slot c node_id expected =
     bnd (load marks slot) (\<lambda>marked.
     if marked then map_res (\<lambda>tag. tag = expected) (node_tag c node_id) else Inr False)"

definition push_class_node :: "direct_columns \<Rightarrow> usize \<Rightarrow> usize \<Rightarrow> bool \<Rightarrow> usize \<times> composite_node_coordinate list
    \<Rightarrow> (usize \<times> composite_node_coordinate list) kres" where
  "push_class_node c table node_id is_entity s = (case s of (next_order, class_nodes) \<Rightarrow>
     if \<not> is_entity then Inr s else
     bnd (entity c node_id) (\<lambda>(kind, _).
     if kind \<noteq> ''class'' then Inr s else
     map_res (\<lambda>next_order'. (next_order', class_nodes @
         [\<lparr>node_table = table, coordinate_node = node_id, node_canonical_order = next_order\<rparr>]))
       (ok_or Resource (checked_add next_order 1))))"

definition coordinate_step :: "composite_merge \<Rightarrow> direct_columns \<Rightarrow> nat \<Rightarrow> usize \<Rightarrow> usize \<Rightarrow> usize \<Rightarrow> coordinate_scan
    \<Rightarrow> coordinate_scan kres" where
  "coordinate_step m c st table offset node_id s = (case s of (work, next_order, class_nodes, anonymous) \<Rightarrow>
     seq (check_cancel st work) (
     bnd (ok_or Resource (checked_add work 1)) (\<lambda>work'.
     bnd (marked_with_tag (composite_reachable m) (offset + node_id) c node_id TAG_ENTITY) (\<lambda>is_entity.
     bnd (push_class_node c table node_id is_entity (next_order, class_nodes)) (\<lambda>(next_order', class_nodes').
     map_res (\<lambda>is_anonymous. (work', next_order', class_nodes', if is_anonymous then anonymous @
         [\<lparr>node_table = table, coordinate_node = node_id, node_canonical_order = USIZE_MAX\<rparr>] else anonymous))
       (marked_with_tag (composite_axiom_reachable m) (offset + node_id) c node_id TAG_ANONYMOUS_INDIVIDUAL))))))"

definition coordinate_member :: "composite_input \<Rightarrow> composite_merge \<Rightarrow> nat \<Rightarrow> usize \<times> direct_columns \<Rightarrow> coordinate_scan
    \<Rightarrow> coordinate_scan kres" where
  "coordinate_member ctx m st entry s = (case entry of (table, c) \<Rightarrow>
     bnd (load (node_offsets ctx) table) (\<lambda>offset.
     fold_res (coordinate_step m c st table offset) [1 ..< node_count c + 1] s))"

section \<open>The merge and its checks\<close>

definition composite_inconsistent :: "composite_input \<Rightarrow> composite_merge \<Rightarrow> canonical_budget \<Rightarrow> bool kres" where
  "composite_inconsistent ctx s report = (let selected_counts = map plan_selected (closure_plans ctx) in
     bnd (ok_or Resource (checked_add (deduplicated_tail_roots s) (root_occurrences s))) (\<lambda>expected_duplicates.
     if consumed_roots s \<noteq> selected_counts \<or> root_consumed s \<noteq> map plan_selected (root_plans ctx) \<or>
        selected_base_roots s \<noteq> hd selected_counts \<or> deduplicated_roots report \<noteq> expected_duplicates
     then Inr True
     else map_res (\<lambda>n. roots_emitted report \<noteq> n)
       (ok_or Resource (checked_add (selected_base_roots s) (unique_tail_roots s)))))"

record composite_merged =
  merged_composite :: composite_merge
  merged_class_nodes :: "composite_node_coordinate list"
  merged_anonymous_nodes :: "composite_node_coordinate list"
  unique_anonymous :: usize

definition finish_merge :: "composite_input \<Rightarrow> nat \<Rightarrow> composite_merge \<Rightarrow> kway_merger \<Rightarrow> composite_merged metered" where
  "finish_merge ctx st s merger =
     mbnd (mlift (fold_res (coordinate_member ctx s st) (enumerate 0 (closure_columns ctx)) (0, 0, [], [])))
       (\<lambda>(_, _, class_nodes, anonymous).
     mbnd (assign_anonymous_positions st merger anonymous) (\<lambda>(anonymous', unique).
     mbnd (\<lambda>report. (composite_inconsistent ctx s report, report)) (\<lambda>inconsistent.
     if inconsistent then mlift (Inl Malformed)
     else mret \<lparr>merged_composite = s, merged_class_nodes = class_nodes, merged_anonymous_nodes = anonymous',
                unique_anonymous = unique\<rparr>)))"

definition maximum_role_axioms :: "selected_root_rule_plan list \<Rightarrow> usize kres" where
  "maximum_role_axioms plans =
     fold_res (\<lambda>plan n. bnd (role_axioms (plan_counts plan)) (\<lambda>axioms. ok_or Resource (checked_add n axioms))) plans 0"

definition merge_composite :: "canonical_allocator \<Rightarrow> composite_input \<Rightarrow> direct_columns list \<Rightarrow> nat \<Rightarrow> usize \<Rightarrow> usize kres
    \<Rightarrow> composite_merge \<Rightarrow> composite_merged kres" where
  "merge_composite cenv ctx merge_columns st canonical_work remaining start =
     bnd remaining (\<lambda>merge_workspace.
     bnd (merge_tables cenv st canonical_work merge_workspace merge_columns) (\<lambda>(merger, budget).
     fst (mbnd (merge_groups cenv st (composite_step ctx st) merger start) (\<lambda>(s, merger'). finish_merge ctx st s merger') budget)))"

text \<open>Everything between the plan of the tail and the end of the merge.\<close>

definition run_composite_merge :: "overlay_allocator \<Rightarrow> canonical_allocator \<Rightarrow> composite_input \<Rightarrow> direct_columns list \<Rightarrow> nat
    \<Rightarrow> usize \<Rightarrow> usize \<Rightarrow> dynamic_tail_root_plan list \<Rightarrow> composite_merged owning" where
  "run_composite_merge env cenv ctx merge_columns st max_canonical_work node_slot_total plans =
     (let members = length (closure_columns ctx) in
      mbnd (mlift (bnd (sort_work (length plans)) (work_after_sort max_canonical_work))) (\<lambda>canonical_work.
      mseq (reserve_owned env Own_Usize members) (
      mseq (if composite_rooted ctx then reserve_owned env Own_Usize members else mret ()) (
      mbnd (mlift (maximum_role_axioms (closure_plans ctx))) (\<lambda>maximum_axioms.
      mseq (reserve_owned env Own_Role_Row maximum_axioms)
        (\<lambda>w. (merge_composite cenv ctx merge_columns st canonical_work (remaining_for_canonical_merge w)
                 (composite_merge_start ctx node_slot_total plans), w)))))))"

definition composite_role_state :: "direct_compile_options \<Rightarrow> owned_role_state option \<Rightarrow> nat \<Rightarrow> composite_merge
    \<Rightarrow> role_state kres" where
  "composite_role_state options retained st s =
     bnd (ok_or Resource (checked_add (length (global_role_rows s)) (global_property_chains s))) (\<lambda>n.
     seq (reject_if (n \<noteq> global_role_axiom_count s) Malformed) (
     if asserted_taxonomy_only options then Inr role_state_default
     else build_role_state_from_rows (global_role_rows s) (global_role_axiom_count s) (global_subrole_axioms s)
            (global_inverse_axioms s) retained (max_iri_bytes options) st))"

section \<open>The deltas of the tail\<close>

definition compare_tail_plans :: "dynamic_tail_root_plan \<Rightarrow> dynamic_tail_root_plan \<Rightarrow> ordering" where
  "compare_tail_plans left right = cmp (merged_canonical_index left) (merged_canonical_index right)"

definition placed_tail :: "nat \<Rightarrow> composite_merge \<Rightarrow> dynamic_tail_root_plan list kres" where
  "placed_tail st s =
     bnd (cancellable_retain st (\<lambda>plan. plan_scan_index plan \<noteq> DEDUPLICATED_OVERLAY_SCAN_INDEX) (tail_plans s)) (\<lambda>kept.
     bnd (cancellable_sort_unstable_by st compare_tail_plans kept) (\<lambda>placed.
     if length placed \<noteq> unique_tail_roots s then Inl Malformed else Inr placed))"

type_synonym owned_tail = "owned_overlay_delta list \<times> owned_local_object_property_class list"

definition own_tail_class :: "overlay_allocator \<Rightarrow> dynamic_tail_root_plan \<Rightarrow> owned_local_object_property_class list
    \<Rightarrow> owned_local_object_property_class list owning" where
  "own_tail_class env plan classes =
     (if handler (plan_rule plan) \<noteq> HandleObjectPropertyClass then mret classes else
      mbnd (mlift (ok_or Malformed (kind_from_effect (domain_range_effect (plan_rule plan))))) (\<lambda>kind.
      case plan_shape plan of
        Some (ObjectPropertyClassShape None) \<Rightarrow> mret classes
      | Some (ObjectPropertyClassShape (Some (property, class_iri))) \<Rightarrow>
          mbnd (mlift (ok_or Resource (checked_add (plan_scan_index plan) (length classes)))) (\<lambda>position.
          mbnd (ws_clone_text env property) (\<lambda>owned_property.
          mbnd (ws_clone_text env class_iri) (\<lambda>owned_class.
          mret (classes @ [\<lparr>local_kind = kind, local_property = owned_property, local_class = owned_class,
                  insertion_position = position\<rparr>]))))
      | _ \<Rightarrow> mlift (Inl Malformed)))"

definition own_tail_root :: "overlay_allocator \<Rightarrow> composite_input \<Rightarrow> scope_mapped_composite_kind option list \<Rightarrow> usize list
    \<Rightarrow> composite_node_coordinate list \<Rightarrow> nat \<Rightarrow> usize \<times> dynamic_tail_root_plan \<Rightarrow> owned_tail \<Rightarrow> owned_tail owning" where
  "own_tail_root env ctx constructs positions anonymous st entry s = (case (entry, s) of ((plan_index, plan), deltas, classes) \<Rightarrow>
     mseq (mlift (check_cancel st plan_index)) (
     mbnd (mlift (load (closure_columns ctx) (plan_table plan))) (\<lambda>c.
     mbnd (mlift (load constructs (plan_table plan))) (\<lambda>construct.
     mbnd (mlift (load positions (plan_table plan))) (\<lambda>position.
     mbnd (mlift (load (closure_plans ctx) (plan_table plan))) (\<lambda>rule_plan.
     mbnd (own_tail_class env plan classes) (\<lambda>classes'.
     mbnd (own_composite_tail_projection env (plan_rule plan) (plan_shape plan) rule_plan (plan_root_index plan) c
             (plan_node plan) (max_iri_bytes (composite_options ctx)) st
             \<lparr>tail_construct = (if has_anonymous_scope_map c then map_option (\<lambda>k. (k, position)) construct else None),
              tail_table = plan_table plan, tail_anonymous_nodes = anonymous\<rparr>) (\<lambda>projection.
     mret (deltas @ [\<lparr>delta_projection = projection, insertion_scan_index = plan_scan_index plan,
             local_canonical_index = merged_canonical_index plan\<rparr>], classes')))))))))"

definition own_tail :: "overlay_allocator \<Rightarrow> composite_input \<Rightarrow> scope_mapped_composite_kind option list \<Rightarrow> usize list
    \<Rightarrow> composite_merged \<Rightarrow> nat \<Rightarrow> owned_tail owning" where
  "own_tail env ctx constructs positions merged st = (let s = merged_composite merged in
     mbnd (mlift (placed_tail st s)) (\<lambda>placed.
     mseq (reserve_overlay_deltas env (unique_tail_roots s)) (
     mseq (reserve_owned env Own_Local_Class (unique_tail_roots s)) (
     mbnd (mfold (own_tail_root env ctx constructs positions (merged_anonymous_nodes merged) st) (enumerate 0 placed) ([], []))
       (\<lambda>(deltas, classes).
     mlift (map_res (\<lambda>plan. (plan, classes)) (canonicalize_overlay_delta_plan st deltas)))))))"

end
