(* ===== verification/Composite_Batches.thy ===== *)
theory Composite_Batches
  imports Composite_Preparation
begin

text \<open>
  The whole of \<open>prepare_dynamic_composite_batches_with_root_uncommitted\<close>: the base is prepared with the
  role state of all members, the blank nodes get their global positions, and the statistics count what the
  other members add.
\<close>

section \<open>Blank nodes of the base\<close>

definition base_single_position :: "direct_columns \<Rightarrow> scope_mapped_composite_kind option list \<Rightarrow> usize list
    \<Rightarrow> anonymous_ids \<Rightarrow> anonymous_ids kres" where
  "base_single_position base constructs positions ids =
     bnd (load constructs 0) (\<lambda>construct.
     if construct = Some ScopePositiveObject \<and> has_anonymous_scope_map base then
       seq (reject_if (length (node_ids ids) \<noteq> 1) Malformed) (
       map_res (\<lambda>p. ids\<lparr>single_position := Some p\<rparr>) (load positions 0))
     else Inr ids)"

definition base_global_positions :: "overlay_allocator \<Rightarrow> composite_node_coordinate list \<Rightarrow> nat \<Rightarrow> anonymous_ids
    \<Rightarrow> anonymous_ids owning" where
  "base_global_positions env coordinates st ids =
     (if node_ids ids = [] then mret ids else
      mseq (reserve_owned env Own_Usize (length (node_ids ids))) (
      mlift (map_res (\<lambda>positions. ids\<lparr>single_position := None, global_positions := Some positions\<rparr>)
        (fold_res (\<lambda>(index, node_id) positions.
            seq (check_cancel st index) (
            map_res (\<lambda>p. positions @ [p]) (composite_anonymous_position coordinates 0 node_id)))
          (enumerate 0 (node_ids ids)) []))))"

definition place_base_anonymous :: "overlay_allocator \<Rightarrow> direct_columns \<Rightarrow> scope_mapped_composite_kind option list
    \<Rightarrow> usize list \<Rightarrow> composite_node_coordinate list \<Rightarrow> nat \<Rightarrow> prepared_direct_batches \<Rightarrow> prepared_direct_batches owning" where
  "place_base_anonymous env base constructs positions coordinates st prepared = (let prep = preparation prepared in
     mbnd (mlift (base_single_position base constructs positions (prep_anonymous_ids prep))) (\<lambda>ids.
     mbnd (base_global_positions env coordinates st ids) (\<lambda>ids'.
     mret (prepared\<lparr>preparation := prep\<lparr>prep_anonymous_ids := ids'\<rparr>\<rparr>))))"

section \<open>Statistics\<close>

definition add_tail_tables :: "(direct_columns \<Rightarrow> usize kres) \<Rightarrow> (direct_compile_stats \<Rightarrow> usize)
    \<Rightarrow> ((usize \<Rightarrow> usize) \<Rightarrow> direct_compile_stats \<Rightarrow> direct_compile_stats) \<Rightarrow> nat \<Rightarrow> direct_columns list
    \<Rightarrow> direct_compile_stats \<Rightarrow> direct_compile_stats kres" where
  "add_tail_tables measure_table read update st cs =
     fold_res (\<lambda>(table, c) s.
         if table = 0 then Inr s else
         seq (check_cancel st table) (bnd (measure_table c) (\<lambda>n. add_stat read update n s)))
       (enumerate 0 cs)"

definition root_provenance_bytes :: "direct_columns list \<Rightarrow> usize kres" where
  "root_provenance_bytes cs =
     fold_res (\<lambda>c n. bnd (buffer_bytes c) (\<lambda>bytes. ok_or Resource (checked_add n bytes))) cs 0"

definition global_statistics :: "composite_merged \<Rightarrow> direct_columns list option \<Rightarrow> annotation_edge_counts_t
    \<Rightarrow> direct_compile_stats \<Rightarrow> direct_compile_stats kres" where
  "global_statistics merged root_columns annotations stats = (let s = merged_composite merged in
     bnd (ok_or Resource (checked_add (global_subrole_axioms s) (global_property_chains s))) (\<lambda>sub_properties.
     map_res (\<lambda>bytes. stats\<lparr>stat_sub_object_properties := sub_properties,
         stat_object_property_chains := global_property_chains s,
         stat_inverse_object_properties := global_inverse_axioms s,
         stat_annotation_assertions := closure_annotation_assertions s,
         stat_selected_annotation_assertions :=
           (if root_columns \<noteq> None then length (annotation_roots s) else closure_annotation_assertions s),
         stat_annotation_edges := ac_edges annotations,
         stat_non_string_literal_renderings := ac_non_string_literals annotations,
         stat_anonymous_individuals := unique_anonymous merged,
         stat_root_provenance_buffer_bytes := bytes\<rparr>)
       (case root_columns of None \<Rightarrow> Inr (stat_root_provenance_buffer_bytes stats) | Some cs \<Rightarrow> root_provenance_bytes cs)))"

definition composite_statistics :: "direct_columns list \<Rightarrow> direct_columns list option \<Rightarrow> direct_compile_options \<Rightarrow> nat
    \<Rightarrow> composite_merged \<Rightarrow> owned_overlay_delta list \<Rightarrow> annotation_edge_counts_t \<Rightarrow> usize \<Rightarrow> usize \<times> usize \<times> usize
    \<Rightarrow> usize \<Rightarrow> direct_compile_stats \<Rightarrow> direct_compile_stats kres" where
  "composite_statistics cs root_columns options st merged deltas annotations projection_expansion classes projected s =
     (case classes of (additional, _, class_expansion) \<Rightarrow>
     bnd (add_stat stat_roots stat_roots_update (unique_tail_roots (merged_composite merged)) s) (\<lambda>s1.
     bnd (add_tail_tables (\<lambda>c. Inr (node_count c)) stat_nodes stat_nodes_update st cs s1) (\<lambda>s2.
     bnd (apply_delta_statistics options st deltas s2) (\<lambda>s3.
     bnd (global_statistics merged root_columns annotations s3) (\<lambda>s4.
     bnd (add_stat stat_role_expansion_edges stat_role_expansion_edges_update projection_expansion s4) (\<lambda>s5.
     bnd (add_stat stat_role_expansion_edges stat_role_expansion_edges_update class_expansion s5) (\<lambda>s6.
     bnd (add_stat stat_domain_range_edges stat_domain_range_edges_update additional s6) (\<lambda>s7.
     add_tail_tables buffer_bytes stat_buffer_bytes stat_buffer_bytes_update st cs (s7\<lparr>stat_edges := projected\<rparr>)))))))))"

definition composite_annotation_counts :: "composite_input \<Rightarrow> composite_merged \<Rightarrow> nat \<Rightarrow> annotation_edge_counts_t kres" where
  "composite_annotation_counts ctx merged st = (let options = composite_options ctx in
     if composite_rooted ctx \<and> include_literals options \<and> \<not> asserted_taxonomy_only options
     then composite_annotation_edge_counts (closure_columns ctx) (annotation_roots (merged_composite merged))
            (merged_class_nodes merged) (max_iri_bytes options) st
     else Inr annotation_edge_counts_default)"

definition finish_composite :: "composite_input \<Rightarrow> direct_columns list option \<Rightarrow> nat \<Rightarrow> composite_merged
    \<Rightarrow> owned_overlay_delta list \<Rightarrow> prepared_direct_batches \<Rightarrow> prepared_direct_batches kres" where
  "finish_composite ctx root_columns st merged deltas prepared =
     (let prep = preparation prepared; options = composite_options ctx in
     bnd (composite_annotation_counts ctx merged st) (\<lambda>annotations.
     bnd (count_deltas (prep_role_state prep) options st deltas) (\<lambda>(projection_edges, projection_expansion).
     bnd (count_local_classes prep options st) (\<lambda>classes.
     bnd (ok_or Resource (Option.bind (Option.bind (checked_add (stat_edges (prep_statistics prep)) projection_edges)
            (\<lambda>n. checked_add n (fst (snd classes)))) (\<lambda>n. checked_add n (ac_edges annotations)))) (\<lambda>projected.
     seq (reject_if (projected > max_edges_option options) Resource) (
     map_res (\<lambda>s. prepared\<lparr>preparation := prep\<lparr>prep_statistics := s,
         prep_options := (if asserted_taxonomy_only options then options\<lparr>include_literals := False\<rparr> else options),
         prep_composite_annotation_roots := annotation_roots (merged_composite merged),
         prep_composite_class_nodes := merged_class_nodes merged,
         prep_composite_anonymous_nodes := merged_anonymous_nodes merged, prep_overlay_deltas := deltas\<rparr>\<rparr>)
       (composite_statistics (closure_columns ctx) root_columns options st merged deltas annotations projection_expansion
          classes projected (prep_statistics prep))))))))"

section \<open>The preparation\<close>

text \<open>Members and plans, in the order of the reservations of the code.\<close>

definition plan_composite :: "overlay_allocator \<Rightarrow> direct_columns list \<Rightarrow> direct_columns list option
    \<Rightarrow> direct_compile_options \<Rightarrow> nat \<Rightarrow> (selected_root_rule_plan list \<times> usize \<times> selected_root_rule_plan list) owning" where
  "plan_composite env cs root_columns options st =
     (let members = length cs; rooted = (root_columns \<noteq> None); maximum = max_iri_bytes options in
      mseq (reserve_all env ((Own_Rule_Plan, members) # (if rooted then [(Own_Rule_Plan, members)] else []) @
              (Own_Usize, members) # (if rooted then [(Own_Usize, members)] else []))) (
      mbnd (plan_closure env maximum st cs) (\<lambda>(plans, selected_total).
      mbnd (case root_columns of None \<Rightarrow> mret [] | Some roots \<Rightarrow> plan_roots env maximum st roots) (\<lambda>chosen_plans.
      mseq (if \<not> rooted then mret ()
            else mbnd (mlift (ok_or Resource (checked_mul members 2))) (reserve_owned env Own_Columns)) (
      mret (plans, selected_total, chosen_plans))))))"

definition prepare_composite_base :: "overlay_allocator \<Rightarrow> composite_input \<Rightarrow> nat \<Rightarrow> owned_role_state option \<Rightarrow> role_state
    \<Rightarrow> owned_local_object_property_class list \<Rightarrow> prepared_direct_batches owning" where
  "prepare_composite_base env ctx st retained roles classes =
     (let options = composite_options ctx;
          base_options = (if composite_rooted ctx then options\<lparr>include_literals := False\<rparr> else options) in
      mbnd (mlift (load (closure_columns ctx) 0)) (\<lambda>base.
      mbnd (mlift (load (closure_plans ctx) 0)) (\<lambda>base_plan.
      mbnd (mlift (prepare_direct_batches_with_local_role_uncommitted base None base_options st retained (Some roles)
              (Some base_plan) None)) (\<lambda>(prepared, _).
      attach_classes env base st classes prepared))))"

definition prepare_composite :: "overlay_allocator \<Rightarrow> canonical_allocator \<Rightarrow> direct_columns list \<Rightarrow> direct_columns list option
    \<Rightarrow> direct_compile_options \<Rightarrow> nat \<Rightarrow> owned_role_state option \<Rightarrow> usize \<Rightarrow> prepared_direct_batches owning" where
  "prepare_composite env cenv cs root_columns options st retained max_canonical_work =
     mbnd (plan_composite env cs root_columns options st) (\<lambda>(plans, selected_total, chosen_plans).
     mbnd (scope_constructs env cs plans (max_iri_bytes options) st) (\<lambda>(constructs, positions).
     mseq (mlift (reject_if (selected_total = 0) Unsupported)) (
     mbnd (node_slots env cs) (\<lambda>(slot_offsets, slot_total).
     mseq (reserve_all env [(Own_Root_Coordinate, selected_total), (Own_Node_Coordinate, slot_total), (Own_Node_Coordinate, slot_total)]) (
     mbnd (plan_tail env options (root_columns \<noteq> None) cs plans st) (\<lambda>(offsets, tail).
     let ctx = \<lparr>closure_columns = cs, composite_rooted = (root_columns \<noteq> None), composite_options = options,
                closure_plans = plans, root_plans = chosen_plans, node_offsets = slot_offsets, plan_offsets = offsets\<rparr> in
     mbnd (run_composite_merge env cenv ctx (cs @ (case root_columns of None \<Rightarrow> [] | Some roots \<Rightarrow> roots)) st
             max_canonical_work slot_total tail) (\<lambda>merged.
     mbnd (mlift (composite_role_state options retained st (merged_composite merged))) (\<lambda>roles.
     mbnd (own_tail env ctx constructs positions merged st) (\<lambda>(deltas, classes).
     mbnd (prepare_composite_base env ctx st retained roles classes) (\<lambda>prepared.
     mbnd (mlift (load cs 0)) (\<lambda>base.
     mbnd (place_base_anonymous env base constructs positions (merged_anonymous_nodes merged) st prepared) (\<lambda>placed.
     mlift (finish_composite ctx root_columns st merged deltas placed)))))))))))))"

definition prepare_dynamic_composite_batches_with_root_uncommitted :: "overlay_allocator \<Rightarrow> canonical_allocator
    \<Rightarrow> direct_columns list \<Rightarrow> direct_columns list option \<Rightarrow> direct_compile_options \<Rightarrow> nat \<Rightarrow> owned_role_state option
    \<Rightarrow> usize \<Rightarrow> usize \<Rightarrow> prepared_direct_batches kres" where
  "prepare_dynamic_composite_batches_with_root_uncommitted env cenv cs root_columns options st retained max_canonical_work
       max_canonical_workspace_bytes =
     seq (reject_if (length cs < 2) Unsupported) (
     seq (reject_if (case root_columns of None \<Rightarrow> False | Some roots \<Rightarrow> length roots \<noteq> length cs) Malformed) (
     bnd (workspace_new max_canonical_workspace_bytes) (\<lambda>w.
     fst (prepare_composite env cenv cs root_columns options st retained max_canonical_work w))))"

definition prepare_dynamic_composite_batches_uncommitted :: "overlay_allocator \<Rightarrow> canonical_allocator
    \<Rightarrow> direct_columns list \<Rightarrow> direct_compile_options \<Rightarrow> nat \<Rightarrow> owned_role_state option \<Rightarrow> usize \<Rightarrow> usize
    \<Rightarrow> prepared_direct_batches kres" where
  "prepare_dynamic_composite_batches_uncommitted env cenv cs options st retained max_canonical_work
       max_canonical_workspace_bytes =
     prepare_dynamic_composite_batches_with_root_uncommitted env cenv cs None options st retained max_canonical_work
       max_canonical_workspace_bytes"

end
