(* ===== verification/Composite_Placement.thy ===== *)
theory Composite_Placement
  imports Overlay_Placement Composite_Batches Kway_Roots
begin

text \<open>
  Where the merge puts the roots of the members of a composite after the base. The loop of
  \<open>prepare_dynamic_composite_batches_with_root_uncommitted\<close> keeps in step with the merger: what each
  member has consumed, the rank of the current group among the groups of the closure, the scan position
  in the base, and a plan entry placed for every consumed root.
\<close>

section \<open>Loops over groups\<close>

lemma merge_groups_invariant:
  assumes "merge_groups env st body m s b = (Inr (s', m'), b')" and "I m s" and "kway_ok m"
    and step: "\<And>m b roots m' b' s s'. kway_ok m \<Longrightarrow> I m s \<Longrightarrow> kway_next env st m b = (Inr (Some roots, m'), b') \<Longrightarrow>
      body roots s = Inr s' \<Longrightarrow> I m' s'"
  shows "\<exists>m'. I m' s' \<and> (\<forall>i < length (kway_tables m'). table_remaining m' i = [])"
  using assms(1-3)
proof (induction "work_left b" arbitrary: m s b rule: less_induct)
  case less
  obtain r b1 where n: "kway_next env st m b = (r, b1)" by fastforce
  show ?case
  proof (cases r)
    case (Inl e)
    with less.prems(1) n show ?thesis by (simp add: merge_groups.simps [of env st body m s b])
  next
    case (Inr res)
    obtain found m1 where res: "res = (found, m1)" by fastforce
    note n = n [unfolded Inr res]
    show ?thesis
    proof (cases found)
      case None
      with kway_next_step(3) [OF less.prems(3) n] have "\<forall>i < length (kway_tables m). table_remaining m i = []" by simp
      moreover from less.prems(1) n None have "s' = s" by (simp add: merge_groups.simps [of env st body m s b])
      ultimately show ?thesis using less.prems(2) by blast
    next
      case (Some roots)
      with less.prems(1) n obtain s1 where "body roots s = Inr s1"
        and "merge_groups env st body m1 s1 b1 = (Inr (s', m'), b')"
        by (auto simp: merge_groups.simps [of env st body m s b] split: sum.splits)
      with less.hyps [OF kway_next_progress [OF n [unfolded Some]]] step [OF less.prems(3,2) n [unfolded Some]]
        kway_next_step(1) [OF less.prems(3) n]
      show ?thesis by blast
    qed
  qed
qed

lemma fold_res_upt:
  assumes "fold_res f [a ..< n] s = Inr t" and "a \<le> n" and "P a s"
    and "\<And>i s s'. a \<le> i \<Longrightarrow> i < n \<Longrightarrow> P i s \<Longrightarrow> f i s = Inr s' \<Longrightarrow> P (Suc i) s'"
  shows "P n t"
proof -
  from fold_res_trace [OF assms(1,2)] obtain S where S: "S a = s" "S n = t" "\<forall>i \<in> {a ..< n}. f i (S i) = Inr (S (Suc i))"
    by blast
  have "P i (S i)" if "a \<le> i" "i \<le> n" for i
    using that
  proof (induction i rule: dec_induct)
    case (step i)
    with S(3) assms(4) [of i "S i" "S (Suc i)"] show ?case by simp
  qed (use S(1) assms(3) in simp)
  with assms(2) S(2) show ?thesis by blast
qed

section \<open>What one group changes\<close>

text \<open>Role effects, reachable nodes, annotations and ROOT occurrences leave the placement alone.\<close>

definition placement :: "composite_merge \<Rightarrow> usize list \<times> usize \<times> usize \<times> dynamic_tail_root_plan list" where
  "placement s = (consumed_roots s, base_scan s, canonical_index s, tail_plans s)"

lemma role_effect_keeps: "count_role_effect rule planned s = Inr s' \<Longrightarrow> placement s' = placement s"
  by (auto simp: count_role_effect_def bump_def placement_def res_simps
      split: root_role_effect.splits option.splits planned_role_effect.splits)

lemma root_occurrence_keeps:
  "root_occurrence ctx roots representative rule table (found, s) = Inr (found', s') \<Longrightarrow> placement s' = placement s"
  by (auto simp: root_occurrence_def bump_def placement_def res_simps split: option.splits)

lemma root_occurrence_all_keeps:
  "root_occurrence_all ctx roots representative rule s = Inr (found, s') \<Longrightarrow> placement s' = placement s"
  unfolding root_occurrence_all_def
  by (auto split: if_splits dest!: fold_res_invariant [where P = "\<lambda>p. placement (snd p) = placement s"]
      dest: root_occurrence_keeps)

lemma mark_group_keeps: "mark_group ctx table node rule st s = Inr s' \<Longrightarrow> placement s' = placement s"
  by (auto simp: mark_group_def placement_def res_simps split: if_splits)

lemma note_annotation_keeps: "note_annotation ctx table root rule chosen s = Inr s' \<Longrightarrow> placement s' = placement s"
  by (auto simp: note_annotation_def bump_def placement_def res_simps Let_def split: if_splits)

lemma take_base_effect:
  assumes "take_base base_root s = Inr s'"
  shows "canonical_index s' = canonical_index s" and "tail_plans s' = tail_plans s"
    and "base_root = None \<Longrightarrow> base_scan s' = base_scan s \<and> consumed_roots s' = consumed_roots s"
    and "base_root = Some root \<Longrightarrow> base_scan s' = ref_index root + 1 \<and> 0 < length (consumed_roots s) \<and>
      consumed_roots s' = (consumed_roots s)[0 := consumed_roots s ! 0 + 1]"
  using assms by (auto simp: take_base_def bump_def bump_at_def res_simps split: option.splits)

lemma take_tail_effect:
  assumes "take_tail ctx roots rule t (flag, s) = Inr (flag', s')"
  shows "t < length roots" and "base_scan s' = base_scan s" and "canonical_index s' = canonical_index s"
    and "roots ! t = None \<Longrightarrow> flag' = flag \<and> s' = s"
    and "roots ! t = Some r \<Longrightarrow> flag' \<and> t < length (consumed_roots s) \<and>
      consumed_roots s' = (consumed_roots s)[t := consumed_roots s ! t + 1] \<and>
      (\<exists>i p. i = plan_offsets ctx ! t + consumed_roots s ! t \<and> i < length (tail_plans s) \<and> p = tail_plans s ! i \<and>
         plan_table p = t \<and> plan_root_index p = ref_index r \<and>
         tail_plans s' = (tail_plans s)[i := (if flag then p\<lparr>plan_scan_index := DEDUPLICATED_OVERLAY_SCAN_INDEX\<rparr>
           else p\<lparr>plan_scan_index := base_scan s, merged_canonical_index := canonical_index s\<rparr>)])"
  using assms by (auto simp: take_tail_def bump_def bump_at_def res_simps get_at_def split: option.splits if_splits)

lemma composite_step_Inr:
  assumes "composite_step ctx st roots s = Inr s'"
  obtains table root rule s5 flag s6 where
    "representative_of roots [0 ..< length (closure_columns ctx)] = Inr (Some (table, root))"
    and "0 < length roots" and "\<exists>s4. placement s4 = placement s \<and> take_base (roots ! 0) s4 = Inr s5"
    and "fold_res (take_tail ctx roots rule) [1 ..< length (closure_columns ctx)] (roots ! 0 \<noteq> None, s5) = Inr (flag, s6)"
    and "consumed_roots s' = consumed_roots s6" and "base_scan s' = base_scan s6"
    and "canonical_index s' = canonical_index s6 + 1" and "tail_plans s' = tail_plans s6"
proof -
  from assms obtain table root where rep: "representative_of roots [0 ..< length (closure_columns ctx)] = Inr (Some (table, root))"
    by (auto simp: composite_step_def Let_def bnd_eq_Inr absent_from_closure_def split: option.splits)
  from assms rep obtain rule planned s1 chosen s2 s3 s4 base_root s5 flag s6 where
    k: "count_role_effect rule planned s = Inr s1" "root_occurrence_all ctx roots root rule s1 = Inr (chosen, s2)"
      "mark_group ctx table (root_node root) rule st s2 = Inr s3" "note_annotation ctx table root rule chosen s3 = Inr s4"
    and base: "load roots 0 = Inr base_root" "take_base base_root s4 = Inr s5"
    and tail: "fold_res (take_tail ctx roots rule) [1 ..< length (closure_columns ctx)] (base_root \<noteq> None, s5) = Inr (flag, s6)"
    and s': "bump canonical_index canonical_index_update s6 = Inr s'"
    unfolding composite_step_def Let_def rep
    by (simp only: bnd_Inr bnd_eq_Inr split_paired_Ex prod.case option.case) blast
  from k have "placement s4 = placement s"
    using role_effect_keeps root_occurrence_all_keeps mark_group_keeps note_annotation_keeps by metis
  moreover from base have "0 < length roots" "base_root = roots ! 0" by (auto simp: load_eq_Inr)
  ultimately show thesis using that [OF rep, of s5 rule flag s6] base(2) tail s' by (auto simp: bump_def res_simps)
qed

lemma representative_found:
  assumes "representative_of roots ts = Inr (Some (t, r))"
  shows "t \<in> set ts \<and> t < length roots \<and> roots ! t = Some r"
  using assms by (induction ts) (auto simp: bnd_eq_Inr load_eq_Inr split: option.splits)

section \<open>The invariant\<close>

definition closure_keys :: "direct_columns list \<Rightarrow> (nat \<times> nat list) list" where
  "closure_keys cs = remdups (concat (map selected_keys cs))"

text \<open>A plan entry of a placed root: deduplicated if an earlier member has its key, and otherwise at its
  scan position in the base, with its rank among the keys of the closure.\<close>

definition tail_placed :: "direct_columns list \<Rightarrow> dynamic_tail_root_plan \<Rightarrow> bool" where
  "tail_placed cs p \<longleftrightarrow> (let t = plan_table p; key = root_key (cs ! t) (plan_root_index p) in
     if key \<in> set (concat (map selected_keys (take t cs))) then plan_scan_index p = DEDUPLICATED_OVERLAY_SCAN_INDEX
     else scan_fits (hd cs) key (plan_scan_index p) \<and>
       merged_canonical_index p = length (filter (\<lambda>k. k < key) (closure_keys cs)))"

definition entry_placed :: "composite_input \<Rightarrow> dynamic_tail_root_plan list \<Rightarrow> usize \<Rightarrow> usize \<Rightarrow> bool" where
  "entry_placed ctx plans t i \<longleftrightarrow> (let cs = closure_columns ctx; x = plan_offsets ctx ! t + i in
     x < length plans \<and> plan_table (plans ! x) = t \<and>
     root_key (cs ! t) (plan_root_index (plans ! x)) = selected_keys (cs ! t) ! i \<and> tail_placed cs (plans ! x))"

definition keys_to_come :: "nat \<Rightarrow> kway_merger \<Rightarrow> (nat \<times> nat list) set" where
  "keys_to_come n m = (\<Union>t < n. set (table_remaining m t))"

definition tables_of :: "direct_columns list \<Rightarrow> kway_merger \<Rightarrow> bool" where
  "tables_of cs m \<longleftrightarrow> length cs \<le> length (kway_tables m) \<and> (\<forall>t < length cs. columns (kway_tables m ! t) = cs ! t)"

definition in_step :: "direct_columns list \<Rightarrow> kway_merger \<Rightarrow> composite_merge \<Rightarrow> bool" where
  "in_step cs m s \<longleftrightarrow> length (consumed_roots s) = length cs \<and>
     (\<forall>t < length cs. consumed_roots s ! t \<le> length (selected_keys (cs ! t)) \<and>
        table_remaining m t = drop (consumed_roots s ! t) (selected_keys (cs ! t)))"

definition consumed_keys :: "direct_columns list \<Rightarrow> composite_merge \<Rightarrow> (nat \<times> nat list) set" where
  "consumed_keys cs s = (\<Union>t < length cs. set (take (consumed_roots s ! t) (selected_keys (cs ! t))))"

definition ranked :: "direct_columns list \<Rightarrow> kway_merger \<Rightarrow> composite_merge \<Rightarrow> bool" where
  "ranked cs m s \<longleftrightarrow> (\<forall>k \<in> consumed_keys cs s. \<forall>k' \<in> keys_to_come (length cs) m. k < k') \<and>
     canonical_index s = card (consumed_keys cs s)"

definition composite_placed :: "composite_input \<Rightarrow> kway_merger \<Rightarrow> composite_merge \<Rightarrow> bool" where
  "composite_placed ctx m s \<longleftrightarrow> (let cs = closure_columns ctx; n = length cs in
     tables_of cs m \<and> in_step cs m s \<and> ranked cs m s \<and>
     scan_splits (cs ! 0) (table_remaining m 0) (keys_to_come n m) (base_scan s) \<and>
     (\<forall>t < n. 0 < t \<longrightarrow> (\<forall>i < consumed_roots s ! t. entry_placed ctx (tail_plans s) t i)))"

section \<open>One group keeps the invariant\<close>

text \<open>The group of a key, seen by the members of the closure.\<close>

definition takes :: "direct_columns list \<Rightarrow> kway_merger \<Rightarrow> root_ref option list \<Rightarrow> kway_merger \<Rightarrow> nat \<times> nat list \<Rightarrow> bool" where
  "takes cs m roots m' k \<longleftrightarrow> length cs \<le> length roots \<and> (\<forall>t < length cs. case roots ! t of
     None \<Rightarrow> table_remaining m' t = table_remaining m t \<and> (\<forall>k' \<in> set (table_remaining m t). k < k')
   | Some r \<Rightarrow> root_read (cs ! t) r \<and> root_key (cs ! t) (ref_index r) = k \<and> table_remaining m t = k # table_remaining m' t)"

lemma takesD:
  assumes "takes cs m roots m' k" and "t < length cs"
  shows "roots ! t = None \<Longrightarrow> table_remaining m' t = table_remaining m t \<and> (\<forall>k' \<in> set (table_remaining m t). k < k')"
    and "roots ! t = Some r \<Longrightarrow> root_read (cs ! t) r \<and> root_key (cs ! t) (ref_index r) = k \<and>
      table_remaining m t = k # table_remaining m' t"
  using assms by (auto simp: takes_def dest!: spec [of _ t] split: option.splits)

lemma kway_next_takes:
  assumes ok: "kway_ok m" and t: "tables_of cs m" and n: "kway_next env st m b = (Inr (Some roots, m'), b')"
  obtains k where "takes cs m roots m' k" and "tables_of cs m'"
proof -
  from kway_next_step(4) [OF ok n refl] obtain k where g: "group_ok (\<lambda>i. columns (kway_tables m ! i)) (length (kway_tables m))
      (table_remaining m) k roots (table_remaining m')" by blast
  have "takes cs m roots m' k"
    unfolding takes_def
  proof (intro conjI allI impI)
    show "length cs \<le> length roots" using g t by (simp add: group_ok_def tables_of_def)
    fix i assume i: "i < length cs"
    with t have c: "i < length (kway_tables m)" "columns (kway_tables m ! i) = cs ! i" by (auto simp: tables_of_def)
    show "case roots ! i of
       None \<Rightarrow> table_remaining m' i = table_remaining m i \<and> (\<forall>k' \<in> set (table_remaining m i). k < k')
     | Some r \<Rightarrow> root_read (cs ! i) r \<and> root_key (cs ! i) (ref_index r) = k \<and> table_remaining m i = k # table_remaining m' i"
      using g c by (auto simp: group_ok_def root_read_key dest!: spec [of _ i] split: option.splits)
  qed
  moreover have "tables_of cs m'" using t kway_next_step(2) [OF ok n] by (simp add: tables_of_def)
  ultimately show thesis by (rule that)
qed

lemma takes_ascending:
  assumes ok: "kway_ok m" and t: "tables_of cs m" and g: "takes cs m roots m' k"
  shows "k' \<in> keys_to_come (length cs) m' \<Longrightarrow> k < k'"
    and "keys_to_come (length cs) m' \<subseteq> keys_to_come (length cs) m"
    and "k' \<in> keys_to_come (length cs) m \<Longrightarrow> k' = k \<or> k' \<in> keys_to_come (length cs) m'"
proof -
  have one: "(\<forall>k' \<in> set (table_remaining m' i). k < k') \<and> set (table_remaining m' i) \<subseteq> set (table_remaining m i) \<and>
      set (table_remaining m i) \<subseteq> insert k (set (table_remaining m' i))" if i: "i < length cs" for i
  proof -
    from t i have "i < length (kway_tables m)" by (simp add: tables_of_def)
    note asc = table_remaining_ascending [OF ok this]
    show ?thesis using takesD [OF g i] asc by (cases "roots ! i") auto
  qed
  then show "k' \<in> keys_to_come (length cs) m' \<Longrightarrow> k < k'" "keys_to_come (length cs) m' \<subseteq> keys_to_come (length cs) m"
    "k' \<in> keys_to_come (length cs) m \<Longrightarrow> k' = k \<or> k' \<in> keys_to_come (length cs) m'"
    unfolding keys_to_come_def by blast+
qed

text \<open>A member with a root in the group consumes the key, and no member has consumed it before.\<close>

lemma taken_position:
  assumes s: "in_step cs m s" and g: "takes cs m roots m' k" and t: "t < length cs" and r: "roots ! t = Some r"
  shows "consumed_roots s ! t < length (selected_keys (cs ! t))" and "selected_keys (cs ! t) ! (consumed_roots s ! t) = k"
    and "table_remaining m' t = drop (consumed_roots s ! t + 1) (selected_keys (cs ! t))"
    and "k \<in> keys_to_come (length cs) m"
proof -
  have d: "drop (consumed_roots s ! t) (selected_keys (cs ! t)) = k # table_remaining m' t"
    using s t takesD(2) [OF g t r] by (simp add: in_step_def)
  show "consumed_roots s ! t < length (selected_keys (cs ! t))" using d by (metis drop_all list.distinct(1) not_le)
  show "selected_keys (cs ! t) ! (consumed_roots s ! t) = k" using d by (rule nth_via_drop)
  show "table_remaining m' t = drop (consumed_roots s ! t + 1) (selected_keys (cs ! t))"
    using d by (metis Suc_eq_plus1 drop_Suc list.sel(3) tl_drop)
  show "k \<in> keys_to_come (length cs) m" using takesD(2) [OF g t r] t unfolding keys_to_come_def by fastforce
qed

lemma closure_split:
  assumes "in_step cs m s"
  shows "set (closure_keys cs) = consumed_keys cs s \<union> keys_to_come (length cs) m"
proof -
  have "set (selected_keys (cs ! t)) = set (take (consumed_roots s ! t) (selected_keys (cs ! t))) \<union> set (table_remaining m t)"
    if "t < length cs" for t
    using assms that by (simp add: in_step_def set_append [symmetric] del: set_append)
  moreover have "set (closure_keys cs) = (\<Union>t < length cs. set (selected_keys (cs ! t)))"
  proof -
    have "set cs = (!) cs ` {..< length cs}" by (auto simp: set_conv_nth)
    then show ?thesis by (simp add: closure_keys_def)
  qed
  ultimately show ?thesis by (auto simp: consumed_keys_def keys_to_come_def)
qed

lemma rank_of_group:
  assumes s: "in_step cs m s" and r: "ranked cs m s" and k: "k \<in> keys_to_come (length cs) m"
    and least: "\<And>k'. k' \<in> keys_to_come (length cs) m \<Longrightarrow> k \<le> k'"
  shows "canonical_index s = length (filter (\<lambda>x. x < k) (closure_keys cs))"
proof -
  have "set (filter (\<lambda>x. x < k) (closure_keys cs)) = consumed_keys cs s"
    using r k least by (auto simp: closure_split [OF s] ranked_def not_less dest: leD)
  moreover have "distinct (filter (\<lambda>x. x < k) (closure_keys cs))" by (simp add: closure_keys_def)
  ultimately show ?thesis using r distinct_card unfolding ranked_def by metis
qed

lemma key_in_earlier:
  assumes ok: "kway_ok m" and tb: "tables_of cs m" and s: "in_step cs m s" and r: "ranked cs m s" and g: "takes cs m roots m' k"
    and k: "k \<in> keys_to_come (length cs) m" and t: "t < length cs"
  shows "k \<in> set (selected_keys (cs ! t)) \<longleftrightarrow> roots ! t \<noteq> None"
proof (cases "roots ! t")
  case None
  have "k \<notin> set (table_remaining m t)" using takesD(1) [OF g t None] by auto
  moreover have "k \<notin> set (take (consumed_roots s ! t) (selected_keys (cs ! t)))"
    using r k t by (auto simp: ranked_def consumed_keys_def)
  moreover have "table_remaining m t = drop (consumed_roots s ! t) (selected_keys (cs ! t))" using s t by (simp add: in_step_def)
  ultimately have "k \<notin> set (selected_keys (cs ! t))" by (metis Un_iff append_take_drop_id set_append)
  with None show ?thesis by simp
next
  case (Some x)
  from taken_position(1,2) [OF s g t Some] have "k \<in> set (selected_keys (cs ! t))" by auto
  with Some show ?thesis by simp
qed

text \<open>The fold over the members after the base, up to member \<open>t\<close>.\<close>

definition half_placed :: "composite_input \<Rightarrow> root_ref option list \<Rightarrow> composite_merge \<Rightarrow> usize \<Rightarrow> nat \<Rightarrow> bool \<times> composite_merge \<Rightarrow> bool" where
  "half_placed ctx roots s scan t p \<longleftrightarrow> (case p of (flag, s') \<Rightarrow>
     (flag \<longleftrightarrow> (\<exists>i < t. roots ! i \<noteq> None)) \<and> base_scan s' = scan \<and> canonical_index s' = canonical_index s \<and>
     length (consumed_roots s') = length (closure_columns ctx) \<and>
     (\<forall>i < length (closure_columns ctx).
        consumed_roots s' ! i = consumed_roots s ! i + (if i < t \<and> roots ! i \<noteq> None then 1 else 0) \<and>
        (0 < i \<longrightarrow> (\<forall>j < consumed_roots s' ! i. entry_placed ctx (tail_plans s') i j))))"

lemma half_placed_step:
  assumes inv: "half_placed ctx roots s scan t (flag, s1)" and f: "take_tail ctx roots rule t (flag, s1) = Inr (flag', s2)"
    and t: "0 < t" "t < length (closure_columns ctx)"
    and placed: "\<And>r p. roots ! t = Some r \<Longrightarrow> plan_table p = t \<Longrightarrow> plan_root_index p = ref_index r \<Longrightarrow>
      plan_scan_index p = (if flag then DEDUPLICATED_OVERLAY_SCAN_INDEX else scan) \<Longrightarrow>
      (\<not> flag \<Longrightarrow> merged_canonical_index p = canonical_index s) \<Longrightarrow>
      root_key (closure_columns ctx ! t) (ref_index r) = selected_keys (closure_columns ctx ! t) ! (consumed_roots s ! t) \<and>
      tail_placed (closure_columns ctx) p"
  shows "half_placed ctx roots s scan (Suc t) (flag', s2)"
proof (cases "roots ! t")
  case None
  with take_tail_effect(4) [OF f] inv show ?thesis by (auto simp: half_placed_def less_Suc_eq)
next
  case (Some r)
  let ?cs = "closure_columns ctx" and ?x = "plan_offsets ctx ! t + consumed_roots s1 ! t"
  note effect = take_tail_effect(5) [OF f Some] take_tail_effect(2,3) [OF f]
  from inv have c: "consumed_roots s1 ! t = consumed_roots s ! t" and l: "length (consumed_roots s1) = length ?cs"
    using t by (auto simp: half_placed_def nth_list_update)
  from effect(1) obtain p where x: "?x < length (tail_plans s1)" and p: "p = tail_plans s1 ! ?x" "plan_table p = t"
      "plan_root_index p = ref_index r"
    and plans: "tail_plans s2 = (tail_plans s1)[?x := (if flag then p\<lparr>plan_scan_index := DEDUPLICATED_OVERLAY_SCAN_INDEX\<rparr>
           else p\<lparr>plan_scan_index := base_scan s1, merged_canonical_index := canonical_index s1\<rparr>)]"
    and consumed: "consumed_roots s2 = (consumed_roots s1)[t := consumed_roots s1 ! t + 1]" and flag': "flag'" by blast
  have fields: "base_scan s1 = scan" "canonical_index s1 = canonical_index s" using inv by (simp_all add: half_placed_def)
  have new: "entry_placed ctx (tail_plans s2) t (consumed_roots s1 ! t)"
    using placed [OF Some, of "tail_plans s2 ! ?x"] x p by (simp add: entry_placed_def Let_def plans fields c)
  have old: "entry_placed ctx (tail_plans s2) i j" if "entry_placed ctx (tail_plans s1) i j" "i \<noteq> t \<or> j \<noteq> consumed_roots s1 ! t" for i j
  proof -
    have "plan_offsets ctx ! i + j \<noteq> ?x" using that p by (auto simp: entry_placed_def Let_def)
    with that(1) show ?thesis by (simp add: entry_placed_def Let_def plans)
  qed
  have "consumed_roots s2 ! i = consumed_roots s ! i + (if i < Suc t \<and> roots ! i \<noteq> None then 1 else 0) \<and>
      (0 < i \<longrightarrow> (\<forall>j < consumed_roots s2 ! i. entry_placed ctx (tail_plans s2) i j))" if i: "i < length ?cs" for i
  proof (cases "i = t")
    case True
    with inv i new old Some c l show ?thesis by (auto simp: half_placed_def consumed less_Suc_eq)
  next
    case False
    with inv i old l show ?thesis by (auto simp: half_placed_def consumed less_Suc_eq)
  qed
  with inv flag' effect(2,3) Some l show ?thesis by (auto simp: half_placed_def consumed less_Suc_eq)
qed

lemma tail_placed_group:
  assumes ok: "kway_ok m" and tb: "tables_of cs m" and s: "in_step cs m s" and rk: "ranked cs m s"
    and scan: "scan_splits (cs ! 0) (table_remaining m 0) (keys_to_come (length cs) m) (base_scan s)"
    and g: "takes cs m roots m' k" and t: "0 < t" "t < length cs" and r: "roots ! t = Some r"
    and p: "plan_table p = t" "plan_root_index p = ref_index r"
      "plan_scan_index p = (if flag then DEDUPLICATED_OVERLAY_SCAN_INDEX else scan')"
      "\<not> flag \<Longrightarrow> merged_canonical_index p = canonical_index s"
    and flag: "flag \<longleftrightarrow> (\<exists>i < t. roots ! i \<noteq> None)" and same: "roots ! 0 = None \<Longrightarrow> scan' = base_scan s"
  shows "root_key (cs ! t) (ref_index r) = selected_keys (cs ! t) ! (consumed_roots s ! t) \<and> tail_placed cs p"
proof -
  note pos = taken_position [OF s g t(2) r] and asc = takes_ascending [OF ok tb g]
  have key: "root_key (cs ! t) (ref_index r) = k" using takesD(2) [OF g t(2) r] by simp
  have "set (concat (map selected_keys (take t cs))) = (\<Union>i < t. set (selected_keys (cs ! i)))"
  proof -
    have "set (take t cs) = (!) cs ` {..< t}" using nth_image [of t cs] t by (simp add: atLeast0LessThan)
    then show ?thesis by simp
  qed
  then have early: "k \<in> set (concat (map selected_keys (take t cs))) \<longleftrightarrow> flag"
    using key_in_earlier [OF ok tb s rk g pos(4)] t(2) flag by auto
  have "tail_placed cs p"
  proof (cases flag)
    case True
    with early p key show ?thesis by (simp add: tail_placed_def Let_def)
  next
    case False
    with flag t(1) have base: "roots ! 0 = None" by blast
    from t have 0: "0 < length cs" by linarith
    have "scan_fits (cs ! 0) k (base_scan s)"
      using scan_splits_fits(1) [OF scan pos(4)] takesD(1) [OF g 0 base] by simp
    moreover have "canonical_index s = length (filter (\<lambda>x. x < k) (closure_keys cs))"
      using asc(1,3) by (intro rank_of_group [OF s rk pos(4)]) (metis order.strict_implies_order order_refl)
    moreover have "hd cs = cs ! 0" using 0 by (simp add: hd_conv_nth)
    ultimately show ?thesis using False early p key same [OF base] by (simp add: tail_placed_def Let_def)
  qed
  with key pos(2) show ?thesis by simp
qed

lemma in_step_taken:
  assumes s: "in_step cs m s" and g: "takes cs m roots m' k" and l: "length (consumed_roots s') = length cs"
    and c: "\<And>t. t < length cs \<Longrightarrow> consumed_roots s' ! t = consumed_roots s ! t + (if roots ! t \<noteq> None then 1 else 0)"
  shows "in_step cs m' s'"
    and "\<exists>t < length cs. roots ! t \<noteq> None \<Longrightarrow> consumed_keys cs s' = insert k (consumed_keys cs s)"
proof -
  have one: "consumed_roots s' ! t \<le> length (selected_keys (cs ! t)) \<and>
      table_remaining m' t = drop (consumed_roots s' ! t) (selected_keys (cs ! t)) \<and>
      set (take (consumed_roots s' ! t) (selected_keys (cs ! t))) =
        (if roots ! t = None then {} else {k}) \<union> set (take (consumed_roots s ! t) (selected_keys (cs ! t)))"
    if t: "t < length cs" for t
  proof (cases "roots ! t")
    case None
    with c [OF t] takesD(1) [OF g t None] s t show ?thesis by (simp add: in_step_def)
  next
    case (Some r)
    with c [OF t] taken_position [OF s g t Some] show ?thesis by (simp add: take_Suc_conv_app_nth)
  qed
  then show "in_step cs m' s'" using l by (simp add: in_step_def)
  show "consumed_keys cs s' = insert k (consumed_keys cs s)" if "\<exists>t < length cs. roots ! t \<noteq> None"
    using that one by (auto simp: consumed_keys_def split: if_splits)
qed

lemma ranked_taken:
  assumes rk: "ranked cs m s" and k: "k \<in> keys_to_come (length cs) m"
    and c: "consumed_keys cs s' = insert k (consumed_keys cs s)" "canonical_index s' = canonical_index s + 1"
    and less: "\<And>k'. k' \<in> keys_to_come (length cs) m' \<Longrightarrow> k < k'" "keys_to_come (length cs) m' \<subseteq> keys_to_come (length cs) m"
  shows "ranked cs m' s'"
proof -
  have "finite (consumed_keys cs s)" by (simp add: consumed_keys_def)
  moreover have "k \<notin> consumed_keys cs s" using rk k by (auto simp: ranked_def)
  ultimately show ?thesis using rk less unfolding ranked_def c(1) c(2) by (metis insertE subsetD card_insert_disjoint Suc_eq_plus1)
qed

lemma scan_taken:
  assumes ok: "kway_ok m" and tb: "tables_of cs m" and tb': "tables_of cs m'" and g: "takes cs m roots m' k" and c: "0 < length cs"
    and inv: "scan_splits (cs ! 0) (table_remaining m 0) (keys_to_come (length cs) m) (base_scan s)"
    and e: "roots ! 0 = None \<Longrightarrow> scan = base_scan s" "\<And>r. roots ! 0 = Some r \<Longrightarrow> scan = ref_index r + 1"
  shows "scan_splits (cs ! 0) (table_remaining m' 0) (keys_to_come (length cs) m') scan"
proof (cases "roots ! 0")
  case None
  with inv takesD(1) [OF g c None] takes_ascending(2) [OF ok tb g] e(1) show ?thesis by (auto elim: scan_splits_keep)
next
  case (Some r)
  note r = takesD(2) [OF g c Some]
  from tb tb' c have t: "columns (kway_tables m ! 0) = cs ! 0" "columns (kway_tables m' ! 0) = cs ! 0" "0 < length (kway_tables m)"
    by (auto simp: tables_of_def)
  have asc: "roots_ascending (cs ! 0)" using ok t by (auto simp: kway_ok_def mergeable_def)
  have i: "ref_index r < root_count (cs ! 0)" using r by (simp add: root_read_def)
  have l: "remaining (cs ! 0) (kway_positions m ! 0) = root_key (cs ! 0) (ref_index r) # remaining (cs ! 0) (kway_positions m' ! 0)"
    using r by (simp add: table_remaining_def t)
  from scan_splits_take [OF asc i l] takes_ascending(1) [OF ok tb g] r e(2) [OF Some] show ?thesis
    by (simp add: table_remaining_def t)
qed

lemma composite_placed_step:
  assumes ok: "kway_ok m" and inv: "composite_placed ctx m s" and nonempty: "closure_columns ctx \<noteq> []"
    and n: "kway_next env st m b = (Inr (Some roots, m'), b')" and step: "composite_step ctx st roots s = Inr s'"
  shows "composite_placed ctx m' s'"
proof -
  let ?cs = "closure_columns ctx"
  let ?n = "length ?cs"
  from nonempty have 0: "0 < ?n" by simp
  from inv have tb: "tables_of ?cs m" and s: "in_step ?cs m s" and rk: "ranked ?cs m s"
    and scan: "scan_splits (?cs ! 0) (table_remaining m 0) (keys_to_come ?n m) (base_scan s)"
    and entries: "\<And>t i. t < ?n \<Longrightarrow> 0 < t \<Longrightarrow> i < consumed_roots s ! t \<Longrightarrow> entry_placed ctx (tail_plans s) t i"
    by (simp_all add: composite_placed_def Let_def)
  from kway_next_takes [OF ok tb n] obtain k where g: "takes ?cs m roots m' k" and tb': "tables_of ?cs m'" by blast
  note asc = takes_ascending [OF ok tb g]
  from composite_step_Inr [OF step] obtain table root rule s5 flag s6 s4 where
      rep: "representative_of roots [0 ..< ?n] = Inr (Some (table, root))"
    and s4: "placement s4 = placement s" and base: "take_base (roots ! 0) s4 = Inr s5"
    and tail: "fold_res (take_tail ctx roots rule) [1 ..< ?n] (roots ! 0 \<noteq> None, s5) = Inr (flag, s6)"
    and s': "consumed_roots s' = consumed_roots s6" "base_scan s' = base_scan s6" "canonical_index s' = canonical_index s6 + 1"
      "tail_plans s' = tail_plans s6" by metis
  from s4 have f4: "consumed_roots s4 = consumed_roots s" "base_scan s4 = base_scan s" "canonical_index s4 = canonical_index s"
    "tail_plans s4 = tail_plans s" by (simp_all add: placement_def)
  note base_effect = take_base_effect [OF base, unfolded f4]
  from s have len: "length (consumed_roots s) = ?n" by (simp add: in_step_def)
  have start: "half_placed ctx roots s (base_scan s5) 1 (roots ! 0 \<noteq> None, s5)"
    using base_effect(1,2) base_effect(3) base_effect(4) [of "the (roots ! 0)"] len entries
    by (cases "roots ! 0") (auto simp: half_placed_def nth_list_update)
  have "half_placed ctx roots s (base_scan s5) ?n (flag, s6)"
  proof (rule fold_res_upt [where P = "half_placed ctx roots s (base_scan s5)", OF tail])
    show "half_placed ctx roots s (base_scan s5) 1 (roots ! 0 \<noteq> None, s5)" by (rule start)
    show "1 \<le> ?n" using 0 by linarith
    fix t p p'
    assume t: "1 \<le> t" "t < ?n" and half: "half_placed ctx roots s (base_scan s5) t p" and f: "take_tail ctx roots rule t p = Inr p'"
    obtain flag1 s1 flag2 s2 where p: "p = (flag1, s1)" "p' = (flag2, s2)" by fastforce
    from half have flag1: "flag1 \<longleftrightarrow> (\<exists>i < t. roots ! i \<noteq> None)" by (simp add: half_placed_def p)
    show "half_placed ctx roots s (base_scan s5) (Suc t) p'"
      unfolding p
      by (rule half_placed_step [OF half [unfolded p] f [unfolded p]])
        (use t tail_placed_group [OF ok tb s rk scan g _ _ _ _ _ _ _ flag1] base_effect(3) in auto)
  qed
  then have fin: "base_scan s' = base_scan s5" "canonical_index s' = canonical_index s + 1" "length (consumed_roots s') = ?n"
    and fin_t: "\<And>i. i < ?n \<Longrightarrow> consumed_roots s' ! i = consumed_roots s ! i + (if roots ! i \<noteq> None then 1 else 0)"
    and fin_e: "\<And>i j. i < ?n \<Longrightarrow> 0 < i \<Longrightarrow> j < consumed_roots s' ! i \<Longrightarrow> entry_placed ctx (tail_plans s') i j"
    by (auto simp: half_placed_def s')
  from representative_found [OF rep] have some: "\<exists>t < ?n. roots ! t \<noteq> None" by auto
  then obtain t r where t: "t < ?n" "roots ! t = Some r" by auto
  note step = in_step_taken(1) [OF s g fin(3) fin_t] in_step_taken(2) [OF s g fin(3) fin_t some]
  have "ranked ?cs m' s'" using ranked_taken [OF rk taken_position(4) [OF s g t] step(2) fin(2) asc(1,2)] .
  moreover have "scan_splits (?cs ! 0) (table_remaining m' 0) (keys_to_come ?n m') (base_scan s')"
    using base_effect(3,4) by (intro scan_taken [OF ok tb tb' g 0 scan]) (simp_all add: fin(1))
  ultimately show ?thesis using tb' step(1) fin_e by (simp add: composite_placed_def Let_def)
qed

section \<open>The whole loop\<close>

lemma composite_placed_start:
  assumes "kway_ok m" and "map columns (kway_tables m) = closure_columns ctx @ extra" and "closure_columns ctx \<noteq> []"
    and rem: "\<And>i. i < length (closure_columns ctx @ extra) \<Longrightarrow> table_remaining m i = selected_keys ((closure_columns ctx @ extra) ! i)"
  shows "composite_placed ctx m (composite_merge_start ctx slots plans)"
proof -
  let ?cs = "closure_columns ctx"
  from assms(2) have l: "length (kway_tables m) = length ?cs + length extra" by (metis length_append length_map)
  have t: "columns (kway_tables m ! i) = ?cs ! i" if "i < length ?cs" for i
    using arg_cong [OF assms(2), of "\<lambda>xs. xs ! i"] that l by (simp add: nth_append)
  from assms(3) have 0: "0 < length ?cs" by simp
  from 0 assms(1) l t [of 0] have "roots_ascending (?cs ! 0)" by (auto simp: kway_ok_def mergeable_def)
  with rem [of 0] 0 have "scan_splits (?cs ! 0) (table_remaining m 0) (keys_to_come (length ?cs) m) 0"
    by (simp add: scan_splits_start nth_append)
  then show ?thesis
    using t l rem by (simp add: composite_placed_def Let_def tables_of_def in_step_def ranked_def consumed_keys_def
        composite_merge_start_def nth_append)
qed

lemma merge_composite_Inr:
  assumes "merge_composite cenv ctx cs st work remaining_bytes start = Inr merged"
  obtains bytes m b s m' b' where "merge_tables cenv st work bytes cs = Inr (m, b)"
    and "merge_groups cenv st (composite_step ctx st) m start b = (Inr (s, m'), b')" and "merged_composite merged = s"
proof -
  from assms obtain bytes m b where n: "merge_tables cenv st work bytes cs = Inr (m, b)"
    and k: "fst (mbnd (merge_groups cenv st (composite_step ctx st) m start) (\<lambda>(s, m'). finish_merge ctx st s m') b) = Inr merged"
    unfolding merge_composite_def by (auto simp: bnd_eq_Inr)
  obtain b2 where "mbnd (merge_groups cenv st (composite_step ctx st) m start) (\<lambda>(s, m'). finish_merge ctx st s m') b = (Inr merged, b2)"
    using k by (metis prod.collapse)
  then obtain s m' b1 where run: "merge_groups cenv st (composite_step ctx st) m start b = (Inr (s, m'), b1)"
    and f: "finish_merge ctx st s m' b1 = (Inr merged, b2)" by (auto simp: mbnd_Inr)
  from f have "merged_composite merged = s" by (auto simp: finish_merge_def mbnd_Inr split: if_splits)
  with n run show thesis by (rule that)
qed

text \<open>Every root of every member after the base has its plan entry placed.\<close>

definition member_placed :: "direct_columns list \<Rightarrow> usize list \<Rightarrow> dynamic_tail_root_plan list \<Rightarrow> usize \<Rightarrow> bool" where
  "member_placed cs offsets plans t \<longleftrightarrow> (let keys = selected_keys (cs ! t); entries = take (length keys) (drop (offsets ! t) plans) in
     map (\<lambda>p. root_key (cs ! t) (plan_root_index p)) entries = keys \<and>
     list_all (\<lambda>p. plan_table p = t \<and> tail_placed cs p) entries)"

lemma member_placed_entries:
  assumes "\<And>i. i < length (selected_keys (closure_columns ctx ! t)) \<Longrightarrow> entry_placed ctx plans t i"
  shows "member_placed (closure_columns ctx) (plan_offsets ctx) plans t"
proof -
  let ?keys = "selected_keys (closure_columns ctx ! t)"
  let ?entries = "take (length ?keys) (drop (plan_offsets ctx ! t) plans)"
  have l: "length ?entries = length ?keys"
  proof (cases "length ?keys")
    case (Suc n)
    with assms [of n] have "plan_offsets ctx ! t + n < length plans" by (simp add: entry_placed_def Let_def)
    with Suc show ?thesis by simp
  qed simp
  have "root_key (closure_columns ctx ! t) (plan_root_index (?entries ! i)) = ?keys ! i \<and> plan_table (?entries ! i) = t \<and>
      tail_placed (closure_columns ctx) (?entries ! i)" if "i < length ?keys" for i
    using that assms [OF that] by (simp add: entry_placed_def Let_def add.commute)
  with l have "map (\<lambda>p. root_key (closure_columns ctx ! t) (plan_root_index p)) ?entries = ?keys"
    and "list_all (\<lambda>p. plan_table p = t \<and> tail_placed (closure_columns ctx) p) ?entries"
    by (simp_all only: list_eq_iff_nth_eq list_all_length length_map nth_map simp_thms) simp_all
  then show ?thesis by (simp only: member_placed_def Let_def simp_thms)
qed

end
