(* ===== verification/Overlay_Properties.thy ===== *)
theory Overlay_Properties
  imports Composite_Placement Merge_Properties
begin

text \<open>
  The properties of overlays and composites: where the roots of a local segment and of the members of a
  composite are placed, and that planning with a workspace changes nothing but a lack of resources.
\<close>

section \<open>The placement of local roots\<close>

lemma merge_local_segment_Inr:
  assumes "merge_local_segment cenv base delta plan options st policy work_limit remaining_bytes delta_roots segment = Inr s"
  obtains work bytes m b report where "merge_two_tables cenv st work bytes base delta = Inr (m, b)"
    and "merge_roots cenv st (two_table_step policy options plan (segment_emitting segment)) m
      (two_table_merge_start (segment_deltas segment)) b = (Inr s, report)"
    and "check_two_table_merge base (segment_emitting segment) delta_roots s report = Inr ()"
proof -
  from assms obtain work bytes m b where n: "merge_two_tables cenv st work bytes base delta = Inr (m, b)"
    and k: "(case merge_roots cenv st (two_table_step policy options plan (segment_emitting segment)) m
        (two_table_merge_start (segment_deltas segment)) b of
       (Inl e, _) \<Rightarrow> Inl e
     | (Inr s, report) \<Rightarrow>
         seq (check_two_table_merge base (segment_emitting segment) delta_roots s report) (Inr s)) = Inr s"
    unfolding merge_local_segment_def by (auto simp: bnd_eq_Inr)
  obtain r report where run: "merge_roots cenv st (two_table_step policy options plan (segment_emitting segment)) m
      (two_table_merge_start (segment_deltas segment)) b = (r, report)" by fastforce
  with k show thesis by (cases r) (auto simp: res_simps intro: that [OF n])
qed

text \<open>
  C15: the placement of a local segment. The merge of a local segment succeeds only when the base selects
  none of its keys: a root of both tables is always refused. When it succeeds, its roots and only they are
  placed. An emitting segment has one delta per selected local root, in canonical order, with its
  projection unchanged, each at a scan position such that the selected base roots before it are
  exactly those with smaller keys. A silent segment has one insertion position per selected local root,
  which counts the base roots with smaller keys and the local roots before it.
\<close>
theorem local_roots_placed:
  assumes "merge_local_segment cenv base delta plan options st policy work_limit remaining_bytes delta_roots segment = Inr s"
    and "buffers_fit base" and "buffers_fit delta"
  shows "set (selected_keys base) \<inter> set (selected_keys delta) = {} \<and>
    (if segment_emitting segment
    then map (\<lambda>d. root_key delta (local_canonical_index d)) (take delta_roots (merged_deltas s)) = selected_keys delta \<and>
      list_all (placed_delta base delta) (take delta_roots (merged_deltas s)) \<and>
      map delta_projection (merged_deltas s) = map delta_projection (segment_deltas segment)
    else length (selected_keys delta) = delta_roots \<and>
      list_all (placed_position base (insertion_positions s)) (enumerate 0 (selected_keys delta)))"
proof -
  from assms(1) obtain work bytes m b report where new: "merge_two_tables cenv st work bytes base delta = Inr (m, b)"
    and run: "merge_roots cenv st (two_table_step policy options plan (segment_emitting segment)) m
      (two_table_merge_start (segment_deltas segment)) b = (Inr s, report)"
    and check: "check_two_table_merge base (segment_emitting segment) delta_roots s report = Inr ()"
    by (rule merge_local_segment_Inr)
  from with_limits_Inr [OF new [unfolded merge_two_tables_def] metering_root_merger_new]
  obtain b0 where "root_merger_new cenv st base delta b0 = (Inr m, b)" by blast
  note ok = root_merger_new_ok [OF this assms(2,3)]
  have start: "between base delta m (two_table_merge_start ds)" for ds
    using scan_ok_start [OF ok(1)] ok(2,3,4) by (simp add: between_def two_table_merge_start_def)
  have n: "next_right_plan_index s = delta_roots"
    using check by (auto simp: check_two_table_merge_def res_simps split: if_splits)
  show ?thesis
  proof (cases "segment_emitting segment")
    case True
    have "deltas_placed base delta (segment_deltas segment) m (two_table_merge_start (segment_deltas segment))"
      using start ok(5) by (simp add: deltas_placed_def two_table_merge_start_def)
    from merge_roots_invariant [where I = "deltas_placed base delta (segment_deltas segment)", OF run this ok(1)]
      deltas_placed_step True
    obtain m' where "deltas_placed base delta (segment_deltas segment) m' s" and "right_remaining m' = []" by auto
    with n True have placed: "map (\<lambda>d. root_key delta (local_canonical_index d)) (take delta_roots (merged_deltas s)) = selected_keys delta"
      "list_all (placed_delta base delta) (take delta_roots (merged_deltas s))"
      "map delta_projection (merged_deltas s) = map delta_projection (segment_deltas segment)"
      by (simp_all add: deltas_placed_def Let_def)
    have "key \<notin> set (selected_keys base)" if "key \<in> set (selected_keys delta)" for key
      using that placed(2) unfolding placed(1) [symmetric] by (auto simp: list_all_iff placed_delta_def Let_def)
    with placed True show ?thesis by auto
  next
    case False
    have "positions_placed base delta m (two_table_merge_start (segment_deltas segment))"
      using start ok(5) by (simp add: positions_placed_def two_table_merge_start_def)
    from merge_roots_invariant [where I = "positions_placed base delta", OF run this ok(1)] positions_placed_step False
    obtain m' where "positions_placed base delta m' s" and "right_remaining m' = []" by auto
    with n have placed: "length (selected_keys delta) = delta_roots"
      "list_all (placed_position base (insertion_positions s)) (enumerate 0 (selected_keys delta))"
      by (auto simp: positions_placed_def Let_def)
    have "key \<notin> set (selected_keys base)" if "key \<in> set (selected_keys delta)" for key
    proof -
      from that obtain i where "i < length (selected_keys delta)" "selected_keys delta ! i = key"
        unfolding in_set_conv_nth by blast
      then have "(i, key) \<in> set (enumerate 0 (selected_keys delta))" by (auto simp: in_set_enumerate_eq)
      with placed(2) have "placed_position base (insertion_positions s) (i, key)" unfolding list_all_iff by (rule bspec)
      then show ?thesis by (auto simp: placed_position_def split: option.splits)
    qed
    with placed False show ?thesis by auto
  qed
qed

section \<open>A local class after and before a base root\<close>

definition letter_delta :: owned_overlay_delta where
  "letter_delta = \<lparr>delta_projection = DeltaTaxonomy ''a'' ''b'', insertion_scan_index = USIZE_MAX, local_canonical_index = 0\<rparr>"

definition letter_segment :: "bool \<Rightarrow> local_segment" where
  "letter_segment emitting = local_segment.make (ROOT_RULES ! 0) emitting None None None [] [] [letter_delta] None"

definition letter_options :: direct_compile_options where
  "letter_options = direct_compile_options.make False False False False 10 10"

definition letter_merged :: "two_table_merge" where
  "letter_merged = (two_table_merge_start [letter_delta\<lparr>insertion_scan_index := 1\<rparr>])
     \<lparr>left_roots := 1, right_roots := 1, unique_right_roots := 1, next_insertion_scan := 2, next_base_scan_index := 1,
      next_right_plan_index := 1\<rparr>"

lemma budget_reads:
  "deduplicated_roots (merge_budget w x y z n d) = d"
  "roots_emitted (merge_budget w x y z n d) = n"
  by (simp_all add: merge_budget_def)

lemma letter_segment_merged:
  "merge_local_segment exact_allocator (letter_table CHR ''p'') (letter_table CHR ''q'') (empty_plan 1) letter_options
     STATE_RUNNING RejectDuplicates 1001 (Inr 10000) 1 (letter_segment True) = Inr letter_merged"
proof -
  have w: "work_after_sort 1001 1 = Inr 1000" "sort_work 1 = Inr 1"
    by (simp_all add: work_after_sort_def sort_work_def checked_sub_def checked_mul_def checked_add_def bit_width.simps fits_def)
  have run: "merge_roots exact_allocator STATE_RUNNING (two_table_step RejectDuplicates letter_options (empty_plan 1) True)
      (letter_merger 0 0 0) (two_table_merge_start [letter_delta]) (merge_budget 28 32 80 0 0 0) =
    (Inr letter_merged, merge_budget 46 160 160 4 2 0)"
    by (simp add: merge_roots.simps letter_merger_next two_table_step_defs two_table_merge_start_def letter_options_def
        direct_compile_options.defs place_delta_def letter_delta_def letter_merged_def get_at_def checked_add_def fits_def
        del: One_nat_def)
  have "check_two_table_merge (letter_table CHR ''p'') True 1 letter_merged (merge_budget 46 160 160 4 2 0) = Inr ()"
    by (simp add: check_two_table_merge_def lost_local_root_def letter_merged_def two_table_merge_start_def letter_delta_def
        selected_root_count_def USIZE_MAX_def checked_sub_def checked_add_def fits_def budget_reads)
  then show ?thesis
    by (simp add: merge_local_segment_def w letter_merger_new letter_segment_def local_segment.defs run del: One_nat_def)
qed

theorem local_roots_placed_witness:
  "merge_local_segment exact_allocator (letter_table CHR ''p'') (letter_table CHR ''q'') (empty_plan 1) letter_options
     STATE_RUNNING RejectDuplicates 1001 (Inr 10000) 1 (letter_segment True) = Inr letter_merged \<and>
   map (\<lambda>d. root_key (letter_table CHR ''q'') (local_canonical_index d)) (merged_deltas letter_merged) =
     selected_keys (letter_table CHR ''q'') \<and>
   list_all (placed_delta (letter_table CHR ''p'') (letter_table CHR ''q'')) (merged_deltas letter_merged) \<and>
   set (selected_keys (letter_table CHR ''p'')) \<inter> set (selected_keys (letter_table CHR ''q'')) = {}"
  using local_roots_placed [OF letter_segment_merged letter_table_fits letter_table_fits] letter_segment_merged
  by (simp add: letter_segment_def local_segment.defs letter_merged_def two_table_merge_start_def)

section \<open>The placement of the members of a composite\<close>

text \<open>
  C14: the placement of a composite. When the merge of a composite succeeds, every member after the base
  has one plan entry per selected root, in canonical order. An entry whose key an earlier member selects
  is marked as deduplicated. Any other is placed at a scan position such that the selected roots of the
  base before it are exactly those with smaller keys, and its canonical index is the number of smaller
  keys any member of the closure selects.
\<close>
theorem composite_roots_placed:
  assumes "merge_composite cenv ctx (closure_columns ctx @ extra) st work remaining_bytes
      (composite_merge_start ctx slots plans) = Inr merged"
    and "closure_columns ctx \<noteq> []" and "\<forall>c \<in> set (closure_columns ctx @ extra). buffers_fit c"
  shows "list_all (member_placed (closure_columns ctx) (plan_offsets ctx) (tail_plans (merged_composite merged)))
    [1 ..< length (closure_columns ctx)]"
proof -
  let ?cs = "closure_columns ctx" and ?start = "composite_merge_start ctx slots plans"
  from merge_composite_Inr [OF assms(1)] obtain bytes m b s m' b' where
      new: "merge_tables cenv st work bytes (?cs @ extra) = Inr (m, b)"
    and run: "merge_groups cenv st (composite_step ctx st) m ?start b = (Inr (s, m'), b')"
    and s: "merged_composite merged = s" by blast
  from new have "with_limits work bytes (kway_new cenv st (?cs @ extra)) = Inr (m, b)"
    by (simp add: merge_tables_def split: if_splits)
  from with_limits_Inr [OF this metering_kway_new] obtain b0 where n: "kway_new cenv st (?cs @ extra) b0 = (Inr m, b)" by blast
  note ok = kway_new_ok [OF n, OF bspec [OF assms(3)]]
  from merge_groups_invariant [where I = "composite_placed ctx", OF run composite_placed_start [OF ok(1,2) assms(2) ok(3)] ok(1)]
    composite_placed_step [OF _ _ assms(2)]
  obtain m'' where inv: "composite_placed ctx m'' s" and rem: "\<And>i. i < length (kway_tables m'') \<Longrightarrow> table_remaining m'' i = []"
    by blast
  have "consumed_roots s ! t = length (selected_keys (?cs ! t))" if "t < length ?cs" for t
    using inv rem [of t] that by (auto simp: composite_placed_def Let_def tables_of_def in_step_def)
  with inv show ?thesis
    by (auto simp: s list_all_iff composite_placed_def Let_def intro!: member_placed_entries)
qed

definition letter_plan :: selected_root_rule_plan where
  "letter_plan = (empty_plan 1)\<lparr>rule_indexes := [1], plan_selected := 1\<rparr>"

definition letter_context :: composite_input where
  "letter_context = composite_input.make letter_tables False letter_options [letter_plan, letter_plan, letter_plan] []
     [0, 2, 4, 6] [0, 0, 1]"

definition letter_tail :: "usize \<Rightarrow> usize \<Rightarrow> usize \<Rightarrow> dynamic_tail_root_plan" where
  "letter_tail table scan canonical = dynamic_tail_root_plan.make table 0 1 (ROOT_RULES ! 0) None scan canonical"

lemma replicate_eval: "replicate (numeral v) x = x # replicate (pred_numeral v) x"
  by (simp add: numeral_eq_Suc)

lemma letter_marks:
  "mark_root_reachable (letter_table ch) (Suc 0) [x, y] STATE_RUNNING = Inr [x, True]"
  by (cases y) (simp_all add: mark_root_reachable_def reachability_length_def checked_add_def fits_def queue_reachable_node_def mark_loop.simps
    get_at_def load_def store_def visit_node_def visit_field_def upt_rec)

lemma letter_rule:
  "rule_at letter_plan 0 = Inr (ROOT_RULES ! 0)" "role_effect_at letter_plan 0 = Inr None" "plan_selected letter_plan = 1"
  by (simp_all add: letter_plan_def empty_plan_def rule_at_def resolved_root_rule_at_def get_at_def checked_sub_def rule_by_index_def
   role_effect_at_def planned_at_def binary_search_by_key_def binary_search_in.simps ROOT_RULES_def class_and_role_rules_def)

lemma first_rule:
  "role_effect (ROOT_RULES ! 0) = NoRoleEffect" "anonymous_scope_policy (ROOT_RULES ! 0) = AxiomDerived"
  "literal_policy (ROOT_RULES ! 0) \<noteq> RootScopedAnnotation"
  by (simp_all add: ROOT_RULES_def class_and_role_rules_def)

lemmas group_run = composite_step_def composite_merge_start_def letter_tail_def dynamic_tail_root_plan.defs
   letter_context_def composite_input.defs upt_rec Let_def load_def store_def count_role_effect_def root_occurrence_all_def
   mark_group_def mark_member_def get_range_def note_annotation_def take_base_def take_tail_def bump_def bump_at_def checked_add_def fits_def get_at_def
   first_rule letter_rule letter_marks replicate_eval

abbreviation letter_start :: composite_merge where
  "letter_start \<equiv> composite_merge_start letter_context 6 [letter_tail 1 USIZE_MAX USIZE_MAX, letter_tail 2 USIZE_MAX USIZE_MAX]"

definition letter_first :: composite_merge where
  "letter_first = letter_start\<lparr>composite_reachable := [False, True, False, False, False, False],
     composite_axiom_reachable := [False, True, False, False, False, False], consumed_roots := [1, 1, 0],
     selected_base_roots := 1, deduplicated_tail_roots := 1, base_scan := 1, canonical_index := 1,
     tail_plans := [letter_tail 1 DEDUPLICATED_OVERLAY_SCAN_INDEX USIZE_MAX, letter_tail 2 USIZE_MAX USIZE_MAX]\<rparr>"

definition letter_second :: composite_merge where
  "letter_second = letter_first\<lparr>composite_reachable := [False, True, False, False, False, True],
     composite_axiom_reachable := [False, True, False, False, False, True], consumed_roots := [1, 1, 1],
     unique_tail_roots := 1, canonical_index := 2,
     tail_plans := [letter_tail 1 DEDUPLICATED_OVERLAY_SCAN_INDEX USIZE_MAX, letter_tail 2 1 1]\<rparr>"

lemma letter_steps:
  "composite_step letter_context STATE_RUNNING [Some letter_root, Some letter_root, None] letter_start = Inr letter_first"
  "composite_step letter_context STATE_RUNNING [None, None, Some letter_root] letter_first = Inr letter_second"
  by (simp_all add: group_run letter_first_def letter_second_def)

lemma letter_groups:
  "merge_groups exact_allocator STATE_RUNNING (composite_step letter_context STATE_RUNNING)
     (letter_kway [0, 0, 0] [None, None, None] [None, None, None] 0) letter_start (merge_budget 42 168 168 0 0 0) =
   (Inr (letter_second, letter_kway [1, 1, 1] [None, None, None] [None, None, None] 8), merge_budget 106 296 296 16 2 1)"
  (is "merge_groups _ _ ?step _ _ _ = _")
  by (simp only: merge_groups_next [where body = ?step, OF letter_kway_first letter_steps(1)]
      merge_groups_next [where body = ?step, OF letter_kway_rest(1) letter_steps(2)]
      merge_groups_end [OF letter_kway_rest(2)])

lemma letter_finished:
  "finish_merge letter_context STATE_RUNNING letter_second (letter_kway [1, 1, 1] [None, None, None] [None, None, None] 8)
     (merge_budget 106 296 296 16 2 1) =
   (Inr \<lparr>merged_composite = letter_second, merged_class_nodes = [], merged_anonymous_nodes = [], unique_anonymous = 0\<rparr>,
    merge_budget 106 296 296 16 2 1)"
  by (simp add: finish_merge_def coordinate_member_def coordinate_step_def marked_with_tag_def push_class_node_def
      assign_anonymous_positions_def composite_inconsistent_def letter_second_def letter_first_def group_run mbnd_def
      assign_rounds.simps assign_round_def minimum_coordinate_def budget_reads)

lemma letter_composite_merged:
  "merge_composite exact_allocator letter_context (closure_columns letter_context @ []) STATE_RUNNING 1000 (Inr 10000) letter_start =
     Inr \<lparr>merged_composite = letter_second, merged_class_nodes = [], merged_anonymous_nodes = [], unique_anonymous = 0\<rparr>"
proof -
  have c: "closure_columns letter_context @ [] = letter_tables" by (simp add: letter_context_def composite_input.defs)
  show ?thesis
    unfolding merge_composite_def c bnd_Inr letter_kway_new prod.case
    by (simp only: mbnd_def letter_groups letter_finished prod.case sum.case fst_conv)
qed

theorem composite_roots_placed_witness:
  "list_all (member_placed letter_tables [0, 0, 1]
      [letter_tail 1 DEDUPLICATED_OVERLAY_SCAN_INDEX USIZE_MAX, letter_tail 2 1 1]) [1 ..< 3]"
  using composite_roots_placed [OF letter_composite_merged]
  by (simp add: letter_context_def composite_input.defs letter_table_fits letter_second_def upt_rec)

section \<open>Planning with a workspace\<close>

text \<open>
  C24: the plan under a budget. Whatever the allocator grants, the pass with a workspace returns what the
  pass without one returns or an error of resources, and what it has claimed stays within the limit.
\<close>
theorem budgeted_plan_agrees:
  assumes "workspace_new limit = Inr w" and "resolve_selected_root_rule_plan env c maximum st w = (r, w')"
  shows "(r = resolve_selected_root_rule_plan_unbounded c maximum st \<or> r = Inl Resource) \<and>
    ws_claimed w' \<le> limit \<and> ws_limit w' = limit"
proof -
  from assms(1) have w: "ws_within w" "ws_limit w = limit" by (auto simp: workspace_new_def ws_within_def split: if_splits)
  have "r = resolve_selected_root_rule_plan_unbounded c maximum st \<or> r = Inl Resource"
    using computes_resolve [of env c maximum st, unfolded computes_def, rule_format, of w] assms(2) by simp
  with chargingD(1,2) [OF charging_resolve assms(2) w(1)] w(2) show ?thesis by (simp add: ws_within_def)
qed

theorem budgeted_plan_agrees_witness:
  "fst (resolve_selected_root_rule_plan \<lparr>owned_bytes = (\<lambda>_. 8), owned_capacity = (\<lambda>_ n. Some n), text_capacity = Some\<rparr>
      (letter_table CHR ''p'') 10 STATE_RUNNING \<lparr>ws_limit = 1000, ws_claimed = 0\<rparr>)
    \<in> {resolve_selected_root_rule_plan_unbounded (letter_table CHR ''p'') 10 STATE_RUNNING, Inl Resource}"
  using budgeted_plan_agrees [OF _ prod.collapse [symmetric], of 1000 "\<lparr>ws_limit = 1000, ws_claimed = 0\<rparr>"]
  by (auto simp: workspace_new_def)

end
