(* ===== verification/Compiler_Dispatch.thy ===== *)
theory Compiler_Dispatch
  imports Compiler_Runs Composite_Batches
begin

text \<open>
  Which preparation a call of a compiler runs (\<open>compile_batch\<close> and \<open>prepare_batches_owned\<close> of
  \<open>native/src/lib.rs\<close>): that of a dynamic composite, of two to four fixed members, of a base with a local
  segment, or of one table; with the retained roles, when the call has claimed them, under their lock.
\<close>

definition prepare_dynamic_batches :: "overlay_allocator \<Rightarrow> canonical_allocator \<Rightarrow> direct_columns list
    \<Rightarrow> direct_columns list option \<Rightarrow> direct_compile_options \<Rightarrow> nat \<Rightarrow> usize \<times> usize \<Rightarrow> call \<Rightarrow> retained_role_state
    \<Rightarrow> prepared_direct_batches compiler_res \<times> retained_role_state" where
  "prepare_dynamic_batches env cenv cs root_columns options st limits call =
     prepare_section call (\<lambda>retained. prepare_dynamic_composite_batches_with_root_uncommitted env cenv cs root_columns options st
       retained (fst limits) (snd limits))"

definition prepare_overlay_batches :: "overlay_allocator \<Rightarrow> canonical_allocator \<Rightarrow> direct_columns \<Rightarrow> direct_columns
    \<Rightarrow> direct_compile_options \<Rightarrow> nat \<Rightarrow> usize \<times> usize \<Rightarrow> call \<Rightarrow> retained_role_state
    \<Rightarrow> prepared_direct_batches compiler_res \<times> retained_role_state" where
  "prepare_overlay_batches env cenv base delta options st limits call =
     prepare_section call (\<lambda>retained. prepare_single_overlay_delta_batches_uncommitted env cenv base delta options st
       retained (fst limits) (snd limits))"

definition prepare_table_batches :: "direct_columns \<Rightarrow> direct_columns option \<Rightarrow> direct_compile_options \<Rightarrow> nat \<Rightarrow> call
    \<Rightarrow> retained_role_state \<Rightarrow> prepared_direct_batches compiler_res \<times> retained_role_state" where
  "prepare_table_batches base annotation_table options st call =
     prepare_section call (prepare_direct_batches_uncommitted base annotation_table options st)"

definition dispatch_preparation :: "overlay_allocator \<Rightarrow> canonical_allocator \<Rightarrow> compiler_inputs \<Rightarrow> direct_columns
    \<Rightarrow> dynamic_composite_columns_t option \<Rightarrow> nat \<Rightarrow> call \<Rightarrow> retained_role_state
    \<Rightarrow> prepared_direct_batches compiler_res \<times> retained_role_state" where
  "dispatch_preparation env cenv inputs base composite st call r = (let options = call_options call in
     case composite of
       Some members \<Rightarrow> (case canonical_merge_limits inputs of
         None \<Rightarrow> (Inl (RuntimeError ''encoded dynamic composite lost its canonical limits''), r)
       | Some limits \<Rightarrow>
           prepare_dynamic_batches env cenv (composite_closure members) (composite_root members) options st limits call r)
     | None \<Rightarrow> (case overlay_delta_columns inputs of
         Some delta \<Rightarrow> (case canonical_merge_limits inputs of
           None \<Rightarrow> (Inl (RuntimeError ''encoded local-overlay compiler lost its canonical limits''), r)
         | Some limits \<Rightarrow>
             if has_merge_manifest inputs
             then prepare_dynamic_batches env cenv (fixed_composite_columns inputs base delta) None options st limits call r
             else prepare_overlay_batches env cenv base delta options st limits call r)
       | None \<Rightarrow> prepare_table_batches base (root_annotation_columns inputs) options st call r))"

text \<open>\<open>prepare_direct_batches_with_retained_role_state\<close>: the role state is handed back for the next call.\<close>

definition prepare_direct_batches_with_retained_role_state :: "direct_columns \<Rightarrow> direct_columns option
    \<Rightarrow> direct_compile_options \<Rightarrow> nat \<Rightarrow> owned_role_state option \<Rightarrow> (prepared_direct_batches \<times> owned_role_state option) kres" where
  "prepare_direct_batches_with_retained_role_state c annotation_table options st retained =
     bnd (prepare_direct_batches_uncommitted c annotation_table options st retained) (\<lambda>prepared.
     if asserted_taxonomy_only options \<or> retained = None then Inr (prepared, retained)
     else map_res (\<lambda>roles. (prepared, Some roles)) (owned_try_clone (prep_role_state (preparation prepared))))"

end
