(* ===== verification/Manifest_Objects.thy ===== *)
theory Manifest_Objects
  imports Compiler_Inputs
begin

text \<open>
  The Python views an \<open>EncodedDirectCompiler\<close> is constructed from, and the validators of one view in
  \<open>native/src/lib.rs\<close>. An object is a number, and equal numbers are the identity test \<open>is\<close>. An attribute is
  \<open>None\<close> where it is missing or not of the exact type the code requires: both raise the same exception.
  The views do not change while they are read.
\<close>

section \<open>Views and segments\<close>

type_synonym py_object = nat
type_synonym buffer_object = "py_object \<times> memory_view"

datatype member_token = NoToken | ExactToken bytes | OtherToken

record manifest_segment =
  role_attribute :: "usize option"
  owner_attribute :: "py_object option"
  source_attribute :: "py_object option option"
  posting_attribute :: "usize option"
  root_ids_attribute :: "buffer_object option"
  scope_map_attribute :: "buffer_object option"
  token_attribute :: "member_token option"

record view_object =
  schema_name :: "string option"
  schema_version :: "usize option"
  model_schema :: "usize option"
  view_owner :: "py_object option"
  view_scope :: "py_object option"
  view_descriptor :: "bytes option"
  view_buffers :: "(string \<times> memory_view) list option"
  view_segments :: "manifest_segment list option"

type_synonym views = "py_object \<Rightarrow> view_object"

definition required :: "'a option \<Rightarrow> 'a compiler_res" where
  "required v = ok_or BufferError v"

definition buffer_length :: "buffer_object option \<Rightarrow> usize compiler_res" where
  "buffer_length b = bnd (required b) (\<lambda>(_, v). checked_memoryview_length v)"

definition DIRECT_SEGMENT :: usize where "DIRECT_SEGMENT = 1"
definition OVERLAY_BASE_SEGMENT :: usize where "OVERLAY_BASE_SEGMENT = 2"
definition OVERLAY_DELTA_SEGMENT :: usize where "OVERLAY_DELTA_SEGMENT = 3"
definition COMPOSITE_MEMBER_SEGMENT :: usize where "COMPOSITE_MEMBER_SEGMENT = 4"
definition COMPOSITE_BRIDGE_SEGMENT :: usize where "COMPOSITE_BRIDGE_SEGMENT = 5"
definition POSTINGS_ALL :: usize where "POSTINGS_ALL = 0"
definition POSTINGS_INCLUDE :: usize where "POSTINGS_INCLUDE = 1"
definition POSTINGS_EXCLUDE :: usize where "POSTINGS_EXCLUDE = 2"

lemmas segment_kinds = DIRECT_SEGMENT_def OVERLAY_BASE_SEGMENT_def OVERLAY_DELTA_SEGMENT_def
  COMPOSITE_MEMBER_SEGMENT_def COMPOSITE_BRIDGE_SEGMENT_def POSTINGS_ALL_def POSTINGS_INCLUDE_def POSTINGS_EXCLUDE_def

definition ENCODED_SCHEMA_NAME :: string where
  "ENCODED_SCHEMA_NAME = ''pyowl-core/structural-columns''"

definition ENCODED_SCHEMA_VERSION :: usize where "ENCODED_SCHEMA_VERSION = 2"
definition ENCODED_MODEL_SCHEMA :: usize where "ENCODED_MODEL_SCHEMA = 2"

definition ENCODED_DESCRIPTOR_SHA256 :: bytes where
  "ENCODED_DESCRIPTOR_SHA256 = map char_of [0xc5 :: nat, 0x1d, 0x0e, 0xb7, 0xec, 0xf6, 0xf2, 0x9a, 0xd3, 0x49, 0x5f,
     0xe7, 0xc4, 0x0a, 0x2e, 0xa6, 0x74, 0x1c, 0xf0, 0x3a, 0x7c, 0xf1, 0x94, 0xd5, 0x14, 0x17, 0xbb, 0x81, 0x0d, 0xf9,
     0x0f, 0x51]"

definition BUFFER_NAMES :: "string list" where
  "BUFFER_NAMES = [''root_kinds'', ''root_ids'', ''node_tags'', ''node_field_offsets'', ''field_kinds'',
     ''field_values'', ''field_lengths'', ''item_kinds'', ''item_values'', ''item_lengths'', ''scalar_bytes'']"

section \<open>The header and the columns of a view\<close>

definition validate_encoded_view_header :: "views \<Rightarrow> py_object \<Rightarrow> py_object \<Rightarrow> bytes option \<Rightarrow> unit compiler_res" where
  "validate_encoded_view_header vs view expected_owner digest = (let v = vs view in
     bnd (required (schema_name v)) (\<lambda>name.
     seq (reject_if (name \<noteq> ENCODED_SCHEMA_NAME) BufferError) (
     bnd (required (schema_version v)) (\<lambda>version.
     seq (reject_if (version \<noteq> ENCODED_SCHEMA_VERSION) BufferError) (
     bnd (required (model_schema v)) (\<lambda>model.
     seq (reject_if (model \<noteq> ENCODED_MODEL_SCHEMA) BufferError) (
     bnd (required (view_owner v)) (\<lambda>owner.
     seq (reject_if (owner \<noteq> expected_owner) BufferError) (
     seq (reject_if (digest \<noteq> Some ENCODED_DESCRIPTOR_SHA256) BufferError) (
     bnd (required (view_descriptor v)) (\<lambda>descriptor. reject_if (descriptor = []) BufferError)))))))))))"

definition view_structural_buffers :: "views \<Rightarrow> py_object \<Rightarrow> retained_direct_buffer list compiler_res" where
  "view_structural_buffers vs view =
     bnd (required (view_buffers (vs view))) (\<lambda>mapping.
     seq (reject_if (length mapping \<noteq> BUFFER_COUNT) BufferError) (
     bnd (fold_res (\<lambda>name found. map_res (\<lambda>v. found @ [v]) (required (map_of mapping name))) BUFFER_NAMES [])
       retained_structural_buffers))"

text \<open>The columns of a table without roots: eleven empty buffers but for the first offset.\<close>

definition empty_local_columns :: "retained_direct_buffer list \<Rightarrow> bool" where
  "empty_local_columns retained_list \<longleftrightarrow> list_all (\<lambda>(name, b).
     as_slice b = (if name = ''node_field_offsets'' then replicate 8 (char_of (0 :: nat)) else [])) (zip BUFFER_NAMES retained_list)"

section \<open>Segments\<close>

definition require_empty_buffers :: "compiler_error \<Rightarrow> manifest_segment \<Rightarrow> unit compiler_res" where
  "require_empty_buffers e segment =
     for_each (\<lambda>b. bnd (buffer_length b) (\<lambda>n. reject_if (n \<noteq> 0) e)) [root_ids_attribute segment, scope_map_attribute segment]"

definition require_no_token :: "manifest_segment \<Rightarrow> unit compiler_res" where
  "require_no_token segment = bnd (required (token_attribute segment)) (\<lambda>token. reject_if (token \<noteq> NoToken) BufferError)"

definition validate_direct_segment :: "views \<Rightarrow> py_object \<Rightarrow> py_object \<Rightarrow> unit compiler_res" where
  "validate_direct_segment vs view expected_owner =
     bnd (required (view_segments (vs view))) (\<lambda>segments. case segments of
       [segment] \<Rightarrow>
         bnd (required (role_attribute segment)) (\<lambda>role.
         seq (reject_if (role \<noteq> DIRECT_SEGMENT) UnsupportedError) (
         bnd (required (owner_attribute segment)) (\<lambda>owner.
         seq (reject_if (owner \<noteq> expected_owner) BufferError) (
         bnd (required (source_attribute segment)) (\<lambda>source.
         seq (reject_if (source \<noteq> None) BufferError) (
         bnd (required (posting_attribute segment)) (\<lambda>mode.
         seq (reject_if (mode \<noteq> POSTINGS_ALL) BufferError) (
         seq (require_empty_buffers BufferError segment) (require_no_token segment)))))))))
     | _ \<Rightarrow> Inl UnsupportedError)"

definition validate_all_segment :: "manifest_segment \<Rightarrow> usize \<Rightarrow> py_object \<Rightarrow> py_object option \<Rightarrow> unit compiler_res" where
  "validate_all_segment segment expected_role expected_owner expected_source =
     bnd (required (role_attribute segment)) (\<lambda>role.
     seq (reject_if (role \<noteq> expected_role) UnsupportedError) (
     bnd (required (owner_attribute segment)) (\<lambda>owner.
     seq (reject_if (owner \<noteq> expected_owner) BufferError) (
     bnd (required (source_attribute segment)) (\<lambda>source.
     seq (reject_if (source \<noteq> expected_source) BufferError) (
     bnd (required (posting_attribute segment)) (\<lambda>mode.
     seq (reject_if (mode \<noteq> POSTINGS_ALL) UnsupportedError) (
     seq (require_empty_buffers UnsupportedError segment) (require_no_token segment)))))))))"

definition validate_overlay_base_segment :: "manifest_segment \<Rightarrow> py_object \<Rightarrow> py_object \<Rightarrow> buffer_object option
    \<Rightarrow> unit compiler_res" where
  "validate_overlay_base_segment segment expected_owner expected_source excluded =
     bnd (required (role_attribute segment)) (\<lambda>role.
     seq (reject_if (role \<noteq> OVERLAY_BASE_SEGMENT) UnsupportedError) (
     bnd (required (owner_attribute segment)) (\<lambda>owner.
     seq (reject_if (owner \<noteq> expected_owner) BufferError) (
     bnd (required (source_attribute segment)) (\<lambda>source.
     seq (reject_if (source \<noteq> Some expected_source) BufferError) (
     bnd (required (posting_attribute segment)) (\<lambda>mode.
     bnd (required (root_ids_attribute segment)) (\<lambda>root_ids.
     bnd (checked_memoryview_length (snd root_ids)) (\<lambda>root_id_bytes.
     seq (case excluded of
            None \<Rightarrow> reject_if (mode \<noteq> POSTINGS_ALL \<or> root_id_bytes \<noteq> 0) UnsupportedError
          | Some expected \<Rightarrow>
              seq (reject_if (mode \<noteq> POSTINGS_EXCLUDE \<or> root_id_bytes = 0) UnsupportedError)
                (reject_if (fst root_ids \<noteq> fst expected) BufferError)) (
     bnd (buffer_length (scope_map_attribute segment)) (\<lambda>scope_bytes.
     seq (reject_if (scope_bytes \<noteq> 0) UnsupportedError) (require_no_token segment))))))))))))"

definition validate_overlay_delta_segments :: "views \<Rightarrow> py_object \<Rightarrow> py_object \<Rightarrow> py_object \<Rightarrow> py_object
    \<Rightarrow> buffer_object option \<Rightarrow> unit compiler_res" where
  "validate_overlay_delta_segments vs view expected_owner source_view source_owner excluded =
     bnd (required (view_segments (vs view))) (\<lambda>segments. case segments of
       [base, delta] \<Rightarrow>
         seq (validate_overlay_base_segment base source_owner source_view excluded)
           (validate_all_segment delta OVERLAY_DELTA_SEGMENT expected_owner None)
     | _ \<Rightarrow> Inl UnsupportedError)"

definition retained_direct_buffers :: "views \<Rightarrow> py_object \<Rightarrow> py_object \<Rightarrow> bytes option
    \<Rightarrow> retained_direct_buffer list compiler_res" where
  "retained_direct_buffers vs view expected_owner digest =
     seq (validate_encoded_view_header vs view expected_owner digest) (
     seq (validate_direct_segment vs view expected_owner) (
     view_structural_buffers vs view))"

definition retained_overlay_delta_buffers :: "views \<Rightarrow> py_object \<Rightarrow> py_object \<Rightarrow> bytes option \<Rightarrow> py_object \<Rightarrow> py_object
    \<Rightarrow> buffer_object option \<Rightarrow> retained_direct_buffer list compiler_res" where
  "retained_overlay_delta_buffers vs view expected_owner digest source_view source_owner excluded =
     seq (validate_encoded_view_header vs view expected_owner digest) (
     seq (validate_overlay_delta_segments vs view expected_owner source_view source_owner excluded) (
     view_structural_buffers vs view))"

end
