(* ===== verification/Recursive_Topology.thy ===== *)
theory Recursive_Topology
  imports Manifest_Objects
begin

text \<open>
  Recursive manifests of \<open>native/src/lib.rs\<close>: overlays and composites whose sources are again overlays and
  composites. \<open>enumerate_recursive_leaf_paths\<close> walks the graph of views depth first, with a stack of
  frames, and collects the path of every local table. Views are validated once, a subgraph is resolved once
  per selection, and cycles, too deep overlays and too many leaves are refused.
\<close>

section \<open>Validated views\<close>

datatype leaf_selection = All_Leaves | Local_Only

record topology_child =
  child_segment :: usize
  child_view :: py_object
  child_owner :: py_object
  child_selection :: leaf_selection

record topology_node =
  node_owner :: py_object
  overlay_increment :: usize
  local_leaf_index :: "usize option"
  empty_direct_leaf_index :: "usize option"
  node_children :: "topology_child list"

record resolved_topology =
  leaf_paths :: "usize list list"
  overlay_span :: usize

record topology_frame =
  frame_identity :: py_object
  frame_selection :: leaf_selection
  frame_node :: topology_node
  next_child :: usize
  pending_child_index :: "usize option"
  frame_paths :: "usize list list"
  frame_span :: usize
  absolute_overlay_depth :: usize

record recursive_reference =
  reference_source :: py_object
  reference_owner :: py_object
  reference_mode :: usize
  reference_roots :: buffer_object
  reference_scope_map :: buffer_object

definition recursive_segments :: "views \<Rightarrow> py_object \<Rightarrow> manifest_segment list compiler_res" where
  "recursive_segments vs view = required (view_segments (vs view))"

definition recursive_segment_role :: "manifest_segment \<Rightarrow> usize compiler_res" where
  "recursive_segment_role segment = required (role_attribute segment)"

section \<open>References\<close>

definition recursive_source_root_count :: "views \<Rightarrow> py_object \<Rightarrow> usize compiler_res" where
  "recursive_source_root_count vs source =
     bnd (required (view_buffers (vs source))) (\<lambda>mapping.
     bnd (required (map_of mapping ''root_kinds'')) checked_memoryview_length)"

text \<open>Complete rows of \<open>n\<close> bytes (\<open>chunks_exact\<close>).\<close>

definition exact_rows :: "nat \<Rightarrow> bytes \<Rightarrow> bytes list" where
  "exact_rows n v = map (\<lambda>i. take n (drop (n * i) v)) [0 ..< length v div n]"

definition little_endian :: "bytes \<Rightarrow> nat" where
  "little_endian v = foldr (\<lambda>c rest. of_char c + 256 * rest) v 0"

definition posting_row :: "usize \<Rightarrow> bytes \<Rightarrow> usize \<Rightarrow> usize compiler_res" where
  "posting_row source_root_count row previous = (let position = little_endian row in
     if position = 0 \<or> position \<le> previous \<or> position > source_root_count then Inl BufferError else Inr position)"

definition validate_recursive_posting_rows :: "views \<Rightarrow> buffer_object \<Rightarrow> py_object \<Rightarrow> unit compiler_res" where
  "validate_recursive_posting_rows vs rows source =
     bnd (retained_exact_bytes_buffer (snd rows)) (\<lambda>b.
     bnd (recursive_source_root_count vs source) (\<lambda>n.
     discard (fold_res (posting_row n) (exact_rows 4 (as_slice b)) 0)))"

definition scope_map_row :: "bytes \<Rightarrow> bytes option \<Rightarrow> bytes option compiler_res" where
  "scope_map_row row previous = (let source = take 32 row; target = drop 32 row in
     if source = target then Inl BufferError else
     if (case previous of None \<Rightarrow> False | Some p \<Rightarrow> source \<le> p) then Inl BufferError else Inr (Some source))"

definition validate_recursive_scope_map_rows :: "buffer_object \<Rightarrow> unit compiler_res" where
  "validate_recursive_scope_map_rows rows =
     bnd (retained_exact_bytes_buffer (snd rows)) (\<lambda>b.
     discard (fold_res scope_map_row (exact_rows 64 (as_slice b)) None))"

definition reference_posting_mode :: "usize \<Rightarrow> usize \<Rightarrow> unit compiler_res" where
  "reference_posting_mode role mode =
     seq (reject_if (role = OVERLAY_BASE_SEGMENT \<and> mode \<noteq> POSTINGS_ALL \<and> mode \<noteq> POSTINGS_EXCLUDE) UnsupportedError)
       (reject_if (role = COMPOSITE_MEMBER_SEGMENT \<and>
          mode \<noteq> POSTINGS_ALL \<and> mode \<noteq> POSTINGS_INCLUDE \<and> mode \<noteq> POSTINGS_EXCLUDE) BufferError)"

definition reference_token :: "manifest_segment \<Rightarrow> usize \<Rightarrow> unit compiler_res" where
  "reference_token segment role = bnd (required (token_attribute segment)) (\<lambda>token.
     if role = COMPOSITE_MEMBER_SEGMENT
     then (case token of ExactToken v \<Rightarrow> reject_if (length v \<noteq> 32) BufferError | _ \<Rightarrow> Inl BufferError)
     else reject_if (token \<noteq> NoToken) BufferError)"

definition validate_recursive_reference :: "views \<Rightarrow> py_object \<Rightarrow> manifest_segment \<Rightarrow> usize \<Rightarrow> bool
    \<Rightarrow> recursive_reference compiler_res" where
  "validate_recursive_reference vs current_view segment role check_rows =
     seq (reject_if (role \<noteq> OVERLAY_BASE_SEGMENT \<and> role \<noteq> COMPOSITE_MEMBER_SEGMENT) BufferError) (
     bnd (required (source_attribute segment)) (\<lambda>source_object.
     bnd (ok_or BufferError source_object) (\<lambda>source.
     seq (reject_if (source = current_view) BufferError) (
     bnd (required (owner_attribute segment)) (\<lambda>owner.
     bnd (required (view_owner (vs source))) (\<lambda>source_owner.
     seq (reject_if (source_owner \<noteq> owner) BufferError) (
     bnd (required (view_scope (vs current_view))) (\<lambda>current_scope.
     bnd (required (view_scope (vs source))) (\<lambda>source_scope.
     seq (reject_if (source_scope \<noteq> current_scope) BufferError) (
     bnd (required (posting_attribute segment)) (\<lambda>mode.
     seq (reference_posting_mode role mode) (
     bnd (required (root_ids_attribute segment)) (\<lambda>rows.
     bnd (checked_memoryview_length (snd rows)) (\<lambda>row_bytes.
     seq (reject_if (row_bytes mod 4 \<noteq> 0) BufferError) (
     seq (reject_if ((mode = POSTINGS_ALL) \<noteq> (row_bytes = 0)) BufferError) (
     seq (if check_rows then validate_recursive_posting_rows vs rows source else Inr ()) (
     bnd (required (scope_map_attribute segment)) (\<lambda>scope_map.
     bnd (checked_memoryview_length (snd scope_map)) (\<lambda>scope_bytes.
     seq (reject_if (scope_bytes mod 64 \<noteq> 0) BufferError) (
     seq (if check_rows then validate_recursive_scope_map_rows scope_map else Inr ()) (
     seq (reference_token segment role)
       (Inr \<lparr>reference_source = source, reference_owner = owner, reference_mode = mode, reference_roots = rows,
             reference_scope_map = scope_map\<rparr>))))))))))))))))))))))"

definition validate_recursive_empty_local_buffers :: "retained_direct_buffer list \<Rightarrow> unit compiler_res" where
  "validate_recursive_empty_local_buffers bs = reject_if (\<not> empty_local_columns bs) UnsupportedError"

section \<open>Validation work\<close>

definition segment_work :: "manifest_segment \<Rightarrow> usize compiler_res" where
  "segment_work segment =
     bnd (required (root_ids_attribute segment)) (\<lambda>rows.
     bnd (required (scope_map_attribute segment)) (\<lambda>scope_map.
     bnd (checked_memoryview_length (snd rows)) (\<lambda>row_bytes.
     bnd (checked_memoryview_length (snd scope_map)) (\<lambda>scope_bytes.
     ok_or MemoryError (Option.bind (checked_add 128 row_bytes) (\<lambda>n. checked_add n scope_bytes))))))"

definition recursive_manifest_validation_work :: "retained_direct_buffer list \<Rightarrow> manifest_segment list \<Rightarrow> usize compiler_res" where
  "recursive_manifest_validation_work bs segments =
     bnd (fold_res (\<lambda>b n. ok_or MemoryError (checked_add n (length (as_slice b)))) bs 0) (\<lambda>work.
     fold_res (\<lambda>segment n. bnd (segment_work segment) (\<lambda>k. ok_or MemoryError (checked_add n k))) segments work)"

section \<open>The kinds of views\<close>

definition direct_node :: "views \<Rightarrow> py_object \<Rightarrow> py_object \<Rightarrow> usize \<Rightarrow> topology_node compiler_res" where
  "direct_node vs view owner local_root_count =
     seq (validate_direct_segment vs view owner)
       (Inr \<lparr>node_owner = owner, overlay_increment = 0,
             local_leaf_index = (if local_root_count \<noteq> 0 then Some 0 else None),
             empty_direct_leaf_index = (if local_root_count = 0 then Some 0 else None), node_children = []\<rparr>)"

definition local_leaf :: "manifest_segment \<Rightarrow> usize \<Rightarrow> py_object \<Rightarrow> usize \<Rightarrow> usize \<Rightarrow> usize option compiler_res" where
  "local_leaf segment role owner local_root_count index =
     seq (validate_all_segment segment role owner None) (
     if local_root_count = 0 then Inl BufferError else Inr (Some index))"

definition overlay_node :: "views \<Rightarrow> py_object \<Rightarrow> py_object \<Rightarrow> retained_direct_buffer list \<Rightarrow> usize \<Rightarrow> manifest_segment list
    \<Rightarrow> topology_node compiler_res" where
  "overlay_node vs view owner bs local_root_count segments = (case segments of
     base # delta \<Rightarrow>
       bnd (validate_recursive_reference vs view base OVERLAY_BASE_SEGMENT True) (\<lambda>reference.
       bnd (case delta of
              [] \<Rightarrow> seq (validate_recursive_empty_local_buffers bs) (Inr None)
            | d # _ \<Rightarrow> local_leaf d OVERLAY_DELTA_SEGMENT owner local_root_count 1) (\<lambda>leaf.
       Inr \<lparr>node_owner = owner, overlay_increment = 1, local_leaf_index = leaf, empty_direct_leaf_index = None,
            node_children = [\<lparr>child_segment = 0, child_view = reference_source reference,
              child_owner = reference_owner reference, child_selection = All_Leaves\<rparr>]\<rparr>))
   | [] \<Rightarrow> Inl BufferError)"

definition composite_child :: "views \<Rightarrow> py_object \<Rightarrow> usize \<times> manifest_segment \<Rightarrow> topology_child list \<times> bytes option
    \<Rightarrow> (topology_child list \<times> bytes option) compiler_res" where
  "composite_child vs view entry s = (case (entry, s) of ((index, member), siblings, previous) \<Rightarrow>
     bnd (validate_recursive_reference vs view member COMPOSITE_MEMBER_SEGMENT True) (\<lambda>reference.
     bnd (required (token_attribute member)) (\<lambda>token. case token of
       ExactToken t \<Rightarrow>
         if length t \<noteq> 32 then Inl BufferError else
         if (case previous of None \<Rightarrow> False | Some p \<Rightarrow> t \<le> p) then Inl BufferError else
         Inr (siblings @ [\<lparr>child_segment = index, child_view = reference_source reference,
                child_owner = reference_owner reference,
                child_selection = (if reference_mode reference = POSTINGS_INCLUDE then Local_Only else All_Leaves)\<rparr>], Some t)
     | _ \<Rightarrow> Inl BufferError)))"

definition composite_node :: "views \<Rightarrow> py_object \<Rightarrow> py_object \<Rightarrow> retained_direct_buffer list \<Rightarrow> usize \<Rightarrow> manifest_segment list
    \<Rightarrow> usize list \<Rightarrow> topology_node compiler_res" where
  "composite_node vs view owner bs local_root_count segments roles =
     (let member_count = length (takeWhile (\<lambda>role. role = COMPOSITE_MEMBER_SEGMENT) roles);
          bridged = (length roles = member_count + 1 \<and> last roles = COMPOSITE_BRIDGE_SEGMENT) in
      seq (reject_if (member_count < 2 \<or> member_count + (if bridged then 1 else 0) \<noteq> length roles) UnsupportedError) (
      bnd (fold_res (composite_child vs view) (enumerate 0 (take member_count segments)) ([], None)) (\<lambda>(siblings, _).
      bnd (if bridged then local_leaf (segments ! member_count) COMPOSITE_BRIDGE_SEGMENT owner local_root_count member_count
           else seq (validate_recursive_empty_local_buffers bs) (Inr None)) (\<lambda>leaf.
      Inr \<lparr>node_owner = owner, overlay_increment = 0, local_leaf_index = leaf, empty_direct_leaf_index = None,
           node_children = siblings\<rparr>))))"

definition validate_recursive_topology_node :: "views \<Rightarrow> py_object \<Rightarrow> py_object \<Rightarrow> retained_direct_buffer list
    \<Rightarrow> manifest_segment list \<Rightarrow> topology_node compiler_res" where
  "validate_recursive_topology_node vs view owner bs segments =
     (let local_root_count = length (as_slice (hd bs)) in
      bnd (fold_res (\<lambda>segment roles. map_res (\<lambda>role. roles @ [role]) (recursive_segment_role segment)) segments []) (\<lambda>roles.
      if roles = [DIRECT_SEGMENT] then direct_node vs view owner local_root_count
      else if roles = [OVERLAY_BASE_SEGMENT] \<or> roles = [OVERLAY_BASE_SEGMENT, OVERLAY_DELTA_SEGMENT]
      then overlay_node vs view owner bs local_root_count segments
      else composite_node vs view owner bs local_root_count segments roles))"

section \<open>Views validated once\<close>

record topology_limits =
  limit_digest :: "bytes option"
  limit_work :: usize
  limit_depth :: usize
  limit_leaves :: usize
  retain_empty :: bool

text \<open>\<open>validated_nodes\<close> and \<open>resolved_topologies\<close> are the hash maps of the code, \<open>active_objects\<close> its set of
  the objects on the stack; the top of the stack comes first.\<close>

record topology_state =
  validated_nodes :: "py_object \<Rightarrow> topology_node option"
  validated_work :: usize
  resolved_topologies :: "py_object \<times> leaf_selection \<Rightarrow> resolved_topology option"
  active_objects :: "py_object set"
  topology_stack :: "topology_frame list"

text \<open>What one view validates to, with the work it costs.\<close>

definition read_topology_node :: "views \<Rightarrow> topology_limits \<Rightarrow> py_object \<Rightarrow> py_object \<Rightarrow> usize \<Rightarrow> (topology_node \<times> usize) compiler_res" where
  "read_topology_node vs lim view owner work =
     seq (validate_encoded_view_header vs view owner (limit_digest lim)) (
     bnd (view_structural_buffers vs view) (\<lambda>bs.
     bnd (recursive_segments vs view) (\<lambda>segments.
     seq (reject_if (segments = []) BufferError) (
     bnd (recursive_manifest_validation_work bs segments) (\<lambda>node_work.
     bnd (ok_or MemoryError (checked_add work node_work)) (\<lambda>work'.
     seq (reject_if (work' > limit_work lim) MemoryError) (
     map_res (\<lambda>node. (node, work')) (validate_recursive_topology_node vs view owner bs segments))))))))"

definition recursive_topology_node :: "views \<Rightarrow> topology_limits \<Rightarrow> py_object \<Rightarrow> py_object \<Rightarrow> topology_state
    \<Rightarrow> (topology_node \<times> topology_state) compiler_res" where
  "recursive_topology_node vs lim view owner s = (case validated_nodes s view of
     Some node \<Rightarrow> if node_owner node \<noteq> owner then Inl BufferError else Inr (node, s)
   | None \<Rightarrow>
       map_res (\<lambda>(node, work). (node, s\<lparr>validated_nodes := (validated_nodes s)(view \<mapsto> node), validated_work := work\<rparr>))
         (read_topology_node vs lim view owner (validated_work s)))"

section \<open>Frames\<close>

definition leaf_of_node :: "bool \<Rightarrow> topology_node \<Rightarrow> usize option" where
  "leaf_of_node keep_empty node = (case local_leaf_index node of
     Some i \<Rightarrow> Some i
   | None \<Rightarrow> if keep_empty then empty_direct_leaf_index node else None)"

definition recursive_topology_frame :: "topology_limits \<Rightarrow> py_object \<Rightarrow> leaf_selection \<Rightarrow> topology_node \<Rightarrow> usize
    \<Rightarrow> topology_frame compiler_res" where
  "recursive_topology_frame lim view selection node parent_depth =
     bnd (ok_or MemoryError (checked_add parent_depth (overlay_increment node))) (\<lambda>depth.
     seq (reject_if (depth > limit_depth lim) BufferError) (
     let own = (case leaf_of_node (retain_empty lim) node of None \<Rightarrow> [] | Some i \<Rightarrow> [[i]]) in
     seq (reject_if (length own > limit_leaves lim) UnsupportedError) (
     Inr \<lparr>frame_identity = view, frame_selection = selection, frame_node = node,
          next_child = (if selection = All_Leaves then 0 else length (node_children node)), pending_child_index = None,
          frame_paths = own, frame_span = overlay_increment node, absolute_overlay_depth = depth\<rparr>)))"

definition merge_recursive_topology :: "topology_limits \<Rightarrow> topology_frame \<Rightarrow> usize \<Rightarrow> resolved_topology
    \<Rightarrow> topology_frame compiler_res" where
  "merge_recursive_topology lim frame segment_index child =
     bnd (ok_or MemoryError (checked_add (absolute_overlay_depth frame) (overlay_span child))) (\<lambda>deepest.
     seq (reject_if (deepest > limit_depth lim) BufferError) (
     bnd (ok_or MemoryError (checked_add (overlay_increment (frame_node frame)) (overlay_span child))) (\<lambda>relative_span.
     bnd (ok_or MemoryError (checked_add (length (frame_paths frame)) (length (leaf_paths child)))) (\<lambda>resulting_count.
     seq (reject_if (resulting_count > limit_leaves lim) UnsupportedError) (
     Inr (frame\<lparr>frame_span := max (frame_span frame) relative_span,
                frame_paths := frame_paths frame @ map ((#) segment_index) (leaf_paths child)\<rparr>))))))"

section \<open>The walk\<close>

datatype topology_progress = Going topology_state | Resolved resolved_topology topology_state

definition visit_topology_child :: "views \<Rightarrow> topology_limits \<Rightarrow> topology_child \<Rightarrow> topology_frame \<Rightarrow> topology_frame list
    \<Rightarrow> topology_state \<Rightarrow> topology_progress compiler_res" where
  "visit_topology_child vs lim child frame rest s =
     seq (reject_if (child_view child \<in> active_objects s) BufferError) (
     bnd (recursive_topology_node vs lim (child_view child) (child_owner child) s) (\<lambda>(node, s1).
     case resolved_topologies s1 (child_view child, child_selection child) of
       Some cached \<Rightarrow>
         map_res (\<lambda>frame'. Going (s1\<lparr>topology_stack := frame' # rest\<rparr>))
           (merge_recursive_topology lim frame (child_segment child) cached)
     | None \<Rightarrow>
         map_res (\<lambda>new. Going (s1\<lparr>active_objects := insert (child_view child) (active_objects s1),
             topology_stack := new # frame\<lparr>pending_child_index := Some (child_segment child)\<rparr> # rest\<rparr>))
           (recursive_topology_frame lim (child_view child) (child_selection child) node (absolute_overlay_depth frame))))"

definition leave_topology_frame :: "topology_limits \<Rightarrow> topology_frame \<Rightarrow> topology_frame list \<Rightarrow> topology_state
    \<Rightarrow> topology_progress compiler_res" where
  "leave_topology_frame lim frame rest s =
     (let resolved = \<lparr>leaf_paths = frame_paths frame, overlay_span = frame_span frame\<rparr>;
          s1 = s\<lparr>active_objects := active_objects s - {frame_identity frame},
                 resolved_topologies := (resolved_topologies s)((frame_identity frame, frame_selection frame) \<mapsto> resolved)\<rparr> in
      case rest of
        [] \<Rightarrow> Inr (Resolved resolved s1)
      | parent # below \<Rightarrow>
          bnd (ok_or BufferError (pending_child_index parent)) (\<lambda>segment_index.
          map_res (\<lambda>parent'. Going (s1\<lparr>topology_stack := parent' # below\<rparr>))
            (merge_recursive_topology lim (parent\<lparr>pending_child_index := None\<rparr>) segment_index resolved)))"

definition topology_step :: "views \<Rightarrow> topology_limits \<Rightarrow> topology_state \<Rightarrow> topology_progress compiler_res" where
  "topology_step vs lim s = (case topology_stack s of
     [] \<Rightarrow> Inl BufferError
   | frame # rest \<Rightarrow>
       if next_child frame < length (node_children (frame_node frame))
       then visit_topology_child vs lim (node_children (frame_node frame) ! next_child frame)
              (frame\<lparr>next_child := next_child frame + 1\<rparr>) rest s
       else leave_topology_frame lim frame rest s)"

text \<open>The loop ends because every view costs work; this is a theorem, so the loop is partial here.\<close>

partial_function (option) topology_loop :: "views \<Rightarrow> topology_limits \<Rightarrow> topology_state
    \<Rightarrow> (resolved_topology \<times> topology_state) compiler_res option" where
  "topology_loop vs lim s = (case topology_step vs lim s of
     Inl e \<Rightarrow> Some (Inl e)
   | Inr (Resolved resolved s') \<Rightarrow> Some (Inr (resolved, s'))
   | Inr (Going s') \<Rightarrow> topology_loop vs lim s')"

declare topology_loop.simps [code]

definition topology_start :: "views \<Rightarrow> topology_limits \<Rightarrow> py_object \<Rightarrow> py_object \<Rightarrow> topology_state compiler_res" where
  "topology_start vs lim manifest owner =
     bnd (recursive_topology_node vs lim manifest owner
           \<lparr>validated_nodes = (\<lambda>_. None), validated_work = 0, resolved_topologies = (\<lambda>_. None),
            active_objects = {}, topology_stack = []\<rparr>) (\<lambda>(node, s).
     map_res (\<lambda>frame. s\<lparr>active_objects := {manifest}, topology_stack := [frame]\<rparr>)
       (recursive_topology_frame lim manifest All_Leaves node 0))"

text \<open>The set of the paths, none of them twice, and the work spent.\<close>

definition collect_leaf_paths :: "topology_limits \<Rightarrow> resolved_topology \<times> topology_state \<Rightarrow> (usize list set \<times> usize) compiler_res" where
  "collect_leaf_paths lim result = (case result of (resolved, s) \<Rightarrow>
     seq (reject_if (\<not> distinct (leaf_paths resolved)) UnsupportedError) (
     seq (reject_if (length (leaf_paths resolved) > limit_leaves lim) UnsupportedError)
       (Inr (set (leaf_paths resolved), validated_work s))))"

definition enumerate_recursive_leaf_paths :: "views \<Rightarrow> topology_limits \<Rightarrow> py_object \<Rightarrow> py_object
    \<Rightarrow> (usize list set \<times> usize) compiler_res option" where
  "enumerate_recursive_leaf_paths vs lim manifest owner = (case topology_start vs lim manifest owner of
     Inl e \<Rightarrow> Some (Inl e)
   | Inr s \<Rightarrow> map_option (\<lambda>r. bnd r (collect_leaf_paths lim)) (topology_loop vs lim s))"

end
