(* ===== verification/Topology_Paths.thy ===== *)
theory Topology_Paths
  imports Recursive_Topology
begin

text \<open>
  The walk over a recursive manifest is correct. Its reference is the inductive predicate \<open>leaf_path\<close>: a
  path names a segment of each view it goes through and ends at a local table, and \<open>n\<close> counts the
  overlays on it. Every view the walk validates costs at least 128 units of work, so the walk ends, on
  cyclic graphs with an error.
\<close>

section \<open>The reference\<close>

definition topology_node_of :: "views \<Rightarrow> topology_limits \<Rightarrow> py_object \<Rightarrow> py_object \<Rightarrow> topology_node compiler_res" where
  "topology_node_of vs lim view owner =
     seq (validate_encoded_view_header vs view owner (limit_digest lim)) (
     bnd (view_structural_buffers vs view) (\<lambda>bs.
     bnd (recursive_segments vs view) (\<lambda>segments.
     seq (reject_if (segments = []) BufferError) (validate_recursive_topology_node vs view owner bs segments))))"

inductive leaf_path :: "views \<Rightarrow> topology_limits \<Rightarrow> py_object \<Rightarrow> py_object \<Rightarrow> leaf_selection \<Rightarrow> usize list \<Rightarrow> nat \<Rightarrow> bool"
  for vs lim where
  leaf_here: "topology_node_of vs lim view owner = Inr node \<Longrightarrow> leaf_of_node (retain_empty lim) node = Some i \<Longrightarrow>
    leaf_path vs lim view owner selection [i] (overlay_increment node)"
| leaf_below: "topology_node_of vs lim view owner = Inr node \<Longrightarrow> child \<in> set (node_children node) \<Longrightarrow>
    leaf_path vs lim (child_view child) (child_owner child) (child_selection child) p n \<Longrightarrow>
    leaf_path vs lim view owner All_Leaves (child_segment child # p) (overlay_increment node + n)"

definition resolves :: "views \<Rightarrow> topology_limits \<Rightarrow> py_object \<Rightarrow> py_object \<Rightarrow> leaf_selection \<Rightarrow> resolved_topology \<Rightarrow> bool" where
  "resolves vs lim view owner selection r \<longleftrightarrow>
     set (leaf_paths r) = {p. \<exists>n. leaf_path vs lim view owner selection p n} \<and>
     (\<forall>p n. leaf_path vs lim view owner selection p n \<longrightarrow> n \<le> overlay_span r)"

section \<open>Reading a view\<close>

lemma fold_res_increases:
  fixes f :: "'a \<Rightarrow> nat \<Rightarrow> 'e + nat"
  assumes "fold_res f xs n = Inr m" and "\<And>x n m. f x n = Inr m \<Longrightarrow> n + k \<le> m"
  shows "n + k * length xs \<le> m"
  using assms(1)
proof (induction xs arbitrary: n)
  case (Cons x xs)
  then obtain n1 where "f x n = Inr n1" "fold_res f xs n1 = Inr m" by (auto simp: bnd_eq_Inr)
  with Cons.IH assms(2) [of x n n1] show ?case by fastforce
qed simp

lemma manifest_work_positive:
  assumes "recursive_manifest_validation_work bs segments = Inr n" and "segments \<noteq> []"
  shows "128 \<le> n"
proof -
  from assms(1) obtain k where f: "fold_res (\<lambda>segment n. bnd (segment_work segment) (\<lambda>k. ok_or MemoryError (checked_add n k))) segments k = Inr n"
    by (auto simp: recursive_manifest_validation_work_def bnd_eq_Inr)
  have "k + 128 * length segments \<le> n"
    by (rule fold_res_increases [OF f]) (auto simp: segment_work_def res_simps checked_add_def split: if_splits option.splits)
  moreover from assms(2) have "1 \<le> length segments" by (cases segments) auto
  ultimately show ?thesis by linarith
qed

lemma node_owner_kept:
  "validate_recursive_topology_node vs view owner bs segments = Inr node \<Longrightarrow> node_owner node = owner"
  by (auto simp: validate_recursive_topology_node_def direct_node_def overlay_node_def composite_node_def Let_def res_simps
      split: if_splits list.splits)

lemma read_topology_node_Inr:
  assumes "read_topology_node vs lim view owner work = Inr (node, work')"
  shows "topology_node_of vs lim view owner = Inr node" and "node_owner node = owner"
    and "work + 128 \<le> work'" and "work' \<le> limit_work lim"
  using assms manifest_work_positive node_owner_kept
  by (force simp: read_topology_node_def topology_node_of_def res_simps checked_add_def split: if_splits)+

section \<open>What a frame has gathered\<close>

text \<open>The paths of the first \<open>k\<close> children and of the view's own leaf.\<close>

definition gathered :: "views \<Rightarrow> topology_limits \<Rightarrow> topology_frame \<Rightarrow> nat \<Rightarrow> bool" where
  "gathered vs lim f k \<longleftrightarrow> (let node = frame_node f in
     set (frame_paths f) = {p. \<exists>i. leaf_of_node (retain_empty lim) node = Some i \<and> p = [i]} \<union>
       {child_segment c # p | c p n. c \<in> set (take k (node_children node)) \<and>
          leaf_path vs lim (child_view c) (child_owner c) (child_selection c) p n} \<and>
     overlay_increment node \<le> frame_span f \<and>
     (\<forall>c \<in> set (take k (node_children node)). \<forall>p n.
        leaf_path vs lim (child_view c) (child_owner c) (child_selection c) p n \<longrightarrow> overlay_increment node + n \<le> frame_span f))"

lemma gathered_resolves:
  assumes "topology_node_of vs lim view owner = Inr (frame_node f)"
    and "gathered vs lim f (if selection = All_Leaves then length (node_children (frame_node f)) else 0)"
  shows "resolves vs lim view owner selection \<lparr>leaf_paths = frame_paths f, overlay_span = frame_span f\<rparr>"
proof -
  let ?node = "frame_node f"
  have iff: "leaf_path vs lim view owner selection p n \<longleftrightarrow>
      (\<exists>i. leaf_of_node (retain_empty lim) ?node = Some i \<and> p = [i] \<and> n = overlay_increment ?node) \<or>
      (selection = All_Leaves \<and> (\<exists>c \<in> set (node_children ?node). \<exists>p' n'.
         leaf_path vs lim (child_view c) (child_owner c) (child_selection c) p' n' \<and>
         p = child_segment c # p' \<and> n = overlay_increment ?node + n'))" for p n
    using assms(1) by (subst leaf_path.simps) auto
  have "set (frame_paths f) = {p. \<exists>n. leaf_path vs lim view owner selection p n}"
    using assms(2) unfolding gathered_def Let_def iff by (cases selection) (auto, blast)
  moreover have "n \<le> frame_span f" if "leaf_path vs lim view owner selection p n" for p n
    using assms(2) that unfolding gathered_def Let_def iff by (cases selection) auto
  ultimately show ?thesis by (simp add: resolves_def)
qed

lemma recursive_topology_frame_Inr:
  assumes "recursive_topology_frame lim view selection node depth = Inr f"
  shows "frame_identity f = view" and "frame_selection f = selection" and "frame_node f = node"
    and "next_child f = (if selection = All_Leaves then 0 else length (node_children node))"
    and "pending_child_index f = None" and "absolute_overlay_depth f = depth + overlay_increment node"
    and "frame_span f = overlay_increment node" and "absolute_overlay_depth f \<le> limit_depth lim"
    and "gathered vs lim f 0"
  using assms by (auto simp: recursive_topology_frame_def Let_def res_simps checked_add_def gathered_def
      split: if_splits option.splits)

lemma merge_recursive_topology_Inr:
  assumes "merge_recursive_topology lim f segment_index r = Inr f'"
  shows "f' = f\<lparr>frame_span := max (frame_span f) (overlay_increment (frame_node f) + overlay_span r),
      frame_paths := frame_paths f @ map ((#) segment_index) (leaf_paths r)\<rparr>"
    and "absolute_overlay_depth f + overlay_span r \<le> limit_depth lim"
  using assms by (auto simp: merge_recursive_topology_def res_simps checked_add_def split: if_splits)

lemma gathered_merge:
  assumes g: "gathered vs lim f k" and k: "k < length (node_children (frame_node f))"
    and c: "c = node_children (frame_node f) ! k" and r: "resolves vs lim (child_view c) (child_owner c) (child_selection c) r"
    and m: "merge_recursive_topology lim f (child_segment c) r = Inr f'"
  shows "gathered vs lim f' (Suc k)"
proof -
  note f' = merge_recursive_topology_Inr(1) [OF m]
  have t: "set (take (Suc k) (node_children (frame_node f))) = insert c (set (take k (node_children (frame_node f))))"
    using k c by (simp add: take_Suc_conv_app_nth)
  have "{child_segment c' # p | c' p n. c' \<in> insert c (set (take k (node_children (frame_node f)))) \<and>
        leaf_path vs lim (child_view c') (child_owner c') (child_selection c') p n} =
      {child_segment c' # p | c' p n. c' \<in> set (take k (node_children (frame_node f))) \<and>
        leaf_path vs lim (child_view c') (child_owner c') (child_selection c') p n} \<union> (#) (child_segment c) ` set (leaf_paths r)"
    using r by (auto simp: resolves_def)
  with g r show ?thesis
    unfolding gathered_def Let_def f' by (simp add: t resolves_def Un_assoc) (fastforce simp: le_max_iff_disj)
qed

section \<open>The invariant of the walk\<close>

definition nodes_ok :: "views \<Rightarrow> topology_limits \<Rightarrow> topology_state \<Rightarrow> bool" where
  "nodes_ok vs lim s \<longleftrightarrow> (\<forall>v node. validated_nodes s v = Some node \<longrightarrow> topology_node_of vs lim v (node_owner node) = Inr node) \<and>
     finite (dom (validated_nodes s)) \<and> 128 * card (dom (validated_nodes s)) \<le> validated_work s \<and>
     validated_work s \<le> limit_work lim"

definition cache_ok :: "views \<Rightarrow> topology_limits \<Rightarrow> topology_state \<Rightarrow> bool" where
  "cache_ok vs lim s \<longleftrightarrow> (\<forall>v selection r. resolved_topologies s (v, selection) = Some r \<longrightarrow>
     (\<exists>node. validated_nodes s v = Some node \<and> resolves vs lim v (node_owner node) selection r))"

text \<open>How many children of a frame are merged: all it has passed but for the one it waits for.\<close>

definition merged_children :: "topology_frame \<Rightarrow> nat" where
  "merged_children f = (if frame_selection f = Local_Only then 0
     else next_child f - (if pending_child_index f = None then 0 else 1))"

definition frame_ok :: "views \<Rightarrow> topology_limits \<Rightarrow> topology_state \<Rightarrow> topology_frame \<Rightarrow> bool" where
  "frame_ok vs lim s f \<longleftrightarrow> validated_nodes s (frame_identity f) = Some (frame_node f) \<and>
     next_child f \<le> length (node_children (frame_node f)) \<and>
     (frame_selection f = Local_Only \<longrightarrow> next_child f = length (node_children (frame_node f))) \<and>
     gathered vs lim f (merged_children f)"

definition waits_for :: "topology_frame \<Rightarrow> topology_frame \<Rightarrow> bool" where
  "waits_for lower upper \<longleftrightarrow> frame_selection lower = All_Leaves \<and> 0 < next_child lower \<and>
     (let c = node_children (frame_node lower) ! (next_child lower - 1) in
        pending_child_index lower = Some (child_segment c) \<and> child_view c = frame_identity upper \<and>
        child_selection c = frame_selection upper \<and> child_owner c = node_owner (frame_node upper))"

fun linked :: "topology_frame list \<Rightarrow> bool" where
  "linked (upper # lower # rest) \<longleftrightarrow> waits_for lower upper \<and> linked (lower # rest)"
| "linked _ \<longleftrightarrow> True"

definition root_frame_ok :: "topology_limits \<Rightarrow> py_object \<Rightarrow> py_object \<Rightarrow> topology_frame \<Rightarrow> bool" where
  "root_frame_ok lim manifest owner f \<longleftrightarrow> frame_identity f = manifest \<and> frame_selection f = All_Leaves \<and>
     node_owner (frame_node f) = owner \<and> absolute_overlay_depth f = overlay_increment (frame_node f) \<and>
     frame_span f \<le> limit_depth lim"

definition frame_key :: "topology_frame \<Rightarrow> py_object \<times> leaf_selection" where
  "frame_key f = (frame_identity f, frame_selection f)"

definition topology_ok :: "views \<Rightarrow> topology_limits \<Rightarrow> py_object \<Rightarrow> py_object \<Rightarrow> topology_state \<Rightarrow> bool" where
  "topology_ok vs lim manifest owner s \<longleftrightarrow> nodes_ok vs lim s \<and> cache_ok vs lim s \<and> topology_stack s \<noteq> [] \<and>
     active_objects s = frame_identity ` set (topology_stack s) \<and> distinct (map frame_identity (topology_stack s)) \<and>
     list_all (frame_ok vs lim s) (topology_stack s) \<and> linked (topology_stack s) \<and>
     pending_child_index (hd (topology_stack s)) = None \<and> root_frame_ok lim manifest owner (last (topology_stack s)) \<and>
     list_all (\<lambda>f. resolved_topologies s (frame_key f) = None) (topology_stack s)"

text \<open>Reading a view keeps everything and makes the view known.\<close>

lemma recursive_topology_node_ok:
  assumes r: "recursive_topology_node vs lim view owner s = Inr (node, s')" and ok: "nodes_ok vs lim s"
  shows "nodes_ok vs lim s'" and "validated_nodes s' view = Some node" and "node_owner node = owner"
    and "topology_node_of vs lim view owner = Inr node"
    and "validated_nodes s v = Some n \<Longrightarrow> validated_nodes s' v = Some n"
    and "resolved_topologies s' = resolved_topologies s" and "active_objects s' = active_objects s"
    and "topology_stack s' = topology_stack s"
proof -
  have "nodes_ok vs lim s' \<and> validated_nodes s' view = Some node \<and> node_owner node = owner \<and>
      topology_node_of vs lim view owner = Inr node \<and>
      (validated_nodes s v = Some n \<longrightarrow> validated_nodes s' v = Some n) \<and>
      resolved_topologies s' = resolved_topologies s \<and> active_objects s' = active_objects s \<and> topology_stack s' = topology_stack s"
  proof (cases "validated_nodes s view")
    case None
    with r obtain work where n: "read_topology_node vs lim view owner (validated_work s) = Inr (node, work)"
      and s': "s' = s\<lparr>validated_nodes := (validated_nodes s)(view \<mapsto> node), validated_work := work\<rparr>"
      by (auto simp: recursive_topology_node_def res_simps)
    note node = read_topology_node_Inr [OF n]
    from None have "card (dom (validated_nodes s')) = Suc (card (dom (validated_nodes s)))"
      using ok by (simp add: s' nodes_ok_def domIff)
    with ok node None show ?thesis by (auto simp: nodes_ok_def s')
  next
    case (Some node')
    with r have "node = node'" "s' = s" "node_owner node = owner"
      by (auto simp: recursive_topology_node_def split: if_splits)
    with Some ok show ?thesis by (auto simp: nodes_ok_def)
  qed
  then show "nodes_ok vs lim s'" "validated_nodes s' view = Some node" "node_owner node = owner"
    "topology_node_of vs lim view owner = Inr node"
    "validated_nodes s v = Some n \<Longrightarrow> validated_nodes s' v = Some n"
    "resolved_topologies s' = resolved_topologies s" "active_objects s' = active_objects s"
    "topology_stack s' = topology_stack s" by blast+
qed

lemma cache_ok_extend:
  assumes "cache_ok vs lim s" and "\<And>v n. validated_nodes s v = Some n \<Longrightarrow> validated_nodes s' v = Some n"
    and "resolved_topologies s' = resolved_topologies s"
  shows "cache_ok vs lim s'"
  using assms unfolding cache_ok_def by metis

lemma frame_ok_extend:
  assumes "frame_ok vs lim s f" and "\<And>v n. validated_nodes s v = Some n \<Longrightarrow> validated_nodes s' v = Some n"
  shows "frame_ok vs lim s' f"
  using assms unfolding frame_ok_def by blast

text \<open>A merge of the next child moves a frame on.\<close>

lemma frame_ok_merge:
  assumes f: "frame_ok vs lim s f" and k: "merged_children f = k" "k < length (node_children (frame_node f))"
    and c: "c = node_children (frame_node f) ! k" and a: "frame_selection f = All_Leaves"
    and r: "resolves vs lim (child_view c) (child_owner c) (child_selection c) r"
    and m: "merge_recursive_topology lim (f\<lparr>next_child := Suc k, pending_child_index := None\<rparr>) (child_segment c) r = Inr f'"
  shows "frame_ok vs lim s f'" and "next_child f' = Suc k" and "pending_child_index f' = None" and "frame_key f' = frame_key f"
    and "frame_node f' = frame_node f" and "root_frame_ok lim manifest owner f \<Longrightarrow> root_frame_ok lim manifest owner f'"
proof -
  let ?g = "f\<lparr>next_child := Suc k, pending_child_index := None\<rparr>"
  note e = merge_recursive_topology_Inr [OF m]
  have g: "gathered vs lim ?g k" using f k by (simp add: frame_ok_def gathered_def)
  have "gathered vs lim f' (Suc k)" by (rule gathered_merge [OF g _ _ r m]) (use k c in simp_all)
  then show "frame_ok vs lim s f'" using f k a by (simp add: frame_ok_def merged_children_def e(1))
  show "next_child f' = Suc k" "pending_child_index f' = None" "frame_key f' = frame_key f" "frame_node f' = frame_node f"
    by (simp_all add: e(1) frame_key_def)
  show "root_frame_ok lim manifest owner f \<Longrightarrow> root_frame_ok lim manifest owner f'"
    using e(2) by (simp add: root_frame_ok_def e(1))
qed

section \<open>Steps keep the invariant\<close>

lemma linked_replace:
  assumes "linked (f # rest)" and "frame_key f' = frame_key f" and "frame_node f' = frame_node f"
  shows "linked (f' # rest)"
  using assms by (cases rest) (auto simp: waits_for_def frame_key_def)

lemma topology_ok_top:
  assumes ok: "topology_ok vs lim manifest owner s" and st: "topology_stack s = f # rest"
    and n: "nodes_ok vs lim s'" and c: "cache_ok vs lim s'" and st': "topology_stack s' = f' # rest"
    and e: "\<And>v n. validated_nodes s v = Some n \<Longrightarrow> validated_nodes s' v = Some n"
    and same: "resolved_topologies s' = resolved_topologies s" "active_objects s' = active_objects s"
    and f': "frame_ok vs lim s' f'" "pending_child_index f' = None" "frame_key f' = frame_key f" "frame_node f' = frame_node f"
      "root_frame_ok lim manifest owner f \<Longrightarrow> root_frame_ok lim manifest owner f'"
  shows "topology_ok vs lim manifest owner s'"
proof -
  from ok st have old: "list_all (frame_ok vs lim s) rest" "linked (f # rest)"
    "active_objects s = frame_identity ` set (f # rest)" "distinct (map frame_identity (f # rest))"
    "root_frame_ok lim manifest owner (last (f # rest))" "list_all (\<lambda>f. resolved_topologies s (frame_key f) = None) (f # rest)"
    by (simp_all add: topology_ok_def)
  have i: "frame_identity f' = frame_identity f" using f'(3) by (simp add: frame_key_def)
  have "list_all (frame_ok vs lim s') rest" using old(1) frame_ok_extend e by (auto simp: list_all_iff)
  moreover have "root_frame_ok lim manifest owner (last (f' # rest))" using old(5) f'(5) by (auto split: if_splits)
  ultimately show ?thesis
    using n c f' same old linked_replace [OF old(2) f'(3,4)] by (simp add: topology_ok_def st' i)
qed

lemma visit_cached_ok:
  assumes ok: "topology_ok vs lim manifest owner s" and st: "topology_stack s = f # rest"
    and k: "next_child f < length (node_children (frame_node f))" and c: "c = node_children (frame_node f) ! next_child f"
    and n: "recursive_topology_node vs lim (child_view c) (child_owner c) s = Inr (node, s1)"
    and r: "resolved_topologies s1 (child_view c, child_selection c) = Some cached"
    and m: "merge_recursive_topology lim (f\<lparr>next_child := next_child f + 1\<rparr>) (child_segment c) cached = Inr f'"
  shows "topology_ok vs lim manifest owner (s1\<lparr>topology_stack := f' # rest\<rparr>)" and "next_child f' = Suc (next_child f)"
    and "frame_node f' = frame_node f" and "frame_key f' = frame_key f"
proof -
  from ok st have no: "nodes_ok vs lim s" and co: "cache_ok vs lim s" and fo: "frame_ok vs lim s f"
    and pend: "pending_child_index f = None" by (simp_all add: topology_ok_def)
  note read = recursive_topology_node_ok [OF n no]
  have co1: "cache_ok vs lim s1" using cache_ok_extend [OF co] read(5,6) by blast
  have all: "frame_selection f = All_Leaves" using fo k by (cases "frame_selection f") (auto simp: frame_ok_def)
  have merged: "merged_children f = next_child f" using all pend by (simp add: merged_children_def)
  have res: "resolves vs lim (child_view c) (child_owner c) (child_selection c) cached"
    using co1 r read(2,3) by (fastforce simp: cache_ok_def)
  have "f\<lparr>next_child := next_child f + 1\<rparr> = f\<lparr>next_child := Suc (next_child f), pending_child_index := None\<rparr>"
    using pend by (cases f) simp
  note merge = frame_ok_merge [OF frame_ok_extend [OF fo read(5)] merged k c all res m [unfolded this]]
  show "topology_ok vs lim manifest owner (s1\<lparr>topology_stack := f' # rest\<rparr>)"
  proof (rule topology_ok_top [OF ok st, where f' = f'])
    show "frame_ok vs lim (s1\<lparr>topology_stack := f' # rest\<rparr>) f'" using merge(1) by (simp add: frame_ok_def)
    show "nodes_ok vs lim (s1\<lparr>topology_stack := f' # rest\<rparr>)" "cache_ok vs lim (s1\<lparr>topology_stack := f' # rest\<rparr>)"
      using read(1) co1 by (simp_all add: nodes_ok_def cache_ok_def)
  qed (use read merge in simp_all)
  show "next_child f' = Suc (next_child f)" "frame_node f' = frame_node f" "frame_key f' = frame_key f" using merge by simp_all
qed

lemma visit_push_ok:
  assumes ok: "topology_ok vs lim manifest owner s" and st: "topology_stack s = f # rest"
    and k: "next_child f < length (node_children (frame_node f))" and c: "c = node_children (frame_node f) ! next_child f"
    and a: "child_view c \<notin> active_objects s"
    and n: "recursive_topology_node vs lim (child_view c) (child_owner c) s = Inr (node, s1)"
    and r: "resolved_topologies s1 (child_view c, child_selection c) = None"
    and new: "recursive_topology_frame lim (child_view c) (child_selection c) node depth = Inr h"
    and lower: "lower = f\<lparr>next_child := next_child f + 1, pending_child_index := Some (child_segment c)\<rparr>"
    and s': "s' = s1\<lparr>active_objects := insert (child_view c) (active_objects s1), topology_stack := h # lower # rest\<rparr>"
  shows "topology_ok vs lim manifest owner s'" and "frame_key h = (child_view c, child_selection c)"
proof -
  from ok st have no: "nodes_ok vs lim s" and co: "cache_ok vs lim s" and fo: "frame_ok vs lim s f"
    and fr: "list_all (frame_ok vs lim s) rest" and pend: "pending_child_index f = None"
    and old: "active_objects s = frame_identity ` set (f # rest)" "distinct (map frame_identity (f # rest))" "linked (f # rest)"
      "root_frame_ok lim manifest owner (last (f # rest))" "list_all (\<lambda>f. resolved_topologies s (frame_key f) = None) (f # rest)"
    by (simp_all add: topology_ok_def)
  note read = recursive_topology_node_ok [OF n no]
  note h = recursive_topology_frame_Inr [OF new]
  have all: "frame_selection f = All_Leaves" using fo k by (cases "frame_selection f") (auto simp: frame_ok_def)
  have "nodes_ok vs lim s'" "cache_ok vs lim s'"
    using read(1) cache_ok_extend [OF co read(5,6)] by (simp_all add: nodes_ok_def cache_ok_def s')
  moreover have ext: "\<And>v n. validated_nodes s v = Some n \<Longrightarrow> validated_nodes s' v = Some n" using read(5) by (simp add: s')
  have "frame_ok vs lim s' h"
    using read(2) h by (cases "child_selection c") (simp_all add: frame_ok_def merged_children_def s')
  moreover have "frame_ok vs lim s' lower"
    using fo k all ext pend by (auto simp: frame_ok_def merged_children_def lower gathered_def)
  moreover have "list_all (frame_ok vs lim s') rest" using fr frame_ok_extend ext by (auto simp: list_all_iff)
  moreover have "linked (h # lower # rest)"
    using linked_replace [OF old(3), of lower] all h read(3) c by (simp add: waits_for_def lower frame_key_def Let_def)
  moreover have "root_frame_ok lim manifest owner (last (h # lower # rest))"
    using old(4) by (auto simp: lower root_frame_ok_def split: if_splits)
  moreover have "frame_identity lower = frame_identity f" "frame_key lower = frame_key f" by (simp_all add: lower frame_key_def)
  ultimately show "topology_ok vs lim manifest owner s'"
    using a old r h read(6,7) by (simp add: topology_ok_def s' frame_key_def)
  show "frame_key h = (child_view c, child_selection c)" using h by (simp add: frame_key_def)
qed

lemma leave_resolves:
  assumes ok: "topology_ok vs lim manifest owner s" and st: "topology_stack s = f # rest"
    and k: "\<not> next_child f < length (node_children (frame_node f))"
  shows "resolves vs lim (frame_identity f) (node_owner (frame_node f)) (frame_selection f)
    \<lparr>leaf_paths = frame_paths f, overlay_span = frame_span f\<rparr>"
proof -
  from ok st have fo: "frame_ok vs lim s f" and no: "nodes_ok vs lim s" and pend: "pending_child_index f = None"
    by (simp_all add: topology_ok_def)
  have "topology_node_of vs lim (frame_identity f) (node_owner (frame_node f)) = Inr (frame_node f)"
    using fo no by (simp add: frame_ok_def nodes_ok_def)
  then show ?thesis
    by (rule gathered_resolves) (use fo k pend in \<open>cases "frame_selection f"; simp add: frame_ok_def merged_children_def\<close>)
qed

lemma leave_pop_ok:
  assumes ok: "topology_ok vs lim manifest owner s" and st: "topology_stack s = f # parent # below"
    and k: "\<not> next_child f < length (node_children (frame_node f))"
    and r: "r = \<lparr>leaf_paths = frame_paths f, overlay_span = frame_span f\<rparr>"
    and m: "merge_recursive_topology lim (parent\<lparr>pending_child_index := None\<rparr>) segment_index r = Inr parent'"
    and w: "pending_child_index parent = Some segment_index"
    and s': "s' = s\<lparr>active_objects := active_objects s - {frame_identity f},
      resolved_topologies := (resolved_topologies s)(frame_key f \<mapsto> r), topology_stack := parent' # below\<rparr>"
  shows "topology_ok vs lim manifest owner s'" and "next_child parent' = next_child parent"
    and "frame_node parent' = frame_node parent" and "frame_key parent' = frame_key parent"
proof -
  from ok st have no: "nodes_ok vs lim s" and co: "cache_ok vs lim s" and fo: "frame_ok vs lim s f" "frame_ok vs lim s parent"
    and fr: "list_all (frame_ok vs lim s) below" and l: "waits_for parent f" "linked (parent # below)"
    and old: "active_objects s = frame_identity ` set (f # parent # below)" "distinct (map frame_identity (f # parent # below))"
      "root_frame_ok lim manifest owner (last (parent # below))"
      "list_all (\<lambda>f. resolved_topologies s (frame_key f) = None) (f # parent # below)"
    by (simp_all add: topology_ok_def)
  define k' where "k' = next_child parent - 1"
  define c where "c = node_children (frame_node parent) ! k'"
  have all: "frame_selection parent = All_Leaves" and pos: "next_child parent = Suc k'" and seg: "segment_index = child_segment c"
    and child: "child_view c = frame_identity f" "child_selection c = frame_selection f" "child_owner c = node_owner (frame_node f)"
    using l(1) w by (auto simp: waits_for_def Let_def c_def k'_def)
  have merged: "merged_children parent = k'" using all w pos by (simp add: merged_children_def)
  have bound: "k' < length (node_children (frame_node parent))" using fo(2) pos by (simp add: frame_ok_def)
  have res: "resolves vs lim (child_view c) (child_owner c) (child_selection c) r"
    using leave_resolves [OF ok st k] by (simp add: child r)
  have same: "parent\<lparr>pending_child_index := None\<rparr> = parent\<lparr>next_child := Suc k', pending_child_index := None\<rparr>"
    using pos by (cases parent) simp
  note merge = frame_ok_merge [OF fo(2) merged bound c_def all res m [unfolded same seg]]
  have "frame_ok vs lim s' parent'" using merge(1) by (simp add: frame_ok_def s')
  moreover have "list_all (frame_ok vs lim s') below" using fr by (simp add: frame_ok_def s' list_all_iff)
  moreover have "nodes_ok vs lim s'" using no by (simp add: nodes_ok_def s')
  moreover have "cache_ok vs lim s'"
    using co fo(1) res by (auto simp: cache_ok_def s' frame_key_def frame_ok_def child split: if_splits)
  moreover have "linked (parent' # below)" by (rule linked_replace [OF l(2) merge(4,5)])
  moreover have "root_frame_ok lim manifest owner (last (parent' # below))" using old(3) merge(6) by (auto split: if_splits)
  moreover have "frame_identity parent' = frame_identity parent" using merge(4) by (simp add: frame_key_def)
  moreover have "list_all (\<lambda>g. resolved_topologies s' (frame_key g) = None) (parent' # below)"
  proof -
    have "frame_identity g \<noteq> frame_identity f" if "g \<in> set (parent # below)" for g using old(2) that by (auto simp: image_iff)
    with old(4) merge(4) show ?thesis by (fastforce simp: list_all_iff s' frame_key_def)
  qed
  ultimately show "topology_ok vs lim manifest owner s'"
    using old(1,2) merge(3) by (auto simp: topology_ok_def s')
  show "next_child parent' = next_child parent" "frame_node parent' = frame_node parent" "frame_key parent' = frame_key parent"
    using merge pos by simp_all
qed

section \<open>The walk ends\<close>

definition walk_keys :: "topology_state \<Rightarrow> (py_object \<times> leaf_selection) set" where
  "walk_keys s = dom (resolved_topologies s) \<union> frame_key ` set (topology_stack s)"

definition left_to_visit :: "topology_frame list \<Rightarrow> nat" where
  "left_to_visit fs = sum_list (map (\<lambda>f. length (node_children (frame_node f)) - next_child f) fs) + length fs"

definition walk_order :: "topology_limits \<Rightarrow> (topology_state \<times> topology_state) set" where
  "walk_order lim = measures [\<lambda>s. 2 * limit_work lim - card (walk_keys s), \<lambda>s. left_to_visit (topology_stack s)]"

lemma selections_all: "(UNIV :: leaf_selection set) = {All_Leaves, Local_Only}"
  using leaf_selection.exhaust by blast

lemma selections_finite: "finite (UNIV :: leaf_selection set)"
  unfolding selections_all by simp

lemma selections_two: "card (UNIV :: leaf_selection set) = 2"
  unfolding selections_all by simp

lemma walk_keys_bounded:
  assumes "topology_ok vs lim manifest owner s"
  shows "finite (walk_keys s)" and "card (walk_keys s) \<le> 2 * limit_work lim"
proof -
  have sub: "walk_keys s \<subseteq> dom (validated_nodes s) \<times> UNIV"
    using assms by (force simp: walk_keys_def topology_ok_def cache_ok_def list_all_iff frame_ok_def frame_key_def)
  have fin: "finite (dom (validated_nodes s) \<times> (UNIV :: leaf_selection set))"
    and le: "128 * card (dom (validated_nodes s)) \<le> limit_work lim"
    using assms selections_finite by (auto simp: topology_ok_def nodes_ok_def)
  from fin sub show "finite (walk_keys s)" by (rule rev_finite_subset)
  have "card (walk_keys s) \<le> card (dom (validated_nodes s) \<times> (UNIV :: leaf_selection set))" by (rule card_mono [OF fin sub])
  with le show "card (walk_keys s) \<le> 2 * limit_work lim" by (simp add: card_cartesian_product selections_two)
qed

text \<open>A step goes on in a smaller state or ends with the leaves of the manifest.\<close>

lemma topology_step_going:
  assumes ok: "topology_ok vs lim manifest owner s" and step: "topology_step vs lim s = Inr (Going s')"
  shows "topology_ok vs lim manifest owner s'" and "(s', s) \<in> walk_order lim"
proof -
  obtain f rest where st: "topology_stack s = f # rest" using step by (auto simp: topology_step_def split: list.splits)
  have "topology_ok vs lim manifest owner s' \<and> (s', s) \<in> walk_order lim"
  proof (cases "next_child f < length (node_children (frame_node f))")
    case True
    define c where "c = node_children (frame_node f) ! next_child f"
    from step st True have v: "visit_topology_child vs lim c (f\<lparr>next_child := next_child f + 1\<rparr>) rest s = Inr (Going s')"
      by (simp add: topology_step_def c_def)
    then obtain node s1 where a: "child_view c \<notin> active_objects s"
      and n: "recursive_topology_node vs lim (child_view c) (child_owner c) s = Inr (node, s1)"
      by (auto simp: visit_topology_child_def res_simps)
    from ok have no: "nodes_ok vs lim s" by (simp add: topology_ok_def)
    note read = recursive_topology_node_ok(6,7) [OF n no]
    show ?thesis
    proof (cases "resolved_topologies s1 (child_view c, child_selection c)")
      case (Some cached)
      with v a n obtain f' where m: "merge_recursive_topology lim (f\<lparr>next_child := next_child f + 1\<rparr>) (child_segment c) cached = Inr f'"
        and s': "s' = s1\<lparr>topology_stack := f' # rest\<rparr>"
        by (auto simp: visit_topology_child_def res_simps)
      note v = visit_cached_ok [OF ok st True c_def n Some m]
      have "walk_keys s' = walk_keys s" using v(4) read by (simp add: walk_keys_def s' st)
      with v True show ?thesis by (simp add: s' walk_order_def left_to_visit_def st)
    next
      case None
      with v a n obtain h where new: "recursive_topology_frame lim (child_view c) (child_selection c) node (absolute_overlay_depth f) = Inr h"
        and s': "s' = s1\<lparr>active_objects := insert (child_view c) (active_objects s1),
          topology_stack := h # f\<lparr>next_child := next_child f + 1, pending_child_index := Some (child_segment c)\<rparr> # rest\<rparr>"
        by (auto simp: visit_topology_child_def res_simps)
      note p = visit_push_ok [OF ok st True c_def a n None new refl s']
      have keys: "walk_keys s' = insert (child_view c, child_selection c) (walk_keys s)"
        using p(2) read by (auto simp: walk_keys_def s' st frame_key_def)
      have fresh: "(child_view c, child_selection c) \<notin> walk_keys s"
        using None read a ok st by (auto simp: walk_keys_def topology_ok_def frame_key_def)
      have "Suc (card (walk_keys s)) \<le> 2 * limit_work lim"
        using walk_keys_bounded [OF p(1)] walk_keys_bounded(1) [OF ok] fresh by (simp add: keys)
      with p(1) show ?thesis
        using walk_keys_bounded(1) [OF ok] fresh \<open>Suc (card (walk_keys s)) \<le> 2 * limit_work lim\<close>
        by (auto simp: walk_order_def keys intro: diff_less_mono2)
    qed
  next
    case False
    with step st have l: "leave_topology_frame lim f rest s = Inr (Going s')" by (simp add: topology_step_def)
    then obtain parent below segment_index parent' where rest: "rest = parent # below"
      and w: "pending_child_index parent = Some segment_index"
      and m: "merge_recursive_topology lim (parent\<lparr>pending_child_index := None\<rparr>) segment_index
          \<lparr>leaf_paths = frame_paths f, overlay_span = frame_span f\<rparr> = Inr parent'"
      and s': "s' = s\<lparr>active_objects := active_objects s - {frame_identity f},
        resolved_topologies := (resolved_topologies s)(frame_key f \<mapsto> \<lparr>leaf_paths = frame_paths f, overlay_span = frame_span f\<rparr>),
        topology_stack := parent' # below\<rparr>"
      by (auto simp: leave_topology_frame_def Let_def res_simps frame_key_def split: list.splits)
    note p = leave_pop_ok [OF ok st [unfolded rest] False refl m w s']
    have "walk_keys s' = walk_keys s" using p(4) by (auto simp: walk_keys_def s' st rest)
    with p show ?thesis by (simp add: walk_order_def left_to_visit_def st rest s')
  qed
  then show "topology_ok vs lim manifest owner s'" "(s', s) \<in> walk_order lim" by blast+
qed

lemma topology_step_resolved:
  assumes ok: "topology_ok vs lim manifest owner s" and step: "topology_step vs lim s = Inr (Resolved r s')"
  shows "resolves vs lim manifest owner All_Leaves r" and "overlay_span r \<le> limit_depth lim"
    and "validated_work s' \<le> limit_work lim"
proof -
  obtain f rest where st: "topology_stack s = f # rest" using step by (auto simp: topology_step_def split: list.splits)
  have over: "\<not> next_child f < length (node_children (frame_node f))" and empty: "rest = []"
    and r: "r = \<lparr>leaf_paths = frame_paths f, overlay_span = frame_span f\<rparr>" and w: "validated_work s' = validated_work s"
    using step by (auto simp: topology_step_def st visit_topology_child_def leave_topology_frame_def Let_def res_simps
        split: if_splits list.splits option.splits)
  show "resolves vs lim manifest owner All_Leaves r" "overlay_span r \<le> limit_depth lim"
    using leave_resolves [OF ok st over] ok by (auto simp: topology_ok_def st empty root_frame_ok_def r)
  show "validated_work s' \<le> limit_work lim" using ok by (simp add: topology_ok_def nodes_ok_def w)
qed

lemma topology_loop_ok:
  assumes "topology_ok vs lim manifest owner s"
  obtains result where "topology_loop vs lim s = Some result"
    and "\<And>r s'. result = Inr (r, s') \<Longrightarrow> resolves vs lim manifest owner All_Leaves r \<and> overlay_span r \<le> limit_depth lim \<and>
      validated_work s' \<le> limit_work lim"
proof -
  have "wf (walk_order lim)" by (simp add: walk_order_def)
  then have "\<exists>result. topology_loop vs lim s = Some result \<and> (\<forall>r s'. result = Inr (r, s') \<longrightarrow>
      resolves vs lim manifest owner All_Leaves r \<and> overlay_span r \<le> limit_depth lim \<and> validated_work s' \<le> limit_work lim)"
    using assms
  proof (induction s rule: wf_induct_rule)
    case (less s)
    show ?case
    proof (cases "topology_step vs lim s")
      case (Inl e)
      then show ?thesis by (subst topology_loop.simps) simp
    next
      case (Inr progress)
      show ?thesis
      proof (cases progress)
        case (Going s')
        note going = topology_step_going [OF less.prems Inr [unfolded Going]]
        show ?thesis using less.IH [OF going(2,1)] by (subst topology_loop.simps) (simp add: Inr Going)
      next
        case (Resolved r s')
        note resolved = topology_step_resolved [OF less.prems Inr [unfolded Resolved]]
        show ?thesis using resolved by (subst topology_loop.simps) (simp add: Inr Resolved)
      qed
    qed
  qed
  then show thesis using that by blast
qed

lemma topology_start_ok:
  assumes "topology_start vs lim manifest owner = Inr s"
  shows "topology_ok vs lim manifest owner s"
proof -
  let ?s0 = "\<lparr>validated_nodes = (\<lambda>_. None), validated_work = 0, resolved_topologies = (\<lambda>_. None),
            active_objects = {}, topology_stack = []\<rparr> :: topology_state"
  from assms obtain node s1 f where n: "recursive_topology_node vs lim manifest owner ?s0 = Inr (node, s1)"
    and f: "recursive_topology_frame lim manifest All_Leaves node 0 = Inr f"
    and s: "s = s1\<lparr>active_objects := {manifest}, topology_stack := [f]\<rparr>"
    by (auto simp: topology_start_def res_simps)
  have ok0: "nodes_ok vs lim ?s0" by (simp add: nodes_ok_def)
  note read = recursive_topology_node_ok [OF n ok0]
  note frame = recursive_topology_frame_Inr [OF f]
  have "nodes_ok vs lim s" using read(1) by (simp add: nodes_ok_def s)
  moreover have "cache_ok vs lim s" using read(6) by (simp add: cache_ok_def s)
  moreover have "frame_ok vs lim s f" using read(2) frame by (simp add: frame_ok_def s merged_children_def)
  moreover have "root_frame_ok lim manifest owner f" using frame read(3) by (simp add: root_frame_ok_def)
  ultimately show ?thesis using read(6) frame by (simp add: topology_ok_def s)
qed

end
