(* ===== verification/Direct_Manifests.thy ===== *)
theory Direct_Manifests
  imports Manifest_Objects
begin

text \<open>
  The manifests of composites whose members are single tables: two members, two to four members, a
  nested overlay with one or two siblings, and the pairing of a ROOT manifest with its closure. They all
  walk the segments of the manifest, find the retained member of each by the identity of its source and
  compare its selection, scope map and token.
\<close>

record member_binding =
  bound_view :: py_object
  bound_owner :: py_object
  bound_include :: "buffer_object option"
  bound_exclude :: "buffer_object option"
  bound_scope_map :: "buffer_object option"

section \<open>One member\<close>

definition check_selection :: "usize \<Rightarrow> buffer_object \<Rightarrow> usize \<Rightarrow> buffer_object option \<Rightarrow> buffer_object option
    \<Rightarrow> unit compiler_res" where
  "check_selection mode rows row_bytes included excluded = (case (included, excluded) of
     (None, None) \<Rightarrow> reject_if (mode \<noteq> POSTINGS_ALL \<or> row_bytes \<noteq> 0) UnsupportedError
   | (Some expected, None) \<Rightarrow>
       seq (reject_if (mode \<noteq> POSTINGS_INCLUDE \<or> row_bytes = 0) UnsupportedError)
         (reject_if (fst rows \<noteq> fst expected) BufferError)
   | (None, Some expected) \<Rightarrow>
       seq (reject_if (mode \<noteq> POSTINGS_EXCLUDE \<or> row_bytes = 0) UnsupportedError)
         (reject_if (fst rows \<noteq> fst expected) BufferError)
   | (Some _, Some _) \<Rightarrow> Inl BufferError)"

text \<open>\<open>unexpected\<close> is the error for a scope map nobody retained; it differs between the manifests.\<close>

definition check_scope_map :: "compiler_error \<Rightarrow> buffer_object \<Rightarrow> usize \<Rightarrow> buffer_object option \<Rightarrow> unit compiler_res" where
  "check_scope_map unexpected scope_map scope_bytes expected = (case expected of
     None \<Rightarrow> reject_if (scope_bytes \<noteq> 0) unexpected
   | Some e \<Rightarrow> reject_if (scope_bytes = 0 \<or> fst scope_map \<noteq> fst e) BufferError)"

definition read_token :: "manifest_segment \<Rightarrow> bytes compiler_res" where
  "read_token segment = bnd (required (token_attribute segment)) (\<lambda>token. case token of
     ExactToken v \<Rightarrow> if length v = 32 then Inr v else Inl BufferError
   | _ \<Rightarrow> Inl BufferError)"

definition follow_token :: "bytes option \<Rightarrow> bytes \<Rightarrow> bytes option compiler_res" where
  "follow_token previous token =
     (if case previous of None \<Rightarrow> False | Some p \<Rightarrow> token \<le> p then Inl BufferError else Inr (Some token))"

section \<open>All members\<close>

type_synonym member_scan = "bool list \<times> bytes option"

definition find_member :: "bool \<Rightarrow> member_binding list \<Rightarrow> usize \<Rightarrow> py_object option \<Rightarrow> usize compiler_res" where
  "find_member ordered members index source =
     (if ordered then
        bnd (ok_or BufferError (get_at members index)) (\<lambda>member.
        if source = Some (bound_view member) then Inr index else Inl BufferError)
      else ok_or BufferError (map_option fst (List.find (\<lambda>(_, member). source = Some (bound_view member)) (enumerate 0 members))))"

definition match_member :: "compiler_error \<Rightarrow> bool \<Rightarrow> member_binding list \<Rightarrow> usize \<times> manifest_segment \<Rightarrow> member_scan
    \<Rightarrow> member_scan compiler_res" where
  "match_member unexpected ordered members entry s = (case (entry, s) of ((index, segment), matched, previous) \<Rightarrow>
     bnd (required (role_attribute segment)) (\<lambda>role.
     seq (reject_if (role \<noteq> COMPOSITE_MEMBER_SEGMENT) UnsupportedError) (
     bnd (required (source_attribute segment)) (\<lambda>source.
     bnd (find_member ordered members index source) (\<lambda>member_index.
     seq (reject_if (matched ! member_index) BufferError) (
     let member = members ! member_index in
     bnd (required (owner_attribute segment)) (\<lambda>owner.
     seq (reject_if (owner \<noteq> bound_owner member) BufferError) (
     bnd (required (posting_attribute segment)) (\<lambda>mode.
     bnd (required (root_ids_attribute segment)) (\<lambda>root_ids.
     bnd (checked_memoryview_length (snd root_ids)) (\<lambda>root_id_bytes.
     seq (check_selection mode root_ids root_id_bytes (bound_include member) (bound_exclude member)) (
     bnd (required (scope_map_attribute segment)) (\<lambda>scope_map.
     bnd (checked_memoryview_length (snd scope_map)) (\<lambda>scope_bytes.
     seq (check_scope_map unexpected scope_map scope_bytes (bound_scope_map member)) (
     bnd (read_token segment) (\<lambda>token.
     map_res (Pair (matched[member_index := True])) (follow_token previous token)))))))))))))))))"

definition match_members :: "compiler_error \<Rightarrow> bool \<Rightarrow> views \<Rightarrow> py_object \<Rightarrow> member_binding list \<Rightarrow> unit compiler_res" where
  "match_members unexpected ordered vs view members =
     bnd (view_structural_buffers vs view) (\<lambda>local_buffers.
     seq (reject_if (\<not> empty_local_columns local_buffers) UnsupportedError) (
     bnd (required (view_segments (vs view))) (\<lambda>segments.
     seq (reject_if (length segments \<noteq> length members) UnsupportedError) (
     bnd (fold_res (match_member unexpected ordered members) (enumerate 0 segments) (replicate (length members) False, None))
       (\<lambda>(matched, _). reject_if (\<not> list_all id matched) BufferError)))))"

section \<open>The manifests\<close>

definition validate_two_member_composite_manifest :: "views \<Rightarrow> py_object \<Rightarrow> py_object \<Rightarrow> bytes option \<Rightarrow> member_binding
    \<Rightarrow> member_binding \<Rightarrow> unit compiler_res" where
  "validate_two_member_composite_manifest vs view owner digest left right =
     seq (validate_encoded_view_header vs view owner digest) (
     seq (reject_if (bound_view left = bound_view right \<or> bound_owner left = bound_owner right) UnsupportedError) (
     match_members UnsupportedError False vs view [left, right]))"

definition validate_direct_member_composite_manifest :: "views \<Rightarrow> py_object \<Rightarrow> py_object \<Rightarrow> bytes option
    \<Rightarrow> member_binding list \<Rightarrow> bool \<Rightarrow> unit compiler_res" where
  "validate_direct_member_composite_manifest vs view owner digest members ordered =
     seq (reject_if (length members < 2) UnsupportedError) (
     seq (validate_encoded_view_header vs view owner digest) (
     seq (reject_if (\<not> distinct (map bound_view members) \<or> \<not> distinct (map bound_owner members)) UnsupportedError) (
     match_members BufferError ordered vs view members)))"

text \<open>The nested member comes first among the bindings; the base it overlays is only compared.\<close>

definition validate_nested_member_composite_manifest :: "views \<Rightarrow> py_object \<Rightarrow> py_object \<Rightarrow> bytes option
    \<Rightarrow> py_object \<times> py_object \<Rightarrow> py_object \<times> py_object \<Rightarrow> buffer_object option
    \<Rightarrow> (py_object \<times> py_object \<times> buffer_object option) list \<Rightarrow> buffer_object option \<Rightarrow> buffer_object option
    \<Rightarrow> unit compiler_res" where
  "validate_nested_member_composite_manifest vs view owner digest nested base nested_excluded siblings left_map right_map =
     seq (validate_encoded_view_header vs view owner digest) (
     seq (reject_if (length siblings \<noteq> 1 \<and> length siblings \<noteq> 2) UnsupportedError) (
     seq (reject_if ((left_map \<noteq> None) \<noteq> (right_map \<noteq> None)) BufferError) (
     seq (reject_if (\<not> distinct (fst nested # fst base # map fst siblings) \<or>
            \<not> distinct (snd nested # snd base # map (fst \<circ> snd) siblings)) UnsupportedError) (
     match_members UnsupportedError False vs view
       (\<lparr>bound_view = fst nested, bound_owner = snd nested, bound_include = None, bound_exclude = nested_excluded,
         bound_scope_map = left_map\<rparr> #
        map (\<lambda>(i, v, owned_by, excluded). \<lparr>bound_view = v, bound_owner = owned_by, bound_include = None, bound_exclude = excluded,
          bound_scope_map = (if i = 0 then right_map else None)\<rparr>) (enumerate 0 siblings))))))"

definition paired_member :: "manifest_segment \<times> manifest_segment \<Rightarrow> unit compiler_res" where
  "paired_member pair = (case pair of (closure, root) \<Rightarrow>
     bnd (required (role_attribute closure)) (\<lambda>closure_role.
     bnd (required (role_attribute root)) (\<lambda>root_role.
     bnd (required (owner_attribute closure)) (\<lambda>closure_owner.
     bnd (required (owner_attribute root)) (\<lambda>root_owner.
     bnd (required (token_attribute closure)) (\<lambda>closure_token.
     bnd (required (token_attribute root)) (\<lambda>root_token.
     seq (reject_if (closure_role \<noteq> COMPOSITE_MEMBER_SEGMENT \<or> root_role \<noteq> COMPOSITE_MEMBER_SEGMENT \<or>
            closure_owner \<noteq> root_owner) BufferError)
       (case (closure_token, root_token) of
          (ExactToken a, ExactToken b) \<Rightarrow> reject_if (a \<noteq> b) BufferError
        | _ \<Rightarrow> Inl BufferError))))))))"

definition validate_paired_composite_manifests :: "views \<Rightarrow> py_object \<Rightarrow> py_object \<Rightarrow> py_object \<Rightarrow> py_object \<Rightarrow> usize
    \<Rightarrow> unit compiler_res" where
  "validate_paired_composite_manifests vs closure_view closure_owner root_view root_owner member_count =
     seq (reject_if (closure_owner \<noteq> root_owner) BufferError) (
     bnd (required (view_segments (vs closure_view))) (\<lambda>closure_segments.
     bnd (required (view_segments (vs root_view))) (\<lambda>root_segments.
     seq (reject_if (length closure_segments \<noteq> member_count \<or> length root_segments \<noteq> member_count) BufferError)
       (for_each paired_member (zip closure_segments root_segments)))))"

end
