(* ===== verification/Recursive_Plans.thy ===== *)
theory Recursive_Plans
  imports Recursive_Topology
begin

text \<open>
  The tables a caller retains for a dynamic composite, one row each, and the validation of the rows of a
  recursive manifest (\<open>native/src/lib.rs\<close>): every row names the path of its table, the walk along
  the path must end at the retained view, and the selections and scope maps met on the way must be the
  retained objects. A ROOT manifest is compared with its closure, coordinate by coordinate.
\<close>

section \<open>Rows\<close>

text \<open>A path that is no exact tuple is \<open>None\<close>, a coordinate that is no exact integer of the range as well.\<close>

type_synonym raw_path = "usize option list option"

record member_row =
  row_view :: py_object
  row_owner :: py_object
  row_digest :: "bytes option"
  row_included :: "buffer_object option"
  row_excluded :: "buffer_object option"

datatype composite_row =
    NoExactTuple
  | OtherWidth usize
  | SixFields member_row "buffer_object option"
  | SevenFields member_row "buffer_object list option" raw_path

record dynamic_member =
  leaf_view :: py_object
  leaf_owner :: py_object
  leaf_digest :: "bytes option"
  leaf_included :: "buffer_object option"
  leaf_excluded :: "buffer_object option"
  leaf_scope_map :: "buffer_object option"
  leaf_scope_chain :: "buffer_object list option"
  leaf_route :: "raw_path option"

definition member_of_row :: "member_row \<Rightarrow> buffer_object option \<Rightarrow> buffer_object list option \<Rightarrow> raw_path option \<Rightarrow> dynamic_member" where
  "member_of_row row scope_map chain route =
     \<lparr>leaf_view = row_view row, leaf_owner = row_owner row, leaf_digest = row_digest row,
      leaf_included = row_included row, leaf_excluded = row_excluded row, leaf_scope_map = scope_map,
      leaf_scope_chain = chain, leaf_route = route\<rparr>"

fun parse_composite_row :: "composite_row \<Rightarrow> dynamic_member compiler_res" where
  "parse_composite_row NoExactTuple = Inl BufferError"
| "parse_composite_row (OtherWidth _) = Inl BufferError"
| "parse_composite_row (SixFields row scope_map) = Inr (member_of_row row scope_map None None)"
| "parse_composite_row (SevenFields row chain route) =
     bnd (required chain) (\<lambda>maps. Inr (member_of_row row None (Some maps) (Some route)))"

definition parse_dynamic_composite_members :: "composite_row list option \<Rightarrow> dynamic_member list compiler_res" where
  "parse_dynamic_composite_members value =
     bnd (required value) (\<lambda>rows.
     seq (reject_if (length rows < 2) UnsupportedError)
       (fold_res (\<lambda>row members. map_res (\<lambda>member. members @ [member]) (parse_composite_row row)) rows []))"

definition retain_chain_map :: "buffer_object \<Rightarrow> retained_direct_buffer compiler_res" where
  "retain_chain_map value =
     bnd (retained_exact_bytes_buffer (snd value)) (\<lambda>b.
     seq (reject_if (as_slice b = [] \<or> length (as_slice b) mod 64 \<noteq> 0) BufferError) (Inr b))"

definition retain_dynamic_scope_maps :: "dynamic_member \<Rightarrow> retained_direct_buffer list compiler_res" where
  "retain_dynamic_scope_maps member = (case leaf_scope_chain member of
     Some chain \<Rightarrow> fold_res (\<lambda>value bs. map_res (\<lambda>b. bs @ [b]) (retain_chain_map value)) chain []
   | None \<Rightarrow> (case leaf_scope_map member of
       Some value \<Rightarrow> map_res (\<lambda>b. [b]) (retained_exact_bytes_buffer (snd value))
     | None \<Rightarrow> Inr []))"

definition validation_work_step :: "views \<Rightarrow> py_object \<Rightarrow> usize \<times> py_object list \<Rightarrow> (usize \<times> py_object list) compiler_res" where
  "validation_work_step vs view s = (case s of (work, validated) \<Rightarrow>
     if view \<in> set validated then Inr s else
     bnd (view_structural_buffers vs view) (\<lambda>bs.
     bnd (recursive_segments vs view) (\<lambda>segments.
     bnd (recursive_manifest_validation_work bs segments) (\<lambda>n.
     map_res (\<lambda>total. (total, view # validated)) (ok_or MemoryError (checked_add work n))))))"

text \<open>The views already counted are handed on; the work starts at zero in every call.\<close>

definition direct_composite_validation_work :: "views \<Rightarrow> py_object \<Rightarrow> dynamic_member list \<Rightarrow> py_object list
    \<Rightarrow> (usize \<times> py_object list) compiler_res" where
  "direct_composite_validation_work vs manifest members validated =
     fold_res (validation_work_step vs) (manifest # map leaf_view members) (0, validated)"

section \<open>Scope maps along a path\<close>

definition optional_recursive_binding_matches :: "buffer_object option \<Rightarrow> buffer_object option \<Rightarrow> bool" where
  "optional_recursive_binding_matches observed expected = (case (observed, expected) of
     (None, None) \<Rightarrow> True
   | (Some a, Some b) \<Rightarrow> fst a = fst b
   | _ \<Rightarrow> False)"

definition recursive_u64_at :: "bytes \<Rightarrow> usize \<Rightarrow> usize option" where
  "recursive_u64_at v index =
     Option.bind (checked_mul index 8) (\<lambda>offset.
     Option.bind (checked_add offset 8) (\<lambda>stop.
     map_option little_endian (get_range v offset stop)))"

definition remap_effective :: "buffer_object \<Rightarrow> bytes \<Rightarrow> bytes compiler_res" where
  "remap_effective prior effective =
     map_res (\<lambda>b. case List.find (\<lambda>row. take 32 row = effective) (exact_rows 64 (as_slice b)) of
        Some row \<Rightarrow> drop 32 row
      | None \<Rightarrow> effective)
       (retained_exact_bytes_buffer (snd prior))"

definition node_scope_mapped :: "retained_direct_buffer list \<Rightarrow> buffer_object list \<Rightarrow> retained_direct_buffer \<Rightarrow> usize \<Rightarrow> bool compiler_res" where
  "node_scope_mapped bs prior_maps scope_map node_index =
     (let column = (\<lambda>i. as_slice (bs ! i));
          tag = little_endian (take 2 (drop (node_index * 2) (column 2))) in
      if tag \<noteq> 3 then Inr False else
      bnd (ok_or BufferError (recursive_u64_at (column 3) node_index)) (\<lambda>start.
      bnd (ok_or BufferError (recursive_u64_at (column 3) (node_index + 1))) (\<lambda>stop.
      if stop \<le> start \<or> get_at (column 4) start \<noteq> Some (char_of (3 :: nat)) \<or>
        recursive_u64_at (column 6) start \<noteq> Some 32
      then Inr False else
      bnd (ok_or BufferError (recursive_u64_at (column 5) start)) (\<lambda>scope_offset.
      bnd (ok_or BufferError (get_range (column 10) scope_offset (min (scope_offset + 32) (2 ^ 64 - 1)))) (\<lambda>scope.
      seq (reject_if (length scope \<noteq> 32) BufferError) (
      bnd (fold_res remap_effective prior_maps scope) (\<lambda>effective.
      Inr (\<exists>row \<in> set (exact_rows 64 (as_slice scope_map)). take 32 row = effective))))))))"

definition recursive_scope_map_applies :: "views \<Rightarrow> py_object \<Rightarrow> buffer_object list \<Rightarrow> buffer_object \<Rightarrow> bool compiler_res" where
  "recursive_scope_map_applies vs view prior_maps scope_map =
     bnd (view_structural_buffers vs view) (\<lambda>bs.
     bnd (retained_exact_bytes_buffer (snd scope_map)) (\<lambda>b.
     exists_res (node_scope_mapped bs prior_maps b) [0 ..< length (as_slice (bs ! 2)) div 2]))"

definition recursive_scope_chain_matches :: "dynamic_member \<Rightarrow> buffer_object list \<Rightarrow> bool" where
  "recursive_scope_chain_matches member expected = (case leaf_scope_chain member of
     None \<Rightarrow> False
   | Some observed \<Rightarrow> map fst observed = map fst expected)"

section \<open>The path of a row\<close>

definition recursive_input_path :: "dynamic_member \<Rightarrow> usize list compiler_res" where
  "recursive_input_path member =
     bnd (ok_or BufferError (leaf_route member)) (\<lambda>raw.
     bnd (ok_or BufferError raw) (\<lambda>coordinates.
     seq (reject_if (coordinates = []) BufferError)
       (fold_res (\<lambda>coordinate path. map_res (\<lambda>i. path @ [i]) (ok_or BufferError coordinate)) coordinates [])))"

definition validate_recursive_missing_local_leaf :: "views \<Rightarrow> py_object \<Rightarrow> py_object \<Rightarrow> usize \<Rightarrow> dynamic_member
    \<Rightarrow> unit compiler_res" where
  "validate_recursive_missing_local_leaf vs view owner segment_index member =
     seq (reject_if (view \<noteq> leaf_view member \<or> owner \<noteq> leaf_owner member) BufferError) (
     bnd (recursive_segments vs view) (\<lambda>segments.
     bnd (fold_res (\<lambda>segment roles. map_res (\<lambda>role. roles @ [role]) (recursive_segment_role segment)) segments []) (\<lambda>roles.
     let missing_delta = (segment_index = 1 \<and> roles = [OVERLAY_BASE_SEGMENT]);
         member_count = length (takeWhile (\<lambda>role. role = COMPOSITE_MEMBER_SEGMENT) roles);
         missing_bridge = (2 \<le> member_count \<and> segment_index = member_count \<and> member_count = length roles) in
     seq (reject_if (\<not> missing_delta \<and> \<not> missing_bridge) BufferError) (
     bnd (view_structural_buffers vs view) validate_recursive_empty_local_buffers))))"

record path_walk =
  walk_view :: py_object
  walk_owner :: py_object
  expected_include :: "buffer_object option"
  expected_exclude :: "buffer_object option"
  encountered_scope_maps :: "buffer_object list"

definition terminal_segment :: "dynamic_member \<Rightarrow> path_walk \<Rightarrow> manifest_segment \<Rightarrow> usize \<Rightarrow> unit compiler_res" where
  "terminal_segment member s segment role =
     seq (reject_if (walk_view s \<noteq> leaf_view member \<or> walk_owner s \<noteq> leaf_owner member) BufferError) (
     seq (reject_if (role \<noteq> DIRECT_SEGMENT \<and> role \<noteq> OVERLAY_DELTA_SEGMENT \<and> role \<noteq> COMPOSITE_BRIDGE_SEGMENT) BufferError)
       (validate_all_segment segment role (walk_owner s) None))"

definition select_reference :: "dynamic_member \<Rightarrow> bool \<Rightarrow> recursive_reference \<Rightarrow> path_walk \<Rightarrow> path_walk compiler_res" where
  "select_reference member next_is_last reference s =
     (if reference_mode reference = POSTINGS_INCLUDE then
        seq (reject_if (reference_source reference \<noteq> leaf_view member \<or> \<not> next_is_last) BufferError) (
        seq (reject_if (expected_include s \<noteq> None \<or> expected_exclude s \<noteq> None) BufferError)
          (Inr (s\<lparr>expected_include := Some (reference_roots reference)\<rparr>)))
      else if reference_mode reference = POSTINGS_EXCLUDE \<and> reference_source reference = leaf_view member then
        seq (reject_if (expected_include s \<noteq> None \<or> expected_exclude s \<noteq> None) BufferError)
          (Inr (s\<lparr>expected_exclude := Some (reference_roots reference)\<rparr>))
      else Inr s)"

definition enter_reference :: "recursive_reference \<Rightarrow> path_walk \<Rightarrow> path_walk compiler_res" where
  "enter_reference reference s =
     bnd (checked_memoryview_length (snd (reference_scope_map reference))) (\<lambda>n.
     Inr (s\<lparr>walk_view := reference_source reference, walk_owner := reference_owner reference,
            encountered_scope_maps := (if n \<noteq> 0 then encountered_scope_maps s @ [reference_scope_map reference]
              else encountered_scope_maps s)\<rparr>))"

fun follow_member_path :: "views \<Rightarrow> dynamic_member \<Rightarrow> bool \<Rightarrow> usize list \<Rightarrow> path_walk \<Rightarrow> path_walk compiler_res" where
  "follow_member_path vs member allow_missing [] s = Inr s"
| "follow_member_path vs member allow_missing (coordinate # rest) s =
     bnd (recursive_segments vs (walk_view s)) (\<lambda>segments.
     case get_at segments coordinate of
       None \<Rightarrow>
         if rest = [] \<and> allow_missing
         then map_res (\<lambda>_. s) (validate_recursive_missing_local_leaf vs (walk_view s) (walk_owner s) coordinate member)
         else Inl BufferError
     | Some segment \<Rightarrow>
         bnd (recursive_segment_role segment) (\<lambda>role.
         if rest = [] then map_res (\<lambda>_. s) (terminal_segment member s segment role)
         else
           bnd (validate_recursive_reference vs (walk_view s) segment role False) (\<lambda>reference.
           bnd (select_reference member (length rest = 1) reference s) (\<lambda>s'.
           bnd (enter_reference reference s') (follow_member_path vs member allow_missing rest)))))"

definition path_walk_start :: "py_object \<Rightarrow> py_object \<Rightarrow> path_walk" where
  "path_walk_start manifest owner = \<lparr>walk_view = manifest, walk_owner = owner, expected_include = None,
     expected_exclude = None, encountered_scope_maps = []\<rparr>"

text \<open>The maps that rename a scope of the table, nearest first.\<close>

definition applicable_scope_maps :: "views \<Rightarrow> dynamic_member \<Rightarrow> buffer_object list \<Rightarrow> buffer_object list compiler_res" where
  "applicable_scope_maps vs member encountered =
     fold_res (\<lambda>scope_map chain. map_res (\<lambda>applies. if applies then chain @ [scope_map] else chain)
         (recursive_scope_map_applies vs (leaf_view member) chain scope_map))
       (rev encountered) []"

definition validate_recursive_member_path :: "views \<Rightarrow> py_object \<Rightarrow> py_object \<Rightarrow> bool \<Rightarrow> dynamic_member \<Rightarrow> usize list set
    \<Rightarrow> usize list set compiler_res" where
  "validate_recursive_member_path vs manifest owner allow_missing member expected_paths =
     bnd (recursive_input_path member) (\<lambda>path.
     seq (reject_if (path \<notin> expected_paths) BufferError) (
     bnd (follow_member_path vs member allow_missing path (path_walk_start manifest owner)) (\<lambda>s.
     bnd (applicable_scope_maps vs member (encountered_scope_maps s)) (\<lambda>chain.
     seq (reject_if (\<not> optional_recursive_binding_matches (leaf_included member) (expected_include s) \<or>
            \<not> optional_recursive_binding_matches (leaf_excluded member) (expected_exclude s) \<or>
            \<not> recursive_scope_chain_matches member chain) BufferError)
       (Inr (expected_paths - {path}))))))"

section \<open>Plans\<close>

text \<open>\<open>None\<close> would be an enumeration that does not return; there is none.\<close>

definition validate_recursive_leaf_plan :: "views \<Rightarrow> topology_limits \<Rightarrow> py_object \<Rightarrow> py_object \<Rightarrow> dynamic_member list
    \<Rightarrow> usize compiler_res option" where
  "validate_recursive_leaf_plan vs lim manifest owner members =
     (if length members < 2 then Some (Inl UnsupportedError) else
      map_option (\<lambda>r. bnd r (\<lambda>(expected_paths, work).
          bnd (fold_res (validate_recursive_member_path vs manifest owner False) members expected_paths) (\<lambda>remaining.
          seq (reject_if (remaining \<noteq> {}) BufferError) (Inr work))))
        (enumerate_recursive_leaf_paths vs (lim\<lparr>limit_leaves := length members\<rparr>) manifest owner))"

record paired_walk =
  closure_view :: py_object
  closure_owner :: py_object
  root_view :: py_object
  root_owner :: py_object

definition paired_tokens :: "manifest_segment \<Rightarrow> manifest_segment \<Rightarrow> unit compiler_res" where
  "paired_tokens closure root =
     bnd (required (token_attribute closure)) (\<lambda>closure_token.
     bnd (required (token_attribute root)) (\<lambda>root_token.
     case (closure_token, root_token) of
       (ExactToken a, ExactToken b) \<Rightarrow> reject_if (a \<noteq> b) BufferError
     | _ \<Rightarrow> Inl BufferError))"

definition paired_container :: "views \<Rightarrow> manifest_segment \<Rightarrow> manifest_segment \<Rightarrow> usize \<Rightarrow> paired_walk \<Rightarrow> paired_walk compiler_res" where
  "paired_container vs closure root role s =
     seq (reject_if (role \<noteq> OVERLAY_BASE_SEGMENT \<and> role \<noteq> COMPOSITE_MEMBER_SEGMENT) BufferError) (
     bnd (validate_recursive_reference vs (closure_view s) closure role False) (\<lambda>closure_reference.
     bnd (validate_recursive_reference vs (root_view s) root role False) (\<lambda>root_reference.
     seq (reject_if (reference_owner closure_reference \<noteq> reference_owner root_reference) BufferError) (
     seq (if role = COMPOSITE_MEMBER_SEGMENT then paired_tokens closure root else Inr ())
       (Inr \<lparr>closure_view = reference_source closure_reference, closure_owner = reference_owner closure_reference,
             root_view = reference_source root_reference, root_owner = reference_owner root_reference\<rparr>)))))"

fun follow_paired_path :: "views \<Rightarrow> dynamic_member \<Rightarrow> usize list \<Rightarrow> paired_walk \<Rightarrow> paired_walk compiler_res" where
  "follow_paired_path vs root_member [] s = Inr s"
| "follow_paired_path vs root_member (coordinate # rest) s =
     bnd (recursive_segments vs (closure_view s)) (\<lambda>closure_segments.
     bnd (ok_or BufferError (get_at closure_segments coordinate)) (\<lambda>closure.
     bnd (recursive_segment_role closure) (\<lambda>closure_role.
     bnd (recursive_segments vs (root_view s)) (\<lambda>root_segments.
     case get_at root_segments coordinate of
       None \<Rightarrow>
         if rest = []
         then map_res (\<lambda>_. s) (validate_recursive_missing_local_leaf vs (root_view s) (root_owner s) coordinate root_member)
         else Inl BufferError
     | Some root \<Rightarrow>
         bnd (recursive_segment_role root) (\<lambda>root_role.
         seq (reject_if (closure_role \<noteq> root_role) BufferError) (
         if rest = [] then Inr s
         else bnd (paired_container vs closure root closure_role s) (follow_paired_path vs root_member rest)))))))"

definition validate_paired_member :: "views \<Rightarrow> paired_walk \<Rightarrow> dynamic_member \<times> dynamic_member \<Rightarrow> unit compiler_res" where
  "validate_paired_member vs start pair = (case pair of (closure, root) \<Rightarrow>
     bnd (recursive_input_path closure) (\<lambda>closure_path.
     bnd (recursive_input_path root) (\<lambda>root_path.
     seq (reject_if (closure_path \<noteq> root_path \<or> leaf_owner closure \<noteq> leaf_owner root) BufferError) (
     bnd (follow_paired_path vs root closure_path start) (\<lambda>s.
     reject_if (closure_view s \<noteq> leaf_view closure \<or> closure_owner s \<noteq> leaf_owner closure \<or>
       root_view s \<noteq> leaf_view root \<or> root_owner s \<noteq> leaf_owner root) BufferError)))))"

definition validate_recursive_manifest_pair :: "views \<Rightarrow> paired_walk \<Rightarrow> dynamic_member list \<Rightarrow> dynamic_member list
    \<Rightarrow> unit compiler_res" where
  "validate_recursive_manifest_pair vs start closure_members root_members =
     seq (reject_if (closure_owner start \<noteq> root_owner start \<or> length closure_members \<noteq> length root_members) BufferError)
       (for_each (validate_paired_member vs start) (zip closure_members root_members))"

definition paired_path :: "dynamic_member \<times> dynamic_member \<Rightarrow> usize list set \<Rightarrow> usize list set compiler_res" where
  "paired_path pair paths = (case pair of (closure, root) \<Rightarrow>
     bnd (recursive_input_path closure) (\<lambda>closure_path.
     bnd (recursive_input_path root) (\<lambda>root_path.
     seq (reject_if (closure_path \<noteq> root_path \<or> closure_path \<in> paths) BufferError) (Inr (insert closure_path paths)))))"

definition validate_recursive_root_plan :: "views \<Rightarrow> topology_limits \<Rightarrow> paired_walk \<Rightarrow> dynamic_member list \<Rightarrow> dynamic_member list
    \<Rightarrow> unit compiler_res option" where
  "validate_recursive_root_plan vs lim start closure_members root_members =
     (if length closure_members \<noteq> length root_members then Some (Inl BufferError) else
      case fold_res paired_path (zip closure_members root_members) {} of
        Inl e \<Rightarrow> Some (Inl e)
      | Inr paired_paths \<Rightarrow>
          map_option (\<lambda>r. bnd r (\<lambda>(actual_paths, _).
              seq (reject_if (\<not> actual_paths \<subseteq> paired_paths) BufferError) (
              bnd (fold_res (validate_recursive_member_path vs (root_view start) (root_owner start) True) root_members paired_paths) (\<lambda>remaining.
              seq (reject_if (remaining \<noteq> {}) BufferError)
                (validate_recursive_manifest_pair vs start closure_members root_members)))))
            (enumerate_recursive_leaf_paths vs (lim\<lparr>limit_leaves := length root_members\<rparr>) (root_view start) (root_owner start)))"

end
