(* ===== verification/Compiler_Construction.thy ===== *)
theory Compiler_Construction
  imports Direct_Manifests Recursive_Plans Compiler_Lifecycle
begin

text \<open>
  The constructor of an \<open>EncodedDirectCompiler\<close> (\<open>new\<close> in \<open>native/src/lib.rs\<close>): which combinations
  of its optional arguments are accepted, which manifest each combination is checked against, and the
  buffers it retains, as the \<open>compiler_inputs\<close> every later call reads. The checks come in the order of the
  code, so the error of a bad call is the code's as well.
\<close>

section \<open>Arguments\<close>

text \<open>A view, its owner and its digest come together or not at all; a digest that is no exact
  \<open>bytes\<close> is \<open>Some None\<close>. Rows that are no exact tuple are \<open>Some None\<close> too.\<close>

type_synonym supplied_view = "py_object option \<times> py_object option \<times> bytes option option"
type_synonym complete_view = "py_object \<times> py_object \<times> bytes option"

record compiler_arguments =
  encoded_view :: py_object
  expected_owner :: py_object
  descriptor_digest :: "bytes option"
  root_annotation_view :: supplied_view
  excluded_argument :: "buffer_object option"
  overlay_delta_view :: supplied_view
  canonical_work_limit :: "usize option"
  canonical_workspace_limit :: "usize option"
  max_overlay_depth :: "usize option"
  retain_empty_direct_leaves :: bool
  merge_manifest_view :: supplied_view
  composite_rows :: "composite_row list option option"
  root_merge_manifest_view :: supplied_view
  composite_root_rows :: "composite_row list option option"
  included_argument :: "buffer_object option"
  right_excluded_argument :: "buffer_object option"
  third_member_view :: supplied_view
  third_excluded_argument :: "buffer_object option"
  nested_member_view :: supplied_view
  fourth_member_view :: supplied_view
  fourth_excluded_argument :: "buffer_object option"
  scope_map_argument :: "buffer_object option"
  right_scope_map_argument :: "buffer_object option"

definition supplied :: "supplied_view \<Rightarrow> complete_view option compiler_res" where
  "supplied v = (case v of
     (None, None, None) \<Rightarrow> Inr None
   | (Some view, Some owner, Some digest) \<Rightarrow> Inr (Some (view, owner, digest))
   | _ \<Rightarrow> Inl BufferError)"

definition nothing_supplied :: "supplied_view \<Rightarrow> bool" where
  "nothing_supplied v \<longleftrightarrow> v = (None, None, None)"

definition transposed :: "'a compiler_res option \<Rightarrow> 'a option compiler_res" where
  "transposed r = (case r of None \<Rightarrow> Inr None | Some v \<Rightarrow> map_res Some v)"

definition retained_optional :: "buffer_object option \<Rightarrow> retained_direct_buffer option compiler_res" where
  "retained_optional value = transposed (map_option (\<lambda>b. retained_exact_bytes_buffer (snd b)) value)"

section \<open>Tables and selections\<close>

record composite_plan =
  plan_members :: "dynamic_member list option"
  plan_root_members :: "dynamic_member list option"
  recursive_plan :: bool
  plan_overlay_depth :: usize

definition composite_plan_of :: "compiler_arguments \<Rightarrow> composite_plan compiler_res" where
  "composite_plan_of args =
     bnd (transposed (map_option parse_dynamic_composite_members (composite_rows args))) (\<lambda>members.
     bnd (transposed (map_option parse_dynamic_composite_members (composite_root_rows args))) (\<lambda>root_members.
     let rows = (case members of None \<Rightarrow> [] | Some ms \<Rightarrow> ms);
         is_recursive = (\<exists>row \<in> set rows. leaf_route row \<noteq> None) in
     seq (reject_if (is_recursive \<and> (\<exists>row \<in> set rows. leaf_route row = None)) BufferError) (
     bnd (if is_recursive then ok_or BufferError (max_overlay_depth args)
          else seq (reject_if (max_overlay_depth args \<noteq> None \<or> retain_empty_direct_leaves args) BufferError) (Inr 0)) (\<lambda>depth.
     Inr \<lparr>plan_members = members, plan_root_members = root_members, recursive_plan = is_recursive,
          plan_overlay_depth = depth\<rparr>))))"

definition base_table_buffers :: "views \<Rightarrow> compiler_arguments \<Rightarrow> bool \<Rightarrow> retained_direct_buffer list compiler_res" where
  "base_table_buffers vs args is_recursive =
     (if is_recursive
      then seq (validate_encoded_view_header vs (encoded_view args) (expected_owner args) (descriptor_digest args))
             (view_structural_buffers vs (encoded_view args))
      else retained_direct_buffers vs (encoded_view args) (expected_owner args) (descriptor_digest args))"

record retained_selections =
  sel_included :: "retained_direct_buffer option"
  sel_excluded :: "retained_direct_buffer option"
  sel_right_excluded :: "retained_direct_buffer option"
  sel_third_excluded :: "retained_direct_buffer option"
  sel_fourth_excluded :: "retained_direct_buffer option"
  sel_scope_map :: "retained_direct_buffer option"
  sel_right_scope_map :: "retained_direct_buffer option"

definition retained_selections_of :: "compiler_arguments \<Rightarrow> retained_selections compiler_res" where
  "retained_selections_of args =
     bnd (retained_optional (included_argument args)) (\<lambda>included.
     bnd (retained_optional (excluded_argument args)) (\<lambda>excluded.
     bnd (retained_optional (right_excluded_argument args)) (\<lambda>right_ex.
     bnd (retained_optional (third_excluded_argument args)) (\<lambda>third_ex.
     bnd (retained_optional (fourth_excluded_argument args)) (\<lambda>fourth_ex.
     bnd (retained_optional (scope_map_argument args)) (\<lambda>scope_map.
     bnd (retained_optional (right_scope_map_argument args)) (\<lambda>right_map.
     seq (reject_if ((scope_map \<noteq> None) \<noteq> (right_map \<noteq> None)) BufferError) (
     seq (reject_if (included \<noteq> None \<and> excluded \<noteq> None) BufferError)
       (Inr \<lparr>sel_included = included, sel_excluded = excluded, sel_right_excluded = right_ex,
             sel_third_excluded = third_ex, sel_fourth_excluded = fourth_ex, sel_scope_map = scope_map,
             sel_right_scope_map = right_map\<rparr>)))))))))"

record retained_tables =
  tab_annotations :: "retained_direct_buffer list option"
  tab_manifest :: "complete_view option"
  tab_root_manifest :: "complete_view option"
  tab_third :: "complete_view option"
  tab_third_buffers :: "retained_direct_buffer list option"
  tab_fourth :: "complete_view option"
  tab_fourth_buffers :: "retained_direct_buffer list option"
  tab_nested :: "complete_view option"

definition bound_buffers :: "views \<Rightarrow> complete_view option \<Rightarrow> retained_direct_buffer list option compiler_res" where
  "bound_buffers vs v = transposed (map_option (\<lambda>(view, owner, digest). retained_direct_buffers vs view owner digest) v)"

definition retained_tables_of :: "views \<Rightarrow> compiler_arguments \<Rightarrow> retained_tables compiler_res" where
  "retained_tables_of vs args =
     bnd (supplied (root_annotation_view args)) (\<lambda>annotation_view.
     bnd (bound_buffers vs annotation_view) (\<lambda>annotations.
     bnd (supplied (merge_manifest_view args)) (\<lambda>manifest.
     bnd (supplied (root_merge_manifest_view args)) (\<lambda>root_manifest.
     bnd (supplied (third_member_view args)) (\<lambda>third.
     bnd (bound_buffers vs third) (\<lambda>third_buffers.
     bnd (supplied (fourth_member_view args)) (\<lambda>fourth.
     bnd (bound_buffers vs fourth) (\<lambda>fourth_buffers.
     bnd (supplied (nested_member_view args)) (\<lambda>nested.
     Inr \<lparr>tab_annotations = annotations, tab_manifest = manifest, tab_root_manifest = root_manifest, tab_third = third,
          tab_third_buffers = third_buffers, tab_fourth = fourth, tab_fourth_buffers = fourth_buffers,
          tab_nested = nested\<rparr>)))))))))"

section \<open>A dynamic composite\<close>

text \<open>The plans may be searched without end as far as the types go; \<open>plan_bnd\<close> goes on with what they find.\<close>

definition plan_bnd :: "'a compiler_res option \<Rightarrow> ('a \<Rightarrow> 'b compiler_res option) \<Rightarrow> 'b compiler_res option" where
  "plan_bnd r f = (case r of None \<Rightarrow> None | Some (Inl e) \<Rightarrow> Some (Inl e) | Some (Inr v) \<Rightarrow> f v)"

definition member_bindings :: "dynamic_member list \<Rightarrow> member_binding list" where
  "member_bindings members = map (\<lambda>member. \<lparr>bound_view = leaf_view member, bound_owner = leaf_owner member,
     bound_include = leaf_included member, bound_exclude = leaf_excluded member, bound_scope_map = leaf_scope_map member\<rparr>) members"

definition no_fixed_inputs :: "compiler_arguments \<Rightarrow> retained_selections \<Rightarrow> retained_tables \<Rightarrow> bool" where
  "no_fixed_inputs args sel tab \<longleftrightarrow> nothing_supplied (overlay_delta_view args) \<and> tab_third tab = None \<and> tab_fourth tab = None \<and>
     tab_nested tab = None \<and> tab_annotations tab = None \<and> sel_included sel = None \<and> sel_excluded sel = None \<and>
     sel_right_excluded sel = None \<and> sel_third_excluded sel = None \<and> sel_fourth_excluded sel = None \<and>
     sel_scope_map sel = None \<and> sel_right_scope_map sel = None"

definition plan_limits :: "compiler_arguments \<Rightarrow> composite_plan \<Rightarrow> bytes option \<Rightarrow> usize \<Rightarrow> topology_limits" where
  "plan_limits args plan digest work = \<lparr>limit_digest = digest, limit_work = work, limit_depth = plan_overlay_depth plan,
     limit_leaves = 0, retain_empty = retain_empty_direct_leaves args\<rparr>"

definition validate_closure_members :: "views \<Rightarrow> compiler_arguments \<Rightarrow> composite_plan \<Rightarrow> complete_view \<Rightarrow> usize \<Rightarrow> dynamic_member list
    \<Rightarrow> (usize \<times> py_object list) compiler_res option" where
  "validate_closure_members vs args plan manifest max_work members = (case manifest of (view, owner, digest) \<Rightarrow>
     if recursive_plan plan
     then map_option (map_res (\<lambda>work. (work, [])))
            (validate_recursive_leaf_plan vs (plan_limits args plan digest max_work) view owner members)
     else Some (
       seq (validate_direct_member_composite_manifest vs view owner digest (member_bindings members) True) (
       bnd (direct_composite_validation_work vs view members []) (\<lambda>(work, validated).
       seq (reject_if (work > max_work) MemoryError) (Inr (work, validated))))))"

definition remaining_work :: "usize \<Rightarrow> usize \<Rightarrow> usize compiler_res" where
  "remaining_work max_work spent = (case checked_sub max_work spent of
     Some n \<Rightarrow> if n \<noteq> 0 then Inr n else Inl MemoryError
   | None \<Rightarrow> Inl MemoryError)"

definition validate_root_members :: "views \<Rightarrow> compiler_arguments \<Rightarrow> composite_plan \<Rightarrow> complete_view \<Rightarrow> complete_view option \<Rightarrow> usize
    \<Rightarrow> usize \<times> py_object list \<Rightarrow> dynamic_member list \<Rightarrow> dynamic_member list \<Rightarrow> unit compiler_res option" where
  "validate_root_members vs args plan manifest root_manifest max_work closure_work members root_members =
     (case (manifest, closure_work) of ((view, owner, _), (spent, validated)) \<Rightarrow>
      plan_bnd (Some (reject_if (length root_members \<noteq> length members) BufferError)) (\<lambda>_.
      plan_bnd (Some (ok_or BufferError root_manifest)) (\<lambda>(root_manifest_view, root_manifest_owner, root_digest).
      let root_recursive = (case root_members of [] \<Rightarrow> False | first # _ \<Rightarrow> leaf_route first \<noteq> None) in
      plan_bnd (Some (reject_if ((\<exists>row \<in> set root_members. (leaf_route row \<noteq> None) \<noteq> root_recursive) \<or>
          root_recursive \<noteq> recursive_plan plan) BufferError)) (\<lambda>_.
      if recursive_plan plan then
        plan_bnd (Some (remaining_work max_work spent)) (\<lambda>work.
        validate_recursive_root_plan vs (plan_limits args plan root_digest work)
          \<lparr>closure_view = view, closure_owner = owner, root_view = root_manifest_view, root_owner = root_manifest_owner\<rparr>
          members root_members)
      else Some (
        seq (validate_direct_member_composite_manifest vs root_manifest_view root_manifest_owner root_digest
              (member_bindings root_members) True) (
        bnd (direct_composite_validation_work vs root_manifest_view root_members validated) (\<lambda>(root_work, _).
        bnd (ok_or MemoryError (checked_add spent root_work)) (\<lambda>paired_work.
        seq (reject_if (paired_work > max_work) MemoryError)
          (validate_paired_composite_manifests vs view owner root_manifest_view root_manifest_owner (length members))))))))))"

definition retain_member_table :: "views \<Rightarrow> bool \<Rightarrow> dynamic_member \<Rightarrow> retained_direct_buffer list compiler_res" where
  "retain_member_table vs is_recursive member =
     (if is_recursive
      then seq (validate_encoded_view_header vs (leaf_view member) (leaf_owner member) (leaf_digest member))
             (view_structural_buffers vs (leaf_view member))
      else retained_direct_buffers vs (leaf_view member) (leaf_owner member) (leaf_digest member))"

definition retain_root_member :: "views \<Rightarrow> bool \<Rightarrow> dynamic_member \<Rightarrow> retained_composite_root_member compiler_res" where
  "retain_root_member vs is_recursive member =
     seq (reject_if (leaf_included member \<noteq> None \<and> leaf_excluded member \<noteq> None) BufferError) (
     bnd (retain_member_table vs is_recursive member) (\<lambda>bs.
     bnd (retained_optional (leaf_included member)) (\<lambda>included.
     bnd (retained_optional (leaf_excluded member)) (\<lambda>excluded.
     bnd (retain_dynamic_scope_maps member) (\<lambda>maps.
     Inr \<lparr>root_member_buffers = bs, root_member_included = included, root_member_excluded = excluded,
          root_member_scope_maps = maps\<rparr>)))))"

definition retain_first_member :: "views \<Rightarrow> bool \<Rightarrow> dynamic_member \<Rightarrow> unit compiler_res" where
  "retain_first_member vs is_recursive member =
     seq (validate_encoded_view_header vs (leaf_view member) (leaf_owner member) (leaf_digest member))
       (if is_recursive then Inr () else validate_direct_segment vs (leaf_view member) (leaf_owner member))"

definition retain_composite_member :: "views \<Rightarrow> bool \<Rightarrow> dynamic_member list option \<Rightarrow> usize \<times> dynamic_member
    \<Rightarrow> retained_composite_member compiler_res" where
  "retain_composite_member vs is_recursive root_members entry = (case entry of (index, member) \<Rightarrow>
     seq (reject_if (leaf_included member \<noteq> None \<and> leaf_excluded member \<noteq> None) BufferError) (
     bnd (if index = 0 then map_res (\<lambda>_. None) (retain_first_member vs is_recursive member)
          else map_res Some (retain_member_table vs is_recursive member)) (\<lambda>bs.
     bnd (transposed (map_option (\<lambda>roots. retain_root_member vs is_recursive (roots ! index)) root_members)) (\<lambda>root.
     bnd (retained_optional (leaf_included member)) (\<lambda>included.
     bnd (retained_optional (leaf_excluded member)) (\<lambda>excluded.
     bnd (retain_dynamic_scope_maps member) (\<lambda>maps.
     Inr \<lparr>member_buffers = bs, member_included = included, member_excluded = excluded, member_scope_maps = maps,
          member_root = root\<rparr>)))))))"

definition retain_composite_members :: "views \<Rightarrow> bool \<Rightarrow> dynamic_member list option \<Rightarrow> dynamic_member list
    \<Rightarrow> retained_composite_member list compiler_res" where
  "retain_composite_members vs is_recursive root_members members =
     fold_res (\<lambda>entry found. map_res (\<lambda>member. found @ [member]) (retain_composite_member vs is_recursive root_members entry))
       (enumerate 0 members) []"

definition dynamic_composite_limits :: "compiler_arguments \<Rightarrow> (usize \<times> usize) compiler_res" where
  "dynamic_composite_limits args = (case (canonical_work_limit args, canonical_workspace_limit args) of
     (Some work, Some workspace) \<Rightarrow> seq (reject_if (work = 0 \<or> workspace = 0) MemoryError) (Inr (work, workspace))
   | _ \<Rightarrow> Inl BufferError)"

definition dynamic_composite :: "views \<Rightarrow> compiler_arguments \<Rightarrow> composite_plan \<Rightarrow> retained_selections \<Rightarrow> retained_tables
    \<Rightarrow> dynamic_member list \<Rightarrow> (retained_composite_member list \<times> (usize \<times> usize)) compiler_res option" where
  "dynamic_composite vs args plan sel tab members =
     plan_bnd (Some (reject_if (\<not> no_fixed_inputs args sel tab) BufferError)) (\<lambda>_.
     plan_bnd (Some (dynamic_composite_limits args)) (\<lambda>(max_work, max_workspace).
     plan_bnd (Some (ok_or BufferError (tab_manifest tab))) (\<lambda>manifest.
     plan_bnd (Some (reject_if (leaf_view (hd members) \<noteq> encoded_view args \<or> leaf_owner (hd members) \<noteq> expected_owner args) BufferError)) (\<lambda>_.
     plan_bnd (validate_closure_members vs args plan manifest max_work members) (\<lambda>closure_work.
     plan_bnd (case plan_root_members plan of
         Some root_members \<Rightarrow>
           validate_root_members vs args plan manifest (tab_root_manifest tab) max_work closure_work members root_members
       | None \<Rightarrow> Some (reject_if (tab_root_manifest tab \<noteq> None) BufferError)) (\<lambda>_.
     Some (map_res (\<lambda>found. (found, (max_work, max_workspace)))
       (retain_composite_members vs (recursive_plan plan) (plan_root_members plan) members))))))))"

section \<open>Fixed members and overlays\<close>

definition fixed_binding :: "complete_view \<Rightarrow> buffer_object option \<Rightarrow> buffer_object option \<Rightarrow> buffer_object option \<Rightarrow> member_binding" where
  "fixed_binding v included excluded scope_map = \<lparr>bound_view = fst v, bound_owner = fst (snd v), bound_include = included,
     bound_exclude = excluded, bound_scope_map = scope_map\<rparr>"

definition nested_overlay_buffers :: "views \<Rightarrow> compiler_arguments \<Rightarrow> retained_tables \<Rightarrow> complete_view \<Rightarrow> complete_view \<Rightarrow> complete_view
    \<Rightarrow> retained_direct_buffer list compiler_res" where
  "nested_overlay_buffers vs args tab manifest delta nested =
     (case (manifest, delta, nested) of ((view, owner, digest), (delta_view, delta_owner, delta_digest), (nested_view, nested_owner, nested_digest)) \<Rightarrow>
      seq (reject_if (nested_view \<noteq> delta_view \<or> nested_owner \<noteq> delta_owner) BufferError) (
      seq (validate_encoded_view_header vs nested_view nested_owner nested_digest) (
      bnd (ok_or UnsupportedError (tab_third tab)) (\<lambda>(third_view, third_owner, _).
      bnd (retained_overlay_delta_buffers vs delta_view delta_owner delta_digest (encoded_view args) (expected_owner args)
            (excluded_argument args)) (\<lambda>bs.
      seq (validate_nested_member_composite_manifest vs view owner digest (nested_view, nested_owner)
            (encoded_view args, expected_owner args) (right_excluded_argument args)
            ((third_view, third_owner, third_excluded_argument args) # (case tab_fourth tab of
                None \<Rightarrow> []
              | Some (fourth_view, fourth_owner, _) \<Rightarrow> [(fourth_view, fourth_owner, fourth_excluded_argument args)]))
            (scope_map_argument args) (right_scope_map_argument args)) (Inr bs))))))"

definition fixed_composite_buffers :: "views \<Rightarrow> compiler_arguments \<Rightarrow> retained_tables \<Rightarrow> complete_view \<Rightarrow> complete_view
    \<Rightarrow> retained_direct_buffer list compiler_res" where
  "fixed_composite_buffers vs args tab manifest delta =
     (case (manifest, delta) of ((view, owner, digest), (delta_view, delta_owner, delta_digest)) \<Rightarrow>
      bnd (retained_direct_buffers vs delta_view delta_owner delta_digest) (\<lambda>bs.
      let base = (encoded_view args, expected_owner args, descriptor_digest args) in
      seq (case tab_third tab of
             Some third \<Rightarrow>
               validate_direct_member_composite_manifest vs view owner digest
                 ([fixed_binding base (included_argument args) (excluded_argument args) None,
                   fixed_binding delta None (right_excluded_argument args) None,
                   fixed_binding third None (third_excluded_argument args) None] @
                  (case tab_fourth tab of
                     None \<Rightarrow> []
                   | Some fourth \<Rightarrow> [fixed_binding fourth None (fourth_excluded_argument args) None])) False
           | None \<Rightarrow>
               validate_two_member_composite_manifest vs view owner digest
                 (fixed_binding base (included_argument args) (excluded_argument args) (scope_map_argument args))
                 (fixed_binding delta None (right_excluded_argument args) (right_scope_map_argument args)))
        (Inr bs)))"

definition overlay_delta_tables :: "views \<Rightarrow> compiler_arguments \<Rightarrow> retained_tables
    \<Rightarrow> (retained_direct_buffer list option \<times> (usize \<times> usize) option) compiler_res" where
  "overlay_delta_tables vs args tab =
     (case (overlay_delta_view args, canonical_work_limit args, canonical_workspace_limit args) of
       ((None, None, None), None, None) \<Rightarrow> Inr (None, None)
     | ((Some view, Some owner, Some digest), Some work, Some workspace) \<Rightarrow>
         seq (reject_if (tab_annotations tab \<noteq> None) UnsupportedError) (
         seq (reject_if (work = 0 \<or> workspace = 0) MemoryError) (
         bnd (case tab_manifest tab of
                Some manifest \<Rightarrow> (case tab_nested tab of
                  Some nested \<Rightarrow> nested_overlay_buffers vs args tab manifest (view, owner, digest) nested
                | None \<Rightarrow> fixed_composite_buffers vs args tab manifest (view, owner, digest))
              | None \<Rightarrow> retained_overlay_delta_buffers vs view owner digest (encoded_view args) (expected_owner args)
                  (excluded_argument args)) (\<lambda>bs.
         Inr (Some bs, Some (work, workspace)))))
     | _ \<Rightarrow> Inl BufferError)"

section \<open>Combinations\<close>

definition check_members :: "retained_selections \<Rightarrow> retained_tables \<Rightarrow> bool \<Rightarrow> unit compiler_res" where
  "check_members sel tab has_tables = (let manifest = (tab_manifest tab \<noteq> None); third = (tab_third tab \<noteq> None) in
     seq (reject_if (manifest \<and> \<not> has_tables) BufferError) (
     seq (reject_if (third \<and> \<not> manifest) UnsupportedError) (
     seq (reject_if (tab_nested tab \<noteq> None \<and> (\<not> third \<or> \<not> manifest)) UnsupportedError) (
     seq (reject_if (tab_fourth tab \<noteq> None \<and> (\<not> third \<or> \<not> manifest)) UnsupportedError) (
     seq (reject_if (\<not> third \<and> sel_third_excluded sel \<noteq> None) UnsupportedError) (
     seq (reject_if (tab_fourth tab = None \<and> sel_fourth_excluded sel \<noteq> None) UnsupportedError) (
     seq (reject_if (sel_included sel \<noteq> None \<and> \<not> manifest) UnsupportedError)
       (reject_if (sel_right_excluded sel \<noteq> None \<and> \<not> manifest) UnsupportedError))))))))"

definition check_inclusion :: "retained_selections \<Rightarrow> retained_tables \<Rightarrow> unit compiler_res" where
  "check_inclusion sel tab =
     seq (reject_if (sel_included sel \<noteq> None \<and> (sel_right_excluded sel \<noteq> None \<or> sel_third_excluded sel \<noteq> None \<or>
            sel_fourth_excluded sel \<noteq> None)) BufferError)
       (reject_if (tab_nested tab \<noteq> None \<and> sel_included sel \<noteq> None) BufferError)"

definition check_scope_remapping :: "retained_selections \<Rightarrow> retained_tables \<Rightarrow> unit compiler_res" where
  "check_scope_remapping sel tab =
     (let manifest = (tab_manifest tab \<noteq> None); third = (tab_third tab \<noteq> None);
          fourth = (tab_fourth tab \<noteq> None); nested = (tab_nested tab \<noteq> None);
          exact_two_member = (manifest \<and> \<not> third \<and> \<not> fourth \<and> \<not> nested);
          exact_nested_member = (manifest \<and> third \<and> \<not> fourth \<and> nested);
          exact_four_table_nested_member = (manifest \<and> third \<and> fourth \<and> nested);
          nested_member = (exact_nested_member \<or> exact_four_table_nested_member) in
      reject_if (sel_scope_map sel \<noteq> None \<and>
        (\<not> (exact_two_member \<or> nested_member) \<or> sel_included sel \<noteq> None \<or>
         (sel_excluded sel \<noteq> None \<and> \<not> nested_member) \<or> (sel_right_excluded sel \<noteq> None \<and> \<not> nested_member) \<or>
         (sel_third_excluded sel \<noteq> None \<and> \<not> nested_member) \<or>
         (sel_fourth_excluded sel \<noteq> None \<and> \<not> exact_four_table_nested_member))) UnsupportedError)"

section \<open>The constructor\<close>

definition encoded_direct_compiler_new :: "views \<Rightarrow> (nat \<Rightarrow> nat list) \<Rightarrow> compiler_arguments \<Rightarrow> compiler_inputs compiler_res option" where
  "encoded_direct_compiler_new vs char_case_table args =
     plan_bnd (Some (composite_plan_of args)) (\<lambda>plan.
     plan_bnd (Some (base_table_buffers vs args (recursive_plan plan))) (\<lambda>base.
     plan_bnd (Some (retained_selections_of args)) (\<lambda>sel.
     plan_bnd (Some (retained_tables_of vs args)) (\<lambda>tab.
     plan_bnd (case plan_members plan of
         Some members \<Rightarrow> map_option (map_res Some) (dynamic_composite vs args plan sel tab members)
       | None \<Rightarrow> Some (seq (reject_if (plan_root_members plan \<noteq> None \<or> tab_root_manifest tab \<noteq> None) BufferError) (Inr None))) (\<lambda>composite.
     Some (
       bnd (case composite of
              Some (_, limits) \<Rightarrow> Inr (None, Some limits)
            | None \<Rightarrow> overlay_delta_tables vs args tab) (\<lambda>(delta, limits).
       seq (check_members sel tab (delta \<noteq> None \<or> composite \<noteq> None)) (
       seq (check_inclusion sel tab) (
       seq (check_scope_remapping sel tab)
         (Inr \<lparr>base_buffers = base, overlay_delta_buffers = delta, third_member_buffers = tab_third_buffers tab,
               fourth_member_buffers = tab_fourth_buffers tab, has_nested_member = (tab_nested tab \<noteq> None),
               has_merge_manifest = (tab_manifest tab \<noteq> None), composite_members = map_option fst composite,
               canonical_merge_limits = limits, input_included = sel_included sel, input_excluded = sel_excluded sel,
               right_excluded = sel_right_excluded sel, third_excluded = sel_third_excluded sel,
               fourth_excluded = sel_fourth_excluded sel, input_scope_map = sel_scope_map sel,
               right_scope_map = sel_right_scope_map sel, root_annotation_buffers = tab_annotations tab,
               char_case = char_case_table\<rparr>))))))))))"

end
