(* ===== verification/Plan_Paths.thy ===== *)
theory Plan_Paths
  imports Topology_Paths Compiler_Construction
begin

text \<open>
  What an accepted plan of a recursive manifest is: the rows name the leaves of the manifest, each once,
  and the path of each row leads to its table. And what a constructed compiler holds.
\<close>

section \<open>Collecting folds\<close>

lemma fold_collect:
  assumes "fold_res (\<lambda>x found. map_res (\<lambda>y. found @ [y]) (f x)) xs found = Inr ys"
  shows "\<exists>zs. ys = found @ zs \<and> list_all2 (\<lambda>x z. f x = Inr z) xs zs"
  using assms
proof (induction xs arbitrary: found)
  case (Cons x xs)
  then obtain z where z: "f x = Inr z" and r: "fold_res (\<lambda>x found. map_res (\<lambda>y. found @ [y]) (f x)) xs (found @ [z]) = Inr ys"
    by (auto simp: res_simps)
  from Cons.IH [OF r] obtain zs where "ys = found @ z # zs" "list_all2 (\<lambda>x z. f x = Inr z) xs zs" by auto
  with z have "ys = found @ z # zs \<and> list_all2 (\<lambda>x z. f x = Inr z) (x # xs) (z # zs)" by simp
  then show ?case by blast
qed simp

lemma fold_collect_succeeds:
  assumes "\<forall>x \<in> set xs. \<exists>y. f x = Inr y"
  shows "\<exists>ys. fold_res (\<lambda>x found. map_res (\<lambda>y. found @ [y]) (f x)) xs found = Inr ys \<and> length ys = length found + length xs"
  using assms
proof (induction xs arbitrary: found)
  case (Cons x xs)
  from Cons.prems obtain y where "f x = Inr y" by auto
  with Cons.IH [of "found @ [y]"] Cons.prems show ?case by auto
qed simp

section \<open>Where a path ends\<close>

text \<open>The container of the last segment a path names, with its owner.\<close>

fun path_end :: "views \<Rightarrow> py_object \<times> py_object \<Rightarrow> usize list \<Rightarrow> (py_object \<times> py_object) option" where
  "path_end vs at [] = None"
| "path_end vs at [_] = Some at"
| "path_end vs at (coordinate # next # rest) =
     Option.bind (view_segments (vs (fst at))) (\<lambda>segments.
     Option.bind (get_at segments coordinate) (\<lambda>segment.
     Option.bind (source_attribute segment) (\<lambda>source.
     Option.bind source (\<lambda>view.
     Option.bind (owner_attribute segment) (\<lambda>owner.
     path_end vs (view, owner) (next # rest))))))"

definition route_of :: "usize list \<Rightarrow> raw_path option" where
  "route_of path = Some (Some (map Some path))"

lemma recursive_input_path_Inr:
  assumes "recursive_input_path member = Inr path"
  shows "leaf_route member = route_of path" and "path \<noteq> []"
proof -
  from assms obtain coordinates where r: "leaf_route member = Some (Some coordinates)" and n: "coordinates \<noteq> []"
    and f: "fold_res (\<lambda>coordinate path. map_res (\<lambda>i. path @ [i]) (ok_or BufferError coordinate)) coordinates [] = Inr path"
    by (auto simp: recursive_input_path_def res_simps)
  from fold_collect [OF f] have a: "list_all2 (\<lambda>x z. ok_or BufferError x = Inr z) coordinates path" by auto
  then have "coordinates = map Some path" by (induction rule: list_all2_induct) (auto simp: res_simps)
  with r n show "leaf_route member = route_of path" "path \<noteq> []" by (auto simp: route_of_def)
qed

lemma validate_recursive_reference_Inr:
  assumes "validate_recursive_reference vs view segment role check_rows = Inr reference"
  shows "source_attribute segment = Some (Some (reference_source reference))"
    and "owner_attribute segment = Some (reference_owner reference)"
  using assms by (auto simp: validate_recursive_reference_def required_def res_simps split: if_splits)

lemma recursive_segments_Inr: "recursive_segments vs view = Inr segments \<longleftrightarrow> view_segments (vs view) = Some segments"
  by (simp add: recursive_segments_def required_def res_simps)

lemma select_reference_view:
  "select_reference member is_last reference s = Inr s' \<Longrightarrow> walk_view s' = walk_view s \<and> walk_owner s' = walk_owner s"
  by (auto simp: select_reference_def res_simps split: if_splits)

lemma missing_local_leaf_view:
  "validate_recursive_missing_local_leaf vs view owner i member = Inr () \<Longrightarrow> view = leaf_view member \<and> owner = leaf_owner member"
  by (auto simp: validate_recursive_missing_local_leaf_def res_simps)

lemma follow_member_path_end:
  assumes "follow_member_path vs member allow path s = Inr s'" and "path \<noteq> []"
  shows "path_end vs (walk_view s, walk_owner s) path = Some (leaf_view member, leaf_owner member)"
  using assms
proof (induction vs member allow path s arbitrary: s' rule: follow_member_path.induct)
  case (2 vs member allow coordinate rest s)
  from "2.prems"(1) obtain segments where sg: "recursive_segments vs (walk_view s) = Inr segments"
    by (auto simp: bnd_eq_Inr)
  show ?case
  proof (cases rest)
    case Nil
    with "2.prems"(1) sg show ?thesis
      by (auto simp: res_simps terminal_segment_def dest!: missing_local_leaf_view split: option.splits if_splits)
  next
    case (Cons following rest')
    with "2.prems"(1) sg obtain segment role reference s1 s2 where g: "get_at segments coordinate = Some segment"
      and role: "recursive_segment_role segment = Inr role"
      and ref: "validate_recursive_reference vs (walk_view s) segment role False = Inr reference"
      and sel: "select_reference member (length rest = 1) reference s = Inr s1"
      and ent: "enter_reference reference s1 = Inr s2" and f: "follow_member_path vs member allow rest s2 = Inr s'"
      by (auto simp: res_simps split: option.splits if_splits)
    have e: "walk_view s2 = reference_source reference" "walk_owner s2 = reference_owner reference"
      using ent by (auto simp: enter_reference_def res_simps)
    have "path_end vs (walk_view s2, walk_owner s2) rest = Some (leaf_view member, leaf_owner member)"
      by (rule "2.IH" [OF sg g role _ ref sel ent f]) (simp_all add: Cons)
    with sg g validate_recursive_reference_Inr [OF ref] show ?thesis by (simp add: Cons e recursive_segments_Inr)
  qed
qed simp

lemma member_path_Inr:
  assumes "validate_recursive_member_path vs manifest owner allow member expected = Inr remaining"
  obtains path where "leaf_route member = route_of path" and "path \<in> expected" and "remaining = expected - {path}"
    and "path_end vs (manifest, owner) path = Some (leaf_view member, leaf_owner member)"
proof -
  from assms obtain path s where p: "recursive_input_path member = Inr path" and e: "path \<in> expected"
    and f: "follow_member_path vs member allow path (path_walk_start manifest owner) = Inr s" and r: "remaining = expected - {path}"
    by (auto simp: validate_recursive_member_path_def res_simps)
  from recursive_input_path_Inr [OF p] follow_member_path_end [OF f] e r that show thesis
    by (simp add: path_walk_start_def)
qed

lemma member_paths_Inr:
  assumes "fold_res (validate_recursive_member_path vs manifest owner allow) members expected = Inr remaining"
  shows "\<exists>paths. map leaf_route members = map route_of paths \<and> distinct paths \<and> set paths \<subseteq> expected \<and>
    remaining = expected - set paths \<and>
    map (path_end vs (manifest, owner)) paths = map (\<lambda>m. Some (leaf_view m, leaf_owner m)) members"
  using assms
proof (induction members arbitrary: expected)
  case (Cons member members)
  then obtain between where a: "validate_recursive_member_path vs manifest owner allow member expected = Inr between"
    and b: "fold_res (validate_recursive_member_path vs manifest owner allow) members between = Inr remaining"
    by (auto simp: bnd_eq_Inr)
  obtain path where p: "leaf_route member = route_of path" "path \<in> expected" "between = expected - {path}"
    "path_end vs (manifest, owner) path = Some (leaf_view member, leaf_owner member)" by (rule member_path_Inr [OF a])
  from Cons.IH [OF b] obtain paths where "map leaf_route members = map route_of paths" "distinct paths" "set paths \<subseteq> between"
    "remaining = between - set paths" "map (path_end vs (manifest, owner)) paths = map (\<lambda>m. Some (leaf_view m, leaf_owner m)) members"
    by blast
  with p show ?case by (intro exI [of _ "path # paths"]) auto
qed simp

section \<open>The enumeration\<close>

lemma enumerate_returns: "\<exists>r. enumerate_recursive_leaf_paths vs lim manifest owner = Some r"
proof (cases "topology_start vs lim manifest owner")
  case (Inr s)
  obtain result where "topology_loop vs lim s = Some result" by (rule topology_loop_ok [OF topology_start_ok [OF Inr]])
  with Inr show ?thesis by (simp add: enumerate_recursive_leaf_paths_def)
qed (simp add: enumerate_recursive_leaf_paths_def)

lemma enumerate_Inr:
  assumes "enumerate_recursive_leaf_paths vs lim manifest owner = Some (Inr (paths, work))"
  shows "paths = {p. \<exists>n. leaf_path vs lim manifest owner All_Leaves p n}" and "finite paths" and "card paths \<le> limit_leaves lim"
    and "work \<le> limit_work lim" and "leaf_path vs lim manifest owner All_Leaves p n \<Longrightarrow> n \<le> limit_depth lim"
proof -
  from assms obtain s where s: "topology_start vs lim manifest owner = Inr s"
    by (auto simp: enumerate_recursive_leaf_paths_def split: sum.splits)
  obtain result where l: "topology_loop vs lim s = Some result"
    and ok: "\<And>r s'. result = Inr (r, s') \<Longrightarrow> resolves vs lim manifest owner All_Leaves r \<and> overlay_span r \<le> limit_depth lim \<and>
      validated_work s' \<le> limit_work lim"
    by (rule topology_loop_ok [OF topology_start_ok [OF s]]) blast
  from assms s l obtain r s' where r: "result = Inr (r, s')" and c: "collect_leaf_paths lim (r, s') = Inr (paths, work)"
    by (auto simp: enumerate_recursive_leaf_paths_def bnd_eq_Inr)
  note ok = ok [OF r]
  from c have p: "paths = set (leaf_paths r)" and d: "distinct (leaf_paths r)" "length (leaf_paths r) \<le> limit_leaves lim"
    and w: "work = validated_work s'"
    by (auto simp: collect_leaf_paths_def res_simps)
  show "paths = {p. \<exists>n. leaf_path vs lim manifest owner All_Leaves p n}" using ok by (simp add: p resolves_def)
  show "finite paths" "card paths \<le> limit_leaves lim" using d by (simp_all add: p distinct_card)
  show "work \<le> limit_work lim" using ok by (simp add: w)
  show "leaf_path vs lim manifest owner All_Leaves p n \<Longrightarrow> n \<le> limit_depth lim" using ok unfolding resolves_def by (meson le_trans)
qed

text \<open>The bound on the number of leaves has no part in what a leaf is.\<close>

lemma leaf_path_limit_leaves [simp]:
  "leaf_path vs (lim\<lparr>limit_leaves := k\<rparr>) view owner selection p n = leaf_path vs lim view owner selection p n"
proof
  have same: "topology_node_of vs (lim\<lparr>limit_leaves := k\<rparr>) v w = topology_node_of vs lim v w" for v w
    by (simp add: topology_node_of_def)
  show "leaf_path vs lim view owner selection p n" if "leaf_path vs (lim\<lparr>limit_leaves := k\<rparr>) view owner selection p n"
    using that by induction (auto simp: same intro: leaf_path.intros)
  show "leaf_path vs (lim\<lparr>limit_leaves := k\<rparr>) view owner selection p n" if "leaf_path vs lim view owner selection p n"
    using that by induction (auto simp: same intro: leaf_path.intros)
qed

section \<open>Root plans\<close>

lemma paired_container_Inr:
  assumes "paired_container vs closure root role s = Inr s'"
  shows "source_attribute closure = Some (Some (closure_view s'))" and "owner_attribute closure = Some (closure_owner s')"
    and "source_attribute root = Some (Some (root_view s'))" and "owner_attribute root = Some (root_owner s')"
proof -
  from assms obtain a b where "validate_recursive_reference vs (closure_view s) closure role False = Inr a"
    "validate_recursive_reference vs (root_view s) root role False = Inr b"
    "s' = \<lparr>closure_view = reference_source a, closure_owner = reference_owner a, root_view = reference_source b, root_owner = reference_owner b\<rparr>"
    by (auto simp: paired_container_def res_simps)
  then show "source_attribute closure = Some (Some (closure_view s'))" "owner_attribute closure = Some (closure_owner s')"
    "source_attribute root = Some (Some (root_view s'))" "owner_attribute root = Some (root_owner s')"
    by (auto dest: validate_recursive_reference_Inr)
qed

lemma follow_paired_path_end:
  assumes "follow_paired_path vs member path s = Inr s'" and "path \<noteq> []"
  shows "path_end vs (closure_view s, closure_owner s) path = Some (closure_view s', closure_owner s')"
    and "path_end vs (root_view s, root_owner s) path = Some (root_view s', root_owner s')"
proof -
  have "path_end vs (closure_view s, closure_owner s) path = Some (closure_view s', closure_owner s') \<and>
    path_end vs (root_view s, root_owner s) path = Some (root_view s', root_owner s')"
    using assms
  proof (induction vs member path s arbitrary: s' rule: follow_paired_path.induct)
    case (2 vs member coordinate rest s)
    from "2.prems"(1) obtain cs closure rs where c: "recursive_segments vs (closure_view s) = Inr cs"
        "get_at cs coordinate = Some closure" and r: "recursive_segments vs (root_view s) = Inr rs"
      by (auto simp: bnd_eq_Inr ok_or_def split: option.splits)
    show ?case
    proof (cases rest)
      case Nil
      with "2.prems"(1) c r have "s' = s" by (auto simp: res_simps split: option.splits)
      with Nil show ?thesis by simp
    next
      case (Cons following rest')
      then have ne: "rest \<noteq> []" by simp
      with "2.prems"(1) c r obtain root role s1 where g: "get_at rs coordinate = Some root"
        and role: "recursive_segment_role closure = Inr role" "recursive_segment_role root = Inr role"
        and st: "paired_container vs closure root role s = Inr s1" and f: "follow_paired_path vs member rest s1 = Inr s'"
        by (auto simp: res_simps split: option.splits)
      have "path_end vs (closure_view s1, closure_owner s1) rest = Some (closure_view s', closure_owner s') \<and>
          path_end vs (root_view s1, root_owner s1) rest = Some (root_view s', root_owner s')"
        by (rule "2.IH" [OF c(1) _ role(1) r g role(2) _ _ st f]) (use c(2) in \<open>simp_all add: Cons res_simps\<close>)
      with c r g paired_container_Inr [OF st] show ?thesis by (simp add: Cons recursive_segments_Inr)
    qed
  qed simp
  then show "path_end vs (closure_view s, closure_owner s) path = Some (closure_view s', closure_owner s')"
    "path_end vs (root_view s, root_owner s) path = Some (root_view s', root_owner s')" by blast+
qed

lemma paired_members_Inr:
  assumes "for_each (validate_paired_member vs start) (zip closure_members root_members) = Inr ()"
    and "length closure_members = length root_members"
  shows "\<exists>paths. map leaf_route closure_members = map route_of paths \<and> map leaf_route root_members = map route_of paths \<and>
    map (path_end vs (closure_view start, closure_owner start)) paths = map (\<lambda>m. Some (leaf_view m, leaf_owner m)) closure_members \<and>
    map (path_end vs (root_view start, root_owner start)) paths = map (\<lambda>m. Some (leaf_view m, leaf_owner m)) root_members \<and>
    map leaf_owner closure_members = map leaf_owner root_members"
  using assms(2,1)
proof (induction rule: list_induct2)
  case (Cons closure cs root rs)
  from Cons.prems obtain path s where p: "recursive_input_path closure = Inr path" "recursive_input_path root = Inr path"
    and o: "leaf_owner closure = leaf_owner root" and f: "follow_paired_path vs root path start = Inr s"
    and e: "closure_view s = leaf_view closure" "closure_owner s = leaf_owner closure" "root_view s = leaf_view root" "root_owner s = leaf_owner root"
    by (auto simp: validate_paired_member_def res_simps)
  from Cons obtain paths where "map leaf_route cs = map route_of paths" "map leaf_route rs = map route_of paths"
    "map (path_end vs (closure_view start, closure_owner start)) paths = map (\<lambda>m. Some (leaf_view m, leaf_owner m)) cs"
    "map (path_end vs (root_view start, root_owner start)) paths = map (\<lambda>m. Some (leaf_view m, leaf_owner m)) rs"
    "map leaf_owner cs = map leaf_owner rs"
    by (auto simp: res_simps)
  with o follow_paired_path_end [OF f] recursive_input_path_Inr [OF p(1)] recursive_input_path_Inr [OF p(2)] show ?case
    by (intro exI [of _ "path # paths"]) (auto simp: e)
qed simp

section \<open>What a constructed compiler holds\<close>

lemma plan_bnd_Inr: "plan_bnd r f = Some (Inr v) \<longleftrightarrow> (\<exists>x. r = Some (Inr x) \<and> f x = Some (Inr v))"
  by (auto simp: plan_bnd_def split: option.splits sum.splits)

lemma plan_bnd_None: "plan_bnd r f = None \<longleftrightarrow> r = None \<or> (\<exists>x. r = Some (Inr x) \<and> f x = None)"
  by (auto simp: plan_bnd_def split: option.splits sum.splits)

lemma leaf_plan_returns: "validate_recursive_leaf_plan vs lim manifest owner members \<noteq> None"
  using enumerate_returns by (simp add: validate_recursive_leaf_plan_def)

lemma root_plan_returns: "validate_recursive_root_plan vs lim start closure_members root_members \<noteq> None"
  using enumerate_returns by (simp add: validate_recursive_root_plan_def split: sum.split)

lemma closure_members_return: "validate_closure_members vs args plan manifest max_work members \<noteq> None"
  using leaf_plan_returns by (simp add: validate_closure_members_def split: prod.split)

lemma root_members_return: "validate_root_members vs args plan manifest root_manifest max_work spent members root_members \<noteq> None"
  by (simp add: validate_root_members_def Let_def plan_bnd_None root_plan_returns del: not_None_eq split: prod.split)

lemma dynamic_composite_returns: "dynamic_composite vs args plan sel tab members \<noteq> None"
  by (simp add: dynamic_composite_def plan_bnd_None closure_members_return root_members_return
      del: not_None_eq split: prod.split option.split)

text \<open>The tables of a dynamic composite: the base is not held twice, and every or no member has a ROOT table.\<close>

definition composite_complete :: "retained_composite_member list \<Rightarrow> bool" where
  "composite_complete members \<longleftrightarrow> 2 \<le> length members \<and> member_buffers (hd members) = None \<and>
     list_all (\<lambda>member. member_buffers member \<noteq> None) (tl members) \<and>
     (list_all (\<lambda>member. member_root member = None) members \<or> list_all (\<lambda>member. member_root member \<noteq> None) members)"

lemma retain_composite_member_Inr:
  assumes "retain_composite_member vs r roots (i, row) = Inr member"
  shows "member_buffers member = None \<longleftrightarrow> i = 0" and "member_root member = None \<longleftrightarrow> roots = None"
  using assms by (auto simp: retain_composite_member_def res_simps transposed_def split: if_splits option.splits)

lemma retain_composite_members_Inr:
  assumes "retain_composite_members vs r roots rows = Inr members" and "2 \<le> length rows"
  shows "composite_complete members"
proof -
  have a: "list_all2 (\<lambda>entry member. retain_composite_member vs r roots entry = Inr member) (enumerate 0 rows) members"
    using fold_collect [OF assms(1) [unfolded retain_composite_members_def]] by auto
  have n: "length members = length rows" using list_all2_lengthD [OF a] by simp
  have at: "(member_buffers (members ! i) = None \<longleftrightarrow> i = 0) \<and> (member_root (members ! i) = None \<longleftrightarrow> roots = None)"
    if "i < length members" for i
  proof -
    have "retain_composite_member vs r roots (i, rows ! i) = Inr (members ! i)"
      using list_all2_nthD2 [OF a that] that n by (simp add: nth_enumerate_eq)
    from retain_composite_member_Inr [OF this] show ?thesis by simp
  qed
  have "member_buffers (tl members ! i) \<noteq> None" if "i < length (tl members)" for i
    using at [of "Suc i"] that by (simp add: nth_tl)
  then have "list_all (\<lambda>member. member_buffers member \<noteq> None) (tl members)" by (simp add: list_all_length)
  moreover have "list_all (\<lambda>member. member_root member = None) members \<or> list_all (\<lambda>member. member_root member \<noteq> None) members"
    using at by (cases roots) (auto simp: list_all_length)
  moreover have "members \<noteq> []" "rows \<noteq> []" using n assms(2) by auto
  ultimately show ?thesis using n assms(2) at [of 0] by (simp add: composite_complete_def hd_conv_nth)
qed

lemma parsed_members_length: "parse_dynamic_composite_members v = Inr members \<Longrightarrow> 2 \<le> length members"
  by (auto simp: parse_dynamic_composite_members_def res_simps not_less dest!: fold_collect list_all2_lengthD)

lemma dynamic_composite_Inr:
  assumes "dynamic_composite vs args plan sel tab rows = Some (Inr (members, limits))" and "2 \<le> length rows"
  shows "composite_complete members" and "0 < fst limits" and "0 < snd limits"
  using assms
  by (auto simp: dynamic_composite_def plan_bnd_Inr res_simps dynamic_composite_limits_def retain_composite_members_Inr
      split: prod.splits option.splits)

lemma overlay_delta_tables_Inr:
  assumes "overlay_delta_tables vs args tab = Inr (delta, limits)"
  shows "delta = None \<and> limits = None \<or> delta \<noteq> None \<and> (\<exists>work workspace. limits = Some (work, workspace) \<and> 0 < work \<and> 0 < workspace)"
  using assms by (auto simp: overlay_delta_tables_def res_simps split: prod.splits option.splits)

lemma constructed_inputs:
  assumes "encoded_direct_compiler_new vs cases args = Some (Inr inputs)"
  shows "case composite_members inputs of None \<Rightarrow> True | Some members \<Rightarrow> composite_complete members"
    and "composite_members inputs = None \<and> overlay_delta_buffers inputs = None \<or>
      (\<exists>work workspace. canonical_merge_limits inputs = Some (work, workspace) \<and> 0 < work \<and> 0 < workspace)"
proof -
  from assms obtain plan sel tab composite delta limits where p: "composite_plan_of args = Inr plan"
    and c: "(case plan_members plan of Some members \<Rightarrow> map_option (map_res Some) (dynamic_composite vs args plan sel tab members)
       | None \<Rightarrow> Some (seq (reject_if (plan_root_members plan \<noteq> None \<or> tab_root_manifest tab \<noteq> None) BufferError) (Inr None))) =
       Some (Inr composite)"
    and d: "(case composite of Some (_, limits) \<Rightarrow> Inr (None, Some limits) | None \<Rightarrow> overlay_delta_tables vs args tab) = Inr (delta, limits)"
    and i: "composite_members inputs = map_option fst composite" "overlay_delta_buffers inputs = delta" "canonical_merge_limits inputs = limits"
    unfolding encoded_direct_compiler_new_def by (auto simp: plan_bnd_Inr res_simps)
  have "(case composite_members inputs of None \<Rightarrow> True | Some members \<Rightarrow> composite_complete members) \<and>
    (composite_members inputs = None \<and> overlay_delta_buffers inputs = None \<or>
      (\<exists>work workspace. canonical_merge_limits inputs = Some (work, workspace) \<and> 0 < work \<and> 0 < workspace))"
  proof (cases composite)
    case None
    then show ?thesis using overlay_delta_tables_Inr [of vs args tab delta limits] d by (auto simp: i)
  next
    case (Some found)
    obtain members bounds where f: "found = (members, bounds)" by (cases found) blast
    from c Some obtain rows where rows: "plan_members plan = Some rows"
      and y: "dynamic_composite vs args plan sel tab rows = Some (Inr (members, bounds))"
      by (auto simp: res_simps f split: option.splits)
    from p rows have "2 \<le> length rows"
      by (auto simp: composite_plan_of_def Let_def res_simps transposed_def split: option.splits dest: parsed_members_length)
    note ok = dynamic_composite_Inr [OF y this]
    then show ?thesis using d by (cases bounds) (auto simp: i Some f)
  qed
  then show "case composite_members inputs of None \<Rightarrow> True | Some members \<Rightarrow> composite_complete members"
    and "composite_members inputs = None \<and> overlay_delta_buffers inputs = None \<or>
      (\<exists>work workspace. canonical_merge_limits inputs = Some (work, workspace) \<and> 0 < work \<and> 0 < workspace)"
    by blast+
qed

lemma composite_columns_succeed:
  assumes m: "composite_members inputs = Some members" and ok: "composite_complete members" and alloc: "\<And>n. alloc n"
  obtains c where "dynamic_composite_columns alloc inputs base = Inr (Some c)" and "length (composite_closure c) = length members"
    and "\<And>roots. composite_root c = Some roots \<Longrightarrow> length roots = length members"
    and "\<exists>columns. retained_base_columns inputs base = Inr columns"
proof -
  obtain first rest where f: "members = first # rest" "member_buffers first = None" and r: "list_all (\<lambda>member. member_buffers member \<noteq> None) rest"
    using ok by (cases members) (auto simp: composite_complete_def)
  have b: "\<exists>columns. retained_base_columns inputs base = Inr columns" by (simp add: retained_base_columns_def m f)
  have "\<exists>column. composite_member_columns inputs base entry = Inr column" if "entry \<in> set (enumerate 0 members)" for entry
  proof -
    obtain i member where e: "entry = (i, member)" by (cases entry)
    with that have "i < length members" "member = members ! i" by (auto simp: in_set_enumerate_eq)
    then have "i = 0 \<or> member_buffers member \<noteq> None" using r by (cases i) (auto simp: f list_all_length)
    with b show ?thesis by (auto simp: composite_member_columns_def e)
  qed
  then obtain cs where cs: "fold_res (\<lambda>indexed columns. map_res (\<lambda>column. columns @ [column])
      (composite_member_columns inputs base indexed)) (enumerate 0 members) [] = Inr cs" "length cs = length members"
    using fold_collect_succeeds [of "enumerate 0 members" "composite_member_columns inputs base" "[]"] by auto
  show thesis
  proof (cases "\<exists>member \<in> set members. member_root member \<noteq> None")
    case False
    with that [of "\<lparr>composite_closure = cs, composite_root = None\<rparr>"] cs b show ?thesis
      by (simp add: dynamic_composite_columns_def m alloc)
  next
    case True
    then have "\<forall>member \<in> set members. \<exists>column. composite_root_columns inputs member = Inr column"
      using ok by (auto simp: composite_complete_def composite_root_columns_def list_all_iff)
    then obtain roots where "fold_res (\<lambda>member columns. map_res (\<lambda>column. columns @ [column])
        (composite_root_columns inputs member)) members [] = Inr roots" "length roots = length members"
      using fold_collect_succeeds [of members "composite_root_columns inputs" "[]"] by auto
    with True that [of "\<lparr>composite_closure = cs, composite_root = Some roots\<rparr>"] cs b show ?thesis
      by (simp add: dynamic_composite_columns_def m alloc)
  qed
qed

end
