(* ===== verification/Manifest_Properties.thy ===== *)
theory Manifest_Properties
  imports Plan_Paths
begin

text \<open>
  The properties of the manifests: the walk over a recursive manifest returns and finds exactly its
  leaves, an accepted plan is a bijection between its rows and these leaves, and what the constructor
  accepts is complete enough for every later call. The witnesses run the validators on concrete views.
\<close>

section \<open>Sample views\<close>

text \<open>Two tables (1, 2), the overlay 3 of table 2 with a delta, and the composite 4 of table 1 and overlay 3.\<close>

definition bytes_view :: "bytes \<Rightarrow> memory_view" where
  "bytes_view v = \<lparr>view_exact = True, view_readonly = True, view_ndim = 1, view_itemsize = 1, view_c_contiguous = True,
     view_format = ''B'', view_nbytes = length v, view_len = length v, view_obj = ExactImmutableBytes 0 v, view_contents = v\<rparr>"

definition column_views :: "bytes \<Rightarrow> (string \<times> memory_view) list" where
  "column_views kinds = map (\<lambda>name. (name, bytes_view (if name = ''root_kinds'' then kinds
     else if name = ''node_field_offsets'' then replicate 8 (char_of (0 :: nat)) else []))) BUFFER_NAMES"

definition sample_segment :: "usize \<Rightarrow> py_object \<Rightarrow> py_object option \<Rightarrow> member_token \<Rightarrow> manifest_segment" where
  "sample_segment role owner source token = \<lparr>role_attribute = Some role, owner_attribute = Some owner,
     source_attribute = Some source, posting_attribute = Some 0, root_ids_attribute = Some (90, bytes_view []),
     scope_map_attribute = Some (91, bytes_view []), token_attribute = Some token\<rparr>"

definition sample_view :: "py_object \<Rightarrow> bytes \<Rightarrow> manifest_segment list \<Rightarrow> view_object" where
  "sample_view owner kinds segments = \<lparr>schema_name = Some ENCODED_SCHEMA_NAME, schema_version = Some 2,
     model_schema = Some 2, view_owner = Some owner, view_scope = Some 77, view_descriptor = Some ''d'',
     view_buffers = Some (column_views kinds), view_segments = Some segments\<rparr>"

definition sample_views :: views where
  "sample_views view =
     (if view = 1 then sample_view 11 ''k'' [sample_segment 1 11 None NoToken]
      else if view = 2 then sample_view 12 ''k'' [sample_segment 1 12 None NoToken]
      else if view = 3 then sample_view 13 ''k'' [sample_segment 2 12 (Some 2) NoToken, sample_segment 3 13 None NoToken]
      else sample_view 14 [] [sample_segment 4 11 (Some 1) (ExactToken (replicate 32 (CHR ''a''))),
             sample_segment 4 13 (Some 3) (ExactToken (replicate 32 (CHR ''b'')))])"

definition sample_limits :: topology_limits where
  "sample_limits = \<lparr>limit_digest = Some ENCODED_DESCRIPTOR_SHA256, limit_work = 2000, limit_depth = 1, limit_leaves = 3,
     retain_empty = False\<rparr>"

definition sample_row :: "py_object \<Rightarrow> py_object \<Rightarrow> usize list \<Rightarrow> member_row \<times> raw_path" where
  "sample_row view owner path = (\<lparr>row_view = view, row_owner = owner, row_digest = Some ENCODED_DESCRIPTOR_SHA256,
     row_included = None, row_excluded = None\<rparr>, Some (map Some path))"

definition sample_leaf_rows :: "composite_row list" where
  "sample_leaf_rows = map (\<lambda>(row, path). SevenFields row (Some []) path)
     [sample_row 1 11 [0, 0], sample_row 2 12 [1, 0, 0], sample_row 3 13 [1, 1]]"

definition sample_members :: "dynamic_member list" where
  "sample_members = (case parse_dynamic_composite_members (Some sample_leaf_rows) of Inr members \<Rightarrow> members | Inl _ \<Rightarrow> [])"

definition sample_pair :: paired_walk where
  "sample_pair = \<lparr>closure_view = 4, closure_owner = 14, root_view = 4, root_owner = 14\<rparr>"

definition sample_arguments :: compiler_arguments where
  "sample_arguments = \<lparr>encoded_view = 1, expected_owner = 11, descriptor_digest = Some ENCODED_DESCRIPTOR_SHA256,
     root_annotation_view = (None, None, None), excluded_argument = None, overlay_delta_view = (None, None, None),
     canonical_work_limit = Some 2000, canonical_workspace_limit = Some 5, max_overlay_depth = Some 1,
     retain_empty_direct_leaves = False, merge_manifest_view = (Some 4, Some 14, Some (Some ENCODED_DESCRIPTOR_SHA256)),
     composite_rows = Some (Some sample_leaf_rows), root_merge_manifest_view = (None, None, None), composite_root_rows = None,
     included_argument = None, right_excluded_argument = None, third_member_view = (None, None, None),
     third_excluded_argument = None, nested_member_view = (None, None, None), fourth_member_view = (None, None, None),
     fourth_excluded_argument = None, scope_map_argument = None, right_scope_map_argument = None\<rparr>"


lemma sample_leaves: "enumerate_recursive_leaf_paths sample_views sample_limits 4 14 = Some (Inr ({[0, 0], [1, 0, 0], [1, 1]}, 803))"
  by code_simp

definition sample_member :: "py_object \<Rightarrow> py_object \<Rightarrow> usize list \<Rightarrow> dynamic_member" where
  "sample_member view owner path = \<lparr>leaf_view = view, leaf_owner = owner, leaf_digest = Some ENCODED_DESCRIPTOR_SHA256,
     leaf_included = None, leaf_excluded = None, leaf_scope_map = None, leaf_scope_chain = Some [], leaf_route = route_of path\<rparr>"

lemma sample_members_eq: "sample_members = [sample_member 1 11 [0, 0], sample_member 2 12 [1, 0, 0], sample_member 3 13 [1, 1]]"
  by (simp add: sample_members_def parse_dynamic_composite_members_def sample_leaf_rows_def sample_row_def required_def ok_or_def
      member_of_row_def sample_member_def route_of_def)

lemma sample_walks:
  "follow_member_path sample_views (sample_member 1 11 [0, 0]) False [0, 0] (path_walk_start 4 14) = Inr (path_walk_start 1 11)"
  "follow_member_path sample_views (sample_member 2 12 [1, 0, 0]) False [1, 0, 0] (path_walk_start 4 14) = Inr (path_walk_start 2 12)"
  "follow_member_path sample_views (sample_member 3 13 [1, 1]) False [1, 1] (path_walk_start 4 14) = Inr (path_walk_start 3 13)"
  by code_simp+

lemma sample_input_path: "path \<noteq> [] \<Longrightarrow> recursive_input_path (sample_member view owner path) = Inr path"
proof -
  have "fold_res (\<lambda>coordinate path. map_res (\<lambda>i. path @ [i]) (ok_or BufferError coordinate)) (map Some xs) ys = Inr (ys @ xs)" for xs ys :: "usize list"
    by (induction xs arbitrary: ys) (simp_all add: ok_or_def)
  then show "path \<noteq> [] \<Longrightarrow> recursive_input_path (sample_member view owner path) = Inr path"
    by (simp add: recursive_input_path_def sample_member_def route_of_def ok_or_def)
qed

lemma sample_member_path:
  assumes "path \<noteq> []" and "path \<in> expected"
    and "follow_member_path sample_views (sample_member view owner path) allow path (path_walk_start 4 14) = Inr (path_walk_start view owner)"
  shows "validate_recursive_member_path sample_views 4 14 allow (sample_member view owner path) expected = Inr (expected - {path})"
  using assms
  by (simp add: validate_recursive_member_path_def sample_input_path path_walk_start_def applicable_scope_maps_def
      optional_recursive_binding_matches_def recursive_scope_chain_matches_def) (simp add: sample_member_def)

lemma sample_limit_leaves: "sample_limits\<lparr>limit_leaves := Suc (Suc (Suc 0))\<rparr> = sample_limits"
  by (simp add: sample_limits_def)

lemma sample_leaf_plan: "validate_recursive_leaf_plan sample_views sample_limits 4 14 sample_members = Some (Inr 803)"
  by (simp add: validate_recursive_leaf_plan_def sample_members_eq sample_limit_leaves sample_leaves sample_member_path sample_walks
      del: One_nat_def follow_member_path.simps)

section \<open>The walk\<close>

text \<open>
  Constructing a compiler always returns, and so does the walk over a recursive manifest it rests on,
  whatever the graph of views: cyclic manifests, shared subgraphs and views that refer to themselves
  included. The loop of the code has no bound of its own; every view it validates costs work.
\<close>
theorem recursive_walk_returns:
  "enumerate_recursive_leaf_paths vs lim manifest owner \<noteq> None \<and> encoded_direct_compiler_new vs cases args \<noteq> None"
proof
  show "enumerate_recursive_leaf_paths vs lim manifest owner \<noteq> None" using enumerate_returns by simp
  show "encoded_direct_compiler_new vs cases args \<noteq> None"
    by (simp add: encoded_direct_compiler_new_def plan_bnd_None dynamic_composite_returns del: not_None_eq split: option.split)
qed

text \<open>
  An accepted walk finds exactly the leaves of the manifest: the paths it returns are those of the
  inductive reference \<open>leaf_path\<close>, not more of them than the caller retained tables for, no leaf lies
  under more overlays than the depth limit, and the work stays within its limit.
\<close>
theorem leaf_paths_exact:
  assumes "enumerate_recursive_leaf_paths vs lim manifest owner = Some (Inr (paths, work))"
  shows "paths = {p. \<exists>n. n \<le> limit_depth lim \<and> leaf_path vs lim manifest owner All_Leaves p n} \<and>
    {p. \<exists>n. limit_depth lim < n \<and> leaf_path vs lim manifest owner All_Leaves p n} = {} \<and>
    finite paths \<and> card paths \<le> limit_leaves lim \<and> work \<le> limit_work lim"
  using enumerate_Inr [OF assms] by (auto simp: leD)

theorem leaf_paths_exact_witness:
  "{p. \<exists>n. n \<le> limit_depth sample_limits \<and> leaf_path sample_views sample_limits 4 14 All_Leaves p n} = {[0, 0], [1, 0, 0], [1, 1]}"
  using leaf_paths_exact [OF sample_leaves] by blast

section \<open>Plans\<close>

text \<open>
  C23: The validation of a recursive plan always returns, whatever the graph of views: cyclic manifests,
  shared subgraphs and views that refer to themselves included. When it accepts, the rows of the plan are
  in bijection with the leaves of the manifest: every row names a path, no path is named twice, the paths
  are exactly those of the leaves, following the path of a row through the references of the views ends
  at the view and the owner of the row, and the work stays within its limit.
\<close>
theorem leaf_plan_exact:
  "\<exists>result. validate_recursive_leaf_plan vs lim manifest owner members = Some result \<and> (\<forall>work. result = Inr work \<longrightarrow>
    (\<exists>paths. map leaf_route members = map route_of paths \<and> distinct paths \<and>
      set paths = {p. \<exists>n. leaf_path vs lim manifest owner All_Leaves p n} \<and>
      map (path_end vs (manifest, owner)) paths = map (\<lambda>m. Some (leaf_view m, leaf_owner m)) members \<and> work \<le> limit_work lim))"
proof -
  obtain result where r: "validate_recursive_leaf_plan vs lim manifest owner members = Some result"
    using leaf_plan_returns [of vs lim manifest owner members] unfolding not_None_eq by blast
  moreover have "\<exists>paths. map leaf_route members = map route_of paths \<and> distinct paths \<and>
      set paths = {p. \<exists>n. leaf_path vs lim manifest owner All_Leaves p n} \<and>
      map (path_end vs (manifest, owner)) paths = map (\<lambda>m. Some (leaf_view m, leaf_owner m)) members \<and> work \<le> limit_work lim"
    if "result = Inr work" for work
  proof -
    from r that obtain expected remaining
      where e: "enumerate_recursive_leaf_paths vs (lim\<lparr>limit_leaves := length members\<rparr>) manifest owner = Some (Inr (expected, work))"
        and f: "fold_res (validate_recursive_member_path vs manifest owner False) members expected = Inr remaining" and r: "remaining = {}"
      by (auto simp: validate_recursive_leaf_plan_def res_simps split: if_splits)
    from enumerate_Inr(1,4) [OF e] have "expected = {p. \<exists>n. leaf_path vs lim manifest owner All_Leaves p n}" "work \<le> limit_work lim"
      by simp_all
    with member_paths_Inr [OF f] r show ?thesis by blast
  qed
  ultimately show ?thesis by blast
qed

theorem leaf_plan_exact_witness:
  "\<exists>paths. set paths = {p. \<exists>n. leaf_path sample_views sample_limits 4 14 All_Leaves p n} \<and> length paths = 3 \<and>
     map (path_end sample_views (4, 14)) paths = [Some (1, 11), Some (2, 12), Some (3, 13)]"
proof -
  obtain paths where s: "set paths = {p. \<exists>n. leaf_path sample_views sample_limits 4 14 All_Leaves p n}"
    and e: "map (path_end sample_views (4, 14)) paths = map (\<lambda>m. Some (leaf_view m, leaf_owner m)) sample_members"
    using leaf_plan_exact [of sample_views sample_limits 4 14 sample_members] unfolding sample_leaf_plan by blast
  from e have l: "length paths = 3" by (drule_tac map_eq_imp_length_eq) (simp add: sample_members_eq)
  from e have "map (path_end sample_views (4, 14)) paths = [Some (1, 11), Some (2, 12), Some (3, 13)]"
    by (simp add: sample_members_eq sample_member_def)
  from s l this show ?thesis by (rule exI [of _ paths, OF conjI [OF _ conjI]])
qed

text \<open>
  An accepted ROOT plan pairs the tables of the closure: the rows of both manifests name the same
  paths in the same order, none twice, the leaves selected in the ROOT manifest are among them, every
  row of either manifest is the table its path leads to there, and paired tables have one owner.
\<close>
theorem root_plan_paired:
  assumes "validate_recursive_root_plan vs lim start closure_members root_members = Some (Inr ())"
  shows "\<exists>paths. map leaf_route closure_members = map route_of paths \<and> map leaf_route root_members = map route_of paths \<and>
    distinct paths \<and> {p. \<exists>n. leaf_path vs lim (root_view start) (root_owner start) All_Leaves p n} \<subseteq> set paths \<and>
    map (path_end vs (closure_view start, closure_owner start)) paths = map (\<lambda>m. Some (leaf_view m, leaf_owner m)) closure_members \<and>
    map (path_end vs (root_view start, root_owner start)) paths = map (\<lambda>m. Some (leaf_view m, leaf_owner m)) root_members \<and>
    map leaf_owner closure_members = map leaf_owner root_members"
proof -
  from assms obtain actual work paired remaining
    where e: "enumerate_recursive_leaf_paths vs (lim\<lparr>limit_leaves := length root_members\<rparr>) (root_view start) (root_owner start) = Some (Inr (actual, work))"
      and sub: "actual \<subseteq> paired"
      and f: "fold_res (validate_recursive_member_path vs (root_view start) (root_owner start) True) root_members paired = Inr remaining" "remaining = {}"
      and p: "validate_recursive_manifest_pair vs start closure_members root_members = Inr ()"
    by (auto simp: validate_recursive_root_plan_def res_simps split: if_splits sum.splits)
  from p have z: "for_each (validate_paired_member vs start) (zip closure_members root_members) = Inr ()" "length closure_members = length root_members"
    by (auto simp: validate_recursive_manifest_pair_def seq_eq_Inr reject_if_eq_Inr)
  obtain paths where paths: "map leaf_route closure_members = map route_of paths" "map leaf_route root_members = map route_of paths"
    "map (path_end vs (closure_view start, closure_owner start)) paths = map (\<lambda>m. Some (leaf_view m, leaf_owner m)) closure_members"
    "map (path_end vs (root_view start, root_owner start)) paths = map (\<lambda>m. Some (leaf_view m, leaf_owner m)) root_members"
    "map leaf_owner closure_members = map leaf_owner root_members"
    using paired_members_Inr [OF z] by blast
  obtain paths' where paths': "map leaf_route root_members = map route_of paths'" "distinct paths'" "set paths' \<subseteq> paired" "paired - set paths' = {}"
    using member_paths_Inr [OF f(1)] f(2) by blast
  have inj: "inj route_of" by (auto simp: inj_def route_of_def)
  from paths(2) paths'(1) have "map route_of paths = map route_of paths'" by simp
  then have "paths = paths'" by (simp add: inj_map_eq_map [OF inj])
  moreover have "{p. \<exists>n. leaf_path vs lim (root_view start) (root_owner start) All_Leaves p n} \<subseteq> set paths'"
    using enumerate_Inr(1) [OF e] sub paths'(4) by auto
  ultimately show ?thesis using paths paths'(2) by blast
qed

lemma sample_walks_root:
  "follow_member_path sample_views (sample_member 1 11 [0, 0]) True [0, 0] (path_walk_start 4 14) = Inr (path_walk_start 1 11)"
  "follow_member_path sample_views (sample_member 2 12 [1, 0, 0]) True [1, 0, 0] (path_walk_start 4 14) = Inr (path_walk_start 2 12)"
  "follow_member_path sample_views (sample_member 3 13 [1, 1]) True [1, 1] (path_walk_start 4 14) = Inr (path_walk_start 3 13)"
  by code_simp+

lemma sample_paired_walks:
  "follow_paired_path sample_views (sample_member 1 11 [0, 0]) [0, 0] sample_pair =
     Inr \<lparr>closure_view = 1, closure_owner = 11, root_view = 1, root_owner = 11\<rparr>"
  "follow_paired_path sample_views (sample_member 2 12 [1, 0, 0]) [1, 0, 0] sample_pair =
     Inr \<lparr>closure_view = 2, closure_owner = 12, root_view = 2, root_owner = 12\<rparr>"
  "follow_paired_path sample_views (sample_member 3 13 [1, 1]) [1, 1] sample_pair =
     Inr \<lparr>closure_view = 3, closure_owner = 13, root_view = 3, root_owner = 13\<rparr>"
  by code_simp+

lemma sample_pair_views: "root_view sample_pair = 4" "root_owner sample_pair = 14" "closure_view sample_pair = 4" "closure_owner sample_pair = 14"
  by (simp_all add: sample_pair_def)

lemma sample_member_views: "leaf_view (sample_member view owner path) = view" "leaf_owner (sample_member view owner path) = owner"
  by (simp_all add: sample_member_def)

lemma sample_root_paths:
  "fold_res paired_path (zip sample_members sample_members) {} = Inr {[1, 1], [1, 0, 0], [0, 0]}"
  by (simp add: sample_members_eq paired_path_def sample_input_path del: One_nat_def)

lemma sample_root_members:
  "fold_res (validate_recursive_member_path sample_views 4 14 True) sample_members {[1, 1], [1, 0, 0], [0, 0]} = Inr {}"
proof -
  define paths where "paths = {[1, 1], [1, 0, 0], [0, 0 :: usize]}"
  have p: "[0, 0] \<in> paths" "[1, 0, 0] \<in> paths" "[1, 1] \<in> paths" and e: "paths - {[0, 0]} - {[1, 0, 0]} - {[1, 1]} = {}"
    by (auto simp: paths_def)
  have "fold_res (validate_recursive_member_path sample_views 4 14 True) sample_members paths = Inr {}"
    by (simp add: sample_members_eq sample_member_path sample_walks_root p e del: One_nat_def follow_member_path.simps)
  then show ?thesis by (simp add: paths_def)
qed

lemma sample_root_pairs: "validate_recursive_manifest_pair sample_views sample_pair sample_members sample_members = Inr ()"
  by (simp add: validate_recursive_manifest_pair_def sample_pair_views sample_members_eq validate_paired_member_def sample_input_path
      sample_paired_walks sample_member_views del: One_nat_def follow_paired_path.simps)

lemma sample_root_plan: "validate_recursive_root_plan sample_views sample_limits sample_pair sample_members sample_members = Some (Inr ())"
proof -
  have lim: "sample_limits\<lparr>limit_leaves := length sample_members\<rparr> = sample_limits"
    by (simp add: sample_limits_def sample_members_eq)
  show ?thesis
    unfolding validate_recursive_root_plan_def sample_pair_views lim sample_leaves sample_root_paths
    by (simp add: sample_root_members sample_root_pairs del: One_nat_def)
qed

theorem root_plan_paired_witness:
  "\<exists>paths. map leaf_route sample_members = map route_of paths \<and>
     map (path_end sample_views (4, 14)) paths = [Some (1, 11), Some (2, 12), Some (3, 13)]"
proof -
  obtain paths where r: "map leaf_route sample_members = map route_of paths"
    and e: "map (path_end sample_views (4, 14)) paths = map (\<lambda>m. Some (leaf_view m, leaf_owner m)) sample_members"
    using root_plan_paired [OF sample_root_plan, unfolded sample_pair_views] by blast
  from e have "map (path_end sample_views (4, 14)) paths = [Some (1, 11), Some (2, 12), Some (3, 13)]"
    by (simp add: sample_members_eq sample_member_def)
  with r show ?thesis by (rule exI [of _ paths, OF conjI])
qed

section \<open>The constructor\<close>

text \<open>
  What the constructor accepts is complete. The first call of such a compiler gets past the set-up of
  its tables: as long as the reservations succeed, the base and every member of a dynamic composite have
  their columns, either all of its members have a ROOT table or none, and whenever several tables are
  merged the compiler has positive canonical limits. The errors the later code raises for lost tables or
  limits cannot occur.
\<close>
theorem constructed_compiler_enters:
  assumes "encoded_direct_compiler_new vs cases args = Some (Inr inputs)" and "\<And>n. alloc n"
  shows "\<exists>columns composite.
     enter_compiler alloc inputs STATE_IDLE = (Inr (columns, composite), STATE_RUNNING) \<and>
     (case (composite, composite_members inputs) of
        (None, None) \<Rightarrow> True
      | (Some tables, Some members) \<Rightarrow> length (composite_closure tables) = length members \<and> 2 \<le> length members \<and>
          (case composite_root tables of None \<Rightarrow> True | Some roots \<Rightarrow> length roots = length members)
      | _ \<Rightarrow> False) \<and>
     (composite = None \<and> overlay_delta_columns inputs = None \<or>
      (\<exists>work workspace. canonical_merge_limits inputs = Some (work, workspace) \<and> 0 < work \<and> 0 < workspace))"
proof (cases "composite_members inputs")
  case None
  then obtain columns where "retained_base_columns inputs (table_of inputs (base_buffers inputs)) = Inr columns"
    by (simp add: retained_base_columns_def)
  with None constructed_inputs(2) [OF assms(1)] show ?thesis
    by (auto simp: enter_compiler_def begin_compiler_def dynamic_composite_columns_def overlay_delta_columns_def)
next
  case (Some members)
  with constructed_inputs(1) [OF assms(1)] have ok: "composite_complete members" by simp
  obtain tables columns where "dynamic_composite_columns alloc inputs (table_of inputs (base_buffers inputs)) = Inr (Some tables)"
    "length (composite_closure tables) = length members" "\<And>roots. composite_root tables = Some roots \<Longrightarrow> length roots = length members"
    "retained_base_columns inputs (table_of inputs (base_buffers inputs)) = Inr columns"
    by (rule composite_columns_succeed [where alloc = alloc, OF Some ok assms(2)]) blast
  with Some ok constructed_inputs(2) [OF assms(1)] show ?thesis
    by (auto simp: enter_compiler_def begin_compiler_def composite_complete_def split: option.split)
qed

definition succeeds :: "'a compiler_res \<Rightarrow> bool" where
  "succeeds r = (case r of Inl _ \<Rightarrow> False | Inr _ \<Rightarrow> True)"

lemma succeeds_Inr: "succeeds r \<longleftrightarrow> (\<exists>v. r = Inr v)"
  by (simp add: succeeds_def split: sum.split)

lemma sample_headers:
  "validate_encoded_view_header sample_views 1 11 (Some ENCODED_DESCRIPTOR_SHA256) = Inr ()"
  "validate_encoded_view_header sample_views 2 12 (Some ENCODED_DESCRIPTOR_SHA256) = Inr ()"
  "validate_encoded_view_header sample_views 3 13 (Some ENCODED_DESCRIPTOR_SHA256) = Inr ()"
  by (simp_all add: validate_encoded_view_header_def Let_def sample_views_def sample_view_def required_def ok_or_def
      ENCODED_SCHEMA_VERSION_def ENCODED_MODEL_SCHEMA_def)

lemma sample_structural_buffers:
  "succeeds (view_structural_buffers sample_views 1)"
  "succeeds (view_structural_buffers sample_views 2)"
  "succeeds (view_structural_buffers sample_views 3)"
  by code_simp+

lemma sample_tables:
  obtains base members where "base_table_buffers sample_views sample_arguments True = Inr base"
    and "retain_composite_members sample_views True None sample_members = Inr members"
proof -
  obtain a b c where "view_structural_buffers sample_views 1 = Inr a" "view_structural_buffers sample_views 2 = Inr b"
    "view_structural_buffers sample_views 3 = Inr c"
    using sample_structural_buffers by (auto simp: succeeds_Inr)
  then have "\<exists>base. base_table_buffers sample_views sample_arguments True = Inr base"
    "\<exists>members. retain_composite_members sample_views True None sample_members = Inr members"
    by (simp_all add: base_table_buffers_def sample_arguments_def sample_headers retain_composite_members_def sample_members_eq
        retain_composite_member_def retain_first_member_def retain_member_table_def sample_member_def transposed_def
        retained_optional_def retain_dynamic_scope_maps_def del: One_nat_def)
  with that show thesis by blast
qed

lemma sample_plan: "composite_plan_of sample_arguments = Inr \<lparr>plan_members = Some sample_members, plan_root_members = None,
    recursive_plan = True, plan_overlay_depth = 1\<rparr>"
proof -
  have "parse_dynamic_composite_members (Some sample_leaf_rows) = Inr sample_members"
    by (simp add: sample_members_def parse_dynamic_composite_members_def sample_leaf_rows_def sample_row_def required_def ok_or_def)
  moreover have "\<exists>row \<in> set sample_members. leaf_route row \<noteq> None" "\<not> (\<exists>row \<in> set sample_members. leaf_route row = None)"
    by (auto simp: sample_members_eq sample_member_def route_of_def)
  ultimately show ?thesis
    by (auto simp: composite_plan_of_def sample_arguments_def transposed_def Let_def ok_or_def reject_if_def)
qed

lemma leaf_plan_limit_leaves:
  "validate_recursive_leaf_plan vs (lim\<lparr>limit_leaves := n\<rparr>) manifest owner members =
     validate_recursive_leaf_plan vs lim manifest owner members"
  by (simp add: validate_recursive_leaf_plan_def)

lemma sample_construction: "\<exists>inputs. encoded_direct_compiler_new sample_views (\<lambda>c. [c]) sample_arguments = Some (Inr inputs) \<and>
    composite_members inputs \<noteq> None"
proof -
  obtain base members where b: "base_table_buffers sample_views sample_arguments True = Inr base"
    and m: "retain_composite_members sample_views True None sample_members = Inr members"
    by (rule sample_tables)
  have t: "retained_tables_of sample_views sample_arguments = Inr \<lparr>tab_annotations = None,
      tab_manifest = Some (4, 14, Some ENCODED_DESCRIPTOR_SHA256), tab_root_manifest = None, tab_third = None, tab_third_buffers = None,
      tab_fourth = None, tab_fourth_buffers = None, tab_nested = None\<rparr>"
    by (simp add: retained_tables_of_def sample_arguments_def supplied_def bound_buffers_def transposed_def)
  have l: "plan_limits sample_arguments \<lparr>plan_members = Some sample_members, plan_root_members = None, recursive_plan = True,
      plan_overlay_depth = 1\<rparr> (Some ENCODED_DESCRIPTOR_SHA256) 2000 = sample_limits\<lparr>limit_leaves := 0\<rparr>"
    by (simp add: plan_limits_def sample_limits_def sample_arguments_def)
  have v: "validate_recursive_leaf_plan sample_views (sample_limits\<lparr>limit_leaves := 0\<rparr>) 4 14 sample_members = Some (Inr 803)"
    by (simp only: leaf_plan_limit_leaves sample_leaf_plan)
  have s: "retained_selections_of sample_arguments = Inr \<lparr>sel_included = None, sel_excluded = None, sel_right_excluded = None,
      sel_third_excluded = None, sel_fourth_excluded = None, sel_scope_map = None, sel_right_scope_map = None\<rparr>"
    by (simp add: retained_selections_of_def sample_arguments_def retained_optional_def transposed_def)
  have a: "overlay_delta_view sample_arguments = (None, None, None)" "canonical_work_limit sample_arguments = Some 2000"
    "canonical_workspace_limit sample_arguments = Some 5" "encoded_view sample_arguments = 1" "expected_owner sample_arguments = 11"
    by (simp_all add: sample_arguments_def)
  have h: "leaf_view (hd sample_members) = 1" "leaf_owner (hd sample_members) = 11"
    by (simp_all add: sample_members_eq sample_member_views)
  show ?thesis
    by (simp add: encoded_direct_compiler_new_def plan_bnd_def sample_plan b m s t dynamic_composite_def no_fixed_inputs_def
        nothing_supplied_def a dynamic_composite_limits_def ok_or_def h validate_closure_members_def l v check_members_def
        check_inclusion_def check_scope_remapping_def Let_def del: One_nat_def)
qed

theorem constructed_compiler_enters_witness:
  "\<exists>inputs tables columns. encoded_direct_compiler_new sample_views (\<lambda>c. [c]) sample_arguments = Some (Inr inputs) \<and>
     enter_compiler (\<lambda>_. True) inputs STATE_IDLE = (Inr (columns, Some tables), STATE_RUNNING)"
proof -
  obtain inputs where i: "encoded_direct_compiler_new sample_views (\<lambda>c. [c]) sample_arguments = Some (Inr inputs)"
    "composite_members inputs \<noteq> None" using sample_construction by blast
  obtain columns composite where "enter_compiler (\<lambda>_. True) inputs STATE_IDLE = (Inr (columns, composite), STATE_RUNNING)"
    "composite \<noteq> None"
    using constructed_compiler_enters [OF i(1), of "\<lambda>_. True"] i(2) by (auto split: option.splits)
  with i(1) show ?thesis by auto
qed

end
