(* ===== verification/Spec2Isabelle.thy ===== *)
theory Spec2Isabelle
  imports Edge_Engine Plan_Census Compiler_Safety Merge_Properties Overlay_Properties Compiler_Dispatch Manifest_Properties
begin

text \<open>
  A verification library for the Rust kernel of pyOwl2Vec-Star-projector (\<open>src/native/src/lib.rs\<close> and
  \<open>src/native/src/encoded_direct.rs\<close>), which projects OWL ontologies to edges. All names below are those
  of the code unless they are theory names.

  \<^bold>\<open>The program.\<close> An ontology arrives as a table of eleven little-endian buffers (\<open>DirectColumns\<close>): roots,
  nodes, fields, items and scalar bytes. Each root is an axiom, an ontology annotation or an extension.
  A compilation validates the table, resolves every selected root to a row of \<open>ROOT_RULES\<close>, plans its
  shape, replays the object-property axioms into a role state, counts the edges exactly and prepares an
  emission cursor, from which the Python side drains batches of edges. Several tables are first merged in
  the canonical order of their roots (\<open>canonical_merge\<close>). Independently of this, \<open>EdgeBatchProcessor\<close>
  orders and deduplicates edges that Python itself produced. The compiler object lives behind an atomic
  state word, can be cancelled from other threads, and may retain the role state between compilations.

  \<^bold>\<open>Theories and code.\<close> Prelude has the shared vocabulary: \<open>Result\<close> as a sum (\<open>'a kres\<close>), its
  combinators, checked arithmetic on \<open>usize\<close> (a natural number with \<open>fits\<close>), \<open>binary_search_by_key\<close>.
  Run_Monad threads a budget, a workspace or a validation state through fallible calls.

  \<^item> Edge_Engine: \<open>Edge\<close>, \<open>OutputOrder\<close>, \<open>DuplicatePolicy\<close>, \<open>EdgeEngine\<close>, \<open>EdgeBatchProcessor\<close> of \<open>lib.rs\<close>.
  \<^item> Cancellable: \<open>check_cancel\<close>, \<open>cancellable_sort_unstable_by\<close>, \<open>cancellable_retain\<close>. Tags: constants and tag
    predicates. Text_Rendering: Java hashes on 32-bit words, varints, anonymous identifiers, literals.
  \<^item> Role_State: \<open>OwnedRoleState\<close>, \<open>RoleState\<close> and \<open>build_role_state_from_rows\<close>, with the iteration order of
    the emulated hash table. 
  \<^item> Columns, Entities, Class_Expressions: the readers and one-node validators of \<open>DirectColumns\<close>.
    Table_Encoding encodes abstract tables, for round trips and witnesses.
  \<^item> Graph_Walk, Supported_Nodes, Generic_Validation: \<open>validate_generic\<close> and \<open>validate_supported_nodes\<close> with
    the three cycle checks. Reachability: \<open>root_contains_anonymous_individual\<close>, \<open>axiom_anonymous_ids\<close>.
  \<^item> Root_Rules, Root_Plan: \<open>ROOT_RULES\<close>, the projection modes and \<open>populate_selected_root_rule_plan\<close>;
    Plan_Invariant and Plan_Census say what a plan holds.
  \<^item> Overlay_Deltas, Emission: \<open>OwnedOverlayDeltaProjection\<close>, \<open>DirectPreparation\<close>, \<open>PendingExpansion\<close> and
    \<open>DirectEmissionCursor::next_edge\<close>; Emission_Trace is a reference enumeration of the edges of a
    preparation and Emission_Output shows that the cursor refines it. Provenance, Preparation:
    \<open>select_root_annotation_nodes\<close>, \<open>prepare_direct\<close>; Announced_Edges compares the two.
  \<^item> Canonical_Budget, Canonical_Table, Canonical_Cursor, Canonical_Merge, Canonical_Kway: the module
    \<open>canonical_merge\<close>; Canonical_Code is the reference code of a node; Canonical_Lengths, Canonical_Emission,
    Canonical_Order, Canonical_Selection, Merged_Roots, Kway_Roots, Anonymous_Positions hold its
    correctness; Merge_Loops has the loops over whole mergers with their metering, and Merge_Properties
    the theorems.
  \<^item> Overlay_Workspace, Budgeted_Plan, Composite_Scope, Overlay_Ownership, Local_Rules, Class_Index: the
    workspace of an overlay and what it owns: \<open>resolve_selected_root_rule_plan\<close>, the members of a composite
    under scope maps, the owned deltas, the local rule plans, the domain and range index.
  \<^item> Overlay_Segments, Two_Tables: \<open>prepare_two_table_batches_uncommitted\<close>. Composite_Setup, Composite_Merge,
    Composite_Preparation, Composite_Batches: \<open>prepare_dynamic_composite_batches_with_root_uncommitted\<close>, in the
    steps of the code. Overlay_Placement and Composite_Placement follow the positions of the deltas through
    the merges, Overlay_Properties states them.
  \<^item> Compiler_Inputs, Compiler_Lifecycle, Compiler_Runs, Compiler_Safety: \<open>EncodedDirectCompiler\<close> of
    \<open>lib.rs\<close>, from the retained buffers to the interleaving of threads; Compiler_Dispatch chooses the
    preparation a call runs.
  \<^item> Manifest_Objects, Direct_Manifests, Recursive_Topology, Recursive_Plans, Compiler_Construction: the
    views, segments and manifests a compiler is constructed from, their validators (\<open>validate_direct_segment\<close>
    to \<open>validate_recursive_root_plan\<close>) and \<open>EncodedDirectCompiler::new\<close>. Topology_Paths and Plan_Paths relate
    the walk over a recursive manifest to its leaves, Manifest_Properties states it.

  \<^bold>\<open>How state is modelled.\<close> A struct is a record, a method returns the updated record, \<open>?\<close> is \<open>bnd\<close>. Error
  messages are dropped, their kinds kept. The atomic state a kernel polls is a constant \<open>st\<close> of one kernel
  run: while a compilation runs the word can only become cancelled, and Compiler_Runs shows (\<open>observed\<close>)
  why a run sees one value until it stops. Threads interleave between the sections of a call, which are
  cut where the code takes a lock, releases the interpreter or calls into Python. Budgeted code passes
  its budget along (\<open>metered\<close>). Allocations of bounded size succeed unless the budget depends on their
  capacity, in which case the allocator is a parameter (\<open>canonical_allocator\<close>) about which nothing is
  assumed. A Python object of a manifest is a number, its identity, with the attributes the code reads;
  an attribute that is missing or not of the exact type the code asks for is \<open>None\<close>.

  \<^bold>\<open>Termination and bounds.\<close> Loops over indices are folds; searches and walks have measures (the interval,
  the uncoloured nodes, \<open>work_left\<close> of a budget, which bounds the byte cursor even on a cyclic table).
  The emission loop and the walk over a recursive manifest are a \<open>partial_function (option)\<close> and are proved
  to return, the first for prepared tables, the second for every manifest, cyclic ones included. Size
  hypotheses (\<open>buffers_fit\<close>, \<open>sized_stream\<close>, lengths below \<open>2^56\<close>) say that data in memory is shorter than
  \<open>usize\<close> allows.

  \<^bold>\<open>What is shown.\<close> Edge_Engine: what any draining schedule hands out. Validation: accepted tables can be
  read without failure, every scalar and item inside its arena, and the node pass is characterised
  exactly. Plans: each counter is a census of the selected roots, which follow the rule table. Emission:
  announced edges are exactly the edges handed out, in any batches, and a prepared stream hands out
  everything. Merge: the comparison is the order of the canonical codes, the mergers enumerate the union
  of the selections, and a whole merge stays within its limits. A local segment that shares a key with
  its base is refused (\<open>RejectDuplicates\<close> is the only policy); otherwise its roots have their places between
  the base roots, and the roots of composite members theirs. Manifests: the rows of an accepted recursive
  plan are the leaves of the manifest. Compiler: in every interleaving over compilers of one table the
  handed-out edges are exact, flags have owners, a taken stream can be finished, and the retained roles
  change only with a finished compilation. For composites the flags are not always cleared: a failed
  reservation in the setup of the tables leaves a compilation marked as running, or the output as
  draining, at two early returns, and Compiler_Lifecycle shows for both that no later call recovers.

  \<^bold>\<open>Not modelled.\<close> The acquisition and layout checks of Python buffers, the factories that wrap edges and
  statistics, and the registration of the module in \<open>lib.rs\<close>: glue around PyO3. The texts of diagnostics. The
  small reservations of the manifest validators are taken to succeed. Interleaved runs have compilers of
  one table only: the preparations of composites are modelled as calls of one thread.
\<close>

end
